(* ===== verification/Rust_Strings.thy ===== *)
theory Rust_Strings
  imports Rust_Prelude
begin

text \<open>
  Rust strings: the bytes of a string, the check of \<open>String::from_utf8\<close>, the test
  \<open>s.trim().is_empty()\<close>, \<open>split\<close> at separator characters, \<open>join\<close> and \<open>starts_with\<close>.
\<close>

section \<open>Bytes of a string\<close>

definition as_bytes :: "string \<Rightarrow> u8 list" where
  "as_bytes s = map of_char s"

definition bytes_to_string :: "u8 list \<Rightarrow> string" where
  "bytes_to_string bs = map (\<lambda>b. char_of (unat b)) bs"

lemma length_as_bytes [simp]: "length (as_bytes s) = length s"
  by (simp add: as_bytes_def)

lemma unat_of_char [simp]: "unat (of_char c :: u8) = of_char c"
proof -
  have "unat (of_nat (of_char c) :: u8) = (of_char c :: nat)"
    by (simp add: unsigned_of_nat take_bit_eq_mod)
  then show ?thesis by (simp only: of_nat_of_char)
qed

lemma bytes_to_string_as_bytes [simp]: "bytes_to_string (as_bytes s) = s"
  by (simp add: bytes_to_string_def as_bytes_def o_def)

section \<open>Well-formed UTF-8\<close>

text \<open>A continuation byte, and the well-formed sequences of the Unicode standard (table 3-7).\<close>

definition utf8_cont :: "nat \<Rightarrow> bool" where
  "utf8_cont b \<longleftrightarrow> 128 \<le> b \<and> b \<le> 191"

definition utf8_three :: "nat \<Rightarrow> nat \<Rightarrow> nat \<Rightarrow> bool" where
  "utf8_three b c d \<longleftrightarrow> utf8_cont d \<and>
     ((b = 224 \<and> 160 \<le> c \<and> c \<le> 191) \<or>
      (((225 \<le> b \<and> b \<le> 236) \<or> b = 238 \<or> b = 239) \<and> utf8_cont c) \<or>
      (b = 237 \<and> 128 \<le> c \<and> c \<le> 159))"

definition utf8_four :: "nat \<Rightarrow> nat \<Rightarrow> nat \<Rightarrow> nat \<Rightarrow> bool" where
  "utf8_four b c d e \<longleftrightarrow> utf8_cont d \<and> utf8_cont e \<and>
     ((b = 240 \<and> 144 \<le> c \<and> c \<le> 191) \<or>
      (241 \<le> b \<and> b \<le> 243 \<and> utf8_cont c) \<or>
      (b = 244 \<and> 128 \<le> c \<and> c \<le> 143))"

fun utf8_valid :: "nat list \<Rightarrow> bool" where
  "utf8_valid [] = True"
| "utf8_valid (b # bs) =
     (if b < 128 then utf8_valid bs
      else case bs of
        [] \<Rightarrow> False
      | c # cs \<Rightarrow>
          if 194 \<le> b \<and> b \<le> 223 \<and> utf8_cont c then utf8_valid cs
          else (case cs of
            [] \<Rightarrow> False
          | d # ds \<Rightarrow>
              if utf8_three b c d then utf8_valid ds
              else (case ds of
                [] \<Rightarrow> False
              | e # es \<Rightarrow> if utf8_four b c d e then utf8_valid es else False)))"

definition is_utf8 :: "string \<Rightarrow> bool" where
  "is_utf8 s \<longleftrightarrow> utf8_valid (map of_char s)"

definition from_utf8 :: "u8 list \<Rightarrow> string option" where
  "from_utf8 bs = (if utf8_valid (map unat bs) then Some (bytes_to_string bs) else None)"

lemma from_utf8_as_bytes [simp]: "is_utf8 s \<Longrightarrow> from_utf8 (as_bytes s) = Some s"
  by (simp add: from_utf8_def is_utf8_def as_bytes_def o_def bytes_to_string_def)

lemma of_char_inverse_byte: "(of_char (char_of (unat (b :: u8)) :: char) :: u8) = b"
proof -
  have "unat b < 256" using unsigned_less [of b, where 'a = nat] by simp
  then have "of_char (char_of (unat b) :: char) = unat b" by (simp add: of_char_of)
  then have "(of_nat (of_char (char_of (unat b) :: char)) :: u8) = b" by simp
  then show ?thesis by (simp only: of_nat_of_char)
qed

lemma as_bytes_to_string [simp]: "as_bytes (bytes_to_string bs) = bs"
  by (simp add: as_bytes_def bytes_to_string_def o_def of_char_inverse_byte)

lemma from_utf8_SomeD: "from_utf8 bs = Some s \<Longrightarrow> is_utf8 s \<and> as_bytes s = bs"
proof -
  assume "from_utf8 bs = Some s"
  then have valid: "utf8_valid (map unat bs)" and s: "s = bytes_to_string bs"
    by (auto simp: from_utf8_def split: if_splits)
  have "map unat (as_bytes s) = (map of_char s :: nat list)" by (simp add: as_bytes_def)
  then have "map of_char s = (map unat bs :: nat list)" by (simp add: s)
  with valid s show ?thesis by (simp add: is_utf8_def)
qed

lemma is_utf8_ascii: "\<forall>c \<in> set s. (of_char c :: nat) < 128 \<Longrightarrow> is_utf8 s"
  unfolding is_utf8_def by (induction s) auto

text \<open>The same set of byte sequences as an inductive predicate, for the proofs.\<close>

inductive utf8 :: "nat list \<Rightarrow> bool" where
  utf8_Nil: "utf8 []"
| utf8_1: "b < 128 \<Longrightarrow> utf8 bs \<Longrightarrow> utf8 (b # bs)"
| utf8_2: "194 \<le> b \<Longrightarrow> b \<le> 223 \<Longrightarrow> utf8_cont c \<Longrightarrow> utf8 bs \<Longrightarrow> utf8 (b # c # bs)"
| utf8_3: "utf8_three b c d \<Longrightarrow> utf8 bs \<Longrightarrow> utf8 (b # c # d # bs)"
| utf8_4: "utf8_four b c d e \<Longrightarrow> utf8 bs \<Longrightarrow> utf8 (b # c # d # e # bs)"

lemma utf8_three_high: "utf8_three b c d \<Longrightarrow> 224 \<le> b \<and> b \<le> 239 \<and> 128 \<le> c \<and> 128 \<le> d"
  by (auto simp: utf8_three_def utf8_cont_def)

lemma utf8_four_high: "utf8_four b c d e \<Longrightarrow> 240 \<le> b \<and> 128 \<le> c \<and> 128 \<le> d \<and> 128 \<le> e"
  by (auto simp: utf8_four_def utf8_cont_def)

lemma utf8_valid_imp_utf8: "utf8_valid bs \<Longrightarrow> utf8 bs"
proof (induction "length bs" arbitrary: bs rule: less_induct)
  case less
  note IH = less.hyps
  show ?case
  proof (cases bs rule: remdups_adj.cases)
    case 1
    then show ?thesis by (simp add: utf8_Nil)
  next
    case (2 b)
    with less.prems have "b < 128" by (simp split: if_splits)
    with 2 show ?thesis by (simp add: utf8_1 utf8_Nil)
  next
    case (3 b c cs)
    consider (one) "b < 128" | (two) "194 \<le> b" "b \<le> 223" "utf8_cont c"
      | (more) "\<not> b < 128" "\<not> (194 \<le> b \<and> b \<le> 223 \<and> utf8_cont c)" by blast
    then show ?thesis
    proof cases
      case one
      with less.prems 3 IH [of "c # cs"] show ?thesis by (simp add: utf8_1)
    next
      case two
      with less.prems 3 IH [of cs] show ?thesis by (simp add: utf8_2)
    next
      case more
      then obtain d ds where ds: "cs = d # ds" using less.prems 3 by (cases cs) (simp_all split: if_splits)
      show ?thesis
      proof (cases "utf8_three b c d")
        case True
        with less.prems 3 more ds IH [of ds] show ?thesis
          by (simp add: utf8_3)
      next
        case False
        then obtain e es where es: "ds = e # es"
          using less.prems 3 more ds by (cases ds) simp_all
        have "utf8_four b c d e \<and> utf8_valid es"
          using less.prems 3 more ds es False
          by (simp split: if_splits)
        with 3 ds es IH [of es] show ?thesis by (simp add: utf8_4)
      qed
    qed
  qed
qed

lemma utf8_imp_utf8_valid: "utf8 bs \<Longrightarrow> utf8_valid bs"
proof (induction rule: utf8.induct)
  case (utf8_3 b c d bs)
  then show ?case
    using utf8_three_high [of b c d] by simp
next
  case (utf8_4 b c d e bs)
  moreover have "\<not> utf8_three b c d"
    using utf8_three_high [of b c d] utf8_four_high [OF utf8_4(1)] by auto
  ultimately show ?case
    using utf8_four_high [of b c d e]
    by simp
qed simp_all

lemma utf8_valid_iff: "utf8_valid bs \<longleftrightarrow> utf8 bs"
  using utf8_valid_imp_utf8 utf8_imp_utf8_valid by blast

lemma utf8_append: "utf8 xs \<Longrightarrow> utf8 ys \<Longrightarrow> utf8 (xs @ ys)"
  by (induction rule: utf8.induct) (auto intro: utf8.intros)

lemma utf8_split_ascii:
  assumes "utf8 (xs @ b # ys)" and "b < 128"
  shows "utf8 xs \<and> utf8 ys"
proof -
  have "utf8 xs \<and> utf8 ys" if "utf8 zs" and "zs = xs @ b # ys" for zs
    using that
  proof (induction zs arbitrary: xs rule: utf8.induct)
    case utf8_Nil
    then show ?case by simp
  next
    case (utf8_1 c bs)
    then show ?case by (cases xs) (auto intro: utf8.intros)
  next
    case (utf8_2 c d bs)
    then show ?case using assms(2)
      by (auto simp: Cons_eq_append_conv utf8_cont_def intro!: utf8.utf8_2)
  next
    case (utf8_3 c d e bs)
    then show ?case using assms(2) utf8_three_high [of c d e]
      by (auto simp: Cons_eq_append_conv intro!: utf8.utf8_3)
  next
    case (utf8_4 c d e f bs)
    then show ?case using assms(2) utf8_four_high [of c d e f]
      by (auto simp: Cons_eq_append_conv intro!: utf8.utf8_4)
  qed
  with assms(1) show ?thesis by blast
qed

lemma utf8_valid_append_ascii:
  assumes "b < 128"
  shows "utf8_valid (xs @ b # ys) \<longleftrightarrow> utf8_valid xs \<and> utf8_valid ys"
  unfolding utf8_valid_iff
  using utf8_append [of xs "b # ys"] utf8_split_ascii [of xs b ys] utf8_1 [of b ys] assms by blast

lemma utf8_valid_map_ascii:
  assumes "\<And>n. n < 128 \<Longrightarrow> f n < 128" and "\<And>n. 128 \<le> n \<Longrightarrow> f n = n"
    and "utf8_valid xs"
  shows "utf8_valid (map f xs)"
proof -
  have "utf8 (map f xs)"
    using utf8_valid_imp_utf8 [OF assms(3)]
  proof (induction rule: utf8.induct)
    case (utf8_3 b c d bs)
    then show ?case using utf8_three_high [of b c d] by (simp add: assms(2) utf8.utf8_3)
  next
    case (utf8_4 b c d e bs)
    then show ?case using utf8_four_high [of b c d e] by (simp add: assms(2) utf8.utf8_4)
  qed (auto simp: assms utf8_cont_def intro: utf8.intros)
  then show ?thesis by (simp add: utf8_valid_iff)
qed

lemma is_utf8_append_ascii:
  "(of_char c :: nat) < 128 \<Longrightarrow> is_utf8 (x @ c # y) \<longleftrightarrow> is_utf8 x \<and> is_utf8 y"
  by (simp add: is_utf8_def utf8_valid_append_ascii)

lemma is_utf8_Nil [simp]: "is_utf8 []"
  by (simp add: is_utf8_def)

lemma is_utf8_Cons_ascii: "(of_char c :: nat) < 128 \<Longrightarrow> is_utf8 (c # y) \<longleftrightarrow> is_utf8 y"
  using is_utf8_append_ascii [of c "[]" y] by simp

section \<open>Blank strings\<close>

text \<open>
  \<open>s.trim().is_empty()\<close>: every character has the Unicode property \<open>White_Space\<close>. Below
  are the UTF-8 encodings of those 25 characters.
\<close>

definition ws2 :: "nat \<Rightarrow> nat \<Rightarrow> bool" where
  "ws2 b c \<longleftrightarrow> b = 194 \<and> (c = 133 \<or> c = 160)"

definition ws3 :: "nat \<Rightarrow> nat \<Rightarrow> nat \<Rightarrow> bool" where
  "ws3 b c d \<longleftrightarrow>
     (b = 225 \<and> c = 154 \<and> d = 128) \<or>
     (b = 226 \<and> c = 128 \<and> ((128 \<le> d \<and> d \<le> 138) \<or> d = 168 \<or> d = 169 \<or> d = 175)) \<or>
     (b = 226 \<and> c = 129 \<and> d = 159) \<or>
     (b = 227 \<and> c = 128 \<and> d = 128)"

fun blank_bytes :: "nat list \<Rightarrow> bool" where
  "blank_bytes [] = True"
| "blank_bytes (b # bs) =
     (if (9 \<le> b \<and> b \<le> 13) \<or> b = 32 then blank_bytes bs
      else case bs of
        [] \<Rightarrow> False
      | c # cs \<Rightarrow>
          if ws2 b c then blank_bytes cs
          else (case cs of
            [] \<Rightarrow> False
          | d # ds \<Rightarrow>
              if ws3 b c d then blank_bytes ds else False))"

definition trim_is_empty :: "string \<Rightarrow> bool" where
  "trim_is_empty s = blank_bytes (map of_char s)"

lemma trim_is_empty_Nil [simp]: "trim_is_empty []"
  by (simp add: trim_is_empty_def)

text \<open>A string with a printable ASCII character in front is not blank.\<close>

lemma not_blank_ascii:
  "32 < (of_char c :: nat) \<Longrightarrow> (of_char c :: nat) < 128 \<Longrightarrow> \<not> trim_is_empty (c # s)"
  by (auto simp: trim_is_empty_def ws2_def ws3_def split: list.splits)

section \<open>Trimming\<close>

text \<open>The length of the white space character at the head of a UTF-8 string, zero if there is none.\<close>

definition white_space_at :: "nat list \<Rightarrow> nat" where
  "white_space_at bs = (case bs of
       [] \<Rightarrow> 0
     | b # bs \<Rightarrow>
         if (9 \<le> b \<and> b \<le> 13) \<or> b = 32 then 1
         else (case bs of
           [] \<Rightarrow> 0
         | c # cs \<Rightarrow>
             if ws2 b c then 2
             else (case cs of
               [] \<Rightarrow> 0
             | d # ds \<Rightarrow>
                 if ws3 b c d then 3 else 0)))"

text \<open>\<open>str::trim\<close>: without the white space at both ends.\<close>

fun trim_start :: "string \<Rightarrow> string" where
  "trim_start [] = []"
| "trim_start (c # s) =
     (let n = white_space_at (map of_char (c # s))
      in if n = 0 then c # s else trim_start (drop (n - 1) s))"

fun trim_end :: "string \<Rightarrow> string" where
  "trim_end [] = []"
| "trim_end (c # s) =
     (let n = white_space_at (map of_char (c # s))
      in if n = 0 then c # trim_end s
         else let rest = trim_end (drop (n - 1) s)
           in if rest = [] then [] else c # take (n - 1) s @ rest)"

definition trim :: "string \<Rightarrow> string" where
  "trim s = trim_end (trim_start s)"

lemma white_space_at_simps [simp]:
  "white_space_at [] = 0"
  "white_space_at (b # bs) =
     (if (9 \<le> b \<and> b \<le> 13) \<or> b = 32 then 1
      else case bs of
        [] \<Rightarrow> 0
      | c # cs \<Rightarrow> if ws2 b c then 2 else (case cs of [] \<Rightarrow> 0 | d # ds \<Rightarrow> if ws3 b c d then 3 else 0))"
  by (simp_all add: white_space_at_def)

lemma white_space_at_length: "white_space_at bs \<le> length bs"
  by (cases bs) (auto split: list.split)

lemma white_space_at_append:
  "white_space_at xs \<noteq> 0 \<Longrightarrow> white_space_at (xs @ ys) = white_space_at xs"
  by (cases xs; cases "List.tl xs"; cases "List.tl (List.tl xs)") (auto split: if_splits)

lemma white_space_at_take:
  "white_space_at xs = n \<Longrightarrow> n \<noteq> 0 \<Longrightarrow> white_space_at (take n xs @ ys) = n"
  by (cases xs; cases "List.tl xs"; cases "List.tl (List.tl xs)") (auto split: if_splits)

lemma blank_bytes_step:
  "blank_bytes bs \<longleftrightarrow> bs = [] \<or> (white_space_at bs \<noteq> 0 \<and> blank_bytes (drop (white_space_at bs) bs))"
  by (cases bs; cases "List.tl bs"; cases "List.tl (List.tl bs)") (auto split: if_splits)

declare white_space_at_simps(2) [simp del]

lemma trim_is_empty_Cons:
  "trim_is_empty (c # s) \<longleftrightarrow> white_space_at (map of_char (c # s)) \<noteq> 0 \<and>
     trim_is_empty (drop (white_space_at (map of_char (c # s)) - 1) s)"
proof -
  have "drop n (map of_char (c # s)) = (map of_char (drop (n - 1) s) :: nat list)" if "n \<noteq> 0" for n
    using that by (cases n) (simp_all add: drop_map)
  then show ?thesis
    unfolding trim_is_empty_def
    by (subst blank_bytes_step) (auto simp del: blank_bytes.simps)
qed

lemma trim_end_empty: "trim_end s = [] \<longleftrightarrow> trim_is_empty s"
proof (induction s rule: trim_end.induct)
  case (2 c s)
  then show ?case
    by (simp add: Let_def trim_is_empty_Cons del: blank_bytes.simps)
qed simp

lemma trim_start_empty: "trim_is_empty (trim_start s) \<longleftrightarrow> trim_is_empty s"
proof (induction s rule: trim_start.induct)
  case (2 c s)
  then show ?case by (simp add: Let_def trim_is_empty_Cons)
qed simp

lemma trim_empty: "trim s = [] \<longleftrightarrow> trim_is_empty s"
  by (simp add: trim_def trim_end_empty trim_start_empty)

lemma trim_end_prefix: "\<exists>t. s = trim_end s @ t"
proof (induction s rule: trim_end.induct)
  case (2 c s)
  let ?n = "white_space_at (map of_char (c # s))"
  show ?case
  proof (cases "?n = 0")
    case True
    with 2(1) [OF refl] show ?thesis by simp
  next
    case False
    with 2(2) [OF refl] obtain t where t: "drop (?n - 1) s = trim_end (drop (?n - 1) s) @ t" by blast
    show ?thesis
    proof (cases "trim_end (drop (?n - 1) s) = []")
      case True
      with False show ?thesis by (simp add: Let_def)
    next
      case neq: False
      have "c # s = (c # take (?n - 1) s @ trim_end (drop (?n - 1) s)) @ t"
        using t by (metis append_Cons append_assoc append_take_drop_id)
      with False neq show ?thesis by (simp add: Let_def) blast
    qed
  qed
qed simp

lemma white_space_at_trim_end:
  "white_space_at (map of_char (c # s)) = 0 \<Longrightarrow> white_space_at (map of_char (c # trim_end s)) = 0"
  using trim_end_prefix [of s] white_space_at_append [of "map of_char (c # trim_end s)"]
  by (metis append_Cons map_append)

lemma trim_end_idem: "trim_end (trim_end s) = trim_end s"
proof (induction s rule: trim_end.induct)
  case (2 c s)
  let ?n = "white_space_at (map of_char (c # s))"
  show ?case
  proof (cases "?n = 0")
    case True
    with 2(1) [OF refl] white_space_at_trim_end [of c s] show ?thesis by simp
  next
    case False
    let ?rest = "trim_end (drop (?n - 1) s)"
    have IH: "trim_end ?rest = ?rest" using 2(2) [OF refl False] .
    have len: "length (take (?n - 1) s) = ?n - 1"
      using white_space_at_length [of "map of_char (c # s)"] by simp
    have "c # take (?n - 1) s = take ?n (c # s)" using False by (cases ?n) simp_all
    then have "map of_char (c # take (?n - 1) s @ ?rest) = take ?n (map of_char (c # s)) @ (map of_char ?rest :: nat list)"
      by (metis append_Cons map_append take_map)
    then have ws: "white_space_at (map of_char (c # take (?n - 1) s @ ?rest)) = ?n"
      using white_space_at_take [OF refl False, of "map of_char ?rest"] by (simp only:)
    show ?thesis
    proof (cases "?rest = []")
      case True
      with False show ?thesis by (simp add: Let_def)
    next
      case neq: False
      then have eq: "trim_end (c # s) = c # take (?n - 1) s @ ?rest" using False by (simp add: Let_def)
      have "trim_end (c # take (?n - 1) s @ ?rest) = c # take (?n - 1) s @ ?rest"
        using ws False IH neq len by (subst trim_end.simps) (simp only: ws Let_def, simp)
      then show ?thesis by (simp only: eq)
    qed
  qed
qed simp

lemma trim_start_fixed:
  "trim_start s = [] \<or> (\<exists>c t. trim_start s = c # t \<and> white_space_at (map of_char (c # t)) = 0)"
  by (induction s rule: trim_start.induct) (auto simp: Let_def)

lemma trim_idem [simp]: "trim (trim s) = trim s"
proof (cases "trim_start s = []")
  case False
  then obtain c t where u: "trim_start s = c # t" "white_space_at (map of_char (c # t)) = 0"
    using trim_start_fixed by blast
  then have "trim s = c # trim_end t" by (simp add: trim_def)
  moreover have "trim_start (c # trim_end t) = c # trim_end t"
    using white_space_at_trim_end [OF u(2)] by simp
  ultimately show ?thesis
    using trim_end_idem [of "c # t"] u(2) by (simp add: trim_def)
qed (simp add: trim_def)

lemma trim_visible:
  assumes "\<forall>c \<in> set s. 32 < (of_char c :: nat) \<and> (of_char c :: nat) < 128"
  shows "trim s = s"
proof -
  have "white_space_at (map of_char (c # t)) = 0"
    if "32 < (of_char c :: nat)" "(of_char c :: nat) < 128" for c t
    using that by (auto simp: white_space_at_simps ws2_def ws3_def split: list.splits)
  then have "trim_end s = s" and "trim_start s = s"
    using assms by (induction s) simp_all
  then show ?thesis by (simp add: trim_def)
qed

text \<open>Trimming keeps a string well formed.\<close>

lemma white_space_at_cont: "128 \<le> b \<Longrightarrow> b \<le> 191 \<Longrightarrow> white_space_at (b # bs) = 0"
  by (auto simp: white_space_at_simps ws2_def ws3_def split: list.split)

lemma white_space_at_utf8:
  assumes "utf8 bs"
  shows "utf8 (take (white_space_at bs) bs) \<and> utf8 (drop (white_space_at bs) bs)"
  using assms
proof cases
  case utf8_1
  then show ?thesis
    by (auto simp: white_space_at_simps ws2_def ws3_def utf8.intros split: list.split)
next
  case (utf8_2 b c bs')
  then have "white_space_at bs = (if ws2 b c then 2 else 0)"
    by (auto simp: white_space_at_simps ws2_def ws3_def split: list.split)
  with utf8_2 assms show ?thesis by (auto intro: utf8.intros)
next
  case (utf8_3 b c d bs')
  then have "white_space_at bs = (if ws3 b c d then 3 else 0)"
    using utf8_three_high [of b c d] by (auto simp: white_space_at_simps ws2_def)
  with utf8_3 assms show ?thesis by (auto intro: utf8.intros)
next
  case (utf8_4 b c d e bs')
  then have "white_space_at bs = 0"
    using utf8_four_high [of b c d e] by (auto simp: white_space_at_simps ws2_def ws3_def)
  with assms show ?thesis by (auto intro: utf8.intros)
qed (simp add: utf8.intros)

lemma is_utf8_trim_start: "is_utf8 s \<Longrightarrow> is_utf8 (trim_start s)"
proof (induction s rule: trim_start.induct)
  case (2 c s)
  let ?n = "white_space_at (map of_char (c # s))"
  show ?case
  proof (cases "?n = 0")
    case False
    have "utf8 (drop ?n (map of_char (c # s)))"
      using 2(2) white_space_at_utf8 by (simp add: is_utf8_def utf8_valid_iff)
    then have "is_utf8 (drop (?n - 1) s)"
      using False by (cases ?n) (simp_all add: is_utf8_def utf8_valid_iff drop_map)
    with 2(1) [OF refl] False show ?thesis by simp
  qed (use 2(2) in simp)
qed simp

lemma trim_end_skip:
  "white_space_at (map of_char (c # s)) = 0 \<Longrightarrow> trim_end (c # s) = c # trim_end s"
  by simp

lemma is_utf8_trim_end: "is_utf8 s \<Longrightarrow> is_utf8 (trim_end s)"
proof -
  have "utf8 (map of_char (trim_end s))" if "utf8 zs" and "zs = map of_char s" for zs s
    using that
  proof (induction "length zs" arbitrary: zs s rule: less_induct)
    case less
    note IH = less.hyps
    let ?n = "white_space_at zs"
    show ?case
    proof (cases "?n = 0")
      case False
      then obtain c t where s: "s = c # t" using less.prems by (cases s) auto
      define rest where "rest = trim_end (drop (?n - 1) t)"
      have "utf8 (drop ?n zs)" "utf8 (take ?n zs)" using white_space_at_utf8 [OF less.prems(1)] by auto
      moreover have "drop ?n zs = map of_char (drop (?n - 1) t)" "take ?n zs = map of_char (c # take (?n - 1) t)"
        using False less.prems(2) s by (cases ?n; simp add: drop_map take_map)+
      ultimately have parts: "utf8 (map of_char (c # take (?n - 1) t))" "utf8 (map of_char rest)"
        using IH [of "drop ?n zs" "drop (?n - 1) t"] False less.prems(2) s by (auto simp: rest_def)
      have "trim_end s = (if rest = [] then [] else c # take (?n - 1) t @ rest)"
        using False less.prems(2) s by (simp add: Let_def rest_def)
      then show ?thesis using utf8_append [OF parts] by (simp add: utf8.intros)
    next
      case True
      from less.prems(1) show ?thesis
      proof cases
        case utf8_Nil
        with less.prems show ?thesis by (simp add: utf8.intros)
      next
        case (utf8_1 b bs)
        then obtain x u where s: "s = x # u" "b = of_char x" "bs = map of_char u" using less.prems(2) by auto
        with utf8_1 IH [of bs u] True less.prems(2) show ?thesis by (simp add: utf8.utf8_1)
      next
        case (utf8_2 b c bs)
        then obtain x y u where s: "s = x # y # u" "b = of_char x" "c = of_char y" "bs = map of_char u"
          using less.prems(2) by auto
        have "white_space_at (map of_char (y # u)) = 0"
          using utf8_2 s by (simp add: utf8_cont_def white_space_at_cont)
        with utf8_2 s IH [of bs u] True less.prems(2) show ?thesis by (simp add: utf8.utf8_2)
      next
        case (utf8_3 b c d bs)
        then obtain x y z u where s: "s = x # y # z # u" "b = of_char x" "c = of_char y" "d = of_char z"
            "bs = map of_char u"
          using less.prems(2) by auto
        have "white_space_at (map of_char (y # z # u)) = 0" "white_space_at (map of_char (z # u)) = 0"
          using utf8_3 s by (auto simp: utf8_three_def utf8_cont_def white_space_at_cont)
        with utf8_3 s IH [of bs u] True less.prems(2) show ?thesis by (simp add: utf8.utf8_3)
      next
        case (utf8_4 b c d e bs)
        then obtain x y z w u where s: "s = x # y # z # w # u" "b = of_char x" "c = of_char y"
            "d = of_char z" "e = of_char w" "bs = map of_char u"
          using less.prems(2) by auto
        have "white_space_at (map of_char (y # z # w # u)) = 0" "white_space_at (map of_char (z # w # u)) = 0"
            "white_space_at (map of_char (w # u)) = 0"
          using utf8_4 s by (auto simp: utf8_four_def utf8_cont_def white_space_at_cont)
        with utf8_4 s IH [of bs u] True less.prems(2) show ?thesis by (simp add: utf8.utf8_4)
      qed
    qed
  qed
  then show "is_utf8 s \<Longrightarrow> is_utf8 (trim_end s)" by (simp add: is_utf8_def utf8_valid_iff)
qed

lemma is_utf8_trim: "is_utf8 s \<Longrightarrow> is_utf8 (trim s)"
  by (simp add: trim_def is_utf8_trim_start is_utf8_trim_end)

declare ws2_def [simp] ws3_def [simp]

section \<open>Splitting and joining\<close>

text \<open>\<open>s.split(seps)\<close>: the pieces between separators, empty pieces included.\<close>

fun split_on :: "char set \<Rightarrow> string \<Rightarrow> string list" where
  "split_on seps [] = [[]]"
| "split_on seps (c # s) =
     (if c \<in> seps then [] # split_on seps s
      else (case split_on seps s of
              [] \<Rightarrow> [[c]]
            | p # ps \<Rightarrow> (c # p) # ps))"

fun join_with :: "string \<Rightarrow> string list \<Rightarrow> string" where
  "join_with sep [] = []"
| "join_with sep [p] = p"
| "join_with sep (p # q # ps) = p @ sep @ join_with sep (q # ps)"

fun starts_with :: "string \<Rightarrow> string \<Rightarrow> bool" where
  "starts_with s [] = True"
| "starts_with [] (p # ps) = False"
| "starts_with (c # s) (p # ps) = (c = p \<and> starts_with s ps)"

lemma starts_with_iff: "starts_with s p \<longleftrightarrow> (\<exists>t. s = p @ t)"
  by (induction s p rule: starts_with.induct) auto

lemma split_on_not_Nil [simp]: "split_on seps s \<noteq> []"
  by (cases s) (auto split: list.splits)

lemma split_on_no_sep: "p \<in> set (split_on seps s) \<Longrightarrow> set p \<inter> seps = {}"
  by (induction s arbitrary: p) (fastforce split: if_splits list.splits)+

lemma split_on_clean: "set p \<inter> seps = {} \<Longrightarrow> split_on seps p = [p]"
  by (induction p) auto

lemma split_on_append_sep:
  "set p \<inter> seps = {} \<Longrightarrow> c \<in> seps \<Longrightarrow> split_on seps (p @ c # s) = p # split_on seps s"
  by (induction p) auto

lemma split_on_join:
  assumes "ps \<noteq> []" and "\<forall>p \<in> set ps. set p \<inter> seps = {}" and "c \<in> seps"
  shows "split_on seps (join_with [c] ps) = ps"
  using assms
  by (induction "[c]" ps rule: join_with.induct) (auto simp: split_on_clean split_on_append_sep)

lemma set_join_with: "set (join_with sep ps) \<subseteq> set sep \<union> (\<Union>p \<in> set ps. set p)"
  by (induction sep ps rule: join_with.induct) auto

lemma split_on_append:
  "c \<in> seps \<Longrightarrow> split_on seps (x @ c # y) = split_on seps x @ split_on seps y"
  by (induction x) (auto split: list.splits)

lemma split_on_utf8:
  assumes "\<forall>c \<in> seps. (of_char c :: nat) < 128"
  shows "is_utf8 s \<Longrightarrow> p \<in> set (split_on seps s) \<Longrightarrow> is_utf8 p"
proof (induction "length s" arbitrary: s rule: less_induct)
  case less
  show ?case
  proof (cases "set s \<inter> seps = {}")
    case True
    with less.prems show ?thesis by (simp add: split_on_clean)
  next
    case False
    then obtain c where "c \<in> set s" "c \<in> seps" by blast
    then obtain x y where s: "s = x @ c # y" by (meson split_list)
    have "is_utf8 x" "is_utf8 y"
      using less.prems(1) \<open>c \<in> seps\<close> assms by (simp_all add: s is_utf8_append_ascii)
    moreover have "p \<in> set (split_on seps x) \<or> p \<in> set (split_on seps y)"
      using less.prems(2) \<open>c \<in> seps\<close> by (simp add: s split_on_append)
    moreover have "length x < length s" "length y < length s" by (simp_all add: s)
    ultimately show ?thesis using less.hyps by blast
  qed
qed

lemma join_with_utf8:
  "(of_char c :: nat) < 128 \<Longrightarrow> \<forall>p \<in> set ps. is_utf8 p \<Longrightarrow> is_utf8 (join_with [c] ps)"
  by (induction "[c]" ps rule: join_with.induct) (auto simp: is_utf8_append_ascii)

text \<open>The bytes of a list of pieces, with one separator each.\<close>

definition pieces_size :: "string list \<Rightarrow> nat" where
  "pieces_size ps = sum_list (map (\<lambda>p. Suc (length p)) ps)"

lemma pieces_size_split: "pieces_size (split_on seps s) = Suc (length s)"
  by (induction s) (auto simp: pieces_size_def split: list.splits)

lemma pieces_size_join: "ps \<noteq> [] \<Longrightarrow> Suc (length (join_with [c] ps)) = pieces_size ps"
  by (induction "[c]" ps rule: join_with.induct) (auto simp: pieces_size_def)

section \<open>ASCII case\<close>

text \<open>\<open>eq_ignore_ascii_case\<close>: equality up to the case of the ASCII letters.\<close>

definition ascii_lower :: "char \<Rightarrow> char" where
  "ascii_lower c = (let n = of_char c :: nat in if 65 \<le> n \<and> n \<le> 90 then char_of (n + 32) else c)"

definition eq_ignore_ascii_case :: "string \<Rightarrow> string \<Rightarrow> bool" where
  "eq_ignore_ascii_case s t \<longleftrightarrow> map ascii_lower s = map ascii_lower t"

section \<open>Decimal printing\<close>

text \<open>The decimal digits of a number, as \<open>format!("{n}")\<close> prints them.\<close>

fun show_nat :: "nat \<Rightarrow> string" where
  "show_nat n = (if n < 10 then [char_of (48 + n)] else show_nat (n div 10) @ [char_of (48 + n mod 10)])"

declare show_nat.simps [simp del]

text \<open>The format \<open>{:016x}\<close>, for any number of digits.\<close>

definition hex_digit :: "nat \<Rightarrow> char" where
  "hex_digit n = char_of (if n < 10 then 48 + n else 87 + n)"

fun hex_digits :: "nat \<Rightarrow> nat \<Rightarrow> string" where
  "hex_digits 0 n = []"
| "hex_digits (Suc k) n = hex_digits k (n div 16) @ [hex_digit (n mod 16)]"

section \<open>Words\<close>

text \<open>\<open>str::split_whitespace\<close>, collected.\<close>

definition flush_word :: "string \<Rightarrow> string list" where
  "flush_word w = (if w = [] then [] else [w])"

fun split_whitespace_from :: "string \<Rightarrow> string \<Rightarrow> string list" where
  "split_whitespace_from w [] = flush_word w"
| "split_whitespace_from w (c # s) =
     (let n = white_space_at (map of_char (c # s))
      in if n = 0 then split_whitespace_from (w @ [c]) s
         else flush_word w @ split_whitespace_from [] (drop (n - 1) s))"

definition split_whitespace :: "string \<Rightarrow> string list" where
  "split_whitespace s = split_whitespace_from [] s"

text \<open>\<open>char::len_utf8\<close>, by the first byte, and \<open>str::chars\<close>: a character is the bytes of its encoding.\<close>

definition len_utf8 :: "char \<Rightarrow> usize" where
  "len_utf8 c = (let b = of_char c :: nat in if b < 128 then 1 else if b < 224 then 2 else if b < 240 then 3 else 4)"

fun str_chars :: "string \<Rightarrow> string list" where
  "str_chars [] = []"
| "str_chars (c # s) = (c # take (len_utf8 c - 1) s) # str_chars (drop (len_utf8 c - 1) s)"

end
