(* ===== verification/Codec.thy ===== *)
theory Codec
  imports Rust_Strings
begin

text \<open>
  The byte layer under every event payload: little-endian integers, the cursor over a payload
  that each crate defines for itself (\<open>Cursor\<close> or \<open>Reader\<close>, with its own error type), and the
  way readers are put together with the question mark operator. The locale \<open>byte_taker\<close> is the
  contract of \<open>take\<close>; every crate's \<open>take\<close> is an interpretation of it, and the facts about
  reading integers, strings, options and lists are proved once, inside it.
\<close>

section \<open>Little-endian integers\<close>

fun nat_le_bytes :: "nat \<Rightarrow> nat \<Rightarrow> u8 list" where
  "nat_le_bytes 0 n = []"
| "nat_le_bytes (Suc k) n = of_nat (n mod 256) # nat_le_bytes k (n div 256)"

fun le_nat :: "u8 list \<Rightarrow> nat" where
  "le_nat [] = 0"
| "le_nat (b # bs) = unat b + 256 * le_nat bs"

definition to_le_bytes :: "'a::len word \<Rightarrow> u8 list" where
  "to_le_bytes w = nat_le_bytes (LENGTH('a) div 8) (unat w)"

definition from_le_bytes :: "u8 list \<Rightarrow> 'a::len word" where
  "from_le_bytes bs = of_nat (le_nat bs)"

lemma length_nat_le_bytes [simp]: "length (nat_le_bytes k n) = k"
  by (induction k arbitrary: n) auto

lemma nat_le_bytes_numeral [simp]:
  "nat_le_bytes (numeral k) n = of_nat (n mod 256) # nat_le_bytes (pred_numeral k) (n div 256)"
  by (subst numeral_eq_Suc [of k]) (rule nat_le_bytes.simps(2))

lemma le_nat_le_bytes: "le_nat (nat_le_bytes k n) = n mod 256 ^ k"
proof (induction k arbitrary: n)
  case (Suc k)
  have "unat (of_nat (n mod 256) :: u8) = n mod 256"
    by (simp add: unsigned_of_nat take_bit_eq_mod)
  with Suc show ?case by (simp add: mod_mult2_eq)
qed simp

lemma length_to_le_bytes [simp]: "length (to_le_bytes (w :: 'a::len word)) = LENGTH('a) div 8"
  by (simp add: to_le_bytes_def)

lemma from_to_le_bytes:
  assumes "8 dvd LENGTH('a::len)"
  shows "from_le_bytes (to_le_bytes (w :: 'a word)) = w"
proof -
  have "(256 :: nat) ^ (LENGTH('a) div 8) = 2 ^ (8 * (LENGTH('a) div 8))"
    by (simp add: power_mult)
  also have "8 * (LENGTH('a) div 8) = LENGTH('a)"
    using assms by simp
  finally have "(256 :: nat) ^ (LENGTH('a) div 8) = 2 ^ LENGTH('a)" .
  then show ?thesis
    by (simp add: from_le_bytes_def to_le_bytes_def le_nat_le_bytes)
qed

lemma le_nat_less: "le_nat bs < 256 ^ length bs"
proof (induction bs)
  case (Cons b bs)
  have "unat b < 256" using unsigned_less [of b, where 'a = nat] by simp
  moreover have "256 * le_nat bs + 256 \<le> 256 * 256 ^ length bs"
    using Cons by (metis Suc_leI mult_Suc_right mult_le_mono2 add.commute)
  ultimately show ?case by simp
qed simp

lemma nat_le_bytes_le_nat: "nat_le_bytes (length bs) (le_nat bs) = bs"
proof (induction bs)
  case (Cons b bs)
  have "unat b < 256" using unsigned_less [of b, where 'a = nat] by simp
  with Cons show ?case by simp
qed simp

lemma to_from_le_bytes:
  assumes "8 * length bs = LENGTH('a::len)"
  shows "to_le_bytes (from_le_bytes bs :: 'a word) = bs"
proof -
  have "(256 :: nat) ^ length bs = 2 ^ LENGTH('a)"
    using assms by (simp flip: assms add: power_mult)
  then have "unat (from_le_bytes bs :: 'a word) = le_nat bs"
    using le_nat_less [of bs] by (simp add: from_le_bytes_def unsigned_of_nat take_bit_nat_eq_self)
  moreover have "LENGTH('a) div 8 = length bs" using assms by (simp flip: assms)
  ultimately show ?thesis by (simp add: to_le_bytes_def nat_le_bytes_le_nat)
qed

section \<open>Cursors and readers\<close>

record cursor =
  cur_bytes :: "u8 list"
  cur_offset :: usize

type_synonym ('a, 'e) reader = "cursor \<Rightarrow> ('a \<times> cursor, 'e) result"

definition new_cursor :: "u8 list \<Rightarrow> cursor" where
  "new_cursor bs = \<lparr>cur_bytes = bs, cur_offset = 0\<rparr>"

definition rd_return :: "'a \<Rightarrow> ('a, 'e) reader" where
  "rd_return x = (\<lambda>c. Ok (x, c))"

definition rd_fail :: "'e \<Rightarrow> ('a, 'e) reader" where
  "rd_fail e = (\<lambda>c. Err e)"

definition rd_bind :: "('a, 'e) reader \<Rightarrow> ('a \<Rightarrow> ('b, 'e) reader) \<Rightarrow> ('b, 'e) reader" where
  "rd_bind r f = (\<lambda>c. case r c of Err e \<Rightarrow> Err e | Ok (x, c') \<Rightarrow> f x c')"

definition rd_lift :: "('a, 'e) result \<Rightarrow> ('a, 'e) reader" where
  "rd_lift v = (\<lambda>c. case v of Err e \<Rightarrow> Err e | Ok x \<Rightarrow> Ok (x, c))"

text \<open>
  \<open>take\<close>, with the errors the crate gives for an offset beyond \<open>usize::MAX\<close> and for a payload
  that is too short. A failed read leaves the cursor to its owner, who drops it.
\<close>

definition cursor_take :: "'e \<Rightarrow> 'e \<Rightarrow> nat \<Rightarrow> (u8 list, 'e) reader" where
  "cursor_take overflow truncated n = (\<lambda>c.
     let e = cur_offset c + n in
     if 2 ^ 64 \<le> e then Err overflow
     else if length (cur_bytes c) < e then Err truncated
     else Ok (take n (drop (cur_offset c) (cur_bytes c)), c\<lparr>cur_offset := e\<rparr>))"

text \<open>\<open>finish\<close>: the whole payload has been read.\<close>

definition cursor_finish :: "'e \<Rightarrow> cursor \<Rightarrow> (unit, 'e) result" where
  "cursor_finish trailing c = (if cur_offset c = length (cur_bytes c) then Ok () else Err trailing)"

text \<open>The fixed-width reads, as every cursor defines them from its own \<open>take\<close>.\<close>

definition read_u8 :: "(nat \<Rightarrow> (u8 list, 'e) reader) \<Rightarrow> (u8, 'e) reader" where
  "read_u8 tk = rd_bind (tk 1) (\<lambda>bs. rd_return (bs ! 0))"

definition read_u16 :: "(nat \<Rightarrow> (u8 list, 'e) reader) \<Rightarrow> (u16, 'e) reader" where
  "read_u16 tk = rd_bind (tk 2) (\<lambda>bs. rd_return (from_le_bytes bs))"

definition read_u32 :: "(nat \<Rightarrow> (u8 list, 'e) reader) \<Rightarrow> (u32, 'e) reader" where
  "read_u32 tk = rd_bind (tk 4) (\<lambda>bs. rd_return (from_le_bytes bs))"

definition read_u64 :: "(nat \<Rightarrow> (u8 list, 'e) reader) \<Rightarrow> (u64, 'e) reader" where
  "read_u64 tk = rd_bind (tk 8) (\<lambda>bs. rd_return (from_le_bytes bs))"

definition read_u128 :: "(nat \<Rightarrow> (u8 list, 'e) reader) \<Rightarrow> (u128, 'e) reader" where
  "read_u128 tk = rd_bind (tk 16) (\<lambda>bs. rd_return (from_le_bytes bs))"

text \<open>\<open>String::from_utf8(self.take(n)?.to_vec())\<close>.\<close>

definition read_utf8 :: "(nat \<Rightarrow> (u8 list, 'e) reader) \<Rightarrow> 'e \<Rightarrow> nat \<Rightarrow> (string, 'e) reader" where
  "read_utf8 tk not_utf8 n = rd_bind (tk n) (\<lambda>bs. rd_lift (ok_or (from_utf8 bs) not_utf8))"

text \<open>A reader run a fixed number of times.\<close>

fun read_many :: "nat \<Rightarrow> ('a, 'e) reader \<Rightarrow> ('a list, 'e) reader" where
  "read_many 0 r = rd_return []"
| "read_many (Suc n) r = rd_bind r (\<lambda>x. rd_bind (read_many n r) (\<lambda>xs. rd_return (x # xs)))"

section \<open>What a reader consumes\<close>

text \<open>\<open>at c bs\<close>: the cursor \<open>c\<close> is inside its payload and the bytes ahead are \<open>bs\<close>.\<close>

definition at :: "cursor \<Rightarrow> u8 list \<Rightarrow> bool" where
  "at c bs \<longleftrightarrow> cur_offset c \<le> length (cur_bytes c) \<and> drop (cur_offset c) (cur_bytes c) = bs
     \<and> length (cur_bytes c) < 2 ^ 64"

text \<open>\<open>reads r xs v\<close>: in front of the bytes \<open>xs\<close>, whatever follows, \<open>r\<close> consumes exactly them.\<close>

definition reads :: "('a, 'e) reader \<Rightarrow> u8 list \<Rightarrow> 'a \<Rightarrow> bool" where
  "reads r xs v \<longleftrightarrow> (\<forall>c ys. at c (xs @ ys) \<longrightarrow> (\<exists>c'. r c = Ok (v, c') \<and> at c' ys))"

lemma at_new_cursor: "length bs < 2 ^ 64 \<Longrightarrow> at (new_cursor bs) bs"
  by (simp add: at_def new_cursor_def)

lemma at_Nil_finish: "at c [] \<Longrightarrow> cursor_finish e c = Ok ()"
  by (simp add: at_def cursor_finish_def)

lemma reads_return [reads_intros]: "reads (rd_return v) [] v"
  by (simp add: reads_def rd_return_def)

lemma reads_returnI: "v = w \<Longrightarrow> reads (rd_return v) [] w"
  by (simp add: reads_return)

lemma reads_lift [reads_intros]: "r = Ok v \<Longrightarrow> reads (rd_lift r) [] v"
  by (simp add: reads_def rd_lift_def)

lemma reads_bind:
  assumes "reads r xs v" and "reads (f v) ys w"
  shows "reads (rd_bind r f) (xs @ ys) w"
  unfolding reads_def
proof (intro allI impI)
  fix c zs assume "at c ((xs @ ys) @ zs)"
  then have "at c (xs @ (ys @ zs))" by simp
  then obtain c1 where "r c = Ok (v, c1)" and "at c1 (ys @ zs)"
    using assms(1) unfolding reads_def by blast
  moreover from this(2) obtain c2 where "f v c1 = Ok (w, c2)" and "at c2 zs"
    using assms(2) unfolding reads_def by blast
  ultimately show "\<exists>c'. rd_bind r f c = Ok (w, c') \<and> at c' zs"
    by (simp add: rd_bind_def)
qed

lemma reads_bind_last: "reads r xs v \<Longrightarrow> reads (f v) [] w \<Longrightarrow> reads (rd_bind r f) xs w"
  using reads_bind [of r xs v f "[]" w] by simp

lemma reads_bind_first: "reads r [] v \<Longrightarrow> reads (f v) ys w \<Longrightarrow> reads (rd_bind r f) ys w"
  using reads_bind [of r "[]" v f ys w] by simp

lemma reads_many:
  assumes "\<forall>x \<in> set xs. reads r (enc x) x"
  shows "reads (read_many (length xs) r) (concat (map enc xs)) xs"
  using assms
proof (induction xs)
  case Nil
  then show ?case by (simp add: reads_return)
next
  case (Cons x xs)
  then have "reads r (enc x) x" and IH: "reads (read_many (length xs) r) (concat (map enc xs)) xs"
    by auto
  then have "reads (rd_bind r (\<lambda>x. rd_bind (read_many (length xs) r) (\<lambda>xs. rd_return (x # xs))))
      (enc x @ concat (map enc xs)) (x # xs)"
    by (rule reads_bind [OF _ reads_bind_last [OF _ reads_return]])
  then show ?case by simp
qed

text \<open>A reader followed by \<open>finish\<close>, on exactly the bytes it reads.\<close>

definition read_all :: "('a, 'e) reader \<Rightarrow> 'e \<Rightarrow> u8 list \<Rightarrow> ('a, 'e) result" where
  "read_all r trailing bs =
     and_then (r (new_cursor bs)) (\<lambda>(x, c). and_then (cursor_finish trailing c) (\<lambda>_. Ok x))"

lemma read_all_reads:
  assumes "reads r bs v" and "length bs < 2 ^ 64"
  shows "read_all r e bs = Ok v"
proof -
  have "at (new_cursor bs) (bs @ [])" using assms(2) by (simp add: at_new_cursor)
  then obtain c where "r (new_cursor bs) = Ok (v, c)" and "at c []"
    using assms(1) unfolding reads_def by blast
  then show ?thesis by (simp add: read_all_def at_Nil_finish)
qed

section \<open>The contract of \<open>take\<close>\<close>

locale byte_taker =
  fixes tk :: "nat \<Rightarrow> (u8 list, 'e) reader"
  assumes take_reads: "length xs = n \<Longrightarrow> reads (tk n) xs xs"
    and take_len: "tk n c = Ok (xs, c') \<Longrightarrow> length xs = n"
begin

lemma u8_reads: "reads (read_u8 tk) [b] b"
  unfolding read_u8_def
  by (rule reads_bind_last [where v = "[b]"]) (simp_all add: take_reads reads_returnI)

lemma u16_reads: "reads (read_u16 tk) (to_le_bytes w) w"
  unfolding read_u16_def
  by (rule reads_bind_last, rule take_reads) (simp_all add: reads_returnI from_to_le_bytes)

lemma u32_reads: "reads (read_u32 tk) (to_le_bytes w) w"
  unfolding read_u32_def
  by (rule reads_bind_last, rule take_reads) (simp_all add: reads_returnI from_to_le_bytes)

lemma u64_reads: "reads (read_u64 tk) (to_le_bytes w) w"
  unfolding read_u64_def
  by (rule reads_bind_last, rule take_reads) (simp_all add: reads_returnI from_to_le_bytes)

lemma u128_reads: "reads (read_u128 tk) (to_le_bytes w) w"
  unfolding read_u128_def
  by (rule reads_bind_last, rule take_reads) (simp_all add: reads_returnI from_to_le_bytes)

lemma utf8_reads: "is_utf8 s \<Longrightarrow> length s = n \<Longrightarrow> reads (read_utf8 tk e n) (as_bytes s) s"
  unfolding read_utf8_def
  by (rule reads_bind_last, rule take_reads) (simp_all add: reads_lift)

end

lemma byte_taker_cursor_take: "byte_taker (cursor_take overflow truncated)"
proof
  fix xs :: "u8 list" and n
  assume len: "length xs = n"
  show "reads (cursor_take overflow truncated n) xs xs"
    unfolding reads_def
  proof (intro allI impI)
    fix c ys assume at: "at c (xs @ ys)"
    then have drop: "drop (cur_offset c) (cur_bytes c) = xs @ ys"
      and bound: "cur_offset c \<le> length (cur_bytes c)" "length (cur_bytes c) < 2 ^ 64"
      by (auto simp: at_def)
    have "length (cur_bytes c) = cur_offset c + n + length ys"
      using arg_cong [OF drop, of length] bound(1) len by simp
    moreover have "drop (cur_offset c + n) (cur_bytes c) = ys"
      using arg_cong [OF drop, of "drop n"] len by (simp add: add.commute)
    ultimately show "\<exists>c'. cursor_take overflow truncated n c = Ok (xs, c') \<and> at c' ys"
      using bound len by (simp add: cursor_take_def at_def drop Let_def)
  qed
next
  fix n c c' and xs :: "u8 list"
  assume "cursor_take overflow truncated n c = Ok (xs, c')"
  then show "length xs = n"
    by (auto simp: cursor_take_def Let_def split: if_splits)
qed

section \<open>Encoders and decoders of event payloads\<close>

text \<open>
  The contract of a payload codec: what \<open>enc\<close> accepts and writes, \<open>dec\<close> reads back at the
  schema version the writer records. \<open>norm\<close> is the normal form the encoder writes (the identity
  where it writes the value as it is).
\<close>

locale payload_codec =
  fixes enc :: "'t \<Rightarrow> (u8 list, 'e) result"
    and dec :: "u16 \<Rightarrow> u8 list \<Rightarrow> ('t, 'e) result"
    and version :: u16
    and ok :: "'t \<Rightarrow> bool"
    and norm :: "'t \<Rightarrow> 't"
  assumes decode_encode: "ok t \<Longrightarrow> enc t = Ok bs \<Longrightarrow> dec version bs = Ok (norm t)"
begin

lemma encode_injective:
  assumes "ok s" and "ok t" and "enc s = Ok bs" and "enc t = Ok bs"
  shows "norm s = norm t"
  using decode_encode [OF assms(1,3)] decode_encode [OF assms(2,4)] by simp

end

end
