(* ===== verification/BTree_Map.thy ===== *)
theory BTree_Map
  imports Rust_Prelude
begin

text \<open>
  \<open>std::collections::BTreeMap\<close>: a finite map whose entries are iterated in the order of the
  keys. A map is a list of entries with strictly ascending keys, made a type of its own, so two
  maps with the same entries are equal, as in Rust. The locale \<open>ordered_map\<close> states the contract
  the components rely on, and derives from it the facts their proofs use.
\<close>

section \<open>Association lists in key order\<close>

fun al_insert :: "'k::linorder \<Rightarrow> 'v \<Rightarrow> ('k \<times> 'v) list \<Rightarrow> ('k \<times> 'v) list" where
  "al_insert k v [] = [(k, v)]"
| "al_insert k v ((a, b) # es) =
     (if k < a then (k, v) # (a, b) # es
      else if k = a then (k, v) # es
      else (a, b) # al_insert k v es)"

fun al_remove :: "'k \<Rightarrow> ('k \<times> 'v) list \<Rightarrow> ('k \<times> 'v) list" where
  "al_remove k [] = []"
| "al_remove k ((a, b) # es) = (if k = a then es else (a, b) # al_remove k es)"

abbreviation al_sorted :: "('k::linorder \<times> 'v) list \<Rightarrow> bool" where
  "al_sorted es \<equiv> sorted_wrt (<) (map fst es)"

lemma al_insert_keys: "fst ` set (al_insert k v es) = insert k (fst ` set es)"
  by (induction k v es rule: al_insert.induct) (simp_all add: insert_commute)

lemma al_sorted_insert: "al_sorted es \<Longrightarrow> al_sorted (al_insert k v es)"
proof (induction es)
  case (Cons e es)
  have "\<forall>x \<in> fst ` set (al_insert k v es). x = k \<or> x \<in> fst ` set es"
    by (simp add: al_insert_keys)
  with Cons show ?case by (cases e) fastforce
qed simp

lemma al_remove_keys: "set (al_remove k es) \<subseteq> set es"
  by (induction es) (auto split: if_splits)

lemma al_sorted_remove: "al_sorted es \<Longrightarrow> al_sorted (al_remove k es)"
proof (induction es)
  case (Cons e es)
  then show ?case using al_remove_keys [of k es] by (cases e) fastforce
qed simp

lemma map_of_al_insert: "map_of (al_insert k v es) = (map_of es)(k \<mapsto> v)"
  by (induction es) (auto simp: fun_eq_iff)

lemma map_of_al_remove: "al_sorted es \<Longrightarrow> map_of (al_remove k es) = (map_of es)(k := None)"
proof (induction es)
  case (Cons e es)
  have "map_of es (fst e) = None"
    using Cons.prems by (auto simp: map_of_eq_None_iff)
  with Cons show ?case by (cases e) (auto simp: fun_eq_iff)
qed (simp add: fun_eq_iff)

lemma al_sorted_distinct: "al_sorted es \<Longrightarrow> distinct (map fst es)"
  by (simp add: strict_sorted_iff)

lemma al_sorted_ext:
  assumes "al_sorted xs" and "al_sorted ys" and "map_of xs = map_of ys"
  shows "xs = ys"
proof (rule map_sorted_distinct_set_unique)
  have "distinct (map fst xs)" "distinct (map fst ys)"
    using assms by (simp_all add: al_sorted_distinct)
  then show "set xs = set ys"
    using assms(3) by (metis map_of_inject_set)
  then show "inj_on fst (set xs \<union> set ys)"
    using \<open>distinct (map fst xs)\<close> by (simp add: distinct_map)
qed (use assms in \<open>simp_all add: strict_sorted_iff\<close>)

section \<open>The type of maps\<close>

typedef (overloaded) ('k::linorder, 'v) bmap = "{es :: ('k \<times> 'v) list. al_sorted es}"
  morphisms bm_entries Bm
  by (rule exI [of _ "[]"]) simp

setup_lifting type_definition_bmap

lift_definition bm_empty :: "('k::linorder, 'v) bmap" is "[]"
  by simp

lift_definition bm_get :: "('k::linorder, 'v) bmap \<Rightarrow> 'k \<Rightarrow> 'v option" is map_of .

lift_definition bm_insert :: "'k::linorder \<Rightarrow> 'v \<Rightarrow> ('k, 'v) bmap \<Rightarrow> ('k, 'v) bmap" is al_insert
  by (rule al_sorted_insert)

lift_definition bm_remove :: "'k::linorder \<Rightarrow> ('k, 'v) bmap \<Rightarrow> ('k, 'v) bmap" is al_remove
  by (rule al_sorted_remove)

definition bm_keys :: "('k::linorder, 'v) bmap \<Rightarrow> 'k list" where
  "bm_keys m = map fst (bm_entries m)"

definition bm_values :: "('k::linorder, 'v) bmap \<Rightarrow> 'v list" where
  "bm_values m = map snd (bm_entries m)"

definition bm_contains_key :: "('k::linorder, 'v) bmap \<Rightarrow> 'k \<Rightarrow> bool" where
  "bm_contains_key m k = (bm_get m k \<noteq> None)"

definition bm_len :: "('k::linorder, 'v) bmap \<Rightarrow> nat" where
  "bm_len m = length (bm_entries m)"

text \<open>\<open>entry(k).or_insert(v)\<close>: the map after it, in which \<open>k\<close> is bound.\<close>

definition bm_or_insert :: "'k::linorder \<Rightarrow> 'v \<Rightarrow> ('k, 'v) bmap \<Rightarrow> ('k, 'v) bmap" where
  "bm_or_insert k v m = (if bm_contains_key m k then m else bm_insert k v m)"

text \<open>\<open>values_mut\<close>: every value replaced.\<close>

lift_definition bm_map_values :: "('v \<Rightarrow> 'w) \<Rightarrow> ('k::linorder, 'v) bmap \<Rightarrow> ('k, 'w) bmap"
  is "\<lambda>f es. map (\<lambda>(k, v). (k, f v)) es"
  by (simp add: split_beta o_def)

lemma bm_entries_empty [simp]: "bm_entries bm_empty = []"
  by transfer simp

lemma bm_entries_insert [simp]: "bm_entries (bm_insert k v m) = al_insert k v (bm_entries m)"
  by transfer simp

lemma bm_entries_remove [simp]: "bm_entries (bm_remove k m) = al_remove k (bm_entries m)"
  by transfer simp

lemma bm_get_map_of: "bm_get m = map_of (bm_entries m)"
  by transfer simp

lemma bm_ext: "(\<And>k. bm_get m k = bm_get n k) \<Longrightarrow> m = n"
  by transfer (auto intro: al_sorted_ext)

lemma bm_get_empty: "bm_get bm_empty k = None"
  by transfer simp

lemma bm_get_insert: "bm_get (bm_insert k v m) j = (if j = k then Some v else bm_get m j)"
  by transfer (simp add: map_of_al_insert)

lemma bm_get_remove: "bm_get (bm_remove k m) j = (if j = k then None else bm_get m j)"
  by transfer (simp add: map_of_al_remove)

lemma bm_get_map_values [simp]: "bm_get (bm_map_values f m) k = map_option f (bm_get m k)"
  by transfer (simp add: map_of_map)

lemma bm_entries_get: "(k, v) \<in> set (bm_entries m) \<longleftrightarrow> bm_get m k = Some v"
  by transfer (simp add: al_sorted_distinct)

lemma bm_entries_ascending: "sorted_wrt (<) (map fst (bm_entries m))"
  by transfer simp

instantiation bmap :: (linorder, equal) equal
begin

definition equal_bmap :: "('a, 'b) bmap \<Rightarrow> ('a, 'b) bmap \<Rightarrow> bool" where
  "equal_bmap m n = (bm_entries m = bm_entries n)"

instance
  by standard (simp add: equal_bmap_def bm_entries_inject)

end

section \<open>The contract of a map\<close>

locale ordered_map =
  fixes empty :: "'m"
    and get :: "'m \<Rightarrow> 'k::linorder \<Rightarrow> 'v option"
    and insert :: "'k \<Rightarrow> 'v \<Rightarrow> 'm \<Rightarrow> 'm"
    and remove :: "'k \<Rightarrow> 'm \<Rightarrow> 'm"
    and entries :: "'m \<Rightarrow> ('k \<times> 'v) list"
  assumes get_empty: "get empty k = None"
    and get_insert: "get (insert k v m) j = (if j = k then Some v else get m j)"
    and get_remove: "get (remove k m) j = (if j = k then None else get m j)"
    and entries_get: "(k, v) \<in> set (entries m) \<longleftrightarrow> get m k = Some v"
    and entries_ascending: "sorted_wrt (<) (map fst (entries m))"
    and map_ext: "(\<And>k. get m k = get n k) \<Longrightarrow> m = n"
begin

lemma insert_commute: "j \<noteq> k \<Longrightarrow> insert j v (insert k w m) = insert k w (insert j v m)"
  by (rule map_ext) (simp add: get_insert)

lemma insert_overwrite: "insert k v (insert k w m) = insert k v m"
  by (rule map_ext) (simp add: get_insert)

lemma insert_same: "get m k = Some v \<Longrightarrow> insert k v m = m"
  by (rule map_ext) (simp add: get_insert)

lemma remove_fresh: "get m k = None \<Longrightarrow> remove k m = m"
  by (rule map_ext) (simp add: get_remove)

lemma remove_insert: "get m k = None \<Longrightarrow> remove k (insert k v m) = m"
  by (rule map_ext) (simp add: get_insert get_remove)

lemma values_iff: "v \<in> set (map snd (entries m)) \<longleftrightarrow> (\<exists>k. get m k = Some v)"
  by (force simp: entries_get [symmetric] image_iff)

lemma keys_iff: "k \<in> set (map fst (entries m)) \<longleftrightarrow> get m k \<noteq> None"
  by (force simp: entries_get [symmetric] image_iff)

lemma entries_distinct: "distinct (map fst (entries m))"
  using entries_ascending by (simp add: strict_sorted_iff)

lemma length_insert_fresh:
  assumes "get m k = None"
  shows "length (entries (insert k v m)) = Suc (length (entries m))"
proof -
  have card: "length (entries n) = card (set (map fst (entries n)))" for n
    using distinct_card [OF entries_distinct [of n]] by simp
  have "set (map fst (entries (insert k v m))) = Set.insert k (set (map fst (entries m)))"
    by (auto simp only: keys_iff get_insert set_eq_iff insert_iff split: if_splits)
  moreover have "k \<notin> set (map fst (entries m))"
    using assms keys_iff by blast
  ultimately show ?thesis
    unfolding card by (simp only: List.finite_set card_insert_disjoint not_False_eq_True)
qed

end

interpretation bm: ordered_map bm_empty bm_get bm_insert bm_remove bm_entries
  by unfold_locales
    (simp_all add: bm_get_empty bm_get_insert bm_get_remove bm_entries_get bm_entries_ascending bm_ext)

declare bm_get_empty [simp] bm_get_insert [simp] bm_get_remove [simp]

lemma bm_contains_key_simps [simp]:
  "\<not> bm_contains_key bm_empty k"
  "bm_contains_key (bm_insert j v m) k \<longleftrightarrow> k = j \<or> bm_contains_key m k"
  "bm_contains_key (bm_remove j m) k \<longleftrightarrow> k \<noteq> j \<and> bm_contains_key m k"
  by (auto simp: bm_contains_key_def)

lemma bm_values_iff: "v \<in> set (bm_values m) \<longleftrightarrow> (\<exists>k. bm_get m k = Some v)"
  unfolding bm_values_def by (rule bm.values_iff)

lemma bm_keys_iff: "k \<in> set (bm_keys m) \<longleftrightarrow> bm_get m k \<noteq> None"
  unfolding bm_keys_def by (rule bm.keys_iff)

lemma bm_ball_entries:
  "(\<forall>(k, v) \<in> set (bm_entries m). P k v) \<longleftrightarrow> (\<forall>k v. bm_get m k = Some v \<longrightarrow> P k v)"
  by (force simp: bm_entries_get [symmetric])

lemma bm_bex_entries:
  "(\<exists>(k, v) \<in> set (bm_entries m). P k v) \<longleftrightarrow> (\<exists>k v. bm_get m k = Some v \<and> P k v)"
  by (force simp: bm_entries_get [symmetric])

lemma bm_get_or_insert:
  "bm_get (bm_or_insert k v m) j =
     (if j = k then Some (case bm_get m k of None \<Rightarrow> v | Some w \<Rightarrow> w) else bm_get m j)"
  by (auto simp: bm_or_insert_def bm_contains_key_def split: option.splits)

lemma bm_insert_or_insert [simp]: "bm_insert k v (bm_or_insert k w m) = bm_insert k v m"
  by (rule bm_ext) (simp add: bm_get_or_insert)

text \<open>\<open>values().find(..)\<close>: the satisfying entry of the least key.\<close>

lemma find_ascending:
  assumes "sorted_wrt (<) (map fst (es :: ('k::linorder \<times> 'v) list))"
  shows "find P (map snd es) = Some v \<longleftrightarrow>
    (\<exists>k. (k, v) \<in> set es \<and> P v \<and> (\<forall>(j, w) \<in> set es. j < k \<longrightarrow> \<not> P w))"
  using assms
proof (induction es)
  case (Cons e es)
  obtain k0 v0 where e: "e = (k0, v0)" by (cases e)
  have above: "k0 < j" if "(j, w) \<in> set es" for j w using Cons.prems e that by auto
  show ?case
  proof (cases "P v0")
    case True
    have "v0 = v \<longleftrightarrow> (\<exists>k. (k, v) \<in> set (e # es) \<and> P v \<and> (\<forall>(j, w) \<in> set (e # es). j < k \<longrightarrow> \<not> P w))"
      (is "_ \<longleftrightarrow> (\<exists>k. ?first k)")
    proof
      assume "v0 = v"
      then have "?first k0" using True e above less_not_sym by auto
      then show "\<exists>k. ?first k" ..
    next
      assume "\<exists>k. ?first k"
      then obtain k where k: "?first k" ..
      then have "\<not> k0 < k" using True e by auto
      with k e above show "v0 = v" by auto
    qed
    with True e show ?thesis by simp
  next
    case False
    with e have "(\<forall>(j, w) \<in> set (e # es). j < k \<longrightarrow> \<not> P w) \<longleftrightarrow> (\<forall>(j, w) \<in> set es. j < k \<longrightarrow> \<not> P w)"
      for k by simp
    moreover have "(k, v) \<in> set (e # es) \<and> P v \<longleftrightarrow> (k, v) \<in> set es \<and> P v" for k
      using False e by auto
    moreover have "find P (map snd (e # es)) = find P (map snd es)" using False e by simp
    ultimately show ?thesis using Cons.IH Cons.prems by (metis (no_types, lifting) list.simps(9) sorted_wrt.simps(2))
  qed
qed simp

lemma bm_find_values:
  "find P (bm_values m) = Some v \<longleftrightarrow>
     (\<exists>k. bm_get m k = Some v \<and> P v \<and> (\<forall>j w. bm_get m j = Some w \<longrightarrow> j < k \<longrightarrow> \<not> P w))"
  unfolding bm_values_def find_ascending [OF bm_entries_ascending] bm_ball_entries
  by (simp add: bm_entries_get)

end
