(* ===== verification/Kernel.thy ===== *)
theory Kernel
  imports Codec BTree_Map
begin

text \<open>
  The crate \<^verbatim>\<open>crates/kernel\<close>: durable identifiers, the trust classification, model and agent
  identities, token usage, and the event envelope every other crate writes to and replays from.

  The identifiers \<open>RunId\<close>, \<open>TaskId\<close>, \<open>AgentId\<close>, ... are newtypes over \<open>u64\<close> made by one
  macro; their \<open>value\<close> and \<open>from_u64\<close> are the identity, and so are the synonyms below. What the
  allocator takes from outside (the \<open>getrandom\<close> crate, the clock and the process number) is the
  argument of type \<open>entropy\<close>.
\<close>

section \<open>Durable identifiers\<close>

type_synonym run_id = u64
type_synonym task_id = u64
type_synonym agent_id = u64
type_synonym event_id = u64
type_synonym branch_id = u64
type_synonym message_id = u64
type_synonym assumption_id = u64
type_synonym conflict_id = u64
type_synonym failure_id = u64
type_synonym tool_transaction_id = u64
type_synonym plugin_id = u64

record entropy =
  random_bytes :: "u8 list option"
  now_nanos :: u128
  now_secs :: u64
  process_number :: u32

record id_state =
  id_prefix :: "u32 option"
  next_id :: u32

definition initial_id_state :: id_state where
  "initial_id_state = \<lparr>id_prefix = None, next_id = 1\<rparr>"

definition fallback_seed :: "entropy \<Rightarrow> u64" where
  "fallback_seed e =
     xor (xor (ucast (now_nanos e)) (ucast (process_number e))) (word_rotl 17 (now_secs e))"

definition fresh_prefix :: "entropy \<Rightarrow> u32" where
  "fresh_prefix e = (case random_bytes e of
       None \<Rightarrow> max (ucast (fallback_seed e)) 1
     | Some bs \<Rightarrow> max (from_le_bytes bs) 1)"

datatype id_error = IdSpaceExhausted

text \<open>
  \<open>new_durable_id\<close>: the prefix is drawn once per process, the counter is an atomic
  \<open>fetch_add\<close>, which wraps; the panic on the last counter value is the error. The new state is
  returned in both cases, since the counter has advanced before the check.
\<close>

definition new_durable_id :: "entropy \<Rightarrow> id_state \<Rightarrow> (u64, id_error) result \<times> id_state" where
  "new_durable_id e s =
     (let prefix = (case id_prefix s of Some p \<Rightarrow> p | None \<Rightarrow> fresh_prefix e);
          counter = next_id s;
          s' = s\<lparr>id_prefix := Some prefix, next_id := counter + 1\<rparr>
      in if counter = - 1 then (Err IdSpaceExhausted, s')
         else (Ok (or (push_bit 32 (ucast prefix)) (ucast counter)), s'))"

fun allocate_ids :: "entropy \<Rightarrow> nat \<Rightarrow> id_state \<Rightarrow> (u64, id_error) result list \<times> id_state" where
  "allocate_ids e 0 s = ([], s)"
| "allocate_ids e (Suc n) s =
     (let (r, s') = new_durable_id e s; (rs, s'') = allocate_ids e n s' in (r # rs, s''))"

definition durable_id :: "u32 \<Rightarrow> u32 \<Rightarrow> u64" where
  "durable_id prefix counter = or (push_bit 32 (ucast prefix)) (ucast counter)"

lemma unat_durable_id: "unat (durable_id p c) = unat p * 2 ^ 32 + unat c"
proof -
  have c: "unat c < 2 ^ 32" and p: "unat p < 2 ^ 32"
    using unsigned_less [of c, where 'a = nat] unsigned_less [of p, where 'a = nat] by simp_all
  have "unat (durable_id p c) = or (push_bit 32 (unat p)) (unat c)"
    unfolding durable_id_def
    using c p by (simp add: unsigned_or_eq unsigned_push_bit_eq unsigned_ucast_eq
        take_bit_nat_eq_self take_bit_push_bit)
  also have "\<dots> = push_bit 32 (unat p) + unat c"
  proof (rule disjunctive_add [symmetric])
    fix n
    have "take_bit 32 (unat c) = unat c" using c by (simp add: take_bit_nat_eq_self)
    then have "\<not> bit (unat c) n" if "32 \<le> n"
      using that bit_take_bit_iff [of 32 "unat c" n] by simp
    then show "\<not> bit (push_bit 32 (unat p)) n \<or> \<not> bit (unat c) n"
      by (auto simp: bit_push_bit_iff)
  qed
  finally show ?thesis by (simp add: push_bit_eq_mult)
qed

text \<open>The run of calls: as long as the counter has not reached its last value, every call succeeds.\<close>

lemma allocate_ids_ok:
  assumes "id_prefix s = Some p" and "unat (next_id s) + n < 2 ^ 32"
  shows "fst (allocate_ids e n s) = map (\<lambda>i. Ok (durable_id p (next_id s + of_nat i))) [0..<n]"
  using assms
proof (induction n arbitrary: s)
  case 0
  then show ?case by simp
next
  case (Suc n)
  let ?s = "s\<lparr>id_prefix := Some p, next_id := next_id s + 1\<rparr>"
  have "next_id s \<noteq> - 1"
  proof
    assume "next_id s = - 1"
    then have "unat (next_id s) = 2 ^ 32 - 1" using unat_max_word [where 'a = 32] by simp
    with Suc.prems(2) show False by simp
  qed
  then have step: "new_durable_id e s = (Ok (durable_id p (next_id s)), ?s)"
    using Suc.prems(1) by (simp add: new_durable_id_def durable_id_def Let_def)
  have "unat (next_id s + 1) + n < 2 ^ 32"
    using Suc.prems(2) by (simp add: unat_word_ariths)
  then have IH: "fst (allocate_ids e n ?s)
      = map (\<lambda>i. Ok (durable_id p (next_id s + 1 + of_nat i))) [0..<n]"
    using Suc.IH [of ?s] by simp
  have "[0..<Suc n] = 0 # map Suc [0..<n]"
    by (simp add: upt_conv_Cons map_Suc_upt del: upt_Suc)
  then show ?case
    using step IH by (simp add: split_beta o_def add.assoc)
qed

lemma durable_id_inject:
  "durable_id p c = durable_id p d \<longleftrightarrow> c = d"
  by (metis add_left_imp_eq unat_durable_id word_unat_eq_iff)

text \<open>The first call of a process fixes the prefix.\<close>

lemma allocate_ids_initial:
  assumes "n < 2 ^ 32 - 1"
  shows "fst (allocate_ids e n initial_id_state)
    = map (\<lambda>i. Ok (durable_id (fresh_prefix e) (1 + of_nat i))) [0..<n]"
proof (cases n)
  case 0
  then show ?thesis by simp
next
  case (Suc m)
  let ?s = "\<lparr>id_prefix = Some (fresh_prefix e), next_id = 1\<rparr>"
  have "new_durable_id e initial_id_state = new_durable_id e ?s"
    by (simp add: new_durable_id_def initial_id_state_def)
  then have "allocate_ids e n initial_id_state = allocate_ids e n ?s"
    using Suc by simp
  then show ?thesis
    using assms allocate_ids_ok [of ?s "fresh_prefix e" n e] by simp
qed

section \<open>Trust origins\<close>

datatype trust_origin =
    TrustRuntime
  | TrustedProject
  | UserProvided
  | Generated
  | RemoteAgent
  | External
  | WebUntrusted
  | McpMetadata
  | McpResult

fun is_trusted :: "trust_origin \<Rightarrow> bool" where
  "is_trusted TrustRuntime = True"
| "is_trusted TrustedProject = True"
| "is_trusted UserProvided = True"
| "is_trusted _ = False"

fun policy_rank :: "trust_origin \<Rightarrow> nat" where
  "policy_rank WebUntrusted = 0"
| "policy_rank McpResult = 0"
| "policy_rank McpMetadata = 1"
| "policy_rank External = 1"
| "policy_rank RemoteAgent = 2"
| "policy_rank Generated = 3"
| "policy_rank UserProvided = 4"
| "policy_rank TrustedProject = 5"
| "policy_rank TrustRuntime = 6"

definition combine_trust :: "trust_origin \<Rightarrow> trust_origin \<Rightarrow> trust_origin" where
  "combine_trust a b = (if policy_rank a \<le> policy_rank b then a else b)"

lemma is_trusted_rank: "is_trusted t \<longleftrightarrow> 4 \<le> policy_rank t"
  by (cases t) auto

lemma policy_rank_combine: "policy_rank (combine_trust a b) = min (policy_rank a) (policy_rank b)"
  by (simp add: combine_trust_def min_def)

lemma combine_trust_fold:
  "is_trusted (foldl combine_trust t ts) = (is_trusted t \<and> list_all is_trusted ts) \<and>
   foldl combine_trust t ts \<in> insert t (set ts) \<and>
   (\<forall>u \<in> insert t (set ts). policy_rank (foldl combine_trust t ts) \<le> policy_rank u)"
proof (induction ts arbitrary: t)
  case (Cons u ts)
  have "combine_trust t u \<in> {t, u}" by (simp add: combine_trust_def)
  moreover have "policy_rank (combine_trust t u) \<le> policy_rank t"
    "policy_rank (combine_trust t u) \<le> policy_rank u"
    by (simp_all add: policy_rank_combine)
  moreover have "is_trusted (combine_trust t u) \<longleftrightarrow> is_trusted t \<and> is_trusted u"
    by (simp add: is_trusted_rank policy_rank_combine)
  ultimately show ?case using Cons.IH [of "combine_trust t u"] by fastforce
qed simp

section \<open>Models, agents, usage\<close>

datatype model_class = Local | Cheap | Strong | Custom string

fun model_class_to_string :: "model_class \<Rightarrow> string" where
  "model_class_to_string Local = ''local''"
| "model_class_to_string Cheap = ''cheap''"
| "model_class_to_string Strong = ''strong''"
| "model_class_to_string (Custom v) = v"

record model_ref =
  model_provider :: string
  model_name :: string
  model_cls :: model_class

definition model_ref_new :: "string \<Rightarrow> string \<Rightarrow> model_class \<Rightarrow> model_ref" where
  "model_ref_new p m c = \<lparr>model_provider = p, model_name = m, model_cls = c\<rparr>"

record agent_identity =
  agent_ident :: agent_id
  agent_name :: string
  agent_mission :: string
  agent_model :: model_ref

record usage =
  input_tokens :: u64
  output_tokens :: u64
  cached_input_tokens :: "u64 option"

definition usage_new :: "u64 \<Rightarrow> u64 \<Rightarrow> usage" where
  "usage_new i out = \<lparr>input_tokens = i, output_tokens = out, cached_input_tokens = None\<rparr>"

definition with_cached_input_tokens :: "u64 \<Rightarrow> usage \<Rightarrow> usage" where
  "with_cached_input_tokens n u = u\<lparr>cached_input_tokens := Some n\<rparr>"

text \<open>
  \<open>total_tokens\<close> uses a plain \<open>+\<close>. In a release build it wraps, which is what is written here;
  in a debug build the same sum panics.
\<close>

definition total_tokens :: "usage \<Rightarrow> u64" where
  "total_tokens u = input_tokens u + output_tokens u"

definition usage_saturating_add :: "usage \<Rightarrow> usage \<Rightarrow> usage" where
  "usage_saturating_add a b =
     \<lparr>input_tokens = saturating_add (input_tokens a) (input_tokens b),
      output_tokens = saturating_add (output_tokens a) (output_tokens b),
      cached_input_tokens = (case (cached_input_tokens a, cached_input_tokens b) of
          (Some l, Some r) \<Rightarrow> Some (saturating_add l r)
        | _ \<Rightarrow> None)\<rparr>"

section \<open>Events\<close>

datatype event_kind =
    RunCreated run_id
  | TaskCreated task_id run_id string
  | AgentCreated agent_identity
  | ModelRequested agent_id model_ref
  | ModelResponseMetadata agent_id "string option" "string option" "string option"
  | ModelChunkReceived agent_id u32
  | ModelCompleted agent_id usage
  | ModelFinishedWithoutUsage agent_id
  | ModelTurnCompleted agent_id "usage option"
  | ModelTurnOutcome agent_id string bool bool
  | ModelTurnCancelled agent_id
  | ModelTurnFailed agent_id string
  | ModelCancelled agent_id
  | ModelFailed agent_id string
  | RunCompleted run_id
  | RunCancelled run_id
  | RunFailed run_id string
  | ArtifactCreated "u8 list" u64 string trust_origin
  | ContextTransition u16 "u8 list"
  | CacheObserved string string "u8 list" u64 u64
  | AgentMessage u16 "u8 list"
  | AssumptionTransition u16 "u8 list"
  | SchedulerTransition u16 "u8 list"
  | AgentPaused agent_id
  | AgentResumed agent_id
  | CapabilityTransition u16 "u8 list"
  | ToolTransition u16 "u8 list"
  | FailureMemoryTransition u16 "u8 list"
  | SpecialistTransition u16 "u8 list"
  | ConversationTurn u16 "u8 list"

record event =
  event_ident :: event_id
  event_run :: run_id
  occurred_at_ms :: u128
  event_knd :: event_kind

text \<open>\<open>Event::new\<close>: the clock reading is an argument, the identifier comes from the allocator.\<close>

definition event_new :: "entropy \<Rightarrow> u128 \<Rightarrow> run_id \<Rightarrow> event_kind \<Rightarrow> id_state
    \<Rightarrow> (event, id_error) result \<times> id_state" where
  "event_new e now run kind s =
     (case new_durable_id e s of
        (Ok i, s') \<Rightarrow>
          (Ok \<lparr>event_ident = i, event_run = run, occurred_at_ms = now, event_knd = kind\<rparr>, s')
      | (Err x, s') \<Rightarrow> (Err x, s'))"

record event_trace =
  trace_events :: "event list"

definition trace_record :: "event \<Rightarrow> event_trace \<Rightarrow> event_trace" where
  "trace_record ev t = t\<lparr>trace_events := trace_events t @ [ev]\<rparr>"

definition trace_len :: "event_trace \<Rightarrow> nat" where
  "trace_len t = length (trace_events t)"

definition trace_is_empty :: "event_trace \<Rightarrow> bool" where
  "trace_is_empty t = (trace_events t = [])"

section \<open>Properties\<close>

text \<open>
  Identifiers are unique. In one process, the first \<open>n\<close> allocations (with \<open>n\<close> below
  \<open>u32::MAX\<close>) all succeed, with different identifiers that are never zero.
\<close>

theorem durable_ids_unique:
  assumes "n < 2 ^ 32 - 1"
  shows "\<exists>ids. fst (allocate_ids e n initial_id_state) = map Ok ids \<and> length ids = n \<and>
    distinct ids \<and> 0 \<notin> set ids"
proof (intro exI conjI)
  let ?ids = "map (\<lambda>i. durable_id (fresh_prefix e) (1 + of_nat i)) [0..<n]"
  have counter: "unat (1 + of_nat i :: u32) = Suc i" if "i < n" for i
    using that assms by (simp add: unat_word_ariths unsigned_of_nat take_bit_nat_eq_self)
  show "fst (allocate_ids e n initial_id_state) = map Ok ?ids"
    using allocate_ids_initial [OF assms] by (simp add: o_def)
  show "distinct ?ids"
    unfolding distinct_map
  proof (intro conjI inj_onI)
    fix i j
    assume ij: "i \<in> set [0..<n]" "j \<in> set [0..<n]"
      and "durable_id (fresh_prefix e) (1 + of_nat i) = durable_id (fresh_prefix e) (1 + of_nat j)"
    then have "(1 + of_nat i :: u32) = 1 + of_nat j" by (simp only: durable_id_inject)
    then have "Suc i = Suc j" using counter ij by (metis atLeastLessThan_iff set_upt)
    then show "i = j" by simp
  qed simp
  show "0 \<notin> set ?ids"
  proof
    assume "0 \<in> set ?ids"
    then obtain i where "i < n" and "durable_id (fresh_prefix e) (1 + of_nat i) = 0" by force
    then have "unat (1 + of_nat i :: u32) = 0" using unat_durable_id [of _ "1 + of_nat i"]
      by (metis add_is_0 unsigned_0)
    with counter \<open>i < n\<close> show False by simp
  qed
qed simp

theorem durable_ids_unique_witness:
  "\<exists>ids. fst (allocate_ids \<lparr>random_bytes = Some [1, 2, 3, 4], now_nanos = 0, now_secs = 0,
      process_number = 9\<rparr> 3 initial_id_state) = map Ok ids \<and> length ids = 3 \<and> distinct ids"
  using durable_ids_unique [of 3] by auto

text \<open>
  After exhaustion, identifiers are used again. The call that finds the counter at its last
  value fails (the code panics), but it has already advanced the counter past the end, so the two
  calls after it succeed, and the second gives the first identifier of the process once more.
\<close>

theorem durable_ids_reused_after_exhaustion:
  assumes "id_prefix s = Some p" and "next_id s = - 1"
  shows "fst (allocate_ids e 3 s) = [Err IdSpaceExhausted, Ok (durable_id p 0), Ok (durable_id p 1)]"
  using assms
  by (simp add: new_durable_id_def durable_id_def numeral_3_eq_3 Let_def)

theorem durable_ids_reused_after_exhaustion_witness:
  "fst (allocate_ids \<lparr>random_bytes = None, now_nanos = 0, now_secs = 0, process_number = 9\<rparr> 3
      \<lparr>id_prefix = Some 5, next_id = - 1\<rparr>)
   = [Err IdSpaceExhausted, Ok (durable_id 5 0), Ok (durable_id 5 1)]"
  by (rule durable_ids_reused_after_exhaustion) simp_all

text \<open>
  Trust never rises. Material combined from several origins is trusted exactly when every
  one of them is, its origin is one of theirs, and no origin has a lower rank.
\<close>

theorem combined_trust:
  "is_trusted (foldl combine_trust t ts) = (is_trusted t \<and> list_all is_trusted ts) \<and>
   foldl combine_trust t ts \<in> insert t (set ts) \<and>
   (\<forall>u \<in> insert t (set ts). policy_rank (foldl combine_trust t ts) \<le> policy_rank u)"
  by (rule combine_trust_fold)

theorem combined_trust_witness:
  "policy_rank (foldl combine_trust TrustedProject [UserProvided, McpResult]) \<le> policy_rank UserProvided"
  using combined_trust [of TrustedProject "[UserProvided, McpResult]"] by simp

end
