(* ===== verification/Event_Sourcing.thy ===== *)
theory Event_Sourcing
  imports Kernel
begin

text \<open>
  How every crate rebuilds its state: \<open>from_events\<close> walks the event log, decodes the payloads of
  its own event kind and applies the transitions, stopping at the first error. \<open>replay\<close> is that
  loop; the locales state what a crate supplies (a step that keeps an invariant, a codec) and
  prove once that recovery is incremental, keeps the invariant, ignores the events of other
  crates and reproduces the state the live transitions produced.
\<close>

text \<open>A method on \<open>&mut self\<close> returns its result and the state it leaves behind.\<close>

fun commit :: "(unit, 'e) result \<times> 's \<Rightarrow> ('s, 'e) result" where
  "commit (Ok _, s) = Ok s"
| "commit (Err e, s) = Err e"

lemma commit_Ok_iff: "commit r = Ok s \<longleftrightarrow> r = (Ok (), s)"
  by (cases r rule: commit.cases) auto

lemma commit_Err_iff: "commit r = Err e \<longleftrightarrow> (\<exists>s. r = (Err e, s))"
  by (cases r rule: commit.cases) auto

fun replay :: "(event_kind \<Rightarrow> (u16 \<times> u8 list) option) \<Rightarrow> (u16 \<Rightarrow> u8 list \<Rightarrow> ('t, 'e) result)
    \<Rightarrow> ('t \<Rightarrow> 's \<Rightarrow> ('s, 'e) result) \<Rightarrow> 's \<Rightarrow> event list \<Rightarrow> ('s, 'e) result" where
  "replay sel dec step s [] = Ok s"
| "replay sel dec step s (ev # evs) =
     (case sel (event_knd ev) of
        None \<Rightarrow> replay sel dec step s evs
      | Some (version, payload) \<Rightarrow>
          and_then (dec version payload) (\<lambda>t.
            and_then (step t s) (\<lambda>s'. replay sel dec step s' evs)))"

locale event_sourced =
  fixes sel :: "event_kind \<Rightarrow> (u16 \<times> u8 list) option"
    and dec :: "u16 \<Rightarrow> u8 list \<Rightarrow> ('t, 'e) result"
    and step :: "'t \<Rightarrow> 's \<Rightarrow> ('s, 'e) result"
    and inv :: "'s \<Rightarrow> bool"
  assumes step_inv: "inv s \<Longrightarrow> step t s = Ok s' \<Longrightarrow> inv s'"
begin

lemma replay_append:
  "replay sel dec step s (xs @ ys) =
     and_then (replay sel dec step s xs) (\<lambda>s'. replay sel dec step s' ys)"
  by (induction xs arbitrary: s) (auto simp: and_then_assoc split: option.split)

lemma replay_inv: "inv s \<Longrightarrow> replay sel dec step s evs = Ok s' \<Longrightarrow> inv s'"
  by (induction evs arbitrary: s) (force split: option.splits dest: step_inv)+

lemma replay_other_kinds:
  "replay sel dec step s evs = replay sel dec step s (filter (\<lambda>ev. sel (event_knd ev) \<noteq> None) evs)"
proof (induction evs arbitrary: s)
  case (Cons ev evs)
  show ?case
    by (cases "sel (event_knd ev)") (auto simp: Cons.IH intro!: arg_cong2 [where f = and_then])
qed simp

end

text \<open>
  With a codec. \<open>recorded ts evs\<close>: among \<open>evs\<close>, the events of this crate are, in order, the
  encodings of the transitions \<open>ts\<close>.
\<close>

locale event_sourced_codec =
  event_sourced sel dec step inv + payload_codec enc dec version ok norm
  for sel :: "event_kind \<Rightarrow> (u16 \<times> u8 list) option"
    and dec :: "u16 \<Rightarrow> u8 list \<Rightarrow> ('t, 'e) result"
    and step :: "'t \<Rightarrow> 's \<Rightarrow> ('s, 'e) result"
    and inv :: "'s \<Rightarrow> bool"
    and enc :: "'t \<Rightarrow> (u8 list, 'e) result"
    and version :: u16
    and ok :: "'t \<Rightarrow> bool"
    and norm :: "'t \<Rightarrow> 't" +
  fixes wrap :: "u16 \<Rightarrow> u8 list \<Rightarrow> event_kind"
  assumes sel_wrap: "sel (wrap v bs) = Some (v, bs)"
    and step_norm: "ok t \<Longrightarrow> step (norm t) s = step t s"
begin

lemma replay_recorded:
  assumes "list_all2 (\<lambda>t ev. \<exists>bs. enc t = Ok bs \<and> event_knd ev = wrap version bs) ts
      (filter (\<lambda>ev. sel (event_knd ev) \<noteq> None) evs)"
    and "\<forall>t \<in> set ts. ok t"
  shows "replay sel dec step s evs = try_fold (\<lambda>s t. step t s) s ts"
proof -
  have "replay sel dec step s evs' = try_fold (\<lambda>s t. step t s) s ts"
    if "list_all2 (\<lambda>t ev. \<exists>bs. enc t = Ok bs \<and> event_knd ev = wrap version bs) ts evs'"
    for evs' s
    using that assms(2)
  proof (induction arbitrary: s rule: list_all2_induct)
    case Nil
    then show ?case by simp
  next
    case (Cons t ts ev evs)
    then obtain bs where "enc t = Ok bs" and ev: "event_knd ev = wrap version bs" and ok: "ok t"
      by auto
    then have "dec version bs = Ok (norm t)" by (blast intro: decode_encode)
    then have "replay sel dec step s (ev # evs) =
        and_then (step t s) (\<lambda>s'. replay sel dec step s' evs)"
      by (simp add: ev sel_wrap step_norm [OF ok])
    then show ?case using Cons by simp
  qed
  with assms(1) show ?thesis by (subst replay_other_kinds) blast
qed

end

end
