(* ===== verification/Resource.thy ===== *)
theory Resource
  imports Event_Sourcing
begin

text \<open>
  Resource identities (\<^verbatim>\<open>crates/security/src/lib.rs\<close>, from \<open>resource_matches\<close> on): the
  lexical normal form of a path-like resource, the subtree relation of capability leases and the
  overlap relation of ownership claims. The specification is a pair of a root flag and a list of
  clean components (\<open>resource_parts\<close>); the string functions of the code are shown to compute
  the prefix relation on it.

  The code asks \<open>cfg!(windows)\<close>, a constant of the build; it is the argument \<open>win\<close> here, so
  every result holds for both builds.
\<close>

section \<open>The code\<close>

definition to_ascii_lowercase :: "string \<Rightarrow> string" where
  "to_ascii_lowercase s = map (\<lambda>c. let n = of_char c :: nat in
      if 65 \<le> n \<and> n \<le> 90 then char_of (n + 32) else c) s"

definition separators :: "char set" where
  "separators = {CHR ''/'', CHR 0x5C}"

fun resolve_components :: "string list \<Rightarrow> string list \<Rightarrow> string list option" where
  "resolve_components components [] = Some components"
| "resolve_components components (c # cs) =
     (if c = [] \<or> c = ''.'' then resolve_components components cs
      else if c = ''..'' then
        (if components = [] then None else resolve_components (butlast components) cs)
      else resolve_components (components @ [c]) cs)"

definition canonical_resource :: "bool \<Rightarrow> string \<Rightarrow> string option" where
  "canonical_resource win resource =
     (if trim_is_empty resource \<or> CHR 0x00 \<in> set resource then None
      else
        let resource = (if win then to_ascii_lowercase resource else resource);
            absolute = (starts_with resource ''/'' \<or> starts_with resource [CHR 0x5C])
        in case resolve_components [] (split_on separators resource) of
             None \<Rightarrow> None
           | Some components \<Rightarrow>
               let normalized = join_with ''/'' components;
                   normalized = (if absolute then CHR ''/'' # normalized else normalized)
               in Some (if normalized = [] then normalized @ (if absolute then ''/'' else ''.'')
                        else normalized))"

definition resource_matches :: "bool \<Rightarrow> string \<Rightarrow> string \<Rightarrow> bool" where
  "resource_matches win granted requested =
     (case canonical_resource win granted of
        None \<Rightarrow> False
      | Some granted \<Rightarrow>
          (case canonical_resource win requested of
             None \<Rightarrow> False
           | Some requested \<Rightarrow>
               granted = ''.'' \<or> granted = ''/'' \<or> granted = requested \<or>
               (starts_with requested granted \<and> length granted < length requested \<and>
                requested ! length granted = CHR ''/'')))"

definition resources_overlap :: "bool \<Rightarrow> string \<Rightarrow> string \<Rightarrow> bool" where
  "resources_overlap win left right =
     (resource_matches win left right \<or> resource_matches win right left)"

section \<open>The specification: a root flag and clean components\<close>

definition clean_component :: "string \<Rightarrow> bool" where
  "clean_component p \<longleftrightarrow>
     p \<noteq> [] \<and> p \<noteq> ''.'' \<and> p \<noteq> ''..'' \<and> set p \<inter> separators = {} \<and> CHR 0x00 \<notin> set p"

definition render_parts :: "bool \<Rightarrow> string list \<Rightarrow> string" where
  "render_parts absolute ps =
     (if absolute then CHR ''/'' # join_with ''/'' ps
      else if ps = [] then ''.'' else join_with ''/'' ps)"

definition resource_parts :: "bool \<Rightarrow> string \<Rightarrow> (bool \<times> string list) option" where
  "resource_parts win r =
     (if trim_is_empty r \<or> CHR 0x00 \<in> set r then None
      else let r = (if win then to_ascii_lowercase r else r)
        in map_option (\<lambda>ps. (starts_with r ''/'' \<or> starts_with r [CHR 0x5C], ps))
             (resolve_components [] (split_on separators r)))"

lemma slash_separator [simp]: "CHR ''/'' \<in> separators" "CHR 0x5C \<in> separators"
  by (simp_all add: separators_def)

lemma join_with_Nil_iff:
  "\<forall>p \<in> set ps. p \<noteq> [] \<Longrightarrow> join_with sep ps = [] \<longleftrightarrow> ps = []"
  by (cases ps rule: remdups_adj.cases) auto

lemma resolve_components_clean:
  assumes "resolve_components acc cs = Some ps"
    and "\<forall>p \<in> set acc. clean_component p"
    and "\<forall>c \<in> set cs. set c \<inter> separators = {} \<and> CHR 0x00 \<notin> set c"
  shows "\<forall>p \<in> set ps. clean_component p"
  using assms
proof (induction acc cs rule: resolve_components.induct)
  case (1 acc)
  then show ?case by simp
next
  case (2 acc c cs)
  have rest: "\<forall>c \<in> set cs. set c \<inter> separators = {} \<and> CHR 0x00 \<notin> set c"
    using 2(6) by simp
  consider (skip) "c = [] \<or> c = ''.''" | (up) "c = ''..''"
    | (push) "c \<noteq> []" "c \<noteq> ''.''" "c \<noteq> ''..''" by blast
  then show ?case
  proof cases
    case skip
    then have "resolve_components acc cs = Some ps" using 2(4) by auto
    with 2(1) skip 2(5) rest show ?thesis by blast
  next
    case up
    then have "acc \<noteq> []" and "resolve_components (butlast acc) cs = Some ps"
      using 2(4) by (simp_all split: if_splits)
    moreover have "\<forall>p \<in> set (butlast acc). clean_component p"
      using 2(5) by (meson in_set_butlastD)
    ultimately show ?thesis using 2(2) up rest by simp
  next
    case push
    then have "resolve_components (acc @ [c]) cs = Some ps" using 2(4) by simp
    moreover have "\<forall>p \<in> set (acc @ [c]). clean_component p"
      using 2(5,6) push by (simp add: clean_component_def)
    ultimately show ?thesis using 2(3) push rest by blast
  qed
qed

lemma char_of_ascii_upper:
  assumes "65 \<le> (of_char c :: nat)" "(of_char c :: nat) \<le> 90"
  shows "char_of ((of_char c :: nat) + 32) \<notin> {CHR ''/'', CHR 0x5C, CHR 0x00}"
proof -
  have "of_char (char_of ((of_char c :: nat) + 32)) = (of_char c :: nat) + 32"
    using assms by simp
  then show ?thesis using assms by (auto dest!: arg_cong [where f = "of_char :: char \<Rightarrow> nat"])
qed

lemma nul_lowercase [simp]: "CHR 0x00 \<in> set (to_ascii_lowercase r) \<longleftrightarrow> CHR 0x00 \<in> set r"
  using char_of_ascii_upper by (force simp: to_ascii_lowercase_def Let_def)

lemma split_on_set: "p \<in> set (split_on seps s) \<Longrightarrow> set p \<subseteq> set s"
  by (induction s arbitrary: p) (fastforce split: if_splits list.splits)+

lemma resource_parts_clean:
  assumes "resource_parts win r = Some (a, ps)"
  shows "\<forall>p \<in> set ps. clean_component p"
proof -
  let ?r = "if win then to_ascii_lowercase r else r"
  from assms have nul: "CHR 0x00 \<notin> set ?r"
    and res: "resolve_components [] (split_on separators ?r) = Some ps"
    by (auto simp: resource_parts_def Let_def split: if_splits)
  have "set c \<inter> separators = {} \<and> CHR 0x00 \<notin> set c" if "c \<in> set (split_on separators ?r)" for c
    using that nul split_on_no_sep split_on_set by blast
  with res show ?thesis by (intro resolve_components_clean [of "[]" _ ps]) auto
qed

lemma canonical_resource_parts:
  "canonical_resource win r = map_option (\<lambda>(a, ps). render_parts a ps) (resource_parts win r)"
proof (cases "trim_is_empty r \<or> CHR 0x00 \<in> set r")
  case True
  then show ?thesis by (simp add: canonical_resource_def resource_parts_def)
next
  case False
  define q where "q = (if win then to_ascii_lowercase r else r)"
  define a where "a = (starts_with q ''/'' \<or> starts_with q [CHR 0x5C])"
  have parts: "resource_parts win r
      = map_option (\<lambda>ps. (a, ps)) (resolve_components [] (split_on separators q))"
    unfolding resource_parts_def a_def q_def using False by (simp add: Let_def)
  show ?thesis
  proof (cases "resolve_components [] (split_on separators q)")
    case None
    then have "canonical_resource win r = None"
      unfolding canonical_resource_def using False by (simp add: Let_def q_def)
    with None parts show ?thesis by simp
  next
    case (Some ps)
    then have "resource_parts win r = Some (a, ps)" using parts by simp
    then have "\<forall>p \<in> set ps. p \<noteq> []"
      using resource_parts_clean by (auto simp: clean_component_def)
    then have empty: "join_with ''/'' ps = [] \<longleftrightarrow> ps = []" by (rule join_with_Nil_iff)
    have "canonical_resource win r =
        (let n = join_with ''/'' ps; n = (if a then CHR ''/'' # n else n)
         in Some (if n = [] then n @ (if a then ''/'' else ''.'') else n))"
      unfolding canonical_resource_def using False Some by (simp add: Let_def q_def a_def)
    also have "\<dots> = Some (render_parts a ps)"
      using empty by (simp add: render_parts_def Let_def)
    finally show ?thesis using parts Some by simp
  qed
qed

section \<open>Rendering is injective, and prefixes of components are subtrees\<close>

lemma split_on_join_clean:
  assumes "ps \<noteq> []" and "\<forall>p \<in> set ps. clean_component p"
  shows "split_on separators (join_with ''/'' ps) = ps"
  using assms by (intro split_on_join) (auto simp: clean_component_def)

definition raw_components :: "bool \<Rightarrow> string list \<Rightarrow> string list" where
  "raw_components a ps = (if a then [[]] else []) @ ps"

lemma split_on_render:
  assumes "ps \<noteq> []" and "\<forall>p \<in> set ps. clean_component p"
  shows "split_on separators (render_parts a ps) = raw_components a ps"
  using assms split_on_join_clean [OF assms] by (simp add: render_parts_def raw_components_def)

lemma raw_components_prefix:
  assumes "\<forall>p \<in> set ps. clean_component p" and "\<forall>p \<in> set qs. clean_component p"
    and "raw_components b qs = raw_components a ps @ zs" and "ps \<noteq> []"
  shows "a = b \<and> qs = ps @ zs"
  using assms
  by (cases a; cases b; cases ps; cases qs) (auto simp: raw_components_def clean_component_def)

lemma join_with_append:
  "ps \<noteq> [] \<Longrightarrow> qs \<noteq> [] \<Longrightarrow> join_with sep (ps @ qs) = join_with sep ps @ sep @ join_with sep qs"
proof (induction sep ps rule: join_with.induct)
  case (2 sep p)
  then show ?case by (cases qs) auto
qed auto

lemma render_parts_append:
  assumes "ps \<noteq> []" and "zs \<noteq> []"
  shows "render_parts a (ps @ zs) = render_parts a ps @ ''/'' @ join_with ''/'' zs"
  using assms by (simp add: render_parts_def join_with_append)

lemma render_parts_root:
  assumes "\<forall>p \<in> set ps. clean_component p"
  shows "render_parts a ps = ''.'' \<longleftrightarrow> \<not> a \<and> ps = []"
    and "render_parts a ps = ''/'' \<longleftrightarrow> a \<and> ps = []"
proof -
  have clean: "ps \<noteq> [] \<Longrightarrow> split_on separators (join_with ''/'' ps) = ps"
    using assms by (intro split_on_join_clean)
  have "join_with ''/'' ps \<noteq> ''.''" if "ps \<noteq> []"
  proof
    assume "join_with ''/'' ps = ''.''"
    with clean [OF that] have "ps = [''.'']" by (simp add: separators_def)
    with assms show False by (simp add: clean_component_def)
  qed
  moreover have "join_with ''/'' ps \<noteq> ''/''" if "ps \<noteq> []"
  proof
    assume "join_with ''/'' ps = ''/''"
    with clean [OF that] have "ps = [[], []]" by (simp add: separators_def)
    with assms show False by (simp add: clean_component_def)
  qed
  moreover have "join_with ''/'' ps = [] \<longleftrightarrow> ps = []"
    using assms by (intro join_with_Nil_iff) (auto simp: clean_component_def)
  ultimately show "render_parts a ps = ''.'' \<longleftrightarrow> \<not> a \<and> ps = []"
    and "render_parts a ps = ''/'' \<longleftrightarrow> a \<and> ps = []"
    by (auto simp: render_parts_def)
qed

lemma render_parts_inject:
  assumes "\<forall>p \<in> set ps. clean_component p" and "\<forall>p \<in> set qs. clean_component p"
  shows "render_parts a ps = render_parts b qs \<longleftrightarrow> a = b \<and> ps = qs"
proof (cases "ps = [] \<or> qs = []")
  case True
  then show ?thesis
    using render_parts_root [OF assms(1), of a] render_parts_root [OF assms(2), of b]
    by (cases a; cases b) (auto simp: render_parts_def)
next
  case False
  then have "raw_components a ps = raw_components b qs" if "render_parts a ps = render_parts b qs"
    using that split_on_render assms by metis
  then show ?thesis
    using raw_components_prefix [OF assms, of b a "[]"] False by auto
qed

lemma starts_with_slash:
  "starts_with r g \<and> length g < length r \<and> r ! length g = c \<longleftrightarrow> (\<exists>t. r = g @ c # t)"
proof
  assume l: "starts_with r g \<and> length g < length r \<and> r ! length g = c"
  then obtain t where t: "r = g @ t" by (auto simp: starts_with_iff)
  with l obtain d t' where "t = d # t'" by (cases t) auto
  with l t show "\<exists>t. r = g @ c # t" by simp
next
  assume "\<exists>t. r = g @ c # t"
  then show "starts_with r g \<and> length g < length r \<and> r ! length g = c"
    by (auto simp: starts_with_iff)
qed

text \<open>The subtree relation on the specification side.\<close>

fun parts_match :: "bool \<times> string list \<Rightarrow> bool \<times> string list \<Rightarrow> bool" where
  "parts_match (a, ps) (b, qs) \<longleftrightarrow> ps = [] \<or> (a = b \<and> (\<exists>zs. qs = ps @ zs))"

lemma render_subtree:
  assumes "\<forall>p \<in> set ps. clean_component p" and "\<forall>p \<in> set qs. clean_component p" and "ps \<noteq> []"
  shows "(\<exists>t. render_parts b qs = render_parts a ps @ CHR ''/'' # t)
    \<longleftrightarrow> a = b \<and> (\<exists>zs. zs \<noteq> [] \<and> qs = ps @ zs)"
proof
  assume "\<exists>t. render_parts b qs = render_parts a ps @ CHR ''/'' # t"
  then obtain t where eq: "render_parts b qs = render_parts a ps @ CHR ''/'' # t" ..
  have "render_parts a ps \<noteq> []"
    using assms(1,3) join_with_Nil_iff [of ps "''/''"]
    by (auto simp: render_parts_def clean_component_def)
  then have "2 \<le> length (render_parts b qs)"
    unfolding eq by (cases "render_parts a ps") auto
  then have qs: "qs \<noteq> []"
    by (auto simp: render_parts_def split: if_splits)
  have "raw_components b qs = raw_components a ps @ split_on separators t"
    using arg_cong [OF eq, of "split_on separators"] split_on_render [OF qs assms(2), of b]
      split_on_render [OF assms(3,1), of a] by (simp add: split_on_append)
  then show "a = b \<and> (\<exists>zs. zs \<noteq> [] \<and> qs = ps @ zs)"
    using raw_components_prefix [OF assms(1,2) _ assms(3)] split_on_not_Nil by blast
next
  assume "a = b \<and> (\<exists>zs. zs \<noteq> [] \<and> qs = ps @ zs)"
  then show "\<exists>t. render_parts b qs = render_parts a ps @ CHR ''/'' # t"
    using render_parts_append [OF assms(3)] by auto
qed

lemma resource_matches_parts:
  "resource_matches win g r \<longleftrightarrow>
     (\<exists>x y. resource_parts win g = Some x \<and> resource_parts win r = Some y \<and> parts_match x y)"
proof (cases "resource_parts win g")
  case None
  then show ?thesis by (simp add: resource_matches_def canonical_resource_parts)
next
  case g: (Some x)
  show ?thesis
  proof (cases "resource_parts win r")
    case None
    then show ?thesis by (simp add: resource_matches_def canonical_resource_parts g split: prod.split)
  next
    case r: (Some y)
    obtain a ps b qs where x: "x = (a, ps)" and y: "y = (b, qs)" by (cases x, cases y)
    have ps: "\<forall>p \<in> set ps. clean_component p" and qs: "\<forall>p \<in> set qs. clean_component p"
      using resource_parts_clean g r x y by blast+
    let ?G = "render_parts a ps" and ?R = "render_parts b qs"
    have "resource_matches win g r \<longleftrightarrow>
        ?G = ''.'' \<or> ?G = ''/'' \<or> ?G = ?R \<or> (\<exists>t. ?R = ?G @ CHR ''/'' # t)"
      unfolding resource_matches_def canonical_resource_parts g r x y
      by (simp add: starts_with_slash [symmetric])
    also have "\<dots> \<longleftrightarrow> ps = [] \<or> (a = b \<and> ps = qs) \<or> (ps \<noteq> [] \<and> (\<exists>t. ?R = ?G @ CHR ''/'' # t))"
      using render_parts_root [OF ps, of a] render_parts_inject [OF ps qs, of a b] by auto
    also have "\<dots> \<longleftrightarrow> parts_match x y"
      using render_subtree [OF ps qs, of b a] by (auto simp: x y)
    finally show ?thesis using g r by simp
  qed
qed

section \<open>The normal form is stable\<close>

lemma resolve_components_id:
  "\<forall>p \<in> set ps. clean_component p \<Longrightarrow> resolve_components acc ps = Some (acc @ ps)"
  by (induction ps arbitrary: acc) (auto simp: clean_component_def)

lemma resolve_components_raw:
  assumes "\<forall>p \<in> set ps. clean_component p"
  shows "resolve_components [] (raw_components a ps) = Some ps"
  using resolve_components_id [OF assms, of "[]"] by (simp add: raw_components_def)

definition no_upper :: "string \<Rightarrow> bool" where
  "no_upper s \<longleftrightarrow> (\<forall>c \<in> set s. \<not> (65 \<le> (of_char c :: nat) \<and> (of_char c :: nat) \<le> 90))"

lemma to_ascii_lowercase_id: "no_upper s \<Longrightarrow> to_ascii_lowercase s = s"
  unfolding to_ascii_lowercase_def Let_def by (rule map_idI) (auto simp: no_upper_def)

lemma no_upper_to_ascii_lowercase: "no_upper (to_ascii_lowercase s)"
  by (auto simp: no_upper_def to_ascii_lowercase_def Let_def)

lemma set_resolve_components:
  "resolve_components acc cs = Some ps \<Longrightarrow> set ps \<subseteq> set acc \<union> set cs"
proof (induction acc cs rule: resolve_components.induct)
  case (2 acc c cs)
  then show ?case by (fastforce split: if_splits dest: in_set_butlastD)
qed simp

lemma resource_parts_no_upper:
  assumes "resource_parts True r = Some (a, ps)"
  shows "no_upper (render_parts b ps)"
proof -
  let ?r = "to_ascii_lowercase r"
  from assms have "resolve_components [] (split_on separators ?r) = Some ps"
    by (auto simp: resource_parts_def Let_def split: if_splits)
  then have "p \<in> set ps \<Longrightarrow> set p \<subseteq> set ?r" for p
    using set_resolve_components split_on_set by fastforce
  then have "set (join_with ''/'' ps) \<subseteq> {CHR ''/''} \<union> set ?r"
    using set_join_with [of "''/''" ps] by fastforce
  then have "set (render_parts b ps) \<subseteq> {CHR ''/'', CHR ''.''} \<union> set ?r"
    by (auto simp: render_parts_def)
  moreover have "no_upper ?r" by (rule no_upper_to_ascii_lowercase)
  ultimately show ?thesis unfolding no_upper_def by fastforce
qed

lemma render_parts_no_nul:
  assumes "\<forall>p \<in> set ps. clean_component p"
  shows "CHR 0x00 \<notin> set (render_parts a ps)"
proof -
  have "CHR 0x00 \<notin> set (join_with ''/'' ps)"
    using assms set_join_with [of "''/''" ps] by (auto simp: clean_component_def)
  then show ?thesis by (simp add: render_parts_def)
qed

lemma render_parts_absolute:
  assumes "\<forall>p \<in> set ps. clean_component p"
  shows "starts_with (render_parts a ps) ''/'' \<or> starts_with (render_parts a ps) [CHR 0x5C] \<longleftrightarrow> a"
proof (cases ps rule: remdups_adj.cases)
  case 1
  then show ?thesis by (simp add: render_parts_def)
next
  case (2 p)
  then show ?thesis
    using assms by (cases p) (auto simp: render_parts_def clean_component_def separators_def)
next
  case (3 p q qs)
  then show ?thesis
    using assms by (cases p) (auto simp: render_parts_def clean_component_def separators_def)
qed

lemma resource_parts_render:
  assumes "resource_parts win r = Some (a, ps)" and "\<not> trim_is_empty (render_parts a ps)"
  shows "resource_parts win (render_parts a ps) = Some (a, ps)"
proof -
  let ?c = "render_parts a ps"
  have clean: "\<forall>p \<in> set ps. clean_component p"
    using assms(1) by (rule resource_parts_clean)
  have low: "(if win then to_ascii_lowercase ?c else ?c) = ?c"
    using assms(1) by (cases win) (simp_all add: to_ascii_lowercase_id resource_parts_no_upper)
  have res: "resolve_components [] (split_on separators ?c) = Some ps"
  proof (cases "ps = []")
    case True
    then show ?thesis by (simp add: render_parts_def separators_def)
  next
    case False
    then show ?thesis
      by (simp add: split_on_render [OF _ clean] resolve_components_raw [OF clean])
  qed
  show ?thesis
    unfolding resource_parts_def
    using assms(2) render_parts_no_nul [OF clean, of a] low res render_parts_absolute [OF clean, of a]
    by simp
qed

lemma canonical_resource_idem:
  assumes "canonical_resource win r = Some c" and "\<not> trim_is_empty c"
  shows "canonical_resource win c = Some c"
  using assms resource_parts_render by (auto simp: canonical_resource_parts)

text \<open>Matching a resource or its normal form is the same.\<close>

lemma resource_parts_canonical:
  assumes "canonical_resource win r = Some c" and "\<not> trim_is_empty c"
  shows "resource_parts win c = resource_parts win r"
  using assms resource_parts_render by (auto simp: canonical_resource_parts)

section \<open>Size and encoding of the normal form\<close>

lemma pieces_size_append [simp]: "pieces_size (xs @ ys) = pieces_size xs + pieces_size ys"
  by (simp add: pieces_size_def)

lemma pieces_size_butlast: "pieces_size (butlast ps) \<le> pieces_size ps"
  by (cases ps rule: rev_cases) simp_all

lemma resolve_components_size:
  "resolve_components acc cs = Some ps \<Longrightarrow> pieces_size ps \<le> pieces_size acc + pieces_size cs"
proof (induction acc cs rule: resolve_components.induct)
  case (2 acc c cs)
  have "pieces_size (c # cs) = Suc (length c) + pieces_size cs"
    and "pieces_size (acc @ [c]) = pieces_size acc + Suc (length c)"
    by (simp_all add: pieces_size_def)
  with 2 pieces_size_butlast [of acc] show ?case by (auto split: if_splits)
qed simp

lemma length_to_ascii_lowercase [simp]: "length (to_ascii_lowercase r) = length r"
  by (simp add: to_ascii_lowercase_def)

lemma canonical_resource_length:
  assumes "canonical_resource win r = Some c"
  shows "length c \<le> length r"
proof -
  define q where "q = (if win then to_ascii_lowercase r else r)"
  obtain a ps where parts: "resource_parts win r = Some (a, ps)" and c: "c = render_parts a ps"
    using assms by (auto simp: canonical_resource_parts)
  from parts have nonempty: "r \<noteq> []"
    and a: "a \<longleftrightarrow> starts_with q ''/'' \<or> starts_with q [CHR 0x5C]"
    and res: "resolve_components [] (split_on separators q) = Some ps"
    by (auto simp: resource_parts_def q_def Let_def split: if_splits)
  have len: "length q = length r" by (simp add: q_def)
  show ?thesis
  proof (cases a)
    case True
    with a obtain x y where q: "q = x # y" and "x \<in> separators"
      by (auto simp: starts_with_iff separators_def)
    then have "resolve_components [] (split_on separators y) = Some ps" using res by simp
    then have "pieces_size ps \<le> Suc (length y)"
      using resolve_components_size pieces_size_split [of separators y]
      by (fastforce simp: pieces_size_def)
    then show ?thesis
      using True pieces_size_join [of ps "CHR ''/''"] len q nonempty
      by (cases "ps = []") (simp_all add: c render_parts_def)
  next
    case False
    have "pieces_size ps \<le> Suc (length q)"
      using resolve_components_size [OF res] pieces_size_split [of separators q]
      by (simp add: pieces_size_def)
    then show ?thesis
      using False pieces_size_join [of ps "CHR ''/''"] len nonempty
      by (cases "ps = []") (simp_all add: c render_parts_def Suc_le_eq)
  qed
qed

lemma is_utf8_to_ascii_lowercase:
  assumes "is_utf8 r"
  shows "is_utf8 (to_ascii_lowercase r)"
proof -
  let ?f = "\<lambda>n :: nat. if 65 \<le> n \<and> n \<le> 90 then n + 32 else n"
  have "map of_char (to_ascii_lowercase r) = map ?f (map of_char r)"
    by (simp add: to_ascii_lowercase_def Let_def)
  moreover have "utf8_valid (map ?f (map of_char r))"
    using assms unfolding is_utf8_def by (intro utf8_valid_map_ascii) auto
  ultimately show ?thesis unfolding is_utf8_def by simp
qed

lemma canonical_resource_utf8:
  assumes "is_utf8 r" and "canonical_resource win r = Some c"
  shows "is_utf8 c"
proof -
  define q where "q = (if win then to_ascii_lowercase r else r)"
  have q: "is_utf8 q" using assms(1) by (simp add: q_def is_utf8_to_ascii_lowercase)
  obtain a ps where parts: "resource_parts win r = Some (a, ps)" and c: "c = render_parts a ps"
    using assms(2) by (auto simp: canonical_resource_parts)
  from parts have "resolve_components [] (split_on separators q) = Some ps"
    by (auto simp: resource_parts_def q_def Let_def split: if_splits)
  then have "set ps \<subseteq> set (split_on separators q)"
    using set_resolve_components by fastforce
  moreover have "is_utf8 p" if "p \<in> set (split_on separators q)" for p
    by (rule split_on_utf8 [OF _ q that]) (simp add: separators_def)
  ultimately have "is_utf8 (join_with ''/'' ps)"
    by (intro join_with_utf8) auto
  then show ?thesis by (simp add: c render_parts_def is_utf8_Cons_ascii)
qed

section \<open>Subtrees as an order\<close>

text \<open>
  The contract that ownership relies on: subtrees are a preorder in which two ancestors of one
  resource are comparable.
\<close>

locale subtree_order =
  fixes covers :: "'r \<Rightarrow> 'r \<Rightarrow> bool"
  assumes covers_refl: "covers x x"
    and covers_trans: "covers x y \<Longrightarrow> covers y z \<Longrightarrow> covers x z"
    and covers_linear: "covers x z \<Longrightarrow> covers y z \<Longrightarrow> covers x y \<or> covers y x"
begin

definition overlap :: "'r \<Rightarrow> 'r \<Rightarrow> bool" where
  "overlap x y \<longleftrightarrow> covers x y \<or> covers y x"

lemma overlap_sym: "overlap x y \<longleftrightarrow> overlap y x"
  by (auto simp: overlap_def)

lemma overlap_cover: "covers x y \<Longrightarrow> overlap c y \<Longrightarrow> overlap c x"
  unfolding overlap_def using covers_trans covers_linear by blast

text \<open>Claims over overlapping resources: one of them reaches the other's resource.\<close>

lemma overlap_claims:
  assumes "overlap x y" and "overlap c x" and "overlap d y"
  shows "overlap c y \<or> overlap d x"
  using assms overlap_cover overlap_def by blast

end

interpretation parts: subtree_order parts_match
proof
  fix x y z :: "bool \<times> string list"
  show "parts_match x x" by (cases x) simp
  show "parts_match x z" if "parts_match x y" and "parts_match y z"
    using that by (cases x; cases y; cases z) auto
  show "parts_match x y \<or> parts_match y x" if "parts_match x z" and "parts_match y z"
    using that by (cases x; cases y; cases z) (auto dest!: append_eq_append_conv2 [THEN iffD1])
qed

lemma resources_overlap_parts:
  "resources_overlap win l r \<longleftrightarrow>
     (\<exists>x y. resource_parts win l = Some x \<and> resource_parts win r = Some y \<and> parts.overlap x y)"
  by (auto simp: resources_overlap_def resource_matches_parts parts.overlap_def)

lemma resources_overlap_sym: "resources_overlap win l r \<longleftrightarrow> resources_overlap win r l"
  by (auto simp: resources_overlap_def)

text \<open>What evaluates these functions on literal strings.\<close>

lemmas resource_eval = resource_matches_def canonical_resource_def trim_is_empty_def
  separators_def Let_def

section \<open>Properties\<close>

text \<open>
  The normal form of a resource. It is never longer than the resource, has no parent component
  and no null byte, is valid UTF-8 when the resource is, and, unless it is blank, is its own normal
  form and matches the resource both ways.
\<close>

theorem canonical_resource_normal:
  assumes "canonical_resource win r = Some c"
  shows "length c \<le> length r \<and> ''..'' \<notin> set (split_on separators c) \<and> CHR 0x00 \<notin> set c \<and>
    (is_utf8 r \<longrightarrow> is_utf8 c) \<and>
    (\<not> trim_is_empty c \<longrightarrow> canonical_resource win c = Some c \<and>
       resource_matches win c r \<and> resource_matches win r c)"
proof (intro conjI impI)
  obtain a ps where parts: "resource_parts win r = Some (a, ps)" and c: "c = render_parts a ps"
    using assms by (auto simp: canonical_resource_parts)
  have clean: "\<forall>p \<in> set ps. clean_component p" using parts by (rule resource_parts_clean)
  show "length c \<le> length r" using assms by (rule canonical_resource_length)
  show "CHR 0x00 \<notin> set c" unfolding c using clean by (rule render_parts_no_nul)
  show "''..'' \<notin> set (split_on separators c)"
  proof (cases "ps = []")
    case True
    then show ?thesis by (simp add: c render_parts_def separators_def)
  next
    case False
    then show ?thesis
      using clean by (auto simp: c split_on_render raw_components_def clean_component_def)
  qed
  show "is_utf8 c" if "is_utf8 r" using that assms by (rule canonical_resource_utf8)
  assume blank: "\<not> trim_is_empty c"
  show "canonical_resource win c = Some c" using assms blank by (rule canonical_resource_idem)
  show "resource_matches win c r" "resource_matches win r c"
    using resource_parts_canonical [OF assms blank] parts parts.covers_refl [of "(a, ps)"]
    by (simp_all add: resource_matches_parts)
qed

theorem canonical_resource_normal_witness:
  "canonical_resource False ''src/./a/../b'' = Some ''src/b'' \<and>
   resource_matches False ''src/b'' ''src/./a/../b''"
proof -
  have "canonical_resource False ''src/./a/../b'' = Some ''src/b''" and "\<not> trim_is_empty ''src/b''"
    by (simp_all add: resource_eval)
  with canonical_resource_normal [OF this(1)] show ?thesis by blast
qed

text \<open>
  C35: a grant covers exactly its subtree. One resource matches another when both resolve to a
  sequence of components without escaping their root and the first sequence, with the same kind of
  root, is a prefix of the second (the bare roots cover everything).
\<close>

theorem resource_matching_is_subtree:
  "resource_matches win g r \<longleftrightarrow>
     (\<exists>x y. resource_parts win g = Some x \<and> resource_parts win r = Some y \<and> parts_match x y)"
  by (simp only: resource_matches_parts)

end
