(* ===== verification/Security.thy ===== *)
theory Security
  imports Resource
begin

text \<open>
  The crate \<^verbatim>\<open>crates/security\<close>: capability leases and their authorization, the secret vault, the
  transition codec and the ownership policies. The trait \<open>ResourceOwnershipPolicy\<close> is the locale
  \<open>ownership_policy\<close>; its implementation by the scheduler is interpreted in the theory
  \<open>Scheduler\<close>. Methods on \<open>&mut self\<close> return their result and the state they leave.
\<close>

section \<open>Domains, leases, errors\<close>

datatype capability_domain = Filesystem | Process | Network | Secrets | Plugins | ExternalServices

fun domain_tag :: "capability_domain \<Rightarrow> u8" where
  "domain_tag Filesystem = 0"
| "domain_tag Process = 1"
| "domain_tag Network = 2"
| "domain_tag Secrets = 3"
| "domain_tag Plugins = 4"
| "domain_tag ExternalServices = 5"

lemma domain_tag_inject [simp]: "domain_tag d = domain_tag e \<longleftrightarrow> d = e"
  by (cases d; cases e) simp_all

text \<open>The derived order of the enumeration, the order of its constructors.\<close>

instantiation capability_domain :: linorder
begin

definition less_eq_capability_domain :: "capability_domain \<Rightarrow> capability_domain \<Rightarrow> bool" where
  "less_eq_capability_domain d e = (domain_tag d \<le> domain_tag e)"

definition less_capability_domain :: "capability_domain \<Rightarrow> capability_domain \<Rightarrow> bool" where
  "less_capability_domain d e = (domain_tag d < domain_tag e)"

instance
  by standard (auto simp: less_eq_capability_domain_def less_capability_domain_def
      intro: order_trans dest: antisym)

end

datatype ownership_access = ReadAccess | WriteAccess

datatype ownership_error =
    OwnershipInvalid string
  | OwnershipUnowned agent_id string
  | OwnershipConflicts agent_id string agent_id

record capability_lease =
  lease_agent :: agent_id
  lease_task :: "task_id option"
  lease_domain :: capability_domain
  lease_resource :: string
  lease_expires_at_ms :: u128

datatype capability_error =
    CapInvalid string
  | CapInvalidEncoding string
  | CapUnsupportedVersion u16
  | CapTooLarge usize
  | CapDuplicate
  | CapNotFound
  | SecretHandleNotFound
  | SecretHandleScope
  | CapMissing agent_id capability_domain string
  | CapExpired agent_id capability_domain string

definition CAPABILITY_SCHEMA_VERSION :: u16 where "CAPABILITY_SCHEMA_VERSION = 1"
definition MAX_RESOURCE_BYTES :: nat where "MAX_RESOURCE_BYTES = 64 * 1024"
definition MAX_SECRET_BYTES :: nat where "MAX_SECRET_BYTES = 64 * 1024"
definition MAX_SECRET_HANDLES :: nat where "MAX_SECRET_HANDLES = 4096"
definition CAP_MAX_PAYLOAD_BYTES :: nat where "CAP_MAX_PAYLOAD_BYTES = 1024 * 1024"

definition lease_validate :: "capability_lease \<Rightarrow> (unit, capability_error) result" where
  "lease_validate l =
     (if lease_agent l = 0 then Err (CapInvalid ''agent ID must be non-zero'')
      else if trim_is_empty (lease_resource l) then Err (CapInvalid ''resource must not be empty'')
      else if MAX_RESOURCE_BYTES < length (lease_resource l)
        then Err (CapTooLarge (length (lease_resource l)))
      else if lease_expires_at_ms l = 0 then Err (CapInvalid ''lease expiry must be non-zero'')
      else Ok ())"

section \<open>The policy: grant, revoke, authorize\<close>

type_synonym lease_key = "agent_id \<times> task_id option \<times> capability_domain \<times> string"

record capability_policy =
  policy_leases :: "(lease_key, capability_lease) bmap"

definition policy_new :: capability_policy where
  "policy_new = \<lparr>policy_leases = bm_empty\<rparr>"

definition lease_key_of :: "capability_lease \<Rightarrow> lease_key" where
  "lease_key_of l = (lease_agent l, lease_task l, lease_domain l, lease_resource l)"

definition grant :: "capability_lease \<Rightarrow> capability_policy
    \<Rightarrow> (unit, capability_error) result \<times> capability_policy" where
  "grant l p =
     (case lease_validate l of
        Err e \<Rightarrow> (Err e, p)
      | Ok _ \<Rightarrow>
          let key = lease_key_of l in
          if bm_contains_key (policy_leases p) key then (Err CapDuplicate, p)
          else (Ok (), p\<lparr>policy_leases := bm_insert key l (policy_leases p)\<rparr>))"

definition revoke :: "agent_id \<Rightarrow> task_id option \<Rightarrow> capability_domain \<Rightarrow> string
    \<Rightarrow> capability_policy \<Rightarrow> bool \<times> capability_policy" where
  "revoke a t d r p =
     (bm_contains_key (policy_leases p) (a, t, d, r),
      p\<lparr>policy_leases := bm_remove (a, t, d, r) (policy_leases p)\<rparr>)"

definition lease_applies :: "bool \<Rightarrow> agent_id \<Rightarrow> task_id option \<Rightarrow> capability_domain \<Rightarrow> string
    \<Rightarrow> capability_lease \<Rightarrow> bool" where
  "lease_applies win a t d r l =
     (\<not> (lease_agent l \<noteq> a \<or> lease_domain l \<noteq> d
        \<or> \<not> (lease_task l = None \<or> lease_task l = t)
        \<or> \<not> (d = Filesystem \<and> lease_resource l = ''.''
             \<or> resource_matches win (lease_resource l) r)))"

text \<open>The loop of \<open>authorize\<close>: the flag \<open>expired\<close> is its local variable.\<close>

fun authorize_scan :: "bool \<Rightarrow> agent_id \<Rightarrow> task_id option \<Rightarrow> capability_domain \<Rightarrow> string \<Rightarrow> u128
    \<Rightarrow> bool \<Rightarrow> capability_lease list \<Rightarrow> (unit, capability_error) result" where
  "authorize_scan win a t d r now expired [] =
     (if expired then Err (CapExpired a d r) else Err (CapMissing a d r))"
| "authorize_scan win a t d r now expired (l # ls) =
     (if \<not> lease_applies win a t d r l then authorize_scan win a t d r now expired ls
      else if lease_expires_at_ms l \<le> now then authorize_scan win a t d r now True ls
      else Ok ())"

definition authorize :: "bool \<Rightarrow> capability_policy \<Rightarrow> agent_id \<Rightarrow> task_id option
    \<Rightarrow> capability_domain \<Rightarrow> string \<Rightarrow> u128 \<Rightarrow> (unit, capability_error) result" where
  "authorize win p a t d r now =
     authorize_scan win a t d r now False (bm_values (policy_leases p))"

datatype capability_transition =
    Granted capability_lease
  | Revoked agent_id "task_id option" capability_domain string

fun cap_apply :: "capability_transition \<Rightarrow> capability_policy
    \<Rightarrow> (unit, capability_error) result \<times> capability_policy" where
  "cap_apply (Granted l) p = grant l p"
| "cap_apply (Revoked a t d r) p =
     (case revoke a t d r p of
        (True, p') \<Rightarrow> (Ok (), p')
      | (False, p') \<Rightarrow> (Err CapNotFound, p'))"

lemma authorize_scan_Ok:
  "authorize_scan win a t d r now expired ls = Ok () \<longleftrightarrow>
     (\<exists>l \<in> set ls. lease_applies win a t d r l \<and> now < lease_expires_at_ms l)"
  by (induction ls arbitrary: expired) (auto simp: not_le)

lemma authorize_scan_Err:
  assumes "\<not> (\<exists>l \<in> set ls. lease_applies win a t d r l \<and> now < lease_expires_at_ms l)"
  shows "authorize_scan win a t d r now expired ls =
     (if expired \<or> (\<exists>l \<in> set ls. lease_applies win a t d r l)
      then Err (CapExpired a d r) else Err (CapMissing a d r))"
  using assms by (induction ls arbitrary: expired) (auto simp: not_le)

lemma authorize_Ok:
  "authorize win p a t d r now = Ok () \<longleftrightarrow>
     (\<exists>k l. bm_get (policy_leases p) k = Some l \<and> lease_applies win a t d r l
        \<and> now < lease_expires_at_ms l)"
  by (force simp: authorize_def authorize_scan_Ok bm_values_iff)

text \<open>
  The invariant of a policy: every lease stands under its own key and has passed validation.
\<close>

definition policy_wf :: "capability_policy \<Rightarrow> bool" where
  "policy_wf p \<longleftrightarrow> (\<forall>k l. bm_get (policy_leases p) k = Some l \<longrightarrow>
     k = lease_key_of l \<and> lease_validate l = Ok ())"

lemma policy_wf_new: "policy_wf policy_new"
  by (simp add: policy_wf_def policy_new_def)

lemma policy_wf_apply: "policy_wf p \<Longrightarrow> policy_wf (snd (cap_apply t p))"
  by (cases t)
    (auto simp: policy_wf_def grant_def revoke_def Let_def split: result.splits bool.splits if_splits)

lemma cap_apply_error_atomic:
  assumes "fst (cap_apply t p) = Err e"
  shows "snd (cap_apply t p) = p"
proof (cases t)
  case (Granted l)
  with assms show ?thesis by (auto simp: grant_def Let_def split: result.splits if_splits)
next
  case (Revoked a t' d r)
  with assms have "bm_get (policy_leases p) (a, t', d, r) = None"
    by (auto simp: revoke_def bm_contains_key_def split: bool.splits)
  then show ?thesis
    using Revoked by (auto simp: revoke_def bm.remove_fresh split: bool.splits)
qed

section \<open>Ownership policies\<close>

text \<open>
  The trait \<open>ResourceOwnershipPolicy\<close>: a read is never refused for want of ownership (only an
  invalid resource may be an error). A policy that is exclusive gives the write authority over
  overlapping resources to one agent only.
\<close>

locale ownership_policy =
  fixes own_authorize :: "agent_id \<Rightarrow> string \<Rightarrow> ownership_access \<Rightarrow> (unit, ownership_error) result"
  assumes read_free: "own_authorize a r ReadAccess = Err e \<Longrightarrow> \<exists>m. e = OwnershipInvalid m"
begin

lemma read_never_contested:
  "own_authorize a r ReadAccess \<noteq> Err (OwnershipUnowned b s)"
  "own_authorize a r ReadAccess \<noteq> Err (OwnershipConflicts b s c)"
  using read_free by blast+

end

locale exclusive_ownership = ownership_policy own_authorize
  for own_authorize :: "agent_id \<Rightarrow> string \<Rightarrow> ownership_access \<Rightarrow> (unit, ownership_error) result" +
  fixes overlapping :: "string \<Rightarrow> string \<Rightarrow> bool"
  assumes write_exclusive: "own_authorize a r WriteAccess = Ok () \<Longrightarrow>
      own_authorize b s WriteAccess = Ok () \<Longrightarrow> overlapping r s \<Longrightarrow> a = b"
begin

text \<open>Over a resource that overlaps itself (a valid one), the writer is unique.\<close>

lemma writer_unique:
  "overlapping r r \<Longrightarrow> own_authorize a r WriteAccess = Ok () \<Longrightarrow>
   (own_authorize b r WriteAccess = Ok ()) = (b = a)"
  using write_exclusive by blast

end

definition allow_all_authorize :: "agent_id \<Rightarrow> string \<Rightarrow> ownership_access
    \<Rightarrow> (unit, ownership_error) result" where
  "allow_all_authorize a r access = Ok ()"

interpretation allow_all: ownership_policy allow_all_authorize
  by unfold_locales (simp add: allow_all_authorize_def)

record exclusive_policy =
  exclusive_owner :: agent_id
  exclusive_root :: string

definition exclusive_policy_new :: "bool \<Rightarrow> agent_id \<Rightarrow> string
    \<Rightarrow> (exclusive_policy, ownership_error) result" where
  "exclusive_policy_new win owner root =
     and_then (ok_or (canonical_resource win root)
         (OwnershipInvalid ''ownership root must be a canonical resource''))
       (\<lambda>root. Ok \<lparr>exclusive_owner = owner, exclusive_root = root\<rparr>)"

definition exclusive_authorize :: "bool \<Rightarrow> exclusive_policy \<Rightarrow> agent_id \<Rightarrow> string
    \<Rightarrow> ownership_access \<Rightarrow> (unit, ownership_error) result" where
  "exclusive_authorize win p a r access =
     (if access = ReadAccess then Ok ()
      else if a \<noteq> exclusive_owner p then Err (OwnershipConflicts a r (exclusive_owner p))
      else if resource_matches win (exclusive_root p) r then Ok ()
      else Err (OwnershipUnowned a r))"

interpretation exclusive: exclusive_ownership "exclusive_authorize win p" "resources_overlap win"
  for win p
  by unfold_locales (auto simp: exclusive_authorize_def split: if_splits)

section \<open>The transition codec\<close>

definition sec_take :: "nat \<Rightarrow> (u8 list, capability_error) reader" where
  "sec_take = cursor_take (CapInvalidEncoding ''payload offset overflow'')
     (CapInvalidEncoding ''payload is truncated'')"

definition sec_u8 :: "(u8, capability_error) reader" where "sec_u8 = read_u8 sec_take"
definition sec_u64 :: "(u64, capability_error) reader" where "sec_u64 = read_u64 sec_take"
definition sec_u128 :: "(u128, capability_error) reader" where "sec_u128 = read_u128 sec_take"

definition sec_string :: "(string, capability_error) reader" where
  "sec_string = rd_bind (read_u32 sec_take) (\<lambda>n.
     let len = unat n in
     if MAX_RESOURCE_BYTES < len then rd_fail (CapTooLarge len)
     else read_utf8 sec_take (CapInvalidEncoding ''resource is not UTF-8'') len)"

definition sec_finish :: "cursor \<Rightarrow> (unit, capability_error) result" where
  "sec_finish = cursor_finish (CapInvalidEncoding ''payload has trailing bytes'')"

text \<open>A writer method appends bytes; the definitions below give the bytes that are appended.\<close>

definition sec_write_string :: "string \<Rightarrow> (u8 list, capability_error) result" where
  "sec_write_string v =
     (if 2 ^ 32 \<le> length v then Err (CapTooLarge (length v))
      else Ok (to_le_bytes (of_nat (length v) :: u32) @ as_bytes v))"

definition encode_task :: "task_id option \<Rightarrow> u8 list" where
  "encode_task t = (case t of Some t \<Rightarrow> [1] @ to_le_bytes t | None \<Rightarrow> [0])"

definition decode_task :: "(task_id option, capability_error) reader" where
  "decode_task = rd_bind sec_u8 (\<lambda>tag.
     if tag = 0 then rd_return None
     else if tag = 1 then rd_bind sec_u64 (\<lambda>t. rd_return (Some t))
     else rd_fail (CapInvalidEncoding ''unknown task tag''))"

definition decode_domain :: "u8 \<Rightarrow> (capability_domain, capability_error) result" where
  "decode_domain tag =
     (if tag = 0 then Ok Filesystem
      else if tag = 1 then Ok Process
      else if tag = 2 then Ok Network
      else if tag = 3 then Ok Secrets
      else if tag = 4 then Ok Plugins
      else if tag = 5 then Ok ExternalServices
      else Err (CapInvalidEncoding ''unknown capability domain tag''))"

definition cap_validate_resource :: "string \<Rightarrow> (unit, capability_error) result" where
  "cap_validate_resource r =
     (if trim_is_empty r then Err (CapInvalid ''resource must not be empty'')
      else if MAX_RESOURCE_BYTES < length r then Err (CapTooLarge (length r))
      else Ok ())"

definition encode_lease :: "capability_lease \<Rightarrow> (u8 list, capability_error) result" where
  "encode_lease l =
     and_then (sec_write_string (lease_resource l)) (\<lambda>s.
       Ok (to_le_bytes (lease_agent l) @ encode_task (lease_task l) @ [domain_tag (lease_domain l)]
           @ s @ to_le_bytes (lease_expires_at_ms l)))"

definition decode_lease :: "(capability_lease, capability_error) reader" where
  "decode_lease =
     rd_bind sec_u64 (\<lambda>a. rd_bind decode_task (\<lambda>t. rd_bind sec_u8 (\<lambda>tag.
     rd_bind (rd_lift (decode_domain tag)) (\<lambda>d. rd_bind sec_string (\<lambda>r.
     rd_bind sec_u128 (\<lambda>x.
       let l = \<lparr>lease_agent = a, lease_task = t, lease_domain = d, lease_resource = r,
                lease_expires_at_ms = x\<rparr>
       in rd_bind (rd_lift (lease_validate l)) (\<lambda>_. rd_return l)))))))"

definition cap_encode_transition :: "capability_transition \<Rightarrow> (u8 list, capability_error) result"
  where
  "cap_encode_transition t =
     and_then (case t of
         Granted l \<Rightarrow> and_then (lease_validate l) (\<lambda>_.
           and_then (encode_lease l) (\<lambda>bs. Ok ([0] @ bs)))
       | Revoked a task d r \<Rightarrow> and_then (cap_validate_resource r) (\<lambda>_.
           and_then (sec_write_string r) (\<lambda>s.
             Ok ([1] @ to_le_bytes a @ encode_task task @ [domain_tag d] @ s))))
       (\<lambda>bytes. if CAP_MAX_PAYLOAD_BYTES < length bytes then Err (CapTooLarge (length bytes))
                else Ok bytes)"

definition cap_read_transition :: "(capability_transition, capability_error) reader" where
  "cap_read_transition = rd_bind sec_u8 (\<lambda>tag.
     if tag = 0 then rd_bind decode_lease (\<lambda>l. rd_return (Granted l))
     else if tag = 1 then
       rd_bind sec_u64 (\<lambda>a. rd_bind decode_task (\<lambda>t. rd_bind sec_u8 (\<lambda>tag.
       rd_bind (rd_lift (decode_domain tag)) (\<lambda>d. rd_bind sec_string (\<lambda>r.
         rd_return (Revoked a t d r))))))
     else rd_fail (CapInvalidEncoding ''unknown capability transition tag''))"

definition cap_decode_transition :: "u16 \<Rightarrow> u8 list
    \<Rightarrow> (capability_transition, capability_error) result" where
  "cap_decode_transition version bytes =
     (if version \<noteq> CAPABILITY_SCHEMA_VERSION then Err (CapUnsupportedVersion version)
      else if CAP_MAX_PAYLOAD_BYTES < length bytes then Err (CapTooLarge (length bytes))
      else read_all cap_read_transition (CapInvalidEncoding ''payload has trailing bytes'') bytes)"

interpretation sec: byte_taker sec_take
  unfolding sec_take_def by (rule byte_taker_cursor_take)

lemma decode_domain_tag [simp]: "decode_domain (domain_tag d) = Ok d"
  by (cases d) (simp_all add: decode_domain_def)

lemma sec_string_reads:
  assumes "is_utf8 r" and "length r \<le> MAX_RESOURCE_BYTES" and "sec_write_string r = Ok bs"
  shows "reads sec_string bs r"
proof -
  have len: "unat (of_nat (length r) :: u32) = length r"
    using assms(2) by (simp add: MAX_RESOURCE_BYTES_def unsigned_of_nat take_bit_nat_eq_self)
  have bs: "bs = to_le_bytes (of_nat (length r) :: u32) @ as_bytes r"
    using assms(3) by (simp add: sec_write_string_def split: if_splits)
  show ?thesis
    unfolding sec_string_def bs
    by (rule reads_bind, rule sec.u32_reads)
      (use assms len in \<open>simp add: Let_def sec.utf8_reads\<close>)
qed

lemma decode_task_reads: "reads decode_task (encode_task t) t"
proof (cases t)
  case None
  then show ?thesis
    unfolding decode_task_def encode_task_def sec_u8_def
    by (auto intro!: reads_bind_last [OF sec.u8_reads] reads_return)
next
  case (Some u)
  show ?thesis
    unfolding decode_task_def encode_task_def sec_u8_def sec_u64_def Some option.case
    by (intro reads_bind [OF sec.u8_reads])
      (auto intro!: reads_bind_last [OF sec.u64_reads] reads_return)
qed

lemma cap_read_transition_reads:
  assumes "case t of Granted l \<Rightarrow> is_utf8 (lease_resource l) | Revoked a t d r \<Rightarrow> is_utf8 r"
    and "cap_encode_transition t = Ok bs"
  shows "reads cap_read_transition bs t"
proof (cases t)
  case (Granted l)
  with assms(2) obtain s where valid: "lease_validate l = Ok ()"
    and s: "sec_write_string (lease_resource l) = Ok s"
    and bs: "bs = [0] @ to_le_bytes (lease_agent l) @ encode_task (lease_task l)
        @ [domain_tag (lease_domain l)] @ s @ to_le_bytes (lease_expires_at_ms l)"
    by (auto simp: cap_encode_transition_def encode_lease_def split: if_splits)
  have "length (lease_resource l) \<le> MAX_RESOURCE_BYTES"
    using valid by (auto simp: lease_validate_def split: if_splits)
  then have str: "reads sec_string s (lease_resource l)"
    using assms(1) Granted s by (intro sec_string_reads) auto
  have eta: "\<lparr>lease_agent = lease_agent l, lease_task = lease_task l, lease_domain = lease_domain l,
      lease_resource = lease_resource l, lease_expires_at_ms = lease_expires_at_ms l\<rparr> = l"
    by simp
  have "reads decode_lease (to_le_bytes (lease_agent l) @ encode_task (lease_task l)
        @ [domain_tag (lease_domain l)] @ s @ to_le_bytes (lease_expires_at_ms l)) l"
    unfolding decode_lease_def sec_u8_def sec_u64_def sec_u128_def
    by (intro reads_bind [OF sec.u64_reads] reads_bind [OF decode_task_reads]
        reads_bind [OF sec.u8_reads] reads_bind_first [OF reads_lift [OF decode_domain_tag]]
        reads_bind [OF str] reads_bind_last [OF sec.u128_reads])
      (simp only: Let_def eta, rule reads_bind_first [OF reads_lift [OF valid] reads_return])
  then show ?thesis
    unfolding cap_read_transition_def sec_u8_def bs Granted
    by (intro reads_bind [OF sec.u8_reads]) (auto intro: reads_bind_last reads_return)
next
  case (Revoked a task d r)
  with assms(2) obtain s where valid: "cap_validate_resource r = Ok ()"
    and s: "sec_write_string r = Ok s"
    and bs: "bs = [1] @ to_le_bytes a @ encode_task task @ [domain_tag d] @ s"
    by (auto simp: cap_encode_transition_def split: if_splits)
  have "length r \<le> MAX_RESOURCE_BYTES"
    using valid by (auto simp: cap_validate_resource_def split: if_splits)
  then have str: "reads sec_string s r"
    using assms(1) Revoked s by (intro sec_string_reads) auto
  have "reads (rd_bind (read_u64 sec_take) (\<lambda>a. rd_bind decode_task (\<lambda>t.
       rd_bind (read_u8 sec_take) (\<lambda>tag. rd_bind (rd_lift (decode_domain tag)) (\<lambda>d.
       rd_bind sec_string (\<lambda>r. rd_return (Revoked a t d r)))))))
       (to_le_bytes a @ encode_task task @ [domain_tag d] @ s) (Revoked a task d r)"
    by (intro reads_bind [OF sec.u64_reads] reads_bind [OF decode_task_reads]
        reads_bind [OF sec.u8_reads] reads_bind_first [OF reads_lift [OF decode_domain_tag]]
        reads_bind_last [OF str] reads_return)
  then show ?thesis
    unfolding cap_read_transition_def sec_u8_def sec_u64_def bs Revoked
    by (intro reads_bind [OF sec.u8_reads]) simp
qed

definition transition_utf8 :: "capability_transition \<Rightarrow> bool" where
  "transition_utf8 t =
     (case t of Granted l \<Rightarrow> is_utf8 (lease_resource l) | Revoked a t d r \<Rightarrow> is_utf8 r)"

text \<open>The event kind of this crate, and the recovery of a policy from an event log.\<close>

fun select_capability :: "event_kind \<Rightarrow> (u16 \<times> u8 list) option" where
  "select_capability (CapabilityTransition v p) = Some (v, p)"
| "select_capability _ = None"

definition policy_from_events :: "event list \<Rightarrow> (capability_policy, capability_error) result" where
  "policy_from_events evs =
     replay select_capability cap_decode_transition (\<lambda>t p. commit (cap_apply t p)) policy_new evs"

interpretation cap: event_sourced_codec select_capability cap_decode_transition
    "\<lambda>t p. commit (cap_apply t p)" policy_wf cap_encode_transition CAPABILITY_SCHEMA_VERSION
    transition_utf8 "\<lambda>t. t" CapabilityTransition
proof
  show "policy_wf p \<Longrightarrow> commit (cap_apply t p) = Ok p' \<Longrightarrow> policy_wf p'" for p t p'
    using policy_wf_apply [of p t] by (simp add: commit_Ok_iff)
next
  fix t bs
  assume ok: "transition_utf8 t" and enc: "cap_encode_transition t = Ok bs"
  then have "length bs \<le> CAP_MAX_PAYLOAD_BYTES"
    by (auto simp: cap_encode_transition_def split: if_splits)
  moreover have "reads cap_read_transition bs t"
    using ok enc by (intro cap_read_transition_reads) (simp_all add: transition_utf8_def)
  ultimately show "cap_decode_transition CAPABILITY_SCHEMA_VERSION bs = Ok t"
    unfolding cap_decode_transition_def
    by (simp add: CAP_MAX_PAYLOAD_BYTES_def read_all_reads)
qed simp_all

section \<open>The secret vault\<close>

record secret_record =
  secret_agent :: agent_id
  secret_task :: "task_id option"
  secret_resource :: string
  secret_value :: "u8 list"

record secret_vault =
  next_handle :: u64
  vault_records :: "(u64, secret_record) bmap"

definition vault_new :: secret_vault where
  "vault_new = \<lparr>next_handle = 1, vault_records = bm_empty\<rparr>"

definition vault_issue :: "bool \<Rightarrow> capability_policy \<Rightarrow> agent_id \<Rightarrow> task_id option \<Rightarrow> string
    \<Rightarrow> u8 list \<Rightarrow> u128 \<Rightarrow> secret_vault \<Rightarrow> (u64, capability_error) result \<times> secret_vault" where
  "vault_issue win p a t r v now s =
     (if v = [] then (Err (CapInvalid ''secret value must not be empty''), s)
      else if MAX_SECRET_BYTES < length v then (Err (CapTooLarge (length v)), s)
      else if MAX_SECRET_HANDLES \<le> bm_len (vault_records s)
        then (Err (CapTooLarge (bm_len (vault_records s))), s)
      else case authorize win p a t Secrets r now of
        Err e \<Rightarrow> (Err e, s)
      | Ok _ \<Rightarrow>
          let handle = next_handle s in
          (case checked_add handle 1 of
             None \<Rightarrow> (Err (CapTooLarge (bm_len (vault_records s))), s)
           | Some n \<Rightarrow>
               (Ok handle, s\<lparr>next_handle := n,
                  vault_records := bm_insert handle
                    \<lparr>secret_agent = a, secret_task = t, secret_resource = r, secret_value = v\<rparr>
                    (vault_records s)\<rparr>)))"

definition vault_resolve :: "bool \<Rightarrow> capability_policy \<Rightarrow> agent_id \<Rightarrow> task_id option \<Rightarrow> u64
    \<Rightarrow> u128 \<Rightarrow> secret_vault \<Rightarrow> (u8 list, capability_error) result" where
  "vault_resolve win p a t h now s =
     and_then (ok_or (bm_get (vault_records s) h) SecretHandleNotFound) (\<lambda>rec.
       if secret_agent rec \<noteq> a \<or> secret_task rec \<noteq> t then Err SecretHandleScope
       else and_then (authorize win p a t Secrets (secret_resource rec) now) (\<lambda>_.
         Ok (secret_value rec)))"

definition vault_revoke :: "u64 \<Rightarrow> secret_vault \<Rightarrow> bool \<times> secret_vault" where
  "vault_revoke h s =
     (bm_contains_key (vault_records s) h, s\<lparr>vault_records := bm_remove h (vault_records s)\<rparr>)"

text \<open>
  The histories of a vault: it is created empty, and secrets are issued and revoked under whatever
  policy holds at the time. The log collects what each handle was issued for; it is not part of
  the program.
\<close>

inductive vault_history :: "bool \<Rightarrow> secret_vault \<Rightarrow> (u64 \<times> secret_record) list \<Rightarrow> bool"
  for win where
  created: "vault_history win vault_new []"
| issued: "vault_history win s log \<Longrightarrow> vault_issue win p a t r v now s = (Ok h, s') \<Longrightarrow>
    vault_history win s' (log @ [(h,
      \<lparr>secret_agent = a, secret_task = t, secret_resource = r, secret_value = v\<rparr>)])"
| refused: "vault_history win s log \<Longrightarrow> vault_issue win p a t r v now s = (Err e, s') \<Longrightarrow>
    vault_history win s' log"
| revoked: "vault_history win s log \<Longrightarrow> vault_history win (snd (vault_revoke h s)) log"

lemma vault_issue_Ok:
  assumes "vault_issue win p a t r v now s = (Ok h, s')"
  shows "h = next_handle s" "unat (next_handle s') = Suc (unat (next_handle s))"
    "vault_records s' = bm_insert h
       \<lparr>secret_agent = a, secret_task = t, secret_resource = r, secret_value = v\<rparr> (vault_records s)"
    "authorize win p a t Secrets r now = Ok ()"
  using assms
  by (auto simp: vault_issue_def Let_def dest: checked_add_SomeD
      split: if_splits result.splits option.splits)

lemma vault_issue_Err: "vault_issue win p a t r v now s = (Err e, s') \<Longrightarrow> s' = s"
  by (auto simp: vault_issue_def Let_def split: if_splits result.splits option.splits)

definition vault_inv :: "secret_vault \<Rightarrow> (u64 \<times> secret_record) list \<Rightarrow> bool" where
  "vault_inv s log \<longleftrightarrow>
     (\<forall>h rec. bm_get (vault_records s) h = Some rec \<longrightarrow> (h, rec) \<in> set log) \<and>
     (\<forall>h \<in> set (map fst log). h < next_handle s) \<and> distinct (map fst log)"

lemma vault_history_inv: "vault_history win s log \<Longrightarrow> vault_inv s log"
proof (induction rule: vault_history.induct)
  case created
  then show ?case by (simp add: vault_inv_def vault_new_def)
next
  case (issued s log p a t r v now h s')
  note eff = vault_issue_Ok [OF issued(2)]
  have lt: "next_handle s < next_handle s'" using eff(2) by (simp add: word_less_nat_alt)
  have old: "\<forall>h \<in> set (map fst log). h < next_handle s"
    using issued(3) by (simp add: vault_inv_def)
  then have "\<forall>h \<in> set (map fst log). h < next_handle s'" using lt by fastforce
  moreover have "h \<notin> set (map fst log)" using old eff(1) by auto
  ultimately show ?case
    using issued(3) lt eff(1,3) by (auto simp: vault_inv_def)
next
  case (refused s log p a t r v now e s')
  then show ?case using vault_issue_Err by blast
next
  case (revoked s log h)
  then show ?case by (auto simp: vault_inv_def vault_revoke_def split: if_splits)
qed

section \<open>Properties\<close>


text \<open>
  Capability transitions never corrupt a policy. Every operation keeps the invariant that a
  lease stands under its own key and is valid, and an operation that fails changes nothing.
\<close>

theorem policy_transitions_safe:
  assumes "policy_wf p"
  shows "policy_wf (snd (cap_apply t p)) \<and>
    (is_ok (fst (cap_apply t p)) \<or> snd (cap_apply t p) = p)"
proof -
  have "is_ok (fst (cap_apply t p)) \<or> snd (cap_apply t p) = p"
    using cap_apply_error_atomic by (cases "fst (cap_apply t p)") auto
  with policy_wf_apply [OF assms] show ?thesis by blast
qed

text \<open>
  Recovery of a policy. Replaying the log in which the transitions were recorded, among the
  events of all other kinds, gives the policy the live transitions produced, or the same error.
\<close>

theorem policy_recovery:
  assumes "list_all2 (\<lambda>t ev. \<exists>bs. cap_encode_transition t = Ok bs \<and>
        event_knd ev = CapabilityTransition CAPABILITY_SCHEMA_VERSION bs) ts
      (filter (\<lambda>ev. select_capability (event_knd ev) \<noteq> None) evs)"
    and "\<forall>t \<in> set ts. transition_utf8 t"
  shows "policy_from_events evs = try_fold (\<lambda>p t. commit (cap_apply t p)) policy_new ts"
  unfolding policy_from_events_def using assms by (rule cap.replay_recorded)

text \<open>
  C26: secrets stay in their scope. In every history of a vault, a handle is issued once only, and
  a resolved secret is the one issued under that handle to the same agent and task, with a lease
  on its resource that is live at the time of the resolution.
\<close>

theorem vault_resolution:
  assumes "vault_history win s log" and "vault_resolve win p a t h now s = Ok v"
  shows "distinct (map fst log) \<and>
    (\<exists>r. (h, \<lparr>secret_agent = a, secret_task = t, secret_resource = r, secret_value = v\<rparr>) \<in> set log
       \<and> authorize win p a t Secrets r now = Ok ())"
proof -
  from assms(2) obtain rec where get: "bm_get (vault_records s) h = Some rec"
    and scope: "secret_agent rec = a" "secret_task rec = t"
    and auth: "authorize win p a t Secrets (secret_resource rec) now = Ok ()"
    and v: "secret_value rec = v"
    by (auto simp: vault_resolve_def split: if_splits)
  have inv: "vault_inv s log" using assms(1) by (rule vault_history_inv)
  then have "(h, rec) \<in> set log" using get by (simp add: vault_inv_def)
  moreover have "rec = \<lparr>secret_agent = a, secret_task = t, secret_resource = secret_resource rec,
      secret_value = v\<rparr>"
    using scope v by simp
  ultimately show ?thesis using inv auth unfolding vault_inv_def by metis
qed

section \<open>Witnesses\<close>

definition example_lease :: capability_lease where
  "example_lease = \<lparr>lease_agent = 7, lease_task = None, lease_domain = Secrets,
     lease_resource = ''service/api'', lease_expires_at_ms = 100\<rparr>"

definition example_policy :: capability_policy where
  "example_policy = snd (grant example_lease policy_new)"

definition example_vault :: secret_vault where
  "example_vault = snd (vault_issue False example_policy 7 None ''service/api/token'' [1, 2] 1 vault_new)"

lemmas security_eval = example_lease_def example_policy_def example_vault_def grant_def policy_new_def
  lease_key_of_def lease_validate_def vault_issue_def vault_resolve_def vault_new_def authorize_def
  lease_applies_def bm_values_def bm_len_def checked_add_def MAX_RESOURCE_BYTES_def
  MAX_SECRET_BYTES_def MAX_SECRET_HANDLES_def CAP_MAX_PAYLOAD_BYTES_def resource_eval
  word_le_nat_alt

lemma example_issue:
  "fst (vault_issue False example_policy 7 None ''service/api/token'' [1, 2] 1 vault_new) = Ok 1"
  by (simp add: security_eval)

lemma example_resolve: "vault_resolve False example_policy 7 None 1 2 example_vault = Ok [1, 2]"
  by (simp add: security_eval)

theorem policy_transitions_safe_witness:
  "policy_wf policy_new \<and> policy_wf (snd (cap_apply (Granted example_lease) policy_new))"
  using policy_transitions_safe [OF policy_wf_new, of "Granted example_lease"] policy_wf_new by simp

theorem policy_recovery_witness:
  "\<exists>bs. cap_encode_transition (Granted example_lease) = Ok bs \<and>
     policy_from_events [\<lparr>event_ident = 1, event_run = 1, occurred_at_ms = 0,
         event_knd = CapabilityTransition CAPABILITY_SCHEMA_VERSION bs\<rparr>,
       \<lparr>event_ident = 2, event_run = 1, occurred_at_ms = 0, event_knd = RunCompleted 1\<rparr>]
     = try_fold (\<lambda>p t. commit (cap_apply t p)) policy_new [Granted example_lease]"
proof -
  have "is_ok (cap_encode_transition (Granted example_lease))"
    by (simp add: cap_encode_transition_def encode_lease_def encode_task_def sec_write_string_def
        security_eval)
  then obtain bs where bs: "cap_encode_transition (Granted example_lease) = Ok bs"
    by (auto simp: is_ok_iff)
  have "transition_utf8 (Granted example_lease)"
    by (simp add: transition_utf8_def is_utf8_ascii example_lease_def)
  with bs show ?thesis
    by (intro exI [of _ bs] conjI policy_recovery) simp_all
qed

theorem vault_resolution_witness:
  "vault_resolve False example_policy 7 None 1 2 example_vault = Ok [1, 2] \<and>
   (\<exists>log. distinct (map fst log) \<and>
     (\<exists>r. (1 :: u64, \<lparr>secret_agent = 7, secret_task = None, secret_resource = r, secret_value = [1, 2]\<rparr>)
        \<in> set log))"
proof -
  have "vault_issue False example_policy 7 None ''service/api/token'' [1, 2] 1 vault_new
      = (Ok 1, example_vault)"
    using example_issue by (simp add: example_vault_def prod_eq_iff)
  note history = vault_history.issued [OF vault_history.created this]
  show ?thesis
    using vault_resolution [OF history example_resolve] example_resolve by blast
qed

end
