(* ===== verification/Scheduler_State.thy ===== *)
theory Scheduler_State
  imports Security
begin

text \<open>
  The crate \<^verbatim>\<open>crates/scheduler\<close>: budgets, health, resource ownership and the tree of spawned
  agents, each a part of \<open>SchedulerState\<close> and changed only by \<open>SchedulerState::apply\<close>. The codec of
  the transitions and the recovery from events are in the theory \<open>Scheduler_Codec\<close>, the choice of
  models in \<open>Routing\<close>.
\<close>

section \<open>Budgets\<close>

record budget_limits =
  max_tokens :: "u64 option"
  max_money_micros :: "u64 option"
  max_wall_clock_ms :: "u64 option"
  max_tool_calls :: "u64 option"
  max_child_agents :: "u64 option"
  max_context_tokens :: "u64 option"

record budget_usage =
  used_tokens :: u64
  used_money_micros :: u64
  used_wall_clock_ms :: u64
  used_tool_calls :: u64
  used_child_agents :: u64
  used_context_tokens :: u64

definition no_limits :: budget_limits where
  "no_limits = \<lparr>max_tokens = None, max_money_micros = None, max_wall_clock_ms = None,
     max_tool_calls = None, max_child_agents = None, max_context_tokens = None\<rparr>"

definition no_usage :: budget_usage where
  "no_usage = \<lparr>used_tokens = 0, used_money_micros = 0, used_wall_clock_ms = 0,
     used_tool_calls = 0, used_child_agents = 0, used_context_tokens = 0\<rparr>"

definition budget_usage_add :: "budget_usage \<Rightarrow> budget_usage \<Rightarrow> budget_usage" where
  "budget_usage_add a b =
     \<lparr>used_tokens = saturating_add (used_tokens a) (used_tokens b),
      used_money_micros = saturating_add (used_money_micros a) (used_money_micros b),
      used_wall_clock_ms = saturating_add (used_wall_clock_ms a) (used_wall_clock_ms b),
      used_tool_calls = saturating_add (used_tool_calls a) (used_tool_calls b),
      used_child_agents = saturating_add (used_child_agents a) (used_child_agents b),
      used_context_tokens = saturating_add (used_context_tokens a) (used_context_tokens b)\<rparr>"

definition from_model_usage :: "usage \<Rightarrow> budget_usage" where
  "from_model_usage u = no_usage\<lparr>used_tokens := total_tokens u\<rparr>"

record budget_state =
  budget_lims :: budget_limits
  budget_used :: budget_usage

definition budget_state_new :: "budget_limits \<Rightarrow> budget_state" where
  "budget_state_new l = \<lparr>budget_lims = l, budget_used = no_usage\<rparr>"

datatype budget_dimension =
  Tokens | MoneyMicros | WallClockMs | ToolCalls | ChildAgents | ContextTokens

datatype scheduler_error =
    SchedInvalid string
  | SchedUnsupportedVersion u16
  | SchedTooLarge usize
  | BudgetExceeded agent_id budget_dimension u64 u64
  | OwnershipConflict string agent_id agent_id
  | OwnershipNotHeld string agent_id

definition budget_checks :: "budget_limits \<Rightarrow> budget_usage
    \<Rightarrow> (u64 option \<times> u64 \<times> budget_dimension) list" where
  "budget_checks l u =
     [(max_tokens l, used_tokens u, Tokens),
      (max_money_micros l, used_money_micros u, MoneyMicros),
      (max_wall_clock_ms l, used_wall_clock_ms u, WallClockMs),
      (max_tool_calls l, used_tool_calls u, ToolCalls),
      (max_child_agents l, used_child_agents u, ChildAgents),
      (max_context_tokens l, used_context_tokens u, ContextTokens)]"

fun check_dimension :: "agent_id \<Rightarrow> u64 option \<times> u64 \<times> budget_dimension
    \<Rightarrow> (unit, scheduler_error) result" where
  "check_dimension a (Some limit, observed, d) =
     (if limit < observed then Err (BudgetExceeded a d limit observed) else Ok ())"
| "check_dimension a (None, observed, d) = Ok ()"

definition budget_check :: "budget_state \<Rightarrow> budget_usage \<Rightarrow> agent_id
    \<Rightarrow> (unit, scheduler_error) result" where
  "budget_check b delta a =
     try_all (check_dimension a) (budget_checks (budget_lims b) (budget_usage_add (budget_used b) delta))"

definition transfer_dimension :: "u64 option \<Rightarrow> u64 option \<Rightarrow> u64 option
    \<Rightarrow> (u64 option \<times> u64 option, scheduler_error) result" where
  "transfer_dimension source target amount =
     (case amount of
        None \<Rightarrow> Ok (source, target)
      | Some amount \<Rightarrow>
          if amount = 0 then Ok (source, target)
          else (case source of
              None \<Rightarrow> Err (SchedInvalid ''unlimited budget dimensions cannot transfer finite capacity'')
            | Some limit \<Rightarrow>
                and_then (ok_or (checked_sub limit amount)
                    (SchedInvalid ''budget transfer exceeds source limit'')) (\<lambda>source.
                case target of
                  None \<Rightarrow> Ok (Some source, None)
                | Some limit \<Rightarrow>
                    and_then (ok_or (checked_add limit amount)
                        (SchedInvalid ''budget transfer exceeds target limit'')) (\<lambda>target.
                      Ok (Some source, Some target)))))"

definition transfer_limits :: "budget_limits \<Rightarrow> budget_limits \<Rightarrow> budget_limits
    \<Rightarrow> (budget_limits \<times> budget_limits, scheduler_error) result" where
  "transfer_limits source target amount =
     and_then (transfer_dimension (max_tokens source) (max_tokens target) (max_tokens amount))
       (\<lambda>(s1, t1).
     and_then (transfer_dimension (max_money_micros source) (max_money_micros target)
         (max_money_micros amount)) (\<lambda>(s2, t2).
     and_then (transfer_dimension (max_wall_clock_ms source) (max_wall_clock_ms target)
         (max_wall_clock_ms amount)) (\<lambda>(s3, t3).
     and_then (transfer_dimension (max_tool_calls source) (max_tool_calls target)
         (max_tool_calls amount)) (\<lambda>(s4, t4).
     and_then (transfer_dimension (max_child_agents source) (max_child_agents target)
         (max_child_agents amount)) (\<lambda>(s5, t5).
     and_then (transfer_dimension (max_context_tokens source) (max_context_tokens target)
         (max_context_tokens amount)) (\<lambda>(s6, t6).
       Ok (\<lparr>max_tokens = s1, max_money_micros = s2, max_wall_clock_ms = s3, max_tool_calls = s4,
            max_child_agents = s5, max_context_tokens = s6\<rparr>,
           \<lparr>max_tokens = t1, max_money_micros = t2, max_wall_clock_ms = t3, max_tool_calls = t4,
            max_child_agents = t5, max_context_tokens = t6\<rparr>)))))))"

section \<open>Health\<close>

datatype health_status = Healthy | Degraded | Blocked

datatype health_signal =
    Failure
  | ToolError
  | NoProgress
  | ContextPressure
  | BudgetPressure
  | AssumptionConflict
  | VerificationFailure
  | DependencyInvalidation
  | Progress
  | FailureResolved
  | ToolErrorResolved
  | NoProgressResolved
  | ContextPressureResolved
  | BudgetPressureResolved
  | AssumptionConflictResolved
  | VerificationFailureResolved
  | DependencyInvalidationResolved

record health_state =
  health_stat :: health_status
  consecutive_failures :: u32
  consecutive_tool_errors :: u32
  no_progress :: u32
  context_pressure :: u32
  budget_pressure :: u32
  assumption_conflicts :: u32
  verification_failures :: u32
  dependency_invalidations :: u32
  active_failures :: u32
  active_tool_errors :: u32
  active_no_progress :: u32
  active_context_pressure :: u32
  active_budget_pressure :: u32
  active_assumption_conflicts :: u32
  active_verification_failures :: u32
  active_dependency_invalidations :: u32

definition health_default :: health_state where
  "health_default = \<lparr>health_stat = Healthy, consecutive_failures = 0, consecutive_tool_errors = 0,
     no_progress = 0, context_pressure = 0, budget_pressure = 0, assumption_conflicts = 0,
     verification_failures = 0, dependency_invalidations = 0, active_failures = 0,
     active_tool_errors = 0, active_no_progress = 0, active_context_pressure = 0,
     active_budget_pressure = 0, active_assumption_conflicts = 0,
     active_verification_failures = 0, active_dependency_invalidations = 0\<rparr>"

abbreviation inc32 :: "u32 \<Rightarrow> u32" where "inc32 n \<equiv> saturating_add n 1"
abbreviation dec32 :: "u32 \<Rightarrow> u32" where "dec32 n \<equiv> saturating_sub n 1"

text \<open>The counters, before the status is derived from them.\<close>

fun count_signal :: "health_signal \<Rightarrow> health_state \<Rightarrow> health_state" where
  "count_signal Failure h = h\<lparr>consecutive_failures := inc32 (consecutive_failures h),
     active_failures := inc32 (active_failures h)\<rparr>"
| "count_signal ToolError h = h\<lparr>consecutive_tool_errors := inc32 (consecutive_tool_errors h),
     active_tool_errors := inc32 (active_tool_errors h)\<rparr>"
| "count_signal NoProgress h = h\<lparr>no_progress := inc32 (no_progress h),
     active_no_progress := inc32 (active_no_progress h)\<rparr>"
| "count_signal ContextPressure h = h\<lparr>context_pressure := inc32 (context_pressure h),
     active_context_pressure := inc32 (active_context_pressure h)\<rparr>"
| "count_signal BudgetPressure h = h\<lparr>budget_pressure := inc32 (budget_pressure h),
     active_budget_pressure := inc32 (active_budget_pressure h)\<rparr>"
| "count_signal AssumptionConflict h = h\<lparr>assumption_conflicts := inc32 (assumption_conflicts h),
     active_assumption_conflicts := inc32 (active_assumption_conflicts h)\<rparr>"
| "count_signal VerificationFailure h = h\<lparr>verification_failures := inc32 (verification_failures h),
     active_verification_failures := inc32 (active_verification_failures h)\<rparr>"
| "count_signal DependencyInvalidation h =
     h\<lparr>dependency_invalidations := inc32 (dependency_invalidations h),
       active_dependency_invalidations := inc32 (active_dependency_invalidations h)\<rparr>"
| "count_signal Progress h = h\<lparr>consecutive_failures := 0, consecutive_tool_errors := 0,
     no_progress := 0, active_failures := 0, active_tool_errors := 0, active_no_progress := 0\<rparr>"
| "count_signal FailureResolved h = h\<lparr>active_failures := dec32 (active_failures h)\<rparr>"
| "count_signal ToolErrorResolved h = h\<lparr>active_tool_errors := dec32 (active_tool_errors h)\<rparr>"
| "count_signal NoProgressResolved h = h\<lparr>active_no_progress := dec32 (active_no_progress h)\<rparr>"
| "count_signal ContextPressureResolved h =
     h\<lparr>active_context_pressure := dec32 (active_context_pressure h)\<rparr>"
| "count_signal BudgetPressureResolved h =
     h\<lparr>active_budget_pressure := dec32 (active_budget_pressure h)\<rparr>"
| "count_signal AssumptionConflictResolved h =
     h\<lparr>active_assumption_conflicts := dec32 (active_assumption_conflicts h)\<rparr>"
| "count_signal VerificationFailureResolved h =
     h\<lparr>active_verification_failures := dec32 (active_verification_failures h)\<rparr>"
| "count_signal DependencyInvalidationResolved h =
     h\<lparr>active_dependency_invalidations := dec32 (active_dependency_invalidations h)\<rparr>"

definition derived_status :: "health_state \<Rightarrow> health_status" where
  "derived_status h =
     (if active_dependency_invalidations h > 0 \<or> active_failures h \<ge> 3
         \<or> active_tool_errors h \<ge> 3 \<or> active_assumption_conflicts h \<ge> 2
         \<or> active_verification_failures h \<ge> 3 then Blocked
      else if active_failures h > 0 \<or> active_tool_errors h > 0 \<or> active_no_progress h > 0
         \<or> active_context_pressure h > 0 \<or> active_budget_pressure h > 0
         \<or> active_assumption_conflicts h > 0 \<or> active_verification_failures h > 0 then Degraded
      else Healthy)"

definition apply_signal :: "health_signal \<Rightarrow> health_state \<Rightarrow> health_state" where
  "apply_signal sig h = (let h = count_signal sig h in h\<lparr>health_stat := derived_status h\<rparr>)"

section \<open>The state and its transitions\<close>

datatype scheduler_transition =
    BudgetConfigured agent_id budget_limits
  | UsageRecorded agent_id budget_usage
  | HealthSignaled agent_id health_signal
  | OwnershipClaimed agent_id string
  | OwnershipReleased agent_id string
  | ChildSpawned agent_id agent_id
  | BudgetTransferred agent_id agent_id budget_limits

record scheduler_state =
  budgets :: "(agent_id, budget_state) bmap"
  healths :: "(agent_id, health_state) bmap"
  ownership :: "(string, agent_id) bmap"
  parent_by_child :: "(agent_id, agent_id) bmap"
  children_by_parent :: "(agent_id, agent_id list) bmap"

definition scheduler_default :: scheduler_state where
  "scheduler_default = \<lparr>budgets = bm_empty, healths = bm_empty, ownership = bm_empty,
     parent_by_child = bm_empty, children_by_parent = bm_empty\<rparr>"

definition budget_of :: "scheduler_state \<Rightarrow> agent_id \<Rightarrow> budget_state option" where
  "budget_of s a = bm_get (budgets s) a"

definition health_of :: "scheduler_state \<Rightarrow> agent_id \<Rightarrow> health_state" where
  "health_of s a = (case bm_get (healths s) a of Some h \<Rightarrow> h | None \<Rightarrow> health_default)"

definition owner_of :: "bool \<Rightarrow> scheduler_state \<Rightarrow> string \<Rightarrow> agent_id option" where
  "owner_of win s r = Option.bind (canonical_resource win r) (bm_get (ownership s))"

definition parent_of :: "scheduler_state \<Rightarrow> agent_id \<Rightarrow> agent_id option" where
  "parent_of s c = bm_get (parent_by_child s) c"

definition children_of :: "scheduler_state \<Rightarrow> agent_id \<Rightarrow> agent_id list" where
  "children_of s p = (case bm_get (children_by_parent s) p of Some cs \<Rightarrow> cs | None \<Rightarrow> [])"

definition SCHED_MAX_RESOURCE_BYTES :: nat where "SCHED_MAX_RESOURCE_BYTES = 64 * 1024"

definition sched_validate_resource :: "string \<Rightarrow> (unit, scheduler_error) result" where
  "sched_validate_resource r =
     (if trim_is_empty r then Err (SchedInvalid ''ownership resource must not be empty'')
      else if SCHED_MAX_RESOURCE_BYTES < length r then Err (SchedTooLarge (length r))
      else Ok ())"

definition canonical_scheduler_resource :: "bool \<Rightarrow> string \<Rightarrow> (string, scheduler_error) result" where
  "canonical_scheduler_resource win r =
     and_then (sched_validate_resource r) (\<lambda>_.
       ok_or (canonical_resource win r)
         (SchedInvalid ''ownership resource must not escape its relative root''))"

text \<open>\<open>authorize_ownership\<close>: the loop over the claims in key order, with its flag.\<close>

fun ownership_scan :: "bool \<Rightarrow> agent_id \<Rightarrow> string \<Rightarrow> bool \<Rightarrow> (string \<times> agent_id) list
    \<Rightarrow> (unit, ownership_error) result" where
  "ownership_scan win a r holds [] =
     (if holds then Ok () else Err (OwnershipUnowned a r))"
| "ownership_scan win a r holds ((claimed, owner) # cs) =
     (if \<not> resources_overlap win claimed r then ownership_scan win a r holds cs
      else if owner = a then ownership_scan win a r True cs
      else Err (OwnershipConflicts a r owner))"

definition authorize_ownership :: "bool \<Rightarrow> scheduler_state \<Rightarrow> agent_id \<Rightarrow> string
    \<Rightarrow> ownership_access \<Rightarrow> (unit, ownership_error) result" where
  "authorize_ownership win s a r access =
     and_then (ok_or (canonical_resource win r)
         (OwnershipInvalid ''resource must be a canonical identity'')) (\<lambda>r.
       if access = ReadAccess then Ok ()
       else ownership_scan win a r False (bm_entries (ownership s)))"

text \<open>The first claim of another agent that overlaps the resource, as the claim loop finds it.\<close>

fun first_conflict :: "bool \<Rightarrow> agent_id \<Rightarrow> string \<Rightarrow> (string \<times> agent_id) list \<Rightarrow> agent_id option" where
  "first_conflict win a r [] = None"
| "first_conflict win a r ((claimed, owner) # cs) =
     (if owner \<noteq> a \<and> resources_overlap win claimed r then Some owner
      else first_conflict win a r cs)"

fun sched_apply :: "bool \<Rightarrow> scheduler_transition \<Rightarrow> scheduler_state
    \<Rightarrow> (unit, scheduler_error) result \<times> scheduler_state" where
  "sched_apply win (BudgetConfigured a l) s =
     (let used = (case budget_of s a of None \<Rightarrow> no_usage | Some b \<Rightarrow> budget_used b);
          candidate = \<lparr>budget_lims = l, budget_used = used\<rparr>
      in case budget_check candidate no_usage a of
           Err e \<Rightarrow> (Err e, s)
         | Ok _ \<Rightarrow> (Ok (), s\<lparr>budgets := bm_insert a candidate (budgets s)\<rparr>))"
| "sched_apply win (UsageRecorded a delta) s =
     (let budgets' = bm_or_insert a (budget_state_new no_limits) (budgets s);
          state = (case bm_get budgets' a of Some b \<Rightarrow> b | None \<Rightarrow> budget_state_new no_limits)
      in case budget_check state delta a of
           Err e \<Rightarrow> (Err e, s\<lparr>budgets := budgets'\<rparr>)
         | Ok _ \<Rightarrow> (Ok (), s\<lparr>budgets := bm_insert a
             (state\<lparr>budget_used := budget_usage_add (budget_used state) delta\<rparr>) budgets'\<rparr>))"
| "sched_apply win (HealthSignaled a sig) s =
     (Ok (), s\<lparr>healths := bm_insert a (apply_signal sig (health_of s a)) (healths s)\<rparr>)"
| "sched_apply win (OwnershipClaimed a r) s =
     (case canonical_scheduler_resource win r of
        Err e \<Rightarrow> (Err e, s)
      | Ok r \<Rightarrow>
          (case first_conflict win a r (bm_entries (ownership s)) of
             Some owner \<Rightarrow> (Err (OwnershipConflict r owner a), s)
           | None \<Rightarrow> (Ok (), s\<lparr>ownership := bm_insert r a (ownership s)\<rparr>)))"
| "sched_apply win (OwnershipReleased a r) s =
     (case canonical_scheduler_resource win r of
        Err e \<Rightarrow> (Err e, s)
      | Ok r \<Rightarrow>
          if owner_of win s r = Some a
          then (Ok (), s\<lparr>ownership := bm_remove r (ownership s)\<rparr>)
          else (Err (OwnershipNotHeld r a), s))"
| "sched_apply win (ChildSpawned p c) s =
     (if p = c then (Err (SchedInvalid ''an agent cannot be its own child''), s)
      else if bm_contains_key (parent_by_child s) c
        then (Err (SchedInvalid ''child already has a parent''), s)
      else (Ok (), s\<lparr>parent_by_child := bm_insert c p (parent_by_child s),
              children_by_parent :=
                bm_insert p (children_of s p @ [c]) (children_by_parent s)\<rparr>))"
| "sched_apply win (BudgetTransferred f t l) s =
     (if f = t then (Err (SchedInvalid ''budget cannot be transferred to the same agent''), s)
      else case budget_of s f of
        None \<Rightarrow> (Err (SchedInvalid ''source agent has no configured budget''), s)
      | Some source \<Rightarrow>
          let target = (case budget_of s t of Some b \<Rightarrow> b | None \<Rightarrow> budget_state_new no_limits)
          in (case transfer_limits (budget_lims source) (budget_lims target) l of
                Err e \<Rightarrow> (Err e, s)
              | Ok (source_limits, target_limits) \<Rightarrow>
                  let source' = \<lparr>budget_lims = source_limits, budget_used = budget_used source\<rparr>;
                      target' = \<lparr>budget_lims = target_limits, budget_used = budget_used target\<rparr>
                  in (case budget_check source' no_usage f of
                        Err e \<Rightarrow> (Err e, s)
                      | Ok _ \<Rightarrow>
                          (case budget_check target' no_usage t of
                             Err e \<Rightarrow> (Err e, s)
                           | Ok _ \<Rightarrow> (Ok (), s\<lparr>budgets :=
                               bm_insert t target' (bm_insert f source' (budgets s))\<rparr>)))))"

section \<open>Budget lemmas\<close>

definition within_limits :: "budget_state \<Rightarrow> bool" where
  "within_limits b \<longleftrightarrow> (\<forall>(limit, observed, d) \<in> set (budget_checks (budget_lims b) (budget_used b)).
     case limit of None \<Rightarrow> True | Some l \<Rightarrow> observed \<le> l)"

lemma check_dimension_Ok:
  "check_dimension a c = Ok () \<longleftrightarrow>
     (case c of (limit, observed, d) \<Rightarrow> case limit of None \<Rightarrow> True | Some l \<Rightarrow> observed \<le> l)"
  by (cases "(a, c)" rule: check_dimension.cases) auto

lemma budget_check_Ok:
  "budget_check b delta a = Ok () \<longleftrightarrow>
     within_limits (b\<lparr>budget_used := budget_usage_add (budget_used b) delta\<rparr>)"
  by (simp add: budget_check_def within_limits_def try_all_Ok_iff check_dimension_Ok)

lemma budget_usage_add_none [simp]: "budget_usage_add u no_usage = u"
  by (simp add: budget_usage_add_def no_usage_def)

lemma budget_check_none: "budget_check b no_usage a = Ok () \<longleftrightarrow> within_limits b"
  by (simp add: budget_check_Ok)

lemma budget_check_unlimited: "budget_lims b = no_limits \<Longrightarrow> budget_check b delta a = Ok ()"
  by (simp add: budget_check_Ok within_limits_def budget_checks_def no_limits_def)

lemma budget_check_Err:
  "budget_check b delta a = Err e \<Longrightarrow> \<exists>d l n. e = BudgetExceeded a d l n \<and> l < n"
proof -
  have "\<exists>d l n. e = BudgetExceeded a d l n \<and> l < n" if "try_all (check_dimension a) cs = Err e" for cs
    using that
  proof (induction cs)
    case (Cons c cs)
    then show ?case
      by (cases "(a, c)" rule: check_dimension.cases) (auto split: if_splits)
  qed simp
  then show "budget_check b delta a = Err e \<Longrightarrow> ?thesis" by (simp add: budget_check_def)
qed

text \<open>What a transfer does to one dimension: capacity moves, and none is made or lost.\<close>

lemma transfer_dimension_Ok:
  assumes "transfer_dimension source target amount = Ok (s', t')"
  shows "(case (source, s') of (Some l, Some l') \<Rightarrow>
        unat l = unat l' + (case amount of None \<Rightarrow> 0 | Some n \<Rightarrow> unat n)
      | (None, None) \<Rightarrow> amount = None \<or> amount = Some 0 | _ \<Rightarrow> False)
    \<and> (case (target, t') of (Some l, Some l') \<Rightarrow>
        unat l' = unat l + (case amount of None \<Rightarrow> 0 | Some n \<Rightarrow> unat n)
      | (None, None) \<Rightarrow> True | _ \<Rightarrow> False)"
  using assms
  by (auto simp: transfer_dimension_def dest: checked_sub_SomeD checked_add_SomeD
      split: option.splits if_splits)

section \<open>Ownership lemmas\<close>

lemma first_conflict_None:
  "first_conflict win a r cs = None \<longleftrightarrow>
     (\<forall>(claimed, owner) \<in> set cs. owner \<noteq> a \<longrightarrow> \<not> resources_overlap win claimed r)"
proof (induction cs)
  case (Cons c cs)
  then show ?case by (cases c) simp
qed simp

lemma ownership_scan_Ok:
  "ownership_scan win a r holds cs = Ok () \<longleftrightarrow>
     (\<forall>(claimed, owner) \<in> set cs. resources_overlap win claimed r \<longrightarrow> owner = a) \<and>
     (holds \<or> (\<exists>(claimed, owner) \<in> set cs. resources_overlap win claimed r))"
proof (induction cs arbitrary: holds)
  case (Cons c cs)
  then show ?case by (cases c) simp
qed simp

lemma authorize_write_Ok:
  "authorize_ownership win s a r WriteAccess = Ok () \<longleftrightarrow>
     (\<exists>c. canonical_resource win r = Some c \<and>
        (\<forall>k owner. bm_get (ownership s) k = Some owner \<longrightarrow> resources_overlap win k c \<longrightarrow> owner = a) \<and>
        (\<exists>k owner. bm_get (ownership s) k = Some owner \<and> resources_overlap win k c))"
  by (simp add: authorize_ownership_def ownership_scan_Ok bm_ball_entries bm_bex_entries)

text \<open>
  Overlap is decided on the normal form. A resource whose normal form is blank overlaps nothing.
\<close>

lemma overlap_canonical:
  assumes "canonical_resource win r = Some c" and "resources_overlap win k c"
  shows "resource_parts win c = resource_parts win r"
proof -
  have "\<not> trim_is_empty c"
    using assms(2) by (auto simp: resources_overlap_parts resource_parts_def split: if_splits)
  with assms(1) show ?thesis by (rule resource_parts_canonical)
qed

text \<open>
  Two agents cannot both hold the write authority over overlapping resources, whatever the state.
\<close>

lemma write_authority_exclusive:
  assumes "authorize_ownership win s a r WriteAccess = Ok ()"
    and "authorize_ownership win s b q WriteAccess = Ok ()"
    and "resources_overlap win r q"
  shows "a = b"
proof -
  obtain c k o1 where c: "canonical_resource win r = Some c"
    and a: "\<And>k owner. bm_get (ownership s) k = Some owner \<Longrightarrow> resources_overlap win k c \<Longrightarrow> owner = a"
    and k: "bm_get (ownership s) k = Some o1" "resources_overlap win k c"
    using assms(1) by (auto simp: authorize_write_Ok)
  obtain d l o2 where d: "canonical_resource win q = Some d"
    and b: "\<And>k owner. bm_get (ownership s) k = Some owner \<Longrightarrow> resources_overlap win k d \<Longrightarrow> owner = b"
    and l: "bm_get (ownership s) l = Some o2" "resources_overlap win l d"
    using assms(2) by (auto simp: authorize_write_Ok)
  note pc = overlap_canonical [OF c k(2)] and pd = overlap_canonical [OF d l(2)]
  obtain x y where x: "resource_parts win r = Some x" and y: "resource_parts win q = Some y"
    and xy: "parts.overlap x y"
    using assms(3) by (auto simp: resources_overlap_parts)
  obtain u where u: "resource_parts win k = Some u" "parts.overlap u x"
    using k(2) pc x by (auto simp: resources_overlap_parts)
  obtain v where v: "resource_parts win l = Some v" "parts.overlap v y"
    using l(2) pd y by (auto simp: resources_overlap_parts)
  have "parts.overlap u y \<or> parts.overlap v x"
    using xy u(2) v(2) by (rule parts.overlap_claims)
  then show "a = b"
  proof
    assume "parts.overlap u y"
    then have "resources_overlap win k d" using u(1) pd y by (auto simp: resources_overlap_parts)
    with a [OF k] b [OF k(1)] show ?thesis by simp
  next
    assume "parts.overlap v x"
    then have "resources_overlap win l c" using v(1) pc x by (auto simp: resources_overlap_parts)
    with b [OF l] a [OF l(1)] show ?thesis by simp
  qed
qed

interpretation sched_policy: exclusive_ownership "authorize_ownership win s" "resources_overlap win"
  for win s
proof
  show "\<exists>m. e = OwnershipInvalid m"
    if "authorize_ownership win s a r ReadAccess = Err e" for a r e
    using that by (cases "canonical_resource win r") (auto simp: authorize_ownership_def)
qed (rule write_authority_exclusive)

section \<open>The invariant of the scheduler\<close>

definition budgets_ok :: "scheduler_state \<Rightarrow> bool" where
  "budgets_ok s \<longleftrightarrow> (\<forall>a b. bm_get (budgets s) a = Some b \<longrightarrow> within_limits b)"

definition healths_ok :: "scheduler_state \<Rightarrow> bool" where
  "healths_ok s \<longleftrightarrow> (\<forall>a h. bm_get (healths s) a = Some h \<longrightarrow> health_stat h = derived_status h)"

definition ownership_ok :: "bool \<Rightarrow> scheduler_state \<Rightarrow> bool" where
  "ownership_ok win s \<longleftrightarrow> (\<forall>j k a b. bm_get (ownership s) j = Some a \<longrightarrow>
     bm_get (ownership s) k = Some b \<longrightarrow> resources_overlap win j k \<longrightarrow> a = b)"

definition tree_ok :: "scheduler_state \<Rightarrow> bool" where
  "tree_ok s \<longleftrightarrow> (\<forall>p c. c \<in> set (children_of s p) \<longleftrightarrow> parent_of s c = Some p) \<and>
     (\<forall>p. distinct (children_of s p)) \<and> (\<forall>c. parent_of s c \<noteq> Some c)"

definition sched_inv :: "bool \<Rightarrow> scheduler_state \<Rightarrow> bool" where
  "sched_inv win s \<longleftrightarrow> budgets_ok s \<and> healths_ok s \<and> ownership_ok win s \<and> tree_ok s"

lemma sched_inv_default: "sched_inv win scheduler_default"
  by (simp add: sched_inv_def scheduler_default_def budgets_ok_def healths_ok_def ownership_ok_def
      tree_ok_def children_of_def parent_of_def)

lemma sched_apply_Err:
  assumes "sched_apply win t s = (Err e, s')"
  shows "s' = s"
proof (cases t)
  case (UsageRecorded a delta)
  show ?thesis
  proof (cases "bm_get (budgets s) a")
    case None
    then have "fst (sched_apply win t s) = Ok ()"
      using UsageRecorded
      by (simp add: bm_get_or_insert budget_check_unlimited budget_state_new_def Let_def)
    with assms show ?thesis by simp
  next
    case (Some b)
    then show ?thesis
      using assms UsageRecorded
      by (auto simp: bm_or_insert_def bm_contains_key_def Let_def split: result.splits)
  qed
qed (use assms in \<open>auto simp: Let_def split: result.splits option.splits if_splits\<close>)

text \<open>What each transition changes when it succeeds.\<close>

lemma apply_BudgetConfigured_Ok:
  assumes "sched_apply win (BudgetConfigured a l) s = (Ok (), s')"
  obtains b where "s' = s\<lparr>budgets := bm_insert a b (budgets s)\<rparr>" "within_limits b" "budget_lims b = l"
    "budget_used b = (case budget_of s a of None \<Rightarrow> no_usage | Some b \<Rightarrow> budget_used b)"
  using assms by (auto simp: Let_def budget_check_none split: result.splits)

lemma apply_UsageRecorded_Ok:
  assumes "sched_apply win (UsageRecorded a delta) s = (Ok (), s')"
  obtains b where "s' = s\<lparr>budgets := bm_insert a b (budgets s)\<rparr>" "within_limits b"
    "b = (let b0 = (case budget_of s a of None \<Rightarrow> budget_state_new no_limits | Some b \<Rightarrow> b)
          in b0\<lparr>budget_used := budget_usage_add (budget_used b0) delta\<rparr>)"
  using assms
  by (auto simp: Let_def budget_check_Ok bm_get_or_insert budget_of_def split: result.splits option.splits)

lemma apply_BudgetTransferred_Ok:
  assumes "sched_apply win (BudgetTransferred f t l) s = (Ok (), s')"
  obtains source target sl tl where "f \<noteq> t" "budget_of s f = Some source"
    "target = (case budget_of s t of Some b \<Rightarrow> b | None \<Rightarrow> budget_state_new no_limits)"
    "transfer_limits (budget_lims source) (budget_lims target) l = Ok (sl, tl)"
    "within_limits \<lparr>budget_lims = sl, budget_used = budget_used source\<rparr>"
    "within_limits \<lparr>budget_lims = tl, budget_used = budget_used target\<rparr>"
    "s' = s\<lparr>budgets := bm_insert t \<lparr>budget_lims = tl, budget_used = budget_used target\<rparr>
        (bm_insert f \<lparr>budget_lims = sl, budget_used = budget_used source\<rparr> (budgets s))\<rparr>"
  using assms
  by (auto simp: Let_def budget_check_none split: result.splits option.splits if_splits prod.splits)

lemma apply_OwnershipClaimed_Ok:
  assumes "sched_apply win (OwnershipClaimed a r) s = (Ok (), s')"
  obtains c where "canonical_scheduler_resource win r = Ok c"
    "s' = s\<lparr>ownership := bm_insert c a (ownership s)\<rparr>"
    "\<And>k b. bm_get (ownership s) k = Some b \<Longrightarrow> b \<noteq> a \<Longrightarrow> \<not> resources_overlap win k c"
proof -
  from assms obtain c where c: "canonical_scheduler_resource win r = Ok c"
    and free: "first_conflict win a c (bm_entries (ownership s)) = None"
    and s': "s' = s\<lparr>ownership := bm_insert c a (ownership s)\<rparr>"
    by (auto split: result.splits option.splits)
  from free have "\<forall>k b. bm_get (ownership s) k = Some b \<longrightarrow> b \<noteq> a \<longrightarrow> \<not> resources_overlap win k c"
    by (simp add: first_conflict_None bm_ball_entries)
  then show ?thesis using that [OF c s'] by blast
qed

lemma sched_inv_budgets:
  assumes "sched_inv win s" and "\<And>a b. bm_get m a = Some b \<Longrightarrow> within_limits b"
  shows "sched_inv win (s\<lparr>budgets := m\<rparr>)"
  using assms by (simp add: sched_inv_def budgets_ok_def healths_ok_def ownership_ok_def tree_ok_def
      children_of_def parent_of_def)

lemma budgets_okD: "sched_inv win s \<Longrightarrow> bm_get (budgets s) a = Some b \<Longrightarrow> within_limits b"
  by (auto simp: sched_inv_def budgets_ok_def)

lemma sched_apply_inv:
  assumes "sched_inv win s" and "sched_apply win t s = (Ok (), s')"
  shows "sched_inv win s'"
proof (cases t)
  case (BudgetConfigured a l)
  with assms(2) obtain b where "s' = s\<lparr>budgets := bm_insert a b (budgets s)\<rparr>" "within_limits b"
    by (metis apply_BudgetConfigured_Ok)
  with assms(1) show ?thesis
    by (auto intro!: sched_inv_budgets dest: budgets_okD split: if_splits)
next
  case (UsageRecorded a delta)
  with assms(2) obtain b where "s' = s\<lparr>budgets := bm_insert a b (budgets s)\<rparr>" "within_limits b"
    by (metis apply_UsageRecorded_Ok)
  with assms(1) show ?thesis
    by (auto intro!: sched_inv_budgets dest: budgets_okD split: if_splits)
next
  case (HealthSignaled a sig)
  have "health_stat (apply_signal sig h) = derived_status (apply_signal sig h)" for h
    by (simp add: apply_signal_def Let_def derived_status_def)
  moreover have s': "s' = s\<lparr>healths := bm_insert a (apply_signal sig (health_of s a)) (healths s)\<rparr>"
    using HealthSignaled assms(2) by simp
  ultimately have "healths_ok s'"
    using assms(1) by (auto simp: sched_inv_def healths_ok_def split: if_splits)
  with assms(1) show ?thesis
    by (simp add: s' sched_inv_def budgets_ok_def ownership_ok_def tree_ok_def children_of_def
        parent_of_def)
next
  case (OwnershipClaimed a r)
  obtain c where "canonical_scheduler_resource win r = Ok c"
    and s': "s' = s\<lparr>ownership := bm_insert c a (ownership s)\<rparr>"
    and free: "\<And>k b. bm_get (ownership s) k = Some b \<Longrightarrow> b \<noteq> a \<Longrightarrow> \<not> resources_overlap win k c"
    by (rule apply_OwnershipClaimed_Ok [OF assms(2) [unfolded OwnershipClaimed]]) (rule that)
  have free': "\<And>k b. bm_get (ownership s) k = Some b \<Longrightarrow> b \<noteq> a \<Longrightarrow> \<not> resources_overlap win c k"
    using free resources_overlap_sym [of win c] by blast
  have old: "\<And>j k x y. bm_get (ownership s) j = Some x \<Longrightarrow> bm_get (ownership s) k = Some y \<Longrightarrow>
      resources_overlap win j k \<Longrightarrow> x = y"
    using assms(1) by (simp add: sched_inv_def ownership_ok_def)
  have "ownership_ok win s'"
    unfolding s' ownership_ok_def by (auto split: if_splits dest: free free' old)
  with assms(1) show ?thesis
    by (simp add: s' sched_inv_def budgets_ok_def healths_ok_def tree_ok_def children_of_def
        parent_of_def)
next
  case (OwnershipReleased a r)
  with assms(2) obtain c where s': "s' = s\<lparr>ownership := bm_remove c (ownership s)\<rparr>"
    by (auto split: result.splits if_splits)
  have "ownership_ok win s'"
    using assms(1) unfolding s' sched_inv_def ownership_ok_def by (auto split: if_splits)
  with assms(1) show ?thesis
    by (simp add: s' sched_inv_def budgets_ok_def healths_ok_def tree_ok_def children_of_def
        parent_of_def)
next
  case (ChildSpawned p c)
  with assms(2) have new: "p \<noteq> c" "parent_of s c = None"
    and s': "s' = s\<lparr>parent_by_child := bm_insert c p (parent_by_child s),
        children_by_parent := bm_insert p (children_of s p @ [c]) (children_by_parent s)\<rparr>"
    by (auto simp: bm_contains_key_def parent_of_def split: if_splits)
  have tree: "\<And>p c. c \<in> set (children_of s p) \<longleftrightarrow> parent_of s c = Some p"
    "\<And>p. distinct (children_of s p)" "\<And>c. parent_of s c \<noteq> Some c"
    using assms(1) by (auto simp: sched_inv_def tree_ok_def)
  have par: "parent_of s' x = (if x = c then Some p else parent_of s x)" for x
    by (simp add: s' parent_of_def)
  have chi: "children_of s' x = (if x = p then children_of s p @ [c] else children_of s x)" for x
    by (simp add: s' children_of_def)
  have "tree_ok s'"
    unfolding tree_ok_def par chi using new tree by auto
  with assms(1) show ?thesis
    by (simp add: s' sched_inv_def budgets_ok_def healths_ok_def ownership_ok_def)
next
  case (BudgetTransferred f u l)
  with assms(2) obtain x y where "within_limits x" "within_limits y"
    "s' = s\<lparr>budgets := bm_insert u x (bm_insert f y (budgets s))\<rparr>"
    by (metis apply_BudgetTransferred_Ok)
  with assms(1) show ?thesis
    by (auto intro!: sched_inv_budgets dest: budgets_okD split: if_splits)
qed

section \<open>Claims\<close>

lemma claim_Ok_iff:
  assumes "canonical_scheduler_resource win r = Ok c"
  shows "fst (sched_apply win (OwnershipClaimed a r) s) = Ok () \<longleftrightarrow>
    (\<forall>k b. bm_get (ownership s) k = Some b \<longrightarrow> b \<noteq> a \<longrightarrow> \<not> resources_overlap win k c)"
proof -
  have "fst (sched_apply win (OwnershipClaimed a r) s) = Ok () \<longleftrightarrow>
      first_conflict win a c (bm_entries (ownership s)) = None"
    using assms by (auto split: option.splits)
  then show ?thesis by (simp add: first_conflict_None bm_ball_entries)
qed

lemma canonical_scheduler_resource_OkD:
  "canonical_scheduler_resource win r = Ok c \<Longrightarrow> canonical_resource win r = Some c"
  by (simp add: canonical_scheduler_resource_def)

text \<open>After a claim, its holder may write the resource, and no other agent can claim into it.\<close>

lemma claim_effect:
  assumes claim: "sched_apply win (OwnershipClaimed a r) s = (Ok (), s')"
    and c: "canonical_resource win r = Some c" and visible: "\<not> trim_is_empty c"
  shows "owner_of win s' r = Some a"
    and "authorize_ownership win s' a r WriteAccess = Ok ()"
    and "b \<noteq> a \<Longrightarrow> resources_overlap win r q \<Longrightarrow>
      (\<And>d. canonical_resource win q = Some d \<Longrightarrow> \<not> trim_is_empty d) \<Longrightarrow>
      \<not> is_ok (fst (sched_apply win (OwnershipClaimed b q) s'))"
proof -
  have s': "s' = s\<lparr>ownership := bm_insert c a (ownership s)\<rparr>"
    and free: "\<And>k b. bm_get (ownership s) k = Some b \<Longrightarrow> b \<noteq> a \<Longrightarrow> \<not> resources_overlap win k c"
    using c by (auto intro: apply_OwnershipClaimed_Ok [OF claim]
        dest!: canonical_scheduler_resource_OkD)
  obtain x where x: "resource_parts win r = Some x"
    using c by (auto simp: canonical_resource_parts)
  have pc: "resource_parts win c = Some x" using resource_parts_canonical [OF c visible] x by simp
  have self: "resources_overlap win c c"
    using pc by (simp add: resources_overlap_parts parts.overlap_def parts.covers_refl)
  show "owner_of win s' r = Some a" by (simp add: owner_of_def c s')
  show "authorize_ownership win s' a r WriteAccess = Ok ()"
    unfolding authorize_write_Ok using c self free by (auto simp: s')
  assume ba: "b \<noteq> a" and ov: "resources_overlap win r q"
    and vis: "\<And>d. canonical_resource win q = Some d \<Longrightarrow> \<not> trim_is_empty d"
  show "\<not> is_ok (fst (sched_apply win (OwnershipClaimed b q) s'))"
  proof (cases "canonical_scheduler_resource win q")
    case (Err e)
    then show ?thesis by simp
  next
    case (Ok d)
    then have d: "canonical_resource win q = Some d" by (rule canonical_scheduler_resource_OkD)
    obtain y where y: "resource_parts win q = Some y" and xy: "parts.overlap x y"
      using ov x by (auto simp: resources_overlap_parts)
    have "resource_parts win d = Some y" using resource_parts_canonical [OF d vis [OF d]] y by simp
    then have "resources_overlap win c d" using pc xy by (simp add: resources_overlap_parts)
    then have "\<not> fst (sched_apply win (OwnershipClaimed b q) s') = Ok ()"
      unfolding claim_Ok_iff [OF Ok] using ba by (force simp: s')
    then show ?thesis by (auto simp: is_ok_iff)
  qed
qed

section \<open>Budget transfers\<close>

text \<open>The six limits of a budget, and what a transfer may do to one dimension of the two agents.\<close>

definition limit_list :: "budget_limits \<Rightarrow> u64 option list" where
  "limit_list l = [max_tokens l, max_money_micros l, max_wall_clock_ms l, max_tool_calls l,
     max_child_agents l, max_context_tokens l]"

definition capacity_moved :: "u64 option \<Rightarrow> u64 option \<Rightarrow> u64 option \<Rightarrow> u64 option \<Rightarrow> u64 option \<Rightarrow> bool"
  where
  "capacity_moved amount source target source' target' \<longleftrightarrow>
     (let n = (case amount of None \<Rightarrow> 0 | Some n \<Rightarrow> unat n) in
      (case (source, source') of
         (Some l, Some l') \<Rightarrow> unat l = unat l' + n | (None, None) \<Rightarrow> n = 0 | _ \<Rightarrow> False) \<and>
      (case (target, target') of
         (Some l, Some l') \<Rightarrow> unat l' = unat l + n | (None, None) \<Rightarrow> True | _ \<Rightarrow> False))"

lemma transfer_dimension_moved:
  "transfer_dimension source target amount = Ok (s', t') \<Longrightarrow> capacity_moved amount source target s' t'"
  using transfer_dimension_Ok [of source target amount s' t']
  by (auto simp: capacity_moved_def Let_def split: option.splits)

lemma transfer_limits_moved:
  assumes "transfer_limits source target amount = Ok (slim, tlim)"
  shows "\<forall>i < 6. capacity_moved (limit_list amount ! i) (limit_list source ! i)
    (limit_list target ! i) (limit_list slim ! i) (limit_list tlim ! i)"
proof -
  have six: "i < 6 \<Longrightarrow> i = 0 \<or> i = 1 \<or> i = 2 \<or> i = 3 \<or> i = 4 \<or> i = (5 :: nat)" for i
    by linarith
  from assms show ?thesis
    by (auto simp: transfer_limits_def limit_list_def split_beta dest!: six transfer_dimension_moved)
qed

section \<open>Health under resolution\<close>

text \<open>The signal that resolves a pressure signal, and the counter of unresolved pressure.\<close>

fun resolution :: "health_signal \<Rightarrow> health_signal option" where
  "resolution Failure = Some FailureResolved"
| "resolution ToolError = Some ToolErrorResolved"
| "resolution NoProgress = Some NoProgressResolved"
| "resolution ContextPressure = Some ContextPressureResolved"
| "resolution BudgetPressure = Some BudgetPressureResolved"
| "resolution AssumptionConflict = Some AssumptionConflictResolved"
| "resolution VerificationFailure = Some VerificationFailureResolved"
| "resolution DependencyInvalidation = Some DependencyInvalidationResolved"
| "resolution _ = None"

fun active_count :: "health_signal \<Rightarrow> health_state \<Rightarrow> u32" where
  "active_count Failure h = active_failures h"
| "active_count ToolError h = active_tool_errors h"
| "active_count NoProgress h = active_no_progress h"
| "active_count ContextPressure h = active_context_pressure h"
| "active_count BudgetPressure h = active_budget_pressure h"
| "active_count AssumptionConflict h = active_assumption_conflicts h"
| "active_count VerificationFailure h = active_verification_failures h"
| "active_count DependencyInvalidation h = active_dependency_invalidations h"
| "active_count _ h = 0"

lemma dec_inc32: "n \<noteq> - 1 \<Longrightarrow> dec32 (inc32 n) = n"
proof -
  assume "n \<noteq> - 1"
  then have "unat n \<noteq> 2 ^ 32 - 1"
    using unat_max_word [where 'a = 32] by (auto simp: word_unat_eq_iff)
  moreover have "unat n \<le> 2 ^ 32 - 1" using unat_le_max [of n] by simp
  ultimately have "unat n + 1 \<le> 2 ^ 32 - 1" by linarith
  then show ?thesis
    by (intro word_unat_eq_iff [THEN iffD2]) (simp add: unat_saturating_sub unat_saturating_add)
qed

section \<open>Properties\<close>

text \<open>
  C1: write authority over resources is exclusive. In any scheduler state, two agents that are
  both authorized to write overlapping resources (one a parent of the other, or the same) are the
  same agent.
\<close>

theorem scheduler_write_exclusion:
  assumes "authorize_ownership win s a r WriteAccess = Ok ()"
    and "authorize_ownership win s b q WriteAccess = Ok ()"
    and "resources_overlap win r q"
  shows "a = b"
  using assms by (rule sched_policy.write_exclusive)


text \<open>
  A claim takes effect and shuts others out. After an agent claims a resource with a visible
  (not blank) normal form, it is the owner, it may write the resource, and no claim of another
  agent on an overlapping visible resource succeeds.
\<close>

theorem claim_excludes_others:
  assumes "sched_apply win (OwnershipClaimed a r) s = (Ok (), s')"
    and "canonical_resource win r = Some c" and "\<not> trim_is_empty c"
  shows "owner_of win s' r = Some a \<and> authorize_ownership win s' a r WriteAccess = Ok () \<and>
    (\<forall>b q d. b \<noteq> a \<and> resources_overlap win r q \<and> canonical_resource win q = Some d \<and>
       \<not> trim_is_empty d \<longrightarrow> \<not> is_ok (fst (sched_apply win (OwnershipClaimed b q) s')))"
proof (intro conjI allI impI)
  fix b q d
  assume "b \<noteq> a \<and> resources_overlap win r q \<and> canonical_resource win q = Some d \<and> \<not> trim_is_empty d"
  then show "\<not> is_ok (fst (sched_apply win (OwnershipClaimed b q) s'))"
    by (intro claim_effect(3) [OF assms]) (elim conjE; simp)+
qed (rule claim_effect [OF assms])+

text \<open>
  The budget gate. Usage is recorded exactly when all six resulting totals (saturating sums)
  stay within their limits; otherwise the error reports a dimension with its limit and the larger
  total, and nothing is recorded.
\<close>

theorem usage_recording:
  "let b = (case budget_of s a of Some b \<Rightarrow> b | None \<Rightarrow> budget_state_new no_limits);
       b' = b\<lparr>budget_used := budget_usage_add (budget_used b) delta\<rparr>
   in if within_limits b'
      then fst (sched_apply win (UsageRecorded a delta) s) = Ok ()
        \<and> budget_of (snd (sched_apply win (UsageRecorded a delta) s)) a = Some b'
      else (\<exists>d l n. fst (sched_apply win (UsageRecorded a delta) s) = Err (BudgetExceeded a d l n) \<and> l < n)
        \<and> snd (sched_apply win (UsageRecorded a delta) s) = s"
proof -
  define b where "b = (case budget_of s a of Some b \<Rightarrow> b | None \<Rightarrow> budget_state_new no_limits)"
  define m where "m = bm_or_insert a (budget_state_new no_limits) (budgets s)"
  have get: "bm_get m a = Some b"
    by (simp add: m_def b_def bm_get_or_insert budget_of_def split: option.splits)
  have step: "sched_apply win (UsageRecorded a delta) s =
      (case budget_check b delta a of Err e \<Rightarrow> (Err e, s\<lparr>budgets := m\<rparr>)
       | Ok _ \<Rightarrow> (Ok (), s\<lparr>budgets := bm_insert a
           (b\<lparr>budget_used := budget_usage_add (budget_used b) delta\<rparr>) m\<rparr>))"
    by (simp add: get m_def [symmetric] Let_def split: result.split)
  show ?thesis
  proof (cases "budget_check b delta a")
    case (Ok u)
    then show ?thesis
      unfolding b_def [symmetric] Let_def step
      using budget_check_Ok [of b delta a] by (simp add: budget_of_def)
  next
    case (Err e)
    then have "sched_apply win (UsageRecorded a delta) s = (Err e, s\<lparr>budgets := m\<rparr>)"
      using step by simp
    then have "s\<lparr>budgets := m\<rparr> = s" by (rule sched_apply_Err)
    then show ?thesis
      unfolding b_def [symmetric] Let_def step
      using budget_check_Ok [of b delta a] budget_check_Err [OF Err] Err by simp
  qed
qed

text \<open>
  A budget transfer moves capacity and nothing else. In each of the six dimensions the source
  loses exactly the amount and the target gains exactly it (an unlimited dimension takes part in no
  transfer of a positive amount out of it), usage stays where it was, both agents stay within their
  new limits, and no other budget changes.
\<close>

theorem budget_transfer_conserves:
  assumes "sched_apply win (BudgetTransferred f t amount) s = (Ok (), s')"
  shows "\<exists>source target source' target'.
    budget_of s f = Some source \<and> budget_of s' f = Some source' \<and> budget_of s' t = Some target' \<and>
    target = (case budget_of s t of Some b \<Rightarrow> b | None \<Rightarrow> budget_state_new no_limits) \<and>
    (\<forall>i < 6. capacity_moved (limit_list amount ! i)
       (limit_list (budget_lims source) ! i) (limit_list (budget_lims target) ! i)
       (limit_list (budget_lims source') ! i) (limit_list (budget_lims target') ! i)) \<and>
    budget_used source' = budget_used source \<and> budget_used target' = budget_used target \<and>
    within_limits source' \<and> within_limits target' \<and>
    (\<forall>a. a \<noteq> f \<and> a \<noteq> t \<longrightarrow> budget_of s' a = budget_of s a)"
proof -
  obtain source target slim tlim where "f \<noteq> t" and src: "budget_of s f = Some source"
    and tgt: "target = (case budget_of s t of Some b \<Rightarrow> b | None \<Rightarrow> budget_state_new no_limits)"
    and lims: "transfer_limits (budget_lims source) (budget_lims target) amount = Ok (slim, tlim)"
    and ws: "within_limits \<lparr>budget_lims = slim, budget_used = budget_used source\<rparr>"
    and wt: "within_limits \<lparr>budget_lims = tlim, budget_used = budget_used target\<rparr>"
    and s': "s' = s\<lparr>budgets := bm_insert t \<lparr>budget_lims = tlim, budget_used = budget_used target\<rparr>
        (bm_insert f \<lparr>budget_lims = slim, budget_used = budget_used source\<rparr> (budgets s))\<rparr>"
    by (rule apply_BudgetTransferred_Ok [OF assms]) (rule that)
  show ?thesis
    by (rule exI [of _ source], rule exI [of _ target],
        rule exI [of _ "\<lparr>budget_lims = slim, budget_used = budget_used source\<rparr>"],
        rule exI [of _ "\<lparr>budget_lims = tlim, budget_used = budget_used target\<rparr>"])
      (use \<open>f \<noteq> t\<close> src tgt transfer_limits_moved [OF lims] ws wt in
        \<open>simp add: s' budget_of_def\<close>)
qed

text \<open>
  Resolving a pressure signal undoes its effect on the health status. From a state whose status
  is the one its counters give, raising a signal and then resolving it leads back to the same
  status (as long as the counter of unresolved signals is not at its maximum).
\<close>

theorem health_resolution:
  assumes "resolution sig = Some res" and "active_count sig h \<noteq> - 1"
    and "health_stat h = derived_status h"
  shows "health_stat (apply_signal res (apply_signal sig h)) = health_stat h"
  using assms
  by (cases sig) (auto simp: apply_signal_def Let_def derived_status_def dec_inc32)

section \<open>Witnesses\<close>

lemmas scheduler_eval = authorize_ownership_def canonical_scheduler_resource_def
  sched_validate_resource_def SCHED_MAX_RESOURCE_BYTES_def scheduler_default_def budget_of_def
  health_of_def owner_of_def parent_of_def children_of_def budget_check_def budget_checks_def
  budget_usage_add_def budget_state_new_def no_limits_def no_usage_def transfer_limits_def
  transfer_dimension_def resources_overlap_def saturating_add_def checked_add_def checked_sub_def
  resource_eval word_le_nat_alt

definition example_claimed :: scheduler_state where
  "example_claimed = scheduler_default\<lparr>ownership := bm_insert ''src'' 7 bm_empty\<rparr>"

definition example_budget :: budget_limits where
  "example_budget = no_limits\<lparr>max_tokens := Some 100\<rparr>"

theorem scheduler_write_exclusion_witness:
  "authorize_ownership False example_claimed 7 ''src'' WriteAccess = Ok () \<and>
   authorize_ownership False example_claimed 7 ''./src/lib.rs'' WriteAccess = Ok () \<and>
   (7 :: u64) = 7"
proof -
  have "authorize_ownership False example_claimed 7 ''src'' WriteAccess = Ok ()"
    and "authorize_ownership False example_claimed 7 ''./src/lib.rs'' WriteAccess = Ok ()"
    and "resources_overlap False ''src'' ''./src/lib.rs''"
    by (simp_all add: example_claimed_def scheduler_eval)
  then show ?thesis using scheduler_write_exclusion by blast
qed


theorem claim_excludes_others_witness:
  "sched_apply False (OwnershipClaimed 7 ''src'') scheduler_default = (Ok (), example_claimed) \<and>
   owner_of False example_claimed ''src'' = Some 7 \<and>
   \<not> is_ok (fst (sched_apply False (OwnershipClaimed 8 ''src/lib.rs'') example_claimed))"
proof -
  have claim: "sched_apply False (OwnershipClaimed 7 ''src'') scheduler_default = (Ok (), example_claimed)"
    and src: "canonical_resource False ''src'' = Some ''src''" "\<not> trim_is_empty ''src''"
    and lib: "resources_overlap False ''src'' ''src/lib.rs''"
      "canonical_resource False ''src/lib.rs'' = Some ''src/lib.rs''" "\<not> trim_is_empty ''src/lib.rs''"
    by (simp_all add: example_claimed_def scheduler_eval)
  from claim_excludes_others [OF claim src] have "owner_of False example_claimed ''src'' = Some 7"
    and "\<forall>b q d. b \<noteq> 7 \<and> resources_overlap False ''src'' q \<and> canonical_resource False q = Some d \<and>
       \<not> trim_is_empty d \<longrightarrow> \<not> is_ok (fst (sched_apply False (OwnershipClaimed b q) example_claimed))"
    by blast+
  from this(2) [rule_format, of 8 "''src/lib.rs''" "''src/lib.rs''"] this(1) claim lib
  show ?thesis by simp
qed

definition example_funded :: scheduler_state where
  "example_funded = snd (sched_apply False (BudgetConfigured 1 example_budget) scheduler_default)"

lemma example_funded_eval:
  "example_funded = scheduler_default\<lparr>budgets := bm_insert 1 (budget_state_new example_budget) bm_empty\<rparr>"
  by (simp add: example_funded_def example_budget_def scheduler_eval)

theorem budget_transfer_conserves_witness:
  "\<exists>s' source' target'.
     sched_apply False (BudgetTransferred 1 2 (no_limits\<lparr>max_tokens := Some 40\<rparr>)) example_funded = (Ok (), s') \<and>
     budget_of s' 1 = Some source' \<and> budget_of s' 2 = Some target' \<and>
     within_limits source' \<and> within_limits target'"
proof -
  have "is_ok (fst (sched_apply False (BudgetTransferred 1 2 (no_limits\<lparr>max_tokens := Some 40\<rparr>)) example_funded))"
    by (simp add: example_funded_eval example_budget_def scheduler_eval)
  then obtain s' where "sched_apply False (BudgetTransferred 1 2 (no_limits\<lparr>max_tokens := Some 40\<rparr>)) example_funded
      = (Ok (), s')"
    by (auto simp: is_ok_iff prod_eq_iff)
  with budget_transfer_conserves [OF this] show ?thesis by blast
qed

theorem health_resolution_witness:
  "health_stat (apply_signal ToolErrorResolved (apply_signal ToolError health_default)) = Healthy"
  using health_resolution [of ToolError ToolErrorResolved health_default]
  by (simp add: health_default_def derived_status_def)

end
