(* ===== verification/Scheduler_Codec.thy ===== *)
theory Scheduler_Codec
  imports Scheduler_State Event_Sourcing
begin

text \<open>
  The event payloads of \<^verbatim>\<open>crates/scheduler\<close>: \<open>encode_transition\<close> and \<open>decode_transition\<close>, and
  \<open>SchedulerState::from_events\<close>, which rebuilds the state from the event log of a run. Resources
  are written in their normal form, so the codec is a round trip up to that normal form.
\<close>

section \<open>The codec\<close>

definition SCHEDULER_SCHEMA_VERSION :: u16 where "SCHEDULER_SCHEMA_VERSION = 1"
definition SCHED_MAX_PAYLOAD_BYTES :: nat where "SCHED_MAX_PAYLOAD_BYTES = 64 * 1024"

definition sched_take :: "nat \<Rightarrow> (u8 list, scheduler_error) reader" where
  "sched_take = cursor_take (SchedInvalid ''payload offset overflow'')
     (SchedInvalid ''scheduler payload is truncated'')"

definition sched_u8 :: "(u8, scheduler_error) reader" where "sched_u8 = read_u8 sched_take"
definition sched_u32 :: "(u32, scheduler_error) reader" where "sched_u32 = read_u32 sched_take"
definition sched_u64 :: "(u64, scheduler_error) reader" where "sched_u64 = read_u64 sched_take"

definition sched_resource :: "(string, scheduler_error) reader" where
  "sched_resource = rd_bind sched_u32 (\<lambda>n.
     let len = unat n in
     if SCHED_MAX_RESOURCE_BYTES < len then rd_fail (SchedTooLarge len)
     else read_utf8 sched_take (SchedInvalid ''ownership resource is not UTF-8'') len)"

definition encode_limit :: "u64 option \<Rightarrow> u8 list" where
  "encode_limit l = (case l of Some n \<Rightarrow> [1] @ to_le_bytes n | None \<Rightarrow> [0])"

definition encode_limits :: "budget_limits \<Rightarrow> u8 list" where
  "encode_limits l = concat (map encode_limit (limit_list l))"

definition decode_limit :: "(u64 option, scheduler_error) reader" where
  "decode_limit = rd_bind sched_u8 (\<lambda>tag.
     if tag = 0 then rd_return None
     else if tag = 1 then rd_bind sched_u64 (\<lambda>n. rd_return (Some n))
     else rd_fail (SchedInvalid ''unknown budget limit tag''))"

definition decode_limits :: "(budget_limits, scheduler_error) reader" where
  "decode_limits = rd_bind (read_many 6 decode_limit) (\<lambda>vs.
     rd_return \<lparr>max_tokens = vs ! 0, max_money_micros = vs ! 1, max_wall_clock_ms = vs ! 2,
       max_tool_calls = vs ! 3, max_child_agents = vs ! 4, max_context_tokens = vs ! 5\<rparr>)"

definition encode_usage :: "budget_usage \<Rightarrow> u8 list" where
  "encode_usage u = to_le_bytes (used_tokens u) @ to_le_bytes (used_money_micros u)
     @ to_le_bytes (used_wall_clock_ms u) @ to_le_bytes (used_tool_calls u)
     @ to_le_bytes (used_child_agents u) @ to_le_bytes (used_context_tokens u)"

definition decode_usage :: "(budget_usage, scheduler_error) reader" where
  "decode_usage =
     rd_bind sched_u64 (\<lambda>a. rd_bind sched_u64 (\<lambda>b. rd_bind sched_u64 (\<lambda>c.
     rd_bind sched_u64 (\<lambda>d. rd_bind sched_u64 (\<lambda>e. rd_bind sched_u64 (\<lambda>f.
       rd_return \<lparr>used_tokens = a, used_money_micros = b, used_wall_clock_ms = c,
         used_tool_calls = d, used_child_agents = e, used_context_tokens = f\<rparr>))))))"

fun encode_signal :: "health_signal \<Rightarrow> u8" where
  "encode_signal Failure = 0"
| "encode_signal ToolError = 1"
| "encode_signal NoProgress = 2"
| "encode_signal ContextPressure = 3"
| "encode_signal BudgetPressure = 4"
| "encode_signal AssumptionConflict = 5"
| "encode_signal VerificationFailure = 6"
| "encode_signal DependencyInvalidation = 7"
| "encode_signal Progress = 8"
| "encode_signal FailureResolved = 9"
| "encode_signal ToolErrorResolved = 10"
| "encode_signal NoProgressResolved = 11"
| "encode_signal ContextPressureResolved = 12"
| "encode_signal BudgetPressureResolved = 13"
| "encode_signal AssumptionConflictResolved = 14"
| "encode_signal VerificationFailureResolved = 15"
| "encode_signal DependencyInvalidationResolved = 16"

definition decode_signal :: "u8 \<Rightarrow> (health_signal, scheduler_error) result" where
  "decode_signal tag =
     (if tag = 0 then Ok Failure
      else if tag = 1 then Ok ToolError
      else if tag = 2 then Ok NoProgress
      else if tag = 3 then Ok ContextPressure
      else if tag = 4 then Ok BudgetPressure
      else if tag = 5 then Ok AssumptionConflict
      else if tag = 6 then Ok VerificationFailure
      else if tag = 7 then Ok DependencyInvalidation
      else if tag = 8 then Ok Progress
      else if tag = 9 then Ok FailureResolved
      else if tag = 10 then Ok ToolErrorResolved
      else if tag = 11 then Ok NoProgressResolved
      else if tag = 12 then Ok ContextPressureResolved
      else if tag = 13 then Ok BudgetPressureResolved
      else if tag = 14 then Ok AssumptionConflictResolved
      else if tag = 15 then Ok VerificationFailureResolved
      else if tag = 16 then Ok DependencyInvalidationResolved
      else Err (SchedInvalid ''unknown health signal''))"

definition encode_resource :: "bool \<Rightarrow> string \<Rightarrow> (u8 list, scheduler_error) result" where
  "encode_resource win r =
     and_then (canonical_scheduler_resource win r) (\<lambda>r.
       if 2 ^ 32 \<le> length r then Err (SchedTooLarge (length r))
       else Ok (to_le_bytes (of_nat (length r) :: u32) @ as_bytes r))"

definition sched_encode_transition :: "bool \<Rightarrow> scheduler_transition
    \<Rightarrow> (u8 list, scheduler_error) result" where
  "sched_encode_transition win t =
     and_then (case t of
         BudgetConfigured a l \<Rightarrow> Ok ([0] @ to_le_bytes a @ encode_limits l)
       | UsageRecorded a delta \<Rightarrow> Ok ([1] @ to_le_bytes a @ encode_usage delta)
       | HealthSignaled a sig \<Rightarrow> Ok ([2] @ to_le_bytes a @ [encode_signal sig])
       | OwnershipClaimed a r \<Rightarrow>
           and_then (encode_resource win r) (\<lambda>bs. Ok ([3] @ to_le_bytes a @ bs))
       | OwnershipReleased a r \<Rightarrow>
           and_then (encode_resource win r) (\<lambda>bs. Ok ([4] @ to_le_bytes a @ bs))
       | ChildSpawned p c \<Rightarrow> Ok ([5] @ to_le_bytes p @ to_le_bytes c)
       | BudgetTransferred f t l \<Rightarrow> Ok ([6] @ to_le_bytes f @ to_le_bytes t @ encode_limits l))
       (\<lambda>bytes. if SCHED_MAX_PAYLOAD_BYTES < length bytes then Err (SchedTooLarge (length bytes))
                else Ok bytes)"

definition sched_read_transition :: "(scheduler_transition, scheduler_error) reader" where
  "sched_read_transition = rd_bind sched_u8 (\<lambda>tag.
     if tag = 0 then rd_bind sched_u64 (\<lambda>a. rd_bind decode_limits (\<lambda>l.
       rd_return (BudgetConfigured a l)))
     else if tag = 1 then rd_bind sched_u64 (\<lambda>a. rd_bind decode_usage (\<lambda>u.
       rd_return (UsageRecorded a u)))
     else if tag = 2 then rd_bind sched_u64 (\<lambda>a. rd_bind sched_u8 (\<lambda>tag.
       rd_bind (rd_lift (decode_signal tag)) (\<lambda>sig. rd_return (HealthSignaled a sig))))
     else if tag = 3 then rd_bind sched_u64 (\<lambda>a. rd_bind sched_resource (\<lambda>r.
       rd_return (OwnershipClaimed a r)))
     else if tag = 4 then rd_bind sched_u64 (\<lambda>a. rd_bind sched_resource (\<lambda>r.
       rd_return (OwnershipReleased a r)))
     else if tag = 5 then rd_bind sched_u64 (\<lambda>p. rd_bind sched_u64 (\<lambda>c.
       rd_return (ChildSpawned p c)))
     else if tag = 6 then rd_bind sched_u64 (\<lambda>f. rd_bind sched_u64 (\<lambda>t.
       rd_bind decode_limits (\<lambda>l. rd_return (BudgetTransferred f t l))))
     else rd_fail (SchedInvalid ''unknown scheduler transition tag''))"

definition sched_decode_transition :: "u16 \<Rightarrow> u8 list
    \<Rightarrow> (scheduler_transition, scheduler_error) result" where
  "sched_decode_transition version bytes =
     (if version \<noteq> SCHEDULER_SCHEMA_VERSION then Err (SchedUnsupportedVersion version)
      else if SCHED_MAX_PAYLOAD_BYTES < length bytes then Err (SchedTooLarge (length bytes))
      else read_all sched_read_transition (SchedInvalid ''scheduler payload has trailing bytes'') bytes)"

section \<open>Recovery from events\<close>

fun select_scheduler :: "event_kind \<Rightarrow> (u16 \<times> u8 list) option" where
  "select_scheduler (SchedulerTransition v p) = Some (v, p)"
| "select_scheduler _ = None"

fun created_agent :: "event_kind \<Rightarrow> agent_id option" where
  "created_agent (AgentCreated agent) = Some (agent_ident agent)"
| "created_agent _ = None"

definition agent_ids :: "event list \<Rightarrow> agent_id list" where
  "agent_ids evs = List.map_filter (\<lambda>ev. created_agent (event_knd ev)) evs"

fun agent_references :: "scheduler_transition \<Rightarrow> agent_id list" where
  "agent_references (BudgetConfigured a l) = [a]"
| "agent_references (UsageRecorded a u) = [a]"
| "agent_references (HealthSignaled a sig) = [a]"
| "agent_references (OwnershipClaimed a r) = [a]"
| "agent_references (OwnershipReleased a r) = [a]"
| "agent_references (ChildSpawned p c) = [p, c]"
| "agent_references (BudgetTransferred f t l) = [f, t]"

definition validate_agent_references :: "scheduler_transition \<Rightarrow> agent_id list
    \<Rightarrow> (unit, scheduler_error) result" where
  "validate_agent_references t ids =
     (if list_all (\<lambda>a. a \<in> set ids) (agent_references t) then Ok ()
      else Err (SchedInvalid ''scheduler transition references an unknown agent''))"

definition recover_step :: "bool \<Rightarrow> agent_id list \<Rightarrow> scheduler_transition \<Rightarrow> scheduler_state
    \<Rightarrow> (scheduler_state, scheduler_error) result" where
  "recover_step win ids t s =
     and_then (validate_agent_references t ids) (\<lambda>_. commit (sched_apply win t s))"

definition sched_from_events :: "bool \<Rightarrow> event list \<Rightarrow> (scheduler_state, scheduler_error) result" where
  "sched_from_events win evs =
     replay select_scheduler sched_decode_transition (recover_step win (agent_ids evs))
       scheduler_default evs"

section \<open>The codec is a round trip\<close>

interpretation sched: byte_taker sched_take
  unfolding sched_take_def by (rule byte_taker_cursor_take)

lemmas sched_reads = sched.u8_reads [folded sched_u8_def] sched.u32_reads [folded sched_u32_def]
  sched.u64_reads [folded sched_u64_def]

lemma decode_signal_encode [simp]: "decode_signal (encode_signal sig) = Ok sig"
  by (cases sig) (simp_all add: decode_signal_def)

lemma decode_limit_reads: "reads decode_limit (encode_limit l) l"
proof (cases l)
  case None
  show ?thesis
    unfolding decode_limit_def encode_limit_def None option.case
    by (rule reads_bind_last [OF sched_reads(1)]) (simp add: reads_return)
next
  case (Some n)
  show ?thesis
    unfolding decode_limit_def encode_limit_def Some option.case
    by (rule reads_bind [OF sched_reads(1)])
      (simp add: reads_bind_last [OF sched_reads(3) reads_return])
qed

lemma decode_limits_reads: "reads decode_limits (encode_limits l) l"
proof -
  have "reads (read_many (length (limit_list l)) decode_limit)
      (concat (map encode_limit (limit_list l))) (limit_list l)"
    by (rule reads_many) (simp add: decode_limit_reads)
  moreover have "length (limit_list l) = 6" by (simp add: limit_list_def)
  ultimately have "reads (read_many 6 decode_limit) (encode_limits l) (limit_list l)"
    by (simp only: encode_limits_def)
  then show ?thesis
    unfolding decode_limits_def
    by (rule reads_bind_last) (rule reads_returnI, simp add: limit_list_def)
qed

lemma decode_usage_reads: "reads decode_usage (encode_usage u) u"
  unfolding decode_usage_def encode_usage_def
  by (intro reads_bind [OF sched_reads(3)] reads_bind_last [OF sched_reads(3)])
    (rule reads_returnI, simp)

lemma sched_resource_reads:
  assumes "is_utf8 r" and "length r \<le> SCHED_MAX_RESOURCE_BYTES"
  shows "reads sched_resource (to_le_bytes (of_nat (length r) :: u32) @ as_bytes r) r"
proof -
  have len: "unat (of_nat (length r) :: u32) = length r"
    using assms(2) by (simp add: SCHED_MAX_RESOURCE_BYTES_def unsigned_of_nat take_bit_nat_eq_self)
  show ?thesis
    unfolding sched_resource_def
    by (rule reads_bind, rule sched_reads)
      (use assms len in \<open>simp add: Let_def sched.utf8_reads\<close>)
qed

text \<open>The transition a payload stands for: the resource in its normal form.\<close>

definition norm_resource :: "bool \<Rightarrow> string \<Rightarrow> string" where
  "norm_resource win r = (case canonical_resource win r of Some c \<Rightarrow> c | None \<Rightarrow> r)"

fun norm_transition :: "bool \<Rightarrow> scheduler_transition \<Rightarrow> scheduler_transition" where
  "norm_transition win (OwnershipClaimed a r) = OwnershipClaimed a (norm_resource win r)"
| "norm_transition win (OwnershipReleased a r) = OwnershipReleased a (norm_resource win r)"
| "norm_transition win t = t"

fun sched_utf8 :: "scheduler_transition \<Rightarrow> bool" where
  "sched_utf8 (OwnershipClaimed a r) = is_utf8 r"
| "sched_utf8 (OwnershipReleased a r) = is_utf8 r"
| "sched_utf8 t = True"

lemma encode_resource_OkE:
  assumes "encode_resource win r = Ok bs"
  obtains c where "canonical_scheduler_resource win r = Ok c" "norm_resource win r = c"
  using assms
  by (cases "canonical_scheduler_resource win r")
    (auto simp: encode_resource_def norm_resource_def dest: canonical_scheduler_resource_OkD)

lemma encode_resource_reads:
  assumes "encode_resource win r = Ok bs" and "is_utf8 r"
  shows "reads sched_resource bs (norm_resource win r)"
proof -
  obtain c where canon: "canonical_scheduler_resource win r = Ok c" and norm: "norm_resource win r = c"
    using assms(1) by (rule encode_resource_OkE)
  have c: "canonical_resource win r = Some c" and "length r \<le> SCHED_MAX_RESOURCE_BYTES"
    using canon by (auto simp: canonical_scheduler_resource_def sched_validate_resource_def
        split: if_splits)
  with canonical_resource_length [OF c] have "length c \<le> SCHED_MAX_RESOURCE_BYTES" by linarith
  moreover have "bs = to_le_bytes (of_nat (length c) :: u32) @ as_bytes c"
    using assms(1) canon by (auto simp: encode_resource_def split: if_splits)
  ultimately show ?thesis
    using sched_resource_reads canonical_resource_utf8 [OF assms(2) c] norm by simp
qed

lemma sched_read_transition_reads:
  assumes "sched_encode_transition win t = Ok bs" and "sched_utf8 t"
  shows "reads sched_read_transition bs (norm_transition win t)"
proof (cases t)
  case (BudgetConfigured a l)
  with assms(1) have bs: "bs = [0] @ to_le_bytes a @ encode_limits l"
    by (simp add: sched_encode_transition_def split: if_splits)
  show ?thesis
    unfolding sched_read_transition_def bs BudgetConfigured norm_transition.simps
    by (rule reads_bind [OF sched_reads(1)])
      (simp, intro reads_bind [OF sched_reads(3)] reads_bind_last [OF decode_limits_reads] reads_return)
next
  case (UsageRecorded a u)
  with assms(1) have bs: "bs = [1] @ to_le_bytes a @ encode_usage u"
    by (simp add: sched_encode_transition_def split: if_splits)
  show ?thesis
    unfolding sched_read_transition_def bs UsageRecorded norm_transition.simps
    by (rule reads_bind [OF sched_reads(1)])
      (simp, intro reads_bind [OF sched_reads(3)] reads_bind_last [OF decode_usage_reads] reads_return)
next
  case (HealthSignaled a sig)
  with assms(1) have bs: "bs = [2] @ to_le_bytes a @ [encode_signal sig]"
    by (simp add: sched_encode_transition_def split: if_splits)
  show ?thesis
    unfolding sched_read_transition_def bs HealthSignaled norm_transition.simps
    by (rule reads_bind [OF sched_reads(1)])
      (simp, intro reads_bind [OF sched_reads(3)] reads_bind_last [OF sched_reads(1)]
        reads_bind_first [OF reads_lift [OF decode_signal_encode]] reads_return)
next
  case (OwnershipClaimed a r)
  with assms(1) obtain rs where rs: "encode_resource win r = Ok rs"
    and bs: "bs = [3] @ to_le_bytes a @ rs"
    by (auto simp: sched_encode_transition_def split: if_splits)
  have "reads sched_resource rs (norm_resource win r)"
    using rs assms(2) OwnershipClaimed by (intro encode_resource_reads) simp_all
  then show ?thesis
    unfolding sched_read_transition_def bs OwnershipClaimed norm_transition.simps
    by (intro reads_bind [OF sched_reads(1)])
      (simp, rule reads_bind [OF sched_reads(3)], erule reads_bind_last, rule reads_return)
next
  case (OwnershipReleased a r)
  with assms(1) obtain rs where rs: "encode_resource win r = Ok rs"
    and bs: "bs = [4] @ to_le_bytes a @ rs"
    by (auto simp: sched_encode_transition_def split: if_splits)
  have "reads sched_resource rs (norm_resource win r)"
    using rs assms(2) OwnershipReleased by (intro encode_resource_reads) simp_all
  then show ?thesis
    unfolding sched_read_transition_def bs OwnershipReleased norm_transition.simps
    by (intro reads_bind [OF sched_reads(1)])
      (simp, rule reads_bind [OF sched_reads(3)], erule reads_bind_last, rule reads_return)
next
  case (ChildSpawned p c)
  with assms(1) have bs: "bs = [5] @ to_le_bytes p @ to_le_bytes c"
    by (simp add: sched_encode_transition_def split: if_splits)
  show ?thesis
    unfolding sched_read_transition_def bs ChildSpawned norm_transition.simps
    by (rule reads_bind [OF sched_reads(1)])
      (simp, intro reads_bind [OF sched_reads(3)] reads_bind_last [OF sched_reads(3)] reads_return)
next
  case (BudgetTransferred f u l)
  with assms(1) have bs: "bs = [6] @ to_le_bytes f @ to_le_bytes u @ encode_limits l"
    by (simp add: sched_encode_transition_def split: if_splits)
  show ?thesis
    unfolding sched_read_transition_def bs BudgetTransferred norm_transition.simps
    by (rule reads_bind [OF sched_reads(1)])
      (simp, intro reads_bind [OF sched_reads(3)] reads_bind_last [OF decode_limits_reads] reads_return)
qed

section \<open>Recovery\<close>

text \<open>
  What a log entry needs to be replayed: the resource it names has a normal form that is not blank.
  A resource that breaks this is accepted by the live state (see \<open>blank_claim_breaks_recovery\<close>).
\<close>

fun replayable :: "bool \<Rightarrow> scheduler_transition \<Rightarrow> bool" where
  "replayable win (OwnershipClaimed a r) \<longleftrightarrow> is_utf8 r \<and>
     (case canonical_scheduler_resource win r of Ok c \<Rightarrow> \<not> trim_is_empty c | Err e \<Rightarrow> False)"
| "replayable win (OwnershipReleased a r) \<longleftrightarrow> is_utf8 r \<and>
     (case canonical_scheduler_resource win r of Ok c \<Rightarrow> \<not> trim_is_empty c | Err e \<Rightarrow> False)"
| "replayable win t \<longleftrightarrow> True"

lemma replayable_utf8: "replayable win t \<Longrightarrow> sched_utf8 t"
  by (cases t) auto

lemma canonical_scheduler_resource_idem:
  assumes "canonical_scheduler_resource win r = Ok c" and "\<not> trim_is_empty c"
  shows "canonical_scheduler_resource win c = Ok c"
proof -
  have c: "canonical_resource win r = Some c" using assms(1) by (rule canonical_scheduler_resource_OkD)
  have "length r \<le> SCHED_MAX_RESOURCE_BYTES"
    using assms(1) by (auto simp: canonical_scheduler_resource_def sched_validate_resource_def
        split: if_splits)
  with canonical_resource_length [OF c] have "length c \<le> SCHED_MAX_RESOURCE_BYTES" by linarith
  with assms(2) canonical_resource_idem [OF c assms(2)] show ?thesis
    by (simp add: canonical_scheduler_resource_def sched_validate_resource_def)
qed

lemma sched_apply_norm:
  assumes "replayable win t"
  shows "sched_apply win (norm_transition win t) s = sched_apply win t s"
proof -
  have "canonical_scheduler_resource win (norm_resource win r) = canonical_scheduler_resource win r"
    if "case canonical_scheduler_resource win r of Ok c \<Rightarrow> \<not> trim_is_empty c | Err e \<Rightarrow> False" for r
    using that canonical_scheduler_resource_idem [of win r]
    by (auto simp: norm_resource_def dest: canonical_scheduler_resource_OkD split: result.splits)
  with assms show ?thesis by (cases t) auto
qed

lemma agent_references_norm: "agent_references (norm_transition win t) = agent_references t"
  by (cases t) simp_all

lemma recover_step_inv:
  assumes "sched_inv win s" and "recover_step win ids t s = Ok s'"
  shows "sched_inv win s'"
  using assms sched_apply_inv [of win s t s']
  by (cases "validate_agent_references t ids") (auto simp: recover_step_def commit_Ok_iff)

interpretation sched: event_sourced_codec select_scheduler sched_decode_transition
    "recover_step win ids" "sched_inv win" "sched_encode_transition win" SCHEDULER_SCHEMA_VERSION
    "replayable win" "norm_transition win" SchedulerTransition
  for win ids
proof
  show "sched_inv win s \<Longrightarrow> recover_step win ids t s = Ok s' \<Longrightarrow> sched_inv win s'" for s t s'
    by (rule recover_step_inv)
next
  fix t bs
  assume ok: "replayable win t" and enc: "sched_encode_transition win t = Ok bs"
  have "length bs \<le> SCHED_MAX_PAYLOAD_BYTES"
    using enc by (auto simp: sched_encode_transition_def and_then_Ok_iff split: if_splits)
  moreover have "reads sched_read_transition bs (norm_transition win t)"
    using enc replayable_utf8 [OF ok] by (rule sched_read_transition_reads)
  ultimately show "sched_decode_transition SCHEDULER_SCHEMA_VERSION bs = Ok (norm_transition win t)"
    unfolding sched_decode_transition_def
    by (simp add: SCHED_MAX_PAYLOAD_BYTES_def read_all_reads)
next
  show "replayable win t \<Longrightarrow> recover_step win ids (norm_transition win t) s = recover_step win ids t s"
    for t s
    by (simp add: recover_step_def validate_agent_references_def agent_references_norm sched_apply_norm)
qed simp_all

lemma sched_decode_encode:
  assumes "sched_encode_transition win t = Ok bs" and "sched_utf8 t"
  shows "sched_decode_transition SCHEDULER_SCHEMA_VERSION bs = Ok (norm_transition win t)"
proof -
  have "length bs \<le> SCHED_MAX_PAYLOAD_BYTES"
    using assms(1) by (auto simp: sched_encode_transition_def and_then_Ok_iff split: if_splits)
  with sched_read_transition_reads [OF assms] show ?thesis
    unfolding sched_decode_transition_def by (simp add: SCHED_MAX_PAYLOAD_BYTES_def read_all_reads)
qed

text \<open>Every agent a state mentions.\<close>

definition agents_known :: "agent_id list \<Rightarrow> scheduler_state \<Rightarrow> bool" where
  "agents_known ids s \<longleftrightarrow>
     (\<forall>a. budget_of s a \<noteq> None \<longrightarrow> a \<in> set ids) \<and>
     (\<forall>a. bm_get (healths s) a \<noteq> None \<longrightarrow> a \<in> set ids) \<and>
     (\<forall>r a. bm_get (ownership s) r = Some a \<longrightarrow> a \<in> set ids) \<and>
     (\<forall>c p. parent_of s c = Some p \<longrightarrow> c \<in> set ids \<and> p \<in> set ids)"

lemma agents_known_apply:
  assumes "agents_known ids s" and "list_all (\<lambda>a. a \<in> set ids) (agent_references t)"
    and "sched_apply win t s = (Ok (), s')"
  shows "agents_known ids s'"
  using assms
  by (cases t) (auto simp: agents_known_def budget_of_def parent_of_def bm_get_or_insert Let_def
      split: if_splits result.splits option.splits)

lemma agents_known_recover:
  assumes "agents_known ids s" and "recover_step win ids t s = Ok s'"
  shows "agents_known ids s'"
  using assms agents_known_apply [of ids s t win s']
  by (auto simp: recover_step_def validate_agent_references_def commit_Ok_iff split: if_splits)

interpretation sched_agents: event_sourced select_scheduler sched_decode_transition
    "recover_step win ids" "agents_known ids" for win ids
  by unfold_locales (rule agents_known_recover)

section \<open>Properties\<close>

text \<open>
  The scheduler codec is a round trip up to the normal form of resources. Whatever
  \<open>encode_transition\<close> accepts, \<open>decode_transition\<close> reads back as the same transition, its resource
  (if it has one) replaced by the normal form.
\<close>

theorem scheduler_codec_roundtrip:
  assumes "sched_encode_transition win t = Ok bs" and "sched_utf8 t"
  shows "sched_decode_transition SCHEDULER_SCHEMA_VERSION bs = Ok (norm_transition win t)"
  using assms by (rule sched_decode_encode)

text \<open>
  Recovery gives the live state. If a log records the transitions \<open>ts\<close> (among events of all
  other kinds), their agents were created in the log, and every resource they name has a normal
  form that is not blank, then \<open>from_events\<close> gives the state the live transitions produced, or the
  same error.
\<close>

theorem scheduler_recovery:
  assumes "list_all2 (\<lambda>t ev. \<exists>bs. sched_encode_transition win t = Ok bs \<and>
        event_knd ev = SchedulerTransition SCHEDULER_SCHEMA_VERSION bs) ts
      (filter (\<lambda>ev. select_scheduler (event_knd ev) \<noteq> None) evs)"
    and "\<forall>t \<in> set ts. replayable win t \<and>
      list_all (\<lambda>a. a \<in> set (agent_ids evs)) (agent_references t)"
  shows "sched_from_events win evs =
    try_fold (\<lambda>s t. commit (sched_apply win t s)) scheduler_default ts"
proof -
  have "sched_from_events win evs =
      try_fold (\<lambda>s t. recover_step win (agent_ids evs) t s) scheduler_default ts"
    unfolding sched_from_events_def using assms by (intro sched.replay_recorded) auto
  also have "\<dots> = try_fold (\<lambda>s t. commit (sched_apply win t s)) scheduler_default ts"
    using assms(2)
    by (intro try_fold_cong) (auto simp: recover_step_def validate_agent_references_def)
  finally show ?thesis .
qed

text \<open>
  a recovered state is consistent, whatever the log holds. If \<open>from_events\<close> succeeds, on any
  bytes, the state has the invariant of the scheduler and mentions only agents the log created.
\<close>

theorem recovered_scheduler_consistent:
  assumes "sched_from_events win evs = Ok s"
  shows "sched_inv win s \<and> agents_known (agent_ids evs) s"
proof
  show "sched_inv win s"
    using sched_inv_default assms unfolding sched_from_events_def by (rule sched.replay_inv)
  have "agents_known (agent_ids evs) scheduler_default"
    by (simp add: agents_known_def scheduler_default_def budget_of_def parent_of_def)
  then show "agents_known (agent_ids evs) s"
    using assms unfolding sched_from_events_def by (rule sched_agents.replay_inv)
qed

text \<open>
  A claim on a resource whose normal form is blank makes its run unrecoverable. The resource is
  not blank and the claim succeeds on a fresh scheduler and can be recorded, yet every log that
  contains the record is refused by \<open>from_events\<close>.
\<close>

theorem blank_claim_breaks_recovery:
  "\<not> trim_is_empty ''./ '' \<and>
   is_ok (fst (sched_apply False (OwnershipClaimed a ''./ '') scheduler_default)) \<and>
   (\<exists>bs. sched_encode_transition False (OwnershipClaimed a ''./ '') = Ok bs \<and>
     (\<forall>evs. SchedulerTransition SCHEDULER_SCHEMA_VERSION bs \<in> set (map event_knd evs) \<longrightarrow>
       \<not> is_ok (sched_from_events False evs)))"
proof -
  have canon: "canonical_scheduler_resource False ''./ '' = Ok '' ''"
    and blank: "canonical_scheduler_resource False '' '' =
      Err (SchedInvalid ''ownership resource must not be empty'')"
    by (simp_all add: scheduler_eval)
  have live: "is_ok (fst (sched_apply False (OwnershipClaimed a ''./ '') scheduler_default))"
    by (simp add: canon scheduler_default_def)
  obtain bs where bs: "sched_encode_transition False (OwnershipClaimed a ''./ '') = Ok bs"
    by (auto simp: sched_encode_transition_def encode_resource_def canon SCHED_MAX_PAYLOAD_BYTES_def)
  moreover have "norm_transition False (OwnershipClaimed a ''./ '') = OwnershipClaimed a '' ''"
    using canonical_scheduler_resource_OkD [OF canon] by (simp add: norm_resource_def)
  ultimately have dec: "sched_decode_transition SCHEDULER_SCHEMA_VERSION bs = Ok (OwnershipClaimed a '' '')"
    using sched_decode_encode [OF bs] by (simp add: is_utf8_ascii)
  have step: "\<not> is_ok (recover_step False ids (OwnershipClaimed a '' '') s)" for ids s
    by (cases "validate_agent_references (OwnershipClaimed a '' '') ids")
      (simp_all add: recover_step_def blank)
  have "\<not> is_ok (replay select_scheduler sched_decode_transition (recover_step False ids) s evs)"
    if "SchedulerTransition SCHEDULER_SCHEMA_VERSION bs \<in> set (map event_knd evs)" for ids s evs
    using that
  proof (induction evs arbitrary: s)
    case (Cons ev evs)
    show ?case
    proof (cases "event_knd ev = SchedulerTransition SCHEDULER_SCHEMA_VERSION bs")
      case True
      then show ?thesis
        using step [of ids s] dec by (cases "recover_step False ids (OwnershipClaimed a '' '') s") simp_all
    next
      case False
      with Cons show ?thesis
        by (auto simp: is_ok_iff split: option.splits)
    qed
  qed simp
  then show ?thesis
    using live bs unfolding sched_from_events_def by (auto simp: trim_is_empty_def)
qed

section \<open>Witnesses\<close>

definition example_event :: "event_kind \<Rightarrow> event" where
  "example_event k = \<lparr>event_ident = 1, event_run = 1, occurred_at_ms = 0, event_knd = k\<rparr>"

definition example_agent :: agent_identity where
  "example_agent = \<lparr>agent_ident = 7, agent_name = ''writer'', agent_mission = ''edit'',
     agent_model = model_ref_new ''local'' ''small'' Cheap\<rparr>"

lemma example_claim_encodes:
  "\<exists>bs. sched_encode_transition False (OwnershipClaimed 7 ''./src/'') = Ok bs"
proof -
  have "canonical_scheduler_resource False ''./src/'' = Ok ''src''"
    by (simp add: scheduler_eval)
  then show ?thesis
    by (simp add: sched_encode_transition_def encode_resource_def SCHED_MAX_PAYLOAD_BYTES_def)
qed

lemma example_claim_norm:
  "norm_transition False (OwnershipClaimed 7 ''./src/'') = OwnershipClaimed 7 ''src''"
  by (simp add: norm_resource_def resource_eval)

theorem scheduler_codec_roundtrip_witness:
  "\<exists>bs. sched_encode_transition False (OwnershipClaimed 7 ''./src/'') = Ok bs \<and>
     sched_decode_transition SCHEDULER_SCHEMA_VERSION bs = Ok (OwnershipClaimed 7 ''src'')"
proof -
  obtain bs where bs: "sched_encode_transition False (OwnershipClaimed 7 ''./src/'') = Ok bs"
    using example_claim_encodes by blast
  then show ?thesis
    using scheduler_codec_roundtrip [OF bs] example_claim_norm by (simp add: is_utf8_ascii)
qed

theorem scheduler_recovery_witness:
  "\<exists>bs. sched_encode_transition False (OwnershipClaimed 7 ''./src/'') = Ok bs \<and>
     sched_from_events False [example_event (AgentCreated example_agent),
         example_event (SchedulerTransition SCHEDULER_SCHEMA_VERSION bs)]
     = try_fold (\<lambda>s t. commit (sched_apply False t s)) scheduler_default
         [OwnershipClaimed 7 ''./src/'']"
proof -
  obtain bs where bs: "sched_encode_transition False (OwnershipClaimed 7 ''./src/'') = Ok bs"
    using example_claim_encodes by blast
  moreover have "replayable False (OwnershipClaimed 7 ''./src/'')"
    by (simp add: is_utf8_ascii scheduler_eval)
  ultimately show ?thesis
    by (intro exI [of _ bs] conjI scheduler_recovery)
      (simp_all add: example_event_def example_agent_def agent_ids_def map_filter_simps)
qed

theorem recovered_scheduler_consistent_witness:
  "sched_from_events False [] = Ok scheduler_default \<and> sched_inv False scheduler_default"
proof -
  have "sched_from_events False [] = Ok scheduler_default" by (simp add: sched_from_events_def)
  with recovered_scheduler_consistent [OF this] show ?thesis by simp
qed

theorem blank_claim_breaks_recovery_witness:
  "\<exists>bs. sched_encode_transition False (OwnershipClaimed 7 ''./ '') = Ok bs \<and>
     \<not> is_ok (sched_from_events False [example_event (AgentCreated example_agent),
         example_event (SchedulerTransition SCHEDULER_SCHEMA_VERSION bs)])"
proof -
  from blank_claim_breaks_recovery [of 7] obtain bs
    where bs: "sched_encode_transition False (OwnershipClaimed 7 ''./ '') = Ok bs"
      and bad: "\<And>evs. SchedulerTransition SCHEDULER_SCHEMA_VERSION bs \<in> set (map event_knd evs) \<Longrightarrow>
        \<not> is_ok (sched_from_events False evs)"
    by blast
  show ?thesis by (intro exI [of _ bs] conjI bs bad) (simp add: example_event_def)
qed

end
