(* ===== verification/Rust_Sort.thy ===== *)
theory Rust_Sort
  imports Rust_Prelude
begin

text \<open>
  \<open>std::cmp::Ordering\<close> and the stable sort \<open>slice::sort_by\<close>. The locale \<open>comparator\<close> is the
  contract \<open>sort_by\<close> has with its caller: the comparison function is a total preorder. Inside it
  the result is shown to be a sorted, stable permutation.
\<close>

datatype ordering = Less | Equal | Greater

fun then_with :: "ordering \<Rightarrow> ordering \<Rightarrow> ordering" where
  "then_with Equal b = b"
| "then_with Less b = Less"
| "then_with Greater b = Greater"

definition cmp_of :: "'a::linorder \<Rightarrow> 'a \<Rightarrow> ordering" where
  "cmp_of a b = (if a < b then Less else if a = b then Equal else Greater)"

fun insert_by :: "('a \<Rightarrow> 'a \<Rightarrow> ordering) \<Rightarrow> 'a \<Rightarrow> 'a list \<Rightarrow> 'a list" where
  "insert_by cmp x [] = [x]"
| "insert_by cmp x (y # ys) = (if cmp x y = Greater then y # insert_by cmp x ys else x # y # ys)"

fun sort_by :: "('a \<Rightarrow> 'a \<Rightarrow> ordering) \<Rightarrow> 'a list \<Rightarrow> 'a list" where
  "sort_by cmp [] = []"
| "sort_by cmp (x # xs) = insert_by cmp x (sort_by cmp xs)"

lemma cmp_of_simps [simp]:
  "cmp_of a a = Equal" "cmp_of a b = Equal \<longleftrightarrow> a = b"
  "cmp_of a b = Greater \<longleftrightarrow> b < a" "cmp_of a b = Less \<longleftrightarrow> a < b"
  by (auto simp: cmp_of_def)

lemma then_with_cmp_of:
  "then_with (cmp_of a b) (cmp_of c d) = cmp_of (a, c) (b, d)"
  by (cases "cmp_of a b") (auto simp: cmp_of_def split: if_splits)

lemma cmp_of_flip: "cmp_of (b :: 'a::len word) a = cmp_of (- uint a) (- uint b)"
  by (auto simp: cmp_of_def word_less_def word_uint_eq_iff)

lemma mset_insert_by [simp]: "mset (insert_by cmp x xs) = add_mset x (mset xs)"
  by (induction xs) auto

lemma mset_sort_by [simp]: "mset (sort_by cmp xs) = mset xs"
  by (induction xs) auto

lemma set_sort_by [simp]: "set (sort_by cmp xs) = set xs"
  by (metis mset_sort_by set_mset_mset)

lemma length_sort_by [simp]: "length (sort_by cmp xs) = length xs"
  by (metis mset_sort_by size_mset)

lemma sort_by_Nil_iff [simp]: "sort_by cmp xs = [] \<longleftrightarrow> xs = []"
  by (metis length_0_conv length_sort_by)

locale comparator =
  fixes cmp :: "'a \<Rightarrow> 'a \<Rightarrow> ordering"
  assumes cmp_refl: "cmp x x = Equal"
    and cmp_flip: "cmp x y = Greater \<longleftrightarrow> cmp y x = Less"
    and cmp_trans: "cmp x y \<noteq> Greater \<Longrightarrow> cmp y z \<noteq> Greater \<Longrightarrow> cmp x z \<noteq> Greater"
begin

lemma cmp_total: "cmp x y = Greater \<Longrightarrow> cmp y x \<noteq> Greater"
  by (simp add: cmp_flip)

lemma insert_by_sorted:
  "sorted_wrt (\<lambda>x y. cmp x y \<noteq> Greater) xs \<Longrightarrow>
   sorted_wrt (\<lambda>x y. cmp x y \<noteq> Greater) (insert_by cmp x xs)"
proof (induction xs)
  case Nil
  then show ?case by simp
next
  case (Cons y ys)
  have set: "set (insert_by cmp x ys) = insert x (set ys)"
    by (metis mset_insert_by set_mset_add_mset_insert set_mset_mset)
  show ?case
  proof (cases "cmp x y = Greater")
    case True
    with Cons set show ?thesis by (auto dest: cmp_total)
  next
    case False
    moreover have "cmp x z \<noteq> Greater" if "z \<in> set ys" for z
      using False Cons.prems that cmp_trans [of x y z] by simp
    ultimately show ?thesis using Cons.prems by auto
  qed
qed

lemma sort_by_sorted: "sorted_wrt (\<lambda>x y. cmp x y \<noteq> Greater) (sort_by cmp xs)"
  by (induction xs) (auto intro: insert_by_sorted)

lemma insert_by_stable:
  assumes "cmp x k = Equal"
  shows "filter (\<lambda>y. cmp y k = Equal) (insert_by cmp x xs) = x # filter (\<lambda>y. cmp y k = Equal) xs"
proof (induction xs)
  case Nil
  then show ?case using assms by simp
next
  case (Cons y ys)
  have "cmp y k \<noteq> Equal" if "cmp x y = Greater"
  proof
    assume "cmp y k = Equal"
    then have "cmp k y \<noteq> Greater" using cmp_flip [of k y] by simp
    moreover have "cmp x k \<noteq> Greater" using assms by simp
    ultimately have "cmp x y \<noteq> Greater" by (rule cmp_trans [rotated])
    with that show False by simp
  qed
  with Cons assms show ?case by auto
qed

lemma insert_by_filter_other:
  assumes "cmp x k \<noteq> Equal"
  shows "filter (\<lambda>y. cmp y k = Equal) (insert_by cmp x xs) = filter (\<lambda>y. cmp y k = Equal) xs"
  using assms by (induction xs) auto

text \<open>Stability: elements that compare equal keep their order.\<close>

lemma sort_by_stable:
  "filter (\<lambda>y. cmp y k = Equal) (sort_by cmp xs) = filter (\<lambda>y. cmp y k = Equal) xs"
  by (induction xs) (simp_all add: insert_by_stable insert_by_filter_other)

lemma sort_by_head_minimal:
  assumes "sort_by cmp xs = y # ys" and "x \<in> set xs"
  shows "cmp y x \<noteq> Greater"
proof -
  have "sorted_wrt (\<lambda>x y. cmp x y \<noteq> Greater) (y # ys)"
    using sort_by_sorted [of xs] assms(1) by simp
  moreover have "x \<in> set (y # ys)"
    using assms by (metis set_sort_by)
  ultimately show ?thesis by (auto simp: cmp_refl)
qed

end

text \<open>A comparison of keys from a linear order is a comparator.\<close>

locale keyed_comparator =
  fixes cmp :: "'a \<Rightarrow> 'a \<Rightarrow> ordering" and key :: "'a \<Rightarrow> 'k::linorder"
  assumes cmp_key: "cmp x y = cmp_of (key x) (key y)"
begin

lemma is_comparator: "comparator cmp"
  by unfold_locales (auto simp: cmp_key)

end

sublocale keyed_comparator \<subseteq> comparator
  by (rule is_comparator)

context keyed_comparator
begin

lemma sort_by_keys_sorted: "sorted (map key (sort_by cmp xs))"
proof -
  have "sorted_wrt (\<lambda>x y. key x \<le> key y) (sort_by cmp xs)"
    using sort_by_sorted by (rule sorted_wrt_mono_rel [rotated]) (auto simp: cmp_key)
  then show ?thesis by (simp add: sorted_map)
qed

text \<open>When equal keys mean equal elements, the result does not depend on the input order.\<close>

lemma sort_by_deterministic:
  assumes "mset xs = mset ys" and "inj_on key (set xs)"
  shows "sort_by cmp xs = sort_by cmp ys"
proof -
  have sort: "sort (map key zs) = map key (sort_by cmp zs)" for zs
    by (rule properties_for_sort) (simp_all add: sort_by_keys_sorted)
  have "sort (map key xs) = sort (map key ys)"
    using assms(1) by (metis mset_map properties_for_sort sorted_sort mset_sort)
  then have "map key (sort_by cmp xs) = map key (sort_by cmp ys)"
    by (simp add: sort)
  moreover have "set ys = set xs" using assms(1) by (metis set_mset_mset)
  ultimately show ?thesis
    using assms(2) by (auto intro!: map_inj_on [of key])
qed

end

section \<open>Cutting a sorted list while it is collected\<close>

lemma take_insort:
  "sorted xs \<Longrightarrow> take k (insort x (take k xs)) = take k (insort x xs)"
proof (induction xs arbitrary: k)
  case (Cons y ys)
  show ?case
  proof (cases k)
    case (Suc n)
    then show ?thesis using Cons.IH [of n] Cons.prems by (cases n) (simp_all add: take_Cons')
  qed simp
qed simp

lemma take_fold_insort:
  "sorted xs \<Longrightarrow> take k (fold insort ys (take k xs)) = take k (fold insort ys xs)"
proof (induction ys arbitrary: xs)
  case Nil
  then show ?case by simp
next
  case (Cons y ys)
  have s: "sorted (insort y xs)" "sorted (insort y (take k xs))"
    using Cons.prems by (simp_all add: sorted_insort sorted_wrt_take)
  have "take k (fold insort ys (insort y (take k xs))) = take k (fold insort ys (take k (insort y (take k xs))))"
    by (rule Cons.IH [OF s(2), symmetric])
  also have "\<dots> = take k (fold insort ys (take k (insort y xs)))"
    using Cons.prems by (simp add: take_insort)
  also have "\<dots> = take k (fold insort ys (insort y xs))" by (rule Cons.IH [OF s(1)])
  finally show ?case by simp
qed

lemma fold_insort_sort: "fold insort ys (sort xs) = sort (xs @ ys)"
proof (rule properties_for_sort [symmetric])
  show "mset (fold insort ys (sort xs)) = mset (xs @ ys)"
    by (induction ys arbitrary: xs rule: rev_induct) simp_all
  have "sorted zs \<Longrightarrow> sorted (fold insort ys zs)" for zs :: "'a list"
    by (induction ys arbitrary: zs) (simp_all add: sorted_insort)
  then show "sorted (fold insort ys (sort xs))" by simp
qed

lemma take_sort_take:
  "take k (sort (take k (sort xs) @ ys)) = take k (sort (xs @ ys))"
proof -
  have "take k (sort (take k (sort xs) @ ys)) = take k (fold insort ys (sort (take k (sort xs))))"
    by (simp only: fold_insort_sort)
  also have "sort (take k (sort xs)) = take k (sort xs)"
    by (simp add: sorted_sort_id sorted_wrt_take)
  also have "take k (fold insort ys \<dots>) = take k (sort (xs @ ys))"
    by (simp add: take_fold_insort fold_insort_sort)
  finally show ?thesis .
qed

context keyed_comparator
begin

lemma map_key_sort_by: "map key (sort_by cmp xs) = sort (map key xs)"
proof (rule properties_for_sort [symmetric])
  show "mset (map key (sort_by cmp xs)) = mset (map key xs)" by (metis mset_map mset_sort_by)
qed (rule sort_by_keys_sorted)

lemma take_sort_by_take:
  assumes "inj_on key (set xs \<union> set ys)"
  shows "take k (sort_by cmp (take k (sort_by cmp xs) @ ys)) = take k (sort_by cmp (xs @ ys))"
proof (rule map_inj_on [of key])
  show "map key (take k (sort_by cmp (take k (sort_by cmp xs) @ ys))) = map key (take k (sort_by cmp (xs @ ys)))"
    by (simp add: map_key_sort_by take_map [symmetric] take_sort_take)
  have "set (take k (sort_by cmp (take k (sort_by cmp xs) @ ys))) \<subseteq> set xs \<union> set ys"
    "set (take k (sort_by cmp (xs @ ys))) \<subseteq> set xs \<union> set ys"
    by (auto dest!: in_set_takeD)
  then show "inj_on key (set (take k (sort_by cmp (take k (sort_by cmp xs) @ ys))) \<union>
      set (take k (sort_by cmp (xs @ ys))))"
    using assms by (blast intro: inj_on_subset)
qed

end

end
