(* ===== verification/Routing.thy ===== *)
theory Routing
  imports Scheduler_State Rust_Sort
begin

text \<open>
  The choice of models in \<^verbatim>\<open>crates/scheduler\<close>: \<open>rank_cache_aware_candidates\<close>, which orders model
  routes by their cost less the value of observed cache hits, and \<open>choose_supervision_action\<close>,
  which decides what a supervisor does with an agent in trouble. Both sort with a comparison that
  is an instance of \<open>keyed_comparator\<close>.
\<close>

section \<open>Cache-aware routing\<close>

record cache_aware_candidate =
  cand_model :: model_ref
  cand_estimated_cost_micros :: u64
  cand_observed_cached_tokens :: "u64 option"
  cand_observed_at_ms :: "u128 option"

record cache_routing_policy =
  prefer_warm_cache :: bool
  cached_token_value_micros :: u64
  max_observation_age_ms :: "u128 option"

definition cache_routing_policy_default :: cache_routing_policy where
  "cache_routing_policy_default = \<lparr>prefer_warm_cache = True, cached_token_value_micros = 1,
     max_observation_age_ms = None\<rparr>"

record ranked_route =
  route_model :: model_ref
  route_estimated_cost_micros :: u64
  route_observed_cached_tokens :: "u64 option"
  route_fresh :: bool
  route_effective_cost_micros :: u64

definition model_class_key :: "model_ref \<Rightarrow> string" where
  "model_class_key m = model_class_to_string (model_cls m)"

definition unwrap_or_default :: "u64 option \<Rightarrow> u64" where
  "unwrap_or_default v = (case v of Some n \<Rightarrow> n | None \<Rightarrow> 0)"

definition cache_observation_is_fresh :: "u64 option \<Rightarrow> u128 option \<Rightarrow> u128 option \<Rightarrow> u128 option
    \<Rightarrow> bool" where
  "cache_observation_is_fresh observed observed_at max_age now =
     (case observed of
        None \<Rightarrow> False
      | Some _ \<Rightarrow>
          (case max_age of
             None \<Rightarrow> True
           | Some max_age \<Rightarrow>
               (case (observed_at, now) of
                  (Some observed_at, Some now) \<Rightarrow>
                    if observed_at \<le> now then saturating_sub now observed_at \<le> max_age else False
                | _ \<Rightarrow> False)))"

definition rank_candidate :: "cache_routing_policy \<Rightarrow> u128 option \<Rightarrow> cache_aware_candidate
    \<Rightarrow> ranked_route" where
  "rank_candidate policy now c =
     (let fresh = cache_observation_is_fresh (cand_observed_cached_tokens c) (cand_observed_at_ms c)
            (max_observation_age_ms policy) now;
          cached_value = (if prefer_warm_cache policy \<and> fresh
            then saturating_mul (unwrap_or_default (cand_observed_cached_tokens c))
                   (cached_token_value_micros policy)
            else 0)
      in \<lparr>route_model = cand_model c,
          route_estimated_cost_micros = cand_estimated_cost_micros c,
          route_observed_cached_tokens = cand_observed_cached_tokens c,
          route_fresh = fresh,
          route_effective_cost_micros = saturating_sub (cand_estimated_cost_micros c) cached_value\<rparr>)"

definition cache_tie_break :: "cache_routing_policy \<Rightarrow> ranked_route \<Rightarrow> u64" where
  "cache_tie_break policy r =
     (if prefer_warm_cache policy \<and> route_fresh r
      then unwrap_or_default (route_observed_cached_tokens r) else 0)"

definition rank_cmp :: "cache_routing_policy \<Rightarrow> ranked_route \<Rightarrow> ranked_route \<Rightarrow> ordering" where
  "rank_cmp policy l r =
     then_with (then_with (then_with (then_with
       (cmp_of (route_effective_cost_micros l) (route_effective_cost_micros r))
       (cmp_of (cache_tie_break policy r) (cache_tie_break policy l)))
       (cmp_of (model_provider (route_model l)) (model_provider (route_model r))))
       (cmp_of (model_name (route_model l)) (model_name (route_model r))))
       (cmp_of (model_class_key (route_model l)) (model_class_key (route_model r)))"

definition rank_cache_aware_candidates_at_inner :: "cache_aware_candidate list
    \<Rightarrow> cache_routing_policy \<Rightarrow> u128 option \<Rightarrow> ranked_route list" where
  "rank_cache_aware_candidates_at_inner cs policy now =
     sort_by (rank_cmp policy) (map (rank_candidate policy now) cs)"

definition rank_cache_aware_candidates :: "cache_aware_candidate list \<Rightarrow> cache_routing_policy
    \<Rightarrow> ranked_route list" where
  "rank_cache_aware_candidates cs policy = rank_cache_aware_candidates_at_inner cs policy None"

definition rank_cache_aware_candidates_at :: "cache_aware_candidate list \<Rightarrow> cache_routing_policy
    \<Rightarrow> u128 \<Rightarrow> ranked_route list" where
  "rank_cache_aware_candidates_at cs policy now =
     rank_cache_aware_candidates_at_inner cs policy (Some now)"

text \<open>The key the comparison orders by; a larger cache observation comes first.\<close>

definition rank_key :: "cache_routing_policy \<Rightarrow> ranked_route
    \<Rightarrow> (((u64 \<times> int) \<times> string) \<times> string) \<times> string" where
  "rank_key policy r = ((((route_effective_cost_micros r, - uint (cache_tie_break policy r)),
     model_provider (route_model r)), model_name (route_model r)), model_class_key (route_model r))"

interpretation rank: keyed_comparator "rank_cmp policy" "rank_key policy" for policy
proof
  show "rank_cmp policy x y = cmp_of (rank_key policy x) (rank_key policy y)" for x y
    unfolding rank_cmp_def rank_key_def
    by (simp only: cmp_of_flip [of "cache_tie_break policy y"] then_with_cmp_of)
qed

lemma rank_key_mono: "rank_key policy x \<le> rank_key policy y \<Longrightarrow>
    route_effective_cost_micros x \<le> route_effective_cost_micros y"
  by (auto simp: rank_key_def less_eq_prod_def less_prod_def)

lemma rank_candidate_cost:
  "unat (route_effective_cost_micros (rank_candidate policy now c)) =
     (if prefer_warm_cache policy \<and> route_fresh (rank_candidate policy now c)
      then unat (cand_estimated_cost_micros c)
        - min (unat (unwrap_or_default (cand_observed_cached_tokens c))
               * unat (cached_token_value_micros policy)) (2 ^ 64 - 1)
      else unat (cand_estimated_cost_micros c))"
  by (simp add: rank_candidate_def Let_def unat_saturating_sub unat_saturating_mul)

section \<open>Supervision\<close>

record supervision_policy =
  promote_after_failures :: "u32 option"
  pause_when_blocked :: bool

definition supervision_policy_default :: supervision_policy where
  "supervision_policy_default = \<lparr>promote_after_failures = None, pause_when_blocked = True\<rparr>"

definition supervision_validate :: "supervision_policy \<Rightarrow> (unit, scheduler_error) result" where
  "supervision_validate p =
     (if promote_after_failures p = Some 0
      then Err (SchedInvalid ''promotion threshold must be greater than zero'') else Ok ())"

datatype supervision_action = NoAction | Promote model_ref | Pause

fun model_class_strength :: "model_class \<Rightarrow> nat" where
  "model_class_strength Local = 0"
| "model_class_strength Cheap = 1"
| "model_class_strength (Custom _) = 1"
| "model_class_strength Strong = 2"

definition strength_cmp :: "model_ref \<Rightarrow> model_ref \<Rightarrow> ordering" where
  "strength_cmp l r =
     then_with (then_with (then_with
       (cmp_of (model_class_strength (model_cls l)) (model_class_strength (model_cls r)))
       (cmp_of (model_provider l) (model_provider r)))
       (cmp_of (model_name l) (model_name r)))
       (cmp_of (model_class_to_string (model_cls l)) (model_class_to_string (model_cls r)))"

definition choose_supervision_action :: "health_state \<Rightarrow> model_ref \<Rightarrow> bool \<Rightarrow> bool
    \<Rightarrow> model_ref list \<Rightarrow> supervision_policy \<Rightarrow> (supervision_action, scheduler_error) result" where
  "choose_supervision_action health current promotable user_pinned candidates policy =
     and_then (supervision_validate policy) (\<lambda>_.
       let fallback = (if pause_when_blocked policy \<and> health_stat health = Blocked
             then Ok Pause else Ok NoAction)
       in if (case promote_after_failures policy of
                Some threshold \<Rightarrow> threshold \<le> consecutive_failures health | None \<Rightarrow> False)
             \<and> promotable \<and> \<not> user_pinned
          then (case sort_by strength_cmp
                  (filter (\<lambda>c. model_class_strength (model_cls current)
                     < model_class_strength (model_cls c)) candidates) of
                  m # _ \<Rightarrow> Ok (Promote m)
                | [] \<Rightarrow> fallback)
          else fallback)"

definition strength_key :: "model_ref \<Rightarrow> ((nat \<times> string) \<times> string) \<times> string" where
  "strength_key m = (((model_class_strength (model_cls m), model_provider m), model_name m),
     model_class_to_string (model_cls m))"

interpretation strength: keyed_comparator strength_cmp strength_key
  by unfold_locales (simp add: strength_cmp_def strength_key_def then_with_cmp_of)

lemma strength_key_mono: "strength_key x \<le> strength_key y \<Longrightarrow>
    model_class_strength (model_cls x) \<le> model_class_strength (model_cls y)"
  by (auto simp: strength_key_def less_eq_prod_def less_prod_def)

definition failures_reached :: "supervision_policy \<Rightarrow> health_state \<Rightarrow> bool" where
  "failures_reached policy health \<longleftrightarrow> (case promote_after_failures policy of
     None \<Rightarrow> False | Some n \<Rightarrow> n \<le> consecutive_failures health)"

definition stronger_models :: "model_ref \<Rightarrow> model_ref list \<Rightarrow> model_ref set" where
  "stronger_models current cs = {c \<in> set cs.
     model_class_strength (model_cls current) < model_class_strength (model_cls c)}"

lemma sort_by_strength:
  assumes "sort_by strength_cmp (filter P cs) = m # ms"
  shows "m \<in> set cs \<and> P m \<and> (\<forall>c \<in> set cs. P c \<longrightarrow>
    model_class_strength (model_cls m) \<le> model_class_strength (model_cls c))"
proof -
  have "m \<in> set (filter P cs)"
    using assms by (metis list.set_intros(1) set_sort_by)
  moreover have "model_class_strength (model_cls m) \<le> model_class_strength (model_cls c)"
    if "c \<in> set cs" "P c" for c
    using strength.sort_by_head_minimal [OF assms, of c] that
    by (intro strength_key_mono) (auto simp: strength.cmp_key)
  ultimately show ?thesis by simp
qed

section \<open>Properties\<close>

text \<open>
  A ranking is faithful and claims no savings without evidence. The ranked routes are the
  candidates (none lost, none invented), in ascending order of effective cost; an effective cost is
  never above the estimate, and it is the estimate itself unless the policy prefers warm caches and
  the cache observation is fresh.
\<close>

theorem ranking_sound:
  "mset (rank_cache_aware_candidates_at_inner cs policy now)
     = image_mset (rank_candidate policy now) (mset cs) \<and>
   sorted (map route_effective_cost_micros (rank_cache_aware_candidates_at_inner cs policy now)) \<and>
   (\<forall>r \<in> set (rank_cache_aware_candidates_at_inner cs policy now).
      route_effective_cost_micros r \<le> route_estimated_cost_micros r \<and>
      (prefer_warm_cache policy \<and> route_fresh r \<or>
       route_effective_cost_micros r = route_estimated_cost_micros r))"
proof (intro conjI ballI)
  show "mset (rank_cache_aware_candidates_at_inner cs policy now)
     = image_mset (rank_candidate policy now) (mset cs)"
    by (simp add: rank_cache_aware_candidates_at_inner_def)
  have "sorted_wrt (\<lambda>x y. rank_key policy x \<le> rank_key policy y)
      (rank_cache_aware_candidates_at_inner cs policy now)"
    using rank.sort_by_keys_sorted [of policy "map (rank_candidate policy now) cs"]
    by (simp add: rank_cache_aware_candidates_at_inner_def sorted_map)
  then have "sorted_wrt (\<lambda>x y. route_effective_cost_micros x \<le> route_effective_cost_micros y)
      (rank_cache_aware_candidates_at_inner cs policy now)"
    by (rule sorted_wrt_mono_rel [rotated]) (rule rank_key_mono)
  then show "sorted (map route_effective_cost_micros (rank_cache_aware_candidates_at_inner cs policy now))"
    by (simp add: sorted_map)
next
  fix r assume "r \<in> set (rank_cache_aware_candidates_at_inner cs policy now)"
  then obtain c where r: "r = rank_candidate policy now c"
    by (auto simp: rank_cache_aware_candidates_at_inner_def)
  have estimate: "route_estimated_cost_micros r = cand_estimated_cost_micros c"
    by (simp add: r rank_candidate_def Let_def)
  show "route_effective_cost_micros r \<le> route_estimated_cost_micros r"
    using rank_candidate_cost [of policy now c] estimate by (simp add: r word_le_nat_alt)
  show "prefer_warm_cache policy \<and> route_fresh r \<or>
      route_effective_cost_micros r = route_estimated_cost_micros r"
    using rank_candidate_cost [of policy now c] estimate
    by (auto simp: r word_unat_eq_iff)
qed

text \<open>
  A ranking is replayable. When no two candidates have the same provider, model name and class
  name, the ranking does not depend on the order in which the candidates were supplied.
\<close>

theorem ranking_order_independent:
  assumes "mset cs = mset ds"
    and "inj_on (\<lambda>c. (model_provider (cand_model c), model_name (cand_model c),
      model_class_key (cand_model c))) (set cs)"
  shows "rank_cache_aware_candidates_at_inner cs policy now
    = rank_cache_aware_candidates_at_inner ds policy now"
proof -
  have "inj_on (rank_key policy) (set (map (rank_candidate policy now) cs))"
  proof (rule inj_onI)
    fix x y
    assume "x \<in> set (map (rank_candidate policy now) cs)" "y \<in> set (map (rank_candidate policy now) cs)"
      and key: "rank_key policy x = rank_key policy y"
    then obtain c d where c: "c \<in> set cs" "x = rank_candidate policy now c"
      and d: "d \<in> set cs" "y = rank_candidate policy now d"
      by auto
    have "(model_provider (cand_model c), model_name (cand_model c), model_class_key (cand_model c))
        = (model_provider (cand_model d), model_name (cand_model d), model_class_key (cand_model d))"
      using key by (simp add: c d rank_key_def rank_candidate_def Let_def)
    with assms(2) c(1) d(1) have "c = d" by (auto dest: inj_onD)
    then show "x = y" by (simp add: c d)
  qed
  moreover have "mset (map (rank_candidate policy now) cs) = mset (map (rank_candidate policy now) ds)"
    using assms(1) by simp
  ultimately show ?thesis
    unfolding rank_cache_aware_candidates_at_inner_def by (intro rank.sort_by_deterministic)
qed

text \<open>
  The supervisor's decision. A threshold of zero is refused; a model is promoted exactly when
  the failures reach the threshold, the agent may be promoted and is not pinned by the user and a
  stronger candidate exists, and then the promoted one is a weakest of the stronger candidates; the
  agent is paused exactly when no promotion applies, it is blocked and the policy pauses.
\<close>

theorem supervision_decision:
  "case choose_supervision_action health current promotable user_pinned cs policy of
      Err e \<Rightarrow> promote_after_failures policy = Some 0
    | Ok action \<Rightarrow> promote_after_failures policy \<noteq> Some 0 \<and>
        (if failures_reached policy health \<and> promotable \<and> \<not> user_pinned \<and> stronger_models current cs \<noteq> {}
         then \<exists>m \<in> stronger_models current cs. action = Promote m \<and>
           (\<forall>c \<in> stronger_models current cs.
              model_class_strength (model_cls m) \<le> model_class_strength (model_cls c))
         else action = (if pause_when_blocked policy \<and> health_stat health = Blocked then Pause
           else NoAction))"
proof (cases "promote_after_failures policy = Some 0")
  case True
  then show ?thesis by (simp add: choose_supervision_action_def supervision_validate_def)
next
  case False
  define sorted where "sorted = sort_by strength_cmp (filter (\<lambda>c. model_class_strength (model_cls current)
      < model_class_strength (model_cls c)) cs)"
  have reached: "(case promote_after_failures policy of
      Some threshold \<Rightarrow> threshold \<le> consecutive_failures health | None \<Rightarrow> False)
      \<longleftrightarrow> failures_reached policy health"
    by (simp add: failures_reached_def split: option.split)
  have empty: "sorted = [] \<longleftrightarrow> stronger_models current cs = {}"
    by (auto simp: sorted_def stronger_models_def filter_empty_conv)
  show ?thesis
  proof (cases "failures_reached policy health \<and> promotable \<and> \<not> user_pinned \<and> stronger_models current cs \<noteq> {}")
    case True
    then obtain m ms where sorted: "sorted = m # ms" using empty by (cases sorted) auto
    then have "choose_supervision_action health current promotable user_pinned cs policy = Ok (Promote m)"
      using True False
      by (simp add: choose_supervision_action_def supervision_validate_def reached Let_def sorted_def [symmetric])
    moreover have "m \<in> stronger_models current cs \<and> (\<forall>c \<in> stronger_models current cs.
        model_class_strength (model_cls m) \<le> model_class_strength (model_cls c))"
      using sort_by_strength [OF sorted [unfolded sorted_def]] by (simp add: stronger_models_def)
    ultimately show ?thesis using True False by auto
  next
    case unmet: False
    then have "choose_supervision_action health current promotable user_pinned cs policy =
        Ok (if pause_when_blocked policy \<and> health_stat health = Blocked then Pause else NoAction)"
      using False empty
      by (auto simp: choose_supervision_action_def supervision_validate_def reached Let_def
          sorted_def [symmetric])
    then show ?thesis using unmet False by simp
  qed
qed

section \<open>Witnesses\<close>

definition example_candidate :: "string \<Rightarrow> u64 \<Rightarrow> u64 option \<Rightarrow> cache_aware_candidate" where
  "example_candidate n cost cached = \<lparr>cand_model = model_ref_new ''p'' n Cheap,
     cand_estimated_cost_micros = cost, cand_observed_cached_tokens = cached,
     cand_observed_at_ms = None\<rparr>"

theorem ranking_sound_witness:
  "mset (rank_cache_aware_candidates_at_inner [example_candidate ''a'' 10 (Some 4)]
      cache_routing_policy_default None)
    = {#rank_candidate cache_routing_policy_default None (example_candidate ''a'' 10 (Some 4))#}"
  using ranking_sound [of "[example_candidate ''a'' 10 (Some 4)]" cache_routing_policy_default None]
  by simp

theorem ranking_order_independent_witness:
  "rank_cache_aware_candidates_at_inner
      [example_candidate ''a'' 10 None, example_candidate ''b'' 12 (Some 4)] cache_routing_policy_default None
   = rank_cache_aware_candidates_at_inner
      [example_candidate ''b'' 12 (Some 4), example_candidate ''a'' 10 None] cache_routing_policy_default None"
  by (rule ranking_order_independent) (simp_all add: example_candidate_def model_ref_new_def inj_on_def)

theorem supervision_decision_witness:
  "\<exists>m. choose_supervision_action (health_default\<lparr>consecutive_failures := 3\<rparr>)
      (model_ref_new ''p'' ''small'' Cheap) True False
      [model_ref_new ''p'' ''large'' Strong] (supervision_policy_default\<lparr>promote_after_failures := Some 2\<rparr>)
     = Ok (Promote m) \<and> m = model_ref_new ''p'' ''large'' Strong"
  using supervision_decision [where policy = "supervision_policy_default\<lparr>promote_after_failures := Some 2\<rparr>"
      and health = "health_default\<lparr>consecutive_failures := 3\<rparr>"
      and current = "model_ref_new ''p'' ''small'' Cheap" and promotable = True and user_pinned = False
      and cs = "[model_ref_new ''p'' ''large'' Strong]"]
  by (auto simp: health_default_def supervision_policy_default_def model_ref_new_def word_le_nat_alt
      failures_reached_def stronger_models_def split: result.splits)

end
