(* ===== verification/Wire.thy ===== *)
theory Wire
  imports Event_Sourcing
begin

text \<open>
  Writers and the readers that undo them. The later crates write a payload field by field, each
  write with a possible error, and read it back field by field. \<open>wire w r v\<close> says that whatever the
  writer \<open>w\<close> produces, the reader \<open>r\<close> consumes and gives \<open>v\<close>; it is closed under every way the
  crates put fields together, so a whole payload is proved field by field.
\<close>

section \<open>Writers\<close>

type_synonym 'e writer = "(u8 list, 'e) result"

fun write_seq :: "'e writer list \<Rightarrow> 'e writer" where
  "write_seq [] = Ok []"
| "write_seq (w # ws) = and_then w (\<lambda>bs. and_then (write_seq ws) (\<lambda>cs. Ok (bs @ cs)))"

definition write_u8 :: "u8 \<Rightarrow> 'e writer" where "write_u8 b = Ok [b]"
definition write_u16 :: "u16 \<Rightarrow> 'e writer" where "write_u16 w = Ok (to_le_bytes w)"
definition write_u32 :: "u32 \<Rightarrow> 'e writer" where "write_u32 w = Ok (to_le_bytes w)"
definition write_u64 :: "u64 \<Rightarrow> 'e writer" where "write_u64 w = Ok (to_le_bytes w)"
definition write_u128 :: "u128 \<Rightarrow> 'e writer" where "write_u128 w = Ok (to_le_bytes w)"

definition write_bytes :: "string \<Rightarrow> 'e writer" where "write_bytes s = Ok (as_bytes s)"

definition write_option :: "('a \<Rightarrow> 'e writer) \<Rightarrow> 'a option \<Rightarrow> 'e writer" where
  "write_option w v = (case v of
       Some x \<Rightarrow> write_seq [write_u8 1, w x]
     | None \<Rightarrow> write_u8 0)"

text \<open>A list behind a 16-bit count; the callers check its length before.\<close>

definition write_counted :: "('a \<Rightarrow> 'e writer) \<Rightarrow> 'a list \<Rightarrow> 'e writer" where
  "write_counted w xs = write_seq (write_u16 (of_nat (length xs)) # map w xs)"

text \<open>The same behind a 32-bit count.\<close>

definition write_counted32 :: "('a \<Rightarrow> 'e writer) \<Rightarrow> 'a list \<Rightarrow> 'e writer" where
  "write_counted32 w xs = write_seq (write_u32 (of_nat (length xs)) # map w xs)"

text \<open>The check on the finished payload.\<close>

definition write_bounded :: "nat \<Rightarrow> (nat \<Rightarrow> 'e) \<Rightarrow> 'e writer \<Rightarrow> 'e writer" where
  "write_bounded maximum too_large w = and_then w (\<lambda>bs.
     if maximum < length bs then Err (too_large (length bs)) else Ok bs)"

section \<open>Readers for them\<close>

definition read_option :: "(u8, 'e) reader \<Rightarrow> (u8 \<Rightarrow> 'e) \<Rightarrow> ('a, 'e) reader \<Rightarrow> ('a option, 'e) reader"
  where
  "read_option tag_reader unknown r = rd_bind tag_reader (\<lambda>tag.
     if tag = 0 then rd_return None
     else if tag = 1 then rd_bind r (\<lambda>x. rd_return (Some x))
     else rd_fail (unknown tag))"

definition read_counted :: "(u16, 'e) reader \<Rightarrow> nat \<Rightarrow> (nat \<Rightarrow> 'e) \<Rightarrow> ('a, 'e) reader
    \<Rightarrow> ('a list, 'e) reader" where
  "read_counted count_reader maximum too_many r = rd_bind count_reader (\<lambda>n.
     if maximum < unat n then rd_fail (too_many (unat n)) else read_many (unat n) r)"

definition read_counted32 :: "(u32, 'e) reader \<Rightarrow> nat \<Rightarrow> (nat \<Rightarrow> 'e) \<Rightarrow> ('a, 'e) reader
    \<Rightarrow> ('a list, 'e) reader" where
  "read_counted32 count_reader maximum too_many r = rd_bind count_reader (\<lambda>n.
     if maximum < unat n then rd_fail (too_many (unat n)) else read_many (unat n) r)"

definition read_sized :: "('w::len word, 'e) reader \<Rightarrow> nat \<Rightarrow> (nat \<Rightarrow> 'e)
    \<Rightarrow> (nat \<Rightarrow> (string, 'e) reader) \<Rightarrow> (string, 'e) reader" where
  "read_sized len_reader maximum too_large r = rd_bind len_reader (\<lambda>n.
     if maximum < unat n then rd_fail (too_large (unat n)) else r (unat n))"

section \<open>A writer with its reader\<close>

definition wire :: "'e writer \<Rightarrow> ('a, 'f) reader \<Rightarrow> 'a \<Rightarrow> bool" where
  "wire w r v \<longleftrightarrow> (\<forall>bs. w = Ok bs \<longrightarrow> reads r bs v)"

named_theorems wires "rules that pair a writer with the reader that undoes it"

lemma wireI: "(\<And>bs. w = Ok bs \<Longrightarrow> reads r bs v) \<Longrightarrow> wire w r v"
  by (simp add: wire_def)

lemma wireD: "wire w r v \<Longrightarrow> w = Ok bs \<Longrightarrow> reads r bs v"
  by (simp add: wire_def)

lemma wire_end: "v = u \<Longrightarrow> wire (write_seq []) (rd_return v) u"
  by (simp add: wire_def reads_returnI)

lemma wire_field:
  assumes "wire w r v" and "wire (write_seq ws) (f v) u"
  shows "wire (write_seq (w # ws)) (rd_bind r f) u"
  using assms by (auto simp: wire_def intro: reads_bind)

lemma wire_last:
  assumes "wire w r v" and "f v = rd_return u"
  shows "wire w (rd_bind r f) u"
  using assms by (auto simp: wire_def intro!: reads_bind_last reads_returnI)

lemma wire_single: "wire w r v \<Longrightarrow> wire (write_seq [w]) r v"
  by (auto simp: wire_def)

lemma wire_decode:
  assumes "d = Ok v" and "wire (write_seq ws) (f v) u"
  shows "wire (write_seq ws) (rd_bind (rd_lift d) f) u"
  using assms by (auto simp: wire_def intro: reads_bind_first reads_lift)

lemma wire_check:
  assumes "wire (write_seq ws) f u" and "d = Ok ()"
  shows "wire (write_seq ws) (rd_bind (rd_lift d) (\<lambda>_. f)) u"
  using assms by (auto simp: wire_def intro: reads_bind_first reads_lift)

declare write_seq.simps [simp del]

text \<open>Fields that are nested sequences.\<close>

lemma write_seq_append:
  "write_seq (ws @ vs) = and_then (write_seq ws) (\<lambda>bs. and_then (write_seq vs) (\<lambda>cs. Ok (bs @ cs)))"
proof (induction ws)
  case Nil
  then show ?case by (cases "write_seq vs") (simp_all add: write_seq.simps)
next
  case (Cons w ws)
  then show ?case
    by (cases w; cases "write_seq ws"; cases "write_seq vs") (simp_all add: write_seq.simps)
qed

lemma wire_decoded:
  assumes "wire w r v" and "d v = Ok x"
  shows "wire w (rd_bind r (\<lambda>v. rd_lift (d v))) x"
  using assms by (auto simp: wire_def intro!: reads_bind_last reads_lift)

lemma wire_option [wires]:
  assumes "\<And>b. wire (write_u8 b :: 'e writer) tr b" and "\<And>x. v = Some x \<Longrightarrow> wire (w x :: 'e writer) r x"
  shows "wire (write_option w v) (read_option tr unknown r) v"
proof (cases v)
  case None
  then show ?thesis
    using assms(1) [of 0] unfolding write_option_def read_option_def
    by (auto intro!: wire_last)
next
  case (Some x)
  have "wire (write_seq [write_u8 1, w x]) (read_option tr unknown r) (Some x)"
    unfolding read_option_def
    by (rule wire_field [OF assms(1)])
      (simp, intro wire_single wire_last [OF assms(2) [OF Some]], simp)
  with Some show ?thesis by (simp add: write_option_def)
qed

lemma wire_many:
  assumes "\<And>x. x \<in> set xs \<Longrightarrow> wire (w x) r x"
  shows "wire (write_seq (map w xs)) (read_many (length xs) r) xs"
  using assms
proof (induction xs)
  case Nil
  then show ?case by (simp add: wire_end)
next
  case (Cons x xs)
  have IH: "wire (write_seq (map w xs)) (read_many (length xs) r) xs"
    by (rule Cons.IH) (simp add: Cons.prems)
  have "wire (write_seq (w x # map w xs))
      (rd_bind r (\<lambda>x. rd_bind (read_many (length xs) r) (\<lambda>xs. rd_return (x # xs)))) (x # xs)"
    by (rule wire_field, rule Cons.prems, simp) (rule wire_last [OF IH], simp)
  then show ?case by simp
qed

lemma wire_counted [wires]:
  assumes "\<And>n. wire (write_u16 n :: 'e writer) cr n" and "length xs \<le> maximum" and "maximum < 2 ^ 16"
    and "\<And>x. x \<in> set xs \<Longrightarrow> wire (w x :: 'e writer) r x"
  shows "wire (write_counted w xs) (read_counted cr maximum too_many r) xs"
proof -
  have count: "unat (of_nat (length xs) :: u16) = length xs"
    using assms(2,3) by (simp add: unsigned_of_nat take_bit_nat_eq_self)
  have "wire (write_seq (map w xs)) (read_many (length xs) r) xs"
    using assms(4) by (rule wire_many)
  then show ?thesis
    unfolding write_counted_def read_counted_def
    using assms(2) by (intro wire_field [OF assms(1)]) (simp add: count)
qed

lemma wire_counted32 [wires]:
  assumes "\<And>n. wire (write_u32 n :: 'e writer) cr n" and "length xs \<le> maximum" and "maximum < 2 ^ 32"
    and "\<And>x. x \<in> set xs \<Longrightarrow> wire (w x :: 'e writer) r x"
  shows "wire (write_counted32 w xs) (read_counted32 cr maximum too_many r) xs"
proof -
  have count: "unat (of_nat (length xs) :: u32) = length xs"
    using assms(2,3) by (simp add: unsigned_of_nat take_bit_nat_eq_self)
  have "wire (write_seq (map w xs)) (read_many (length xs) r) xs"
    using assms(4) by (rule wire_many)
  then show ?thesis
    unfolding write_counted32_def read_counted32_def
    using assms(2) by (intro wire_field [OF assms(1)]) (simp add: count)
qed

text \<open>A sequence fails with the first error of its fields.\<close>

lemma write_seq_Err:
  assumes "\<forall>w \<in> set ws. is_ok w \<or> w = Err e" and "Err e \<in> set ws"
  shows "write_seq ws = Err e"
  using assms
proof (induction ws)
  case (Cons w ws)
  then show ?case by (cases w; cases "write_seq ws") (auto simp: write_seq.simps)
qed simp

lemma write_seq_is_ok: "is_ok (write_seq ws) \<longleftrightarrow> (\<forall>w \<in> set ws. is_ok w)"
proof (induction ws)
  case (Cons w ws)
  then show ?case by (cases w; cases "write_seq ws") (auto simp: write_seq.simps)
qed (simp add: write_seq.simps)

text \<open>A string behind its length.\<close>

lemma wire_sized:
  assumes "wire (lw :: 'e writer) lr (of_nat (length s) :: 'w::len word)" and "length s \<le> maximum"
    and "maximum < 2 ^ LENGTH('w)" and "wire (write_bytes s :: 'e writer) (r (length s)) s"
  shows "wire (write_seq [lw, write_bytes s]) (read_sized lr maximum too_large r) s"
proof -
  have len: "unat (of_nat (length s) :: 'w word) = length s"
    using assms(2,3) by (simp add: unsigned_of_nat take_bit_nat_eq_self)
  show ?thesis
    unfolding read_sized_def
    by (rule wire_field [OF assms(1)]) (simp add: len assms(2) linorder_not_less [THEN iffD2] wire_single assms(4))
qed

lemma write_bounded_Ok:
  "write_bounded m e w = Ok bs \<longleftrightarrow> w = Ok bs \<and> length bs \<le> m"
  by (cases w) (auto simp: write_bounded_def)

lemma wire_read_all:
  assumes "wire w r v" and "write_bounded m e w = Ok bs" and "m < 2 ^ 64"
  shows "read_all r trailing bs = Ok v"
  using assms by (intro read_all_reads) (auto simp: write_bounded_Ok dest: wireD)

section \<open>The fields of a cursor\<close>

context byte_taker
begin

lemma wire_u8: "wire (write_u8 b) (read_u8 tk) b"
  by (simp add: wire_def write_u8_def u8_reads)

lemma wire_u16: "wire (write_u16 n) (read_u16 tk) n"
  by (simp add: wire_def write_u16_def u16_reads)

lemma wire_u32: "wire (write_u32 n) (read_u32 tk) n"
  by (simp add: wire_def write_u32_def u32_reads)

lemma wire_u64: "wire (write_u64 n) (read_u64 tk) n"
  by (simp add: wire_def write_u64_def u64_reads)

lemma wire_u128: "wire (write_u128 n) (read_u128 tk) n"
  by (simp add: wire_def write_u128_def u128_reads)

lemma wire_utf8: "is_utf8 s \<Longrightarrow> wire (write_bytes s) (read_utf8 tk e (length s)) s"
  by (simp add: wire_def write_bytes_def utf8_reads)

lemma wire_str32:
  assumes "is_utf8 s" and "length s \<le> m" and "m < 2 ^ 32"
  shows "wire (write_seq [write_u32 (of_nat (length s)), write_bytes s])
    (read_sized (read_u32 tk) m too_large (read_utf8 tk e)) s"
  using assms by (intro wire_sized wire_u32 wire_utf8) auto

lemma wire_str64:
  assumes "is_utf8 s" and "length s \<le> m" and "m < 2 ^ 64"
  shows "wire (write_seq [write_u64 (of_nat (length s)), write_bytes s])
    (read_sized (read_u64 tk) m too_large (read_utf8 tk e)) s"
  using assms by (intro wire_sized wire_u64 wire_utf8) auto

end

section \<open>Trust origins on the wire\<close>

text \<open>The tags of \<open>trust_tag\<close> and \<open>decode_trust\<close>, which \<^verbatim>\<open>ipc\<close> and \<^verbatim>\<open>assumptions\<close> both carry.\<close>

fun trust_tag :: "trust_origin \<Rightarrow> u8" where
  "trust_tag TrustedProject = 0"
| "trust_tag UserProvided = 1"
| "trust_tag Generated = 2"
| "trust_tag RemoteAgent = 3"
| "trust_tag WebUntrusted = 4"
| "trust_tag McpMetadata = 5"
| "trust_tag McpResult = 6"
| "trust_tag External = 7"
| "trust_tag TrustRuntime = 8"

definition trust_of_tag :: "u8 \<Rightarrow> trust_origin option" where
  "trust_of_tag tag =
     (if tag = 0 then Some TrustedProject
      else if tag = 1 then Some UserProvided
      else if tag = 2 then Some Generated
      else if tag = 3 then Some RemoteAgent
      else if tag = 4 then Some WebUntrusted
      else if tag = 5 then Some McpMetadata
      else if tag = 6 then Some McpResult
      else if tag = 7 then Some External
      else if tag = 8 then Some TrustRuntime
      else None)"

lemma trust_of_tag_trust_tag [simp]: "trust_of_tag (trust_tag t) = Some t"
  by (cases t) (simp_all add: trust_of_tag_def)

end
