(* ===== verification/Failure_Memory.thy ===== *)
theory Failure_Memory
  imports Wire
begin

text \<open>
  The crate \<^verbatim>\<open>crates/failure-memory\<close>: an event-sourced record of approaches that failed. A record
  is created active and may be resolved once; nothing is ever deleted or changed otherwise.
\<close>

section \<open>Records\<close>

definition FAILURE_MEMORY_SCHEMA_VERSION :: u16 where "FAILURE_MEMORY_SCHEMA_VERSION = 1"
definition FM_MAX_TEXT_BYTES :: nat where "FM_MAX_TEXT_BYTES = 64 * 1024"
definition FM_MAX_EVIDENCE_ITEMS :: nat where "FM_MAX_EVIDENCE_ITEMS = 64"
definition FM_MAX_PAYLOAD_BYTES :: nat where "FM_MAX_PAYLOAD_BYTES = 1024 * 1024"

datatype failure_state = FailureActive | FailureSettled

record failure_record =
  fr_id :: failure_id
  fr_agent :: agent_id
  fr_task :: "task_id option"
  fr_fingerprint :: string
  fr_approach :: string
  fr_reason :: string
  fr_evidence :: "string list"
  fr_state :: failure_state

datatype failure_memory_error =
    FmInvalid string
  | FmInvalidEncoding string
  | FmUnsupportedVersion u16
  | FmTooLarge usize usize
  | FmDuplicate failure_id
  | FmUnknown failure_id
  | FmAlreadyResolved failure_id

definition failure_record_new :: "failure_id \<Rightarrow> agent_id \<Rightarrow> string \<Rightarrow> string \<Rightarrow> string \<Rightarrow> failure_record"
  where
  "failure_record_new i a f p r = \<lparr>fr_id = i, fr_agent = a, fr_task = None, fr_fingerprint = f,
     fr_approach = p, fr_reason = r, fr_evidence = [], fr_state = FailureActive\<rparr>"

definition fm_validate_text :: "string \<Rightarrow> string \<Rightarrow> (unit, failure_memory_error) result" where
  "fm_validate_text label v =
     (if trim_is_empty v then Err (FmInvalid (label @ '' must not be empty''))
      else if FM_MAX_TEXT_BYTES < length v then Err (FmTooLarge (length v) FM_MAX_TEXT_BYTES)
      else Ok ())"

definition failure_validate :: "failure_record \<Rightarrow> (unit, failure_memory_error) result" where
  "failure_validate r =
     and_then (fm_validate_text ''failure fingerprint'' (fr_fingerprint r)) (\<lambda>_.
     and_then (fm_validate_text ''failure approach'' (fr_approach r)) (\<lambda>_.
     and_then (fm_validate_text ''failure reason'' (fr_reason r)) (\<lambda>_.
       if FM_MAX_EVIDENCE_ITEMS < length (fr_evidence r)
       then Err (FmInvalid ''failure evidence list is too large'')
       else try_all (fm_validate_text ''failure evidence'') (fr_evidence r))))"

section \<open>The memory\<close>

datatype failure_transition = FailureRecorded failure_record | FailureWasResolved failure_id

record failure_memory =
  fm_records :: "(failure_id, failure_record) bmap"

definition failure_memory_default :: failure_memory where
  "failure_memory_default = \<lparr>fm_records = bm_empty\<rparr>"

definition active_records :: "failure_memory \<Rightarrow> failure_record list" where
  "active_records m = filter (\<lambda>r. fr_state r = FailureActive) (bm_values (fm_records m))"

definition matching_fingerprint :: "failure_memory \<Rightarrow> string \<Rightarrow> failure_record list" where
  "matching_fingerprint m f = filter (\<lambda>r. fr_fingerprint r = f) (bm_values (fm_records m))"

definition has_attempted :: "failure_memory \<Rightarrow> string \<Rightarrow> bool" where
  "has_attempted m f = list_ex (\<lambda>r. fr_fingerprint r = f) (bm_values (fm_records m))"

fun fm_apply :: "failure_transition \<Rightarrow> failure_memory
    \<Rightarrow> (unit, failure_memory_error) result \<times> failure_memory" where
  "fm_apply (FailureRecorded r) m =
     (case failure_validate r of
        Err e \<Rightarrow> (Err e, m)
      | Ok _ \<Rightarrow>
          if fr_state r \<noteq> FailureActive
          then (Err (FmInvalid ''recorded failure must be active''), m)
          else if bm_contains_key (fm_records m) (fr_id r) then (Err (FmDuplicate (fr_id r)), m)
          else (Ok (), m\<lparr>fm_records := bm_insert (fr_id r) r (fm_records m)\<rparr>))"
| "fm_apply (FailureWasResolved i) m =
     (case bm_get (fm_records m) i of
        None \<Rightarrow> (Err (FmUnknown i), m)
      | Some r \<Rightarrow>
          if fr_state r = FailureSettled then (Err (FmAlreadyResolved i), m)
          else (Ok (), m\<lparr>fm_records := bm_insert i (r\<lparr>fr_state := FailureSettled\<rparr>) (fm_records m)\<rparr>))"

section \<open>The codec\<close>

definition fm_take :: "nat \<Rightarrow> (u8 list, failure_memory_error) reader" where
  "fm_take = cursor_take (FmInvalidEncoding ''length overflow'')
     (FmInvalidEncoding ''unexpected end of payload'')"

abbreviation "fm_u8 \<equiv> read_u8 fm_take"
abbreviation "fm_u16 \<equiv> read_u16 fm_take"
abbreviation "fm_u64 \<equiv> read_u64 fm_take"

definition fm_string :: "(string, failure_memory_error) reader" where
  "fm_string = read_sized (read_u32 fm_take) FM_MAX_TEXT_BYTES
     (\<lambda>n. FmTooLarge n FM_MAX_TEXT_BYTES)
     (read_utf8 fm_take (FmInvalidEncoding ''failure text is not UTF-8''))"

definition fm_string_list :: "(string list, failure_memory_error) reader" where
  "fm_string_list = read_counted fm_u16 FM_MAX_EVIDENCE_ITEMS
     (\<lambda>_. FmInvalidEncoding ''failure evidence list is too large'') fm_string"

definition fm_write_string :: "string \<Rightarrow> failure_memory_error writer" where
  "fm_write_string v =
     and_then (fm_validate_text ''encoded failure text'' v) (\<lambda>_.
       if 2 ^ 32 \<le> length v then Err (FmTooLarge (length v) (2 ^ 32 - 1))
       else write_seq [write_u32 (of_nat (length v)), write_bytes v])"

definition fm_write_string_list :: "string list \<Rightarrow> failure_memory_error writer" where
  "fm_write_string_list vs =
     (if FM_MAX_EVIDENCE_ITEMS < length vs then Err (FmInvalid ''failure evidence list is too large'')
      else write_counted fm_write_string vs)"

definition fm_encode_transition :: "failure_transition \<Rightarrow> failure_memory_error writer" where
  "fm_encode_transition t =
     write_bounded FM_MAX_PAYLOAD_BYTES (\<lambda>n. FmTooLarge n FM_MAX_PAYLOAD_BYTES)
       (case t of
          FailureRecorded r \<Rightarrow>
            and_then (failure_validate r) (\<lambda>_.
              if fr_state r \<noteq> FailureActive then Err (FmInvalid ''recorded failure must be active'')
              else write_seq [write_u8 0, write_u64 (fr_id r), write_u64 (fr_agent r),
                write_option write_u64 (fr_task r), fm_write_string (fr_fingerprint r),
                fm_write_string (fr_approach r), fm_write_string (fr_reason r),
                fm_write_string_list (fr_evidence r)])
        | FailureWasResolved i \<Rightarrow> write_seq [write_u8 1, write_u64 i])"

definition fm_read_transition :: "(failure_transition, failure_memory_error) reader" where
  "fm_read_transition = rd_bind fm_u8 (\<lambda>tag.
     if tag = 0 then
       rd_bind fm_u64 (\<lambda>i. rd_bind fm_u64 (\<lambda>a.
       rd_bind (read_option fm_u8 (\<lambda>_. FmInvalidEncoding ''unknown task-id tag'') fm_u64) (\<lambda>t.
       rd_bind fm_string (\<lambda>f. rd_bind fm_string (\<lambda>p. rd_bind fm_string (\<lambda>r.
       rd_bind fm_string_list (\<lambda>ev.
         rd_return (FailureRecorded \<lparr>fr_id = i, fr_agent = a, fr_task = t, fr_fingerprint = f,
           fr_approach = p, fr_reason = r, fr_evidence = ev, fr_state = FailureActive\<rparr>))))))))
     else if tag = 1 then rd_bind fm_u64 (\<lambda>i. rd_return (FailureWasResolved i))
     else rd_fail (FmInvalidEncoding (''unknown transition tag '' @ show_nat (unat tag))))"

definition fm_decode_transition :: "u16 \<Rightarrow> u8 list
    \<Rightarrow> (failure_transition, failure_memory_error) result" where
  "fm_decode_transition version bytes =
     (if version \<noteq> FAILURE_MEMORY_SCHEMA_VERSION then Err (FmUnsupportedVersion version)
      else if FM_MAX_PAYLOAD_BYTES < length bytes
        then Err (FmTooLarge (length bytes) FM_MAX_PAYLOAD_BYTES)
      else read_all fm_read_transition (FmInvalidEncoding ''trailing bytes'') bytes)"

fun select_failure :: "event_kind \<Rightarrow> (u16 \<times> u8 list) option" where
  "select_failure (FailureMemoryTransition v p) = Some (v, p)"
| "select_failure _ = None"

definition fm_from_events :: "event list \<Rightarrow> (failure_memory, failure_memory_error) result" where
  "fm_from_events evs =
     replay select_failure fm_decode_transition (\<lambda>t m. commit (fm_apply t m)) failure_memory_default evs"

section \<open>The codec is a round trip\<close>

interpretation fm: byte_taker fm_take
  unfolding fm_take_def by (rule byte_taker_cursor_take)

lemma fm_wire_string:
  assumes "is_utf8 s"
  shows "wire (fm_write_string s) fm_string s"
proof (rule wireI)
  fix bs assume "fm_write_string s = Ok bs"
  then have len: "length s \<le> FM_MAX_TEXT_BYTES"
    and bs: "write_seq [write_u32 (of_nat (length s)), write_bytes s] = (Ok bs :: failure_memory_error writer)"
    by (auto simp: fm_write_string_def fm_validate_text_def split: if_splits)
  have "wire (write_seq [write_u32 (of_nat (length s)), write_bytes s] :: failure_memory_error writer)
      fm_string s"
    unfolding fm_string_def
    using assms len by (rule fm.wire_str32) (simp add: FM_MAX_TEXT_BYTES_def)
  then show "reads fm_string bs s" using bs by (rule wireD)
qed

lemma fm_wire_string_list:
  assumes "\<forall>s \<in> set ss. is_utf8 s"
  shows "wire (fm_write_string_list ss) fm_string_list ss"
proof (cases "FM_MAX_EVIDENCE_ITEMS < length ss")
  case True
  then show ?thesis by (simp add: fm_write_string_list_def wire_def)
next
  case False
  then show ?thesis
    unfolding fm_write_string_list_def fm_string_list_def
    using assms by (simp, intro wire_counted fm.wire_u16 fm_wire_string)
      (auto simp: FM_MAX_EVIDENCE_ITEMS_def)
qed

lemma fm_wire_task:
  "wire (write_option write_u64 t) (read_option fm_u8 (\<lambda>_. e) fm_u64) t"
  by (intro wire_option fm.wire_u8 fm.wire_u64)

lemmas fm_fields = fm.wire_u8 [THEN wire_field] fm.wire_u64 [THEN wire_field]
  fm_wire_task [THEN wire_field] fm_wire_string [THEN wire_field]
  fm_wire_string_list [THEN wire_field]

fun failure_utf8 :: "failure_transition \<Rightarrow> bool" where
  "failure_utf8 (FailureRecorded r) \<longleftrightarrow> is_utf8 (fr_fingerprint r) \<and> is_utf8 (fr_approach r) \<and>
     is_utf8 (fr_reason r) \<and> list_all is_utf8 (fr_evidence r)"
| "failure_utf8 (FailureWasResolved i) \<longleftrightarrow> True"

lemma fm_wire_recorded:
  assumes "failure_utf8 (FailureRecorded r)" and "fr_state r = FailureActive"
  shows "wire (write_seq [write_u8 0, write_u64 (fr_id r), write_u64 (fr_agent r),
      write_option write_u64 (fr_task r), fm_write_string (fr_fingerprint r),
      fm_write_string (fr_approach r), fm_write_string (fr_reason r),
      fm_write_string_list (fr_evidence r)]) fm_read_transition (FailureRecorded r)"
  unfolding fm_read_transition_def
  using assms
  by (intro wire_field [OF fm.wire_u8])
    (simp, intro fm_fields wire_end, auto simp: list_all_iff)

lemma fm_wire_resolved:
  "wire (write_seq [write_u8 1, write_u64 i]) fm_read_transition (FailureWasResolved i)"
  unfolding fm_read_transition_def
  by (intro wire_field [OF fm.wire_u8]) (simp, intro fm_fields wire_end, simp)

lemma fm_decode_encode:
  assumes "failure_utf8 t" and "fm_encode_transition t = Ok bs"
  shows "fm_decode_transition FAILURE_MEMORY_SCHEMA_VERSION bs = Ok t"
proof -
  obtain w where w: "write_bounded FM_MAX_PAYLOAD_BYTES (\<lambda>n. FmTooLarge n FM_MAX_PAYLOAD_BYTES) w = Ok bs"
    and wire: "wire w fm_read_transition t"
  proof (cases t)
    case (FailureRecorded r)
    with assms show ?thesis
      by (intro that [OF _ fm_wire_recorded [of r, folded FailureRecorded]])
        (auto simp: fm_encode_transition_def write_bounded_Ok split: if_splits)
  next
    case (FailureWasResolved i)
    with assms show ?thesis
      by (intro that [OF _ fm_wire_resolved [of i, folded FailureWasResolved]])
        (simp add: fm_encode_transition_def)
  qed
  from w have "length bs \<le> FM_MAX_PAYLOAD_BYTES" by (simp add: write_bounded_Ok)
  then show ?thesis
    using wire_read_all [OF wire w, of "FmInvalidEncoding ''trailing bytes''"]
    unfolding fm_decode_transition_def by (simp add: FM_MAX_PAYLOAD_BYTES_def)
qed

section \<open>The invariant\<close>

definition fm_wf :: "failure_memory \<Rightarrow> bool" where
  "fm_wf m \<longleftrightarrow> (\<forall>i r. bm_get (fm_records m) i = Some r \<longrightarrow> fr_id r = i \<and> failure_validate r = Ok ())"

lemma fm_wf_default: "fm_wf failure_memory_default"
  by (simp add: fm_wf_def failure_memory_default_def)

lemma failure_validate_state [simp]: "failure_validate (r\<lparr>fr_state := st\<rparr>) = failure_validate r"
  by (simp add: failure_validate_def)

lemma fm_apply_Err: "fm_apply t m = (Err e, m') \<Longrightarrow> m' = m"
  by (cases t) (auto split: result.splits option.splits if_splits)

lemma fm_apply_wf: "fm_wf m \<Longrightarrow> fm_apply t m = (res, m') \<Longrightarrow> fm_wf m'"
  by (cases t) (auto simp: fm_wf_def split: result.splits option.splits if_splits)

lemma has_attempted_iff: "has_attempted m f \<longleftrightarrow>
    (\<exists>i r. bm_get (fm_records m) i = Some r \<and> fr_fingerprint r = f)"
  unfolding has_attempted_def list_ex_iff Bex_def bm_values_iff by blast

text \<open>What a step does to a record that is already there.\<close>

definition settles :: "failure_record \<Rightarrow> failure_record \<Rightarrow> bool" where
  "settles r r' \<longleftrightarrow> r' = r \<or> (fr_state r = FailureActive \<and> r' = r\<lparr>fr_state := FailureSettled\<rparr>)"

lemma fm_apply_keeps:
  assumes "bm_get (fm_records m) i = Some r" and "fm_apply t m = (res, m')"
  shows "\<exists>r'. bm_get (fm_records m') i = Some r' \<and> settles r r'"
  using assms
  by (cases t; cases "fr_state r")
    (auto simp: settles_def bm_contains_key_def split: result.splits option.splits if_splits)

lemma settles_trans: "settles r s \<Longrightarrow> settles s t \<Longrightarrow> settles r t"
  by (auto simp: settles_def)

lemma fm_fold_keeps:
  assumes "try_fold (\<lambda>m t. commit (fm_apply t m)) m ts = Ok m'"
    and "bm_get (fm_records m) i = Some r"
  shows "\<exists>r'. bm_get (fm_records m') i = Some r' \<and> settles r r'"
proof (rule try_fold_invariant [OF assms(1),
      where I = "\<lambda>m'. \<exists>r'. bm_get (fm_records m') i = Some r' \<and> settles r r'"])
  show "\<exists>r'. bm_get (fm_records m) i = Some r' \<and> settles r r'"
    using assms(2) by (simp add: settles_def)
next
  fix s t s'
  assume "\<exists>r'. bm_get (fm_records s) i = Some r' \<and> settles r r'" and "commit (fm_apply t s) = Ok s'"
  then obtain r' where r': "bm_get (fm_records s) i = Some r'" "settles r r'"
    and step: "fm_apply t s = (Ok (), s')" by (auto simp: commit_Ok_iff)
  from fm_apply_keeps [OF r'(1) step] r'(2)
  show "\<exists>r'. bm_get (fm_records s') i = Some r' \<and> settles r r'"
    by (blast intro: settles_trans)
qed

interpretation fm: event_sourced_codec select_failure fm_decode_transition
    "\<lambda>t m. commit (fm_apply t m)" fm_wf fm_encode_transition FAILURE_MEMORY_SCHEMA_VERSION
    failure_utf8 "\<lambda>t. t" FailureMemoryTransition
proof
  show "fm_wf m \<Longrightarrow> commit (fm_apply t m) = Ok m' \<Longrightarrow> fm_wf m'" for m t m'
    by (auto simp: commit_Ok_iff intro: fm_apply_wf)
  show "failure_utf8 t \<Longrightarrow> fm_encode_transition t = Ok bs \<Longrightarrow>
      fm_decode_transition FAILURE_MEMORY_SCHEMA_VERSION bs = Ok t" for t bs
    by (rule fm_decode_encode)
qed simp_all

section \<open>Properties\<close>

text \<open>
  failures are never forgotten. Through any sequence of transitions that succeeds, a recorded
  failure stays under its identifier with everything it said, except that an active one may have
  become resolved; so an approach that was attempted still counts as attempted.
\<close>

theorem failures_never_forgotten:
  assumes "try_fold (\<lambda>m t. commit (fm_apply t m)) m ts = Ok m'"
  shows "(\<forall>i r. bm_get (fm_records m) i = Some r \<longrightarrow>
      (\<exists>r'. bm_get (fm_records m') i = Some r' \<and> settles r r')) \<and>
    (\<forall>f. has_attempted m f \<longrightarrow> has_attempted m' f)"
proof (intro conjI allI impI)
  show "\<exists>r'. bm_get (fm_records m') i = Some r' \<and> settles r r'"
    if "bm_get (fm_records m) i = Some r" for i r
    using assms that by (rule fm_fold_keeps)
  fix f assume "has_attempted m f"
  then obtain i r where r: "bm_get (fm_records m) i = Some r" "fr_fingerprint r = f"
    by (auto simp: has_attempted_iff)
  obtain r' where r': "bm_get (fm_records m') i = Some r'" and "settles r r'"
    using fm_fold_keeps [OF assms r(1)] by blast
  then have "fr_fingerprint r' = f" using r(2) by (auto simp: settles_def)
  with r' show "has_attempted m' f" by (auto simp: has_attempted_iff)
qed

text \<open>
  Recovery of the failure memory. A log that records the transitions \<open>ts\<close>, among events of
  all other kinds, is replayed to the memory the live transitions produced, or the same error.
\<close>

theorem failure_memory_recovery:
  assumes "list_all2 (\<lambda>t ev. \<exists>bs. fm_encode_transition t = Ok bs \<and>
        event_knd ev = FailureMemoryTransition FAILURE_MEMORY_SCHEMA_VERSION bs) ts
      (filter (\<lambda>ev. select_failure (event_knd ev) \<noteq> None) evs)"
    and "\<forall>t \<in> set ts. failure_utf8 t"
  shows "fm_from_events evs = try_fold (\<lambda>m t. commit (fm_apply t m)) failure_memory_default ts"
  unfolding fm_from_events_def using assms by (rule fm.replay_recorded)

section \<open>Witnesses\<close>

definition example_failure :: failure_record where
  "example_failure = failure_record_new 9 7 ''fp'' ''retry'' ''timeout''"

lemmas failure_eval = example_failure_def failure_record_new_def failure_validate_def
  fm_validate_text_def trim_is_empty_def FM_MAX_TEXT_BYTES_def FM_MAX_EVIDENCE_ITEMS_def
  FM_MAX_PAYLOAD_BYTES_def failure_memory_default_def

lemma example_failure_steps:
  "try_fold (\<lambda>m t. commit (fm_apply t m)) failure_memory_default [FailureRecorded example_failure]
    = Ok \<lparr>fm_records = bm_insert 9 example_failure bm_empty\<rparr>"
  by (simp add: failure_eval)

theorem failures_never_forgotten_witness:
  "\<exists>m. try_fold (\<lambda>m t. commit (fm_apply t m)) \<lparr>fm_records = bm_insert 9 example_failure bm_empty\<rparr>
       [FailureWasResolved 9] = Ok m \<and> has_attempted m ''fp''"
proof -
  have "try_fold (\<lambda>m t. commit (fm_apply t m)) \<lparr>fm_records = bm_insert 9 example_failure bm_empty\<rparr>
       [FailureWasResolved 9] = Ok \<lparr>fm_records = bm_insert 9
         (example_failure\<lparr>fr_state := FailureSettled\<rparr>) (bm_insert 9 example_failure bm_empty)\<rparr>"
    by (simp add: failure_eval)
  moreover have "has_attempted \<lparr>fm_records = bm_insert 9 example_failure bm_empty\<rparr> ''fp''"
    by (simp add: has_attempted_iff failure_eval)
  ultimately show ?thesis using failures_never_forgotten by blast
qed

theorem failure_memory_recovery_witness:
  "\<exists>bs. fm_encode_transition (FailureWasResolved 9) = Ok bs \<and>
     fm_from_events [\<lparr>event_ident = 1, event_run = 1, occurred_at_ms = 0,
         event_knd = FailureMemoryTransition FAILURE_MEMORY_SCHEMA_VERSION bs\<rparr>]
     = Err (FmUnknown 9)"
proof -
  obtain bs where bs: "fm_encode_transition (FailureWasResolved 9) = Ok bs"
    by (simp add: fm_encode_transition_def write_bounded_def write_seq.simps write_u8_def
        write_u64_def FM_MAX_PAYLOAD_BYTES_def)
  have "fm_from_events [\<lparr>event_ident = 1, event_run = 1, occurred_at_ms = 0,
         event_knd = FailureMemoryTransition FAILURE_MEMORY_SCHEMA_VERSION bs\<rparr>]
     = try_fold (\<lambda>m t. commit (fm_apply t m)) failure_memory_default [FailureWasResolved 9]"
    by (rule failure_memory_recovery) (simp_all add: bs)
  with bs show ?thesis by (simp add: failure_memory_default_def)
qed

end
