(* ===== verification/Cache_Telemetry.thy ===== *)
theory Cache_Telemetry
  imports Kernel
begin

text \<open>
  The crate \<^verbatim>\<open>crates/cache\<close>: what providers reported about cached input tokens, by provider,
  model and prefix hash. A telemetry record summarises the observations of its key.
\<close>

section \<open>Keys, observations, records\<close>

datatype cache_key = CacheKey (key_provider: string) (key_model: string) (key_prefix: "u8 list")

definition cache_key_new :: "model_ref \<Rightarrow> u8 list \<Rightarrow> cache_key" where
  "cache_key_new m h = CacheKey (model_provider m) (model_name m) h"

text \<open>The derived order: provider, then model, then hash.\<close>

definition key_tuple :: "cache_key \<Rightarrow> string \<times> string \<times> u8 list" where
  "key_tuple k = (key_provider k, key_model k, key_prefix k)"

lemma key_tuple_inject [simp]: "key_tuple j = key_tuple k \<longleftrightarrow> j = k"
  by (auto simp: key_tuple_def cache_key.expand)

instantiation cache_key :: linorder
begin

definition less_eq_cache_key :: "cache_key \<Rightarrow> cache_key \<Rightarrow> bool" where
  "less_eq_cache_key j k = (key_tuple j \<le> key_tuple k)"

definition less_cache_key :: "cache_key \<Rightarrow> cache_key \<Rightarrow> bool" where
  "less_cache_key j k = (key_tuple j < key_tuple k)"

instance
  by standard
    (auto simp: less_eq_cache_key_def less_cache_key_def less_le_not_le simp flip: key_tuple_inject)

end

record cache_observation =
  obs_key :: cache_key
  obs_estimated_prefix_tokens :: u64
  obs_cached_tokens :: u64
  obs_at_ms :: u128

record cache_record =
  first_observed_at_ms :: u128
  last_observed_at_ms :: u128
  observations :: u64
  total_cached_tokens :: u64
  last_cached_tokens :: u64
  last_estimated_prefix_tokens :: u64

record cache_telemetry =
  cache_records :: "(cache_key, cache_record) bmap"

definition telemetry_new :: cache_telemetry where
  "telemetry_new = \<lparr>cache_records = bm_empty\<rparr>"

datatype cache_error = CachedTokensExceedInput u64 u64

definition telemetry_is_empty :: "cache_telemetry \<Rightarrow> bool" where
  "telemetry_is_empty s = (bm_entries (cache_records s) = [])"

definition telemetry_len :: "cache_telemetry \<Rightarrow> nat" where
  "telemetry_len s = bm_len (cache_records s)"

definition telemetry_get :: "cache_telemetry \<Rightarrow> cache_key \<Rightarrow> cache_record option" where
  "telemetry_get s k = bm_get (cache_records s) k"

section \<open>Operations\<close>

definition fresh_record :: "cache_observation \<Rightarrow> cache_record" where
  "fresh_record ob =
     \<lparr>first_observed_at_ms = obs_at_ms ob, last_observed_at_ms = obs_at_ms ob, observations = 0,
      total_cached_tokens = 0, last_cached_tokens = obs_cached_tokens ob,
      last_estimated_prefix_tokens = obs_estimated_prefix_tokens ob\<rparr>"

definition update_record :: "cache_observation \<Rightarrow> cache_record \<Rightarrow> cache_record" where
  "update_record ob r =
     (let r = r\<lparr>first_observed_at_ms := min (first_observed_at_ms r) (obs_at_ms ob),
                observations := saturating_add (observations r) 1,
                total_cached_tokens := saturating_add (total_cached_tokens r) (obs_cached_tokens ob)\<rparr>
      in if last_observed_at_ms r \<le> obs_at_ms ob
         then r\<lparr>last_observed_at_ms := obs_at_ms ob, last_cached_tokens := obs_cached_tokens ob,
                last_estimated_prefix_tokens := obs_estimated_prefix_tokens ob\<rparr>
         else r)"

definition record_observation :: "cache_observation \<Rightarrow> cache_telemetry \<Rightarrow> cache_telemetry" where
  "record_observation ob s =
     (let m = bm_or_insert (obs_key ob) (fresh_record ob) (cache_records s);
          r = (case bm_get m (obs_key ob) of Some r \<Rightarrow> r | None \<Rightarrow> fresh_record ob)
      in s\<lparr>cache_records := bm_insert (obs_key ob) (update_record ob r) m\<rparr>)"

definition telemetry_record :: "model_ref \<Rightarrow> u8 list \<Rightarrow> u64 \<Rightarrow> usage \<Rightarrow> u128 \<Rightarrow> cache_telemetry
    \<Rightarrow> (cache_observation option, cache_error) result \<times> cache_telemetry" where
  "telemetry_record model prefix_hash estimated u now s =
     (case cached_input_tokens u of
        None \<Rightarrow> (Ok None, s)
      | Some cached \<Rightarrow>
          if input_tokens u < cached then (Err (CachedTokensExceedInput cached (input_tokens u)), s)
          else
            let ob = \<lparr>obs_key = cache_key_new model prefix_hash,
                      obs_estimated_prefix_tokens = estimated, obs_cached_tokens = cached,
                      obs_at_ms = now\<rparr>
            in (Ok (Some ob), record_observation ob s))"

section \<open>What a record summarises\<close>

text \<open>The observations of one key, and the last of them with the latest time.\<close>

definition of_key :: "cache_key \<Rightarrow> cache_observation list \<Rightarrow> cache_observation list" where
  "of_key k obs = filter (\<lambda>ob. obs_key ob = k) obs"

definition latest :: "cache_observation list \<Rightarrow> cache_observation" where
  "latest obs = last (filter (\<lambda>ob. \<forall>o' \<in> set obs. obs_at_ms o' \<le> obs_at_ms ob) obs)"

definition summarises :: "cache_observation list \<Rightarrow> cache_record \<Rightarrow> bool" where
  "summarises obs r \<longleftrightarrow>
     first_observed_at_ms r = Min (obs_at_ms ` set obs) \<and>
     last_observed_at_ms r = Max (obs_at_ms ` set obs) \<and>
     unat (observations r) = min (length obs) (2 ^ 64 - 1) \<and>
     unat (total_cached_tokens r) = min (sum_list (map (unat \<circ> obs_cached_tokens) obs)) (2 ^ 64 - 1) \<and>
     last_cached_tokens r = obs_cached_tokens (latest obs) \<and>
     last_estimated_prefix_tokens r = obs_estimated_prefix_tokens (latest obs)"

lemma latest_snoc_new:
  assumes "\<forall>o' \<in> set obs. obs_at_ms o' \<le> obs_at_ms ob"
  shows "latest (obs @ [ob]) = ob"
  using assms by (simp add: latest_def)

lemma latest_snoc_old:
  assumes "o' \<in> set obs" and "obs_at_ms ob < obs_at_ms o'"
  shows "latest (obs @ [ob]) = latest obs"
proof -
  have "obs_at_ms ob \<le> obs_at_ms o2" if "\<forall>o' \<in> set obs. obs_at_ms o' \<le> obs_at_ms o2" for o2
    using that assms by (meson less_imp_le order_trans)
  then have "filter (\<lambda>o2. \<forall>o' \<in> set (obs @ [ob]). obs_at_ms o' \<le> obs_at_ms o2) obs
      = filter (\<lambda>o2. \<forall>o' \<in> set obs. obs_at_ms o' \<le> obs_at_ms o2) obs"
    by (intro filter_cong) auto
  moreover have "\<not> (\<forall>o2 \<in> set (obs @ [ob]). obs_at_ms o2 \<le> obs_at_ms ob)"
    using assms by (auto simp: not_le intro!: bexI [of _ o'])
  ultimately show ?thesis unfolding latest_def filter_append by simp
qed

lemma summarises_fresh: "summarises [ob] (update_record ob (fresh_record ob))"
proof -
  have "unat (obs_cached_tokens ob) \<le> 2 ^ 64 - 1" using unat_le_max [of "obs_cached_tokens ob"] by simp
  then show ?thesis
    by (simp add: summarises_def update_record_def fresh_record_def latest_def unat_saturating_add)
qed

lemma summarises_update:
  assumes "summarises obs r" and "obs \<noteq> []"
  shows "summarises (obs @ [ob]) (update_record ob r)"
proof -
  let ?ts = "obs_at_ms ` set obs"
  have fin: "finite ?ts" "?ts \<noteq> {}" using assms(2) by simp_all
  have counts: "unat (saturating_add (observations r) 1) = min (length (obs @ [ob])) (2 ^ 64 - 1)"
    "unat (saturating_add (total_cached_tokens r) (obs_cached_tokens ob))
      = min (sum_list (map (unat \<circ> obs_cached_tokens) (obs @ [ob]))) (2 ^ 64 - 1)"
    using assms(1) by (simp_all add: summarises_def unat_saturating_add)
  show ?thesis
  proof (cases "Max ?ts \<le> obs_at_ms ob")
    case True
    then have "latest (obs @ [ob]) = ob"
      using fin by (intro latest_snoc_new) auto
    then show ?thesis
      using assms(1) True fin counts
      by (simp add: summarises_def update_record_def min.commute max_absorb1 Let_def del: Max.bounded_iff)
  next
    case False
    obtain o' where "o' \<in> set obs" "obs_at_ms o' = Max ?ts"
      using Max_in [OF fin] by auto
    then have "latest (obs @ [ob]) = latest obs"
      using False by (intro latest_snoc_old [of o']) auto
    then show ?thesis
      using assms(1) False fin counts
      by (simp add: summarises_def update_record_def min.commute max_absorb2 Let_def del: Max.bounded_iff)
  qed
qed

lemma get_record_observation:
  "telemetry_get (record_observation ob s) k =
     (if k = obs_key ob
      then Some (update_record ob (case telemetry_get s k of Some r \<Rightarrow> r | None \<Rightarrow> fresh_record ob))
      else telemetry_get s k)"
  by (simp add: telemetry_get_def record_observation_def bm_get_or_insert Let_def split: option.splits)

section \<open>Properties\<close>

text \<open>
  Telemetry is an exact summary. After any observations, a key has a record exactly when it was
  observed, and the record holds the first and last time, the number of observations and the sum of
  cached tokens (both saturating), and the figures of the latest observation.
\<close>

theorem telemetry_summary:
  "case telemetry_get (fold record_observation obs telemetry_new) k of
     None \<Rightarrow> of_key k obs = []
   | Some r \<Rightarrow> of_key k obs \<noteq> [] \<and> summarises (of_key k obs) r"
proof (induction obs rule: rev_induct)
  case Nil
  then show ?case by (simp add: telemetry_get_def telemetry_new_def of_key_def)
next
  case (snoc ob obs)
  then show ?case
    using summarises_fresh [of ob] summarises_update [of "of_key k obs" _ ob]
    by (auto simp: get_record_observation of_key_def split: option.splits)
qed

end
