(* ===== verification/Ipc.thy ===== *)
theory Ipc
  imports Wire
begin

text \<open>
  The crate \<^verbatim>\<open>crates/ipc\<close>: the messages agents send each other, their envelope with its provenance
  and input origins, the versioned encoding of an envelope, and the bounded mailbox that delivers
  envelopes in order.
\<close>

section \<open>Messages and envelopes\<close>

definition LEGACY_IPC_SCHEMA_VERSION :: u16 where "LEGACY_IPC_SCHEMA_VERSION = 1"
definition IPC_SCHEMA_VERSION :: u16 where "IPC_SCHEMA_VERSION = 2"
definition DEFAULT_MAILBOX_CAPACITY :: nat where "DEFAULT_MAILBOX_CAPACITY = 64"
definition RUNTIME_AGENT_ID :: agent_id where "RUNTIME_AGENT_ID = 0"
definition MAX_ENVELOPE_BYTES :: nat where "MAX_ENVELOPE_BYTES = 1024 * 1024"
definition IPC_MAX_STRING_BYTES :: nat where "IPC_MAX_STRING_BYTES = 64 * 1024"
definition IPC_MAX_LIST_ITEMS :: nat where "IPC_MAX_LIST_ITEMS = 64"
definition MAX_CAUSAL_EVENTS :: nat where "MAX_CAUSAL_EVENTS = 32"
definition IPC_MAX_INPUT_ORIGINS :: nat where "IPC_MAX_INPUT_ORIGINS = 32"

datatype ipc_provenance =
    FromRuntime
  | FromAgent
  | FromUser
  | FromExternal string
  | FromRemoteAgent string
  | FromWebUntrusted string
  | FromMcpMetadata string
  | FromMcpResult string
  | FromTrustedProject

fun provenance_trust :: "ipc_provenance \<Rightarrow> trust_origin" where
  "provenance_trust FromRuntime = TrustRuntime"
| "provenance_trust FromAgent = Generated"
| "provenance_trust FromUser = UserProvided"
| "provenance_trust (FromExternal _) = External"
| "provenance_trust (FromRemoteAgent _) = RemoteAgent"
| "provenance_trust (FromWebUntrusted _) = WebUntrusted"
| "provenance_trust (FromMcpMetadata _) = McpMetadata"
| "provenance_trust (FromMcpResult _) = McpResult"
| "provenance_trust FromTrustedProject = TrustedProject"

datatype ipc_message =
    Question string string
  | Answer string string "string option" "string list"
  | AssumptionMsg string string string "string list"
  | Decision string string string
  | Conflict string string string "string list"
  | BlockedMsg string
  | ProgressMsg string u16
  | Artifact string string
  | ReviewRequest string string
  | Warning string string
  | Handoff string
  | ContractUpdate string string string
  | OwnershipRequest string string

record ipc_envelope =
  env_id :: message_id
  env_run :: run_id
  env_task :: "task_id option"
  env_sender :: agent_id
  env_recipient :: agent_id
  env_causal :: "event_id list"
  env_provenance :: ipc_provenance
  env_origins :: "trust_origin list"
  env_payload :: ipc_message

datatype ipc_error =
    IpcInvalid string
  | IpcInvalidEncoding string
  | IpcUnsupportedVersion u16
  | IpcTooLarge usize usize
  | MailboxCapacityZero
  | MailboxFull agent_id

text \<open>\<open>IpcEnvelope::new\<close>; the fresh message identifier is an argument.\<close>

definition envelope_new :: "message_id \<Rightarrow> run_id \<Rightarrow> task_id option \<Rightarrow> agent_id \<Rightarrow> agent_id
    \<Rightarrow> ipc_message \<Rightarrow> ipc_envelope" where
  "envelope_new i run t sender recipient m =
     \<lparr>env_id = i, env_run = run, env_task = t, env_sender = sender, env_recipient = recipient,
      env_causal = [], env_provenance = FromAgent, env_origins = [], env_payload = m\<rparr>"

definition with_input_origin :: "trust_origin \<Rightarrow> ipc_envelope \<Rightarrow> ipc_envelope" where
  "with_input_origin t e = e\<lparr>env_origins := env_origins e @ [t]\<rparr>"

definition ipc_effective_trust :: "ipc_envelope \<Rightarrow> trust_origin" where
  "ipc_effective_trust e = foldl combine_trust (provenance_trust (env_provenance e)) (env_origins e)"

section \<open>Validation\<close>

definition ipc_validate_text :: "string \<Rightarrow> string \<Rightarrow> (unit, ipc_error) result" where
  "ipc_validate_text field v =
     (if trim_is_empty v then Err (IpcInvalid (field @ '' must not be empty''))
      else if IPC_MAX_STRING_BYTES < length v then Err (IpcTooLarge (length v) IPC_MAX_STRING_BYTES)
      else Ok ())"

definition ipc_validate_optional_text :: "string \<Rightarrow> string option \<Rightarrow> (unit, ipc_error) result" where
  "ipc_validate_optional_text field v = (case v of Some v \<Rightarrow> ipc_validate_text field v | None \<Rightarrow> Ok ())"

definition ipc_validate_text_list :: "string \<Rightarrow> string list \<Rightarrow> (unit, ipc_error) result" where
  "ipc_validate_text_list field vs =
     (if IPC_MAX_LIST_ITEMS < length vs
      then Err (IpcInvalid (field @ '' has '' @ show_nat (length vs) @ '' entries, maximum is ''
             @ show_nat IPC_MAX_LIST_ITEMS))
      else try_all (ipc_validate_text field) vs)"

fun all_valid :: "(unit, 'e) result list \<Rightarrow> (unit, 'e) result" where
  "all_valid [] = Ok ()"
| "all_valid (r # rs) = and_then r (\<lambda>_. all_valid rs)"

fun message_validate :: "ipc_message \<Rightarrow> (unit, ipc_error) result" where
  "message_validate (Question subject why) = all_valid
     [ipc_validate_text ''question subject'' subject, ipc_validate_text ''question why'' why]"
| "message_validate (Answer subject v revision evidence) = all_valid
     [ipc_validate_text ''answer subject'' subject, ipc_validate_text ''answer value'' v,
      ipc_validate_optional_text ''answer revision'' revision,
      ipc_validate_text_list ''answer evidence'' evidence]"
| "message_validate (AssumptionMsg subject normalized claim evidence) = all_valid
     [ipc_validate_text ''assumption subject'' subject,
      ipc_validate_text ''assumption normalized value'' normalized,
      ipc_validate_text ''assumption claim'' claim,
      ipc_validate_text_list ''assumption evidence'' evidence]"
| "message_validate (Decision subject v rationale) = all_valid
     [ipc_validate_text ''decision subject'' subject, ipc_validate_text ''decision value'' v,
      ipc_validate_text ''decision rationale'' rationale]"
| "message_validate (Conflict subject left right affected) = all_valid
     [ipc_validate_text ''conflict subject'' subject, ipc_validate_text ''conflict left'' left,
      ipc_validate_text ''conflict right'' right,
      ipc_validate_text_list ''conflict affected'' affected]"
| "message_validate (BlockedMsg reason) = ipc_validate_text ''blocked reason'' reason"
| "message_validate (ProgressMsg summary completed) = all_valid
     [ipc_validate_text ''progress summary'' summary,
      (if 1000 < completed then Err (IpcInvalid ''progress completed_millis must be at most 1000'')
       else Ok ())]"
| "message_validate (Artifact reference description) = all_valid
     [ipc_validate_text ''artifact reference'' reference,
      ipc_validate_text ''artifact description'' description]"
| "message_validate (ReviewRequest subject instructions) = all_valid
     [ipc_validate_text ''review subject'' subject,
      ipc_validate_text ''review instructions'' instructions]"
| "message_validate (Warning subject message) = all_valid
     [ipc_validate_text ''warning subject'' subject, ipc_validate_text ''warning message'' message]"
| "message_validate (Handoff summary) = ipc_validate_text ''handoff summary'' summary"
| "message_validate (ContractUpdate subject revision v) = all_valid
     [ipc_validate_text ''contract subject'' subject,
      ipc_validate_text ''contract revision'' revision, ipc_validate_text ''contract value'' v]"
| "message_validate (OwnershipRequest resource reason) = all_valid
     [ipc_validate_text ''ownership resource'' resource, ipc_validate_text ''ownership reason'' reason]"

fun provenance_source :: "ipc_provenance \<Rightarrow> string option" where
  "provenance_source (FromExternal s) = Some s"
| "provenance_source (FromRemoteAgent s) = Some s"
| "provenance_source (FromWebUntrusted s) = Some s"
| "provenance_source (FromMcpMetadata s) = Some s"
| "provenance_source (FromMcpResult s) = Some s"
| "provenance_source _ = None"

definition envelope_validate :: "ipc_envelope \<Rightarrow> (unit, ipc_error) result" where
  "envelope_validate e =
     (if MAX_CAUSAL_EVENTS < length (env_causal e)
      then Err (IpcInvalid (''at most '' @ show_nat MAX_CAUSAL_EVENTS @ '' causal events are supported''))
      else if IPC_MAX_INPUT_ORIGINS < length (env_origins e)
      then Err (IpcInvalid (''at most '' @ show_nat IPC_MAX_INPUT_ORIGINS
             @ '' input origins are supported''))
      else and_then (case provenance_source (env_provenance e) of
             Some source \<Rightarrow> ipc_validate_text ''provenance source'' source
           | None \<Rightarrow> Ok ()) (\<lambda>_.
         message_validate (env_payload e)))"

section \<open>Encoding\<close>

definition ipc_write_string :: "string \<Rightarrow> ipc_error writer" where
  "ipc_write_string v =
     (if IPC_MAX_STRING_BYTES < length v then Err (IpcTooLarge (length v) IPC_MAX_STRING_BYTES)
      else write_seq [write_u32 (of_nat (length v)), write_bytes v])"

definition ipc_write_optional_string :: "string option \<Rightarrow> ipc_error writer" where
  "ipc_write_optional_string v = write_option ipc_write_string v"

definition ipc_write_string_list :: "string list \<Rightarrow> ipc_error writer" where
  "ipc_write_string_list vs =
     (if IPC_MAX_LIST_ITEMS < length vs
      then Err (IpcInvalid (''list has '' @ show_nat (length vs) @ '' entries, maximum is ''
             @ show_nat IPC_MAX_LIST_ITEMS))
      else write_counted ipc_write_string vs)"

fun message_fields :: "ipc_message \<Rightarrow> ipc_error writer list" where
  "message_fields (Question subject why) =
     [write_u8 0, ipc_write_string subject, ipc_write_string why]"
| "message_fields (Answer subject v revision evidence) =
     [write_u8 1, ipc_write_string subject, ipc_write_string v, ipc_write_optional_string revision,
      ipc_write_string_list evidence]"
| "message_fields (AssumptionMsg subject normalized claim evidence) =
     [write_u8 2, ipc_write_string subject, ipc_write_string normalized, ipc_write_string claim,
      ipc_write_string_list evidence]"
| "message_fields (Decision subject v rationale) =
     [write_u8 3, ipc_write_string subject, ipc_write_string v, ipc_write_string rationale]"
| "message_fields (Conflict subject left right affected) =
     [write_u8 4, ipc_write_string subject, ipc_write_string left, ipc_write_string right,
      ipc_write_string_list affected]"
| "message_fields (BlockedMsg reason) = [write_u8 5, ipc_write_string reason]"
| "message_fields (ProgressMsg summary completed) =
     [write_u8 6, ipc_write_string summary, write_u16 completed]"
| "message_fields (Artifact reference description) =
     [write_u8 7, ipc_write_string reference, ipc_write_string description]"
| "message_fields (ReviewRequest subject instructions) =
     [write_u8 8, ipc_write_string subject, ipc_write_string instructions]"
| "message_fields (Warning subject message) =
     [write_u8 9, ipc_write_string subject, ipc_write_string message]"
| "message_fields (Handoff summary) = [write_u8 10, ipc_write_string summary]"
| "message_fields (ContractUpdate subject revision v) =
     [write_u8 11, ipc_write_string subject, ipc_write_string revision, ipc_write_string v]"
| "message_fields (OwnershipRequest resource reason) =
     [write_u8 12, ipc_write_string resource, ipc_write_string reason]"

definition message_encode :: "ipc_message \<Rightarrow> ipc_error writer" where
  "message_encode m = write_seq (message_fields m)"

fun write_provenance :: "ipc_provenance \<Rightarrow> ipc_error writer" where
  "write_provenance FromRuntime = write_u8 0"
| "write_provenance FromAgent = write_u8 1"
| "write_provenance FromUser = write_u8 2"
| "write_provenance (FromExternal s) = write_seq [write_u8 3, ipc_write_string s]"
| "write_provenance (FromRemoteAgent s) = write_seq [write_u8 4, ipc_write_string s]"
| "write_provenance (FromWebUntrusted s) = write_seq [write_u8 5, ipc_write_string s]"
| "write_provenance (FromMcpMetadata s) = write_seq [write_u8 6, ipc_write_string s]"
| "write_provenance (FromMcpResult s) = write_seq [write_u8 7, ipc_write_string s]"
| "write_provenance FromTrustedProject = write_u8 8"

definition envelope_encode :: "ipc_envelope \<Rightarrow> ipc_error writer" where
  "envelope_encode e =
     and_then (envelope_validate e) (\<lambda>_.
       write_bounded MAX_ENVELOPE_BYTES (\<lambda>n. IpcTooLarge n MAX_ENVELOPE_BYTES)
         (write_seq [write_u64 (env_id e), write_u64 (env_run e),
            write_option write_u64 (env_task e), write_u64 (env_sender e),
            write_u64 (env_recipient e), write_counted write_u64 (env_causal e),
            write_provenance (env_provenance e),
            write_counted (\<lambda>t. write_u8 (trust_tag t)) (env_origins e),
            message_encode (env_payload e)]))"

section \<open>Decoding\<close>

definition ipc_take :: "nat \<Rightarrow> (u8 list, ipc_error) reader" where
  "ipc_take = cursor_take (IpcInvalidEncoding ''length overflow'')
     (IpcInvalidEncoding ''unexpected end of IPC payload'')"

abbreviation "ipc_u8 \<equiv> read_u8 ipc_take"
abbreviation "ipc_u16 \<equiv> read_u16 ipc_take"
abbreviation "ipc_u64 \<equiv> read_u64 ipc_take"

definition ipc_string :: "(string, ipc_error) reader" where
  "ipc_string = read_sized (read_u32 ipc_take) IPC_MAX_STRING_BYTES
     (\<lambda>n. IpcTooLarge n IPC_MAX_STRING_BYTES)
     (read_utf8 ipc_take (IpcInvalidEncoding ''string is not UTF-8''))"

definition ipc_optional_string :: "(string option, ipc_error) reader" where
  "ipc_optional_string = read_option ipc_u8
     (\<lambda>tag. IpcInvalidEncoding (''unknown optional string tag '' @ show_nat (unat tag))) ipc_string"

definition ipc_string_list :: "(string list, ipc_error) reader" where
  "ipc_string_list = read_counted ipc_u16 IPC_MAX_LIST_ITEMS
     (\<lambda>n. IpcInvalidEncoding (''list count '' @ show_nat n @ '' exceeds '' @ show_nat IPC_MAX_LIST_ITEMS))
     ipc_string"

definition ipc_decode_trust :: "u8 \<Rightarrow> (trust_origin, ipc_error) result" where
  "ipc_decode_trust tag = ok_or (trust_of_tag tag)
     (IpcInvalidEncoding (''unknown trust origin tag '' @ show_nat (unat tag)))"

definition read_message :: "(ipc_message, ipc_error) reader" where
  "read_message = rd_bind ipc_u8 (\<lambda>tag.
     if tag = 0 then rd_bind ipc_string (\<lambda>a. rd_bind ipc_string (\<lambda>b. rd_return (Question a b)))
     else if tag = 1 then rd_bind ipc_string (\<lambda>a. rd_bind ipc_string (\<lambda>b.
       rd_bind ipc_optional_string (\<lambda>c. rd_bind ipc_string_list (\<lambda>d. rd_return (Answer a b c d)))))
     else if tag = 2 then rd_bind ipc_string (\<lambda>a. rd_bind ipc_string (\<lambda>b.
       rd_bind ipc_string (\<lambda>c. rd_bind ipc_string_list (\<lambda>d. rd_return (AssumptionMsg a b c d)))))
     else if tag = 3 then rd_bind ipc_string (\<lambda>a. rd_bind ipc_string (\<lambda>b.
       rd_bind ipc_string (\<lambda>c. rd_return (Decision a b c))))
     else if tag = 4 then rd_bind ipc_string (\<lambda>a. rd_bind ipc_string (\<lambda>b.
       rd_bind ipc_string (\<lambda>c. rd_bind ipc_string_list (\<lambda>d. rd_return (Conflict a b c d)))))
     else if tag = 5 then rd_bind ipc_string (\<lambda>a. rd_return (BlockedMsg a))
     else if tag = 6 then rd_bind ipc_string (\<lambda>a. rd_bind ipc_u16 (\<lambda>n. rd_return (ProgressMsg a n)))
     else if tag = 7 then rd_bind ipc_string (\<lambda>a. rd_bind ipc_string (\<lambda>b. rd_return (Artifact a b)))
     else if tag = 8 then rd_bind ipc_string (\<lambda>a. rd_bind ipc_string (\<lambda>b.
       rd_return (ReviewRequest a b)))
     else if tag = 9 then rd_bind ipc_string (\<lambda>a. rd_bind ipc_string (\<lambda>b. rd_return (Warning a b)))
     else if tag = 10 then rd_bind ipc_string (\<lambda>a. rd_return (Handoff a))
     else if tag = 11 then rd_bind ipc_string (\<lambda>a. rd_bind ipc_string (\<lambda>b.
       rd_bind ipc_string (\<lambda>c. rd_return (ContractUpdate a b c))))
     else if tag = 12 then rd_bind ipc_string (\<lambda>a. rd_bind ipc_string (\<lambda>b.
       rd_return (OwnershipRequest a b)))
     else rd_fail (IpcInvalidEncoding (''unknown message tag '' @ show_nat (unat tag))))"

definition message_decode :: "(ipc_message, ipc_error) reader" where
  "message_decode = rd_bind read_message (\<lambda>m.
     rd_bind (rd_lift (message_validate m)) (\<lambda>_. rd_return m))"

definition read_provenance :: "(ipc_provenance, ipc_error) reader" where
  "read_provenance = rd_bind ipc_u8 (\<lambda>tag.
     if tag = 0 then rd_return FromRuntime
     else if tag = 1 then rd_return FromAgent
     else if tag = 2 then rd_return FromUser
     else if tag = 3 then rd_bind ipc_string (\<lambda>s. rd_return (FromExternal s))
     else if tag = 4 then rd_bind ipc_string (\<lambda>s. rd_return (FromRemoteAgent s))
     else if tag = 5 then rd_bind ipc_string (\<lambda>s. rd_return (FromWebUntrusted s))
     else if tag = 6 then rd_bind ipc_string (\<lambda>s. rd_return (FromMcpMetadata s))
     else if tag = 7 then rd_bind ipc_string (\<lambda>s. rd_return (FromMcpResult s))
     else if tag = 8 then rd_return FromTrustedProject
     else rd_fail (IpcInvalidEncoding (''unknown provenance tag '' @ show_nat (unat tag))))"

definition read_envelope :: "u16 \<Rightarrow> (ipc_envelope, ipc_error) reader" where
  "read_envelope version =
     rd_bind ipc_u64 (\<lambda>i. rd_bind ipc_u64 (\<lambda>run.
     rd_bind (read_option ipc_u8
       (\<lambda>tag. IpcInvalidEncoding (''unknown task tag '' @ show_nat (unat tag))) ipc_u64) (\<lambda>task.
     rd_bind ipc_u64 (\<lambda>sender. rd_bind ipc_u64 (\<lambda>recipient.
     rd_bind (read_counted ipc_u16 MAX_CAUSAL_EVENTS
       (\<lambda>n. IpcInvalidEncoding (''causal event count '' @ show_nat n @ '' exceeds ''
          @ show_nat MAX_CAUSAL_EVENTS)) ipc_u64) (\<lambda>causal.
     rd_bind read_provenance (\<lambda>provenance.
     rd_bind (if version = IPC_SCHEMA_VERSION
       then read_counted ipc_u16 IPC_MAX_INPUT_ORIGINS
         (\<lambda>n. IpcInvalidEncoding (''input origin count '' @ show_nat n @ '' exceeds ''
            @ show_nat IPC_MAX_INPUT_ORIGINS))
         (rd_bind ipc_u8 (\<lambda>tag. rd_lift (ipc_decode_trust tag)))
       else rd_return []) (\<lambda>origins.
     rd_bind message_decode (\<lambda>payload.
       rd_return \<lparr>env_id = i, env_run = run, env_task = task, env_sender = sender,
         env_recipient = recipient, env_causal = causal, env_provenance = provenance,
         env_origins = origins, env_payload = payload\<rparr>)))))))))"

definition envelope_decode :: "u16 \<Rightarrow> u8 list \<Rightarrow> (ipc_envelope, ipc_error) result" where
  "envelope_decode version bytes =
     (if version \<noteq> LEGACY_IPC_SCHEMA_VERSION \<and> version \<noteq> IPC_SCHEMA_VERSION
      then Err (IpcUnsupportedVersion version)
      else if MAX_ENVELOPE_BYTES < length bytes
      then Err (IpcTooLarge (length bytes) MAX_ENVELOPE_BYTES)
      else and_then (read_all (read_envelope version)
             (IpcInvalidEncoding ''trailing bytes in IPC payload'') bytes) (\<lambda>e.
           and_then (envelope_validate e) (\<lambda>_. Ok e)))"

section \<open>Mailboxes\<close>

record bounded_mailbox =
  mb_capacity :: usize
  mb_queue :: "ipc_envelope list"

definition mailbox_new :: "usize \<Rightarrow> (bounded_mailbox, ipc_error) result" where
  "mailbox_new capacity =
     (if capacity = 0 then Err MailboxCapacityZero
      else Ok \<lparr>mb_capacity = capacity, mb_queue = []\<rparr>)"

definition mailbox_len :: "bounded_mailbox \<Rightarrow> nat" where
  "mailbox_len m = length (mb_queue m)"

definition mailbox_is_full :: "bounded_mailbox \<Rightarrow> bool" where
  "mailbox_is_full m = (mb_capacity m \<le> length (mb_queue m))"

definition try_send :: "ipc_envelope \<Rightarrow> bounded_mailbox \<Rightarrow> (unit, ipc_error) result \<times> bounded_mailbox"
  where
  "try_send e m =
     (case envelope_validate e of
        Err x \<Rightarrow> (Err x, m)
      | Ok _ \<Rightarrow>
          if mailbox_is_full m then (Err (MailboxFull (env_recipient e)), m)
          else (Ok (), m\<lparr>mb_queue := mb_queue m @ [e]\<rparr>))"

definition receive :: "bounded_mailbox \<Rightarrow> ipc_envelope option \<times> bounded_mailbox" where
  "receive m = (case mb_queue m of
       [] \<Rightarrow> (None, m)
     | e # es \<Rightarrow> (Some e, m\<lparr>mb_queue := es\<rparr>))"

section \<open>The codec is a round trip\<close>

interpretation ipc: byte_taker ipc_take
  unfolding ipc_take_def by (rule byte_taker_cursor_take)

lemma ipc_wire_string:
  assumes "is_utf8 s"
  shows "wire (ipc_write_string s) ipc_string s"
proof (cases "IPC_MAX_STRING_BYTES < length s")
  case True
  then show ?thesis by (simp add: ipc_write_string_def wire_def)
next
  case False
  then show ?thesis
    unfolding ipc_write_string_def ipc_string_def
    using assms by (simp, intro ipc.wire_str32) (simp_all add: IPC_MAX_STRING_BYTES_def)
qed

lemma ipc_wire_optional_string:
  "pred_option is_utf8 v \<Longrightarrow> wire (ipc_write_optional_string v) ipc_optional_string v"
  unfolding ipc_write_optional_string_def ipc_optional_string_def
  by (intro wire_option ipc.wire_u8 ipc_wire_string) auto

lemma ipc_wire_string_list:
  assumes "list_all is_utf8 vs"
  shows "wire (ipc_write_string_list vs) ipc_string_list vs"
proof (cases "IPC_MAX_LIST_ITEMS < length vs")
  case True
  then show ?thesis by (simp add: ipc_write_string_list_def wire_def)
next
  case False
  then show ?thesis
    unfolding ipc_write_string_list_def ipc_string_list_def
    using assms by (simp, intro wire_counted ipc.wire_u16 ipc_wire_string)
      (auto simp: IPC_MAX_LIST_ITEMS_def list_all_iff)
qed

lemma ipc_wire_option64:
  "wire (write_option write_u64 t) (read_option ipc_u8 e ipc_u64) t"
  by (intro wire_option ipc.wire_u8 ipc.wire_u64)

lemma ipc_wire_causal:
  "length cs \<le> MAX_CAUSAL_EVENTS \<Longrightarrow>
   wire (write_counted write_u64 cs) (read_counted ipc_u16 MAX_CAUSAL_EVENTS e ipc_u64) cs"
  by (intro wire_counted ipc.wire_u16 ipc.wire_u64) (simp_all add: MAX_CAUSAL_EVENTS_def)

lemma ipc_wire_origins:
  "length ts \<le> IPC_MAX_INPUT_ORIGINS \<Longrightarrow>
   wire (write_counted (\<lambda>t. write_u8 (trust_tag t)) ts)
     (read_counted ipc_u16 IPC_MAX_INPUT_ORIGINS e
       (rd_bind ipc_u8 (\<lambda>tag. rd_lift (ipc_decode_trust tag)))) ts"
  by (intro wire_counted ipc.wire_u16 wire_decoded [OF ipc.wire_u8])
    (simp_all add: IPC_MAX_INPUT_ORIGINS_def ipc_decode_trust_def)

lemmas ipc_fields = ipc.wire_u8 [THEN wire_field] ipc.wire_u16 [THEN wire_field]
  ipc.wire_u64 [THEN wire_field] ipc_wire_option64 [THEN wire_field]
  ipc_wire_string [THEN wire_field] ipc_wire_optional_string [THEN wire_field]
  ipc_wire_string_list [THEN wire_field] ipc_wire_causal [THEN wire_field]

fun message_utf8 :: "ipc_message \<Rightarrow> bool" where
  "message_utf8 (Question a b) \<longleftrightarrow> is_utf8 a \<and> is_utf8 b"
| "message_utf8 (Answer a b c d) \<longleftrightarrow> is_utf8 a \<and> is_utf8 b \<and> pred_option is_utf8 c \<and> list_all is_utf8 d"
| "message_utf8 (AssumptionMsg a b c d) \<longleftrightarrow> is_utf8 a \<and> is_utf8 b \<and> is_utf8 c \<and> list_all is_utf8 d"
| "message_utf8 (Decision a b c) \<longleftrightarrow> is_utf8 a \<and> is_utf8 b \<and> is_utf8 c"
| "message_utf8 (Conflict a b c d) \<longleftrightarrow> is_utf8 a \<and> is_utf8 b \<and> is_utf8 c \<and> list_all is_utf8 d"
| "message_utf8 (BlockedMsg a) \<longleftrightarrow> is_utf8 a"
| "message_utf8 (ProgressMsg a n) \<longleftrightarrow> is_utf8 a"
| "message_utf8 (Artifact a b) \<longleftrightarrow> is_utf8 a \<and> is_utf8 b"
| "message_utf8 (ReviewRequest a b) \<longleftrightarrow> is_utf8 a \<and> is_utf8 b"
| "message_utf8 (Warning a b) \<longleftrightarrow> is_utf8 a \<and> is_utf8 b"
| "message_utf8 (Handoff a) \<longleftrightarrow> is_utf8 a"
| "message_utf8 (ContractUpdate a b c) \<longleftrightarrow> is_utf8 a \<and> is_utf8 b \<and> is_utf8 c"
| "message_utf8 (OwnershipRequest a b) \<longleftrightarrow> is_utf8 a \<and> is_utf8 b"

definition envelope_utf8 :: "ipc_envelope \<Rightarrow> bool" where
  "envelope_utf8 e \<longleftrightarrow> pred_option is_utf8 (provenance_source (env_provenance e)) \<and>
     message_utf8 (env_payload e)"

lemma wire_message: "message_utf8 m \<Longrightarrow> wire (message_encode m) read_message m"
  unfolding message_encode_def read_message_def
  by (cases m; simp only: message_fields.simps message_utf8.simps; (elim conjE)?;
      rule wire_field [OF ipc.wire_u8]; simp; intro ipc_fields wire_end; simp)

lemma wire_provenance:
  "pred_option is_utf8 (provenance_source p) \<Longrightarrow> wire (write_provenance p) read_provenance p"
  unfolding read_provenance_def
  by (cases p; simp)
    (rule wire_last [OF ipc.wire_u8], simp |
     rule wire_field [OF ipc.wire_u8], simp, intro ipc_fields wire_end, simp, simp)+

lemma envelope_validateD:
  assumes "envelope_validate e = Ok ()"
  shows "length (env_causal e) \<le> MAX_CAUSAL_EVENTS"
    and "length (env_origins e) \<le> IPC_MAX_INPUT_ORIGINS"
    and "message_validate (env_payload e) = Ok ()"
  using assms by (auto simp: envelope_validate_def split: if_splits)

lemma wire_message_decode:
  assumes "message_utf8 m" and "message_validate m = Ok ()"
  shows "wire (message_encode m) message_decode m"
proof (rule wireI)
  fix bs assume "message_encode m = Ok bs"
  with wire_message [OF assms(1)] have "reads read_message bs m" by (rule wireD)
  then show "reads message_decode bs m"
    unfolding message_decode_def
    by (rule reads_bind_last) (rule reads_bind_first [OF reads_lift [OF assms(2)]], rule reads_return)
qed

lemma wire_envelope:
  assumes "envelope_validate e = Ok ()" and "envelope_utf8 e"
  shows "wire (write_seq [write_u64 (env_id e), write_u64 (env_run e),
            write_option write_u64 (env_task e), write_u64 (env_sender e),
            write_u64 (env_recipient e), write_counted write_u64 (env_causal e),
            write_provenance (env_provenance e),
            write_counted (\<lambda>t. write_u8 (trust_tag t)) (env_origins e),
            message_encode (env_payload e)]) (read_envelope IPC_SCHEMA_VERSION) e"
  unfolding read_envelope_def
  using envelope_validateD [OF assms(1)] assms(2)
  by (simp add: envelope_utf8_def)
    (intro ipc_fields wire_provenance [THEN wire_field] ipc_wire_origins [THEN wire_field]
      wire_message_decode [THEN wire_field] wire_end; simp)

lemma envelope_decode_encode:
  assumes "envelope_encode e = Ok bs" and "envelope_utf8 e"
  shows "envelope_decode IPC_SCHEMA_VERSION bs = Ok e"
proof -
  from assms(1) have valid: "envelope_validate e = Ok ()"
    and w: "write_bounded MAX_ENVELOPE_BYTES (\<lambda>n. IpcTooLarge n MAX_ENVELOPE_BYTES)
      (write_seq [write_u64 (env_id e), write_u64 (env_run e),
            write_option write_u64 (env_task e), write_u64 (env_sender e),
            write_u64 (env_recipient e), write_counted write_u64 (env_causal e),
            write_provenance (env_provenance e),
            write_counted (\<lambda>t. write_u8 (trust_tag t)) (env_origins e),
            message_encode (env_payload e)]) = Ok bs"
    by (auto simp: envelope_encode_def)
  from w have "length bs \<le> MAX_ENVELOPE_BYTES" by (simp add: write_bounded_Ok)
  then show ?thesis
    using wire_read_all [OF wire_envelope [OF valid assms(2)] w,
        of "IpcInvalidEncoding ''trailing bytes in IPC payload''"] valid
    unfolding envelope_decode_def by (simp add: MAX_ENVELOPE_BYTES_def)
qed

interpretation ipc: payload_codec envelope_encode envelope_decode IPC_SCHEMA_VERSION envelope_utf8
    "\<lambda>e. e"
  by unfold_locales (rule envelope_decode_encode)

text \<open>What a decoder at the legacy version leaves out.\<close>

lemma read_envelope_legacy:
  assumes "read_envelope LEGACY_IPC_SCHEMA_VERSION c = Ok (e, c')"
  shows "env_origins e = []"
  using assms
  by (auto simp: read_envelope_def rd_bind_def rd_return_def LEGACY_IPC_SCHEMA_VERSION_def
      IPC_SCHEMA_VERSION_def split: result.splits prod.splits)

section \<open>What a mailbox delivers\<close>

text \<open>
  The histories of a mailbox: the envelopes it accepted and the ones it handed out, in order.
\<close>

inductive mailbox_history :: "usize \<Rightarrow> bounded_mailbox \<Rightarrow> ipc_envelope list \<Rightarrow> ipc_envelope list \<Rightarrow> bool"
  for capacity where
  opened: "mailbox_new capacity = Ok m \<Longrightarrow> mailbox_history capacity m [] []"
| sent: "mailbox_history capacity m ins outs \<Longrightarrow> try_send e m = (Ok (), m') \<Longrightarrow>
    mailbox_history capacity m' (ins @ [e]) outs"
| refused: "mailbox_history capacity m ins outs \<Longrightarrow> try_send e m = (Err x, m') \<Longrightarrow>
    mailbox_history capacity m' ins outs"
| received: "mailbox_history capacity m ins outs \<Longrightarrow> receive m = (Some e, m') \<Longrightarrow>
    mailbox_history capacity m' ins (outs @ [e])"
| idle: "mailbox_history capacity m ins outs \<Longrightarrow> receive m = (None, m') \<Longrightarrow>
    mailbox_history capacity m' ins outs"

lemma try_send_cases:
  "try_send e m =
     (if envelope_validate e = Ok () \<and> length (mb_queue m) < mb_capacity m
      then (Ok (), m\<lparr>mb_queue := mb_queue m @ [e]\<rparr>)
      else (case envelope_validate e of Err x \<Rightarrow> (Err x, m)
            | Ok _ \<Rightarrow> (Err (MailboxFull (env_recipient e)), m)))"
  by (auto simp: try_send_def mailbox_is_full_def split: result.split)

lemma mailbox_history_inv:
  assumes "mailbox_history capacity m ins outs"
  shows "ins = outs @ mb_queue m \<and> length (mb_queue m) \<le> capacity \<and> mb_capacity m = capacity \<and>
    (\<forall>e \<in> set ins. envelope_validate e = Ok ())"
  using assms
proof (induction rule: mailbox_history.induct)
  case (opened m)
  then show ?case by (auto simp: mailbox_new_def split: if_splits)
next
  case (sent m ins outs e m')
  then show ?case by (auto simp: try_send_cases split: if_splits result.splits)
next
  case (refused m ins outs e x m')
  then show ?case by (auto simp: try_send_cases split: if_splits result.splits)
next
  case (received m ins outs e m')
  then show ?case by (auto simp: receive_def split: list.splits)
next
  case (idle m ins outs m')
  then show ?case by (auto simp: receive_def split: list.splits)
qed

section \<open>Properties\<close>

text \<open>
  C33: an envelope survives the event log. Whatever \<open>encode\<close> accepts, of all thirteen kinds of
  message, \<open>decode\<close> reads back unchanged at the current schema version.
\<close>

theorem envelope_roundtrip:
  assumes "envelope_encode e = Ok bs" and "envelope_utf8 e"
  shows "envelope_decode IPC_SCHEMA_VERSION bs = Ok e"
  using assms(2,1) by (rule ipc.decode_encode)

text \<open>
  What \<open>decode\<close> accepts can be trusted no further than it says. From any bytes, a decoded
  envelope passes validation; a legacy one carries no input origins; and the effective trust of the
  envelope is trusted only if its provenance and every input origin are.
\<close>

theorem decoded_envelope_sound:
  assumes "envelope_decode version bs = Ok e"
  shows "envelope_validate e = Ok () \<and> (version \<in> {LEGACY_IPC_SCHEMA_VERSION, IPC_SCHEMA_VERSION}) \<and>
    (version = LEGACY_IPC_SCHEMA_VERSION \<longrightarrow> env_origins e = []) \<and>
    (is_trusted (ipc_effective_trust e) \<longleftrightarrow>
       is_trusted (provenance_trust (env_provenance e)) \<and> list_all is_trusted (env_origins e))"
proof (intro conjI impI)
  have dec: "read_all (read_envelope version)
      (IpcInvalidEncoding ''trailing bytes in IPC payload'') bytes = Ok e" if "bytes = bs" for bytes
    using assms that by (auto simp: envelope_decode_def split: if_splits)
  show "envelope_validate e = Ok ()" "version \<in> {LEGACY_IPC_SCHEMA_VERSION, IPC_SCHEMA_VERSION}"
    using assms by (auto simp: envelope_decode_def split: if_splits)
  show "env_origins e = []" if "version = LEGACY_IPC_SCHEMA_VERSION"
    using dec [OF refl] that
    by (auto simp: read_all_def dest: read_envelope_legacy split: prod.splits)
  show "is_trusted (ipc_effective_trust e) \<longleftrightarrow>
       is_trusted (provenance_trust (env_provenance e)) \<and> list_all is_trusted (env_origins e)"
    unfolding ipc_effective_trust_def using combine_trust_fold by blast
qed

text \<open>
  C34: a mailbox is a bounded queue. In every history, what was accepted is what was handed out
  followed by what waits, in order, never more than the capacity waits, and only valid envelopes
  are accepted; a valid envelope is refused exactly when the mailbox is full.
\<close>

theorem mailbox_fifo:
  assumes "mailbox_history capacity m ins outs"
  shows "ins = outs @ mb_queue m \<and> length (mb_queue m) \<le> capacity \<and>
    (\<forall>e \<in> set ins. envelope_validate e = Ok ()) \<and>
    (\<forall>e. envelope_validate e = Ok () \<longrightarrow>
       (is_ok (fst (try_send e m)) \<longleftrightarrow> length (mb_queue m) < capacity))"
  using mailbox_history_inv [OF assms] by (auto simp: try_send_cases)

section \<open>Witnesses\<close>

definition example_envelope :: ipc_envelope where
  "example_envelope = envelope_new 1 2 None 3 4 (Handoff ''done'')"

lemma example_envelope_valid: "envelope_validate example_envelope = Ok ()"
  by (simp add: example_envelope_def envelope_new_def envelope_validate_def ipc_validate_text_def
      trim_is_empty_def IPC_MAX_STRING_BYTES_def)

lemma example_envelope_encodes: "\<exists>bs. envelope_encode example_envelope = Ok bs"
  unfolding envelope_encode_def example_envelope_valid
  by (simp add: example_envelope_def envelope_new_def write_bounded_def write_seq.simps
      message_encode_def write_option_def write_counted_def ipc_write_string_def write_u8_def
      write_u16_def write_u32_def write_u64_def write_bytes_def MAX_ENVELOPE_BYTES_def
      IPC_MAX_STRING_BYTES_def)

lemma example_envelope_utf8: "envelope_utf8 example_envelope"
  by (simp add: example_envelope_def envelope_new_def envelope_utf8_def is_utf8_ascii)

theorem envelope_roundtrip_witness:
  "\<exists>bs. envelope_encode example_envelope = Ok bs \<and>
     envelope_decode IPC_SCHEMA_VERSION bs = Ok example_envelope"
  using example_envelope_encodes envelope_roundtrip [OF _ example_envelope_utf8] by blast

theorem decoded_envelope_sound_witness:
  "\<exists>bs. envelope_decode IPC_SCHEMA_VERSION bs = Ok example_envelope \<and>
     \<not> is_trusted (ipc_effective_trust example_envelope)"
proof -
  obtain bs where "envelope_encode example_envelope = Ok bs"
    using example_envelope_encodes by blast
  then have dec: "envelope_decode IPC_SCHEMA_VERSION bs = Ok example_envelope"
    by (rule envelope_decode_encode) (rule example_envelope_utf8)
  then show ?thesis
    using decoded_envelope_sound [OF dec] by (auto simp: example_envelope_def envelope_new_def)
qed

theorem mailbox_fifo_witness:
  "\<exists>m. mailbox_history 1 m [example_envelope] [] \<and> mb_queue m = [example_envelope] \<and>
     \<not> is_ok (fst (try_send example_envelope m))"
proof -
  let ?m = "\<lparr>mb_capacity = 1, mb_queue = [example_envelope]\<rparr>"
  have "mailbox_history 1 \<lparr>mb_capacity = 1, mb_queue = []\<rparr> [] []"
    by (rule mailbox_history.opened) (simp add: mailbox_new_def)
  then have "mailbox_history 1 ?m ([] @ [example_envelope]) []"
    by (rule mailbox_history.sent) (simp add: try_send_cases example_envelope_valid)
  then have hist: "mailbox_history 1 ?m [example_envelope] []" by simp
  then show ?thesis
    using mailbox_fifo [OF hist] example_envelope_valid by auto
qed

end
