(* ===== verification/Assumptions.thy ===== *)
theory Assumptions
  imports Wire
begin

text \<open>
  The crate \<^verbatim>\<open>crates/assumptions\<close>: the graph of claims agents publish, the detection of claims that
  contradict each other, and the replay of the graph from its transitions. \<open>str::to_lowercase\<close>,
  whose Unicode tables are not part of the repository, is the argument \<open>lower\<close> of the functions
  that normalise; nothing is assumed about it. The identifiers \<open>ConflictId::new\<close> gives during one
  publication are the argument \<open>new_id\<close>.
\<close>

section \<open>Claims and conflicts\<close>

definition LEGACY_ASSUMPTION_SCHEMA_VERSION :: u16 where "LEGACY_ASSUMPTION_SCHEMA_VERSION = 1"
definition ASSUMPTION_SCHEMA_VERSION :: u16 where "ASSUMPTION_SCHEMA_VERSION = 2"
definition ASM_MAX_TEXT_BYTES :: nat where "ASM_MAX_TEXT_BYTES = 64 * 1024"
definition ASM_MAX_LIST_ITEMS :: nat where "ASM_MAX_LIST_ITEMS = 64"
definition ASM_MAX_INPUT_ORIGINS :: nat where "ASM_MAX_INPUT_ORIGINS = 32"
definition ASM_MAX_PAYLOAD_BYTES :: nat where "ASM_MAX_PAYLOAD_BYTES = 1024 * 1024"

datatype assumption_state = AsmActive | AsmConflicted | AsmInvalidated | AsmResolved

record assumption =
  asm_id :: assumption_id
  asm_run :: run_id
  asm_owner :: agent_id
  asm_subject :: string
  asm_value :: string
  asm_claim :: string
  asm_evidence :: "string list"
  asm_dependencies :: "string list"
  asm_revision :: u64
  asm_confidence_millis :: u16
  asm_state :: assumption_state
  asm_trust :: trust_origin
  asm_origins :: "trust_origin list"

record assumption_conflict =
  conflict_ident :: conflict_id
  conflict_subject :: string
  conflict_left :: assumption_id
  conflict_right :: assumption_id
  conflict_agents :: "agent_id list"

datatype assumption_transition =
    AsmCreated assumption
  | AsmStateChanged assumption_id assumption_state
  | AsmConflictDetected assumption_conflict

datatype assumption_error =
    AsmInvalid string
  | AsmInvalidEncoding string
  | AsmUnsupportedVersion u16
  | AsmTooLarge usize usize
  | AsmDuplicate assumption_id
  | AsmDuplicateConflict conflict_id
  | AsmUnknown assumption_id
  | AsmTrustUpgrade assumption_id

record assumption_publication =
  pub_assumption :: assumption
  pub_conflicts :: "assumption_conflict list"
  pub_transitions :: "assumption_transition list"

text \<open>A \<open>BTreeSet\<close> is a \<open>BTreeMap\<close> without values.\<close>

record assumption_graph =
  graph_assumptions :: "(assumption_id, assumption) bmap"
  graph_conflicts :: "(conflict_id, assumption_conflict) bmap"
  subject_index :: "(string, (assumption_id, unit) bmap) bmap"

definition graph_new :: assumption_graph where
  "graph_new = \<lparr>graph_assumptions = bm_empty, graph_conflicts = bm_empty, subject_index = bm_empty\<rparr>"

section \<open>Normal forms\<close>

definition normalize_text :: "(string \<Rightarrow> string) \<Rightarrow> string \<Rightarrow> string" where
  "normalize_text lower s = lower (join_with '' '' (split_whitespace s))"

text \<open>\<open>Assumption::new\<close>; the fresh identifier is an argument.\<close>

definition assumption_new :: "(string \<Rightarrow> string) \<Rightarrow> assumption_id \<Rightarrow> run_id \<Rightarrow> agent_id \<Rightarrow> string
    \<Rightarrow> string \<Rightarrow> string \<Rightarrow> assumption" where
  "assumption_new lower i run owner subject v claim =
     \<lparr>asm_id = i, asm_run = run, asm_owner = owner, asm_subject = normalize_text lower subject,
      asm_value = normalize_text lower v, asm_claim = claim, asm_evidence = [],
      asm_dependencies = [], asm_revision = 1, asm_confidence_millis = 1000,
      asm_state = AsmActive, asm_trust = Generated, asm_origins = []\<rparr>"

definition asm_effective_trust :: "assumption \<Rightarrow> trust_origin" where
  "asm_effective_trust a = foldl combine_trust (asm_trust a) (asm_origins a)"

section \<open>Validation\<close>

definition asm_validate_text :: "string \<Rightarrow> string \<Rightarrow> (unit, assumption_error) result" where
  "asm_validate_text field v =
     (if trim_is_empty v then Err (AsmInvalid (field @ '' must not be empty''))
      else if ASM_MAX_TEXT_BYTES < length v then Err (AsmTooLarge (length v) ASM_MAX_TEXT_BYTES)
      else Ok ())"

definition asm_validate_text_list :: "string \<Rightarrow> string list \<Rightarrow> (unit, assumption_error) result" where
  "asm_validate_text_list field vs =
     (if ASM_MAX_LIST_ITEMS < length vs then Err (AsmInvalid (field @ '' has too many entries''))
      else try_all (asm_validate_text field) vs)"

definition assumption_validate :: "assumption \<Rightarrow> (unit, assumption_error) result" where
  "assumption_validate a =
     (if asm_run a = 0 \<or> asm_owner a = 0
      then Err (AsmInvalid ''run and owner IDs must be non-zero'')
      else and_then (asm_validate_text ''subject'' (asm_subject a)) (\<lambda>_.
        and_then (asm_validate_text ''normalized value'' (asm_value a)) (\<lambda>_.
        and_then (asm_validate_text ''claim'' (asm_claim a)) (\<lambda>_.
        and_then (asm_validate_text_list ''evidence'' (asm_evidence a)) (\<lambda>_.
        and_then (asm_validate_text_list ''dependencies'' (asm_dependencies a)) (\<lambda>_.
          if asm_revision a = 0 then Err (AsmInvalid ''revision must be greater than zero'')
          else if 1000 < asm_confidence_millis a
          then Err (AsmInvalid ''confidence_millis must be at most 1000'')
          else if ASM_MAX_INPUT_ORIGINS < length (asm_origins a)
          then Err (AsmTooLarge (length (asm_origins a)) ASM_MAX_INPUT_ORIGINS)
          else Ok ()))))))"

section \<open>Transitions\<close>

definition index_insert :: "assumption \<Rightarrow> assumption_graph \<Rightarrow> assumption_graph" where
  "index_insert a g =
     (let m = bm_or_insert (asm_subject a) bm_empty (subject_index g);
          ids = (case bm_get m (asm_subject a) of Some ids \<Rightarrow> ids | None \<Rightarrow> bm_empty)
      in g\<lparr>subject_index := bm_insert (asm_subject a) (bm_insert (asm_id a) () ids) m\<rparr>)"

definition graph_insert :: "assumption \<Rightarrow> assumption_graph \<Rightarrow> assumption_graph" where
  "graph_insert a g =
     index_insert a (g\<lparr>graph_assumptions := bm_insert (asm_id a) a (graph_assumptions g)\<rparr>)"

fun asm_apply :: "assumption_transition \<Rightarrow> assumption_graph
    \<Rightarrow> (unit, assumption_error) result \<times> assumption_graph" where
  "asm_apply (AsmCreated a) g =
     (case assumption_validate a of
        Err e \<Rightarrow> (Err e, g)
      | Ok _ \<Rightarrow>
          if asm_effective_trust a \<noteq> asm_trust a then (Err (AsmTrustUpgrade (asm_id a)), g)
          else if bm_contains_key (graph_assumptions g) (asm_id a)
          then (Err (AsmDuplicate (asm_id a)), g)
          else (Ok (), graph_insert a g))"
| "asm_apply (AsmStateChanged i st) g =
     (case bm_get (graph_assumptions g) i of
        None \<Rightarrow> (Err (AsmUnknown i), g)
      | Some a \<Rightarrow> (Ok (), g\<lparr>graph_assumptions :=
          bm_insert i (a\<lparr>asm_state := st\<rparr>) (graph_assumptions g)\<rparr>))"
| "asm_apply (AsmConflictDetected c) g =
     (if \<not> bm_contains_key (graph_assumptions g) (conflict_left c)
      then (Err (AsmUnknown (conflict_left c)), g)
      else if \<not> bm_contains_key (graph_assumptions g) (conflict_right c)
      then (Err (AsmUnknown (conflict_right c)), g)
      else
        let known = bm_contains_key (graph_conflicts g) (conflict_ident c);
            g' = g\<lparr>graph_conflicts := bm_insert (conflict_ident c) c (graph_conflicts g)\<rparr>
        in if known then (Err (AsmDuplicateConflict (conflict_ident c)), g') else (Ok (), g'))"

section \<open>Publication\<close>

text \<open>The live claims about the same subject with another value, in the order of the index.\<close>

definition contradicting :: "assumption \<Rightarrow> assumption_graph \<Rightarrow> assumption list" where
  "contradicting a g =
     filter (\<lambda>e. asm_value e \<noteq> asm_value a \<and> (asm_state e = AsmActive \<or> asm_state e = AsmConflicted))
       (List.map_filter (bm_get (graph_assumptions g))
         (case bm_get (subject_index g) (asm_subject a) of None \<Rightarrow> [] | Some ids \<Rightarrow> bm_keys ids))"

definition conflict_between :: "conflict_id \<Rightarrow> assumption \<Rightarrow> assumption \<Rightarrow> assumption_conflict" where
  "conflict_between i a e =
     \<lparr>conflict_ident = i, conflict_subject = asm_subject a,
      conflict_left = (if asm_id e < asm_id a then asm_id e else asm_id a),
      conflict_right = (if asm_id e < asm_id a then asm_id a else asm_id e),
      conflict_agents = remdups_adj (sort [asm_owner e, asm_owner a])\<rparr>"

definition mark_conflicted :: "assumption_id \<Rightarrow> assumption_graph \<Rightarrow> assumption_graph" where
  "mark_conflicted i g = (case bm_get (graph_assumptions g) i of
       None \<Rightarrow> g
     | Some stored \<Rightarrow> g\<lparr>graph_assumptions :=
         bm_insert i (stored\<lparr>asm_state := AsmConflicted\<rparr>) (graph_assumptions g)\<rparr>)"

definition add_conflict :: "assumption_conflict \<Rightarrow> assumption_graph \<Rightarrow> assumption_graph" where
  "add_conflict c g = g\<lparr>graph_conflicts := bm_insert (conflict_ident c) c (graph_conflicts g)\<rparr>"

text \<open>The loop over the contradicting claims; \<open>n\<close> counts the identifiers already taken.\<close>

fun publish_conflicts :: "(nat \<Rightarrow> conflict_id) \<Rightarrow> assumption \<Rightarrow> nat \<Rightarrow> assumption list
    \<Rightarrow> assumption_graph \<Rightarrow> assumption_conflict list \<times> assumption_transition list \<times> assumption_graph"
  where
  "publish_conflicts new_id a n [] g = ([], [], g)"
| "publish_conflicts new_id a n (e # es) g =
     (let c = conflict_between (new_id n) a e;
          (cs, ts, g') = publish_conflicts new_id a (Suc n) es (add_conflict c (mark_conflicted (asm_id e) g))
      in (c # cs, AsmStateChanged (asm_id e) AsmConflicted # AsmConflictDetected c # ts, g'))"

definition publish :: "(string \<Rightarrow> string) \<Rightarrow> (nat \<Rightarrow> conflict_id) \<Rightarrow> assumption \<Rightarrow> assumption_graph
    \<Rightarrow> (assumption_publication, assumption_error) result \<times> assumption_graph" where
  "publish lower new_id a g =
     (let a = a\<lparr>asm_subject := normalize_text lower (asm_subject a),
                asm_value := normalize_text lower (asm_value a)\<rparr>;
          a = a\<lparr>asm_trust := asm_effective_trust a\<rparr>
      in case assumption_validate a of
           Err e \<Rightarrow> (Err e, g)
         | Ok _ \<Rightarrow>
             if bm_contains_key (graph_assumptions g) (asm_id a) then (Err (AsmDuplicate (asm_id a)), g)
             else
               let es = contradicting a g;
                   a = (if es = [] then a else a\<lparr>asm_state := AsmConflicted\<rparr>);
                   (cs, ts, g') = publish_conflicts new_id a 0 es (graph_insert a g)
               in (Ok \<lparr>pub_assumption = a, pub_conflicts = cs, pub_transitions = AsmCreated a # ts\<rparr>, g'))"

section \<open>The codec\<close>

definition asm_take :: "nat \<Rightarrow> (u8 list, assumption_error) reader" where
  "asm_take = cursor_take (AsmInvalidEncoding ''length overflow'')
     (AsmInvalidEncoding ''unexpected end of assumption payload'')"

abbreviation "asm_u8 \<equiv> read_u8 asm_take"
abbreviation "asm_u16 \<equiv> read_u16 asm_take"
abbreviation "asm_u64 \<equiv> read_u64 asm_take"

definition asm_string :: "(string, assumption_error) reader" where
  "asm_string = read_sized (read_u64 asm_take) ASM_MAX_TEXT_BYTES
     (\<lambda>n. AsmTooLarge n ASM_MAX_TEXT_BYTES)
     (read_utf8 asm_take (AsmInvalidEncoding ''string is not UTF-8''))"

definition asm_string_list :: "(string list, assumption_error) reader" where
  "asm_string_list = read_counted asm_u16 ASM_MAX_LIST_ITEMS
     (\<lambda>_. AsmInvalidEncoding ''list has too many entries'') asm_string"

definition asm_write_string :: "string \<Rightarrow> assumption_error writer" where
  "asm_write_string v =
     (if ASM_MAX_TEXT_BYTES < length v then Err (AsmTooLarge (length v) ASM_MAX_TEXT_BYTES)
      else write_seq [write_u64 (of_nat (length v)), write_bytes v])"

definition asm_write_string_list :: "string list \<Rightarrow> assumption_error writer" where
  "asm_write_string_list vs =
     (if ASM_MAX_LIST_ITEMS < length vs then Err (AsmInvalid ''list has too many entries'')
      else write_counted asm_write_string vs)"

fun state_tag :: "assumption_state \<Rightarrow> u8" where
  "state_tag AsmActive = 0"
| "state_tag AsmConflicted = 1"
| "state_tag AsmInvalidated = 2"
| "state_tag AsmResolved = 3"

definition decode_state :: "u8 \<Rightarrow> (assumption_state, assumption_error) result" where
  "decode_state tag =
     (if tag = 0 then Ok AsmActive
      else if tag = 1 then Ok AsmConflicted
      else if tag = 2 then Ok AsmInvalidated
      else if tag = 3 then Ok AsmResolved
      else Err (AsmInvalidEncoding (''unknown state tag '' @ show_nat (unat tag))))"

definition asm_decode_trust :: "u8 \<Rightarrow> (trust_origin, assumption_error) result" where
  "asm_decode_trust tag = ok_or (trust_of_tag tag)
     (AsmInvalidEncoding (''unknown trust origin tag '' @ show_nat (unat tag)))"

definition encode_assumption :: "assumption \<Rightarrow> assumption_error writer" where
  "encode_assumption a = and_then (assumption_validate a) (\<lambda>_. write_seq
     [write_u64 (asm_id a), write_u64 (asm_run a), write_u64 (asm_owner a),
      asm_write_string (asm_subject a), asm_write_string (asm_value a),
      asm_write_string (asm_claim a), asm_write_string_list (asm_evidence a),
      asm_write_string_list (asm_dependencies a), write_u64 (asm_revision a),
      write_u16 (asm_confidence_millis a), write_u8 (state_tag (asm_state a)),
      write_u8 (trust_tag (asm_trust a)),
      write_counted (\<lambda>t. write_u8 (trust_tag t)) (asm_origins a)])"

definition decode_assumption :: "bool \<Rightarrow> (assumption, assumption_error) reader" where
  "decode_assumption has_trust =
     rd_bind asm_u64 (\<lambda>i. rd_bind asm_u64 (\<lambda>run. rd_bind asm_u64 (\<lambda>owner.
     rd_bind asm_string (\<lambda>subject. rd_bind asm_string (\<lambda>v. rd_bind asm_string (\<lambda>claim.
     rd_bind asm_string_list (\<lambda>evidence. rd_bind asm_string_list (\<lambda>dependencies.
     rd_bind asm_u64 (\<lambda>revision. rd_bind asm_u16 (\<lambda>confidence.
     rd_bind (rd_bind asm_u8 (\<lambda>tag. rd_lift (decode_state tag))) (\<lambda>st.
     rd_bind (if has_trust then rd_bind asm_u8 (\<lambda>tag. rd_lift (asm_decode_trust tag))
              else rd_return Generated) (\<lambda>trust.
     rd_bind (if has_trust then read_counted asm_u16 ASM_MAX_INPUT_ORIGINS
                (\<lambda>_. AsmInvalidEncoding ''too many input origins'')
                (rd_bind asm_u8 (\<lambda>tag. rd_lift (asm_decode_trust tag)))
              else rd_return []) (\<lambda>origins.
       let a = \<lparr>asm_id = i, asm_run = run, asm_owner = owner, asm_subject = subject, asm_value = v,
         asm_claim = claim, asm_evidence = evidence, asm_dependencies = dependencies,
         asm_revision = revision, asm_confidence_millis = confidence, asm_state = st,
         asm_trust = trust, asm_origins = origins\<rparr>
       in rd_bind (rd_lift (assumption_validate a)) (\<lambda>_. rd_return a))))))))))))))"

definition encode_conflict :: "assumption_conflict \<Rightarrow> assumption_error writer" where
  "encode_conflict c =
     and_then (asm_validate_text ''conflict subject'' (conflict_subject c)) (\<lambda>_.
       if ASM_MAX_LIST_ITEMS < length (conflict_agents c)
       then Err (AsmInvalid ''too many affected agents'')
       else write_seq [write_u64 (conflict_ident c), asm_write_string (conflict_subject c),
         write_u64 (conflict_left c), write_u64 (conflict_right c),
         write_counted write_u64 (conflict_agents c)])"

definition decode_conflict :: "(assumption_conflict, assumption_error) reader" where
  "decode_conflict =
     rd_bind asm_u64 (\<lambda>i. rd_bind asm_string (\<lambda>subject. rd_bind asm_u64 (\<lambda>left.
     rd_bind asm_u64 (\<lambda>right.
     rd_bind (read_counted asm_u16 ASM_MAX_LIST_ITEMS
       (\<lambda>_. AsmInvalidEncoding ''too many affected agents'') asm_u64) (\<lambda>agents.
       let c = \<lparr>conflict_ident = i, conflict_subject = subject, conflict_left = left,
         conflict_right = right, conflict_agents = agents\<rparr>
       in rd_bind (rd_lift (asm_validate_text ''conflict subject'' subject)) (\<lambda>_. rd_return c))))))"

definition asm_encode_transition :: "assumption_transition \<Rightarrow> assumption_error writer" where
  "asm_encode_transition t =
     write_bounded ASM_MAX_PAYLOAD_BYTES (\<lambda>n. AsmTooLarge n ASM_MAX_PAYLOAD_BYTES)
       (case t of
          AsmCreated a \<Rightarrow> write_seq [write_u8 0, encode_assumption a]
        | AsmStateChanged i st \<Rightarrow> write_seq [write_u8 1, write_u64 i, write_u8 (state_tag st)]
        | AsmConflictDetected c \<Rightarrow> write_seq [write_u8 2, encode_conflict c])"

definition asm_read_transition :: "bool \<Rightarrow> (assumption_transition, assumption_error) reader" where
  "asm_read_transition has_trust = rd_bind asm_u8 (\<lambda>tag.
     if tag = 0 then rd_bind (decode_assumption has_trust) (\<lambda>a. rd_return (AsmCreated a))
     else if tag = 1 then rd_bind asm_u64 (\<lambda>i.
       rd_bind (rd_bind asm_u8 (\<lambda>tag. rd_lift (decode_state tag))) (\<lambda>st.
         rd_return (AsmStateChanged i st)))
     else if tag = 2 then rd_bind decode_conflict (\<lambda>c. rd_return (AsmConflictDetected c))
     else rd_fail (AsmInvalidEncoding (''unknown transition tag '' @ show_nat (unat tag))))"

definition asm_decode_transition :: "u16 \<Rightarrow> u8 list
    \<Rightarrow> (assumption_transition, assumption_error) result" where
  "asm_decode_transition version bytes =
     (if version \<noteq> LEGACY_ASSUMPTION_SCHEMA_VERSION \<and> version \<noteq> ASSUMPTION_SCHEMA_VERSION
      then Err (AsmUnsupportedVersion version)
      else if ASM_MAX_PAYLOAD_BYTES < length bytes
      then Err (AsmTooLarge (length bytes) ASM_MAX_PAYLOAD_BYTES)
      else read_all (asm_read_transition (version = ASSUMPTION_SCHEMA_VERSION))
             (AsmInvalidEncoding ''trailing bytes'') bytes)"

fun select_assumption :: "event_kind \<Rightarrow> (u16 \<times> u8 list) option" where
  "select_assumption (AssumptionTransition v p) = Some (v, p)"
| "select_assumption _ = None"

definition graph_from_events :: "event list \<Rightarrow> (assumption_graph, assumption_error) result" where
  "graph_from_events evs =
     replay select_assumption asm_decode_transition (\<lambda>t g. commit (asm_apply t g)) graph_new evs"

section \<open>The codec is a round trip\<close>

interpretation asm: byte_taker asm_take
  unfolding asm_take_def by (rule byte_taker_cursor_take)

lemma asm_wire_string:
  assumes "is_utf8 s"
  shows "wire (asm_write_string s) asm_string s"
proof (cases "ASM_MAX_TEXT_BYTES < length s")
  case True
  then show ?thesis by (simp add: asm_write_string_def wire_def)
next
  case False
  then show ?thesis
    unfolding asm_write_string_def asm_string_def
    using assms by (simp, intro asm.wire_str64) (simp_all add: ASM_MAX_TEXT_BYTES_def)
qed

lemma asm_wire_string_list:
  assumes "list_all is_utf8 vs"
  shows "wire (asm_write_string_list vs) asm_string_list vs"
proof (cases "ASM_MAX_LIST_ITEMS < length vs")
  case True
  then show ?thesis by (simp add: asm_write_string_list_def wire_def)
next
  case False
  then show ?thesis
    unfolding asm_write_string_list_def asm_string_list_def
    using assms by (simp, intro wire_counted asm.wire_u16 asm_wire_string)
      (auto simp: ASM_MAX_LIST_ITEMS_def list_all_iff)
qed

lemma asm_wire_state:
  "wire (write_u8 (state_tag st)) (rd_bind asm_u8 (\<lambda>tag. rd_lift (decode_state tag))) st"
  by (rule wire_decoded [OF asm.wire_u8]) (cases st; simp add: decode_state_def)

lemma asm_wire_trust:
  "wire (write_u8 (trust_tag t)) (rd_bind asm_u8 (\<lambda>tag. rd_lift (asm_decode_trust tag))) t"
  by (rule wire_decoded [OF asm.wire_u8]) (simp add: asm_decode_trust_def)

lemma asm_wire_origins:
  "length ts \<le> ASM_MAX_INPUT_ORIGINS \<Longrightarrow>
   wire (write_counted (\<lambda>t. write_u8 (trust_tag t)) ts)
     (read_counted asm_u16 ASM_MAX_INPUT_ORIGINS e
       (rd_bind asm_u8 (\<lambda>tag. rd_lift (asm_decode_trust tag)))) ts"
  by (intro wire_counted asm.wire_u16 asm_wire_trust) (simp_all add: ASM_MAX_INPUT_ORIGINS_def)

lemma asm_wire_agents:
  "length cs \<le> ASM_MAX_LIST_ITEMS \<Longrightarrow>
   wire (write_counted write_u64 cs) (read_counted asm_u16 ASM_MAX_LIST_ITEMS e asm_u64) cs"
  by (intro wire_counted asm.wire_u16 asm.wire_u64) (simp_all add: ASM_MAX_LIST_ITEMS_def)

lemmas asm_fields = asm.wire_u8 [THEN wire_field] asm.wire_u16 [THEN wire_field]
  asm.wire_u64 [THEN wire_field] asm_wire_string [THEN wire_field]
  asm_wire_string_list [THEN wire_field] asm_wire_state [THEN wire_field]
  asm_wire_trust [THEN wire_field] asm_wire_origins [THEN wire_field]
  asm_wire_agents [THEN wire_field]

fun transition_is_utf8 :: "assumption_transition \<Rightarrow> bool" where
  "transition_is_utf8 (AsmCreated a) \<longleftrightarrow> is_utf8 (asm_subject a) \<and> is_utf8 (asm_value a) \<and>
     is_utf8 (asm_claim a) \<and> list_all is_utf8 (asm_evidence a) \<and> list_all is_utf8 (asm_dependencies a)"
| "transition_is_utf8 (AsmStateChanged i st) \<longleftrightarrow> True"
| "transition_is_utf8 (AsmConflictDetected c) \<longleftrightarrow> is_utf8 (conflict_subject c)"

lemma assumption_validate_origins:
  "assumption_validate a = Ok () \<Longrightarrow> length (asm_origins a) \<le> ASM_MAX_INPUT_ORIGINS"
  by (auto simp: assumption_validate_def split: if_splits)

lemma assumption_eta:
  "\<lparr>asm_id = asm_id a, asm_run = asm_run a, asm_owner = asm_owner a, asm_subject = asm_subject a,
     asm_value = asm_value a, asm_claim = asm_claim a, asm_evidence = asm_evidence a,
     asm_dependencies = asm_dependencies a, asm_revision = asm_revision a,
     asm_confidence_millis = asm_confidence_millis a, asm_state = asm_state a,
     asm_trust = asm_trust a, asm_origins = asm_origins a\<rparr> = a"
  by simp

lemma wire_assumption:
  assumes "transition_is_utf8 (AsmCreated a)"
  shows "wire (encode_assumption a) (decode_assumption True) a"
proof (cases "assumption_validate a")
  case (Ok u)
  then have valid: "assumption_validate a = Ok ()" by simp
  show ?thesis
    unfolding encode_assumption_def decode_assumption_def
    using assms valid assumption_validate_origins [OF valid]
    by (simp add: Let_def) (intro asm_fields wire_check wire_end; simp add: assumption_eta)
next
  case (Err e)
  then show ?thesis by (simp add: encode_assumption_def wire_def)
qed

lemma wire_conflict:
  assumes "is_utf8 (conflict_subject c)"
  shows "wire (encode_conflict c) decode_conflict c"
proof (cases "asm_validate_text ''conflict subject'' (conflict_subject c) = Ok () \<and>
    length (conflict_agents c) \<le> ASM_MAX_LIST_ITEMS")
  case True
  then show ?thesis
    unfolding encode_conflict_def decode_conflict_def
    using assms by (simp add: Let_def) (intro asm_fields wire_check wire_end; simp)
next
  case False
  then show ?thesis
    by (cases "asm_validate_text ''conflict subject'' (conflict_subject c)")
      (auto simp: encode_conflict_def wire_def)
qed

lemma asm_wire_transition:
  assumes "transition_is_utf8 t"
  shows "wire (case t of
      AsmCreated a \<Rightarrow> write_seq [write_u8 0, encode_assumption a]
    | AsmStateChanged i st \<Rightarrow> write_seq [write_u8 1, write_u64 i, write_u8 (state_tag st)]
    | AsmConflictDetected c \<Rightarrow> write_seq [write_u8 2, encode_conflict c])
    (asm_read_transition True) t"
proof (cases t)
  case (AsmCreated a)
  show ?thesis
    unfolding asm_read_transition_def AsmCreated assumption_transition.case
    by (rule wire_field [OF asm.wire_u8])
      (use wire_assumption [OF assms [unfolded AsmCreated]] in \<open>simp add: wire_single wire_last\<close>)
next
  case (AsmStateChanged i st)
  show ?thesis
    unfolding asm_read_transition_def AsmStateChanged assumption_transition.case
    by (rule wire_field [OF asm.wire_u8]) (simp, intro asm_fields wire_end, simp)
next
  case (AsmConflictDetected c)
  have "is_utf8 (conflict_subject c)" using assms AsmConflictDetected by simp
  from wire_conflict [OF this] show ?thesis
    unfolding asm_read_transition_def AsmConflictDetected assumption_transition.case
    by (intro wire_field [OF asm.wire_u8]) (simp add: wire_single wire_last)
qed

lemma asm_decode_encode:
  assumes "transition_is_utf8 t" and "asm_encode_transition t = Ok bs"
  shows "asm_decode_transition ASSUMPTION_SCHEMA_VERSION bs = Ok t"
proof -
  have "length bs \<le> ASM_MAX_PAYLOAD_BYTES"
    using assms(2) by (simp add: asm_encode_transition_def write_bounded_Ok)
  then show ?thesis
    using wire_read_all [OF asm_wire_transition [OF assms(1)]
        assms(2) [unfolded asm_encode_transition_def]]
    by (simp add: asm_decode_transition_def ASM_MAX_PAYLOAD_BYTES_def)
qed

section \<open>The invariant of the graph\<close>

text \<open>The claims the index lists under a subject.\<close>

definition indexed :: "assumption_graph \<Rightarrow> string \<Rightarrow> assumption_id \<Rightarrow> bool" where
  "indexed g s i \<longleftrightarrow> (\<exists>ids. bm_get (subject_index g) s = Some ids \<and> bm_get ids i = Some ())"

text \<open>
  A claim stands under its identifier, is valid, is trusted no further than its inputs, and the
  index lists exactly the claims about a subject.
\<close>

definition claim_ok :: "assumption \<Rightarrow> bool" where
  "claim_ok a \<longleftrightarrow> assumption_validate a = Ok () \<and> asm_effective_trust a = asm_trust a"

definition graph_wf :: "assumption_graph \<Rightarrow> bool" where
  "graph_wf g \<longleftrightarrow>
     (\<forall>i a. bm_get (graph_assumptions g) i = Some a \<longrightarrow> asm_id a = i \<and> claim_ok a) \<and>
     (\<forall>s i. indexed g s i \<longleftrightarrow>
        (\<exists>a. bm_get (graph_assumptions g) i = Some a \<and> asm_subject a = s))"

lemma graph_wf_new: "graph_wf graph_new"
  by (simp add: graph_wf_def graph_new_def indexed_def)

lemma claim_ok_state [simp]: "claim_ok (a\<lparr>asm_state := st\<rparr>) = claim_ok a"
  by (simp add: claim_ok_def assumption_validate_def asm_effective_trust_def)

lemma graph_insert_simps [simp]:
  "graph_assumptions (graph_insert a g) = bm_insert (asm_id a) a (graph_assumptions g)"
  "graph_conflicts (graph_insert a g) = graph_conflicts g"
  "indexed (graph_insert a g) s i \<longleftrightarrow> (s = asm_subject a \<and> i = asm_id a) \<or> indexed g s i"
  by (auto simp: graph_insert_def index_insert_def indexed_def bm_get_or_insert Let_def
      split: option.splits)

lemma graph_wf_insert:
  assumes "graph_wf g" and "claim_ok a" and "bm_get (graph_assumptions g) (asm_id a) = None"
  shows "graph_wf (graph_insert a g)"
  using assms by (auto simp: graph_wf_def)

text \<open>The index does not look at the state of a claim.\<close>

lemma graph_wf_state:
  assumes "graph_wf g" and "bm_get (graph_assumptions g) i = Some a"
  shows "graph_wf (g\<lparr>graph_assumptions := bm_insert i (a\<lparr>asm_state := st\<rparr>) (graph_assumptions g)\<rparr>)"
proof -
  have "indexed (g\<lparr>graph_assumptions := m\<rparr>) s j = indexed g s j" for m s j
    by (simp add: indexed_def)
  with assms show ?thesis by (auto simp: graph_wf_def)
qed

lemma graph_wf_conflicts: "graph_wf (g\<lparr>graph_conflicts := m\<rparr>) = graph_wf g"
  by (simp add: graph_wf_def indexed_def)

lemma graph_wf_apply:
  assumes "graph_wf g"
  shows "graph_wf (snd (asm_apply t g))"
  using assms
  by (cases t) (auto simp: graph_wf_conflicts graph_wf_state bm_contains_key_def claim_ok_def Let_def
      intro!: graph_wf_insert split: result.split option.split)

interpretation asm: event_sourced_codec select_assumption asm_decode_transition
    "\<lambda>t g. commit (asm_apply t g)" graph_wf asm_encode_transition ASSUMPTION_SCHEMA_VERSION
    transition_is_utf8 "\<lambda>t. t" AssumptionTransition
proof
  show "graph_wf g \<Longrightarrow> commit (asm_apply t g) = Ok g' \<Longrightarrow> graph_wf g'" for g t g'
    using graph_wf_apply [of g t] by (simp add: commit_Ok_iff)
qed (simp_all add: asm_decode_encode)

section \<open>What a publication does\<close>

definition contradicts :: "assumption \<Rightarrow> assumption \<Rightarrow> bool" where
  "contradicts a e \<longleftrightarrow> asm_subject e = asm_subject a \<and> asm_value e \<noteq> asm_value a \<and>
     (asm_state e = AsmActive \<or> asm_state e = AsmConflicted)"

lemma set_contradicting:
  assumes "graph_wf g"
  shows "e \<in> set (contradicting a g) \<longleftrightarrow>
    (\<exists>i. bm_get (graph_assumptions g) i = Some e) \<and> contradicts a e"
proof -
  have unit: "bm_get ids i \<noteq> None \<longleftrightarrow> bm_get ids i = Some ()" for ids :: "(assumption_id, unit) bmap" and i
    by (cases "bm_get ids i") auto
  have ids: "i \<in> set (case bm_get (subject_index g) (asm_subject a) of
      None \<Rightarrow> [] | Some ids \<Rightarrow> bm_keys ids) \<longleftrightarrow> indexed g (asm_subject a) i" for i
    by (cases "bm_get (subject_index g) (asm_subject a)") (simp_all add: indexed_def bm_keys_iff unit)
  have "e \<in> set (contradicting a g) \<longleftrightarrow>
      (\<exists>i. indexed g (asm_subject a) i \<and> bm_get (graph_assumptions g) i = Some e) \<and>
      asm_value e \<noteq> asm_value a \<and> (asm_state e = AsmActive \<or> asm_state e = AsmConflicted)"
    using ids by (force simp: contradicting_def List.map_filter_def)
  also have "\<dots> \<longleftrightarrow> (\<exists>i. bm_get (graph_assumptions g) i = Some e) \<and> contradicts a e"
    using assms by (auto simp: graph_wf_def contradicts_def)
  finally show ?thesis .
qed

lemma contradicting_distinct:
  assumes "graph_wf g"
  shows "distinct (map asm_id (contradicting a g))"
proof -
  let ?ids = "case bm_get (subject_index g) (asm_subject a) of None \<Rightarrow> [] | Some ids \<Rightarrow> bm_keys ids"
  have "distinct ?ids" by (simp add: bm_keys_def bm.entries_distinct split: option.split)
  moreover have "map asm_id (List.map_filter (bm_get (graph_assumptions g)) is)
      = filter (\<lambda>i. bm_get (graph_assumptions g) i \<noteq> None) is" for "is"
    using assms by (induction "is") (auto simp: map_filter_simps graph_wf_def split: option.split)
  ultimately have "distinct (map asm_id (List.map_filter (bm_get (graph_assumptions g)) ?ids))"
    by simp
  then show ?thesis unfolding contradicting_def by (rule distinct_map_filter)
qed

lemma get_mark_conflicted:
  "bm_get (graph_assumptions (mark_conflicted i g)) j =
     map_option (\<lambda>e. if j = i then e\<lparr>asm_state := AsmConflicted\<rparr> else e) (bm_get (graph_assumptions g) j)"
  by (cases "bm_get (graph_assumptions g) i"; cases "bm_get (graph_assumptions g) j")
    (auto simp: mark_conflicted_def)

lemma mark_conflicted_simps [simp]:
  "graph_conflicts (mark_conflicted i g) = graph_conflicts g"
  "subject_index (mark_conflicted i g) = subject_index g"
  by (simp_all add: mark_conflicted_def split: option.split)

lemma add_conflict_simps [simp]:
  "graph_assumptions (add_conflict c g) = graph_assumptions g"
  "graph_conflicts (add_conflict c g) = bm_insert (conflict_ident c) c (graph_conflicts g)"
  "subject_index (add_conflict c g) = subject_index g"
  by (simp_all add: add_conflict_def)

lemma graph_wf_marked:
  assumes "graph_wf g"
    and marked: "\<And>j. bm_get (graph_assumptions g') j =
      map_option (\<lambda>e. if j \<in> S then e\<lparr>asm_state := st\<rparr> else e) (bm_get (graph_assumptions g) j)"
    and "subject_index g' = subject_index g"
  shows "graph_wf g'"
proof -
  have claims: "asm_id e = j \<and> claim_ok e \<and> (\<exists>e0. bm_get (graph_assumptions g) j = Some e0 \<and>
      asm_subject e0 = asm_subject e)" if "bm_get (graph_assumptions g') j = Some e" for j e
    using that marked [of j] assms(1) by (auto simp: graph_wf_def split: if_splits)
  have subjects: "(\<exists>e. bm_get (graph_assumptions g') j = Some e \<and> asm_subject e = s) \<longleftrightarrow>
      (\<exists>e. bm_get (graph_assumptions g) j = Some e \<and> asm_subject e = s)" for j s
    using marked [of j] by (cases "bm_get (graph_assumptions g) j") auto
  have "indexed g' s j = indexed g s j" for s j
    using assms(3) by (simp add: indexed_def)
  then show ?thesis
    using assms(1) claims unfolding graph_wf_def by (simp add: subjects)
qed

lemma publish_conflicts_effect:
  assumes "publish_conflicts new_id a n es g = (cs, ts, g')"
  shows "bm_get (graph_assumptions g') j =
      map_option (\<lambda>e. if j \<in> asm_id ` set es then e\<lparr>asm_state := AsmConflicted\<rparr> else e)
        (bm_get (graph_assumptions g) j)"
    and "cs = map2 (\<lambda>k e. conflict_between (new_id k) a e) [n..<n + length es] es"
    and "subject_index g' = subject_index g"
  using assms
proof (induction es arbitrary: n g cs ts)
  case Nil
  {
    case 1
    then show ?case by (simp add: option.map_ident)
  next
    case 2
    then show ?case by simp
  next
    case 3
    then show ?case by simp
  }
next
  case (Cons e es)
  {
    case 1
    then show ?case
      using Cons.IH(1) by (auto simp: get_mark_conflicted option.map_comp o_def Let_def split: prod.splits
          intro!: option.map_cong)
  next
    case 2
    then show ?case
      using Cons.IH(2) [of "Suc n"] by (auto simp: Let_def upt_conv_Cons simp del: upt_Suc split: prod.splits)
  next
    case 3
    then show ?case
      using Cons.IH(3) by (auto simp: Let_def split: prod.splits)
  }
qed

lemma conflict_pairs:
  "(\<lambda>c. {conflict_left c, conflict_right c}) `
      set (map2 (\<lambda>k e. conflict_between (new_id k) a e) [n..<n + length es] es)
    = (\<lambda>e. {asm_id a, asm_id e}) ` set es"
proof -
  have pair: "{conflict_left (conflict_between k a e), conflict_right (conflict_between k a e)}
      = {asm_id a, asm_id e}" for k e
    by (auto simp: conflict_between_def)
  have "map (\<lambda>c. {conflict_left c, conflict_right c})
      (map2 (\<lambda>k e. conflict_between (new_id k) a e) [n..<n + length es] es)
    = map (\<lambda>e. {asm_id a, asm_id e}) es"
    by (rule nth_equalityI) (simp_all add: pair)
  from arg_cong [OF this, of set] show ?thesis by (simp only: set_map)
qed

text \<open>The transitions of a publication, applied one by one, give the published graph.\<close>

lemma publish_conflicts_replay:
  assumes "publish_conflicts new_id a n es g = (cs, ts, g')"
    and "bm_contains_key (graph_assumptions g) (asm_id a)"
    and "\<forall>e \<in> set es. bm_contains_key (graph_assumptions g) (asm_id e)"
    and "inj_on new_id {n..<n + length es}"
    and "\<forall>k \<in> {n..<n + length es}. \<not> bm_contains_key (graph_conflicts g) (new_id k)"
  shows "try_fold (\<lambda>g t. commit (asm_apply t g)) g ts = Ok g'"
  using assms
proof (induction es arbitrary: n g cs ts)
  case Nil
  then show ?case by simp
next
  case (Cons e es)
  let ?c = "conflict_between (new_id n) a e"
  let ?m = "mark_conflicted (asm_id e) g"
  obtain cs' ts' where rest: "publish_conflicts new_id a (Suc n) es (add_conflict ?c ?m) = (cs', ts', g')"
    and ts: "ts = AsmStateChanged (asm_id e) AsmConflicted # AsmConflictDetected ?c # ts'"
    using Cons.prems(1) by (auto simp: Let_def split: prod.splits)
  have dom: "bm_contains_key (graph_assumptions ?m) j = bm_contains_key (graph_assumptions g) j" for j
    by (simp add: bm_contains_key_def get_mark_conflicted)
  have mark: "commit (asm_apply (AsmStateChanged (asm_id e) AsmConflicted) g) = Ok ?m"
    using Cons.prems(3) by (auto simp: mark_conflicted_def bm_contains_key_def split: option.splits)
  have conflict: "commit (asm_apply (AsmConflictDetected ?c) ?m) = Ok (add_conflict ?c ?m)"
    using Cons.prems(2,3,5)
    by (auto simp: conflict_between_def dom Let_def add_conflict_def)
  have "inj_on new_id {Suc n..<Suc n + length es}"
    using Cons.prems(4) by (rule inj_on_subset) auto
  moreover have "\<not> bm_contains_key (graph_conflicts (add_conflict ?c ?m)) (new_id k)"
    if "k \<in> {Suc n..<Suc n + length es}" for k
  proof -
    have "new_id k \<noteq> new_id n" using Cons.prems(4) that by (auto dest: inj_onD)
    then show ?thesis using Cons.prems(5) that by (simp add: conflict_between_def)
  qed
  ultimately have "try_fold (\<lambda>g t. commit (asm_apply t g)) (add_conflict ?c ?m) ts' = Ok g'"
    using Cons.prems(2,3) by (intro Cons.IH [OF rest]) (auto simp: dom)
  then show ?case by (simp only: ts try_fold.simps mark conflict and_then.simps)
qed

lemma combine_trust_absorb:
  assumes "\<forall>t \<in> set ts. policy_rank u \<le> policy_rank t"
  shows "foldl combine_trust u ts = u"
  using assms by (induction ts) (simp_all add: combine_trust_def)

lemma asm_effective_trust_idem:
  "asm_effective_trust (a\<lparr>asm_trust := asm_effective_trust a\<rparr>) = asm_effective_trust a"
  using combine_trust_fold [of "asm_trust a" "asm_origins a"]
  by (simp add: asm_effective_trust_def combine_trust_absorb)

lemma publish_OkE:
  assumes "publish lower new_id a g = (Ok p, g')" and "graph_wf g"
  obtains b ts where "pub_assumption p = b" and "claim_ok b"
    and "asm_id b = asm_id a" and "asm_trust b = asm_effective_trust a"
    and "bm_get (graph_assumptions g) (asm_id b) = None"
    and "publish_conflicts new_id b 0 (contradicting b g) (graph_insert b g) = (pub_conflicts p, ts, g')"
    and "pub_transitions p = AsmCreated b # ts"
    and "contradicting b g \<noteq> [] \<Longrightarrow> asm_state b = AsmConflicted"
proof -
  define n where "n = a\<lparr>asm_subject := normalize_text lower (asm_subject a),
      asm_value := normalize_text lower (asm_value a)\<rparr>"
  define t where "t = n\<lparr>asm_trust := asm_effective_trust n\<rparr>"
  define b where "b = (if contradicting t g = [] then t else t\<lparr>asm_state := AsmConflicted\<rparr>)"
  have same: "contradicting b g = contradicting t g"
    by (simp add: b_def contradicting_def)
  from assms(1) have valid: "assumption_validate t = Ok ()"
    and fresh: "\<not> bm_contains_key (graph_assumptions g) (asm_id t)"
    by (auto simp: publish_def n_def [symmetric] t_def [symmetric] Let_def
        split: result.splits if_splits prod.splits)
  have "claim_ok t"
    using valid asm_effective_trust_idem [of n] by (simp add: claim_ok_def t_def)
  then have ok: "claim_ok b" by (simp add: b_def)
  obtain cs ts h where run: "publish_conflicts new_id b 0 (contradicting b g) (graph_insert b g) = (cs, ts, h)"
    by (metis prod_cases3)
  have "publish lower new_id a g
      = (Ok \<lparr>pub_assumption = b, pub_conflicts = cs, pub_transitions = AsmCreated b # ts\<rparr>, h)"
    using valid fresh run same
    by (cases "contradicting t g = []")
      (simp_all add: publish_def n_def [symmetric] t_def [symmetric] b_def Let_def)
  then have p: "p = \<lparr>pub_assumption = b, pub_conflicts = cs, pub_transitions = AsmCreated b # ts\<rparr>"
    and h: "h = g'"
    using assms(1) by simp_all
  have fields: "asm_id b = asm_id a" "asm_trust b = asm_effective_trust a" "asm_id b = asm_id t"
    by (simp_all add: b_def t_def n_def asm_effective_trust_def)
  have "asm_state b = AsmConflicted" if "contradicting b g \<noteq> []"
    using that unfolding same by (simp add: b_def)
  moreover have "bm_get (graph_assumptions g) (asm_id b) = None"
    using fresh fields(3) by (simp add: bm_contains_key_def)
  ultimately show ?thesis
    using ok fields run p h by (intro that [of b ts]) simp_all
qed

section \<open>Properties\<close>


text \<open>
  A publication replays. Applying its transitions one by one to the graph before it gives the
  graph after it, when the conflict identifiers it drew are new (they come from the allocator, see
  \<open>durable_ids_unique\<close>).
\<close>

theorem publication_replays:
  assumes "publish lower new_id a g = (Ok p, g')" and "graph_wf g"
    and "inj_on new_id {..<length (pub_conflicts p)}"
    and "\<forall>k < length (pub_conflicts p). bm_get (graph_conflicts g) (new_id k) = None"
  shows "try_fold (\<lambda>g t. commit (asm_apply t g)) g (pub_transitions p) = Ok g'"
proof -
  obtain b ts where b: "claim_ok b" "bm_get (graph_assumptions g) (asm_id b) = None"
    and run: "publish_conflicts new_id b 0 (contradicting b g) (graph_insert b g) = (pub_conflicts p, ts, g')"
    and ts: "pub_transitions p = AsmCreated b # ts"
    by (rule publish_OkE [OF assms(1,2)]) (rule that, assumption+)
  have len: "length (pub_conflicts p) = length (contradicting b g)"
    using publish_conflicts_effect(2) [OF run] by simp
  have "commit (asm_apply (AsmCreated b) g) = Ok (graph_insert b g)"
    using b by (simp add: claim_ok_def bm_contains_key_def)
  moreover have "try_fold (\<lambda>g t. commit (asm_apply t g)) (graph_insert b g) ts = Ok g'"
  proof (rule publish_conflicts_replay [OF run])
    show "bm_contains_key (graph_assumptions (graph_insert b g)) (asm_id b)"
      by simp
    show "\<forall>e \<in> set (contradicting b g).
        bm_contains_key (graph_assumptions (graph_insert b g)) (asm_id e)"
      using set_contradicting [OF assms(2)] assms(2)
      by (auto simp: bm_contains_key_def graph_wf_def)
    show "inj_on new_id {0..<0 + length (contradicting b g)}"
      using assms(3) len by (simp add: atLeast0LessThan)
    show "\<forall>k \<in> {0..<0 + length (contradicting b g)}.
        \<not> bm_contains_key (graph_conflicts (graph_insert b g)) (new_id k)"
      using assms(4) len by (simp add: bm_contains_key_def)
  qed
  ultimately show ?thesis by (simp add: ts)
qed

text \<open>
  A recovered graph is sound, whatever the log holds. If \<open>from_events\<close> succeeds, on any bytes,
  every claim is valid and stands under its identifier, the index lists exactly the claims about a
  subject, and a claim is trusted only if every input it was derived from is.
\<close>

theorem recovered_graph_sound:
  assumes "graph_from_events evs = Ok g"
  shows "graph_wf g \<and>
    (\<forall>i a. bm_get (graph_assumptions g) i = Some a \<and> is_trusted (asm_trust a) \<longrightarrow>
       list_all is_trusted (asm_origins a))"
proof -
  have wf: "graph_wf g"
    using graph_wf_new assms unfolding graph_from_events_def by (rule asm.replay_inv)
  moreover have "list_all is_trusted (asm_origins a)"
    if "bm_get (graph_assumptions g) i = Some a" and "is_trusted (asm_trust a)" for i a
  proof -
    have "foldl combine_trust (asm_trust a) (asm_origins a) = asm_trust a"
      using wf that(1) by (simp add: graph_wf_def claim_ok_def asm_effective_trust_def)
    then show ?thesis using combine_trust_fold [of "asm_trust a" "asm_origins a"] that(2) by simp
  qed
  ultimately show ?thesis by blast
qed

text \<open>
  Recovery of the assumption graph. A log that records the transitions \<open>ts\<close>, among events of
  all other kinds, is replayed to the graph the live transitions produced, or the same error.
\<close>

theorem assumption_recovery:
  assumes "list_all2 (\<lambda>t ev. \<exists>bs. asm_encode_transition t = Ok bs \<and>
        event_knd ev = AssumptionTransition ASSUMPTION_SCHEMA_VERSION bs) ts
      (filter (\<lambda>ev. select_assumption (event_knd ev) \<noteq> None) evs)"
    and "\<forall>t \<in> set ts. transition_is_utf8 t"
  shows "graph_from_events evs = try_fold (\<lambda>g t. commit (asm_apply t g)) graph_new ts"
  unfolding graph_from_events_def using assms by (rule asm.replay_recorded)

section \<open>Witnesses\<close>

definition example_claim :: "assumption_id \<Rightarrow> string \<Rightarrow> assumption" where
  "example_claim i v = assumption_new (\<lambda>s. s) i 1 7 ''auth'' v ''claim''"

definition example_graph :: assumption_graph where
  "example_graph = graph_insert (example_claim 5 ''jwt'') graph_new"

lemmas assumption_eval = example_claim_def example_graph_def assumption_new_def normalize_text_def
  split_whitespace_def flush_word_def white_space_at_def assumption_validate_def
  asm_validate_text_def asm_validate_text_list_def asm_effective_trust_def trim_is_empty_def
  ASM_MAX_TEXT_BYTES_def ASM_MAX_LIST_ITEMS_def ASM_MAX_INPUT_ORIGINS_def word_le_nat_alt

lemma example_graph_wf: "graph_wf example_graph"
  unfolding example_graph_def
  by (rule graph_wf_insert [OF graph_wf_new])
    (simp_all add: claim_ok_def assumption_eval graph_new_def word_less_nat_alt)

lemma example_publish:
  "\<exists>p g'. publish (\<lambda>s. s) of_nat (example_claim 6 ''session'') example_graph = (Ok p, g')"
proof -
  have "is_ok (fst (publish (\<lambda>s. s) of_nat (example_claim 6 ''session'') example_graph))"
    by (simp add: publish_def assumption_eval graph_new_def bm_contains_key_def Let_def
        word_less_nat_alt split: prod.split)
  then show ?thesis
    by (cases "publish (\<lambda>s. s) of_nat (example_claim 6 ''session'') example_graph")
      (auto simp: is_ok_iff)
qed


theorem publication_replays_witness:
  "\<exists>p g'. publish (\<lambda>s. s) of_nat (example_claim 6 ''session'') example_graph = (Ok p, g') \<and>
     try_fold (\<lambda>g t. commit (asm_apply t g)) example_graph (pub_transitions p) = Ok g'"
proof -
  obtain p g' where pub: "publish (\<lambda>s. s) of_nat (example_claim 6 ''session'') example_graph = (Ok p, g')"
    using example_publish by blast
  obtain b ts where "publish_conflicts of_nat b 0 (contradicting b example_graph)
      (graph_insert b example_graph) = (pub_conflicts p, ts, g')"
    by (rule publish_OkE [OF pub example_graph_wf]) (rule that)
  then have "length (pub_conflicts p) = length (contradicting b example_graph)"
    using publish_conflicts_effect(2) by fastforce
  also have "\<dots> \<le> 1"
  proof -
    have "distinct (map asm_id (contradicting b example_graph))"
      using example_graph_wf by (rule contradicting_distinct)
    moreover have "asm_id e = 5" if e: "e \<in> set (contradicting b example_graph)" for e
    proof -
      obtain i where "bm_get (graph_assumptions example_graph) i = Some e"
        using e set_contradicting [OF example_graph_wf] by blast
      then have "e = example_claim 5 ''jwt''"
        by (simp add: example_graph_def graph_new_def split: if_splits)
      then show ?thesis by (simp add: example_claim_def assumption_new_def)
    qed
    then have "set (map asm_id (contradicting b example_graph)) \<subseteq> {5}" by auto
    ultimately show ?thesis
      using card_mono [of "{5}" "set (map asm_id (contradicting b example_graph))"]
        distinct_card [of "map asm_id (contradicting b example_graph)"] by simp
  qed
  finally have "length (pub_conflicts p) \<le> 1" .
  then have "inj_on (of_nat :: nat \<Rightarrow> conflict_id) {..<length (pub_conflicts p)}"
    by (auto simp: inj_on_def)
  moreover have "\<forall>k < length (pub_conflicts p). bm_get (graph_conflicts example_graph) (of_nat k) = None"
    by (simp add: example_graph_def graph_new_def)
  ultimately show ?thesis
    using publication_replays [OF pub example_graph_wf] pub by blast
qed

theorem recovered_graph_sound_witness:
  "graph_from_events [] = Ok graph_new \<and> graph_wf graph_new"
proof -
  have "graph_from_events [] = Ok graph_new" by (simp add: graph_from_events_def)
  with recovered_graph_sound [OF this] show ?thesis by simp
qed

theorem assumption_recovery_witness:
  "\<exists>bs. asm_encode_transition (AsmStateChanged 5 AsmResolved) = Ok bs \<and>
     graph_from_events [\<lparr>event_ident = 1, event_run = 1, occurred_at_ms = 0,
         event_knd = AssumptionTransition ASSUMPTION_SCHEMA_VERSION bs\<rparr>]
     = Err (AsmUnknown 5)"
proof -
  obtain bs where bs: "asm_encode_transition (AsmStateChanged 5 AsmResolved) = Ok bs"
    by (simp add: asm_encode_transition_def write_bounded_def write_seq.simps write_u8_def
        write_u64_def ASM_MAX_PAYLOAD_BYTES_def)
  have "graph_from_events [\<lparr>event_ident = 1, event_run = 1, occurred_at_ms = 0,
         event_knd = AssumptionTransition ASSUMPTION_SCHEMA_VERSION bs\<rparr>]
     = try_fold (\<lambda>g t. commit (asm_apply t g)) graph_new [AsmStateChanged 5 AsmResolved]"
    by (rule assumption_recovery) (simp_all add: bs)
  with bs show ?thesis by (simp add: graph_new_def)
qed

end
