(* ===== verification/Specialist.thy ===== *)
theory Specialist
  imports Wire
begin

text \<open>
  The crate \<^verbatim>\<open>crates/specialist\<close>: the registry of specialist profiles. A profile belongs to an agent
  the log has already created; a selection request picks the first profile, in the order of the
  agents, that has the role, the scope and the capabilities asked for.
\<close>

section \<open>Profiles and requests\<close>

definition SPECIALIST_SCHEMA_VERSION :: u16 where "SPECIALIST_SCHEMA_VERSION = 1"
definition SP_MAX_ROLE_BYTES :: nat where "SP_MAX_ROLE_BYTES = 1024"
definition SP_MAX_ITEM_BYTES :: nat where "SP_MAX_ITEM_BYTES = 4096"
definition SP_MAX_ITEMS :: nat where "SP_MAX_ITEMS = 64"
definition SP_MAX_PAYLOAD_BYTES :: nat where "SP_MAX_PAYLOAD_BYTES = 1024 * 1024"

record specialist_profile =
  sp_agent :: agent_id
  sp_role :: string
  sp_scope :: "string list"
  sp_subscriptions :: "string list"
  sp_capabilities :: "string list"
  sp_promotable :: bool

record specialist_request =
  rq_role :: string
  rq_scope :: "string list"
  rq_capabilities :: "string list"
  rq_promotable_only :: bool

datatype specialist_error =
    SpInvalid string
  | SpInvalidEncoding string
  | SpUnsupportedVersion u16
  | SpTooLarge usize usize
  | SpDuplicate agent_id
  | SpUnknown agent_id

definition specialist_profile_new :: "agent_id \<Rightarrow> string \<Rightarrow> specialist_profile" where
  "specialist_profile_new a r = \<lparr>sp_agent = a, sp_role = r, sp_scope = [], sp_subscriptions = [],
     sp_capabilities = [], sp_promotable = False\<rparr>"

definition specialist_request_new :: "string \<Rightarrow> specialist_request" where
  "specialist_request_new r =
     \<lparr>rq_role = r, rq_scope = [], rq_capabilities = [], rq_promotable_only = False\<rparr>"

definition sp_validate_text :: "string \<Rightarrow> nat \<Rightarrow> string \<Rightarrow> (unit, specialist_error) result" where
  "sp_validate_text label maximum v =
     (if trim_is_empty v then Err (SpInvalid (label @ '' must not be empty''))
      else if maximum < length v then Err (SpTooLarge (length v) maximum)
      else Ok ())"

definition sp_validate_items :: "string \<Rightarrow> string list \<Rightarrow> (unit, specialist_error) result" where
  "sp_validate_items label vs =
     (if SP_MAX_ITEMS < length vs then Err (SpInvalid (label @ '' contains too many entries''))
      else try_all (sp_validate_text label SP_MAX_ITEM_BYTES) vs)"

definition request_validate :: "specialist_request \<Rightarrow> (unit, specialist_error) result" where
  "request_validate r =
     and_then (sp_validate_text ''selection role'' SP_MAX_ROLE_BYTES (rq_role r)) (\<lambda>_.
     and_then (sp_validate_items ''selection scope'' (rq_scope r)) (\<lambda>_.
       sp_validate_items ''selection capabilities'' (rq_capabilities r)))"

definition profile_validate :: "specialist_profile \<Rightarrow> (unit, specialist_error) result" where
  "profile_validate p =
     and_then (sp_validate_text ''specialist role'' SP_MAX_ROLE_BYTES (sp_role p)) (\<lambda>_.
     and_then (sp_validate_items ''specialist scope'' (sp_scope p)) (\<lambda>_.
     and_then (sp_validate_items ''specialist subscriptions'' (sp_subscriptions p)) (\<lambda>_.
       sp_validate_items ''specialist capabilities'' (sp_capabilities p))))"

section \<open>The registry\<close>

datatype specialist_transition = SpecialistRegistered specialist_profile

record specialist_registry =
  sr_profiles :: "(agent_id, specialist_profile) bmap"

definition specialist_registry_default :: specialist_registry where
  "specialist_registry_default = \<lparr>sr_profiles = bm_empty\<rparr>"

definition profile_of :: "specialist_registry \<Rightarrow> agent_id \<Rightarrow> specialist_profile option" where
  "profile_of r a = bm_get (sr_profiles r) a"

definition profile_satisfies :: "specialist_request \<Rightarrow> specialist_profile \<Rightarrow> bool" where
  "profile_satisfies q p \<longleftrightarrow>
     eq_ignore_ascii_case (sp_role p) (rq_role q) \<and>
     list_all (\<lambda>s. s \<in> set (sp_scope p)) (rq_scope q) \<and>
     list_all (\<lambda>c. c \<in> set (sp_capabilities p)) (rq_capabilities q) \<and>
     (\<not> rq_promotable_only q \<or> sp_promotable p)"

definition specialist_select :: "specialist_registry \<Rightarrow> specialist_request
    \<Rightarrow> (specialist_profile option, specialist_error) result" where
  "specialist_select r q = and_then (request_validate q) (\<lambda>_.
     Ok (find (profile_satisfies q) (bm_values (sr_profiles r))))"

fun sp_apply :: "specialist_transition \<Rightarrow> specialist_registry
    \<Rightarrow> (unit, specialist_error) result \<times> specialist_registry" where
  "sp_apply (SpecialistRegistered p) r =
     (case profile_validate p of
        Err e \<Rightarrow> (Err e, r)
      | Ok _ \<Rightarrow>
          if bm_contains_key (sr_profiles r) (sp_agent p) then (Err (SpDuplicate (sp_agent p)), r)
          else (Ok (), r\<lparr>sr_profiles := bm_insert (sp_agent p) p (sr_profiles r)\<rparr>))"

section \<open>The codec\<close>

definition sp_take :: "nat \<Rightarrow> (u8 list, specialist_error) reader" where
  "sp_take = cursor_take (SpInvalidEncoding ''offset overflow'')
     (SpInvalidEncoding ''specialist payload is truncated'')"

abbreviation "sp_u8 \<equiv> read_u8 sp_take"
abbreviation "sp_u16 \<equiv> read_u16 sp_take"
abbreviation "sp_u64 \<equiv> read_u64 sp_take"

definition sp_string :: "nat \<Rightarrow> (string, specialist_error) reader" where
  "sp_string maximum =
     rd_bind (read_sized (read_u32 sp_take) maximum (\<lambda>n. SpTooLarge n maximum)
         (read_utf8 sp_take (SpInvalidEncoding ''specialist text is not UTF-8'')))
       (\<lambda>v. rd_lift (and_then (sp_validate_text ''decoded specialist text'' maximum v) (\<lambda>_. Ok v)))"

definition sp_string_list :: "(string list, specialist_error) reader" where
  "sp_string_list = read_counted sp_u16 SP_MAX_ITEMS
     (\<lambda>_. SpInvalid ''specialist list is too large'') (sp_string SP_MAX_ITEM_BYTES)"

definition sp_write_string :: "nat \<Rightarrow> string \<Rightarrow> specialist_error writer" where
  "sp_write_string maximum v =
     and_then (sp_validate_text ''encoded specialist text'' maximum v) (\<lambda>_.
       if 2 ^ 32 \<le> length v then Err (SpTooLarge (length v) (2 ^ 32 - 1))
       else write_seq [write_u32 (of_nat (length v)), write_bytes v])"

definition sp_write_string_list :: "string list \<Rightarrow> specialist_error writer" where
  "sp_write_string_list vs =
     and_then (sp_validate_items ''specialist list'' vs) (\<lambda>_.
       write_counted (sp_write_string SP_MAX_ITEM_BYTES) vs)"

definition write_flag :: "bool \<Rightarrow> 'e writer" where
  "write_flag b = write_u8 (if b then 1 else 0)"

definition sp_flag :: "(bool, specialist_error) reader" where
  "sp_flag = rd_bind sp_u8 (\<lambda>b.
     if b = 0 then rd_return False
     else if b = 1 then rd_return True
     else rd_fail (SpInvalidEncoding ''unknown promotable flag''))"

fun sp_encode_transition :: "specialist_transition \<Rightarrow> specialist_error writer" where
  "sp_encode_transition (SpecialistRegistered p) =
     write_bounded SP_MAX_PAYLOAD_BYTES (\<lambda>n. SpTooLarge n SP_MAX_PAYLOAD_BYTES)
       (and_then (profile_validate p) (\<lambda>_.
          write_seq [write_u8 0, write_u64 (sp_agent p), sp_write_string SP_MAX_ROLE_BYTES (sp_role p),
            sp_write_string_list (sp_scope p), sp_write_string_list (sp_subscriptions p),
            sp_write_string_list (sp_capabilities p), write_flag (sp_promotable p)]))"

definition sp_read_transition :: "(specialist_transition, specialist_error) reader" where
  "sp_read_transition = rd_bind sp_u8 (\<lambda>tag.
     if tag = 0 then
       rd_bind sp_u64 (\<lambda>a. rd_bind (sp_string SP_MAX_ROLE_BYTES) (\<lambda>r.
       rd_bind sp_string_list (\<lambda>sc. rd_bind sp_string_list (\<lambda>su. rd_bind sp_string_list (\<lambda>ca.
       rd_bind sp_flag (\<lambda>pr.
         rd_return (SpecialistRegistered \<lparr>sp_agent = a, sp_role = r, sp_scope = sc,
           sp_subscriptions = su, sp_capabilities = ca, sp_promotable = pr\<rparr>)))))))
     else rd_fail (SpInvalidEncoding (''unknown specialist transition tag '' @ show_nat (unat tag))))"

definition sp_decode_transition :: "u16 \<Rightarrow> u8 list
    \<Rightarrow> (specialist_transition, specialist_error) result" where
  "sp_decode_transition version bytes =
     (if version \<noteq> SPECIALIST_SCHEMA_VERSION then Err (SpUnsupportedVersion version)
      else if SP_MAX_PAYLOAD_BYTES < length bytes
        then Err (SpTooLarge (length bytes) SP_MAX_PAYLOAD_BYTES)
      else read_all sp_read_transition (SpInvalidEncoding ''specialist payload has trailing bytes'') bytes)"

section \<open>Recovery\<close>

text \<open>
  \<open>from_events\<close> also collects the agents the log has created so far, and refuses a profile of an
  agent that comes later or never.
\<close>

fun sp_owner :: "specialist_transition \<Rightarrow> agent_id" where
  "sp_owner (SpecialistRegistered p) = sp_agent p"

fun sp_replay :: "agent_id set \<Rightarrow> specialist_registry \<Rightarrow> event_kind list
    \<Rightarrow> (specialist_registry, specialist_error) result" where
  "sp_replay agents r [] = Ok r"
| "sp_replay agents r (AgentCreated a # evs) = sp_replay (insert (agent_ident a) agents) r evs"
| "sp_replay agents r (SpecialistTransition v payload # evs) =
     and_then (sp_decode_transition v payload) (\<lambda>t.
       if sp_owner t \<notin> agents then Err (SpUnknown (sp_owner t))
       else and_then (commit (sp_apply t r)) (\<lambda>r'. sp_replay agents r' evs))"
| "sp_replay agents r (_ # evs) = sp_replay agents r evs"

definition sp_from_events :: "event list \<Rightarrow> (specialist_registry, specialist_error) result" where
  "sp_from_events evs = sp_replay {} specialist_registry_default (map event_knd evs)"

section \<open>The codec is a round trip\<close>

interpretation sp: byte_taker sp_take
  unfolding sp_take_def by (rule byte_taker_cursor_take)

lemma sp_wire_string:
  assumes "is_utf8 s" and "m < 2 ^ 32"
  shows "wire (sp_write_string m s) (sp_string m) s"
proof (rule wireI)
  fix bs assume w: "sp_write_string m s = Ok bs"
  then have len: "length s \<le> m" and vis: "\<not> trim_is_empty s"
    and bs: "write_seq [write_u32 (of_nat (length s)), write_bytes s] = (Ok bs :: specialist_error writer)"
    by (auto simp: sp_write_string_def sp_validate_text_def split: if_splits)
  have "wire (write_seq [write_u32 (of_nat (length s)), write_bytes s] :: specialist_error writer)
      (sp_string m) s"
    unfolding sp_string_def
    by (rule wire_decoded, rule sp.wire_str32 [OF assms(1) len assms(2)])
      (simp add: sp_validate_text_def vis len linorder_not_less [THEN iffD2])
  then show "reads (sp_string m) bs s" using bs by (rule wireD)
qed

lemma sp_wire_string_list:
  assumes "list_all is_utf8 ss"
  shows "wire (sp_write_string_list ss) sp_string_list ss"
proof (rule wireI)
  fix bs assume "sp_write_string_list ss = Ok bs"
  then have len: "length ss \<le> SP_MAX_ITEMS"
    and bs: "write_counted (sp_write_string SP_MAX_ITEM_BYTES) ss = Ok bs"
    by (auto simp: sp_write_string_list_def sp_validate_items_def split: if_splits)
  have "wire (write_counted (sp_write_string SP_MAX_ITEM_BYTES) ss) sp_string_list ss"
    unfolding sp_string_list_def
    using assms len by (intro wire_counted sp.wire_u16 sp_wire_string)
      (auto simp: SP_MAX_ITEMS_def SP_MAX_ITEM_BYTES_def list_all_iff)
  then show "reads sp_string_list bs ss" using bs by (rule wireD)
qed

lemma sp_wire_flag: "wire (write_flag b) sp_flag b"
  unfolding write_flag_def sp_flag_def by (rule wire_last, rule sp.wire_u8) simp

fun specialist_utf8 :: "specialist_transition \<Rightarrow> bool" where
  "specialist_utf8 (SpecialistRegistered p) \<longleftrightarrow> is_utf8 (sp_role p) \<and> list_all is_utf8 (sp_scope p) \<and>
     list_all is_utf8 (sp_subscriptions p) \<and> list_all is_utf8 (sp_capabilities p)"

lemmas sp_fields = sp.wire_u8 [THEN wire_field] sp.wire_u64 [THEN wire_field]
  sp_wire_flag [THEN wire_field] sp_wire_string [THEN wire_field]
  sp_wire_string_list [THEN wire_field]

lemma sp_wire_registered:
  assumes "specialist_utf8 (SpecialistRegistered p)"
  shows "wire (write_seq [write_u8 0, write_u64 (sp_agent p),
      sp_write_string SP_MAX_ROLE_BYTES (sp_role p),
      sp_write_string_list (sp_scope p), sp_write_string_list (sp_subscriptions p),
      sp_write_string_list (sp_capabilities p), write_flag (sp_promotable p)])
    sp_read_transition (SpecialistRegistered p)"
  unfolding sp_read_transition_def
  using assms
  by (intro wire_field [OF sp.wire_u8])
    (simp, intro sp_fields wire_end, auto simp: SP_MAX_ROLE_BYTES_def)

lemma sp_decode_encode:
  assumes "specialist_utf8 t" and "sp_encode_transition t = Ok bs"
  shows "sp_decode_transition SPECIALIST_SCHEMA_VERSION bs = Ok t"
proof (cases t)
  case (SpecialistRegistered p)
  note wire = sp_wire_registered [OF assms(1) [unfolded SpecialistRegistered]]
  from assms(2) have w: "write_bounded SP_MAX_PAYLOAD_BYTES (\<lambda>n. SpTooLarge n SP_MAX_PAYLOAD_BYTES)
      (write_seq [write_u8 0, write_u64 (sp_agent p),
        sp_write_string SP_MAX_ROLE_BYTES (sp_role p),
        sp_write_string_list (sp_scope p), sp_write_string_list (sp_subscriptions p),
        sp_write_string_list (sp_capabilities p), write_flag (sp_promotable p)]) = Ok bs"
    by (auto simp: SpecialistRegistered write_bounded_Ok)
  then have "length bs \<le> SP_MAX_PAYLOAD_BYTES" by (simp add: write_bounded_Ok)
  then show ?thesis
    using wire_read_all [OF wire w, of "SpInvalidEncoding ''specialist payload has trailing bytes''"]
    unfolding sp_decode_transition_def SpecialistRegistered by (simp add: SP_MAX_PAYLOAD_BYTES_def)
qed

interpretation sp: payload_codec sp_encode_transition sp_decode_transition SPECIALIST_SCHEMA_VERSION
    specialist_utf8 "\<lambda>t. t"
  by unfold_locales (rule sp_decode_encode)

section \<open>The invariant of the registry\<close>

definition sr_wf :: "agent_id set \<Rightarrow> specialist_registry \<Rightarrow> bool" where
  "sr_wf agents r \<longleftrightarrow> (\<forall>a p. profile_of r a = Some p \<longrightarrow>
     a \<in> agents \<and> sp_agent p = a \<and> profile_validate p = Ok ())"

lemma sp_apply_Ok_iff:
  "sp_apply (SpecialistRegistered p) r = (Ok (), r') \<longleftrightarrow>
     profile_validate p = Ok () \<and> profile_of r (sp_agent p) = None \<and>
     r' = r\<lparr>sr_profiles := bm_insert (sp_agent p) p (sr_profiles r)\<rparr>"
  by (auto simp: profile_of_def bm_contains_key_def split: result.splits)

lemma sr_wf_mono: "sr_wf A r \<Longrightarrow> A \<subseteq> B \<Longrightarrow> sr_wf B r"
  unfolding sr_wf_def by blast

lemma sp_apply_wf:
  "sr_wf A r \<Longrightarrow> sp_owner t \<in> A \<Longrightarrow> sp_apply t r = (Ok (), r') \<Longrightarrow> sr_wf A r'"
  by (cases t) (auto simp: sp_apply_Ok_iff sr_wf_def profile_of_def simp del: sp_apply.simps)

definition created_agents :: "event_kind list \<Rightarrow> agent_id set" where
  "created_agents evs = {agent_ident a | a. AgentCreated a \<in> set evs}"

lemma created_agents_simps [simp]:
  "created_agents [] = {}"
  "created_agents (ev # evs) =
     (case ev of AgentCreated a \<Rightarrow> {agent_ident a} | _ \<Rightarrow> {}) \<union> created_agents evs"
  by (auto simp: created_agents_def split: event_kind.splits)

lemma sp_replay_wf:
  "sr_wf A r \<Longrightarrow> sp_replay A r evs = Ok r' \<Longrightarrow> sr_wf (A \<union> created_agents evs) r'"
proof (induction A r evs rule: sp_replay.induct)
  case (2 agents r a evs)
  then have "sr_wf (insert (agent_ident a) agents) r" by (blast intro: sr_wf_mono)
  with 2 show ?case by simp
next
  case (3 agents r v payload evs)
  from 3(3) obtain t r1 where "sp_decode_transition v payload = Ok t" "sp_owner t \<in> agents"
      "sp_apply t r = (Ok (), r1)" "sp_replay agents r1 evs = Ok r'"
    by (auto simp: commit_Ok_iff split: if_splits)
  with 3(1,2) show ?case by (auto simp: commit_Ok_iff intro: sp_apply_wf)
qed simp_all

section \<open>What the log determines\<close>

text \<open>A profile registered in the log, after the event that created its agent.\<close>

definition registered_in :: "event_kind list \<Rightarrow> agent_id set \<Rightarrow> specialist_profile \<Rightarrow> bool" where
  "registered_in evs A p \<longleftrightarrow> (\<exists>pre v payload post.
     evs = pre @ SpecialistTransition v payload # post \<and>
     sp_decode_transition v payload = Ok (SpecialistRegistered p) \<and>
     profile_validate p = Ok () \<and> sp_agent p \<in> A \<union> created_agents pre)"

lemma registered_in_Nil [simp]: "\<not> registered_in [] A p"
  by (simp add: registered_in_def)

lemma registered_in_Cons:
  "registered_in (ev # evs) A p \<longleftrightarrow>
     (\<exists>v payload. ev = SpecialistTransition v payload \<and>
        sp_decode_transition v payload = Ok (SpecialistRegistered p) \<and>
        profile_validate p = Ok () \<and> sp_agent p \<in> A) \<or>
     registered_in evs (A \<union> created_agents [ev]) p"
  (is "?L \<longleftrightarrow> ?now \<or> ?later")
proof
  assume ?L
  then obtain pre v payload post where split: "ev # evs = pre @ SpecialistTransition v payload # post"
    and d: "sp_decode_transition v payload = Ok (SpecialistRegistered p)"
      "profile_validate p = Ok ()" "sp_agent p \<in> A \<union> created_agents pre"
    unfolding registered_in_def by blast
  show "?now \<or> ?later"
  proof (cases pre)
    case Nil
    with split d show ?thesis by auto
  next
    case (Cons e pre')
    with split d have ?later
      unfolding registered_in_def by (intro exI [of _ pre'] exI) (auto simp: Un_assoc)
    then show ?thesis ..
  qed
next
  assume "?now \<or> ?later"
  then show ?L
  proof
    assume ?now
    then obtain v payload where "ev = SpecialistTransition v payload"
        "sp_decode_transition v payload = Ok (SpecialistRegistered p)"
        "profile_validate p = Ok ()" "sp_agent p \<in> A" by blast
    then show ?L
      unfolding registered_in_def by (intro exI [of _ "[]"] exI) auto
  next
    assume ?later
    then obtain pre v payload post where "evs = pre @ SpecialistTransition v payload # post"
        "sp_decode_transition v payload = Ok (SpecialistRegistered p)" "profile_validate p = Ok ()"
        "sp_agent p \<in> A \<union> created_agents [ev] \<union> created_agents pre"
      unfolding registered_in_def by blast
    then show ?L
      unfolding registered_in_def by (intro exI [of _ "ev # pre"] exI [of _ v] exI [of _ payload] exI [of _ post]) auto
  qed
qed

lemma registered_in_skip:
  "(\<And>v payload. ev \<noteq> SpecialistTransition v payload) \<Longrightarrow>
     registered_in (ev # evs) A p \<longleftrightarrow> registered_in evs (A \<union> created_agents [ev]) p"
  by (simp add: registered_in_Cons)

lemma sp_replay_exact:
  assumes "sp_replay A r evs = Ok r'" and "sr_wf A r"
  shows "profile_of r' a = Some p \<longleftrightarrow>
    profile_of r a = Some p \<or> (sp_agent p = a \<and> registered_in evs A p)"
  using assms
proof (induction A r evs arbitrary: r' rule: sp_replay.induct)
  case (2 agents r x evs)
  have "sr_wf (insert (agent_ident x) agents) r" using 2(3) by (rule sr_wf_mono) blast
  with 2 show ?case by (simp add: registered_in_skip)
next
  case (3 agents r v payload evs)
  from 3(2) obtain t r1 where "sp_decode_transition v payload = Ok t" "sp_owner t \<in> agents"
      "sp_apply t r = (Ok (), r1)" "sp_replay agents r1 evs = Ok r'"
    by (auto simp: commit_Ok_iff split: if_splits)
  then obtain q where dec: "sp_decode_transition v payload = Ok (SpecialistRegistered q)"
    and own: "sp_agent q \<in> agents" and step: "sp_apply (SpecialistRegistered q) r = (Ok (), r1)"
    and rest: "sp_replay agents r1 evs = Ok r'"
    by (cases t) auto
  have wf: "sr_wf agents r1"
    using sp_apply_wf [OF 3(3), of "SpecialistRegistered q" r1] own step by (simp del: sp_apply.simps)
  have IH: "profile_of r' a = Some p \<longleftrightarrow>
      profile_of r1 a = Some p \<or> (sp_agent p = a \<and> registered_in evs agents p)"
    using 3(1) [of "SpecialistRegistered q" r1 r'] dec own step rest wf
    by (simp add: commit_Ok_iff del: sp_apply.simps)
  show ?case
    using IH dec own step 3(3)
    by (auto simp: sp_apply_Ok_iff registered_in_Cons profile_of_def sr_wf_def simp del: sp_apply.simps)
qed (simp_all add: registered_in_skip)

section \<open>Properties\<close>

text \<open>
  The specialist registry is determined by the log. Whatever bytes a log holds, if recovery
  accepts it, an agent has a profile exactly if the log registers that profile for it, with a
  payload that decodes to a valid profile, after the event that created the agent; so no profile
  is lost, invented, replaced or taken over by another agent.
\<close>

theorem recovered_specialists:
  assumes "sp_from_events evs = Ok r"
  shows "profile_of r a = Some p \<longleftrightarrow>
    sp_agent p = a \<and> registered_in (map event_knd evs) {} p"
  using assms sp_replay_exact [of "{}" specialist_registry_default "map event_knd evs" r a p]
  by (simp add: sp_from_events_def sr_wf_def profile_of_def specialist_registry_default_def)

text \<open>
  Specialist selection. For a valid request the answer is the satisfying profile of the smallest
  agent, and none exactly if no profile satisfies the request; an invalid request is refused with
  the error of its validation.
\<close>

theorem specialist_selection:
  shows "(\<forall>e. specialist_select r q = Err e \<longleftrightarrow> request_validate q = Err e) \<and>
    (specialist_select r q = Ok (Some p) \<longleftrightarrow> request_validate q = Ok () \<and>
       (\<exists>a. profile_of r a = Some p \<and> profile_satisfies q p \<and>
         (\<forall>b p'. profile_of r b = Some p' \<and> profile_satisfies q p' \<longrightarrow> a \<le> b))) \<and>
    (specialist_select r q = Ok None \<longleftrightarrow> request_validate q = Ok () \<and>
       \<not> (\<exists>b p'. profile_of r b = Some p' \<and> profile_satisfies q p'))"
proof (intro conjI allI)
  show "specialist_select r q = Err e \<longleftrightarrow> request_validate q = Err e" for e
    by (simp add: specialist_select_def and_then_Err_iff)
  show "specialist_select r q = Ok (Some p) \<longleftrightarrow> request_validate q = Ok () \<and>
       (\<exists>a. profile_of r a = Some p \<and> profile_satisfies q p \<and>
         (\<forall>b p'. profile_of r b = Some p' \<and> profile_satisfies q p' \<longrightarrow> a \<le> b))"
    by (simp add: specialist_select_def bm_find_values profile_of_def linorder_not_less [symmetric])
      blast
  show "specialist_select r q = Ok None \<longleftrightarrow> request_validate q = Ok () \<and>
       \<not> (\<exists>b p'. profile_of r b = Some p' \<and> profile_satisfies q p')"
    by (auto simp: specialist_select_def find_None_iff bm_values_iff profile_of_def)
qed

section \<open>Witnesses\<close>

definition example_specialist :: specialist_profile where
  "example_specialist = specialist_profile_new 7 ''Reviewer''"

definition example_agent :: agent_identity where
  "example_agent = \<lparr>agent_ident = 7, agent_name = ''a'', agent_mission = ''m'',
     agent_model = model_ref_new ''p'' ''m'' Local\<rparr>"

lemmas specialist_eval = example_specialist_def specialist_profile_new_def profile_validate_def
  sp_validate_text_def sp_validate_items_def trim_is_empty_def SP_MAX_ROLE_BYTES_def
  SP_MAX_ITEM_BYTES_def SP_MAX_ITEMS_def SP_MAX_PAYLOAD_BYTES_def specialist_registry_default_def

lemma example_specialist_encodes:
  "\<exists>bs. sp_encode_transition (SpecialistRegistered example_specialist) = Ok bs"
  by (simp add: specialist_eval write_bounded_def write_seq.simps write_u8_def write_u64_def
      sp_write_string_def sp_write_string_list_def write_u32_def write_bytes_def write_counted_def
      write_u16_def write_flag_def)

lemma example_specialist_valid: "profile_validate example_specialist = Ok ()"
  by (simp add: specialist_eval)

lemma example_specialist_utf8: "specialist_utf8 (SpecialistRegistered example_specialist)"
  by (simp add: example_specialist_def specialist_profile_new_def is_utf8_def)

theorem recovered_specialists_witness:
  "\<exists>bs r. sp_from_events [\<lparr>event_ident = 1, event_run = 1, occurred_at_ms = 0,
        event_knd = AgentCreated example_agent\<rparr>, \<lparr>event_ident = 2, event_run = 1, occurred_at_ms = 0,
        event_knd = SpecialistTransition SPECIALIST_SCHEMA_VERSION bs\<rparr>] = Ok r \<and>
     profile_of r 7 = Some example_specialist \<and>
     registered_in [AgentCreated example_agent, SpecialistTransition SPECIALIST_SCHEMA_VERSION bs] {}
       example_specialist"
proof -
  obtain bs where bs: "sp_encode_transition (SpecialistRegistered example_specialist) = Ok bs"
    using example_specialist_encodes by blast
  have dec: "sp_decode_transition SPECIALIST_SCHEMA_VERSION bs = Ok (SpecialistRegistered example_specialist)"
    using example_specialist_utf8 bs by (rule sp_decode_encode)
  define r where "r = \<lparr>sr_profiles = bm_insert 7 example_specialist bm_empty\<rparr>"
  have own: "sp_agent example_specialist = 7" "agent_ident example_agent = 7"
    by (simp_all add: example_specialist_def specialist_profile_new_def example_agent_def)
  have run: "sp_from_events [\<lparr>event_ident = 1, event_run = 1, occurred_at_ms = 0,
        event_knd = AgentCreated example_agent\<rparr>, \<lparr>event_ident = 2, event_run = 1, occurred_at_ms = 0,
        event_knd = SpecialistTransition SPECIALIST_SCHEMA_VERSION bs\<rparr>] = Ok r"
    by (simp add: sp_from_events_def dec own example_specialist_valid r_def specialist_registry_default_def)
  moreover have "profile_of r 7 = Some example_specialist"
    by (simp add: r_def profile_of_def)
  ultimately show ?thesis
    using recovered_specialists [OF run, of 7 example_specialist] by auto
qed

theorem specialist_selection_witness:
  "specialist_select \<lparr>sr_profiles = bm_insert 7 example_specialist bm_empty\<rparr>
     (specialist_request_new ''reviewer'') = Ok (Some example_specialist)"
proof -
  have "request_validate (specialist_request_new ''reviewer'') = Ok ()"
    by (simp add: request_validate_def specialist_request_new_def specialist_eval)
  moreover have "profile_satisfies (specialist_request_new ''reviewer'') example_specialist"
    by (simp add: profile_satisfies_def specialist_request_new_def example_specialist_def
        specialist_profile_new_def eq_ignore_ascii_case_def ascii_lower_def char_of_def bit_0)
  ultimately show ?thesis
    using specialist_selection [of "\<lparr>sr_profiles = bm_insert 7 example_specialist bm_empty\<rparr>"
        "specialist_request_new ''reviewer''" example_specialist]
    by (auto simp: profile_of_def split: if_splits)
qed

end
