(* ===== verification/Conversation.thy ===== *)
theory Conversation
  imports Event_Sourcing
begin

text \<open>
  The module \<^verbatim>\<open>crates/runtime/src/conversation.rs\<close>: the durable turns between the user and the
  coordinating agent, with a payload of fixed header and bounded content. Errors are messages.
\<close>

section \<open>Turns\<close>

definition CONVERSATION_SCHEMA_VERSION :: u16 where "CONVERSATION_SCHEMA_VERSION = 1"
definition MAX_CONTENT_BYTES :: nat where "MAX_CONTENT_BYTES = 16 * 1024"
definition HEADER_BYTES :: nat where "HEADER_BYTES = 1 + 8 + 4"

datatype conversation_speaker = SpeakerUser | SpeakerCoordinator agent_id

record conversation_turn =
  turn_speaker :: conversation_speaker
  turn_content :: string

definition user_turn :: "string \<Rightarrow> conversation_turn" where
  "user_turn c = \<lparr>turn_speaker = SpeakerUser, turn_content = c\<rparr>"

definition coordinator_turn :: "agent_id \<Rightarrow> string \<Rightarrow> conversation_turn" where
  "coordinator_turn a c = \<lparr>turn_speaker = SpeakerCoordinator a, turn_content = c\<rparr>"

definition turn_validate :: "conversation_turn \<Rightarrow> (unit, string) result" where
  "turn_validate t =
     (if turn_speaker t = SpeakerCoordinator 0 then Err ''coordinator agent ID cannot be zero''
      else if trim_is_empty (turn_content t) then Err ''conversation turn is empty''
      else if MAX_CONTENT_BYTES < length (turn_content t) then Err ''conversation turn exceeds 16 KiB''
      else if CHR 0x00 \<in> set (turn_content t) then Err ''conversation turn contains a NUL character''
      else Ok ())"

fun speaker_header :: "conversation_speaker \<Rightarrow> u8 \<times> u64" where
  "speaker_header SpeakerUser = (0, 0)"
| "speaker_header (SpeakerCoordinator a) = (1, a)"

definition turn_encode :: "conversation_turn \<Rightarrow> (u8 list, string) result" where
  "turn_encode t = and_then (turn_validate t) (\<lambda>_.
     let (tag, agent) = speaker_header (turn_speaker t)
     in Ok ([tag] @ to_le_bytes agent @ to_le_bytes (of_nat (length (turn_content t)) :: u32)
          @ as_bytes (turn_content t)))"

definition header_speaker :: "u8 \<Rightarrow> u64 \<Rightarrow> (conversation_speaker, string) result" where
  "header_speaker tag agent =
     (if tag = 0 \<and> agent = 0 then Ok SpeakerUser
      else if tag = 1 \<and> agent \<noteq> 0 then Ok (SpeakerCoordinator agent)
      else Err ''invalid conversation speaker'')"

definition turn_decode :: "u16 \<Rightarrow> u8 list \<Rightarrow> (conversation_turn, string) result" where
  "turn_decode version bytes =
     (if version \<noteq> CONVERSATION_SCHEMA_VERSION
      then Err (''unsupported conversation schema version '' @ show_nat (unat version))
      else if length bytes < HEADER_BYTES then Err ''truncated conversation turn''
      else
        let agent = from_le_bytes (take 8 (drop 1 bytes)) :: u64;
            len = unat (from_le_bytes (take 4 (drop 9 bytes)) :: u32)
        in if MAX_CONTENT_BYTES < len \<or> length bytes \<noteq> HEADER_BYTES + len
           then Err ''invalid conversation content length''
           else and_then (header_speaker (bytes ! 0) agent) (\<lambda>speaker.
                and_then (ok_or (from_utf8 (drop HEADER_BYTES bytes))
                    ''conversation content is not UTF-8'') (\<lambda>content.
                  let t = \<lparr>turn_speaker = speaker, turn_content = content\<rparr>
                  in and_then (turn_validate t) (\<lambda>_. Ok t))))"

section \<open>The codec\<close>

lemma header_speaker_Ok_iff:
  "header_speaker tag agent = Ok s \<longleftrightarrow>
     (tag, agent) = speaker_header s \<and> s \<noteq> SpeakerCoordinator 0"
  by (cases s) (auto simp: header_speaker_def)

lemma turn_encode_Ok_iff:
  "turn_encode t = Ok bs \<longleftrightarrow> turn_validate t = Ok () \<and>
     bs = [fst (speaker_header (turn_speaker t))] @ to_le_bytes (snd (speaker_header (turn_speaker t)))
        @ to_le_bytes (of_nat (length (turn_content t)) :: u32) @ as_bytes (turn_content t)"
  by (auto simp: turn_encode_def split_beta)

lemma turn_eta [simp]: "\<lparr>turn_speaker = turn_speaker t, turn_content = turn_content t\<rparr> = t"
  by simp

lemma turn_validate_length: "turn_validate t = Ok () \<Longrightarrow> length (turn_content t) \<le> MAX_CONTENT_BYTES"
  by (auto simp: turn_validate_def split: if_splits)

lemma turn_validate_speaker: "turn_validate t = Ok () \<Longrightarrow> turn_speaker t \<noteq> SpeakerCoordinator 0"
  by (auto simp: turn_validate_def)

lemma turn_decode_encode:
  assumes "is_utf8 (turn_content t)" and "turn_encode t = Ok bs"
  shows "turn_decode CONVERSATION_SCHEMA_VERSION bs = Ok t"
proof -
  obtain tag agent where hd: "speaker_header (turn_speaker t) = (tag, agent)" by fastforce
  have valid: "turn_validate t = Ok ()"
    and bs: "bs = [tag] @ to_le_bytes agent @ to_le_bytes (of_nat (length (turn_content t)) :: u32)
        @ as_bytes (turn_content t)"
    using assms(2) hd by (simp_all add: turn_encode_Ok_iff)
  have len: "unat (of_nat (length (turn_content t)) :: u32) = length (turn_content t)"
    using turn_validate_length [OF valid]
    by (simp add: unsigned_of_nat take_bit_nat_eq_self MAX_CONTENT_BYTES_def)
  have "header_speaker tag agent = Ok (turn_speaker t)"
    using hd turn_validate_speaker [OF valid] by (simp add: header_speaker_Ok_iff)
  then show ?thesis
    using turn_validate_length [OF valid] valid assms(1)
    by (simp add: turn_decode_def bs HEADER_BYTES_def from_to_le_bytes len Let_def
        linorder_not_less [THEN iffD2])
qed

lemma turn_decode_canonical:
  assumes "turn_decode v bs = Ok t"
  shows "v = CONVERSATION_SCHEMA_VERSION \<and> is_utf8 (turn_content t) \<and> turn_encode t = Ok bs"
proof -
  define agent where "agent = (from_le_bytes (take 8 (drop 1 bs)) :: u64)"
  define len where "len = unat (from_le_bytes (take 4 (drop 9 bs)) :: u32)"
  note assms = assms [unfolded turn_decode_def Let_def, folded agent_def len_def]
  from assms have v: "v = CONVERSATION_SCHEMA_VERSION" and long: "HEADER_BYTES \<le> length bs"
    and len_bs: "length bs = HEADER_BYTES + len"
    and sp: "header_speaker (bs ! 0) agent = Ok (turn_speaker t)"
    and content: "from_utf8 (drop HEADER_BYTES bs) = Some (turn_content t)"
    and valid: "turn_validate t = Ok ()"
    by (auto split: if_splits)
  have "is_utf8 (turn_content t)" and body: "as_bytes (turn_content t) = drop 13 bs"
    using from_utf8_SomeD [OF content] by (simp_all add: HEADER_BYTES_def)
  have "length (turn_content t) = len"
    using arg_cong [OF body, of length] len_bs by (simp add: HEADER_BYTES_def)
  then have size: "to_le_bytes (of_nat (length (turn_content t)) :: u32) = take 4 (drop 9 bs)"
    using long by (simp add: len_def to_from_le_bytes HEADER_BYTES_def)
  have hdr: "bs ! 0 = fst (speaker_header (turn_speaker t))"
      "snd (speaker_header (turn_speaker t)) = agent"
    using sp by (auto simp: header_speaker_Ok_iff prod_eq_iff)
  have id: "to_le_bytes (snd (speaker_header (turn_speaker t))) = take 8 (drop 1 bs)"
    using long by (simp add: hdr(2) agent_def to_from_le_bytes HEADER_BYTES_def)
  have "bs = [bs ! 0] @ drop 1 bs"
    using long by (cases bs) (simp_all add: HEADER_BYTES_def)
  also have "drop 1 bs = take 8 (drop 1 bs) @ drop 9 bs"
    using append_take_drop_id [of 8 "drop 1 bs"] by simp
  also have "drop 9 bs = take 4 (drop 9 bs) @ drop 13 bs"
    using append_take_drop_id [of 4 "drop 9 bs"] by simp
  finally have "bs = [bs ! 0] @ take 8 (drop 1 bs) @ take 4 (drop 9 bs) @ drop 13 bs" .
  then have "turn_encode t = Ok bs"
    using valid by (simp only: turn_encode_Ok_iff id size body hdr(1))
  with v \<open>is_utf8 (turn_content t)\<close> show ?thesis by simp
qed

interpretation turn: payload_codec turn_encode turn_decode CONVERSATION_SCHEMA_VERSION
    "\<lambda>t. is_utf8 (turn_content t)" "\<lambda>t. t"
  by unfold_locales (rule turn_decode_encode)

section \<open>Properties\<close>

text \<open>
  the conversation codec is exact. A payload decodes to a turn exactly if the version is the
  current one, the content is a string, and encoding that turn gives these very bytes. So every
  encoded turn is read back, and no turn has two payloads.
\<close>

theorem conversation_codec_exact:
  "turn_decode v bs = Ok t \<longleftrightarrow>
     v = CONVERSATION_SCHEMA_VERSION \<and> is_utf8 (turn_content t) \<and> turn_encode t = Ok bs"
  using turn_decode_canonical turn_decode_encode by blast

end
