(* ===== verification/Context_Graph.thy ===== *)
theory Context_Graph
  imports Wire "HOL-Library.While_Combinator"
begin

text \<open>
  The crate \<^verbatim>\<open>crates/context\<close>, its state: versioned blocks of context in namespaces, with their
  dependencies, trust and lifecycle. Publishing a new version supersedes the previous one and
  marks everything that depends on it stale; blocks are invalidated, archived, restored and pinned
  by operations that are recorded as transitions. This theory has the data, the operations and the
  application of transitions; what is proved of them is in \<open>Context_Invariants\<close>.

  The fresh identifiers of \<open>ContextBlockId::new\<close> and \<open>SubscriptionId::new\<close> are arguments, and so is
  the resolver of artifacts that replay is given. A \<open>ContentHash\<close> is its list of 32 bytes, a
  \<open>ContextRef\<close> the pair of its fields, in the order of the derived \<open>Ord\<close>.
\<close>

section \<open>Data\<close>

type_synonym context_block_id = u64
type_synonym subscription_id = u64
type_synonym content_hash = "u8 list"
type_synonym context_ref = "context_block_id \<times> u64"

datatype context_kind =
    KindNote
  | KindProject
  | KindContract
  | KindTask
  | KindResult
  | KindArtifactReference
  | KindCustom string

datatype context_scope = ScopeGlobal | ScopeTeam | ScopePrivate agent_id

datatype context_owner = OwnerRuntime | OwnerAgent agent_id

datatype context_trust_policy = AllowAll | ExcludeExternal | TrustedOnly

fun policy_allows :: "context_trust_policy \<Rightarrow> trust_origin \<Rightarrow> bool" where
  "policy_allows AllowAll t = True"
| "policy_allows ExcludeExternal t = (t \<in> {TrustedProject, UserProvided, Generated})"
| "policy_allows TrustedOnly t = (t \<in> {TrustedProject, UserProvided})"

datatype context_lifecycle =
    CxActive | CxStale | CxSuperseded | CxArchived | CxArchivedStale | CxInvalidated

record context_block =
  cb_id :: context_block_id
  cb_revision :: u64
  cb_namespace :: string
  cb_kind :: context_kind
  cb_owner :: context_owner
  cb_scope :: context_scope
  cb_hash :: content_hash
  cb_tokens :: u64
  cb_trust :: trust_origin
  cb_importance :: u8
  cb_lifecycle :: context_lifecycle
  cb_pinned :: bool
  cb_dependencies :: "context_ref list"
  cb_sources :: "context_ref list"
  cb_created_event :: "event_id option"
  cb_last_access :: "u64 option"

definition cb_ref :: "context_block \<Rightarrow> context_ref" where
  "cb_ref b = (cb_id b, cb_revision b)"

record context_draft =
  dr_namespace :: string
  dr_kind :: context_kind
  dr_owner :: context_owner
  dr_scope :: context_scope
  dr_content :: "u8 list"
  dr_tokens :: u64
  dr_trust :: trust_origin
  dr_importance :: u8
  dr_dependencies :: "context_ref list"
  dr_sources :: "context_ref list"
  dr_created_event :: "event_id option"

definition context_draft_new :: "string \<Rightarrow> context_kind \<Rightarrow> context_owner \<Rightarrow> context_scope
    \<Rightarrow> u8 list \<Rightarrow> context_draft" where
  "context_draft_new ns k ow sc c = \<lparr>dr_namespace = ns, dr_kind = k, dr_owner = ow, dr_scope = sc,
     dr_content = c, dr_tokens = 0, dr_trust = Generated, dr_importance = 50, dr_dependencies = [],
     dr_sources = [], dr_created_event = None\<rparr>"

record invalidation =
  inv_block :: context_ref
  inv_dependency :: "context_ref option"
  inv_reason :: string

datatype context_transition =
    CxCreated context_block "u8 list"
  | CxCreatedFromArtifact context_block "u8 list"
  | CxBecameSuperseded context_ref
  | CxBecameArchived context_ref
  | CxRestored context_ref
  | CxPinned context_ref
  | CxUnpinned context_ref
  | CxBecameInvalidated context_ref "context_ref option" string

record context_publication =
  cxp_block :: context_block
  cxp_transitions :: "context_transition list"
  cxp_invalidations :: "invalidation list"
  cxp_awakened :: "agent_id set"

record context_subscription =
  sub_ident :: subscription_id
  sub_agent :: agent_id
  sub_pattern :: string

datatype context_error =
    CxEmptyNamespace
  | CxInvalidPrivateScope
  | CxUnknownBlock context_ref
  | CxUnknownContent content_hash
  | CxHashCollision content_hash
  | CxMissingArtifact "u8 list"
  | CxArtifactResolution string
  | CxNotVisible context_ref
  | CxNotTrusted context_ref
  | CxTrustUpgrade context_ref context_ref
  | CxInvalidLifecycle context_ref string
  | CxInvalidSubscriptionPattern
  | CxInvalidSearchQuery string
  | CxInvalidEncoding string

record context_graph =
  cg_blocks :: "(context_block_id, context_block) bmap"
  cg_content :: "(content_hash, u8 list) bmap"
  cg_namespaces :: "(string, context_ref list) bmap"
  cg_subscriptions :: "(subscription_id, context_subscription) bmap"
  cg_invalidations :: "invalidation list"

definition context_graph_new :: context_graph where
  "context_graph_new = \<lparr>cg_blocks = bm_empty, cg_content = bm_empty, cg_namespaces = bm_empty,
     cg_subscriptions = bm_empty, cg_invalidations = []\<rparr>"

datatype context_principal = PrincipalRuntime | PrincipalAgent agent_id

section \<open>The content hash\<close>

definition hash_lanes :: "u64 list" where
  "hash_lanes = [0xcbf29ce484222325, 0x84222325cb29ce4, 0x9e3779b185ebca87, 0xd6e8feb86659fd93]"

definition hash_multipliers :: "u64 list" where
  "hash_multipliers = [0x100000001b3, xor 0x100000001b3 0x9e3779b97f4a7c15,
     xor 0x100000001b3 0xd6e8feb86659fd93, xor 0x100000001b3 0xa0761d6478bd642f]"

definition hash_step :: "u64 list \<Rightarrow> nat \<times> u8 \<Rightarrow> u64 list" where
  "hash_step lanes = (\<lambda>(index, byte).
     let lane = index mod 4;
         l1 = lanes[lane := xor (lanes ! lane) (ucast byte)];
         l2 = l1[lane := (l1 ! lane) * (hash_multipliers ! lane)]
     in l2[lane := xor (l2 ! lane) (word_rotl 13 (l2 ! ((lane + 1) mod 4)))])"

definition context_hash :: "u8 list \<Rightarrow> content_hash" where
  "context_hash bytes =
     concat (map to_le_bytes (foldl hash_step hash_lanes (enumerate 0 bytes)))"

definition estimate_tokens :: "u8 list \<Rightarrow> u64" where
  "estimate_tokens bytes = of_nat ((length bytes + 3) div 4)"

section \<open>Visibility and namespaces\<close>

fun can_view :: "context_principal \<Rightarrow> context_block \<Rightarrow> bool" where
  "can_view p b = (case cb_scope b of
       ScopeGlobal \<Rightarrow> True
     | ScopeTeam \<Rightarrow> True
     | ScopePrivate a \<Rightarrow> p = PrincipalRuntime \<or> p = PrincipalAgent a)"

definition strip_suffix :: "string \<Rightarrow> string \<Rightarrow> string option" where
  "strip_suffix s suffix =
     (let n = length s - length suffix
      in if length suffix \<le> length s \<and> drop n s = suffix then Some (take n s) else None)"

definition matches_namespace :: "string \<Rightarrow> string \<Rightarrow> bool" where
  "matches_namespace pattern ns =
     (if pattern = ''*'' then True
      else case strip_suffix pattern ''.*'' of
        Some prefix \<Rightarrow> starts_with ns prefix \<and> length prefix < length ns \<and> ns ! length prefix = CHR ''.''
      | None \<Rightarrow> pattern = ns)"

text \<open>\<open>Display\<close> of a reference: sixteen hexadecimal digits and the revision.\<close>

definition show_ref :: "context_ref \<Rightarrow> string" where
  "show_ref r = ''context-'' @ hex_digits 16 (unat (fst r)) @ ''@'' @ show_nat (unat (snd r))"

section \<open>Looking things up\<close>

definition cg_block :: "context_graph \<Rightarrow> context_ref \<Rightarrow> (context_block, context_error) result" where
  "cg_block g r = (case bm_get (cg_blocks g) (fst r) of
       None \<Rightarrow> Err (CxUnknownBlock r)
     | Some b \<Rightarrow> if cb_revision b \<noteq> snd r then Err (CxUnknownBlock r) else Ok b)"

definition content_of :: "context_graph \<Rightarrow> content_hash \<Rightarrow> (u8 list, context_error) result" where
  "content_of g h = ok_or (bm_get (cg_content g) h) (CxUnknownContent h)"

definition latest :: "context_graph \<Rightarrow> string \<Rightarrow> context_ref option" where
  "latest g ns = (case bm_get (cg_namespaces g) ns of
       None \<Rightarrow> None
     | Some versions \<Rightarrow> if versions = [] then None else Some (last versions))"

definition set_lifecycle :: "context_lifecycle \<Rightarrow> context_ref \<Rightarrow> context_graph \<Rightarrow> context_graph" where
  "set_lifecycle lc r g = (case bm_get (cg_blocks g) (fst r) of
       None \<Rightarrow> g
     | Some b \<Rightarrow> g\<lparr>cg_blocks := bm_insert (fst r) (b\<lparr>cb_lifecycle := lc\<rparr>) (cg_blocks g)\<rparr>)"

definition set_pinned :: "bool \<Rightarrow> context_ref \<Rightarrow> context_graph \<Rightarrow> context_graph" where
  "set_pinned p r g = (case bm_get (cg_blocks g) (fst r) of
       None \<Rightarrow> g
     | Some b \<Rightarrow> g\<lparr>cg_blocks := bm_insert (fst r) (b\<lparr>cb_pinned := p\<rparr>) (cg_blocks g)\<rparr>)"

section \<open>Staleness spreads to the dependents\<close>

text \<open>
  \<open>mark_dependents_stale\<close>: a stack of references whose dependents are to be visited, and the set of
  references already visited. The head of \<open>ms_queue\<close> is the end of the vector, where \<open>pop\<close> takes.
\<close>

record mark_state =
  ms_queue :: "context_ref list"
  ms_seen :: "context_ref set"
  ms_blocks :: "(context_block_id, context_block) bmap"
  ms_invalidations :: "invalidation list"

text \<open>The lifecycle an affected block gets; \<open>None\<close> for a block that is not affected.\<close>

fun stale_mark :: "context_lifecycle \<Rightarrow> context_lifecycle option" where
  "stale_mark CxActive = Some CxStale"
| "stale_mark CxStale = Some CxStale"
| "stale_mark CxArchived = Some CxArchivedStale"
| "stale_mark CxArchivedStale = None"
| "stale_mark CxSuperseded = None"
| "stale_mark CxInvalidated = None"

definition mark_dependent :: "string \<Rightarrow> context_ref \<Rightarrow> mark_state \<Rightarrow> context_ref \<Rightarrow> mark_state" where
  "mark_dependent reason dependency s d = (case bm_get (ms_blocks s) (fst d) of
       None \<Rightarrow> s
     | Some b \<Rightarrow>
         let s' = (case stale_mark (cb_lifecycle b) of
               None \<Rightarrow> s
             | Some lc \<Rightarrow>
                 s\<lparr>ms_blocks := bm_insert (fst d) (b\<lparr>cb_lifecycle := lc\<rparr>) (ms_blocks s),
                   ms_invalidations := ms_invalidations s @
                     [\<lparr>inv_block = d, inv_dependency = Some dependency, inv_reason = reason\<rparr>]\<rparr>)
         in s'\<lparr>ms_queue := d # ms_queue s'\<rparr>)"

definition dependents_of :: "(context_block_id, context_block) bmap \<Rightarrow> context_ref \<Rightarrow> context_ref list"
  where
  "dependents_of blocks r = map cb_ref (filter (\<lambda>b. r \<in> set (cb_dependencies b)) (bm_values blocks))"

definition mark_step :: "string \<Rightarrow> mark_state \<Rightarrow> mark_state" where
  "mark_step reason s = (case ms_queue s of
       [] \<Rightarrow> s
     | dependency # queue \<Rightarrow>
         let s = s\<lparr>ms_queue := queue\<rparr> in
         if dependency \<in> ms_seen s then s
         else foldl (mark_dependent reason dependency)
           (s\<lparr>ms_seen := insert dependency (ms_seen s)\<rparr>) (dependents_of (ms_blocks s) dependency))"

definition mark_start :: "(context_block_id, context_block) bmap \<Rightarrow> context_ref \<Rightarrow> mark_state" where
  "mark_start blocks cause =
     \<lparr>ms_queue = [cause], ms_seen = {}, ms_blocks = blocks, ms_invalidations = []\<rparr>"

definition mark_dependents_stale :: "context_ref \<Rightarrow> string \<Rightarrow> context_graph
    \<Rightarrow> invalidation list \<times> context_graph" where
  "mark_dependents_stale cause reason g =
     (let s = while (\<lambda>s. ms_queue s \<noteq> []) (mark_step reason) (mark_start (cg_blocks g) cause)
      in (ms_invalidations s, g\<lparr>cg_blocks := ms_blocks s\<rparr>))"

section \<open>Publishing\<close>

text \<open>The trust of a draft: the combination of its own and of everything it was made from.\<close>

definition draft_trust :: "context_graph \<Rightarrow> context_draft \<Rightarrow> (trust_origin, context_error) result" where
  "draft_trust g d =
     try_fold (\<lambda>t r. and_then (cg_block g r) (\<lambda>b. Ok (combine_trust t (cb_trust b))))
       (dr_trust d) (dr_dependencies d @ dr_sources d)"

definition store_content :: "content_hash \<Rightarrow> u8 list \<Rightarrow> context_graph
    \<Rightarrow> (unit, context_error) result \<times> context_graph" where
  "store_content h c g = (case bm_get (cg_content g) h of
       Some existing \<Rightarrow> if existing \<noteq> c then (Err (CxHashCollision h), g) else (Ok (), g)
     | None \<Rightarrow> (Ok (), g\<lparr>cg_content := bm_insert h c (cg_content g)\<rparr>))"

definition draft_check :: "context_graph \<Rightarrow> context_draft \<Rightarrow> (trust_origin, context_error) result" where
  "draft_check g d =
     (if trim_is_empty (dr_namespace d) then Err CxEmptyNamespace
      else if (case dr_scope d of ScopePrivate a \<Rightarrow> dr_owner d \<noteq> OwnerAgent a | _ \<Rightarrow> False)
        then Err CxInvalidPrivateScope
      else and_then (try_all (\<lambda>r. if bm_contains_key (cg_blocks g) (fst r) then Ok ()
                                  else Err (CxUnknownBlock r)) (dr_dependencies d @ dr_sources d))
        (\<lambda>_. draft_trust g d))"

definition draft_block :: "context_block_id \<Rightarrow> u64 \<Rightarrow> trust_origin \<Rightarrow> context_draft \<Rightarrow> context_block" where
  "draft_block i revision trust d =
     \<lparr>cb_id = i, cb_revision = revision, cb_namespace = dr_namespace d, cb_kind = dr_kind d,
      cb_owner = dr_owner d, cb_scope = dr_scope d, cb_hash = context_hash (dr_content d),
      cb_tokens = (if dr_tokens d = 0 then estimate_tokens (dr_content d) else dr_tokens d),
      cb_trust = trust, cb_importance = dr_importance d, cb_lifecycle = CxActive,
      cb_pinned = False, cb_dependencies = dr_dependencies d, cb_sources = dr_sources d,
      cb_created_event = dr_created_event d, cb_last_access = None\<rparr>"

definition add_block :: "context_block \<Rightarrow> context_graph \<Rightarrow> context_graph" where
  "add_block b g = g\<lparr>cg_blocks := bm_insert (cb_id b) b (cg_blocks g),
     cg_namespaces := bm_insert (cb_namespace b)
       ((case bm_get (cg_namespaces g) (cb_namespace b) of None \<Rightarrow> [] | Some vs \<Rightarrow> vs) @ [cb_ref b])
       (cg_namespaces g)\<rparr>"

definition superseded_reason :: "context_ref \<Rightarrow> string" where
  "superseded_reason r = ''dependency '' @ show_ref r @ '' was superseded''"

definition invalidation_transition :: "invalidation \<Rightarrow> context_transition" where
  "invalidation_transition i =
     CxBecameInvalidated (inv_block i) (inv_dependency i) (inv_reason i)"

definition awakened :: "context_graph \<Rightarrow> context_block \<Rightarrow> agent_id set" where
  "awakened g b = set (map sub_agent (filter (\<lambda>s. matches_namespace (sub_pattern s) (cb_namespace b) \<and>
     can_view (PrincipalAgent (sub_agent s)) b) (bm_values (cg_subscriptions g))))"

text \<open>
  \<open>publish\<close>. The next revision is a plain \<open>+ 1\<close>, which wraps in a release build and panics in a
  debug build.
\<close>

definition cx_publish :: "context_block_id \<Rightarrow> context_draft \<Rightarrow> context_graph
    \<Rightarrow> (context_publication, context_error) result \<times> context_graph" where
  "cx_publish fresh d g =
     (case draft_check g d of
        Err e \<Rightarrow> (Err e, g)
      | Ok trust \<Rightarrow>
          let previous = latest g (dr_namespace d);
              revision = (case previous of None \<Rightarrow> 1 | Some p \<Rightarrow> snd p + 1)
          in (case store_content (context_hash (dr_content d)) (dr_content d) g of
            (Err e, g') \<Rightarrow> (Err e, g')
          | (Ok _, g1) \<Rightarrow>
              let g2 = (case previous of None \<Rightarrow> g1 | Some p \<Rightarrow> set_lifecycle CxSuperseded p g1);
                  b = draft_block fresh revision trust d;
                  g3 = add_block b g2;
                  (invs, g4) = (case previous of
                      None \<Rightarrow> ([], g3)
                    | Some p \<Rightarrow> mark_dependents_stale p (superseded_reason p) g3);
                  g5 = g4\<lparr>cg_invalidations := cg_invalidations g4 @ invs\<rparr>;
                  ts = CxCreated b (dr_content d) #
                    (case previous of None \<Rightarrow> [] | Some p \<Rightarrow> [CxBecameSuperseded p]) @
                    map invalidation_transition invs;
                  published = (case bm_get (cg_blocks g5) fresh of Some b' \<Rightarrow> b' | None \<Rightarrow> b)
              in (Ok \<lparr>cxp_block = published, cxp_transitions = ts, cxp_invalidations = invs,
                   cxp_awakened = awakened g5 b\<rparr>, g5)))"

section \<open>The other operations\<close>

definition cx_subscribe :: "subscription_id \<Rightarrow> agent_id \<Rightarrow> string \<Rightarrow> context_graph
    \<Rightarrow> (subscription_id, context_error) result \<times> context_graph" where
  "cx_subscribe fresh a pattern g =
     (if trim_is_empty pattern then (Err CxInvalidSubscriptionPattern, g)
      else (Ok fresh, g\<lparr>cg_subscriptions := bm_insert fresh
        \<lparr>sub_ident = fresh, sub_agent = a, sub_pattern = pattern\<rparr> (cg_subscriptions g)\<rparr>))"

definition cx_unsubscribe :: "subscription_id \<Rightarrow> context_graph \<Rightarrow> bool \<times> context_graph" where
  "cx_unsubscribe i g = (bm_contains_key (cg_subscriptions g) i,
     g\<lparr>cg_subscriptions := bm_remove i (cg_subscriptions g)\<rparr>)"

definition cx_invalidate :: "context_ref \<Rightarrow> string \<Rightarrow> context_graph
    \<Rightarrow> (invalidation list, context_error) result \<times> context_graph" where
  "cx_invalidate r reason g = (case cg_block g r of
       Err e \<Rightarrow> (Err e, g)
     | Ok _ \<Rightarrow>
         let (marked, g') = mark_dependents_stale r reason (set_lifecycle CxInvalidated r g);
             invs = \<lparr>inv_block = r, inv_dependency = None, inv_reason = reason\<rparr> # marked
         in (Ok invs, g'\<lparr>cg_invalidations := cg_invalidations g' @ invs\<rparr>))"

definition dependencies_are_fresh :: "context_graph \<Rightarrow> context_block \<Rightarrow> bool" where
  "dependencies_are_fresh g b = list_all (\<lambda>r. case bm_get (cg_blocks g) (fst r) of
       None \<Rightarrow> False
     | Some d \<Rightarrow> cb_revision d = snd r \<and> cb_lifecycle d = CxActive)
     (cb_dependencies b @ cb_sources b)"

definition cx_archive :: "context_ref \<Rightarrow> context_graph
    \<Rightarrow> (context_transition, context_error) result \<times> context_graph" where
  "cx_archive r g = (case cg_block g r of
       Err e \<Rightarrow> (Err e, g)
     | Ok b \<Rightarrow>
         if cb_lifecycle b \<notin> {CxActive, CxStale} then (Err (CxInvalidLifecycle r ''archive''), g)
         else (Ok (CxBecameArchived r), set_lifecycle CxArchived r g))"

definition cx_restore :: "context_ref \<Rightarrow> context_graph
    \<Rightarrow> (context_transition, context_error) result \<times> context_graph" where
  "cx_restore r g = (case cg_block g r of
       Err e \<Rightarrow> (Err e, g)
     | Ok b \<Rightarrow>
         if cb_lifecycle b \<notin> {CxArchived, CxArchivedStale} then (Err (CxInvalidLifecycle r ''restore''), g)
         else (Ok (CxRestored r),
           set_lifecycle (if dependencies_are_fresh g b then CxActive else CxStale) r g))"

definition cx_pin :: "context_ref \<Rightarrow> context_graph
    \<Rightarrow> (context_transition, context_error) result \<times> context_graph" where
  "cx_pin r g = (case cg_block g r of
       Err e \<Rightarrow> (Err e, g)
     | Ok b \<Rightarrow>
         if cb_lifecycle b \<notin> {CxActive, CxStale} then (Err (CxInvalidLifecycle r ''pin''), g)
         else if cb_pinned b then (Err (CxInvalidLifecycle r ''pin''), g)
         else (Ok (CxPinned r), set_pinned True r g))"

definition cx_unpin :: "context_ref \<Rightarrow> context_graph
    \<Rightarrow> (context_transition, context_error) result \<times> context_graph" where
  "cx_unpin r g = (case cg_block g r of
       Err e \<Rightarrow> (Err e, g)
     | Ok b \<Rightarrow>
         if \<not> cb_pinned b then (Err (CxInvalidLifecycle r ''unpin''), g)
         else (Ok (CxUnpinned r), set_pinned False r g))"

section \<open>Applying transitions\<close>

text \<open>\<open>apply_created_block\<close>: the checks in the order of the code, then content, namespace and block.\<close>

definition created_checks :: "context_block \<Rightarrow> u8 list \<Rightarrow> context_graph \<Rightarrow> (unit, context_error) result"
  where
  "created_checks b c g =
     (if bm_contains_key (cg_blocks g) (cb_id b) then Err (CxHashCollision (cb_hash b))
      else if context_hash c \<noteq> cb_hash b then Err (CxHashCollision (cb_hash b))
      else try_all (\<lambda>r.
          if \<not> bm_contains_key (cg_blocks g) (fst r) then Err (CxUnknownBlock r)
          else and_then (cg_block g r) (\<lambda>d.
            if combine_trust (cb_trust b) (cb_trust d) \<noteq> cb_trust b
            then Err (CxTrustUpgrade (cb_ref b) r) else Ok ()))
        (cb_dependencies b @ cb_sources b))"

definition apply_created_block :: "context_block \<Rightarrow> u8 list \<Rightarrow> context_graph
    \<Rightarrow> (unit, context_error) result \<times> context_graph" where
  "apply_created_block b c g = (case created_checks b c g of
       Err e \<Rightarrow> (Err e, g)
     | Ok _ \<Rightarrow>
         (case store_content (cb_hash b) c g of
            (Err e, g') \<Rightarrow> (Err e, g')
          | (Ok _, g') \<Rightarrow> (Ok (), add_block b g')))"

fun discard :: "('a, 'e) result \<times> 's \<Rightarrow> (unit, 'e) result \<times> 's" where
  "discard (Ok _, s) = (Ok (), s)"
| "discard (Err e, s) = (Err e, s)"

definition replayed_stale :: "context_lifecycle \<Rightarrow> context_lifecycle" where
  "replayed_stale lc = (if lc \<in> {CxArchived, CxArchivedStale} then CxArchivedStale else CxStale)"

definition push_invalidation :: "context_ref \<Rightarrow> context_ref option \<Rightarrow> string \<Rightarrow> context_graph \<Rightarrow> context_graph"
  where
  "push_invalidation r dep reason g = g\<lparr>cg_invalidations := cg_invalidations g @
     [\<lparr>inv_block = r, inv_dependency = dep, inv_reason = reason\<rparr>]\<rparr>"

fun cx_apply :: "(u8 list \<Rightarrow> (u8 list, context_error) result) \<Rightarrow> context_transition \<Rightarrow> context_graph
    \<Rightarrow> (unit, context_error) result \<times> context_graph" where
  "cx_apply resolver (CxCreated b c) g = apply_created_block b c g"
| "cx_apply resolver (CxCreatedFromArtifact b h) g = (case resolver h of
       Err e \<Rightarrow> (Err e, g)
     | Ok c \<Rightarrow> apply_created_block b c g)"
| "cx_apply resolver (CxBecameSuperseded r) g = (case cg_block g r of
       Err e \<Rightarrow> (Err e, g)
     | Ok _ \<Rightarrow> (Ok (), set_lifecycle CxSuperseded r g))"
| "cx_apply resolver (CxBecameArchived r) g = discard (cx_archive r g)"
| "cx_apply resolver (CxRestored r) g = discard (cx_restore r g)"
| "cx_apply resolver (CxPinned r) g = discard (cx_pin r g)"
| "cx_apply resolver (CxUnpinned r) g = discard (cx_unpin r g)"
| "cx_apply resolver (CxBecameInvalidated r (Some dep) reason) g = (case cg_block g r of
       Err e \<Rightarrow> (Err e, g)
     | Ok b \<Rightarrow> (Ok (), push_invalidation r (Some dep) reason
         (set_lifecycle (replayed_stale (cb_lifecycle b)) r g)))"
| "cx_apply resolver (CxBecameInvalidated r None reason) g = (case cg_block g r of
       Err e \<Rightarrow> (Err e, g)
     | Ok _ \<Rightarrow> (Ok (), push_invalidation r None reason (set_lifecycle CxInvalidated r g)))"

definition replay_with_content :: "(u8 list \<Rightarrow> (u8 list, context_error) result)
    \<Rightarrow> context_transition list \<Rightarrow> (context_graph, context_error) result" where
  "replay_with_content resolver ts =
     try_fold (\<lambda>g t. commit (cx_apply resolver t g)) context_graph_new ts"

definition context_replay :: "context_transition list \<Rightarrow> (context_graph, context_error) result" where
  "context_replay ts = replay_with_content (\<lambda>h. Err (CxMissingArtifact h)) ts"

end
