(* ===== verification/Context_Marking.thy ===== *)
theory Context_Marking
  imports Context_Graph
begin

text \<open>
  The loop of \<open>mark_dependents_stale\<close>. Its specification is the closure of a block under the
  dependency edges of the graph: the loop ends, it has then marked exactly that closure, and every
  invalidation it reports is an edge of it.
\<close>

section \<open>The specification\<close>

type_synonym blocks = "(context_block_id, context_block) bmap"

definition keyed :: "blocks \<Rightarrow> bool" where
  "keyed B \<longleftrightarrow> (\<forall>k b. bm_get B k = Some b \<longrightarrow> cb_id b = k)"

text \<open>An edge leads from a reference to a block that depends on it.\<close>

definition dependency_edges :: "blocks \<Rightarrow> (context_ref \<times> context_ref) set" where
  "dependency_edges B = {(r, cb_ref b) | r k b. bm_get B k = Some b \<and> r \<in> set (cb_dependencies b)}"

definition dependents_closure :: "blocks \<Rightarrow> context_ref \<Rightarrow> context_ref set" where
  "dependents_closure B cause = (dependency_edges B)\<^sup>+ `` {cause}"

definition stale_lifecycle :: "context_lifecycle \<Rightarrow> context_lifecycle" where
  "stale_lifecycle lc = (case stale_mark lc of None \<Rightarrow> lc | Some lc' \<Rightarrow> lc')"

definition stale_in :: "context_ref set \<Rightarrow> context_block \<Rightarrow> context_block" where
  "stale_in M b =
     (if cb_ref b \<in> M then b\<lparr>cb_lifecycle := stale_lifecycle (cb_lifecycle b)\<rparr> else b)"

definition affected :: "blocks \<Rightarrow> context_ref \<Rightarrow> bool" where
  "affected B r \<longleftrightarrow> (\<exists>b. bm_get B (fst r) = Some b \<and> cb_ref b = r \<and> stale_mark (cb_lifecycle b) \<noteq> None)"

lemma stale_in_simps [simp]:
  "cb_ref (stale_in M b) = cb_ref b"
  "cb_id (stale_in M b) = cb_id b"
  "cb_revision (stale_in M b) = cb_revision b"
  "cb_dependencies (stale_in M b) = cb_dependencies b"
  by (simp_all add: stale_in_def cb_ref_def)

lemma stale_lifecycle_idem [simp]: "stale_lifecycle (stale_lifecycle lc) = stale_lifecycle lc"
  by (cases lc) (simp_all add: stale_lifecycle_def)

lemma keyed_get: "keyed B \<Longrightarrow> bm_get B k = Some b \<Longrightarrow> cb_id b = k"
  by (simp add: keyed_def)

lemma keyed_ref: "keyed B \<Longrightarrow> bm_get B k = Some b \<Longrightarrow> fst (cb_ref b) = k"
  by (simp add: keyed_def cb_ref_def)

lemma edges_target:
  assumes "keyed B" and "(r, d) \<in> dependency_edges B"
  shows "\<exists>b. bm_get B (fst d) = Some b \<and> cb_ref b = d"
  using assms by (auto simp: dependency_edges_def dest: keyed_ref)

section \<open>What the loop has done so far\<close>

text \<open>\<open>M\<close> is the set of references that have been marked.\<close>

definition marked :: "blocks \<Rightarrow> string \<Rightarrow> context_ref set \<Rightarrow> mark_state \<Rightarrow> bool" where
  "marked B reason M s \<longleftrightarrow>
     (\<forall>k. bm_get (ms_blocks s) k = map_option (stale_in M) (bm_get B k)) \<and>
     (\<forall>i \<in> set (ms_invalidations s). inv_reason i = reason \<and>
        (\<exists>d. inv_dependency i = Some d \<and> d \<in> ms_seen s \<and> (d, inv_block i) \<in> dependency_edges B)) \<and>
     inv_block ` set (ms_invalidations s) = {r \<in> M. affected B r}"

lemma stale_in_insert:
  assumes "keyed B" and "bm_get B k = Some b" and "k \<noteq> fst d"
  shows "stale_in (insert d M) b = stale_in M b"
  using assms by (auto simp: stale_in_def dest: keyed_ref)

lemma mark_dependent_marked:
  assumes inv: "marked B reason M s" and B: "keyed B"
    and edge: "(dep, d) \<in> dependency_edges B" and seen: "dep \<in> ms_seen s"
  shows "marked B reason (insert d M) (mark_dependent reason dep s d) \<and>
    ms_queue (mark_dependent reason dep s d) = d # ms_queue s \<and>
    ms_seen (mark_dependent reason dep s d) = ms_seen s"
proof -
  obtain b where b: "bm_get B (fst d) = Some b" "cb_ref b = d"
    using edges_target [OF B edge] by blast
  have get: "bm_get (ms_blocks s) (fst d) = Some (stale_in M b)"
    using inv b by (simp add: marked_def)
  have others: "bm_get (ms_blocks s) k = map_option (stale_in (insert d M)) (bm_get B k)"
    if "k \<noteq> fst d" for k
    using inv that stale_in_insert [OF B, of k _ d M] by (cases "bm_get B k") (auto simp: marked_def)
  have aff: "affected B d \<longleftrightarrow> stale_mark (cb_lifecycle b) \<noteq> None"
    using b by (auto simp: affected_def)
  show ?thesis
  proof (cases "stale_mark (cb_lifecycle (stale_in M b))")
    case None
    then have same: "stale_in M b = stale_in (insert d M) b" and "affected B d \<longrightarrow> d \<in> M"
      using b aff by (auto simp: stale_in_def stale_lifecycle_def split: option.splits if_splits)
    then have "{r \<in> insert d M. affected B r} = {r \<in> M. affected B r}" by blast
    moreover have "bm_get (ms_blocks s) k = map_option (stale_in (insert d M)) (bm_get B k)" for k
      using get same b others by (cases "k = fst d") simp_all
    moreover have "mark_dependent reason dep s d = s\<lparr>ms_queue := d # ms_queue s\<rparr>"
      using None get by (simp add: mark_dependent_def)
    ultimately show ?thesis using inv by (simp add: marked_def)
  next
    case (Some lc)
    then have lc: "(stale_in M b)\<lparr>cb_lifecycle := lc\<rparr> = stale_in (insert d M) b"
      and "affected B d"
      using b aff
      by (auto simp: stale_in_def stale_lifecycle_def split: if_splits elim!: stale_mark.elims)
    then have "{r \<in> insert d M. affected B r} = insert d {r \<in> M. affected B r}" by blast
    with Some get inv others lc b edge seen show ?thesis
      by (auto simp: mark_dependent_def marked_def simp del: split_paired_Ex)
  qed
qed

lemma mark_dependents_marked:
  assumes "marked B reason M s" and "keyed B"
    and "\<forall>d \<in> set ds. (dep, d) \<in> dependency_edges B" and "dep \<in> ms_seen s"
  shows "marked B reason (M \<union> set ds) (foldl (mark_dependent reason dep) s ds) \<and>
    ms_queue (foldl (mark_dependent reason dep) s ds) = rev ds @ ms_queue s \<and>
    ms_seen (foldl (mark_dependent reason dep) s ds) = ms_seen s"
  using assms
proof (induction ds arbitrary: s M)
  case Nil
  then show ?case by simp
next
  case (Cons d ds)
  have step: "marked B reason (insert d M) (mark_dependent reason dep s d) \<and>
    ms_queue (mark_dependent reason dep s d) = d # ms_queue s \<and>
    ms_seen (mark_dependent reason dep s d) = ms_seen s"
    using Cons.prems by (intro mark_dependent_marked) auto
  with Cons.IH [of "insert d M" "mark_dependent reason dep s d"] Cons.prems show ?case by simp
qed

lemma set_dependents_of:
  assumes "\<forall>k. bm_get blocks k = map_option (stale_in M) (bm_get B k)"
  shows "set (dependents_of blocks r) = dependency_edges B `` {r}"
proof (rule set_eqI)
  fix d
  have "d \<in> set (dependents_of blocks r) \<longleftrightarrow>
      (\<exists>k b. bm_get blocks k = Some b \<and> r \<in> set (cb_dependencies b) \<and> d = cb_ref b)"
    by (auto simp: dependents_of_def bm_values_iff)
  also have "\<dots> \<longleftrightarrow> (\<exists>k b. bm_get B k = Some b \<and> r \<in> set (cb_dependencies b) \<and> d = cb_ref b)"
    using assms by (simp add: map_option_eq_Some) (metis stale_in_simps(1,4))
  also have "\<dots> \<longleftrightarrow> d \<in> dependency_edges B `` {r}"
    unfolding dependency_edges_def Image_singleton_iff by blast
  finally show "d \<in> set (dependents_of blocks r) \<longleftrightarrow> d \<in> dependency_edges B `` {r}" .
qed

section \<open>The invariant of the loop\<close>

definition loop_inv :: "blocks \<Rightarrow> context_ref \<Rightarrow> string \<Rightarrow> mark_state \<Rightarrow> bool" where
  "loop_inv B cause reason s \<longleftrightarrow>
     marked B reason (dependency_edges B `` ms_seen s) s \<and>
     dependency_edges B `` ms_seen s \<subseteq> ms_seen s \<union> set (ms_queue s) \<and>
     ms_seen s \<union> set (ms_queue s) \<subseteq> insert cause (dependents_closure B cause) \<and>
     cause \<in> ms_seen s \<union> set (ms_queue s)"

lemma closure_step:
  "r \<in> insert cause (dependents_closure B cause) \<Longrightarrow> (r, d) \<in> dependency_edges B \<Longrightarrow>
     d \<in> dependents_closure B cause"
  by (auto simp: dependents_closure_def intro: trancl_into_trancl)

lemma closure_image:
  assumes "S \<subseteq> insert cause (dependents_closure B cause)"
  shows "dependency_edges B `` S \<subseteq> dependents_closure B cause"
proof
  fix d assume "d \<in> dependency_edges B `` S"
  then obtain r where "r \<in> S" and "(r, d) \<in> dependency_edges B" by (rule ImageE)
  with assms show "d \<in> dependents_closure B cause" by (blast intro: closure_step)
qed

lemma loop_inv_start: "loop_inv B cause reason (mark_start B cause)"
proof -
  have "map_option (stale_in {}) v = v" for v by (cases v) (simp_all add: stale_in_def)
  then show ?thesis by (simp add: loop_inv_def marked_def mark_start_def)
qed

lemma mark_step_skip:
  "ms_queue s = r # q \<Longrightarrow> r \<in> ms_seen s \<Longrightarrow> mark_step reason s = s\<lparr>ms_queue := q\<rparr>"
  by (simp add: mark_step_def)

lemma mark_step_visit:
  assumes "ms_queue s = r # q" and "r \<notin> ms_seen s" and "marked B reason M s" and "keyed B"
  shows "marked B reason (M \<union> dependency_edges B `` {r}) (mark_step reason s) \<and>
    set (ms_queue (mark_step reason s)) = dependency_edges B `` {r} \<union> set q \<and>
    ms_seen (mark_step reason s) = insert r (ms_seen s)"
proof -
  let ?s = "s\<lparr>ms_queue := q, ms_seen := insert r (ms_seen s)\<rparr>"
  let ?ds = "dependents_of (ms_blocks s) r"
  have ds: "set ?ds = dependency_edges B `` {r}"
    using assms(3) by (intro set_dependents_of [of _ M]) (simp add: marked_def)
  have "mark_step reason s = foldl (mark_dependent reason r) ?s ?ds"
    using assms(1,2) by (simp add: mark_step_def)
  moreover have "marked B reason M ?s" using assms(3) by (auto simp: marked_def)
  then have "marked B reason (M \<union> set ?ds) (foldl (mark_dependent reason r) ?s ?ds) \<and>
    ms_queue (foldl (mark_dependent reason r) ?s ?ds) = rev ?ds @ ms_queue ?s \<and>
    ms_seen (foldl (mark_dependent reason r) ?s ?ds) = ms_seen ?s"
    using assms(4) ds by (intro mark_dependents_marked) auto
  ultimately show ?thesis using ds by simp
qed

lemma loop_inv_step:
  assumes "keyed B" and "loop_inv B cause reason s" and "ms_queue s \<noteq> []"
  shows "loop_inv B cause reason (mark_step reason s)"
proof -
  obtain r q where q: "ms_queue s = r # q" using assms(3) by (cases "ms_queue s") auto
  show ?thesis
  proof (cases "r \<in> ms_seen s")
    case True
    with assms(2) q show ?thesis by (auto simp: loop_inv_def mark_step_skip marked_def)
  next
    case False
    let ?E = "dependency_edges B" and ?s' = "mark_step reason s"
    from assms(2) have inv: "marked B reason (?E `` ms_seen s) s"
        "?E `` ms_seen s \<subseteq> ms_seen s \<union> set (ms_queue s)"
        "ms_seen s \<union> set (ms_queue s) \<subseteq> insert cause (dependents_closure B cause)"
        "cause \<in> ms_seen s \<union> set (ms_queue s)"
      unfolding loop_inv_def by blast+
    have step: "marked B reason (?E `` ms_seen s \<union> ?E `` {r}) ?s'"
        "set (ms_queue ?s') = ?E `` {r} \<union> set q" "ms_seen ?s' = insert r (ms_seen s)"
      using mark_step_visit [OF q False inv(1) assms(1)] by blast+
    have edges: "?E `` insert r (ms_seen s) = ?E `` ms_seen s \<union> ?E `` {r}" by blast
    have "r \<in> insert cause (dependents_closure B cause)" using inv(3) q by auto
    then have "?E `` {r} \<subseteq> dependents_closure B cause"
      by (intro closure_image) simp
    then have "insert r (ms_seen s) \<union> (?E `` {r} \<union> set q) \<subseteq> insert cause (dependents_closure B cause)"
      using inv(3) q by auto
    moreover have "?E `` insert r (ms_seen s) \<subseteq> insert r (ms_seen s) \<union> (?E `` {r} \<union> set q)"
      unfolding edges using inv(2) q by auto
    moreover have "cause \<in> insert r (ms_seen s) \<union> (?E `` {r} \<union> set q)"
      using inv(4) q by auto
    moreover have "marked B reason (?E `` insert r (ms_seen s)) ?s'"
      unfolding edges by (rule step(1))
    ultimately show ?thesis unfolding loop_inv_def step(2,3) by blast
  qed
qed

section \<open>Termination\<close>

lemma closure_refs:
  "dependents_closure B cause \<subseteq> cb_ref ` set (bm_values B)"
proof
  fix r assume "r \<in> dependents_closure B cause"
  then have "(cause, r) \<in> (dependency_edges B)\<^sup>+" by (simp add: dependents_closure_def)
  then obtain y where "(y, r) \<in> dependency_edges B" by (cases rule: trancl.cases) blast+
  then obtain k b where "bm_get B k = Some b" "r = cb_ref b"
    unfolding dependency_edges_def by blast
  then have "b \<in> set (bm_values B)" unfolding bm_values_iff by blast
  with \<open>r = cb_ref b\<close> show "r \<in> cb_ref ` set (bm_values B)" by blast
qed

lemma finite_closure: "finite (dependents_closure B cause)"
  using closure_refs by (rule finite_subset) simp

definition loop_measure :: "blocks \<Rightarrow> context_ref \<Rightarrow> mark_state \<Rightarrow> nat \<times> nat" where
  "loop_measure B cause s =
     (card (insert cause (dependents_closure B cause) - ms_seen s), length (ms_queue s))"

lemma loop_measure_decreases:
  assumes "keyed B" and "loop_inv B cause reason s" and "ms_queue s \<noteq> []"
  shows "(loop_measure B cause (mark_step reason s), loop_measure B cause s) \<in> less_than <*lex*> less_than"
proof -
  obtain r q where q: "ms_queue s = r # q" using assms(3) by (cases "ms_queue s") auto
  show ?thesis
  proof (cases "r \<in> ms_seen s")
    case True
    with q show ?thesis by (simp add: loop_measure_def mark_step_skip)
  next
    case False
    let ?U = "insert cause (dependents_closure B cause)"
    have "r \<in> ?U - ms_seen s" using assms(2) q False by (auto simp: loop_inv_def)
    moreover have "finite (?U - ms_seen s)" by (simp add: finite_closure)
    ultimately have "card (?U - insert r (ms_seen s)) < card (?U - ms_seen s)"
      by (intro psubset_card_mono) auto
    moreover have "ms_seen (mark_step reason s) = insert r (ms_seen s)"
      using mark_step_visit [OF q False _ assms(1), of reason "dependency_edges B `` ms_seen s"] assms(2)
      by (simp add: loop_inv_def)
    ultimately show ?thesis by (simp add: loop_measure_def)
  qed
qed

lemma mark_loop_terminates:
  assumes "keyed B"
  shows "\<exists>s. while_option (\<lambda>s. ms_queue s \<noteq> []) (mark_step reason) (mark_start B cause) = Some s \<and>
    loop_inv B cause reason s \<and> ms_queue s = []"
proof -
  let ?b = "\<lambda>s. ms_queue s \<noteq> []"
  have "\<exists>s. while_option ?b (mark_step reason) (mark_start B cause) = Some s"
  proof (rule wf_while_option_Some [where P = "loop_inv B cause reason"])
    show "wf {(t, s). (loop_inv B cause reason s \<and> ?b s) \<and> t = mark_step reason s}"
      by (rule wf_subset [OF wf_inv_image [of "less_than <*lex*> less_than" "loop_measure B cause"]])
        (auto simp: wf_lex_prod loop_measure_decreases [OF assms] inv_image_def)
  qed (auto intro: loop_inv_start loop_inv_step [OF assms])
  then obtain s where s: "while_option ?b (mark_step reason) (mark_start B cause) = Some s" ..
  have "loop_inv B cause reason s"
    using s by (rule while_option_rule [rotated]) (auto intro: loop_inv_start loop_inv_step [OF assms])
  moreover have "ms_queue s = []" using while_option_stop [OF s] by simp
  ultimately show ?thesis using s by blast
qed

text \<open>At the end the visited references are the cause and its closure.\<close>

lemma loop_end:
  assumes "loop_inv B cause reason s" and "ms_queue s = []"
  shows "marked B reason (dependents_closure B cause) s"
proof -
  have closed: "dependency_edges B `` ms_seen s \<subseteq> ms_seen s" and "cause \<in> ms_seen s"
    and sub: "ms_seen s \<subseteq> insert cause (dependents_closure B cause)"
    using assms by (auto simp: loop_inv_def)
  have "(cause, r) \<in> (dependency_edges B)\<^sup>+ \<Longrightarrow> r \<in> dependency_edges B `` ms_seen s" for r
    by (induction rule: trancl_induct) (use closed \<open>cause \<in> ms_seen s\<close> in auto)
  then have "dependents_closure B cause \<subseteq> dependency_edges B `` ms_seen s"
    by (auto simp: dependents_closure_def)
  moreover have "dependency_edges B `` ms_seen s \<subseteq> dependents_closure B cause"
    using sub by (rule closure_image)
  ultimately have "dependency_edges B `` ms_seen s = dependents_closure B cause" by blast
  with assms(1) show ?thesis by (simp add: loop_inv_def)
qed

lemma mark_dependents_stale_marked:
  assumes "keyed (cg_blocks g)" and "mark_dependents_stale cause reason g = (invs, g')"
  shows "\<exists>s. marked (cg_blocks g) reason (dependents_closure (cg_blocks g) cause) s \<and>
    invs = ms_invalidations s \<and> g' = g\<lparr>cg_blocks := ms_blocks s\<rparr>"
proof -
  obtain s where s: "while_option (\<lambda>s. ms_queue s \<noteq> []) (mark_step reason)
      (mark_start (cg_blocks g) cause) = Some s"
    and inv: "loop_inv (cg_blocks g) cause reason s" "ms_queue s = []"
    using mark_loop_terminates [OF assms(1)] by blast
  have "mark_dependents_stale cause reason g = (ms_invalidations s, g\<lparr>cg_blocks := ms_blocks s\<rparr>)"
    unfolding mark_dependents_stale_def while_def s Let_def option.sel ..
  then have "invs = ms_invalidations s" and "g' = g\<lparr>cg_blocks := ms_blocks s\<rparr>"
    using assms(2) by simp_all
  then show ?thesis using loop_end [OF inv] by blast
qed

section \<open>Properties\<close>


section \<open>Witnesses\<close>

definition example_block :: "u64 \<Rightarrow> context_lifecycle \<Rightarrow> context_ref list \<Rightarrow> context_block" where
  "example_block i lc deps = \<lparr>cb_id = i, cb_revision = 1, cb_namespace = ''project'', cb_kind = KindNote,
     cb_owner = OwnerRuntime, cb_scope = ScopeGlobal, cb_hash = context_hash [], cb_tokens = 4,
     cb_trust = Generated, cb_importance = 50, cb_lifecycle = lc, cb_pinned = False,
     cb_dependencies = deps, cb_sources = [], cb_created_event = None, cb_last_access = None\<rparr>"


end
