(* ===== verification/Context_Invariants.thy ===== *)
theory Context_Invariants
  imports Context_Marking
begin

text \<open>
  What the operations of the context graph keep. Everything about a block but its lifecycle and its
  pin is fixed when it is created, so the invariant is stated on that \<open>core\<close>: it is kept by every
  operation that only changes the lifecycle or the pin, and only publication has to be looked at.
\<close>

section \<open>The core of the graph\<close>

definition core :: "context_block \<Rightarrow> context_block" where
  "core b = b\<lparr>cb_lifecycle := CxActive, cb_pinned := False\<rparr>"

type_synonym block_view = "context_block_id \<Rightarrow> context_block option"

definition cores :: "context_graph \<Rightarrow> block_view" where
  "cores g = (\<lambda>k. map_option core (bm_get (cg_blocks g) k))"

definition resolves :: "block_view \<Rightarrow> context_ref \<Rightarrow> context_block \<Rightarrow> bool" where
  "resolves V r b \<longleftrightarrow> V (fst r) = Some b \<and> cb_revision b = snd r"

definition block_ok :: "block_view \<Rightarrow> (content_hash, u8 list) bmap \<Rightarrow> (string, context_ref list) bmap
    \<Rightarrow> context_block_id \<Rightarrow> context_block \<Rightarrow> bool" where
  "block_ok V C N k b \<longleftrightarrow> cb_id b = k \<and>
     (\<exists>vs. bm_get N (cb_namespace b) = Some vs \<and> cb_ref b \<in> set vs) \<and>
     (\<exists>c. bm_get C (cb_hash b) = Some c \<and> context_hash c = cb_hash b) \<and>
     (\<forall>r \<in> set (cb_dependencies b @ cb_sources b). \<exists>d. resolves V r d \<and>
        policy_rank (cb_trust b) \<le> policy_rank (cb_trust d))"

definition namespace_ok :: "block_view \<Rightarrow> string \<Rightarrow> context_ref list \<Rightarrow> bool" where
  "namespace_ok V ns vs \<longleftrightarrow> vs \<noteq> [] \<and> (\<forall>r \<in> set vs. \<exists>b. resolves V r b \<and> cb_namespace b = ns)"

definition context_wf :: "context_graph \<Rightarrow> bool" where
  "context_wf g \<longleftrightarrow>
     (\<forall>k b. cores g k = Some b \<longrightarrow> block_ok (cores g) (cg_content g) (cg_namespaces g) k b) \<and>
     (\<forall>ns vs. bm_get (cg_namespaces g) ns = Some vs \<longrightarrow> namespace_ok (cores g) ns vs)"

text \<open>Two graphs that differ only in lifecycles, pins, subscriptions and the invalidation log.\<close>

definition same_shape :: "context_graph \<Rightarrow> context_graph \<Rightarrow> bool" where
  "same_shape g g' \<longleftrightarrow> cores g' = cores g \<and> cg_content g' = cg_content g \<and>
     cg_namespaces g' = cg_namespaces g"

lemma same_shape_refl [simp]: "same_shape g g"
  by (simp add: same_shape_def)

lemma same_shape_trans [trans]: "same_shape g h \<Longrightarrow> same_shape h k \<Longrightarrow> same_shape g k"
  by (simp add: same_shape_def)

lemma same_shape_wf: "same_shape g g' \<Longrightarrow> context_wf g \<Longrightarrow> context_wf g'"
  by (simp add: same_shape_def context_wf_def)

lemma core_simps [simp]:
  "cb_id (core b) = cb_id b" "cb_revision (core b) = cb_revision b" "cb_ref (core b) = cb_ref b"
  "cb_namespace (core b) = cb_namespace b" "cb_hash (core b) = cb_hash b"
  "cb_trust (core b) = cb_trust b" "cb_dependencies (core b) = cb_dependencies b"
  "cb_sources (core b) = cb_sources b"
  "core (b\<lparr>cb_lifecycle := lc\<rparr>) = core b" "core (b\<lparr>cb_pinned := p\<rparr>) = core b"
  by (simp_all add: core_def cb_ref_def)

lemma core_stale_in [simp]: "core (stale_in M b) = core b"
  by (simp add: stale_in_def)

lemma set_lifecycle_get:
  "bm_get (cg_blocks (set_lifecycle lc r g)) k =
     (if k = fst r then map_option (\<lambda>b. b\<lparr>cb_lifecycle := lc\<rparr>) (bm_get (cg_blocks g) k)
      else bm_get (cg_blocks g) k)"
  by (simp add: set_lifecycle_def split: option.split)

lemma set_pinned_get:
  "bm_get (cg_blocks (set_pinned p r g)) k =
     (if k = fst r then map_option (\<lambda>b. b\<lparr>cb_pinned := p\<rparr>) (bm_get (cg_blocks g) k)
      else bm_get (cg_blocks g) k)"
  by (simp add: set_pinned_def split: option.split)

lemma set_lifecycle_fields [simp]:
  "cg_content (set_lifecycle lc r g) = cg_content g"
  "cg_namespaces (set_lifecycle lc r g) = cg_namespaces g"
  "cg_subscriptions (set_lifecycle lc r g) = cg_subscriptions g"
  "cg_invalidations (set_lifecycle lc r g) = cg_invalidations g"
  "cg_content (set_pinned p r g) = cg_content g"
  "cg_namespaces (set_pinned p r g) = cg_namespaces g"
  by (simp_all add: set_lifecycle_def set_pinned_def split: option.split)

lemma same_shape_set_lifecycle: "same_shape g (set_lifecycle lc r g)"
  by (simp add: same_shape_def cores_def set_lifecycle_get option.map_comp o_def fun_eq_iff)

lemma same_shape_set_pinned: "same_shape g (set_pinned p r g)"
  by (simp add: same_shape_def cores_def set_pinned_get option.map_comp o_def fun_eq_iff)

lemma same_shape_invalidations: "same_shape g (g\<lparr>cg_invalidations := xs\<rparr>)"
  by (simp add: same_shape_def cores_def)

lemma context_wf_keyed: "context_wf g \<Longrightarrow> keyed (cg_blocks g)"
  unfolding keyed_def
proof (intro allI impI)
  fix k b assume wf: "context_wf g" and "bm_get (cg_blocks g) k = Some b"
  then have "cores g k = Some (core b)" by (simp add: cores_def)
  with wf have "cb_id (core b) = k" unfolding context_wf_def block_ok_def by blast
  then show "cb_id b = k" by simp
qed

lemma same_shape_marked:
  "marked (cg_blocks g) reason M s \<Longrightarrow> same_shape g (g\<lparr>cg_blocks := ms_blocks s\<rparr>)"
  by (simp add: same_shape_def cores_def marked_def option.map_comp o_def fun_eq_iff)

lemma same_shape_mark:
  assumes "context_wf g" and "mark_dependents_stale cause reason g = (invs, g')"
  shows "same_shape g g'"
  using mark_dependents_stale_marked [OF context_wf_keyed [OF assms(1)] assms(2)] same_shape_marked
  by blast

lemma cg_block_Ok_iff:
  "cg_block g r = Ok b \<longleftrightarrow> bm_get (cg_blocks g) (fst r) = Some b \<and> cb_revision b = snd r"
  by (auto simp: cg_block_def split: option.splits)

lemma resolves_cores:
  "resolves (cores g) r d \<longleftrightarrow> (\<exists>b. cg_block g r = Ok b \<and> d = core b)"
  by (auto simp: resolves_def cores_def cg_block_Ok_iff)

section \<open>Adding a block\<close>

lemma resolves_upd: "V i = None \<Longrightarrow> resolves V r d \<Longrightarrow> resolves (V(i \<mapsto> b)) r d"
  by (auto simp: resolves_def)

lemma add_block_fields [simp]:
  "cg_content (add_block b g) = cg_content g" "cg_subscriptions (add_block b g) = cg_subscriptions g"
  "cg_invalidations (add_block b g) = cg_invalidations g"
  "cg_blocks (add_block b g) = bm_insert (cb_id b) b (cg_blocks g)"
  by (simp_all add: add_block_def)

lemma cores_add_block: "cores (add_block b g) = (cores g)(cb_id b \<mapsto> core b)"
  by (auto simp: cores_def)

lemma add_block_wf:
  assumes wf: "context_wf g" and fresh: "bm_get (cg_blocks g) (cb_id b) = None"
    and content: "\<exists>c. bm_get (cg_content g) (cb_hash b) = Some c \<and> context_hash c = cb_hash b"
    and refs: "\<forall>r \<in> set (cb_dependencies b @ cb_sources b). \<exists>d. cg_block g r = Ok d \<and>
        policy_rank (cb_trust b) \<le> policy_rank (cb_trust d)"
  shows "context_wf (add_block b g)"
proof -
  let ?V = "cores g" and ?V' = "(cores g)(cb_id b \<mapsto> core b)"
  let ?vs = "case bm_get (cg_namespaces g) (cb_namespace b) of None \<Rightarrow> [] | Some vs \<Rightarrow> vs"
  let ?N' = "bm_insert (cb_namespace b) (?vs @ [cb_ref b]) (cg_namespaces g)"
  have none: "?V (cb_id b) = None" using fresh by (simp add: cores_def)
  note up = resolves_upd [of ?V "cb_id b", OF none, where b = "core b"]
  have keep: "block_ok ?V' (cg_content g) ?N' k d" if "block_ok ?V (cg_content g) (cg_namespaces g) k d" for k d
  proof -
    from that obtain vs where "bm_get (cg_namespaces g) (cb_namespace d) = Some vs" "cb_ref d \<in> set vs"
      unfolding block_ok_def by blast
    then have "\<exists>vs. bm_get ?N' (cb_namespace d) = Some vs \<and> cb_ref d \<in> set vs"
      by (cases "cb_namespace d = cb_namespace b") auto
    moreover have "\<exists>e. resolves ?V' r e \<and> policy_rank (cb_trust d) \<le> policy_rank (cb_trust e)"
      if "r \<in> set (cb_dependencies d @ cb_sources d)" for r
      using that \<open>block_ok ?V _ _ k d\<close> up unfolding block_ok_def by blast
    ultimately show ?thesis using that unfolding block_ok_def by blast
  qed
  have new: "block_ok ?V' (cg_content g) ?N' (cb_id b) (core b)"
  proof -
    have "\<exists>e. resolves ?V' r e \<and> policy_rank (cb_trust b) \<le> policy_rank (cb_trust e)"
      if r: "r \<in> set (cb_dependencies b @ cb_sources b)" for r
    proof -
      from refs r obtain d where "cg_block g r = Ok d" "policy_rank (cb_trust b) \<le> policy_rank (cb_trust d)"
        by blast
      then have "resolves ?V' r (core d) \<and> policy_rank (cb_trust b) \<le> policy_rank (cb_trust (core d))"
        by (intro conjI up) (auto simp: resolves_cores)
      then show ?thesis ..
    qed
    with content show ?thesis unfolding block_ok_def by simp
  qed
  have ns: "namespace_ok ?V' ns vs" if "namespace_ok ?V ns vs" for ns vs
    using that up unfolding namespace_ok_def by blast
  have "resolves ?V' (cb_ref b) (core b)" by (simp add: resolves_def cb_ref_def)
  moreover have "\<forall>r \<in> set ?vs. \<exists>d. resolves ?V' r d \<and> cb_namespace d = cb_namespace b"
  proof (cases "bm_get (cg_namespaces g) (cb_namespace b)")
    case (Some vs)
    with wf have "namespace_ok ?V (cb_namespace b) vs" unfolding context_wf_def by blast
    then have "namespace_ok ?V' (cb_namespace b) vs" by (rule ns)
    with Some show ?thesis by (simp add: namespace_ok_def)
  qed simp
  ultimately have nsb: "namespace_ok ?V' (cb_namespace b) (?vs @ [cb_ref b])"
    unfolding namespace_ok_def by auto
  have N': "cg_namespaces (add_block b g) = ?N'" by (simp add: add_block_def)
  show ?thesis
    unfolding context_wf_def cores_add_block N' add_block_fields
    using wf keep new ns nsb by (auto simp: context_wf_def)
qed

lemma store_content_Ok:
  assumes "store_content h c g = (Ok u, g')"
  shows "bm_get (cg_content g') h = Some c \<and> cg_blocks g' = cg_blocks g \<and>
    cg_namespaces g' = cg_namespaces g \<and> cg_subscriptions g' = cg_subscriptions g \<and>
    cg_invalidations g' = cg_invalidations g \<and>
    (\<forall>k v. bm_get (cg_content g) k = Some v \<longrightarrow> bm_get (cg_content g') k = Some v)"
  using assms by (auto simp: store_content_def split: option.splits if_splits)

lemma store_content_wf:
  assumes "context_wf g" and "store_content h c g = (Ok u, g')"
  shows "context_wf g'"
proof -
  note st = store_content_Ok [OF assms(2)]
  have "cores g' = cores g" using st by (simp add: cores_def)
  moreover have "block_ok V (cg_content g') N k b" if "block_ok V (cg_content g) N k b" for V N k b
    using that st unfolding block_ok_def by blast
  ultimately show ?thesis using assms(1) st by (simp add: context_wf_def)
qed

lemma store_content_Err: "store_content h c g = (Err e, g') \<Longrightarrow> g' = g"
  by (auto simp: store_content_def split: option.splits if_splits)

section \<open>Trust of drafts and of recorded blocks\<close>

lemma combine_keeps_iff: "combine_trust t u = t \<longleftrightarrow> policy_rank t \<le> policy_rank u"
  by (auto simp: combine_trust_def)

lemma draft_trust_fold:
  assumes "try_fold (\<lambda>t r. and_then (cg_block g r) (\<lambda>b. Ok (combine_trust t (cb_trust b)))) t0 rs = Ok t"
  shows "policy_rank t \<le> policy_rank t0 \<and>
    (\<forall>r \<in> set rs. \<exists>d. cg_block g r = Ok d \<and> policy_rank t \<le> policy_rank (cb_trust d))"
  using assms
proof (induction rs arbitrary: t0)
  case (Cons r rs)
  then obtain d where d: "cg_block g r = Ok d"
    and rest: "try_fold (\<lambda>t r. and_then (cg_block g r) (\<lambda>b. Ok (combine_trust t (cb_trust b))))
      (combine_trust t0 (cb_trust d)) rs = Ok t" by auto
  from Cons.IH [OF rest] d show ?case by (auto simp: policy_rank_combine)
qed simp

lemma draft_check_Ok:
  assumes "draft_check g d = Ok t"
  shows "policy_rank t \<le> policy_rank (dr_trust d) \<and>
    (\<forall>r \<in> set (dr_dependencies d @ dr_sources d). \<exists>b. cg_block g r = Ok b \<and>
       policy_rank t \<le> policy_rank (cb_trust b))"
  using assms draft_trust_fold [of g "dr_trust d" "dr_dependencies d @ dr_sources d" t]
  by (auto simp: draft_check_def draft_trust_def split: if_splits)

lemma created_checks_Ok:
  "created_checks b c g = Ok u \<longleftrightarrow>
     bm_get (cg_blocks g) (cb_id b) = None \<and> context_hash c = cb_hash b \<and>
     (\<forall>r \<in> set (cb_dependencies b @ cb_sources b). \<exists>d. cg_block g r = Ok d \<and>
        policy_rank (cb_trust b) \<le> policy_rank (cb_trust d))"
proof -
  have "(if \<not> bm_contains_key (cg_blocks g) (fst r) then Err (CxUnknownBlock r)
         else and_then (cg_block g r) (\<lambda>d. if combine_trust (cb_trust b) (cb_trust d) \<noteq> cb_trust b
           then Err (CxTrustUpgrade (cb_ref b) r) else Ok ())) = Ok () \<longleftrightarrow>
      (\<exists>d. cg_block g r = Ok d \<and> policy_rank (cb_trust b) \<le> policy_rank (cb_trust d))" for r
    by (auto simp: bm_contains_key_def cg_block_Ok_iff combine_keeps_iff split: if_splits)
  then show ?thesis
    by (simp add: created_checks_def try_all_Ok_iff bm_contains_key_def)
qed

lemma apply_created_block_wf:
  assumes wf: "context_wf g" and ok: "apply_created_block b c g = (Ok u, g')"
  shows "context_wf g'"
proof -
  from ok obtain g1 where checks: "created_checks b c g = Ok ()"
    and st: "store_content (cb_hash b) c g = (Ok (), g1)" and g': "g' = add_block b g1"
    by (auto simp: apply_created_block_def split: result.splits prod.splits)
  note st1 = store_content_Ok [OF st]
  have "cg_block g1 r = cg_block g r" for r using st1 by (simp add: cg_block_def)
  then show ?thesis
    unfolding g' using store_content_wf [OF wf st] checks st1
    by (intro add_block_wf) (auto simp: created_checks_Ok)
qed

section \<open>Every operation keeps the invariant\<close>

lemma context_wf_new: "context_wf context_graph_new"
  by (simp add: context_wf_def context_graph_new_def cores_def)

lemma same_shape_archive: "cx_archive r g = (x, g') \<Longrightarrow> same_shape g g'"
  by (auto simp: cx_archive_def same_shape_set_lifecycle split: result.splits if_splits)

lemma same_shape_restore: "cx_restore r g = (x, g') \<Longrightarrow> same_shape g g'"
  by (auto simp: cx_restore_def same_shape_set_lifecycle split: result.splits if_splits)

lemma same_shape_pin: "cx_pin r g = (x, g') \<Longrightarrow> same_shape g g'"
  by (auto simp: cx_pin_def same_shape_set_pinned split: result.splits if_splits)

lemma same_shape_unpin: "cx_unpin r g = (x, g') \<Longrightarrow> same_shape g g'"
  by (auto simp: cx_unpin_def same_shape_set_pinned split: result.splits if_splits)

lemma discard_Ok_iff: "discard p = (Ok u, s) \<longleftrightarrow> (\<exists>x. p = (Ok x, s))"
  by (cases p rule: discard.cases) auto

lemma same_shape_push: "same_shape g h \<Longrightarrow> same_shape g (push_invalidation r dep reason h)"
  by (simp add: same_shape_def push_invalidation_def cores_def)

lemma cx_apply_wf:
  assumes "context_wf g" and "cx_apply resolver t g = (Ok u, g')"
  shows "context_wf g'"
proof (cases t)
  case (CxCreated b c)
  with assms show ?thesis by (auto intro: apply_created_block_wf)
next
  case (CxCreatedFromArtifact b h)
  with assms show ?thesis by (auto intro: apply_created_block_wf split: result.splits)
next
  case (CxBecameInvalidated r dep reason)
  with assms show ?thesis
    by (cases dep)
      (auto split: result.splits intro: same_shape_wf same_shape_push same_shape_set_lifecycle)
qed (use assms in \<open>auto simp: discard_Ok_iff split: result.splits intro: same_shape_wf
    same_shape_set_lifecycle same_shape_archive same_shape_restore same_shape_pin same_shape_unpin\<close>)

section \<open>The parts of a successful publication\<close>

lemma draft_block_simps [simp]:
  "cb_id (draft_block i n t d) = i" "cb_revision (draft_block i n t d) = n"
  "cb_namespace (draft_block i n t d) = dr_namespace d"
  "cb_hash (draft_block i n t d) = context_hash (dr_content d)"
  "cb_trust (draft_block i n t d) = t" "cb_lifecycle (draft_block i n t d) = CxActive"
  "cb_dependencies (draft_block i n t d) = dr_dependencies d"
  "cb_sources (draft_block i n t d) = dr_sources d"
  by (simp_all add: draft_block_def)

lemma cx_publish_first:
  assumes "cx_publish fresh d g = (Ok p, g')" and "latest g (dr_namespace d) = None"
  obtains trust g1 where "draft_check g d = Ok trust"
    and "store_content (context_hash (dr_content d)) (dr_content d) g = (Ok (), g1)"
    and "g' = add_block (draft_block fresh 1 trust d) g1"
    and "cxp_transitions p = [CxCreated (draft_block fresh 1 trust d) (dr_content d)]"
  using assms by (auto simp: cx_publish_def Let_def split: result.splits prod.splits)

lemma cx_publish_next:
  assumes "cx_publish fresh d g = (Ok p, g')" and "latest g (dr_namespace d) = Some prev"
  obtains trust g1 invs g4 where "draft_check g d = Ok trust"
    and "store_content (context_hash (dr_content d)) (dr_content d) g = (Ok (), g1)"
    and "mark_dependents_stale prev (superseded_reason prev)
      (add_block (draft_block fresh (snd prev + 1) trust d) (set_lifecycle CxSuperseded prev g1)) = (invs, g4)"
    and "g' = g4\<lparr>cg_invalidations := cg_invalidations g4 @ invs\<rparr>"
    and "cxp_transitions p = CxCreated (draft_block fresh (snd prev + 1) trust d) (dr_content d) #
      CxBecameSuperseded prev # map invalidation_transition invs"
  using assms by (auto simp: cx_publish_def Let_def split: result.splits prod.splits)

lemma cx_publish_Err: "cx_publish fresh d g = (Err e, g') \<Longrightarrow> g' = g"
  by (auto simp: cx_publish_def Let_def split: result.splits prod.splits dest: store_content_Err)

lemma latest_resolves:
  assumes "context_wf g" and "latest g ns = Some r"
  shows "\<exists>b. cg_block g r = Ok b \<and> cb_namespace b = ns"
proof -
  from assms(2) obtain vs where vs: "bm_get (cg_namespaces g) ns = Some vs" "r = last vs" "vs \<noteq> []"
    by (auto simp: latest_def split: option.splits if_splits)
  with assms(1) have "namespace_ok (cores g) ns vs" unfolding context_wf_def by blast
  with vs show ?thesis unfolding namespace_ok_def resolves_cores by fastforce
qed

text \<open>The new block on a graph that has the checked references and the stored content.\<close>

lemma add_draft_wf:
  assumes wf: "context_wf g" and chk: "draft_check g d = Ok trust"
    and st: "store_content (context_hash (dr_content d)) (dr_content d) g = (Ok (), g1)"
    and fresh: "bm_get (cg_blocks g) fresh = None" and shape: "same_shape g1 h"
  shows "context_wf (add_block (draft_block fresh n trust d) h)"
proof -
  note st1 = store_content_Ok [OF st]
  have wf1: "context_wf h" using store_content_wf [OF wf st] shape by (blast intro: same_shape_wf)
  have same: "cores h = cores g" "cg_content h = cg_content g1"
    using shape st1 by (simp_all add: same_shape_def cores_def)
  have none: "bm_get (cg_blocks h) fresh = None"
    using fresh same(1) by (metis cores_def map_option_is_None)
  have refs: "\<exists>e. cg_block h r = Ok e \<and> policy_rank trust \<le> policy_rank (cb_trust e)"
    if r: "r \<in> set (dr_dependencies d @ dr_sources d)" for r
  proof -
    from draft_check_Ok [OF chk] r obtain e where "cg_block g r = Ok e"
      and rank: "policy_rank trust \<le> policy_rank (cb_trust e)" by blast
    then have "resolves (cores h) r (core e)" unfolding same(1) resolves_cores by blast
    then obtain e' where "cg_block h r = Ok e'" "core e = core e'" unfolding resolves_cores by blast
    with rank show ?thesis by (metis core_simps(6))
  qed
  show ?thesis
    using wf1 none refs st1 same(2) by (intro add_block_wf) auto
qed

lemma cx_publish_wf:
  assumes wf: "context_wf g" and fresh: "bm_get (cg_blocks g) fresh = None"
    and pub: "cx_publish fresh d g = (x, g')"
  shows "context_wf g'"
proof (cases x)
  case (Err e)
  with pub wf show ?thesis by (auto dest: cx_publish_Err)
next
  case (Ok p)
  note pub = pub [unfolded Ok]
  show ?thesis
  proof (cases "latest g (dr_namespace d)")
    case None
    with pub wf fresh show ?thesis
      by (elim cx_publish_first) (auto intro: add_draft_wf)
  next
    case (Some prev)
    from cx_publish_next [OF pub Some] obtain trust g1 invs g4 where chk: "draft_check g d = Ok trust"
      and st: "store_content (context_hash (dr_content d)) (dr_content d) g = (Ok (), g1)"
      and mark: "mark_dependents_stale prev (superseded_reason prev)
        (add_block (draft_block fresh (snd prev + 1) trust d) (set_lifecycle CxSuperseded prev g1)) = (invs, g4)"
      and g': "g' = g4\<lparr>cg_invalidations := cg_invalidations g4 @ invs\<rparr>" .
    have "context_wf (add_block (draft_block fresh (snd prev + 1) trust d) (set_lifecycle CxSuperseded prev g1))"
      using wf chk st fresh same_shape_set_lifecycle by (rule add_draft_wf)
    then show ?thesis
      using same_shape_mark [OF _ mark] unfolding g'
      by (blast intro: same_shape_wf same_shape_invalidations)
  qed
qed

section \<open>Replaying invalidations\<close>

text \<open>
  Recorded invalidations, applied one after the other to the blocks before the spread, mark the
  blocks they name.
\<close>

lemma replayed_stale_affected:
  "stale_mark lc \<noteq> None \<Longrightarrow> replayed_stale (stale_lifecycle lc) = stale_lifecycle lc \<and>
     replayed_stale lc = stale_lifecycle lc"
  by (cases lc) (simp_all add: replayed_stale_def stale_lifecycle_def)

lemma replay_invalidations:
  assumes "keyed B"
    and "\<forall>i \<in> set invs. affected B (inv_block i) \<and> inv_dependency i \<noteq> None"
    and "\<forall>k. bm_get (cg_blocks g) k = map_option (stale_in M) (bm_get B k)"
  shows "\<exists>g'. try_fold (\<lambda>g t. commit (cx_apply resolver t g)) g (map invalidation_transition invs) = Ok g' \<and>
    (\<forall>k. bm_get (cg_blocks g') k = map_option (stale_in (M \<union> inv_block ` set invs)) (bm_get B k)) \<and>
    g' = g\<lparr>cg_blocks := cg_blocks g', cg_invalidations := cg_invalidations g @ invs\<rparr>"
  using assms(2,3)
proof (induction invs arbitrary: g M)
  case Nil
  then show ?case by simp
next
  case (Cons i invs)
  let ?r = "inv_block i"
  from Cons.prems(1) obtain b where b: "bm_get B (fst ?r) = Some b" "cb_ref b = ?r"
    and aff: "stale_mark (cb_lifecycle b) \<noteq> None" by (auto simp: affected_def)
  obtain dep where dep: "inv_dependency i = Some dep" using Cons.prems(1) by auto
  have get: "bm_get (cg_blocks g) (fst ?r) = Some (stale_in M b)" using Cons.prems(2) b by simp
  have blk: "cg_block g ?r = Ok (stale_in M b)"
    using get b by (simp add: cg_block_Ok_iff) (metis cb_ref_def snd_conv)
  let ?h = "push_invalidation ?r (Some dep) (inv_reason i)
    (set_lifecycle (replayed_stale (cb_lifecycle (stale_in M b))) ?r g)"
  have step: "commit (cx_apply resolver (invalidation_transition i) g) = Ok ?h"
    by (simp add: invalidation_transition_def dep blk)
  have this_block: "(stale_in M b)\<lparr>cb_lifecycle := replayed_stale (cb_lifecycle (stale_in M b))\<rparr>
      = stale_in (insert ?r M) b"
    using b aff replayed_stale_affected [of "cb_lifecycle b"] by (auto simp: stale_in_def)
  have h: "\<forall>k. bm_get (cg_blocks ?h) k = map_option (stale_in (insert ?r M)) (bm_get B k)"
  proof
    fix k
    show "bm_get (cg_blocks ?h) k = map_option (stale_in (insert ?r M)) (bm_get B k)"
    proof (cases "k = fst ?r")
      case True
      then show ?thesis using get b this_block by (simp add: push_invalidation_def set_lifecycle_get)
    next
      case False
      then show ?thesis
        using Cons.prems(2) stale_in_insert [OF assms(1), of k _ ?r M]
        by (cases "bm_get B k") (auto simp: push_invalidation_def set_lifecycle_get)
    qed
  qed
  have fields: "cg_invalidations ?h = cg_invalidations g @ [i]"
    "?h = g\<lparr>cg_blocks := cg_blocks ?h, cg_invalidations := cg_invalidations ?h\<rparr>"
    using get by (simp_all add: push_invalidation_def set_lifecycle_def flip: dep)
  from Cons.IH [OF _ h] Cons.prems(1) obtain g' where
    run: "try_fold (\<lambda>g t. commit (cx_apply resolver t g)) ?h (map invalidation_transition invs) = Ok g'"
    and blocks: "\<forall>k. bm_get (cg_blocks g') k =
      map_option (stale_in (insert ?r M \<union> inv_block ` set invs)) (bm_get B k)"
    and g': "g' = ?h\<lparr>cg_blocks := cg_blocks g', cg_invalidations := cg_invalidations ?h @ invs\<rparr>"
    by auto
  have "g' = g\<lparr>cg_blocks := cg_blocks g', cg_invalidations := cg_invalidations g @ i # invs\<rparr>"
    by (subst g', subst fields(2)) (simp add: fields(1))
  then show ?case using step run blocks by (intro exI [of _ g']) simp
qed

end
