(* ===== verification/Context_Operations.thy ===== *)
theory Context_Operations
  imports Context_Invariants
begin

text \<open>
  The context graph as a state machine: the steps are the operations of the live graph, the states
  those reached from the empty graph by operations and by replayed transitions. What holds in every
  state, what no operation changes, and that a publication is reproduced by its transitions.
\<close>

section \<open>Steps and states\<close>

inductive cx_live :: "context_graph \<Rightarrow> context_graph \<Rightarrow> bool" where
  live_publish: "bm_get (cg_blocks g) fresh = None \<Longrightarrow> cx_publish fresh d g = (pub, g') \<Longrightarrow> cx_live g g'"
| live_invalidate: "cx_invalidate r reason g = (invs, g') \<Longrightarrow> cx_live g g'"
| live_archive: "cx_archive r g = (t, g') \<Longrightarrow> cx_live g g'"
| live_restore: "cx_restore r g = (t, g') \<Longrightarrow> cx_live g g'"
| live_pin: "cx_pin r g = (t, g') \<Longrightarrow> cx_live g g'"
| live_unpin: "cx_unpin r g = (t, g') \<Longrightarrow> cx_live g g'"
| live_subscribe: "cx_subscribe i a pattern g = (s, g') \<Longrightarrow> cx_live g g'"
| live_unsubscribe: "cx_unsubscribe i g = (present, g') \<Longrightarrow> cx_live g g'"

inductive reachable_context :: "context_graph \<Rightarrow> bool" where
  reach_new: "reachable_context context_graph_new"
| reach_apply: "reachable_context g \<Longrightarrow> cx_apply resolver t g = (Ok (), g') \<Longrightarrow> reachable_context g'"
| reach_live: "reachable_context g \<Longrightarrow> cx_live g g' \<Longrightarrow> reachable_context g'"

lemma same_shape_subscribe: "cx_subscribe i a pattern g = (s, g') \<Longrightarrow> same_shape g g'"
  by (auto simp: cx_subscribe_def same_shape_def cores_def split: if_splits)

lemma same_shape_unsubscribe: "cx_unsubscribe i g = (p, g') \<Longrightarrow> same_shape g g'"
  by (auto simp: cx_unsubscribe_def same_shape_def cores_def)

lemma same_shape_invalidate:
  assumes "context_wf g" and "cx_invalidate r reason g = (x, g')"
  shows "same_shape g g'"
proof (cases "cg_block g r")
  case (Err e)
  with assms(2) show ?thesis by (simp add: cx_invalidate_def)
next
  case (Ok b)
  obtain invs h where mark: "mark_dependents_stale r reason (set_lifecycle CxInvalidated r g) = (invs, h)"
    by fastforce
  then have g': "\<exists>xs. g' = h\<lparr>cg_invalidations := xs\<rparr>"
    using assms(2) Ok by (auto simp: cx_invalidate_def Let_def)
  have "same_shape g (set_lifecycle CxInvalidated r g)" by (rule same_shape_set_lifecycle)
  also have "same_shape \<dots> h"
    using same_shape_wf [OF same_shape_set_lifecycle assms(1)] mark by (rule same_shape_mark)
  also from g' have "same_shape h g'" by (auto intro: same_shape_invalidations)
  finally show ?thesis .
qed

lemma cx_live_wf: "cx_live g g' \<Longrightarrow> context_wf g \<Longrightarrow> context_wf g'"
proof (induction rule: cx_live.induct)
  case (live_publish g fresh d pub g')
  then show ?case by (blast intro: cx_publish_wf)
next
  case (live_invalidate r reason g invs g')
  then show ?case by (blast intro: same_shape_wf same_shape_invalidate)
qed (blast intro: same_shape_wf same_shape_archive same_shape_restore same_shape_pin
      same_shape_unpin same_shape_subscribe same_shape_unsubscribe)+

lemma reachable_context_wf: "reachable_context g \<Longrightarrow> context_wf g"
  by (induction rule: reachable_context.induct) (blast intro: context_wf_new cx_apply_wf cx_live_wf)+

lemma replay_reachable:
  assumes "try_fold (\<lambda>g t. commit (cx_apply resolver t g)) g ts = Ok g'" and "reachable_context g"
  shows "reachable_context g'"
  using assms(1,2)
  by (rule try_fold_invariant) (auto simp: commit_Ok_iff intro: reach_apply)

section \<open>Retired blocks\<close>

definition retired :: "context_block \<Rightarrow> bool" where
  "retired b \<longleftrightarrow> cb_lifecycle b \<in> {CxSuperseded, CxInvalidated}"

text \<open>What a step does to the blocks that are there: they keep their core, and stay retired.\<close>

definition keeps_blocks :: "context_graph \<Rightarrow> context_graph \<Rightarrow> bool" where
  "keeps_blocks g g' \<longleftrightarrow> (\<forall>k b. bm_get (cg_blocks g) k = Some b \<longrightarrow>
     (\<exists>b'. bm_get (cg_blocks g') k = Some b' \<and> core b' = core b \<and> (retired b \<longrightarrow> retired b')))"

text \<open>A block that is not retired is the latest version of its namespace.\<close>

definition live_is_latest :: "context_graph \<Rightarrow> bool" where
  "live_is_latest g \<longleftrightarrow> (\<forall>k b. bm_get (cg_blocks g) k = Some b \<and> \<not> retired b \<longrightarrow>
     latest g (cb_namespace b) = Some (cb_ref b))"

lemma keeps_blocks_refl [simp]: "keeps_blocks g g"
  by (simp add: keeps_blocks_def)

lemma keeps_blocks_trans [trans]: "keeps_blocks g h \<Longrightarrow> keeps_blocks h k \<Longrightarrow> keeps_blocks g k"
  unfolding keeps_blocks_def by metis

lemma keeps_blocks_same: "cg_blocks g' = cg_blocks g \<Longrightarrow> keeps_blocks g g'"
  by (simp add: keeps_blocks_def)

lemma retired_stale_in [simp]: "retired (stale_in M b) = retired b"
  by (cases "cb_lifecycle b") (simp_all add: retired_def stale_in_def stale_lifecycle_def)

lemma keeps_blocks_set_lifecycle:
  assumes "\<And>b. bm_get (cg_blocks g) (fst r) = Some b \<Longrightarrow> retired b \<Longrightarrow> lc \<in> {CxSuperseded, CxInvalidated}"
  shows "keeps_blocks g (set_lifecycle lc r g)"
  using assms by (auto simp: keeps_blocks_def set_lifecycle_get retired_def)

lemma keeps_blocks_set_pinned: "keeps_blocks g (set_pinned p r g)"
  by (auto simp: keeps_blocks_def set_pinned_get retired_def)

lemma keeps_blocks_mark:
  assumes "context_wf g" and "mark_dependents_stale cause reason g = (invs, g')"
  shows "keeps_blocks g g'"
  using mark_dependents_stale_marked [OF context_wf_keyed [OF assms(1)] assms(2)]
  by (auto simp: keeps_blocks_def marked_def)

lemma keeps_blocks_add: "bm_get (cg_blocks g) (cb_id b) = None \<Longrightarrow> keeps_blocks g (add_block b g)"
  by (auto simp: keeps_blocks_def)

text \<open>Steps that add no block keep \<open>live_is_latest\<close>: what is not retired afterwards was not before.\<close>

lemma live_is_latest_shape:
  assumes "live_is_latest g" and "same_shape g g'" and "keeps_blocks g g'"
  shows "live_is_latest g'"
  unfolding live_is_latest_def
proof (intro allI impI, elim conjE)
  fix k b' assume b': "bm_get (cg_blocks g') k = Some b'" and live: "\<not> retired b'"
  have "cores g = cores g'" using assms(2) by (simp add: same_shape_def)
  then have "cores g k = Some (core b')" by (simp add: cores_def b')
  then obtain b where b: "bm_get (cg_blocks g) k = Some b" and c: "core b = core b'"
    by (auto simp: cores_def)
  with assms(3) b' live have "\<not> retired b" by (force simp: keeps_blocks_def)
  with assms(1) b have "latest g (cb_namespace b) = Some (cb_ref b)" by (simp add: live_is_latest_def)
  moreover have "latest g' = latest g" using assms(2) by (simp add: same_shape_def latest_def fun_eq_iff)
  ultimately show "latest g' (cb_namespace b') = Some (cb_ref b')"
    using arg_cong [OF c, of cb_namespace] arg_cong [OF c, of cb_ref] by simp
qed

lemma keeps_archive: "cx_archive r g = (x, g') \<Longrightarrow> keeps_blocks g g'"
  by (auto simp: cx_archive_def cg_block_Ok_iff retired_def split: result.splits if_splits
      intro!: keeps_blocks_set_lifecycle)

lemma keeps_restore: "cx_restore r g = (x, g') \<Longrightarrow> keeps_blocks g g'"
  by (auto simp: cx_restore_def cg_block_Ok_iff retired_def split: result.splits if_splits
      intro!: keeps_blocks_set_lifecycle)

lemma keeps_pin: "cx_pin r g = (x, g') \<Longrightarrow> keeps_blocks g g'"
  by (auto simp: cx_pin_def keeps_blocks_set_pinned split: result.splits if_splits)

lemma keeps_unpin: "cx_unpin r g = (x, g') \<Longrightarrow> keeps_blocks g g'"
  by (auto simp: cx_unpin_def keeps_blocks_set_pinned split: result.splits if_splits)

lemma keeps_subscribe: "cx_subscribe i a pattern g = (x, g') \<Longrightarrow> keeps_blocks g g'"
  by (auto simp: cx_subscribe_def keeps_blocks_same split: if_splits)

lemma keeps_unsubscribe: "cx_unsubscribe i g = (x, g') \<Longrightarrow> keeps_blocks g g'"
  by (auto simp: cx_unsubscribe_def keeps_blocks_same)

lemma keeps_invalidate:
  assumes "context_wf g" and "cx_invalidate r reason g = (x, g')"
  shows "keeps_blocks g g'"
proof (cases "cg_block g r")
  case (Err e)
  with assms(2) show ?thesis by (simp add: cx_invalidate_def)
next
  case (Ok b)
  obtain invs h where mark: "mark_dependents_stale r reason (set_lifecycle CxInvalidated r g) = (invs, h)"
    by fastforce
  then have g': "cg_blocks g' = cg_blocks h"
    using assms(2) Ok by (auto simp: cx_invalidate_def Let_def)
  have "keeps_blocks g (set_lifecycle CxInvalidated r g)" by (rule keeps_blocks_set_lifecycle) simp
  also have "keeps_blocks \<dots> h"
    using same_shape_wf [OF same_shape_set_lifecycle assms(1)] mark by (rule keeps_blocks_mark)
  also from g' have "keeps_blocks h g'" by (rule keeps_blocks_same)
  finally show ?thesis .
qed

lemma latest_add_block:
  "latest (add_block b g) ns = (if ns = cb_namespace b then Some (cb_ref b) else latest g ns)"
  by (simp add: latest_def add_block_def)

lemma latest_set_lifecycle [simp]: "latest (set_lifecycle lc r g) = latest g"
  by (simp add: latest_def fun_eq_iff)

lemma publish_first_keeps:
  assumes "live_is_latest g" and "latest g (cb_namespace b) = None"
    and "bm_get (cg_blocks g) (cb_id b) = None"
  shows "keeps_blocks g (add_block b g) \<and> live_is_latest (add_block b g)"
  using assms by (simp add: keeps_blocks_add live_is_latest_def latest_add_block) (metis option.distinct(1))

lemma publish_next_keeps:
  assumes live: "live_is_latest g" and prev: "latest g (cb_namespace b) = Some r"
    and fresh: "bm_get (cg_blocks g) (cb_id b) = None" and wf: "context_wf g"
  shows "keeps_blocks g (add_block b (set_lifecycle CxSuperseded r g)) \<and>
    live_is_latest (add_block b (set_lifecycle CxSuperseded r g))"
proof
  let ?g2 = "set_lifecycle CxSuperseded r g"
  obtain p where p: "bm_get (cg_blocks g) (fst r) = Some p"
    using latest_resolves [OF wf prev] by (auto simp: cg_block_Ok_iff)
  have "fst r \<noteq> cb_id b" using p fresh by auto
  have "keeps_blocks g ?g2" by (rule keeps_blocks_set_lifecycle) simp
  also have "keeps_blocks ?g2 (add_block b ?g2)"
    using fresh by (intro keeps_blocks_add) (auto simp: set_lifecycle_get)
  finally show "keeps_blocks g (add_block b ?g2)" .
  show "live_is_latest (add_block b ?g2)"
    unfolding live_is_latest_def
  proof (intro allI impI, elim conjE)
    fix k c assume c: "bm_get (cg_blocks (add_block b ?g2)) k = Some c" and nr: "\<not> retired c"
    show "latest (add_block b ?g2) (cb_namespace c) = Some (cb_ref c)"
    proof (cases "k = cb_id b")
      case True
      with c show ?thesis by (simp add: latest_add_block)
    next
      case False
      have "k \<noteq> fst r" using False c nr p by (auto simp: set_lifecycle_get retired_def)
      with False c have old: "bm_get (cg_blocks g) k = Some c" by (simp add: set_lifecycle_get)
      with live nr have lat: "latest g (cb_namespace c) = Some (cb_ref c)" by (simp add: live_is_latest_def)
      have "cb_id c = k" using context_wf_keyed [OF wf] old by (rule keyed_get)
      with \<open>k \<noteq> fst r\<close> prev lat have "cb_namespace c \<noteq> cb_namespace b"
        by (auto simp: cb_ref_def)
      then show ?thesis using lat by (simp add: latest_add_block)
    qed
  qed
qed

lemma store_content_same:
  assumes "store_content h c g = (Ok u, g1)"
  shows "keeps_blocks g g1 \<and> (live_is_latest g \<longrightarrow> live_is_latest g1) \<and> cg_blocks g1 = cg_blocks g \<and>
    latest g1 = latest g"
  using store_content_Ok [OF assms] by (simp add: keeps_blocks_def live_is_latest_def latest_def fun_eq_iff)

lemma publish_keeps:
  assumes wf: "context_wf g" and live: "live_is_latest g" and fresh: "bm_get (cg_blocks g) i = None"
    and pub: "cx_publish i d g = (x, g')"
  shows "keeps_blocks g g' \<and> live_is_latest g'"
proof (cases x)
  case (Err e)
  with pub live show ?thesis by (auto dest: cx_publish_Err)
next
  case (Ok p)
  note pub = pub [unfolded Ok]
  show ?thesis
  proof (cases "latest g (dr_namespace d)")
    case None
    from cx_publish_first [OF pub None] obtain trust g1 where
      st: "store_content (context_hash (dr_content d)) (dr_content d) g = (Ok (), g1)"
      and g': "g' = add_block (draft_block i 1 trust d) g1" .
    note same = store_content_same [OF st]
    have "keeps_blocks g1 g' \<and> live_is_latest g'"
      unfolding g' using same live None fresh by (intro publish_first_keeps) auto
    with same show ?thesis by (blast intro: keeps_blocks_trans)
  next
    case (Some prev)
    from cx_publish_next [OF pub Some] obtain trust g1 invs g4 where chk: "draft_check g d = Ok trust"
      and st: "store_content (context_hash (dr_content d)) (dr_content d) g = (Ok (), g1)"
      and mark: "mark_dependents_stale prev (superseded_reason prev)
        (add_block (draft_block i (snd prev + 1) trust d) (set_lifecycle CxSuperseded prev g1)) = (invs, g4)"
      and g': "g' = g4\<lparr>cg_invalidations := cg_invalidations g4 @ invs\<rparr>" .
    let ?g3 = "add_block (draft_block i (snd prev + 1) trust d) (set_lifecycle CxSuperseded prev g1)"
    note same = store_content_same [OF st]
    have step: "keeps_blocks g1 ?g3 \<and> live_is_latest ?g3"
      using same live Some fresh store_content_wf [OF wf st] by (intro publish_next_keeps) auto
    have wf3: "context_wf ?g3"
      using wf chk st fresh same_shape_set_lifecycle by (rule add_draft_wf)
    have k4: "keeps_blocks ?g3 g4" using wf3 mark by (rule keeps_blocks_mark)
    have "live_is_latest g4"
      using step same_shape_mark [OF wf3 mark] k4 by (blast intro: live_is_latest_shape)
    then have "live_is_latest g'"
      unfolding g' by (rule live_is_latest_shape) (simp_all add: same_shape_invalidations keeps_blocks_def)
    moreover have "keeps_blocks g4 g'" unfolding g' by (simp add: keeps_blocks_def)
    ultimately show ?thesis using same step k4 by (blast intro: keeps_blocks_trans)
  qed
qed

lemma cx_live_keeps:
  assumes "cx_live g g'" and "context_wf g" and "live_is_latest g"
  shows "keeps_blocks g g' \<and> live_is_latest g'"
proof -
  have shape: "keeps_blocks g g' \<and> live_is_latest g'" if "same_shape g g'" and "keeps_blocks g g'"
    using assms(3) that by (blast intro: live_is_latest_shape)
  from assms(1) show ?thesis
  proof cases
    case (live_publish fresh d pub)
    with publish_keeps [OF assms(2,3), of fresh d pub g'] show ?thesis by simp
  next
    case (live_invalidate r reason invs)
    with assms(2) show ?thesis by (intro shape) (blast intro: same_shape_invalidate keeps_invalidate)+
  qed (intro shape, blast intro: same_shape_archive same_shape_restore same_shape_pin same_shape_unpin
      same_shape_subscribe same_shape_unsubscribe, blast intro: keeps_archive keeps_restore keeps_pin keeps_unpin
      keeps_subscribe keeps_unsubscribe)+
qed

lemma cx_lives_keep:
  assumes "cx_live\<^sup>*\<^sup>* g g'" and "context_wf g" and "live_is_latest g"
  shows "keeps_blocks g g' \<and> context_wf g' \<and> live_is_latest g'"
  using assms
  by (induction rule: rtranclp_induct) (auto dest: cx_live_keeps cx_live_wf intro: keeps_blocks_trans)

lemma live_is_latest_new: "live_is_latest context_graph_new"
  by (simp add: live_is_latest_def context_graph_new_def)

section \<open>A publication is its transitions\<close>

lemma set_lifecycle_add_block:
  "fst r \<noteq> cb_id b \<Longrightarrow> set_lifecycle lc r (add_block b g) = add_block b (set_lifecycle lc r g)"
  by (simp add: set_lifecycle_def add_block_def bm.insert_commute split: option.split)

lemma created_replays:
  assumes chk: "draft_check g d = Ok trust" and fresh: "bm_get (cg_blocks g) i = None"
    and st: "store_content (context_hash (dr_content d)) (dr_content d) g = (Ok (), g1)"
  shows "cx_apply resolver (CxCreated (draft_block i n trust d) (dr_content d)) g
    = (Ok (), add_block (draft_block i n trust d) g1)"
proof -
  have "created_checks (draft_block i n trust d) (dr_content d) g = Ok ()"
    using draft_check_Ok [OF chk] fresh by (simp add: created_checks_Ok)
  with st show ?thesis by (simp add: apply_created_block_def)
qed

lemma publication_transitions_apply:
  assumes wf: "context_wf g" and fresh: "bm_get (cg_blocks g) i = None"
    and pub: "cx_publish i d g = (Ok p, g')"
  shows "try_fold (\<lambda>g t. commit (cx_apply resolver t g)) g (cxp_transitions p) = Ok g'"
proof (cases "latest g (dr_namespace d)")
  case None
  from cx_publish_first [OF pub None] obtain trust g1 where chk: "draft_check g d = Ok trust"
    and st: "store_content (context_hash (dr_content d)) (dr_content d) g = (Ok (), g1)"
    and g': "g' = add_block (draft_block i 1 trust d) g1"
    and ts: "cxp_transitions p = [CxCreated (draft_block i 1 trust d) (dr_content d)]" .
  show ?thesis
    unfolding ts g' by (simp only: try_fold.simps created_replays [OF chk fresh st] commit.simps and_then.simps)
next
  case (Some prev)
  from cx_publish_next [OF pub Some] obtain trust g1 invs g4 where chk: "draft_check g d = Ok trust"
    and st: "store_content (context_hash (dr_content d)) (dr_content d) g = (Ok (), g1)"
    and mark: "mark_dependents_stale prev (superseded_reason prev)
      (add_block (draft_block i (snd prev + 1) trust d) (set_lifecycle CxSuperseded prev g1)) = (invs, g4)"
    and g': "g' = g4\<lparr>cg_invalidations := cg_invalidations g4 @ invs\<rparr>"
    and ts: "cxp_transitions p = CxCreated (draft_block i (snd prev + 1) trust d) (dr_content d) #
      CxBecameSuperseded prev # map invalidation_transition invs" .
  let ?b = "draft_block i (snd prev + 1) trust d"
  let ?h1 = "add_block ?b g1" and ?h = "add_block ?b (set_lifecycle CxSuperseded prev g1)"
  let ?C = "dependents_closure (cg_blocks ?h) prev"
  obtain q where q: "cg_block g prev = Ok q" using latest_resolves [OF wf Some] by blast
  then have other: "fst prev \<noteq> i" using fresh by (auto simp: cg_block_Ok_iff)
  have "cg_block ?h1 prev = Ok q"
    using q other store_content_same [OF st] by (simp add: cg_block_Ok_iff)
  then have sup: "commit (cx_apply resolver (CxBecameSuperseded prev) ?h1) = Ok ?h"
    using other by (simp add: set_lifecycle_add_block)
  have wf3: "context_wf ?h" using wf chk st fresh same_shape_set_lifecycle by (rule add_draft_wf)
  note keyed = context_wf_keyed [OF wf3]
  from mark_dependents_stale_marked [OF keyed mark] obtain s
    where s: "marked (cg_blocks ?h) (superseded_reason prev) ?C s"
      and invs: "invs = ms_invalidations s" and g4: "g4 = ?h\<lparr>cg_blocks := ms_blocks s\<rparr>" by blast
  have blocks: "inv_block ` set invs = {r \<in> ?C. affected (cg_blocks ?h) r}"
    using s by (simp add: marked_def invs)
  have "\<forall>j \<in> set invs. affected (cg_blocks ?h) (inv_block j) \<and> inv_dependency j \<noteq> None"
    using s blocks by (auto simp: marked_def invs)
  moreover have "map_option (stale_in {}) v = v" for v by (cases v) (simp_all add: stale_in_def)
  ultimately obtain g6 where
    run: "try_fold (\<lambda>g t. commit (cx_apply resolver t g)) ?h (map invalidation_transition invs) = Ok g6"
    and b6: "\<forall>k. bm_get (cg_blocks g6) k =
      map_option (stale_in (inv_block ` set invs)) (bm_get (cg_blocks ?h) k)"
    and g6: "g6 = ?h\<lparr>cg_blocks := cg_blocks g6, cg_invalidations := cg_invalidations ?h @ invs\<rparr>"
    using replay_invalidations [OF keyed, of invs ?h "{}" resolver] by auto
  have "stale_in (inv_block ` set invs) b = stale_in ?C b"
    if "bm_get (cg_blocks ?h) k = Some b" for k b
  proof -
    have "affected (cg_blocks ?h) (cb_ref b) \<longleftrightarrow> stale_mark (cb_lifecycle b) \<noteq> None"
      using that keyed_ref [OF keyed that] by (auto simp: affected_def)
    then show ?thesis unfolding blocks by (auto simp: stale_in_def stale_lifecycle_def)
  qed
  then have "bm_get (cg_blocks g6) k = bm_get (ms_blocks s) k" for k
    using b6 s by (cases "bm_get (cg_blocks ?h) k") (simp_all add: marked_def)
  then have "cg_blocks g6 = ms_blocks s" by (rule bm_ext)
  then have "g6 = g'" by (subst g6) (simp add: g' g4)
  then show ?thesis
    unfolding ts
    by (simp only: try_fold.simps created_replays [OF chk fresh st] sup commit.simps and_then.simps run)
qed

section \<open>Where trust comes from\<close>

text \<open>An edge leads from what a block was made of, a dependency or a source, to the block.\<close>

definition provenance_edges :: "context_graph \<Rightarrow> (context_ref \<times> context_ref) set" where
  "provenance_edges g = {(r, cb_ref b) | r k b. bm_get (cg_blocks g) k = Some b \<and>
     r \<in> set (cb_dependencies b @ cb_sources b)}"

lemma provenance_step:
  assumes wf: "context_wf g" and edge: "(r, s) \<in> provenance_edges g" and b: "cg_block g s = Ok b"
  shows "\<exists>a. cg_block g r = Ok a \<and> policy_rank (cb_trust b) \<le> policy_rank (cb_trust a)"
proof -
  from edge obtain k b' where b': "bm_get (cg_blocks g) k = Some b'" "s = cb_ref b'"
    and r: "r \<in> set (cb_dependencies b' @ cb_sources b')" unfolding provenance_edges_def by blast
  then have "b' = b" using b keyed_ref [OF context_wf_keyed [OF wf] b'(1)] by (simp add: cg_block_Ok_iff)
  have "cores g k = Some (core b')" using b'(1) by (simp add: cores_def)
  with wf have "block_ok (cores g) (cg_content g) (cg_namespaces g) k (core b')"
    unfolding context_wf_def by blast
  then obtain d where "resolves (cores g) r d" "policy_rank (cb_trust b') \<le> policy_rank (cb_trust d)"
    using r unfolding block_ok_def core_simps by blast
  then show ?thesis unfolding resolves_cores using \<open>b' = b\<close> by auto
qed

lemma provenance_chain:
  assumes wf: "context_wf g" and "(r, s) \<in> (provenance_edges g)\<^sup>+"
  shows "cg_block g s = Ok b \<Longrightarrow>
    \<exists>a. cg_block g r = Ok a \<and> policy_rank (cb_trust b) \<le> policy_rank (cb_trust a)"
  using assms(2)
proof (induction arbitrary: b rule: trancl_induct)
  case (base y)
  with wf show ?case by (blast intro: provenance_step)
next
  case (step y z)
  from provenance_step [OF wf step.hyps(2) step.prems] step.IH show ?case by (meson order_trans)
qed

section \<open>Properties\<close>

text \<open>
  C28: a context graph is sound, however it was reached: by operations, by replaying recorded
  transitions with any resolver of artifacts, or both. Blocks are kept under their own identifier
  and their content is stored under its hash; the latest version of a namespace is a block of that
  namespace; and trust never rises along provenance: whatever a block was made of, directly or
  through other blocks, is there and is trusted at least as much as the block.
\<close>

theorem context_sound:
  assumes "reachable_context g"
  shows "(\<forall>k b. bm_get (cg_blocks g) k = Some b \<longrightarrow> cb_id b = k \<and>
      (\<exists>c. content_of g (cb_hash b) = Ok c \<and> context_hash c = cb_hash b)) \<and>
    (\<forall>ns r. latest g ns = Some r \<longrightarrow> (\<exists>b. cg_block g r = Ok b \<and> cb_namespace b = ns)) \<and>
    (\<forall>r s b. (r, s) \<in> (provenance_edges g)\<^sup>+ \<and> cg_block g s = Ok b \<longrightarrow>
      (\<exists>a. cg_block g r = Ok a \<and> policy_rank (cb_trust b) \<le> policy_rank (cb_trust a)))"
proof (intro conjI allI impI)
  note wf = reachable_context_wf [OF assms]
  fix k b assume b: "bm_get (cg_blocks g) k = Some b"
  show "cb_id b = k" using context_wf_keyed [OF wf] b by (rule keyed_get)
  have "cores g k = Some (core b)" using b by (simp add: cores_def)
  with wf have "block_ok (cores g) (cg_content g) (cg_namespaces g) k (core b)"
    unfolding context_wf_def by blast
  then show "\<exists>c. content_of g (cb_hash b) = Ok c \<and> context_hash c = cb_hash b"
    by (simp add: block_ok_def content_of_def)
next
  fix ns r assume "latest g ns = Some r"
  then show "\<exists>b. cg_block g r = Ok b \<and> cb_namespace b = ns"
    by (rule latest_resolves [OF reachable_context_wf [OF assms]])
next
  fix r s b assume "(r, s) \<in> (provenance_edges g)\<^sup>+ \<and> cg_block g s = Ok b"
  then show "\<exists>a. cg_block g r = Ok a \<and> policy_rank (cb_trust b) \<le> policy_rank (cb_trust a)"
    using provenance_chain [OF reachable_context_wf [OF assms]] by blast
qed

text \<open>
  A publication is its transitions. On any reachable graph, and for a block identifier not in
  use, applying the transitions that \<open>publish\<close> reports, one after the other, leads to the very graph
  \<open>publish\<close> left: the new block, the superseded version, every block that became stale, and the log
  of invalidations.
\<close>

theorem context_publication_replays:
  assumes "reachable_context g" and "bm_get (cg_blocks g) fresh = None"
    and "cx_publish fresh d g = (Ok p, g')"
  shows "try_fold (\<lambda>g t. commit (cx_apply resolver t g)) g (cxp_transitions p) = Ok g'"
  using reachable_context_wf [OF assms(1)] assms(2,3) by (rule publication_transitions_apply)

text \<open>
  Blocks are immutable and do not come back. Through any operations of a graph, a block stays
  under its identifier and keeps everything but its lifecycle and its pin, and once superseded or
  invalidated it is one of these two for ever. So in a graph built by operations, at most the latest
  version of a namespace can be active, stale or archived.
\<close>

theorem context_blocks_kept:
  assumes "cx_live\<^sup>*\<^sup>* context_graph_new g" and "cx_live\<^sup>*\<^sup>* g g'"
  shows "(\<forall>k b. bm_get (cg_blocks g) k = Some b \<longrightarrow> (\<exists>b'. bm_get (cg_blocks g') k = Some b' \<and>
      b'\<lparr>cb_lifecycle := cb_lifecycle b, cb_pinned := cb_pinned b\<rparr> = b \<and>
      (cb_lifecycle b \<in> {CxSuperseded, CxInvalidated} \<longrightarrow>
        cb_lifecycle b' \<in> {CxSuperseded, CxInvalidated}))) \<and>
    (\<forall>k b. bm_get (cg_blocks g') k = Some b \<and> cb_lifecycle b \<notin> {CxSuperseded, CxInvalidated} \<longrightarrow>
      latest g' (cb_namespace b) = Some (cb_ref b))"
proof -
  have g: "context_wf g" "live_is_latest g"
    using cx_lives_keep [OF assms(1) context_wf_new live_is_latest_new] by simp_all
  have keep: "keeps_blocks g g'" and lat: "live_is_latest g'"
    using cx_lives_keep [OF assms(2) g] by simp_all
  have "b'\<lparr>cb_lifecycle := cb_lifecycle b, cb_pinned := cb_pinned b\<rparr> = b" if "core b' = core b" for b b'
  proof -
    have "(core b')\<lparr>cb_lifecycle := cb_lifecycle b, cb_pinned := cb_pinned b\<rparr>
        = (core b)\<lparr>cb_lifecycle := cb_lifecycle b, cb_pinned := cb_pinned b\<rparr>" by (simp only: that)
    then show ?thesis by (simp add: core_def)
  qed
  with keep lat show ?thesis
    unfolding keeps_blocks_def live_is_latest_def retired_def by (intro conjI) blast+
qed

section \<open>Witnesses\<close>

definition example_draft :: "string \<Rightarrow> context_ref list \<Rightarrow> context_draft" where
  "example_draft ns deps =
     (context_draft_new ns KindNote OwnerRuntime ScopeGlobal [1])\<lparr>dr_dependencies := deps\<rparr>"

definition first_graph :: context_graph where
  "first_graph = add_block (draft_block 1 1 Generated (example_draft ''a'' []))
     (context_graph_new\<lparr>cg_content := bm_insert (context_hash [1]) [1] bm_empty\<rparr>)"

lemma example_draft_simps [simp]:
  "dr_namespace (example_draft ns deps) = ns" "dr_scope (example_draft ns deps) = ScopeGlobal"
  "dr_content (example_draft ns deps) = [1]" "dr_dependencies (example_draft ns deps) = deps"
  "dr_sources (example_draft ns deps) = []" "dr_trust (example_draft ns deps) = Generated"
  by (simp_all add: example_draft_def context_draft_new_def)

lemma first_publication:
  "\<exists>p. cx_publish 1 (example_draft ''a'' []) context_graph_new = (Ok p, first_graph)"
  by (simp add: cx_publish_def draft_check_def draft_trust_def trim_is_empty_def context_graph_new_def
      latest_def store_content_def first_graph_def Let_def add_block_def)

lemma first_graph_get:
  "bm_get (cg_blocks first_graph) k =
     (if k = 1 then Some (draft_block 1 1 Generated (example_draft ''a'' [])) else None)"
  by (simp add: first_graph_def context_graph_new_def)

lemma first_graph_block: "cg_block first_graph (1, 1) = Ok (draft_block 1 1 Generated (example_draft ''a'' []))"
  by (simp add: cg_block_Ok_iff first_graph_get)

lemma first_graph_reached: "cx_live\<^sup>*\<^sup>* context_graph_new first_graph" "reachable_context first_graph"
proof -
  obtain p where "cx_publish 1 (example_draft ''a'' []) context_graph_new = (Ok p, first_graph)"
    using first_publication by blast
  then have "cx_live context_graph_new first_graph"
    by (rule live_publish [rotated]) (simp add: context_graph_new_def)
  then show "cx_live\<^sup>*\<^sup>* context_graph_new first_graph" "reachable_context first_graph"
    by (auto intro: reach_new reach_live)
qed

lemma second_publication:
  "\<exists>p g. cx_publish 2 (example_draft ns [(1, 1)]) first_graph = (Ok p, g)" if "\<not> trim_is_empty ns"
proof -
  have "draft_check first_graph (example_draft ns [(1, 1)]) = Ok Generated"
    using that first_graph_block
    by (simp add: draft_check_def draft_trust_def bm_contains_key_def first_graph_get combine_trust_def)
  moreover have "store_content (context_hash [1]) [1] first_graph = (Ok (), first_graph)"
    by (simp add: store_content_def first_graph_def)
  ultimately show ?thesis by (simp add: cx_publish_def Let_def split: prod.split)
qed

theorem context_sound_witness:
  "\<exists>c. content_of first_graph (cb_hash (draft_block 1 1 Generated (example_draft ''a'' []))) = Ok c"
  using context_sound [OF first_graph_reached(2), THEN conjunct1, rule_format, of 1
      "draft_block 1 1 Generated (example_draft ''a'' [])"]
  by (auto simp: first_graph_get)

theorem context_publication_replays_witness:
  "\<exists>p g. cx_publish 2 (example_draft ''a'' [(1, 1)]) first_graph = (Ok p, g) \<and>
     try_fold (\<lambda>g t. commit (cx_apply (\<lambda>h. Err (CxMissingArtifact h)) t g)) first_graph (cxp_transitions p)
       = Ok g"
proof -
  obtain p g where pub: "cx_publish 2 (example_draft ''a'' [(1, 1)]) first_graph = (Ok p, g)"
    using second_publication [of "''a''"] by (auto simp: trim_is_empty_def)
  from context_publication_replays [OF first_graph_reached(2) _ pub] pub show ?thesis
    by (auto simp: first_graph_get)
qed

theorem context_blocks_kept_witness:
  "\<exists>p g b. cx_publish 2 (example_draft ''a'' [(1, 1)]) first_graph = (Ok p, g) \<and>
     bm_get (cg_blocks g) 1 = Some b \<and> cb_trust b = Generated"
proof -
  obtain p g where pub: "cx_publish 2 (example_draft ''a'' [(1, 1)]) first_graph = (Ok p, g)"
    using second_publication [of "''a''"] by (auto simp: trim_is_empty_def)
  then have "cx_live\<^sup>*\<^sup>* first_graph g"
    by (intro r_into_rtranclp live_publish) (auto simp: first_graph_get)
  from context_blocks_kept [OF first_graph_reached(1) this, THEN conjunct1, rule_format, of 1
      "draft_block 1 1 Generated (example_draft ''a'' [])"] obtain b where
    b: "bm_get (cg_blocks g) 1 = Some b" and
    same: "b\<lparr>cb_lifecycle := CxActive, cb_pinned := cb_pinned (draft_block 1 1 Generated (example_draft ''a'' []))\<rparr>
      = draft_block 1 1 Generated (example_draft ''a'' [])"
    by (auto simp: first_graph_get)
  have "cb_trust b = Generated" using arg_cong [OF same, of cb_trust] by simp
  then show ?thesis using pub b by blast
qed

end
