(* ===== verification/Context_Codec.thy ===== *)
theory Context_Codec
  imports Context_Operations
begin

text \<open>
  The payloads of the context transitions and the log \<open>ContextEventLog\<close>: what is written for every
  transition, how it is read back, and the recovery of a graph from the events of a run.
\<close>

section \<open>Writing\<close>

definition CONTEXT_TRANSITION_VERSION :: u16 where "CONTEXT_TRANSITION_VERSION = 1"
definition MAX_CONTEXT_PAYLOAD_BYTES :: nat where "MAX_CONTEXT_PAYLOAD_BYTES = 64 * 1024 * 1024"
definition MAX_CONTEXT_ITEMS :: nat where "MAX_CONTEXT_ITEMS = 1000000"

definition cx_array :: "u8 list \<Rightarrow> context_error writer" where
  "cx_array bs = Ok bs"

definition cx_bytes :: "u8 list \<Rightarrow> context_error writer" where
  "cx_bytes bs =
     (if 2 ^ 32 \<le> length bs then Err (CxInvalidEncoding ''context value exceeds u32::MAX'')
      else write_seq [write_u64 (of_nat (length bs)), cx_array bs])"

definition cx_string :: "string \<Rightarrow> context_error writer" where
  "cx_string s = cx_bytes (as_bytes s)"

definition cx_write_ref :: "context_ref \<Rightarrow> context_error writer" where
  "cx_write_ref r = write_seq [write_u64 (fst r), write_u64 (snd r)]"

text \<open>The count is a \<open>u64\<close>; a vector of more than \<open>u64::MAX\<close> references cannot exist.\<close>

definition cx_write_refs :: "context_ref list \<Rightarrow> context_error writer" where
  "cx_write_refs rs =
     (if 2 ^ 64 \<le> length rs then Err (CxInvalidEncoding ''context reference count exceeds u64::MAX'')
      else write_seq (write_u64 (of_nat (length rs)) # map cx_write_ref rs))"

fun cx_write_kind :: "context_kind \<Rightarrow> context_error writer" where
  "cx_write_kind KindNote = write_u8 0"
| "cx_write_kind KindProject = write_u8 1"
| "cx_write_kind KindContract = write_u8 2"
| "cx_write_kind KindTask = write_u8 3"
| "cx_write_kind KindResult = write_u8 4"
| "cx_write_kind KindArtifactReference = write_u8 5"
| "cx_write_kind (KindCustom v) = write_seq [write_u8 6, cx_string v]"

fun cx_write_owner :: "context_owner \<Rightarrow> context_error writer" where
  "cx_write_owner OwnerRuntime = write_u8 0"
| "cx_write_owner (OwnerAgent a) = write_seq [write_u8 1, write_u64 a]"

fun cx_write_scope :: "context_scope \<Rightarrow> context_error writer" where
  "cx_write_scope ScopeGlobal = write_u8 0"
| "cx_write_scope ScopeTeam = write_u8 1"
| "cx_write_scope (ScopePrivate a) = write_seq [write_u8 2, write_u64 a]"

fun lifecycle_tag :: "context_lifecycle \<Rightarrow> u8" where
  "lifecycle_tag CxActive = 0"
| "lifecycle_tag CxStale = 1"
| "lifecycle_tag CxSuperseded = 2"
| "lifecycle_tag CxArchived = 3"
| "lifecycle_tag CxInvalidated = 4"
| "lifecycle_tag CxArchivedStale = 5"

definition cx_block_fields :: "context_block \<Rightarrow> context_error writer list" where
  "cx_block_fields b =
     [write_u64 (cb_id b), write_u64 (cb_revision b), cx_string (cb_namespace b),
      cx_write_kind (cb_kind b), cx_write_owner (cb_owner b), cx_write_scope (cb_scope b),
      cx_array (cb_hash b), write_u64 (cb_tokens b), write_u8 (trust_tag (cb_trust b)),
      write_u8 (cb_importance b), write_u8 (lifecycle_tag (cb_lifecycle b)),
      cx_write_refs (cb_dependencies b), cx_write_refs (cb_sources b),
      write_option write_u64 (cb_created_event b), write_option write_u64 (cb_last_access b)]"

definition cx_write_block :: "context_block \<Rightarrow> context_error writer" where
  "cx_write_block b = write_seq (cx_block_fields b)"

fun cx_encode_transition :: "context_transition \<Rightarrow> context_error writer" where
  "cx_encode_transition (CxCreated b c) = write_seq [write_u8 0, cx_write_block b, cx_bytes c]"
| "cx_encode_transition (CxCreatedFromArtifact b h) = write_seq [write_u8 3, cx_write_block b, cx_array h]"
| "cx_encode_transition (CxBecameSuperseded r) = write_seq [write_u8 1, cx_write_ref r]"
| "cx_encode_transition (CxBecameArchived r) = write_seq [write_u8 4, cx_write_ref r]"
| "cx_encode_transition (CxRestored r) = write_seq [write_u8 5, cx_write_ref r]"
| "cx_encode_transition (CxPinned r) = write_seq [write_u8 6, cx_write_ref r]"
| "cx_encode_transition (CxUnpinned r) = write_seq [write_u8 7, cx_write_ref r]"
| "cx_encode_transition (CxBecameInvalidated r dep reason) =
     write_seq [write_u8 2, cx_write_ref r, write_option cx_write_ref dep, cx_string reason]"

section \<open>Reading\<close>

definition cx_take :: "nat \<Rightarrow> (u8 list, context_error) reader" where
  "cx_take = cursor_take (CxInvalidEncoding ''context decode offset overflow'')
     (CxInvalidEncoding ''context payload is truncated'')"

abbreviation "cx_u8 \<equiv> read_u8 cx_take"
abbreviation "cx_u64 \<equiv> read_u64 cx_take"

definition cx_read_array :: "(u8 list, context_error) reader" where
  "cx_read_array = cx_take 32"

definition cx_read_bytes :: "(u8 list, context_error) reader" where
  "cx_read_bytes = rd_bind cx_u64 (\<lambda>n.
     if MAX_CONTEXT_PAYLOAD_BYTES < unat n
     then rd_fail (CxInvalidEncoding ''context value exceeds maximum payload size'')
     else cx_take (unat n))"

definition cx_read_string :: "(string, context_error) reader" where
  "cx_read_string = rd_bind cx_read_bytes (\<lambda>bs.
     rd_lift (ok_or (from_utf8 bs) (CxInvalidEncoding ''context string is not UTF-8'')))"

definition cx_read_count :: "(nat, context_error) reader" where
  "cx_read_count = rd_bind cx_u64 (\<lambda>n.
     if MAX_CONTEXT_ITEMS < unat n
     then rd_fail (CxInvalidEncoding ''context item count exceeds limit'')
     else rd_return (unat n))"

definition cx_read_ref :: "(context_ref, context_error) reader" where
  "cx_read_ref = rd_bind cx_u64 (\<lambda>i. rd_bind cx_u64 (\<lambda>n. rd_return (i, n)))"

definition cx_read_refs :: "(context_ref list, context_error) reader" where
  "cx_read_refs = rd_bind cx_read_count (\<lambda>n. read_many n cx_read_ref)"

definition unknown_tag :: "string \<Rightarrow> u8 \<Rightarrow> context_error" where
  "unknown_tag what tag = CxInvalidEncoding (''unknown '' @ what @ '' tag '' @ show_nat (unat tag))"

definition cx_read_kind :: "(context_kind, context_error) reader" where
  "cx_read_kind = rd_bind cx_u8 (\<lambda>tag.
     if tag = 0 then rd_return KindNote
     else if tag = 1 then rd_return KindProject
     else if tag = 2 then rd_return KindContract
     else if tag = 3 then rd_return KindTask
     else if tag = 4 then rd_return KindResult
     else if tag = 5 then rd_return KindArtifactReference
     else if tag = 6 then rd_bind cx_read_string (\<lambda>v. rd_return (KindCustom v))
     else rd_fail (unknown_tag ''context kind'' tag))"

definition cx_read_owner :: "(context_owner, context_error) reader" where
  "cx_read_owner = rd_bind cx_u8 (\<lambda>tag.
     if tag = 0 then rd_return OwnerRuntime
     else if tag = 1 then rd_bind cx_u64 (\<lambda>a. rd_return (OwnerAgent a))
     else rd_fail (unknown_tag ''context owner'' tag))"

definition cx_read_scope :: "(context_scope, context_error) reader" where
  "cx_read_scope = rd_bind cx_u8 (\<lambda>tag.
     if tag = 0 then rd_return ScopeGlobal
     else if tag = 1 then rd_return ScopeTeam
     else if tag = 2 then rd_bind cx_u64 (\<lambda>a. rd_return (ScopePrivate a))
     else rd_fail (unknown_tag ''context scope'' tag))"

definition cx_decode_trust :: "u8 \<Rightarrow> (trust_origin, context_error) result" where
  "cx_decode_trust tag = ok_or (trust_of_tag tag) (unknown_tag ''context trust'' tag)"

definition decode_lifecycle :: "u8 \<Rightarrow> (context_lifecycle, context_error) result" where
  "decode_lifecycle tag =
     (if tag = 0 then Ok CxActive
      else if tag = 1 then Ok CxStale
      else if tag = 2 then Ok CxSuperseded
      else if tag = 3 then Ok CxArchived
      else if tag = 4 then Ok CxInvalidated
      else if tag = 5 then Ok CxArchivedStale
      else Err (unknown_tag ''context lifecycle'' tag))"

definition cx_read_optional_u64 :: "(u64 option, context_error) reader" where
  "cx_read_optional_u64 = read_option cx_u8 (unknown_tag ''optional value'') cx_u64"

definition cx_read_block :: "(context_block, context_error) reader" where
  "cx_read_block =
     rd_bind cx_u64 (\<lambda>i. rd_bind cx_u64 (\<lambda>n. rd_bind cx_read_string (\<lambda>ns.
     rd_bind cx_read_kind (\<lambda>k. rd_bind cx_read_owner (\<lambda>ow. rd_bind cx_read_scope (\<lambda>sc.
     rd_bind cx_read_array (\<lambda>h. rd_bind cx_u64 (\<lambda>tokens.
     rd_bind cx_u8 (\<lambda>tt. rd_bind (rd_lift (cx_decode_trust tt)) (\<lambda>trust.
     rd_bind cx_u8 (\<lambda>imp.
     rd_bind cx_u8 (\<lambda>lt. rd_bind (rd_lift (decode_lifecycle lt)) (\<lambda>lc.
     rd_bind cx_read_refs (\<lambda>deps. rd_bind cx_read_refs (\<lambda>srcs.
     rd_bind cx_read_optional_u64 (\<lambda>ev. rd_bind cx_read_optional_u64 (\<lambda>acc.
       rd_return \<lparr>cb_id = i, cb_revision = n, cb_namespace = ns, cb_kind = k, cb_owner = ow,
         cb_scope = sc, cb_hash = h, cb_tokens = tokens, cb_trust = trust, cb_importance = imp,
         cb_lifecycle = lc, cb_pinned = False, cb_dependencies = deps, cb_sources = srcs,
         cb_created_event = ev, cb_last_access = acc\<rparr>)))))))))))))))))"

definition cx_read_transition :: "(context_transition, context_error) reader" where
  "cx_read_transition = rd_bind cx_u8 (\<lambda>tag.
     if tag = 0 then rd_bind cx_read_block (\<lambda>b. rd_bind cx_read_bytes (\<lambda>c. rd_return (CxCreated b c)))
     else if tag = 3 then
       rd_bind cx_read_block (\<lambda>b. rd_bind cx_read_array (\<lambda>h. rd_return (CxCreatedFromArtifact b h)))
     else if tag = 1 then rd_bind cx_read_ref (\<lambda>r. rd_return (CxBecameSuperseded r))
     else if tag = 4 then rd_bind cx_read_ref (\<lambda>r. rd_return (CxBecameArchived r))
     else if tag = 5 then rd_bind cx_read_ref (\<lambda>r. rd_return (CxRestored r))
     else if tag = 6 then rd_bind cx_read_ref (\<lambda>r. rd_return (CxPinned r))
     else if tag = 7 then rd_bind cx_read_ref (\<lambda>r. rd_return (CxUnpinned r))
     else if tag = 2 then
       rd_bind cx_read_ref (\<lambda>r.
       rd_bind (read_option cx_u8 (unknown_tag ''dependency presence'') cx_read_ref) (\<lambda>dep.
       rd_bind cx_read_string (\<lambda>reason. rd_return (CxBecameInvalidated r dep reason))))
     else rd_fail (unknown_tag ''context transition'' tag))"

definition cx_decode_transition :: "u16 \<Rightarrow> u8 list \<Rightarrow> (context_transition, context_error) result" where
  "cx_decode_transition version bytes =
     (if version \<noteq> CONTEXT_TRANSITION_VERSION
      then Err (CxInvalidEncoding (''unsupported context transition version '' @ show_nat (unat version)))
      else if MAX_CONTEXT_PAYLOAD_BYTES < length bytes
        then Err (CxInvalidEncoding ''context transition exceeds maximum payload size'')
      else read_all cx_read_transition (CxInvalidEncoding ''context payload has trailing bytes'') bytes)"

section \<open>The log\<close>

text \<open>\<open>ContextEventLog\<close> is the list of its transitions; \<open>record\<close> appends those of a publication.\<close>

definition log_record :: "context_publication \<Rightarrow> context_transition list \<Rightarrow> context_transition list" where
  "log_record p ts = ts @ cxp_transitions p"

text \<open>The kinds of the events \<open>to_events\<close> makes; \<open>Event::new\<close> adds the identifier, the run and the time.\<close>

fun log_to_kinds :: "context_transition list \<Rightarrow> (event_kind list, context_error) result" where
  "log_to_kinds [] = Ok []"
| "log_to_kinds (t # ts) = and_then (cx_encode_transition t) (\<lambda>payload.
     and_then (log_to_kinds ts) (\<lambda>kinds. Ok (ContextTransition CONTEXT_TRANSITION_VERSION payload # kinds)))"

fun log_from_kinds :: "event_kind list \<Rightarrow> (context_transition list, context_error) result" where
  "log_from_kinds [] = Ok []"
| "log_from_kinds (ContextTransition version payload # kinds) =
     and_then (cx_decode_transition version payload) (\<lambda>t.
       and_then (log_from_kinds kinds) (\<lambda>ts. Ok (t # ts)))"
| "log_from_kinds (_ # kinds) = log_from_kinds kinds"

definition log_from_events :: "event list \<Rightarrow> (context_transition list, context_error) result" where
  "log_from_events evs = log_from_kinds (map event_knd evs)"

section \<open>The codec is a round trip\<close>

interpretation cx: byte_taker cx_take
  unfolding cx_take_def by (rule byte_taker_cursor_take)

lemma cx_wire_array: "length bs = 32 \<Longrightarrow> wire (cx_array bs) cx_read_array bs"
  by (simp add: wire_def cx_array_def cx_read_array_def cx.take_reads)

lemma cx_wire_bytes:
  assumes "length bs \<le> MAX_CONTEXT_PAYLOAD_BYTES"
  shows "wire (cx_bytes bs) cx_read_bytes bs"
proof -
  have len: "unat (of_nat (length bs) :: u64) = length bs"
    using assms by (simp add: unsigned_of_nat take_bit_nat_eq_self MAX_CONTEXT_PAYLOAD_BYTES_def)
  have "wire (write_seq [write_u64 (of_nat (length bs)), cx_array bs]) cx_read_bytes bs"
    unfolding cx_read_bytes_def
    by (rule wire_field [OF cx.wire_u64], intro wireI)
      (use assms in \<open>simp add: len write_seq.simps cx_array_def cx.take_reads\<close>)
  then show ?thesis by (simp add: cx_bytes_def wire_def)
qed

lemma cx_wire_string:
  assumes "is_utf8 s" and "length s \<le> MAX_CONTEXT_PAYLOAD_BYTES"
  shows "wire (cx_string s) cx_read_string s"
  unfolding cx_string_def cx_read_string_def
  by (rule wire_decoded [OF cx_wire_bytes]) (use assms in simp_all)

lemma cx_wire_ref: "wire (cx_write_ref r) cx_read_ref r"
  unfolding cx_write_ref_def cx_read_ref_def
  by (intro wire_field [OF cx.wire_u64] wire_end) simp

lemma cx_wire_refs:
  assumes "length rs \<le> MAX_CONTEXT_ITEMS"
  shows "wire (cx_write_refs rs) cx_read_refs rs"
proof -
  have len: "unat (of_nat (length rs) :: u64) = length rs"
    using assms by (simp add: unsigned_of_nat take_bit_nat_eq_self MAX_CONTEXT_ITEMS_def)
  have count: "wire (write_u64 (of_nat (length rs)) :: context_error writer) cx_read_count (length rs)"
    unfolding cx_read_count_def
    by (rule wire_last [OF cx.wire_u64]) (use assms in \<open>simp add: len\<close>)
  have "wire (write_seq (write_u64 (of_nat (length rs)) # map cx_write_ref rs)) cx_read_refs rs"
    unfolding cx_read_refs_def by (rule wire_field [OF count]) (rule wire_many, rule cx_wire_ref)
  then show ?thesis by (simp add: cx_write_refs_def wire_def)
qed

lemma cx_wire_owner: "wire (cx_write_owner ow) cx_read_owner ow"
proof (cases ow)
  case OwnerRuntime
  then show ?thesis
    unfolding cx_read_owner_def by (simp, intro wire_last [OF cx.wire_u8]) simp
next
  case (OwnerAgent a)
  then show ?thesis
    unfolding cx_read_owner_def
    by (simp, intro wire_field [OF cx.wire_u8])
      (simp, intro wire_single wire_last [OF cx.wire_u64], simp)
qed

lemma cx_wire_scope: "wire (cx_write_scope sc) cx_read_scope sc"
proof (cases sc)
  case (ScopePrivate a)
  then show ?thesis
    unfolding cx_read_scope_def
    by (simp, intro wire_field [OF cx.wire_u8])
      (simp, intro wire_single wire_last [OF cx.wire_u64], simp)
qed (unfold cx_read_scope_def, simp_all, (intro wire_last [OF cx.wire_u8], simp)+)

fun kind_ok :: "context_kind \<Rightarrow> bool" where
  "kind_ok (KindCustom v) \<longleftrightarrow> is_utf8 v \<and> length v \<le> MAX_CONTEXT_PAYLOAD_BYTES"
| "kind_ok _ \<longleftrightarrow> True"

lemma cx_wire_kind:
  assumes "kind_ok k"
  shows "wire (cx_write_kind k) cx_read_kind k"
proof (cases k)
  case (KindCustom v)
  with assms have v: "wire (cx_string v) cx_read_string v" by (simp add: cx_wire_string)
  from KindCustom show ?thesis
    unfolding cx_read_kind_def
    by (simp, intro wire_field [OF cx.wire_u8]) (simp, intro wire_single wire_last [OF v], simp)
qed (unfold cx_read_kind_def, simp_all, (intro wire_last [OF cx.wire_u8], simp)+)

lemma cx_wire_optional: "wire (write_option write_u64 v) cx_read_optional_u64 v"
  unfolding cx_read_optional_u64_def by (intro wire_option cx.wire_u8 cx.wire_u64)

lemma decode_lifecycle_tag [simp]: "decode_lifecycle (lifecycle_tag lc) = Ok lc"
  by (cases lc) (simp_all add: decode_lifecycle_def)

lemma cx_decode_trust_tag [simp]: "cx_decode_trust (trust_tag t) = Ok t"
  by (simp add: cx_decode_trust_def)

text \<open>What fits the limits of the decoder; strings are UTF-8 and hashes have 32 bytes by their types.\<close>

definition block_fits :: "context_block \<Rightarrow> bool" where
  "block_fits b \<longleftrightarrow> is_utf8 (cb_namespace b) \<and> length (cb_namespace b) \<le> MAX_CONTEXT_PAYLOAD_BYTES \<and>
     kind_ok (cb_kind b) \<and> length (cb_hash b) = 32 \<and>
     length (cb_dependencies b) \<le> MAX_CONTEXT_ITEMS \<and> length (cb_sources b) \<le> MAX_CONTEXT_ITEMS"

lemmas cx_fields = cx.wire_u8 [THEN wire_field] cx.wire_u64 [THEN wire_field]
  cx_wire_string [THEN wire_field] cx_wire_kind [THEN wire_field] cx_wire_owner [THEN wire_field]
  cx_wire_scope [THEN wire_field] cx_wire_array [THEN wire_field] cx_wire_refs [THEN wire_field]
  cx_wire_optional [THEN wire_field] cx_wire_bytes [THEN wire_field] cx_wire_ref [THEN wire_field]

lemma cx_wire_block:
  assumes "block_fits b"
  shows "wire (cx_write_block b) cx_read_block (b\<lparr>cb_pinned := False\<rparr>)"
  unfolding cx_write_block_def cx_block_fields_def cx_read_block_def
  using assms
  by (intro cx_fields wire_decode [OF cx_decode_trust_tag] wire_decode [OF decode_lifecycle_tag] wire_end)
    (simp_all add: block_fits_def)

fun transition_fits :: "context_transition \<Rightarrow> bool" where
  "transition_fits (CxCreated b c) \<longleftrightarrow> block_fits b \<and> length c \<le> MAX_CONTEXT_PAYLOAD_BYTES"
| "transition_fits (CxCreatedFromArtifact b h) \<longleftrightarrow> block_fits b \<and> length h = 32"
| "transition_fits (CxBecameInvalidated r dep reason) \<longleftrightarrow>
     is_utf8 reason \<and> length reason \<le> MAX_CONTEXT_PAYLOAD_BYTES"
| "transition_fits _ \<longleftrightarrow> True"

text \<open>The pin is not written: a block is read back unpinned.\<close>

fun unpinned :: "context_transition \<Rightarrow> context_transition" where
  "unpinned (CxCreated b c) = CxCreated (b\<lparr>cb_pinned := False\<rparr>) c"
| "unpinned (CxCreatedFromArtifact b h) = CxCreatedFromArtifact (b\<lparr>cb_pinned := False\<rparr>) h"
| "unpinned t = t"

lemma cx_wire_transition:
  assumes "transition_fits t"
  shows "wire (cx_encode_transition t) cx_read_transition (unpinned t)"
proof (cases t)
  case (CxCreated b c)
  with assms have "wire (cx_write_block b) cx_read_block (b\<lparr>cb_pinned := False\<rparr>)"
    "wire (cx_bytes c) cx_read_bytes c" by (simp_all add: cx_wire_block cx_wire_bytes)
  then show ?thesis
    unfolding CxCreated cx_encode_transition.simps cx_read_transition_def
    by (intro wire_field [OF cx.wire_u8]) (simp, rule wire_field, assumption, rule wire_field, assumption, simp add: wire_end)
next
  case (CxCreatedFromArtifact b h)
  with assms have "wire (cx_write_block b) cx_read_block (b\<lparr>cb_pinned := False\<rparr>)"
    "wire (cx_array h) cx_read_array h" by (simp_all add: cx_wire_block cx_wire_array)
  then show ?thesis
    unfolding CxCreatedFromArtifact cx_encode_transition.simps cx_read_transition_def
    by (intro wire_field [OF cx.wire_u8]) (simp, rule wire_field, assumption, rule wire_field, assumption, simp add: wire_end)
next
  case (CxBecameInvalidated r dep reason)
  with assms have s: "wire (cx_string reason) cx_read_string reason" by (simp add: cx_wire_string)
  have d: "wire (write_option cx_write_ref dep) (read_option cx_u8 e cx_read_ref) dep" for e
    by (intro wire_option cx.wire_u8 cx_wire_ref)
  show ?thesis
    unfolding CxBecameInvalidated cx_encode_transition.simps cx_read_transition_def
    by (intro wire_field [OF cx.wire_u8])
      (simp, intro wire_field [OF cx_wire_ref] wire_field [OF d] wire_field [OF s] wire_end, simp)
qed (hypsubst, unfold cx_read_transition_def cx_encode_transition.simps,
    intro wire_field [OF cx.wire_u8], simp, intro wire_field [OF cx_wire_ref] wire_end, simp)+

lemma cx_decode_encode:
  assumes "transition_fits t" and "cx_encode_transition t = Ok bs" and "length bs \<le> MAX_CONTEXT_PAYLOAD_BYTES"
  shows "cx_decode_transition CONTEXT_TRANSITION_VERSION bs = Ok (unpinned t)"
proof -
  have "reads cx_read_transition bs (unpinned t)"
    using cx_wire_transition [OF assms(1)] assms(2) by (rule wireD)
  then have "read_all cx_read_transition e bs = Ok (unpinned t)" for e
    using assms(3) by (intro read_all_reads) (simp_all add: MAX_CONTEXT_PAYLOAD_BYTES_def)
  then show ?thesis using assms(3) by (simp add: cx_decode_transition_def)
qed

section \<open>Recorded histories\<close>

text \<open>
  A graph built by operations that are recorded, with the log of their transitions: publications
  (\<open>ContextEventLog::record\<close>), and the transition each of the other operations returns.
\<close>

inductive recorded :: "context_graph \<Rightarrow> context_transition list \<Rightarrow> bool" where
  rec_new: "recorded context_graph_new []"
| rec_publish: "recorded g ts \<Longrightarrow> bm_get (cg_blocks g) fresh = None \<Longrightarrow>
    cx_publish fresh d g = (Ok p, g') \<Longrightarrow> recorded g' (log_record p ts)"
| rec_archive: "recorded g ts \<Longrightarrow> cx_archive r g = (Ok t, g') \<Longrightarrow> recorded g' (ts @ [t])"
| rec_restore: "recorded g ts \<Longrightarrow> cx_restore r g = (Ok t, g') \<Longrightarrow> recorded g' (ts @ [t])"
| rec_pin: "recorded g ts \<Longrightarrow> cx_pin r g = (Ok t, g') \<Longrightarrow> recorded g' (ts @ [t])"
| rec_unpin: "recorded g ts \<Longrightarrow> cx_unpin r g = (Ok t, g') \<Longrightarrow> recorded g' (ts @ [t])"

lemma recorded_reachable: "recorded g ts \<Longrightarrow> reachable_context g"
  by (induction rule: recorded.induct) (blast intro: reach_new reach_live cx_live.intros)+

lemma returned_transition:
  "cx_archive r g = (Ok t, g') \<Longrightarrow> cx_apply resolver t g = (Ok (), g')"
  "cx_restore r g = (Ok t, g') \<Longrightarrow> cx_apply resolver t g = (Ok (), g')"
  "cx_pin r g = (Ok t, g') \<Longrightarrow> cx_apply resolver t g = (Ok (), g')"
  "cx_unpin r g = (Ok t, g') \<Longrightarrow> cx_apply resolver t g = (Ok (), g')"
  by (auto simp: cx_archive_def cx_restore_def cx_pin_def cx_unpin_def split: result.splits if_splits)

lemma recorded_replays:
  "recorded g ts \<Longrightarrow> replay_with_content resolver ts = Ok g"
  unfolding replay_with_content_def
proof (induction rule: recorded.induct)
  case (rec_publish g ts fresh d p g')
  then show ?case
    using publication_transitions_apply [OF reachable_context_wf [OF recorded_reachable [OF rec_publish(1)]]
        rec_publish(2,3)]
    by (simp add: log_record_def try_fold_append)
qed (simp_all add: try_fold_append returned_transition)

lemma published_unpinned:
  assumes "cx_publish fresh d g = (Ok p, g')" and "t \<in> set (cxp_transitions p)"
  shows "unpinned t = t"
proof -
  have [simp]: "(draft_block i n tr d)\<lparr>cb_pinned := False\<rparr> = draft_block i n tr d" for i n tr
    by (simp add: draft_block_def)
  show ?thesis
  proof (cases "latest g (dr_namespace d)")
    case None
    with assms show ?thesis by (elim cx_publish_first) auto
  next
    case (Some prev)
    with assms show ?thesis by (elim cx_publish_next) (auto simp: invalidation_transition_def)
  qed
qed

lemma recorded_unpinned: "recorded g ts \<Longrightarrow> \<forall>t \<in> set ts. unpinned t = t"
proof (induction rule: recorded.induct)
  case (rec_publish g ts fresh d p g')
  then show ?case by (auto simp: log_record_def dest: published_unpinned)
qed (auto simp: cx_archive_def cx_restore_def cx_pin_def cx_unpin_def split: result.splits if_splits)

section \<open>The events of the log\<close>

fun is_context_event :: "event_kind \<Rightarrow> bool" where
  "is_context_event (ContextTransition v payload) \<longleftrightarrow> True"
| "is_context_event _ \<longleftrightarrow> False"

lemma log_from_kinds_filter: "log_from_kinds kinds = log_from_kinds (filter is_context_event kinds)"
  by (induction kinds rule: log_from_kinds.induct)
    (auto intro!: arg_cong2 [where f = and_then])

lemma log_round_trip:
  assumes "log_to_kinds ts = Ok kinds" and "\<forall>t \<in> set ts. transition_fits t \<and> unpinned t = t"
    and "\<forall>v payload. ContextTransition v payload \<in> set kinds \<longrightarrow> length payload \<le> MAX_CONTEXT_PAYLOAD_BYTES"
  shows "log_from_kinds kinds = Ok ts"
  using assms
proof (induction ts arbitrary: kinds)
  case (Cons t ts)
  from Cons.prems(1) obtain payload ks where enc: "cx_encode_transition t = Ok payload"
    and rest: "log_to_kinds ts = Ok ks"
    and kinds: "kinds = ContextTransition CONTEXT_TRANSITION_VERSION payload # ks" by auto
  have "cx_decode_transition CONTEXT_TRANSITION_VERSION payload = Ok t"
    using cx_decode_encode [OF _ enc] Cons.prems(2,3) kinds by auto
  moreover have "log_from_kinds ks = Ok ts"
    using Cons.IH [OF rest] Cons.prems(2,3) kinds by auto
  ultimately show ?case by (simp add: kinds)
qed simp

lemma oversized_payload:
  assumes "cx_encode_transition (CxCreated b c) = Ok bs" and "MAX_CONTEXT_PAYLOAD_BYTES < length c"
  shows "MAX_CONTEXT_PAYLOAD_BYTES < length bs"
proof -
  from assms(1) obtain cs where "cx_bytes c = Ok cs" and le: "length cs \<le> length bs"
    by (auto simp: write_seq.simps)
  then have "length c \<le> length cs"
    by (auto simp: cx_bytes_def write_seq.simps cx_array_def write_u64_def split: if_splits)
  with assms(2) le show ?thesis by simp
qed

section \<open>Properties\<close>


text \<open>
  The encoder has no counterpart of the decoder's limit. \<open>publish\<close> accepts content of any size
  and \<open>to_events\<close> writes it (up to four gibibytes), but a log with content above 64 MiB is refused by
  \<open>from_events\<close>, and with it everything else that log holds.
\<close>

theorem oversized_context_breaks_recovery:
  assumes "cx_publish fresh d g = (Ok p, g')" and "64 * 1024 * 1024 < length (dr_content d)"
    and "log_to_kinds (cxp_transitions p) = Ok kinds"
    and "log_from_kinds earlier = Ok ts"
  shows "log_from_kinds (earlier @ kinds)
    = Err (CxInvalidEncoding ''context transition exceeds maximum payload size'')"
proof -
  have app: "log_from_kinds (xs @ ys) =
      and_then (log_from_kinds xs) (\<lambda>us. and_then (log_from_kinds ys) (\<lambda>vs. Ok (us @ vs)))" for xs ys
  proof (induction xs rule: log_from_kinds.induct)
    case (2 v payload kinds)
    then show ?case by (cases "cx_decode_transition v payload") (auto simp: and_then_assoc)
  qed (cases "log_from_kinds ys"; simp)+
  obtain n trust rest where ts: "cxp_transitions p = CxCreated (draft_block fresh n trust d) (dr_content d) # rest"
  proof (cases "latest g (dr_namespace d)")
    case None
    with assms(1) that show ?thesis by (elim cx_publish_first) auto
  next
    case (Some prev)
    with assms(1) that show ?thesis by (elim cx_publish_next) auto
  qed
  then obtain payload ks where enc: "cx_encode_transition (CxCreated (draft_block fresh n trust d) (dr_content d)) = Ok payload"
    and kinds: "kinds = ContextTransition CONTEXT_TRANSITION_VERSION payload # ks"
    using assms(3) by auto
  have "MAX_CONTEXT_PAYLOAD_BYTES < length payload"
    using assms(2) by (intro oversized_payload [OF enc]) (simp add: MAX_CONTEXT_PAYLOAD_BYTES_def)
  then show ?thesis by (simp add: app assms(4) kinds cx_decode_transition_def)
qed

section \<open>Witnesses\<close>

lemma length_context_hash [simp]: "length (context_hash bs) = 32"
proof -
  have "length (foldl hash_step ls xs) = length ls" for ls xs
    by (induction xs arbitrary: ls) (simp_all add: hash_step_def Let_def split_beta)
  then have "length (foldl hash_step hash_lanes (enumerate 0 bs)) = 4" by (simp add: hash_lanes_def)
  then show ?thesis by (simp add: context_hash_def length_concat o_def sum_list_triv)
qed

lemma example_publication_encodes:
  "\<exists>bs. cx_encode_transition (CxCreated (draft_block 1 1 Generated (context_draft_new ''a'' KindNote
      OwnerRuntime ScopeGlobal c)) c) = Ok bs \<and> length bs \<le> 200 + length c" if "length c < 2 ^ 32"
  using that
  by (simp add: write_seq.simps cx_write_block_def cx_block_fields_def draft_block_def context_draft_new_def
      write_u8_def write_u64_def cx_string_def cx_bytes_def cx_array_def cx_write_refs_def write_option_def)

lemma large_publication:
  "\<exists>p g. cx_publish 1 (context_draft_new ''a'' KindNote OwnerRuntime ScopeGlobal c) context_graph_new = (Ok p, g) \<and>
     cxp_transitions p = [CxCreated (draft_block 1 1 Generated (context_draft_new ''a'' KindNote
       OwnerRuntime ScopeGlobal c)) c]"
  by (simp add: cx_publish_def draft_check_def draft_trust_def trim_is_empty_def context_graph_new_def
      latest_def store_content_def Let_def context_draft_new_def)


theorem oversized_context_breaks_recovery_witness:
  "\<exists>p g kinds. cx_publish 1 (context_draft_new ''a'' KindNote OwnerRuntime ScopeGlobal (replicate (2 ^ 27) 0))
       context_graph_new = (Ok p, g) \<and>
     log_to_kinds (cxp_transitions p) = Ok kinds \<and>
     log_from_kinds kinds = Err (CxInvalidEncoding ''context transition exceeds maximum payload size'')"
proof -
  define c :: "u8 list" where "c = replicate (2 ^ 27) 0"
  have len: "length c = 2 ^ 27" by (simp only: c_def length_replicate)
  obtain p g where pub: "cx_publish 1 (context_draft_new ''a'' KindNote OwnerRuntime ScopeGlobal c)
      context_graph_new = (Ok p, g)"
    and ts: "cxp_transitions p = [CxCreated (draft_block 1 1 Generated (context_draft_new ''a'' KindNote
       OwnerRuntime ScopeGlobal c)) c]" using large_publication by blast
  obtain bs where "cx_encode_transition (CxCreated (draft_block 1 1 Generated (context_draft_new ''a'' KindNote
      OwnerRuntime ScopeGlobal c)) c) = Ok bs"
    using example_publication_encodes [of c] len by auto
  then have kinds: "log_to_kinds (cxp_transitions p) = Ok [ContextTransition CONTEXT_TRANSITION_VERSION bs]"
    by (simp add: ts del: cx_encode_transition.simps)
  have "log_from_kinds ([] @ [ContextTransition CONTEXT_TRANSITION_VERSION bs])
      = Err (CxInvalidEncoding ''context transition exceeds maximum payload size'')"
    using pub _ kinds
    by (rule oversized_context_breaks_recovery) (simp_all add: context_draft_new_def len)
  then show ?thesis using pub kinds unfolding c_def append_Nil by blast
qed

end
