(* ===== verification/Context_Query.thy ===== *)
theory Context_Query
  imports Context_Operations Rust_Sort
begin

text \<open>
  What is read from the context graph: the projection for a prompt, the rendered prompt, the bounded
  search, the freshness report (\<open>proprioception\<close>) and the report on dependencies. None of them
  changes the graph. \<open>str::to_lowercase\<close> is the argument \<open>lower\<close>, about which nothing is assumed.
\<close>

section \<open>Text from bytes\<close>

text \<open>
  \<open>String::from_utf8_lossy\<close>: every maximal prefix of a sequence that is not completed becomes one
  replacement character.
\<close>

definition replacement :: "nat list" where
  "replacement = [239, 191, 189]"

definition second_ok :: "nat \<Rightarrow> nat \<Rightarrow> bool" where
  "second_ok b c \<longleftrightarrow>
     (if b = 224 then 160 \<le> c \<and> c \<le> 191
      else if b = 237 then 128 \<le> c \<and> c \<le> 159
      else if b = 240 then 144 \<le> c \<and> c \<le> 191
      else if b = 244 then 128 \<le> c \<and> c \<le> 143
      else utf8_cont c)"

fun lossy_bytes :: "nat list \<Rightarrow> nat list" where
  "lossy_bytes [] = []"
| "lossy_bytes (b # bs) =
     (if b < 128 then b # lossy_bytes bs
      else if 194 \<le> b \<and> b \<le> 223 then
        (case bs of
           c # cs \<Rightarrow> if utf8_cont c then b # c # lossy_bytes cs else replacement @ lossy_bytes bs
         | [] \<Rightarrow> replacement)
      else if 224 \<le> b \<and> b \<le> 244 then
        (case bs of
           [] \<Rightarrow> replacement
         | c # cs \<Rightarrow>
             if \<not> second_ok b c then replacement @ lossy_bytes bs
             else (case cs of
               [] \<Rightarrow> replacement
             | d # ds \<Rightarrow>
                 if \<not> utf8_cont d then replacement @ lossy_bytes cs
                 else if b \<le> 239 then b # c # d # lossy_bytes ds
                 else (case ds of
                   [] \<Rightarrow> replacement
                 | e # es \<Rightarrow>
                     if utf8_cont e then b # c # d # e # lossy_bytes es
                     else replacement @ lossy_bytes ds)))
      else replacement @ lossy_bytes bs)"

definition from_utf8_lossy :: "u8 list \<Rightarrow> string" where
  "from_utf8_lossy bs = map char_of (lossy_bytes (map unat bs))"

lemma utf8_three_parts: "utf8_three b c d \<Longrightarrow> 224 \<le> b \<and> b \<le> 239 \<and> second_ok b c \<and> utf8_cont d"
  by (auto simp: utf8_three_def second_ok_def utf8_cont_def)

lemma utf8_four_parts:
  "utf8_four b c d e \<Longrightarrow> 240 \<le> b \<and> b \<le> 244 \<and> second_ok b c \<and> utf8_cont d \<and> utf8_cont e"
  by (auto simp: utf8_four_def second_ok_def utf8_cont_def)

lemma lossy_bytes_valid: "utf8 bs \<Longrightarrow> lossy_bytes bs = bs"
proof (induction rule: utf8.induct)
  case (utf8_3 b c d bs)
  then show ?case using utf8_three_parts [of b c d] by simp
next
  case (utf8_4 b c d e bs)
  then show ?case using utf8_four_parts [of b c d e] by simp
qed simp_all

lemma from_utf8_lossy_valid: "from_utf8 bs = Some s \<Longrightarrow> from_utf8_lossy bs = s"
  by (auto simp: from_utf8_def from_utf8_lossy_def bytes_to_string_def utf8_valid_iff
      lossy_bytes_valid split: if_splits)

fun str_contains :: "string \<Rightarrow> string \<Rightarrow> bool" where
  "str_contains [] q = (q = [])"
| "str_contains (c # s) q = (starts_with (c # s) q \<or> str_contains s q)"

section \<open>Projection\<close>

record projection_request =
  pj_patterns :: "string list"
  pj_include_stale :: bool
  pj_max_blocks :: "usize option"
  pj_max_tokens :: "u64 option"
  pj_policy :: context_trust_policy

record context_projection =
  pr_blocks :: "context_block list"
  pr_tokens :: u64
  pr_truncated :: bool

definition projection_all :: projection_request where
  "projection_all = \<lparr>pj_patterns = [''*''], pj_include_stale = False, pj_max_blocks = None,
     pj_max_tokens = None, pj_policy = AllowAll\<rparr>"

definition matches_any :: "string list \<Rightarrow> string \<Rightarrow> bool" where
  "matches_any patterns ns = list_ex (\<lambda>p. matches_namespace p ns) patterns"

definition projectable :: "context_principal \<Rightarrow> projection_request \<Rightarrow> context_block \<Rightarrow> bool" where
  "projectable p q b \<longleftrightarrow> \<not> (\<not> can_view p b \<or>
     (\<not> pj_include_stale q \<and> cb_lifecycle b \<noteq> CxActive) \<or>
     cb_lifecycle b \<in> {CxSuperseded, CxArchived, CxArchivedStale, CxInvalidated} \<or>
     \<not> policy_allows (pj_policy q) (cb_trust b))"

definition over_limit :: "projection_request \<Rightarrow> context_projection \<Rightarrow> context_block \<Rightarrow> bool" where
  "over_limit q r b \<longleftrightarrow>
     (case pj_max_blocks q of None \<Rightarrow> False | Some n \<Rightarrow> n \<le> length (pr_blocks r)) \<or>
     (case pj_max_tokens q of None \<Rightarrow> False | Some n \<Rightarrow> n < saturating_add (pr_tokens r) (cb_tokens b))"

definition take_block :: "projection_request \<Rightarrow> context_projection \<Rightarrow> context_block \<Rightarrow> context_projection" where
  "take_block q r b =
     (if over_limit q r b then r\<lparr>pr_truncated := True\<rparr>
      else r\<lparr>pr_tokens := saturating_add (pr_tokens r) (cb_tokens b), pr_blocks := pr_blocks r @ [b]\<rparr>)"

text \<open>The loop over the namespaces; \<open>None\<close> is the panic of the index into the blocks.\<close>

fun project_scan :: "context_graph \<Rightarrow> context_principal \<Rightarrow> projection_request \<Rightarrow> context_projection
    \<Rightarrow> (string \<times> context_ref list) list \<Rightarrow> context_projection option" where
  "project_scan g p q r [] = Some r"
| "project_scan g p q r ((ns, versions) # rest) =
     (if \<not> matches_any (pj_patterns q) ns then project_scan g p q r rest
      else if versions = [] then project_scan g p q r rest
      else case bm_get (cg_blocks g) (fst (last versions)) of
          None \<Rightarrow> None
        | Some b \<Rightarrow>
            if \<not> projectable p q b then project_scan g p q r rest
            else project_scan g p q (take_block q r b) rest)"

definition project :: "context_principal \<Rightarrow> projection_request \<Rightarrow> context_graph
    \<Rightarrow> context_projection option" where
  "project p q g = project_scan g p q \<lparr>pr_blocks = [], pr_tokens = 0, pr_truncated = False\<rparr>
     (bm_entries (cg_namespaces g))"

section \<open>Rendering a prompt\<close>

record prompt_layer =
  pl_name :: string
  pl_references :: "context_ref list"
  pl_stable :: bool

record rendered_prompt =
  rp_text :: string
  rp_stable_hash :: content_hash
  rp_stable_bytes :: usize
  rp_tokens :: u64

text \<open>What one reference of a layer contributes.\<close>

definition render_reference :: "context_graph \<Rightarrow> context_principal \<Rightarrow> context_trust_policy \<Rightarrow> context_ref
    \<Rightarrow> (string, context_error) result" where
  "render_reference g p policy r = and_then (cg_block g r) (\<lambda>b.
     if \<not> can_view p b then Err (CxNotVisible r)
     else if cb_lifecycle b \<noteq> CxActive then Err (CxInvalidLifecycle r ''render_prompt'')
     else if \<not> policy_allows policy (cb_trust b) then Err (CxNotTrusted r)
     else and_then (content_of g (cb_hash b)) (\<lambda>c. Ok (from_utf8_lossy c @ [CHR 0x0A])))"

definition render_layer :: "context_graph \<Rightarrow> context_principal \<Rightarrow> context_trust_policy \<Rightarrow> prompt_layer
    \<Rightarrow> (string, context_error) result" where
  "render_layer g p policy l =
     try_fold (\<lambda>tx r. and_then (render_reference g p policy r) (\<lambda>s. Ok (tx @ s)))
       (''['' @ pl_name l @ '']'' @ [CHR 0x0A]) (pl_references l)"

text \<open>The loop over the layers: the text, the stable prefix, and whether every layer so far was stable.\<close>

fun render_layers :: "context_graph \<Rightarrow> context_principal \<Rightarrow> context_trust_policy
    \<Rightarrow> string \<times> string \<times> bool \<Rightarrow> prompt_layer list \<Rightarrow> (string \<times> string \<times> bool, context_error) result"
  where
  "render_layers g p policy s [] = Ok s"
| "render_layers g p policy (tx, stb, still) (l # ls) =
     and_then (render_layer g p policy l) (\<lambda>rendered.
       if still \<and> pl_stable l
       then render_layers g p policy (tx @ rendered, stb @ rendered, True) ls
       else render_layers g p policy (tx @ rendered, stb, False) ls)"

definition render_prompt :: "context_principal \<Rightarrow> prompt_layer list \<Rightarrow> string \<Rightarrow> context_trust_policy
    \<Rightarrow> context_graph \<Rightarrow> (rendered_prompt, context_error) result" where
  "render_prompt p layers task policy g =
     and_then (render_layers g p policy ([], [], True) layers) (\<lambda>(tx, stb, _).
       let full = tx @ ''[task]'' @ [CHR 0x0A] @ task @ [CHR 0x0A]
       in Ok \<lparr>rp_text = full, rp_stable_hash = context_hash (as_bytes stb),
            rp_stable_bytes = length stb, rp_tokens = estimate_tokens (as_bytes full)\<rparr>)"

section \<open>Search\<close>

record context_summary =
  cs_ref :: context_ref
  cs_namespace :: string
  cs_lifecycle :: context_lifecycle
  cs_pinned :: bool
  cs_tokens :: u64
  cs_importance :: u8
  cs_last_access :: "u64 option"

definition summary_of :: "context_block \<Rightarrow> context_summary" where
  "summary_of b = \<lparr>cs_ref = cb_ref b, cs_namespace = cb_namespace b, cs_lifecycle = cb_lifecycle b,
     cs_pinned = cb_pinned b, cs_tokens = cb_tokens b, cs_importance = cb_importance b,
     cs_last_access = cb_last_access b\<rparr>"

record search_request =
  sq_query :: string
  sq_patterns :: "string list"
  sq_include_stale :: bool
  sq_include_archived :: bool
  sq_max_results :: usize
  sq_policy :: context_trust_policy

record search_hit =
  hit_summary :: context_summary
  hit_namespace :: bool
  hit_content :: bool

definition MAX_QUERY_BYTES :: nat where "MAX_QUERY_BYTES = 512"
definition MAX_RESULTS :: nat where "MAX_RESULTS = 256"

definition search_request_new :: "string \<Rightarrow> search_request" where
  "search_request_new q = \<lparr>sq_query = q, sq_patterns = [''*''], sq_include_stale = False,
     sq_include_archived = False, sq_max_results = 32, sq_policy = AllowAll\<rparr>"

fun lifecycle_visible :: "search_request \<Rightarrow> context_lifecycle \<Rightarrow> bool" where
  "lifecycle_visible q CxActive = True"
| "lifecycle_visible q CxStale = sq_include_stale q"
| "lifecycle_visible q CxArchived = sq_include_archived q"
| "lifecycle_visible q CxArchivedStale = sq_include_archived q"
| "lifecycle_visible q CxSuperseded = False"
| "lifecycle_visible q CxInvalidated = False"

definition search_skips :: "context_principal \<Rightarrow> search_request \<Rightarrow> context_block \<Rightarrow> bool" where
  "search_skips p q b \<longleftrightarrow>
     \<not> matches_any (sq_patterns q) (cb_namespace b) \<or> \<not> can_view p b \<or>
     \<not> policy_allows (sq_policy q) (cb_trust b)"

definition search_hit_of :: "(string \<Rightarrow> string) \<Rightarrow> context_graph \<Rightarrow> search_request \<Rightarrow> context_block \<Rightarrow> search_hit"
  where
  "search_hit_of lower g q b = \<lparr>hit_summary = summary_of b,
     hit_namespace = str_contains (lower (cb_namespace b)) (lower (sq_query q)),
     hit_content = (case content_of g (cb_hash b) of
         Ok c \<Rightarrow> str_contains (lower (from_utf8_lossy c)) (lower (sq_query q))
       | Err _ \<Rightarrow> False)\<rparr>"

definition hit_cmp :: "search_hit \<Rightarrow> search_hit \<Rightarrow> ordering" where
  "hit_cmp l r = then_with (cmp_of (cs_importance (hit_summary r)) (cs_importance (hit_summary l)))
     (cmp_of (cs_ref (hit_summary l)) (cs_ref (hit_summary r)))"

text \<open>\<open>hits.push\<close>, and the cut whenever there are more than \<open>limit\<close> hits.\<close>

definition push_hit :: "nat \<Rightarrow> search_hit list \<Rightarrow> search_hit \<Rightarrow> search_hit list" where
  "push_hit limit hits h =
     (let hits = hits @ [h]
      in if limit < length hits then take limit (sort_by hit_cmp hits) else hits)"

definition search_step :: "(string \<Rightarrow> string) \<Rightarrow> context_principal \<Rightarrow> search_request \<Rightarrow> context_graph \<Rightarrow> nat
    \<Rightarrow> search_hit list \<Rightarrow> context_block \<Rightarrow> search_hit list" where
  "search_step lower p q g limit hits b =
     (if search_skips p q b then hits
      else if \<not> lifecycle_visible q (cb_lifecycle b) then hits
      else let h = search_hit_of lower g q b in
        if hit_namespace h \<or> hit_content h then push_hit limit hits h else hits)"

definition search :: "(string \<Rightarrow> string) \<Rightarrow> context_principal \<Rightarrow> search_request \<Rightarrow> context_graph
    \<Rightarrow> (search_hit list, context_error) result" where
  "search lower p q g =
     (if trim_is_empty (sq_query q) then Err (CxInvalidSearchQuery ''query must not be empty'')
      else if MAX_QUERY_BYTES < length (sq_query q)
        then Err (CxInvalidSearchQuery ''query exceeds the bounded search length'')
      else
        let limit = min (sq_max_results q) MAX_RESULTS;
            hits = foldl (search_step lower p q g limit) [] (bm_values (cg_blocks g))
        in Ok (take limit (sort_by hit_cmp hits)))"

section \<open>Reports\<close>

record dependency_report =
  dp_ref :: context_ref
  dp_dependencies :: "context_ref list"
  dp_sources :: "context_ref list"
  dp_dependents :: "context_ref list"
  dp_truncated :: bool

definition dependency_report :: "context_ref \<Rightarrow> nat \<Rightarrow> context_graph
    \<Rightarrow> (dependency_report, context_error) result" where
  "dependency_report r maximum g = and_then (cg_block g r) (\<lambda>b.
     let dependents = sort_by cmp_of (map cb_ref (filter (\<lambda>c. r \<in> set (cb_dependencies c) \<or>
           r \<in> set (cb_sources c)) (bm_values (cg_blocks g))))
     in Ok \<lparr>dp_ref = r, dp_dependencies = cb_dependencies b, dp_sources = cb_sources b,
          dp_dependents = take maximum dependents, dp_truncated = (maximum < length dependents)\<rparr>)"

record freshness_policy =
  fp_max_active_tokens :: "u64 option"
  fp_max_stale_blocks :: "usize option"
  fp_largest_limit :: usize
  fp_recent_limit :: usize

record freshness_counts =
  fc_active :: nat
  fc_tokens :: u64
  fc_stale :: nat
  fc_archived :: nat
  fc_invalidated :: nat
  fc_pinned :: nat

record proprioception =
  pp_counts :: freshness_counts
  pp_largest :: "context_summary list"
  pp_recent :: "invalidation list"
  pp_tokens_over :: bool
  pp_stale_over :: bool

fun count_lifecycle :: "context_lifecycle \<Rightarrow> u64 \<Rightarrow> freshness_counts \<Rightarrow> freshness_counts" where
  "count_lifecycle CxActive n c =
     c\<lparr>fc_active := fc_active c + 1, fc_tokens := saturating_add (fc_tokens c) n\<rparr>"
| "count_lifecycle CxStale n c = c\<lparr>fc_stale := fc_stale c + 1\<rparr>"
| "count_lifecycle CxArchived n c = c\<lparr>fc_archived := fc_archived c + 1\<rparr>"
| "count_lifecycle CxArchivedStale n c = c\<lparr>fc_archived := fc_archived c + 1\<rparr>"
| "count_lifecycle CxInvalidated n c = c\<lparr>fc_invalidated := fc_invalidated c + 1\<rparr>"
| "count_lifecycle CxSuperseded n c = c"

definition count_block :: "freshness_counts \<Rightarrow> context_block \<Rightarrow> freshness_counts" where
  "count_block c b = (let c = count_lifecycle (cb_lifecycle b) (cb_tokens b) c
     in if cb_pinned b then c\<lparr>fc_pinned := fc_pinned c + 1\<rparr> else c)"

definition summary_cmp :: "context_summary \<Rightarrow> context_summary \<Rightarrow> ordering" where
  "summary_cmp l r = then_with (then_with (cmp_of (cs_tokens r) (cs_tokens l))
     (cmp_of (cs_importance r) (cs_importance l))) (cmp_of (cs_ref l) (cs_ref r))"

definition proprioception :: "freshness_policy \<Rightarrow> context_graph \<Rightarrow> proprioception" where
  "proprioception policy g =
     (let counts = foldl count_block \<lparr>fc_active = 0, fc_tokens = 0, fc_stale = 0, fc_archived = 0,
            fc_invalidated = 0, fc_pinned = 0\<rparr> (bm_values (cg_blocks g));
          summaries = map summary_of (bm_values (cg_blocks g))
      in \<lparr>pp_counts = counts,
          pp_largest = take (fp_largest_limit policy) (sort_by summary_cmp summaries),
          pp_recent = rev (take (fp_recent_limit policy) (rev (cg_invalidations g))),
          pp_tokens_over = (case fp_max_active_tokens policy of None \<Rightarrow> False | Some n \<Rightarrow> n < fc_tokens counts),
          pp_stale_over = (case fp_max_stale_blocks policy of None \<Rightarrow> False | Some n \<Rightarrow> n < fc_stale counts)\<rparr>)"

section \<open>The projection is greedy and within its limits\<close>

text \<open>The blocks the projection considers: the latest of each namespace that matches and is allowed.\<close>

definition candidate :: "context_graph \<Rightarrow> context_principal \<Rightarrow> projection_request \<Rightarrow> context_block \<Rightarrow> bool"
  where
  "candidate g p q b \<longleftrightarrow> matches_any (pj_patterns q) (cb_namespace b) \<and> projectable p q b \<and>
     latest g (cb_namespace b) = Some (cb_ref b) \<and> cg_block g (cb_ref b) = Ok b"

text \<open>What the loop has collected; \<open>D\<close> are the candidates it has seen, \<open>ns\<close> bounds their namespaces.\<close>

definition projected :: "projection_request \<Rightarrow> context_block set \<Rightarrow> context_projection \<Rightarrow> bool" where
  "projected q D r \<longleftrightarrow> set (pr_blocks r) \<subseteq> D \<and>
     (\<forall>n. pj_max_blocks q = Some n \<longrightarrow> length (pr_blocks r) \<le> n) \<and>
     (\<forall>n. pj_max_tokens q = Some n \<longrightarrow> pr_tokens r \<le> n) \<and>
     pr_tokens r = foldl saturating_add 0 (map cb_tokens (pr_blocks r)) \<and>
     (\<forall>b \<in> D. b \<notin> set (pr_blocks r) \<longrightarrow> pr_truncated r \<and> over_limit q r b)"

lemma over_limit_mono:
  assumes "over_limit q r b" and "length (pr_blocks r) \<le> length (pr_blocks r')" and "pr_tokens r \<le> pr_tokens r'"
  shows "over_limit q r' b"
proof -
  have "unat (pr_tokens r) \<le> unat (pr_tokens r')" using assms(3) by (simp add: word_le_nat_alt)
  then have "saturating_add (pr_tokens r) (cb_tokens b) \<le> saturating_add (pr_tokens r') (cb_tokens b)"
    by (simp add: word_le_nat_alt unat_saturating_add)
  with assms show ?thesis
    unfolding over_limit_def by (auto split: option.splits dest: less_le_trans)
qed

lemma take_block_projected:
  assumes "projected q D r"
  shows "projected q (insert b D) (take_block q r b)"
proof (cases "over_limit q r b")
  case True
  then have "take_block q r b = r\<lparr>pr_truncated := True\<rparr>" by (simp add: take_block_def)
  moreover have "over_limit q (r\<lparr>pr_truncated := True\<rparr>) c \<longleftrightarrow> over_limit q r c" for c
    by (simp add: over_limit_def split: option.split)
  ultimately show ?thesis using assms True by (auto simp: projected_def)
next
  case False
  let ?r = "r\<lparr>pr_tokens := saturating_add (pr_tokens r) (cb_tokens b), pr_blocks := pr_blocks r @ [b]\<rparr>"
  have eq: "take_block q r b = ?r" using False by (simp add: take_block_def)
  have mono: "over_limit q ?r c" if "over_limit q r c" for c
    using that by (rule over_limit_mono) (simp_all add: saturating_add_le)
  have "\<forall>n. pj_max_blocks q = Some n \<longrightarrow> length (pr_blocks ?r) \<le> n"
      "\<forall>n. pj_max_tokens q = Some n \<longrightarrow> pr_tokens ?r \<le> n"
    using False by (auto simp: over_limit_def linorder_not_less)
  with assms mono show ?thesis unfolding eq projected_def by auto
qed

lemma candidateI:
  assumes wf: "context_wf g" and ns: "bm_get (cg_namespaces g) ns = Some vs" and "vs \<noteq> []"
  obtains b where "bm_get (cg_blocks g) (fst (last vs)) = Some b" and "cb_namespace b = ns"
    and "latest g ns = Some (cb_ref b)" and "cg_block g (cb_ref b) = Ok b"
proof -
  have lat: "latest g ns = Some (last vs)" using ns \<open>vs \<noteq> []\<close> by (simp add: latest_def)
  from latest_resolves [OF wf this] obtain b where b: "cg_block g (last vs) = Ok b" "cb_namespace b = ns"
    by blast
  then have get: "bm_get (cg_blocks g) (fst (last vs)) = Some b" by (simp add: cg_block_Ok_iff)
  have "cb_ref b = last vs"
    using b(1) keyed_get [OF context_wf_keyed [OF wf] get] by (simp add: cg_block_Ok_iff cb_ref_def prod_eq_iff)
  with that [OF get b(2)] lat b(1) show ?thesis by simp
qed

lemma project_scan_projected:
  assumes wf: "context_wf g" and "\<forall>(ns, vs) \<in> set es. bm_get (cg_namespaces g) ns = Some vs"
    and "projected q D r" and "sorted_wrt (<) (map fst es)"
    and "sorted_wrt (<) (map cb_namespace (pr_blocks r))"
    and "\<forall>b \<in> set (pr_blocks r). \<forall>e \<in> set es. cb_namespace b < fst e"
  shows "\<exists>r'. project_scan g p q r es = Some r' \<and>
    projected q (D \<union> {b. candidate g p q b \<and> cb_namespace b \<in> fst ` set es}) r' \<and>
    sorted_wrt (<) (map cb_namespace (pr_blocks r'))"
  using assms(2-)
proof (induction es arbitrary: r D)
  case Nil
  then show ?case by simp
next
  case (Cons e es)
  obtain ns vs where e: "e = (ns, vs)" by (cases e)
  have ns: "bm_get (cg_namespaces g) ns = Some vs" using Cons.prems(1) e by simp
  then have "vs \<noteq> []" using wf by (auto simp: context_wf_def namespace_ok_def)
  from candidateI [OF wf ns this] obtain b where get: "bm_get (cg_blocks g) (fst (last vs)) = Some b"
    and b: "cb_namespace b = ns" "latest g ns = Some (cb_ref b)" "cg_block g (cb_ref b) = Ok b" .
  have cand: "candidate g p q c \<and> cb_namespace c = ns \<longleftrightarrow>
      c = b \<and> matches_any (pj_patterns q) ns \<and> projectable p q b" for c
    using b by (auto simp: candidate_def)
  let ?C = "{c. candidate g p q c \<and> cb_namespace c \<in> fst ` set (e # es)}"
  let ?C' = "{c. candidate g p q c \<and> cb_namespace c \<in> fst ` set es}"
  show ?case
  proof (cases "matches_any (pj_patterns q) ns \<and> projectable p q b")
    case False
    then have "?C = ?C'" using cand e by auto
    moreover have "project_scan g p q r (e # es) = project_scan g p q r es"
      using False e get \<open>vs \<noteq> []\<close> by auto
    ultimately show ?thesis using Cons.IH [of D r] Cons.prems by simp
  next
    case True
    then have C: "D \<union> ?C = insert b D \<union> ?C'" using cand e by auto
    have scan: "project_scan g p q r (e # es) = project_scan g p q (take_block q r b) es"
      using True e get \<open>vs \<noteq> []\<close> by simp
    have blocks: "set (pr_blocks (take_block q r b)) \<subseteq> insert b (set (pr_blocks r))"
      by (auto simp: take_block_def)
    have "sorted_wrt (<) (map cb_namespace (pr_blocks (take_block q r b)))"
      using Cons.prems(4,5) b(1) e by (auto simp: take_block_def sorted_wrt_append)
    moreover have "\<forall>c \<in> set (pr_blocks (take_block q r b)). \<forall>e' \<in> set es. cb_namespace c < fst e'"
      using Cons.prems(3,5) b(1) e blocks by auto
    ultimately show ?thesis
      unfolding C scan using Cons.IH [of "insert b D" "take_block q r b"] Cons.prems(1,3)
        take_block_projected [OF Cons.prems(2), of b] by simp
  qed
qed

lemma project_projected:
  assumes wf: "context_wf g"
  shows "\<exists>r. project p q g = Some r \<and> projected q {b. candidate g p q b} r \<and>
    sorted_wrt (<) (map cb_namespace (pr_blocks r))"
proof -
  have "candidate g p q b \<Longrightarrow> cb_namespace b \<in> fst ` set (bm_entries (cg_namespaces g))" for b
  proof -
    assume "candidate g p q b"
    then obtain vs where "bm_get (cg_namespaces g) (cb_namespace b) = Some vs"
      by (auto simp: candidate_def latest_def split: option.splits)
    then have "(cb_namespace b, vs) \<in> set (bm_entries (cg_namespaces g))" by (simp add: bm_entries_get)
    then show ?thesis by force
  qed
  then have "{b. candidate g p q b} = {} \<union> {b. candidate g p q b \<and>
      cb_namespace b \<in> fst ` set (bm_entries (cg_namespaces g))}" by blast
  moreover have "projected q {} \<lparr>pr_blocks = [], pr_tokens = 0, pr_truncated = False\<rparr>"
    by (simp add: projected_def)
  moreover have "\<forall>(ns, vs) \<in> set (bm_entries (cg_namespaces g)). bm_get (cg_namespaces g) ns = Some vs"
    by (auto simp: bm_entries_get)
  ultimately show ?thesis
    unfolding project_def
    using project_scan_projected [OF wf, of "bm_entries (cg_namespaces g)" q "{}"
        "\<lparr>pr_blocks = [], pr_tokens = 0, pr_truncated = False\<rparr>" p]
    by (simp add: bm_entries_ascending)
qed

section \<open>Cutting while searching loses nothing\<close>

interpretation hit: keyed_comparator hit_cmp
    "\<lambda>h. (- uint (cs_importance (hit_summary h)), cs_ref (hit_summary h))"
  by unfold_locales (simp add: hit_cmp_def then_with_cmp_of [symmetric] cmp_of_flip [symmetric])

abbreviation "hit_key \<equiv> \<lambda>h. (- uint (cs_importance (hit_summary h)), cs_ref (hit_summary h))"

lemma push_hits:
  assumes "inj_on hit_key (set acc \<union> set hs)"
  shows "take limit (sort_by hit_cmp (foldl (push_hit limit) acc hs)) = take limit (sort_by hit_cmp (acc @ hs))"
  using assms
proof (induction hs arbitrary: acc)
  case (Cons h hs)
  show ?case
  proof (cases "limit < length (acc @ [h])")
    case True
    then have push: "push_hit limit acc h = take limit (sort_by hit_cmp (acc @ [h]))"
      by (simp add: push_hit_def)
    have "set (push_hit limit acc h) \<union> set hs \<subseteq> set acc \<union> set (h # hs)"
      unfolding push by (auto dest!: in_set_takeD)
    then have "inj_on hit_key (set (push_hit limit acc h) \<union> set hs)"
      using Cons.prems by (rule inj_on_subset [rotated])
    from Cons.IH [OF this]
    have "take limit (sort_by hit_cmp (foldl (push_hit limit) acc (h # hs)))
        = take limit (sort_by hit_cmp (take limit (sort_by hit_cmp (acc @ [h])) @ hs))"
      by (simp add: push)
    also have "\<dots> = take limit (sort_by hit_cmp ((acc @ [h]) @ hs))"
      using Cons.prems by (intro hit.take_sort_by_take) (simp add: Un_commute insert_commute)
    finally show ?thesis by simp
  next
    case False
    then have "push_hit limit acc h = acc @ [h]" by (simp add: push_hit_def)
    with Cons show ?thesis by simp
  qed
qed simp

text \<open>The blocks a search is about.\<close>

definition search_matches :: "(string \<Rightarrow> string) \<Rightarrow> context_principal \<Rightarrow> search_request \<Rightarrow> context_graph
    \<Rightarrow> context_block \<Rightarrow> bool" where
  "search_matches lower p q g b \<longleftrightarrow> matches_any (sq_patterns q) (cb_namespace b) \<and> can_view p b \<and>
     policy_allows (sq_policy q) (cb_trust b) \<and> lifecycle_visible q (cb_lifecycle b) \<and>
     (hit_namespace (search_hit_of lower g q b) \<or> hit_content (search_hit_of lower g q b))"

lemma search_steps:
  "foldl (search_step lower p q g limit) acc bs =
     foldl (push_hit limit) acc (map (search_hit_of lower g q) (filter (search_matches lower p q g) bs))"
  by (induction bs arbitrary: acc)
    (auto simp: search_step_def search_matches_def search_skips_def Let_def)

lemma hits_distinct:
  assumes "context_wf g"
  shows "inj_on hit_key (search_hit_of lower g q ` set (bm_values (cg_blocks g)))"
proof (rule inj_onI)
  fix h h' assume "h \<in> search_hit_of lower g q ` set (bm_values (cg_blocks g))"
    and "h' \<in> search_hit_of lower g q ` set (bm_values (cg_blocks g))" and eq: "hit_key h = hit_key h'"
  then obtain b b' where h: "h = search_hit_of lower g q b" "h' = search_hit_of lower g q b'"
    and "b \<in> set (bm_values (cg_blocks g))" "b' \<in> set (bm_values (cg_blocks g))" by blast
  then obtain k k' where get: "bm_get (cg_blocks g) k = Some b" "bm_get (cg_blocks g) k' = Some b'"
    unfolding bm_values_iff by blast
  have "cb_ref b = cb_ref b'" using h eq by (simp add: search_hit_of_def summary_of_def)
  then have "k = k'"
    using get [THEN keyed_ref [OF context_wf_keyed [OF assms]]] by simp
  with h get show "h = h'" by simp
qed

lemma search_exact:
  assumes "context_wf g" and "\<not> trim_is_empty (sq_query q)" and "length (sq_query q) \<le> MAX_QUERY_BYTES"
  shows "search lower p q g = Ok (take (min (sq_max_results q) MAX_RESULTS) (sort_by hit_cmp
    (map (search_hit_of lower g q) (filter (search_matches lower p q g) (bm_values (cg_blocks g))))))"
proof -
  have "inj_on hit_key (set [] \<union> set (map (search_hit_of lower g q)
      (filter (search_matches lower p q g) (bm_values (cg_blocks g)))))"
    by (rule inj_on_subset [OF hits_distinct [OF assms(1), of lower q]]) auto
  from push_hits [OF this] show ?thesis
    using assms(2,3) by (simp add: search_def search_steps Let_def)
qed

section \<open>What a prompt is made of\<close>

lemma render_reference_Ok_iff:
  "render_reference g p policy r = Ok s \<longleftrightarrow>
     (\<exists>b c. cg_block g r = Ok b \<and> can_view p b \<and> cb_lifecycle b = CxActive \<and>
        policy_allows policy (cb_trust b) \<and> content_of g (cb_hash b) = Ok c \<and>
        s = from_utf8_lossy c @ [CHR 0x0A])"
  by (auto simp: render_reference_def split: if_splits simp del: can_view.simps)

lemma render_fold_references:
  assumes "try_fold (\<lambda>tx r. and_then (render_reference g p policy r) (\<lambda>s. Ok (tx @ s))) t0 rs = Ok t"
  shows "\<forall>r \<in> set rs. \<exists>s. render_reference g p policy r = Ok s"
  using assms by (induction rs arbitrary: t0) auto

lemma render_layer_references:
  "render_layer g p policy l = Ok t \<Longrightarrow> r \<in> set (pl_references l) \<Longrightarrow>
     \<exists>s. render_reference g p policy r = Ok s"
  unfolding render_layer_def by (blast dest: render_fold_references)

text \<open>The text of the layers in order; the prefix is that of the leading stable layers.\<close>

definition rendered_as :: "context_graph \<Rightarrow> context_principal \<Rightarrow> context_trust_policy \<Rightarrow> prompt_layer list
    \<Rightarrow> string \<Rightarrow> bool" where
  "rendered_as g p policy ls s \<longleftrightarrow>
     (\<exists>ts. map (render_layer g p policy) ls = map Ok ts \<and> s = concat ts)"

lemma rendered_as_Nil [simp]: "rendered_as g p policy [] s \<longleftrightarrow> s = []"
  by (simp add: rendered_as_def)

lemma rendered_as_Cons:
  "rendered_as g p policy (l # ls) s \<longleftrightarrow>
     (\<exists>t u. render_layer g p policy l = Ok t \<and> rendered_as g p policy ls u \<and> s = t @ u)"
  unfolding rendered_as_def
proof
  assume "\<exists>ts. map (render_layer g p policy) (l # ls) = map Ok ts \<and> s = concat ts"
  then obtain ts where "map (render_layer g p policy) (l # ls) = map Ok ts" "s = concat ts" by blast
  then show "\<exists>t u. render_layer g p policy l = Ok t \<and>
      (\<exists>ts. map (render_layer g p policy) ls = map Ok ts \<and> u = concat ts) \<and> s = t @ u"
    by (cases ts) auto
next
  assume "\<exists>t u. render_layer g p policy l = Ok t \<and>
      (\<exists>ts. map (render_layer g p policy) ls = map Ok ts \<and> u = concat ts) \<and> s = t @ u"
  then obtain t ts where "render_layer g p policy l = Ok t" "map (render_layer g p policy) ls = map Ok ts"
    "s = t @ concat ts" by blast
  then show "\<exists>ts. map (render_layer g p policy) (l # ls) = map Ok ts \<and> s = concat ts"
    by (intro exI [of _ "t # ts"]) simp
qed

lemma rendered_as_unique: "rendered_as g p policy ls s \<Longrightarrow> rendered_as g p policy ls t \<Longrightarrow> s = t"
  by (induction ls arbitrary: s t) (auto simp: rendered_as_Cons)

lemma render_layers_text:
  assumes "render_layers g p policy (tx, stb, still) ls = Ok (t, u, b)"
  shows "(\<exists>s. rendered_as g p policy ls s \<and> t = tx @ s) \<and>
    (\<exists>s. rendered_as g p policy (if still then takeWhile pl_stable ls else []) s \<and> u = stb @ s)"
  using assms
proof (induction ls arbitrary: tx stb still)
  case Nil
  then show ?case by simp
next
  case (Cons l ls)
  from Cons.prems obtain r where r: "render_layer g p policy l = Ok r" by auto
  show ?case
  proof (cases "still \<and> pl_stable l")
    case True
    with Cons.prems r have "render_layers g p policy (tx @ r, stb @ r, True) ls = Ok (t, u, b)" by simp
    from Cons.IH [OF this] r True show ?thesis by (auto simp: rendered_as_Cons)
  next
    case False
    with Cons.prems r have "render_layers g p policy (tx @ r, stb, False) ls = Ok (t, u, b)" by auto
    from Cons.IH [OF this] r False show ?thesis by (auto simp: rendered_as_Cons)
  qed
qed

lemma rendered_as_layers:
  "rendered_as g p policy ls s \<Longrightarrow> l \<in> set ls \<Longrightarrow> \<exists>t. render_layer g p policy l = Ok t"
  by (induction ls arbitrary: s) (auto simp: rendered_as_Cons)

lemma rendered_as_prefix:
  assumes "rendered_as g p policy ls s" and "rendered_as g p policy (takeWhile f ls) u"
  shows "\<exists>v. s = u @ v"
  using assms
proof (induction ls arbitrary: s u)
  case Nil
  then show ?case by simp
next
  case (Cons l ls)
  then show ?case by (cases "f l") (auto simp: rendered_as_Cons)
qed

lemma render_prompt_Ok:
  assumes "render_prompt p layers task policy g = Ok r"
  obtains s u where "rendered_as g p policy layers s"
    and "rendered_as g p policy (takeWhile pl_stable layers) u"
    and "rp_text r = s @ ''[task]'' @ [CHR 0x0A] @ task @ [CHR 0x0A]"
    and "rp_stable_bytes r = length u" and "rp_stable_hash r = context_hash (as_bytes u)"
    and "rp_tokens r = estimate_tokens (as_bytes (rp_text r))"
proof -
  from assms obtain t u b where run: "render_layers g p policy ([], [], True) layers = Ok (t, u, b)"
    and r: "r = \<lparr>rp_text = t @ ''[task]'' @ [CHR 0x0A] @ task @ [CHR 0x0A],
      rp_stable_hash = context_hash (as_bytes u), rp_stable_bytes = length u,
      rp_tokens = estimate_tokens (as_bytes (t @ ''[task]'' @ [CHR 0x0A] @ task @ [CHR 0x0A]))\<rparr>"
    by (auto simp: render_prompt_def Let_def)
  from render_layers_text [OF run] show ?thesis
    by (intro that [of t u]) (simp_all add: r)
qed

section \<open>Properties\<close>


text \<open>
  The bounded search loses nothing. Sorting and cutting the hits whenever there are more than the
  limit gives, on a reachable graph, the first hits of all matching blocks sorted once; a blank or
  oversized query is refused.
\<close>

theorem bounded_search_exact:
  assumes "reachable_context g"
  shows "search lower p q g =
    (if trim_is_empty (sq_query q) then Err (CxInvalidSearchQuery ''query must not be empty'')
     else if 512 < length (sq_query q)
       then Err (CxInvalidSearchQuery ''query exceeds the bounded search length'')
     else Ok (take (min (sq_max_results q) 256) (sort_by hit_cmp (map (search_hit_of lower g q)
       (filter (search_matches lower p q g) (bm_values (cg_blocks g)))))))"
proof (cases "trim_is_empty (sq_query q) \<or> 512 < length (sq_query q)")
  case True
  then show ?thesis by (auto simp: search_def MAX_QUERY_BYTES_def)
next
  case False
  then show ?thesis
    using search_exact [OF reachable_context_wf [OF assms], of q lower p]
    by (simp add: MAX_QUERY_BYTES_def MAX_RESULTS_def)
qed

text \<open>
  C32: a prompt shows only what may be shown, and its stable prefix can be cached. A rendered prompt
  contains only blocks that are visible to the principal, active and of allowed trust. Two prompts
  that start with the same stable layers have the same prefix hash and length, and their texts
  agree on that prefix, whatever the other layers and the task are.
\<close>

theorem rendered_prompt_safe:
  assumes "render_prompt p layers task policy g = Ok r"
    and "render_prompt p layers' task' policy g = Ok r'"
    and "takeWhile pl_stable layers = takeWhile pl_stable layers'"
  shows "(\<forall>l \<in> set layers. \<forall>x \<in> set (pl_references l). \<exists>b. cg_block g x = Ok b \<and> can_view p b \<and>
      cb_lifecycle b = CxActive \<and> policy_allows policy (cb_trust b)) \<and>
    rp_stable_hash r = rp_stable_hash r' \<and> rp_stable_bytes r = rp_stable_bytes r' \<and>
    take (rp_stable_bytes r) (rp_text r) = take (rp_stable_bytes r) (rp_text r')"
proof -
  from render_prompt_Ok [OF assms(1)] obtain s u where r: "rendered_as g p policy layers s"
    "rendered_as g p policy (takeWhile pl_stable layers) u"
    "rp_text r = s @ ''[task]'' @ [CHR 0x0A] @ task @ [CHR 0x0A]"
    "rp_stable_bytes r = length u" "rp_stable_hash r = context_hash (as_bytes u)" .
  from render_prompt_Ok [OF assms(2)] obtain s' u' where r': "rendered_as g p policy layers' s'"
    "rendered_as g p policy (takeWhile pl_stable layers') u'"
    "rp_text r' = s' @ ''[task]'' @ [CHR 0x0A] @ task' @ [CHR 0x0A]"
    "rp_stable_bytes r' = length u'" "rp_stable_hash r' = context_hash (as_bytes u')" .
  have u: "u' = u" using r(2) r'(2) unfolding assms(3) by (blast intro: rendered_as_unique)
  obtain v v' where "s = u @ v" "s' = u @ v'"
    using rendered_as_prefix [OF r(1,2)] rendered_as_prefix [OF r'(1,2)] u by blast
  then have "take (rp_stable_bytes r) (rp_text r) = take (rp_stable_bytes r) (rp_text r')"
    using r r' by simp
  moreover have "\<exists>b. cg_block g x = Ok b \<and> can_view p b \<and>
      cb_lifecycle b = CxActive \<and> policy_allows policy (cb_trust b)"
    if "l \<in> set layers" and "x \<in> set (pl_references l)" for l x
    using rendered_as_layers [OF r(1) that(1)] render_layer_references that(2) render_reference_Ok_iff
    by metis
  ultimately show ?thesis using r(4,5) r'(4,5) u by (intro conjI ballI) simp_all
qed

section \<open>Witnesses\<close>


theorem bounded_search_exact_witness:
  "search (\<lambda>s. s) PrincipalRuntime (search_request_new []) first_graph
     = Err (CxInvalidSearchQuery ''query must not be empty'')"
  using bounded_search_exact [OF first_graph_reached(2), of "\<lambda>s. s" PrincipalRuntime "search_request_new []"]
  by (simp add: search_request_new_def)

theorem rendered_prompt_safe_witness:
  "\<exists>r r'. render_prompt PrincipalRuntime [\<lparr>pl_name = ''s'', pl_references = [(1, 1)], pl_stable = True\<rparr>]
       ''one'' AllowAll first_graph = Ok r \<and>
     render_prompt PrincipalRuntime [\<lparr>pl_name = ''s'', pl_references = [(1, 1)], pl_stable = True\<rparr>]
       ''two'' AllowAll first_graph = Ok r' \<and> rp_stable_hash r = rp_stable_hash r'"
proof -
  let ?ls = "[\<lparr>pl_name = ''s'', pl_references = [(1, 1)], pl_stable = True\<rparr>]"
  have "content_of first_graph (context_hash [1]) = Ok [1]"
    by (simp add: content_of_def first_graph_def context_graph_new_def)
  moreover have "cb_scope (draft_block 1 1 Generated (example_draft ''a'' [])) = ScopeGlobal"
    by (simp add: draft_block_def)
  ultimately have "\<exists>s. render_layers first_graph PrincipalRuntime AllowAll ([], [], True) ?ls = Ok s"
    by (intro exI) (simp add: render_layer_def render_reference_def first_graph_block)
  then have run: "\<exists>r. render_prompt PrincipalRuntime ?ls task AllowAll first_graph = Ok r" for task
    by (auto simp: render_prompt_def Let_def simp del: render_layers.simps split: prod.split)
  from run [of "''one''"] run [of "''two''"] show ?thesis
    using rendered_prompt_safe [of PrincipalRuntime ?ls "''one''" AllowAll first_graph _ ?ls "''two''"]
    by blast
qed

end
