(* ===== verification/Tool_Runtime.thy ===== *)
theory Tool_Runtime
  imports Security Wire
begin

text \<open>
  The crate \<^verbatim>\<open>crates/tool-runtime\<close>: tools and what they require, the repair of proposals, and the
  transactions through which a proposed call is validated, approved, executed, verified, committed
  or compensated. The executor, the verifier and the planner are trait objects of the caller and
  arguments here, as are the ownership policy and the clock.
\<close>

section \<open>Data\<close>

definition TOOL_SCHEMA_VERSION :: u16 where "TOOL_SCHEMA_VERSION = 2"
definition LEGACY_TOOL_SCHEMA_VERSION :: u16 where "LEGACY_TOOL_SCHEMA_VERSION = 1"
definition TOOL_MAX_TEXT_BYTES :: nat where "TOOL_MAX_TEXT_BYTES = 64 * 1024"
definition TOOL_MAX_FIELDS :: nat where "TOOL_MAX_FIELDS = 128"
definition TOOL_MAX_INPUT_ORIGINS :: nat where "TOOL_MAX_INPUT_ORIGINS = 32"
definition TOOL_MAX_PAYLOAD_BYTES :: nat where "TOOL_MAX_PAYLOAD_BYTES = 1024 * 1024"

datatype risk_level = RiskSafe | RiskConfirm | RiskHigh | RiskBlock

datatype approval_source = ApprovedByUser | ApprovedByManager | ApprovedByPolicy

datatype repair_tier = SyntaxSafe | SchemaSafe | SemanticAmbiguous | IntentAmbiguous

datatype repair_change =
    ToolNameNormalized
  | InputFieldNormalized string
  | InputValueTrimmed string

record capability_requirement =
  req_domain :: capability_domain
  req_resource :: string
  req_input_field :: "string option"
  req_input_fields :: "string list"

record ownership_requirement =
  orq_access :: ownership_access
  orq_resource :: string
  orq_input_fields :: "string list"

record tool_definition =
  td_name :: string
  td_version :: string
  td_required_fields :: "string list"
  td_syntax_fields :: "string list"
  td_capability :: "capability_requirement option"
  td_ownership :: "ownership_requirement option"
  td_risk :: risk_level
  td_reversible :: bool

datatype tool_provenance =
    PvAgent
  | PvManager
  | PvUser
  | PvExternal string
  | PvRemoteAgent string
  | PvWebUntrusted string
  | PvMcpMetadata string
  | PvMcpResult string
  | PvTrustedProject

datatype tool_trust_policy = TrustAllow | RequireApprovalForUntrusted | RequireTrusted

type_synonym tool_input = "(string, string) bmap"

record tool_proposal =
  pp_run :: run_id
  pp_task :: "task_id option"
  pp_agent :: agent_id
  pp_tool :: string
  pp_input :: tool_input
  pp_provenance :: tool_provenance
  pp_origins :: "trust_origin list"

record repair_report =
  rr_proposal :: tool_proposal
  rr_tier :: repair_tier
  rr_changes :: "repair_change list"

record repair_audit =
  ra_tier :: repair_tier
  ra_changes :: "repair_change list"

datatype tool_state =
    ToolValidated | ToolAwaitingApproval | ToolApproved | ToolExecuting | ToolExecuted
  | ToolVerified | ToolCommitted | ToolRejected | ToolFailed | ToolCompensated

datatype tool_effect_status = NotAttempted | MayHaveOccurred | EffectConfirmed

datatype effect_class = EffReversible | EffCompensatable | EffIrreversible

record tool_transaction =
  tx_id :: tool_transaction_id
  tx_proposal :: tool_proposal
  tx_repair :: repair_report
  tx_definition :: tool_definition
  tx_state :: tool_state
  tx_output :: "string option"
  tx_failure :: "string option"
  tx_compensable :: bool
  tx_effect :: tool_effect_status

record tool_execution =
  ex_output :: "string option"
  ex_compensable :: bool
  ex_effect :: tool_effect_status

record tool_preview =
  pv_summary :: string
  pv_resources :: "string list"
  pv_operations :: u32
  pv_effect :: effect_class

datatype tool_error =
    TlInvalid string
  | TlAmbiguousRepair string
  | TlInvalidPreview string
  | TlUntrustedProvenance string trust_origin
  | TlInvalidEncoding string
  | TlUnsupportedVersion u16
  | TlTooLarge usize
  | TlDuplicateTransaction tool_transaction_id
  | TlUnknownTransaction tool_transaction_id
  | TlUnknownTool string
  | TlMissingField string
  | TlCapability capability_error
  | TlOwnership ownership_error
  | TlRiskBlocked string
  | TlApprovalRequired
  | TlInvalidState string tool_state
  | TlExecution string
  | TlVerification string
  | TlPlanning string
  | TlNotCompensatable
  | TlCompensation string

section \<open>Validation\<close>

definition tool_validate_text :: "string \<Rightarrow> string \<Rightarrow> (unit, tool_error) result" where
  "tool_validate_text field value =
     (if trim_is_empty value then Err (TlInvalid field)
      else if TOOL_MAX_TEXT_BYTES < length value then Err (TlTooLarge (length value))
      else Ok ())"

definition validate_opaque_text :: "string \<Rightarrow> string \<Rightarrow> (unit, tool_error) result" where
  "validate_opaque_text field value =
     (if TOOL_MAX_TEXT_BYTES < length value then Err (TlTooLarge (length value))
      else if CHR 0x00 \<in> set value then Err (TlInvalid field)
      else Ok ())"

definition tool_name_char :: "char \<Rightarrow> bool" where
  "tool_name_char c \<longleftrightarrow> (let n = of_char c :: nat in
     (97 \<le> n \<and> n \<le> 122) \<or> (48 \<le> n \<and> n \<le> 57) \<or> c \<in> set ''._-'')"

definition validate_tool_name :: "string \<Rightarrow> (unit, tool_error) result" where
  "validate_tool_name name = and_then (tool_validate_text ''tool name'' name) (\<lambda>_.
     if list_ex (\<lambda>c. \<not> tool_name_char c) name
     then Err (TlInvalid ''tool name contains unsupported characters'') else Ok ())"

definition validate_field_count :: "'a list \<Rightarrow> (unit, tool_error) result" where
  "validate_field_count xs = (if TOOL_MAX_FIELDS < length xs then Err (TlTooLarge (length xs)) else Ok ())"

definition capability_requirement_validate :: "capability_requirement \<Rightarrow> (unit, tool_error) result" where
  "capability_requirement_validate q =
     (if trim_is_empty (req_resource q) \<and> req_input_field q = None \<and> req_input_fields q = []
      then Err (TlInvalid ''capability resource must not be empty'')
      else and_then (if \<not> trim_is_empty (req_resource q)
          then tool_validate_text ''capability resource'' (req_resource q) else Ok ()) (\<lambda>_.
        and_then (case req_input_field q of None \<Rightarrow> Ok ()
            | Some f \<Rightarrow> tool_validate_text ''capability input field'' f) (\<lambda>_.
        and_then (validate_field_count (req_input_fields q)) (\<lambda>_.
          try_all (tool_validate_text ''capability input field'') (req_input_fields q)))))"

definition ownership_requirement_validate :: "ownership_requirement \<Rightarrow> (unit, tool_error) result" where
  "ownership_requirement_validate q =
     (if trim_is_empty (orq_resource q) \<and> orq_input_fields q = []
      then Err (TlInvalid ''ownership resource must not be empty'')
      else and_then (if \<not> trim_is_empty (orq_resource q)
          then tool_validate_text ''ownership resource'' (orq_resource q) else Ok ()) (\<lambda>_.
        and_then (validate_field_count (orq_input_fields q)) (\<lambda>_.
          try_all (tool_validate_text ''ownership input field'') (orq_input_fields q))))"

text \<open>The loop over the required fields, with the set of those seen before.\<close>

fun validate_required :: "string set \<Rightarrow> string list \<Rightarrow> (unit, tool_error) result" where
  "validate_required seen [] = Ok ()"
| "validate_required seen (f # fs) = and_then (tool_validate_text ''required field'' f) (\<lambda>_.
     if f \<in> seen then Err (TlInvalid ''duplicate required field'')
     else validate_required (insert f seen) fs)"

definition tool_definition_validate :: "tool_definition \<Rightarrow> (unit, tool_error) result" where
  "tool_definition_validate d =
     and_then (validate_tool_name (td_name d)) (\<lambda>_.
     and_then (tool_validate_text ''tool version'' (td_version d)) (\<lambda>_.
     and_then (validate_field_count (td_required_fields d)) (\<lambda>_.
     and_then (validate_required {} (td_required_fields d)) (\<lambda>_.
     and_then (validate_field_count (td_syntax_fields d)) (\<lambda>_.
     and_then (try_all (tool_validate_text ''syntax field'') (td_syntax_fields d)) (\<lambda>_.
     and_then (case td_capability d of None \<Rightarrow> Ok () | Some q \<Rightarrow> capability_requirement_validate q) (\<lambda>_.
       case td_ownership d of None \<Rightarrow> Ok () | Some q \<Rightarrow> ownership_requirement_validate q)))))))"

definition preview_validate :: "tool_preview \<Rightarrow> (unit, tool_error) result" where
  "preview_validate p =
     and_then (tool_validate_text ''tool preview summary'' (pv_summary p)) (\<lambda>_.
     and_then (validate_field_count (pv_resources p)) (\<lambda>_.
       try_all (tool_validate_text ''tool preview resource'') (pv_resources p)))"

section \<open>Proposals and their repair\<close>

fun provenance_origin :: "tool_provenance \<Rightarrow> trust_origin" where
  "provenance_origin PvAgent = Generated"
| "provenance_origin PvManager = Generated"
| "provenance_origin PvUser = UserProvided"
| "provenance_origin (PvExternal _) = External"
| "provenance_origin (PvRemoteAgent _) = RemoteAgent"
| "provenance_origin (PvWebUntrusted _) = WebUntrusted"
| "provenance_origin (PvMcpMetadata _) = McpMetadata"
| "provenance_origin (PvMcpResult _) = McpResult"
| "provenance_origin PvTrustedProject = TrustedProject"

fun tool_provenance_source :: "tool_provenance \<Rightarrow> string option" where
  "tool_provenance_source (PvExternal s) = Some s"
| "tool_provenance_source (PvRemoteAgent s) = Some s"
| "tool_provenance_source (PvWebUntrusted s) = Some s"
| "tool_provenance_source (PvMcpMetadata s) = Some s"
| "tool_provenance_source (PvMcpResult s) = Some s"
| "tool_provenance_source PvAgent = None"
| "tool_provenance_source PvManager = None"
| "tool_provenance_source PvUser = None"
| "tool_provenance_source PvTrustedProject = None"

definition proposal_with_input_origin :: "trust_origin \<Rightarrow> tool_proposal \<Rightarrow> tool_proposal" where
  "proposal_with_input_origin t p = p\<lparr>pp_origins := pp_origins p @ [t]\<rparr>"

definition effective_trust_origin :: "tool_proposal \<Rightarrow> trust_origin" where
  "effective_trust_origin p = foldl combine_trust (provenance_origin (pp_provenance p)) (pp_origins p)"

text \<open>\<open>trim().to_ascii_lowercase()\<close>, under which tools are looked up.\<close>

definition tool_key :: "string \<Rightarrow> string" where
  "tool_key name = map ascii_lower (trim name)"

text \<open>One entry of the input: the map of normalized fields and the changes so far.\<close>

definition repair_field :: "tool_input \<times> repair_change list \<Rightarrow> string \<times> string
    \<Rightarrow> (tool_input \<times> repair_change list, tool_error) result" where
  "repair_field acc entry = (let (input, changes) = acc; (key, value) = entry in
     and_then (tool_validate_text ''input field'' key) (\<lambda>_.
     and_then (validate_opaque_text ''input value'' value) (\<lambda>_.
       let k = trim key in
       if k = [] then Err (TlInvalid ''tool input field must not be blank'')
       else let changes' = (if k \<noteq> key then changes @ [InputFieldNormalized k] else changes) in
         if bm_contains_key input k then Err (TlAmbiguousRepair k)
         else Ok (bm_insert k value input, changes'))))"

definition repair_deterministic :: "tool_proposal \<Rightarrow> (repair_report, tool_error) result" where
  "repair_deterministic p =
     (if pp_run p = 0 \<or> pp_agent p = 0 then Err (TlInvalid ''run and agent IDs must be non-zero'')
      else and_then (tool_validate_text ''tool name'' (pp_tool p)) (\<lambda>_.
        let name = tool_key (pp_tool p) in
        and_then (validate_tool_name name) (\<lambda>_.
        and_then (validate_field_count (bm_entries (pp_input p))) (\<lambda>_.
        if TOOL_MAX_INPUT_ORIGINS < length (pp_origins p) then Err (TlTooLarge (length (pp_origins p)))
        else and_then (try_fold repair_field
            (bm_empty, if name \<noteq> pp_tool p then [ToolNameNormalized] else [])
            (bm_entries (pp_input p))) (\<lambda>(input, changes).
          and_then (case tool_provenance_source (pp_provenance p) of None \<Rightarrow> Ok ()
              | Some s \<Rightarrow> tool_validate_text ''provenance source'' s) (\<lambda>_.
            Ok \<lparr>rr_proposal = p\<lparr>pp_tool := name, pp_input := input\<rparr>,
              rr_tier = SyntaxSafe, rr_changes = changes\<rparr>))))))"

definition normalized :: "tool_proposal \<Rightarrow> (tool_proposal, tool_error) result" where
  "normalized p = and_then (repair_deterministic p) (\<lambda>r. Ok (rr_proposal r))"

definition repair_audit_of :: "repair_report \<Rightarrow> repair_audit" where
  "repair_audit_of r = \<lparr>ra_tier = rr_tier r, ra_changes = rr_changes r\<rparr>"

text \<open>\<open>normalize_syntax_fields\<close>: the fields with a syntax of their own are trimmed.\<close>

fun normalize_syntax_fields :: "repair_report \<Rightarrow> string list \<Rightarrow> (repair_report, tool_error) result" where
  "normalize_syntax_fields r [] = Ok r"
| "normalize_syntax_fields r (f # fs) = (case bm_get (pp_input (rr_proposal r)) f of
       None \<Rightarrow> normalize_syntax_fields r fs
     | Some value \<Rightarrow>
         let v = trim value in
         if v = [] then Err (TlInvalid ''syntax input must not be blank'')
         else if v \<noteq> value then
           normalize_syntax_fields
             (r\<lparr>rr_changes := rr_changes r @ [InputValueTrimmed f],
               rr_proposal := (rr_proposal r)\<lparr>pp_input := bm_insert f v (pp_input (rr_proposal r))\<rparr>\<rparr>) fs
         else normalize_syntax_fields r fs)"

section \<open>The runtime\<close>

record tool_runtime =
  rt_definitions :: "(string, tool_definition) bmap"
  rt_additional :: "(string, capability_requirement list) bmap"
  rt_trust_policies :: "(string, tool_trust_policy) bmap"
  rt_capabilities :: capability_policy

definition tool_runtime_new :: tool_runtime where
  "tool_runtime_new = \<lparr>rt_definitions = bm_empty, rt_additional = bm_empty,
     rt_trust_policies = bm_empty, rt_capabilities = policy_new\<rparr>"

type_synonym ownership_check =
  "agent_id \<Rightarrow> string \<Rightarrow> ownership_access \<Rightarrow> (unit, ownership_error) result"

definition implicit_ownership_denied :: ownership_check where
  "implicit_ownership_denied a r access =
     (if access = ReadAccess then Ok ()
      else Err (OwnershipInvalid ''explicit ownership policy is required for write effects''))"

interpretation implicit: ownership_policy implicit_ownership_denied
  by unfold_locales (simp add: implicit_ownership_denied_def)

definition register_with_capabilities :: "tool_definition \<Rightarrow> capability_requirement list \<Rightarrow> tool_runtime
    \<Rightarrow> (unit, tool_error) result \<times> tool_runtime" where
  "register_with_capabilities d additional rt =
     (case and_then (tool_definition_validate d) (\<lambda>_. and_then (validate_field_count additional) (\<lambda>_.
             try_all capability_requirement_validate additional)) of
        Err e \<Rightarrow> (Err e, rt)
      | Ok _ \<Rightarrow>
          let name = tool_key (td_name d) in
          if bm_contains_key (rt_definitions rt) name
          then (Err (TlInvalid ''tool is already registered''), rt)
          else (Ok (), rt\<lparr>rt_definitions := bm_insert name d (rt_definitions rt),
            rt_additional := bm_insert name additional (rt_additional rt)\<rparr>))"

definition tool_register :: "tool_definition \<Rightarrow> tool_runtime \<Rightarrow> (unit, tool_error) result \<times> tool_runtime" where
  "tool_register d = register_with_capabilities d []"

definition set_trust_policy :: "string \<Rightarrow> tool_trust_policy \<Rightarrow> tool_runtime
    \<Rightarrow> (unit, tool_error) result \<times> tool_runtime" where
  "set_trust_policy tool_name policy rt = (let name = tool_key tool_name in
     if \<not> bm_contains_key (rt_definitions rt) name then (Err (TlUnknownTool name), rt)
     else (Ok (), rt\<lparr>rt_trust_policies := bm_insert name policy (rt_trust_policies rt)\<rparr>))"

definition trust_policy :: "tool_runtime \<Rightarrow> string \<Rightarrow> tool_trust_policy" where
  "trust_policy rt tool_name = (case bm_get (rt_trust_policies rt) (tool_key tool_name) of
       Some p \<Rightarrow> p | None \<Rightarrow> TrustAllow)"

definition tool_definition_of :: "tool_runtime \<Rightarrow> string \<Rightarrow> tool_definition option" where
  "tool_definition_of rt name = bm_get (rt_definitions rt) (tool_key name)"

section \<open>Authorization\<close>

text \<open>
  The resources a requirement is about: the values of its input fields, the empty string for a field
  that is absent, or its own resource if it names no field.
\<close>

definition input_resource :: "tool_input \<Rightarrow> string \<Rightarrow> string" where
  "input_resource input f = (case bm_get input f of None \<Rightarrow> [] | Some v \<Rightarrow> v)"

definition requirement_fields :: "capability_requirement \<Rightarrow> string list" where
  "requirement_fields q =
     (if req_input_fields q = [] then (case req_input_field q of None \<Rightarrow> [] | Some f \<Rightarrow> [f])
      else req_input_fields q)"

definition required_resources :: "string list \<Rightarrow> string \<Rightarrow> tool_input \<Rightarrow> string list" where
  "required_resources fs resource input =
     (if fs = [] then [resource] else map (input_resource input) fs)"

definition tool_requirements :: "tool_runtime \<Rightarrow> string \<Rightarrow> tool_definition \<Rightarrow> capability_requirement list" where
  "tool_requirements rt name d =
     (case td_capability d of None \<Rightarrow> [] | Some q \<Rightarrow> [q]) @
     (case bm_get (rt_additional rt) name of None \<Rightarrow> [] | Some qs \<Rightarrow> qs)"

definition authorize_requirements :: "bool \<Rightarrow> tool_runtime \<Rightarrow> ownership_check \<Rightarrow> u128 \<Rightarrow> agent_id
    \<Rightarrow> task_id option \<Rightarrow> string \<Rightarrow> tool_definition \<Rightarrow> tool_input \<Rightarrow> (unit, tool_error) result" where
  "authorize_requirements win rt ownership now a task name d input =
     and_then (try_all (\<lambda>q. try_all (\<lambda>r. map_err TlCapability
           (authorize win (rt_capabilities rt) a task (req_domain q) r now))
         (required_resources (requirement_fields q) (req_resource q) input))
       (tool_requirements rt name d)) (\<lambda>_.
     case td_ownership d of
       None \<Rightarrow> Ok ()
     | Some q \<Rightarrow> try_all (\<lambda>r. map_err TlOwnership (ownership a r (orq_access q)))
         (required_resources (orq_input_fields q) (orq_resource q) input))"

section \<open>Validating a proposal\<close>

text \<open>The state after the risk of the tool and after its trust policy.\<close>

definition risk_state :: "tool_definition \<Rightarrow> (tool_state, tool_error) result" where
  "risk_state d = (case td_risk d of
       RiskSafe \<Rightarrow> Ok ToolValidated
     | RiskConfirm \<Rightarrow> Ok ToolAwaitingApproval
     | RiskHigh \<Rightarrow> Ok ToolAwaitingApproval
     | RiskBlock \<Rightarrow> Err (TlRiskBlocked (td_name d)))"

definition policy_state :: "tool_trust_policy \<Rightarrow> trust_origin \<Rightarrow> tool_state \<Rightarrow> tool_state" where
  "policy_state policy origin s =
     (if policy = RequireApprovalForUntrusted \<and> \<not> is_trusted origin then ToolAwaitingApproval else s)"

definition validate_with_ownership :: "bool \<Rightarrow> tool_runtime \<Rightarrow> ownership_check \<Rightarrow> u128
    \<Rightarrow> tool_transaction_id \<Rightarrow> tool_proposal \<Rightarrow> (tool_transaction, tool_error) result" where
  "validate_with_ownership win rt ownership now fresh proposal =
     and_then (repair_deterministic proposal) (\<lambda>repair0.
     and_then (ok_or (tool_definition_of rt (pp_tool (rr_proposal repair0)))
         (TlUnknownTool (pp_tool (rr_proposal repair0)))) (\<lambda>d.
     and_then (normalize_syntax_fields repair0 (td_syntax_fields d)) (\<lambda>repair.
     let p = rr_proposal repair in
     and_then (try_all (\<lambda>f. if \<not> bm_contains_key (pp_input p) f then Err (TlMissingField f) else Ok ())
         (td_required_fields d)) (\<lambda>_.
     and_then (authorize_requirements win rt ownership now (pp_agent p) (pp_task p) (pp_tool p) d
         (pp_input p)) (\<lambda>_.
     and_then (risk_state d) (\<lambda>s0.
     let origin = effective_trust_origin p;
         policy = trust_policy rt (pp_tool p);
         s = policy_state policy origin s0
     in if policy = RequireTrusted \<and> \<not> is_trusted origin
        then Err (TlUntrustedProvenance (pp_tool p) origin)
        else Ok \<lparr>tx_id = fresh, tx_proposal = p, tx_repair = repair, tx_definition = d, tx_state = s,
          tx_output = None, tx_failure = None, tx_compensable = False, tx_effect = NotAttempted\<rparr>))))))"

definition tool_validate :: "bool \<Rightarrow> tool_runtime \<Rightarrow> u128 \<Rightarrow> tool_transaction_id \<Rightarrow> tool_proposal
    \<Rightarrow> (tool_transaction, tool_error) result" where
  "tool_validate win rt = validate_with_ownership win rt implicit_ownership_denied"

section \<open>The steps of a transaction\<close>

type_synonym tool_planner = "tool_definition \<Rightarrow> tool_input \<Rightarrow> (tool_preview, string) result"
type_synonym tool_verifier = "tool_definition \<Rightarrow> tool_input \<Rightarrow> string \<Rightarrow> (unit, string) result"

text \<open>An executor is called on \<open>&mut self\<close>; \<open>'x\<close> is its state and all it has an effect on.\<close>

record 'x tool_executor =
  te_execute :: "tool_definition \<Rightarrow> tool_input \<Rightarrow> 'x \<Rightarrow> (tool_execution, string) result \<times> 'x"
  te_compensate :: "tool_definition \<Rightarrow> tool_input \<Rightarrow> string \<Rightarrow> 'x \<Rightarrow> (unit, string) result \<times> 'x"

definition tool_preview_of :: "tool_planner \<Rightarrow> tool_transaction \<Rightarrow> (tool_preview, tool_error) result" where
  "tool_preview_of planner t =
     (if tx_state t \<notin> {ToolValidated, ToolAwaitingApproval}
      then Err (TlInvalidState ''Validated or AwaitingApproval'' (tx_state t))
      else and_then (map_err TlPlanning (planner (tx_definition t) (pp_input (tx_proposal t)))) (\<lambda>p.
        and_then (preview_validate p) (\<lambda>_.
          if pv_effect p = EffReversible \<and> \<not> td_reversible (tx_definition t)
          then Err (TlInvalidPreview ''preview claims reversibility for an irreversible definition'')
          else Ok p)))"

definition require_state :: "tool_transaction \<Rightarrow> tool_state \<Rightarrow> string \<Rightarrow> (unit, tool_error) result" where
  "require_state t expected name =
     (if tx_state t = expected then Ok () else Err (TlInvalidState name (tx_state t)))"

definition tool_approve :: "approval_source \<Rightarrow> tool_transaction \<Rightarrow> (unit, tool_error) result \<times> tool_transaction" where
  "tool_approve source t = (case require_state t ToolAwaitingApproval ''AwaitingApproval'' of
       Err e \<Rightarrow> (Err e, t)
     | Ok _ \<Rightarrow> (Ok (), t\<lparr>tx_state := ToolApproved\<rparr>))"

definition tool_reject :: "string \<Rightarrow> tool_transaction \<Rightarrow> (unit, tool_error) result \<times> tool_transaction" where
  "tool_reject reason t =
     (if tx_state t \<in> {ToolValidated, ToolAwaitingApproval, ToolApproved}
      then (Ok (), t\<lparr>tx_failure := Some reason, tx_state := ToolRejected\<rparr>)
      else (Err (TlInvalidState ''pre-execution state'' (tx_state t)), t))"

definition transaction_authorized :: "bool \<Rightarrow> tool_runtime \<Rightarrow> ownership_check \<Rightarrow> u128 \<Rightarrow> tool_transaction
    \<Rightarrow> (unit, tool_error) result" where
  "transaction_authorized win rt ownership now t = authorize_requirements win rt ownership now
     (pp_agent (tx_proposal t)) (pp_task (tx_proposal t)) (pp_tool (tx_proposal t))
     (tx_definition t) (pp_input (tx_proposal t))"

text \<open>The \<^verbatim>\<open>Display\<close> text of the two errors \<open>validate_opaque_text\<close> has.\<close>

definition show_opaque_error :: "tool_error \<Rightarrow> string" where
  "show_opaque_error e = (case e of
       TlInvalid m \<Rightarrow> ''invalid tool transaction: '' @ m
     | TlTooLarge n \<Rightarrow> ''tool value is too large: '' @ show_nat n
     | _ \<Rightarrow> [])"

definition no_effect_error :: string where
  "no_effect_error = ''executor reported that no effect was attempted''"

text \<open>What \<open>execute_with_ownership\<close> does with the result of the executor.\<close>

definition record_execution :: "tool_execution \<Rightarrow> tool_transaction
    \<Rightarrow> (unit, tool_error) result \<times> tool_transaction" where
  "record_execution r t =
     (case (case ex_output r of None \<Rightarrow> Ok () | Some out \<Rightarrow> validate_opaque_text ''tool output'' out) of
        Err e \<Rightarrow> (Err e, t\<lparr>tx_failure := Some (show_opaque_error e), tx_effect := ex_effect r,
            tx_state := ToolFailed\<rparr>)
      | Ok _ \<Rightarrow>
          let t = t\<lparr>tx_output := ex_output r, tx_effect := ex_effect r,
            tx_compensable := ex_compensable r \<and> td_reversible (tx_definition t) \<and> ex_effect r \<noteq> NotAttempted\<rparr>
          in if ex_effect r = NotAttempted
             then (Err (TlExecution no_effect_error),
               t\<lparr>tx_failure := Some no_effect_error, tx_state := ToolFailed\<rparr>)
             else (Ok (), t\<lparr>tx_state := ToolExecuted\<rparr>))"

definition execute_checks :: "bool \<Rightarrow> tool_runtime \<Rightarrow> ownership_check \<Rightarrow> u128 \<Rightarrow> tool_transaction
    \<Rightarrow> (unit, tool_error) result" where
  "execute_checks win rt ownership now t =
     (if tx_state t \<notin> {ToolValidated, ToolApproved}
      then Err (TlInvalidState ''Validated or Approved'' (tx_state t))
      else if td_risk (tx_definition t) \<in> {RiskConfirm, RiskHigh} \<and> tx_state t \<noteq> ToolApproved
        then Err TlApprovalRequired
      else transaction_authorized win rt ownership now t)"

definition execute_with_ownership :: "bool \<Rightarrow> tool_runtime \<Rightarrow> ownership_check \<Rightarrow> u128 \<Rightarrow> 'x tool_executor
    \<Rightarrow> tool_transaction \<Rightarrow> 'x \<Rightarrow> (unit, tool_error) result \<times> tool_transaction \<times> 'x" where
  "execute_with_ownership win rt ownership now executor t x =
     (case execute_checks win rt ownership now t of
        Err e \<Rightarrow> (Err e, t, x)
      | Ok _ \<Rightarrow>
          let t = t\<lparr>tx_state := ToolExecuting\<rparr> in
          (case te_execute executor (tx_definition t) (pp_input (tx_proposal t)) x of
             (Err e, x') \<Rightarrow> (Err (TlExecution e),
               t\<lparr>tx_failure := Some e, tx_effect := MayHaveOccurred, tx_state := ToolFailed\<rparr>, x')
           | (Ok r, x') \<Rightarrow> (let (res, t') = record_execution r t in (res, t', x'))))"

definition output_or_default :: "tool_transaction \<Rightarrow> string" where
  "output_or_default t = (case tx_output t of None \<Rightarrow> [] | Some out \<Rightarrow> out)"

definition tool_verify :: "tool_verifier \<Rightarrow> tool_transaction \<Rightarrow> (unit, tool_error) result \<times> tool_transaction" where
  "tool_verify verifier t = (case require_state t ToolExecuted ''Executed'' of
       Err e \<Rightarrow> (Err e, t)
     | Ok _ \<Rightarrow>
         (case verifier (tx_definition t) (pp_input (tx_proposal t)) (output_or_default t) of
            Err e \<Rightarrow> (Err (TlVerification e), t\<lparr>tx_failure := Some e, tx_state := ToolFailed\<rparr>)
          | Ok _ \<Rightarrow> (Ok (), t\<lparr>tx_state := ToolVerified\<rparr>)))"

definition tool_commit :: "tool_transaction \<Rightarrow> (unit, tool_error) result \<times> tool_transaction" where
  "tool_commit t = (case require_state t ToolVerified ''Verified'' of
       Err e \<Rightarrow> (Err e, t)
     | Ok _ \<Rightarrow> (Ok (), t\<lparr>tx_state := ToolCommitted\<rparr>))"

definition compensate_checks :: "bool \<Rightarrow> tool_runtime \<Rightarrow> ownership_check \<Rightarrow> u128 \<Rightarrow> tool_transaction
    \<Rightarrow> (unit, tool_error) result" where
  "compensate_checks win rt ownership now t =
     (if tx_state t \<notin> {ToolExecuted, ToolVerified, ToolCommitted, ToolFailed}
      then Err (TlInvalidState ''Executed, Verified, Committed, or Failed with a compensatable effect''
        (tx_state t))
      else if \<not> tx_compensable t then Err TlNotCompensatable
      else transaction_authorized win rt ownership now t)"

definition compensate_with_ownership :: "bool \<Rightarrow> tool_runtime \<Rightarrow> ownership_check \<Rightarrow> u128 \<Rightarrow> 'x tool_executor
    \<Rightarrow> tool_transaction \<Rightarrow> 'x \<Rightarrow> (unit, tool_error) result \<times> tool_transaction \<times> 'x" where
  "compensate_with_ownership win rt ownership now executor t x =
     (case compensate_checks win rt ownership now t of
        Err e \<Rightarrow> (Err e, t, x)
      | Ok _ \<Rightarrow>
          (case te_compensate executor (tx_definition t) (pp_input (tx_proposal t)) (output_or_default t) x of
             (Err e, x') \<Rightarrow> (Err (TlCompensation e), t\<lparr>tx_failure := Some e\<rparr>, x')
           | (Ok _, x') \<Rightarrow> (Ok (), t\<lparr>tx_state := ToolCompensated\<rparr>, x')))"

definition tool_execute :: "bool \<Rightarrow> tool_runtime \<Rightarrow> u128 \<Rightarrow> 'x tool_executor
    \<Rightarrow> tool_transaction \<Rightarrow> 'x \<Rightarrow> (unit, tool_error) result \<times> tool_transaction \<times> 'x" where
  "tool_execute win rt = execute_with_ownership win rt implicit_ownership_denied"

definition tool_compensate :: "bool \<Rightarrow> tool_runtime \<Rightarrow> u128 \<Rightarrow> 'x tool_executor
    \<Rightarrow> tool_transaction \<Rightarrow> 'x \<Rightarrow> (unit, tool_error) result \<times> tool_transaction \<times> 'x" where
  "tool_compensate win rt = compensate_with_ownership win rt implicit_ownership_denied"

end
