(* ===== verification/Tool_Normalization.thy ===== *)
theory Tool_Normalization
  imports Tool_Runtime
begin

text \<open>
  The repair of proposals. A repaired proposal is in normal form, and repairing a normal form changes
  nothing and reports no change; trimming the syntax fields keeps the form.
\<close>

section \<open>Normal forms\<close>

definition normal_input :: "tool_input \<Rightarrow> bool" where
  "normal_input m \<longleftrightarrow> (\<forall>k v. bm_get m k = Some v \<longrightarrow> trim k = k \<and>
     tool_validate_text ''input field'' k = Ok () \<and> validate_opaque_text ''input value'' v = Ok ())"

definition normal_proposal :: "tool_proposal \<Rightarrow> bool" where
  "normal_proposal p \<longleftrightarrow> pp_run p \<noteq> 0 \<and> pp_agent p \<noteq> 0 \<and> validate_tool_name (pp_tool p) = Ok () \<and>
     length (bm_entries (pp_input p)) \<le> TOOL_MAX_FIELDS \<and>
     length (pp_origins p) \<le> TOOL_MAX_INPUT_ORIGINS \<and> normal_input (pp_input p) \<and>
     (\<forall>s. tool_provenance_source (pp_provenance p) = Some s \<longrightarrow> tool_validate_text ''provenance source'' s = Ok ())"

lemma tool_validate_text_Ok:
  "tool_validate_text f s = Ok () \<longleftrightarrow> \<not> trim_is_empty s \<and> length s \<le> TOOL_MAX_TEXT_BYTES"
  by (auto simp: tool_validate_text_def)

lemma validate_opaque_text_Ok:
  "validate_opaque_text f s = Ok () \<longleftrightarrow> length s \<le> TOOL_MAX_TEXT_BYTES \<and> CHR 0x00 \<notin> set s"
  by (auto simp: validate_opaque_text_def)

lemma validate_field_count_Ok: "validate_field_count xs = Ok () \<longleftrightarrow> length xs \<le> TOOL_MAX_FIELDS"
  by (auto simp: validate_field_count_def)

lemma validate_tool_name_Ok:
  "validate_tool_name s = Ok () \<longleftrightarrow> \<not> trim_is_empty s \<and> length s \<le> TOOL_MAX_TEXT_BYTES \<and>
     (\<forall>c \<in> set s. tool_name_char c)"
  by (auto simp: validate_tool_name_def tool_validate_text_Ok list_ex_iff)

text \<open>The characters of a tool name are visible, in ASCII and lower case.\<close>

lemma tool_name_char_visible:
  "tool_name_char c \<Longrightarrow> 32 < (of_char c :: nat) \<and> (of_char c :: nat) < 128 \<and> \<not> (65 \<le> (of_char c :: nat) \<and> (of_char c :: nat) \<le> 90)"
  by (auto simp: tool_name_char_def Let_def)

lemma tool_key_name: "\<forall>c \<in> set s. tool_name_char c \<Longrightarrow> tool_key s = s"
  using tool_name_char_visible
  by (fastforce simp: tool_key_def trim_visible ascii_lower_def Let_def intro!: map_idI)

lemma tool_name_utf8: "\<forall>c \<in> set s. tool_name_char c \<Longrightarrow> is_utf8 s"
  using tool_name_char_visible by (blast intro: is_utf8_ascii)

section \<open>Trimming shortens\<close>

lemma trim_start_suffix: "\<exists>t. s = t @ trim_start s"
proof (induction s rule: trim_start.induct)
  case (2 c s)
  let ?n = "white_space_at (map of_char (c # s))"
  show ?case
  proof (cases "?n = 0")
    case False
    with 2 obtain t where "drop (?n - 1) s = t @ trim_start (drop (?n - 1) s)" by blast
    then have "c # s = (c # take (?n - 1) s @ t) @ trim_start (drop (?n - 1) s)"
      by (metis append.assoc append_Cons append_take_drop_id)
    with False show ?thesis by (simp only: trim_start.simps Let_def if_False) blast
  qed simp
qed simp

lemma trim_infix: "\<exists>t u. s = t @ trim s @ u"
  unfolding trim_def using trim_start_suffix [of s] trim_end_prefix [of "trim_start s"] by metis

lemma trim_shorter: "length (trim s) \<le> length s" "set (trim s) \<subseteq> set s"
proof -
  obtain t u where s: "s = t @ trim s @ u" using trim_infix by blast
  show "length (trim s) \<le> length s" using arg_cong [OF s, of length] by simp
  show "set (trim s) \<subseteq> set s" using arg_cong [OF s, of set] by auto
qed

lemma validate_text_trim:
  assumes "tool_validate_text f s = Ok ()"
  shows "tool_validate_text f (trim s) = Ok ()"
proof -
  have "trim s \<noteq> []" using assms by (simp add: tool_validate_text_Ok trim_empty)
  then have "\<not> trim_is_empty (trim s)" by (metis trim_empty trim_idem)
  then show ?thesis using assms trim_shorter(1) [of s] by (simp add: tool_validate_text_Ok)
qed

lemma validate_opaque_trim: "validate_opaque_text f s = Ok () \<Longrightarrow> validate_opaque_text f (trim s) = Ok ()"
  using trim_shorter [of s] by (auto simp: validate_opaque_text_Ok)

section \<open>The repair of the input\<close>

lemma repair_field_Ok:
  "repair_field (m, cs) (k, v) = Ok (m', cs') \<longleftrightarrow>
     tool_validate_text ''input field'' k = Ok () \<and> validate_opaque_text ''input value'' v = Ok () \<and>
     bm_get m (trim k) = None \<and> m' = bm_insert (trim k) v m \<and>
     cs' = (if trim k \<noteq> k then cs @ [InputFieldNormalized (trim k)] else cs)"
  by (auto simp: repair_field_def Let_def bm_contains_key_def tool_validate_text_Ok trim_empty
    dest: validate_text_trim)

lemma repair_fields_normal:
  assumes "try_fold repair_field (m, cs) es = Ok (m', cs')" and "normal_input m"
  shows "normal_input m' \<and> length (bm_entries m') = length (bm_entries m) + length es \<and>
    (\<forall>k v. bm_get m' k = Some v \<longrightarrow> bm_get m k = Some v \<or> (\<exists>j. (j, v) \<in> set es \<and> k = trim j))"
  using assms
proof (induction es arbitrary: m cs)
  case Nil
  then show ?case by simp
next
  case (Cons e es)
  obtain k v where e: "e = (k, v)" by (cases e)
  with Cons.prems(1) obtain m1 cs1 where step: "repair_field (m, cs) (k, v) = Ok (m1, cs1)"
    and rest: "try_fold repair_field (m1, cs1) es = Ok (m', cs')" by auto
  then have m1: "m1 = bm_insert (trim k) v m" "bm_get m (trim k) = None"
    and kv: "tool_validate_text ''input field'' k = Ok ()" "validate_opaque_text ''input value'' v = Ok ()"
    unfolding repair_field_Ok by auto
  then have "normal_input m1"
    using Cons.prems(2) by (auto simp: normal_input_def validate_text_trim)
  from Cons.IH [OF rest this] have IH: "normal_input m' \<and>
      length (bm_entries m') = length (bm_entries m1) + length es \<and>
      (\<forall>k v. bm_get m' k = Some v \<longrightarrow> bm_get m1 k = Some v \<or> (\<exists>j. (j, v) \<in> set es \<and> k = trim j))" .
  moreover have "length (bm_entries m1) = Suc (length (bm_entries m))"
    unfolding m1(1) by (rule bm.length_insert_fresh) (rule m1(2))
  moreover have "bm_get m j = Some w \<or> (\<exists>i. (i, w) \<in> set (e # es) \<and> j = trim i)"
    if "bm_get m' j = Some w" for j w
  proof (cases "bm_get m1 j = Some w")
    case True
    then show ?thesis by (auto simp: m1(1) e split: if_splits)
  next
    case False
    with IH that show ?thesis by auto
  qed
  ultimately show ?case by simp
qed

text \<open>Entries that are inserted one after the other.\<close>

definition insert_entries :: "tool_input \<Rightarrow> (string \<times> string) list \<Rightarrow> tool_input" where
  "insert_entries m es = foldl (\<lambda>m (k, v). bm_insert k v m) m es"

lemma insert_entries_get:
  "distinct (map fst es) \<Longrightarrow> bm_get (insert_entries m es) k = (case map_of es k of Some v \<Rightarrow> Some v | None \<Rightarrow> bm_get m k)"
proof (induction es arbitrary: m)
  case (Cons e es)
  then have "map_of es (fst e) = None" by (auto simp: map_of_eq_None_iff)
  with Cons show ?case by (cases e) (auto simp: insert_entries_def split: option.splits)
qed (simp add: insert_entries_def)

lemma insert_entries_all [simp]: "insert_entries bm_empty (bm_entries m) = m"
  by (rule bm_ext) (simp add: insert_entries_get [OF bm.entries_distinct] bm_get_map_of [of m] split: option.split)

lemma repair_fields_fixed:
  assumes "distinct (map fst es)" and "\<forall>(k, v) \<in> set es. bm_get m k = None \<and> trim k = k \<and>
      tool_validate_text ''input field'' k = Ok () \<and> validate_opaque_text ''input value'' v = Ok ()"
  shows "try_fold repair_field (m, cs) es = Ok (insert_entries m es, cs)"
  using assms
proof (induction es arbitrary: m)
  case Nil
  then show ?case by (simp add: insert_entries_def)
next
  case (Cons e es)
  obtain k v where e: "e = (k, v)" by (cases e)
  have "repair_field (m, cs) (k, v) = Ok (bm_insert k v m, cs)"
    using Cons.prems e by (simp add: repair_field_Ok)
  moreover have "try_fold repair_field (bm_insert k v m, cs) es = Ok (insert_entries (bm_insert k v m) es, cs)"
    using Cons.prems e by (intro Cons.IH) force+
  ultimately show ?case using e by (simp add: insert_entries_def)
qed

section \<open>Repair is idempotent\<close>

lemma repair_normal:
  assumes "repair_deterministic p = Ok r"
  shows "normal_proposal (rr_proposal r)"
proof -
  from assms obtain input changes where checks: "pp_run p \<noteq> 0" "pp_agent p \<noteq> 0"
      "validate_tool_name (tool_key (pp_tool p)) = Ok ()" "length (bm_entries (pp_input p)) \<le> TOOL_MAX_FIELDS"
      "length (pp_origins p) \<le> TOOL_MAX_INPUT_ORIGINS"
      "\<forall>s. tool_provenance_source (pp_provenance p) = Some s \<longrightarrow> tool_validate_text ''provenance source'' s = Ok ()"
    and fields: "try_fold repair_field
        (bm_empty, if tool_key (pp_tool p) \<noteq> pp_tool p then [ToolNameNormalized] else [])
        (bm_entries (pp_input p)) = Ok (input, changes)"
    and r: "rr_proposal r = p\<lparr>pp_tool := tool_key (pp_tool p), pp_input := input\<rparr>"
    by (auto simp: repair_deterministic_def Let_def validate_field_count_Ok split: if_splits option.splits)
  have "normal_input bm_empty" by (simp add: normal_input_def)
  from repair_fields_normal [OF fields this] checks r show ?thesis by (simp add: normal_proposal_def)
qed

lemma normal_repair:
  assumes "normal_proposal p"
  shows "repair_deterministic p = Ok \<lparr>rr_proposal = p, rr_tier = SyntaxSafe, rr_changes = []\<rparr>"
proof -
  have name: "tool_validate_text ''tool name'' (pp_tool p) = Ok ()" "validate_tool_name (pp_tool p) = Ok ()"
      "tool_key (pp_tool p) = pp_tool p"
    using assms by (auto simp: normal_proposal_def validate_tool_name_Ok tool_validate_text_Ok tool_key_name)
  have "\<forall>(k, v) \<in> set (bm_entries (pp_input p)). bm_get bm_empty k = (None :: string option) \<and> trim k = k \<and>
      tool_validate_text ''input field'' k = Ok () \<and> validate_opaque_text ''input value'' v = Ok ()"
    using assms by (auto simp: normal_proposal_def normal_input_def bm_entries_get)
  from repair_fields_fixed [OF bm.entries_distinct this]
  have "try_fold repair_field (bm_empty, []) (bm_entries (pp_input p)) = Ok (pp_input p, [])" by simp
  with assms name show ?thesis
    by (auto simp: repair_deterministic_def normal_proposal_def validate_field_count_Ok Let_def split: option.split)
qed

lemma normalized_normal: "normalized p = Ok q \<Longrightarrow> normal_proposal q"
  by (auto simp: normalized_def dest: repair_normal)

lemma normal_normalized: "normal_proposal p \<Longrightarrow> normalized p = Ok p"
  by (simp add: normalized_def normal_repair)

lemma normalized_idem: "normalized p = Ok q \<Longrightarrow> normalized q = Ok q"
  by (blast intro: normalized_normal normal_normalized)

section \<open>Syntax fields keep the normal form\<close>

lemma normal_input_insert:
  "normal_input m \<Longrightarrow> bm_get m f = Some w \<Longrightarrow> normal_input (bm_insert f (trim w) m)"
  by (auto simp: normal_input_def validate_opaque_trim)

lemma length_insert_present:
  assumes "bm_get m k \<noteq> None"
  shows "length (bm_entries (bm_insert k v m)) = length (bm_entries (m :: tool_input))"
proof -
  have len: "length (bm_entries n) = card {j. bm_get n j \<noteq> None}" for n :: tool_input
    using distinct_card [OF bm.entries_distinct [of n]] bm.keys_iff [of _ n]
    by (metis (mono_tags, lifting) Collect_cong Collect_mem_eq length_map)
  have "{j. bm_get (bm_insert k v m) j \<noteq> None} = {j. bm_get m j \<noteq> None}"
    using assms by auto
  then show ?thesis unfolding len by simp
qed

lemma normalize_syntax_fields_normal:
  assumes "normalize_syntax_fields r fs = Ok r'" and "normal_proposal (rr_proposal r)"
  shows "normal_proposal (rr_proposal r')"
  using assms
proof (induction fs arbitrary: r)
  case (Cons f fs)
  show ?case
  proof (cases "bm_get (pp_input (rr_proposal r)) f")
    case None
    with Cons show ?thesis by simp
  next
    case (Some w)
    then have "normal_proposal ((rr_proposal r)\<lparr>pp_input := bm_insert f (trim w) (pp_input (rr_proposal r))\<rparr>)"
      using Cons.prems(2) length_insert_present [of "pp_input (rr_proposal r)" f "trim w"]
      by (simp add: normal_proposal_def normal_input_insert del: bm_entries_insert)
    with Cons Some show ?thesis by (auto simp: Let_def split: if_splits)
  qed
qed simp

lemma validated_normal:
  assumes "validate_with_ownership win rt own now fresh p = Ok t"
  shows "normal_proposal (tx_proposal t) \<and> tx_id t = fresh"
  using assms
  by (auto simp: validate_with_ownership_def Let_def split: if_splits
    dest!: repair_normal normalize_syntax_fields_normal)

section \<open>An example\<close>

definition example_tool :: tool_definition where
  "example_tool = \<lparr>td_name = ''rm'', td_version = ''1'', td_required_fields = [], td_syntax_fields = [],
     td_capability = None, td_ownership = None, td_risk = RiskHigh, td_reversible = True\<rparr>"

definition example_tools :: tool_runtime where
  "example_tools = snd (tool_register example_tool tool_runtime_new)"

lemma example_tool_key: "tool_key ''rm'' = ''rm''" "tool_key ''RM'' = ''rm''"
  by (simp_all add: tool_key_def trim_visible ascii_lower_def char_of_def bit_0 Let_def)

lemma example_tools_eq:
  "example_tools = tool_runtime_new\<lparr>rt_definitions := bm_insert ''rm'' example_tool bm_empty,
     rt_additional := bm_insert ''rm'' [] bm_empty\<rparr>"
  by (simp add: example_tools_def tool_register_def register_with_capabilities_def tool_runtime_new_def
    example_tool_def tool_definition_validate_def validate_tool_name_def tool_validate_text_def
    trim_is_empty_def TOOL_MAX_TEXT_BYTES_def tool_name_char_def validate_field_count_def example_tool_key
    Let_def)

end
