(* ===== verification/Tool_Transactions.thy ===== *)
theory Tool_Transactions
  imports Tool_Normalization
begin

text \<open>
  What a client can do with a validated transaction, as histories of calls: any calls in any order,
  each at its own time, with the runtime and the ownership policy of that time. The executor keeps a
  log of its calls, so the properties speak of the effects and not of the states only.
\<close>

section \<open>Histories\<close>

record tool_world =
  w_runtime :: tool_runtime
  w_ownership :: ownership_check
  w_now :: u128

datatype tool_call =
    CallApprove approval_source
  | CallReject string
  | CallExecute tool_world
  | CallVerify tool_verifier
  | CallCommit
  | CallCompensate tool_world

fun tool_call_step :: "bool \<Rightarrow> 'x tool_executor \<Rightarrow> tool_call \<Rightarrow> tool_transaction \<Rightarrow> 'x
    \<Rightarrow> (unit, tool_error) result \<times> tool_transaction \<times> 'x" where
  "tool_call_step win ex (CallApprove source) t x = (let (r, t') = tool_approve source t in (r, t', x))"
| "tool_call_step win ex (CallReject reason) t x = (let (r, t') = tool_reject reason t in (r, t', x))"
| "tool_call_step win ex (CallExecute w) t x =
     execute_with_ownership win (w_runtime w) (w_ownership w) (w_now w) ex t x"
| "tool_call_step win ex (CallVerify verifier) t x = (let (r, t') = tool_verify verifier t in (r, t', x))"
| "tool_call_step win ex CallCommit t x = (let (r, t') = tool_commit t in (r, t', x))"
| "tool_call_step win ex (CallCompensate w) t x =
     compensate_with_ownership win (w_runtime w) (w_ownership w) (w_now w) ex t x"

type_synonym tool_log = "(tool_call \<times> (unit, tool_error) result) list"

inductive tool_history :: "bool \<Rightarrow> 'x tool_executor \<Rightarrow> tool_transaction \<Rightarrow> 'x \<Rightarrow> tool_log
    \<Rightarrow> tool_transaction \<Rightarrow> 'x \<Rightarrow> bool" for win ex t0 x0 where
  history_start: "tool_history win ex t0 x0 [] t0 x0"
| history_call: "tool_history win ex t0 x0 h t x \<Longrightarrow> tool_call_step win ex call t x = (r, t', x') \<Longrightarrow>
    tool_history win ex t0 x0 (h @ [(call, r)]) t' x'"

inductive_cases history_snocE: "tool_history win ex t0 x0 (h @ [c]) t x"

text \<open>An executor that also writes down what it was asked to do.\<close>

datatype effect_request =
    EffectExecute tool_definition tool_input
  | EffectCompensate tool_definition tool_input string

definition logging :: "'x tool_executor \<Rightarrow> ('x \<times> effect_request list) tool_executor" where
  "logging ex = \<lparr>
     te_execute = (\<lambda>d i s. let (r, x) = te_execute ex d i (fst s) in (r, x, snd s @ [EffectExecute d i])),
     te_compensate = (\<lambda>d i out s. let (r, x) = te_compensate ex d i out (fst s) in
       (r, x, snd s @ [EffectCompensate d i out]))\<rparr>"

section \<open>What each call does\<close>

definition same_call :: "tool_transaction \<Rightarrow> tool_transaction \<Rightarrow> bool" where
  "same_call t t' \<longleftrightarrow> tx_id t' = tx_id t \<and> tx_proposal t' = tx_proposal t \<and> tx_repair t' = tx_repair t \<and>
     tx_definition t' = tx_definition t"

abbreviation tx_input :: "tool_transaction \<Rightarrow> tool_input" where
  "tx_input t \<equiv> pp_input (tx_proposal t)"

text \<open>
  The outcomes of a call: refused with nothing changed, or one of the moves of the state machine,
  with the requests it makes to the executor.
\<close>

inductive tool_move :: "bool \<Rightarrow> tool_transaction \<Rightarrow> tool_call \<Rightarrow> (unit, tool_error) result \<Rightarrow> tool_transaction
    \<Rightarrow> effect_request list \<Rightarrow> bool" for win t where
  move_refused: "tool_move win t call (Err e) t []"
| move_approve: "tx_state t = ToolAwaitingApproval \<Longrightarrow>
    tool_move win t (CallApprove source) (Ok ()) (t\<lparr>tx_state := ToolApproved\<rparr>) []"
| move_reject: "tx_state t \<in> {ToolValidated, ToolAwaitingApproval, ToolApproved} \<Longrightarrow>
    tool_move win t (CallReject reason) (Ok ())
      (t\<lparr>tx_failure := Some reason, tx_state := ToolRejected\<rparr>) []"
| move_execute: "execute_checks win (w_runtime w) (w_ownership w) (w_now w) t = Ok () \<Longrightarrow>
    same_call t t' \<Longrightarrow> tx_state t' = (if is_ok r then ToolExecuted else ToolFailed) \<Longrightarrow>
    (tx_compensable t' \<Longrightarrow> tx_compensable t \<or> td_reversible (tx_definition t) \<and> tx_effect t' \<noteq> NotAttempted) \<Longrightarrow>
    tool_move win t (CallExecute w) r t' [EffectExecute (tx_definition t) (tx_input t)]"
| move_verified: "tx_state t = ToolExecuted \<Longrightarrow>
    tool_move win t (CallVerify v) (Ok ()) (t\<lparr>tx_state := ToolVerified\<rparr>) []"
| move_verify_failed: "tx_state t = ToolExecuted \<Longrightarrow>
    tool_move win t (CallVerify v) (Err e) (t\<lparr>tx_failure := Some m, tx_state := ToolFailed\<rparr>) []"
| move_commit: "tx_state t = ToolVerified \<Longrightarrow>
    tool_move win t CallCommit (Ok ()) (t\<lparr>tx_state := ToolCommitted\<rparr>) []"
| move_compensated: "compensate_checks win (w_runtime w) (w_ownership w) (w_now w) t = Ok () \<Longrightarrow>
    tool_move win t (CallCompensate w) (Ok ()) (t\<lparr>tx_state := ToolCompensated\<rparr>)
      [EffectCompensate (tx_definition t) (tx_input t) (output_or_default t)]"
| move_compensation_failed: "compensate_checks win (w_runtime w) (w_ownership w) (w_now w) t = Ok () \<Longrightarrow>
    tool_move win t (CallCompensate w) (Err e) (t\<lparr>tx_failure := Some m\<rparr>)
      [EffectCompensate (tx_definition t) (tx_input t) (output_or_default t)]"

lemma require_state_cases:
  "require_state t s m = (if tx_state t = s then Ok () else Err (TlInvalidState m (tx_state t)))"
  by (simp add: require_state_def)

lemma record_execution_moves:
  assumes "record_execution r t = (res, t')"
  shows "same_call t t' \<and> tx_state t' = (if is_ok res then ToolExecuted else ToolFailed) \<and>
    (tx_compensable t' \<longrightarrow> tx_compensable t \<or> td_reversible (tx_definition t) \<and> tx_effect t' \<noteq> NotAttempted)"
proof (cases "case ex_output r of None \<Rightarrow> Ok () | Some out \<Rightarrow> validate_opaque_text ''tool output'' out")
  case (Ok u)
  with assms show ?thesis by (auto simp: record_execution_def Let_def same_call_def split: if_splits)
next
  case (Err e)
  with assms have "res = Err e" "t' = t\<lparr>tx_failure := Some (show_opaque_error e),
      tx_effect := ex_effect r, tx_state := ToolFailed\<rparr>"
    by (simp_all add: record_execution_def)
  then show ?thesis by (simp add: same_call_def)
qed

lemma execute_moves:
  assumes "execute_with_ownership win (w_runtime w) (w_ownership w) (w_now w) (logging ex) t (x, log)
      = (r, t', x', log')"
  shows "\<exists>calls. tool_move win t (CallExecute w) r t' calls \<and> log' = log @ calls"
proof (cases "execute_checks win (w_runtime w) (w_ownership w) (w_now w) t")
  case (Err e)
  with assms have "r = Err e" "t' = t" "log' = log" by (simp_all add: execute_with_ownership_def)
  then show ?thesis by (auto intro!: exI [of _ "[]"] move_refused)
next
  case (Ok u)
  obtain res x1 where call: "te_execute ex (tx_definition t) (tx_input t) x = (res, x1)" by fastforce
  show ?thesis
  proof (cases res)
    case (Err e)
    with assms Ok call show ?thesis
      by (auto simp: execute_with_ownership_def logging_def same_call_def intro!: move_execute)
  next
    case (Ok result)
    then obtain t1 where rec: "record_execution result (t\<lparr>tx_state := ToolExecuting\<rparr>) = (r, t1)"
      and "t' = t1" "log' = log @ [EffectExecute (tx_definition t) (tx_input t)]"
      using assms \<open>execute_checks _ _ _ _ t = Ok u\<close> call
      by (auto simp: execute_with_ownership_def logging_def split: prod.splits)
    with record_execution_moves [OF rec] \<open>execute_checks _ _ _ _ t = Ok u\<close> show ?thesis
      by (auto simp: same_call_def intro!: move_execute)
  qed
qed

lemma compensate_moves:
  assumes "compensate_with_ownership win (w_runtime w) (w_ownership w) (w_now w) (logging ex) t (x, log)
      = (r, t', x', log')"
  shows "\<exists>calls. tool_move win t (CallCompensate w) r t' calls \<and> log' = log @ calls"
proof (cases "compensate_checks win (w_runtime w) (w_ownership w) (w_now w) t")
  case (Err e)
  with assms have "r = Err e" "t' = t" "log' = log" by (simp_all add: compensate_with_ownership_def)
  then show ?thesis by (auto intro!: exI [of _ "[]"] move_refused)
next
  case (Ok u)
  then have checks: "compensate_checks win (w_runtime w) (w_ownership w) (w_now w) t = Ok ()" by simp
  obtain res x1 where call: "te_compensate ex (tx_definition t) (tx_input t) (output_or_default t) x = (res, x1)"
    by fastforce
  have log': "log' = log @ [EffectCompensate (tx_definition t) (tx_input t) (output_or_default t)]"
    using assms checks call by (cases res) (simp_all add: compensate_with_ownership_def logging_def)
  show ?thesis
  proof (cases res)
    case (Ok v)
    then have "r = Ok ()" "t' = t\<lparr>tx_state := ToolCompensated\<rparr>"
      using assms checks call by (simp_all add: compensate_with_ownership_def logging_def)
    then show ?thesis using move_compensated [OF checks] log' by blast
  next
    case (Err e)
    then have "r = Err (TlCompensation e)" "t' = t\<lparr>tx_failure := Some e\<rparr>"
      using assms checks call by (simp_all add: compensate_with_ownership_def logging_def)
    then show ?thesis using move_compensation_failed [OF checks] log' by blast
  qed
qed

lemma call_moves:
  assumes "tool_call_step win (logging ex) call t (x, log) = (r, t', x', log')"
  shows "\<exists>calls. tool_move win t call r t' calls \<and> log' = log @ calls"
proof (cases call)
  case (CallExecute w)
  with assms execute_moves show ?thesis by simp
next
  case (CallCompensate w)
  with assms compensate_moves show ?thesis by simp
next
  case (CallVerify v)
  with assms show ?thesis
    by (auto simp: tool_verify_def require_state_cases Let_def split: if_splits result.splits
      intro: move_refused move_verified move_verify_failed)
qed (use assms in \<open>auto simp: tool_approve_def tool_reject_def tool_commit_def require_state_cases
      split: if_splits intro: move_refused move_approve move_reject move_commit\<close>)

section \<open>What a history can have done\<close>

text \<open>
  The executor was asked to execute the call once, at a time when the call was authorized and, if the
  transaction had to wait for approval, after the approval; everything it was asked for after that is
  a compensation, each in an authorized call, and of a reversible tool only.
\<close>

definition authorized_at :: "bool \<Rightarrow> tool_transaction \<Rightarrow> tool_world \<Rightarrow> bool" where
  "authorized_at win t w \<longleftrightarrow> transaction_authorized win (w_runtime w) (w_ownership w) (w_now w) t = Ok ()"

definition authorized_compensation :: "bool \<Rightarrow> tool_transaction \<Rightarrow> tool_call \<times> (unit, tool_error) result \<Rightarrow> bool"
  where
  "authorized_compensation win t c \<longleftrightarrow> (\<exists>w. fst c = CallCompensate w \<and> authorized_at win t w)"

definition executed_in :: "bool \<Rightarrow> tool_transaction \<Rightarrow> tool_log \<Rightarrow> effect_request list \<Rightarrow> bool" where
  "executed_in win t0 h reqs \<longleftrightarrow> (\<exists>before w r after cs.
     h = before @ (CallExecute w, r) # after \<and> authorized_at win t0 w \<and>
     (tx_state t0 = ToolAwaitingApproval \<longrightarrow> (\<exists>source. (CallApprove source, Ok ()) \<in> set before)) \<and>
     reqs = EffectExecute (tx_definition t0) (tx_input t0) # cs \<and>
     (\<forall>c \<in> set cs. \<exists>out. c = EffectCompensate (tx_definition t0) (tx_input t0) out) \<and>
     (cs \<noteq> [] \<longrightarrow> td_reversible (tx_definition t0)) \<and>
     length cs \<le> length (filter (authorized_compensation win t0) after))"

definition pre_execution :: "tool_state set" where
  "pre_execution = {ToolValidated, ToolAwaitingApproval, ToolApproved}"

definition tx_inv :: "bool \<Rightarrow> tool_transaction \<Rightarrow> tool_log \<Rightarrow> tool_transaction \<Rightarrow> effect_request list \<Rightarrow> bool"
  where
  "tx_inv win t0 h t reqs \<longleftrightarrow> same_call t0 t \<and> tx_state t \<noteq> ToolExecuting \<and>
     (tx_compensable t \<longrightarrow> td_reversible (tx_definition t0)) \<and>
     (tx_state t = ToolValidated \<longrightarrow> tx_state t0 = ToolValidated) \<and>
     (tx_state t = ToolApproved \<longrightarrow> (\<exists>source. (CallApprove source, Ok ()) \<in> set h)) \<and>
     (tx_state t \<in> insert ToolRejected pre_execution \<longleftrightarrow> reqs = []) \<and>
     (tx_state t \<in> {ToolVerified, ToolCommitted} \<longrightarrow> (\<exists>v. (CallVerify v, Ok ()) \<in> set h)) \<and>
     ((CallCommit, Ok ()) \<in> set h \<longrightarrow> (\<exists>v. (CallVerify v, Ok ()) \<in> set h) \<and> reqs \<noteq> []) \<and>
     (\<forall>reason. (CallReject reason, Ok ()) \<in> set h \<longrightarrow> tx_state t = ToolRejected) \<and>
     (reqs \<noteq> [] \<longrightarrow> executed_in win t0 h reqs)"

definition fresh_transaction :: "tool_transaction \<Rightarrow> bool" where
  "fresh_transaction t \<longleftrightarrow> tx_state t \<in> {ToolValidated, ToolAwaitingApproval} \<and> \<not> tx_compensable t \<and>
     tx_effect t = NotAttempted \<and> tx_output t = None"

lemma same_call_refl [simp]: "same_call t t"
  by (simp add: same_call_def)

lemma same_call_update [simp]:
  "same_call t (t'\<lparr>tx_state := s\<rparr>) = same_call t t'"
  "same_call t (t'\<lparr>tx_failure := m\<rparr>) = same_call t t'"
  by (simp_all add: same_call_def)

lemma same_call_trans: "same_call t u \<Longrightarrow> same_call u v \<Longrightarrow> same_call t v"
  by (simp add: same_call_def)

lemma same_call_authorized:
  "same_call t t' \<Longrightarrow> transaction_authorized win rt own now t' = transaction_authorized win rt own now t"
  by (simp add: transaction_authorized_def same_call_def)

lemma executed_in_snoc: "executed_in win t0 h reqs \<Longrightarrow> executed_in win t0 (h @ [c]) reqs"
proof -
  assume "executed_in win t0 h reqs"
  then obtain before w r after cs where "h = before @ (CallExecute w, r) # after"
      "reqs = EffectExecute (tx_definition t0) (tx_input t0) # cs"
    and rest: "authorized_at win t0 w"
      "tx_state t0 = ToolAwaitingApproval \<longrightarrow> (\<exists>source. (CallApprove source, Ok ()) \<in> set before)"
      "\<forall>c \<in> set cs. \<exists>out. c = EffectCompensate (tx_definition t0) (tx_input t0) out"
      "cs \<noteq> [] \<longrightarrow> td_reversible (tx_definition t0)"
      "length cs \<le> length (filter (authorized_compensation win t0) after)"
    unfolding executed_in_def by blast
  then show "executed_in win t0 (h @ [c]) reqs"
    unfolding executed_in_def
    by (intro exI [of _ before] exI [of _ w] exI [of _ r] exI [of _ "after @ [c]"] exI [of _ cs])
      simp
qed

lemma executed_in_compensation:
  assumes "executed_in win t0 h reqs" and "authorized_at win t0 w" and "td_reversible (tx_definition t0)"
  shows "executed_in win t0 (h @ [(CallCompensate w, r)])
    (reqs @ [EffectCompensate (tx_definition t0) (tx_input t0) out])"
proof -
  from assms(1) obtain before w0 r0 after cs where h: "h = before @ (CallExecute w0, r0) # after"
    "reqs = EffectExecute (tx_definition t0) (tx_input t0) # cs"
    and rest: "authorized_at win t0 w0"
      "tx_state t0 = ToolAwaitingApproval \<longrightarrow> (\<exists>source. (CallApprove source, Ok ()) \<in> set before)"
      "\<forall>c \<in> set cs. \<exists>out. c = EffectCompensate (tx_definition t0) (tx_input t0) out"
      "length cs \<le> length (filter (authorized_compensation win t0) after)"
    unfolding executed_in_def by blast
  have "authorized_compensation win t0 (CallCompensate w, r)"
    using assms(2) by (simp add: authorized_compensation_def)
  with h rest assms(3) show ?thesis
    unfolding executed_in_def
    by (intro exI [of _ before] exI [of _ w0] exI [of _ r0] exI [of _ "after @ [(CallCompensate w, r)]"]
        exI [of _ "cs @ [EffectCompensate (tx_definition t0) (tx_input t0) out]"]) auto
qed

lemma tx_inv_snoc_same:
  "tx_inv win t0 h t reqs \<Longrightarrow> tx_inv win t0 (h @ [(call, Err e)]) t reqs"
  by (auto simp: tx_inv_def intro: executed_in_snoc)

lemma execute_checks_Ok:
  "execute_checks win rt own now t = Ok () \<longleftrightarrow> tx_state t \<in> {ToolValidated, ToolApproved} \<and>
     (td_risk (tx_definition t) \<in> {RiskConfirm, RiskHigh} \<longrightarrow> tx_state t = ToolApproved) \<and>
     transaction_authorized win rt own now t = Ok ()"
  by (auto simp: execute_checks_def)

lemma compensate_checks_Ok:
  "compensate_checks win rt own now t = Ok () \<longleftrightarrow>
     tx_state t \<in> {ToolExecuted, ToolVerified, ToolCommitted, ToolFailed} \<and> tx_compensable t \<and>
     transaction_authorized win rt own now t = Ok ()"
  by (auto simp: compensate_checks_def)

lemma executed_first:
  assumes "tx_inv win t0 h t []" and "execute_checks win (w_runtime w) (w_ownership w) (w_now w) t = Ok ()"
  shows "executed_in win t0 (h @ [(CallExecute w, r)]) [EffectExecute (tx_definition t) (tx_input t)]"
proof -
  have "authorized_at win t0 w"
    using assms same_call_authorized [of t0 t win]
    by (simp add: authorized_at_def execute_checks_Ok tx_inv_def)
  moreover have "tx_definition t = tx_definition t0" "tx_input t = tx_input t0"
    using assms(1) by (simp_all add: tx_inv_def same_call_def)
  moreover have "\<exists>source. (CallApprove source, Ok ()) \<in> set h" if "tx_state t0 = ToolAwaitingApproval"
    using that assms by (auto simp: tx_inv_def execute_checks_Ok)
  ultimately show ?thesis unfolding executed_in_def by (intro exI [of _ h] exI [of _ w]) auto
qed

lemma tx_inv_executed:
  assumes inv: "tx_inv win t0 h t reqs"
    and checks: "execute_checks win (w_runtime w) (w_ownership w) (w_now w) t = Ok ()"
    and t': "same_call t t'" "tx_state t' = (if is_ok r then ToolExecuted else ToolFailed)"
      "tx_compensable t' \<Longrightarrow> tx_compensable t \<or> td_reversible (tx_definition t)"
  shows "tx_inv win t0 (h @ [(CallExecute w, r)]) t' (reqs @ [EffectExecute (tx_definition t) (tx_input t)])"
proof -
  have before: "tx_state t \<in> pre_execution" using checks by (auto simp: execute_checks_Ok pre_execution_def)
  then have "reqs = []" using inv by (simp add: tx_inv_def)
  then have first: "executed_in win t0 (h @ [(CallExecute w, r)]) (reqs @ [EffectExecute (tx_definition t) (tx_input t)])"
    using executed_first [OF _ checks] inv by simp
  have same: "same_call t0 t" and rev: "tx_compensable t \<longrightarrow> td_reversible (tx_definition t0)"
    and no_commit: "(CallCommit, Ok ()) \<notin> set h" and no_reject: "\<forall>reason. (CallReject reason, Ok ()) \<notin> set h"
    using inv before \<open>reqs = []\<close> by (auto simp: tx_inv_def pre_execution_def)
  have "tx_compensable t' \<longrightarrow> td_reversible (tx_definition t0)"
    using t'(3) rev same by (auto simp: same_call_def)
  moreover have "tx_state t' \<in> {ToolExecuted, ToolFailed}" using t'(2) by simp
  ultimately show ?thesis
    unfolding tx_inv_def using first same_call_trans [OF same t'(1)] no_commit no_reject
    by (auto simp: pre_execution_def)
qed

lemma tx_inv_compensation:
  assumes inv: "tx_inv win t0 h t reqs"
    and checks: "compensate_checks win (w_runtime w) (w_ownership w) (w_now w) t = Ok ()"
    and t': "same_call t t'" "tx_compensable t' = tx_compensable t"
      "r = Ok () \<and> tx_state t' = ToolCompensated \<or> (\<exists>e. r = Err e) \<and> tx_state t' = tx_state t"
  shows "tx_inv win t0 (h @ [(CallCompensate w, r)]) t'
    (reqs @ [EffectCompensate (tx_definition t) (tx_input t) (output_or_default t)])"
proof -
  have state: "tx_state t \<in> {ToolExecuted, ToolVerified, ToolCommitted, ToolFailed}" and "tx_compensable t"
    and auth: "transaction_authorized win (w_runtime w) (w_ownership w) (w_now w) t = Ok ()"
    using checks by (simp_all add: compensate_checks_Ok)
  have "tx_state t \<notin> insert ToolRejected pre_execution" using state by (auto simp: pre_execution_def)
  then have "reqs \<noteq> []" using inv unfolding tx_inv_def by blast
  with \<open>tx_compensable t\<close>
  have same: "same_call t0 t" and rev: "td_reversible (tx_definition t0)" and ex: "executed_in win t0 h reqs"
    and verified: "tx_state t \<in> {ToolVerified, ToolCommitted} \<longrightarrow> (\<exists>v. (CallVerify v, Ok ()) \<in> set h)"
      "(CallCommit, Ok ()) \<in> set h \<longrightarrow> (\<exists>v. (CallVerify v, Ok ()) \<in> set h)"
    and no_reject: "\<forall>reason. (CallReject reason, Ok ()) \<notin> set h"
    using inv \<open>tx_state t \<notin> insert ToolRejected pre_execution\<close> unfolding tx_inv_def by blast+
  have "authorized_at win t0 w"
    using auth same_call_authorized [OF same] by (simp add: authorized_at_def)
  from executed_in_compensation [OF ex this rev]
  have "executed_in win t0 (h @ [(CallCompensate w, r)])
      (reqs @ [EffectCompensate (tx_definition t) (tx_input t) (output_or_default t)])"
    using same by (simp add: same_call_def)
  moreover have "tx_state t' \<notin> {ToolExecuting, ToolValidated, ToolApproved}"
      "tx_state t' \<notin> insert ToolRejected pre_execution"
    using t'(3) state by (auto simp: pre_execution_def)
  moreover have "tx_state t' \<in> {ToolVerified, ToolCommitted} \<longrightarrow> (\<exists>v. (CallVerify v, Ok ()) \<in> set h)"
    using t'(3) verified(1) by auto
  moreover have "tx_compensable t' \<longrightarrow> td_reversible (tx_definition t0)" using rev by simp
  ultimately show ?thesis
    unfolding tx_inv_def using same_call_trans [OF same t'(1)] verified(2) no_reject by simp
qed

lemma tx_inv_move:
  assumes inv: "tx_inv win t0 h t reqs" and move: "tool_move win t call r t' calls"
  shows "tx_inv win t0 (h @ [(call, r)]) t' (reqs @ calls)"
  using move
proof cases
  case (move_refused e)
  with inv show ?thesis by (auto intro: tx_inv_snoc_same)
next
  case (move_execute w)
  then show ?thesis using tx_inv_executed [OF inv, of w t' r] by blast
next
  case (move_compensated w)
  then show ?thesis using tx_inv_compensation [OF inv, of w t' r] by simp
next
  case (move_compensation_failed w e m)
  then show ?thesis using tx_inv_compensation [OF inv, of w t' r] by simp
next
  case (move_approve source)
  with inv show ?thesis by (auto simp: tx_inv_def pre_execution_def)
next
  case (move_reject reason)
  with inv show ?thesis by (auto simp: tx_inv_def pre_execution_def)
next
  case (move_verified v)
  with inv executed_in_snoc [of win t0 h reqs] show ?thesis by (auto simp: tx_inv_def pre_execution_def)
next
  case (move_verify_failed v e m)
  with inv executed_in_snoc [of win t0 h reqs] show ?thesis by (auto simp: tx_inv_def pre_execution_def)
next
  case move_commit
  with inv executed_in_snoc [of win t0 h reqs] show ?thesis by (auto simp: tx_inv_def pre_execution_def)
qed

lemma tool_history_inv:
  assumes "tool_history win (logging ex) t0 (x0, []) h t s" and "fresh_transaction t0"
  shows "tx_inv win t0 h t (snd s)"
  using assms
proof (induction rule: tool_history.induct)
  case history_start
  then show ?case by (auto simp: tx_inv_def fresh_transaction_def pre_execution_def)
next
  case (history_call h t s call r t' s')
  then obtain calls where "tool_move win t call r t' calls" "snd s' = snd s @ calls"
    using call_moves [of win ex call t "fst s" "snd s" r t' "fst s'" "snd s'"] by auto
  with history_call tx_inv_move show ?case by simp
qed

section \<open>Progress\<close>

text \<open>A successful call moves a transaction up, a refused or failed one never down.\<close>

fun tool_rank :: "tool_state \<Rightarrow> nat" where
  "tool_rank ToolAwaitingApproval = 0"
| "tool_rank ToolValidated = 1"
| "tool_rank ToolApproved = 1"
| "tool_rank ToolExecuting = 2"
| "tool_rank ToolExecuted = 2"
| "tool_rank ToolVerified = 3"
| "tool_rank ToolCommitted = 4"
| "tool_rank ToolFailed = 4"
| "tool_rank ToolRejected = 5"
| "tool_rank ToolCompensated = 5"

lemma tool_rank_le: "tool_rank s \<le> 5"
  by (cases s) simp_all

lemma tool_move_rank:
  assumes "tool_move win t call r t' calls"
  shows "tool_rank (tx_state t) + (if r = Ok () then 1 else 0) \<le> tool_rank (tx_state t')"
  using assms
proof cases
  case (move_execute w)
  then have "tool_rank (tx_state t) \<le> 1" by (auto simp: execute_checks_Ok)
  with move_execute show ?thesis by (cases r) auto
next
  case (move_compensated w)
  then have "tool_rank (tx_state t) \<le> 4" by (auto simp: compensate_checks_Ok)
  with move_compensated show ?thesis by simp
qed auto

definition succeeded :: "tool_log \<Rightarrow> nat" where
  "succeeded h = length (filter (\<lambda>c. snd c = Ok ()) h)"

lemma tool_history_rank:
  assumes "tool_history win (logging ex) t0 x0 h t s"
  shows "succeeded h \<le> tool_rank (tx_state t)"
  using assms
proof (induction rule: tool_history.induct)
  case history_start
  then show ?case by (simp add: succeeded_def)
next
  case (history_call h t s call r t' s')
  then obtain calls where "tool_move win t call r t' calls"
    using call_moves [of win ex call t "fst s" "snd s" r t' "fst s'" "snd s'"] by auto
  from tool_move_rank [OF this] history_call.IH show ?case by (auto simp: succeeded_def)
qed

definition final_states :: "tool_state set" where
  "final_states = {ToolCommitted, ToolRejected, ToolFailed, ToolCompensated}"

lemma finish_verified:
  assumes "tool_history win ex t0 x0 h t x" and "tx_state t = ToolVerified"
  shows "\<exists>t'. tool_history win ex t0 x0 (h @ [(CallCommit, Ok ())]) t' x \<and> tx_state t' = ToolCommitted"
  using history_call [OF assms(1), of CallCommit "Ok ()" "t\<lparr>tx_state := ToolCommitted\<rparr>" x] assms(2)
  by (auto simp: tool_commit_def require_state_def)

lemma finish_executed:
  assumes "tool_history win ex t0 x0 h t x" and "tx_state t = ToolExecuted"
  shows "\<exists>h' t'. fst ` set h' \<subseteq> {CallVerify v, CallCommit} \<and> length h' \<le> 2 \<and>
    tool_history win ex t0 x0 (h @ h') t' x \<and> tx_state t' \<in> final_states"
proof (cases "v (tx_definition t) (tx_input t) (output_or_default t)")
  case (Ok u)
  then have "tool_history win ex t0 x0 (h @ [(CallVerify v, Ok ())]) (t\<lparr>tx_state := ToolVerified\<rparr>) x"
    using assms(2) by (intro history_call [OF assms(1)]) (simp add: tool_verify_def require_state_def)
  from finish_verified [OF this]
  obtain t' where "tool_history win ex t0 x0 ((h @ [(CallVerify v, Ok ())]) @ [(CallCommit, Ok ())]) t' x"
    "tx_state t' = ToolCommitted" by auto
  then show ?thesis
    by (intro exI [of _ "[(CallVerify v, Ok ()), (CallCommit, Ok ())]"] exI [of _ t'])
      (simp add: final_states_def)
next
  case (Err e)
  then have "tool_history win ex t0 x0 (h @ [(CallVerify v, Err (TlVerification e))])
      (t\<lparr>tx_failure := Some e, tx_state := ToolFailed\<rparr>) x"
    using assms(2) by (intro history_call [OF assms(1)]) (simp add: tool_verify_def require_state_def)
  then show ?thesis
    by (intro exI [of _ "[(CallVerify v, Err (TlVerification e))]"]
        exI [of _ "t\<lparr>tx_failure := Some e, tx_state := ToolFailed\<rparr>"]) (simp add: final_states_def)
qed

lemma finish_transaction:
  assumes "tool_history win ex t0 x0 h t x" and "tx_state t \<noteq> ToolExecuting"
  shows "\<exists>h' t'. fst ` set h' \<subseteq> {CallReject reason, CallVerify v, CallCommit} \<and> length h' \<le> 2 \<and>
    tool_history win ex t0 x0 (h @ h') t' x \<and> tx_state t' \<in> final_states"
proof -
  consider (pre_execution) "tx_state t \<in> pre_execution" | (executed) "tx_state t = ToolExecuted"
    | (verified) "tx_state t = ToolVerified" | (final) "tx_state t \<in> final_states"
    using assms(2) by (cases "tx_state t") (auto simp: pre_execution_def final_states_def)
  then show ?thesis
  proof cases
    case pre_execution
    then have "tool_history win ex t0 x0 (h @ [(CallReject reason, Ok ())])
        (t\<lparr>tx_failure := Some reason, tx_state := ToolRejected\<rparr>) x"
      by (intro history_call [OF assms(1)]) (simp add: tool_reject_def pre_execution_def)
    then show ?thesis
      by (intro exI [of _ "[(CallReject reason, Ok ())]"]
          exI [of _ "t\<lparr>tx_failure := Some reason, tx_state := ToolRejected\<rparr>"])
        (simp add: final_states_def)
  next
    case executed
    from finish_executed [OF assms(1) this, of v] show ?thesis by blast
  next
    case verified
    from finish_verified [OF assms(1) this]
    obtain t' where "tool_history win ex t0 x0 (h @ [(CallCommit, Ok ())]) t' x" "tx_state t' = ToolCommitted"
      by blast
    then show ?thesis
      by (intro exI [of _ "[(CallCommit, Ok ())]"] exI [of _ t']) (simp add: final_states_def)
  next
    case final
    with assms(1) show ?thesis by (intro exI [of _ "[]"] exI [of _ t]) simp
  qed
qed

section \<open>What validation has checked\<close>

lemma risk_state_Ok:
  "risk_state d = Ok s \<longleftrightarrow> td_risk d \<noteq> RiskBlock \<and>
     s = (if td_risk d \<in> {RiskConfirm, RiskHigh} then ToolAwaitingApproval else ToolValidated)"
  by (cases "td_risk d") (auto simp: risk_state_def)

lemma normalize_syntax_fields_keeps:
  "normalize_syntax_fields r fs = Ok r' \<Longrightarrow>
     (rr_proposal r')\<lparr>pp_input := pp_input (rr_proposal r)\<rparr> = rr_proposal r"
proof (induction fs arbitrary: r)
  case (Cons f fs)
  show ?case
  proof (cases "bm_get (pp_input (rr_proposal r)) f")
    case None
    with Cons show ?thesis by simp
  next
    case (Some w)
    with Cons.prems Cons.IH [of r] Cons.IH [of "r\<lparr>rr_changes := rr_changes r @ [InputValueTrimmed f],
        rr_proposal := (rr_proposal r)\<lparr>pp_input := bm_insert f (trim w) (pp_input (rr_proposal r))\<rparr>\<rparr>"]
    show ?thesis by (cases "rr_proposal r"; cases "rr_proposal r'") (auto simp: Let_def split: if_splits)
  qed
qed simp

lemma validated_transaction:
  assumes "validate_with_ownership win rt own now fresh p = Ok t"
  shows "fresh_transaction t \<and> tx_id t = fresh \<and>
    tool_definition_of rt (pp_tool (tx_proposal t)) = Some (tx_definition t) \<and>
    (\<forall>f \<in> set (td_required_fields (tx_definition t)). bm_contains_key (tx_input t) f) \<and>
    transaction_authorized win rt own now t = Ok () \<and>
    td_risk (tx_definition t) \<noteq> RiskBlock \<and>
    (trust_policy rt (pp_tool (tx_proposal t)) = RequireTrusted \<longrightarrow>
       is_trusted (effective_trust_origin (tx_proposal t))) \<and>
    (tx_state t = ToolAwaitingApproval \<longleftrightarrow> td_risk (tx_definition t) \<in> {RiskConfirm, RiskHigh} \<or>
       trust_policy rt (pp_tool (tx_proposal t)) = RequireApprovalForUntrusted \<and>
       \<not> is_trusted (effective_trust_origin (tx_proposal t)))"
proof -
  obtain repair0 repair s where repair0: "repair_deterministic p = Ok repair0"
    and d: "tool_definition_of rt (pp_tool (rr_proposal repair0)) = Some (tx_definition t)"
    and repair: "normalize_syntax_fields repair0 (td_syntax_fields (tx_definition t)) = Ok repair"
    and t: "tx_proposal t = rr_proposal repair" "tx_id t = fresh" "tx_output t = None"
      "\<not> tx_compensable t" "tx_effect t = NotAttempted"
      "tx_state t = policy_state (trust_policy rt (pp_tool (rr_proposal repair)))
         (effective_trust_origin (rr_proposal repair)) s"
    and checks: "try_all (\<lambda>f. if \<not> bm_contains_key (pp_input (rr_proposal repair)) f
          then Err (TlMissingField f) else Ok ()) (td_required_fields (tx_definition t)) = Ok ()"
      "transaction_authorized win rt own now t = Ok ()" "risk_state (tx_definition t) = Ok s"
      "trust_policy rt (pp_tool (rr_proposal repair)) = RequireTrusted \<longrightarrow>
         is_trusted (effective_trust_origin (rr_proposal repair))"
    using assms by (auto simp: validate_with_ownership_def Let_def transaction_authorized_def split: if_splits)
  have "pp_tool (rr_proposal repair) = pp_tool (rr_proposal repair0)"
    using arg_cong [OF normalize_syntax_fields_keeps [OF repair], of pp_tool] by simp
  with t checks d show ?thesis
    by (auto simp: fresh_transaction_def policy_state_def risk_state_Ok try_all_Ok_iff split: if_splits)
qed

section \<open>Effects that cannot be undone\<close>

text \<open>
  If the output of a tool is refused (too long, or with a null byte), the effect has happened but the
  transaction fails before \<open>compensation_available\<close> is recorded, so it can never be compensated, not
  even where the executor offered it.
\<close>

lemma rejected_output_cannot_be_undone:
  assumes "execute_checks win rt own now t = Ok ()" and "\<not> tx_compensable t"
    and "te_execute ex (tx_definition t) (tx_input t) x = (Ok r, x')"
    and "ex_output r = Some out" and "validate_opaque_text ''tool output'' out = Err e"
  shows "\<exists>t'. execute_with_ownership win rt own now ex t x = (Err e, t', x') \<and>
    tx_state t' = ToolFailed \<and> tx_effect t' = ex_effect r \<and>
    compensate_with_ownership win rt' own' now' ex t' x' = (Err TlNotCompensatable, t', x')"
  using assms
  by (auto simp: execute_with_ownership_def record_execution_def compensate_with_ownership_def
    compensate_checks_def)

section \<open>Properties\<close>

text \<open>
  C2: no tool has an effect without authority. Take a validated proposal and any calls on its
  transaction, in any order, with any executor and with the policies of their own times. The executor
  was asked to execute at most once, with the validated input, in a call that was authorized then,
  and after an approval if the tool is risky or its provenance untrusted where the trust policy asks
  for one; what it was asked for besides are compensations of a reversible tool. Blocked tools and,
  under \<open>RequireTrusted\<close>, untrusted proposals have no transaction at all. A rejected transaction has
  had no effect, and a committed one was executed and verified.
\<close>

theorem tool_effects_guarded:
  assumes "validate_with_ownership win rt own now fresh p = Ok t0"
    and "tool_history win (logging ex) t0 (x0, []) h t (x, requests)"
  shows "(requests \<noteq> [] \<longrightarrow> executed_in win t0 h requests) \<and>
    (\<forall>reason. (CallReject reason, Ok ()) \<in> set h \<longrightarrow> requests = []) \<and>
    ((CallCommit, Ok ()) \<in> set h \<longrightarrow>
       requests \<noteq> [] \<and> (\<exists>v. (CallVerify v, Ok ()) \<in> set h)) \<and>
    td_risk (tx_definition t0) \<noteq> RiskBlock \<and>
    (tx_state t0 = ToolAwaitingApproval \<longleftrightarrow> td_risk (tx_definition t0) \<in> {RiskConfirm, RiskHigh} \<or>
       trust_policy rt (pp_tool (tx_proposal t0)) = RequireApprovalForUntrusted \<and>
       \<not> is_trusted (effective_trust_origin (tx_proposal t0))) \<and>
    (trust_policy rt (pp_tool (tx_proposal t0)) = RequireTrusted \<longrightarrow>
       is_trusted (effective_trust_origin (tx_proposal t0)))"
proof -
  note valid = validated_transaction [OF assms(1)]
  have "tx_inv win t0 h t requests"
    using tool_history_inv [OF assms(2)] valid by simp
  then show ?thesis using valid by (auto simp: tx_inv_def)
qed

text \<open>
  C27: a transaction always comes to an end. However it was used, it is never left in the middle of an
  execution, at most five calls on it have succeeded, and at most two more calls that have no effect
  (reject it, or verify and commit it) lead to a final state.
\<close>

theorem tool_transactions_finish:
  assumes "validate_with_ownership win rt own now fresh p = Ok t0"
    and "tool_history win (logging ex) t0 (x0, []) h t s"
  shows "tx_state t \<noteq> ToolExecuting \<and> succeeded h \<le> 5 \<and>
    (\<exists>h' t'. fst ` set h' \<subseteq> {CallReject reason, CallVerify v, CallCommit} \<and> length h' \<le> 2 \<and>
       tool_history win (logging ex) t0 (x0, []) (h @ h') t' s \<and>
       tx_state t' \<in> {ToolCommitted, ToolRejected, ToolFailed, ToolCompensated})"
proof -
  have "tx_inv win t0 h t (snd s)"
    using tool_history_inv [OF assms(2)] validated_transaction [OF assms(1)] by simp
  then have "tx_state t \<noteq> ToolExecuting" by (simp add: tx_inv_def)
  with finish_transaction [OF assms(2)] tool_history_rank [OF assms(2)] tool_rank_le [of "tx_state t"]
  show ?thesis unfolding final_states_def by (meson le_trans)
qed

section \<open>Examples\<close>

definition example_proposal :: tool_proposal where
  "example_proposal = \<lparr>pp_run = 1, pp_task = None, pp_agent = 2, pp_tool = ''RM'', pp_input = bm_empty,
     pp_provenance = PvAgent, pp_origins = []\<rparr>"

definition example_executor :: "nat tool_executor" where
  "example_executor = \<lparr>
     te_execute = (\<lambda>d i n. (Ok \<lparr>ex_output = Some ''done'', ex_compensable = True, ex_effect = EffectConfirmed\<rparr>, n + 1)),
     te_compensate = (\<lambda>d i out n. (Ok (), n - 1))\<rparr>"

definition example_world :: tool_world where
  "example_world = \<lparr>w_runtime = example_tools, w_ownership = implicit_ownership_denied, w_now = 7\<rparr>"

definition example_transaction :: tool_transaction where
  "example_transaction =
    (let q = example_proposal\<lparr>pp_tool := ''rm''\<rparr> in
     \<lparr>tx_id = 9, tx_proposal = q,
      tx_repair = \<lparr>rr_proposal = q, rr_tier = SyntaxSafe, rr_changes = [ToolNameNormalized]\<rparr>,
      tx_definition = example_tool, tx_state = ToolAwaitingApproval, tx_output = None, tx_failure = None,
      tx_compensable = False, tx_effect = NotAttempted\<rparr>)"

lemma example_validated:
  "validate_with_ownership False example_tools implicit_ownership_denied 7 9 example_proposal
     = Ok example_transaction"
  by (simp add: validate_with_ownership_def repair_deterministic_def example_proposal_def
    tool_validate_text_def trim_is_empty_def TOOL_MAX_TEXT_BYTES_def example_tool_key validate_tool_name_def
    tool_name_char_def validate_field_count_def tool_definition_of_def example_tools_eq example_tool_def
    authorize_requirements_def tool_requirements_def risk_state_def trust_policy_def tool_runtime_new_def
    policy_state_def example_transaction_def Let_def)

definition example_log :: tool_log where
  "example_log = [(CallApprove ApprovedByUser, Ok ()), (CallExecute example_world, Ok ())]"

lemma example_history:
  "\<exists>t. tool_history False (logging example_executor) example_transaction (0, []) example_log t
     (1, [EffectExecute example_tool bm_empty])"
proof -
  have approved: "tool_history False (logging example_executor) example_transaction (0, [])
      ([] @ [(CallApprove ApprovedByUser, Ok ())]) (example_transaction\<lparr>tx_state := ToolApproved\<rparr>) (0, [])"
    by (rule history_call [OF history_start])
      (simp add: tool_approve_def require_state_def example_transaction_def Let_def)
  have "fst (tool_call_step False (logging example_executor) (CallExecute example_world)
      (example_transaction\<lparr>tx_state := ToolApproved\<rparr>) (0, [])) = Ok ()"
    "snd (snd (tool_call_step False (logging example_executor) (CallExecute example_world)
      (example_transaction\<lparr>tx_state := ToolApproved\<rparr>) (0, []))) = (1, [EffectExecute example_tool bm_empty])"
    by (simp_all add: execute_with_ownership_def execute_checks_def transaction_authorized_def
      authorize_requirements_def tool_requirements_def example_world_def example_tools_eq tool_runtime_new_def
      example_transaction_def example_tool_def example_proposal_def logging_def example_executor_def
      record_execution_def validate_opaque_text_def TOOL_MAX_TEXT_BYTES_def Let_def)
  then obtain t where "tool_call_step False (logging example_executor) (CallExecute example_world)
      (example_transaction\<lparr>tx_state := ToolApproved\<rparr>) (0, []) = (Ok (), t, 1, [EffectExecute example_tool bm_empty])"
    by (metis prod.collapse)
  from history_call [OF approved this] show ?thesis by (auto simp: example_log_def)
qed

theorem tool_effects_guarded_witness:
  "\<exists>t. tool_history False (logging example_executor) example_transaction (0, []) example_log t
      (1, [EffectExecute example_tool bm_empty]) \<and>
    executed_in False example_transaction example_log [EffectExecute example_tool bm_empty]"
proof -
  obtain t where h: "tool_history False (logging example_executor) example_transaction (0, []) example_log t
      (1, [EffectExecute example_tool bm_empty])"
    using example_history by blast
  have "executed_in False example_transaction example_log [EffectExecute example_tool bm_empty]"
    using tool_effects_guarded [OF example_validated h, THEN conjunct1] by simp
  with h show ?thesis by (intro exI [of _ t] conjI)
qed

theorem tool_transactions_finish_witness:
  "\<exists>t. tool_history False (logging example_executor) example_transaction (0, []) example_log t
      (1, [EffectExecute example_tool bm_empty]) \<and> succeeded example_log \<le> 5 \<and>
    (\<exists>h' t'. fst ` set h' \<subseteq> {CallReject ''no'', CallVerify (\<lambda>_ _ _. Ok ()), CallCommit} \<and> length h' \<le> 2 \<and>
       tool_history False (logging example_executor) example_transaction (0, []) (example_log @ h') t'
         (1, [EffectExecute example_tool bm_empty]) \<and>
       tx_state t' \<in> {ToolCommitted, ToolRejected, ToolFailed, ToolCompensated})"
proof -
  obtain t where h: "tool_history False (logging example_executor) example_transaction (0, []) example_log t
      (1, [EffectExecute example_tool bm_empty])"
    using example_history by blast
  note finish = tool_transactions_finish [OF example_validated h, of "''no''" "\<lambda>_ _ _. Ok ()"]
  show ?thesis
    by (rule exI [of _ t], intro conjI, rule h, rule finish [THEN conjunct2, THEN conjunct1],
      rule finish [THEN conjunct2, THEN conjunct2])
qed

end
