(* ===== verification/Tool_Codec.thy ===== *)
theory Tool_Codec
  imports Tool_Normalization
begin

text \<open>
  The payloads of the tool transitions and the history \<open>ToolHistory\<close> that a log of them replays to.
  Proposals are written and read in their normal form, which is idempotent; so a log reproduces the
  history of the proposals as the runtime saw them.
\<close>

section \<open>Transitions and the history\<close>

datatype tool_transition =
    TtProposed tool_transaction_id tool_proposal tool_state
  | TtStateChanged tool_transaction_id tool_state "string option"
  | TtRepaired tool_transaction_id repair_audit
  | TtPreviewed tool_transaction_id tool_preview

definition tt_proposed :: "tool_transaction \<Rightarrow> tool_transition" where
  "tt_proposed t = TtProposed (tx_id t) (tx_proposal t) (tx_state t)"

definition tt_state_changed :: "tool_transaction_id \<Rightarrow> tool_state \<Rightarrow> string option
    \<Rightarrow> (tool_transition, tool_error) result" where
  "tt_state_changed i s detail =
     and_then (case detail of None \<Rightarrow> Ok () | Some d \<Rightarrow> tool_validate_text ''tool transition detail'' d)
       (\<lambda>_. Ok (TtStateChanged i s detail))"

definition tt_repaired :: "tool_transaction \<Rightarrow> tool_transition" where
  "tt_repaired t = TtRepaired (tx_id t) (repair_audit_of (tx_repair t))"

definition tt_previewed :: "tool_transaction_id \<Rightarrow> tool_preview \<Rightarrow> (tool_transition, tool_error) result" where
  "tt_previewed i p = and_then (preview_validate p) (\<lambda>_. Ok (TtPreviewed i p))"

fun tt_with_run_id :: "run_id \<Rightarrow> tool_transition \<Rightarrow> tool_transition" where
  "tt_with_run_id r (TtProposed i p s) = TtProposed i (p\<lparr>pp_run := r\<rparr>) s"
| "tt_with_run_id r (TtStateChanged i s detail) = TtStateChanged i s detail"
| "tt_with_run_id r (TtRepaired i audit) = TtRepaired i audit"
| "tt_with_run_id r (TtPreviewed i p) = TtPreviewed i p"

record tool_record =
  tr_id :: tool_transaction_id
  tr_proposal :: tool_proposal
  tr_state :: tool_state
  tr_detail :: "string option"
  tr_repair :: "repair_audit option"
  tr_preview :: "tool_preview option"

record tool_records =
  th_records :: "(tool_transaction_id, tool_record) bmap"

definition tool_records_new :: tool_records where
  "tool_records_new = \<lparr>th_records = bm_empty\<rparr>"

definition tool_record_of :: "tool_records \<Rightarrow> tool_transaction_id \<Rightarrow> tool_record option" where
  "tool_record_of h i = bm_get (th_records h) i"

fun change_field :: "repair_change \<Rightarrow> string option" where
  "change_field ToolNameNormalized = None"
| "change_field (InputFieldNormalized f) = Some f"
| "change_field (InputValueTrimmed f) = Some f"

definition validate_change :: "repair_change \<Rightarrow> (unit, tool_error) result" where
  "validate_change c = (case change_field c of None \<Rightarrow> Ok () | Some f \<Rightarrow> tool_validate_text ''repair field'' f)"

definition validate_repair_audit :: "repair_audit \<Rightarrow> (unit, tool_error) result" where
  "validate_repair_audit a = and_then (validate_field_count (ra_changes a))
     (\<lambda>_. try_all validate_change (ra_changes a))"

text \<open>A change of the record with identifier \<open>i\<close>, which must be known, after a check.\<close>

definition update_tool_record :: "tool_transaction_id \<Rightarrow> (unit, tool_error) result
    \<Rightarrow> (tool_record \<Rightarrow> tool_record) \<Rightarrow> tool_records \<Rightarrow> (unit, tool_error) result \<times> tool_records" where
  "update_tool_record i check f h = (case bm_get (th_records h) i of
       None \<Rightarrow> (Err (TlUnknownTransaction i), h)
     | Some r \<Rightarrow> (case check of
           Err e \<Rightarrow> (Err e, h)
         | Ok _ \<Rightarrow> (Ok (), h\<lparr>th_records := bm_insert i (f r) (th_records h)\<rparr>)))"

fun th_apply :: "tool_transition \<Rightarrow> tool_records \<Rightarrow> (unit, tool_error) result \<times> tool_records" where
  "th_apply (TtProposed i p s) h =
     (if i = 0 then (Err (TlInvalid ''tool transaction ID must be non-zero''), h)
      else if bm_contains_key (th_records h) i then (Err (TlDuplicateTransaction i), h)
      else case normalized p of
          Err e \<Rightarrow> (Err e, h)
        | Ok q \<Rightarrow> (Ok (), h\<lparr>th_records := bm_insert i \<lparr>tr_id = i, tr_proposal = q, tr_state = s,
              tr_detail = None, tr_repair = None, tr_preview = None\<rparr> (th_records h)\<rparr>))"
| "th_apply (TtStateChanged i s detail) h = update_tool_record i
     (case detail of None \<Rightarrow> Ok () | Some d \<Rightarrow> tool_validate_text ''tool transition detail'' d)
     (\<lambda>r. r\<lparr>tr_state := s, tr_detail := detail\<rparr>) h"
| "th_apply (TtRepaired i audit) h = update_tool_record i (validate_repair_audit audit)
     (\<lambda>r. r\<lparr>tr_repair := Some audit\<rparr>) h"
| "th_apply (TtPreviewed i p) h = update_tool_record i (preview_validate p)
     (\<lambda>r. r\<lparr>tr_preview := Some p\<rparr>) h"

section \<open>Writing\<close>

definition tl_write_string :: "string \<Rightarrow> tool_error writer" where
  "tl_write_string s = and_then (tool_validate_text ''tool text'' s) (\<lambda>_.
     write_seq [write_u32 (of_nat (length s)), write_bytes s])"

definition tl_write_checked :: "nat \<Rightarrow> ('a \<Rightarrow> tool_error writer) \<Rightarrow> 'a list \<Rightarrow> tool_error writer" where
  "tl_write_checked maximum w xs =
     (if maximum < length xs then Err (TlTooLarge (length xs)) else write_counted32 w xs)"

fun tool_trust_tag :: "trust_origin \<Rightarrow> u8" where
  "tool_trust_tag TrustRuntime = 0"
| "tool_trust_tag TrustedProject = 1"
| "tool_trust_tag UserProvided = 2"
| "tool_trust_tag Generated = 3"
| "tool_trust_tag RemoteAgent = 4"
| "tool_trust_tag External = 5"
| "tool_trust_tag WebUntrusted = 6"
| "tool_trust_tag McpMetadata = 7"
| "tool_trust_tag McpResult = 8"

fun tl_write_provenance :: "tool_provenance \<Rightarrow> tool_error writer" where
  "tl_write_provenance PvAgent = write_u8 0"
| "tl_write_provenance PvManager = write_u8 1"
| "tl_write_provenance PvUser = write_u8 2"
| "tl_write_provenance (PvExternal s) = write_seq [write_u8 3, tl_write_string s]"
| "tl_write_provenance (PvRemoteAgent s) = write_seq [write_u8 4, tl_write_string s]"
| "tl_write_provenance (PvWebUntrusted s) = write_seq [write_u8 5, tl_write_string s]"
| "tl_write_provenance (PvMcpMetadata s) = write_seq [write_u8 6, tl_write_string s]"
| "tl_write_provenance (PvMcpResult s) = write_seq [write_u8 7, tl_write_string s]"
| "tl_write_provenance PvTrustedProject = write_u8 8"

definition tl_write_field :: "string \<times> string \<Rightarrow> tool_error writer" where
  "tl_write_field f = write_seq [tl_write_string (fst f), tl_write_string (snd f)]"

definition tl_proposal_fields :: "tool_proposal \<Rightarrow> tool_error writer list" where
  "tl_proposal_fields p =
     [write_u64 (pp_run p), write_option write_u64 (pp_task p), write_u64 (pp_agent p),
      tl_write_string (pp_tool p), tl_write_checked TOOL_MAX_FIELDS tl_write_field (bm_entries (pp_input p)),
      tl_write_provenance (pp_provenance p),
      tl_write_checked TOOL_MAX_INPUT_ORIGINS (\<lambda>t. write_u8 (tool_trust_tag t)) (pp_origins p)]"

definition tl_write_proposal :: "tool_proposal \<Rightarrow> tool_error writer" where
  "tl_write_proposal p = and_then (normalized p) (\<lambda>q. write_seq (tl_proposal_fields q))"

fun tool_state_tag :: "tool_state \<Rightarrow> u8" where
  "tool_state_tag ToolValidated = 0"
| "tool_state_tag ToolAwaitingApproval = 1"
| "tool_state_tag ToolApproved = 2"
| "tool_state_tag ToolExecuting = 3"
| "tool_state_tag ToolExecuted = 4"
| "tool_state_tag ToolVerified = 5"
| "tool_state_tag ToolCommitted = 6"
| "tool_state_tag ToolRejected = 7"
| "tool_state_tag ToolFailed = 8"
| "tool_state_tag ToolCompensated = 9"

definition tl_write_optional_string :: "string option \<Rightarrow> tool_error writer" where
  "tl_write_optional_string v = (case v of
       None \<Rightarrow> write_u8 0
     | Some s \<Rightarrow> and_then (tool_validate_text ''tool transition detail'' s)
         (\<lambda>_. write_seq [write_u8 1, tl_write_string s]))"

fun repair_tier_tag :: "repair_tier \<Rightarrow> u8" where
  "repair_tier_tag SyntaxSafe = 0"
| "repair_tier_tag SchemaSafe = 1"
| "repair_tier_tag SemanticAmbiguous = 2"
| "repair_tier_tag IntentAmbiguous = 3"

fun tl_write_change :: "repair_change \<Rightarrow> tool_error writer" where
  "tl_write_change ToolNameNormalized = write_u8 0"
| "tl_write_change (InputFieldNormalized f) = write_seq [write_u8 1, tl_write_string f]"
| "tl_write_change (InputValueTrimmed f) = write_seq [write_u8 2, tl_write_string f]"

definition tl_write_audit :: "repair_audit \<Rightarrow> tool_error writer" where
  "tl_write_audit a = and_then (validate_repair_audit a) (\<lambda>_.
     write_seq [write_u8 (repair_tier_tag (ra_tier a)), write_counted32 tl_write_change (ra_changes a)])"

fun effect_tag :: "effect_class \<Rightarrow> u8" where
  "effect_tag EffReversible = 0"
| "effect_tag EffCompensatable = 1"
| "effect_tag EffIrreversible = 2"

definition tl_write_preview :: "tool_preview \<Rightarrow> tool_error writer" where
  "tl_write_preview p = and_then (preview_validate p) (\<lambda>_.
     write_seq [tl_write_string (pv_summary p), write_counted32 tl_write_string (pv_resources p),
       write_u32 (pv_operations p), write_u8 (effect_tag (pv_effect p))])"

definition nonzero_id :: "tool_transaction_id \<Rightarrow> tool_error writer \<Rightarrow> tool_error writer" where
  "nonzero_id i w = (if i = 0 then Err (TlInvalid ''tool transaction ID must be non-zero'') else w)"

fun tl_write_transition :: "tool_transition \<Rightarrow> tool_error writer" where
  "tl_write_transition (TtProposed i p s) = nonzero_id i
     (write_seq [write_u8 0, write_u64 i, tl_write_proposal p, write_u8 (tool_state_tag s)])"
| "tl_write_transition (TtStateChanged i s detail) = nonzero_id i
     (write_seq [write_u8 1, write_u64 i, write_u8 (tool_state_tag s), tl_write_optional_string detail])"
| "tl_write_transition (TtRepaired i audit) = nonzero_id i
     (write_seq [write_u8 2, write_u64 i, tl_write_audit audit])"
| "tl_write_transition (TtPreviewed i p) = nonzero_id i
     (and_then (preview_validate p) (\<lambda>_. write_seq [write_u8 3, write_u64 i, tl_write_preview p]))"

definition tl_encode_transition :: "tool_transition \<Rightarrow> tool_error writer" where
  "tl_encode_transition t = write_bounded TOOL_MAX_PAYLOAD_BYTES TlTooLarge (tl_write_transition t)"

section \<open>Reading\<close>

definition tl_take :: "nat \<Rightarrow> (u8 list, tool_error) reader" where
  "tl_take = cursor_take (TlInvalidEncoding ''length overflow'')
     (TlInvalidEncoding ''unexpected end of payload'')"

abbreviation "tl_u8 \<equiv> read_u8 tl_take"
abbreviation "tl_u32 \<equiv> read_u32 tl_take"
abbreviation "tl_u64 \<equiv> read_u64 tl_take"

definition tl_string :: "(string, tool_error) reader" where
  "tl_string = read_sized tl_u32 TOOL_MAX_TEXT_BYTES TlTooLarge
     (read_utf8 tl_take (TlInvalidEncoding ''tool text is not UTF-8''))"

fun tl_read_entries :: "nat \<Rightarrow> tool_input \<Rightarrow> (tool_input, tool_error) reader" where
  "tl_read_entries 0 m = rd_return m"
| "tl_read_entries (Suc n) m = rd_bind tl_string (\<lambda>k. rd_bind tl_string (\<lambda>v.
     if bm_contains_key m k then rd_fail (TlInvalidEncoding ''duplicate tool input field'')
     else tl_read_entries n (bm_insert k v m)))"

definition tl_read_fields :: "(tool_input, tool_error) reader" where
  "tl_read_fields = rd_bind tl_u32 (\<lambda>n.
     if TOOL_MAX_FIELDS < unat n then rd_fail (TlTooLarge (unat n)) else tl_read_entries (unat n) bm_empty)"

definition tl_read_provenance :: "(tool_provenance, tool_error) reader" where
  "tl_read_provenance = rd_bind tl_u8 (\<lambda>tag.
     if tag = 0 then rd_return PvAgent
     else if tag = 1 then rd_return PvManager
     else if tag = 2 then rd_return PvUser
     else if tag = 3 then rd_bind tl_string (\<lambda>s. rd_return (PvExternal s))
     else if tag = 4 then rd_bind tl_string (\<lambda>s. rd_return (PvRemoteAgent s))
     else if tag = 5 then rd_bind tl_string (\<lambda>s. rd_return (PvWebUntrusted s))
     else if tag = 6 then rd_bind tl_string (\<lambda>s. rd_return (PvMcpMetadata s))
     else if tag = 7 then rd_bind tl_string (\<lambda>s. rd_return (PvMcpResult s))
     else if tag = 8 then rd_return PvTrustedProject
     else rd_fail (TlInvalidEncoding ''unknown provenance tag''))"

definition decode_trust_origin :: "u8 \<Rightarrow> (trust_origin, tool_error) result" where
  "decode_trust_origin tag =
     (if tag = 0 then Ok TrustRuntime
      else if tag = 1 then Ok TrustedProject
      else if tag = 2 then Ok UserProvided
      else if tag = 3 then Ok Generated
      else if tag = 4 then Ok RemoteAgent
      else if tag = 5 then Ok External
      else if tag = 6 then Ok WebUntrusted
      else if tag = 7 then Ok McpMetadata
      else if tag = 8 then Ok McpResult
      else Err (TlInvalidEncoding ''unknown input trust origin tag''))"

definition tl_read_origin :: "(trust_origin, tool_error) reader" where
  "tl_read_origin = rd_bind tl_u8 (\<lambda>tag. rd_lift (decode_trust_origin tag))"

definition tl_read_origins :: "bool \<Rightarrow> (trust_origin list, tool_error) reader" where
  "tl_read_origins has_input_origins =
     (if has_input_origins then read_counted32 tl_u32 TOOL_MAX_INPUT_ORIGINS TlTooLarge tl_read_origin
      else rd_return [])"

definition tl_read_proposal :: "bool \<Rightarrow> (tool_proposal, tool_error) reader" where
  "tl_read_proposal has_input_origins =
     rd_bind tl_u64 (\<lambda>run.
     rd_bind (read_option tl_u8 (\<lambda>_. TlInvalidEncoding ''unknown optional ID tag'') tl_u64) (\<lambda>task.
     rd_bind tl_u64 (\<lambda>agent. rd_bind tl_string (\<lambda>name. rd_bind tl_read_fields (\<lambda>input.
     rd_bind tl_read_provenance (\<lambda>provenance. rd_bind (tl_read_origins has_input_origins) (\<lambda>origins.
       rd_lift (normalized \<lparr>pp_run = run, pp_task = task, pp_agent = agent, pp_tool = name,
         pp_input = input, pp_provenance = provenance, pp_origins = origins\<rparr>))))))))"

definition decode_tool_state :: "u8 \<Rightarrow> (tool_state, tool_error) result" where
  "decode_tool_state tag =
     (if tag = 0 then Ok ToolValidated
      else if tag = 1 then Ok ToolAwaitingApproval
      else if tag = 2 then Ok ToolApproved
      else if tag = 3 then Ok ToolExecuting
      else if tag = 4 then Ok ToolExecuted
      else if tag = 5 then Ok ToolVerified
      else if tag = 6 then Ok ToolCommitted
      else if tag = 7 then Ok ToolRejected
      else if tag = 8 then Ok ToolFailed
      else if tag = 9 then Ok ToolCompensated
      else Err (TlInvalidEncoding ''unknown tool state tag''))"

definition tl_read_state :: "(tool_state, tool_error) reader" where
  "tl_read_state = rd_bind tl_u8 (\<lambda>tag. rd_lift (decode_tool_state tag))"

definition tl_read_optional_string :: "(string option, tool_error) reader" where
  "tl_read_optional_string = read_option tl_u8 (\<lambda>_. TlInvalidEncoding ''unknown optional string tag'') tl_string"

definition decode_repair_tier :: "u8 \<Rightarrow> (repair_tier, tool_error) result" where
  "decode_repair_tier tag =
     (if tag = 0 then Ok SyntaxSafe
      else if tag = 1 then Ok SchemaSafe
      else if tag = 2 then Ok SemanticAmbiguous
      else if tag = 3 then Ok IntentAmbiguous
      else Err (TlInvalidEncoding ''unknown repair tier tag''))"

definition tl_read_change :: "(repair_change, tool_error) reader" where
  "tl_read_change = rd_bind tl_u8 (\<lambda>tag.
     if tag = 0 then rd_return ToolNameNormalized
     else if tag = 1 then rd_bind tl_string (\<lambda>f. rd_return (InputFieldNormalized f))
     else if tag = 2 then rd_bind tl_string (\<lambda>f. rd_return (InputValueTrimmed f))
     else rd_fail (TlInvalidEncoding ''unknown repair change tag''))"

definition tl_read_audit :: "(repair_audit, tool_error) reader" where
  "tl_read_audit =
     rd_bind tl_u8 (\<lambda>tag. rd_bind (rd_lift (decode_repair_tier tag)) (\<lambda>tier.
     rd_bind (read_counted32 tl_u32 TOOL_MAX_FIELDS TlTooLarge tl_read_change) (\<lambda>changes.
     let audit = \<lparr>ra_tier = tier, ra_changes = changes\<rparr> in
       rd_lift (and_then (validate_repair_audit audit) (\<lambda>_. Ok audit)))))"

definition decode_effect :: "u8 \<Rightarrow> (effect_class, tool_error) result" where
  "decode_effect tag =
     (if tag = 0 then Ok EffReversible
      else if tag = 1 then Ok EffCompensatable
      else if tag = 2 then Ok EffIrreversible
      else Err (TlInvalidEncoding ''unknown effect class tag''))"

definition tl_read_preview :: "(tool_preview, tool_error) reader" where
  "tl_read_preview =
     rd_bind tl_string (\<lambda>summary.
     rd_bind (read_counted32 tl_u32 TOOL_MAX_FIELDS TlTooLarge tl_string) (\<lambda>resources.
     rd_bind tl_u32 (\<lambda>operations. rd_bind tl_u8 (\<lambda>tag. rd_bind (rd_lift (decode_effect tag)) (\<lambda>effect.
     let preview = \<lparr>pv_summary = summary, pv_resources = resources, pv_operations = operations,
       pv_effect = effect\<rparr> in
       rd_lift (and_then (preview_validate preview) (\<lambda>_. Ok preview)))))))"

definition tl_read_transition :: "u16 \<Rightarrow> (tool_transition, tool_error) reader" where
  "tl_read_transition version = rd_bind tl_u8 (\<lambda>tag.
     if tag = 0 then rd_bind tl_u64 (\<lambda>i. rd_bind (tl_read_proposal (version = TOOL_SCHEMA_VERSION)) (\<lambda>p.
       rd_bind tl_read_state (\<lambda>s. rd_return (TtProposed i p s))))
     else if tag = 1 then rd_bind tl_u64 (\<lambda>i. rd_bind tl_read_state (\<lambda>s.
       rd_bind tl_read_optional_string (\<lambda>detail. rd_return (TtStateChanged i s detail))))
     else if tag = 2 then rd_bind tl_u64 (\<lambda>i. rd_bind tl_read_audit (\<lambda>audit.
       rd_return (TtRepaired i audit)))
     else if tag = 3 then rd_bind tl_u64 (\<lambda>i. rd_bind tl_read_preview (\<lambda>p.
       rd_return (TtPreviewed i p)))
     else rd_fail (TlInvalidEncoding ''unknown tool transition tag''))"

definition tl_decode_transition :: "u16 \<Rightarrow> u8 list \<Rightarrow> (tool_transition, tool_error) result" where
  "tl_decode_transition version bytes =
     (if version \<noteq> LEGACY_TOOL_SCHEMA_VERSION \<and> version \<noteq> TOOL_SCHEMA_VERSION
      then Err (TlUnsupportedVersion version)
      else if TOOL_MAX_PAYLOAD_BYTES < length bytes then Err (TlTooLarge (length bytes))
      else read_all (tl_read_transition version) (TlInvalidEncoding ''trailing payload bytes'') bytes)"

fun select_tool :: "event_kind \<Rightarrow> (u16 \<times> u8 list) option" where
  "select_tool (ToolTransition v p) = Some (v, p)"
| "select_tool _ = None"

definition tool_records_from_events :: "event list \<Rightarrow> (tool_records, tool_error) result" where
  "tool_records_from_events evs =
     replay select_tool tl_decode_transition (\<lambda>t h. commit (th_apply t h)) tool_records_new evs"

section \<open>The codec is a round trip\<close>

interpretation tl: byte_taker tl_take
  unfolding tl_take_def by (rule byte_taker_cursor_take)

lemma write_seq_nested: "write_seq (write_seq vs # ws) = write_seq (vs @ ws)"
  by (simp add: write_seq_append write_seq.simps(2))

lemma wire_lift_end: "d = Ok v \<Longrightarrow> wire (write_seq []) (rd_lift d) v"
  by (auto simp: wire_def write_seq.simps intro: reads_lift)

lemma tl_wire_string:
  assumes "is_utf8 s"
  shows "wire (tl_write_string s) tl_string s"
proof (rule wireI)
  fix bs assume w: "tl_write_string s = Ok bs"
  then have len: "length s \<le> TOOL_MAX_TEXT_BYTES"
    and bs: "write_seq [write_u32 (of_nat (length s)), write_bytes s] = (Ok bs :: tool_error writer)"
    by (auto simp: tl_write_string_def tool_validate_text_Ok)
  have "wire (write_seq [write_u32 (of_nat (length s)), write_bytes s] :: tool_error writer) tl_string s"
    unfolding tl_string_def by (rule tl.wire_str32 [OF assms len]) (simp add: TOOL_MAX_TEXT_BYTES_def)
  then show "reads tl_string bs s" using bs by (rule wireD)
qed

lemma tl_wire_checked:
  assumes "m < 2 ^ 32" and "\<And>x. x \<in> set xs \<Longrightarrow> wire (w x) r x"
  shows "wire (tl_write_checked m w xs) (read_counted32 tl_u32 m TlTooLarge r) xs"
  unfolding tl_write_checked_def
proof (cases "m < length xs")
  case False
  with assms have "wire (write_counted32 w xs) (read_counted32 tl_u32 m TlTooLarge r) xs"
    by (intro wire_counted32 tl.wire_u32) auto
  with False show "wire (if m < length xs then Err (TlTooLarge (length xs)) else write_counted32 w xs)
      (read_counted32 tl_u32 m TlTooLarge r) xs" by simp
qed (simp add: wire_def)

lemma tl_wire_entries:
  assumes "distinct (map fst es)" and "\<forall>(k, v) \<in> set es. bm_get m k = None \<and> is_utf8 k \<and> is_utf8 v"
  shows "wire (write_seq (map tl_write_field es)) (tl_read_entries (length es) m) (insert_entries m es)"
  using assms
proof (induction es arbitrary: m)
  case Nil
  then show ?case by (simp add: insert_entries_def wire_end)
next
  case (Cons e es)
  obtain k v where e: "e = (k, v)" by (cases e)
  have "wire (write_seq (map tl_write_field es)) (tl_read_entries (length es) (bm_insert k v m))
      (insert_entries (bm_insert k v m) es)"
    using Cons.prems e by (intro Cons.IH) force+
  moreover have "is_utf8 k" "is_utf8 v" "\<not> bm_contains_key m k"
    using Cons.prems e by (auto simp: bm_contains_key_def)
  ultimately have "wire (write_seq (tl_write_string k # tl_write_string v # map tl_write_field es))
      (tl_read_entries (length (e # es)) m) (insert_entries (bm_insert k v m) es)"
    by (auto intro!: wire_field tl_wire_string)
  moreover have "tl_write_field e = write_seq [tl_write_string k, tl_write_string v]"
    "insert_entries m (e # es) = insert_entries (bm_insert k v m) es"
    by (simp_all add: e tl_write_field_def insert_entries_def)
  ultimately show ?case by (simp only: list.map write_seq_nested append.simps)
qed

lemma tl_wire_fields:
  assumes "\<forall>k v. bm_get m k = Some v \<longrightarrow> is_utf8 k \<and> is_utf8 v"
  shows "wire (tl_write_checked TOOL_MAX_FIELDS tl_write_field (bm_entries m)) tl_read_fields m"
proof (cases "TOOL_MAX_FIELDS < length (bm_entries m)")
  case False
  then have count: "unat (of_nat (length (bm_entries m)) :: u32) = length (bm_entries m)"
    by (simp add: TOOL_MAX_FIELDS_def unsigned_of_nat take_bit_nat_eq_self)
  have "wire (write_seq (map tl_write_field (bm_entries m)))
      (tl_read_entries (length (bm_entries m)) bm_empty) (insert_entries bm_empty (bm_entries m))"
    using assms by (intro tl_wire_entries bm.entries_distinct) (auto simp: bm_entries_get)
  then have "wire (write_counted32 tl_write_field (bm_entries m)) tl_read_fields m"
    unfolding write_counted32_def tl_read_fields_def
    using False by (intro wire_field [OF tl.wire_u32]) (simp add: count)
  with False show ?thesis by (simp add: tl_write_checked_def)
qed (simp add: wire_def tl_write_checked_def)

lemma decode_trust_origin_tag [simp]: "decode_trust_origin (tool_trust_tag t) = Ok t"
  by (cases t) (simp_all add: decode_trust_origin_def)

lemma decode_tool_state_tag [simp]: "decode_tool_state (tool_state_tag s) = Ok s"
  by (cases s) (simp_all add: decode_tool_state_def)

lemma decode_repair_tier_tag [simp]: "decode_repair_tier (repair_tier_tag r) = Ok r"
  by (cases r) (simp_all add: decode_repair_tier_def)

lemma decode_effect_tag [simp]: "decode_effect (effect_tag e) = Ok e"
  by (cases e) (simp_all add: decode_effect_def)

lemma tl_wire_origins:
  "wire (tl_write_checked TOOL_MAX_INPUT_ORIGINS (\<lambda>t. write_u8 (tool_trust_tag t)) ts) (tl_read_origins True) ts"
  unfolding tl_read_origins_def tl_read_origin_def
  by (simp, intro tl_wire_checked wire_decoded [OF tl.wire_u8]) (simp_all add: TOOL_MAX_INPUT_ORIGINS_def)

lemma tl_wire_state: "wire (write_u8 (tool_state_tag s)) tl_read_state s"
  unfolding tl_read_state_def by (rule wire_decoded [OF tl.wire_u8]) simp

lemma tl_wire_tagged_string:
  assumes "is_utf8 s"
  shows "wire (write_seq [write_u8 n, tl_write_string s]) (rd_bind tl_u8 (\<lambda>tag.
    if tag = n then rd_bind tl_string (\<lambda>s. rd_return (f s)) else g tag)) (f s)"
  by (rule wire_field [OF tl.wire_u8])
    (simp, intro wire_single wire_last [OF tl_wire_string [OF assms]], simp)

lemma tl_wire_provenance:
  assumes "\<forall>s. tool_provenance_source v = Some s \<longrightarrow> is_utf8 s"
  shows "wire (tl_write_provenance v) tl_read_provenance v"
  using assms unfolding tl_read_provenance_def
  by (cases v) (auto intro!: wire_last [OF tl.wire_u8] wire_field [OF tl.wire_u8]
    wire_single wire_last [OF tl_wire_string])

definition proposal_utf8 :: "tool_proposal \<Rightarrow> bool" where
  "proposal_utf8 p \<longleftrightarrow> (\<forall>k v. bm_get (pp_input p) k = Some v \<longrightarrow> is_utf8 k \<and> is_utf8 v) \<and>
     (\<forall>s. tool_provenance_source (pp_provenance p) = Some s \<longrightarrow> is_utf8 s)"

lemma normalized_utf8:
  assumes "normalized p = Ok q" and "proposal_utf8 p"
  shows "proposal_utf8 q"
proof -
  from assms(1) obtain input cs changes where
    fields: "try_fold repair_field (bm_empty, cs) (bm_entries (pp_input p)) = Ok (input, changes)"
    and q: "q = p\<lparr>pp_tool := tool_key (pp_tool p), pp_input := input\<rparr>"
    by (auto simp: normalized_def repair_deterministic_def Let_def split: if_splits option.splits)
  have "normal_input bm_empty" by (simp add: normal_input_def)
  from repair_fields_normal [OF fields this]
  have "\<forall>k v. bm_get input k = Some v \<longrightarrow> (\<exists>j. bm_get (pp_input p) j = Some v \<and> k = trim j)"
    by (simp add: bm_entries_get)
  then have "is_utf8 k \<and> is_utf8 v" if "bm_get input k = Some v" for k v
    using that assms(2) is_utf8_trim unfolding proposal_utf8_def by blast
  with assms(2) q show ?thesis unfolding proposal_utf8_def by simp
qed

lemma tl_wire_proposal:
  assumes "normalized p = Ok q" and "proposal_utf8 p"
  shows "wire (tl_write_proposal p) (tl_read_proposal True) q"
proof -
  have utf8: "proposal_utf8 q" using assms by (rule normalized_utf8)
  have "is_utf8 (pp_tool q)"
    using normalized_normal [OF assms(1)] tool_name_utf8 by (simp add: normal_proposal_def validate_tool_name_Ok)
  moreover have "normalized \<lparr>pp_run = pp_run q, pp_task = pp_task q, pp_agent = pp_agent q, pp_tool = pp_tool q,
      pp_input = pp_input q, pp_provenance = pp_provenance q, pp_origins = pp_origins q\<rparr> = Ok q"
    using normalized_idem [OF assms(1)] by (cases q) simp
  ultimately have "wire (write_seq (tl_proposal_fields q)) (tl_read_proposal True) q"
    using utf8 unfolding tl_proposal_fields_def tl_read_proposal_def proposal_utf8_def
    by (intro wire_field [OF tl.wire_u64] wire_field [OF wire_option] wire_field [OF tl_wire_string]
        wire_field [OF tl_wire_fields] wire_field [OF tl_wire_provenance] wire_single
        wire_decoded [OF tl_wire_origins] tl.wire_u8 tl.wire_u64)
      simp_all
  then show ?thesis by (simp add: tl_write_proposal_def assms(1))
qed

lemma tl_wire_optional_string:
  assumes "\<forall>s. v = Some s \<longrightarrow> is_utf8 s"
  shows "wire (tl_write_optional_string v) tl_read_optional_string v"
proof -
  have "wire (write_option tl_write_string v) tl_read_optional_string v"
    unfolding tl_read_optional_string_def using assms by (intro wire_option tl.wire_u8 tl_wire_string) auto
  then show ?thesis
    by (cases v) (auto simp: wire_def tl_write_optional_string_def write_option_def)
qed

lemma tl_wire_change:
  assumes "\<forall>f. change_field c = Some f \<longrightarrow> is_utf8 f"
  shows "wire (tl_write_change c) tl_read_change c"
  using assms unfolding tl_read_change_def
  by (cases c) (auto intro!: wire_last [OF tl.wire_u8] wire_field [OF tl.wire_u8]
    wire_single wire_last [OF tl_wire_string])

lemma tl_wire_audit:
  assumes "\<forall>c \<in> set (ra_changes a). \<forall>f. change_field c = Some f \<longrightarrow> is_utf8 f"
  shows "wire (tl_write_audit a) tl_read_audit a"
proof (rule wireI)
  fix bs assume "tl_write_audit a = Ok bs"
  then have ok: "validate_repair_audit a = Ok ()" and len: "length (ra_changes a) \<le> TOOL_MAX_FIELDS"
    and bs: "write_seq [write_u8 (repair_tier_tag (ra_tier a)), write_counted32 tl_write_change (ra_changes a)] = Ok bs"
    by (auto simp: tl_write_audit_def validate_repair_audit_def validate_field_count_Ok)
  have "validate_repair_audit \<lparr>ra_tier = ra_tier a, ra_changes = ra_changes a\<rparr> = Ok ()"
    using ok by (cases a) simp
  then have "wire (write_seq [write_u8 (repair_tier_tag (ra_tier a)), write_counted32 tl_write_change (ra_changes a)])
      tl_read_audit a"
    unfolding tl_read_audit_def Let_def
    using assms len ok
    by (intro wire_field [OF tl.wire_u8] wire_decode [OF decode_repair_tier_tag] wire_single
        wire_decoded [OF wire_counted32] tl.wire_u32 tl_wire_change)
      (auto simp: TOOL_MAX_FIELDS_def)
  then show "reads tl_read_audit bs a" using bs by (rule wireD)
qed

lemma tl_wire_preview:
  assumes "is_utf8 (pv_summary p)" and "list_all is_utf8 (pv_resources p)"
  shows "wire (tl_write_preview p) tl_read_preview p"
proof (rule wireI)
  fix bs assume "tl_write_preview p = Ok bs"
  then have ok: "preview_validate p = Ok ()" and len: "length (pv_resources p) \<le> TOOL_MAX_FIELDS"
    and bs: "write_seq [tl_write_string (pv_summary p), write_counted32 tl_write_string (pv_resources p),
       write_u32 (pv_operations p), write_u8 (effect_tag (pv_effect p))] = Ok bs"
    by (auto simp: tl_write_preview_def preview_validate_def validate_field_count_Ok)
  have "preview_validate \<lparr>pv_summary = pv_summary p, pv_resources = pv_resources p,
      pv_operations = pv_operations p, pv_effect = pv_effect p\<rparr> = Ok ()"
    using ok by (cases p) simp
  then have "wire (write_seq [tl_write_string (pv_summary p), write_counted32 tl_write_string (pv_resources p),
       write_u32 (pv_operations p), write_u8 (effect_tag (pv_effect p))]) tl_read_preview p"
    unfolding tl_read_preview_def Let_def
    using assms len ok
    by (intro wire_field [OF tl_wire_string] wire_field [OF wire_counted32] wire_field [OF tl.wire_u32]
        wire_field [OF tl.wire_u8] wire_single wire_decode [OF decode_effect_tag] tl.wire_u32 tl_wire_string)
      (auto simp: TOOL_MAX_FIELDS_def list_all_iff wire_lift_end)
  then show "reads tl_read_preview bs p" using bs by (rule wireD)
qed

fun tool_transition_utf8 :: "tool_transition \<Rightarrow> bool" where
  "tool_transition_utf8 (TtProposed i p s) = proposal_utf8 p"
| "tool_transition_utf8 (TtStateChanged i s detail) = (\<forall>d. detail = Some d \<longrightarrow> is_utf8 d)"
| "tool_transition_utf8 (TtRepaired i a) = (\<forall>c \<in> set (ra_changes a). \<forall>f. change_field c = Some f \<longrightarrow> is_utf8 f)"
| "tool_transition_utf8 (TtPreviewed i p) = (is_utf8 (pv_summary p) \<and> list_all is_utf8 (pv_resources p))"

text \<open>What is written is the normal form of a proposal.\<close>

fun tool_norm :: "tool_transition \<Rightarrow> tool_transition" where
  "tool_norm (TtProposed i p s) = TtProposed i (case normalized p of Ok q \<Rightarrow> q | Err _ \<Rightarrow> p) s"
| "tool_norm t = t"

lemma tl_wire_transition:
  assumes "tool_transition_utf8 t"
  shows "wire (tl_write_transition t) (tl_read_transition TOOL_SCHEMA_VERSION) (tool_norm t)"
proof (rule wireI)
  fix bs assume w: "tl_write_transition t = Ok bs"
  show "reads (tl_read_transition TOOL_SCHEMA_VERSION) bs (tool_norm t)"
  proof (cases t)
    case (TtProposed i p s)
    from w obtain q where q: "normalized p = Ok q"
      by (cases "normalized p")
        (auto simp: TtProposed nonzero_id_def tl_write_proposal_def write_seq.simps split: if_splits)
    have bs: "write_seq [write_u8 0, write_u64 i, tl_write_proposal p, write_u8 (tool_state_tag s)] = Ok bs"
      using w by (simp add: TtProposed nonzero_id_def split: if_splits)
    have "wire (write_seq [write_u8 0, write_u64 i, tl_write_proposal p, write_u8 (tool_state_tag s)])
        (tl_read_transition TOOL_SCHEMA_VERSION) (TtProposed i q s)"
      unfolding tl_read_transition_def
      using assms TtProposed
      by (intro wire_field [OF tl.wire_u8])
        (simp, intro wire_field [OF tl.wire_u64] wire_field [OF tl_wire_proposal [OF q]] wire_single
          wire_last [OF tl_wire_state], simp_all)
    with bs q show ?thesis by (simp add: TtProposed wireD)
  next
    case (TtStateChanged i s detail)
    have bs: "write_seq [write_u8 1, write_u64 i, write_u8 (tool_state_tag s), tl_write_optional_string detail] = Ok bs"
      using w by (simp add: TtStateChanged nonzero_id_def split: if_splits)
    have "wire (write_seq [write_u8 1, write_u64 i, write_u8 (tool_state_tag s), tl_write_optional_string detail])
        (tl_read_transition TOOL_SCHEMA_VERSION) (TtStateChanged i s detail)"
      unfolding tl_read_transition_def
      using assms TtStateChanged
      by (intro wire_field [OF tl.wire_u8])
        (simp, intro wire_field [OF tl.wire_u64] wire_field [OF tl_wire_state] wire_single
          wire_last [OF tl_wire_optional_string], simp_all)
    with bs show ?thesis by (simp add: TtStateChanged wireD)
  next
    case (TtRepaired i a)
    have bs: "write_seq [write_u8 2, write_u64 i, tl_write_audit a] = Ok bs"
      using w by (simp add: TtRepaired nonzero_id_def split: if_splits)
    have "wire (write_seq [write_u8 2, write_u64 i, tl_write_audit a])
        (tl_read_transition TOOL_SCHEMA_VERSION) (TtRepaired i a)"
      unfolding tl_read_transition_def
      using assms TtRepaired
      by (intro wire_field [OF tl.wire_u8])
        (simp, intro wire_field [OF tl.wire_u64] wire_single wire_last [OF tl_wire_audit], simp_all)
    with bs show ?thesis by (simp add: TtRepaired wireD)
  next
    case (TtPreviewed i p)
    have bs: "write_seq [write_u8 3, write_u64 i, tl_write_preview p] = Ok bs"
      using w by (auto simp: TtPreviewed nonzero_id_def split: if_splits)
    have "wire (write_seq [write_u8 3, write_u64 i, tl_write_preview p])
        (tl_read_transition TOOL_SCHEMA_VERSION) (TtPreviewed i p)"
      unfolding tl_read_transition_def
      using assms TtPreviewed
      by (intro wire_field [OF tl.wire_u8])
        (simp, intro wire_field [OF tl.wire_u64] wire_single wire_last [OF tl_wire_preview], simp_all)
    with bs show ?thesis by (simp add: TtPreviewed wireD)
  qed
qed

lemma tl_decode_encode:
  assumes "tool_transition_utf8 t" and "tl_encode_transition t = Ok bs"
  shows "tl_decode_transition TOOL_SCHEMA_VERSION bs = Ok (tool_norm t)"
proof -
  note w = assms(2) [unfolded tl_encode_transition_def]
  then have "length bs \<le> TOOL_MAX_PAYLOAD_BYTES" by (simp add: write_bounded_Ok)
  then show ?thesis
    using wire_read_all [OF tl_wire_transition [OF assms(1)] w, of "TlInvalidEncoding ''trailing payload bytes''"]
    by (simp add: tl_decode_transition_def TOOL_MAX_PAYLOAD_BYTES_def TOOL_SCHEMA_VERSION_def
      LEGACY_TOOL_SCHEMA_VERSION_def)
qed

section \<open>The invariant of the history\<close>

definition tool_record_ok :: "tool_transaction_id \<Rightarrow> tool_record \<Rightarrow> bool" where
  "tool_record_ok i r \<longleftrightarrow> i \<noteq> 0 \<and> tr_id r = i \<and> normal_proposal (tr_proposal r) \<and>
     (\<forall>d. tr_detail r = Some d \<longrightarrow> tool_validate_text ''tool transition detail'' d = Ok ()) \<and>
     (\<forall>a. tr_repair r = Some a \<longrightarrow> validate_repair_audit a = Ok ()) \<and>
     (\<forall>p. tr_preview r = Some p \<longrightarrow> preview_validate p = Ok ())"

definition th_wf :: "tool_records \<Rightarrow> bool" where
  "th_wf h \<longleftrightarrow> (\<forall>i r. bm_get (th_records h) i = Some r \<longrightarrow> tool_record_ok i r)"

lemma th_wf_insert:
  "th_wf h \<Longrightarrow> tool_record_ok i r \<Longrightarrow> th_wf (h\<lparr>th_records := bm_insert i r (th_records h)\<rparr>)"
  by (simp add: th_wf_def)

lemma update_tool_record_Ok:
  "update_tool_record i check f h = (Ok (), h') \<longleftrightarrow> (\<exists>r. bm_get (th_records h) i = Some r \<and>
     check = Ok () \<and> h' = h\<lparr>th_records := bm_insert i (f r) (th_records h)\<rparr>)"
  by (cases check) (auto simp: update_tool_record_def split: option.splits)

lemma update_tool_record_wf:
  assumes "th_wf h" and "update_tool_record i check f h = (Ok (), h')"
    and "\<And>r. tool_record_ok i r \<Longrightarrow> check = Ok () \<Longrightarrow> tool_record_ok i (f r)"
  shows "th_wf h'"
proof -
  from assms(2) obtain r where r: "bm_get (th_records h) i = Some r" "check = Ok ()"
    "h' = h\<lparr>th_records := bm_insert i (f r) (th_records h)\<rparr>"
    unfolding update_tool_record_Ok by blast
  moreover have "tool_record_ok i r" using assms(1) r(1) by (simp add: th_wf_def)
  ultimately show ?thesis using th_wf_insert [OF assms(1)] assms(3) by simp
qed

lemma th_apply_wf:
  assumes "th_wf h" and "th_apply t h = (Ok (), h')"
  shows "th_wf h'"
proof (cases t)
  case (TtProposed i p s)
  with assms(2) obtain q where "normalized p = Ok q" "i \<noteq> 0"
    "h' = h\<lparr>th_records := bm_insert i \<lparr>tr_id = i, tr_proposal = q, tr_state = s,
              tr_detail = None, tr_repair = None, tr_preview = None\<rparr> (th_records h)\<rparr>"
    by (auto split: if_splits result.splits)
  then show ?thesis
    by (auto simp: tool_record_ok_def normalized_normal intro!: th_wf_insert [OF assms(1)])
next
  case (TtStateChanged i s detail)
  then show ?thesis
    using update_tool_record_wf [OF assms(1) assms(2) [unfolded TtStateChanged th_apply.simps]]
    by (cases detail) (auto simp: tool_record_ok_def)
next
  case (TtRepaired i a)
  then show ?thesis
    using update_tool_record_wf [OF assms(1) assms(2) [unfolded TtRepaired th_apply.simps]]
    by (auto simp: tool_record_ok_def)
next
  case (TtPreviewed i p)
  then show ?thesis
    using update_tool_record_wf [OF assms(1) assms(2) [unfolded TtPreviewed th_apply.simps]]
    by (auto simp: tool_record_ok_def)
qed

lemma th_apply_norm:
  "th_apply (tool_norm t) h = th_apply t h"
  by (cases t) (auto split: result.splits dest: normalized_idem)

interpretation tools: event_sourced_codec select_tool tl_decode_transition "\<lambda>t h. commit (th_apply t h)" th_wf
    tl_encode_transition TOOL_SCHEMA_VERSION tool_transition_utf8 tool_norm ToolTransition
proof
  show "th_wf h \<Longrightarrow> commit (th_apply t h) = Ok h' \<Longrightarrow> th_wf h'" for h t h'
    by (auto simp: commit_Ok_iff intro: th_apply_wf)
  show "tool_transition_utf8 t \<Longrightarrow> tl_encode_transition t = Ok bs \<Longrightarrow>
      tl_decode_transition TOOL_SCHEMA_VERSION bs = Ok (tool_norm t)" for t bs
    by (rule tl_decode_encode)
qed (simp_all add: th_apply_norm)

section \<open>Values the log cannot hold\<close>

lemma is_ok_writes [simp]:
  "is_ok (write_u8 b)" "is_ok (write_u32 n)" "is_ok (write_u64 m)" "is_ok (write_bytes s)"
  by (simp_all add: write_u8_def write_u32_def write_u64_def write_bytes_def)

lemma is_ok_write_option: "is_ok (write_option write_u64 v)"
  by (cases v) (simp_all add: write_option_def write_seq_is_ok)

lemma is_ok_write_string: "is_ok (tl_write_string s) \<longleftrightarrow> tool_validate_text ''tool text'' s = Ok ()"
proof (cases "tool_validate_text ''tool text'' s")
  case (Ok u)
  then show ?thesis by (simp add: tl_write_string_def write_seq_is_ok)
next
  case (Err e)
  then show ?thesis by (simp add: tl_write_string_def)
qed

lemma write_string_cases:
  assumes "length s \<le> TOOL_MAX_TEXT_BYTES"
  shows "if trim_is_empty s then tl_write_string s = Err (TlInvalid ''tool text'') else is_ok (tl_write_string s)"
  using assms by (auto simp: is_ok_write_string tool_validate_text_Ok)
    (simp add: tl_write_string_def tool_validate_text_def)

lemma is_ok_write_provenance:
  assumes "\<forall>s. tool_provenance_source v = Some s \<longrightarrow> tool_validate_text ''provenance source'' s = Ok ()"
  shows "is_ok (tl_write_provenance v)"
  using assms by (cases v) (auto simp: write_seq_is_ok is_ok_write_string tool_validate_text_Ok)

lemma write_field_cases:
  assumes "normal_input m" and "bm_get m k = Some v"
  shows "if trim_is_empty v then tl_write_field (k, v) = Err (TlInvalid ''tool text'')
    else is_ok (tl_write_field (k, v))"
proof -
  have "is_ok (tl_write_string k)" "length v \<le> TOOL_MAX_TEXT_BYTES"
    using assms by (simp_all add: normal_input_def is_ok_write_string tool_validate_text_Ok validate_opaque_text_Ok)
  with write_string_cases [of v] show ?thesis
    by (auto simp: tl_write_field_def write_seq_is_ok intro!: write_seq_Err split: if_splits)
qed

lemma write_normal_proposal:
  assumes "normal_proposal p" and "bm_get (pp_input p) k = Some v" and "trim_is_empty v"
  shows "tl_write_proposal p = Err (TlInvalid ''tool text'')"
proof -
  let ?e = "TlInvalid ''tool text''"
  let ?fields = "write_u32 (of_nat (length (bm_entries (pp_input p)))) # map tl_write_field (bm_entries (pp_input p))"
  have input: "normal_input (pp_input p)" using assms(1) by (simp add: normal_proposal_def)
  have "\<forall>w \<in> set ?fields. is_ok w \<or> w = Err ?e"
    using write_field_cases [OF input] by (fastforce simp: bm_entries_get split: if_splits)
  moreover have "Err ?e \<in> set ?fields"
    using write_field_cases [OF input assms(2)] assms(2,3) by (force simp: bm_entries_get [symmetric] image_iff)
  ultimately have "write_seq ?fields = Err ?e" by (rule write_seq_Err)
  then have fields: "tl_write_checked TOOL_MAX_FIELDS tl_write_field (bm_entries (pp_input p)) = Err ?e"
    using assms(1) by (simp add: tl_write_checked_def write_counted32_def normal_proposal_def)
  have name: "is_ok (tl_write_string (pp_tool p))"
    using assms(1) by (simp add: is_ok_write_string normal_proposal_def validate_tool_name_Ok tool_validate_text_Ok)
  have origins: "is_ok (tl_write_checked TOOL_MAX_INPUT_ORIGINS (\<lambda>t. write_u8 (tool_trust_tag t)) (pp_origins p))"
    using assms(1) by (simp add: tl_write_checked_def write_counted32_def write_seq_is_ok normal_proposal_def)
  have provenance: "is_ok (tl_write_provenance (pp_provenance p))"
    using assms(1) by (simp add: normal_proposal_def is_ok_write_provenance)
  have "write_seq (tl_proposal_fields p) = Err ?e"
    unfolding tl_proposal_fields_def
    by (rule write_seq_Err) (simp_all add: fields name origins provenance is_ok_write_option)
  then show ?thesis using assms(1) by (simp add: tl_write_proposal_def normal_normalized)
qed

section \<open>Properties\<close>

text \<open>
  recovery of the tool history. A log that records tool transitions, among events of all other
  kinds, is replayed to the history the live transitions produced, or to the same error; and whatever
  log is accepted, the history is consistent: records are under their own non-zero identifier, their
  proposals in normal form, their details, audits and previews valid.
\<close>

theorem tool_log_recovery:
  assumes "list_all2 (\<lambda>t ev. \<exists>bs. tl_encode_transition t = Ok bs \<and>
        event_knd ev = ToolTransition TOOL_SCHEMA_VERSION bs) ts
      (filter (\<lambda>ev. select_tool (event_knd ev) \<noteq> None) evs)"
    and "\<forall>t \<in> set ts. tool_transition_utf8 t"
  shows "tool_records_from_events evs = try_fold (\<lambda>h t. commit (th_apply t h)) tool_records_new ts \<and>
    (\<forall>h i r. tool_records_from_events evs = Ok h \<and> tool_record_of h i = Some r \<longrightarrow> tool_record_ok i r)"
proof -
  have "th_wf tool_records_new" by (simp add: th_wf_def tool_records_new_def)
  then show ?thesis
    unfolding tool_records_from_events_def tool_record_of_def
    using tools.replay_recorded [OF assms] tools.replay_inv th_wf_def by metis
qed

text \<open>
  A blank input cannot be recorded. Validation lets an input value be empty or white space
  (\<open>validate_opaque_text\<close>), but the encoder refuses it (\<open>Writer::string\<close> wants visible text), so the
  transaction of such a call has no event.
\<close>

theorem blank_input_not_recordable:
  assumes "validate_with_ownership win rt own now fresh p = Ok t" and "fresh \<noteq> 0"
    and "bm_get (pp_input (tx_proposal t)) field = Some v" and "trim_is_empty v"
  shows "tl_encode_transition (tt_proposed t) = Err (TlInvalid ''tool text'')"
proof -
  have "tl_write_proposal (tx_proposal t) = Err (TlInvalid ''tool text'')"
    using validated_normal [OF assms(1)] assms(3,4) by (blast intro: write_normal_proposal)
  then have "write_seq [write_u8 0, write_u64 (tx_id t), tl_write_proposal (tx_proposal t),
      write_u8 (tool_state_tag (tx_state t))] = Err (TlInvalid ''tool text'')"
    by (intro write_seq_Err) simp_all
  then show ?thesis
    using validated_normal [OF assms(1)] assms(2)
    by (simp add: tl_encode_transition_def tt_proposed_def nonzero_id_def write_bounded_def)
qed

section \<open>Witnesses\<close>

definition write_proposal :: tool_proposal where
  "write_proposal = \<lparr>pp_run = 1, pp_task = None, pp_agent = 2, pp_tool = ''rm'',
     pp_input = bm_insert ''content'' [] bm_empty, pp_provenance = PvAgent, pp_origins = []\<rparr>"

definition plain_proposal :: tool_proposal where
  "plain_proposal = write_proposal\<lparr>pp_input := bm_empty\<rparr>"

lemmas proposal_eval = write_proposal_def plain_proposal_def normal_proposal_def validate_tool_name_def
  tool_validate_text_def trim_is_empty_def TOOL_MAX_TEXT_BYTES_def TOOL_MAX_FIELDS_def
  TOOL_MAX_INPUT_ORIGINS_def tool_name_char_def normal_input_def

lemma write_proposal_normal: "normal_proposal write_proposal"
  by (auto simp: proposal_eval validate_opaque_text_def Let_def trim_visible)

lemma plain_proposal_normal: "normal_proposal plain_proposal"
  by (auto simp: proposal_eval Let_def)

lemma plain_proposal_encodes: "\<exists>bs. tl_encode_transition (TtProposed 9 plain_proposal ToolValidated) = Ok bs"
proof -
  have "tl_write_proposal plain_proposal = write_seq (tl_proposal_fields plain_proposal)"
    by (simp add: tl_write_proposal_def normal_normalized [OF plain_proposal_normal])
  also have "\<exists>bs. \<dots> = Ok bs \<and> length bs \<le> 100"
    by (simp add: tl_proposal_fields_def proposal_eval write_option_def tl_write_string_def
      tl_write_checked_def write_counted32_def write_seq.simps write_u8_def write_u32_def
      write_u64_def write_bytes_def)
  finally obtain bs where "tl_write_proposal plain_proposal = Ok bs" "length bs \<le> 100" by blast
  then show ?thesis
    by (simp add: tl_encode_transition_def nonzero_id_def write_bounded_def write_seq.simps write_u8_def
      write_u64_def TOOL_MAX_PAYLOAD_BYTES_def)
qed

theorem tool_log_recovery_witness:
  "\<exists>bs. tl_encode_transition (TtProposed 9 plain_proposal ToolValidated) = Ok bs \<and>
     (\<exists>h r. tool_records_from_events [\<lparr>event_ident = 1, event_run = 1, occurred_at_ms = 0,
         event_knd = ToolTransition TOOL_SCHEMA_VERSION bs\<rparr>] = Ok h \<and>
       tool_record_of h 9 = Some r \<and> tr_proposal r = plain_proposal)"
proof -
  obtain bs where bs: "tl_encode_transition (TtProposed 9 plain_proposal ToolValidated) = Ok bs"
    using plain_proposal_encodes by blast
  have "tool_records_from_events [\<lparr>event_ident = 1, event_run = 1, occurred_at_ms = 0,
         event_knd = ToolTransition TOOL_SCHEMA_VERSION bs\<rparr>]
     = try_fold (\<lambda>h t. commit (th_apply t h)) tool_records_new [TtProposed 9 plain_proposal ToolValidated]"
    by (rule tool_log_recovery [THEN conjunct1])
      (simp_all add: bs, simp add: proposal_utf8_def plain_proposal_def write_proposal_def)
  also have "\<dots> = Ok \<lparr>th_records = bm_insert 9 \<lparr>tr_id = 9, tr_proposal = plain_proposal,
      tr_state = ToolValidated, tr_detail = None, tr_repair = None, tr_preview = None\<rparr> bm_empty\<rparr>"
    by (simp add: tool_records_new_def normal_normalized [OF plain_proposal_normal])
  finally show ?thesis using bs by (simp add: tool_record_of_def)
qed

definition write_transaction :: tool_transaction where
  "write_transaction = \<lparr>tx_id = 9, tx_proposal = write_proposal,
     tx_repair = \<lparr>rr_proposal = write_proposal, rr_tier = SyntaxSafe, rr_changes = []\<rparr>,
     tx_definition = example_tool, tx_state = ToolAwaitingApproval, tx_output = None, tx_failure = None,
     tx_compensable = False, tx_effect = NotAttempted\<rparr>"

lemma write_validated:
  "validate_with_ownership False example_tools implicit_ownership_denied 7 9 write_proposal
     = Ok write_transaction"
proof -
  have "pp_tool write_proposal = ''rm''" by (simp add: write_proposal_def)
  then show ?thesis
    by (simp add: validate_with_ownership_def normal_repair [OF write_proposal_normal] example_tool_key
      tool_definition_of_def example_tools_eq example_tool_def authorize_requirements_def
      tool_requirements_def risk_state_def trust_policy_def tool_runtime_new_def policy_state_def
      write_transaction_def Let_def)
qed

theorem blank_input_not_recordable_witness:
  "validate_with_ownership False example_tools implicit_ownership_denied 7 9 write_proposal = Ok write_transaction \<and>
   tl_encode_transition (tt_proposed write_transaction) = Err (TlInvalid ''tool text'')"
proof (intro conjI write_validated)
  show "tl_encode_transition (tt_proposed write_transaction) = Err (TlInvalid ''tool text'')"
    by (rule blank_input_not_recordable [OF write_validated, of "''content''" "[]"])
      (simp_all add: write_transaction_def write_proposal_def)
qed

end
