(* ===== verification/Run_State.thy ===== *)
theory Run_State
  imports Kernel
begin

text \<open>
  The projection of one run (\<open>RuntimeState\<close> of \<^verbatim>\<open>crates/event-store/src/lib.rs\<close>): which tasks, agents
  and artifacts the events of a run have made, and in which state the agents are. \<open>apply_event\<close>
  accepts or refuses the next event. Then, the facts about every sequence of events it accepts.
\<close>

section \<open>Errors\<close>

datatype store_error =
    EsDuplicateEvent event_id
  | EsUnknownBranch branch_id
  | EsUnknownRun run_id
  | EsUnknownAgent agent_id
  | EsInvalidTransition string
  | EsStorage string
  | EsCorrupt string

text \<open>\<open>Display\<close> of the identifiers in the messages.\<close>

definition show_id :: "string \<Rightarrow> u64 \<Rightarrow> string" where
  "show_id prefix i = prefix @ ''-'' @ hex_digits 16 (unat i)"

abbreviation "show_run \<equiv> show_id ''run''"
abbreviation "show_task \<equiv> show_id ''task''"
abbreviation "show_agent \<equiv> show_id ''agent''"
abbreviation "show_event \<equiv> show_id ''event''"

type_synonym artifact_hash = "u8 list"

definition show_hash :: "artifact_hash \<Rightarrow> string" where
  "show_hash h = concat (map (\<lambda>b. hex_digits 2 (unat b)) h)"

section \<open>The state of a run\<close>

datatype run_status = RsActive | RsCompleted | RsCancelled | RsFailed

datatype task_status = TsCreated

datatype agent_status = AgCreated | AgRunning | AgPaused | AgCompleted | AgCancelled | AgFailed

record task_state =
  ts_id :: task_id
  ts_run :: run_id
  ts_title :: string
  ts_status :: task_status

record agent_state =
  ag_identity :: agent_identity
  ag_status :: agent_status
  ag_model :: model_ref
  ag_chunks :: u32
  ag_usage :: usage

record artifact_ref =
  ar_hash :: artifact_hash
  ar_size :: u64
  ar_media :: string
  ar_trust :: trust_origin

record runtime_state =
  rs_run :: run_id
  rs_status :: run_status
  rs_tasks :: "(task_id, task_state) bmap"
  rs_agents :: "(agent_id, agent_state) bmap"
  rs_artifacts :: "(artifact_hash, artifact_ref) bmap"
  rs_applied :: u64

definition runtime_state_new :: "run_id \<Rightarrow> runtime_state" where
  "runtime_state_new r = \<lparr>rs_run = r, rs_status = RsActive, rs_tasks = bm_empty,
     rs_agents = bm_empty, rs_artifacts = bm_empty, rs_applied = 0\<rparr>"

section \<open>One event\<close>

text \<open>\<open>{:?}\<close> of a status, in two of the messages.\<close>

fun debug_agent_status :: "agent_status \<Rightarrow> string" where
  "debug_agent_status AgCreated = ''Created''"
| "debug_agent_status AgRunning = ''Running''"
| "debug_agent_status AgPaused = ''Paused''"
| "debug_agent_status AgCompleted = ''Completed''"
| "debug_agent_status AgCancelled = ''Cancelled''"
| "debug_agent_status AgFailed = ''Failed''"

definition refuse_event :: "string \<Rightarrow> ('a, store_error) result" where
  "refuse_event message = Err (EsInvalidTransition message)"

definition agent_ended :: "agent_status \<Rightarrow> bool" where
  "agent_ended st \<longleftrightarrow> st \<in> {AgCompleted, AgCancelled, AgFailed}"

definition run_ended :: "run_status \<Rightarrow> bool" where
  "run_ended st \<longleftrightarrow> st \<in> {RsCompleted, RsCancelled, RsFailed}"

text \<open>
  \<open>self.agents.get_mut(id).ok_or(UnknownAgent)?\<close>, and what is done with the agent. No error comes
  after a write, so the result holds the new state and an error means the old one.
\<close>

definition with_agent :: "agent_id \<Rightarrow> (agent_state \<Rightarrow> (agent_state, store_error) result)
    \<Rightarrow> runtime_state \<Rightarrow> (runtime_state, store_error) result" where
  "with_agent a f s = and_then (ok_or (bm_get (rs_agents s) a) (EsUnknownAgent a)) (\<lambda>g.
     and_then (f g) (\<lambda>g'. Ok (s\<lparr>rs_agents := bm_insert a g' (rs_agents s)\<rparr>)))"

definition known_agent :: "agent_id \<Rightarrow> runtime_state \<Rightarrow> (runtime_state, store_error) result" where
  "known_agent a s = (if bm_contains_key (rs_agents s) a then Ok s else Err (EsUnknownAgent a))"

definition running_agent :: "agent_id \<Rightarrow> string \<Rightarrow> runtime_state \<Rightarrow> (runtime_state, store_error) result"
  where
  "running_agent a message s = and_then (ok_or (bm_get (rs_agents s) a) (EsUnknownAgent a)) (\<lambda>g.
     if ag_status g \<noteq> AgRunning then refuse_event message else Ok s)"

text \<open>The end of a run ends the agents that are still at work.\<close>

definition settle_agent :: "agent_status \<Rightarrow> agent_state \<Rightarrow> agent_state" where
  "settle_agent st g = (if ag_status g \<in> {AgCreated, AgRunning, AgPaused} then g\<lparr>ag_status := st\<rparr> else g)"

definition end_run :: "run_id \<Rightarrow> run_status \<Rightarrow> agent_status \<Rightarrow> runtime_state
    \<Rightarrow> (runtime_state, store_error) result" where
  "end_run r st agent_st s =
     (if r = rs_run s
      then Ok (s\<lparr>rs_status := st, rs_agents := bm_map_values (settle_agent agent_st) (rs_agents s)\<rparr>)
      else refuse_event ''terminal event belongs to another run'')"

definition set_status :: "agent_status \<Rightarrow> agent_state \<Rightarrow> (agent_state, store_error) result" where
  "set_status st g = Ok (g\<lparr>ag_status := st\<rparr>)"

definition request_model :: "agent_id \<Rightarrow> model_ref \<Rightarrow> agent_state \<Rightarrow> (agent_state, store_error) result"
  where
  "request_model a m g =
     (if agent_ended (ag_status g)
      then refuse_event (''agent '' @ show_agent a @ '' cannot receive a model request from '' @
             debug_agent_status (ag_status g))
      else Ok (g\<lparr>ag_model := m, ag_status := AgRunning\<rparr>))"

definition complete_turn :: "usage option \<Rightarrow> agent_state \<Rightarrow> (agent_state, store_error) result" where
  "complete_turn u g =
     (if ag_status g \<noteq> AgRunning then refuse_event ''model turn completed outside a running agent''
      else Ok (case u of None \<Rightarrow> g | Some v \<Rightarrow> g\<lparr>ag_usage := usage_saturating_add (ag_usage g) v\<rparr>))"

definition pause_agent :: "agent_id \<Rightarrow> agent_state \<Rightarrow> (agent_state, store_error) result" where
  "pause_agent a g =
     (if agent_ended (ag_status g) \<or> ag_status g = AgPaused
      then refuse_event (''agent '' @ show_agent a @ '' cannot be paused from '' @
             debug_agent_status (ag_status g))
      else Ok (g\<lparr>ag_status := AgPaused\<rparr>))"

definition resume_agent :: "agent_id \<Rightarrow> agent_state \<Rightarrow> (agent_state, store_error) result" where
  "resume_agent a g =
     (if ag_status g \<noteq> AgPaused then refuse_event (''agent '' @ show_agent a @ '' is not paused'')
      else Ok (g\<lparr>ag_status := AgRunning\<rparr>))"

definition create_task :: "task_id \<Rightarrow> run_id \<Rightarrow> string \<Rightarrow> runtime_state
    \<Rightarrow> (runtime_state, store_error) result" where
  "create_task t r title s =
     (if r \<noteq> rs_run s then refuse_event ''task belongs to another run''
      else if bm_contains_key (rs_tasks s) t
      then refuse_event (''task '' @ show_task t @ '' was created twice'')
      else Ok (s\<lparr>rs_tasks := bm_insert t \<lparr>ts_id = t, ts_run = r, ts_title = title, ts_status = TsCreated\<rparr>
             (rs_tasks s)\<rparr>))"

definition create_agent :: "agent_identity \<Rightarrow> runtime_state \<Rightarrow> (runtime_state, store_error) result" where
  "create_agent i s =
     (if bm_contains_key (rs_agents s) (agent_ident i)
      then refuse_event (''agent '' @ show_agent (agent_ident i) @ '' was created twice'')
      else Ok (s\<lparr>rs_agents := bm_insert (agent_ident i) \<lparr>ag_identity = i, ag_status = AgCreated,
             ag_model = agent_model i, ag_chunks = 0, ag_usage = usage_new 0 0\<rparr> (rs_agents s)\<rparr>))"

definition create_artifact :: "artifact_hash \<Rightarrow> u64 \<Rightarrow> string \<Rightarrow> trust_origin \<Rightarrow> runtime_state
    \<Rightarrow> (runtime_state, store_error) result" where
  "create_artifact h n media t s =
     (if bm_contains_key (rs_artifacts s) h
      then refuse_event (''artifact '' @ show_hash h @ '' was created twice'')
      else Ok (s\<lparr>rs_artifacts := bm_insert h \<lparr>ar_hash = h, ar_size = n, ar_media = media, ar_trust = t\<rparr>
             (rs_artifacts s)\<rparr>))"

definition create_run :: "run_id \<Rightarrow> runtime_state \<Rightarrow> (runtime_state, store_error) result" where
  "create_run r s =
     (if r = rs_run s
      then if rs_applied s \<noteq> 0 then refuse_event ''run.created must be the first event'' else Ok s
      else refuse_event (''run.created names '' @ show_run r @ '', expected '' @ show_run (rs_run s)))"

text \<open>
  The match of \<open>apply_event\<close>. The payloads of the other crates are not looked at: each crate replays
  its own.
\<close>

fun apply_kind :: "event_kind \<Rightarrow> runtime_state \<Rightarrow> (runtime_state, store_error) result" where
  "apply_kind (RunCreated r) s = create_run r s"
| "apply_kind (TaskCreated t r title) s = create_task t r title s"
| "apply_kind (AgentCreated i) s = create_agent i s"
| "apply_kind (ModelRequested a m) s = with_agent a (request_model a m) s"
| "apply_kind (ModelResponseMetadata a _ _ _) s = known_agent a s"
| "apply_kind (ModelChunkReceived a _) s =
     with_agent a (\<lambda>g. Ok (g\<lparr>ag_chunks := saturating_add (ag_chunks g) 1\<rparr>)) s"
| "apply_kind (ModelCompleted a u) s = with_agent a (\<lambda>g. Ok (g\<lparr>ag_status := AgCompleted, ag_usage := u\<rparr>)) s"
| "apply_kind (ModelFinishedWithoutUsage a) s = with_agent a (set_status AgCompleted) s"
| "apply_kind (ModelTurnCompleted a u) s = with_agent a (complete_turn u) s"
| "apply_kind (ModelTurnOutcome a _ _ _) s = known_agent a s"
| "apply_kind (ModelTurnCancelled a) s = running_agent a ''model turn ended outside a running agent'' s"
| "apply_kind (ModelTurnFailed a _) s = running_agent a ''model turn ended outside a running agent'' s"
| "apply_kind (ModelCancelled a) s = with_agent a (set_status AgCancelled) s"
| "apply_kind (ModelFailed a _) s = with_agent a (set_status AgFailed) s"
| "apply_kind (RunCompleted r) s = end_run r RsCompleted AgCompleted s"
| "apply_kind (RunCancelled r) s = end_run r RsCancelled AgCancelled s"
| "apply_kind (RunFailed r _) s = end_run r RsFailed AgFailed s"
| "apply_kind (ArtifactCreated h n media t) s = create_artifact h n media t s"
| "apply_kind (ContextTransition _ _) s = Ok s"
| "apply_kind (CacheObserved _ _ _ _ _) s = Ok s"
| "apply_kind (AgentMessage _ _) s = Ok s"
| "apply_kind (AssumptionTransition _ _) s = Ok s"
| "apply_kind (SchedulerTransition _ _) s = Ok s"
| "apply_kind (AgentPaused a) s = with_agent a (pause_agent a) s"
| "apply_kind (AgentResumed a) s = with_agent a (resume_agent a) s"
| "apply_kind (CapabilityTransition _ _) s = Ok s"
| "apply_kind (ToolTransition _ _) s = Ok s"
| "apply_kind (FailureMemoryTransition _ _) s = Ok s"
| "apply_kind (SpecialistTransition _ _) s = Ok s"
| "apply_kind (ConversationTurn _ _) s = Ok s"

fun is_run_created :: "event_kind \<Rightarrow> bool" where
  "is_run_created (RunCreated _) = True"
| "is_run_created _ = False"

definition apply_event :: "runtime_state \<Rightarrow> event \<Rightarrow> (runtime_state, store_error) result" where
  "apply_event s ev =
     (if event_run ev \<noteq> rs_run s
      then refuse_event (''event '' @ show_event (event_ident ev) @ '' belongs to run '' @
             show_run (event_run ev) @ '', expected '' @ show_run (rs_run s))
      else if rs_applied s = 0 \<and> \<not> is_run_created (event_knd ev)
      then refuse_event ''run.created must be the first event''
      else if 0 < rs_applied s \<and> run_ended (rs_status s)
      then refuse_event ''events cannot be appended after a terminal run transition''
      else and_then (apply_kind (event_knd ev) s) (\<lambda>s'.
        Ok (s'\<lparr>rs_applied := saturating_add (rs_applied s') 1\<rparr>)))"

section \<open>What one accepted event changes\<close>

definition is_run_end :: "event_kind \<Rightarrow> bool" where
  "is_run_end k = (case k of RunCompleted _ \<Rightarrow> True | RunCancelled _ \<Rightarrow> True | RunFailed _ _ \<Rightarrow> True | _ \<Rightarrow> False)"

definition is_chunk_for :: "agent_id \<Rightarrow> event_kind \<Rightarrow> bool" where
  "is_chunk_for a k = (case k of ModelChunkReceived b _ \<Rightarrow> b = a | _ \<Rightarrow> False)"

lemmas apply_kind_defs = create_run_def create_task_def create_agent_def create_artifact_def
  with_agent_def known_agent_def running_agent_def end_run_def set_status_def request_model_def
  complete_turn_def pause_agent_def resume_agent_def refuse_event_def

lemma apply_kind_frame:
  assumes "apply_kind k s = Ok s'"
  shows "rs_run s' = rs_run s" "rs_applied s' = rs_applied s"
  using assms by (cases k; auto simp: apply_kind_defs split: if_splits)+

lemma apply_kind_status:
  assumes "apply_kind k s = Ok s'" and "\<not> run_ended (rs_status s)"
  shows "run_ended (rs_status s') \<longleftrightarrow> is_run_end k"
  using assms by (cases k) (auto simp: apply_kind_defs is_run_end_def run_ended_def split: if_splits)

lemma settle_agent_identity [simp]: "ag_identity (settle_agent st g) = ag_identity g"
  by (simp add: settle_agent_def)

lemma settle_agent_chunks [simp]: "ag_chunks (settle_agent st g) = ag_chunks g"
  by (simp add: settle_agent_def)

lemma apply_kind_identity:
  assumes "apply_kind k s = Ok s'"
  shows "map_option ag_identity (bm_get (rs_agents s') a) =
    (case k of AgentCreated i \<Rightarrow>
        if agent_ident i = a then Some i else map_option ag_identity (bm_get (rs_agents s) a)
      | _ \<Rightarrow> map_option ag_identity (bm_get (rs_agents s) a))"
  using assms
  by (cases k) (auto simp: apply_kind_defs option.map_comp o_def split: if_splits option.splits)

lemma apply_kind_chunks:
  assumes "apply_kind k s = Ok s'" and "bm_get (rs_agents s') a = Some g"
  shows "(case bm_get (rs_agents s) a of
      None \<Rightarrow> ag_chunks g = 0 \<and> \<not> is_chunk_for a k
    | Some f \<Rightarrow> ag_chunks g = (if is_chunk_for a k then saturating_add (ag_chunks f) 1 else ag_chunks f))"
  using assms
  by (cases k) (auto simp: apply_kind_defs is_chunk_for_def bm_contains_key_def split: if_splits option.splits)

lemma apply_kind_known:
  assumes "apply_kind k s = Ok s'" and "bm_get (rs_agents s') a = None"
  shows "bm_get (rs_agents s) a = None \<and> \<not> is_chunk_for a k"
  using assms
  by (cases k) (auto simp: apply_kind_defs is_chunk_for_def split: if_splits)

lemma apply_kind_created_once:
  assumes "apply_kind (AgentCreated i) s = Ok s'"
  shows "bm_get (rs_agents s) (agent_ident i) = None"
  using assms by (simp add: apply_kind_defs bm_contains_key_def split: if_splits)

lemma agent_ended_settle: "agent_ended st \<Longrightarrow> agent_ended (ag_status (settle_agent st g))"
  by (cases "ag_status g") (auto simp: settle_agent_def agent_ended_def)

lemma apply_kind_ends_agents:
  assumes "apply_kind k s = Ok s'" and "is_run_end k" and "bm_get (rs_agents s') a = Some g"
  shows "agent_ended (ag_status g)"
proof -
  have "agent_ended AgCompleted" "agent_ended AgCancelled" "agent_ended AgFailed"
    by (simp_all add: agent_ended_def)
  with assms show ?thesis
    by (cases k) (auto simp: end_run_def is_run_end_def refuse_event_def agent_ended_settle split: if_splits)
qed

lemma apply_kind_tasks:
  assumes "apply_kind k s = Ok s'"
  shows "bm_get (rs_tasks s') t =
    (case k of TaskCreated u r title \<Rightarrow>
        if u = t then Some \<lparr>ts_id = t, ts_run = rs_run s, ts_title = title, ts_status = TsCreated\<rparr>
        else bm_get (rs_tasks s) t
      | _ \<Rightarrow> bm_get (rs_tasks s) t)"
  using assms by (cases k) (auto simp: apply_kind_defs split: if_splits)

lemma apply_kind_artifacts:
  assumes "apply_kind k s = Ok s'"
  shows "bm_get (rs_artifacts s') h =
    (case k of ArtifactCreated f n media t \<Rightarrow>
        if f = h then Some \<lparr>ar_hash = h, ar_size = n, ar_media = media, ar_trust = t\<rparr>
        else bm_get (rs_artifacts s) h
      | _ \<Rightarrow> bm_get (rs_artifacts s) h)"
  using assms by (cases k) (auto simp: apply_kind_defs split: if_splits)

lemma apply_event_Ok:
  assumes "apply_event s ev = Ok s'"
  obtains s1 where "event_run ev = rs_run s" and "rs_applied s = 0 \<longrightarrow> is_run_created (event_knd ev)"
    and "0 < rs_applied s \<longrightarrow> \<not> run_ended (rs_status s)" and "apply_kind (event_knd ev) s = Ok s1"
    and "s' = s1\<lparr>rs_applied := saturating_add (rs_applied s) 1\<rparr>"
  using assms apply_kind_frame(2)
  by (auto simp: apply_event_def refuse_event_def split: if_splits)

section \<open>What the events of a run have made\<close>

text \<open>Every sequence of events the projection accepts: its order, and what its entries are.\<close>

definition run_order :: "run_id \<Rightarrow> event list \<Rightarrow> bool" where
  "run_order r evs \<longleftrightarrow> (\<forall>ev \<in> set evs. event_run ev = r) \<and>
     (\<forall>i < length evs. is_run_created (event_knd (evs ! i)) \<longleftrightarrow> i = 0) \<and>
     (\<forall>i < length evs. is_run_end (event_knd (evs ! i)) \<longrightarrow> Suc i = length evs)"

definition agents_made :: "event list \<Rightarrow> runtime_state \<Rightarrow> bool" where
  "agents_made evs s \<longleftrightarrow>
     (\<forall>a g. bm_get (rs_agents s) a = Some g \<longrightarrow> agent_ident (ag_identity g) = a \<and>
        AgentCreated (ag_identity g) \<in> event_knd ` set evs \<and>
        unat (ag_chunks g) = min (length (filter (is_chunk_for a) (map event_knd evs))) (2 ^ 32 - 1) \<and>
        (run_ended (rs_status s) \<longrightarrow> agent_ended (ag_status g))) \<and>
     (\<forall>i. AgentCreated i \<in> event_knd ` set evs \<longrightarrow>
        map_option ag_identity (bm_get (rs_agents s) (agent_ident i)) = Some i) \<and>
     (\<forall>a. bm_get (rs_agents s) a = None \<longrightarrow> filter (is_chunk_for a) (map event_knd evs) = [])"

definition run_projects :: "run_id \<Rightarrow> event list \<Rightarrow> runtime_state \<Rightarrow> bool" where
  "run_projects r evs s \<longleftrightarrow> rs_run s = r \<and> rs_applied s = of_nat (length evs) \<and> run_order r evs \<and>
     (run_ended (rs_status s) \<longleftrightarrow> evs \<noteq> [] \<and> is_run_end (event_knd (last evs))) \<and>
     agents_made evs s \<and>
     (\<forall>t. bm_get (rs_tasks s) t \<noteq> None \<longleftrightarrow> (\<exists>title. TaskCreated t r title \<in> event_knd ` set evs)) \<and>
     (\<forall>h. bm_get (rs_artifacts s) h \<noteq> None \<longleftrightarrow> (\<exists>n m t. ArtifactCreated h n m t \<in> event_knd ` set evs))"

lemma run_projects_new: "s = runtime_state_new r \<Longrightarrow> run_projects r [] s"
  by (simp add: run_projects_def run_order_def agents_made_def runtime_state_new_def run_ended_def)

lemma created_not_end: "is_run_created k \<Longrightarrow> \<not> is_run_end k"
  by (cases k) (simp_all add: is_run_end_def)

lemma run_order_snoc:
  assumes order: "run_order r evs" and run: "event_run ev = r"
    and first: "is_run_created (event_knd ev) \<longleftrightarrow> evs = []"
    and last: "evs \<noteq> [] \<longrightarrow> \<not> is_run_end (event_knd (last evs))"
  shows "run_order r (evs @ [ev])"
proof -
  have "\<not> is_run_end (event_knd (evs ! i))" if "i < length evs" for i
  proof
    assume "is_run_end (event_knd (evs ! i))"
    with order that have "Suc i = length evs" by (simp add: run_order_def)
    then have "i = length evs - 1" by simp
    then have "evs ! i = List.last evs" using that by (cases evs) (simp_all add: last_conv_nth)
    with \<open>is_run_end (event_knd (evs ! i))\<close> last that show False by auto
  qed
  with assms show ?thesis
    by (auto simp: run_order_def nth_append less_Suc_eq)
qed

lemma create_first_only:
  assumes "apply_kind k s = Ok s'" and "is_run_created k"
  shows "rs_applied s = 0"
  using assms by (cases k) (auto simp: create_run_def refuse_event_def split: if_splits)

lemma agents_made_snoc:
  assumes made: "agents_made evs s" and ap: "apply_kind (event_knd ev) s = Ok s1"
    and rest: "\<not> run_ended (rs_status s)"
  shows "agents_made (evs @ [ev]) (s1\<lparr>rs_applied := n\<rparr>)"
proof -
  let ?k = "event_knd ev"
  let ?c = "\<lambda>a. length (filter (is_chunk_for a) (map event_knd evs))"
  have identity: "agent_ident (ag_identity g) = a \<and> (AgentCreated (ag_identity g) = ?k
      \<or> AgentCreated (ag_identity g) \<in> event_knd ` set evs)" if "bm_get (rs_agents s1) a = Some g" for a g
  proof -
    have "map_option ag_identity (bm_get (rs_agents s1) a) = Some (ag_identity g)" using that by simp
    then have "?k = AgentCreated (ag_identity g) \<and> agent_ident (ag_identity g) = a \<or>
        map_option ag_identity (bm_get (rs_agents s) a) = Some (ag_identity g)"
      unfolding apply_kind_identity [OF ap] by (auto split: event_kind.splits if_splits)
    with made show ?thesis unfolding agents_made_def by force
  qed
  have chunks: "unat (ag_chunks g) = min (?c a + (if is_chunk_for a ?k then 1 else 0)) (2 ^ 32 - 1)"
    if "bm_get (rs_agents s1) a = Some g" for a g
  proof (cases "bm_get (rs_agents s) a")
    case None
    with made have "?c a = 0" by (simp add: agents_made_def)
    with apply_kind_chunks [OF ap that] None show ?thesis by simp
  next
    case (Some f)
    with made have "unat (ag_chunks f) = min (?c a) (2 ^ 32 - 1)" unfolding agents_made_def by blast
    with apply_kind_chunks [OF ap that] Some show ?thesis
      by (cases "is_chunk_for a ?k") (simp_all add: unat_saturating_add)
  qed
  have kept: "map_option ag_identity (bm_get (rs_agents s1) (agent_ident i)) = Some i"
    if "AgentCreated i = ?k \<or> AgentCreated i \<in> event_knd ` set evs" for i
  proof -
    have old: "map_option ag_identity (bm_get (rs_agents s) (agent_ident i)) = Some i"
      if "AgentCreated i \<in> event_knd ` set evs" using made that unfolding agents_made_def by blast
    show ?thesis
    proof (cases "AgentCreated i = ?k")
      case True
      then show ?thesis unfolding apply_kind_identity [OF ap] by (simp flip: True)
    next
      case False
      with that have old: "map_option ag_identity (bm_get (rs_agents s) (agent_ident i)) = Some i"
        using old by blast
      then have "agent_ident j \<noteq> agent_ident i" if "?k = AgentCreated j" for j
        using apply_kind_created_once [of j s s1] ap that by auto
      with old show ?thesis unfolding apply_kind_identity [OF ap] by (auto split: event_kind.split)
    qed
  qed
  have unknown: "filter (is_chunk_for a) (map event_knd (evs @ [ev])) = []"
    if "bm_get (rs_agents s1) a = None" for a
    using apply_kind_known [OF ap that] made by (simp add: agents_made_def)
  have ended: "agent_ended (ag_status g)"
    if "run_ended (rs_status s1)" and "bm_get (rs_agents s1) a = Some g" for a g
    using apply_kind_ends_agents [OF ap _ that(2)] apply_kind_status [OF ap rest] that(1) by simp
  have "AgentCreated i \<in> event_knd ` set (evs @ [ev]) \<longleftrightarrow>
      AgentCreated i = ?k \<or> AgentCreated i \<in> event_knd ` set evs" for i by auto
  then show ?thesis
    unfolding agents_made_def
    using identity chunks kept unknown ended by simp
qed

lemma run_projects_snoc:
  assumes proj: "run_projects r evs s" and ok: "apply_event s ev = Ok s'"
    and bound: "Suc (length evs) < 2 ^ 64"
  shows "run_projects r (evs @ [ev]) s'"
proof -
  let ?k = "event_knd ev"
  obtain s1 where run: "event_run ev = rs_run s" and first: "rs_applied s = 0 \<longrightarrow> is_run_created ?k"
    and rest: "0 < rs_applied s \<longrightarrow> \<not> run_ended (rs_status s)" and ap: "apply_kind ?k s = Ok s1"
    and s': "s' = s1\<lparr>rs_applied := saturating_add (rs_applied s) 1\<rparr>"
    using ok by (rule apply_event_Ok)
  have applied: "rs_applied s = of_nat (length evs)" and r: "rs_run s = r" and order: "run_order r evs"
    and status: "run_ended (rs_status s) \<longleftrightarrow> evs \<noteq> [] \<and> is_run_end (event_knd (last evs))"
    and made: "agents_made evs s"
    using proj by (simp_all add: run_projects_def)
  have len: "unat (of_nat (length evs) :: u64) = length evs"
    using bound by (simp add: unsigned_of_nat take_bit_nat_eq_self)
  then have zero: "rs_applied s = 0 \<longleftrightarrow> evs = []"
    unfolding applied by (auto simp: word_unat_eq_iff)
  then have ended: "\<not> run_ended (rs_status s)"
    using rest status by (auto simp: word_gt_0)
  have created: "is_run_created ?k \<longleftrightarrow> evs = []"
    using create_first_only [OF ap] first zero by blast
  have "run_order r (evs @ [ev])"
    by (rule run_order_snoc [OF order _ created]) (use run r ended status in auto)
  moreover have "saturating_add (rs_applied s) 1 = of_nat (length (evs @ [ev]))"
    using bound len by (simp add: saturating_add_def applied)
  moreover have "run_ended (rs_status s1) \<longleftrightarrow> is_run_end ?k"
    by (rule apply_kind_status [OF ap ended])
  moreover have "agents_made (evs @ [ev]) s'"
    unfolding s' by (rule agents_made_snoc [OF made ap ended])
  moreover have "bm_get (rs_tasks s1) t \<noteq> None \<longleftrightarrow>
      (\<exists>title. TaskCreated t r title \<in> event_knd ` set (evs @ [ev]))" for t
  proof -
    have own: "u = rs_run s" if "?k = TaskCreated t' u title" for t' u title
      using ap that by (simp add: create_task_def refuse_event_def split: if_splits)
    have "bm_get (rs_tasks s) t \<noteq> None \<longleftrightarrow> (\<exists>title. TaskCreated t r title \<in> event_knd ` set evs)"
      using proj by (simp add: run_projects_def)
    then show ?thesis
      unfolding apply_kind_tasks [OF ap]
      by (cases ?k) (auto simp: r dest: own)
  qed
  moreover have "bm_get (rs_artifacts s1) h \<noteq> None \<longleftrightarrow>
      (\<exists>n m t. ArtifactCreated h n m t \<in> event_knd ` set (evs @ [ev]))" for h
  proof -
    have "bm_get (rs_artifacts s) h \<noteq> None \<longleftrightarrow> (\<exists>n m t. ArtifactCreated h n m t \<in> event_knd ` set evs)"
      using proj by (simp add: run_projects_def)
    then show ?thesis
      unfolding apply_kind_artifacts [OF ap] by (cases ?k) auto
  qed
  moreover have "rs_run s1 = r"
    using apply_kind_frame(1) [OF ap] r by simp
  ultimately show ?thesis
    unfolding run_projects_def s' by (simp del: set_append)
qed

lemma run_projects_fold:
  assumes "try_fold apply_event (runtime_state_new r) evs = Ok s" and "length evs < 2 ^ 64"
  shows "run_projects r evs s"
  using assms
proof (induction evs arbitrary: s rule: rev_induct)
  case Nil
  then show ?case by (auto intro!: run_projects_new)
next
  case (snoc ev evs)
  from snoc.prems(1) obtain s0 where "try_fold apply_event (runtime_state_new r) evs = Ok s0"
    and "apply_event s0 ev = Ok s"
    by (auto simp: try_fold_append)
  with snoc show ?case by (auto intro!: run_projects_snoc)
qed

text \<open>An event list of an ended run is complete: nothing follows.\<close>

lemma run_ended_refuses:
  assumes "try_fold apply_event (runtime_state_new r) evs = Ok s" and "length evs < 2 ^ 64"
    and "run_ended (rs_status s)"
  shows "\<not> is_ok (apply_event s ev)"
proof -
  have proj: "run_projects r evs s" using assms(1,2) by (rule run_projects_fold)
  then have "evs \<noteq> []" using assms(3) by (simp add: run_projects_def)
  moreover have "unat (rs_applied s) = length evs"
    using proj assms(2) by (simp add: run_projects_def unsigned_of_nat take_bit_nat_eq_self)
  ultimately have "rs_applied s \<noteq> 0" by auto
  then show ?thesis
    using assms(3) by (simp add: apply_event_def refuse_event_def word_gt_0)
qed

section \<open>Properties\<close>

text \<open>
  C23: the projection of a run is sound. In every sequence of events the projection accepts, all
  events belong to the run, the first and only the first is the creation of the run, and only the
  last can be its end; the state counts the events; its agents, tasks and artifacts are exactly
  those the events created, each agent under its own identifier and with the number of its chunks
  (up to the maximum of the counter); a run has ended exactly when its last event ended it, then
  no agent is still at work, and every further event is refused.
\<close>

theorem run_projection_sound:
  assumes "try_fold apply_event (runtime_state_new r) evs = Ok s" and "length evs < 2 ^ 64"
  shows "run_projects r evs s \<and> (run_ended (rs_status s) \<longrightarrow> (\<forall>ev. \<not> is_ok (apply_event s ev)))"
  using run_projects_fold [OF assms] run_ended_refuses [OF assms] by blast

definition example_agent :: agent_identity where
  "example_agent = \<lparr>agent_ident = 7, agent_name = ''a'', agent_mission = ''m'',
     agent_model = model_ref_new ''p'' ''m'' Cheap\<rparr>"

definition example_event :: "event_id \<Rightarrow> event_kind \<Rightarrow> event" where
  "example_event i k = \<lparr>event_ident = i, event_run = 3, occurred_at_ms = 0, event_knd = k\<rparr>"

definition example_run :: "event list" where
  "example_run = [example_event 1 (RunCreated 3), example_event 2 (AgentCreated example_agent),
     example_event 3 (ModelRequested 7 (model_ref_new ''p'' ''m'' Cheap)),
     example_event 4 (ModelChunkReceived 7 0), example_event 5 (RunCompleted 3)]"

lemmas example_run_defs = example_run_def example_event_def example_agent_def runtime_state_new_def
  apply_event_def apply_kind_defs agent_ended_def run_ended_def bm_contains_key_def saturating_add_def

theorem run_projection_sound_witness:
  "\<exists>s. try_fold apply_event (runtime_state_new 3) example_run = Ok s \<and> rs_status s = RsCompleted \<and>
     run_projects 3 example_run s"
proof -
  obtain s where s: "try_fold apply_event (runtime_state_new 3) example_run = Ok s" "rs_status s = RsCompleted"
    by (simp add: example_run_defs)
  have "length example_run < 2 ^ 64" by (simp add: example_run_def)
  with s run_projection_sound [of 3 example_run s] show ?thesis by blast
qed

end
