(* ===== verification/Artifact_Store.thy ===== *)
theory Artifact_Store
  imports Run_State
begin

text \<open>
  Content-addressed artifacts (\<open>DeterministicContentHasher\<close>, \<open>InMemoryArtifactStore\<close> of
  \<^verbatim>\<open>crates/event-store/src/lib.rs\<close>). The store is generic in its hasher; so are the operations here.
  The locale states what a client may rely on, for any hasher, collisions included.
\<close>

section \<open>The hasher\<close>

definition es_hash_lanes :: "u64 list" where
  "es_hash_lanes = [0xcbf29ce484222325, 0x84222325cbf29ce4, 0x9e3779b185ebca87, 0xd6e8feb86659fd93]"

definition es_hash_multipliers :: "u64 list" where
  "es_hash_multipliers = [0x100000001b3, 0x100000001c9, 0x100000001d7, 0x100000001f1]"

definition es_hash_byte :: "u64 list \<Rightarrow> nat \<times> u8 \<Rightarrow> u64 list" where
  "es_hash_byte lanes = (\<lambda>(index, byte). map (\<lambda>lane.
     let v = xor (lanes ! lane) (ucast byte + word_rotl (lane * 7) (of_nat index));
         w = v * (es_hash_multipliers ! lane)
     in xor w (drop_bit 29 w)) [0..<4])"

definition es_hash_length :: "nat \<Rightarrow> u64 list \<Rightarrow> u64 list" where
  "es_hash_length n lanes = map (\<lambda>lane.
     xor (lanes ! lane) (word_rotl (lane * 11) (of_nat n)) * (es_hash_multipliers ! lane)) [0..<4]"

definition to_be_bytes :: "u64 \<Rightarrow> u8 list" where
  "to_be_bytes w = rev (to_le_bytes w)"

definition deterministic_hash :: "u8 list \<Rightarrow> artifact_hash" where
  "deterministic_hash bs = concat (map to_be_bytes
     (es_hash_length (length bs) (foldl es_hash_byte es_hash_lanes (enumerate 0 bs))))"

lemma length_deterministic_hash [simp]: "length (deterministic_hash bs) = 32"
  by (simp add: deterministic_hash_def es_hash_length_def length_concat o_def to_be_bytes_def
      sum_list_triv)

section \<open>The store\<close>

definition MAX_ARTIFACT_BYTES :: nat where "MAX_ARTIFACT_BYTES = 16 * 1024 * 1024"

record stored_artifact =
  sa_reference :: artifact_ref
  sa_bytes :: "u8 list"

datatype artifact_error =
    ArInvalidMediaType
  | ArTooLarge nat nat
  | ArHashCollision artifact_hash
  | ArMetadataMismatch artifact_hash
  | ArStorage string
  | ArCorrupt string

type_synonym artifact_map = "(artifact_hash, stored_artifact) bmap"

definition put_with_trust :: "(u8 list \<Rightarrow> artifact_hash) \<Rightarrow> string \<Rightarrow> u8 list \<Rightarrow> trust_origin
    \<Rightarrow> artifact_map \<Rightarrow> (artifact_ref, artifact_error) result \<times> artifact_map" where
  "put_with_trust hasher media bytes trust m =
     (if trim media = [] then (Err ArInvalidMediaType, m)
      else if MAX_ARTIFACT_BYTES < length bytes
      then (Err (ArTooLarge (length bytes) MAX_ARTIFACT_BYTES), m)
      else
        let h = hasher bytes;
            reference = \<lparr>ar_hash = h, ar_size = of_nat (length bytes), ar_media = media, ar_trust = trust\<rparr>
        in (case bm_get m h of
              Some existing \<Rightarrow>
                if sa_bytes existing \<noteq> bytes then (Err (ArHashCollision h), m)
                else if ar_media (sa_reference existing) \<noteq> media then (Err (ArMetadataMismatch h), m)
                else
                  let combined = combine_trust (ar_trust (sa_reference existing)) trust;
                      updated = (sa_reference existing)\<lparr>ar_trust := combined\<rparr>
                  in (Ok updated,
                      if ar_trust (sa_reference existing) \<noteq> combined
                      then bm_insert h (existing\<lparr>sa_reference := updated\<rparr>) m else m)
            | None \<Rightarrow> (Ok reference, bm_insert h \<lparr>sa_reference = reference, sa_bytes = bytes\<rparr> m)))"

definition artifact_put :: "(u8 list \<Rightarrow> artifact_hash) \<Rightarrow> string \<Rightarrow> u8 list
    \<Rightarrow> artifact_map \<Rightarrow> (artifact_ref, artifact_error) result \<times> artifact_map" where
  "artifact_put hasher media bytes = put_with_trust hasher media bytes Generated"

definition artifact_get :: "artifact_hash \<Rightarrow> artifact_map \<Rightarrow> (stored_artifact option, artifact_error) result"
  where
  "artifact_get h m = Ok (bm_get m h)"

section \<open>Sequences of puts\<close>

text \<open>An attempt to store: the media type, the bytes, the trust.\<close>

type_synonym put_request = "string \<times> u8 list \<times> trust_origin"

fun put_all :: "(u8 list \<Rightarrow> artifact_hash) \<Rightarrow> put_request list \<Rightarrow> artifact_map \<Rightarrow> artifact_map" where
  "put_all hasher [] m = m"
| "put_all hasher ((media, bytes, trust) # reqs) m =
     put_all hasher reqs (snd (put_with_trust hasher media bytes trust m))"

definition artifact_sound :: "(u8 list \<Rightarrow> artifact_hash) \<Rightarrow> artifact_map \<Rightarrow> bool" where
  "artifact_sound hasher m \<longleftrightarrow> (\<forall>h a. bm_get m h = Some a \<longrightarrow>
     hasher (sa_bytes a) = h \<and> ar_hash (sa_reference a) = h \<and> length (sa_bytes a) \<le> MAX_ARTIFACT_BYTES \<and>
     unat (ar_size (sa_reference a)) = length (sa_bytes a) \<and> trim (ar_media (sa_reference a)) \<noteq> [])"

text \<open>What later puts may do to a stored artifact: lower its trust.\<close>

definition artifact_kept :: "stored_artifact \<Rightarrow> stored_artifact \<Rightarrow> bool" where
  "artifact_kept a b \<longleftrightarrow> sa_bytes b = sa_bytes a \<and>
     (\<exists>t. sa_reference b = (sa_reference a)\<lparr>ar_trust := t\<rparr> \<and> policy_rank t \<le> policy_rank (ar_trust (sa_reference a)))"

lemma artifact_kept_refl: "artifact_kept a a"
  by (auto simp: artifact_kept_def intro!: exI [of _ "ar_trust (sa_reference a)"])

lemma artifact_kept_trans: "artifact_kept a b \<Longrightarrow> artifact_kept b c \<Longrightarrow> artifact_kept a c"
  by (fastforce simp: artifact_kept_def)

lemma put_sound:
  assumes "artifact_sound hasher m"
  shows "artifact_sound hasher (snd (put_with_trust hasher media bytes trust m))"
proof -
  have "length bytes \<le> MAX_ARTIFACT_BYTES \<Longrightarrow> unat (of_nat (length bytes) :: u64) = length bytes"
    by (simp add: MAX_ARTIFACT_BYTES_def unsigned_of_nat take_bit_nat_eq_self)
  with assms show ?thesis
    by (auto simp: put_with_trust_def artifact_sound_def Let_def split: option.split)
qed

lemma put_keeps:
  assumes "bm_get m h = Some a"
  shows "\<exists>b. bm_get (snd (put_with_trust hasher media bytes trust m)) h = Some b \<and> artifact_kept a b"
proof -
  define b where "b = a\<lparr>sa_reference :=
    (sa_reference a)\<lparr>ar_trust := combine_trust (ar_trust (sa_reference a)) trust\<rparr>\<rparr>"
  have "artifact_kept a b" by (auto simp: b_def artifact_kept_def policy_rank_combine)
  moreover have "bm_get (snd (put_with_trust hasher media bytes trust m)) h \<in> {Some a, Some b}"
    using assms by (cases "hasher bytes = h") (auto simp: put_with_trust_def b_def Let_def split: option.split)
  ultimately show ?thesis using artifact_kept_refl by auto
qed

lemma put_Ok:
  assumes put: "put_with_trust hasher media bytes trust m = (Ok r, m')" and sound: "artifact_sound hasher m"
  shows "\<exists>a. bm_get m' (hasher bytes) = Some a \<and> sa_bytes a = bytes \<and> sa_reference a = r \<and>
    ar_hash r = hasher bytes \<and> ar_media r = media \<and> policy_rank (ar_trust r) \<le> policy_rank trust"
proof (cases "bm_get m (hasher bytes)")
  case None
  with put show ?thesis by (auto simp: put_with_trust_def Let_def split: if_splits)
next
  case (Some a)
  then have "ar_hash (sa_reference a) = hasher bytes" using sound by (simp add: artifact_sound_def)
  moreover have same: "(sa_reference a)\<lparr>ar_trust := t\<rparr> = sa_reference a" if "ar_trust (sa_reference a) = t" for t
    using that by (cases "sa_reference a") simp
  moreover have "policy_rank t \<le> policy_rank trust" if "t = combine_trust t trust" for t
    using that policy_rank_combine [of t trust] by simp
  ultimately show ?thesis
    using put Some by (auto simp: put_with_trust_def Let_def policy_rank_combine same split: if_splits)
qed

lemma put_Err:
  "put_with_trust hasher media bytes trust m = (Err e, m') \<Longrightarrow> m' = m"
  by (auto simp: put_with_trust_def Let_def split: if_splits option.splits)

text \<open>The contract of a content-addressed store.\<close>

locale artifact_store =
  fixes put :: "'m \<Rightarrow> put_request \<Rightarrow> 'm"
    and get :: "'m \<Rightarrow> artifact_hash \<Rightarrow> stored_artifact option"
    and sound :: "'m \<Rightarrow> bool"
  assumes put_sound: "sound m \<Longrightarrow> sound (put m req)"
    and put_keeps: "get m h = Some a \<Longrightarrow> \<exists>b. get (put m req) h = Some b \<and> artifact_kept a b"
begin

lemma puts_sound: "sound m \<Longrightarrow> sound (foldl put m reqs)"
  by (induction reqs arbitrary: m) (simp_all add: put_sound)

lemma puts_keep: "get m h = Some a \<Longrightarrow> \<exists>b. get (foldl put m reqs) h = Some b \<and> artifact_kept a b"
proof (induction reqs arbitrary: m a)
  case Nil
  then show ?case by (simp add: artifact_kept_refl)
next
  case (Cons req reqs)
  from put_keeps [OF Cons.prems] obtain b where "get (put m req) h = Some b" and "artifact_kept a b" by blast
  moreover from Cons.IH [OF this(1)] obtain c where "get (foldl put m (req # reqs)) h = Some c"
    and "artifact_kept b c" by auto
  ultimately show ?case by (blast intro: artifact_kept_trans)
qed

end

definition put_step :: "(u8 list \<Rightarrow> artifact_hash) \<Rightarrow> artifact_map \<Rightarrow> put_request \<Rightarrow> artifact_map" where
  "put_step hasher m = (\<lambda>(media, bytes, trust). snd (put_with_trust hasher media bytes trust m))"

interpretation mem_artifacts: artifact_store "put_step hasher" bm_get "artifact_sound hasher" for hasher
  by unfold_locales (auto simp: put_step_def put_sound put_keeps split_beta)

lemma put_all_foldl: "put_all hasher reqs m = foldl (put_step hasher) m reqs"
  by (induction hasher reqs m rule: put_all.induct) (simp_all add: put_step_def)

section \<open>Properties\<close>

text \<open>
  C39: artifacts are content-addressed, whatever the hasher. After any puts, every artifact is
  stored under the hash of its bytes, with its size and a media type. A put that succeeds stores
  exactly the bytes and the media type given, with a trust not above the one given; no later put
  changes them or raises the trust. A put that fails changes nothing.
\<close>

theorem artifacts_content_addressed:
  assumes "put_with_trust hasher media bytes trust (put_all hasher reqs bm_empty) = (r, m)"
  shows "artifact_sound hasher m \<and>
    (case r of
       Err e \<Rightarrow> m = put_all hasher reqs bm_empty
     | Ok reference \<Rightarrow> ar_hash reference = hasher bytes \<and>
         (\<exists>a. artifact_get (hasher bytes) (put_all hasher later m) = Ok (Some a) \<and> sa_bytes a = bytes \<and>
            ar_media (sa_reference a) = media \<and> policy_rank (ar_trust (sa_reference a)) \<le> policy_rank trust))"
proof
  let ?m = "put_all hasher reqs bm_empty"
  have empty: "artifact_sound hasher bm_empty" by (simp add: artifact_sound_def)
  have sound: "artifact_sound hasher ?m"
    unfolding put_all_foldl by (rule mem_artifacts.puts_sound [OF empty])
  with assms show "artifact_sound hasher m"
    using put_sound [of hasher ?m media bytes trust] by simp
  show "case r of
       Err e \<Rightarrow> m = ?m
     | Ok reference \<Rightarrow> ar_hash reference = hasher bytes \<and>
         (\<exists>a. artifact_get (hasher bytes) (put_all hasher later m) = Ok (Some a) \<and> sa_bytes a = bytes \<and>
            ar_media (sa_reference a) = media \<and> policy_rank (ar_trust (sa_reference a)) \<le> policy_rank trust)"
  proof (cases r)
    case (Err e)
    with assms show ?thesis by (auto dest: put_Err)
  next
    case (Ok reference)
    from put_Ok [OF assms [unfolded Ok] sound] obtain a where a: "bm_get m (hasher bytes) = Some a"
      "sa_bytes a = bytes" "sa_reference a = reference" "ar_hash reference = hasher bytes"
      "ar_media reference = media" "policy_rank (ar_trust reference) \<le> policy_rank trust" by blast
    from mem_artifacts.puts_keep [OF a(1)] obtain b
      where "bm_get (put_all hasher later m) (hasher bytes) = Some b" and kept: "artifact_kept a b"
      unfolding put_all_foldl by blast
    moreover from kept a have "sa_bytes b = bytes" "ar_media (sa_reference b) = media"
      "policy_rank (ar_trust (sa_reference b)) \<le> policy_rank trust"
      unfolding artifact_kept_def by auto
    ultimately show ?thesis using Ok a(4) by (simp add: artifact_get_def)
  qed
qed

theorem artifacts_content_addressed_witness:
  "\<exists>a. artifact_get [1] (put_all (\<lambda>bs. [of_nat (length bs)]) [(''text'', [9], WebUntrusted)]
       (snd (put_with_trust (\<lambda>bs. [of_nat (length bs)]) ''text'' [9] Generated bm_empty))) = Ok (Some a) \<and>
     sa_bytes a = [9]"
  using artifacts_content_addressed
    [of "\<lambda>bs. [of_nat (length bs)]" "''text''" "[9]" Generated "[]"
        "fst (put_with_trust (\<lambda>bs. [of_nat (length bs)]) ''text'' [9] Generated bm_empty)"
        "snd (put_with_trust (\<lambda>bs. [of_nat (length bs)]) ''text'' [9] Generated bm_empty)"
        "[(''text'', [9], WebUntrusted)]"]
  by (simp add: put_with_trust_def trim_empty trim_is_empty_def MAX_ARTIFACT_BYTES_def Let_def) force

end
