(* ===== verification/Event_Store.thy ===== *)
theory Event_Store
  imports Artifact_Store Ipc Assumptions Tool_Codec
begin

text \<open>
  The event store in memory (\<open>InMemoryEventStore\<close> of \<^verbatim>\<open>crates/event-store/src/lib.rs\<close>): appending,
  reading, replay, snapshots, branches and forks. The identifiers that the code takes from the
  allocator come from the allocator model of the kernel, whose state is passed along.
\<close>

section \<open>The store\<close>

type_synonym sequence = u64

datatype replay_mode = Recorded | ReexecuteLive | ForkLive

record branch_metadata =
  br_id :: branch_id
  br_parent :: run_id
  br_fork :: sequence
  br_mode :: replay_mode
  br_created_at_ms :: u64

record stored_event =
  se_sequence :: sequence
  se_event :: event

record runtime_snapshot =
  sn_run :: run_id
  sn_at :: sequence
  sn_state :: runtime_state

record event_store =
  st_next :: sequence
  st_events :: "stored_event list"
  st_ids :: "event_id set"
  st_branches :: "(branch_id, branch_metadata) bmap"
  st_snapshots :: "(run_id \<times> sequence, runtime_snapshot) bmap"

definition event_store_new :: event_store where
  "event_store_new = \<lparr>st_next = 1, st_events = [], st_ids = {}, st_branches = bm_empty,
     st_snapshots = bm_empty\<rparr>"

section \<open>Appending\<close>

definition es_append :: "event \<Rightarrow> event_store \<Rightarrow> (sequence, store_error) result \<times> event_store" where
  "es_append ev s =
     (if event_ident ev \<in> st_ids s then (Err (EsDuplicateEvent (event_ident ev)), s)
      else (Ok (st_next s), s\<lparr>st_ids := insert (event_ident ev) (st_ids s),
              st_next := saturating_add (st_next s) 1,
              st_events := st_events s @ [\<lparr>se_sequence = st_next s, se_event = ev\<rparr>]\<rparr>))"

fun es_append_each :: "event list \<Rightarrow> event_store \<Rightarrow> (sequence list, store_error) result \<times> event_store"
  where
  "es_append_each [] s = (Ok [], s)"
| "es_append_each (ev # evs) s =
     (case es_append ev s of
        (Err e, s') \<Rightarrow> (Err e, s')
      | (Ok n, s') \<Rightarrow>
          (case es_append_each evs s' of
             (Err e, s'') \<Rightarrow> (Err e, s'')
           | (Ok ns, s'') \<Rightarrow> (Ok (n # ns), s'')))"

text \<open>The batch is staged on a copy, which replaces the store when every event went in.\<close>

definition es_append_batch :: "event list \<Rightarrow> event_store
    \<Rightarrow> (sequence list, store_error) result \<times> event_store" where
  "es_append_batch evs s =
     (case es_append_each evs s of
        (Err e, staged) \<Rightarrow> (Err e, s)
      | (Ok ns, staged) \<Rightarrow> (Ok ns, staged))"

definition es_append_trace :: "event_trace \<Rightarrow> event_store
    \<Rightarrow> (sequence list, store_error) result \<times> event_store" where
  "es_append_trace t s = es_append_batch (trace_events t) s"

section \<open>Reading and replay\<close>

definition es_events :: "run_id \<Rightarrow> event_store \<Rightarrow> stored_event list" where
  "es_events r s = filter (\<lambda>e. event_run (se_event e) = r) (st_events s)"

definition es_events_since :: "run_id \<Rightarrow> sequence \<Rightarrow> event_store \<Rightarrow> stored_event list" where
  "es_events_since r n s = filter (\<lambda>e. event_run (se_event e) = r \<and> n < se_sequence e) (st_events s)"

definition es_reconstruct :: "run_id \<Rightarrow> event_store \<Rightarrow> (runtime_state, store_error) result" where
  "es_reconstruct r s =
     (let evs = es_events r s in
      if evs = [] then Err (EsUnknownRun r)
      else and_then (try_fold apply_event (runtime_state_new r) (map se_event evs)) (\<lambda>st.
        Ok (st\<lparr>rs_applied := of_nat (length evs)\<rparr>)))"

definition es_snapshot :: "run_id \<Rightarrow> event_store \<Rightarrow> (runtime_snapshot, store_error) result" where
  "es_snapshot r s =
     (let evs = es_events r s in
      and_then (es_reconstruct r s) (\<lambda>st.
        if evs = [] then Err (EsUnknownRun r)
        else Ok \<lparr>sn_run = r, sn_at = se_sequence (last evs), sn_state = st\<rparr>))"

record recorded_replay =
  rr_events :: "stored_event list"
  rr_state :: runtime_state

definition es_recorded_replay :: "run_id \<Rightarrow> event_store \<Rightarrow> (recorded_replay, store_error) result" where
  "es_recorded_replay r s = and_then (es_reconstruct r s) (\<lambda>st.
     Ok \<lparr>rr_events = es_events r s, rr_state = st\<rparr>)"

section \<open>Branches and snapshots\<close>

definition validate_fork_sequence :: "stored_event list \<Rightarrow> run_id \<Rightarrow> sequence
    \<Rightarrow> (unit, store_error) result" where
  "validate_fork_sequence evs parent n =
     (if \<not> list_ex (\<lambda>e. event_run (se_event e) = parent) evs then Err (EsUnknownRun parent)
      else if list_ex (\<lambda>e. event_run (se_event e) = parent \<and> se_sequence e = n) evs then Ok ()
      else refuse_event (''fork sequence '' @ show_nat (unat n) @ '' is not present in run '' @ show_run parent))"

text \<open>The panic of the allocator is an error of its own.\<close>

datatype fork_error = ForkStore store_error | ForkPanic id_error

definition es_create_branch :: "entropy \<Rightarrow> run_id \<Rightarrow> sequence \<Rightarrow> replay_mode \<Rightarrow> u64
    \<Rightarrow> event_store \<Rightarrow> id_state \<Rightarrow> (branch_metadata, fork_error) result \<times> event_store \<times> id_state" where
  "es_create_branch e parent n mode now s ids =
     (case validate_fork_sequence (st_events s) parent n of
        Err x \<Rightarrow> (Err (ForkStore x), s, ids)
      | Ok _ \<Rightarrow>
          (case new_durable_id e ids of
             (Err x, ids') \<Rightarrow> (Err (ForkPanic x), s, ids')
           | (Ok i, ids') \<Rightarrow>
               let b = \<lparr>br_id = i, br_parent = parent, br_fork = n, br_mode = mode, br_created_at_ms = now\<rparr>
               in (Ok b, s\<lparr>st_branches := bm_insert i b (st_branches s)\<rparr>, ids')))"

definition es_branch :: "branch_id \<Rightarrow> event_store \<Rightarrow> branch_metadata option" where
  "es_branch b s = bm_get (st_branches s) b"

definition es_branches_for_run :: "run_id \<Rightarrow> event_store \<Rightarrow> branch_metadata list" where
  "es_branches_for_run r s = filter (\<lambda>b. br_parent b = r) (bm_values (st_branches s))"

definition validate_snapshot :: "stored_event list \<Rightarrow> runtime_snapshot \<Rightarrow> (unit, store_error) result"
  where
  "validate_snapshot evs sn =
     (if rs_run (sn_state sn) \<noteq> sn_run sn then refuse_event ''snapshot state belongs to another run''
      else
        let prefix = filter (\<lambda>e. event_run (se_event e) = sn_run sn \<and> se_sequence e \<le> sn_at sn) evs in
        if \<not> (prefix \<noteq> [] \<and> se_sequence (last prefix) = sn_at sn)
        then (if \<not> list_ex (\<lambda>e. event_run (se_event e) = sn_run sn) evs then Err (EsUnknownRun (sn_run sn))
              else refuse_event (''snapshot sequence '' @ show_nat (unat (sn_at sn)) @
                     '' is not present in run '' @ show_run (sn_run sn)))
        else if rs_applied (sn_state sn) \<noteq> of_nat (length prefix)
        then refuse_event (''snapshot has '' @ show_nat (unat (rs_applied (sn_state sn))) @
               '' applied events, expected '' @ show_nat (length prefix))
        else and_then (try_fold apply_event (runtime_state_new (sn_run sn)) (map se_event prefix)) (\<lambda>st.
          if st \<noteq> sn_state sn
          then refuse_event (''snapshot state does not match event prefix at sequence '' @
                 show_nat (unat (sn_at sn)))
          else Ok ()))"

definition es_save_snapshot :: "runtime_snapshot \<Rightarrow> event_store
    \<Rightarrow> (unit, store_error) result \<times> event_store" where
  "es_save_snapshot sn s =
     (case validate_snapshot (st_events s) sn of
        Err x \<Rightarrow> (Err x, s)
      | Ok _ \<Rightarrow> (Ok (), s\<lparr>st_snapshots := bm_insert (sn_run sn, sn_at sn) sn (st_snapshots s)\<rparr>))"

text \<open>\<open>range((run, 0)..=(run, limit)).next_back()\<close>: the last entry between the two keys.\<close>

definition es_load_snapshot :: "run_id \<Rightarrow> sequence option \<Rightarrow> event_store \<Rightarrow> runtime_snapshot option" where
  "es_load_snapshot r at_or_before s =
     (let upper = (case at_or_before of None \<Rightarrow> - 1 | Some n \<Rightarrow> n);
          es = filter (\<lambda>(k, _). (r, 0) \<le> k \<and> k \<le> (r, upper)) (bm_entries (st_snapshots s))
      in if es = [] then None else Some (snd (last es)))"

section \<open>Forks\<close>

text \<open>A payload that names the run is decoded, renamed and encoded again; if that fails it is copied.\<close>

definition remap_payload :: "u16 \<Rightarrow> (u16 \<Rightarrow> u8 list \<Rightarrow> ('t, 'e) result) \<Rightarrow> ('t \<Rightarrow> 't)
    \<Rightarrow> ('t \<Rightarrow> (u8 list, 'e) result) \<Rightarrow> u16 \<Rightarrow> u8 list \<Rightarrow> u16 \<times> u8 list" where
  "remap_payload current dec rename enc version payload =
     (case and_then (dec version payload) (\<lambda>t. enc (rename t)) of
        Ok payload' \<Rightarrow> (current, payload')
      | Err _ \<Rightarrow> (version, payload))"

definition env_with_run_id :: "run_id \<Rightarrow> ipc_envelope \<Rightarrow> ipc_envelope" where
  "env_with_run_id r e = e\<lparr>env_run := r\<rparr>"

fun asm_with_run_id :: "run_id \<Rightarrow> assumption_transition \<Rightarrow> assumption_transition" where
  "asm_with_run_id r (AsmCreated a) = AsmCreated (a\<lparr>asm_run := r\<rparr>)"
| "asm_with_run_id r t = t"

fun remap_kind :: "run_id \<Rightarrow> event_kind \<Rightarrow> event_kind" where
  "remap_kind c (RunCreated _) = RunCreated c"
| "remap_kind c (TaskCreated t _ title) = TaskCreated t c title"
| "remap_kind c (RunCompleted _) = RunCompleted c"
| "remap_kind c (RunCancelled _) = RunCancelled c"
| "remap_kind c (RunFailed _ m) = RunFailed c m"
| "remap_kind c (AgentMessage v p) =
     (let (v', p') = remap_payload IPC_SCHEMA_VERSION envelope_decode (env_with_run_id c) envelope_encode v p
      in AgentMessage v' p')"
| "remap_kind c (AssumptionTransition v p) =
     (let (v', p') = remap_payload ASSUMPTION_SCHEMA_VERSION asm_decode_transition (asm_with_run_id c)
        asm_encode_transition v p
      in AssumptionTransition v' p')"
| "remap_kind c (ToolTransition v p) =
     (let (v', p') = remap_payload TOOL_SCHEMA_VERSION tl_decode_transition (tt_with_run_id c)
        tl_encode_transition v p
      in ToolTransition v' p')"
| "remap_kind c k = k"

definition remap_event_for_run :: "entropy \<Rightarrow> run_id \<Rightarrow> event \<Rightarrow> id_state
    \<Rightarrow> (event, id_error) result \<times> id_state" where
  "remap_event_for_run e c ev ids =
     (case new_durable_id e ids of
        (Err x, ids') \<Rightarrow> (Err x, ids')
      | (Ok i, ids') \<Rightarrow> (Ok \<lparr>event_ident = i, event_run = c, occurred_at_ms = occurred_at_ms ev,
            event_knd = remap_kind c (event_knd ev)\<rparr>, ids'))"

fun remap_events :: "entropy \<Rightarrow> run_id \<Rightarrow> event list \<Rightarrow> id_state \<Rightarrow> (event list, id_error) result \<times> id_state"
  where
  "remap_events e c [] ids = (Ok [], ids)"
| "remap_events e c (ev # evs) ids =
     (case remap_event_for_run e c ev ids of
        (Err x, ids') \<Rightarrow> (Err x, ids')
      | (Ok ev', ids') \<Rightarrow>
          (case remap_events e c evs ids' of
             (Err x, ids'') \<Rightarrow> (Err x, ids'')
           | (Ok evs', ids'') \<Rightarrow> (Ok (ev' # evs'), ids'')))"

record forked_run =
  fk_branch :: branch_id
  fk_parent :: run_id
  fk_child :: run_id
  fk_sequence :: sequence
  fk_mode :: replay_mode
  fk_copied :: u64
  fk_sequences :: "sequence list"
  fk_prefix :: event_trace

definition materialize_fork :: "entropy \<Rightarrow> branch_id \<Rightarrow> run_id \<Rightarrow> event_store \<Rightarrow> id_state
    \<Rightarrow> (forked_run, fork_error) result \<times> event_store \<times> id_state" where
  "materialize_fork e b child s ids =
     (if es_events child s \<noteq> []
      then (Err (ForkStore (EsInvalidTransition (''child run '' @ show_run child @ '' already has events''))), s, ids)
      else (case es_branch b s of
        None \<Rightarrow> (Err (ForkStore (EsUnknownBranch b)), s, ids)
      | Some branch \<Rightarrow>
          if br_parent branch = child
          then (Err (ForkStore (EsInvalidTransition ''child run must differ from parent run'')), s, ids)
          else
            let parent_events = es_events (br_parent branch) s in
            (case validate_fork_sequence parent_events (br_parent branch) (br_fork branch) of
               Err x \<Rightarrow> (Err (ForkStore x), s, ids)
             | Ok _ \<Rightarrow>
                 (case remap_events e child (map se_event
                     (filter (\<lambda>v. se_sequence v \<le> br_fork branch) parent_events)) ids of
                    (Err x, ids') \<Rightarrow> (Err (ForkPanic x), s, ids')
                  | (Ok prefix, ids') \<Rightarrow>
                      if br_mode branch \<in> {ForkLive, ReexecuteLive} \<and>
                         list_ex (\<lambda>ev. is_run_end (event_knd ev)) prefix
                      then (Err (ForkStore (EsInvalidTransition
                              ''live fork cannot begin after a terminal parent event'')), s, ids')
                      else
                        (case es_append_batch prefix s of
                           (Err x, s') \<Rightarrow> (Err (ForkStore x), s', ids')
                         | (Ok ns, s') \<Rightarrow>
                             (Ok \<lparr>fk_branch = b, fk_parent = br_parent branch, fk_child = child,
                                fk_sequence = br_fork branch, fk_mode = br_mode branch,
                                fk_copied = of_nat (length ns), fk_sequences = ns,
                                fk_prefix = foldl (\<lambda>t ev. trace_record ev t) \<lparr>trace_events = []\<rparr> prefix\<rparr>,
                              s', ids'))))))"

definition persist_fork_continuation :: "forked_run \<Rightarrow> event_trace \<Rightarrow> event_store
    \<Rightarrow> (sequence list, store_error) result \<times> event_store" where
  "persist_fork_continuation fork execution s =
     (let prefix = trace_events (fk_prefix fork);
          executed = trace_events execution;
          persisted = es_events (fk_child fork) s;
          continuation = drop (length prefix) executed
      in
      if length executed < length prefix \<or> take (length prefix) executed \<noteq> prefix
      then (refuse_event ''fork continuation does not preserve the materialized child prefix'', s)
      else if length persisted < length prefix \<or>
              map se_event (take (length prefix) persisted) \<noteq> prefix
      then (refuse_event ''fork child prefix is not present in the target store'', s)
      else if continuation = []
      then (refuse_event ''fork continuation contains no new events'', s)
      else if list_ex (\<lambda>ev. event_run ev \<noteq> fk_child fork) continuation
      then (refuse_event ''fork continuation contains an event from another run'', s)
      else
        (case es_append_batch prefix event_store_new of
           (Err x, _) \<Rightarrow> (Err x, s)
         | (Ok _, validation) \<Rightarrow>
             (case es_append_batch continuation validation of
                (Err x, _) \<Rightarrow> (Err x, s)
              | (Ok _, validation') \<Rightarrow>
                  (case es_reconstruct (fk_child fork) validation' of
                     Err x \<Rightarrow> (Err x, s)
                   | Ok _ \<Rightarrow> es_append_batch continuation s))))"

end
