(* ===== verification/Event_History.thy ===== *)
theory Event_History
  imports Event_Store
begin

text \<open>
  What holds of every event store that operations can reach: the sequence numbers, the identifiers
  and the validity of all saved snapshots and branches; that a snapshot and the events after it give
  the replayed state; what a fork is; and when its continuation may be stored.
\<close>

section \<open>The invariant\<close>

definition snapshots_valid :: "event_store \<Rightarrow> bool" where
  "snapshots_valid s \<longleftrightarrow> (\<forall>r n sn. bm_get (st_snapshots s) (r, n) = Some sn \<longrightarrow>
     sn_run sn = r \<and> sn_at sn = n \<and> validate_snapshot (st_events s) sn = Ok ())"

definition branches_valid :: "event_store \<Rightarrow> bool" where
  "branches_valid s \<longleftrightarrow> (\<forall>b m. bm_get (st_branches s) b = Some m \<longrightarrow>
     br_id m = b \<and> validate_fork_sequence (st_events s) (br_parent m) (br_fork m) = Ok ())"

text \<open>The sequence number is \<open>u64\<close> and saturates; below that, the events are numbered from one.\<close>

definition log_ok :: "event_store \<Rightarrow> bool" where
  "log_ok s \<longleftrightarrow> length (st_events s) < 2 ^ 64 - 1 \<and> st_next s = of_nat (Suc (length (st_events s))) \<and>
     (\<forall>i < length (st_events s). se_sequence (st_events s ! i) = of_nat (Suc i)) \<and>
     st_ids s = (event_ident \<circ> se_event) ` set (st_events s) \<and>
     distinct (map (event_ident \<circ> se_event) (st_events s))"

definition store_ok :: "event_store \<Rightarrow> bool" where
  "store_ok s \<longleftrightarrow> log_ok s \<and> snapshots_valid s \<and> branches_valid s"

lemma log_ok_new: "log_ok event_store_new"
  by (simp add: log_ok_def event_store_new_def)

lemma store_ok_new: "store_ok event_store_new"
  using log_ok_new by (simp add: store_ok_def snapshots_valid_def branches_valid_def event_store_new_def)

lemma unat_of_nat64: "n < 2 ^ 64 \<Longrightarrow> unat (of_nat n :: u64) = n"
  by (simp add: unsigned_of_nat take_bit_nat_eq_self)

lemma unat_Suc64 [simp]: "Suc n < 2 ^ 64 \<Longrightarrow> unat (1 + of_nat n :: u64) = Suc n"
  using unat_of_nat64 [of "Suc n"] by simp

lemma log_ok_sequence:
  assumes "log_ok s" and "i < length (st_events s)"
  shows "unat (se_sequence (st_events s ! i)) = Suc i"
  using assms by (simp add: log_ok_def unat_of_nat64)

lemma log_ok_ascending:
  assumes "log_ok s"
  shows "sorted_wrt (<) (map se_sequence (st_events s))"
  using assms by (auto simp: sorted_wrt_iff_nth_less word_less_nat_alt log_ok_sequence)

lemma log_ok_below_next:
  assumes "log_ok s" and "e \<in> set (st_events s)"
  shows "se_sequence e < st_next s"
proof -
  obtain i where "i < length (st_events s)" and "e = st_events s ! i"
    using assms(2) by (auto simp: in_set_conv_nth)
  with assms(1) show ?thesis
    by (auto simp: word_less_nat_alt log_ok_sequence) (simp add: log_ok_def unat_of_nat64)
qed

section \<open>Appending keeps it\<close>

lemma es_append_Ok:
  assumes "es_append ev s = (Ok n, s')"
  shows "n = st_next s" "event_ident ev \<notin> st_ids s"
    "st_events s' = st_events s @ [\<lparr>se_sequence = st_next s, se_event = ev\<rparr>]"
    "st_next s' = saturating_add (st_next s) 1" "st_ids s' = insert (event_ident ev) (st_ids s)"
    "st_branches s' = st_branches s" "st_snapshots s' = st_snapshots s"
  using assms by (auto simp: es_append_def split: if_splits)

lemma es_append_Err: "es_append ev s = (Err x, s') \<Longrightarrow> s' = s"
  by (simp add: es_append_def split: if_splits)

lemma log_ok_append:
  assumes ok: "log_ok s" and ap: "es_append ev s = (Ok n, s')" and bound: "length (st_events s') < 2 ^ 64 - 1"
  shows "log_ok s'"
proof -
  have next': "unat (st_next s) = Suc (length (st_events s))"
    using ok by (simp add: log_ok_def unat_of_nat64)
  have len: "length (st_events s') = Suc (length (st_events s))" by (simp add: es_append_Ok [OF ap])
  have "st_next s' = of_nat (Suc (length (st_events s')))"
  proof (rule word_unat_eq_iff [THEN iffD2])
    show "unat (st_next s') = unat (of_nat (Suc (length (st_events s'))) :: u64)"
      unfolding es_append_Ok(4) [OF ap] unat_saturating_add next'
      using bound len by (simp add: unat_of_nat64 min_def del: of_nat_Suc)
  qed
  moreover have "se_sequence (st_events s' ! i) = of_nat (Suc i)" if "i < length (st_events s')" for i
    using that ok len by (auto simp: es_append_Ok [OF ap] nth_append log_ok_def less_Suc_eq)
  moreover have "st_ids s' = (event_ident \<circ> se_event) ` set (st_events s')"
    using ok by (simp add: es_append_Ok [OF ap] log_ok_def)
  moreover have "distinct (map (event_ident \<circ> se_event) (st_events s'))"
    using ok es_append_Ok(2) [OF ap] by (auto simp: es_append_Ok(3) [OF ap] log_ok_def)
  ultimately show ?thesis using bound unfolding log_ok_def by blast
qed

text \<open>Events of higher numbers change neither the events up to a number nor what was said of them.\<close>

lemma refuse_unless:
  "(if b then refuse_event m else r) = Ok x \<longleftrightarrow> \<not> b \<and> r = Ok x"
  "(if b then if c then Err e else refuse_event m else r) = Ok x \<longleftrightarrow> \<not> b \<and> r = Ok x"
  "(if b then refuse_event m else Ok ()) = Ok () \<longleftrightarrow> \<not> b"
  by (simp_all add: refuse_event_def)

definition snapshot_prefix :: "stored_event list \<Rightarrow> run_id \<Rightarrow> sequence \<Rightarrow> stored_event list" where
  "snapshot_prefix evs r n = filter (\<lambda>e. event_run (se_event e) = r \<and> se_sequence e \<le> n) evs"

lemma validate_snapshot_Ok:
  "validate_snapshot evs sn = Ok () \<longleftrightarrow>
     (let prefix = snapshot_prefix evs (sn_run sn) (sn_at sn) in
      rs_run (sn_state sn) = sn_run sn \<and> prefix \<noteq> [] \<and> se_sequence (last prefix) = sn_at sn \<and>
      rs_applied (sn_state sn) = of_nat (length prefix) \<and>
      try_fold apply_event (runtime_state_new (sn_run sn)) (map se_event prefix) = Ok (sn_state sn))"
  unfolding validate_snapshot_def snapshot_prefix_def [symmetric] Let_def refuse_unless and_then_Ok_iff
  by blast

lemma snapshot_prefix_more:
  assumes "snapshot_prefix evs r n \<noteq> []" and "se_sequence (last (snapshot_prefix evs r n)) = n"
    and higher: "\<And>e f. e \<in> set evs \<Longrightarrow> f \<in> set later \<Longrightarrow> se_sequence e < se_sequence f"
  shows "snapshot_prefix (evs @ later) r n = snapshot_prefix evs r n"
proof -
  have "last (snapshot_prefix evs r n) \<in> set (snapshot_prefix evs r n)"
    using assms(1) by (rule last_in_set)
  then have "last (snapshot_prefix evs r n) \<in> set evs" by (simp add: snapshot_prefix_def)
  then have "n < se_sequence f" if "f \<in> set later" for f
    using higher that assms(2) by metis
  then have "snapshot_prefix later r n = []"
    by (auto simp: snapshot_prefix_def filter_empty_conv not_le)
  then show ?thesis by (simp add: snapshot_prefix_def)
qed

lemma validate_snapshot_more:
  assumes "validate_snapshot evs sn = Ok ()"
    and "\<And>e f. e \<in> set evs \<Longrightarrow> f \<in> set later \<Longrightarrow> se_sequence e < se_sequence f"
  shows "validate_snapshot (evs @ later) sn = Ok ()"
  using assms snapshot_prefix_more [of evs "sn_run sn" "sn_at sn" later]
  unfolding validate_snapshot_Ok Let_def by metis

lemma validate_fork_sequence_Ok:
  "validate_fork_sequence evs r n = Ok () \<longleftrightarrow>
     (\<exists>e \<in> set evs. event_run (se_event e) = r \<and> se_sequence e = n)"
  by (auto simp: validate_fork_sequence_def refuse_event_def list_ex_iff)

lemma validity_more:
  assumes "store_ok s" and "st_events s' = st_events s @ later"
    and "\<And>f. f \<in> set later \<Longrightarrow> st_next s \<le> se_sequence f"
    and "st_branches s' = st_branches s" and "st_snapshots s' = st_snapshots s"
  shows "snapshots_valid s'" "branches_valid s'"
proof -
  have below: "se_sequence e < se_sequence f" if "e \<in> set (st_events s)" "f \<in> set later" for e f
    using log_ok_below_next [of s e] assms(1,3) that by (fastforce simp: store_ok_def)
  have "validate_snapshot (st_events s @ later) sn = Ok ()"
    if "validate_snapshot (st_events s) sn = Ok ()" for sn
    using that below by (rule validate_snapshot_more)
  then show "snapshots_valid s'" using assms by (simp add: store_ok_def snapshots_valid_def)
  show "branches_valid s'"
    using assms unfolding store_ok_def branches_valid_def validate_fork_sequence_Ok
    by (metis Un_iff set_append)
qed

lemma store_ok_append:
  assumes "store_ok s" and "es_append ev s = (Ok n, s')" and "length (st_events s') < 2 ^ 64 - 1"
  shows "store_ok s'"
proof -
  have "log_ok s'" using assms by (auto simp: store_ok_def intro: log_ok_append)
  moreover have "snapshots_valid s'" "branches_valid s'"
    using validity_more [OF assms(1) es_append_Ok(3) [OF assms(2)]] es_append_Ok [OF assms(2)] by simp_all
  ultimately show ?thesis by (simp add: store_ok_def)
qed

text \<open>A batch: all or nothing, numbered one after the other.\<close>

lemma es_append_each_Ok:
  assumes "es_append_each evs s = (Ok ns, s')"
  shows "length ns = length evs"
    "st_events s' = st_events s @ map2 (\<lambda>n ev. \<lparr>se_sequence = n, se_event = ev\<rparr>) ns evs"
    "st_branches s' = st_branches s" "st_snapshots s' = st_snapshots s"
proof -
  have "length ns = length evs \<and>
      st_events s' = st_events s @ map2 (\<lambda>n ev. \<lparr>se_sequence = n, se_event = ev\<rparr>) ns evs \<and>
      st_branches s' = st_branches s \<and> st_snapshots s' = st_snapshots s"
    using assms
  proof (induction evs s arbitrary: ns s' rule: es_append_each.induct)
    case (2 ev evs s)
    from 2(2) obtain n s1 ns1 where ap: "es_append ev s = (Ok n, s1)"
      and rest: "es_append_each evs s1 = (Ok ns1, s')" and ns: "ns = n # ns1"
      by (auto split: prod.splits result.splits)
    show ?case
      using 2(1) [OF ap [symmetric] refl rest] by (simp add: ns es_append_Ok [OF ap])
  qed simp
  then show "length ns = length evs"
    "st_events s' = st_events s @ map2 (\<lambda>n ev. \<lparr>se_sequence = n, se_event = ev\<rparr>) ns evs"
    "st_branches s' = st_branches s" "st_snapshots s' = st_snapshots s" by blast+
qed

lemma store_ok_append_each:
  assumes "es_append_each evs s = (Ok ns, s')" and "store_ok s" and "length (st_events s') < 2 ^ 64 - 1"
  shows "store_ok s'"
  using assms
proof (induction evs s arbitrary: ns s' rule: es_append_each.induct)
  case (1 s)
  then show ?case by simp
next
  case (2 ev evs s)
  from 2(2) obtain n s1 ns1 where ap: "es_append ev s = (Ok n, s1)"
    and rest: "es_append_each evs s1 = (Ok ns1, s')"
    by (auto split: prod.splits result.splits)
  have "length (st_events s1) < 2 ^ 64 - 1" using 2(4) es_append_each_Ok(2) [OF rest] by simp
  then have "store_ok s1" using 2(3) ap by (blast intro: store_ok_append)
  with 2(1) [OF ap [symmetric] refl] rest 2(4) show ?case by simp
qed

lemma es_append_batch_Ok:
  assumes "es_append_batch evs s = (Ok ns, s')"
  shows "es_append_each evs s = (Ok ns, s')"
  using assms by (auto simp: es_append_batch_def split: prod.splits result.splits)

lemma es_append_batch_Err: "es_append_batch evs s = (Err x, s') \<Longrightarrow> s' = s"
  by (auto simp: es_append_batch_def split: prod.splits result.splits)

section \<open>Every reachable store\<close>

text \<open>One operation on the store, whatever its arguments and its result.\<close>

inductive store_step :: "event_store \<Rightarrow> event_store \<Rightarrow> bool" where
  step_append: "es_append ev s = (r, s') \<Longrightarrow> store_step s s'"
| step_batch: "es_append_batch evs s = (r, s') \<Longrightarrow> store_step s s'"
| step_branch: "es_create_branch e parent n mode now s ids = (r, s', ids') \<Longrightarrow> store_step s s'"
| step_snapshot: "es_save_snapshot sn s = (r, s') \<Longrightarrow> store_step s s'"
| step_fork: "materialize_fork e b child s ids = (r, s', ids') \<Longrightarrow> store_step s s'"
| step_continue: "persist_fork_continuation f t s = (r, s') \<Longrightarrow> store_step s s'"

inductive store_reachable :: "event_store \<Rightarrow> bool" where
  reach_new: "store_reachable event_store_new"
| reach_step: "store_reachable s \<Longrightarrow> store_step s s' \<Longrightarrow> store_reachable s'"

lemma fork_appends:
  assumes "materialize_fork e b child s ids = (r, s', ids')"
  shows "\<exists>evs q. es_append_batch evs s = (q, s') \<or> s' = s"
proof -
  have "s' = s \<or> (\<exists>evs q. es_append_batch evs s = (q, s'))"
    using assms unfolding materialize_fork_def Let_def
    by (auto split: if_splits option.splits result.splits prod.splits)
  then show ?thesis by blast
qed

lemma continuation_appends:
  assumes "persist_fork_continuation f t s = (r, s')"
  shows "\<exists>evs q. es_append_batch evs s = (q, s') \<or> s' = s"
proof -
  have "s' = s \<or> es_append_batch (drop (length (trace_events (fk_prefix f))) (trace_events t)) s = (r, s')"
    using assms unfolding persist_fork_continuation_def Let_def
    by (auto split: if_splits result.splits prod.splits)
  then show ?thesis by blast
qed

lemma batch_grows: "es_append_batch evs s = (r, s') \<Longrightarrow> \<exists>later. st_events s' = st_events s @ later"
  by (cases r) (auto dest: es_append_batch_Ok es_append_each_Ok(2) es_append_batch_Err)

lemma store_step_grows:
  assumes "store_step s s'"
  shows "\<exists>later. st_events s' = st_events s @ later"
  using assms
proof cases
  case (step_append ev r)
  then show ?thesis by (cases r) (auto dest: es_append_Ok es_append_Err)
next
  case (step_branch e parent n mode now ids r ids')
  then show ?thesis
    by (auto simp: es_create_branch_def Let_def split: result.splits prod.splits)
next
  case (step_snapshot sn r)
  then show ?thesis by (auto simp: es_save_snapshot_def split: result.splits)
qed (auto dest: batch_grows fork_appends continuation_appends)

lemma store_ok_batch:
  assumes "es_append_batch evs s = (r, s')" and "store_ok s" and "length (st_events s') < 2 ^ 64 - 1"
  shows "store_ok s'"
  using assms
  by (cases r) (auto dest: es_append_batch_Ok es_append_batch_Err intro: store_ok_append_each)

lemma store_ok_step:
  assumes "store_step s s'" and "store_ok s" and "length (st_events s') < 2 ^ 64 - 1"
  shows "store_ok s'"
  using assms(1)
proof cases
  case (step_append ev r)
  with assms show ?thesis by (cases r) (auto dest: es_append_Err intro: store_ok_append)
next
  case (step_branch e parent n mode now ids r ids')
  with assms(2) show ?thesis
    by (auto simp: es_create_branch_def Let_def store_ok_def log_ok_def snapshots_valid_def
        branches_valid_def split: result.splits prod.splits if_splits)
next
  case (step_snapshot sn r)
  with assms(2) show ?thesis
    by (auto simp: es_save_snapshot_def store_ok_def log_ok_def snapshots_valid_def
        branches_valid_def split: result.splits if_splits)
next
  case (step_batch evs r)
  then show ?thesis using assms by (auto intro: store_ok_batch)
next
  case (step_fork e b child ids r ids')
  from fork_appends [OF this] show ?thesis using assms by (auto intro: store_ok_batch)
next
  case (step_continue f t r)
  from continuation_appends [OF this] show ?thesis using assms by (auto intro: store_ok_batch)
qed

lemma store_reachable_ok:
  assumes "store_reachable s" and "length (st_events s) < 2 ^ 64 - 1"
  shows "store_ok s"
  using assms
proof (induction rule: store_reachable.induct)
  case reach_new
  show ?case by (rule store_ok_new)
next
  case (reach_step s s')
  then have "length (st_events s) \<le> length (st_events s')" using store_step_grows by fastforce
  with reach_step show ?case by (auto intro: store_ok_step)
qed

section \<open>Snapshots and the events after them\<close>

lemma split_at_sequence:
  assumes "sorted_wrt (<) (map se_sequence evs)"
  shows "filter (\<lambda>e. event_run (se_event e) = r) evs =
    snapshot_prefix evs r n @ filter (\<lambda>e. event_run (se_event e) = r \<and> n < se_sequence e) evs"
  using assms
proof (induction evs)
  case Nil
  then show ?case by (simp add: snapshot_prefix_def)
next
  case (Cons e evs)
  show ?case
  proof (cases "se_sequence e \<le> n")
    case True
    then have "\<not> n < se_sequence e" by (simp add: not_less)
    with True Cons show ?thesis by (simp add: snapshot_prefix_def)
  next
    case False
    then have "n < se_sequence f" if "f \<in> set evs" for f
      using Cons.prems that by (auto intro: less_trans simp: not_le)
    then have "snapshot_prefix evs r n = []"
      by (auto simp: snapshot_prefix_def filter_empty_conv not_le)
    moreover have "n < se_sequence e" using False by simp
    ultimately show ?thesis using False Cons by (simp add: snapshot_prefix_def)
  qed
qed

text \<open>The counter that \<open>reconstruct\<close> writes is the one the projection already has.\<close>

lemma replay_counts:
  assumes "try_fold apply_event (runtime_state_new r) evs = Ok st" and "length evs < 2 ^ 64"
  shows "st\<lparr>rs_applied := of_nat (length evs)\<rparr> = st"
  using run_projects_fold [OF assms] by (cases st) (simp add: run_projects_def)

lemma es_reconstruct_fold:
  assumes ne: "es_events r s \<noteq> []" and short: "length (es_events r s) < 2 ^ 64"
  shows "es_reconstruct r s = try_fold apply_event (runtime_state_new r) (map se_event (es_events r s))"
proof (cases "try_fold apply_event (runtime_state_new r) (map se_event (es_events r s))")
  case (Ok st)
  from replay_counts [OF this] ne short Ok show ?thesis by (simp add: es_reconstruct_def)
next
  case (Err e)
  with ne show ?thesis by (simp add: es_reconstruct_def)
qed

lemma es_events_short:
  assumes "log_ok s"
  shows "length (es_events r s) < 2 ^ 64"
proof -
  have "length (es_events r s) \<le> length (st_events s)" by (simp add: es_events_def)
  also have "\<dots> < 2 ^ 64 - 1" using assms by (simp add: log_ok_def)
  finally show ?thesis by simp
qed

lemma valid_snapshot_resumes:
  assumes ok: "log_ok s" and valid: "validate_snapshot (st_events s) sn = Ok ()"
  shows "es_reconstruct (sn_run sn) s =
    try_fold apply_event (sn_state sn) (map se_event (es_events_since (sn_run sn) (sn_at sn) s))"
proof -
  let ?P = "snapshot_prefix (st_events s) (sn_run sn) (sn_at sn)"
  have ne: "?P \<noteq> []" and state: "try_fold apply_event (runtime_state_new (sn_run sn)) (map se_event ?P) = Ok (sn_state sn)"
    using valid by (simp_all add: validate_snapshot_Ok Let_def)
  have split: "es_events (sn_run sn) s = ?P @ es_events_since (sn_run sn) (sn_at sn) s"
    unfolding es_events_def es_events_since_def by (rule split_at_sequence [OF log_ok_ascending [OF ok]])
  with ne have "es_events (sn_run sn) s \<noteq> []" by simp
  from es_reconstruct_fold [OF this es_events_short [OF ok]] show ?thesis
    by (simp add: split try_fold_append state)
qed

text \<open>What is loaded is the latest snapshot of the run within the limit.\<close>

definition snapshot_limit :: "sequence option \<Rightarrow> sequence" where
  "snapshot_limit at_or_before = (case at_or_before of None \<Rightarrow> - 1 | Some n \<Rightarrow> n)"

lemma run_key_range: "(r :: u64, 0 :: u64) \<le> k \<and> k \<le> (r, n) \<longleftrightarrow> fst k = r \<and> snd k \<le> n"
  by (cases k) auto

lemma sorted_last_greatest:
  "sorted_wrt (<) (map f xs) \<Longrightarrow> x \<in> set xs \<Longrightarrow> (f x :: 'k::linorder) \<le> f (last xs)"
  by (induction xs rule: rev_induct) (auto simp: sorted_wrt_append intro: less_imp_le)

lemma es_load_snapshot_Some:
  assumes "es_load_snapshot r limit s = Some sn"
  shows "\<exists>n. bm_get (st_snapshots s) (r, n) = Some sn \<and> n \<le> snapshot_limit limit \<and>
    (\<forall>m x. bm_get (st_snapshots s) (r, m) = Some x \<longrightarrow> m \<le> snapshot_limit limit \<longrightarrow> m \<le> n)"
proof -
  let ?es = "filter (\<lambda>(k, _). (r, 0) \<le> k \<and> k \<le> (r, snapshot_limit limit)) (bm_entries (st_snapshots s))"
  have ne: "?es \<noteq> []" and sn: "snd (last ?es) = sn"
    using assms by (auto simp: es_load_snapshot_def Let_def snapshot_limit_def split: if_splits)
  have inside: "x \<in> set ?es \<longleftrightarrow> bm_get (st_snapshots s) (fst x) = Some (snd x) \<and>
      fst (fst x) = r \<and> snd (fst x) \<le> snapshot_limit limit" for x
    unfolding set_filter mem_Collect_eq split_beta run_key_range
    using bm_entries_get [of "fst x" "snd x" "st_snapshots s"] by simp
  have sorted: "sorted_wrt (<) (map fst ?es)"
    using bm_entries_ascending [of "st_snapshots s"] by (simp add: sorted_wrt_map sorted_wrt_filter)
  obtain k v where kv: "last ?es = (k, v)" by (cases "last ?es")
  have "(k, v) \<in> set ?es" using last_in_set [OF ne] unfolding kv .
  then have "bm_get (st_snapshots s) k = Some v" "fst k = r" "snd k \<le> snapshot_limit limit"
    unfolding inside by simp_all
  moreover have "v = sn" using sn kv by simp
  ultimately have l: "bm_get (st_snapshots s) (r, snd k) = Some sn" "snd k \<le> snapshot_limit limit"
    "k = (r, snd k)" by (auto simp: prod_eq_iff)
  have "m \<le> snd k"
    if "bm_get (st_snapshots s) (r, m) = Some x" and "m \<le> snapshot_limit limit" for m x
  proof -
    have "((r, m), x) \<in> set ?es" unfolding inside using that by simp
    from sorted_last_greatest [OF sorted this] have "(r, m) \<le> k" by (simp add: kv)
    then show ?thesis by (subst (asm) l(3)) simp
  qed
  with l(1,2) show ?thesis by blast
qed

lemma es_load_snapshot_None:
  assumes "es_load_snapshot r limit s = None" and "n \<le> snapshot_limit limit"
  shows "bm_get (st_snapshots s) (r, n) = None"
proof (rule ccontr)
  assume "bm_get (st_snapshots s) (r, n) \<noteq> None"
  then obtain x where "((r, n), x) \<in> set (bm_entries (st_snapshots s))"
    by (auto simp: bm_entries_get)
  moreover have "(r, 0) \<le> (r, n) \<and> (r, n) \<le> (r, snapshot_limit limit)"
    using assms(2) unfolding run_key_range by simp
  ultimately show False
    using assms(1) by (auto simp: es_load_snapshot_def snapshot_limit_def Let_def filter_empty_conv split: if_splits)
qed

text \<open>The snapshot of the whole run is valid.\<close>

lemma es_snapshot_valid:
  assumes "es_snapshot r s = Ok sn" and "log_ok s"
  shows "validate_snapshot (st_events s) sn = Ok ()" "sn_run sn = r"
    "\<forall>e \<in> set (es_events r s). se_sequence e \<le> sn_at sn"
proof -
  have ne: "es_events r s \<noteq> []" and state: "es_reconstruct r s = Ok (sn_state sn)"
    and run: "sn_run sn = r" and at: "sn_at sn = se_sequence (last (es_events r s))"
    using assms(1) by (auto simp: es_snapshot_def Let_def split: if_splits)
  show "sn_run sn = r" by (rule run)
  have "sorted_wrt (<) (map se_sequence (es_events r s))"
    using log_ok_ascending [OF assms(2)] by (simp add: es_events_def sorted_wrt_map sorted_wrt_filter)
  then show le: "\<forall>e \<in> set (es_events r s). se_sequence e \<le> sn_at sn"
    unfolding at using sorted_last_greatest [where f = se_sequence] by blast
  then have "snapshot_prefix (st_events s) r (sn_at sn) = es_events r s"
    unfolding snapshot_prefix_def es_events_def by (auto intro: filter_cong)
  moreover have fold: "try_fold apply_event (runtime_state_new r) (map se_event (es_events r s)) = Ok (sn_state sn)"
    using es_reconstruct_fold [OF ne es_events_short [OF assms(2)]] state by simp
  moreover have "run_projects r (map se_event (es_events r s)) (sn_state sn)"
    using fold es_events_short [OF assms(2)] by (intro run_projects_fold) simp_all
  ultimately show "validate_snapshot (st_events s) sn = Ok ()"
    using ne at run by (simp add: validate_snapshot_Ok Let_def run_projects_def)
qed

section \<open>A fork is the parent under another name\<close>

text \<open>The state of the copied events is the state of the parent, renamed.\<close>

definition rename_run :: "run_id \<Rightarrow> runtime_state \<Rightarrow> runtime_state" where
  "rename_run c s = s\<lparr>rs_run := c, rs_tasks := bm_map_values (\<lambda>t. t\<lparr>ts_run := c\<rparr>) (rs_tasks s)\<rparr>"

lemma rename_run_fields [simp]:
  "rs_run (rename_run c s) = c" "rs_applied (rename_run c s) = rs_applied s"
  "rs_status (rename_run c s) = rs_status s" "rs_agents (rename_run c s) = rs_agents s"
  "rs_artifacts (rename_run c s) = rs_artifacts s"
  by (simp_all add: rename_run_def)

lemma bm_map_values_insert: "bm_map_values f (bm_insert k v m) = bm_insert k (f v) (bm_map_values f m)"
  by (rule bm_ext) simp

lemma rename_run_new: "rename_run c (runtime_state_new r) = runtime_state_new c"
proof -
  have "bm_map_values f bm_empty = bm_empty" for f :: "task_state \<Rightarrow> task_state" by (rule bm_ext) simp
  then show ?thesis by (simp add: rename_run_def runtime_state_new_def)
qed

lemma remap_kind_created [simp]: "is_run_created (remap_kind c k) = is_run_created k"
  by (cases k) (simp_all add: split_beta)

lemma remap_kind_end [simp]: "is_run_end (remap_kind c k) = is_run_end k"
  by (cases k) (simp_all add: is_run_end_def split_beta)

lemma apply_kind_rename:
  assumes "apply_kind k s = Ok s'"
  shows "apply_kind (remap_kind c k) (rename_run c s) = Ok (rename_run c s')"
proof (cases k)
  case (TaskCreated t r title)
  with assms show ?thesis
    by (auto simp: create_task_def refuse_event_def rename_run_def bm_contains_key_def bm_map_values_insert
        split: if_splits)
qed (use assms in \<open>auto simp: apply_kind_defs rename_run_def split_beta bm_contains_key_def split: if_splits\<close>)

definition remapped :: "run_id \<Rightarrow> event \<Rightarrow> event \<Rightarrow> bool" where
  "remapped c ev ev' \<longleftrightarrow> event_run ev' = c \<and> occurred_at_ms ev' = occurred_at_ms ev \<and>
     event_knd ev' = remap_kind c (event_knd ev)"

lemma apply_event_rename:
  assumes "apply_event s ev = Ok s'" and "remapped c ev ev'"
  shows "apply_event (rename_run c s) ev' = Ok (rename_run c s')"
  using assms(1)
proof (rule apply_event_Ok)
  fix s1
  assume "rs_applied s = 0 \<longrightarrow> is_run_created (event_knd ev)"
    and "0 < rs_applied s \<longrightarrow> \<not> run_ended (rs_status s)" and ap: "apply_kind (event_knd ev) s = Ok s1"
    and s': "s' = s1\<lparr>rs_applied := saturating_add (rs_applied s) 1\<rparr>"
  moreover have "rename_run c (s1\<lparr>rs_applied := n\<rparr>) = (rename_run c s1)\<lparr>rs_applied := n\<rparr>" for n
    by (simp add: rename_run_def)
  ultimately show ?thesis
    using assms(2) apply_kind_rename [OF ap, of c] apply_kind_frame(2) [OF ap]
    by (auto simp: apply_event_def remapped_def)
qed

lemma fold_rename:
  assumes "list_all2 (remapped c) evs evs'" and "try_fold apply_event s evs = Ok s'"
  shows "try_fold apply_event (rename_run c s) evs' = Ok (rename_run c s')"
  using assms
proof (induction arbitrary: s rule: list_all2_induct)
  case Nil
  then show ?case by simp
next
  case (Cons ev evs ev' evs')
  from Cons.prems obtain s1 where "apply_event s ev = Ok s1" and "try_fold apply_event s1 evs = Ok s'"
    by auto
  with Cons.IH Cons.hyps(1) show ?case by (simp add: apply_event_rename)
qed

lemma remap_events_Ok:
  assumes "remap_events e c evs ids = (Ok evs', ids')"
  shows "list_all2 (remapped c) evs evs'"
  using assms
proof (induction e c evs ids arbitrary: evs' ids' rule: remap_events.induct)
  case (2 e c ev evs ids)
  from 2(2) obtain ev' ids1 evs1 where ev': "remap_event_for_run e c ev ids = (Ok ev', ids1)"
    and rest: "remap_events e c evs ids1 = (Ok evs1, ids')" and evs': "evs' = ev' # evs1"
    by (auto split: prod.splits result.splits)
  have "remapped c ev ev'"
    using ev' by (auto simp: remap_event_for_run_def remapped_def split: prod.splits result.splits)
  with 2(1) [OF ev' [symmetric] refl rest] show ?case by (simp add: evs')
qed simp

lemma foldl_trace_record: "trace_events (foldl (\<lambda>t ev. trace_record ev t) t evs) = trace_events t @ evs"
  by (induction evs arbitrary: t) (simp_all add: trace_record_def)

lemma materialize_fork_Ok:
  assumes "materialize_fork e b child s ids = (Ok f, s', ids')"
  obtains branch prefix ns where "bm_get (st_branches s) b = Some branch" and "br_parent branch \<noteq> child"
    and "es_events child s = []"
    and "list_all2 (remapped child) (map se_event (snapshot_prefix (st_events s) (br_parent branch) (br_fork branch))) prefix"
    and "br_mode branch \<in> {ForkLive, ReexecuteLive} \<longrightarrow> \<not> list_ex (\<lambda>ev. is_run_end (event_knd ev)) prefix"
    and "es_append_batch prefix s = (Ok ns, s')"
    and "f = \<lparr>fk_branch = b, fk_parent = br_parent branch, fk_child = child, fk_sequence = br_fork branch,
      fk_mode = br_mode branch, fk_copied = of_nat (length ns), fk_sequences = ns,
      fk_prefix = \<lparr>trace_events = prefix\<rparr>\<rparr>"
proof -
  have prefix: "filter (\<lambda>v. se_sequence v \<le> n) (es_events r s) = snapshot_prefix (st_events s) r n" for n r
    by (simp add: es_events_def snapshot_prefix_def conj_commute)
  have trace: "foldl (\<lambda>t ev. trace_record ev t) \<lparr>trace_events = []\<rparr> evs = \<lparr>trace_events = evs\<rparr>" for evs
    using foldl_trace_record [of "\<lparr>trace_events = []\<rparr>" evs] by (metis append_Nil event_trace.cases event_trace.simps(1))
  have child: "es_events child s = []"
    using assms by (simp add: materialize_fork_def split: if_splits)
  obtain branch where branch: "es_branch b s = Some branch"
    using assms child by (cases "es_branch b s") (simp_all add: materialize_fork_def)
  have other: "br_parent branch \<noteq> child"
    using assms child branch by (simp add: materialize_fork_def split: if_splits)
  have fork: "is_ok (validate_fork_sequence (es_events (br_parent branch) s) (br_parent branch) (br_fork branch))"
    using assms child branch other
    by (cases "validate_fork_sequence (es_events (br_parent branch) s) (br_parent branch) (br_fork branch)")
      (simp_all add: materialize_fork_def)
  let ?P = "map se_event (snapshot_prefix (st_events s) (br_parent branch) (br_fork branch))"
  obtain prefix ids1 where remap: "remap_events e child ?P ids = (Ok prefix, ids1)"
    using assms child branch other fork
    by (cases "remap_events e child ?P ids"; cases "fst (remap_events e child ?P ids)")
      (auto simp: materialize_fork_def prefix is_ok_iff)
  have live: "br_mode branch \<in> {ForkLive, ReexecuteLive} \<longrightarrow> \<not> list_ex (\<lambda>ev. is_run_end (event_knd ev)) prefix"
    using assms child branch other fork
    by (auto simp: materialize_fork_def prefix remap is_ok_iff simp del: list_ex_iff)
  obtain ns where batch: "es_append_batch prefix s = (Ok ns, s')"
    and f: "f = \<lparr>fk_branch = b, fk_parent = br_parent branch, fk_child = child, fk_sequence = br_fork branch,
      fk_mode = br_mode branch, fk_copied = of_nat (length ns), fk_sequences = ns,
      fk_prefix = \<lparr>trace_events = prefix\<rparr>\<rparr>"
    using assms child branch other fork live
    by (cases "es_append_batch prefix s"; cases "fst (es_append_batch prefix s)")
      (auto simp: materialize_fork_def prefix trace remap is_ok_iff simp del: list_ex_iff split: if_splits)
  from that [OF branch [unfolded es_branch_def] other child remap_events_Ok [OF remap] live batch f]
  show ?thesis .
qed

text \<open>The events of one run after a batch whose events all belong to one run.\<close>

lemma es_events_batch:
  assumes ap: "es_append_batch evs s = (Ok ns, s')" and run: "\<forall>ev \<in> set evs. event_run ev = c"
  shows "map se_event (es_events c s') = map se_event (es_events c s) @ evs"
    "r \<noteq> c \<Longrightarrow> es_events r s' = es_events r s"
proof -
  let ?new = "map2 (\<lambda>n ev. \<lparr>se_sequence = n, se_event = ev\<rparr>) ns evs"
  have each: "es_append_each evs s = (Ok ns, s')" by (rule es_append_batch_Ok [OF ap])
  have len: "length ns = length evs" and st: "st_events s' = st_events s @ ?new"
    using es_append_each_Ok [OF each] by simp_all
  have new: "map se_event ?new = evs"
    using len by (intro nth_equalityI) simp_all
  have runs: "event_run (se_event x) = c" if "x \<in> set ?new" for x
  proof -
    from that have "se_event x \<in> set (map se_event ?new)" unfolding set_map by (rule imageI)
    with run show ?thesis unfolding new by blast
  qed
  then have "filter (\<lambda>e. event_run (se_event e) = c) ?new = ?new" by (simp add: filter_id_conv)
  with st new show "map se_event (es_events c s') = map se_event (es_events c s) @ evs"
    by (simp add: es_events_def)
  assume "r \<noteq> c"
  with runs have "filter (\<lambda>e. event_run (se_event e) = r) ?new = []"
    by (auto simp: filter_empty_conv)
  with st show "es_events r s' = es_events r s" by (simp add: es_events_def)
qed

lemma list_all2_no_end:
  "list_all2 (remapped c) evs evs' \<Longrightarrow>
     list_ex (\<lambda>ev. is_run_end (event_knd ev)) evs' = list_ex (\<lambda>ev. is_run_end (event_knd ev)) evs"
  by (induction rule: list_all2_induct) (simp_all add: remapped_def)

lemma no_end_active:
  assumes "run_projects r evs s" and "\<not> list_ex (\<lambda>ev. is_run_end (event_knd ev)) evs"
  shows "\<not> run_ended (rs_status s)"
  using assms by (auto simp: run_projects_def list_ex_iff)

lemma map_se_event_length: "map se_event xs = ys \<Longrightarrow> length xs = length ys"
  by (metis length_map)

text \<open>The replay of a run depends only on its events, not on their numbers.\<close>

lemma es_reconstruct_events:
  assumes "map se_event (es_events r s) = evs" and "evs \<noteq> []" and "length evs < 2 ^ 64"
  shows "es_reconstruct r s = try_fold apply_event (runtime_state_new r) evs"
  using assms es_reconstruct_fold [of r s] map_se_event_length [OF assms(1)] by auto

section \<open>Properties\<close>

text \<open>
  C36: the store is a log. Every operation, whatever it is given, keeps all events where they are and
  adds at the end; in every reachable store (with fewer than \<open>u64::MAX\<close> events) the events are
  numbered from one without gaps, their identifiers are distinct, every saved snapshot is the replay
  of the events up to its number, and every branch forks at an event of its parent.
\<close>

theorem event_store_invariant:
  assumes "store_reachable s" and "store_step s s'" and "length (st_events s') < 2 ^ 64 - 1"
  shows "store_ok s' \<and> (\<exists>later. st_events s' = st_events s @ later)"
  using assms store_reachable_ok [OF reach_step] store_step_grows by blast

text \<open>
  C7: a snapshot replaces the events before it. The snapshot that the store takes of a run can be
  saved and is the one loaded afterwards. Whatever snapshot is loaded under a limit is the latest
  one of the run within it, and replaying the events after it gives the result of replaying the
  whole run, errors included.
\<close>

theorem snapshot_resumes:
  assumes "store_reachable s" and "length (st_events s) < 2 ^ 64 - 1"
  shows "(es_snapshot r s = Ok sn \<longrightarrow> (\<exists>s'. es_save_snapshot sn s = (Ok (), s') \<and>
       es_load_snapshot r None s' = Some sn)) \<and>
     (es_load_snapshot r limit s = Some sn \<longrightarrow> sn_run sn = r \<and> sn_at sn \<le> snapshot_limit limit \<and>
       (\<forall>m x. bm_get (st_snapshots s) (r, m) = Some x \<longrightarrow> m \<le> snapshot_limit limit \<longrightarrow> m \<le> sn_at sn) \<and>
       es_reconstruct r s = try_fold apply_event (sn_state sn) (map se_event (es_events_since r (sn_at sn) s)))"
proof (intro conjI impI)
  have ok: "store_ok s" using assms by (rule store_reachable_ok)
  then have log: "log_ok s" by (simp add: store_ok_def)
  {
    assume "es_snapshot r s = Ok sn"
    note sn = es_snapshot_valid [OF this log]
    let ?s = "s\<lparr>st_snapshots := bm_insert (r, sn_at sn) sn (st_snapshots s)\<rparr>"
    have save: "es_save_snapshot sn s = (Ok (), ?s)" by (simp add: es_save_snapshot_def sn)
    have below: "m \<le> sn_at sn" if "bm_get (st_snapshots s) (r, m) = Some x" for m x
    proof -
      have "validate_snapshot (st_events s) x = Ok ()" and x: "sn_run x = r" "sn_at x = m"
        using ok that by (auto simp: store_ok_def snapshots_valid_def)
      then have "snapshot_prefix (st_events s) r m \<noteq> []" and at: "se_sequence (last (snapshot_prefix (st_events s) r m)) = m"
        by (simp_all add: validate_snapshot_Ok Let_def)
      then have "last (snapshot_prefix (st_events s) r m) \<in> set (es_events r s)"
        using last_in_set by (fastforce simp: snapshot_prefix_def es_events_def)
      with sn(3) at show ?thesis by metis
    qed
    have all: "sn_at sn \<le> snapshot_limit None" by (simp add: snapshot_limit_def)
    have "es_load_snapshot r None ?s = Some sn"
    proof (cases "es_load_snapshot r None ?s")
      case None
      from es_load_snapshot_None [OF this all] show ?thesis by simp
    next
      case (Some x)
      from es_load_snapshot_Some [OF this] obtain n where n: "bm_get (st_snapshots ?s) (r, n) = Some x"
        and greatest: "\<forall>m x. bm_get (st_snapshots ?s) (r, m) = Some x \<longrightarrow> m \<le> snapshot_limit None \<longrightarrow> m \<le> n"
        by blast
      have "sn_at sn \<le> n" using greatest all by simp
      moreover have "n \<le> sn_at sn" using n below by (auto split: if_splits)
      ultimately show ?thesis using Some n by simp
    qed
    with save show "\<exists>s'. es_save_snapshot sn s = (Ok (), s') \<and> es_load_snapshot r None s' = Some sn" by blast
  }
  assume "es_load_snapshot r limit s = Some sn"
  from es_load_snapshot_Some [OF this] obtain n where n: "bm_get (st_snapshots s) (r, n) = Some sn"
    and le: "n \<le> snapshot_limit limit"
    and greatest: "\<forall>m x. bm_get (st_snapshots s) (r, m) = Some x \<longrightarrow> m \<le> snapshot_limit limit \<longrightarrow> m \<le> n" by blast
  from n ok have sn: "sn_run sn = r" "sn_at sn = n" and valid: "validate_snapshot (st_events s) sn = Ok ()"
    by (auto simp: store_ok_def snapshots_valid_def)
  show "sn_run sn = r" by (rule sn)
  show "sn_at sn \<le> snapshot_limit limit" using le sn by simp
  show "\<forall>m x. bm_get (st_snapshots s) (r, m) = Some x \<longrightarrow> m \<le> snapshot_limit limit \<longrightarrow> m \<le> sn_at sn"
    using greatest sn by simp
  show "es_reconstruct r s = try_fold apply_event (sn_state sn) (map se_event (es_events_since r (sn_at sn) s))"
    using valid_snapshot_resumes [OF log valid] sn by simp
qed

text \<open>
  C6: a fork starts where its parent was. The child run holds exactly the events of the parent up to
  the fork, copied under the child's identifier, and no other run is touched. If those events replay,
  so does the child, and its state is that of the parent at the fork, renamed; a live fork starts
  from a run that has not ended.
\<close>

theorem fork_replays_parent:
  assumes "store_reachable s" and "materialize_fork e b child s ids = (Ok f, s', ids')"
    and "length (st_events s') < 2 ^ 64 - 1"
    and "forked = map se_event (snapshot_prefix (st_events s) (fk_parent f) (fk_sequence f))"
  shows "map se_event (es_events child s') = trace_events (fk_prefix f) \<and>
    list_all2 (remapped child) forked (trace_events (fk_prefix f)) \<and>
    (\<forall>r. r \<noteq> child \<longrightarrow> es_events r s' = es_events r s) \<and>
    (\<forall>st. try_fold apply_event (runtime_state_new (fk_parent f)) forked = Ok st \<longrightarrow>
       es_reconstruct child s' = Ok (rename_run child st) \<and>
       (fk_mode f \<in> {ForkLive, ReexecuteLive} \<longrightarrow> \<not> run_ended (rs_status st)))"
proof -
  obtain branch prefix ns where branch: "bm_get (st_branches s) b = Some branch"
    and fresh: "es_events child s = []"
    and copied: "list_all2 (remapped child) (map se_event (snapshot_prefix (st_events s) (br_parent branch) (br_fork branch))) prefix"
    and live: "br_mode branch \<in> {ForkLive, ReexecuteLive} \<longrightarrow> \<not> list_ex (\<lambda>ev. is_run_end (event_knd ev)) prefix"
    and batch: "es_append_batch prefix s = (Ok ns, s')"
    and f: "f = \<lparr>fk_branch = b, fk_parent = br_parent branch, fk_child = child, fk_sequence = br_fork branch,
      fk_mode = br_mode branch, fk_copied = of_nat (length ns), fk_sequences = ns,
      fk_prefix = \<lparr>trace_events = prefix\<rparr>\<rparr>"
    using assms(2) by (rule materialize_fork_Ok) blast
  have same: "list_all2 (remapped child) forked prefix" using copied by (simp add: assms(4) f)
  have log': "log_ok s'"
    using store_reachable_ok [OF reach_step [OF assms(1) step_fork [OF assms(2)]] assms(3)]
    by (simp add: store_ok_def)
  have grows: "length (st_events s) < 2 ^ 64 - 1"
    using batch_grows [OF batch] assms(3) by auto
  then have ok: "store_ok s" by (rule store_reachable_ok [OF assms(1)])
  with branch obtain x where "x \<in> set (st_events s)" "event_run (se_event x) = br_parent branch"
    "se_sequence x = br_fork branch"
    by (auto simp: store_ok_def branches_valid_def validate_fork_sequence_Ok)
  then have "x \<in> set (snapshot_prefix (st_events s) (br_parent branch) (br_fork branch))"
    by (simp add: snapshot_prefix_def)
  then have "forked \<noteq> []" by (auto simp: assms(4) f)
  then have prefix_ne: "prefix \<noteq> []" using same by auto
  have "\<forall>ev \<in> set prefix. event_run ev = child"
    using same by (auto simp: list_all2_conv_all_nth remapped_def in_set_conv_nth)
  note events = es_events_batch [OF batch this]
  have child: "map se_event (es_events child s') = prefix" using events(1) fresh by simp
  have short: "length prefix < 2 ^ 64"
    using es_events_short [OF log', of child] by (simp flip: child)
  have "es_reconstruct child s' = Ok (rename_run child st) \<and>
      (fk_mode f \<in> {ForkLive, ReexecuteLive} \<longrightarrow> \<not> run_ended (rs_status st))"
    if st: "try_fold apply_event (runtime_state_new (fk_parent f)) forked = Ok st" for st
  proof
    show "es_reconstruct child s' = Ok (rename_run child st)"
      using es_reconstruct_events [OF child prefix_ne short] fold_rename [OF same st]
      by (simp add: rename_run_new)
    have "run_projects (fk_parent f) forked st"
      using st short list_all2_lengthD [OF same] by (intro run_projects_fold) simp_all
    moreover have "list_ex (\<lambda>ev. is_run_end (event_knd ev)) forked = list_ex (\<lambda>ev. is_run_end (event_knd ev)) prefix"
      using list_all2_no_end [OF same] by simp
    ultimately show "fk_mode f \<in> {ForkLive, ReexecuteLive} \<longrightarrow> \<not> run_ended (rs_status st)"
      using live no_end_active by (auto simp: f simp del: list_ex_iff)
  qed
  with child same events(2) show ?thesis by (simp add: f)
qed

lemma persist_Ok:
  assumes "persist_fork_continuation f t s = (Ok ns, s')"
  defines "prefix \<equiv> trace_events (fk_prefix f)"
  defines "continuation \<equiv> drop (length prefix) (trace_events t)"
  shows "trace_events t = prefix @ continuation" "continuation \<noteq> []"
    "\<forall>ev \<in> set continuation. event_run ev = fk_child f"
    "map se_event (take (length prefix) (es_events (fk_child f) s)) = prefix"
    "es_append_batch continuation s = (Ok ns, s')"
    "\<exists>ms v1 ks v2. es_append_batch prefix event_store_new = (Ok ms, v1) \<and>
       es_append_batch continuation v1 = (Ok ks, v2) \<and> is_ok (es_reconstruct (fk_child f) v2)"
proof -
  have take: "take (length prefix) (trace_events t) = prefix"
    using assms(1) by (auto simp: persist_fork_continuation_def Let_def refuse_event_def prefix_def split: if_splits)
  then show "trace_events t = prefix @ continuation"
    unfolding continuation_def by (metis append_take_drop_id)
  show "continuation \<noteq> []"
    using assms(1) unfolding continuation_def prefix_def
    by (auto simp: persist_fork_continuation_def Let_def refuse_event_def split: if_splits)
  show "\<forall>ev \<in> set continuation. event_run ev = fk_child f"
    using assms(1) unfolding continuation_def prefix_def
    by (auto simp: persist_fork_continuation_def Let_def refuse_event_def list_ex_iff split: if_splits)
  show "map se_event (take (length prefix) (es_events (fk_child f) s)) = prefix"
    using assms(1) unfolding prefix_def
    by (auto simp: persist_fork_continuation_def Let_def refuse_event_def split: if_splits)
  show "es_append_batch continuation s = (Ok ns, s')"
    "\<exists>ms v1 ks v2. es_append_batch prefix event_store_new = (Ok ms, v1) \<and>
       es_append_batch continuation v1 = (Ok ks, v2) \<and> is_ok (es_reconstruct (fk_child f) v2)"
    using assms(1) unfolding continuation_def prefix_def
    by (auto simp: persist_fork_continuation_def Let_def refuse_event_def is_ok_iff
        split: if_splits prod.splits result.splits)
qed

text \<open>
  a continuation of a fresh fork replays. If the child run holds nothing but the prefix the fork
  made, then after \<open>persist_fork_continuation\<close> its events are exactly those of the trace, they
  replay, and no other run is touched.
\<close>

theorem fork_continuation_replays:
  assumes "store_reachable s" and "persist_fork_continuation f t s = (Ok ns, s')"
    and "length (st_events s') < 2 ^ 64 - 1"
    and "map se_event (es_events (fk_child f) s) = trace_events (fk_prefix f)"
  shows "map se_event (es_events (fk_child f) s') = trace_events t \<and>
    is_ok (es_reconstruct (fk_child f) s') \<and> (\<forall>r. r \<noteq> fk_child f \<longrightarrow> es_events r s' = es_events r s)"
proof -
  let ?prefix = "trace_events (fk_prefix f)"
  let ?cont = "drop (length ?prefix) (trace_events t)"
  note ok = persist_Ok [OF assms(2)]
  note events = es_events_batch [OF ok(5,3)]
  have child: "map se_event (es_events (fk_child f) s') = trace_events t"
    using events(1) assms(4) ok(1) by simp
  have log': "log_ok s'"
    using store_reachable_ok [OF reach_step [OF assms(1) step_continue [OF assms(2)]] assms(3)]
    by (simp add: store_ok_def)
  have short: "length (trace_events t) < 2 ^ 64"
    using es_events_short [OF log', of "fk_child f"] by (simp flip: child)
  have ne: "trace_events t \<noteq> []" using ok(1,2) by auto
  obtain ms v1 ks v2 where v1: "es_append_batch ?prefix event_store_new = (Ok ms, v1)"
    and v2: "es_append_batch ?cont v1 = (Ok ks, v2)" and replay: "is_ok (es_reconstruct (fk_child f) v2)"
    using ok(6) by blast
  have "\<forall>ev \<in> set ?prefix. event_run ev = fk_child f"
    unfolding assms(4) [symmetric] by (auto simp: es_events_def)
  note first = es_events_batch(1) [OF v1 this]
  have "map se_event (es_events (fk_child f) v2) = trace_events t"
    using es_events_batch(1) [OF v2 ok(3)] first ok(1) by (simp add: es_events_def event_store_new_def)
  from es_reconstruct_events [OF this ne short] es_reconstruct_events [OF child ne short] replay
  have "is_ok (es_reconstruct (fk_child f) s')" by simp
  with child events(2) show ?thesis by blast
qed


section \<open>Concrete stores\<close>

definition run_event :: "event_id \<Rightarrow> event_kind \<Rightarrow> event" where
  "run_event i k = \<lparr>event_ident = i, event_run = 3, occurred_at_ms = 0, event_knd = k\<rparr>"

lemma run_event_fields [simp]:
  "event_ident (run_event i k) = i" "event_run (run_event i k) = 3" "event_knd (run_event i k) = k"
  by (simp_all add: run_event_def)

text \<open>A run that was created, and the same run after it ended.\<close>

definition begun :: event_store where
  "begun = snd (es_append_batch [run_event 1 (RunCreated 3)] event_store_new)"

definition ended :: event_store where
  "ended = snd (es_append_batch [run_event 2 (RunCompleted 3)] begun)"

definition example_fork :: forked_run where
  "example_fork = \<lparr>fk_branch = 9, fk_parent = 8, fk_child = 3, fk_sequence = 1, fk_mode = ForkLive,
     fk_copied = 1, fk_sequences = [1], fk_prefix = \<lparr>trace_events = [run_event 1 (RunCreated 3)]\<rparr>\<rparr>"

lemmas store_run_defs = es_append_batch_def es_append_def event_store_new_def saturating_add_def

lemma begun_eq: "begun = event_store_new\<lparr>st_next := 2, st_ids := {1},
    st_events := [\<lparr>se_sequence = 1, se_event = run_event 1 (RunCreated 3)\<rparr>]\<rparr>"
  by (simp add: begun_def store_run_defs)

lemma ended_eq: "ended = begun\<lparr>st_next := 3, st_ids := {2, 1},
    st_events := st_events begun @ [\<lparr>se_sequence = 2, se_event = run_event 2 (RunCompleted 3)\<rparr>]\<rparr>"
  by (simp add: ended_def begun_eq store_run_defs)

lemma begun_reachable: "store_reachable begun"
  unfolding begun_def by (rule reach_step [OF reach_new step_batch]) (rule prod.collapse [symmetric])

lemma ended_reachable: "store_reachable ended"
  unfolding ended_def by (rule reach_step [OF begun_reachable step_batch]) (rule prod.collapse [symmetric])

lemmas replay_defs = es_reconstruct_def es_events_def apply_event_def apply_kind_defs runtime_state_new_def
  run_ended_def Let_def

theorem event_store_invariant_witness:
  "store_ok ended \<and> (\<exists>later. st_events ended = st_events begun @ later)"
proof (rule event_store_invariant)
  show "store_reachable begun" by (rule begun_reachable)
  show "store_step begun ended"
    unfolding ended_def by (rule step_batch) (rule prod.collapse [symmetric])
  show "length (st_events ended) < 2 ^ 64 - 1" by (simp add: ended_eq begun_eq)
qed

theorem snapshot_resumes_witness:
  "\<exists>sn s'. es_save_snapshot sn ended = (Ok (), s') \<and> es_load_snapshot 3 None s' = Some sn"
proof -
  have "length (st_events ended) < 2 ^ 64 - 1" by (simp add: ended_eq begun_eq)
  moreover obtain sn where "es_snapshot 3 ended = Ok sn"
    by (simp add: es_snapshot_def ended_eq begun_eq event_store_new_def replay_defs saturating_add_def)
  ultimately show ?thesis using snapshot_resumes [OF ended_reachable, of 3 sn] by blast
qed

theorem fork_continuation_replays_witness:
  "\<exists>ns s'. persist_fork_continuation example_fork
      \<lparr>trace_events = [run_event 1 (RunCreated 3), run_event 2 (RunCompleted 3)]\<rparr> begun = (Ok ns, s') \<and>
     is_ok (es_reconstruct 3 s')"
proof -
  let ?t = "\<lparr>trace_events = [run_event 1 (RunCreated 3), run_event 2 (RunCompleted 3)]\<rparr>"
  have p: "persist_fork_continuation example_fork ?t begun = (Ok [2], ended)"
    by (simp add: persist_fork_continuation_def example_fork_def begun_eq ended_eq store_run_defs replay_defs)
  have "length (st_events ended) < 2 ^ 64 - 1" by (simp add: ended_eq begun_eq)
  moreover have "map se_event (es_events (fk_child example_fork) begun) = trace_events (fk_prefix example_fork)"
    by (simp add: example_fork_def begun_eq es_events_def)
  ultimately show ?thesis
    using fork_continuation_replays [OF begun_reachable p] p by (auto simp: example_fork_def)
qed


definition branched :: event_store where
  "branched = (let (_, s, _) = es_create_branch \<lparr>random_bytes = None, now_nanos = 0, now_secs = 0, process_number = 1\<rparr>
     3 1 ForkLive 0 begun \<lparr>id_prefix = Some 0, next_id = 7\<rparr> in s)"

lemma branched_eq: "branched = begun\<lparr>st_branches := bm_insert 7
    \<lparr>br_id = 7, br_parent = 3, br_fork = 1, br_mode = ForkLive, br_created_at_ms = 0\<rparr> bm_empty\<rparr>"
  by (simp add: branched_def es_create_branch_def begun_eq event_store_new_def validate_fork_sequence_def
      new_durable_id_def Let_def)

theorem fork_replays_parent_witness:
  "\<exists>f s' ids. materialize_fork \<lparr>random_bytes = None, now_nanos = 0, now_secs = 0, process_number = 1\<rparr>
      7 5 branched \<lparr>id_prefix = Some 0, next_id = 8\<rparr> = (Ok f, s', ids) \<and> is_ok (es_reconstruct 5 s')"
proof -
  let ?e = "\<lparr>random_bytes = None, now_nanos = 0, now_secs = 0, process_number = 1\<rparr>"
  obtain r i where "es_create_branch ?e 3 1 ForkLive 0 begun \<lparr>id_prefix = Some 0, next_id = 7\<rparr> = (r, branched, i)"
    by (simp add: branched_def split_beta prod_eq_iff)
  then have "store_step begun branched" by (rule step_branch)
  with begun_reachable have reach: "store_reachable branched" by (rule reach_step)
  obtain f s' ids where m: "materialize_fork ?e 7 5 branched \<lparr>id_prefix = Some 0, next_id = 8\<rparr> = (Ok f, s', ids)"
    and len: "length (st_events s') = 2" and f: "fk_parent f = 3" "fk_sequence f = 1"
    by (simp add: materialize_fork_def branched_eq begun_eq store_run_defs es_events_def es_branch_def
        validate_fork_sequence_def remap_event_for_run_def new_durable_id_def Let_def is_run_end_def)
  have "length (st_events s') < 2 ^ 64 - 1" by (simp add: len)
  moreover obtain st where "try_fold apply_event (runtime_state_new 3)
      (map se_event (snapshot_prefix (st_events branched) 3 1)) = Ok st"
    by (simp add: branched_eq begun_eq event_store_new_def snapshot_prefix_def replay_defs)
  ultimately show ?thesis
    using fork_replays_parent [OF reach m] m f by auto
qed

end
