(* ===== verification/Event_Codec.thy ===== *)
theory Event_Codec
  imports Wire
begin

text \<open>
  The payload of an event in the durable stores (\<open>encode_event\<close> and \<open>decode_event\<close> of
  \<^verbatim>\<open>crates/event-store/src/durable.rs\<close>). The errors of this codec are texts. Three fields may be missing
  at the end of an old payload; they are read only if something remains.
\<close>

definition MAX_FRAME_BYTES :: nat where "MAX_FRAME_BYTES = 64 * 1024 * 1024"

section \<open>Writing\<close>

definition ev_array :: "u8 list \<Rightarrow> string writer" where
  "ev_array bs = Ok bs"

definition ev_write_bytes :: "u8 list \<Rightarrow> string writer" where
  "ev_write_bytes bs = (if 2 ^ 32 \<le> length bs then Err ''value exceeds u32::MAX''
     else write_seq [write_u32 (of_nat (length bs)), ev_array bs])"

definition ev_write_string :: "string \<Rightarrow> string writer" where
  "ev_write_string s = ev_write_bytes (as_bytes s)"

definition ev_write_flag :: "bool \<Rightarrow> string writer" where
  "ev_write_flag b = write_u8 (if b then 1 else 0)"

fun ev_write_class :: "model_class \<Rightarrow> string writer" where
  "ev_write_class Local = write_u8 0"
| "ev_write_class Cheap = write_u8 1"
| "ev_write_class Strong = write_u8 2"
| "ev_write_class (Custom v) = write_seq [write_u8 3, ev_write_string v]"

definition encode_model :: "model_ref \<Rightarrow> string writer" where
  "encode_model m = write_seq [ev_write_string (model_provider m), ev_write_string (model_name m),
     ev_write_class (model_cls m)]"

definition encode_identity :: "agent_identity \<Rightarrow> string writer" where
  "encode_identity a = write_seq [write_u64 (agent_ident a), ev_write_string (agent_name a),
     ev_write_string (agent_mission a), encode_model (agent_model a)]"

definition ev_write_usage :: "usage \<Rightarrow> string writer" where
  "ev_write_usage u = write_seq [write_u64 (input_tokens u), write_u64 (output_tokens u),
     write_option write_u64 (cached_input_tokens u)]"

fun es_trust_tag :: "trust_origin \<Rightarrow> u8" where
  "es_trust_tag TrustRuntime = 0"
| "es_trust_tag TrustedProject = 1"
| "es_trust_tag UserProvided = 2"
| "es_trust_tag Generated = 3"
| "es_trust_tag RemoteAgent = 4"
| "es_trust_tag External = 5"
| "es_trust_tag WebUntrusted = 6"
| "es_trust_tag McpMetadata = 7"
| "es_trust_tag McpResult = 8"

text \<open>The fields of a kind, behind its tag.\<close>

fun ev_kind_fields :: "event_kind \<Rightarrow> string writer list" where
  "ev_kind_fields (RunCreated r) = [write_u8 0, write_u64 r]"
| "ev_kind_fields (TaskCreated t r title) = [write_u8 1, write_u64 t, write_u64 r, ev_write_string title]"
| "ev_kind_fields (AgentCreated a) = [write_u8 2, encode_identity a]"
| "ev_kind_fields (ModelRequested a m) = [write_u8 3, write_u64 a, encode_model m]"
| "ev_kind_fields (ModelResponseMetadata a resolved request provider) =
     [write_u8 24, write_u64 a, write_option ev_write_string resolved,
      write_option ev_write_string request, write_option ev_write_string provider]"
| "ev_kind_fields (ModelChunkReceived a i) = [write_u8 4, write_u64 a, write_u32 i]"
| "ev_kind_fields (ModelCompleted a u) = [write_u8 5, write_u64 a, write_u64 (input_tokens u),
     write_u64 (output_tokens u), write_option write_u64 (cached_input_tokens u)]"
| "ev_kind_fields (ModelFinishedWithoutUsage a) = [write_u8 25, write_u64 a]"
| "ev_kind_fields (ModelTurnCompleted a u) = [write_u8 26, write_u64 a, write_option ev_write_usage u]"
| "ev_kind_fields (ModelTurnOutcome a finish continued unproductive) =
     [write_u8 29, write_u64 a, ev_write_string finish, ev_write_flag continued, ev_write_flag unproductive]"
| "ev_kind_fields (ModelTurnCancelled a) = [write_u8 27, write_u64 a]"
| "ev_kind_fields (ModelTurnFailed a m) = [write_u8 28, write_u64 a, ev_write_string m]"
| "ev_kind_fields (ModelCancelled a) = [write_u8 6, write_u64 a]"
| "ev_kind_fields (ModelFailed a m) = [write_u8 7, write_u64 a, ev_write_string m]"
| "ev_kind_fields (RunCompleted r) = [write_u8 8, write_u64 r]"
| "ev_kind_fields (RunCancelled r) = [write_u8 9, write_u64 r]"
| "ev_kind_fields (RunFailed r m) = [write_u8 10, write_u64 r, ev_write_string m]"
| "ev_kind_fields (ArtifactCreated h n media t) =
     [write_u8 11, ev_array h, write_u64 n, ev_write_string media, write_u8 (es_trust_tag t)]"
| "ev_kind_fields (ContextTransition v p) = [write_u8 12, write_u16 v, ev_write_bytes p]"
| "ev_kind_fields (CacheObserved provider model h estimated cached) =
     [write_u8 13, ev_write_string provider, ev_write_string model, ev_array h,
      write_u64 estimated, write_u64 cached]"
| "ev_kind_fields (AgentMessage v p) = [write_u8 14, write_u16 v, ev_write_bytes p]"
| "ev_kind_fields (AssumptionTransition v p) = [write_u8 15, write_u16 v, ev_write_bytes p]"
| "ev_kind_fields (SchedulerTransition v p) = [write_u8 16, write_u16 v, ev_write_bytes p]"
| "ev_kind_fields (AgentPaused a) = [write_u8 17, write_u64 a]"
| "ev_kind_fields (AgentResumed a) = [write_u8 18, write_u64 a]"
| "ev_kind_fields (CapabilityTransition v p) = [write_u8 19, write_u16 v, ev_write_bytes p]"
| "ev_kind_fields (ToolTransition v p) = [write_u8 20, write_u16 v, ev_write_bytes p]"
| "ev_kind_fields (FailureMemoryTransition v p) = [write_u8 21, write_u16 v, ev_write_bytes p]"
| "ev_kind_fields (SpecialistTransition v p) = [write_u8 22, write_u16 v, ev_write_bytes p]"
| "ev_kind_fields (ConversationTurn v p) = [write_u8 23, write_u16 v, ev_write_bytes p]"

definition encode_event :: "event \<Rightarrow> string writer" where
  "encode_event ev = write_seq ([write_u64 (event_ident ev), write_u64 (event_run ev),
     write_u128 (occurred_at_ms ev)] @ ev_kind_fields (event_knd ev))"

section \<open>Reading\<close>

definition ev_take :: "nat \<Rightarrow> (u8 list, string) reader" where
  "ev_take = cursor_take ''decode offset overflow'' ''unexpected end of encoded value''"

abbreviation "ev_u8 \<equiv> read_u8 ev_take"
abbreviation "ev_u16 \<equiv> read_u16 ev_take"
abbreviation "ev_u32 \<equiv> read_u32 ev_take"
abbreviation "ev_u64 \<equiv> read_u64 ev_take"
abbreviation "ev_u128 \<equiv> read_u128 ev_take"

definition ev_read_array :: "(u8 list, string) reader" where
  "ev_read_array = ev_take 32"

definition ev_remaining :: "(nat, string) reader" where
  "ev_remaining = (\<lambda>c. Ok (length (cur_bytes c) - cur_offset c, c))"

definition ev_read_bytes :: "(u8 list, string) reader" where
  "ev_read_bytes = rd_bind ev_u32 (\<lambda>n.
     if MAX_FRAME_BYTES < unat n then rd_fail ''encoded value exceeds maximum frame size''
     else ev_take (unat n))"

definition ev_read_string :: "(string, string) reader" where
  "ev_read_string = rd_bind ev_read_bytes (\<lambda>bs. rd_lift (ok_or (from_utf8 bs) ''encoded string is not UTF-8''))"

definition ev_unknown :: "string \<Rightarrow> u8 \<Rightarrow> string" where
  "ev_unknown what tag = ''unknown '' @ what @ '' tag '' @ show_nat (unat tag)"

text \<open>A field that old payloads do not have.\<close>

definition ev_if_remaining :: "'a \<Rightarrow> ('a, string) reader \<Rightarrow> ('a, string) reader" where
  "ev_if_remaining missing r = rd_bind ev_remaining (\<lambda>n. if n = 0 then rd_return missing else r)"

definition ev_read_class :: "(model_class, string) reader" where
  "ev_read_class = rd_bind ev_u8 (\<lambda>tag.
     if tag = 0 then rd_return Local
     else if tag = 1 then rd_return Cheap
     else if tag = 2 then rd_return Strong
     else if tag = 3 then rd_bind ev_read_string (\<lambda>v. rd_return (Custom v))
     else rd_fail (ev_unknown ''model class'' tag))"

definition decode_model :: "(model_ref, string) reader" where
  "decode_model = rd_bind ev_read_string (\<lambda>p. rd_bind ev_read_string (\<lambda>m. rd_bind ev_read_class (\<lambda>c.
     rd_return (model_ref_new p m c))))"

definition decode_identity :: "(agent_identity, string) reader" where
  "decode_identity = rd_bind ev_u64 (\<lambda>i. rd_bind ev_read_string (\<lambda>n. rd_bind ev_read_string (\<lambda>m.
     rd_bind decode_model (\<lambda>r.
       rd_return \<lparr>agent_ident = i, agent_name = n, agent_mission = m, agent_model = r\<rparr>))))"

definition usage_of :: "u64 \<Rightarrow> u64 \<Rightarrow> u64 option \<Rightarrow> usage" where
  "usage_of i out cached = (case cached of
       None \<Rightarrow> usage_new i out
     | Some n \<Rightarrow> with_cached_input_tokens n (usage_new i out))"

definition ev_read_usage :: "(usage, string) reader" where
  "ev_read_usage = rd_bind ev_u64 (\<lambda>i. rd_bind ev_u64 (\<lambda>out.
     rd_bind (read_option ev_u8 (ev_unknown ''cached turn usage'') ev_u64) (\<lambda>cached.
       rd_return (usage_of i out cached))))"

definition ev_read_flag :: "string \<Rightarrow> (bool, string) reader" where
  "ev_read_flag what = rd_bind ev_u8 (\<lambda>tag.
     if tag = 0 then rd_return False
     else if tag = 1 then rd_return True
     else rd_fail (ev_unknown what tag))"

definition es_decode_trust :: "u8 \<Rightarrow> (trust_origin, string) result" where
  "es_decode_trust tag =
     (if tag = 0 then Ok TrustRuntime
      else if tag = 1 then Ok TrustedProject
      else if tag = 2 then Ok UserProvided
      else if tag = 3 then Ok Generated
      else if tag = 4 then Ok RemoteAgent
      else if tag = 5 then Ok External
      else if tag = 6 then Ok WebUntrusted
      else if tag = 7 then Ok McpMetadata
      else if tag = 8 then Ok McpResult
      else Err (ev_unknown ''trust origin'' tag))"

definition ev_read_trust :: "(trust_origin, string) reader" where
  "ev_read_trust = rd_bind ev_u8 (\<lambda>tag. rd_lift (es_decode_trust tag))"

text \<open>The kinds whose field is an agent, and those that hold a versioned payload.\<close>

definition ev_of_agent :: "(agent_id \<Rightarrow> event_kind) \<Rightarrow> (event_kind, string) reader" where
  "ev_of_agent f = rd_bind ev_u64 (\<lambda>a. rd_return (f a))"

definition ev_of_agent_text :: "(agent_id \<Rightarrow> string \<Rightarrow> event_kind) \<Rightarrow> (event_kind, string) reader" where
  "ev_of_agent_text f = rd_bind ev_u64 (\<lambda>a. rd_bind ev_read_string (\<lambda>m. rd_return (f a m)))"

definition ev_of_payload :: "(u16 \<Rightarrow> u8 list \<Rightarrow> event_kind) \<Rightarrow> (event_kind, string) reader" where
  "ev_of_payload f = rd_bind ev_u16 (\<lambda>v. rd_bind ev_read_bytes (\<lambda>p. rd_return (f v p)))"

definition ev_read_metadata :: "(event_kind, string) reader" where
  "ev_read_metadata = rd_bind ev_u64 (\<lambda>a.
     rd_bind (read_option ev_u8 (ev_unknown ''model metadata'') ev_read_string) (\<lambda>resolved.
     rd_bind (read_option ev_u8 (ev_unknown ''model metadata'') ev_read_string) (\<lambda>request.
     rd_bind (ev_if_remaining None (read_option ev_u8 (ev_unknown ''provider name'') ev_read_string)) (\<lambda>provider.
       rd_return (ModelResponseMetadata a resolved request provider)))))"

definition ev_read_completed :: "(event_kind, string) reader" where
  "ev_read_completed = rd_bind ev_u64 (\<lambda>a. rd_bind ev_u64 (\<lambda>i. rd_bind ev_u64 (\<lambda>out.
     rd_bind (ev_if_remaining None (read_option ev_u8 (ev_unknown ''cached usage'') ev_u64)) (\<lambda>cached.
       rd_return (ModelCompleted a (usage_of i out cached))))))"

definition ev_read_turn_completed :: "(event_kind, string) reader" where
  "ev_read_turn_completed = rd_bind ev_u64 (\<lambda>a.
     rd_bind (read_option ev_u8 (ev_unknown ''model turn usage'') ev_read_usage) (\<lambda>u.
       rd_return (ModelTurnCompleted a u)))"

definition ev_read_turn_outcome :: "(event_kind, string) reader" where
  "ev_read_turn_outcome = rd_bind ev_u64 (\<lambda>a. rd_bind ev_read_string (\<lambda>finish.
     rd_bind (ev_read_flag ''model turn continuation'') (\<lambda>continued.
     rd_bind (ev_read_flag ''model turn productivity'') (\<lambda>unproductive.
       rd_return (ModelTurnOutcome a finish continued unproductive)))))"

definition ev_read_artifact :: "(event_kind, string) reader" where
  "ev_read_artifact = rd_bind ev_read_array (\<lambda>h. rd_bind ev_u64 (\<lambda>n. rd_bind ev_read_string (\<lambda>media.
     rd_bind (ev_if_remaining Generated ev_read_trust) (\<lambda>t.
       rd_return (ArtifactCreated h n media t)))))"

definition ev_read_cache :: "(event_kind, string) reader" where
  "ev_read_cache = rd_bind ev_read_string (\<lambda>provider. rd_bind ev_read_string (\<lambda>model.
     rd_bind ev_read_array (\<lambda>h. rd_bind ev_u64 (\<lambda>estimated. rd_bind ev_u64 (\<lambda>cached.
       rd_return (CacheObserved provider model h estimated cached))))))"

definition ev_read_kind :: "u8 \<Rightarrow> (event_kind, string) reader" where
  "ev_read_kind tag =
     (if tag = 0 then ev_of_agent RunCreated
      else if tag = 1 then rd_bind ev_u64 (\<lambda>t. rd_bind ev_u64 (\<lambda>r. rd_bind ev_read_string (\<lambda>title.
        rd_return (TaskCreated t r title))))
      else if tag = 2 then rd_bind decode_identity (\<lambda>a. rd_return (AgentCreated a))
      else if tag = 3 then rd_bind ev_u64 (\<lambda>a. rd_bind decode_model (\<lambda>m. rd_return (ModelRequested a m)))
      else if tag = 24 then ev_read_metadata
      else if tag = 4 then rd_bind ev_u64 (\<lambda>a. rd_bind ev_u32 (\<lambda>i. rd_return (ModelChunkReceived a i)))
      else if tag = 5 then ev_read_completed
      else if tag = 25 then ev_of_agent ModelFinishedWithoutUsage
      else if tag = 26 then ev_read_turn_completed
      else if tag = 27 then ev_of_agent ModelTurnCancelled
      else if tag = 29 then ev_read_turn_outcome
      else if tag = 28 then ev_of_agent_text ModelTurnFailed
      else if tag = 6 then ev_of_agent ModelCancelled
      else if tag = 7 then ev_of_agent_text ModelFailed
      else if tag = 8 then ev_of_agent RunCompleted
      else if tag = 9 then ev_of_agent RunCancelled
      else if tag = 10 then ev_of_agent_text RunFailed
      else if tag = 11 then ev_read_artifact
      else if tag = 12 then ev_of_payload ContextTransition
      else if tag = 13 then ev_read_cache
      else if tag = 14 then ev_of_payload AgentMessage
      else if tag = 15 then ev_of_payload AssumptionTransition
      else if tag = 16 then ev_of_payload SchedulerTransition
      else if tag = 17 then ev_of_agent AgentPaused
      else if tag = 18 then ev_of_agent AgentResumed
      else if tag = 19 then ev_of_payload CapabilityTransition
      else if tag = 20 then ev_of_payload ToolTransition
      else if tag = 21 then ev_of_payload FailureMemoryTransition
      else if tag = 22 then ev_of_payload SpecialistTransition
      else if tag = 23 then ev_of_payload ConversationTurn
      else rd_fail (ev_unknown ''event kind'' tag))"

definition ev_read_event :: "(event, string) reader" where
  "ev_read_event = rd_bind ev_u64 (\<lambda>i. rd_bind ev_u64 (\<lambda>r. rd_bind ev_u128 (\<lambda>t.
     rd_bind ev_u8 (\<lambda>tag. rd_bind (ev_read_kind tag) (\<lambda>k.
       rd_return \<lparr>event_ident = i, event_run = r, occurred_at_ms = t, event_knd = k\<rparr>)))))"

definition decode_event :: "u8 list \<Rightarrow> (event, string) result" where
  "decode_event bytes = read_all ev_read_event ''encoded value contains trailing bytes'' bytes"

section \<open>The codec is a round trip\<close>

interpretation ev: byte_taker ev_take
  unfolding ev_take_def by (rule byte_taker_cursor_take)

lemma ev_wire_array: "length bs = 32 \<Longrightarrow> wire (ev_array bs) ev_read_array bs"
  by (simp add: wire_def ev_array_def ev_read_array_def ev.take_reads)

lemma ev_wire_bytes:
  assumes "length bs \<le> MAX_FRAME_BYTES"
  shows "wire (ev_write_bytes bs) ev_read_bytes bs"
proof -
  have small: "length bs < 2 ^ 32" using assms by (simp add: MAX_FRAME_BYTES_def)
  then have len: "unat (of_nat (length bs) :: u32) = length bs"
    by (simp add: unsigned_of_nat take_bit_nat_eq_self)
  have "wire (ev_array bs) (ev_take (length bs)) bs"
    by (simp add: wire_def ev_array_def ev.take_reads)
  then have "wire (write_seq [write_u32 (of_nat (length bs)), ev_array bs]) ev_read_bytes bs"
    unfolding ev_read_bytes_def
    using assms by (intro wire_field [OF ev.wire_u32]) (simp add: len wire_single)
  with small show ?thesis by (simp add: ev_write_bytes_def not_le [symmetric])
qed

lemma ev_wire_string:
  assumes "is_utf8 s" and "length s \<le> MAX_FRAME_BYTES"
  shows "wire (ev_write_string s) ev_read_string s"
  unfolding ev_write_string_def ev_read_string_def
  using assms by (intro wire_decoded [OF ev_wire_bytes]) simp_all

lemma ev_remaining_reads:
  assumes "reads r bs v" and "bs \<noteq> []"
  shows "reads (ev_if_remaining missing r) bs v"
  unfolding reads_def
proof (intro allI impI)
  fix c ys assume at: "at c (bs @ ys)"
  then have "length (cur_bytes c) - cur_offset c = length (bs @ ys)"
    unfolding at_def by (metis length_drop)
  moreover obtain n where "length (bs @ ys) = Suc n" using assms(2) by (cases bs) simp_all
  ultimately have "ev_if_remaining missing r c = r c"
    by (simp only: ev_if_remaining_def ev_remaining_def rd_bind_def result.case prod.case nat.simps if_False)
  with at assms(1) show "\<exists>c'. ev_if_remaining missing r c = Ok (v, c') \<and> at c' ys"
    by (simp add: reads_def)
qed

lemma ev_wire_remaining:
  assumes "wire w r v" and "w \<noteq> Ok []"
  shows "wire w (ev_if_remaining missing r) v"
  using assms by (auto simp: wire_def intro: ev_remaining_reads)

lemma write_option_visible: "write_option w v \<noteq> Ok []"
  by (cases v) (auto simp: write_option_def write_u8_def write_seq.simps)

lemma write_u8_visible: "write_u8 b \<noteq> Ok []"
  by (simp add: write_u8_def)

lemma es_decode_trust_tag [simp]: "es_decode_trust (es_trust_tag t) = Ok t"
  by (cases t) (simp_all add: es_decode_trust_def)

lemma ev_wire_trust: "wire (write_u8 (es_trust_tag t)) ev_read_trust t"
  unfolding ev_read_trust_def by (rule wire_decoded [OF ev.wire_u8]) simp

lemma ev_wire_flag: "wire (ev_write_flag b) (ev_read_flag what) b"
  unfolding ev_write_flag_def ev_read_flag_def by (rule wire_last [OF ev.wire_u8]) simp

text \<open>A text as a field can have: UTF-8 and not longer than a frame.\<close>

definition ev_text :: "string \<Rightarrow> bool" where
  "ev_text s \<longleftrightarrow> is_utf8 s \<and> length s \<le> MAX_FRAME_BYTES"

definition ev_texts :: "string option \<Rightarrow> bool" where
  "ev_texts v \<longleftrightarrow> (\<forall>s. v = Some s \<longrightarrow> ev_text s)"

lemma ev_wire_text: "ev_text s \<Longrightarrow> wire (ev_write_string s) ev_read_string s"
  by (simp add: ev_text_def ev_wire_string)

lemma ev_wire_texts: "ev_texts v \<Longrightarrow> wire (write_option ev_write_string v) (read_option ev_u8 e ev_read_string) v"
  by (intro wire_option ev.wire_u8 ev_wire_text) (simp add: ev_texts_def)

lemma ev_wire_optional: "wire (write_option write_u64 v) (read_option ev_u8 e ev_u64) v"
  by (intro wire_option ev.wire_u8 ev.wire_u64)

definition model_text :: "model_ref \<Rightarrow> bool" where
  "model_text m \<longleftrightarrow> ev_text (model_provider m) \<and> ev_text (model_name m) \<and>
     (\<forall>v. model_cls m = Custom v \<longrightarrow> ev_text v)"

lemma ev_wire_class:
  assumes "\<forall>v. c = Custom v \<longrightarrow> ev_text v"
  shows "wire (ev_write_class c) ev_read_class c"
  using assms unfolding ev_read_class_def
  by (cases c) (auto intro!: wire_last [OF ev.wire_u8] wire_field [OF ev.wire_u8]
    wire_single wire_last [OF ev_wire_text])

lemma ev_wire_model: "model_text m \<Longrightarrow> wire (encode_model m) decode_model m"
  unfolding encode_model_def decode_model_def model_text_def
  by (intro wire_field [OF ev_wire_text] wire_field [OF ev_wire_class] wire_end)
    (simp_all add: model_ref_new_def)

definition identity_text :: "agent_identity \<Rightarrow> bool" where
  "identity_text a \<longleftrightarrow> ev_text (agent_name a) \<and> ev_text (agent_mission a) \<and> model_text (agent_model a)"

lemma ev_wire_identity: "identity_text a \<Longrightarrow> wire (encode_identity a) decode_identity a"
  unfolding encode_identity_def decode_identity_def identity_text_def
  by (intro wire_field [OF ev.wire_u64] wire_field [OF ev_wire_text] wire_field [OF ev_wire_model] wire_end)
    simp_all

lemma usage_of_fields [simp]: "usage_of (input_tokens u) (output_tokens u) (cached_input_tokens u) = u"
  by (cases u; cases "cached_input_tokens u")
    (auto simp: usage_of_def usage_new_def with_cached_input_tokens_def)

lemma ev_wire_usage: "wire (ev_write_usage u) ev_read_usage u"
  unfolding ev_write_usage_def ev_read_usage_def
  by (intro wire_field [OF ev.wire_u64] wire_field [OF ev_wire_optional] wire_end) simp

fun kind_text :: "event_kind \<Rightarrow> bool" where
  "kind_text (TaskCreated t r title) = ev_text title"
| "kind_text (AgentCreated a) = identity_text a"
| "kind_text (ModelRequested a m) = model_text m"
| "kind_text (ModelResponseMetadata a resolved request provider) =
     (ev_texts resolved \<and> ev_texts request \<and> ev_texts provider)"
| "kind_text (ModelTurnOutcome a finish c u) = ev_text finish"
| "kind_text (ModelTurnFailed a m) = ev_text m"
| "kind_text (ModelFailed a m) = ev_text m"
| "kind_text (RunFailed r m) = ev_text m"
| "kind_text (ArtifactCreated h n media t) = (length h = 32 \<and> ev_text media)"
| "kind_text (CacheObserved provider model h e c) = (ev_text provider \<and> ev_text model \<and> length h = 32)"
| "kind_text (ContextTransition v p) = (length p \<le> MAX_FRAME_BYTES)"
| "kind_text (AgentMessage v p) = (length p \<le> MAX_FRAME_BYTES)"
| "kind_text (AssumptionTransition v p) = (length p \<le> MAX_FRAME_BYTES)"
| "kind_text (SchedulerTransition v p) = (length p \<le> MAX_FRAME_BYTES)"
| "kind_text (CapabilityTransition v p) = (length p \<le> MAX_FRAME_BYTES)"
| "kind_text (ToolTransition v p) = (length p \<le> MAX_FRAME_BYTES)"
| "kind_text (FailureMemoryTransition v p) = (length p \<le> MAX_FRAME_BYTES)"
| "kind_text (SpecialistTransition v p) = (length p \<le> MAX_FRAME_BYTES)"
| "kind_text (ConversationTurn v p) = (length p \<le> MAX_FRAME_BYTES)"
| "kind_text _ = True"

lemmas ev_fields = ev.wire_u64 [THEN wire_field] ev.wire_u32 [THEN wire_field]
  ev_wire_text [THEN wire_field] ev_wire_texts [THEN wire_field] ev_wire_flag [THEN wire_field]
  ev_wire_optional [THEN wire_field] ev_wire_array [THEN wire_field] ev_wire_model [THEN wire_field]
  ev_wire_identity [THEN wire_field] ev_wire_trust [THEN wire_field]

lemma ev_wire_of_agent: "wire (write_seq [write_u64 a]) (ev_of_agent f) (f a)"
  unfolding ev_of_agent_def by (intro ev_fields wire_end) simp

lemma ev_wire_of_agent_text:
  "ev_text m \<Longrightarrow> wire (write_seq [write_u64 a, ev_write_string m]) (ev_of_agent_text f) (f a m)"
  unfolding ev_of_agent_text_def by (intro ev_fields wire_end) simp_all

lemma ev_wire_of_payload:
  "length p \<le> MAX_FRAME_BYTES \<Longrightarrow> wire (write_seq [write_u16 v, ev_write_bytes p]) (ev_of_payload f) (f v p)"
  unfolding ev_of_payload_def
  by (intro wire_field [OF ev.wire_u16] wire_field [OF ev_wire_bytes] wire_end) simp_all

lemma ev_wire_metadata:
  assumes "kind_text (ModelResponseMetadata a resolved request provider)"
  shows "wire (write_seq [write_u64 a, write_option ev_write_string resolved,
      write_option ev_write_string request, write_option ev_write_string provider])
    ev_read_metadata (ModelResponseMetadata a resolved request provider)"
  unfolding ev_read_metadata_def
  using assms by (intro ev_fields wire_field [OF ev_wire_remaining [OF ev_wire_texts write_option_visible]] wire_end)
    simp_all

lemma ev_wire_completed:
  "wire (write_seq [write_u64 a, write_u64 (input_tokens u), write_u64 (output_tokens u),
      write_option write_u64 (cached_input_tokens u)]) ev_read_completed (ModelCompleted a u)"
  unfolding ev_read_completed_def
  by (intro ev_fields wire_field [OF ev_wire_remaining [OF ev_wire_optional write_option_visible]] wire_end) simp

lemma ev_wire_turn_completed:
  "wire (write_seq [write_u64 a, write_option ev_write_usage u]) ev_read_turn_completed (ModelTurnCompleted a u)"
  unfolding ev_read_turn_completed_def
  by (intro ev_fields wire_field [OF wire_option] ev.wire_u8 ev_wire_usage wire_end) simp

lemma ev_wire_turn_outcome:
  "ev_text finish \<Longrightarrow> wire (write_seq [write_u64 a, ev_write_string finish, ev_write_flag c, ev_write_flag u])
    ev_read_turn_outcome (ModelTurnOutcome a finish c u)"
  unfolding ev_read_turn_outcome_def by (intro ev_fields wire_end) simp_all

lemma ev_wire_artifact:
  assumes "length h = 32" and "ev_text media"
  shows "wire (write_seq [ev_array h, write_u64 n, ev_write_string media, write_u8 (es_trust_tag t)])
    ev_read_artifact (ArtifactCreated h n media t)"
  unfolding ev_read_artifact_def
  using assms by (intro ev_fields wire_field [OF ev_wire_remaining [OF ev_wire_trust write_u8_visible]] wire_end)
    simp_all

lemma ev_wire_cache:
  assumes "ev_text provider" and "ev_text model" and "length h = 32"
  shows "wire (write_seq [ev_write_string provider, ev_write_string model, ev_array h, write_u64 e, write_u64 c])
    ev_read_cache (CacheObserved provider model h e c)"
  unfolding ev_read_cache_def using assms by (intro ev_fields wire_end) simp_all

text \<open>A kind behind its tag.\<close>

lemma ev_wire_tag:
  assumes "wire (write_seq ws) (ev_read_kind tag) k"
  shows "wire (write_seq (write_u8 tag # ws)) (rd_bind ev_u8 ev_read_kind) k"
  using assms by (rule wire_field [OF ev.wire_u8])

lemma ev_wire_kind:
  assumes "kind_text k"
  shows "wire (write_seq (ev_kind_fields k)) (rd_bind ev_u8 ev_read_kind) k"
proof (cases k)
  case (TaskCreated t r title)
  with assms show ?thesis
    by (auto intro!: ev_wire_tag ev_fields wire_end simp: ev_read_kind_def)
next
  case (AgentCreated a)
  with assms show ?thesis
    by (auto intro!: ev_wire_tag ev_fields wire_end simp: ev_read_kind_def)
next
  case (ModelRequested a m)
  with assms show ?thesis
    by (auto intro!: ev_wire_tag ev_fields wire_end simp: ev_read_kind_def)
next
  case (ModelChunkReceived a i)
  with assms show ?thesis
    by (auto intro!: ev_wire_tag ev_fields wire_end simp: ev_read_kind_def)
qed (use assms in \<open>simp_all only: ev_kind_fields.simps kind_text.simps\<close>,
  (rule ev_wire_tag, simp add: ev_read_kind_def ev_wire_of_agent ev_wire_of_agent_text ev_wire_of_payload
    ev_wire_metadata ev_wire_completed ev_wire_turn_completed ev_wire_turn_outcome ev_wire_artifact
    ev_wire_cache)+)

lemma ev_wire_event:
  assumes "kind_text (event_knd e)"
  shows "wire (encode_event e) ev_read_event e"
proof -
  have assoc: "rd_bind ev_u8 (\<lambda>tag. rd_bind (ev_read_kind tag) f) = rd_bind (rd_bind ev_u8 ev_read_kind) f" for f :: "event_kind \<Rightarrow> (event, string) reader"
    by (auto simp: rd_bind_def fun_eq_iff split: result.splits prod.splits)
  have kind: "wire (write_seq (ev_kind_fields (event_knd e)))
      (rd_bind (rd_bind ev_u8 ev_read_kind) (\<lambda>k. rd_return \<lparr>event_ident = event_ident e,
        event_run = event_run e, occurred_at_ms = occurred_at_ms e, event_knd = k\<rparr>)) e"
    by (rule wire_last [OF ev_wire_kind [OF assms]]) (cases e, simp)
  show ?thesis
    unfolding encode_event_def ev_read_event_def append.simps assoc
    by (intro wire_field [OF ev.wire_u64] wire_field [OF ev.wire_u128] kind)
qed

lemma decode_encode_event:
  assumes "kind_text (event_knd e)" and "encode_event e = Ok bs" and "length bs \<le> MAX_FRAME_BYTES"
  shows "decode_event bs = Ok e"
  unfolding decode_event_def
  using assms by (intro read_all_reads wireD [OF ev_wire_event]) (simp_all add: MAX_FRAME_BYTES_def)

section \<open>Properties\<close>

text \<open>
  C40: an event survives its payload. What \<open>encode_event\<close> writes for an event of any kind, whose texts
  are UTF-8 and whose hashes have 32 bytes, is read back as that event by \<open>decode_event\<close>, as long as
  the payload fits a frame; the fields old payloads lack are not mistaken for missing.
\<close>

theorem event_codec_roundtrip:
  assumes "kind_text (event_knd e)" and "encode_event e = Ok bs" and "length bs \<le> MAX_FRAME_BYTES"
  shows "decode_event bs = Ok e"
  using assms by (rule decode_encode_event)

theorem event_codec_roundtrip_witness:
  "\<exists>bs. encode_event \<lparr>event_ident = 1, event_run = 2, occurred_at_ms = 3,
       event_knd = ModelCompleted 4 (usage_new 5 6)\<rparr> = Ok bs \<and>
     decode_event bs = Ok \<lparr>event_ident = 1, event_run = 2, occurred_at_ms = 3,
       event_knd = ModelCompleted 4 (usage_new 5 6)\<rparr>"
proof -
  let ?e = "\<lparr>event_ident = 1, event_run = 2, occurred_at_ms = 3, event_knd = ModelCompleted 4 (usage_new 5 6)\<rparr>"
  obtain bs where bs: "encode_event ?e = Ok bs" "length bs = 58"
    by (simp add: encode_event_def write_seq.simps write_u8_def write_u64_def write_u128_def write_option_def
        usage_new_def)
  then show ?thesis
    using event_codec_roundtrip [OF _ bs(1)] by (simp add: MAX_FRAME_BYTES_def)
qed

end
