(* ===== verification/Durable_Log.thy ===== *)
theory Durable_Log
  imports Event_History Event_Codec
begin

text \<open>
  The event log on disk (\<open>FileEventStore\<close> of \<^verbatim>\<open>crates/event-store/src/durable.rs\<close>): frames with a
  length and a checksum, batches between a begin and a commit marker, and the recovery that reads them
  back when the store is opened. The file is the list of its bytes. What the operating system does
  with a write is an argument: it may fail after any number of bytes, and so may the process.
\<close>

section \<open>Frames\<close>

definition EVENT_MAGIC :: "u8 list" where "EVENT_MAGIC = as_bytes ''ORYNTH-EVENT-2'' @ [10]"
definition EVENT_MAGIC_V1 :: "u8 list" where "EVENT_MAGIC_V1 = as_bytes ''ORYNTH-EVENT-1'' @ [10]"
definition CHECKSUM_BYTES :: nat where "CHECKSUM_BYTES = 32"
definition FRAME_HEADER_BYTES :: nat where "FRAME_HEADER_BYTES = 12"
definition MAX_BATCH_EVENTS :: nat where "MAX_BATCH_EVENTS = 4096"
definition BATCH_BEGIN :: u8 where "BATCH_BEGIN = 1"
definition BATCH_EVENT :: u8 where "BATCH_EVENT = 2"
definition BATCH_COMMIT :: u8 where "BATCH_COMMIT = 3"

definition append_frame :: "u8 list \<Rightarrow> sequence \<Rightarrow> u8 list \<Rightarrow> (u8 list, store_error) result" where
  "append_frame bytes n payload =
     (if MAX_FRAME_BYTES < length payload
      then Err (EsStorage (''event payload exceeds maximum frame size: '' @ show_nat (length payload) @ '' bytes''))
      else if 2 ^ 32 \<le> length payload then Err (EsStorage ''event payload exceeds u32::MAX'')
      else Ok (bytes @ to_le_bytes n @ to_le_bytes (of_nat (length payload) :: u32) @ payload
             @ deterministic_hash payload))"

definition encode_control_payload :: "u8 \<Rightarrow> u32 \<Rightarrow> u8 list \<Rightarrow> u8 list" where
  "encode_control_payload kind cnt digest =
     kind # to_le_bytes cnt @ (if kind = BATCH_COMMIT then digest else [])"

definition batch_digest :: "u8 list list \<Rightarrow> u8 list" where
  "batch_digest payloads = deterministic_hash
     (concat (map (\<lambda>p. to_le_bytes (of_nat (length p) :: u64) @ p) payloads))"

text \<open>The bytes \<open>append_frames\<close> writes; its caller never passes an empty batch.\<close>

definition batch_bytes :: "(sequence \<times> u8 list) list \<Rightarrow> (u8 list, store_error) result" where
  "batch_bytes frames =
     (if 2 ^ 32 \<le> length frames then Err (EsStorage ''event batch is too large'')
      else
        let cnt = of_nat (length frames) in
        and_then (append_frame [] (fst (hd frames))
            (encode_control_payload BATCH_BEGIN cnt (replicate 32 0))) (\<lambda>bytes.
        and_then (try_fold (\<lambda>bytes (n, payload). append_frame bytes n (BATCH_EVENT # payload)) bytes frames)
          (\<lambda>bytes.
            append_frame bytes (fst (last frames) + 1)
              (encode_control_payload BATCH_COMMIT cnt (batch_digest (map snd frames))))))"

text \<open>Reading: nothing if the frame is cut off. The sum of the fixed lengths cannot overflow by itself.\<close>

definition read_frame :: "u8 list \<Rightarrow> nat \<Rightarrow> ((nat \<times> sequence \<times> u8 list) option, store_error) result"
  where
  "read_frame bytes offset =
     (if length bytes - offset < FRAME_HEADER_BYTES then Ok None
      else
        let n = from_le_bytes (take 8 (drop offset bytes));
            payload_len = unat (from_le_bytes (take 4 (drop (offset + 8) bytes)) :: u32)
        in
        if MAX_FRAME_BYTES < payload_len
        then Err (EsCorrupt (''event frame is too large: '' @ show_nat payload_len @ '' bytes''))
        else
          let frame_end = offset + (FRAME_HEADER_BYTES + payload_len + CHECKSUM_BYTES) in
          if 2 ^ 64 \<le> frame_end then Err (EsCorrupt ''event frame offset overflow'')
          else if length bytes < frame_end then Ok None
          else
            let payload_start = offset + FRAME_HEADER_BYTES;
                payload = take payload_len (drop payload_start bytes)
            in
            if take CHECKSUM_BYTES (drop (payload_start + payload_len) bytes) \<noteq> deterministic_hash payload
            then Err (EsCorrupt (''checksum mismatch at byte offset '' @ show_nat offset))
            else Ok (Some (frame_end, n, payload)))"

definition is_final_frame :: "u8 list \<Rightarrow> nat \<Rightarrow> bool" where
  "is_final_frame bytes offset =
     (if length bytes - offset < FRAME_HEADER_BYTES then True
      else
        let payload_len = unat (from_le_bytes (take 4 (drop (offset + 8) bytes)) :: u32) in
        if MAX_FRAME_BYTES < payload_len then False
        else offset + (FRAME_HEADER_BYTES + payload_len + CHECKSUM_BYTES) = length bytes)"

lemma read_frame_advances:
  "read_frame bytes offset = Ok (Some (frame_end, n, payload)) \<Longrightarrow> offset < frame_end"
  by (auto simp: read_frame_def Let_def FRAME_HEADER_BYTES_def split: if_splits)

section \<open>Recovery\<close>

text \<open>What the loop over the frames knows: the store so far and the batch it is in.\<close>

record recovery =
  rc_memory :: event_store
  rc_start :: "nat option"
  rc_pending :: "(sequence \<times> u8 list) list"
  rc_expected :: nat

datatype recovery_outcome = Continue recovery | Repair nat | Fail store_error

definition reject_frame :: "u8 list \<Rightarrow> nat \<Rightarrow> string \<Rightarrow> recovery \<Rightarrow> recovery_outcome" where
  "reject_frame bytes frame_end message s =
     (case rc_start s of
        Some start \<Rightarrow> if frame_end = length bytes then Repair start else Fail (EsCorrupt message)
      | None \<Rightarrow> Fail (EsCorrupt message))"

definition marker_count :: "u8 list \<Rightarrow> nat" where
  "marker_count payload = unat (from_le_bytes (take 4 (drop 1 payload)) :: u32)"

definition begin_frame :: "u8 list \<Rightarrow> nat \<Rightarrow> nat \<Rightarrow> sequence \<Rightarrow> u8 list \<Rightarrow> recovery \<Rightarrow> recovery_outcome"
  where
  "begin_frame bytes frame_start frame_end n payload s =
     (if length payload \<noteq> 5 then reject_frame bytes frame_end ''invalid batch begin marker'' s
      else
        let cnt = marker_count payload in
        if cnt = 0 \<or> MAX_BATCH_EVENTS < cnt
        then reject_frame bytes frame_end ''invalid event batch size'' s
        else
          let s' = s\<lparr>rc_start := Some frame_start, rc_expected := cnt, rc_pending := []\<rparr> in
          if n \<noteq> st_next (rc_memory s)
          then reject_frame bytes frame_end ''batch begin sequence is invalid'' s'
          else Continue s')"

definition event_frame :: "u8 list \<Rightarrow> nat \<Rightarrow> sequence \<Rightarrow> u8 list \<Rightarrow> recovery \<Rightarrow> recovery_outcome" where
  "event_frame bytes frame_end n payload s =
     (if n \<noteq> st_next (rc_memory s) + of_nat (length (rc_pending s)) \<or> length payload < 2 \<or>
         rc_expected s \<le> length (rc_pending s)
      then reject_frame bytes frame_end ''event batch sequence or count is invalid'' s
      else Continue (s\<lparr>rc_pending := rc_pending s @ [(n, drop 1 payload)]\<rparr>))"

fun decode_pending :: "(sequence \<times> u8 list) list \<Rightarrow> (event list, store_error) result" where
  "decode_pending [] = Ok []"
| "decode_pending ((n, payload) # ps) =
     and_then (map_err EsCorrupt (decode_event payload)) (\<lambda>ev.
       and_then (decode_pending ps) (\<lambda>evs. Ok (ev # evs)))"

definition commit_frame :: "u8 list \<Rightarrow> nat \<Rightarrow> nat \<Rightarrow> sequence \<Rightarrow> u8 list \<Rightarrow> recovery \<Rightarrow> recovery_outcome"
  where
  "commit_frame bytes start frame_end n payload s =
     (if length payload \<noteq> 37 \<or> length (rc_pending s) \<noteq> rc_expected s \<or>
         n \<noteq> st_next (rc_memory s) + of_nat (length (rc_pending s)) \<or>
         marker_count payload \<noteq> rc_expected s \<or> drop 5 payload \<noteq> batch_digest (map snd (rc_pending s))
      then if frame_end = length bytes then Repair start
           else Fail (EsCorrupt ''invalid event batch commit marker'')
      else
        (case decode_pending (rc_pending s) of
           Err _ \<Rightarrow> if frame_end = length bytes then Repair start
                    else Fail (EsCorrupt ''invalid event in committed batch'')
         | Ok events \<Rightarrow>
             (case es_append_batch events (rc_memory s) of
                (Err e, _) \<Rightarrow> Fail e
              | (Ok ns, memory) \<Rightarrow>
                  if ns \<noteq> map fst (rc_pending s) then Fail (EsCorrupt ''committed batch sequence mismatch'')
                  else Continue \<lparr>rc_memory = memory, rc_start = None, rc_pending = [], rc_expected = 0\<rparr>)))"

definition recover_frame :: "u8 list \<Rightarrow> nat \<Rightarrow> nat \<Rightarrow> sequence \<Rightarrow> u8 list \<Rightarrow> recovery \<Rightarrow> recovery_outcome"
  where
  "recover_frame bytes frame_start frame_end n payload s =
     (let kind = (case payload of [] \<Rightarrow> None | b # _ \<Rightarrow> Some b) in
      case rc_start s of
        None \<Rightarrow>
          if kind = Some BATCH_BEGIN then begin_frame bytes frame_start frame_end n payload s
          else reject_frame bytes frame_end ''invalid event batch marker ordering'' s
      | Some start \<Rightarrow>
          if kind = Some BATCH_EVENT then event_frame bytes frame_end n payload s
          else if kind = Some BATCH_COMMIT then commit_frame bytes start frame_end n payload s
          else reject_frame bytes frame_end ''invalid event batch marker ordering'' s)"

definition repair_point :: "recovery \<Rightarrow> nat \<Rightarrow> nat" where
  "repair_point s frame_start = (case rc_start s of Some start \<Rightarrow> start | None \<Rightarrow> frame_start)"

function (sequential) recover_loop :: "u8 list \<Rightarrow> nat \<Rightarrow> recovery
    \<Rightarrow> (event_store \<times> nat option, store_error) result" where
  "recover_loop bytes offset s =
     (if length bytes \<le> offset then Ok (rc_memory s, rc_start s)
      else
        (case read_frame bytes offset of
           Err e \<Rightarrow> if is_final_frame bytes offset then Ok (rc_memory s, Some (repair_point s offset)) else Err e
         | Ok None \<Rightarrow> Ok (rc_memory s, Some (repair_point s offset))
         | Ok (Some (frame_end, n, payload)) \<Rightarrow>
             (case recover_frame bytes offset frame_end n payload s of
                Continue s' \<Rightarrow> recover_loop bytes frame_end s'
              | Repair start \<Rightarrow> Ok (rc_memory s, Some start)
              | Fail e \<Rightarrow> Err e)))"
  by pat_completeness auto
termination
  by (relation "measure (\<lambda>(bytes, offset, _). length bytes - offset)")
    (auto dest!: read_frame_advances)

declare recover_loop.simps [simp del]

definition recovery_new :: "event_store \<Rightarrow> recovery" where
  "recovery_new memory = \<lparr>rc_memory = memory, rc_start = None, rc_pending = [], rc_expected = 0\<rparr>"

definition recover_batched_events :: "u8 list \<Rightarrow> u8 list \<Rightarrow> (event_store \<times> nat option, store_error) result"
  where
  "recover_batched_events bytes magic = recover_loop bytes (length magic) (recovery_new event_store_new)"

function (sequential) legacy_loop :: "u8 list \<Rightarrow> nat \<Rightarrow> event_store
    \<Rightarrow> (event_store \<times> nat option, store_error) result" where
  "legacy_loop bytes offset memory =
     (if length bytes \<le> offset then Ok (memory, None)
      else
        (case read_frame bytes offset of
           Err e \<Rightarrow> Err e
         | Ok None \<Rightarrow> Ok (memory, Some offset)
         | Ok (Some (frame_end, n, payload)) \<Rightarrow>
             (case decode_event payload of
                Err m \<Rightarrow> Err (EsCorrupt m)
              | Ok ev \<Rightarrow>
                  (case es_append ev memory of
                     (Err e, _) \<Rightarrow> Err e
                   | (Ok assigned, memory') \<Rightarrow>
                       if assigned \<noteq> n
                       then Err (EsCorrupt (''expected sequence '' @ show_nat (unat assigned) @
                              '', found '' @ show_nat (unat n)))
                       else legacy_loop bytes frame_end memory'))))"
  by pat_completeness auto
termination
  by (relation "measure (\<lambda>(bytes, offset, _). length bytes - offset)")
    (auto dest!: read_frame_advances)

declare legacy_loop.simps [simp del]

definition recover_legacy_events :: "u8 list \<Rightarrow> u8 list \<Rightarrow> (event_store \<times> nat option, store_error) result"
  where
  "recover_legacy_events bytes magic = legacy_loop bytes (length magic) event_store_new"

section \<open>The store on a file\<close>

record file_store =
  fs_version :: nat
  fs_memory :: event_store
  fs_disk :: "u8 list"

definition bytes_start :: "u8 list \<Rightarrow> u8 list \<Rightarrow> bool" where
  "bytes_start bytes magic = (take (length magic) bytes = magic)"

text \<open>\<open>open\<close>, as far as the event file goes: a new file gets its header, a torn end is cut off.\<close>

definition open_log :: "u8 list \<Rightarrow> (file_store, store_error) result" where
  "open_log file =
     (let bytes = (if file = [] then EVENT_MAGIC else file);
          version = (if bytes_start bytes EVENT_MAGIC then 2 else if bytes_start bytes EVENT_MAGIC_V1 then 1 else 0)
      in if version = 0 then Err (EsCorrupt ''event store header is invalid'')
         else
           and_then (if version = 1 then recover_legacy_events bytes EVENT_MAGIC_V1
                     else recover_batched_events bytes EVENT_MAGIC) (\<lambda>(memory, repair).
             Ok \<lparr>fs_version = version, fs_memory = memory,
                fs_disk = (case repair of None \<Rightarrow> bytes | Some offset \<Rightarrow> take offset bytes)\<rparr>))"

text \<open>\<open>write_all\<close>, \<open>flush\<close> and \<open>sync_all\<close>: all went well, or an error came after some bytes were in the file.\<close>

datatype write_outcome = Written | WriteFailed nat string

definition append_frames :: "write_outcome \<Rightarrow> (sequence \<times> u8 list) list \<Rightarrow> u8 list
    \<Rightarrow> (unit, store_error) result \<times> u8 list" where
  "append_frames outcome frames disk =
     (case batch_bytes frames of
        Err e \<Rightarrow> (Err e, disk)
      | Ok bytes \<Rightarrow>
          (case outcome of
             Written \<Rightarrow> (Ok (), disk @ bytes)
           | WriteFailed k message \<Rightarrow> (Err (EsStorage message), disk @ take k bytes)))"

fun first_duplicate :: "event_store \<Rightarrow> event_id set \<Rightarrow> event list \<Rightarrow> event_id option" where
  "first_duplicate memory seen [] = None"
| "first_duplicate memory seen (ev # evs) =
     (if event_ident ev \<in> st_ids memory \<or> event_ident ev \<in> seen then Some (event_ident ev)
      else first_duplicate memory (insert (event_ident ev) seen) evs)"

fun batch_frames :: "event list \<Rightarrow> sequence \<Rightarrow> ((sequence \<times> u8 list) list, store_error) result" where
  "batch_frames [] n = Ok []"
| "batch_frames (ev # evs) n =
     and_then (map_err EsCorrupt (encode_event ev)) (\<lambda>payload.
       and_then (ok_or (checked_add n 1) (EsStorage ''event sequence overflow'')) (\<lambda>n'.
         and_then (batch_frames evs n') (\<lambda>frames. Ok ((n, payload) # frames))))"

definition file_append_batch :: "write_outcome \<Rightarrow> event list \<Rightarrow> file_store
    \<Rightarrow> (sequence list, store_error) result \<times> file_store" where
  "file_append_batch outcome evs fs =
     (if fs_version fs = 1
      then (Err (EsStorage ''legacy v1 event stores are read-only; migrate before appending''), fs)
      else if MAX_BATCH_EVENTS < length evs then (Err (EsStorage ''event batch is too large''), fs)
      else (case first_duplicate (fs_memory fs) {} evs of
        Some i \<Rightarrow> (Err (EsDuplicateEvent i), fs)
      | None \<Rightarrow>
          (case batch_frames evs (st_next (fs_memory fs)) of
             Err e \<Rightarrow> (Err e, fs)
           | Ok frames \<Rightarrow>
               if frames = [] then (Ok [], fs)
               else
                 (case append_frames outcome frames (fs_disk fs) of
                    (Err e, disk) \<Rightarrow> (Err e, fs\<lparr>fs_disk := disk\<rparr>)
                  | (Ok _, disk) \<Rightarrow>
                      (case es_append_batch evs (fs_memory fs) of
                         (r, memory) \<Rightarrow> (r, fs\<lparr>fs_memory := memory, fs_disk := disk\<rparr>))))))"

definition file_append :: "write_outcome \<Rightarrow> event \<Rightarrow> file_store
    \<Rightarrow> (sequence, store_error) result \<times> file_store" where
  "file_append outcome ev fs =
     (case file_append_batch outcome [ev] fs of
        (Err e, fs') \<Rightarrow> (Err e, fs')
      | (Ok ns, fs') \<Rightarrow> (Ok (hd ns), fs'))"

end
