(* ===== verification/Durable_Recovery.thy ===== *)
theory Durable_Recovery
  imports Durable_Log "HOL-Library.Sublist"
begin

text \<open>
  What the event file guarantees. A crash during an append leaves a prefix of its bytes; opening such
  a file gives the store before the append or the store after it, whole batches only, and cuts the
  torn end off. And what it does not: a store that stays open after a failed write.
\<close>

section \<open>Frames\<close>

definition frame :: "sequence \<Rightarrow> u8 list \<Rightarrow> u8 list" where
  "frame n payload = to_le_bytes n @ to_le_bytes (of_nat (length payload) :: u32) @ payload
     @ deterministic_hash payload"

lemma length_frame [simp]: "length (frame n payload) = 44 + length payload"
  by (simp add: frame_def)

lemma append_frame_Ok: "append_frame bytes n payload = Ok bs \<longleftrightarrow>
    length payload \<le> MAX_FRAME_BYTES \<and> bs = bytes @ frame n payload"
  by (auto simp: append_frame_def frame_def MAX_FRAME_BYTES_def)

lemma frame_header:
  assumes "length payload \<le> MAX_FRAME_BYTES"
  shows "unat (of_nat (length payload) :: u32) = length payload"
  using assms by (simp add: MAX_FRAME_BYTES_def unsigned_of_nat take_bit_nat_eq_self)

lemma take_append_exact: "length xs = n \<Longrightarrow> take n (xs @ ys) = xs"
  by simp

lemma read_frame_whole:
  assumes "length payload \<le> MAX_FRAME_BYTES" and "length pre + length (frame n payload) < 2 ^ 64"
  shows "read_frame (pre @ frame n payload @ post) (length pre)
    = Ok (Some (length pre + length (frame n payload), n, payload))"
  using assms(2) frame_header [OF assms(1)] assms(1)
  by (simp add: read_frame_def frame_def FRAME_HEADER_BYTES_def CHECKSUM_BYTES_def from_to_le_bytes Let_def)

text \<open>A frame that was not written to its end reads as nothing.\<close>

lemma read_frame_torn:
  assumes "length payload \<le> MAX_FRAME_BYTES" and "length pre + length (frame n payload) < 2 ^ 64"
    and "k < length (frame n payload)"
  shows "read_frame (pre @ take k (frame n payload)) (length pre) = Ok None"
proof (cases "k < 12")
  case True
  then show ?thesis by (simp add: read_frame_def FRAME_HEADER_BYTES_def)
next
  case False
  then obtain j where k: "k = 12 + j" by (metis le_add_diff_inverse not_less)
  have "take 4 (drop 8 (take k (frame n payload))) = to_le_bytes (of_nat (length payload) :: u32)"
    by (simp add: k frame_def)
  with assms k frame_header [OF assms(1)] show ?thesis
    by (simp add: read_frame_def FRAME_HEADER_BYTES_def CHECKSUM_BYTES_def from_to_le_bytes Let_def)
qed

text \<open>What follows in the file does not matter for a frame that is read.\<close>

lemma read_frame_more:
  assumes "read_frame bytes offset = Ok (Some (e, n, payload))"
  shows "read_frame (bytes @ later) offset = Ok (Some (e, n, payload))" "e \<le> length bytes"
proof -
  let ?len = "unat (from_le_bytes (take 4 (drop (offset + 8) bytes)) :: u32)"
  have small: "\<not> length bytes - offset < 12" and max: "?len \<le> MAX_FRAME_BYTES"
    and e: "e = offset + (12 + ?len + 32)" and big: "e < 2 ^ 64" and len: "e \<le> length bytes"
    and sum: "take 32 (drop (offset + 12 + ?len) bytes) = deterministic_hash payload"
    and n: "n = from_le_bytes (take 8 (drop offset bytes))"
    and payload: "payload = take ?len (drop (offset + 12) bytes)"
    using assms
    by (auto simp: read_frame_def Let_def FRAME_HEADER_BYTES_def CHECKSUM_BYTES_def split: if_splits)
  have [simp]: "take i (drop j (bytes @ later)) = take i (drop j bytes)" if "j + i \<le> length bytes" for i j
    using that by simp
  show "e \<le> length bytes" by (rule len)
  have "offset + 8 + 4 \<le> length bytes" "offset + 8 \<le> length bytes" "offset + 12 + ?len \<le> length bytes"
    "offset + 12 + ?len + 32 \<le> length bytes"
    using len e by linarith+
  then show "read_frame (bytes @ later) offset = Ok (Some (e, n, payload))"
    using small max big sum n payload e len
    by (simp add: read_frame_def Let_def FRAME_HEADER_BYTES_def CHECKSUM_BYTES_def add.assoc
        del: take_append drop_append)
qed

section \<open>The loop over frames\<close>

lemma reject_not_continue [simp]: "reject_frame bytes e message s \<noteq> Continue s'"
  by (simp add: reject_frame_def split: option.split)

lemma begin_frame_Continue: "begin_frame bytes start e n payload s = Continue s' \<longleftrightarrow>
    length payload = 5 \<and> marker_count payload \<noteq> 0 \<and> marker_count payload \<le> MAX_BATCH_EVENTS \<and>
    n = st_next (rc_memory s) \<and>
    s' = s\<lparr>rc_start := Some start, rc_expected := marker_count payload, rc_pending := []\<rparr>"
  by (auto simp: begin_frame_def Let_def)

lemma event_frame_Continue: "event_frame bytes e n payload s = Continue s' \<longleftrightarrow>
    n = st_next (rc_memory s) + of_nat (length (rc_pending s)) \<and> 2 \<le> length payload \<and>
    length (rc_pending s) < rc_expected s \<and> s' = s\<lparr>rc_pending := rc_pending s @ [(n, drop 1 payload)]\<rparr>"
  by (auto simp: event_frame_def)

lemma commit_frame_Continue: "commit_frame bytes start e n payload s = Continue s' \<longleftrightarrow>
    length payload = 37 \<and> length (rc_pending s) = rc_expected s \<and>
    n = st_next (rc_memory s) + of_nat (length (rc_pending s)) \<and> marker_count payload = rc_expected s \<and>
    drop 5 payload = batch_digest (map snd (rc_pending s)) \<and>
    (\<exists>evs m. decode_pending (rc_pending s) = Ok evs \<and>
       es_append_batch evs (rc_memory s) = (Ok (map fst (rc_pending s)), m) \<and> s' = recovery_new m)"
proof -
  have "(case decode_pending (rc_pending s) of
         Err _ \<Rightarrow> if e = length bytes then Repair start else Fail (EsCorrupt ''invalid event in committed batch'')
       | Ok events \<Rightarrow> (case es_append_batch events (rc_memory s) of
           (Err x, _) \<Rightarrow> Fail x
         | (Ok ns, memory) \<Rightarrow>
             if ns \<noteq> map fst (rc_pending s) then Fail (EsCorrupt ''committed batch sequence mismatch'')
             else Continue \<lparr>rc_memory = memory, rc_start = None, rc_pending = [], rc_expected = 0\<rparr>)) = Continue s' \<longleftrightarrow>
     (\<exists>evs m. decode_pending (rc_pending s) = Ok evs \<and>
       es_append_batch evs (rc_memory s) = (Ok (map fst (rc_pending s)), m) \<and> s' = recovery_new m)"
    by (auto simp: recovery_new_def split: result.splits prod.splits)
  moreover have "(if c then if q then Repair a else Fail x else r) = Continue s' \<longleftrightarrow> \<not> c \<and> r = Continue s'"
    for c q a x r by simp
  ultimately show ?thesis unfolding commit_frame_def by (simp only: de_Morgan_disj not_not conj_assoc)
qed

lemma recover_frame_Continue: "recover_frame bytes start e n payload s = Continue s' \<longleftrightarrow>
    (\<exists>b rest. payload = b # rest \<and>
      (case rc_start s of
         None \<Rightarrow> b = BATCH_BEGIN \<and> begin_frame bytes start e n payload s = Continue s'
       | Some st \<Rightarrow> b = BATCH_EVENT \<and> event_frame bytes e n payload s = Continue s' \<or>
           b = BATCH_COMMIT \<and> commit_frame bytes st e n payload s = Continue s'))"
  by (auto simp: recover_frame_def BATCH_EVENT_def BATCH_COMMIT_def split: option.splits list.splits)

lemma recover_frame_more:
  "recover_frame bytes start e n payload s = Continue s' \<Longrightarrow> recover_frame bytes' start e' n payload s = Continue s'"
  unfolding recover_frame_Continue begin_frame_Continue event_frame_Continue commit_frame_Continue .

definition recovery_idle :: "recovery \<Rightarrow> bool" where
  "recovery_idle s \<longleftrightarrow> (rc_start s = None \<longrightarrow> s = recovery_new (rc_memory s))"

lemma recovery_idle_new [simp]: "recovery_idle (recovery_new m)"
  by (simp add: recovery_idle_def recovery_new_def)

lemma recovery_idle_frame:
  assumes "recover_frame bytes start e n payload s = Continue s'"
  shows "recovery_idle s'"
  using assms
  unfolding recover_frame_Continue begin_frame_Continue event_frame_Continue commit_frame_Continue
  by (auto simp: recovery_idle_def recovery_new_def split: option.splits)

lemma recover_loop_end: "length bytes \<le> offset \<Longrightarrow> recover_loop bytes offset s = Ok (rc_memory s, rc_start s)"
  by (subst recover_loop.simps) simp

lemma recover_loop_more:
  assumes "recover_loop bytes offset s = Ok (m, None)" and "offset \<le> length bytes" and "recovery_idle s"
  shows "recover_loop (bytes @ later) offset s = recover_loop (bytes @ later) (length bytes) (recovery_new m)"
  using assms
proof (induction bytes offset s rule: recover_loop.induct)
  case (1 bytes offset s)
  show ?case
  proof (cases "length bytes \<le> offset")
    case True
    with 1(2) have "rc_memory s = m" "rc_start s = None" by (simp_all add: recover_loop_end)
    with True 1(3,4) show ?thesis by (simp add: recovery_idle_def)
  next
    case False
    with 1(2) obtain e n payload s' where read: "read_frame bytes offset = Ok (Some (e, n, payload))"
      and step: "recover_frame bytes offset e n payload s = Continue s'"
      and rest: "recover_loop bytes e s' = Ok (m, None)"
      by (subst (asm) recover_loop.simps)
        (auto split: result.splits option.splits recovery_outcome.splits if_splits)
    note read' = read_frame_more [OF read]
    have "recover_loop (bytes @ later) offset s = recover_loop (bytes @ later) e s'"
      using False read'(1) [of later] recover_frame_more [OF step]
      by (subst recover_loop.simps) simp
    also have "\<dots> = recover_loop (bytes @ later) (length bytes) (recovery_new m)"
      by (rule 1(1) [OF False read refl refl refl step rest read'(2) recovery_idle_frame [OF step]])
    finally show ?thesis .
  qed
qed

lemma recover_loop_frame:
  assumes "length payload \<le> MAX_FRAME_BYTES" and "length pre + length (frame n payload) < 2 ^ 64"
    and "\<And>bytes e. recover_frame bytes (length pre) e n payload s = Continue s'"
  shows "recover_loop (pre @ frame n payload @ post) (length pre) s
    = recover_loop (pre @ frame n payload @ post) (length (pre @ frame n payload)) s'"
  using read_frame_whole [OF assms(1,2)] assms(3)
  by (subst recover_loop.simps) simp

lemma recover_loop_torn:
  assumes "length payload \<le> MAX_FRAME_BYTES" and "length pre + length (frame n payload) < 2 ^ 64"
    and "k < length (frame n payload)"
  shows "recover_loop (pre @ take k (frame n payload)) (length pre) s
    = Ok (rc_memory s, if k = 0 then rc_start s else Some (repair_point s (length pre)))"
proof (cases "k = 0")
  case True
  then show ?thesis by (simp add: recover_loop_end)
next
  case False
  then have "\<not> length (pre @ take k (frame n payload)) \<le> length pre" using assms(3) by simp
  then show ?thesis
    using False read_frame_torn [OF assms] by (subst recover_loop.simps) (simp del: length_append length_take)
qed

section \<open>A batch\<close>

definition event_frames :: "(sequence \<times> u8 list) list \<Rightarrow> u8 list" where
  "event_frames fs = concat (map (\<lambda>(n, p). frame n (BATCH_EVENT # p)) fs)"

definition begin_payload :: "(sequence \<times> u8 list) list \<Rightarrow> u8 list" where
  "begin_payload fs = encode_control_payload BATCH_BEGIN (of_nat (length fs)) (replicate 32 0)"

definition commit_payload :: "(sequence \<times> u8 list) list \<Rightarrow> u8 list" where
  "commit_payload fs = encode_control_payload BATCH_COMMIT (of_nat (length fs)) (batch_digest (map snd fs))"

definition batch_image :: "(sequence \<times> u8 list) list \<Rightarrow> u8 list" where
  "batch_image fs = frame (fst (hd fs)) (begin_payload fs) @ event_frames fs
     @ frame (fst (last fs) + 1) (commit_payload fs)"

lemma event_frames_Cons [simp]: "event_frames ((n, p) # fs) = frame n (BATCH_EVENT # p) @ event_frames fs"
  by (simp add: event_frames_def)

lemma event_frames_Nil [simp]: "event_frames [] = []"
  by (simp add: event_frames_def)

lemma length_batch_digest [simp]: "length (batch_digest ps) = 32"
  by (simp add: batch_digest_def)

lemma control_payloads:
  "length (begin_payload fs) = 5" "length (commit_payload fs) = 37"
  "drop 5 (commit_payload fs) = batch_digest (map snd fs)"
  by (simp_all add: begin_payload_def commit_payload_def encode_control_payload_def BATCH_BEGIN_def
      BATCH_COMMIT_def)

lemma control_heads:
  "\<exists>rest. begin_payload fs = BATCH_BEGIN # rest" "\<exists>rest. commit_payload fs = BATCH_COMMIT # rest"
  by (simp_all add: begin_payload_def commit_payload_def encode_control_payload_def BATCH_BEGIN_def
      BATCH_COMMIT_def)

lemma marker_counts:
  assumes "length fs < 2 ^ 32"
  shows "marker_count (begin_payload fs) = length fs" "marker_count (commit_payload fs) = length fs"
proof -
  have "unat (of_nat (length fs) :: u32) = length fs"
    using assms by (simp add: unsigned_of_nat take_bit_nat_eq_self)
  then show "marker_count (begin_payload fs) = length fs" "marker_count (commit_payload fs) = length fs"
    by (simp_all add: marker_count_def begin_payload_def commit_payload_def encode_control_payload_def
        from_to_le_bytes)
qed

lemma append_event_frames:
  assumes "try_fold (\<lambda>bytes (n, payload). append_frame bytes n (BATCH_EVENT # payload)) bytes fs = Ok bs"
  shows "bs = bytes @ event_frames fs \<and> (\<forall>(n, p) \<in> set fs. Suc (length p) \<le> MAX_FRAME_BYTES)"
  using assms
proof (induction fs arbitrary: bytes)
  case (Cons f fs)
  obtain n p where f: "f = (n, p)" by (cases f)
  with Cons.prems have fit: "Suc (length p) \<le> MAX_FRAME_BYTES"
    and rest: "try_fold (\<lambda>bytes (n, payload). append_frame bytes n (BATCH_EVENT # payload))
      (bytes @ frame n (BATCH_EVENT # p)) fs = Ok bs"
    by (auto simp: append_frame_Ok)
  from Cons.IH [OF rest] fit show ?case by (simp add: f)
qed simp

lemma batch_bytes_Ok:
  assumes "batch_bytes fs = Ok bs"
  shows "bs = batch_image fs" "\<forall>(n, p) \<in> set fs. Suc (length p) \<le> MAX_FRAME_BYTES" "length fs < 2 ^ 32"
proof -
  obtain b1 where small: "length fs < 2 ^ 32"
    and events: "try_fold (\<lambda>bytes (n, payload). append_frame bytes n (BATCH_EVENT # payload))
      ([] @ frame (fst (hd fs)) (begin_payload fs)) fs = Ok b1"
    and bs: "bs = b1 @ frame (fst (last fs) + 1) (commit_payload fs)"
    using assms unfolding batch_bytes_def Let_def begin_payload_def [symmetric] commit_payload_def [symmetric]
    by (auto simp: append_frame_Ok split: if_splits)
  show "bs = batch_image fs" "\<forall>(n, p) \<in> set fs. Suc (length p) \<le> MAX_FRAME_BYTES"
    using append_event_frames [OF events] bs by (auto simp: batch_image_def)
  show "length fs < 2 ^ 32" by (rule small)
qed

text \<open>The frames of events, inside a batch that has begun.\<close>

definition frames_fit :: "recovery \<Rightarrow> (sequence \<times> u8 list) list \<Rightarrow> bool" where
  "frames_fit s fs \<longleftrightarrow> rc_start s \<noteq> None \<and> length (rc_pending s) + length fs \<le> rc_expected s \<and>
     (\<forall>i < length fs. fst (fs ! i) = st_next (rc_memory s) + of_nat (length (rc_pending s) + i)) \<and>
     (\<forall>(n, p) \<in> set fs. p \<noteq> [] \<and> Suc (length p) \<le> MAX_FRAME_BYTES)"

lemma frames_fit_step:
  assumes "frames_fit s ((n, p) # fs)"
  shows "recover_frame bytes start e n (BATCH_EVENT # p) s = Continue (s\<lparr>rc_pending := rc_pending s @ [(n, p)]\<rparr>)"
    "frames_fit (s\<lparr>rc_pending := rc_pending s @ [(n, p)]\<rparr>) fs" "length (BATCH_EVENT # p) \<le> MAX_FRAME_BYTES"
proof -
  have first: "n = st_next (rc_memory s) + of_nat (length (rc_pending s))"
    and later: "\<forall>i < length fs. fst (fs ! i) = st_next (rc_memory s) + of_nat (length (rc_pending s) + Suc i)"
    using assms by (auto simp: frames_fit_def nth_Cons split: nat.splits)
  then show "frames_fit (s\<lparr>rc_pending := rc_pending s @ [(n, p)]\<rparr>) fs"
    using assms by (simp add: frames_fit_def)
  have "2 \<le> length (BATCH_EVENT # p)" using assms by (cases p) (simp_all add: frames_fit_def)
  then show "recover_frame bytes start e n (BATCH_EVENT # p) s = Continue (s\<lparr>rc_pending := rc_pending s @ [(n, p)]\<rparr>)"
    using assms first unfolding recover_frame_Continue event_frame_Continue
    by (auto simp: frames_fit_def)
  show "length (BATCH_EVENT # p) \<le> MAX_FRAME_BYTES" using assms by (simp add: frames_fit_def)
qed

lemma recover_events:
  assumes "frames_fit s fs" and "length pre + length (event_frames fs) < 2 ^ 64"
  shows "recover_loop (pre @ event_frames fs @ post) (length pre) s
    = recover_loop (pre @ event_frames fs @ post) (length (pre @ event_frames fs))
        (s\<lparr>rc_pending := rc_pending s @ fs\<rparr>)"
  using assms
proof (induction fs arbitrary: pre s)
  case Nil
  then show ?case by simp
next
  case (Cons f fs)
  obtain n p where f: "f = (n, p)" by (cases f)
  note fit = frames_fit_step [OF Cons.prems(1) [unfolded f]]
  let ?s = "s\<lparr>rc_pending := rc_pending s @ [(n, p)]\<rparr>"
  have "recover_loop (pre @ frame n (BATCH_EVENT # p) @ (event_frames fs @ post)) (length pre) s
      = recover_loop (pre @ frame n (BATCH_EVENT # p) @ (event_frames fs @ post))
          (length (pre @ frame n (BATCH_EVENT # p))) ?s"
    using Cons.prems(2) by (intro recover_loop_frame fit) (simp add: f)
  with Cons.IH [OF fit(2), of "pre @ frame n (BATCH_EVENT # p)"] Cons.prems(2) show ?case
    by (simp add: f add.assoc)
qed

lemma recover_torn_events:
  assumes "frames_fit s fs" and "length cp \<le> MAX_FRAME_BYTES"
    and "length pre + length (event_frames fs @ frame nc cp) < 2 ^ 64"
    and "k < length (event_frames fs @ frame nc cp)"
  shows "recover_loop (pre @ take k (event_frames fs @ frame nc cp)) (length pre) s
    = Ok (rc_memory s, rc_start s)"
  using assms
proof (induction fs arbitrary: pre s k)
  case Nil
  then show ?case
    by (auto simp: recover_loop_torn frames_fit_def repair_point_def split: option.split)
next
  case (Cons f fs)
  obtain n p where f: "f = (n, p)" by (cases f)
  let ?f = "frame n (BATCH_EVENT # p)"
  note fit = frames_fit_step [OF Cons.prems(1) [unfolded f]]
  show ?case
  proof (cases "k < length ?f")
    case True
    then have "take k (event_frames (f # fs) @ frame nc cp) = take k ?f" by (simp add: f)
    moreover have "length pre + length ?f < 2 ^ 64" using Cons.prems(3) by (simp add: f)
    moreover have "rc_start s \<noteq> None" using Cons.prems(1) by (simp add: frames_fit_def)
    ultimately show ?thesis
      using recover_loop_torn [OF fit(3), of pre n k s] True by (auto simp: repair_point_def split: option.split)
  next
    case False
    then have cut: "take k (event_frames (f # fs) @ frame nc cp)
        = ?f @ take (k - length ?f) (event_frames fs @ frame nc cp)"
      by (simp add: f)
    have "recover_loop (pre @ ?f @ take (k - length ?f) (event_frames fs @ frame nc cp)) (length pre) s
        = recover_loop (pre @ ?f @ take (k - length ?f) (event_frames fs @ frame nc cp)) (length (pre @ ?f))
            (s\<lparr>rc_pending := rc_pending s @ [(n, p)]\<rparr>)"
      using Cons.prems(3) by (intro recover_loop_frame fit) (simp add: f)
    also have "\<dots> = Ok (rc_memory s, rc_start s)"
      using Cons.IH [OF fit(2) Cons.prems(2), of "pre @ ?f" "k - length ?f"] Cons.prems(3,4) False
      by (simp add: f)
    finally show ?thesis unfolding cut .
  qed
qed

text \<open>The frames of a whole batch, for a store \<open>m\<close> that the batch turns into \<open>m'\<close>.\<close>

definition batch_of :: "event_store \<Rightarrow> (sequence \<times> u8 list) list \<Rightarrow> event_store \<Rightarrow> bool" where
  "batch_of m fs m' \<longleftrightarrow> fs \<noteq> [] \<and> length fs \<le> MAX_BATCH_EVENTS \<and>
     (\<forall>i < length fs. fst (fs ! i) = st_next m + of_nat i) \<and>
     (\<forall>(n, p) \<in> set fs. p \<noteq> [] \<and> Suc (length p) \<le> MAX_FRAME_BYTES) \<and>
     (\<exists>evs. decode_pending fs = Ok evs \<and> es_append_batch evs m = (Ok (map fst fs), m'))"

definition in_batch :: "event_store \<Rightarrow> nat \<Rightarrow> nat \<Rightarrow> recovery" where
  "in_batch m start n = \<lparr>rc_memory = m, rc_start = Some start, rc_pending = [], rc_expected = n\<rparr>"

lemma batch_small:
  assumes "batch_of m fs m'"
  shows "length fs < 2 ^ 32" "0 < length fs" "length fs \<le> MAX_BATCH_EVENTS"
  using assms by (auto simp: batch_of_def MAX_BATCH_EVENTS_def)

lemma control_fit:
  "length (begin_payload fs) \<le> MAX_FRAME_BYTES" "length (commit_payload fs) \<le> MAX_FRAME_BYTES"
  by (simp_all add: control_payloads MAX_FRAME_BYTES_def)

lemma batch_bytes_image:
  assumes "\<forall>(n, p) \<in> set fs. Suc (length p) \<le> MAX_FRAME_BYTES" and "length fs < 2 ^ 32"
  shows "batch_bytes fs = Ok (batch_image fs)"
proof -
  have events: "try_fold (\<lambda>bytes (n, payload). append_frame bytes n (BATCH_EVENT # payload)) bytes gs
      = Ok (bytes @ event_frames gs)" if "set gs \<subseteq> set fs" for bytes gs
    using that
  proof (induction gs arbitrary: bytes)
    case (Cons g gs)
    obtain n p where g: "g = (n, p)" by (cases g)
    then have "append_frame bytes n (BATCH_EVENT # p) = Ok (bytes @ frame n (BATCH_EVENT # p))"
      using assms(1) Cons.prems by (auto simp: append_frame_Ok)
    with Cons show ?case by (simp add: g)
  qed simp
  have ends: "append_frame bytes n p = Ok (bytes @ frame n p)" if "length p \<le> MAX_FRAME_BYTES" for bytes n p
    using that by (simp add: append_frame_Ok)
  show ?thesis
    using assms(2) events [OF subset_refl] ends control_fit [of fs]
    unfolding batch_bytes_def Let_def begin_payload_def [symmetric] commit_payload_def [symmetric]
    by (simp add: batch_image_def)
qed

lemma batch_begins:
  assumes "batch_of m fs m'"
  shows "recover_frame bytes start e (fst (hd fs)) (begin_payload fs) (recovery_new m)
    = Continue (in_batch m start (length fs))"
proof -
  have "fst (hd fs) = st_next m" using assms by (cases fs) (auto simp: batch_of_def)
  then show ?thesis
    using batch_small [OF assms] control_heads(1) [of fs]
    unfolding recover_frame_Continue begin_frame_Continue
    by (auto simp: marker_counts control_payloads recovery_new_def in_batch_def)
qed

lemma batch_fits: "batch_of m fs m' \<Longrightarrow> frames_fit (in_batch m start (length fs)) fs"
  by (simp add: batch_of_def frames_fit_def in_batch_def)

lemma batch_commits:
  assumes "batch_of m fs m'"
  shows "recover_frame bytes start' e (fst (last fs) + 1) (commit_payload fs)
      ((in_batch m start (length fs))\<lparr>rc_pending := fs\<rparr>) = Continue (recovery_new m')"
proof -
  have "fst (last fs) = st_next m + of_nat (length fs - 1)"
    using assms by (simp add: batch_of_def last_conv_nth)
  moreover have "(of_nat (length fs - 1) :: u64) + 1 = of_nat (length fs)"
    using batch_small(2) [OF assms] by (metis Suc_diff_1 of_nat_Suc add.commute)
  ultimately have "fst (last fs) + 1 = st_next m + of_nat (length fs)" by (simp add: add.assoc)
  with assms show ?thesis
    using batch_small [OF assms] control_heads(2) [of fs]
    unfolding recover_frame_Continue commit_frame_Continue
    by (auto simp: marker_counts control_payloads in_batch_def batch_of_def)
qed

lemma recover_batch:
  assumes batch: "batch_of m fs m'" and size: "length pre + length (batch_image fs) < 2 ^ 64"
  shows "recover_loop (pre @ batch_image fs @ post) (length pre) (recovery_new m)
    = recover_loop (pre @ batch_image fs @ post) (length (pre @ batch_image fs)) (recovery_new m')"
proof -
  let ?b = "frame (fst (hd fs)) (begin_payload fs)"
  let ?e = "event_frames fs"
  let ?c = "frame (fst (last fs) + 1) (commit_payload fs)"
  let ?s = "in_batch m (length pre) (length fs)"
  have image: "pre @ batch_image fs @ post = pre @ ?b @ (?e @ ?c @ post)"
    "pre @ batch_image fs @ post = (pre @ ?b) @ ?e @ (?c @ post)"
    "pre @ batch_image fs @ post = (pre @ ?b @ ?e) @ ?c @ post"
    "pre @ batch_image fs = (pre @ ?b @ ?e) @ ?c"
    by (simp_all add: batch_image_def)
  have sizes: "length pre + length ?b < 2 ^ 64" "length (pre @ ?b) + length ?e < 2 ^ 64"
    "length (pre @ ?b @ ?e) + length ?c < 2 ^ 64"
    using size by (simp_all add: batch_image_def)
  have "recover_loop (pre @ batch_image fs @ post) (length pre) (recovery_new m)
      = recover_loop (pre @ batch_image fs @ post) (length (pre @ ?b)) ?s"
    unfolding image(1) by (rule recover_loop_frame [OF control_fit(1) sizes(1) batch_begins [OF batch]])
  also have "\<dots> = recover_loop (pre @ batch_image fs @ post) (length ((pre @ ?b) @ ?e)) (?s\<lparr>rc_pending := fs\<rparr>)"
    unfolding image(2) using recover_events [OF batch_fits [OF batch] sizes(2)] by (simp add: in_batch_def)
  also have "length ((pre @ ?b) @ ?e) = length (pre @ ?b @ ?e)" by simp
  also have "recover_loop (pre @ batch_image fs @ post) (length (pre @ ?b @ ?e)) (?s\<lparr>rc_pending := fs\<rparr>)
      = recover_loop (pre @ batch_image fs @ post) (length ((pre @ ?b @ ?e) @ ?c)) (recovery_new m')"
    unfolding image(3) by (rule recover_loop_frame [OF control_fit(2) sizes(3) batch_commits [OF batch]])
  finally show ?thesis unfolding image(4) .
qed

lemma recover_torn_batch:
  assumes batch: "batch_of m fs m'" and size: "length pre + length (batch_image fs) < 2 ^ 64"
    and torn: "k < length (batch_image fs)"
  shows "recover_loop (pre @ take k (batch_image fs)) (length pre) (recovery_new m)
    = Ok (m, if k = 0 then None else Some (length pre))"
proof -
  let ?b = "frame (fst (hd fs)) (begin_payload fs)"
  let ?rest = "event_frames fs @ frame (fst (last fs) + 1) (commit_payload fs)"
  have image: "batch_image fs = ?b @ ?rest" by (simp add: batch_image_def)
  have sizes: "length pre + length ?b < 2 ^ 64" "length (pre @ ?b) + length ?rest < 2 ^ 64"
    using size by (simp_all add: batch_image_def)
  show ?thesis
  proof (cases "k < length ?b")
    case True
    then have "take k (batch_image fs) = take k ?b" by (simp add: image)
    with recover_loop_torn [OF control_fit(1) sizes(1) True] show ?thesis
      by (simp add: recovery_new_def repair_point_def)
  next
    case False
    then have cut: "take k (batch_image fs) = ?b @ take (k - length ?b) ?rest" by (simp add: image)
    have "recover_loop (pre @ ?b @ take (k - length ?b) ?rest) (length pre) (recovery_new m)
        = recover_loop (pre @ ?b @ take (k - length ?b) ?rest) (length (pre @ ?b)) (in_batch m (length pre) (length fs))"
      by (rule recover_loop_frame [OF control_fit(1) sizes(1) batch_begins [OF batch]])
    also have "\<dots> = Ok (m, Some (length pre))"
      using recover_torn_events [OF batch_fits [OF batch] control_fit(2) sizes(2), of "k - length ?b"]
        torn False by (simp add: image in_batch_def)
    finally show ?thesis using False by (simp add: cut)
  qed
qed

section \<open>An append\<close>

lemma checked_add_1: "checked_add n (1 :: u64) = Some m \<longleftrightarrow> n \<noteq> - 1 \<and> m = n + 1"
proof -
  have "unat n + 1 < 2 ^ 64 \<longleftrightarrow> n \<noteq> - 1"
    using unat_le_max [of n] unat_max_word [where 'a = 64] by (auto simp: word_unat_eq_iff)
  then show ?thesis by (auto simp: checked_add_def)
qed

lemma saturating_add_1: "n \<noteq> - 1 \<Longrightarrow> saturating_add n (1 :: u64) = n + 1"
  using checked_add_1 [of n "n + 1"] by (simp add: checked_add_def saturating_add_def split: if_splits)

lemma first_duplicate_None:
  "first_duplicate m seen evs = None \<longleftrightarrow>
     distinct (map event_ident evs) \<and> event_ident ` set evs \<inter> (st_ids m \<union> seen) = {}"
  by (induction m seen evs rule: first_duplicate.induct) auto

lemma encode_event_visible:
  assumes "encode_event ev = Ok bs"
  shows "bs \<noteq> []"
proof -
  obtain ws :: "string writer list" where "write_seq (write_u64 (event_ident ev) # ws) = Ok bs"
    using assms unfolding encode_event_def append.simps by blast
  then obtain cs where "bs = to_le_bytes (event_ident ev) @ cs"
    unfolding write_seq.simps(2) by (auto simp: write_u64_def)
  then have "8 \<le> length bs" by simp
  then show ?thesis by auto
qed

text \<open>When neither an identifier nor a number stands in the way, the batch goes in under the numbers of its frames.\<close>

lemma batch_goes_in:
  assumes "batch_frames evs (st_next m) = Ok fs" and "first_duplicate m seen evs = None"
  shows "\<exists>m'. es_append_each evs m = (Ok (map fst fs), m') \<and> st_next m' = st_next m + of_nat (length evs)"
  using assms
proof (induction evs arbitrary: m seen fs)
  case Nil
  then show ?case by simp
next
  case (Cons ev evs)
  from Cons.prems(1) obtain payload fs' where last: "st_next m \<noteq> - 1"
    and rest: "batch_frames evs (st_next m + 1) = Ok fs'" and fs: "fs = (st_next m, payload) # fs'"
    by (auto simp: checked_add_1)
  obtain m1 where ap: "es_append ev m = (Ok (st_next m), m1)"
    using Cons.prems(2) by (auto simp: es_append_def split: if_splits)
  have next1: "st_next m1 = st_next m + 1" using es_append_Ok(4) [OF ap] saturating_add_1 [OF last] by simp
  moreover have "first_duplicate m1 {} evs = None"
    using Cons.prems(2) unfolding first_duplicate_None es_append_Ok(5) [OF ap] by auto
  ultimately obtain m' where "es_append_each evs m1 = (Ok (map fst fs'), m')"
    and "st_next m' = st_next m1 + of_nat (length evs)"
    using Cons.IH [of m1 fs' "{}"] rest by auto
  with ap next1 show ?case by (simp add: fs)
qed

lemma batch_frames_Ok:
  assumes "batch_frames evs n = Ok fs"
  shows "length fs = length evs" "\<forall>i < length fs. fst (fs ! i) = n + of_nat i"
    "list_all2 (\<lambda>ev f. encode_event ev = Ok (snd f)) evs fs"
proof -
  have "length fs = length evs \<and> (\<forall>i < length fs. fst (fs ! i) = n + of_nat i) \<and>
      list_all2 (\<lambda>ev f. encode_event ev = Ok (snd f)) evs fs"
    using assms
  proof (induction evs n arbitrary: fs rule: batch_frames.induct)
    case (2 ev evs n)
    from 2(2) obtain payload fs' where enc: "encode_event ev = Ok payload"
      and rest: "batch_frames evs (n + 1) = Ok fs'" and fs: "fs = (n, payload) # fs'"
      by (auto simp: checked_add_1)
    from 2(1) [OF rest] enc show ?case
      by (auto simp: fs nth_Cons add.assoc split: nat.splits)
  qed simp
  then show "length fs = length evs" "\<forall>i < length fs. fst (fs ! i) = n + of_nat i"
    "list_all2 (\<lambda>ev f. encode_event ev = Ok (snd f)) evs fs" by blast+
qed

lemma decode_pending_encoded:
  assumes "list_all2 (\<lambda>ev f. encode_event ev = Ok (snd f)) evs fs" and "\<forall>ev \<in> set evs. kind_text (event_knd ev)"
    and "\<forall>(n, p) \<in> set fs. Suc (length p) \<le> MAX_FRAME_BYTES"
  shows "decode_pending fs = Ok evs"
  using assms
proof (induction rule: list_all2_induct)
  case (Cons ev evs f fs)
  obtain n p where f: "f = (n, p)" by (cases f)
  have "decode_event p = Ok ev"
    using Cons by (intro decode_encode_event) (auto simp: f)
  with Cons show ?case by (simp add: f)
qed simp

section \<open>The store and its file\<close>

text \<open>Opening the file of the store gives the store.\<close>

definition file_ok :: "file_store \<Rightarrow> bool" where
  "file_ok fs \<longleftrightarrow> fs_version fs = 2 \<and> bytes_start (fs_disk fs) EVENT_MAGIC \<and>
     recover_batched_events (fs_disk fs) EVENT_MAGIC = Ok (fs_memory fs, None)"

lemma magic_length [simp]: "length EVENT_MAGIC = 15" "length EVENT_MAGIC_V1 = 15"
  by (simp_all add: EVENT_MAGIC_def EVENT_MAGIC_V1_def)

lemma bytes_start_long: "bytes_start bytes magic \<Longrightarrow> length magic \<le> length bytes"
  by (metis bytes_start_def length_take min.cobounded1)

lemma bytes_start_append:
  assumes "bytes_start bytes magic"
  shows "bytes_start (bytes @ later) magic"
  using assms bytes_start_long [OF assms] by (simp add: bytes_start_def)

lemma open_recovered:
  assumes "bytes_start bytes EVENT_MAGIC" and "recover_batched_events bytes EVENT_MAGIC = Ok (m, repair)"
  shows "open_log bytes = Ok \<lparr>fs_version = 2, fs_memory = m,
    fs_disk = (case repair of None \<Rightarrow> bytes | Some offset \<Rightarrow> take offset bytes)\<rparr>"
proof -
  have "bytes \<noteq> []" using bytes_start_long [OF assms(1)] by auto
  with assms show ?thesis by (simp add: open_log_def Let_def)
qed

lemma file_ok_open:
  assumes "file_ok fs"
  shows "open_log (fs_disk fs) = Ok fs"
  using assms open_recovered [of "fs_disk fs" "fs_memory fs" None] by (cases fs) (simp add: file_ok_def)

lemma open_new: "\<exists>fs. open_log [] = Ok fs \<and> file_ok fs \<and> fs_memory fs = event_store_new \<and> fs_disk fs = EVENT_MAGIC"
proof -
  have "recover_batched_events EVENT_MAGIC EVENT_MAGIC = Ok (event_store_new, None)"
    by (simp add: recover_batched_events_def recover_loop_end recovery_new_def)
  moreover have "bytes_start EVENT_MAGIC EVENT_MAGIC" by (simp add: bytes_start_def)
  moreover have "open_log [] = open_log EVENT_MAGIC"
    by (simp add: open_log_def EVENT_MAGIC_def Let_def)
  ultimately show ?thesis by (simp add: open_recovered file_ok_def)
qed

text \<open>An append that reached the file, whatever the operating system said afterwards.\<close>

lemma append_on_disk:
  assumes "file_append_batch Written evs fs = (Ok ns, fs')" and "\<forall>ev \<in> set evs. kind_text (event_knd ev)"
    and "evs \<noteq> []"
  shows "\<exists>frames. batch_of (fs_memory fs) frames (fs_memory fs') \<and> ns = map fst frames \<and>
    length frames = length evs \<and> es_append_batch evs (fs_memory fs) = (Ok ns, fs_memory fs') \<and>
    st_next (fs_memory fs') = st_next (fs_memory fs) + of_nat (length frames) \<and>
    fs' = fs\<lparr>fs_memory := fs_memory fs', fs_disk := fs_disk fs @ batch_image frames\<rparr> \<and>
    (\<forall>k message. file_append_batch (WriteFailed k message) evs fs =
         (Err (EsStorage message), fs\<lparr>fs_disk := fs_disk fs @ take k (batch_image frames)\<rparr>))"
proof -
  let ?m = "fs_memory fs"
  have v: "fs_version fs \<noteq> 1" and n: "length evs \<le> MAX_BATCH_EVENTS" and fresh: "first_duplicate ?m {} evs = None"
    using assms(1) by (auto simp: file_append_batch_def split: if_splits option.splits)
  obtain frames where frames: "batch_frames evs (st_next ?m) = Ok frames"
    using assms(1) v n fresh by (cases "batch_frames evs (st_next ?m)") (auto simp: file_append_batch_def)
  note fr = batch_frames_Ok [OF frames]
  have ne: "frames \<noteq> []" using fr(1) assms(3) by auto
  obtain bytes where bytes: "batch_bytes frames = Ok bytes"
    using assms(1) v n fresh frames ne
    by (cases "batch_bytes frames") (auto simp: file_append_batch_def append_frames_def)
  note image = batch_bytes_Ok [OF bytes]
  obtain m' where each: "es_append_each evs ?m = (Ok (map fst frames), m')"
    and num: "st_next m' = st_next ?m + of_nat (length evs)"
    using batch_goes_in [OF frames fresh] by blast
  then have batch: "es_append_batch evs ?m = (Ok (map fst frames), m')" by (simp add: es_append_batch_def)
  have fs': "fs' = fs\<lparr>fs_memory := m', fs_disk := fs_disk fs @ batch_image frames\<rparr>" and ns: "ns = map fst frames"
    using assms(1) v n fresh frames ne bytes batch
    by (simp_all add: file_append_batch_def append_frames_def image(1))
  have visible: "p \<noteq> []" if mem: "(k, p) \<in> set frames" for k p
  proof -
    obtain i where "i < length frames" "frames ! i = (k, p)" using mem unfolding in_set_conv_nth by blast
    with fr(3) have "encode_event (evs ! i) = Ok p" by (auto simp: list_all2_conv_all_nth)
    then show ?thesis by (rule encode_event_visible)
  qed
  have "batch_of ?m frames m'"
    unfolding batch_of_def
    using ne n fr(1,2) visible image(2) decode_pending_encoded [OF fr(3) assms(2) image(2)] batch by auto
  moreover have "file_append_batch (WriteFailed k message) evs fs =
      (Err (EsStorage message), fs\<lparr>fs_disk := fs_disk fs @ take k (batch_image frames)\<rparr>)" for k message
    using v n fresh frames ne bytes by (simp add: file_append_batch_def append_frames_def image(1))
  ultimately show ?thesis using fs' ns fr(1) batch num by auto
qed

lemma file_ok_torn:
  assumes ok: "file_ok fs" and batch: "batch_of (fs_memory fs) frames m'"
    and size: "length (fs_disk fs) + length (batch_image frames) < 2 ^ 64"
  defines "fs' \<equiv> fs\<lparr>fs_memory := m', fs_disk := fs_disk fs @ batch_image frames\<rparr>"
  shows "file_ok fs'"
    "open_log (fs_disk fs @ take k (batch_image frames)) = Ok (if length (batch_image frames) \<le> k then fs' else fs)"
proof -
  let ?d = "fs_disk fs"
  let ?b = "batch_image frames"
  have start: "bytes_start (?d @ later) EVENT_MAGIC" for later
    using ok by (intro bytes_start_append) (simp add: file_ok_def)
  have long: "15 \<le> length ?d" using bytes_start_long [of ?d EVENT_MAGIC] ok by (simp add: file_ok_def)
  have rec: "recover_loop ?d 15 (recovery_new event_store_new) = Ok (fs_memory fs, None)"
    using ok by (simp add: file_ok_def recover_batched_events_def)
  have go: "recover_batched_events (?d @ later) EVENT_MAGIC = recover_loop (?d @ later) (length ?d) (recovery_new (fs_memory fs))"
    for later
    unfolding recover_batched_events_def magic_length by (rule recover_loop_more [OF rec long recovery_idle_new])
  have whole: "recover_batched_events (?d @ ?b) EVENT_MAGIC = Ok (m', None)"
    using recover_batch [OF batch size, of "[]"] unfolding go
    by (simp add: recover_loop_end recovery_new_def)
  with ok start show "file_ok fs'" by (simp add: file_ok_def fs'_def)
  show "open_log (?d @ take k ?b) = Ok (if length ?b \<le> k then fs' else fs)"
  proof (cases "length ?b \<le> k")
    case True
    have "fs' = \<lparr>fs_version = 2, fs_memory = m', fs_disk = ?d @ ?b\<rparr>"
      using ok by (cases fs) (simp add: fs'_def file_ok_def)
    with True open_recovered [OF start whole] show ?thesis by simp
  next
    case False
    have "fs = \<lparr>fs_version = 2, fs_memory = fs_memory fs, fs_disk = ?d\<rparr>"
      using ok by (cases fs) (simp add: file_ok_def)
    moreover have "recover_batched_events (?d @ take k ?b) EVENT_MAGIC
        = Ok (fs_memory fs, if k = 0 then None else Some (length ?d))"
      unfolding go by (rule recover_torn_batch [OF batch size]) (use False in simp)
    ultimately show ?thesis using False open_recovered [OF start, of "take k ?b"] by simp
  qed
qed

section \<open>Every history of a file\<close>

text \<open>
  A file is created, appended to, opened again, and cut by a crash during an append, in any order;
  \<open>acked\<close> are the events whose append returned. A crash loses the process, so the store after it is
  the one that opening the file gives.
\<close>

inductive log_history :: "event list \<Rightarrow> file_store \<Rightarrow> bool" where
  log_created: "open_log [] = Ok fs \<Longrightarrow> log_history [] fs"
| log_appended: "log_history acked fs \<Longrightarrow> file_append_batch Written evs fs = (Ok ns, fs') \<Longrightarrow>
    \<forall>ev \<in> set evs. kind_text (event_knd ev) \<Longrightarrow> length (fs_disk fs') < 2 ^ 64 \<Longrightarrow>
    log_history (acked @ evs) fs'"
| log_refused: "log_history acked fs \<Longrightarrow> file_append_batch Written evs fs = (Err x, fs') \<Longrightarrow>
    fs_disk fs' = fs_disk fs \<Longrightarrow> log_history acked fs'"
| log_crashed: "log_history acked fs \<Longrightarrow> file_append_batch Written evs fs = (Ok ns, fs') \<Longrightarrow>
    \<forall>ev \<in> set evs. kind_text (event_knd ev) \<Longrightarrow> length (fs_disk fs') < 2 ^ 64 \<Longrightarrow>
    length (fs_disk fs) \<le> k \<Longrightarrow> open_log (take k (fs_disk fs')) = Ok fs'' \<Longrightarrow> log_history acked fs''"
| log_opened: "log_history acked fs \<Longrightarrow> open_log (fs_disk fs) = Ok fs' \<Longrightarrow> log_history acked fs'"

text \<open>The append of nothing, and an append that fails before anything is written.\<close>

lemma append_nothing: "file_append_batch Written [] fs = (Ok ns, fs') \<Longrightarrow> fs' = fs \<and> ns = []"
  by (auto simp: file_append_batch_def split: if_splits)

lemma append_refused:
  assumes "file_append_batch Written evs fs = (Err x, fs')" and "fs_disk fs' = fs_disk fs"
  shows "fs' = fs"
proof (cases "fs_version fs = 1 \<or> MAX_BATCH_EVENTS < length evs \<or> first_duplicate (fs_memory fs) {} evs \<noteq> None")
  case True
  with assms(1) show ?thesis by (auto simp: file_append_batch_def split: if_splits)
next
  case False
  then show ?thesis
  proof (cases "batch_frames evs (st_next (fs_memory fs))")
    case (Err e)
    with False assms(1) show ?thesis by (simp add: file_append_batch_def)
  next
    case (Ok frames)
    with False obtain m' where "es_append_each evs (fs_memory fs) = (Ok (map fst frames), m')"
      using batch_goes_in [OF Ok, of "{}"] by auto
    with False Ok assms(1) show ?thesis
      by (cases "batch_bytes frames")
        (auto simp: file_append_batch_def append_frames_def es_append_batch_def split: if_splits)
  qed
qed

lemma batch_events:
  assumes "es_append_batch evs m = (Ok ns, m')"
  shows "map se_event (st_events m') = map se_event (st_events m) @ evs"
proof -
  note each = es_append_each_Ok [OF es_append_batch_Ok [OF assms]]
  have "map se_event (map2 (\<lambda>n ev. \<lparr>se_sequence = n, se_event = ev\<rparr>) ns evs) = evs"
    using each(1) by (intro nth_equalityI) simp_all
  then show ?thesis by (simp add: each(2))
qed

text \<open>One append, complete or cut off anywhere.\<close>

lemma append_crash:
  assumes ok: "file_ok fs" and ap: "file_append_batch Written evs fs = (Ok ns, fs')"
    and typed: "\<forall>ev \<in> set evs. kind_text (event_knd ev)" and size: "length (fs_disk fs') < 2 ^ 64"
  shows "file_ok fs'"
    "\<exists>tail. fs_disk fs' = fs_disk fs @ tail \<and>
       (\<forall>k. open_log (fs_disk fs @ take k tail) = Ok (if length tail \<le> k then fs' else fs))"
    "es_append_batch evs (fs_memory fs) = (Ok ns, fs_memory fs')"
proof -
  have "file_ok fs' \<and> (\<exists>tail. fs_disk fs' = fs_disk fs @ tail \<and>
       (\<forall>k. open_log (fs_disk fs @ take k tail) = Ok (if length tail \<le> k then fs' else fs))) \<and>
     es_append_batch evs (fs_memory fs) = (Ok ns, fs_memory fs')"
  proof (cases "evs = []")
    case True
    with ap have "fs' = fs" "ns = []" using append_nothing by blast+
    with True ok file_ok_open [OF ok] show ?thesis
      by (auto simp: es_append_batch_def intro!: exI [of _ "[]"])
  next
    case False
    from append_on_disk [OF ap typed False] obtain frames
      where batch: "batch_of (fs_memory fs) frames (fs_memory fs')"
        and whole: "es_append_batch evs (fs_memory fs) = (Ok ns, fs_memory fs')"
        and fs': "fs' = fs\<lparr>fs_memory := fs_memory fs', fs_disk := fs_disk fs @ batch_image frames\<rparr>" by blast
    have disk: "fs_disk fs' = fs_disk fs @ batch_image frames" by (subst fs') simp
    then have "length (fs_disk fs) + length (batch_image frames) < 2 ^ 64" using size by simp
    note torn = file_ok_torn [OF ok batch this, folded fs']
    with whole disk show ?thesis by blast
  qed
  then show "file_ok fs'"
    "\<exists>tail. fs_disk fs' = fs_disk fs @ tail \<and>
       (\<forall>k. open_log (fs_disk fs @ take k tail) = Ok (if length tail \<le> k then fs' else fs))"
    "es_append_batch evs (fs_memory fs) = (Ok ns, fs_memory fs')" by blast+
qed

lemma log_history_ok:
  assumes "log_history acked fs"
  shows "file_ok fs \<and> subseq acked (map se_event (st_events (fs_memory fs))) \<and> store_reachable (fs_memory fs)"
  using assms
proof (induction rule: log_history.induct)
  case (log_created fs)
  then show ?case using open_new by (auto simp: event_store_new_def reach_new [unfolded event_store_new_def])
next
  case (log_appended acked fs evs ns fs')
  then have ok: "file_ok fs" by blast
  note crash = append_crash [OF ok log_appended.hyps(2-4)]
  have "subseq (acked @ evs) (map se_event (st_events (fs_memory fs) ) @ evs)"
    using log_appended by (intro list_emb_append_mono) auto
  with crash(1) log_appended reach_step [OF _ step_batch [OF crash(3)]] show ?case
    by (simp add: batch_events [OF crash(3)])
next
  case (log_refused acked fs evs x fs')
  then show ?case using append_refused by blast
next
  case (log_crashed acked fs evs ns fs' k fs'')
  then have ok: "file_ok fs" by blast
  note crash = append_crash [OF ok log_crashed.hyps(2-4)]
  from crash(2) obtain tail where disk: "fs_disk fs' = fs_disk fs @ tail"
    and torn: "\<And>k. open_log (fs_disk fs @ take k tail) = Ok (if length tail \<le> k then fs' else fs)" by blast
  have "take k (fs_disk fs') = fs_disk fs @ take (k - length (fs_disk fs)) tail"
    using log_crashed.hyps(5) by (simp add: disk)
  then have "fs'' = fs \<or> fs'' = fs'" using log_crashed.hyps(6) torn by (auto split: if_splits)
  moreover have "subseq acked (map se_event (st_events (fs_memory fs')))"
    using log_crashed by (simp add: batch_events [OF crash(3)] list_emb_prefix)
  ultimately show ?case
    using log_crashed crash(1) reach_step [OF _ step_batch [OF crash(3)]] by auto
next
  case (log_opened acked fs fs')
  then show ?case using file_ok_open by fastforce
qed

section \<open>Properties\<close>

text \<open>
  C4: a crash during an append is harmless. Whatever part of the bytes of an append is in the file
  when the process dies, opening the file succeeds and gives either the store before the append or
  the one after it, the latter exactly if all bytes are there; the torn end is cut off.
\<close>

theorem append_is_atomic:
  assumes "log_history acked fs" and "file_append_batch Written evs fs = (Ok ns, fs')"
    and "\<forall>ev \<in> set evs. kind_text (event_knd ev)" and "length (fs_disk fs') < 2 ^ 64"
  shows "\<exists>tail. fs_disk fs' = fs_disk fs @ tail \<and>
    (\<forall>k. open_log (fs_disk fs @ take k tail) = Ok (if length tail \<le> k then fs' else fs))"
  using append_crash(2) [OF _ assms(2-4)] log_history_ok [OF assms(1)] by blast

text \<open>
  C5: no acknowledged event is lost. After any history of appends, refusals, crashes during appends
  and openings, opening the file gives the store that is in memory, and the events whose append
  returned are in it, in their order; and the store in memory is one that the operations of the
  in-memory store reach.
\<close>

theorem acknowledged_events_durable:
  assumes "log_history acked fs"
  shows "open_log (fs_disk fs) = Ok fs \<and> subseq acked (map se_event (st_events (fs_memory fs))) \<and>
    store_reachable (fs_memory fs)"
  using log_history_ok [OF assms] file_ok_open by blast

text \<open>
  C38: a store that stays open after a failed write ruins its file. If all bytes of an append reached
  the file but the call reported an error (\<open>sync_all\<close> failed), the store in memory does not have the
  events; the next append that succeeds writes its batch under the same numbers, and from then on
  the file cannot be opened at all.
\<close>

theorem failed_sync_ruins_log:
  assumes "log_history acked fs" and "file_append_batch Written evs fs = (Ok ns, fs1)"
    and "file_append_batch (WriteFailed k message) evs fs = (Err (EsStorage message), fs2)"
    and "length (fs_disk fs1) \<le> k" and "file_append_batch Written evs' fs2 = (Ok ns', fs3)"
    and "evs \<noteq> []" and "evs' \<noteq> []" and "\<forall>ev \<in> set evs \<union> set evs'. kind_text (event_knd ev)"
    and "length (fs_disk fs3) < 2 ^ 64"
  shows "open_log (fs_disk fs3) = Err (EsCorrupt ''batch begin sequence is invalid'')"
proof -
  have ok: "file_ok fs" using log_history_ok [OF assms(1)] by blast
  let ?d = "fs_disk fs"
  let ?m = "fs_memory fs"
  have typed: "\<forall>ev \<in> set evs. kind_text (event_knd ev)" "\<forall>ev \<in> set evs'. kind_text (event_knd ev)"
    using assms(8) by auto
  from append_on_disk [OF assms(2) typed(1) assms(6)] obtain frames
    where batch: "batch_of ?m frames (fs_memory fs1)"
      and num: "st_next (fs_memory fs1) = st_next ?m + of_nat (length frames)"
      and fs1: "fs1 = fs\<lparr>fs_memory := fs_memory fs1, fs_disk := ?d @ batch_image frames\<rparr>"
      and failed: "file_append_batch (WriteFailed k message) evs fs =
         (Err (EsStorage message), fs\<lparr>fs_disk := ?d @ take k (batch_image frames)\<rparr>)" by blast
  have "length (batch_image frames) \<le> k" using assms(4) by (subst (asm) fs1) simp
  then have fs2: "fs2 = fs\<lparr>fs_disk := ?d @ batch_image frames\<rparr>" using failed assms(3) by simp
  from append_on_disk [OF assms(5) typed(2) assms(7)] obtain frames'
    where batch': "batch_of ?m frames' (fs_memory fs3)"
      and fs3: "fs3 = fs2\<lparr>fs_memory := fs_memory fs3, fs_disk := fs_disk fs2 @ batch_image frames'\<rparr>"
    unfolding fs2 by auto
  let ?b = "frame (fst (hd frames')) (begin_payload frames')"
  let ?rest = "event_frames frames' @ frame (fst (last frames') + 1) (commit_payload frames')"
  let ?pre = "?d @ batch_image frames"
  have disk: "fs_disk fs3 = ?pre @ ?b @ ?rest"
    by (subst fs3) (simp add: fs2 batch_image_def)
  have size: "length ?d + length (batch_image frames) < 2 ^ 64" "length ?pre + length ?b < 2 ^ 64"
    using assms(9) by (simp_all add: disk)
  have start: "bytes_start (fs_disk fs3) EVENT_MAGIC"
    unfolding disk append_assoc using ok by (intro bytes_start_append) (simp add: file_ok_def)
  have long: "15 \<le> length ?d" using bytes_start_long [of ?d EVENT_MAGIC] ok by (simp add: file_ok_def)
  have "recover_loop ?d 15 (recovery_new event_store_new) = Ok (?m, None)"
    using ok by (simp add: file_ok_def recover_batched_events_def)
  then have "recover_batched_events (fs_disk fs3) EVENT_MAGIC
      = recover_loop (fs_disk fs3) (length ?d) (recovery_new ?m)"
    unfolding recover_batched_events_def magic_length disk append_assoc
    by (rule recover_loop_more [OF _ long recovery_idle_new])
  also have "\<dots> = recover_loop (fs_disk fs3) (length ?pre) (recovery_new (fs_memory fs1))"
    unfolding disk append_assoc by (rule recover_batch [OF batch size(1)])
  also have "\<dots> = Err (EsCorrupt ''batch begin sequence is invalid'')"
  proof -
    have "unat (of_nat (length frames) :: u64) = length frames"
      using batch_small(3) [OF batch] by (simp add: MAX_BATCH_EVENTS_def unat_of_nat64)
    then have "(of_nat (length frames) :: u64) \<noteq> 0" using batch_small(2) [OF batch] by auto
    then have "fst (hd frames') \<noteq> st_next (fs_memory fs1)"
      using batch' num by (cases frames') (auto simp: batch_of_def)
    then have "recover_frame (fs_disk fs3) (length ?pre) (length ?pre + length ?b) (fst (hd frames'))
        (begin_payload frames') (recovery_new (fs_memory fs1)) = Fail (EsCorrupt ''batch begin sequence is invalid'')"
      using control_heads(1) [of frames'] batch_small [OF batch']
      by (auto simp: recover_frame_def begin_frame_def reject_frame_def recovery_new_def control_payloads
          marker_counts disk Let_def)
    moreover have "\<not> length (fs_disk fs3) \<le> length ?pre" by (simp add: disk)
    moreover have "read_frame (fs_disk fs3) (length ?pre)
        = Ok (Some (length ?pre + length ?b, fst (hd frames'), begin_payload frames'))"
      unfolding disk by (rule read_frame_whole [OF control_fit(1) size(2)])
    ultimately show ?thesis by (subst recover_loop.simps) simp
  qed
  finally have "recover_batched_events (fs_disk fs3) EVENT_MAGIC = Err (EsCorrupt ''batch begin sequence is invalid'')" .
  moreover have "fs_disk fs3 \<noteq> []" using bytes_start_long [OF start] by auto
  ultimately show ?thesis using start by (simp add: open_log_def Let_def)
qed

text \<open>
  A crash while the file is created leaves a file that cannot be opened. The header is written in
  place; if only part of it is there, opening the store fails, now and at every later attempt.
\<close>

theorem torn_header_refused:
  assumes "0 < n" and "n < length EVENT_MAGIC"
  shows "open_log (take n EVENT_MAGIC) = Err (EsCorrupt ''event store header is invalid'')"
proof -
  have "take n EVENT_MAGIC \<noteq> []" using assms by (metis length_0_conv length_take min_less_iff_conj not_less_zero min.absorb2 less_imp_le)
  moreover have "\<not> bytes_start (take n EVENT_MAGIC) magic" if "length magic = 15" for magic
    using bytes_start_long [of "take n EVENT_MAGIC" magic] assms that by auto
  ultimately show ?thesis by (simp add: open_log_def Let_def)
qed

theorem torn_header_refused_witness:
  "open_log (take 7 EVENT_MAGIC) = Err (EsCorrupt ''event store header is invalid'')"
  by (rule torn_header_refused) simp_all

section \<open>A concrete file\<close>

definition first_file :: file_store where
  "first_file = \<lparr>fs_version = 2, fs_memory = event_store_new, fs_disk = EVENT_MAGIC\<rparr>"

lemma first_history: "log_history [] first_file"
proof -
  obtain fs where fs: "open_log [] = Ok fs" "file_ok fs" "fs_memory fs = event_store_new" "fs_disk fs = EVENT_MAGIC"
    using open_new by blast
  then have "fs = first_file" by (cases fs) (simp add: first_file_def file_ok_def)
  with fs(1) show ?thesis by (auto intro: log_created)
qed

definition first_payload :: "event_id \<Rightarrow> u8 list" where
  "first_payload i = to_le_bytes i @ to_le_bytes (3 :: u64) @ to_le_bytes (0 :: u128) @ [0] @ to_le_bytes (3 :: u64)"

lemma first_payload_encodes: "encode_event (run_event i (RunCreated 3)) = Ok (first_payload i)"
  by (simp add: encode_event_def first_payload_def run_event_def write_seq.simps write_u8_def write_u64_def
      write_u128_def)

lemma first_frames: "batch_frames [run_event i (RunCreated 3)] 1 = Ok [(1, first_payload i)]"
  by (simp add: first_payload_encodes checked_add_def)

definition first_image :: "event_id \<Rightarrow> u8 list" where
  "first_image i = batch_image [(1, first_payload i)]"

lemma first_bytes: "batch_bytes [(1, first_payload i)] = Ok (first_image i)"
  unfolding first_image_def by (rule batch_bytes_image) (simp_all add: first_payload_def MAX_FRAME_BYTES_def)

text \<open>Appending one event to a file whose store is still empty.\<close>

lemma first_append:
  assumes "fs_version fs = 2" and "fs_memory fs = event_store_new"
  shows "\<exists>m. file_append_batch Written [run_event i (RunCreated 3)] fs
      = (Ok [1], fs\<lparr>fs_memory := m, fs_disk := fs_disk fs @ first_image i\<rparr>)"
    "file_append_batch (WriteFailed k message) [run_event i (RunCreated 3)] fs
      = (Err (EsStorage message), fs\<lparr>fs_disk := fs_disk fs @ take k (first_image i)\<rparr>)"
proof -
  have "first_duplicate event_store_new {} [run_event i (RunCreated 3)] = None"
    by (simp add: first_duplicate_None event_store_new_def)
  moreover have "batch_frames [run_event i (RunCreated 3)] (st_next event_store_new) = Ok [(1, first_payload i)]"
    using first_frames by (simp add: event_store_new_def)
  moreover have "1 \<le> MAX_BATCH_EVENTS" by (simp add: MAX_BATCH_EVENTS_def)
  moreover obtain m where "es_append_batch [run_event i (RunCreated 3)] event_store_new = (Ok [1], m)"
    by (simp add: store_run_defs)
  ultimately show "\<exists>m. file_append_batch Written [run_event i (RunCreated 3)] fs
      = (Ok [1], fs\<lparr>fs_memory := m, fs_disk := fs_disk fs @ first_image i\<rparr>)"
    "file_append_batch (WriteFailed k message) [run_event i (RunCreated 3)] fs
      = (Err (EsStorage message), fs\<lparr>fs_disk := fs_disk fs @ take k (first_image i)\<rparr>)"
    using assms first_bytes
    by (auto simp add: file_append_batch_def append_frames_def simp del: batch_frames.simps first_duplicate.simps
        intro!: exI [of _ m])
qed

lemma length_first_image [simp]: "length (first_image i) = 44 + 5 + (44 + 42) + (44 + 37)"
  by (simp add: first_image_def batch_image_def first_payload_def control_payloads)

lemma first_typed: "\<forall>ev \<in> set [run_event i (RunCreated 3)]. kind_text (event_knd ev)"
  by simp

lemma first_file_fields [simp]:
  "fs_version first_file = 2" "fs_memory first_file = event_store_new" "fs_disk first_file = EVENT_MAGIC"
  by (simp_all add: first_file_def)

theorem append_is_atomic_witness:
  "\<exists>fs. open_log (EVENT_MAGIC @ take 100 (first_image 1)) = Ok first_file \<and>
     open_log (EVENT_MAGIC @ first_image 1) = Ok fs \<and> fs_disk fs = EVENT_MAGIC @ first_image 1"
proof -
  obtain m where ap: "file_append_batch Written [run_event 1 (RunCreated 3)] first_file
      = (Ok [1], first_file\<lparr>fs_memory := m, fs_disk := EVENT_MAGIC @ first_image 1\<rparr>)"
    using first_append(1) [of first_file 1] by auto
  let ?fs = "first_file\<lparr>fs_memory := m, fs_disk := EVENT_MAGIC @ first_image 1\<rparr>"
  obtain tail where tail: "EVENT_MAGIC @ first_image 1 = EVENT_MAGIC @ tail"
    and open_tail: "\<And>k. open_log (EVENT_MAGIC @ take k tail) = Ok (if length tail \<le> k then ?fs else first_file)"
    using append_is_atomic [OF first_history ap first_typed] by auto
  have "tail = first_image 1" using tail by simp
  with open_tail [of 100] open_tail [of "length tail"] show ?thesis by auto
qed

theorem acknowledged_events_durable_witness:
  "\<exists>fs. log_history [run_event 1 (RunCreated 3)] fs \<and> open_log (fs_disk fs) = Ok fs \<and>
     subseq [run_event 1 (RunCreated 3)] (map se_event (st_events (fs_memory fs)))"
proof -
  obtain m where ap: "file_append_batch Written [run_event 1 (RunCreated 3)] first_file
      = (Ok [1], first_file\<lparr>fs_memory := m, fs_disk := EVENT_MAGIC @ first_image 1\<rparr>)"
    using first_append(1) [of first_file 1] by auto
  have "log_history [run_event 1 (RunCreated 3)] (first_file\<lparr>fs_memory := m, fs_disk := EVENT_MAGIC @ first_image 1\<rparr>)"
    using log_appended [OF first_history ap first_typed] by simp
  with acknowledged_events_durable [OF this] show ?thesis by blast
qed

theorem failed_sync_ruins_log_witness:
  "\<exists>fs. file_append_batch Written [run_event 1 (RunCreated 3)]
      (snd (file_append_batch (WriteFailed 1000 ''sync failed'') [run_event 1 (RunCreated 3)] first_file)) = (Ok [1], fs) \<and>
     open_log (fs_disk fs) = Err (EsCorrupt ''batch begin sequence is invalid'')"
proof -
  obtain m where ap: "file_append_batch Written [run_event 1 (RunCreated 3)] first_file
      = (Ok [1], first_file\<lparr>fs_memory := m, fs_disk := EVENT_MAGIC @ first_image 1\<rparr>)"
    using first_append(1) [of first_file 1] by auto
  let ?fs2 = "first_file\<lparr>fs_disk := EVENT_MAGIC @ take 1000 (first_image 1)\<rparr>"
  have failed: "file_append_batch (WriteFailed 1000 ''sync failed'') [run_event 1 (RunCreated 3)] first_file
      = (Err (EsStorage ''sync failed''), ?fs2)"
    using first_append(2) [of first_file 1000 "''sync failed''" 1] by simp
  obtain m' where again: "file_append_batch Written [run_event 1 (RunCreated 3)] ?fs2
      = (Ok [1], ?fs2\<lparr>fs_memory := m', fs_disk := fs_disk ?fs2 @ first_image 1\<rparr>)"
    using first_append(1) [of ?fs2 1] by auto
  from failed_sync_ruins_log [OF first_history ap failed _ again] failed again show ?thesis by simp
qed

end
