(* ===== verification/Runtime_Monad.thy ===== *)
theory Runtime_Monad
  imports Event_History Scheduler_Codec Routing Failure_Memory Cache_Telemetry Specialist Conversation
    Context_Codec Context_Query
begin

text \<open>
  The state of the runtime service (\<open>RuntimeService\<close> of \<^verbatim>\<open>crates/runtime/src/lib.rs\<close>) over the event
  store in memory, and the state monad its methods are written in: \<open>rt_bind\<close> is the sequence of
  statements, \<open>rt_try\<close> the question mark operator, which keeps the writes made before the error.
  The identifiers, the clock and the two platform facts the code depends on belong to the \<open>host\<close>.
\<close>

section \<open>Errors and state\<close>

datatype runtime_error =
    RtEventStore store_error
  | RtArtifact artifact_error
  | RtCache cache_error
  | RtContext context_error
  | RtIpc ipc_error
  | RtAssumption assumption_error
  | RtScheduler scheduler_error
  | RtSpecialist specialist_error
  | RtCapability capability_error
  | RtTool tool_error
  | RtFailureMemory failure_memory_error

text \<open>A method returns an error or, when the identifiers are used up, panics.\<close>

datatype runtime_failure = Failed runtime_error | Panicked id_error

record runtime_service =
  sv_store :: event_store
  sv_telemetry :: cache_telemetry
  sv_capacity :: usize
  sv_mailboxes :: "(agent_id, bounded_mailbox) bmap"
  sv_assumptions :: assumption_graph
  sv_scheduler :: scheduler_state
  sv_capabilities :: capability_policy
  sv_tools :: tool_records
  sv_failures :: failure_memory
  sv_specialists :: specialist_registry

definition runtime_service_new :: "event_store \<Rightarrow> runtime_service" where
  "runtime_service_new s = \<lparr>sv_store = s, sv_telemetry = telemetry_new,
     sv_capacity = DEFAULT_MAILBOX_CAPACITY, sv_mailboxes = bm_empty, sv_assumptions = graph_new,
     sv_scheduler = scheduler_default, sv_capabilities = policy_new, sv_tools = tool_records_new,
     sv_failures = failure_memory_default, sv_specialists = specialist_registry_default\<rparr>"

definition with_mailbox_capacity :: "event_store \<Rightarrow> usize \<Rightarrow> (runtime_service, runtime_error) result" where
  "with_mailbox_capacity s capacity = and_then (map_err RtIpc (mailbox_new capacity)) (\<lambda>_.
     Ok ((runtime_service_new s)\<lparr>sv_capacity := capacity\<rparr>))"

text \<open>
  What the process around the service supplies: the entropy of the identifiers, the readings of the
  clock in the order they are taken, whether paths are those of Windows, and \<open>str::to_lowercase\<close>.
\<close>

record host =
  os_entropy :: entropy
  os_clock :: "nat \<Rightarrow> u128"
  os_windows :: bool
  os_lower :: "string \<Rightarrow> string"

record runtime_world =
  w_service :: runtime_service
  w_ids :: id_state
  w_readings :: nat

section \<open>The monad\<close>

type_synonym 'a rt = "runtime_world \<Rightarrow> ('a, runtime_failure) result \<times> runtime_world"

definition rt_return :: "'a \<Rightarrow> 'a rt" where
  "rt_return x w = (Ok x, w)"

definition rt_throw :: "runtime_error \<Rightarrow> 'a rt" where
  "rt_throw e w = (Err (Failed e), w)"

definition rt_bind :: "'a rt \<Rightarrow> ('a \<Rightarrow> 'b rt) \<Rightarrow> 'b rt" where
  "rt_bind m f w = (case m w of (Ok x, w') \<Rightarrow> f x w' | (Err e, w') \<Rightarrow> (Err e, w'))"

definition rt_try :: "('e \<Rightarrow> runtime_error) \<Rightarrow> ('a, 'e) result \<Rightarrow> 'a rt" where
  "rt_try into r w = (map_err (\<lambda>e. Failed (into e)) r, w)"

definition rt_require :: "bool \<Rightarrow> runtime_error \<Rightarrow> unit rt" where
  "rt_require b e = (if b then rt_return () else rt_throw e)"

definition rt_service :: "runtime_service rt" where
  "rt_service w = (Ok (w_service w), w)"

definition rt_update :: "(runtime_service \<Rightarrow> runtime_service) \<Rightarrow> unit rt" where
  "rt_update f w = (Ok (), w\<lparr>w_service := f (w_service w)\<rparr>)"

definition rt_clock :: "host \<Rightarrow> u128 rt" where
  "rt_clock h w = (Ok (os_clock h (w_readings w)), w\<lparr>w_readings := Suc (w_readings w)\<rparr>)"

definition rt_new_id :: "host \<Rightarrow> u64 rt" where
  "rt_new_id h w = (case new_durable_id (os_entropy h) (w_ids w) of
     (Ok i, ids) \<Rightarrow> (Ok i, w\<lparr>w_ids := ids\<rparr>)
   | (Err e, ids) \<Rightarrow> (Err (Panicked e), w\<lparr>w_ids := ids\<rparr>))"

text \<open>A loop over a list, with early return.\<close>

fun rt_map :: "('x \<Rightarrow> 'y rt) \<Rightarrow> 'x list \<Rightarrow> 'y list rt" where
  "rt_map f [] = rt_return []"
| "rt_map f (x # xs) = rt_bind (f x) (\<lambda>y. rt_bind (rt_map f xs) (\<lambda>ys. rt_return (y # ys)))"

section \<open>Inversion\<close>

lemma rt_bind_Ok [simp]:
  "rt_bind m f w = (Ok y, w') \<longleftrightarrow> (\<exists>x w1. m w = (Ok x, w1) \<and> f x w1 = (Ok y, w'))"
  by (auto simp: rt_bind_def split: prod.splits result.splits)

lemma rt_bind_Err:
  "rt_bind m f w = (Err e, w') \<longleftrightarrow>
     m w = (Err e, w') \<or> (\<exists>x w1. m w = (Ok x, w1) \<and> f x w1 = (Err e, w'))"
  by (auto simp: rt_bind_def split: prod.splits result.splits)

lemma rt_return_Ok [simp]: "rt_return x w = (r, w') \<longleftrightarrow> r = Ok x \<and> w' = w"
  by (auto simp: rt_return_def)

lemma rt_throw_Ok [simp]: "rt_throw e w = (r, w') \<longleftrightarrow> r = Err (Failed e) \<and> w' = w"
  by (auto simp: rt_throw_def)

lemma rt_try_Ok [simp]: "rt_try into r w = (Ok x, w') \<longleftrightarrow> r = Ok x \<and> w' = w"
  by (auto simp: rt_try_def)

lemma rt_require_Ok [simp]: "rt_require b e w = (Ok u, w') \<longleftrightarrow> b \<and> w' = w"
  by (simp add: rt_require_def)

lemma rt_service_Ok [simp]: "rt_service w = (r, w') \<longleftrightarrow> r = Ok (w_service w) \<and> w' = w"
  by (auto simp: rt_service_def)

lemma rt_update_Ok [simp]:
  "rt_update f w = (r, w') \<longleftrightarrow> r = Ok () \<and> w' = w\<lparr>w_service := f (w_service w)\<rparr>"
  by (auto simp: rt_update_def)

lemma rt_clock_service: "rt_clock h w = (r, w') \<Longrightarrow> w_service w' = w_service w"
  by (auto simp: rt_clock_def)

lemma rt_new_id_service: "rt_new_id h w = (r, w') \<Longrightarrow> w_service w' = w_service w"
  by (auto simp: rt_new_id_def split: prod.splits result.splits)

section \<open>What a method leaves alone\<close>

text \<open>
  Compositional rules for two facts about a part \<open>view\<close> of the service: a method never changes it, or
  does not change it when it fails.
\<close>

definition leaves :: "(runtime_service \<Rightarrow> 'v) \<Rightarrow> 'a rt \<Rightarrow> bool" where
  "leaves view m \<longleftrightarrow> (\<forall>w. view (w_service (snd (m w))) = view (w_service w))"

definition atomic_on :: "(runtime_service \<Rightarrow> 'v) \<Rightarrow> 'a rt \<Rightarrow> bool" where
  "atomic_on view m \<longleftrightarrow> (\<forall>w e w'. m w = (Err e, w') \<longrightarrow> view (w_service w') = view (w_service w))"

definition never_fails :: "'a rt \<Rightarrow> bool" where
  "never_fails m \<longleftrightarrow> (\<forall>w. is_ok (fst (m w)))"

named_theorems frame_intros \<open>rules for what a method leaves alone\<close>

lemma leavesD: "leaves view m \<Longrightarrow> m w = (r, w') \<Longrightarrow> view (w_service w') = view (w_service w)"
  by (metis leaves_def snd_conv)

lemma atomic_onD: "atomic_on view m \<Longrightarrow> m w = (Err e, w') \<Longrightarrow> view (w_service w') = view (w_service w)"
  by (simp add: atomic_on_def)

lemma leaves_atomic: "leaves view m \<Longrightarrow> atomic_on view m"
  by (simp add: atomic_on_def leavesD)

lemma leaves_bind [frame_intros]:
  "leaves view m \<Longrightarrow> (\<And>x. leaves view (f x)) \<Longrightarrow> leaves view (rt_bind m f)"
  by (simp add: leaves_def rt_bind_def split: prod.split result.split) (metis snd_conv)

lemma leaves_return [frame_intros]: "leaves view (rt_return x)"
  by (simp add: leaves_def rt_return_def)

lemma leaves_throw [frame_intros]: "leaves view (rt_throw e)"
  by (simp add: leaves_def rt_throw_def)

lemma leaves_try [frame_intros]: "leaves view (rt_try into r)"
  by (simp add: leaves_def rt_try_def)

lemma leaves_require [frame_intros]: "leaves view (rt_require b e)"
  by (simp add: rt_require_def leaves_return leaves_throw)

lemma leaves_service [frame_intros]: "leaves view rt_service"
  by (simp add: leaves_def rt_service_def)

lemma leaves_clock [frame_intros]: "leaves view (rt_clock h)"
  by (simp add: leaves_def rt_clock_def)

lemma leaves_new_id [frame_intros]: "leaves view (rt_new_id h)"
  by (simp add: leaves_def rt_new_id_def split: prod.split result.split)

lemma leaves_map [frame_intros]: "(\<And>x. leaves view (f x)) \<Longrightarrow> leaves view (rt_map f xs)"
  by (induction xs) (auto intro!: frame_intros)

lemma never_fails_return [frame_intros]: "never_fails (rt_return x)"
  by (simp add: never_fails_def rt_return_def)

lemma never_fails_update [frame_intros]: "never_fails (rt_update f)"
  by (simp add: never_fails_def rt_update_def)

lemma never_fails_bind [frame_intros]: "never_fails m \<Longrightarrow> (\<And>x. never_fails (f x)) \<Longrightarrow> never_fails (rt_bind m f)"
  by (simp add: never_fails_def rt_bind_def is_ok_iff split: prod.split result.split)
    (metis fst_conv result.distinct(1))

lemma never_failsD: "never_fails m \<Longrightarrow> m w \<noteq> (Err e, w')"
  by (metis fst_conv is_ok.simps(2) never_fails_def)

lemma atomic_total: "never_fails m \<Longrightarrow> atomic_on view m"
  by (simp add: atomic_on_def never_failsD)

text \<open>Either nothing is written before the rest, or the rest does not fail.\<close>

lemma atomic_read_first:
  "leaves view m \<Longrightarrow> (\<And>x. atomic_on view (f x)) \<Longrightarrow> atomic_on view (rt_bind m f)"
  by (auto simp: atomic_on_def rt_bind_Err dest: leavesD)

lemma atomic_write_last:
  "atomic_on view m \<Longrightarrow> (\<And>x. never_fails (f x)) \<Longrightarrow> atomic_on view (rt_bind m f)"
  by (auto simp: atomic_on_def rt_bind_Err never_failsD)

end
