(* ===== verification/Runtime_Service.thy ===== *)
theory Runtime_Service
  imports Runtime_Monad
begin

text \<open>
  The methods of \<open>RuntimeService\<close> that write (\<^verbatim>\<open>crates/runtime/src/lib.rs\<close>). They share a pattern:
  reconstruct the run, check the agents and tasks the request names, rebuild the projection of one
  domain from the log, apply the transition to it, encode the transition, append the event after
  trying it on the run, and replace the projection the service holds.
\<close>

section \<open>Shared steps\<close>

definition rt_reconstruct :: "run_id \<Rightarrow> runtime_state rt" where
  "rt_reconstruct r = rt_bind rt_service (\<lambda>s. rt_try RtEventStore (es_reconstruct r (sv_store s)))"

definition run_log :: "run_id \<Rightarrow> runtime_service \<Rightarrow> event list" where
  "run_log r s = map se_event (es_events r (sv_store s))"

definition rt_log :: "run_id \<Rightarrow> event list rt" where
  "rt_log r = rt_bind rt_service (\<lambda>s. rt_return (run_log r s))"

definition rt_event :: "host \<Rightarrow> run_id \<Rightarrow> event_kind \<Rightarrow> event rt" where
  "rt_event h r k = rt_bind (rt_clock h) (\<lambda>now. rt_bind (rt_new_id h) (\<lambda>i.
     rt_return \<lparr>event_ident = i, event_run = r, occurred_at_ms = now, event_knd = k\<rparr>))"

definition rt_append :: "event list \<Rightarrow> unit rt" where
  "rt_append evs w = (case es_append_batch evs (sv_store (w_service w)) of
     (Ok _, s) \<Rightarrow> (Ok (), w\<lparr>w_service := (w_service w)\<lparr>sv_store := s\<rparr>\<rparr>)
   | (Err e, s) \<Rightarrow> (Err (Failed (RtEventStore e)), w\<lparr>w_service := (w_service w)\<lparr>sv_store := s\<rparr>\<rparr>))"

definition rt_append_one :: "event \<Rightarrow> unit rt" where
  "rt_append_one ev w = (case es_append ev (sv_store (w_service w)) of
     (Ok _, s) \<Rightarrow> (Ok (), w\<lparr>w_service := (w_service w)\<lparr>sv_store := s\<rparr>\<rparr>)
   | (Err e, s) \<Rightarrow> (Err (Failed (RtEventStore e)), w\<lparr>w_service := (w_service w)\<lparr>sv_store := s\<rparr>\<rparr>))"

definition append_validated_event :: "event \<Rightarrow> unit rt" where
  "append_validated_event ev = rt_bind (rt_reconstruct (event_run ev)) (\<lambda>st.
     rt_bind (rt_try RtEventStore (apply_event st ev)) (\<lambda>_. rt_append_one ev))"

definition append_validated_batch :: "event list \<Rightarrow> unit rt" where
  "append_validated_batch evs = (case evs of
     [] \<Rightarrow> rt_throw (RtEventStore (EsInvalidTransition ''validated event batch must not be empty''))
   | first # _ \<Rightarrow> rt_bind (rt_reconstruct (event_run first)) (\<lambda>st.
       rt_bind (rt_try RtEventStore (try_fold apply_event st evs)) (\<lambda>_. rt_append evs)))"

text \<open>\<open>Event::new\<close> of an encoded transition, and the event appended at once.\<close>

definition rt_payload_event :: "host \<Rightarrow> run_id \<Rightarrow> (u8 list \<Rightarrow> event_kind) \<Rightarrow> ('e \<Rightarrow> runtime_error)
    \<Rightarrow> (u8 list, 'e) result \<Rightarrow> event rt" where
  "rt_payload_event h r wrap into encoded =
     rt_bind (rt_try into encoded) (\<lambda>payload. rt_event h r (wrap payload))"

definition rt_append_payload :: "host \<Rightarrow> run_id \<Rightarrow> (u8 list \<Rightarrow> event_kind) \<Rightarrow> ('e \<Rightarrow> runtime_error)
    \<Rightarrow> (u8 list, 'e) result \<Rightarrow> unit rt" where
  "rt_append_payload h r wrap into encoded =
     rt_bind (rt_payload_event h r wrap into encoded) append_validated_event"

definition rt_append_kind :: "host \<Rightarrow> run_id \<Rightarrow> event_kind \<Rightarrow> unit rt" where
  "rt_append_kind h r k = rt_bind (rt_event h r k) append_validated_event"

text \<open>The checks on the agents and tasks a request names.\<close>

definition refuse_run :: "string \<Rightarrow> runtime_error" where
  "refuse_run message = RtEventStore (EsInvalidTransition message)"

definition require_agent :: "agent_id \<Rightarrow> runtime_state \<Rightarrow> unit rt" where
  "require_agent a st = rt_require (bm_contains_key (rs_agents st) a) (RtEventStore (EsUnknownAgent a))"

definition get_agent :: "agent_id \<Rightarrow> runtime_state \<Rightarrow> agent_state rt" where
  "get_agent a st = rt_try RtEventStore (ok_or (bm_get (rs_agents st) a) (EsUnknownAgent a))"

definition require_task :: "string \<Rightarrow> task_id option \<Rightarrow> runtime_state \<Rightarrow> unit rt" where
  "require_task what t st = (case t of None \<Rightarrow> rt_return ()
     | Some t \<Rightarrow> rt_require (bm_contains_key (rs_tasks st) t)
         (refuse_run (what @ '' references unknown task '' @ show_task t)))"

abbreviation "tool_event \<equiv> ToolTransition TOOL_SCHEMA_VERSION"
abbreviation "failure_event \<equiv> FailureMemoryTransition FAILURE_MEMORY_SCHEMA_VERSION"
abbreviation "capability_event \<equiv> CapabilityTransition CAPABILITY_SCHEMA_VERSION"
abbreviation "scheduler_event \<equiv> SchedulerTransition SCHEDULER_SCHEMA_VERSION"
abbreviation "specialist_event \<equiv> SpecialistTransition SPECIALIST_SCHEMA_VERSION"
abbreviation "assumption_event \<equiv> AssumptionTransition ASSUMPTION_SCHEMA_VERSION"
abbreviation "message_event \<equiv> AgentMessage IPC_SCHEMA_VERSION"
abbreviation "turn_event \<equiv> ConversationTurn CONVERSATION_SCHEMA_VERSION"
abbreviation "context_event \<equiv> ContextTransition CONTEXT_TRANSITION_VERSION"

section \<open>Tools, turns and models\<close>

fun check_tool_proposal :: "run_id \<Rightarrow> tool_transition \<Rightarrow> runtime_state \<Rightarrow> unit rt" where
  "check_tool_proposal r (TtProposed i p s) st =
     rt_bind (rt_require (pp_run p = r) (refuse_run ''tool proposal belongs to another run'')) (\<lambda>_.
     rt_bind (require_agent (pp_agent p) st) (\<lambda>_. require_task ''tool proposal'' (pp_task p) st))"
| "check_tool_proposal r _ st = rt_return ()"

definition record_tool_transition :: "host \<Rightarrow> run_id \<Rightarrow> tool_transition \<Rightarrow> unit rt" where
  "record_tool_transition h r t =
     rt_bind (rt_reconstruct r) (\<lambda>st.
     rt_bind (check_tool_proposal r t st) (\<lambda>_.
     rt_bind (rt_log r) (\<lambda>evs.
     rt_bind (rt_try RtTool (tool_records_from_events evs)) (\<lambda>c.
     rt_bind (rt_try RtTool (commit (th_apply t c))) (\<lambda>c'.
     rt_bind (rt_append_payload h r tool_event RtTool (tl_encode_transition t)) (\<lambda>_.
     rt_update (\<lambda>s. s\<lparr>sv_tools := c'\<rparr>)))))))"

fun check_speaker :: "host \<Rightarrow> run_id \<Rightarrow> conversation_speaker \<Rightarrow> runtime_state \<Rightarrow> unit rt" where
  "check_speaker h r SpeakerUser st = rt_return ()"
| "check_speaker h r (SpeakerCoordinator a) st =
     rt_bind (get_agent a st) (\<lambda>g.
     rt_bind (rt_require (\<not> agent_ended (ag_status g))
       (refuse_run ''a terminal agent cannot speak as the Coordinator'')) (\<lambda>_.
     rt_bind (rt_log r) (\<lambda>evs.
     rt_bind (rt_try RtScheduler (sched_from_events (os_windows h) evs)) (\<lambda>c.
     rt_require (parent_of c a = None) (refuse_run ''a specialist cannot speak as the Coordinator'')))))"

definition record_conversation_turn :: "host \<Rightarrow> run_id \<Rightarrow> conversation_turn \<Rightarrow> unit rt" where
  "record_conversation_turn h r t =
     rt_bind (rt_try (RtEventStore \<circ> EsInvalidTransition) (turn_encode t)) (\<lambda>payload.
     rt_bind (rt_reconstruct r) (\<lambda>st.
     rt_bind (check_speaker h r (turn_speaker t) st) (\<lambda>_.
     rt_append_kind h r (turn_event payload))))"

fun is_model_event :: "event_kind \<Rightarrow> bool" where
  "is_model_event (ModelRequested _ _) = True"
| "is_model_event (ModelResponseMetadata _ _ _ _) = True"
| "is_model_event (ModelChunkReceived _ _) = True"
| "is_model_event (ModelCompleted _ _) = True"
| "is_model_event (ModelFinishedWithoutUsage _) = True"
| "is_model_event (ModelTurnCompleted _ _) = True"
| "is_model_event (ModelTurnOutcome _ _ _ _) = True"
| "is_model_event (ModelTurnCancelled _) = True"
| "is_model_event (ModelTurnFailed _ _) = True"
| "is_model_event (ModelFailed _ _) = True"
| "is_model_event (ModelCancelled _) = True"
| "is_model_event _ = False"

definition record_model_transition :: "host \<Rightarrow> run_id \<Rightarrow> event_kind \<Rightarrow> unit rt" where
  "record_model_transition h r k =
     rt_bind (rt_require (is_model_event k) (refuse_run ''expected a model lifecycle event'')) (\<lambda>_.
     rt_append_kind h r k)"

definition select_model :: "host \<Rightarrow> run_id \<Rightarrow> agent_id \<Rightarrow> model_ref \<Rightarrow> unit rt" where
  "select_model h r a m = rt_bind (rt_reconstruct r) (\<lambda>st. rt_bind (require_agent a st) (\<lambda>_.
     rt_append_kind h r (ModelRequested a m)))"

definition rt_pause_agent :: "host \<Rightarrow> run_id \<Rightarrow> agent_id \<Rightarrow> unit rt" where
  "rt_pause_agent h r a = rt_bind (rt_reconstruct r) (\<lambda>st. rt_bind (require_agent a st) (\<lambda>_.
     rt_append_kind h r (AgentPaused a)))"

definition rt_resume_agent :: "host \<Rightarrow> run_id \<Rightarrow> agent_id \<Rightarrow> unit rt" where
  "rt_resume_agent h r a = rt_bind (rt_reconstruct r) (\<lambda>st. rt_bind (require_agent a st) (\<lambda>_.
     rt_append_kind h r (AgentResumed a)))"

section \<open>Failures and capabilities\<close>

definition commit_failure :: "host \<Rightarrow> run_id \<Rightarrow> failure_transition \<Rightarrow> unit rt" where
  "commit_failure h r t =
     rt_bind (rt_log r) (\<lambda>evs.
     rt_bind (rt_try RtFailureMemory (fm_from_events evs)) (\<lambda>c.
     rt_bind (rt_try RtFailureMemory (commit (fm_apply t c))) (\<lambda>c'.
     rt_bind (rt_append_payload h r failure_event RtFailureMemory (fm_encode_transition t)) (\<lambda>_.
     rt_update (\<lambda>s. s\<lparr>sv_failures := c'\<rparr>)))))"

definition record_failure :: "host \<Rightarrow> run_id \<Rightarrow> failure_record \<Rightarrow> unit rt" where
  "record_failure h r f =
     rt_bind (rt_reconstruct r) (\<lambda>st.
     rt_bind (require_agent (fr_agent f) st) (\<lambda>_.
     rt_bind (require_task ''failure record'' (fr_task f) st) (\<lambda>_.
     commit_failure h r (FailureRecorded f))))"

definition resolve_failure :: "host \<Rightarrow> run_id \<Rightarrow> failure_id \<Rightarrow> unit rt" where
  "resolve_failure h r i =
     rt_bind (rt_reconstruct r) (\<lambda>_. commit_failure h r (FailureWasResolved i))"

definition commit_capability :: "host \<Rightarrow> run_id \<Rightarrow> capability_transition \<Rightarrow> unit rt" where
  "commit_capability h r t =
     rt_bind (rt_log r) (\<lambda>evs.
     rt_bind (rt_try RtCapability (policy_from_events evs)) (\<lambda>c.
     rt_bind (rt_try RtCapability (commit (cap_apply t c))) (\<lambda>c'.
     rt_bind (rt_append_payload h r capability_event RtCapability (cap_encode_transition t)) (\<lambda>_.
     rt_update (\<lambda>s. s\<lparr>sv_capabilities := c'\<rparr>)))))"

definition grant_capability :: "host \<Rightarrow> run_id \<Rightarrow> capability_lease \<Rightarrow> unit rt" where
  "grant_capability h r l =
     rt_bind (rt_reconstruct r) (\<lambda>st.
     rt_bind (require_agent (lease_agent l) st) (\<lambda>_.
     rt_bind (require_task ''capability lease'' (lease_task l) st) (\<lambda>_.
     commit_capability h r (Granted l))))"

definition revoke_capability :: "host \<Rightarrow> run_id \<Rightarrow> agent_id \<Rightarrow> task_id option \<Rightarrow> capability_domain
    \<Rightarrow> string \<Rightarrow> unit rt" where
  "revoke_capability h r a t d resource =
     rt_bind (rt_reconstruct r) (\<lambda>st.
     rt_bind (require_agent a st) (\<lambda>_. commit_capability h r (Revoked a t d resource)))"

section \<open>Messages\<close>

definition is_runtime_sender :: "ipc_envelope \<Rightarrow> bool" where
  "is_runtime_sender e \<longleftrightarrow> env_sender e = RUNTIME_AGENT_ID \<and> env_provenance e = FromRuntime"

text \<open>\<open>entry(recipient).or_insert(BoundedMailbox::new(capacity)?)\<close>, which yields the mailbox.\<close>

definition open_mailbox :: "agent_id \<Rightarrow> bounded_mailbox rt" where
  "open_mailbox a =
     rt_bind rt_service (\<lambda>s.
     rt_bind (rt_try RtIpc (mailbox_new (sv_capacity s))) (\<lambda>fresh.
     let m = bm_or_insert a fresh (sv_mailboxes s) in
     rt_bind (rt_update (\<lambda>s. s\<lparr>sv_mailboxes := m\<rparr>)) (\<lambda>_.
     rt_return (case bm_get m a of Some b \<Rightarrow> b | None \<Rightarrow> fresh))))"

text \<open>\<open>try_send\<close> on the mailbox of the recipient, which the callers have opened.\<close>

definition deliver :: "ipc_envelope \<Rightarrow> unit rt" where
  "deliver e = rt_bind rt_service (\<lambda>s.
     case bm_get (sv_mailboxes s) (env_recipient e) of
       None \<Rightarrow> rt_return ()
     | Some b \<Rightarrow> (case try_send e b of (sent, b') \<Rightarrow>
         rt_bind (rt_update (\<lambda>s. s\<lparr>sv_mailboxes := bm_insert (env_recipient e) b' (sv_mailboxes s)\<rparr>)) (\<lambda>_.
           rt_try RtIpc sent)))"

definition send_message :: "host \<Rightarrow> ipc_envelope \<Rightarrow> unit rt" where
  "send_message h e =
     rt_bind (rt_try RtIpc (envelope_validate e)) (\<lambda>_.
     rt_bind (rt_reconstruct (env_run e)) (\<lambda>st.
     rt_bind (rt_require (bm_contains_key (rs_agents st) (env_sender e) \<or> is_runtime_sender e)
       (RtEventStore (EsUnknownAgent (env_sender e)))) (\<lambda>_.
     rt_bind (require_agent (env_recipient e) st) (\<lambda>_.
     rt_bind (open_mailbox (env_recipient e)) (\<lambda>b.
     rt_bind (rt_require (\<not> mailbox_is_full b) (RtIpc (MailboxFull (env_recipient e)))) (\<lambda>_.
     rt_bind (rt_append_payload h (env_run e) message_event RtIpc (envelope_encode e)) (\<lambda>_.
     deliver e)))))))"

definition request_consultation :: "host \<Rightarrow> run_id \<Rightarrow> agent_id \<Rightarrow> agent_id \<Rightarrow> string \<Rightarrow> string
    \<Rightarrow> message_id rt" where
  "request_consultation h r requester consultant subject why =
     rt_bind (rt_new_id h) (\<lambda>i.
     rt_bind (send_message h (envelope_new i r None requester consultant (Question subject why))) (\<lambda>_.
     rt_return i))"

definition answer_consultation :: "host \<Rightarrow> run_id \<Rightarrow> agent_id \<Rightarrow> agent_id \<Rightarrow> string \<Rightarrow> string
    \<Rightarrow> string option \<Rightarrow> string list \<Rightarrow> message_id rt" where
  "answer_consultation h r answerer requester subject v revision evidence =
     rt_bind (rt_new_id h) (\<lambda>i.
     rt_bind (send_message h (envelope_new i r None answerer requester (Answer subject v revision evidence)))
       (\<lambda>_. rt_return i))"

definition receive_message :: "agent_id \<Rightarrow> ipc_envelope option rt" where
  "receive_message a = rt_bind rt_service (\<lambda>s.
     case bm_get (sv_mailboxes s) a of
       None \<Rightarrow> rt_return None
     | Some b \<Rightarrow> (case receive b of (e, b') \<Rightarrow>
         rt_bind (rt_update (\<lambda>s. s\<lparr>sv_mailboxes := bm_insert a b' (sv_mailboxes s)\<rparr>)) (\<lambda>_. rt_return e)))"

definition pending_messages :: "runtime_service \<Rightarrow> agent_id \<Rightarrow> usize" where
  "pending_messages s a = (case bm_get (sv_mailboxes s) a of None \<Rightarrow> 0 | Some b \<Rightarrow> mailbox_len b)"

end
