(* ===== verification/Runtime_Control.thy ===== *)
theory Runtime_Control
  imports Runtime_Service
begin

text \<open>
  The methods of \<open>RuntimeService\<close> that publish assumptions, and those that act through the scheduler:
  budgets, health, ownership, spawning, cancelling and supervising agents, and cache telemetry.
\<close>

section \<open>Assumptions\<close>

text \<open>
  The conflict identifiers that \<open>publish\<close> takes from the allocator: the \<open>n\<close>-th of them, and the state
  of the allocator after \<open>n\<close>. A publication with \<open>n\<close> conflicts has taken \<open>n\<close>; if one of them was not
  to be had, the call has panicked.
\<close>

definition fresh_id :: "host \<Rightarrow> id_state \<Rightarrow> nat \<Rightarrow> u64" where
  "fresh_id h ids n = (case fst (allocate_ids (os_entropy h) (Suc n) ids) ! n of Ok i \<Rightarrow> i | Err _ \<Rightarrow> 0)"

definition rt_take_ids :: "host \<Rightarrow> nat \<Rightarrow> unit rt" where
  "rt_take_ids h n w = (case allocate_ids (os_entropy h) n (w_ids w) of (rs, ids) \<Rightarrow>
     ((if list_all is_ok rs then Ok () else Err (Panicked IdSpaceExhausted)), w\<lparr>w_ids := ids\<rparr>))"

definition rt_publish :: "host \<Rightarrow> assumption \<Rightarrow> assumption_graph
    \<Rightarrow> (assumption_publication \<times> assumption_graph) rt" where
  "rt_publish h a g w = (case publish (os_lower h) (fresh_id h (w_ids w)) a g of
     (Err e, _) \<Rightarrow> (Err (Failed (RtAssumption e)), w)
   | (Ok p, g') \<Rightarrow> rt_bind (rt_take_ids h (length (pub_conflicts p))) (\<lambda>_. rt_return (p, g')) w)"

definition conflict_notice :: "message_id \<Rightarrow> run_id \<Rightarrow> event_id list \<Rightarrow> assumption_conflict
    \<Rightarrow> assumption \<Rightarrow> assumption \<Rightarrow> agent_id \<Rightarrow> ipc_envelope" where
  "conflict_notice i r causal c left right recipient =
     with_input_origin (asm_trust right) (with_input_origin (asm_trust left)
       ((envelope_new i r None RUNTIME_AGENT_ID recipient
          (Conflict (conflict_subject c) (asm_value left) (asm_value right)
             (map show_agent (conflict_agents c))))
        \<lparr>env_causal := causal, env_provenance := FromRuntime\<rparr>))"

definition notify_agent :: "host \<Rightarrow> run_id \<Rightarrow> runtime_state \<Rightarrow> event_id list \<Rightarrow> assumption_conflict
    \<Rightarrow> assumption \<Rightarrow> assumption \<Rightarrow> agent_id \<Rightarrow> (event \<times> ipc_envelope) rt" where
  "notify_agent h r st causal c left right recipient =
     rt_bind (require_agent recipient st) (\<lambda>_.
     rt_bind (rt_new_id h) (\<lambda>i.
     let e = conflict_notice i r causal c left right recipient in
     rt_bind (rt_payload_event h r message_event RtIpc (envelope_encode e)) (\<lambda>ev.
     rt_return (ev, e))))"

definition notify_conflict :: "host \<Rightarrow> run_id \<Rightarrow> runtime_state \<Rightarrow> event_id list \<Rightarrow> assumption_graph
    \<Rightarrow> assumption_conflict \<Rightarrow> (event \<times> ipc_envelope) list rt" where
  "notify_conflict h r st causal g c =
     rt_bind (rt_try RtAssumption (ok_or (bm_get (graph_assumptions g) (conflict_left c))
       (AsmUnknown (conflict_left c)))) (\<lambda>left.
     rt_bind (rt_try RtAssumption (ok_or (bm_get (graph_assumptions g) (conflict_right c))
       (AsmUnknown (conflict_right c)))) (\<lambda>right.
     rt_map (notify_agent h r st causal c left right) (conflict_agents c)))"

text \<open>The first recipient whose mailbox cannot take its share of the notices.\<close>

definition overfull_recipient :: "runtime_service \<Rightarrow> ipc_envelope list \<Rightarrow> agent_id option" where
  "overfull_recipient s ns = find (\<lambda>a. sv_capacity s <
       pending_messages s a + length (filter (\<lambda>e. env_recipient e = a) ns))
     (remdups_adj (sort (map env_recipient ns)))"

definition publish_assumption :: "host \<Rightarrow> assumption \<Rightarrow> assumption_publication rt" where
  "publish_assumption h a =
     rt_bind (rt_reconstruct (asm_run a)) (\<lambda>st.
     rt_bind (require_agent (asm_owner a) st) (\<lambda>_.
     rt_bind (rt_log (asm_run a)) (\<lambda>evs.
     rt_bind (rt_try RtAssumption (graph_from_events evs)) (\<lambda>g.
     rt_bind (rt_publish h a g) (\<lambda>(p, g').
     let r = asm_run (pub_assumption p) in
     rt_bind (rt_map (\<lambda>t. rt_payload_event h r assumption_event RtAssumption (asm_encode_transition t))
       (pub_transitions p)) (\<lambda>claims.
     rt_bind (rt_map (notify_conflict h r st (map event_ident claims) g') (pub_conflicts p)) (\<lambda>notes.
     let ns = map snd (concat notes) in
     rt_bind rt_service (\<lambda>s.
     rt_bind (case overfull_recipient s ns of
         None \<Rightarrow> rt_return () | Some b \<Rightarrow> rt_throw (RtIpc (MailboxFull b))) (\<lambda>_.
     rt_bind (append_validated_batch (claims @ map fst (concat notes))) (\<lambda>_.
     rt_bind (rt_update (\<lambda>s. s\<lparr>sv_assumptions := g'\<rparr>)) (\<lambda>_.
     rt_bind (rt_map (\<lambda>e. rt_bind (open_mailbox (env_recipient e)) (\<lambda>_. deliver e)) ns) (\<lambda>_.
     rt_return p))))))))))))"

section \<open>Budgets, health and ownership\<close>

definition commit_scheduler :: "host \<Rightarrow> run_id \<Rightarrow> scheduler_transition \<Rightarrow> unit rt" where
  "commit_scheduler h r t =
     rt_bind (rt_log r) (\<lambda>evs.
     rt_bind (rt_try RtScheduler (sched_from_events (os_windows h) evs)) (\<lambda>c.
     rt_bind (rt_try RtScheduler (commit (sched_apply (os_windows h) t c))) (\<lambda>c'.
     rt_bind (rt_append_payload h r scheduler_event RtScheduler (sched_encode_transition (os_windows h) t))
       (\<lambda>_. rt_update (\<lambda>s. s\<lparr>sv_scheduler := c'\<rparr>)))))"

definition configure_budget :: "host \<Rightarrow> run_id \<Rightarrow> agent_id \<Rightarrow> budget_limits \<Rightarrow> unit rt" where
  "configure_budget h r a l = rt_bind (rt_reconstruct r) (\<lambda>st. rt_bind (require_agent a st) (\<lambda>_.
     commit_scheduler h r (BudgetConfigured a l)))"

definition transfer_budget :: "host \<Rightarrow> run_id \<Rightarrow> agent_id \<Rightarrow> agent_id \<Rightarrow> budget_limits \<Rightarrow> unit rt" where
  "transfer_budget h r a b l = rt_bind (rt_reconstruct r) (\<lambda>st. rt_bind (require_agent a st) (\<lambda>_.
     rt_bind (require_agent b st) (\<lambda>_. commit_scheduler h r (BudgetTransferred a b l))))"

definition record_agent_usage :: "host \<Rightarrow> run_id \<Rightarrow> agent_id \<Rightarrow> budget_usage \<Rightarrow> unit rt" where
  "record_agent_usage h r a delta = rt_bind (rt_reconstruct r) (\<lambda>st. rt_bind (require_agent a st) (\<lambda>_.
     commit_scheduler h r (UsageRecorded a delta)))"

definition record_health_signal :: "host \<Rightarrow> run_id \<Rightarrow> agent_id \<Rightarrow> health_signal \<Rightarrow> unit rt" where
  "record_health_signal h r a sig = rt_bind (rt_reconstruct r) (\<lambda>st. rt_bind (require_agent a st) (\<lambda>_.
     commit_scheduler h r (HealthSignaled a sig)))"

definition claim_ownership :: "host \<Rightarrow> run_id \<Rightarrow> agent_id \<Rightarrow> string \<Rightarrow> unit rt" where
  "claim_ownership h r a resource =
     rt_bind (rt_reconstruct r) (\<lambda>st.
     rt_bind (get_agent a st) (\<lambda>g.
     rt_bind (rt_require (\<not> agent_ended (ag_status g))
       (refuse_run (''agent '' @ show_agent a @ '' cannot claim ownership after '' @
          debug_agent_status (ag_status g)))) (\<lambda>_.
     commit_scheduler h r (OwnershipClaimed a resource))))"

definition release_ownership :: "host \<Rightarrow> run_id \<Rightarrow> agent_id \<Rightarrow> string \<Rightarrow> unit rt" where
  "release_ownership h r a resource =
     rt_bind (rt_reconstruct r) (\<lambda>st. rt_bind (require_agent a st) (\<lambda>_.
     commit_scheduler h r (OwnershipReleased a resource)))"

section \<open>The tree of agents\<close>

definition one_child :: budget_usage where
  "one_child = no_usage\<lparr>used_child_agents := 1\<rparr>"

definition rt_scheduler_event :: "host \<Rightarrow> run_id \<Rightarrow> scheduler_transition \<Rightarrow> event rt" where
  "rt_scheduler_event h r t =
     rt_payload_event h r scheduler_event RtScheduler (sched_encode_transition (os_windows h) t)"

definition check_child :: "agent_id \<Rightarrow> agent_id \<Rightarrow> runtime_state \<Rightarrow> unit rt" where
  "check_child parent child st = rt_bind (require_agent parent st) (\<lambda>_.
     rt_require (\<not> bm_contains_key (rs_agents st) child)
       (refuse_run (''agent '' @ show_agent child @ '' already exists'')))"

text \<open>The parent is charged for the child, and the child hangs below it.\<close>

definition adopt :: "host \<Rightarrow> agent_id \<Rightarrow> agent_id \<Rightarrow> event list \<Rightarrow> scheduler_state rt" where
  "adopt h parent child evs =
     rt_bind (rt_try RtScheduler (sched_from_events (os_windows h) evs)) (\<lambda>c.
     rt_bind (rt_try RtScheduler (commit (sched_apply (os_windows h) (UsageRecorded parent one_child) c))) (\<lambda>c.
     rt_try RtScheduler (commit (sched_apply (os_windows h) (ChildSpawned parent child) c))))"

definition spawn_events :: "host \<Rightarrow> run_id \<Rightarrow> agent_id \<Rightarrow> agent_identity \<Rightarrow> event list rt" where
  "spawn_events h r parent child =
     rt_bind (rt_event h r (AgentCreated child)) (\<lambda>created.
     rt_bind (rt_scheduler_event h r (UsageRecorded parent one_child)) (\<lambda>charged.
     rt_bind (rt_scheduler_event h r (ChildSpawned parent (agent_ident child))) (\<lambda>related.
     rt_return [created, charged, related])))"

definition spawn_agent :: "host \<Rightarrow> run_id \<Rightarrow> agent_id \<Rightarrow> agent_identity \<Rightarrow> unit rt" where
  "spawn_agent h r parent child =
     rt_bind (rt_reconstruct r) (\<lambda>st.
     rt_bind (check_child parent (agent_ident child) st) (\<lambda>_.
     rt_bind (rt_log r) (\<lambda>evs.
     rt_bind (adopt h parent (agent_ident child) evs) (\<lambda>c.
     rt_bind (spawn_events h r parent child) (\<lambda>new.
     rt_bind (append_validated_batch new) (\<lambda>_.
     rt_update (\<lambda>s. s\<lparr>sv_scheduler := c\<rparr>)))))))"

definition spawn_specialist :: "host \<Rightarrow> run_id \<Rightarrow> agent_id \<Rightarrow> agent_identity \<Rightarrow> specialist_profile
    \<Rightarrow> unit rt" where
  "spawn_specialist h r parent child p =
     rt_bind (rt_require (sp_agent p = agent_ident child)
       (RtSpecialist (SpInvalid ''specialist profile agent does not match child identity''))) (\<lambda>_.
     rt_bind (rt_try RtSpecialist (profile_validate p)) (\<lambda>_.
     rt_bind (rt_reconstruct r) (\<lambda>st.
     rt_bind (check_child parent (agent_ident child) st) (\<lambda>_.
     rt_bind (rt_log r) (\<lambda>evs.
     rt_bind (adopt h parent (agent_ident child) evs) (\<lambda>c.
     rt_bind (rt_try RtSpecialist (sp_from_events evs)) (\<lambda>registry.
     rt_bind (rt_try RtSpecialist (commit (sp_apply (SpecialistRegistered p) registry))) (\<lambda>registry'.
     rt_bind (spawn_events h r parent child) (\<lambda>new.
     rt_bind (rt_payload_event h r specialist_event RtSpecialist
       (sp_encode_transition (SpecialistRegistered p))) (\<lambda>registered.
     rt_bind (append_validated_batch (new @ [registered])) (\<lambda>_.
     rt_update (\<lambda>s. s\<lparr>sv_scheduler := c, sv_specialists := registry'\<rparr>))))))))))))"

text \<open>The claims of an agent that is cancelled are released one by one.\<close>

fun release_all :: "host \<Rightarrow> run_id \<Rightarrow> agent_id \<Rightarrow> string list \<Rightarrow> scheduler_state
    \<Rightarrow> (event list \<times> scheduler_state) rt" where
  "release_all h r a [] c = rt_return ([], c)"
| "release_all h r a (resource # rest) c =
     rt_bind (rt_try RtScheduler (commit (sched_apply (os_windows h) (OwnershipReleased a resource) c))) (\<lambda>c.
     rt_bind (rt_scheduler_event h r (OwnershipReleased a resource)) (\<lambda>ev.
     rt_bind (release_all h r a rest c) (\<lambda>(evs, c).
     rt_return (ev # evs, c))))"

definition owned_by :: "scheduler_state \<Rightarrow> agent_id \<Rightarrow> string list" where
  "owned_by c a = map fst (filter (\<lambda>(_, owner). owner = a) (bm_entries (ownership c)))"

definition cancel_agent :: "host \<Rightarrow> run_id \<Rightarrow> agent_id \<Rightarrow> unit rt" where
  "cancel_agent h r a =
     rt_bind (rt_reconstruct r) (\<lambda>st.
     rt_bind (get_agent a st) (\<lambda>g.
     rt_bind (rt_require (\<not> agent_ended (ag_status g))
       (refuse_run (''agent '' @ show_agent a @ '' cannot be cancelled from '' @
          debug_agent_status (ag_status g)))) (\<lambda>_.
     rt_bind (rt_log r) (\<lambda>evs.
     rt_bind (rt_try RtScheduler (sched_from_events (os_windows h) evs)) (\<lambda>c.
     rt_bind (rt_event h r (ModelCancelled a)) (\<lambda>cancelled.
     rt_bind (release_all h r a (owned_by c a) c) (\<lambda>(released, c').
     rt_bind (append_validated_batch (cancelled # released)) (\<lambda>_.
     rt_update (\<lambda>s. s\<lparr>sv_scheduler := c'\<rparr>)))))))))"

section \<open>Supervision\<close>

datatype supervision_decision = DecidedNoAction | DecidedPromoted model_ref | DecidedPaused

definition supervise_agent_with_policy :: "host \<Rightarrow> run_id \<Rightarrow> agent_id \<Rightarrow> supervision_policy
    \<Rightarrow> model_ref list \<Rightarrow> bool \<Rightarrow> supervision_decision rt" where
  "supervise_agent_with_policy h r a policy candidates user_pinned =
     rt_bind (rt_reconstruct r) (\<lambda>st.
     rt_bind (get_agent a st) (\<lambda>g.
     if ag_status g = AgPaused \<or> agent_ended (ag_status g) then rt_return DecidedNoAction
     else
       rt_bind (rt_log r) (\<lambda>evs.
       rt_bind (rt_try RtScheduler (sched_from_events (os_windows h) evs)) (\<lambda>c.
       rt_bind (rt_try RtSpecialist (sp_from_events evs)) (\<lambda>registry.
       let promotable = (case profile_of registry a of None \<Rightarrow> False | Some p \<Rightarrow> sp_promotable p) in
       rt_bind (rt_try RtScheduler (choose_supervision_action (health_of c a) (ag_model g) promotable
         user_pinned candidates policy)) (\<lambda>action.
       case action of
         NoAction \<Rightarrow> rt_return DecidedNoAction
       | Promote m \<Rightarrow> rt_bind (select_model h r a m) (\<lambda>_. rt_return (DecidedPromoted m))
       | Pause \<Rightarrow> rt_bind (rt_pause_agent h r a) (\<lambda>_. rt_return DecidedPaused)))))))"

definition supervise_agent :: "host \<Rightarrow> run_id \<Rightarrow> agent_id \<Rightarrow> supervision_decision rt" where
  "supervise_agent h r a = supervise_agent_with_policy h r a supervision_policy_default [] False"

section \<open>Cache telemetry\<close>

definition observe_cache_usage :: "model_ref \<Rightarrow> u8 list \<Rightarrow> u64 \<Rightarrow> usage \<Rightarrow> u128
    \<Rightarrow> cache_observation option rt" where
  "observe_cache_usage m hash estimated u now = rt_bind rt_service (\<lambda>s.
     case telemetry_record m hash estimated u now (sv_telemetry s) of (observed, c) \<Rightarrow>
       rt_bind (rt_update (\<lambda>s. s\<lparr>sv_telemetry := c\<rparr>)) (\<lambda>_. rt_try RtCache observed))"

definition record_cache_usage :: "host \<Rightarrow> run_id \<Rightarrow> model_ref \<Rightarrow> u8 list \<Rightarrow> u64 \<Rightarrow> usage
    \<Rightarrow> cache_observation option rt" where
  "record_cache_usage h r m hash estimated u =
     rt_bind (rt_reconstruct r) (\<lambda>_.
     rt_bind rt_service (\<lambda>s.
     rt_bind (rt_clock h) (\<lambda>now.
     case telemetry_record m hash estimated u now (sv_telemetry s) of (observed, c) \<Rightarrow>
       rt_bind (rt_try RtCache observed) (\<lambda>ob. case ob of
         None \<Rightarrow> rt_return None
       | Some ob \<Rightarrow>
           rt_bind (rt_append_kind h r (CacheObserved (model_provider m) (model_name m) hash estimated
             (obs_cached_tokens ob))) (\<lambda>_.
           rt_bind (rt_update (\<lambda>s. s\<lparr>sv_telemetry := c\<rparr>)) (\<lambda>_. rt_return (Some ob)))))))"

record model_route_candidate =
  mrc_model :: model_ref
  mrc_estimated_cost_micros :: u64

definition decorate_candidate :: "cache_telemetry \<Rightarrow> u8 list \<Rightarrow> model_route_candidate
    \<Rightarrow> cache_aware_candidate" where
  "decorate_candidate t hash c =
     (let observed = telemetry_get t (cache_key_new (mrc_model c) hash)
      in \<lparr>cand_model = mrc_model c, cand_estimated_cost_micros = mrc_estimated_cost_micros c,
          cand_observed_cached_tokens = map_option last_cached_tokens observed,
          cand_observed_at_ms = map_option last_observed_at_ms observed\<rparr>)"

definition rank_cache_candidates_from_telemetry_at :: "cache_telemetry \<Rightarrow> u8 list
    \<Rightarrow> model_route_candidate list \<Rightarrow> cache_routing_policy \<Rightarrow> u128 option \<Rightarrow> ranked_route list" where
  "rank_cache_candidates_from_telemetry_at t hash cs policy now =
     (let decorated = map (decorate_candidate t hash) cs
      in case now of
           Some now \<Rightarrow> rank_cache_aware_candidates_at decorated policy now
         | None \<Rightarrow> rank_cache_aware_candidates decorated policy)"

definition rank_cache_candidates_from_telemetry :: "cache_telemetry \<Rightarrow> u8 list
    \<Rightarrow> model_route_candidate list \<Rightarrow> cache_routing_policy \<Rightarrow> ranked_route list" where
  "rank_cache_candidates_from_telemetry t hash cs policy =
     rank_cache_candidates_from_telemetry_at t hash cs policy None"

definition rank_cache_candidates :: "runtime_service \<Rightarrow> u8 list \<Rightarrow> model_route_candidate list
    \<Rightarrow> cache_routing_policy \<Rightarrow> ranked_route list" where
  "rank_cache_candidates s = rank_cache_candidates_from_telemetry (sv_telemetry s)"

definition rank_cache_candidates_at :: "runtime_service \<Rightarrow> u8 list \<Rightarrow> model_route_candidate list
    \<Rightarrow> cache_routing_policy \<Rightarrow> u128 \<Rightarrow> ranked_route list" where
  "rank_cache_candidates_at s hash cs policy now =
     rank_cache_candidates_from_telemetry_at (sv_telemetry s) hash cs policy (Some now)"

end
