(* ===== verification/Runtime_Recovery.thy ===== *)
theory Runtime_Recovery
  imports Runtime_Control
begin

text \<open>
  \<open>recover\<close>: every projection of a run rebuilt from its events, with the view of the manager; the
  queries and the context transitions that start from it; and the externalisation of large context
  blocks into an artifact store (\<^verbatim>\<open>crates/runtime/src/lib.rs\<close>).
\<close>

section \<open>The view of the manager\<close>

definition freshness_policy_default :: freshness_policy where
  "freshness_policy_default = \<lparr>fp_max_active_tokens = None, fp_max_stale_blocks = None,
     fp_largest_limit = 8, fp_recent_limit = 8\<rparr>"

record manager_agent =
  mg_agent :: agent_id
  mg_name :: string
  mg_mission :: string
  mg_model :: model_ref
  mg_status :: agent_status
  mg_chunks :: u32
  mg_usage :: usage
  mg_parent :: "agent_id option"
  mg_children :: "agent_id list"
  mg_health :: health_state
  mg_budget :: "budget_state option"
  mg_resources :: "string list"
  mg_assumptions :: "assumption_id list"
  mg_assumption_origins :: "(assumption_id \<times> trust_origin) list"
  mg_conflicts :: "conflict_id list"
  mg_failures :: "failure_id list"
  mg_active_failures :: "failure_id list"
  mg_specialist :: "specialist_profile option"

record manager_projection =
  mp_run :: run_id
  mp_agents :: "(agent_id, manager_agent) bmap"
  mp_context :: proprioception
  mp_cache_observations :: usize
  mp_artifacts :: usize
  mp_active_failures :: usize

definition manager_agent_of :: "scheduler_state \<Rightarrow> assumption_graph \<Rightarrow> failure_memory
    \<Rightarrow> specialist_registry \<Rightarrow> agent_id \<Rightarrow> agent_state \<Rightarrow> manager_agent" where
  "manager_agent_of c g m registry a ag =
     \<lparr>mg_agent = a, mg_name = agent_name (ag_identity ag), mg_mission = agent_mission (ag_identity ag),
      mg_model = ag_model ag, mg_status = ag_status ag, mg_chunks = ag_chunks ag, mg_usage = ag_usage ag,
      mg_parent = parent_of c a, mg_children = children_of c a, mg_health = health_of c a,
      mg_budget = budget_of c a, mg_resources = owned_by c a,
      mg_assumptions = map fst (filter (\<lambda>(_, s). asm_owner s = a) (bm_entries (graph_assumptions g))),
      mg_assumption_origins = map (\<lambda>(i, s). (i, asm_trust s))
        (filter (\<lambda>(_, s). asm_owner s = a) (bm_entries (graph_assumptions g))),
      mg_conflicts = map fst (filter (\<lambda>(_, x). a \<in> set (conflict_agents x)) (bm_entries (graph_conflicts g))),
      mg_failures = map fst (filter (\<lambda>(_, f). fr_agent f = a) (bm_entries (fm_records m))),
      mg_active_failures = map fr_id (filter (\<lambda>f. fr_agent f = a) (active_records m)),
      mg_specialist = profile_of registry a\<rparr>"

text \<open>The agents are mapped in the order of the keys and collected under the same keys.\<close>

definition manager_of :: "run_id \<Rightarrow> runtime_state \<Rightarrow> context_graph \<Rightarrow> cache_telemetry \<Rightarrow> failure_memory
    \<Rightarrow> scheduler_state \<Rightarrow> assumption_graph \<Rightarrow> specialist_registry \<Rightarrow> manager_projection" where
  "manager_of r st cx t m c g registry =
     \<lparr>mp_run = r,
      mp_agents = foldl (\<lambda>acc (a, ag). bm_insert a (manager_agent_of c g m registry a ag) acc)
        bm_empty (bm_entries (rs_agents st)),
      mp_context = proprioception freshness_policy_default cx,
      mp_cache_observations = telemetry_len t, mp_artifacts = bm_len (rs_artifacts st),
      mp_active_failures = length (active_records m)\<rparr>"

section \<open>Recovery\<close>

record recovered_run =
  rc_run :: run_id
  rc_state :: runtime_state
  rc_context :: context_graph
  rc_events :: "stored_event list"
  rc_telemetry :: cache_telemetry
  rc_messages :: "ipc_envelope list"
  rc_assumptions :: assumption_graph
  rc_scheduler :: scheduler_state
  rc_capabilities :: capability_policy
  rc_tools :: tool_records
  rc_failures :: failure_memory
  rc_specialists :: specialist_registry
  rc_manager :: manager_projection

text \<open>The last loop of \<open>recover\<close>: cache observations, messages, and turns, which are only checked.\<close>

fun recover_scan :: "event list \<Rightarrow> cache_telemetry \<Rightarrow> ipc_envelope list
    \<Rightarrow> (cache_telemetry \<times> ipc_envelope list, runtime_error) result" where
  "recover_scan [] t ms = Ok (t, ms)"
| "recover_scan (ev # evs) t ms = (case event_knd ev of
     CacheObserved provider model hash estimated cached \<Rightarrow>
       recover_scan evs (record_observation \<lparr>obs_key = CacheKey provider model hash,
         obs_estimated_prefix_tokens = estimated, obs_cached_tokens = cached,
         obs_at_ms = occurred_at_ms ev\<rparr> t) ms
   | AgentMessage v payload \<Rightarrow>
       and_then (map_err RtIpc (envelope_decode v payload)) (\<lambda>e. recover_scan evs t (ms @ [e]))
   | ConversationTurn v payload \<Rightarrow>
       and_then (map_err (RtEventStore \<circ> EsCorrupt) (turn_decode v payload)) (\<lambda>_. recover_scan evs t ms)
   | _ \<Rightarrow> recover_scan evs t ms)"

type_synonym content_resolver = "u8 list \<Rightarrow> (u8 list, context_error) result"

definition recover_with_resolver :: "bool \<Rightarrow> content_resolver \<Rightarrow> run_id \<Rightarrow> event_store
    \<Rightarrow> (recovered_run, runtime_error) result" where
  "recover_with_resolver win resolver r s =
     (let stored = es_events r s; evs = map se_event stored in
      and_then (map_err RtEventStore (es_reconstruct r s)) (\<lambda>st.
      and_then (map_err RtContext (log_from_events evs)) (\<lambda>log.
      and_then (map_err RtContext (replay_with_content resolver log)) (\<lambda>cx.
      and_then (map_err RtAssumption (graph_from_events evs)) (\<lambda>g.
      and_then (map_err RtScheduler (sched_from_events win evs)) (\<lambda>c.
      and_then (map_err RtCapability (policy_from_events evs)) (\<lambda>p.
      and_then (map_err RtTool (tool_records_from_events evs)) (\<lambda>h.
      and_then (map_err RtFailureMemory (fm_from_events evs)) (\<lambda>m.
      and_then (map_err RtSpecialist (sp_from_events evs)) (\<lambda>registry.
      and_then (recover_scan evs telemetry_new []) (\<lambda>(t, ms).
        Ok \<lparr>rc_run = r, rc_state = st, rc_context = cx, rc_events = stored, rc_telemetry = t,
            rc_messages = ms, rc_assumptions = g, rc_scheduler = c, rc_capabilities = p, rc_tools = h,
            rc_failures = m, rc_specialists = registry,
            rc_manager = manager_of r st cx t m c g registry\<rparr>)))))))))))"

definition no_artifacts :: content_resolver where
  "no_artifacts h = Err (CxMissingArtifact h)"

definition recover :: "bool \<Rightarrow> run_id \<Rightarrow> event_store \<Rightarrow> (recovered_run, runtime_error) result" where
  "recover win = recover_with_resolver win no_artifacts"

text \<open>\<open>Display\<close> of an artifact error, which the resolver passes on as a message.\<close>

fun artifact_error_message :: "artifact_error \<Rightarrow> string" where
  "artifact_error_message ArInvalidMediaType = ''artifact media type must not be empty''"
| "artifact_error_message (ArTooLarge n m) =
     ''artifact is too large: '' @ show_nat n @ '' bytes (maximum '' @ show_nat m @ '')''"
| "artifact_error_message (ArHashCollision h) = ''content hash collision for '' @ show_hash h"
| "artifact_error_message (ArMetadataMismatch h) =
     ''artifact metadata mismatch for content hash '' @ show_hash h"
| "artifact_error_message (ArStorage m) = ''artifact storage error: '' @ m"
| "artifact_error_message (ArCorrupt m) = ''corrupt artifact: '' @ m"

definition store_resolver :: "artifact_map \<Rightarrow> content_resolver" where
  "store_resolver m h = (case artifact_get h m of
     Ok (Some a) \<Rightarrow> Ok (sa_bytes a)
   | Ok None \<Rightarrow> Err (CxMissingArtifact h)
   | Err e \<Rightarrow> Err (CxArtifactResolution (artifact_error_message e)))"

definition recover_with_artifact_store :: "bool \<Rightarrow> artifact_map \<Rightarrow> run_id \<Rightarrow> event_store
    \<Rightarrow> (recovered_run, runtime_error) result" where
  "recover_with_artifact_store win m = recover_with_resolver win (store_resolver m)"

section \<open>Queries\<close>

definition inspect_context :: "bool \<Rightarrow> run_id \<Rightarrow> freshness_policy \<Rightarrow> event_store
    \<Rightarrow> (proprioception, runtime_error) result" where
  "inspect_context win r policy s = and_then (recover win r s) (\<lambda>rc.
     Ok (proprioception policy (rc_context rc)))"

definition search_context :: "bool \<Rightarrow> (string \<Rightarrow> string) \<Rightarrow> run_id \<Rightarrow> context_principal \<Rightarrow> search_request
    \<Rightarrow> event_store \<Rightarrow> (search_hit list, runtime_error) result" where
  "search_context win lower r p q s = and_then (recover win r s) (\<lambda>rc.
     map_err RtContext (search lower p q (rc_context rc)))"

definition context_dependencies :: "bool \<Rightarrow> run_id \<Rightarrow> context_ref \<Rightarrow> usize \<Rightarrow> event_store
    \<Rightarrow> (dependency_report, runtime_error) result" where
  "context_dependencies win r ref maximum s = and_then (recover win r s) (\<lambda>rc.
     map_err RtContext (dependency_report ref maximum (rc_context rc)))"

definition select_specialist :: "run_id \<Rightarrow> specialist_request \<Rightarrow> event_store
    \<Rightarrow> (specialist_profile option, runtime_error) result" where
  "select_specialist r q s = and_then (map_err RtSpecialist (sp_from_events (map se_event (es_events r s))))
     (\<lambda>registry. map_err RtSpecialist (specialist_select registry q))"

section \<open>Context transitions\<close>

definition append_context_lifecycle_transition :: "host \<Rightarrow> run_id \<Rightarrow> context_transition \<Rightarrow> unit rt" where
  "append_context_lifecycle_transition h r t =
     rt_append_payload h r context_event RtContext (cx_encode_transition t)"

text \<open>Recover the context, compute the transition on it, and append that.\<close>

definition change_context :: "(context_ref \<Rightarrow> context_graph
      \<Rightarrow> (context_transition, context_error) result \<times> context_graph)
    \<Rightarrow> host \<Rightarrow> content_resolver \<Rightarrow> run_id \<Rightarrow> context_ref \<Rightarrow> unit rt" where
  "change_context operation h resolver r ref =
     rt_bind rt_service (\<lambda>s.
     rt_bind (rt_try id (recover_with_resolver (os_windows h) resolver r (sv_store s))) (\<lambda>rc.
     rt_bind (rt_try RtContext (fst (operation ref (rc_context rc)))) (\<lambda>t.
     append_context_lifecycle_transition h r t)))"

definition archive_context :: "host \<Rightarrow> run_id \<Rightarrow> context_ref \<Rightarrow> unit rt" where
  "archive_context h = change_context cx_archive h no_artifacts"
definition restore_context :: "host \<Rightarrow> run_id \<Rightarrow> context_ref \<Rightarrow> unit rt" where
  "restore_context h = change_context cx_restore h no_artifacts"
definition pin_context :: "host \<Rightarrow> run_id \<Rightarrow> context_ref \<Rightarrow> unit rt" where
  "pin_context h = change_context cx_pin h no_artifacts"
definition unpin_context :: "host \<Rightarrow> run_id \<Rightarrow> context_ref \<Rightarrow> unit rt" where
  "unpin_context h = change_context cx_unpin h no_artifacts"

definition archive_context_with_artifact_store :: "host \<Rightarrow> artifact_map \<Rightarrow> run_id \<Rightarrow> context_ref \<Rightarrow> unit rt"
  where "archive_context_with_artifact_store h m = change_context cx_archive h (store_resolver m)"
definition restore_context_with_artifact_store :: "host \<Rightarrow> artifact_map \<Rightarrow> run_id \<Rightarrow> context_ref \<Rightarrow> unit rt"
  where "restore_context_with_artifact_store h m = change_context cx_restore h (store_resolver m)"
definition pin_context_with_artifact_store :: "host \<Rightarrow> artifact_map \<Rightarrow> run_id \<Rightarrow> context_ref \<Rightarrow> unit rt"
  where "pin_context_with_artifact_store h m = change_context cx_pin h (store_resolver m)"
definition unpin_context_with_artifact_store :: "host \<Rightarrow> artifact_map \<Rightarrow> run_id \<Rightarrow> context_ref \<Rightarrow> unit rt"
  where "unpin_context_with_artifact_store h m = change_context cx_unpin h (store_resolver m)"

section \<open>Large context blocks as artifacts\<close>

definition CONTEXT_ARTIFACT_MEDIA_TYPE :: string where
  "CONTEXT_ARTIFACT_MEDIA_TYPE = ''application/vnd.orynth.context-block''"

definition artifact_created_kind :: "artifact_ref \<Rightarrow> event_kind" where
  "artifact_created_kind a = ArtifactCreated (ar_hash a) (ar_size a) (ar_media a) (ar_trust a)"

record externalize_state =
  xs_artifacts :: artifact_map
  xs_created :: "artifact_hash set"
  xs_transitions :: "context_transition list"
  xs_events :: "event_kind list"

text \<open>
  One turn of the loop; the artifacts stored before an error stay stored. The event of an artifact is
  \<open>Event::new\<close> of the kind kept here.
\<close>

definition externalize_step :: "(u8 list \<Rightarrow> artifact_hash) \<Rightarrow> nat \<Rightarrow> context_transition
    \<Rightarrow> externalize_state \<Rightarrow> (unit, runtime_error) result \<times> externalize_state" where
  "externalize_step hasher inline_limit t x = (case t of
     CxCreated b content \<Rightarrow>
       if inline_limit < length content then
         (case put_with_trust hasher CONTEXT_ARTIFACT_MEDIA_TYPE content (cb_trust b) (xs_artifacts x) of
            (Err e, m) \<Rightarrow> (Err (RtArtifact e), x\<lparr>xs_artifacts := m\<rparr>)
          | (Ok a, m) \<Rightarrow> (Ok (), x\<lparr>xs_artifacts := m, xs_created := insert (ar_hash a) (xs_created x),
              xs_transitions := xs_transitions x @ [CxCreatedFromArtifact b (ar_hash a)],
              xs_events := (if ar_hash a \<in> xs_created x then xs_events x
                else xs_events x @ [artifact_created_kind a])\<rparr>))
       else (Ok (), x\<lparr>xs_transitions := xs_transitions x @ [t]\<rparr>)
   | _ \<Rightarrow> (Ok (), x\<lparr>xs_transitions := xs_transitions x @ [t]\<rparr>))"

fun externalize_loop :: "(u8 list \<Rightarrow> artifact_hash) \<Rightarrow> nat \<Rightarrow> context_transition list
    \<Rightarrow> externalize_state \<Rightarrow> (unit, runtime_error) result \<times> externalize_state" where
  "externalize_loop hasher inline_limit [] x = (Ok (), x)"
| "externalize_loop hasher inline_limit (t # ts) x = (case externalize_step hasher inline_limit t x of
     (Err e, x') \<Rightarrow> (Err e, x')
   | (Ok _, x') \<Rightarrow> externalize_loop hasher inline_limit ts x')"

text \<open>The new log and the events of the artifacts, with the artifact store that is left behind.\<close>

definition externalize_context_log :: "(u8 list \<Rightarrow> artifact_hash) \<Rightarrow> nat \<Rightarrow> context_transition list
    \<Rightarrow> artifact_map \<Rightarrow> (context_transition list \<times> event_kind list, runtime_error) result \<times> artifact_map" where
  "externalize_context_log hasher inline_limit ts m = (case externalize_loop hasher inline_limit ts
       \<lparr>xs_artifacts = m, xs_created = {}, xs_transitions = [], xs_events = []\<rparr> of
     (Err e, x) \<Rightarrow> (Err e, xs_artifacts x)
   | (Ok _, x) \<Rightarrow> (Ok (xs_transitions x, xs_events x), xs_artifacts x))"

end
