(* ===== verification/Runtime_Commands.thy ===== *)
theory Runtime_Commands
  imports Runtime_Recovery
begin

text \<open>
  The runtime service as a state machine: the calls a client can make as one datatype, and the two facts
  every one of them has. A call that fails leaves the event log and the projections as they were; a
  call writes to the log only by appending events that the run accepts.
\<close>

section \<open>Calls\<close>

datatype context_operation = ArchiveContext | RestoreContext | PinContext | UnpinContext

fun operation_of :: "context_operation \<Rightarrow> context_ref \<Rightarrow> context_graph
    \<Rightarrow> (context_transition, context_error) result \<times> context_graph" where
  "operation_of ArchiveContext = cx_archive"
| "operation_of RestoreContext = cx_restore"
| "operation_of PinContext = cx_pin"
| "operation_of UnpinContext = cx_unpin"

datatype command =
    RecordTool run_id tool_transition
  | RecordTurn run_id conversation_turn
  | RecordModel run_id event_kind
  | SelectModel run_id agent_id model_ref
  | PauseAgent run_id agent_id
  | ResumeAgent run_id agent_id
  | RecordFailure run_id failure_record
  | ResolveFailure run_id failure_id
  | GrantCapability run_id capability_lease
  | RevokeCapability run_id agent_id "task_id option" capability_domain string
  | SendMessage ipc_envelope
  | RequestConsultation run_id agent_id agent_id string string
  | AnswerConsultation run_id agent_id agent_id string string "string option" "string list"
  | ReceiveMessage agent_id
  | PublishAssumption assumption
  | ConfigureBudget run_id agent_id budget_limits
  | TransferBudget run_id agent_id agent_id budget_limits
  | RecordUsage run_id agent_id budget_usage
  | RecordHealth run_id agent_id health_signal
  | ClaimOwnership run_id agent_id string
  | ReleaseOwnership run_id agent_id string
  | SpawnAgent run_id agent_id agent_identity
  | SpawnSpecialist run_id agent_id agent_identity specialist_profile
  | CancelAgent run_id agent_id
  | SuperviseAgent run_id agent_id supervision_policy "model_ref list" bool
  | ObserveCache model_ref "u8 list" u64 usage u128
  | RecordCache run_id model_ref "u8 list" u64 usage
  | ChangeContext context_operation content_resolver run_id context_ref

definition rt_ignore :: "'a rt \<Rightarrow> unit rt" where
  "rt_ignore m = rt_bind m (\<lambda>_. rt_return ())"

fun run_command :: "host \<Rightarrow> command \<Rightarrow> unit rt" where
  "run_command h (RecordTool r t) = record_tool_transition h r t"
| "run_command h (RecordTurn r t) = record_conversation_turn h r t"
| "run_command h (RecordModel r k) = record_model_transition h r k"
| "run_command h (SelectModel r a m) = select_model h r a m"
| "run_command h (PauseAgent r a) = rt_pause_agent h r a"
| "run_command h (ResumeAgent r a) = rt_resume_agent h r a"
| "run_command h (RecordFailure r f) = record_failure h r f"
| "run_command h (ResolveFailure r i) = resolve_failure h r i"
| "run_command h (GrantCapability r l) = grant_capability h r l"
| "run_command h (RevokeCapability r a t d x) = revoke_capability h r a t d x"
| "run_command h (SendMessage e) = send_message h e"
| "run_command h (RequestConsultation r a b x y) = rt_ignore (request_consultation h r a b x y)"
| "run_command h (AnswerConsultation r a b x y v ev) = rt_ignore (answer_consultation h r a b x y v ev)"
| "run_command h (ReceiveMessage a) = rt_ignore (receive_message a)"
| "run_command h (PublishAssumption a) = rt_ignore (publish_assumption h a)"
| "run_command h (ConfigureBudget r a l) = configure_budget h r a l"
| "run_command h (TransferBudget r a b l) = transfer_budget h r a b l"
| "run_command h (RecordUsage r a u) = record_agent_usage h r a u"
| "run_command h (RecordHealth r a sig) = record_health_signal h r a sig"
| "run_command h (ClaimOwnership r a x) = claim_ownership h r a x"
| "run_command h (ReleaseOwnership r a x) = release_ownership h r a x"
| "run_command h (SpawnAgent r a child) = spawn_agent h r a child"
| "run_command h (SpawnSpecialist r a child p) = spawn_specialist h r a child p"
| "run_command h (CancelAgent r a) = cancel_agent h r a"
| "run_command h (SuperviseAgent r a p cs pinned) = rt_ignore (supervise_agent_with_policy h r a p cs pinned)"
| "run_command h (ObserveCache m x n u now) = rt_ignore (observe_cache_usage m x n u now)"
| "run_command h (RecordCache r m x n u) = rt_ignore (record_cache_usage h r m x n u)"
| "run_command h (ChangeContext c resolver r ref) = change_context (operation_of c) h resolver r ref"

fun run_commands :: "host \<Rightarrow> command list \<Rightarrow> runtime_world \<Rightarrow> runtime_world" where
  "run_commands h [] w = w"
| "run_commands h (c # cs) w = run_commands h cs (snd (run_command h c w))"

lemmas command_defs = record_tool_transition_def record_conversation_turn_def record_model_transition_def
  select_model_def rt_pause_agent_def rt_resume_agent_def record_failure_def resolve_failure_def
  grant_capability_def revoke_capability_def commit_failure_def commit_capability_def
  request_consultation_def answer_consultation_def commit_scheduler_def configure_budget_def
  transfer_budget_def record_agent_usage_def record_health_signal_def claim_ownership_def
  release_ownership_def spawn_agent_def spawn_specialist_def
  change_context_def
  append_context_lifecycle_transition_def rt_ignore_def

section \<open>Appends write only events the run accepts\<close>

inductive log_step :: "event_store \<Rightarrow> event_store \<Rightarrow> bool" where
  log_step: "\<lbrakk>es_reconstruct r s = Ok st; try_fold apply_event st evs = Ok st'; evs \<noteq> [];
     es_append_batch evs s = (Ok ns, s')\<rbrakk> \<Longrightarrow> log_step s s'"

inductive_cases log_stepE: "log_step s s'"

definition extends_log :: "'a rt \<Rightarrow> bool" where
  "extends_log m \<longleftrightarrow> (\<forall>w. log_step\<^sup>*\<^sup>* (sv_store (w_service w)) (sv_store (w_service (snd (m w)))))"

named_theorems log_intros \<open>rules for what a method writes to the log\<close>

lemma extends_logD: "extends_log m \<Longrightarrow> m w = (x, w') \<Longrightarrow>
    log_step\<^sup>*\<^sup>* (sv_store (w_service w)) (sv_store (w_service w'))"
  by (metis extends_log_def snd_conv)

lemma extends_leaves: "leaves sv_store m \<Longrightarrow> extends_log m"
  by (simp add: extends_log_def leaves_def)

lemma extends_bind [log_intros]:
  assumes "extends_log m" and "\<And>x. extends_log (f x)"
  shows "extends_log (rt_bind m f)"
  unfolding extends_log_def
proof
  fix w
  obtain x w1 where m: "m w = (x, w1)" by fastforce
  with assms(1) have first: "log_step\<^sup>*\<^sup>* (sv_store (w_service w)) (sv_store (w_service w1))"
    by (rule extends_logD)
  show "log_step\<^sup>*\<^sup>* (sv_store (w_service w)) (sv_store (w_service (snd (rt_bind m f w))))"
  proof (cases x)
    case (Ok y)
    obtain z w2 where "f y w1 = (z, w2)" by fastforce
    with extends_logD [OF assms(2) this] first m Ok show ?thesis by (simp add: rt_bind_def)
  qed (simp add: rt_bind_def m first)
qed

lemma extends_return [log_intros]: "extends_log (rt_return x)"
  by (intro extends_leaves frame_intros)

lemma extends_map [log_intros]: "(\<And>x. extends_log (f x)) \<Longrightarrow> extends_log (rt_map f xs)"
  by (induction xs) (auto intro!: log_intros)

lemma leaves_update [frame_intros]: "(\<And>s. view (f s) = view s) \<Longrightarrow> leaves view (rt_update f)"
  by (simp add: leaves_def rt_update_def)

lemma leaves_reconstruct [frame_intros]: "leaves view (rt_reconstruct r)"
  unfolding rt_reconstruct_def by (intro frame_intros)

lemma leaves_log [frame_intros]: "leaves view (rt_log r)"
  unfolding rt_log_def by (intro frame_intros)

lemma leaves_event [frame_intros]: "leaves view (rt_event h r k)"
  unfolding rt_event_def by (intro frame_intros)

lemma leaves_payload_event [frame_intros]: "leaves view (rt_payload_event h r wrap into encoded)"
  unfolding rt_payload_event_def by (intro frame_intros)

lemma leaves_require_agent [frame_intros]: "leaves view (require_agent a st)"
  unfolding require_agent_def by (intro frame_intros)

lemma leaves_get_agent [frame_intros]: "leaves view (get_agent a st)"
  unfolding get_agent_def by (intro frame_intros)

lemma leaves_require_task [frame_intros]: "leaves view (require_task what t st)"
  unfolding require_task_def by (cases t) (auto intro: frame_intros)

lemma rt_append_Ok:
  "rt_append evs w = (Ok u, w') \<longleftrightarrow> (\<exists>ns s. es_append_batch evs (sv_store (w_service w)) = (Ok ns, s) \<and>
     w' = w\<lparr>w_service := (w_service w)\<lparr>sv_store := s\<rparr>\<rparr>)"
  by (auto simp: rt_append_def split: prod.splits result.splits)

lemma es_append_single:
  "es_append_batch [ev] s = (case es_append ev s of (Ok n, s') \<Rightarrow> (Ok [n], s') | (Err e, s') \<Rightarrow> (Err e, s))"
  by (simp add: es_append_batch_def split: prod.split result.split)

lemma rt_append_one_eq: "rt_append_one ev = rt_append [ev]"
  by (rule ext)
    (auto simp: rt_append_one_def rt_append_def es_append_single dest: es_append_Err split: prod.split result.split)

lemma and_then_Ok_right [simp]: "and_then m Ok = m"
  by (cases m) simp_all

lemma append_validated_event_eq: "append_validated_event ev = append_validated_batch [ev]"
  by (rule ext) (simp add: append_validated_event_def append_validated_batch_def rt_append_one_eq rt_bind_def
      rt_try_def split: prod.split result.split)

lemma rt_reconstruct_Ok:
  "rt_reconstruct r w = (Ok st, w') \<longleftrightarrow> es_reconstruct r (sv_store (w_service w)) = Ok st \<and> w' = w"
  by (auto simp: rt_reconstruct_def)

lemma append_validated_batch_Ok:
  "append_validated_batch evs w = (Ok u, w') \<longleftrightarrow> (\<exists>st st' ns s. evs \<noteq> [] \<and>
     es_reconstruct (event_run (hd evs)) (sv_store (w_service w)) = Ok st \<and>
     try_fold apply_event st evs = Ok st' \<and> es_append_batch evs (sv_store (w_service w)) = (Ok ns, s) \<and>
     w' = w\<lparr>w_service := (w_service w)\<lparr>sv_store := s\<rparr>\<rparr>)"
  by (cases evs) (auto simp: append_validated_batch_def rt_reconstruct_Ok rt_append_Ok simp del: try_fold.simps)

lemma append_validated_batch_Err:
  "append_validated_batch evs w = (Err e, w') \<Longrightarrow> w_service w' = w_service w"
  by (cases evs) (auto simp: append_validated_batch_def rt_bind_Err rt_reconstruct_Ok rt_append_def
      rt_reconstruct_def rt_try_def dest: es_append_batch_Err split: prod.splits result.splits)

lemma extends_append_batch [log_intros]: "extends_log (append_validated_batch evs)"
  unfolding extends_log_def
proof
  fix w
  obtain x w' where m: "append_validated_batch evs w = (x, w')" by fastforce
  show "log_step\<^sup>*\<^sup>* (sv_store (w_service w)) (sv_store (w_service (snd (append_validated_batch evs w))))"
  proof (cases x)
    case (Ok u)
    with m have "log_step (sv_store (w_service w)) (sv_store (w_service w'))"
      by (auto simp: append_validated_batch_Ok intro: log_step.intros)
    with m show ?thesis by simp
  qed (use m append_validated_batch_Err in simp)
qed

lemma extends_append [log_intros]: "extends_log (append_validated_event ev)"
  by (simp add: append_validated_event_eq extends_append_batch)

lemma atomic_append_batch [frame_intros]: "atomic_on view (append_validated_batch evs)"
  by (simp add: atomic_on_def) (metis append_validated_batch_Err)

lemma atomic_append [frame_intros]: "atomic_on view (append_validated_event ev)"
  by (simp add: append_validated_event_eq atomic_append_batch)

section \<open>Every call\<close>

lemma leaves_check_tool [frame_intros]: "leaves view (check_tool_proposal r t st)"
  by (cases t) (auto intro!: frame_intros)

lemma leaves_check_speaker [frame_intros]: "leaves view (check_speaker h r sp st)"
  by (cases sp) (auto intro!: frame_intros)

lemma leaves_adopt [frame_intros]: "leaves view (adopt h p c evs)"
  unfolding adopt_def by (intro frame_intros)

lemma leaves_scheduler_event [frame_intros]: "leaves view (rt_scheduler_event h r t)"
  unfolding rt_scheduler_event_def by (intro frame_intros)

lemma leaves_spawn_events [frame_intros]: "leaves view (spawn_events h r p c)"
  unfolding spawn_events_def by (intro frame_intros)

lemma leaves_check_child [frame_intros]: "leaves view (check_child p c st)"
  unfolding check_child_def by (intro frame_intros)

lemma leaves_release_all [frame_intros]: "leaves view (release_all h r a xs c)"
  by (induction xs arbitrary: c) (auto intro!: frame_intros split: prod.split)

lemma leaves_take_ids [frame_intros]: "leaves view (rt_take_ids h n)"
  by (simp add: leaves_def rt_take_ids_def split: prod.split)

lemma leaves_take_return:
  "view (w_service (snd (rt_bind (rt_take_ids h n) (\<lambda>_. rt_return x) w))) = view (w_service w)"
  by (simp add: rt_bind_def rt_return_def rt_take_ids_def split: prod.split)

lemma leaves_publish [frame_intros]: "leaves view (rt_publish h a g)"
  by (simp add: rt_publish_def leaves_def leaves_take_return split: prod.split result.split)

lemma leaves_notify_agent [frame_intros]: "leaves view (notify_agent h r st causal c left right b)"
  unfolding notify_agent_def Let_def by (intro frame_intros)

lemma leaves_notify_conflict [frame_intros]: "leaves view (notify_conflict h r st causal g c)"
  unfolding notify_conflict_def by (intro frame_intros)

lemma atomic_payload [frame_intros]: "atomic_on view (rt_append_payload h r wrap into encoded)"
  unfolding rt_append_payload_def by (rule atomic_read_first) (intro frame_intros)+

lemma atomic_kind [frame_intros]: "atomic_on view (rt_append_kind h r k)"
  unfolding rt_append_kind_def by (rule atomic_read_first) (intro frame_intros)+

lemma extends_payload [log_intros]: "extends_log (rt_append_payload h r wrap into encoded)"
  unfolding rt_append_payload_def by (intro log_intros extends_leaves frame_intros)

lemma extends_kind [log_intros]: "extends_log (rt_append_kind h r k)"
  unfolding rt_append_kind_def by (intro log_intros extends_leaves frame_intros)

text \<open>
  What a failed call leaves as it was: the whole service; of the calls that open a mailbox before they
  append, all but that empty mailbox.
\<close>

lemma atomic_then_update: "atomic_on view m \<Longrightarrow> atomic_on view (rt_bind m (\<lambda>_. rt_update f))"
  by (auto intro: atomic_write_last frame_intros)

lemma atomic_then_return: "atomic_on view m \<Longrightarrow> atomic_on view (rt_bind m (\<lambda>_. rt_return x))"
  by (auto intro: atomic_write_last frame_intros)

lemmas atomic_simple [frame_intros] = leaves_return [THEN leaves_atomic] leaves_throw [THEN leaves_atomic]
  leaves_try [THEN leaves_atomic] leaves_require [THEN leaves_atomic]

lemma atomic_commit_failure [frame_intros]: "atomic_on view (commit_failure h r t)"
  unfolding commit_failure_def
  by (rule atomic_then_update atomic_read_first | rule frame_intros)+

lemma atomic_commit_capability [frame_intros]: "atomic_on view (commit_capability h r t)"
  unfolding commit_capability_def
  by (rule atomic_then_update atomic_read_first | rule frame_intros)+

lemma atomic_commit_scheduler [frame_intros]: "atomic_on view (commit_scheduler h r t)"
  unfolding commit_scheduler_def
  by (rule atomic_then_update atomic_read_first | rule frame_intros)+

lemma atomic_record_tool [frame_intros]: "atomic_on view (record_tool_transition h r t)"
  unfolding record_tool_transition_def
  by (rule atomic_then_update atomic_read_first | rule frame_intros)+

lemma atomic_select_model [frame_intros]: "atomic_on view (select_model h r a m)"
  unfolding select_model_def by (rule atomic_read_first | rule frame_intros)+

lemma atomic_pause_agent [frame_intros]: "atomic_on view (rt_pause_agent h r a)"
  unfolding rt_pause_agent_def by (rule atomic_read_first | rule frame_intros)+

lemma atomic_supervise [frame_intros]: "atomic_on view (supervise_agent_with_policy h r a p cs pinned)"
proof -
  have "atomic_on view (case x of NoAction \<Rightarrow> rt_return DecidedNoAction
      | Promote m \<Rightarrow> rt_bind (select_model h r a m) (\<lambda>_. rt_return (DecidedPromoted m))
      | Pause \<Rightarrow> rt_bind (rt_pause_agent h r a) (\<lambda>_. rt_return DecidedPaused))" for x
    by (cases x) (auto intro: leaves_atomic atomic_then_return frame_intros)
  then show ?thesis
    unfolding supervise_agent_with_policy_def Let_def
    by (auto intro!: atomic_read_first intro: frame_intros)
qed

lemma atomic_record_cache [frame_intros]: "atomic_on view (record_cache_usage h r m hash estimated u)"
proof -
  have "atomic_on view (case ob of None \<Rightarrow> rt_return None | Some ob \<Rightarrow>
      rt_bind (rt_append_kind h r (CacheObserved (model_provider m) (model_name m) hash estimated
        (obs_cached_tokens ob))) (\<lambda>_. rt_bind (rt_update (\<lambda>s. s\<lparr>sv_telemetry := c\<rparr>)) (\<lambda>_. rt_return (Some ob))))"
    for ob and c :: cache_telemetry
    by (cases ob) (auto intro: atomic_write_last frame_intros)
  then show ?thesis
    unfolding record_cache_usage_def
    by (auto intro!: atomic_read_first frame_intros split: prod.split)
qed

lemma atomic_observe_cache [frame_intros]: "atomic_on view (observe_cache_usage m hash estimated u now)"
  by (auto simp: atomic_on_def observe_cache_usage_def telemetry_record_def rt_bind_Err rt_try_def
      Let_def split: option.splits if_splits)

lemma atomic_change_context [frame_intros]: "atomic_on view (change_context operation h resolver r ref)"
  unfolding change_context_def append_context_lifecycle_transition_def
  by (rule atomic_read_first | rule frame_intros)+

lemma atomic_spawn_agent [frame_intros]: "atomic_on view (spawn_agent h r p child)"
  unfolding spawn_agent_def by (rule atomic_then_update atomic_read_first | rule frame_intros)+

lemma atomic_spawn_specialist [frame_intros]: "atomic_on view (spawn_specialist h r p child profile)"
  unfolding spawn_specialist_def by (rule atomic_then_update atomic_read_first | rule frame_intros)+

lemma atomic_cancel [frame_intros]: "atomic_on view (cancel_agent h r a)"
  unfolding cancel_agent_def
  by (rule atomic_then_update atomic_read_first | rule frame_intros | clarsimp split: prod.split)+

text \<open>The calls that do not touch the mailboxes.\<close>

fun is_messaging :: "command \<Rightarrow> bool" where
  "is_messaging (SendMessage _) = True"
| "is_messaging (RequestConsultation _ _ _ _ _) = True"
| "is_messaging (AnswerConsultation _ _ _ _ _ _ _) = True"
| "is_messaging (ReceiveMessage _) = True"
| "is_messaging (PublishAssumption _) = True"
| "is_messaging _ = False"

lemma atomic_command: "\<not> is_messaging c \<Longrightarrow> atomic_on view (run_command h c)"
  by (cases c; simp add: rt_ignore_def record_conversation_turn_def record_model_transition_def
      rt_resume_agent_def record_failure_def resolve_failure_def grant_capability_def
      revoke_capability_def configure_budget_def transfer_budget_def record_agent_usage_def
      record_health_signal_def claim_ownership_def release_ownership_def;
    (rule atomic_then_return atomic_read_first | rule frame_intros)+)

section \<open>Every call extends the log by accepted events\<close>

lemma extends_update [log_intros]: "(\<And>s. sv_store (f s) = sv_store s) \<Longrightarrow> extends_log (rt_update f)"
  by (intro extends_leaves frame_intros)

lemmas extends_simple [log_intros] = leaves_throw [THEN extends_leaves] leaves_try [THEN extends_leaves]
  leaves_require [THEN extends_leaves] leaves_service [THEN extends_leaves]
  leaves_clock [THEN extends_leaves] leaves_new_id [THEN extends_leaves]
  leaves_reconstruct [THEN extends_leaves] leaves_log [THEN extends_leaves]
  leaves_event [THEN extends_leaves] leaves_payload_event [THEN extends_leaves]
  leaves_require_agent [THEN extends_leaves] leaves_get_agent [THEN extends_leaves]
  leaves_require_task [THEN extends_leaves] leaves_check_tool [THEN extends_leaves]
  leaves_check_speaker [THEN extends_leaves] leaves_adopt [THEN extends_leaves]
  leaves_spawn_events [THEN extends_leaves] leaves_check_child [THEN extends_leaves]
  leaves_release_all [THEN extends_leaves] leaves_publish [THEN extends_leaves]
  leaves_notify_conflict [THEN extends_leaves]

lemma extends_open_mailbox [log_intros]: "extends_log (open_mailbox a)"
  unfolding open_mailbox_def Let_def by (intro log_intros) simp

lemma extends_deliver [log_intros]: "extends_log (deliver e)"
  unfolding deliver_def by (intro log_intros) (auto intro!: log_intros split: option.split prod.split)

lemma extends_send [log_intros]: "extends_log (send_message h e)"
  unfolding send_message_def by (intro log_intros)

lemma extends_receive [log_intros]: "extends_log (receive_message a)"
  unfolding receive_message_def by (intro log_intros) (auto intro!: log_intros split: option.split prod.split)

lemma extends_publish_assumption [log_intros]: "extends_log (publish_assumption h a)"
  unfolding publish_assumption_def Let_def
  by (auto intro!: log_intros split: option.split)

lemma extends_supervise [log_intros]: "extends_log (supervise_agent_with_policy h r a p cs pinned)"
  unfolding supervise_agent_with_policy_def select_model_def rt_pause_agent_def Let_def
  by (auto intro!: log_intros split: supervision_action.split)

lemma extends_observe [log_intros]: "extends_log (observe_cache_usage m x n u now)"
  unfolding observe_cache_usage_def by (auto intro!: log_intros split: prod.split)

lemma extends_record_cache [log_intros]: "extends_log (record_cache_usage h r m x n u)"
  unfolding record_cache_usage_def by (auto intro!: log_intros split: prod.split option.split)

lemma extends_cancel [log_intros]: "extends_log (cancel_agent h r a)"
  unfolding cancel_agent_def by (auto intro!: log_intros)

lemma extends_command: "extends_log (run_command h c)"
  by (cases c) (auto simp: command_defs intro!: log_intros)

lemma apply_event_run:
  assumes "apply_event s ev = Ok s'"
  shows "event_run ev = rs_run s" "rs_run s' = rs_run s"
  using assms by (auto elim!: apply_event_Ok dest: apply_kind_frame(1))

lemma accepted_events_run:
  "try_fold apply_event st evs = Ok st' \<Longrightarrow> rs_run st' = rs_run st \<and> (\<forall>ev \<in> set evs. event_run ev = rs_run st)"
  by (induction evs arbitrary: st) (auto dest: apply_event_run)

lemma es_reconstruct_OkD:
  assumes "es_reconstruct r s = Ok st" and "length (es_events r s) < 2 ^ 64"
  shows "es_events r s \<noteq> []"
    "try_fold apply_event (runtime_state_new r) (map se_event (es_events r s)) = Ok st"
    "rs_run st = r"
proof -
  show ne: "es_events r s \<noteq> []" using assms(1) by (auto simp: es_reconstruct_def)
  show fold: "try_fold apply_event (runtime_state_new r) (map se_event (es_events r s)) = Ok st"
    using es_reconstruct_fold [OF ne assms(2)] assms(1) by simp
  show "rs_run st = r" using accepted_events_run [OF fold] by (simp add: runtime_state_new_def)
qed

lemma es_events_le: "length (es_events r s) \<le> length (st_events s)"
  by (simp add: es_events_def)

text \<open>What one append does to the runs: one run grows by events it accepts, the others stay.\<close>

definition grows_run :: "run_id \<Rightarrow> event list \<Rightarrow> event_store \<Rightarrow> event_store \<Rightarrow> bool" where
  "grows_run r evs s s' \<longleftrightarrow>
     map se_event (es_events r s') = map se_event (es_events r s) @ evs \<and>
     (\<forall>q. q \<noteq> r \<longrightarrow> es_events q s' = es_events q s) \<and>
     (\<exists>later. st_events s' = st_events s @ later)"

lemma batch_grows_run:
  assumes rec: "es_reconstruct r s = Ok st" and fold: "try_fold apply_event st evs = Ok st'"
    and ap: "es_append_batch evs s = (Ok ns, s')" and len: "length (st_events s') < 2 ^ 64"
  shows "grows_run r evs s s' \<and> es_reconstruct r s' = Ok st'"
proof -
  obtain later where later: "st_events s' = st_events s @ later" using batch_grows [OF ap] by blast
  with len es_events_le [of r s] have short: "length (es_events r s) < 2 ^ 64" by simp
  note old = es_reconstruct_OkD [OF rec short]
  have runs: "\<forall>ev \<in> set evs. event_run ev = r" using accepted_events_run [OF fold] old(3) by simp
  note new = es_events_batch [OF ap runs]
  have "length (es_events r s') < 2 ^ 64" using len es_events_le [of r s'] by simp
  moreover have "es_events r s' \<noteq> []" using new(1) old(1) by (metis Nil_is_append_conv map_is_Nil_conv)
  ultimately have "es_reconstruct r s' = try_fold apply_event (runtime_state_new r) (map se_event (es_events r s'))"
    by (simp add: es_reconstruct_fold)
  with new old(2) fold later show ?thesis by (auto simp: grows_run_def try_fold_append)
qed

lemma log_step_grows_run:
  assumes "log_step s s'" and "length (st_events s') < 2 ^ 64"
  obtains r evs st st' where "grows_run r evs s s'" "evs \<noteq> []" "es_reconstruct r s = Ok st"
    "es_reconstruct r s' = Ok st'" "try_fold apply_event st evs = Ok st'"
  using assms(1)
proof cases
  case (log_step r st evs st' ns)
  from batch_grows_run [OF log_step(1,2,4) assms(2)] that log_step show ?thesis by blast
qed

lemma ended_run_refuses:
  assumes "try_fold apply_event st evs = Ok st'" and "evs \<noteq> []" and "0 < rs_applied st"
  shows "\<not> run_ended (rs_status st)"
  using assms by (cases evs) (auto elim: apply_event_Ok)

lemma reconstruct_applied:
  assumes "es_reconstruct r s = Ok st" and "length (es_events r s) < 2 ^ 64"
  shows "0 < rs_applied st"
proof -
  from assms(1) have "rs_applied st = of_nat (length (es_events r s))" and "es_events r s \<noteq> []"
    by (auto simp: es_reconstruct_def Let_def split: if_splits)
  with unat_of_nat64 [OF assms(2)] show ?thesis by (simp add: word_less_nat_alt)
qed

lemma reconstruct_cong: "es_events r s' = es_events r s \<Longrightarrow> es_reconstruct r s' = es_reconstruct r s"
  by (simp add: es_reconstruct_def)

text \<open>What calls do to one run: nothing if it does not replay, otherwise events that it accepts.\<close>

definition run_extended :: "run_id \<Rightarrow> event_store \<Rightarrow> event_store \<Rightarrow> bool" where
  "run_extended r s s' \<longleftrightarrow> (case es_reconstruct r s of
     Err _ \<Rightarrow> es_events r s' = es_events r s
   | Ok st \<Rightarrow> \<exists>new st'. map se_event (es_events r s') = map se_event (es_events r s) @ new \<and>
       try_fold apply_event st new = Ok st' \<and> es_reconstruct r s' = Ok st' \<and>
       (run_ended (rs_status st) \<longrightarrow> new = []))"

lemma run_extended_refl: "run_extended r s s"
  by (auto simp: run_extended_def split: result.split)

lemma run_extended_step:
  assumes ext: "run_extended r s s1" and step: "log_step s1 s2" and len: "length (st_events s2) < 2 ^ 64"
  shows "run_extended r s s2"
proof -
  from step len obtain q evs st st' where g: "grows_run q evs s1 s2" and rec: "es_reconstruct q s1 = Ok st"
    and rec': "es_reconstruct q s2 = Ok st'" and fold: "try_fold apply_event st evs = Ok st'" and ne: "evs \<noteq> []"
    by (blast elim: log_step_grows_run)
  show ?thesis
  proof (cases "q = r")
    case False
    then have same: "es_events r s2 = es_events r s1" using g by (simp add: grows_run_def)
    from ext show ?thesis
      unfolding run_extended_def reconstruct_cong [OF same] same .
  next
    case True
    have "length (st_events s1) < 2 ^ 64" using g len by (auto simp: grows_run_def)
    then have short: "length (es_events r s1) < 2 ^ 64" using es_events_le [of r s1] by simp
    show ?thesis
    proof (cases "es_reconstruct r s")
      case (Err e)
      with ext have "es_events r s1 = es_events r s" by (simp add: run_extended_def)
      from reconstruct_cong [OF this] Err rec True show ?thesis by simp
    next
      case (Ok st0)
      with ext rec True obtain new where new: "map se_event (es_events r s1) = map se_event (es_events r s) @ new"
          "try_fold apply_event st0 new = Ok st" "run_ended (rs_status st0) \<longrightarrow> new = []"
        by (auto simp: run_extended_def)
      have "\<not> run_ended (rs_status st)"
        using ended_run_refuses [OF fold ne] reconstruct_applied [of r s1 st] short rec True by simp
      with new(2,3) have "\<not> run_ended (rs_status st0)" by auto
      moreover have "map se_event (es_events r s2) = map se_event (es_events r s) @ (new @ evs)"
        using new(1) g True by (simp add: grows_run_def)
      moreover have "try_fold apply_event st0 (new @ evs) = Ok st'"
        using new(2) fold by (simp add: try_fold_append)
      ultimately show ?thesis
        unfolding run_extended_def Ok using rec' True by (simp only: result.case) blast
    qed
  qed
qed

lemma log_steps_extend:
  assumes "log_step\<^sup>*\<^sup>* s s'" and "length (st_events s') < 2 ^ 64"
  shows "run_extended r s s' \<and> (\<exists>later. st_events s' = st_events s @ later)"
  using assms
proof (induction rule: rtranclp_induct)
  case base
  then show ?case by (simp add: run_extended_refl)
next
  case (step s1 s2)
  from step.hyps(2) have grows: "\<exists>later. st_events s2 = st_events s1 @ later"
    by (auto elim!: log_stepE dest: batch_grows)
  with step.prems have "length (st_events s1) < 2 ^ 64" by auto
  with step grows run_extended_step show ?case by fastforce
qed

lemma run_commands_steps: "log_step\<^sup>*\<^sup>* (sv_store (w_service w)) (sv_store (w_service (run_commands h cs w)))"
proof (induction cs arbitrary: w)
  case (Cons c cs)
  have "log_step\<^sup>*\<^sup>* (sv_store (w_service w)) (sv_store (w_service (snd (run_command h c w))))"
    using extends_command by (simp add: extends_log_def)
  also note Cons.IH [of "snd (run_command h c w)"]
  finally show ?case by simp
qed simp

section \<open>Properties\<close>

text \<open>
  C8: the runtime never breaks a run. Whatever calls are made, and however they end, the log only grows
  at its end; a run that replays gets only events it accepts, so that it still replays, and none
  after it has ended; a run that is unknown or does not replay gets no event at all.
\<close>

theorem runtime_keeps_runs:
  assumes "length (st_events (sv_store (w_service (run_commands h cs w)))) < 2 ^ 64"
  shows "(\<exists>later. st_events (sv_store (w_service (run_commands h cs w)))
       = st_events (sv_store (w_service w)) @ later) \<and>
    (\<forall>r. run_extended r (sv_store (w_service w)) (sv_store (w_service (run_commands h cs w))))"
  using log_steps_extend [OF run_commands_steps assms] by blast

section \<open>A concrete service\<close>

text \<open>A run with two agents, in a service that has just been made.\<close>

definition demo_agent :: "agent_id \<Rightarrow> agent_identity" where
  "demo_agent a = \<lparr>agent_ident = a, agent_name = ''a'', agent_mission = ''m'',
     agent_model = model_ref_new ''p'' ''m'' Local\<rparr>"

definition demo_log :: "event list" where
  "demo_log = [run_event 1 (RunCreated 3), run_event 2 (AgentCreated (demo_agent 5)),
     run_event 3 (AgentCreated (demo_agent 6))]"

definition demo_store :: event_store where
  "demo_store = snd (es_append_batch demo_log event_store_new)"

definition demo_ids :: id_state where "demo_ids = \<lparr>id_prefix = Some 0, next_id = 100\<rparr>"

definition demo_world :: runtime_world where
  "demo_world = \<lparr>w_service = runtime_service_new demo_store, w_ids = demo_ids, w_readings = 0\<rparr>"

definition demo_host :: host where
  "demo_host = \<lparr>os_entropy = \<lparr>random_bytes = None, now_nanos = 0, now_secs = 0, process_number = 1\<rparr>,
     os_clock = (\<lambda>n. of_nat n), os_windows = False, os_lower = (\<lambda>s. s)\<rparr>"

definition demo_agent_state :: "agent_id \<Rightarrow> agent_state" where
  "demo_agent_state a = \<lparr>ag_identity = demo_agent a, ag_status = AgCreated,
     ag_model = model_ref_new ''p'' ''m'' Local, ag_chunks = 0, ag_usage = usage_new 0 0\<rparr>"

definition demo_state :: runtime_state where
  "demo_state = \<lparr>rs_run = 3, rs_status = RsActive, rs_tasks = bm_empty,
     rs_agents = bm_insert 6 (demo_agent_state 6) (bm_insert 5 (demo_agent_state 5) bm_empty),
     rs_artifacts = bm_empty, rs_applied = 3\<rparr>"

lemma demo_agent_simps [simp]: "agent_ident (demo_agent a) = a" "agent_model (demo_agent a) = model_ref_new ''p'' ''m'' Local"
  by (simp_all add: demo_agent_def)

lemma demo_store_eq: "demo_store = event_store_new\<lparr>st_next := 4, st_ids := {3, 2, 1},
    st_events := [\<lparr>se_sequence = 1, se_event = run_event 1 (RunCreated 3)\<rparr>,
      \<lparr>se_sequence = 2, se_event = run_event 2 (AgentCreated (demo_agent 5))\<rparr>,
      \<lparr>se_sequence = 3, se_event = run_event 3 (AgentCreated (demo_agent 6))\<rparr>]\<rparr>"
  by (simp add: demo_store_def demo_log_def store_run_defs)

lemma demo_reconstruct: "es_reconstruct 3 demo_store = Ok demo_state"
  by (simp add: demo_store_eq event_store_new_def replay_defs saturating_add_def demo_state_def
      demo_agent_state_def bm_contains_key_def)

lemma demo_run_log: "map se_event (es_events 3 demo_store) = demo_log"
  by (simp add: demo_store_eq es_events_def demo_log_def)

lemma demo_world_simps [simp]:
  "w_service demo_world = runtime_service_new demo_store" "w_ids demo_world = demo_ids" "w_readings demo_world = 0"
  "sv_store (runtime_service_new s) = s"
  by (simp_all add: demo_world_def runtime_service_new_def)

text \<open>What is appended to this store in a world that still has it.\<close>

lemma es_append_each_fresh:
  assumes "distinct (map event_ident evs)" and "event_ident ` set evs \<inter> st_ids s = {}"
  shows "\<exists>ns s'. es_append_each evs s = (Ok ns, s')"
  using assms
proof (induction evs arbitrary: s)
  case (Cons ev evs)
  obtain n s1 where s1: "es_append ev s = (Ok n, s1)" using Cons.prems(2) by (simp add: es_append_def)
  have "event_ident ` set evs \<inter> st_ids s1 = {}"
    using Cons.prems by (auto simp: es_append_Ok(5) [OF s1])
  with Cons obtain ns s' where "es_append_each evs s1 = (Ok ns, s')" by fastforce
  with s1 show ?case by simp
qed simp

lemma demo_batch:
  assumes "sv_store (w_service w) = demo_store" and fold: "try_fold apply_event demo_state evs = Ok st"
    and "evs \<noteq> []" and "distinct (map event_ident evs)" and "event_ident ` set evs \<inter> {1, 2, 3} = {}"
  shows "\<exists>s. append_validated_batch evs w = (Ok (), w\<lparr>w_service := (w_service w)\<lparr>sv_store := s\<rparr>\<rparr>) \<and>
    length (st_events s) = 3 + length evs"
proof -
  have "event_ident ` set evs \<inter> st_ids demo_store = {}" using assms(5) by (auto simp: demo_store_eq)
  from es_append_each_fresh [OF assms(4) this] obtain ns s where each: "es_append_each evs demo_store = (Ok ns, s)"
    by blast
  then have "es_append_batch evs demo_store = (Ok ns, s)" by (simp add: es_append_batch_def)
  moreover have "length (st_events s) = 3 + length evs"
    using es_append_each_Ok(1,2) [OF each] by (simp add: demo_store_eq)
  moreover have "event_run (hd evs) = 3"
    using accepted_events_run [OF fold] assms(3) by (simp add: demo_state_def)
  ultimately show ?thesis
    using assms(1,3) fold by (auto simp: append_validated_batch_Ok demo_reconstruct)
qed

lemma demo_new_id:
  "w_ids w = \<lparr>id_prefix = Some 0, next_id = c\<rparr> \<Longrightarrow> c \<noteq> - 1 \<Longrightarrow>
     rt_new_id h w = (Ok (ucast c), w\<lparr>w_ids := \<lparr>id_prefix = Some 0, next_id = c + 1\<rparr>\<rparr>)"
  by (simp add: rt_new_id_def new_durable_id_def Let_def)

lemma demo_event:
  assumes "w_ids w = \<lparr>id_prefix = Some 0, next_id = c\<rparr>" and "c \<noteq> - 1"
  shows "\<exists>ev w'. rt_event h r k w = (Ok ev, w') \<and> event_ident ev = ucast c \<and> event_run ev = r \<and>
    event_knd ev = k \<and> w_service w' = w_service w \<and> w_ids w' = \<lparr>id_prefix = Some 0, next_id = c + 1\<rparr>"
  using demo_new_id [of "w\<lparr>w_readings := Suc (w_readings w)\<rparr>"] assms
  by (simp add: rt_event_def rt_bind_def rt_clock_def rt_return_def)

lemma demo_accepts:
  assumes "apply_kind k demo_state = Ok st" and "event_run ev = 3" and "event_knd ev = k"
  shows "\<exists>st'. try_fold apply_event demo_state [ev] = Ok st'"
  using assms by (simp add: apply_event_def demo_state_def run_ended_def)

lemma demo_append:
  assumes store: "sv_store (w_service w) = demo_store" and ids: "w_ids w = demo_ids"
    and "apply_kind k demo_state = Ok st"
  shows "\<exists>w'. rt_append_kind h 3 k w = (Ok (), w') \<and> length (st_events (sv_store (w_service w'))) = 4 \<and>
    (\<exists>s. w_service w' = (w_service w)\<lparr>sv_store := s\<rparr>)"
proof -
  from demo_event [OF ids [unfolded demo_ids_def], of h 3 k] obtain ev w1 where
    ev: "rt_event h 3 k w = (Ok ev, w1)" "event_ident ev = 100" "event_run ev = 3" "event_knd ev = k"
      "w_service w1 = w_service w" by auto
  from demo_accepts [OF assms(3) ev(3,4)] obtain st' where "try_fold apply_event demo_state [ev] = Ok st'" by blast
  from demo_batch [OF _ this, of w1] ev store show ?thesis
    by (auto simp: rt_append_kind_def append_validated_event_eq)
qed

theorem runtime_keeps_runs_witness:
  "\<exists>st. es_reconstruct 3 (sv_store (w_service (run_commands demo_host [PauseAgent 3 5] demo_world))) = Ok st"
proof -
  have known: "bm_get (rs_agents demo_state) 5 = Some (demo_agent_state 5)" by (simp add: demo_state_def)
  then obtain st where "apply_kind (AgentPaused 5) demo_state = Ok st"
    by (simp add: with_agent_def pause_agent_def demo_agent_state_def agent_ended_def)
  from demo_append [OF _ _ this, of demo_world demo_host] obtain w' where
    w': "rt_append_kind demo_host 3 (AgentPaused 5) demo_world = (Ok (), w')"
    and len: "length (st_events (sv_store (w_service w'))) = 4" by auto
  have "run_command demo_host (PauseAgent 3 5) demo_world = (Ok (), w')"
    using w' known by (auto simp: rt_pause_agent_def rt_reconstruct_Ok demo_reconstruct require_agent_def bm_contains_key_def)
  then have run: "run_commands demo_host [PauseAgent 3 5] demo_world = w'" by simp
  have "run_extended 3 demo_store (sv_store (w_service w'))"
    using runtime_keeps_runs [of demo_host "[PauseAgent 3 5]" demo_world] len run by simp
  then show ?thesis unfolding run by (auto simp: run_extended_def demo_reconstruct)
qed

end
