(* ===== verification/Runtime_Messages.thy ===== *)
theory Runtime_Messages
  imports Runtime_Commands
begin

text \<open>
  The mailboxes of the runtime service: their bound, what a call that fails leaves as it was, what a
  message that is sent does, and the notices of a conflict.
\<close>

section \<open>What a client sees of the mailboxes\<close>

definition queue_of :: "runtime_service \<Rightarrow> agent_id \<Rightarrow> ipc_envelope list" where
  "queue_of s a = (case bm_get (sv_mailboxes s) a of None \<Rightarrow> [] | Some b \<Rightarrow> mb_queue b)"

definition observed :: "runtime_service \<Rightarrow> runtime_service \<times> (agent_id \<Rightarrow> ipc_envelope list)" where
  "observed s = (s\<lparr>sv_mailboxes := bm_empty\<rparr>, queue_of s)"

definition mailboxes_ok :: "runtime_service \<Rightarrow> bool" where
  "mailboxes_ok s \<longleftrightarrow> 0 < sv_capacity s \<and> (\<forall>a b. bm_get (sv_mailboxes s) a = Some b \<longrightarrow>
     mb_capacity b = sv_capacity s \<and> length (mb_queue b) \<le> sv_capacity s)"

lemma pending_messages_queue: "pending_messages s a = length (queue_of s a)"
  by (simp add: pending_messages_def queue_of_def mailbox_len_def split: option.split)

lemma mailboxes_ok_new: "mailboxes_ok (runtime_service_new s)"
  by (simp add: mailboxes_ok_def runtime_service_new_def DEFAULT_MAILBOX_CAPACITY_def)

lemma mailboxes_ok_capacity:
  "with_mailbox_capacity s capacity = Ok sv \<Longrightarrow> mailboxes_ok sv"
  by (auto simp: with_mailbox_capacity_def mailbox_new_def mailboxes_ok_def runtime_service_new_def
      split: if_splits)

lemma queue_bound: "mailboxes_ok s \<Longrightarrow> length (queue_of s a) \<le> sv_capacity s"
  by (auto simp: mailboxes_ok_def queue_of_def split: option.split)

section \<open>Opening and delivering\<close>

definition opened :: "agent_id \<Rightarrow> runtime_service \<Rightarrow> runtime_service" where
  "opened a s = s\<lparr>sv_mailboxes := bm_or_insert a \<lparr>mb_capacity = sv_capacity s, mb_queue = []\<rparr> (sv_mailboxes s)\<rparr>"

lemma opened_simps [simp]:
  "queue_of (opened a s) = queue_of s" "sv_capacity (opened a s) = sv_capacity s"
  "sv_store (opened a s) = sv_store s" "observed (opened a s) = observed s"
  "mailboxes_ok s \<Longrightarrow> mailboxes_ok (opened a s)"
proof -
  show q: "queue_of (opened a s) = queue_of s"
    by (rule ext) (auto simp: queue_of_def opened_def bm_get_or_insert split: option.split)
  show "sv_capacity (opened a s) = sv_capacity s" "sv_store (opened a s) = sv_store s"
    by (simp_all add: opened_def)
  show "observed (opened a s) = observed s" using q by (simp add: observed_def) (simp add: opened_def)
  show "mailboxes_ok s \<Longrightarrow> mailboxes_ok (opened a s)"
    by (auto simp: mailboxes_ok_def opened_def bm_get_or_insert split: option.splits if_splits)
qed

lemma opened_get:
  "bm_get (sv_mailboxes (opened a s)) a =
     Some (case bm_get (sv_mailboxes s) a of Some b \<Rightarrow> b | None \<Rightarrow> \<lparr>mb_capacity = sv_capacity s, mb_queue = []\<rparr>)"
  by (simp add: opened_def bm_get_or_insert split: option.split)

lemma open_mailbox_Ok:
  "open_mailbox a w = (Ok b, w') \<longleftrightarrow> 0 < sv_capacity (w_service w) \<and>
     w' = w\<lparr>w_service := opened a (w_service w)\<rparr> \<and> bm_get (sv_mailboxes (opened a (w_service w))) a = Some b"
  by (auto simp: open_mailbox_def mailbox_new_def Let_def opened_def bm_get_or_insert split: if_splits option.splits)

lemma leaves_open_mailbox: "leaves observed (open_mailbox a)"
  unfolding leaves_def
proof
  fix w
  obtain x w' where run: "open_mailbox a w = (x, w')" by fastforce
  then have w': "snd (open_mailbox a w) = w'" by simp
  show "observed (w_service (snd (open_mailbox a w))) = observed (w_service w)"
  proof (cases x)
    case (Ok b)
    with run show ?thesis unfolding w' by (simp add: open_mailbox_Ok)
  next
    case (Err e)
    with run show ?thesis unfolding w' by (auto simp: open_mailbox_def rt_bind_Err Let_def rt_try_def)
  qed
qed

text \<open>A valid envelope to an open mailbox with room is queued.\<close>

definition queued :: "ipc_envelope \<Rightarrow> bounded_mailbox \<Rightarrow> runtime_service \<Rightarrow> runtime_service" where
  "queued e b s = s\<lparr>sv_mailboxes :=
     bm_insert (env_recipient e) (b\<lparr>mb_queue := mb_queue b @ [e]\<rparr>) (sv_mailboxes s)\<rparr>"

lemma deliver_room:
  assumes "bm_get (sv_mailboxes (w_service w)) (env_recipient e) = Some b"
    and "envelope_validate e = Ok ()" and "\<not> mailbox_is_full b"
  shows "deliver e w = (Ok (), w\<lparr>w_service := queued e b (w_service w)\<rparr>)"
  using assms by (simp add: deliver_def try_send_def rt_bind_def rt_service_def rt_update_def rt_try_def queued_def)

lemma queued_simps:
  assumes "bm_get (sv_mailboxes s) (env_recipient e) = Some b"
  shows "queue_of (queued e b s) = (queue_of s)(env_recipient e := queue_of s (env_recipient e) @ [e])"
    "(queued e b s)\<lparr>sv_mailboxes := m\<rparr> = s\<lparr>sv_mailboxes := m\<rparr>" "sv_capacity (queued e b s) = sv_capacity s"
    "mailboxes_ok s \<Longrightarrow> \<not> mailbox_is_full b \<Longrightarrow> mailboxes_ok (queued e b s)"
  using assms
  by (auto simp: queue_of_def queued_def mailboxes_ok_def mailbox_is_full_def intro!: ext split: if_splits)

section \<open>Sending\<close>

lemma send_message_Ok:
  assumes "send_message h e w = (Ok (), w')"
  obtains b w1 w2 where "envelope_validate e = Ok ()" "0 < sv_capacity (w_service w)"
    "w1 = w\<lparr>w_service := opened (env_recipient e) (w_service w)\<rparr>"
    "bm_get (sv_mailboxes (w_service w1)) (env_recipient e) = Some b" "\<not> mailbox_is_full b"
    "rt_append_payload h (env_run e) message_event RtIpc (envelope_encode e) w1 = (Ok (), w2)"
    "deliver e w2 = (Ok (), w')"
  using assms by (auto simp: send_message_def rt_reconstruct_Ok require_agent_def open_mailbox_Ok)

lemma rt_event_Ok:
  assumes "rt_event h r k w = (Ok ev, w')"
  shows "w_service w' = w_service w" "event_run ev = r" "event_knd ev = k"
  using assms by (auto simp: rt_event_def dest!: rt_clock_service rt_new_id_service)

lemma rt_payload_event_Ok:
  assumes "rt_payload_event h r wrap into encoded w = (Ok ev, w')"
  obtains p where "encoded = Ok p" "w_service w' = w_service w" "event_run ev = r" "event_knd ev = wrap p"
  using assms by (auto simp: rt_payload_event_def dest: rt_event_Ok)

lemma append_validated_batch_effect:
  assumes "append_validated_batch evs w = (Ok u, w')"
  obtains s where "w' = w\<lparr>w_service := (w_service w)\<lparr>sv_store := s\<rparr>\<rparr>" "log_step (sv_store (w_service w)) s"
  using assms unfolding append_validated_batch_Ok by (blast intro: log_step.intros)

lemma rt_append_payload_effect:
  assumes "rt_append_payload h r wrap into encoded w = (Ok u, w')"
  obtains p s where "encoded = Ok p" "w_service w' = (w_service w)\<lparr>sv_store := s\<rparr>"
  using assms
  by (auto simp: rt_append_payload_def append_validated_event_eq elim!: rt_payload_event_Ok append_validated_batch_effect)

lemma send_message_delivers:
  assumes "send_message h e w = (Ok (), w')"
  obtains b w2 where "envelope_validate e = Ok ()"
    "rt_append_payload h (env_run e) message_event RtIpc (envelope_encode e)
       (w\<lparr>w_service := opened (env_recipient e) (w_service w)\<rparr>) = (Ok (), w2)"
    "w' = w2\<lparr>w_service := queued e b (w_service w2)\<rparr>" "\<not> mailbox_is_full b"
    "bm_get (sv_mailboxes (w_service w2)) (env_recipient e) = Some b"
    "sv_mailboxes (w_service w2) = sv_mailboxes (opened (env_recipient e) (w_service w))"
proof -
  from send_message_Ok [OF assms] obtain b w1 w2 where valid: "envelope_validate e = Ok ()"
    and w1: "w1 = w\<lparr>w_service := opened (env_recipient e) (w_service w)\<rparr>"
    and b: "bm_get (sv_mailboxes (w_service w1)) (env_recipient e) = Some b" "\<not> mailbox_is_full b"
    and ap: "rt_append_payload h (env_run e) message_event RtIpc (envelope_encode e) w1 = (Ok (), w2)"
    and del: "deliver e w2 = (Ok (), w')" by metis
  from ap obtain p s where w2: "w_service w2 = (w_service w1)\<lparr>sv_store := s\<rparr>" by (rule rt_append_payload_effect)
  then have "bm_get (sv_mailboxes (w_service w2)) (env_recipient e) = Some b" using b(1) by simp
  moreover from this have "w' = w2\<lparr>w_service := queued e b (w_service w2)\<rparr>"
    using del deliver_room [OF _ valid b(2), of w2] by simp
  ultimately show ?thesis using that valid ap w1 w2 b(2) by simp
qed

lemma send_message_fails:
  assumes "send_message h e w = (Err x, w')"
  shows "observed (w_service w') = observed (w_service w)"
proof -
  have deliver_ok: False
    if "deliver e w2 = (Err x, w')" and "rt_append_payload h (env_run e) message_event RtIpc (envelope_encode e) w1 = (Ok u, w2)"
      and "open_mailbox (env_recipient e) w0 = (Ok b, w1)" and "\<not> mailbox_is_full b"
      and "envelope_validate e = Ok ()" for w0 w1 w2 b u
  proof -
    from that(2) obtain p s where "w_service w2 = (w_service w1)\<lparr>sv_store := s\<rparr>" by (rule rt_append_payload_effect)
    with that(3) have "bm_get (sv_mailboxes (w_service w2)) (env_recipient e) = Some b"
      by (auto simp: open_mailbox_Ok)
    from deliver_room [OF this that(5,4)] that(1) show False by simp
  qed
  from assms show ?thesis
    unfolding send_message_def
    by (auto simp: rt_bind_Err rt_reconstruct_Ok require_agent_def
        atomic_onD [OF atomic_payload [of observed]] leavesD [OF leaves_open_mailbox]
        leavesD [OF leaves_try [of observed]] leavesD [OF leaves_reconstruct [of observed]]
        leavesD [OF leaves_require [of observed]] dest: deliver_ok)
qed

section \<open>The notices of a publication\<close>

text \<open>An event whose payload is the encoding of \<open>x\<close>.\<close>

definition encoded_as :: "run_id \<Rightarrow> (u8 list \<Rightarrow> event_kind) \<Rightarrow> ('x \<Rightarrow> (u8 list, 'e) result) \<Rightarrow> 'x \<Rightarrow> event \<Rightarrow> bool"
  where
  "encoded_as r wrap enc x ev \<longleftrightarrow> event_run ev = r \<and> (\<exists>bs. enc x = Ok bs \<and> event_knd ev = wrap bs)"

lemma rt_map_Ok:
  assumes "rt_map f xs w = (Ok ys, w')"
    and "\<And>x y w w'. f x w = (Ok y, w') \<Longrightarrow> w_service w' = w_service w \<and> P x y"
  shows "w_service w' = w_service w \<and> list_all2 P xs ys"
  using assms(1)
proof (induction xs arbitrary: w ys)
  case (Cons x xs)
  then obtain y w1 ys' where "f x w = (Ok y, w1)" "rt_map f xs w1 = (Ok ys', w')" "ys = y # ys'" by auto
  with Cons.IH assms(2) show ?case by fastforce
qed simp

lemma encoded_events:
  assumes "rt_map (\<lambda>t. rt_payload_event h r wrap into (enc t)) ts w = (Ok evs, w')"
  shows "w_service w' = w_service w \<and> list_all2 (encoded_as r wrap enc) ts evs"
  using assms by (rule rt_map_Ok) (auto simp: encoded_as_def elim!: rt_payload_event_Ok)

definition notice_of :: "run_id \<Rightarrow> event_id list \<Rightarrow> assumption_graph \<Rightarrow> assumption_conflict \<Rightarrow> agent_id
    \<Rightarrow> ipc_envelope \<Rightarrow> bool" where
  "notice_of r causal g c b e \<longleftrightarrow> (\<exists>i left right. bm_get (graph_assumptions g) (conflict_left c) = Some left \<and>
     bm_get (graph_assumptions g) (conflict_right c) = Some right \<and> e = conflict_notice i r causal c left right b)"

definition recipients :: "assumption_conflict list \<Rightarrow> (assumption_conflict \<times> agent_id) list" where
  "recipients cs = concat (map (\<lambda>c. map (Pair c) (conflict_agents c)) cs)"

lemma notify_agent_Ok:
  assumes "notify_agent h r st causal c left right b w = (Ok n, w')"
  shows "w_service w' = w_service w \<and> (\<exists>i. snd n = conflict_notice i r causal c left right b) \<and>
    encoded_as r message_event envelope_encode (snd n) (fst n)"
  using assms
  by (fastforce simp: notify_agent_def require_agent_def Let_def encoded_as_def
      elim!: rt_payload_event_Ok dest: rt_new_id_service)

lemma notify_conflict_Ok:
  assumes "notify_conflict h r st causal g c w = (Ok ns, w')"
  shows "w_service w' = w_service w \<and> list_all2 (\<lambda>(c, b) n. notice_of r causal g c b (snd n) \<and>
    encoded_as r message_event envelope_encode (snd n) (fst n)) (map (Pair c) (conflict_agents c)) ns"
proof -
  from assms obtain left right where l: "bm_get (graph_assumptions g) (conflict_left c) = Some left"
    "bm_get (graph_assumptions g) (conflict_right c) = Some right"
    and run: "rt_map (notify_agent h r st causal c left right) (conflict_agents c) w = (Ok ns, w')"
    by (auto simp: notify_conflict_def)
  from run have "w_service w' = w_service w \<and> list_all2 (\<lambda>b n. notice_of r causal g c b (snd n) \<and>
    encoded_as r message_event envelope_encode (snd n) (fst n)) (conflict_agents c) ns"
    by (rule rt_map_Ok) (use l notify_agent_Ok in \<open>fastforce simp: notice_of_def\<close>)
  then show ?thesis by (simp add: list_all2_conv_all_nth)
qed

lemma list_all2_concat: "list_all2 (list_all2 P) xss yss \<Longrightarrow> list_all2 P (concat xss) (concat yss)"
  by (induction rule: list_all2_induct) (auto intro: list_all2_appendI)

lemma notices_Ok:
  assumes "rt_map (notify_conflict h r st causal g) cs w = (Ok msgs, w')"
  shows "w_service w' = w_service w \<and> list_all2 (\<lambda>(c, b) n. notice_of r causal g c b (snd n) \<and>
    encoded_as r message_event envelope_encode (snd n) (fst n)) (recipients cs) (concat msgs)"
proof -
  let ?P = "\<lambda>(c, b) n. notice_of r causal g c b (snd n) \<and>
    encoded_as r message_event envelope_encode (snd n) (fst n)"
  from assms have "w_service w' = w_service w \<and>
      list_all2 (\<lambda>c ns. list_all2 ?P (map (Pair c) (conflict_agents c)) ns) cs msgs"
    by (rule rt_map_Ok) (rule notify_conflict_Ok)
  moreover from this have "list_all2 (list_all2 ?P) (map (\<lambda>c. map (Pair c) (conflict_agents c)) cs) msgs"
    by (simp add: list_all2_conv_all_nth)
  ultimately show ?thesis unfolding recipients_def by (blast intro: list_all2_concat)
qed

lemma notice_fields:
  assumes "notice_of r causal g c b e"
  shows "env_recipient e = b" "env_run e = r" "env_sender e = RUNTIME_AGENT_ID" "env_causal e = causal"
    "env_provenance e = FromRuntime"
  using assms by (auto simp: notice_of_def conflict_notice_def envelope_new_def with_input_origin_def)

section \<open>Delivering the notices\<close>

abbreviation "deliver_each \<equiv> rt_map (\<lambda>e. rt_bind (open_mailbox (env_recipient e)) (\<lambda>_. deliver e))"

abbreviation "for_agent a \<equiv> filter (\<lambda>e. env_recipient e = a)"

lemma deliver_open:
  assumes ok: "mailboxes_ok (w_service w)" and valid: "envelope_validate e = Ok ()"
    and room: "length (queue_of (w_service w) (env_recipient e)) < sv_capacity (w_service w)"
  obtains s where "rt_bind (open_mailbox (env_recipient e)) (\<lambda>_. deliver e) w = (Ok (), w\<lparr>w_service := s\<rparr>)"
    "mailboxes_ok s" "s\<lparr>sv_mailboxes := bm_empty\<rparr> = (w_service w)\<lparr>sv_mailboxes := bm_empty\<rparr>"
    "queue_of s = (queue_of (w_service w))(env_recipient e := queue_of (w_service w) (env_recipient e) @ [e])"
proof -
  let ?s = "opened (env_recipient e) (w_service w)"
  let ?w = "w\<lparr>w_service := ?s\<rparr>"
  obtain b where b: "bm_get (sv_mailboxes ?s) (env_recipient e) = Some b" using opened_get by blast
  have ok1: "mailboxes_ok ?s" using ok by simp
  with b have "mb_capacity b = sv_capacity (w_service w)" by (simp add: mailboxes_ok_def)
  moreover have "mb_queue b = queue_of ?s (env_recipient e)" using b by (simp add: queue_of_def del: opened_simps)
  ultimately have full: "\<not> mailbox_is_full b" using room by (simp add: mailbox_is_full_def)
  have "open_mailbox (env_recipient e) w = (Ok b, ?w)"
    using ok b by (simp add: open_mailbox_Ok mailboxes_ok_def)
  moreover have "deliver e ?w = (Ok (), ?w\<lparr>w_service := queued e b ?s\<rparr>)"
    using deliver_room [of ?w e b] b valid full by simp
  ultimately have "rt_bind (open_mailbox (env_recipient e)) (\<lambda>_. deliver e) w
      = (Ok (), w\<lparr>w_service := queued e b ?s\<rparr>)" by (simp add: rt_bind_def)
  then show ?thesis
  proof (rule that)
    show "mailboxes_ok (queued e b ?s)" using queued_simps(4) [OF b] ok1 full by blast
    show "(queued e b ?s)\<lparr>sv_mailboxes := bm_empty\<rparr> = (w_service w)\<lparr>sv_mailboxes := bm_empty\<rparr>"
      unfolding queued_simps(2) [OF b] by (simp add: opened_def)
    show "queue_of (queued e b ?s)
        = (queue_of (w_service w))(env_recipient e := queue_of (w_service w) (env_recipient e) @ [e])"
      unfolding queued_simps(1) [OF b] by simp
  qed
qed

lemma deliver_each_room:
  assumes "mailboxes_ok (w_service w)" and "\<forall>e \<in> set ns. envelope_validate e = Ok ()"
    and "\<forall>a. length (queue_of (w_service w) a) + length (for_agent a ns) \<le> sv_capacity (w_service w)"
  shows "\<exists>us s. deliver_each ns w = (Ok us, w\<lparr>w_service := s\<rparr>) \<and> mailboxes_ok s \<and>
    s\<lparr>sv_mailboxes := bm_empty\<rparr> = (w_service w)\<lparr>sv_mailboxes := bm_empty\<rparr> \<and>
    queue_of s = (\<lambda>a. queue_of (w_service w) a @ for_agent a ns)"
  using assms
proof (induction ns arbitrary: w)
  case Nil
  then show ?case by (intro exI [of _ "[]"] exI [of _ "w_service w"]) simp
next
  case (Cons e ns)
  have "length (queue_of (w_service w) (env_recipient e)) < sv_capacity (w_service w)"
    using spec [OF Cons.prems(3), of "env_recipient e"] by simp
  with Cons.prems obtain s where
    first: "rt_bind (open_mailbox (env_recipient e)) (\<lambda>_. deliver e) w = (Ok (), w\<lparr>w_service := s\<rparr>)"
    and s: "mailboxes_ok s" "s\<lparr>sv_mailboxes := bm_empty\<rparr> = (w_service w)\<lparr>sv_mailboxes := bm_empty\<rparr>"
      "queue_of s = (queue_of (w_service w))(env_recipient e := queue_of (w_service w) (env_recipient e) @ [e])"
    by (auto elim: deliver_open)
  have cap: "sv_capacity s = sv_capacity (w_service w)"
    using arg_cong [OF s(2), of sv_capacity] by simp
  have "\<forall>a. length (queue_of s a) + length (for_agent a ns) \<le> sv_capacity s"
    using Cons.prems(3) unfolding s(3) cap by (auto split: if_splits)
  with Cons.IH [of "w\<lparr>w_service := s\<rparr>"] s(1) Cons.prems(2) obtain us s' where
    rest: "deliver_each ns (w\<lparr>w_service := s\<rparr>) = (Ok us, w\<lparr>w_service := s'\<rparr>)" "mailboxes_ok s'"
      "s'\<lparr>sv_mailboxes := bm_empty\<rparr> = s\<lparr>sv_mailboxes := bm_empty\<rparr>"
      "queue_of s' = (\<lambda>a. queue_of s a @ for_agent a ns)" by auto
  have "deliver_each (e # ns) w = (Ok (() # us), w\<lparr>w_service := s'\<rparr>)"
    using first rest(1) by (simp only: rt_map.simps rt_bind_Ok rt_return_Ok) blast
  moreover have "queue_of s' = (\<lambda>a. queue_of (w_service w) a @ for_agent a (e # ns))"
    unfolding rest(4) s(3) by auto
  ultimately show ?case using rest(2,3) s(2) by metis
qed

lemma overfull_None:
  assumes "mailboxes_ok s" and "overfull_recipient s ns = None"
  shows "length (queue_of s a) + length (for_agent a ns) \<le> sv_capacity s"
proof (cases "a \<in> env_recipient ` set ns")
  case True
  with assms(2) show ?thesis
    by (auto simp: overfull_recipient_def find_None_iff pending_messages_queue)
next
  case False
  then have "for_agent a ns = []" by (auto simp: filter_empty_conv)
  with queue_bound [OF assms(1)] show ?thesis by simp
qed

lemma publish_run:
  "publish lower new_id a g = (Ok p, g') \<Longrightarrow> asm_run (pub_assumption p) = asm_run a"
  by (auto simp: publish_def Let_def split: result.splits if_splits prod.splits)

lemma rt_publish_Ok:
  assumes "rt_publish h a g w = (Ok x, w')"
  shows "publish (os_lower h) (fresh_id h (w_ids w)) a g = (Ok (fst x), snd x) \<and> w_service w' = w_service w \<and>
    list_all is_ok (fst (allocate_ids (os_entropy h) (length (pub_conflicts (fst x))) (w_ids w)))"
  using assms by (auto simp: rt_publish_def rt_take_ids_def split: prod.splits result.splits if_splits)

lemma rt_log_Ok [simp]: "rt_log r w = (Ok evs, w') \<longleftrightarrow> evs = run_log r (w_service w) \<and> w' = w"
  by (auto simp: rt_log_def)

definition published :: "host \<Rightarrow> assumption \<Rightarrow> runtime_world \<Rightarrow> runtime_state \<Rightarrow> assumption_graph
    \<Rightarrow> assumption_publication \<Rightarrow> assumption_graph \<Rightarrow> event list \<Rightarrow> (event \<times> ipc_envelope) list \<Rightarrow> bool" where
  "published h a w st g p g' claims msgs \<longleftrightarrow>
     es_reconstruct (asm_run a) (sv_store (w_service w)) = Ok st \<and>
     bm_contains_key (rs_agents st) (asm_owner a) \<and>
     graph_from_events (run_log (asm_run a) (w_service w)) = Ok g \<and>
     publish (os_lower h) (fresh_id h (w_ids w)) a g = (Ok p, g') \<and>
     list_all is_ok (fst (allocate_ids (os_entropy h) (length (pub_conflicts p)) (w_ids w))) \<and>
     list_all2 (encoded_as (asm_run a) assumption_event asm_encode_transition) (pub_transitions p) claims \<and>
     list_all2 (\<lambda>(c, b) n. notice_of (asm_run a) (map event_ident claims) g' c b (snd n) \<and>
       encoded_as (asm_run a) message_event envelope_encode (snd n) (fst n))
       (recipients (pub_conflicts p)) msgs \<and>
     overfull_recipient (w_service w) (map snd msgs) = None"

lemma publish_assumption_Ok:
  assumes "publish_assumption h a w = (Ok p, w')"
  obtains st g g' claims msgs w1 w2 us where "published h a w st g p g' claims msgs"
    "w_service w1 = w_service w" "append_validated_batch (claims @ map fst msgs) w1 = (Ok (), w2)"
    "deliver_each (map snd msgs) (w2\<lparr>w_service := (w_service w2)\<lparr>sv_assumptions := g'\<rparr>\<rparr>) = (Ok us, w')"
proof -
  let ?r = "asm_run a"
  from assms obtain st g g' wp w1 claims w3 msgs w4 w5 us where
    st: "es_reconstruct ?r (sv_store (w_service w)) = Ok st" "bm_contains_key (rs_agents st) (asm_owner a)"
    and g: "graph_from_events (run_log ?r (w_service w)) = Ok g"
    and pub: "rt_publish h a g w = (Ok (p, g'), w1)"
    and claims: "rt_map (\<lambda>t. rt_payload_event h (asm_run (pub_assumption p)) assumption_event RtAssumption
      (asm_encode_transition t)) (pub_transitions p) w1 = (Ok claims, w3)"
    and msgs: "rt_map (notify_conflict h (asm_run (pub_assumption p)) st (map event_ident claims) g')
      (pub_conflicts p) w3 = (Ok msgs, w4)"
    and full: "overfull_recipient (w_service w4) (map snd (concat msgs)) = None"
    and ap: "append_validated_batch (claims @ map fst (concat msgs)) w4 = (Ok (), w5)"
    and del: "deliver_each (map snd (concat msgs)) (w5\<lparr>w_service := (w_service w5)\<lparr>sv_assumptions := g'\<rparr>\<rparr>)
      = (Ok us, w')"
    unfolding publish_assumption_def Let_def rt_bind_Ok rt_reconstruct_Ok require_agent_def
    by (auto split: option.splits)
  note pub' = rt_publish_Ok [OF pub, simplified]
  have r: "asm_run (pub_assumption p) = ?r" using pub' publish_run by blast
  note c = encoded_events [OF claims [unfolded r]] and n = notices_Ok [OF msgs [unfolded r]]
  have same: "w_service w4 = w_service w" using c n pub' by simp
  have "published h a w st g p g' claims (concat msgs)"
    unfolding published_def using st g pub' c n full same by simp
  from that [OF this same ap del] show ?thesis .
qed

lemma append_batch_service:
  assumes "append_validated_batch evs w = (Ok u, w')"
  shows "\<exists>s. w' = w\<lparr>w_service := (w_service w)\<lparr>sv_store := s\<rparr>\<rparr>"
  using assms by (auto simp: append_validated_batch_Ok)

lemma queue_of_cong: "sv_mailboxes s' = sv_mailboxes s \<Longrightarrow> queue_of s' = queue_of s"
  by (rule ext) (simp add: queue_of_def)

lemma mailboxes_ok_cong:
  "sv_mailboxes s' = sv_mailboxes s \<Longrightarrow> sv_capacity s' = sv_capacity s \<Longrightarrow> mailboxes_ok s' = mailboxes_ok s"
  by (simp add: mailboxes_ok_def)

text \<open>Once the batch is in the log, every notice finds room.\<close>

lemma notices_delivered:
  assumes ok: "mailboxes_ok (w_service w)" and room: "overfull_recipient (w_service w) ns = None"
    and valid: "\<forall>e \<in> set ns. envelope_validate e = Ok ()"
    and ap: "append_validated_batch evs w = (Ok u, w1)"
  obtains us s where
    "deliver_each ns (w1\<lparr>w_service := (w_service w1)\<lparr>sv_assumptions := g\<rparr>\<rparr>) = (Ok us, w1\<lparr>w_service := s\<rparr>)"
    "mailboxes_ok s" "queue_of s = (\<lambda>a. queue_of (w_service w) a @ for_agent a ns)"
    "s\<lparr>sv_mailboxes := bm_empty\<rparr> = (w_service w1)\<lparr>sv_assumptions := g, sv_mailboxes := bm_empty\<rparr>"
proof -
  let ?w = "w1\<lparr>w_service := (w_service w1)\<lparr>sv_assumptions := g\<rparr>\<rparr>"
  from append_batch_service [OF ap] have same: "sv_mailboxes (w_service ?w) = sv_mailboxes (w_service w)"
    "sv_capacity (w_service ?w) = sv_capacity (w_service w)" by auto
  note q = queue_of_cong [OF same(1)]
  have "mailboxes_ok (w_service ?w)" using mailboxes_ok_cong [OF same] ok by simp
  moreover have "\<forall>a. length (queue_of (w_service ?w) a) + length (for_agent a ns) \<le> sv_capacity (w_service ?w)"
    unfolding q same(2) using overfull_None [OF ok room] by blast
  ultimately have "\<exists>us s. deliver_each ns ?w = (Ok us, ?w\<lparr>w_service := s\<rparr>) \<and> mailboxes_ok s \<and>
    s\<lparr>sv_mailboxes := bm_empty\<rparr> = (w_service ?w)\<lparr>sv_mailboxes := bm_empty\<rparr> \<and>
    queue_of s = (\<lambda>a. queue_of (w_service ?w) a @ for_agent a ns)"
    using valid by (intro deliver_each_room) blast+
  then show ?thesis using that q by auto
qed

lemma notices_valid:
  assumes "list_all2 (\<lambda>(c, b) n. notice_of r causal g c b (snd n) \<and>
    encoded_as r message_event envelope_encode (snd n) (fst n)) cs msgs"
  shows "\<forall>e \<in> set (map snd msgs). envelope_validate e = Ok ()"
proof
  fix e assume "e \<in> set (map snd msgs)"
  then obtain i where "i < length msgs" "e = snd (msgs ! i)" by (auto simp: in_set_conv_nth)
  with assms have "encoded_as r message_event envelope_encode e (fst (msgs ! i))"
    by (auto dest: list_all2_nthD2 split: prod.splits)
  then show "envelope_validate e = Ok ()" by (auto simp: encoded_as_def envelope_encode_def)
qed

lemma check_room_Ok:
  "(case x of None \<Rightarrow> rt_return () | Some b \<Rightarrow> rt_throw (f b)) w = (Ok u, w') \<longleftrightarrow> x = None \<and> w' = w"
  by (cases x) auto

lemma leaves_check_room: "leaves view (case x of None \<Rightarrow> rt_return () | Some b \<Rightarrow> rt_throw (f b))"
  by (cases x) (auto intro: frame_intros)

lemma publish_assumption_fails:
  assumes "publish_assumption h a w = (Err x, w')" and ok: "mailboxes_ok (w_service w)"
  shows "observed (w_service w') = observed (w_service w)"
proof -
  have delivered: False
    if del: "deliver_each (map snd (concat msgs)) (w2\<lparr>w_service := (w_service w2)\<lparr>sv_assumptions := g\<rparr>\<rparr>) = (Err x, w')"
      and ap: "append_validated_batch (claims @ map fst (concat msgs)) w1 = (Ok u, w2)"
      and full: "overfull_recipient (w_service w) (map snd (concat msgs)) = None"
      and n: "rt_map (notify_conflict h r st causal g') cs w0 = (Ok msgs, w1)"
      and same: "w_service w0 = w_service w"
    for msgs w0 w1 w2 g g' claims u r st causal cs
  proof -
    note n' = notices_Ok [OF n]
    have "mailboxes_ok (w_service w1)" "overfull_recipient (w_service w1) (map snd (concat msgs)) = None"
      using ok n' same full by simp_all
    from notices_delivered [OF this notices_valid [OF conjunct2 [OF n']] ap] obtain us s where
      "deliver_each (map snd (concat msgs)) (w2\<lparr>w_service := (w_service w2)\<lparr>sv_assumptions := g\<rparr>\<rparr>)
        = (Ok us, w2\<lparr>w_service := s\<rparr>)" .
    with del show False by simp
  qed
  note reads = leavesD [OF leaves_try [of "\<lambda>s. s"]] leavesD [OF leaves_reconstruct [of "\<lambda>s. s"]]
    leavesD [OF leaves_require_agent [of "\<lambda>s. s"]] leavesD [OF leaves_publish [of "\<lambda>s. s"]]
    leavesD [OF leaves_map [OF leaves_payload_event [of "\<lambda>s. s"]]]
    leavesD [OF leaves_map [OF leaves_notify_conflict [of "\<lambda>s. s"]]] append_validated_batch_Err
    leavesD [OF leaves_log [of "\<lambda>s. s"]] leavesD [OF leaves_check_room [of "\<lambda>s. s"]]
  show ?thesis
    using assms(1) unfolding publish_assumption_def Let_def
    by (auto simp: rt_bind_Err rt_reconstruct_Ok reads check_room_Ok dest: delivered)
qed

section \<open>Every call\<close>

lemma command_fails:
  assumes "run_command h c w = (Err x, w')" and "mailboxes_ok (w_service w)"
  shows "observed (w_service w') = observed (w_service w)"
proof (cases "is_messaging c")
  case False
  from atomic_onD [OF atomic_command [OF this] assms(1)] show ?thesis .
next
  case True
  from True assms show ?thesis
  proof (cases c)
    case (RequestConsultation r a b x y)
    with assms(1) show ?thesis
      by (auto simp: rt_ignore_def rt_bind_Err request_consultation_def
          leavesD [OF leaves_new_id [of "\<lambda>s. s"]] dest: send_message_fails)
  next
    case (AnswerConsultation r a b x y v ev)
    with assms(1) show ?thesis
      by (auto simp: rt_ignore_def rt_bind_Err answer_consultation_def
          leavesD [OF leaves_new_id [of "\<lambda>s. s"]] dest: send_message_fails)
  next
    case (ReceiveMessage a)
    with assms(1) show ?thesis
      by (auto simp: rt_ignore_def rt_bind_Err receive_message_def split: option.splits prod.splits)
  next
    case (PublishAssumption a)
    with assms show ?thesis by (auto simp: rt_ignore_def rt_bind_Err dest: publish_assumption_fails)
  qed (auto dest: send_message_fails)
qed

section \<open>The mailboxes stay bounded\<close>

abbreviation "post_boxes \<equiv> \<lambda>s. (sv_capacity s, sv_mailboxes s)"

lemma leaves_boxes_append [frame_intros]: "leaves post_boxes (append_validated_batch evs)"
  unfolding leaves_def
proof
  fix w
  obtain x w' where run: "append_validated_batch evs w = (x, w')" by fastforce
  then show "post_boxes (w_service (snd (append_validated_batch evs w))) = post_boxes (w_service w)"
    by (cases x) (auto dest: append_batch_service append_validated_batch_Err)
qed

lemma leaves_boxes_event [frame_intros]: "leaves post_boxes (append_validated_event ev)"
  by (simp add: append_validated_event_eq leaves_boxes_append)

lemma leaves_boxes_payload [frame_intros]: "leaves post_boxes (rt_append_payload h r wrap into encoded)"
  unfolding rt_append_payload_def by (intro frame_intros)

lemma leaves_boxes_kind [frame_intros]: "leaves post_boxes (rt_append_kind h r k)"
  unfolding rt_append_kind_def by (intro frame_intros)

lemma leaves_boxes_supervise [frame_intros]:
  "leaves post_boxes (supervise_agent_with_policy h r a p cs pinned)"
  unfolding supervise_agent_with_policy_def select_model_def rt_pause_agent_def Let_def
  by (auto intro!: frame_intros split: supervision_action.split)

lemma leaves_boxes_observe [frame_intros]: "leaves post_boxes (observe_cache_usage m x n u now)"
  unfolding observe_cache_usage_def by (auto intro!: frame_intros split: prod.split)

lemma leaves_boxes_record_cache [frame_intros]: "leaves post_boxes (record_cache_usage h r m x n u)"
  unfolding record_cache_usage_def by (auto intro!: frame_intros split: prod.split option.split)

lemma leaves_boxes_cancel [frame_intros]: "leaves post_boxes (cancel_agent h r a)"
  unfolding cancel_agent_def by (auto intro!: frame_intros)

lemma leaves_boxes_command: "\<not> is_messaging c \<Longrightarrow> leaves post_boxes (run_command h c)"
  by (cases c) (auto simp: command_defs intro!: frame_intros)

definition keeps_bound :: "'a rt \<Rightarrow> bool" where
  "keeps_bound m \<longleftrightarrow> (\<forall>w. mailboxes_ok (w_service w) \<longrightarrow> mailboxes_ok (w_service (snd (m w))))"

named_theorems bound_intros \<open>rules for the bound of the mailboxes\<close>

lemma keeps_boundI:
  "(\<And>w x w'. mailboxes_ok (w_service w) \<Longrightarrow> m w = (x, w') \<Longrightarrow> mailboxes_ok (w_service w')) \<Longrightarrow> keeps_bound m"
  unfolding keeps_bound_def by (metis prod.collapse)

lemma keeps_boundD:
  "keeps_bound m \<Longrightarrow> m w = (x, w') \<Longrightarrow> mailboxes_ok (w_service w) \<Longrightarrow> mailboxes_ok (w_service w')"
  unfolding keeps_bound_def by (metis snd_conv)

lemma keeps_leaves: "leaves post_boxes m \<Longrightarrow> keeps_bound m"
  by (auto simp: keeps_bound_def leaves_def intro: mailboxes_ok_cong [THEN iffD2])

lemmas keeps_simple [bound_intros] = leaves_return [THEN keeps_leaves] leaves_throw [THEN keeps_leaves]
  leaves_try [THEN keeps_leaves] leaves_require [THEN keeps_leaves] leaves_service [THEN keeps_leaves]
  leaves_new_id [THEN keeps_leaves] leaves_reconstruct [THEN keeps_leaves] leaves_log [THEN keeps_leaves]
  leaves_require_agent [THEN keeps_leaves] leaves_publish [THEN keeps_leaves]
  leaves_payload_event [THEN keeps_leaves] leaves_notify_conflict [THEN keeps_leaves]
  leaves_boxes_append [THEN keeps_leaves] leaves_boxes_payload [THEN keeps_leaves]
  leaves_check_room [THEN keeps_leaves]

lemma keeps_update [bound_intros]: "(\<And>s. post_boxes (f s) = post_boxes s) \<Longrightarrow> keeps_bound (rt_update f)"
  by (intro keeps_leaves leaves_update)

lemma keeps_bind [bound_intros]:
  assumes "keeps_bound m" and "\<And>x. keeps_bound (f x)"
  shows "keeps_bound (rt_bind m f)"
proof (rule keeps_boundI)
  fix w x w'
  assume "mailboxes_ok (w_service w)" and run: "rt_bind m f w = (x, w')"
  then show "mailboxes_ok (w_service w')"
    using keeps_boundD [OF assms(1)] keeps_boundD [OF assms(2)]
    by (cases x) (auto simp: rt_bind_Err)
qed

lemma keeps_map [bound_intros]: "(\<And>x. keeps_bound (f x)) \<Longrightarrow> keeps_bound (rt_map f xs)"
  by (induction xs) (auto intro!: bound_intros)

lemma keeps_open [bound_intros]: "keeps_bound (open_mailbox a)"
proof (rule keeps_boundI)
  fix w x w'
  assume "mailboxes_ok (w_service w)" and "open_mailbox a w = (x, w')"
  then show "mailboxes_ok (w_service w')"
    by (cases x) (auto simp: open_mailbox_Ok, auto simp: open_mailbox_def rt_bind_Err Let_def rt_try_def)
qed

lemma mailboxes_ok_insert:
  assumes "mailboxes_ok s" and "mb_capacity b = sv_capacity s" and "length (mb_queue b) \<le> sv_capacity s"
  shows "mailboxes_ok (s\<lparr>sv_mailboxes := bm_insert a b (sv_mailboxes s)\<rparr>)"
  using assms by (auto simp: mailboxes_ok_def split: if_splits)

lemma mailboxes_okD: "mailboxes_ok s \<Longrightarrow> bm_get (sv_mailboxes s) a = Some b \<Longrightarrow>
    mb_capacity b = sv_capacity s \<and> length (mb_queue b) \<le> sv_capacity s"
  by (simp add: mailboxes_ok_def)

lemma keeps_deliver [bound_intros]: "keeps_bound (deliver e)"
proof (rule keeps_boundI)
  fix w x w'
  assume ok: "mailboxes_ok (w_service w)" and run: "deliver e w = (x, w')"
  show "mailboxes_ok (w_service w')"
  proof (cases "bm_get (sv_mailboxes (w_service w)) (env_recipient e)")
    case None
    with ok run show ?thesis by (simp add: deliver_def rt_bind_def rt_service_def)
  next
    case (Some b)
    obtain sent b' where sent: "try_send e b = (sent, b')" by fastforce
    have "mb_capacity b' = sv_capacity (w_service w)" "length (mb_queue b') \<le> sv_capacity (w_service w)"
      using sent mailboxes_okD [OF ok Some] by (auto simp: try_send_cases split: if_splits result.splits)
    from mailboxes_ok_insert [OF ok this] run Some sent show ?thesis
      by (auto simp: deliver_def rt_bind_def rt_service_def rt_update_def rt_try_def)
  qed
qed

lemma keeps_receive [bound_intros]: "keeps_bound (receive_message a)"
proof (rule keeps_boundI)
  fix w x w'
  assume ok: "mailboxes_ok (w_service w)" and run: "receive_message a w = (x, w')"
  show "mailboxes_ok (w_service w')"
  proof (cases "bm_get (sv_mailboxes (w_service w)) a")
    case None
    with ok run show ?thesis by (simp add: receive_message_def rt_bind_def rt_service_def)
  next
    case (Some b)
    obtain e b' where e: "receive b = (e, b')" by fastforce
    have "mb_capacity b' = sv_capacity (w_service w)" "length (mb_queue b') \<le> sv_capacity (w_service w)"
      using e mailboxes_okD [OF ok Some] by (auto simp: receive_def split: list.splits)
    from mailboxes_ok_insert [OF ok this] run Some e show ?thesis
      by (auto simp: receive_message_def rt_bind_def rt_service_def rt_update_def rt_return_def)
  qed
qed

lemma keeps_send [bound_intros]: "keeps_bound (send_message h e)"
  unfolding send_message_def by (intro bound_intros)

lemma keeps_publish [bound_intros]: "keeps_bound (publish_assumption h a)"
  unfolding publish_assumption_def Let_def
  by (auto intro!: bound_intros)

lemma keeps_command: "keeps_bound (run_command h c)"
proof (cases "is_messaging c")
  case False
  then show ?thesis by (intro keeps_leaves leaves_boxes_command)
next
  case True
  then show ?thesis
    by (cases c) (auto simp: rt_ignore_def request_consultation_def answer_consultation_def
        intro!: bound_intros)
qed

lemma run_commands_bound:
  "mailboxes_ok (w_service w) \<Longrightarrow> mailboxes_ok (w_service (run_commands h cs w))"
proof (induction cs arbitrary: w)
  case (Cons c cs)
  then show ?case using keeps_command by (simp add: keeps_bound_def)
qed simp

section \<open>Properties\<close>

text \<open>
  C12: a call that fails changes nothing a client can see. Whichever of the calls it is, if it returns an
  error (or panics), the event log, every projection the service holds and the queue of every
  mailbox are as before; this covers the publication of an assumption, which appends a batch, sets a
  projection and delivers any number of notices.
\<close>

theorem failed_call_changes_nothing:
  assumes "run_command h c w = (Err x, w')" and "mailboxes_ok (w_service w)"
  shows "observed (w_service w') = observed (w_service w)"
  using assms by (rule command_fails)

text \<open>
  Mailboxes are bounded. A service starts with bounded mailboxes, and whatever calls follow, no
  mailbox ever holds more than its capacity.
\<close>

theorem mailboxes_stay_bounded:
  "(with_mailbox_capacity s capacity = Ok sv \<longrightarrow> mailboxes_ok sv) \<and> mailboxes_ok (runtime_service_new s) \<and>
   (mailboxes_ok (w_service w) \<longrightarrow>
     (\<forall>a. pending_messages (w_service (run_commands h cs w)) a \<le> sv_capacity (w_service (run_commands h cs w))))"
  using mailboxes_ok_capacity mailboxes_ok_new queue_bound run_commands_bound
  by (auto simp: pending_messages_queue)

lemma es_reconstruct_run: "es_reconstruct r s = Ok st \<Longrightarrow> rs_run st = r"
  by (auto simp: es_reconstruct_def Let_def runtime_state_new_def dest!: accepted_events_run split: if_splits)

lemma append_validated_batch_log:
  assumes ap: "append_validated_batch evs w = (Ok u, w')" and runs: "\<forall>ev \<in> set evs. event_run ev = r"
  shows "run_log r (w_service w') = run_log r (w_service w) @ evs"
    "q \<noteq> r \<Longrightarrow> run_log q (w_service w') = run_log q (w_service w)"
proof -
  from ap obtain ns s where "es_append_batch evs (sv_store (w_service w)) = (Ok ns, s)"
    and w': "w' = w\<lparr>w_service := (w_service w)\<lparr>sv_store := s\<rparr>\<rparr>"
    by (auto simp: append_validated_batch_Ok)
  note new = es_events_batch [OF this(1) runs]
  show "run_log r (w_service w') = run_log r (w_service w) @ evs" by (simp add: run_log_def w' new(1))
  show "q \<noteq> r \<Longrightarrow> run_log q (w_service w') = run_log q (w_service w)" by (simp add: run_log_def w' new(2))
qed

lemma run_log_cong: "sv_store s' = sv_store s \<Longrightarrow> run_log r s' = run_log r s"
  by (simp add: run_log_def)

lemma run_log_opened: "run_log r (opened a s) = run_log r s"
  by (rule run_log_cong) simp

lemma rt_append_payload_Ok:
  assumes "rt_append_payload h r wrap into encoded w = (Ok u, w')"
  obtains ev bs w1 where "encoded = Ok bs" "event_run ev = r" "event_knd ev = wrap bs" "w_service w1 = w_service w"
    "append_validated_batch [ev] w1 = (Ok u, w')" "run_log r (w_service w') = run_log r (w_service w) @ [ev]"
    "\<And>q. q \<noteq> r \<Longrightarrow> run_log q (w_service w') = run_log q (w_service w)"
proof -
  from assms obtain ev w1 where ev: "rt_payload_event h r wrap into encoded w = (Ok ev, w1)"
    and ap: "append_validated_batch [ev] w1 = (Ok u, w')"
    by (auto simp: rt_append_payload_def append_validated_event_eq)
  from ev obtain bs where enc: "encoded = Ok bs" "w_service w1 = w_service w" "event_run ev = r" "event_knd ev = wrap bs"
    by (rule rt_payload_event_Ok)
  then have "\<forall>ev \<in> set [ev]. event_run ev = r" by simp
  from that [OF enc(1,3,4,2) ap] append_validated_batch_log [OF ap this] enc(2) show ?thesis by simp
qed

text \<open>
  A message is recorded and queued, both or neither. A successful send adds one event with the
  encoding of the envelope to the log of its run, and to no other; it puts the envelope at the end of
  the queue of its recipient, where there was room, and touches no other queue.
\<close>

theorem send_message_recorded_and_queued:
  assumes "send_message h e w = (Ok (), w')"
  shows "(\<exists>ev. run_log (env_run e) (w_service w') = run_log (env_run e) (w_service w) @ [ev] \<and>
       encoded_as (env_run e) message_event envelope_encode e ev) \<and>
    (\<forall>q. q \<noteq> env_run e \<longrightarrow> run_log q (w_service w') = run_log q (w_service w)) \<and>
    queue_of (w_service w') = (queue_of (w_service w))
      (env_recipient e := queue_of (w_service w) (env_recipient e) @ [e])"
proof -
  let ?w = "w\<lparr>w_service := opened (env_recipient e) (w_service w)\<rparr>"
  from send_message_delivers [OF assms] obtain b w2 where
    ap: "rt_append_payload h (env_run e) message_event RtIpc (envelope_encode e) ?w = (Ok (), w2)"
    and w': "w' = w2\<lparr>w_service := queued e b (w_service w2)\<rparr>"
    and b: "bm_get (sv_mailboxes (w_service w2)) (env_recipient e) = Some b"
    and boxes: "sv_mailboxes (w_service w2) = sv_mailboxes (opened (env_recipient e) (w_service w))" by metis
  have q: "queue_of (w_service w2) = queue_of (w_service w)"
    using queue_of_cong [OF boxes] by simp
  have log: "run_log r (w_service w') = run_log r (w_service w2)" for r
    unfolding w' by (rule trans [OF _ refl], rule run_log_cong) (simp add: queued_def)
  from rt_append_payload_Ok [OF ap] obtain ev bs w1 where
    "envelope_encode e = Ok bs" "event_run ev = env_run e" "event_knd ev = message_event bs"
    "run_log (env_run e) (w_service w2) = run_log (env_run e) (w_service ?w) @ [ev]"
    "\<And>q. q \<noteq> env_run e \<Longrightarrow> run_log q (w_service w2) = run_log q (w_service ?w)" by blast
  then show ?thesis
    using queued_simps(1) [OF b] q log by (auto simp: run_log_opened encoded_as_def w')
qed

lemma encoded_runs: "list_all2 (encoded_as r wrap enc) ts evs \<Longrightarrow> \<forall>ev \<in> set evs. event_run ev = r"
  by (induction rule: list_all2_induct) (auto simp: encoded_as_def)

lemma message_runs:
  "list_all2 (\<lambda>(c, b) n. notice_of r causal g c b (snd n) \<and>
     encoded_as r message_event envelope_encode (snd n) (fst n)) cs msgs \<Longrightarrow>
   \<forall>ev \<in> set (map fst msgs). event_run ev = r"
  by (auto simp: in_set_conv_nth list_all2_conv_all_nth split_beta encoded_as_def) (metis fst_conv)

lemma publish_conflicts_sizes:
  "publish_conflicts new_id a n es g = (cs, ts, g') \<Longrightarrow>
     length ts = 2 * length cs \<and> (\<forall>c \<in> set cs. conflict_agents c \<noteq> [])"
proof (induction es arbitrary: n g cs ts g')
  case (Cons e es)
  have "conflict_agents (conflict_between i a e) \<noteq> []" for i
    by (auto simp: conflict_between_def)
  with Cons show ?case by (fastforce simp: Let_def split: prod.splits)
qed auto

lemma publish_sizes:
  "publish lower new_id a g = (Ok p, g') \<Longrightarrow>
     length (pub_transitions p) = Suc (2 * length (pub_conflicts p)) \<and>
     (\<forall>c \<in> set (pub_conflicts p). conflict_agents c \<noteq> [])"
  by (auto simp: publish_def Let_def dest: publish_conflicts_sizes split: result.splits if_splits prod.splits)


section \<open>Witnesses\<close>

theorem failed_call_changes_nothing_witness:
  "\<exists>x w'. run_command demo_host (PauseAgent 3 9) demo_world = (Err x, w') \<and>
     observed (w_service w') = observed (w_service demo_world)"
proof -
  have "run_command demo_host (PauseAgent 3 9) demo_world
      = (Err (Failed (RtEventStore (EsUnknownAgent 9))), demo_world)"
    by (simp add: rt_pause_agent_def rt_reconstruct_def rt_bind_def rt_service_def rt_try_def demo_reconstruct
        require_agent_def rt_require_def bm_contains_key_def demo_state_def rt_throw_def)
  from failed_call_changes_nothing [OF this] this mailboxes_ok_new show ?thesis by simp
qed

theorem mailboxes_stay_bounded_witness:
  "pending_messages (w_service (run_commands demo_host [ReceiveMessage 5] demo_world)) 5 \<le> 64"
proof -
  have "sv_capacity (w_service (run_commands demo_host [ReceiveMessage 5] demo_world)) = 64"
    by (simp add: receive_message_def rt_ignore_def rt_bind_def rt_service_def rt_return_def
        runtime_service_new_def DEFAULT_MAILBOX_CAPACITY_def)
  then show ?thesis
    using mailboxes_stay_bounded [of demo_store 0 _ demo_world demo_host "[ReceiveMessage 5]"] mailboxes_ok_new
    by simp
qed

lemma rt_append_payload_encoded:
  "encoded = Ok bs \<Longrightarrow> rt_append_payload h r wrap into encoded = rt_append_kind h r (wrap bs)"
  by (rule ext) (simp add: rt_append_payload_def rt_payload_event_def rt_append_kind_def rt_bind_def rt_try_def)

definition demo_envelope :: ipc_envelope where
  "demo_envelope = envelope_new 1 3 None 5 6 (Handoff ''done'')"

lemma demo_envelope_valid: "envelope_validate demo_envelope = Ok ()"
  by (simp add: demo_envelope_def envelope_new_def envelope_validate_def ipc_validate_text_def
      trim_is_empty_def IPC_MAX_STRING_BYTES_def)

lemma demo_envelope_encodes: "\<exists>bs. envelope_encode demo_envelope = Ok bs"
  unfolding envelope_encode_def demo_envelope_valid
  by (simp add: demo_envelope_def envelope_new_def write_bounded_def write_seq.simps
      message_encode_def write_option_def write_counted_def ipc_write_string_def write_u8_def
      write_u16_def write_u32_def write_u64_def write_bytes_def MAX_ENVELOPE_BYTES_def
      IPC_MAX_STRING_BYTES_def)

lemma demo_send: "\<exists>w'. send_message demo_host demo_envelope demo_world = (Ok (), w')"
proof -
  let ?w = "demo_world\<lparr>w_service := opened 6 (w_service demo_world)\<rparr>"
  have fields: "env_run demo_envelope = 3" "env_sender demo_envelope = 5" "env_recipient demo_envelope = 6"
    by (simp_all add: demo_envelope_def envelope_new_def)
  obtain bs where bs: "envelope_encode demo_envelope = Ok bs" using demo_envelope_encodes by blast
  obtain b where b: "bm_get (sv_mailboxes (w_service ?w)) 6 = Some b"
    using opened_get [of 6 "w_service demo_world"] by simp
  then have room: "\<not> mailbox_is_full b"
    by (auto simp: opened_def runtime_service_new_def mailbox_is_full_def DEFAULT_MAILBOX_CAPACITY_def bm_get_or_insert)
  have "open_mailbox 6 demo_world = (Ok b, ?w)"
    using b by (simp add: open_mailbox_Ok runtime_service_new_def DEFAULT_MAILBOX_CAPACITY_def)
  moreover have "apply_kind (message_event bs) demo_state = Ok demo_state" by simp
  from demo_append [OF _ _ this, of ?w demo_host] obtain w2 s where
    "rt_append_kind demo_host 3 (message_event bs) ?w = (Ok (), w2)" "w_service w2 = (w_service ?w)\<lparr>sv_store := s\<rparr>"
    by auto
  moreover have "deliver demo_envelope w2 = (Ok (), w2\<lparr>w_service := queued demo_envelope b (w_service w2)\<rparr>)"
    using b calculation(3) fields by (intro deliver_room demo_envelope_valid room) simp
  moreover have "bm_contains_key (rs_agents demo_state) 5" "bm_contains_key (rs_agents demo_state) 6"
    by (simp_all add: demo_state_def bm_contains_key_def)
  ultimately show ?thesis
    using room by (auto simp: send_message_def fields demo_envelope_valid rt_reconstruct_Ok demo_reconstruct
        require_agent_def rt_append_payload_encoded [OF bs])
qed

theorem send_message_recorded_and_queued_witness:
  "\<exists>w'. send_message demo_host demo_envelope demo_world = (Ok (), w') \<and>
     queue_of (w_service w') 6 = [demo_envelope]"
proof -
  obtain w' where w': "send_message demo_host demo_envelope demo_world = (Ok (), w')" using demo_send by blast
  have "env_recipient demo_envelope = 6" by (simp add: demo_envelope_def envelope_new_def)
  moreover have "queue_of (w_service demo_world) 6 = []" by (simp add: queue_of_def runtime_service_new_def)
  ultimately show ?thesis using send_message_recorded_and_queued [OF w'] w' by auto
qed

definition demo_claim :: assumption where
  "demo_claim = assumption_new (\<lambda>s. s) 9 3 5 ''auth'' ''jwt'' ''claim''"

lemma demo_publish: "publish (os_lower demo_host) new_id demo_claim graph_new =
    (Ok \<lparr>pub_assumption = demo_claim, pub_conflicts = [], pub_transitions = [AsmCreated demo_claim]\<rparr>,
     graph_insert demo_claim graph_new)"
  by (simp add: publish_def demo_claim_def demo_host_def assumption_eval graph_new_def contradicting_def
      bm_contains_key_def Let_def word_less_nat_alt)

lemma demo_claim_encodes: "\<exists>bs. asm_encode_transition (AsmCreated demo_claim) = Ok bs"
  by (simp add: asm_encode_transition_def encode_assumption_def demo_claim_def assumption_eval
      write_bounded_def write_seq.simps write_counted_def asm_write_string_def asm_write_string_list_def
      write_u8_def write_u16_def write_u64_def write_bytes_def ASM_MAX_PAYLOAD_BYTES_def)

lemma demo_graph: "graph_from_events (run_log 3 (runtime_service_new demo_store)) = Ok graph_new"
  by (simp add: run_log_def demo_run_log demo_log_def graph_from_events_def)

lemma demo_publish_assumption: "\<exists>p w'. publish_assumption demo_host demo_claim demo_world = (Ok p, w')"
proof -
  let ?p = "\<lparr>pub_assumption = demo_claim, pub_conflicts = [], pub_transitions = [AsmCreated demo_claim]\<rparr>"
  have fields: "asm_run demo_claim = 3" "asm_owner demo_claim = 5"
    by (simp_all add: demo_claim_def assumption_new_def)
  obtain bs where bs: "asm_encode_transition (AsmCreated demo_claim) = Ok bs" using demo_claim_encodes by blast
  from demo_event [of demo_world 100 demo_host 3 "assumption_event bs"] obtain ev w1 where
    ev: "rt_event demo_host 3 (assumption_event bs) demo_world = (Ok ev, w1)" "event_ident ev = 100"
      "event_run ev = 3" "event_knd ev = assumption_event bs" "w_service w1 = w_service demo_world"
    by (auto simp: demo_ids_def)
  have "apply_kind (assumption_event bs) demo_state = Ok demo_state" by simp
  from demo_accepts [OF this ev(3,4)] obtain st where "try_fold apply_event demo_state [ev] = Ok st" by blast
  from demo_batch [OF _ this, of w1] ev obtain w2 where
    ap: "append_validated_batch [ev] w1 = (Ok (), w2)" by auto
  note g = demo_graph
  have pub: "rt_publish demo_host demo_claim graph_new demo_world
      = (Ok (?p, graph_insert demo_claim graph_new), demo_world)"
    by (simp add: rt_publish_def demo_publish rt_bind_def rt_take_ids_def rt_return_def)
  have "bm_contains_key (rs_agents demo_state) 5" by (simp add: demo_state_def bm_contains_key_def)
  then show ?thesis
    unfolding publish_assumption_def Let_def
    by (simp add: rt_bind_def fields rt_reconstruct_def rt_service_def rt_try_def demo_reconstruct require_agent_def
        rt_require_def rt_return_def rt_log_def g pub rt_payload_event_def bs ev(1) overfull_recipient_def ap rt_update_def)
qed


end
