(* ===== verification/Runtime_Sync.thy ===== *)
theory Runtime_Sync
  imports Runtime_Messages
begin

text \<open>
  The projections the service holds are those it would recover: after a call that records a transition,
  \<open>from_events\<close> of the new log gives the projection the call has set. The texts of the arguments are
  UTF-8, as every Rust string is.
\<close>

section \<open>One more event\<close>

context event_sourced
begin

lemma replay_other:
  "sel (event_knd ev) = None \<Longrightarrow> replay sel dec step s (evs @ [ev]) = replay sel dec step s evs"
  by (cases "replay sel dec step s evs") (simp_all add: replay_append)

end

context event_sourced_codec
begin

lemma replay_one_more:
  assumes "replay sel dec step s evs = Ok c" and "enc t = Ok bs" and "ok t"
    and "event_knd ev = wrap version bs" and "step t c = Ok c'"
  shows "replay sel dec step s (evs @ [ev]) = Ok c'"
  using assms decode_encode [OF assms(3,2)] by (simp add: replay_append sel_wrap step_norm)

lemma replay_many_more:
  assumes "list_all2 (\<lambda>t ev. \<exists>bs. enc t = Ok bs \<and> event_knd ev = wrap version bs) ts evs"
    and "\<forall>t \<in> set ts. ok t"
  shows "replay sel dec step s evs = try_fold (\<lambda>s t. step t s) s ts"
proof (rule replay_recorded [OF _ assms(2)])
  have "sel (event_knd ev) \<noteq> None" if "ev \<in> set evs" for ev
    using assms(1) that by (auto simp: in_set_conv_nth list_all2_conv_all_nth sel_wrap)
  then have "filter (\<lambda>ev. sel (event_knd ev) \<noteq> None) evs = evs" by (simp add: filter_id_conv)
  with assms(1) show "list_all2 (\<lambda>t ev. \<exists>bs. enc t = Ok bs \<and> event_knd ev = wrap version bs) ts
      (filter (\<lambda>ev. sel (event_knd ev) \<noteq> None) evs)" by simp
qed

end

section \<open>The scheduler and the agents the log creates\<close>

lemma agent_ids_append [simp]: "agent_ids (xs @ ys) = agent_ids xs @ agent_ids ys"
  by (simp add: agent_ids_def map_filter_def)

lemma recover_step_mono:
  assumes "recover_step win ids t s = Ok s'" and "set ids \<subseteq> set ids'"
  shows "recover_step win ids' t s = Ok s'"
  using assms by (auto simp: recover_step_def validate_agent_references_def list_all_iff split: if_splits)

lemma sched_replay_mono:
  assumes "replay select_scheduler sched_decode_transition (recover_step win ids) s evs = Ok s'"
    and "set ids \<subseteq> set ids'"
  shows "replay select_scheduler sched_decode_transition (recover_step win ids') s evs = Ok s'"
  using assms(1)
proof (induction evs arbitrary: s)
  case (Cons ev evs)
  then show ?case
    by (auto split: option.splits) (use recover_step_mono [OF _ assms(2)] in blast)
qed simp

lemma sched_from_events_append:
  assumes "sched_from_events win evs = Ok c"
  shows "sched_from_events win (evs @ new) =
    replay select_scheduler sched_decode_transition (recover_step win (agent_ids (evs @ new))) c new"
proof -
  have "replay select_scheduler sched_decode_transition (recover_step win (agent_ids (evs @ new))) scheduler_default evs = Ok c"
    using assms unfolding sched_from_events_def by (rule sched_replay_mono) simp
  then show ?thesis by (simp add: sched_from_events_def sched.replay_append del: agent_ids_append)
qed

lemma sched_other: "select_scheduler (event_knd ev) = None \<Longrightarrow> sched_from_events win evs = Ok c \<Longrightarrow>
    sched_from_events win (evs @ [ev]) = Ok c"
  by (subst sched_from_events_append) simp_all

lemma sched_one_more:
  assumes "sched_from_events win evs = Ok c" and "sched_encode_transition win t = Ok bs" and "replayable win t"
    and ev: "event_knd ev = scheduler_event bs" and "sched_apply win t c = (Ok (), c')"
    and "\<forall>a \<in> set (agent_references t). a \<in> set (agent_ids evs)"
  shows "sched_from_events win (evs @ [ev]) = Ok c'"
proof -
  let ?ids = "agent_ids (evs @ [ev])"
  have "recover_step win ?ids t c = Ok c'"
    using assms(5,6) by (auto simp: recover_step_def validate_agent_references_def list_all_iff)
  then have "replay select_scheduler sched_decode_transition (recover_step win ?ids) c ([] @ [ev]) = Ok c'"
    by (rule sched.replay_one_more [OF _ assms(2,3) ev, rotated]) simp
  then show ?thesis by (subst sched_from_events_append [OF assms(1)]) simp
qed

lemma created_agent_Some: "created_agent k = Some a \<longleftrightarrow> (\<exists>i. k = AgentCreated i \<and> agent_ident i = a)"
  by (cases k) auto

lemma agent_ids_iff: "a \<in> set (agent_ids evs) \<longleftrightarrow> (\<exists>i. AgentCreated i \<in> event_knd ` set evs \<and> agent_ident i = a)"
  by (auto simp: agent_ids_def map_filter_def created_agent_Some image_iff) (metis created_agent.simps(1) option.sel)+

lemma apply_kind_agents:
  assumes "apply_kind k s = Ok s'"
  shows "bm_contains_key (rs_agents s') a \<longleftrightarrow> bm_contains_key (rs_agents s) a \<or> created_agent k = Some a"
proof -
  have eq: "bm_contains_key m a \<longleftrightarrow> map_option ag_identity (bm_get m a) \<noteq> None"
    for m :: "(agent_id, agent_state) bmap"
    by (simp add: bm_contains_key_def)
  show ?thesis unfolding eq apply_kind_identity [OF assms] by (cases k) (auto split: if_splits)
qed

lemma accepted_agents:
  assumes "try_fold apply_event s evs = Ok s'"
  shows "bm_contains_key (rs_agents s') a \<longleftrightarrow> bm_contains_key (rs_agents s) a \<or> a \<in> set (agent_ids evs)"
  using assms
proof (induction evs arbitrary: s)
  case Nil
  then show ?case by (simp add: agent_ids_def map_filter_def)
next
  case (Cons ev evs)
  then obtain s1 where s1: "apply_event s ev = Ok s1" and rest: "try_fold apply_event s1 evs = Ok s'" by auto
  have "bm_contains_key (rs_agents s1) a \<longleftrightarrow> bm_contains_key (rs_agents s) a \<or> created_agent (event_knd ev) = Some a"
    using s1 by (auto elim!: apply_event_Ok simp: apply_kind_agents)
  with Cons.IH [OF rest] show ?case by (auto simp: agent_ids_def map_filter_def)
qed

lemma reconstructed_agents:
  assumes "es_reconstruct r s = Ok st"
  shows "bm_contains_key (rs_agents st) a \<longleftrightarrow> a \<in> set (agent_ids (map se_event (es_events r s)))"
proof -
  from assms obtain st0 where "try_fold apply_event (runtime_state_new r) (map se_event (es_events r s)) = Ok st0"
    and "rs_agents st = rs_agents st0" by (auto simp: es_reconstruct_def Let_def split: if_splits)
  from accepted_agents [OF this(1), of a] this(2) show ?thesis
    by (simp add: runtime_state_new_def bm_contains_key_def)
qed

section \<open>The specialists\<close>

lemma sp_replay_append:
  "sp_replay A r xs = Ok r' \<Longrightarrow> sp_replay A r (xs @ ys) = sp_replay (A \<union> created_agents xs) r' ys"
proof (induction A r xs rule: sp_replay.induct)
  case (3 agents r v payload evs)
  from 3(2) obtain t r1 where "sp_decode_transition v payload = Ok t" "sp_owner t \<in> agents"
      "sp_apply t r = (Ok (), r1)" "sp_replay agents r1 evs = Ok r'"
    by (auto simp: commit_Ok_iff split: if_splits)
  with 3(1) show ?case by (simp add: commit_Ok_iff)
qed simp_all

lemma sp_other:
  assumes "\<forall>v p. event_knd ev \<noteq> SpecialistTransition v p" and "sp_from_events evs = Ok g"
  shows "sp_from_events (evs @ [ev]) = Ok g"
  using assms by (cases "event_knd ev") (simp_all add: sp_from_events_def sp_replay_append)

lemma created_agents_ids: "created_agents (map event_knd evs) = set (agent_ids evs)"
  by (auto simp: created_agents_def agent_ids_iff image_iff) (metis)+

lemma sp_one_more:
  assumes "sp_from_events evs = Ok g" and "sp_encode_transition (SpecialistRegistered p) = Ok bs"
    and "specialist_utf8 (SpecialistRegistered p)" and "event_knd ev = specialist_event bs"
    and "sp_apply (SpecialistRegistered p) g = (Ok (), g')" and "sp_agent p \<in> set (agent_ids evs)"
  shows "sp_from_events (evs @ [ev]) = Ok g'"
  using assms sp_decode_encode [OF assms(3,2)] created_agents_ids [of evs]
  by (simp add: sp_from_events_def sp_replay_append)

section \<open>One call\<close>

context event_sourced_codec
begin

lemma payload_recovered:
  assumes "replay sel dec step s (run_log r (w_service w)) = Ok c" and "step t c = Ok c'" and "ok t"
    and "rt_append_payload h r (wrap version) into (enc t) w = (Ok u, w')"
  shows "replay sel dec step s (run_log r (w_service w')) = Ok c'"
  using assms(4) by (rule rt_append_payload_Ok) (use assms(1-3) replay_one_more in simp)

end

lemma run_log_update:
  "run_log r (s\<lparr>sv_tools := t\<rparr>) = run_log r s" "run_log r (s\<lparr>sv_failures := f\<rparr>) = run_log r s"
  "run_log r (s\<lparr>sv_capabilities := c\<rparr>) = run_log r s" "run_log r (s\<lparr>sv_scheduler := d\<rparr>) = run_log r s"
  "run_log r (s\<lparr>sv_specialists := g\<rparr>) = run_log r s" "run_log r (s\<lparr>sv_assumptions := a\<rparr>) = run_log r s"
  by (simp_all add: run_log_def)

lemma tool_synced:
  assumes "record_tool_transition h r t w = (Ok (), w')" and "tool_transition_utf8 t"
  shows "tool_records_from_events (run_log r (w_service w')) = Ok (sv_tools (w_service w'))"
proof -
  from assms(1) obtain c c' w1 where "tool_records_from_events (run_log r (w_service w)) = Ok c"
    and "commit (th_apply t c) = Ok c'"
    and "rt_append_payload h r tool_event RtTool (tl_encode_transition t) w = (Ok (), w1)"
    and w': "w' = w1\<lparr>w_service := (w_service w1)\<lparr>sv_tools := c'\<rparr>\<rparr>"
    by (cases t) (auto simp: record_tool_transition_def rt_reconstruct_Ok require_agent_def require_task_def
        split: option.splits)
  with tools.payload_recovered [of tool_records_new r w c t c'] assms(2) show ?thesis
    by (simp add: tool_records_from_events_def run_log_update)
qed

lemma failure_synced:
  assumes "commit_failure h r t w = (Ok (), w')" and "failure_utf8 t"
  shows "fm_from_events (run_log r (w_service w')) = Ok (sv_failures (w_service w'))"
proof -
  from assms(1) obtain c c' w1 where "fm_from_events (run_log r (w_service w)) = Ok c"
    and "commit (fm_apply t c) = Ok c'"
    and "rt_append_payload h r failure_event RtFailureMemory (fm_encode_transition t) w = (Ok (), w1)"
    and w': "w' = w1\<lparr>w_service := (w_service w1)\<lparr>sv_failures := c'\<rparr>\<rparr>"
    by (auto simp: commit_failure_def)
  with fm.payload_recovered [of failure_memory_default r w c t c'] assms(2) show ?thesis
    by (simp add: fm_from_events_def run_log_update)
qed

lemma capability_synced:
  assumes "commit_capability h r t w = (Ok (), w')" and "transition_utf8 t"
  shows "policy_from_events (run_log r (w_service w')) = Ok (sv_capabilities (w_service w'))"
proof -
  from assms(1) obtain c c' w1 where "policy_from_events (run_log r (w_service w)) = Ok c"
    and "commit (cap_apply t c) = Ok c'"
    and "rt_append_payload h r capability_event RtCapability (cap_encode_transition t) w = (Ok (), w1)"
    and w': "w' = w1\<lparr>w_service := (w_service w1)\<lparr>sv_capabilities := c'\<rparr>\<rparr>"
    by (auto simp: commit_capability_def)
  with cap.payload_recovered [of policy_new r w c t c'] assms(2) show ?thesis
    by (simp add: policy_from_events_def run_log_update)
qed

text \<open>The agents a scheduler call names are agents of the run, so the log creates them.\<close>

definition agents_logged :: "run_id \<Rightarrow> runtime_service \<Rightarrow> agent_id set" where
  "agents_logged r s = set (agent_ids (run_log r s))"

lemma require_agent_logged:
  assumes "es_reconstruct r (sv_store s) = Ok st" and "bm_contains_key (rs_agents st) a"
  shows "a \<in> agents_logged r s"
  using reconstructed_agents [OF assms(1), of a] assms(2) by (simp add: agents_logged_def run_log_def)

lemma scheduler_synced:
  assumes "commit_scheduler h r t w = (Ok (), w')" and "replayable (os_windows h) t"
    and "set (agent_references t) \<subseteq> agents_logged r (w_service w)"
  shows "sched_from_events (os_windows h) (run_log r (w_service w')) = Ok (sv_scheduler (w_service w'))"
proof -
  from assms(1) obtain c c' w1 where c: "sched_from_events (os_windows h) (run_log r (w_service w)) = Ok c"
    and step: "sched_apply (os_windows h) t c = (Ok (), c')"
    and ap: "rt_append_payload h r scheduler_event RtScheduler (sched_encode_transition (os_windows h) t) w
      = (Ok (), w1)"
    and w': "w' = w1\<lparr>w_service := (w_service w1)\<lparr>sv_scheduler := c'\<rparr>\<rparr>"
    by (auto simp: commit_scheduler_def commit_Ok_iff)
  from ap obtain ev bs where "sched_encode_transition (os_windows h) t = Ok bs" "event_knd ev = scheduler_event bs"
    "run_log r (w_service w1) = run_log r (w_service w) @ [ev]"
    by (rule rt_append_payload_Ok)
  with sched_one_more [OF c _ assms(2) _ step] assms(3) w' show ?thesis
    by (auto simp: run_log_update agents_logged_def)
qed

text \<open>Several scheduler transitions, recorded one after the other behind what the log holds.\<close>

lemma sched_many_more:
  assumes "sched_from_events win evs = Ok c" and "try_fold (\<lambda>c t. commit (sched_apply win t c)) c ts = Ok c'"
    and "list_all2 (encoded_as r scheduler_event (sched_encode_transition win)) ts new"
    and "\<forall>t \<in> set ts. replayable win t \<and> set (agent_references t) \<subseteq> set (agent_ids (evs @ new))"
  shows "sched_from_events win (evs @ new) = Ok c'"
proof -
  let ?ids = "agent_ids (evs @ new)"
  have "replay select_scheduler sched_decode_transition (recover_step win ?ids) c new
      = try_fold (\<lambda>c t. recover_step win ?ids t c) c ts"
    by (rule sched.replay_many_more) (use assms(3,4) in \<open>auto simp: encoded_as_def elim: list_all2_mono\<close>)
  also have "\<dots> = Ok c'"
    using assms(2,4)
  proof (induction ts arbitrary: c)
    case (Cons t ts)
    then show ?case
      by (auto simp: recover_step_def validate_agent_references_def list_all_iff subset_iff)
  qed simp
  finally show ?thesis by (subst sched_from_events_append [OF assms(1)])
qed

lemma scheduler_event_encoded:
  assumes "rt_scheduler_event h r t w = (Ok ev, w')"
  shows "encoded_as r scheduler_event (sched_encode_transition (os_windows h)) t ev \<and> w_service w' = w_service w"
  using assms by (auto simp: rt_scheduler_event_def encoded_as_def elim!: rt_payload_event_Ok)

lemma spawn_events_Ok:
  assumes "spawn_events h r parent child w = (Ok new, w')"
  obtains created charged related where "new = [created, charged, related]" "w_service w' = w_service w"
    "event_run created = r" "event_knd created = AgentCreated child"
    "list_all2 (encoded_as r scheduler_event (sched_encode_transition (os_windows h)))
      [UsageRecorded parent one_child, ChildSpawned parent (agent_ident child)] [charged, related]"
proof -
  from assms obtain created w1 charged w2 related w3 where
    created: "rt_event h r (AgentCreated child) w = (Ok created, w1)"
    and charged: "rt_scheduler_event h r (UsageRecorded parent one_child) w1 = (Ok charged, w2)"
    and related: "rt_scheduler_event h r (ChildSpawned parent (agent_ident child)) w2 = (Ok related, w3)"
    and "new = [created, charged, related]" "w' = w3"
    by (auto simp: spawn_events_def)
  with that rt_event_Ok [OF created] scheduler_event_encoded [OF charged] scheduler_event_encoded [OF related]
  show ?thesis by simp
qed

lemma encoded_as_run: "list_all2 (encoded_as r wrap enc) ts evs \<Longrightarrow> \<forall>ev \<in> set evs. event_run ev = r"
  by (auto simp: list_all2_conv_all_nth in_set_conv_nth encoded_as_def)

text \<open>What a spawn leaves, with or without a profile: the batch and the tree of agents.\<close>

lemma adopted_synced:
  assumes adopt: "adopt h parent (agent_ident child) (run_log r (w_service w)) w = (Ok c, w0)"
    and new: "spawn_events h r parent child w1 = (Ok new, w2)" and extra: "\<forall>ev \<in> set extra. event_run ev = r \<and>
      select_scheduler (event_knd ev) = None"
    and same: "w_service w3 = w_service w" and ap: "append_validated_batch (new @ extra) w3 = (Ok (), w')"
    and parent: "parent \<in> agents_logged r (w_service w)"
  shows "sched_from_events (os_windows h) (run_log r (w_service w')) = Ok c"
    "run_log r (w_service w') = run_log r (w_service w) @ new @ extra"
    "agent_ident child \<in> set (agent_ids new)"
proof -
  let ?win = "os_windows h" and ?evs = "run_log r (w_service w)"
  from new obtain created charged related where evs: "new = [created, charged, related]"
    and created: "event_run created = r" "event_knd created = AgentCreated child"
    and enc: "list_all2 (encoded_as r scheduler_event (sched_encode_transition ?win))
      [UsageRecorded parent one_child, ChildSpawned parent (agent_ident child)] [charged, related]"
    by (rule spawn_events_Ok)
  from adopt obtain c0 where c0: "sched_from_events ?win ?evs = Ok c0"
    and steps: "try_fold (\<lambda>c t. commit (sched_apply ?win t c)) c0
      [UsageRecorded parent one_child, ChildSpawned parent (agent_ident child)] = Ok c"
    by (auto simp: adopt_def)
  have runs: "\<forall>ev \<in> set (new @ extra). event_run ev = r"
    using encoded_as_run [OF enc] created extra by (simp add: evs)
  show log: "run_log r (w_service w') = ?evs @ new @ extra"
    using append_validated_batch_log(1) [OF ap runs] same by simp
  show child: "agent_ident child \<in> set (agent_ids new)"
    by (simp add: evs agent_ids_def map_filter_def created)
  have "sched_from_events ?win (?evs @ [created]) = Ok c0"
    by (rule sched_other) (simp_all add: created c0)
  then have "sched_from_events ?win ((?evs @ [created]) @ [charged, related]) = Ok c"
    using steps enc
  proof (rule sched_many_more, intro ballI conjI)
    fix t assume t: "t \<in> set [UsageRecorded parent one_child, ChildSpawned parent (agent_ident child)]"
    then show "replayable ?win t" by auto
    from t have "set (agent_references t) \<subseteq> {parent, agent_ident child}" by auto
    also have "\<dots> \<subseteq> set (agent_ids ((?evs @ [created]) @ [charged, related]))"
      using parent child by (auto simp: agents_logged_def evs agent_ids_def map_filter_def created)
    finally show "set (agent_references t) \<subseteq> set (agent_ids ((?evs @ [created]) @ [charged, related]))" .
  qed
  then have "sched_from_events ?win (?evs @ new) = Ok c" by (simp add: evs)
  then have "sched_from_events ?win ((?evs @ new) @ extra) = Ok c"
    using extra
  proof (induction extra rule: rev_induct)
    case (snoc ev extra)
    then show ?case using sched_other [where ev = ev and evs = "(?evs @ new) @ extra" and win = ?win and c = c] by simp
  qed simp
  with log show "sched_from_events ?win (run_log r (w_service w')) = Ok c" by simp
qed

lemma adopt_world: "adopt h parent child evs w = (Ok c, w') \<Longrightarrow> w' = w"
  by (auto simp: adopt_def)

lemma spawn_agent_synced:
  assumes "spawn_agent h r parent child w = (Ok (), w')"
  shows "sched_from_events (os_windows h) (run_log r (w_service w')) = Ok (sv_scheduler (w_service w'))"
proof -
  from assms obtain st c new w0 w1 w2 where
    st: "es_reconstruct r (sv_store (w_service w)) = Ok st" "bm_contains_key (rs_agents st) parent"
    and adopt: "adopt h parent (agent_ident child) (run_log r (w_service w)) w = (Ok c, w0)"
    and new0: "spawn_events h r parent child w0 = (Ok new, w1)"
    and ap: "append_validated_batch new w1 = (Ok (), w2)"
    and w': "w' = w2\<lparr>w_service := (w_service w2)\<lparr>sv_scheduler := c\<rparr>\<rparr>"
    by (auto simp: spawn_agent_def rt_reconstruct_Ok check_child_def require_agent_def)
  note new = new0 [unfolded adopt_world [OF adopt]]
  have same: "w_service w1 = w_service w" using new by (rule spawn_events_Ok)
  from adopted_synced(1) [OF adopt new _ same, of "[]" w2] ap require_agent_logged [OF st] show ?thesis
    by (simp add: w' run_log_update)
qed

lemma spawn_specialist_synced:
  assumes "spawn_specialist h r parent child p w = (Ok (), w')" and "specialist_utf8 (SpecialistRegistered p)"
  shows "sched_from_events (os_windows h) (run_log r (w_service w')) = Ok (sv_scheduler (w_service w'))"
    "sp_from_events (run_log r (w_service w')) = Ok (sv_specialists (w_service w'))"
proof -
  let ?evs = "run_log r (w_service w)"
  from assms(1) obtain st c g g' new ev w0 w1 w2 w3 where p: "sp_agent p = agent_ident child"
    and st: "es_reconstruct r (sv_store (w_service w)) = Ok st" "bm_contains_key (rs_agents st) parent"
    and adopt: "adopt h parent (agent_ident child) ?evs w = (Ok c, w0)"
    and g: "sp_from_events ?evs = Ok g" "sp_apply (SpecialistRegistered p) g = (Ok (), g')"
    and new0: "spawn_events h r parent child w0 = (Ok new, w1)"
    and ev: "rt_payload_event h r specialist_event RtSpecialist (sp_encode_transition (SpecialistRegistered p)) w1
      = (Ok ev, w2)"
    and ap: "append_validated_batch (new @ [ev]) w2 = (Ok (), w3)"
    and w': "w' = w3\<lparr>w_service := (w_service w3)\<lparr>sv_scheduler := c, sv_specialists := g'\<rparr>\<rparr>"
    by (auto simp: spawn_specialist_def rt_reconstruct_Ok check_child_def require_agent_def commit_Ok_iff
        simp del: sp_apply.simps sp_encode_transition.simps)
  note new = new0 [unfolded adopt_world [OF adopt]]
  from ev obtain bs where enc: "sp_encode_transition (SpecialistRegistered p) = Ok bs" "w_service w2 = w_service w1"
      "event_run ev = r" "event_knd ev = specialist_event bs"
    by (rule rt_payload_event_Ok)
  from new obtain a b d where evs: "new = [a, b, d]" and w1: "w_service w1 = w_service w"
    and a: "event_knd a = AgentCreated child"
    and bd: "list_all2 (encoded_as r scheduler_event (sched_encode_transition (os_windows h)))
      [UsageRecorded parent one_child, ChildSpawned parent (agent_ident child)] [b, d]"
    by (rule spawn_events_Ok)
  note sync = adopted_synced [OF adopt new _ _ ap require_agent_logged [OF st], of, simplified]
  have log: "run_log r (w_service w3) = ?evs @ new @ [ev]"
    and sched: "sched_from_events (os_windows h) (run_log r (w_service w3)) = Ok c"
    and child: "agent_ident child \<in> set (agent_ids new)"
    using sync enc w1 by auto
  show "sched_from_events (os_windows h) (run_log r (w_service w')) = Ok (sv_scheduler (w_service w'))"
    using sched by (simp add: w' run_log_def)
  have "sp_from_events (?evs @ [a]) = Ok g" by (rule sp_other) (simp_all add: a g)
  then have "sp_from_events ((?evs @ [a]) @ [b]) = Ok g"
    by (rule sp_other [rotated]) (use bd in \<open>auto simp: encoded_as_def\<close>)
  then have "sp_from_events (((?evs @ [a]) @ [b]) @ [d]) = Ok g"
    by (rule sp_other [rotated]) (use bd in \<open>auto simp: encoded_as_def\<close>)
  then have "sp_from_events ((?evs @ new) @ [ev]) = Ok g'"
    by (intro sp_one_more [OF _ enc(1) assms(2) enc(4) g(2)]) (use child p in \<open>simp_all add: evs\<close>)
  then show "sp_from_events (run_log r (w_service w')) = Ok (sv_specialists (w_service w'))"
    using log by (simp add: w' run_log_def)
qed

section \<open>Cancelling\<close>

lemma release_all_Ok:
  assumes "release_all h r a rs c w = (Ok (evs, c'), w')"
  shows "w_service w' = w_service w \<and>
    list_all2 (encoded_as r scheduler_event (sched_encode_transition (os_windows h))) (map (OwnershipReleased a) rs) evs \<and>
    try_fold (\<lambda>c t. commit (sched_apply (os_windows h) t c)) c (map (OwnershipReleased a) rs) = Ok c'"
  using assms
proof (induction rs arbitrary: c w evs)
  case (Cons x rs)
  from Cons.prems obtain c1 ev w1 evs1 where
    step: "commit (sched_apply (os_windows h) (OwnershipReleased a x) c) = Ok c1"
    and ev: "rt_scheduler_event h r (OwnershipReleased a x) w = (Ok ev, w1)"
    and rest: "release_all h r a rs c1 w1 = (Ok (evs1, c'), w')" and "evs = ev # evs1"
    by (auto simp del: sched_apply.simps)
  with Cons.IH [OF rest] scheduler_event_encoded [OF ev] show ?case by (simp del: sched_apply.simps)
qed simp

text \<open>
  Whatever the log holds, the claims of a recovered scheduler are the normal forms of UTF-8 strings: a
  payload decodes to nothing else, and \<open>apply\<close> stores the normal form.
\<close>

lemma rd_bind_Ok: "rd_bind q f c = Ok y \<longleftrightarrow> (\<exists>x c'. q c = Ok (x, c') \<and> f x c' = Ok y)"
  by (auto simp: rd_bind_def split: result.splits)

lemma rd_lift_Ok: "rd_lift v c = Ok y \<longleftrightarrow> (\<exists>x. v = Ok x \<and> y = (x, c))"
  by (auto simp: rd_lift_def split: result.splits)

lemma sched_resource_utf8: "sched_resource c = Ok (x, c') \<Longrightarrow> is_utf8 x"
  by (auto simp: sched_resource_def rd_bind_Ok read_utf8_def rd_lift_Ok rd_fail_def Let_def
      dest!: from_utf8_SomeD split: if_splits)

lemma decoded_utf8:
  assumes "sched_decode_transition v p = Ok t"
  shows "sched_utf8 t"
proof -
  from assms obtain c where "sched_read_transition (new_cursor p) = Ok (t, c)"
    by (auto simp: sched_decode_transition_def read_all_def split: if_splits)
  then show ?thesis
    by (auto simp: sched_read_transition_def rd_bind_Ok rd_return_def rd_fail_def split: if_splits
        dest: sched_resource_utf8)
qed

definition claims_normal :: "bool \<Rightarrow> scheduler_state \<Rightarrow> bool" where
  "claims_normal win c \<longleftrightarrow> (\<forall>x. bm_contains_key (ownership c) x \<longrightarrow>
     is_utf8 x \<and> (\<exists>y. canonical_scheduler_resource win y = Ok x))"

lemma claims_normal_step:
  assumes "claims_normal win c" and "sched_utf8 t" and "sched_apply win t c = (Ok (), c')"
  shows "claims_normal win c'"
proof (cases t)
  case (OwnershipClaimed a r)
  with assms(3) obtain k where "canonical_scheduler_resource win r = Ok k"
    and "c' = c\<lparr>ownership := bm_insert k a (ownership c)\<rparr> \<or> c' = c"
    by (auto split: result.splits option.splits if_splits)
  moreover from this(1) have "is_utf8 k"
    using assms(2) OwnershipClaimed canonical_scheduler_resource_OkD canonical_resource_utf8 by fastforce
  ultimately show ?thesis using assms(1) by (auto simp: claims_normal_def)
next
  case (OwnershipReleased a r)
  with assms(3) obtain k where "c' = c\<lparr>ownership := bm_remove k (ownership c)\<rparr>"
    by (auto split: result.splits if_splits)
  with assms(1) show ?thesis by (auto simp: claims_normal_def split: if_splits)
qed (use assms in \<open>auto simp: claims_normal_def Let_def split: option.splits result.splits if_splits\<close>)

lemma recovered_claims_normal:
  assumes "sched_from_events win evs = Ok c"
  shows "claims_normal win c"
proof -
  have "claims_normal win c"
    if "replay select_scheduler sched_decode_transition (recover_step win ids) s es = Ok c" "claims_normal win s"
    for ids s es
    using that
  proof (induction es arbitrary: s)
    case (Cons ev es)
    show ?case
    proof (cases "select_scheduler (event_knd ev)")
      case None
      with Cons show ?thesis by simp
    next
      case (Some vp)
      with Cons.prems(1) obtain t s1 where t: "sched_decode_transition (fst vp) (snd vp) = Ok t"
        and step: "recover_step win ids t s = Ok s1"
        and rest: "replay select_scheduler sched_decode_transition (recover_step win ids) s1 es = Ok c"
        by (auto split: prod.splits)
      from step have "sched_apply win t s = (Ok (), s1)" by (auto simp: recover_step_def commit_Ok_iff)
      from Cons.IH [OF rest claims_normal_step [OF Cons.prems(2) decoded_utf8 [OF t] this]] show ?thesis .
    qed
  qed simp
  from this [OF assms [unfolded sched_from_events_def]] show ?thesis
    by (simp add: claims_normal_def scheduler_default_def)
qed

text \<open>A stored claim is released under the name it is stored by.\<close>

lemma release_stored:
  assumes norm: "claims_normal win c" and x: "bm_contains_key (ownership c) x"
    and step: "sched_apply win (OwnershipReleased a x) c = (Ok (), c')"
  shows "c' = c\<lparr>ownership := bm_remove x (ownership c)\<rparr>" "claims_normal win c'"
    "replayable win (OwnershipReleased a x)"
proof -
  from step obtain k where k: "canonical_scheduler_resource win x = Ok k"
    and c': "c' = c\<lparr>ownership := bm_remove k (ownership c)\<rparr>"
    by (auto split: result.splits if_splits)
  from norm x obtain y where utf8: "is_utf8 x" and y: "canonical_scheduler_resource win y = Ok x"
    unfolding claims_normal_def by blast
  from k have visible: "\<not> trim_is_empty x"
    by (auto simp: canonical_scheduler_resource_def sched_validate_resource_def split: if_splits)
  have "k = x" using canonical_scheduler_resource_idem [OF y visible] k by simp
  with k c' utf8 visible show "c' = c\<lparr>ownership := bm_remove x (ownership c)\<rparr>"
    "replayable win (OwnershipReleased a x)" by simp_all
  show "claims_normal win c'"
    by (rule claims_normal_step [OF norm _ step]) (simp add: utf8)
qed

lemma release_stored_all:
  assumes "claims_normal win c" and "\<forall>x \<in> set rs. bm_contains_key (ownership c) x" and "distinct rs"
    and "try_fold (\<lambda>c t. commit (sched_apply win t c)) c (map (OwnershipReleased a) rs) = Ok c'"
  shows "c' = c\<lparr>ownership := ownership c'\<rparr> \<and> (\<forall>t \<in> set (map (OwnershipReleased a) rs). replayable win t) \<and>
    (\<forall>x. bm_get (ownership c') x = (if x \<in> set rs then None else bm_get (ownership c) x))"
  using assms
proof (induction rs arbitrary: c)
  case (Cons x rs)
  from Cons.prems(4) obtain c1 where step: "sched_apply win (OwnershipReleased a x) c = (Ok (), c1)"
    and rest: "try_fold (\<lambda>c t. commit (sched_apply win t c)) c1 (map (OwnershipReleased a) rs) = Ok c'"
    by (auto simp: commit_Ok_iff simp del: sched_apply.simps)
  have "bm_contains_key (ownership c) x" using Cons.prems(2) by simp
  note one = release_stored [OF Cons.prems(1) this step]
  have "\<forall>y \<in> set rs. bm_contains_key (ownership c1) y"
    using Cons.prems(2,3) by (auto simp: one(1) bm_contains_key_def)
  from Cons.IH [OF one(2) this _ rest] Cons.prems(3) one(3) show ?case
    by (auto simp: one(1) simp del: replayable.simps)
qed simp

lemma owned_by_iff: "x \<in> set (owned_by c a) \<longleftrightarrow> bm_get (ownership c) x = Some a"
  by (force simp: owned_by_def bm.entries_get)

lemma owned_by_distinct: "distinct (owned_by c a)"
proof -
  have "distinct (map fst (bm_entries (ownership c)))" by (rule bm.entries_distinct)
  then show ?thesis unfolding owned_by_def by (rule distinct_map_filter)
qed

lemma cancel_agent_Ok:
  assumes "cancel_agent h r a w = (Ok (), w')"
  obtains st g c c' cancelled released w1 w2 where
    "es_reconstruct r (sv_store (w_service w)) = Ok st" "bm_get (rs_agents st) a = Some g"
    "\<not> agent_ended (ag_status g)"
    "sched_from_events (os_windows h) (run_log r (w_service w)) = Ok c"
    "event_run cancelled = r" "event_knd cancelled = ModelCancelled a"
    "list_all2 (encoded_as r scheduler_event (sched_encode_transition (os_windows h)))
       (map (OwnershipReleased a) (owned_by c a)) released"
    "try_fold (\<lambda>c t. commit (sched_apply (os_windows h) t c)) c (map (OwnershipReleased a) (owned_by c a)) = Ok c'"
    "w_service w1 = w_service w" "append_validated_batch (cancelled # released) w1 = (Ok (), w2)"
    "w' = w2\<lparr>w_service := (w_service w2)\<lparr>sv_scheduler := c'\<rparr>\<rparr>"
proof -
  from assms obtain st g c cancelled w0 released c' w1 w2 where
    st: "es_reconstruct r (sv_store (w_service w)) = Ok st" "bm_get (rs_agents st) a = Some g"
      "\<not> agent_ended (ag_status g)"
      "sched_from_events (os_windows h) (run_log r (w_service w)) = Ok c"
    and ev: "rt_event h r (ModelCancelled a) w = (Ok cancelled, w0)"
    and rel: "release_all h r a (owned_by c a) c w0 = (Ok (released, c'), w1)"
    and ap: "append_validated_batch (cancelled # released) w1 = (Ok (), w2)"
    and w': "w' = w2\<lparr>w_service := (w_service w2)\<lparr>sv_scheduler := c'\<rparr>\<rparr>"
    by (auto simp: cancel_agent_def rt_reconstruct_Ok get_agent_def)
  show ?thesis
    by (rule that [OF st _ _ _ _ _ ap w']) (use rt_event_Ok [OF ev] release_all_Ok [OF rel] in simp_all)
qed

lemma cancel_synced:
  assumes "cancel_agent h r a w = (Ok (), w')"
  shows "sched_from_events (os_windows h) (run_log r (w_service w')) = Ok (sv_scheduler (w_service w'))"
proof -
  let ?evs = "run_log r (w_service w)"
  from assms obtain st g c c' cancelled released w1 w2 where
    st: "es_reconstruct r (sv_store (w_service w)) = Ok st" "bm_get (rs_agents st) a = Some g"
    and c: "sched_from_events (os_windows h) ?evs = Ok c"
    and ev: "event_run cancelled = r" "event_knd cancelled = ModelCancelled a"
    and enc: "list_all2 (encoded_as r scheduler_event (sched_encode_transition (os_windows h)))
       (map (OwnershipReleased a) (owned_by c a)) released"
    and steps: "try_fold (\<lambda>c t. commit (sched_apply (os_windows h) t c)) c
       (map (OwnershipReleased a) (owned_by c a)) = Ok c'"
    and w1: "w_service w1 = w_service w" and ap: "append_validated_batch (cancelled # released) w1 = (Ok (), w2)"
    and w': "w' = w2\<lparr>w_service := (w_service w2)\<lparr>sv_scheduler := c'\<rparr>\<rparr>"
    by (rule cancel_agent_Ok) blast
  have runs: "\<forall>e \<in> set (cancelled # released). event_run e = r" using ev encoded_as_run [OF enc] by simp
  have log: "run_log r (w_service w2) = (?evs @ [cancelled]) @ released"
    using append_validated_batch_log(1) [OF ap runs] w1 by simp
  have known: "a \<in> set (agent_ids ?evs)"
    using require_agent_logged [OF st(1)] st(2) by (simp add: bm_contains_key_def agents_logged_def)
  have replay: "\<forall>t \<in> set (map (OwnershipReleased a) (owned_by c a)). replayable (os_windows h) t"
    using release_stored_all [OF recovered_claims_normal [OF c] _ owned_by_distinct steps]
    by (simp add: owned_by_iff bm_contains_key_def del: replayable.simps)
  have "sched_from_events (os_windows h) (?evs @ [cancelled]) = Ok c"
    by (rule sched_other) (simp_all add: ev c)
  then have "sched_from_events (os_windows h) ((?evs @ [cancelled]) @ released) = Ok c'"
    by (rule sched_many_more [OF _ steps enc]) (use replay known in auto)
  with log show ?thesis by (simp add: w' run_log_update)
qed

section \<open>Publishing\<close>

text \<open>The conflict identifiers of a publication that returns come from one prefix and are distinct.\<close>

lemma allocated_ids:
  assumes "list_all is_ok (fst (allocate_ids e n s))"
  shows "\<exists>p. fst (allocate_ids e n s) = map (\<lambda>i. Ok (durable_id p (next_id s + of_nat i))) [0..<n] \<and>
    (n = 0 \<or> unat (next_id s) + n < 2 ^ 32) \<and> (id_prefix s = None \<or> id_prefix s = Some p)"
  using assms
proof (induction n arbitrary: s)
  case 0
  then show ?case by (cases "id_prefix s") auto
next
  case (Suc n)
  let ?p = "case id_prefix s of Some p \<Rightarrow> p | None \<Rightarrow> fresh_prefix e"
  let ?s = "s\<lparr>id_prefix := Some ?p, next_id := next_id s + 1\<rparr>"
  have max: "next_id s \<noteq> - 1"
    using Suc.prems by (auto simp: new_durable_id_def Let_def split: prod.splits)
  then have step: "new_durable_id e s = (Ok (durable_id ?p (next_id s)), ?s)"
    by (simp add: new_durable_id_def durable_id_def Let_def)
  from Suc.prems step have "list_all is_ok (fst (allocate_ids e n ?s))"
    by (simp add: split_beta)
  from Suc.IH [OF this] have IH: "fst (allocate_ids e n ?s)
      = map (\<lambda>i. Ok (durable_id ?p (next_id s + 1 + of_nat i))) [0..<n]"
    and bound: "n = 0 \<or> unat (next_id s + 1) + n < 2 ^ 32" by auto
  have less: "Suc (unat (next_id s)) < 2 ^ 32"
  proof -
    have "unat (next_id s) < 2 ^ 32" using unsigned_less [of "next_id s", where 'a = nat] by simp
    moreover have "unat (next_id s) \<noteq> unat (- 1 :: u32)" using max by (simp add: word_unat_eq_iff)
    ultimately show ?thesis using unat_max_word [where 'a = 32] by simp
  qed
  then have "unat (next_id s + 1) = Suc (unat (next_id s))" by (simp add: unat_word_ariths)
  with bound less have "unat (next_id s) + Suc n < 2 ^ 32" by auto
  moreover have "[0..<Suc n] = 0 # map Suc [0..<n]" by (simp add: upt_conv_Cons map_Suc_upt del: upt_Suc)
  ultimately show ?case
    using step IH by (intro exI [of _ ?p]) (auto simp: split_beta o_def add.assoc split: option.split)
qed

lemma allocate_prefix:
  "k \<le> n \<Longrightarrow> fst (allocate_ids e k s) = take k (fst (allocate_ids e n s))"
proof (induction n arbitrary: k s)
  case (Suc n)
  show ?case
  proof (cases k)
    case (Suc j)
    with Suc.prems have "j \<le> n" by simp
    from Suc.IH [OF this, of "snd (new_durable_id e s)"] \<open>k = Suc j\<close> show ?thesis by (simp add: split_beta)
  qed simp
qed simp

lemma fresh_ids_distinct:
  assumes "list_all is_ok (fst (allocate_ids (os_entropy h) n ids))"
  shows "inj_on (fresh_id h ids) {..<n}"
proof -
  from allocated_ids [OF assms] obtain p where
    ids: "fst (allocate_ids (os_entropy h) n ids) = map (\<lambda>i. Ok (durable_id p (next_id ids + of_nat i))) [0..<n]"
    and bound: "n = 0 \<or> unat (next_id ids) + n < 2 ^ 32" by blast
  have at: "fresh_id h ids k = durable_id p (next_id ids + of_nat k)" if "k < n" for k
  proof -
    have "fst (allocate_ids (os_entropy h) (Suc k) ids) =
        take (Suc k) (map (\<lambda>i. Ok (durable_id p (next_id ids + of_nat i))) [0..<n])"
      using that allocate_prefix [of "Suc k" n "os_entropy h" ids] ids by (simp del: allocate_ids.simps)
    then show ?thesis using that by (simp add: fresh_id_def del: allocate_ids.simps)
  qed
  show ?thesis
  proof (rule inj_onI)
    fix j k assume jk: "j \<in> {..<n}" "k \<in> {..<n}" "fresh_id h ids j = fresh_id h ids k"
    then have "of_nat j = (of_nat k :: u32)" by (simp add: at durable_id_inject)
    then have "unat (of_nat j :: u32) = unat (of_nat k :: u32)" by simp
    then show "j = k" using jk(1,2) bound by (simp add: unsigned_of_nat take_bit_nat_eq_self)
  qed
qed

definition publishable :: "host \<Rightarrow> assumption \<Rightarrow> runtime_world \<Rightarrow> bool" where
  "publishable h a w \<longleftrightarrow> (\<forall>g p g'. graph_from_events (run_log (asm_run a) (w_service w)) = Ok g \<longrightarrow>
     publish (os_lower h) (fresh_id h (w_ids w)) a g = (Ok p, g') \<longrightarrow>
     list_all transition_is_utf8 (pub_transitions p) \<and>
     (\<forall>k < length (pub_conflicts p). bm_get (graph_conflicts g) (fresh_id h (w_ids w) k) = None))"

lemma leaves_deliver_each: "leaves (\<lambda>s. (sv_store s, sv_assumptions s)) (deliver_each ns)"
proof -
  have "leaves (\<lambda>s. (sv_store s, sv_assumptions s)) (rt_update (\<lambda>s. s\<lparr>sv_mailboxes := m s\<rparr>))" for m
    by (simp add: leaves_def rt_update_def)
  then show ?thesis
    unfolding open_mailbox_def deliver_def Let_def
    by (intro frame_intros) (auto intro!: frame_intros split: option.split prod.split)
qed

lemma graph_other: "select_assumption (event_knd ev) = None \<Longrightarrow> graph_from_events (evs @ [ev]) = graph_from_events evs"
  by (simp add: graph_from_events_def asm.replay_other)

lemma publish_synced:
  assumes "publish_assumption h a w = (Ok p, w')" and "publishable h a w"
  shows "graph_from_events (run_log (asm_run a) (w_service w')) = Ok (sv_assumptions (w_service w'))"
proof -
  let ?r = "asm_run a" and ?evs = "run_log (asm_run a) (w_service w)"
  from assms(1) obtain st g g' claims msgs w1 w2 us where pub: "published h a w st g p g' claims msgs"
    and w1: "w_service w1 = w_service w" and ap: "append_validated_batch (claims @ map fst msgs) w1 = (Ok (), w2)"
    and del: "deliver_each (map snd msgs) (w2\<lparr>w_service := (w_service w2)\<lparr>sv_assumptions := g'\<rparr>\<rparr>) = (Ok us, w')"
    by (rule publish_assumption_Ok)
  from pub have g: "graph_from_events ?evs = Ok g"
    and run: "publish (os_lower h) (fresh_id h (w_ids w)) a g = (Ok p, g')"
    and claims: "list_all2 (encoded_as ?r assumption_event asm_encode_transition) (pub_transitions p) claims"
    and ids: "inj_on (fresh_id h (w_ids w)) {..<length (pub_conflicts p)}"
    and told: "list_all2 (\<lambda>(c, b) n. notice_of ?r (map event_ident claims) g' c b (snd n) \<and>
       encoded_as ?r message_event envelope_encode (snd n) (fst n)) (recipients (pub_conflicts p)) msgs"
    unfolding published_def by (simp_all add: fresh_ids_distinct)
  have msgs: "\<forall>n \<in> set msgs. event_run (fst n) = ?r \<and> (\<exists>bs. event_knd (fst n) = message_event bs)"
  proof
    fix n assume "n \<in> set msgs"
    then obtain i where "i < length msgs" "msgs ! i = n" by (auto simp: in_set_conv_nth)
    with told have "\<exists>x. encoded_as ?r message_event envelope_encode x (fst n)"
      by (auto simp: list_all2_conv_all_nth split_beta)
    then show "event_run (fst n) = ?r \<and> (\<exists>bs. event_knd (fst n) = message_event bs)"
      by (auto simp: encoded_as_def)
  qed
  from assms(2) g run have utf8: "\<forall>t \<in> set (pub_transitions p). transition_is_utf8 t"
    and new: "\<forall>k < length (pub_conflicts p). bm_get (graph_conflicts g) (fresh_id h (w_ids w) k) = None"
    by (auto simp: publishable_def list_all_iff)
  have wf: "graph_wf g" using g graph_wf_new asm.replay_inv by (simp add: graph_from_events_def)
  have runs: "\<forall>ev \<in> set (claims @ map fst msgs). event_run ev = ?r" using encoded_as_run [OF claims] msgs by auto
  have "run_log ?r (w_service w2) = ?evs @ claims @ map fst msgs"
    using append_validated_batch_log(1) [OF ap runs] w1 by simp
  with leavesD [OF leaves_deliver_each del]
  have log: "run_log ?r (w_service w') = ?evs @ claims @ map fst msgs" and sv: "sv_assumptions (w_service w') = g'"
    by (simp_all add: run_log_def)
  have "graph_from_events (?evs @ claims) = try_fold (\<lambda>g t. commit (asm_apply t g)) g (pub_transitions p)"
    using g claims utf8 unfolding graph_from_events_def
    by (simp add: asm.replay_append) (rule asm.replay_many_more; auto simp: encoded_as_def elim!: list_all2_mono)
  also have "\<dots> = Ok g'" using publication_replays [OF run wf ids new] .
  finally have "graph_from_events ((?evs @ claims) @ map fst msgs) = Ok g'"
    using msgs
  proof (induction msgs rule: rev_induct)
    case (snoc n ns)
    then show ?case using graph_other [where ev = "fst n" and evs = "(?evs @ claims) @ map fst ns"] by auto
  qed simp
  with log sv show ?thesis by simp
qed

end
