(* ===== verification/Runtime_Recovered.thy ===== *)
theory Runtime_Recovered
  imports Runtime_Sync
begin

text \<open>
  What the calls of the runtime service mean for recovery: the projection a call sets is the one recovery
  would compute, a cancelled agent holds nothing, and the one call that spoils its run for ever.
\<close>

section \<open>Which projection a call sets\<close>

fun set_from_log :: "host \<Rightarrow> command \<Rightarrow> runtime_service \<Rightarrow> bool" where
  "set_from_log h (RecordTool r t) s \<longleftrightarrow> tool_records_from_events (run_log r s) = Ok (sv_tools s)"
| "set_from_log h (RecordFailure r f) s \<longleftrightarrow> fm_from_events (run_log r s) = Ok (sv_failures s)"
| "set_from_log h (ResolveFailure r i) s \<longleftrightarrow> fm_from_events (run_log r s) = Ok (sv_failures s)"
| "set_from_log h (GrantCapability r l) s \<longleftrightarrow> policy_from_events (run_log r s) = Ok (sv_capabilities s)"
| "set_from_log h (RevokeCapability r a t d x) s \<longleftrightarrow> policy_from_events (run_log r s) = Ok (sv_capabilities s)"
| "set_from_log h (PublishAssumption a) s \<longleftrightarrow> graph_from_events (run_log (asm_run a) s) = Ok (sv_assumptions s)"
| "set_from_log h (ConfigureBudget r a l) s \<longleftrightarrow> sched_from_events (os_windows h) (run_log r s) = Ok (sv_scheduler s)"
| "set_from_log h (TransferBudget r a b l) s \<longleftrightarrow> sched_from_events (os_windows h) (run_log r s) = Ok (sv_scheduler s)"
| "set_from_log h (RecordUsage r a u) s \<longleftrightarrow> sched_from_events (os_windows h) (run_log r s) = Ok (sv_scheduler s)"
| "set_from_log h (RecordHealth r a g) s \<longleftrightarrow> sched_from_events (os_windows h) (run_log r s) = Ok (sv_scheduler s)"
| "set_from_log h (ClaimOwnership r a x) s \<longleftrightarrow> sched_from_events (os_windows h) (run_log r s) = Ok (sv_scheduler s)"
| "set_from_log h (ReleaseOwnership r a x) s \<longleftrightarrow> sched_from_events (os_windows h) (run_log r s) = Ok (sv_scheduler s)"
| "set_from_log h (SpawnAgent r a child) s \<longleftrightarrow> sched_from_events (os_windows h) (run_log r s) = Ok (sv_scheduler s)"
| "set_from_log h (SpawnSpecialist r a child p) s \<longleftrightarrow>
     sched_from_events (os_windows h) (run_log r s) = Ok (sv_scheduler s) \<and>
     sp_from_events (run_log r s) = Ok (sv_specialists s)"
| "set_from_log h (CancelAgent r a) s \<longleftrightarrow> sched_from_events (os_windows h) (run_log r s) = Ok (sv_scheduler s)"
| "set_from_log h _ s \<longleftrightarrow> True"

text \<open>
  The texts of the arguments are UTF-8, as every Rust string is; a claimed or released resource has a
  visible normal form; the conflict identifiers of a publication are new to the run.
\<close>

fun representable :: "host \<Rightarrow> command \<Rightarrow> runtime_world \<Rightarrow> bool" where
  "representable h (RecordTool r t) w \<longleftrightarrow> tool_transition_utf8 t"
| "representable h (RecordFailure r f) w \<longleftrightarrow> failure_utf8 (FailureRecorded f)"
| "representable h (GrantCapability r l) w \<longleftrightarrow> transition_utf8 (Granted l)"
| "representable h (RevokeCapability r a t d x) w \<longleftrightarrow> transition_utf8 (Revoked a t d x)"
| "representable h (PublishAssumption a) w \<longleftrightarrow> publishable h a w"
| "representable h (ClaimOwnership r a x) w \<longleftrightarrow> replayable (os_windows h) (OwnershipClaimed a x)"
| "representable h (ReleaseOwnership r a x) w \<longleftrightarrow> replayable (os_windows h) (OwnershipReleased a x)"
| "representable h (SpawnSpecialist r a child p) w \<longleftrightarrow> specialist_utf8 (SpecialistRegistered p)"
| "representable h _ w \<longleftrightarrow> True"

text \<open>A scheduler call: the checks on agents, then the transition.\<close>

lemma checked_scheduler_synced:
  assumes "es_reconstruct r (sv_store (w_service w)) = Ok st"
    and "\<forall>a \<in> set (agent_references t). bm_contains_key (rs_agents st) a"
    and "commit_scheduler h r t w = (Ok (), w')" and "replayable (os_windows h) t"
  shows "sched_from_events (os_windows h) (run_log r (w_service w')) = Ok (sv_scheduler (w_service w'))"
  using assms(3,4) by (rule scheduler_synced) (use assms(1,2) require_agent_logged in blast)

lemma require_task_world: "require_task what t st w = (Ok u, w') \<Longrightarrow> w' = w"
  by (auto simp: require_task_def split: option.splits)

lemmas checked_call_simps = rt_reconstruct_Ok require_agent_def get_agent_def bm_contains_key_def

lemma call_sets_from_log:
  assumes "run_command h cmd w = (Ok (), w')" and "representable h cmd w"
  shows "set_from_log h cmd (w_service w')"
proof (cases cmd)
  case (RecordTool r t)
  with assms show ?thesis by (simp add: tool_synced)
next
  case (RecordFailure r f)
  with assms show ?thesis
    by (auto simp: record_failure_def checked_call_simps intro: failure_synced
        simp del: failure_utf8.simps dest!: require_task_world)
next
  case (ResolveFailure r i)
  with assms show ?thesis by (auto simp: resolve_failure_def checked_call_simps intro: failure_synced)
next
  case (GrantCapability r l)
  with assms show ?thesis
    by (auto simp: grant_capability_def checked_call_simps intro: capability_synced dest!: require_task_world)
next
  case (RevokeCapability r a t d x)
  with assms show ?thesis
    by (auto simp: revoke_capability_def checked_call_simps intro: capability_synced)
next
  case (PublishAssumption a)
  with assms show ?thesis by (auto simp: rt_ignore_def intro: publish_synced)
next
  case (ConfigureBudget r a l)
  with assms(1) show ?thesis
    by (auto simp: configure_budget_def checked_call_simps intro!: checked_scheduler_synced)
next
  case (TransferBudget r a b l)
  with assms(1) show ?thesis
    by (auto simp: transfer_budget_def checked_call_simps intro!: checked_scheduler_synced)
next
  case (RecordUsage r a u)
  with assms(1) show ?thesis
    by (auto simp: record_agent_usage_def checked_call_simps intro!: checked_scheduler_synced)
next
  case (RecordHealth r a g)
  with assms(1) show ?thesis
    by (auto simp: record_health_signal_def checked_call_simps intro!: checked_scheduler_synced)
next
  case (ClaimOwnership r a x)
  with assms show ?thesis
    by (auto simp: claim_ownership_def checked_call_simps intro!: checked_scheduler_synced simp del: replayable.simps)
next
  case (ReleaseOwnership r a x)
  with assms show ?thesis
    by (auto simp: release_ownership_def checked_call_simps intro!: checked_scheduler_synced simp del: replayable.simps)
next
  case (SpawnAgent r a child)
  with assms(1) show ?thesis by (simp add: spawn_agent_synced)
next
  case (SpawnSpecialist r a child p)
  with assms show ?thesis by (auto intro: spawn_specialist_synced simp del: specialist_utf8.simps)
next
  case (CancelAgent r a)
  with assms(1) show ?thesis by (simp add: cancel_synced)
qed simp_all

section \<open>A cancelled agent\<close>

lemma scheduler_events_agents:
  assumes "try_fold apply_event st evs = Ok st'" and "\<forall>ev \<in> set evs. \<exists>bs. event_knd ev = scheduler_event bs"
  shows "rs_agents st' = rs_agents st"
  using assms
proof (induction evs arbitrary: st)
  case (Cons ev evs)
  from Cons.prems obtain st1 bs where st1: "apply_event st ev = Ok st1" "event_knd ev = scheduler_event bs"
    and rest: "try_fold apply_event st1 evs = Ok st'" by auto
  from st1 have "rs_agents st1 = rs_agents st" by (auto elim!: apply_event_Ok)
  with Cons.IH [OF rest] Cons.prems(2) show ?case by simp
qed simp

lemma cancelled_status:
  assumes "try_fold apply_event st (ev # evs) = Ok st'" and "event_knd ev = ModelCancelled a"
    and "\<forall>ev \<in> set evs. \<exists>bs. event_knd ev = scheduler_event bs"
  shows "\<exists>g. bm_get (rs_agents st') a = Some g \<and> ag_status g = AgCancelled"
proof -
  from assms(1) obtain st1 where "apply_event st ev = Ok st1" and rest: "try_fold apply_event st1 evs = Ok st'"
    by auto
  then have "\<exists>g. bm_get (rs_agents st1) a = Some g \<and> ag_status g = AgCancelled"
    using assms(2) by (auto elim!: apply_event_Ok simp: with_agent_def set_status_def)
  with scheduler_events_agents [OF rest assms(3)] show ?thesis by simp
qed

section \<open>A claim that cannot be replayed\<close>

lemma replay_refuses:
  assumes "ev \<in> set evs" and "sel (event_knd ev) = Some (v, p)" and "dec v p = Ok t"
    and "\<And>s. \<not> is_ok (step t s)"
  shows "\<not> is_ok (replay sel dec step s evs)"
  using assms(1)
proof (induction evs arbitrary: s)
  case (Cons e evs)
  show ?case
  proof (cases "e = ev")
    case True
    with assms(2-4) show ?thesis by (cases "step t s") (auto simp: is_ok_iff)
  next
    case False
    with Cons have "\<not> is_ok (replay sel dec step s' evs)" for s' by simp
    then show ?thesis by (auto simp: is_ok_iff split: option.split)
  qed
qed simp

lemma blank_claim_refused:
  assumes ev: "event_knd ev = scheduler_event bs" "ev \<in> set evs"
    and enc: "sched_encode_transition win (OwnershipClaimed a x) = Ok bs" and "is_utf8 x"
    and k: "canonical_scheduler_resource win x = Ok k" "trim_is_empty k"
  shows "\<not> is_ok (sched_from_events win evs)"
proof -
  have "norm_transition win (OwnershipClaimed a x) = OwnershipClaimed a k"
    using canonical_scheduler_resource_OkD [OF k(1)] by (simp add: norm_resource_def)
  then have dec: "sched_decode_transition SCHEDULER_SCHEMA_VERSION bs = Ok (OwnershipClaimed a k)"
    using sched_decode_encode [OF enc] assms(4) by simp
  have "\<not> is_ok (recover_step win ids (OwnershipClaimed a k) s)" for ids s
  proof -
    obtain e where "canonical_scheduler_resource win k = Err e"
      using k(2) by (simp add: canonical_scheduler_resource_def sched_validate_resource_def)
    then show ?thesis
      by (cases "validate_agent_references (OwnershipClaimed a k) ids") (simp_all add: recover_step_def)
  qed
  then show ?thesis
    unfolding sched_from_events_def
    by (intro replay_refuses [where ev = ev and t = "OwnershipClaimed a k" and v = SCHEDULER_SCHEMA_VERSION
          and p = bs]) (simp_all only: ev dec select_scheduler.simps not_False_eq_True)
qed

lemma log_steps_grow: "log_step\<^sup>*\<^sup>* s s' \<Longrightarrow> \<exists>later. st_events s' = st_events s @ later"
proof (induction rule: rtranclp_induct)
  case (step s1 s2)
  then show ?case by (auto elim!: log_stepE dest: batch_grows)
qed simp

lemma claim_Ok:
  assumes "claim_ownership h r a x w = (Ok (), w')"
  obtains ev bs where "run_log r (w_service w') = run_log r (w_service w) @ [ev]"
    "event_knd ev = scheduler_event bs"
    "sched_encode_transition (os_windows h) (OwnershipClaimed a x) = Ok bs"
proof -
  from assms obtain c w1 where
    ap: "rt_append_payload h r scheduler_event RtScheduler
      (sched_encode_transition (os_windows h) (OwnershipClaimed a x)) w = (Ok (), w1)"
    and w': "w' = w1\<lparr>w_service := (w_service w1)\<lparr>sv_scheduler := c\<rparr>\<rparr>"
    by (auto simp: claim_ownership_def commit_scheduler_def rt_reconstruct_Ok get_agent_def
        simp del: sched_apply.simps)
  from ap obtain ev bs where "sched_encode_transition (os_windows h) (OwnershipClaimed a x) = Ok bs"
    "event_knd ev = scheduler_event bs" "run_log r (w_service w1) = run_log r (w_service w) @ [ev]"
    by (rule rt_append_payload_Ok)
  with that w' show ?thesis by (simp add: run_log_update)
qed

lemma recover_needs_scheduler:
  "\<not> is_ok (sched_from_events win (map se_event (es_events r s))) \<Longrightarrow>
     \<not> is_ok (recover_with_resolver win resolver r s)"
  by (auto simp: recover_with_resolver_def Let_def is_ok_iff)

section \<open>Properties\<close>


text \<open>
  C10: a cancelled agent holds nothing. A successful cancellation leaves the agent cancelled in the run
  as it replays, releases every claim of the agent and no other, and touches nothing else of the
  scheduler; the projection the service holds is the one the log gives.
\<close>

theorem cancelled_agent_holds_nothing:
  assumes "cancel_agent h r a w = (Ok (), w')" and "length (st_events (sv_store (w_service w'))) < 2 ^ 64"
  shows "\<exists>c st g. sched_from_events (os_windows h) (run_log r (w_service w)) = Ok c \<and>
    sched_from_events (os_windows h) (run_log r (w_service w')) = Ok (sv_scheduler (w_service w')) \<and>
    es_reconstruct r (sv_store (w_service w')) = Ok st \<and>
    bm_get (rs_agents st) a = Some g \<and> ag_status g = AgCancelled \<and>
    sv_scheduler (w_service w') = c\<lparr>ownership := ownership (sv_scheduler (w_service w'))\<rparr> \<and>
    (\<forall>x. bm_get (ownership (sv_scheduler (w_service w'))) x =
      (if bm_get (ownership c) x = Some a then None else bm_get (ownership c) x))"
proof -
  from assms(1) obtain st g c c' cancelled released w1 w2 where
    c: "sched_from_events (os_windows h) (run_log r (w_service w)) = Ok c"
    and ev: "event_run cancelled = r" "event_knd cancelled = ModelCancelled a"
    and enc: "list_all2 (encoded_as r scheduler_event (sched_encode_transition (os_windows h)))
       (map (OwnershipReleased a) (owned_by c a)) released"
    and steps: "try_fold (\<lambda>c t. commit (sched_apply (os_windows h) t c)) c
       (map (OwnershipReleased a) (owned_by c a)) = Ok c'"
    and w1: "w_service w1 = w_service w" and ap: "append_validated_batch (cancelled # released) w1 = (Ok (), w2)"
    and w': "w' = w2\<lparr>w_service := (w_service w2)\<lparr>sv_scheduler := c'\<rparr>\<rparr>"
    by (rule cancel_agent_Ok) blast
  from ap obtain st0 st1 ns s where "es_reconstruct r (sv_store (w_service w)) = Ok st0"
    and fold: "try_fold apply_event st0 (cancelled # released) = Ok st1"
    and "es_append_batch (cancelled # released) (sv_store (w_service w)) = (Ok ns, s)"
    and "sv_store (w_service w') = s"
    using ev(1) w1 by (auto simp: append_validated_batch_Ok w')
  with assms(2) batch_grows_run have "es_reconstruct r (sv_store (w_service w')) = Ok st1" by blast
  moreover from enc have "\<forall>e \<in> set released. \<exists>bs. event_knd e = scheduler_event bs"
    by (fastforce simp: list_all2_conv_all_nth in_set_conv_nth encoded_as_def)
  then obtain g1 where "bm_get (rs_agents st1) a = Some g1" "ag_status g1 = AgCancelled"
    using cancelled_status [OF fold ev(2)] by blast
  moreover have "c' = c\<lparr>ownership := ownership c'\<rparr>" "\<forall>x. bm_get (ownership c') x =
      (if bm_get (ownership c) x = Some a then None else bm_get (ownership c) x)"
    using release_stored_all [OF recovered_claims_normal [OF c] _ owned_by_distinct steps]
    by (simp_all add: owned_by_iff bm_contains_key_def)
  moreover have "sv_scheduler (w_service w') = c'" by (simp add: w')
  ultimately show ?thesis using c cancel_synced [OF assms(1)] by blast
qed


section \<open>Witnesses\<close>

lemma demo_scheduler: "sched_from_events False (run_log 3 (runtime_service_new demo_store)) = Ok scheduler_default"
  by (simp add: run_log_def demo_run_log demo_log_def sched_from_events_def)

lemma demo_claim_utf8: "transition_is_utf8 (AsmCreated demo_claim)"
  by (simp add: demo_claim_def assumption_eval is_utf8_ascii)


lemma demo_cancel: "\<exists>w'. cancel_agent demo_host 3 5 demo_world = (Ok (), w') \<and>
    length (st_events (sv_store (w_service w'))) = 4"
proof -
  from demo_event [of demo_world 100 demo_host 3 "ModelCancelled 5"] obtain ev w1 where
    ev: "rt_event demo_host 3 (ModelCancelled 5) demo_world = (Ok ev, w1)" "event_ident ev = 100"
      "event_run ev = 3" "event_knd ev = ModelCancelled 5" "w_service w1 = w_service demo_world"
    by (auto simp: demo_ids_def)
  have "bm_get (rs_agents demo_state) 5 = Some (demo_agent_state 5)" by (simp add: demo_state_def)
  moreover from this obtain st where "apply_kind (ModelCancelled 5) demo_state = Ok st"
    by (simp add: with_agent_def set_status_def)
  from demo_accepts [OF this ev(3,4)] obtain st' where "try_fold apply_event demo_state [ev] = Ok st'" by blast
  from demo_batch [OF _ this, of w1] ev obtain s where
    ap: "append_validated_batch [ev] w1 = (Ok (), w1\<lparr>w_service := (w_service w1)\<lparr>sv_store := s\<rparr>\<rparr>)"
    "length (st_events s) = 4" by auto
  moreover have "os_windows demo_host = False" by (simp add: demo_host_def)
  moreover have "owned_by scheduler_default 5 = []" by (simp add: owned_by_def scheduler_default_def)
  ultimately show ?thesis
    unfolding cancel_agent_def
    by (simp add: rt_bind_def rt_reconstruct_def rt_service_def rt_try_def demo_reconstruct get_agent_def
        rt_require_def rt_return_def rt_log_def demo_scheduler ev(1) rt_update_def demo_agent_state_def agent_ended_def)
qed

theorem cancelled_agent_holds_nothing_witness:
  "\<exists>w' st g. cancel_agent demo_host 3 5 demo_world = (Ok (), w') \<and>
     es_reconstruct 3 (sv_store (w_service w')) = Ok st \<and> bm_get (rs_agents st) 5 = Some g \<and>
     ag_status g = AgCancelled"
proof -
  obtain w' where w': "cancel_agent demo_host 3 5 demo_world = (Ok (), w')"
    and "length (st_events (sv_store (w_service w'))) = 4" using demo_cancel by blast
  with cancelled_agent_holds_nothing [OF w'] show ?thesis by auto
qed

lemma demo_blank_claim: "\<exists>w'. claim_ownership demo_host 3 5 ''./ '' demo_world = (Ok (), w')"
proof -
  have canon: "canonical_scheduler_resource False ''./ '' = Ok '' ''" by (simp add: scheduler_eval)
  obtain bs where bs: "sched_encode_transition False (OwnershipClaimed 5 ''./ '') = Ok bs"
    by (auto simp: sched_encode_transition_def encode_resource_def canon SCHED_MAX_PAYLOAD_BYTES_def)
  obtain c where c: "sched_apply False (OwnershipClaimed 5 ''./ '') scheduler_default = (Ok (), c)"
    by (simp add: canon scheduler_default_def)
  have "apply_kind (scheduler_event bs) demo_state = Ok demo_state" by simp
  from demo_append [OF _ _ this, of demo_world demo_host] obtain w1 where
    "rt_append_kind demo_host 3 (scheduler_event bs) demo_world = (Ok (), w1)" by auto
  then have ap: "rt_append_payload demo_host 3 scheduler_event RtScheduler (Ok bs) demo_world = (Ok (), w1)"
    by (simp add: rt_append_payload_def rt_payload_event_def rt_append_kind_def rt_bind_def rt_try_def)
  have "bm_get (rs_agents demo_state) 5 = Some (demo_agent_state 5)" by (simp add: demo_state_def)
  moreover have "os_windows demo_host = False" by (simp add: demo_host_def)
  ultimately show ?thesis
    unfolding claim_ownership_def commit_scheduler_def
    by (simp add: rt_bind_def rt_reconstruct_def rt_service_def rt_try_def demo_reconstruct get_agent_def
        rt_require_def rt_return_def rt_log_def demo_scheduler c bs ap rt_update_def demo_agent_state_def agent_ended_def
        del: sched_apply.simps)
qed


end
