(* ===== verification/Provider.thy ===== *)
theory Provider
  imports Kernel BTree_Map
begin

text \<open>
  The provider boundary (\<^verbatim>\<open>crates/provider/src/lib.rs\<close>): requests and their limits, the negotiation of
  capabilities, the typed events of a stream, and the mock provider. A stream is an iterator that the
  caller pulls; whether the run has been cancelled is an atomic flag, read by stream and caller.
\<close>

section \<open>Sizes\<close>

text \<open>
  Arithmetic on \<open>usize\<close>, which has 64 bits: \<open>checked_add\<close>, \<open>saturating_add\<close>, and \<open>sum\<close>, which wraps in a
  release build.
\<close>

definition usize_add :: "usize \<Rightarrow> usize \<Rightarrow> usize option" where
  "usize_add a b = (if a + b < 2 ^ 64 then Some (a + b) else None)"

definition usize_sat_add :: "usize \<Rightarrow> usize \<Rightarrow> usize" where
  "usize_sat_add a b = min (a + b) (2 ^ 64 - 1)"

definition usize_sum :: "usize list \<Rightarrow> usize" where
  "usize_sum ns = sum_list ns mod 2 ^ 64"

fun usize_fold :: "usize option \<Rightarrow> usize list \<Rightarrow> usize option" where
  "usize_fold acc [] = acc"
| "usize_fold acc (n # ns) = usize_fold (Option.bind acc (\<lambda>t. usize_add t n)) ns"

section \<open>Requests\<close>

definition MAX_REQUEST_PARTS :: usize where "MAX_REQUEST_PARTS = 128"
definition MAX_PROVIDER_PAYLOAD_BYTES :: usize where "MAX_PROVIDER_PAYLOAD_BYTES = 4 * 1024 * 1024"
definition MAX_TOOL_DEFINITIONS :: usize where "MAX_TOOL_DEFINITIONS = 64"
definition MAX_TOOL_CALLS :: usize where "MAX_TOOL_CALLS = 128"
definition MAX_OUTPUT_CHUNKS :: usize where "MAX_OUTPUT_CHUNKS = 65536"

record provider_capabilities =
  pc_streaming :: bool
  pc_tools :: bool
  pc_parallel_tools :: bool
  pc_structured_output :: bool
  pc_vision :: bool
  pc_reasoning :: bool
  pc_prompt_cache :: bool
  pc_usage_metadata :: bool
  pc_cost_metadata :: bool
  pc_cancellation :: bool
  pc_context_limit :: "u32 option"
  pc_max_output_tokens :: "u32 option"

record tool_call =
  call_ident :: string
  call_name :: string
  call_arguments :: string

datatype request_part =
    PartSystem string
  | PartUser string
  | PartModel string
  | PartModelToolCalls "tool_call list"
  | PartToolResult string string bool
  | PartImage string "u8 list"

fun part_size_bytes :: "request_part \<Rightarrow> usize" where
  "part_size_bytes (PartSystem v) = length v"
| "part_size_bytes (PartUser v) = length v"
| "part_size_bytes (PartModel v) = length v"
| "part_size_bytes (PartToolResult i content _) = usize_sat_add (length i) (length content)"
| "part_size_bytes (PartModelToolCalls calls) = usize_sum (map (\<lambda>c.
     usize_sat_add (usize_sat_add (length (call_ident c)) (length (call_name c))) (length (call_arguments c))) calls)"
| "part_size_bytes (PartImage media data) = usize_sat_add (length media) (length data)"

fun requires_vision :: "request_part \<Rightarrow> bool" where
  "requires_vision (PartImage _ _) = True"
| "requires_vision _ = False"

record provider_tool =
  pt_name :: string
  pt_description :: string
  pt_input_schema :: string

datatype tool_choice = ChoiceAuto | ChoiceRequired

record structured_output_request =
  so_name :: string
  so_schema :: string

record reasoning_options =
  ro_effort :: "string option"
  ro_budget_tokens :: "u32 option"

record model_request =
  mr_run :: run_id
  mr_task :: task_id
  mr_agent :: agent_id
  mr_model :: model_ref
  mr_parts :: "request_part list"
  mr_tools :: "provider_tool list"
  mr_tool_choice :: tool_choice
  mr_structured_output :: "structured_output_request option"
  mr_reasoning :: "reasoning_options option"
  mr_parallel_tool_calls :: bool
  mr_max_output_tokens :: "u32 option"
  mr_extensions :: "(string, string) bmap"

definition model_request_new :: "run_id \<Rightarrow> task_id \<Rightarrow> agent_id \<Rightarrow> model_ref \<Rightarrow> string \<Rightarrow> model_request" where
  "model_request_new r t a m prompt = \<lparr>mr_run = r, mr_task = t, mr_agent = a, mr_model = m,
     mr_parts = [PartUser prompt], mr_tools = [], mr_tool_choice = ChoiceAuto, mr_structured_output = None,
     mr_reasoning = None, mr_parallel_tool_calls = False, mr_max_output_tokens = None,
     mr_extensions = bm_empty\<rparr>"

definition with_system :: "string \<Rightarrow> model_request \<Rightarrow> model_request" where
  "with_system content q = q\<lparr>mr_parts := PartSystem content # mr_parts q\<rparr>"

definition with_tool :: "provider_tool \<Rightarrow> model_request \<Rightarrow> model_request" where
  "with_tool t q = q\<lparr>mr_tools := mr_tools q @ [t]\<rparr>"

definition with_structured_output :: "structured_output_request \<Rightarrow> model_request \<Rightarrow> model_request" where
  "with_structured_output out q = q\<lparr>mr_structured_output := Some out\<rparr>"

definition with_reasoning :: "reasoning_options \<Rightarrow> model_request \<Rightarrow> model_request" where
  "with_reasoning r q = q\<lparr>mr_reasoning := Some r\<rparr>"

definition with_parallel_tool_calls :: "bool \<Rightarrow> model_request \<Rightarrow> model_request" where
  "with_parallel_tool_calls enabled q = q\<lparr>mr_parallel_tool_calls := enabled\<rparr>"

fun part_text :: "request_part \<Rightarrow> string option" where
  "part_text (PartSystem t) = Some t"
| "part_text (PartUser t) = Some t"
| "part_text (PartModel t) = Some t"
| "part_text _ = None"

definition line_feed :: string where "line_feed = [char_of (10 :: nat)]"

definition text_input :: "model_request \<Rightarrow> string" where
  "text_input q = join_with line_feed (List.map_filter part_text (mr_parts q))"

datatype provider_error =
    ProviderCancelled
  | InvalidRequest string
  | CapabilityMismatch string
  | ModelUnavailable string
  | RateLimited "u64 option"
  | ProviderTimeout
  | MalformedStream string
  | ProviderFailed string

text \<open>\<open>Display\<close>, which ends up in the events of a failed run.\<close>

fun provider_error_message :: "provider_error \<Rightarrow> string" where
  "provider_error_message ProviderCancelled = ''provider request cancelled''"
| "provider_error_message (InvalidRequest m) = ''invalid provider request: '' @ m"
| "provider_error_message (CapabilityMismatch m) = ''provider capability mismatch: '' @ m"
| "provider_error_message (ModelUnavailable m) = ''model unavailable: '' @ m"
| "provider_error_message (RateLimited retry) = ''provider rate limited (retry after '' @
     (case retry of None \<Rightarrow> ''None'' | Some n \<Rightarrow> ''Some('' @ show_nat (unat n) @ '')'') @ '' ms)''"
| "provider_error_message ProviderTimeout = ''provider request timed out''"
| "provider_error_message (MalformedStream m) = ''malformed provider stream: '' @ m"
| "provider_error_message (ProviderFailed m) = ''provider failed: '' @ m"

text \<open>The parts of the size check of \<open>ModelRequest::validate\<close>.\<close>

definition tool_bytes :: "provider_tool list \<Rightarrow> usize option" where
  "tool_bytes ts = usize_fold (Some 0)
     (concat (map (\<lambda>t. [length (pt_name t), length (pt_description t), length (pt_input_schema t)]) ts))"

definition metadata_bytes :: "model_request \<Rightarrow> usize" where
  "metadata_bytes q =
     usize_sat_add (usize_sat_add (usize_sat_add
       (case mr_structured_output q of None \<Rightarrow> 0 | Some out \<Rightarrow> usize_sat_add (length (so_name out)) (length (so_schema out)))
       (case mr_reasoning q of None \<Rightarrow> 0 | Some r \<Rightarrow> (case ro_effort r of None \<Rightarrow> 0 | Some e \<Rightarrow> length e)))
       (length (model_provider (mr_model q)))) (length (model_name (mr_model q)))"

definition extension_bytes :: "(string, string) bmap \<Rightarrow> usize option" where
  "extension_bytes m = usize_fold (Some 0) (concat (map (\<lambda>(k, v). [length k, length v]) (bm_entries m)))"

definition size_overflow :: provider_error where
  "size_overflow = InvalidRequest ''request size overflow''"

definition model_request_validate :: "model_request \<Rightarrow> (unit, provider_error) result" where
  "model_request_validate q =
     (if MAX_REQUEST_PARTS < length (mr_parts q)
      then Err (InvalidRequest (''request has too many parts: '' @ show_nat (length (mr_parts q))))
      else if MAX_TOOL_DEFINITIONS < length (mr_tools q)
      then Err (InvalidRequest (''request has too many tools: '' @ show_nat (length (mr_tools q))))
      else if mr_parallel_tool_calls q \<and> mr_tools q = []
      then Err (InvalidRequest ''parallel tool calls require at least one tool'')
      else if mr_tool_choice q = ChoiceRequired \<and> mr_tools q = []
      then Err (InvalidRequest ''required tool choice needs a tool definition'')
      else
        and_then (ok_or (usize_fold (Some 0) (map part_size_bytes (mr_parts q))) size_overflow) (\<lambda>parts.
        and_then (ok_or (tool_bytes (mr_tools q)) size_overflow) (\<lambda>tools.
        and_then (ok_or (extension_bytes (mr_extensions q)) size_overflow) (\<lambda>extensions.
        and_then (ok_or (usize_fold (Some parts) [tools, metadata_bytes q, extensions]) size_overflow) (\<lambda>total_size.
        if MAX_PROVIDER_PAYLOAD_BYTES < total_size
        then Err (InvalidRequest (''request payload exceeds '' @ show_nat MAX_PROVIDER_PAYLOAD_BYTES @ '' bytes''))
        else Ok ())))))"

section \<open>Events of a stream\<close>

datatype finish_reason =
    FinishStop
  | FinishLength
  | FinishToolCall
  | FinishContentFilter
  | FinishCancelled
  | FinishOther string

record cost_metadata =
  cost_currency :: string
  cost_input_microunits :: u64
  cost_output_microunits :: u64

record provider_usage =
  pu_usage :: usage
  pu_cost :: "cost_metadata option"
  pu_prompt_cache_hit :: "bool option"

datatype provider_event =
    TextDelta string
  | ReasoningDelta string
  | ResponseMetadata "string option" "string option" "string option"
  | ToolCallStarted string string
  | ToolCallArgumentsDelta string string
  | ToolCallCompleted tool_call
  | UsageReport provider_usage
  | Finish finish_reason

definition optional_length :: "string option \<Rightarrow> usize" where
  "optional_length v = (case v of None \<Rightarrow> 0 | Some s \<Rightarrow> length s)"

fun provider_event_size :: "provider_event \<Rightarrow> usize" where
  "provider_event_size (TextDelta t) = length t"
| "provider_event_size (ReasoningDelta t) = length t"
| "provider_event_size (ResponseMetadata m i p) =
     usize_sat_add (usize_sat_add (optional_length m) (optional_length i)) (optional_length p)"
| "provider_event_size (ToolCallStarted i n) = usize_sat_add (length i) (length n)"
| "provider_event_size (ToolCallArgumentsDelta i d) = usize_sat_add (length i) (length d)"
| "provider_event_size (ToolCallCompleted c) =
     usize_sat_add (usize_sat_add (length (call_ident c)) (length (call_name c))) (length (call_arguments c))"
| "provider_event_size (UsageReport u) = (case pu_cost u of None \<Rightarrow> 0 | Some c \<Rightarrow> length (cost_currency c))"
| "provider_event_size (Finish (FinishOther r)) = length r"
| "provider_event_size (Finish _) = 0"

definition provider_event_validate :: "provider_event \<Rightarrow> (unit, provider_error) result" where
  "provider_event_validate ev =
     (if MAX_PROVIDER_PAYLOAD_BYTES < provider_event_size ev
      then Err (MalformedStream (''provider event exceeds '' @ show_nat MAX_PROVIDER_PAYLOAD_BYTES @ '' bytes''))
      else Ok ())"

section \<open>Negotiation\<close>

text \<open>The provided method of the trait; the provider's model and capabilities are its arguments.\<close>

definition validate_request :: "model_ref \<Rightarrow> provider_capabilities \<Rightarrow> model_request
    \<Rightarrow> (unit, provider_error) result" where
  "validate_request model c q = and_then (model_request_validate q) (\<lambda>_.
     if mr_model q \<noteq> model then Err (ModelUnavailable (model_name (mr_model q)))
     else if mr_tools q \<noteq> [] \<and> \<not> pc_tools c then Err (CapabilityMismatch ''tools are not supported'')
     else if mr_parallel_tool_calls q \<and> \<not> pc_parallel_tools c
     then Err (CapabilityMismatch ''parallel tool calls are not supported'')
     else if mr_structured_output q \<noteq> None \<and> \<not> pc_structured_output c
     then Err (CapabilityMismatch ''structured output is not supported'')
     else if mr_reasoning q \<noteq> None \<and> \<not> pc_reasoning c
     then Err (CapabilityMismatch ''reasoning is not supported'')
     else if list_ex requires_vision (mr_parts q) \<and> \<not> pc_vision c
     then Err (CapabilityMismatch ''vision is not supported'')
     else (case (mr_max_output_tokens q, pc_max_output_tokens c) of
         (Some limit, Some maximum) \<Rightarrow>
           if maximum < limit then Err (CapabilityMismatch ''requested output exceeds provider limit'') else Ok ()
       | _ \<Rightarrow> Ok ()))"

end
