(* ===== verification/Agent_Session.thy ===== *)
theory Agent_Session
  imports Provider Run_State
begin

text \<open>
  The agent loop (\<^verbatim>\<open>crates/agent/src/lib.rs\<close>): a session pulls the events of a provider's stream, checks and
  collects them, and records what happens as a trace of the run. The provider is an argument, as the
  trait it is: \<open>mp_open\<close> is \<open>stream\<close>, \<open>mp_pull\<close> the \<open>next\<close> of the iterator it returns.
\<close>

section \<open>Tasks, hosts, providers\<close>

record task =
  task_ident :: task_id
  task_run :: run_id
  task_title :: string

text \<open>
  What \<open>Event::new\<close> takes from the process for the event at each position of a trace, its identifier and
  time; and what the readings of the cancellation flag give, in their order.
\<close>

record agent_host =
  ah_stamp :: "nat \<Rightarrow> event_id \<times> u128"
  ah_cancelled :: "nat \<Rightarrow> bool"

type_synonym provider_item = "(provider_event, provider_error) result"

text \<open>A pull is given the number of readings of the flag so far, and returns the new number.\<close>

type_synonym 's pull = "'s \<Rightarrow> nat \<Rightarrow> provider_item option \<times> 's \<times> nat"

record 's model_provider =
  mp_open :: "model_request \<Rightarrow> ('s, provider_error) result"
  mp_pull :: "'s pull"

section \<open>Results\<close>

definition MAX_AGENT_OUTPUT_BYTES :: usize where "MAX_AGENT_OUTPUT_BYTES = 4 * 1024 * 1024"

record agent_execution =
  ax_run :: run_id
  ax_task :: task
  ax_agent :: agent_identity
  ax_output_chunks :: "string list"
  ax_tool_calls :: "tool_call list"
  ax_usage :: usage
  ax_trace :: event_trace

definition output_text :: "agent_execution \<Rightarrow> string" where
  "output_text x = concat (ax_output_chunks x)"

datatype agent_error =
    InvalidFork string event_trace
  | AgentWasCancelled event_trace
  | AgentProvider provider_error event_trace

fun agent_error_trace :: "agent_error \<Rightarrow> event_trace" where
  "agent_error_trace (InvalidFork m t) = t"
| "agent_error_trace (AgentWasCancelled t) = t"
| "agent_error_trace (AgentProvider e t) = t"

definition record_kind :: "agent_host \<Rightarrow> run_id \<Rightarrow> event_kind \<Rightarrow> event_trace \<Rightarrow> event_trace" where
  "record_kind H r k t = trace_record \<lparr>event_ident = fst (ah_stamp H (trace_len t)), event_run = r,
     occurred_at_ms = snd (ah_stamp H (trace_len t)), event_knd = k\<rparr> t"

definition agent_failed :: "agent_host \<Rightarrow> agent_id \<Rightarrow> run_id \<Rightarrow> event_trace \<Rightarrow> provider_error \<Rightarrow> agent_error" where
  "agent_failed H a r t e = AgentProvider e
     (record_kind H r (RunFailed r (provider_error_message e))
       (record_kind H r (ModelFailed a (provider_error_message e)) t))"

definition agent_cancelled :: "agent_host \<Rightarrow> agent_id \<Rightarrow> run_id \<Rightarrow> event_trace \<Rightarrow> agent_error" where
  "agent_cancelled H a r t = AgentWasCancelled
     (record_kind H r (RunCancelled r) (record_kind H r (ModelCancelled a) t))"

section \<open>One event of the stream\<close>

record agent_progress =
  ap_trace :: event_trace
  ap_chunks :: "string list"
  ap_retained :: usize
  ap_usage :: usage
  ap_finished :: bool
  ap_active :: "(string, unit) bmap"
  ap_calls :: "tool_call list"
  ap_next_chunk :: u32

text \<open>
  The match on the event. The result says whether a chunk is recorded; an error is the failure of the
  run, or without a reason its cancellation.
\<close>

definition malformed :: "string \<Rightarrow> (bool \<times> agent_progress, provider_error option) result" where
  "malformed m = Err (Some (MalformedStream m))"

fun agent_event :: "provider_event \<Rightarrow> agent_progress \<Rightarrow> (bool \<times> agent_progress, provider_error option) result" where
  "agent_event (TextDelta text) p =
     (if text = [] then Ok (False, p)
      else if MAX_OUTPUT_CHUNKS \<le> length (ap_chunks p)
      then Err (Some (ProviderFailed (''provider emitted more than '' @ show_nat MAX_OUTPUT_CHUNKS @ '' output chunks'')))
      else
        let retained = usize_sat_add (ap_retained p) (length text) in
        if MAX_AGENT_OUTPUT_BYTES < retained
        then Err (Some (ProviderFailed (''provider output exceeds '' @ show_nat MAX_AGENT_OUTPUT_BYTES @ '' bytes'')))
        else Ok (True, p\<lparr>ap_retained := retained, ap_chunks := ap_chunks p @ [text]\<rparr>))"
| "agent_event (ReasoningDelta _) p = Ok (True, p)"
| "agent_event (ResponseMetadata _ _ _) p = Ok (False, p)"
| "agent_event (ToolCallStarted i _) p =
     (if MAX_TOOL_CALLS \<le> length (bm_entries (ap_active p))
      then malformed (''provider emitted more than '' @ show_nat MAX_TOOL_CALLS @ '' active tool calls'')
      else if bm_contains_key (ap_active p) i then malformed ''duplicate tool-call start''
      else Ok (True, p\<lparr>ap_active := bm_insert i () (ap_active p)\<rparr>))"
| "agent_event (ToolCallArgumentsDelta i _) p =
     (if \<not> bm_contains_key (ap_active p) i then malformed ''tool-call arguments arrived before start''
      else Ok (True, p))"
| "agent_event (ToolCallCompleted c) p =
     (if MAX_PROVIDER_PAYLOAD_BYTES < length (call_arguments c)
      then malformed ''tool-call arguments exceed the provider bound''
      else if \<not> bm_contains_key (ap_active p) (call_ident c)
      then malformed ''tool-call completed without start''
      else if MAX_TOOL_CALLS \<le> length (ap_calls p)
      then malformed (''provider completed more than '' @ show_nat MAX_TOOL_CALLS @ '' tool calls'')
      else Ok (True, p\<lparr>ap_active := bm_remove (call_ident c) (ap_active p), ap_calls := ap_calls p @ [c]\<rparr>))"
| "agent_event (UsageReport u) p = Ok (False, p\<lparr>ap_usage := pu_usage u\<rparr>)"
| "agent_event (Finish reason) p =
     (if bm_entries (ap_active p) \<noteq> [] \<and> reason \<noteq> FinishCancelled
      then malformed ''provider finished with incomplete tool call''
      else if reason = FinishCancelled then Err None
      else Ok (False, p\<lparr>ap_finished := True\<rparr>))"

definition stop_agent :: "agent_host \<Rightarrow> agent_id \<Rightarrow> run_id \<Rightarrow> event_trace \<Rightarrow> provider_error option \<Rightarrow> agent_error"
  where
  "stop_agent H a r t e = (case e of None \<Rightarrow> agent_cancelled H a r t | Some e \<Rightarrow> agent_failed H a r t e)"

definition record_chunk :: "agent_host \<Rightarrow> agent_id \<Rightarrow> run_id \<Rightarrow> agent_progress \<Rightarrow> agent_progress" where
  "record_chunk H a r p = p\<lparr>ap_trace := record_kind H r (ModelChunkReceived a (ap_next_chunk p)) (ap_trace p),
     ap_next_chunk := saturating_add (ap_next_chunk p) 1\<rparr>"

text \<open>The body of the loop after the cancellation check.\<close>

definition check_item :: "provider_item \<Rightarrow> agent_progress \<Rightarrow> (provider_event, provider_error option) result" where
  "check_item item p = (case item of
     Err ProviderCancelled \<Rightarrow> Err None
   | Err e \<Rightarrow> Err (Some e)
   | Ok ev \<Rightarrow> (case provider_event_validate ev of
       Err e \<Rightarrow> Err (Some e)
     | Ok _ \<Rightarrow> if ap_finished p then Err (Some (MalformedStream ''provider emitted an event after finish''))
         else Ok ev))"

definition agent_item :: "agent_host \<Rightarrow> agent_id \<Rightarrow> run_id \<Rightarrow> provider_item \<Rightarrow> agent_progress
    \<Rightarrow> (agent_progress, agent_error) result" where
  "agent_item H a r item p = (case and_then (check_item item p) (\<lambda>ev. agent_event ev p) of
     Err e \<Rightarrow> Err (stop_agent H a r (ap_trace p) e)
   | Ok (chunk, p') \<Rightarrow> Ok (if chunk then record_chunk H a r p' else p'))"

section \<open>The loop\<close>

text \<open>A stream may be endless; then the loop does not return, and the value is \<open>None\<close>.\<close>

partial_function (option) agent_loop :: "agent_host \<Rightarrow> agent_id \<Rightarrow> run_id \<Rightarrow> 's pull \<Rightarrow> 's \<Rightarrow> nat
    \<Rightarrow> agent_progress \<Rightarrow> ((agent_progress, agent_error) result \<times> nat) option" where
  "agent_loop H a r pull s n p = (case pull s n of (item, s', n') \<Rightarrow>
     (case item of
        None \<Rightarrow> Some (Ok p, n')
      | Some item \<Rightarrow>
          if ah_cancelled H n' then Some (Err (agent_cancelled H a r (ap_trace p)), Suc n')
          else (case agent_item H a r item p of
              Err e \<Rightarrow> Some (Err e, Suc n')
            | Ok p' \<Rightarrow> agent_loop H a r pull s' (Suc n') p')))"

fun is_chunk :: "event_kind \<Rightarrow> bool" where
  "is_chunk (ModelChunkReceived _ _) = True"
| "is_chunk _ = False"

definition count_chunks :: "event_trace \<Rightarrow> nat" where
  "count_chunks t = length (filter (\<lambda>ev. is_chunk (event_knd ev)) (trace_events t))"

definition agent_start :: "event_trace \<Rightarrow> agent_progress" where
  "agent_start t = \<lparr>ap_trace = t, ap_chunks = [], ap_retained = 0, ap_usage = usage_new 0 0,
     ap_finished = False, ap_active = bm_empty, ap_calls = [], ap_next_chunk = of_nat (count_chunks t)\<rparr>"

text \<open>After the loop: a last look at the flag, the end of the stream, and the two closing events.\<close>

definition agent_finish :: "agent_host \<Rightarrow> agent_identity \<Rightarrow> run_id \<Rightarrow> task \<Rightarrow> nat \<Rightarrow> agent_progress
    \<Rightarrow> (agent_execution, agent_error) result" where
  "agent_finish H i r t n p =
     (if ah_cancelled H n then Err (agent_cancelled H (agent_ident i) r (ap_trace p))
      else if \<not> ap_finished p
      then Err (agent_failed H (agent_ident i) r (ap_trace p) (ProviderFailed ''stream ended before a final chunk''))
      else Ok \<lparr>ax_run = r, ax_task = t, ax_agent = i, ax_output_chunks = ap_chunks p, ax_tool_calls = ap_calls p,
        ax_usage = ap_usage p,
        ax_trace = record_kind H r (RunCompleted r)
          (record_kind H r (ModelCompleted (agent_ident i) (ap_usage p)) (ap_trace p))\<rparr>)"

definition agent_execute :: "agent_host \<Rightarrow> agent_identity \<Rightarrow> 's model_provider \<Rightarrow> run_id \<Rightarrow> task \<Rightarrow> string
    \<Rightarrow> event_trace \<Rightarrow> (agent_execution, agent_error) result option" where
  "agent_execute H i mp r t prompt trace =
     (let q = model_request_new r (task_ident t) (agent_ident i) (agent_model i) prompt;
          trace = record_kind H r (ModelRequested (agent_ident i) (mr_model q)) trace
      in case mp_open mp q of
           Err e \<Rightarrow> Some (Err (agent_failed H (agent_ident i) r trace e))
         | Ok s \<Rightarrow> (case agent_loop H (agent_ident i) r (mp_pull mp) s 0 (agent_start trace) of
             None \<Rightarrow> None
           | Some (Err e, n) \<Rightarrow> Some (Err e)
           | Some (Ok p, n) \<Rightarrow> Some (agent_finish H i r t n p)))"

definition agent_run :: "agent_host \<Rightarrow> agent_identity \<Rightarrow> 's model_provider \<Rightarrow> run_id \<Rightarrow> task_id \<Rightarrow> string
    \<Rightarrow> (agent_execution, agent_error) result option" where
  "agent_run H i mp r t prompt = agent_execute H i mp r \<lparr>task_ident = t, task_run = r, task_title = prompt\<rparr> prompt
     (record_kind H r (AgentCreated i) (record_kind H r (TaskCreated t r prompt)
       (record_kind H r (RunCreated r) \<lparr>trace_events = []\<rparr>)))"

section \<open>Forks\<close>

definition validate_fork_prefix :: "event_trace \<Rightarrow> run_id \<Rightarrow> task \<Rightarrow> agent_id \<Rightarrow> (unit, string) result" where
  "validate_fork_prefix prefix r t a =
     (let evs = trace_events prefix; kinds = map event_knd evs in
      if evs = [] then Err ''fork prefix must contain at least run.created''
      else if list_ex (\<lambda>ev. event_run ev \<noteq> r) evs then Err ''fork prefix contains an event from another run''
      else if event_knd (hd evs) \<noteq> RunCreated r
      then Err ''fork prefix must begin with run.created for the child run''
      else if \<not> list_ex (\<lambda>k. case k of TaskCreated i q _ \<Rightarrow> i = task_ident t \<and> q = r | _ \<Rightarrow> False) kinds
      then Err ''fork prefix does not contain the requested task''
      else if \<not> list_ex (\<lambda>k. case k of AgentCreated i \<Rightarrow> agent_ident i = a | _ \<Rightarrow> False) kinds
      then Err ''fork prefix does not contain the session agent''
      else if list_ex is_run_end kinds then Err ''live fork prefix cannot contain a terminal run event''
      else Ok ())"

definition agent_run_fork :: "agent_host \<Rightarrow> agent_identity \<Rightarrow> 's model_provider \<Rightarrow> run_id \<Rightarrow> task \<Rightarrow> string
    \<Rightarrow> event_trace \<Rightarrow> (agent_execution, agent_error) result option" where
  "agent_run_fork H i mp r t prompt prefix =
     (case validate_fork_prefix prefix r t (agent_ident i) of
        Err m \<Rightarrow> Some (Err (InvalidFork m prefix))
      | Ok _ \<Rightarrow> agent_execute H i mp r t prompt prefix)"

end
