(* ===== verification/Mock_Provider.thy ===== *)
theory Mock_Provider
  imports Agent_Session
begin

text \<open>
  The mock provider (\<^verbatim>\<open>crates/provider/src/lib.rs\<close>): a response that is streamed in chunks of a number
  of characters, or a script of events. Its streams are instances of a finite stream, over which the
  agent's loop is a fold of its body.
\<close>

section \<open>The provider\<close>

record mock_provider =
  mock_model :: model_ref
  mock_response :: string
  mock_chunk_size :: usize
  mock_failure_after :: "usize option"
  mock_script :: "provider_item list option"

definition mock_provider_new :: "model_ref \<Rightarrow> string \<Rightarrow> mock_provider" where
  "mock_provider_new m response = \<lparr>mock_model = m, mock_response = response, mock_chunk_size = 8,
     mock_failure_after = None, mock_script = None\<rparr>"

definition with_chunk_size :: "usize \<Rightarrow> mock_provider \<Rightarrow> mock_provider" where
  "with_chunk_size n mp = mp\<lparr>mock_chunk_size := max n 1\<rparr>"

definition with_failure_after_chunks :: "usize \<Rightarrow> mock_provider \<Rightarrow> mock_provider" where
  "with_failure_after_chunks n mp = mp\<lparr>mock_failure_after := Some n\<rparr>"

definition with_script :: "provider_item list \<Rightarrow> mock_provider \<Rightarrow> mock_provider" where
  "with_script script mp = mp\<lparr>mock_script := Some script\<rparr>"

definition with_tool_call :: "string \<Rightarrow> string \<Rightarrow> string \<Rightarrow> mock_provider \<Rightarrow> mock_provider" where
  "with_tool_call i name arguments = with_script
     [Ok (ToolCallStarted i name), Ok (ToolCallArgumentsDelta i arguments),
      Ok (ToolCallCompleted \<lparr>call_ident = i, call_name = name, call_arguments = arguments\<rparr>),
      Ok (Finish FinishToolCall)]"

definition with_malformed_tool_call :: "mock_provider \<Rightarrow> mock_provider" where
  "with_malformed_tool_call =
     with_script [Err (MalformedStream ''tool-call arguments arrived before start'')]"

definition mock_capabilities :: provider_capabilities where
  "mock_capabilities = \<lparr>pc_streaming = True, pc_tools = True, pc_parallel_tools = True,
     pc_structured_output = True, pc_vision = False, pc_reasoning = True, pc_prompt_cache = False,
     pc_usage_metadata = True, pc_cost_metadata = False, pc_cancellation = True,
     pc_context_limit = Some 128000, pc_max_output_tokens = Some 16384\<rparr>"

section \<open>Its streams\<close>

text \<open>The number of bytes of the first characters of a string.\<close>

fun chars_end :: "nat \<Rightarrow> string \<Rightarrow> usize" where
  "chars_end (Suc n) (c # s) = len_utf8 c + chars_end n (drop (len_utf8 c - 1) s)"
| "chars_end _ _ = 0"

record mock_stream =
  ms_response :: string
  ms_offset :: usize
  ms_chunk_size :: usize
  ms_usage :: usage
  ms_failure_after :: "usize option"
  ms_emitted :: usize
  ms_sent_usage :: bool
  ms_sent_finish :: bool

definition chunk_end :: "mock_stream \<Rightarrow> usize" where
  "chunk_end s = (let e = ms_offset s + chars_end (ms_chunk_size s) (drop (ms_offset s) (ms_response s))
     in if e \<le> ms_offset s then length (ms_response s) else e)"

text \<open>\<open>next\<close>, when the flag is not set.\<close>

definition mock_next :: "mock_stream \<Rightarrow> provider_item option \<times> mock_stream" where
  "mock_next s =
     (if (case ms_failure_after s of None \<Rightarrow> False | Some limit \<Rightarrow> limit \<le> ms_emitted s)
      then (Some (Err (ProviderFailed ''configured mock failure'')), s)
      else if ms_offset s < length (ms_response s)
      then (Some (Ok (TextDelta (take (chunk_end s - ms_offset s) (drop (ms_offset s) (ms_response s))))),
            s\<lparr>ms_offset := chunk_end s, ms_emitted := ms_emitted s + 1\<rparr>)
      else if \<not> ms_sent_usage s
      then (Some (Ok (UsageReport \<lparr>pu_usage = ms_usage s, pu_cost = None, pu_prompt_cache_hit = None\<rparr>)),
            s\<lparr>ms_sent_usage := True\<rparr>)
      else if \<not> ms_sent_finish s then (Some (Ok (Finish FinishStop)), s\<lparr>ms_sent_finish := True\<rparr>)
      else (None, s))"

fun scripted_next :: "provider_item list \<Rightarrow> provider_item option \<times> provider_item list" where
  "scripted_next [] = (None, [])"
| "scripted_next (x # xs) = (Some x, xs)"

text \<open>Both streams read the flag first.\<close>

definition cancellable :: "(nat \<Rightarrow> bool) \<Rightarrow> ('s \<Rightarrow> provider_item option \<times> 's) \<Rightarrow> 's pull" where
  "cancellable flag nxt s n =
     (if flag n then (Some (Err ProviderCancelled), s, Suc n)
      else (case nxt s of (item, s') \<Rightarrow> (item, s', Suc n)))"

datatype boxed_stream = PlainStream mock_stream | ScriptedStream "provider_item list"

fun boxed_next :: "boxed_stream \<Rightarrow> provider_item option \<times> boxed_stream" where
  "boxed_next (PlainStream s) = (case mock_next s of (item, s') \<Rightarrow> (item, PlainStream s'))"
| "boxed_next (ScriptedStream xs) = (case scripted_next xs of (item, xs') \<Rightarrow> (item, ScriptedStream xs'))"

definition mock_open :: "mock_provider \<Rightarrow> model_request \<Rightarrow> (boxed_stream, provider_error) result" where
  "mock_open mp q = and_then (validate_request (mock_model mp) mock_capabilities q) (\<lambda>_.
     if MAX_PROVIDER_PAYLOAD_BYTES < length (mock_response mp)
     then Err (InvalidRequest (''mock response exceeds '' @ show_nat MAX_PROVIDER_PAYLOAD_BYTES @ '' bytes''))
     else if trim_is_empty (text_input q) then Err (InvalidRequest ''request must contain text input'')
     else (case mock_script mp of
         Some script \<Rightarrow> Ok (ScriptedStream script)
       | None \<Rightarrow> Ok (PlainStream \<lparr>ms_response = mock_response mp, ms_offset = 0,
           ms_chunk_size = mock_chunk_size mp,
           ms_usage = usage_new (of_nat (length (split_whitespace (text_input q))))
             (of_nat (length (split_whitespace (mock_response mp)))),
           ms_failure_after = mock_failure_after mp, ms_emitted = 0, ms_sent_usage = False,
           ms_sent_finish = False\<rparr>)))"

definition mock_as_provider :: "(nat \<Rightarrow> bool) \<Rightarrow> mock_provider \<Rightarrow> boxed_stream model_provider" where
  "mock_as_provider flag mp = \<lparr>mp_open = mock_open mp, mp_pull = cancellable flag boxed_next\<rparr>"

section \<open>Finite streams\<close>

text \<open>
  The contract of a stream that answers: pulled without a cancellation, it gives the items it has
  left, one after the other, and then ends. Over such a stream the loop of the agent is a fold.
\<close>

locale finite_stream =
  fixes pull :: "'s pull" and items :: "'s \<Rightarrow> provider_item list" and answers :: "'s \<Rightarrow> bool"
  assumes ends: "\<lbrakk>answers s; items s = []\<rbrakk> \<Longrightarrow> \<exists>s' n'. pull s n = (None, s', n')"
    and gives: "\<lbrakk>answers s; items s = x # xs\<rbrakk> \<Longrightarrow>
      \<exists>s' n'. pull s n = (Some x, s', n') \<and> answers s' \<and> items s' = xs"
begin

lemma loop_is_fold:
  assumes "answers s" and calm: "\<And>k. \<not> ah_cancelled H k"
  shows "\<exists>n'. agent_loop H a r pull s n p = Some (try_fold (\<lambda>p item. agent_item H a r item p) p (items s), n')"
  using assms(1)
proof (induction "items s" arbitrary: s n p)
  case Nil
  from ends [OF Nil(2) Nil(1) [symmetric], of n] obtain s' n' where "pull s n = (None, s', n')" by blast
  with Nil(1) [symmetric] show ?case by (subst agent_loop.simps) simp
next
  case (Cons x xs)
  from gives [OF Cons(3) Cons(2) [symmetric], of n] obtain s' n' where
    pull: "pull s n = (Some x, s', n')" and s': "answers s'" "items s' = xs" by blast
  show ?case
  proof (cases "agent_item H a r x p")
    case (Ok q)
    from Cons(1) [OF s'(2) [symmetric] s'(1), of "Suc n'" q] obtain m where
      "agent_loop H a r pull s' (Suc n') q = Some (try_fold (\<lambda>p item. agent_item H a r item p) q xs, m)"
      using s'(2) by blast
    with pull calm Ok Cons(2) [symmetric] show ?thesis by (subst agent_loop.simps) simp
  next
    case (Err e)
    with pull calm Cons(2) [symmetric] show ?thesis by (subst agent_loop.simps) simp
  qed
qed

end

text \<open>What a mock stream without a configured failure has left.\<close>

function text_chunks :: "nat \<Rightarrow> string \<Rightarrow> string list" where
  "text_chunks k s = (if s = [] then []
     else let n = (if chars_end k s = 0 then length s else chars_end k s) in take n s # text_chunks k (drop n s))"
  by pat_completeness auto
termination by (relation "measure (\<lambda>(k, s). length s)") (auto simp: Let_def)

declare text_chunks.simps [simp del]

definition mock_closing :: "mock_stream \<Rightarrow> provider_item list" where
  "mock_closing s =
     (if ms_sent_usage s then []
      else [Ok (UsageReport \<lparr>pu_usage = ms_usage s, pu_cost = None, pu_prompt_cache_hit = None\<rparr>)]) @
     (if ms_sent_finish s then [] else [Ok (Finish FinishStop)])"

fun boxed_items :: "boxed_stream \<Rightarrow> provider_item list" where
  "boxed_items (PlainStream s) =
     map (\<lambda>t. Ok (TextDelta t)) (text_chunks (ms_chunk_size s) (drop (ms_offset s) (ms_response s))) @ mock_closing s"
| "boxed_items (ScriptedStream xs) = xs"

fun boxed_answers :: "boxed_stream \<Rightarrow> bool" where
  "boxed_answers (PlainStream s) \<longleftrightarrow> ms_failure_after s = None"
| "boxed_answers (ScriptedStream xs) \<longleftrightarrow> True"

lemma mock_next_items:
  assumes "ms_failure_after s = None"
  shows "(case boxed_items (PlainStream s) of
      [] \<Rightarrow> mock_next s = (None, s)
    | x # xs \<Rightarrow> \<exists>s'. mock_next s = (Some x, s') \<and> ms_failure_after s' = None \<and> boxed_items (PlainStream s') = xs)"
proof (cases "ms_offset s < length (ms_response s)")
  case True
  then have "drop (ms_offset s) (ms_response s) \<noteq> []" by simp
  with True assms show ?thesis
    by (simp add: mock_next_def chunk_end_def mock_closing_def Let_def
        text_chunks.simps [of _ "drop (ms_offset s) (ms_response s)"] add.commute)
next
  case False
  with assms show ?thesis
    by (simp add: mock_next_def mock_closing_def text_chunks.simps)
qed

text \<open>Both streams of the mock provider fulfil the contract, when no failure is configured.\<close>

interpretation boxed: finite_stream "cancellable (\<lambda>_. False) boxed_next" boxed_items boxed_answers
proof
  fix s n
  assume *: "boxed_answers s" "boxed_items s = []"
  show "\<exists>s' n'. cancellable (\<lambda>_. False) boxed_next s n = (None, s', n')"
  proof (cases s)
    case (PlainStream m)
    with * mock_next_items [of m] have "mock_next m = (None, m)" by (simp del: boxed_items.simps)
    with PlainStream show ?thesis by (simp add: cancellable_def)
  next
    case (ScriptedStream ys)
    with * show ?thesis by (simp add: cancellable_def)
  qed
next
  fix s n x xs
  assume *: "boxed_answers s" "boxed_items s = x # xs"
  show "\<exists>s' n'. cancellable (\<lambda>_. False) boxed_next s n = (Some x, s', n') \<and> boxed_answers s' \<and> boxed_items s' = xs"
  proof (cases s)
    case (PlainStream m)
    with * mock_next_items [of m] obtain m' where "mock_next m = (Some x, m')" "ms_failure_after m' = None"
      "boxed_items (PlainStream m') = xs" by (auto simp del: boxed_items.simps)
    with PlainStream show ?thesis by (simp add: cancellable_def del: boxed_items.simps)
  next
    case (ScriptedStream ys)
    with * show ?thesis by (simp add: cancellable_def)
  qed
qed

end
