(* ===== verification/Agent_Properties.thy ===== *)
theory Agent_Properties
  imports Mock_Provider Runtime_Sync
begin

text \<open>
  What the trace of an agent's execution shows: it replays to the state of the run that the result
  reports, the retained output is bounded and the chunks are numbered, whatever provider answers; when
  the loop ends; and which forks can be continued.
\<close>

section \<open>Traces that replay\<close>

definition trace_state :: "run_id \<Rightarrow> event_trace \<Rightarrow> (runtime_state, store_error) result" where
  "trace_state r t = try_fold apply_event (runtime_state_new r) (trace_events t)"

text \<open>The run is at a status with the agent at a status and with a usage.\<close>

definition run_at :: "run_id \<Rightarrow> agent_id \<Rightarrow> event_trace \<Rightarrow> run_status \<Rightarrow> agent_state \<Rightarrow> bool" where
  "run_at r a t st g \<longleftrightarrow> (\<exists>s. trace_state r t = Ok s \<and> rs_run s = r \<and> rs_applied s \<noteq> 0 \<and> rs_status s = st \<and>
     bm_get (rs_agents s) a = Some g)"

lemma record_kind_events [simp]:
  "trace_events (record_kind H r k t) = trace_events t @ [\<lparr>event_ident = fst (ah_stamp H (trace_len t)), event_run = r,
     occurred_at_ms = snd (ah_stamp H (trace_len t)), event_knd = k\<rparr>]"
  by (simp add: record_kind_def trace_record_def)

lemma applied_not_0: "saturating_add n (1 :: u64) \<noteq> 0"
proof -
  have "unat (saturating_add n (1 :: u64)) \<noteq> 0" by (simp add: unat_saturating_add)
  then show ?thesis by auto
qed

lemma run_at_record:
  assumes "run_at r a t RsActive g"
    and "\<And>s. bm_get (rs_agents s) a = Some g \<Longrightarrow> rs_run s = r \<Longrightarrow> \<exists>s'. apply_kind k s = Ok s' \<and>
      bm_get (rs_agents s') a = Some g' \<and> (rs_status s = RsActive \<longrightarrow> rs_status s' = st)"
    and "\<not> is_run_created k"
  shows "run_at r a (record_kind H r k t) st g'"
proof -
  from assms(1) obtain s where s: "trace_state r t = Ok s" "rs_run s = r" "rs_applied s \<noteq> 0"
    "rs_status s = RsActive" "bm_get (rs_agents s) a = Some g" by (auto simp: run_at_def)
  from assms(2) [OF s(5,2)] s(4) obtain s' where "apply_kind k s = Ok s'"
    and "bm_get (rs_agents s') a = Some g'" and "rs_status s' = st" by blast
  with s apply_kind_frame [OF this(1)] show ?thesis
    by (simp add: run_at_def trace_state_def try_fold_append apply_event_def run_ended_def applied_not_0)
qed

lemma run_at_chunk:
  assumes "run_at r a t RsActive g"
  shows "run_at r a (record_kind H r (ModelChunkReceived a i) t) RsActive
    (g\<lparr>ag_chunks := saturating_add (ag_chunks g) 1\<rparr>)"
  by (rule run_at_record [OF assms]) (simp_all add: with_agent_def bm_get_insert)

lemma run_at_agent:
  assumes "run_at r a t RsActive g"
  shows "run_at r a (record_kind H r (ModelCancelled a) t) RsActive (g\<lparr>ag_status := AgCancelled\<rparr>)"
    and "run_at r a (record_kind H r (ModelFailed a m) t) RsActive (g\<lparr>ag_status := AgFailed\<rparr>)"
    and "run_at r a (record_kind H r (ModelCompleted a u) t) RsActive (g\<lparr>ag_status := AgCompleted, ag_usage := u\<rparr>)"
  by (rule run_at_record [OF assms]; simp add: with_agent_def set_status_def bm_get_insert)+

lemma run_at_end:
  assumes "run_at r a t RsActive g" and "agent_ended (ag_status g)"
  shows "run_at r a (record_kind H r (RunCancelled r) t) RsCancelled g"
    and "run_at r a (record_kind H r (RunFailed r m) t) RsFailed g"
    and "run_at r a (record_kind H r (RunCompleted r) t) RsCompleted g"
  by (rule run_at_record [OF assms(1)];
      use assms(2) in \<open>auto simp: end_run_def settle_agent_def agent_ended_def\<close>)+

lemma run_at_request:
  assumes "run_at r a t RsActive g" and "\<not> agent_ended (ag_status g)"
  shows "run_at r a (record_kind H r (ModelRequested a m) t) RsActive (g\<lparr>ag_model := m, ag_status := AgRunning\<rparr>)"
  by (rule run_at_record [OF assms(1)]) (simp_all add: with_agent_def request_model_def assms(2) bm_get_insert)

section \<open>What the loop keeps\<close>

text \<open>
  An invariant that every item keeps, and a property of every error, hold of what the loop returns.
\<close>

lemma agent_item_Err: "agent_item H a r item p = Err e \<Longrightarrow> \<exists>m. e = stop_agent H a r (ap_trace p) m"
  by (auto simp: agent_item_def split: result.splits prod.splits)

text \<open>One round of the loop, from the induction rule of its definition.\<close>

lemma agent_loop_induct [consumes 1, case_names ended cancelled stopped again]:
  assumes "agent_loop H a r pull s n p = Some y"
    and ended: "\<And>s n p s' n'. pull s n = (None, s', n') \<Longrightarrow> P s n p (Ok p, n')"
    and cancelled: "\<And>s n p x s' n'. \<lbrakk>pull s n = (Some x, s', n'); ah_cancelled H n'\<rbrakk> \<Longrightarrow>
      P s n p (Err (agent_cancelled H a r (ap_trace p)), Suc n')"
    and stopped: "\<And>s n p x s' n' e. \<lbrakk>pull s n = (Some x, s', n'); \<not> ah_cancelled H n'; agent_item H a r x p = Err e\<rbrakk> \<Longrightarrow>
      P s n p (Err e, Suc n')"
    and again: "\<And>s n p x s' n' q y. \<lbrakk>pull s n = (Some x, s', n'); \<not> ah_cancelled H n'; agent_item H a r x p = Ok q;
      P s' (Suc n') q y\<rbrakk> \<Longrightarrow> P s n p y"
  shows "P s n p y"
proof -
  let ?Q = "\<lambda>H' a' r' pull' s n p y. H' = H \<and> a' = a \<and> r' = r \<and> pull' = pull \<longrightarrow> P s n p y"
  have "?Q H a r pull s n p y"
  proof (rule agent_loop.raw_induct [where P = ?Q, OF _ assms(1)], rule impI)
    fix loop H' a' r' pull' s n p y
    assume IH: "\<And>H' a' r' pull' s n p y. loop H' a' r' pull' s n p = Some y \<Longrightarrow> ?Q H' a' r' pull' s n p y"
      and body: "(case pull' s n of (item, s', n') \<Rightarrow> (case item of None \<Rightarrow> Some (Ok p, n')
        | Some item \<Rightarrow> if ah_cancelled H' n' then Some (Err (agent_cancelled H' a' r' (ap_trace p)), Suc n')
          else (case agent_item H' a' r' item p of Err e \<Rightarrow> Some (Err e, Suc n')
            | Ok p' \<Rightarrow> loop H' a' r' pull' s' (Suc n') p'))) = Some y"
      and same: "H' = H \<and> a' = a \<and> r' = r \<and> pull' = pull"
    obtain item s' n' where pull: "pull s n = (item, s', n')" by (cases "pull s n")
    have rest: "loop H a r pull s n p = Some y \<Longrightarrow> P s n p y" for s n p y using IH by blast
    from body same pull show "P s n p y"
      by (auto split: option.splits if_splits result.splits intro: ended cancelled stopped again rest)
  qed
  then show ?thesis by simp
qed

lemma agent_loop_rule:
  assumes "agent_loop H a r pull s n p = Some y" and "I p"
    and step: "\<And>p item p'. I p \<Longrightarrow> agent_item H a r item p = Ok p' \<Longrightarrow> I p'"
    and stop: "\<And>p e. I p \<Longrightarrow> E (stop_agent H a r (ap_trace p) e)"
  shows "case fst y of Ok p' \<Rightarrow> I p' | Err e \<Rightarrow> E e"
  using assms(1,2)
proof (induction rule: agent_loop_induct)
  case (cancelled s n p x s' n')
  then show ?case using stop [of p None] by (simp add: stop_agent_def)
next
  case (stopped s n p x s' n' e)
  then show ?case using agent_item_Err [of H a r x p e] stop by auto
next
  case (again s n p x s' n' q y)
  then show ?case using step by blast
qed simp

section \<open>Executions\<close>

text \<open>What a returned result says of its trace.\<close>

definition usage_recorded :: "agent_execution \<Rightarrow> bool" where
  "usage_recorded x \<longleftrightarrow> (\<exists>g. run_at (ax_run x) (agent_ident (ax_agent x)) (ax_trace x) RsCompleted g \<and>
     ag_status g = AgCompleted \<and> ag_usage g = ax_usage x)"

fun error_recorded :: "run_id \<Rightarrow> agent_id \<Rightarrow> agent_error \<Rightarrow> bool" where
  "error_recorded r a (InvalidFork m t) \<longleftrightarrow> False"
| "error_recorded r a (AgentWasCancelled t) \<longleftrightarrow> (\<exists>g. run_at r a t RsCancelled g \<and> ag_status g = AgCancelled)"
| "error_recorded r a (AgentProvider e t) \<longleftrightarrow> (\<exists>g. run_at r a t RsFailed g \<and> ag_status g = AgFailed) \<and>
     event_knd (last (trace_events t)) = RunFailed r (provider_error_message e)"

definition running :: "run_id \<Rightarrow> agent_id \<Rightarrow> event_trace \<Rightarrow> bool" where
  "running r a t \<longleftrightarrow> (\<exists>g. run_at r a t RsActive g \<and> ag_status g = AgRunning)"

lemma failed_recorded:
  assumes "running r a t"
  shows "error_recorded r a (agent_failed H a r t e)"
proof -
  from assms obtain g where "run_at r a t RsActive g" by (auto simp: running_def)
  from run_at_end(2) [OF run_at_agent(2) [OF this]] show ?thesis
    by (fastforce simp: agent_failed_def agent_ended_def)
qed

lemma cancelled_recorded:
  assumes "running r a t"
  shows "error_recorded r a (agent_cancelled H a r t)"
proof -
  from assms obtain g where "run_at r a t RsActive g" by (auto simp: running_def)
  from run_at_end(1) [OF run_at_agent(1) [OF this]] show ?thesis
    by (fastforce simp: agent_cancelled_def agent_ended_def)
qed

lemma stop_recorded: "running r a t \<Longrightarrow> error_recorded r a (stop_agent H a r t e)"
  by (cases e) (simp_all add: stop_agent_def failed_recorded cancelled_recorded)

lemma running_chunk:
  assumes "running r a t"
  shows "running r a (record_kind H r (ModelChunkReceived a i) t)"
proof -
  from assms obtain g where g: "run_at r a t RsActive g" "ag_status g = AgRunning" by (auto simp: running_def)
  from run_at_chunk [OF g(1)] g(2) show ?thesis by (fastforce simp: running_def)
qed

text \<open>An item leaves the trace alone or appends a chunk.\<close>

lemma agent_event_trace: "agent_event ev p = Ok (b, q) \<Longrightarrow> ap_trace q = ap_trace p \<and> ap_next_chunk q = ap_next_chunk p"
  by (cases ev) (auto simp: malformed_def Let_def split: if_splits)

lemma agent_item_Ok:
  assumes "agent_item H a r item p = Ok p'"
  obtains ev b q where "item = Ok ev" and "agent_event ev p = Ok (b, q)" and "\<not> ap_finished p"
    and "provider_event_validate ev = Ok ()" and "p' = (if b then record_chunk H a r q else q)"
  using assms that
  by (auto simp: agent_item_def check_item_def split: result.splits provider_error.splits if_splits prod.splits)

lemma item_keeps_running:
  assumes "running r a (ap_trace p)" and "agent_item H a r item p = Ok p'"
  shows "running r a (ap_trace p')"
proof -
  from assms(2) obtain ev b q where "agent_event ev p = Ok (b, q)" "p' = (if b then record_chunk H a r q else q)"
    by (rule agent_item_Ok)
  with agent_event_trace [OF this(1)] assms(1) show ?thesis by (simp add: record_chunk_def running_chunk)
qed

lemma finish_recorded:
  assumes "running r (agent_ident i) (ap_trace p)"
  shows "case agent_finish H i r t n p of Ok x \<Rightarrow> ax_run x = r \<and> ax_task x = t \<and> ax_agent x = i \<and> usage_recorded x
    | Err e \<Rightarrow> error_recorded r (agent_ident i) e"
proof -
  from assms obtain g where "run_at r (agent_ident i) (ap_trace p) RsActive g" by (auto simp: running_def)
  from run_at_end(3) [OF run_at_agent(3) [OF this]] assms show ?thesis
    by (fastforce simp: agent_finish_def cancelled_recorded failed_recorded usage_recorded_def agent_ended_def)
qed

text \<open>How an execution ends: the provider refuses the request, or the loop ends.\<close>

abbreviation requested :: "agent_host \<Rightarrow> agent_identity \<Rightarrow> run_id \<Rightarrow> event_trace \<Rightarrow> event_trace" where
  "requested H i r trace \<equiv> record_kind H r (ModelRequested (agent_ident i) (agent_model i)) trace"

lemma agent_execute_Some:
  assumes "agent_execute H i mp r t prompt trace = Some res"
  obtains (refused) e where "res = Err (agent_failed H (agent_ident i) r (requested H i r trace) e)"
  | (looped) s y where "mp_open mp (model_request_new r (task_ident t) (agent_ident i) (agent_model i) prompt) = Ok s"
      and "agent_loop H (agent_ident i) r (mp_pull mp) s 0 (agent_start (requested H i r trace)) = Some y"
      and "res = (case fst y of Err e \<Rightarrow> Err e | Ok p \<Rightarrow> agent_finish H i r t (snd y) p)"
proof -
  have "mr_model (model_request_new r (task_ident t) (agent_ident i) (agent_model i) prompt) = agent_model i"
    by (simp add: model_request_new_def)
  with assms that show ?thesis
    by (auto simp: agent_execute_def Let_def split: option.splits prod.splits result.splits)
qed

lemma execute_recorded:
  assumes "agent_execute H i mp r t prompt trace = Some res"
    and "run_at r (agent_ident i) trace RsActive g" and "\<not> agent_ended (ag_status g)"
  shows "case res of Ok x \<Rightarrow> ax_run x = r \<and> ax_task x = t \<and> ax_agent x = i \<and> usage_recorded x
    | Err e \<Rightarrow> error_recorded r (agent_ident i) e"
proof -
  have start: "running r (agent_ident i) (requested H i r trace)"
    using run_at_request [OF assms(2,3)] by (fastforce simp: running_def)
  from assms(1) show ?thesis
  proof (cases rule: agent_execute_Some)
    case (refused e)
    with failed_recorded [OF start] show ?thesis by simp
  next
    case (looped s y)
    have "case fst y of Ok p \<Rightarrow> running r (agent_ident i) (ap_trace p) | Err e \<Rightarrow> error_recorded r (agent_ident i) e"
      by (rule agent_loop_rule [OF looped(2)])
        (use start in \<open>auto simp: agent_start_def item_keeps_running stop_recorded\<close>)
    with looped(3) finish_recorded show ?thesis by (cases "fst y") simp_all
  qed
qed

section \<open>What a result retains\<close>

text \<open>The index of a chunk, and the numbers a counter that saturates gives.\<close>

fun chunk_number :: "event \<Rightarrow> u32 option" where
  "chunk_number ev = (case event_knd ev of ModelChunkReceived a n \<Rightarrow> Some n | _ \<Rightarrow> None)"

definition numbered :: "nat \<Rightarrow> u32 list" where
  "numbered k = map (\<lambda>j. of_nat (min j (2 ^ 32 - 1))) [0..<k]"

definition retained_ok :: "string list \<Rightarrow> tool_call list \<Rightarrow> bool" where
  "retained_ok chunks calls \<longleftrightarrow> (\<forall>c \<in> set chunks. c \<noteq> []) \<and> length chunks \<le> 65536 \<and>
     length (concat chunks) \<le> 4194304 \<and> length calls \<le> 128 \<and>
     (\<forall>c \<in> set calls. length (call_arguments c) \<le> 4194304)"

definition retains :: "agent_progress \<Rightarrow> bool" where
  "retains p \<longleftrightarrow> retained_ok (ap_chunks p) (ap_calls p) \<and> ap_retained p = length (concat (ap_chunks p)) \<and>
     (\<exists>k. List.map_filter chunk_number (trace_events (ap_trace p)) = numbered k \<and>
       ap_next_chunk p = of_nat (min k (2 ^ 32 - 1)) \<and> length (ap_chunks p) + length (ap_calls p) \<le> k)"

lemma next_number: "saturating_add (of_nat (min k (2 ^ 32 - 1)) :: u32) 1 = of_nat (min (Suc k) (2 ^ 32 - 1))"
  by (rule word_unat_eq_iff [THEN iffD2])
    (auto simp: unat_saturating_add unsigned_of_nat take_bit_nat_eq_self min_def)

lemma numbered_Suc: "numbered (Suc k) = numbered k @ [of_nat (min k (2 ^ 32 - 1))]"
  by (simp add: numbered_def)

lemma retained_ok_iff: "retained_ok chunks calls \<longleftrightarrow> (\<forall>c \<in> set chunks. c \<noteq> []) \<and>
    length chunks \<le> MAX_OUTPUT_CHUNKS \<and> length (concat chunks) \<le> MAX_AGENT_OUTPUT_BYTES \<and>
    length calls \<le> MAX_TOOL_CALLS \<and> (\<forall>c \<in> set calls. length (call_arguments c) \<le> MAX_PROVIDER_PAYLOAD_BYTES)"
  by (simp add: retained_ok_def MAX_OUTPUT_CHUNKS_def MAX_AGENT_OUTPUT_BYTES_def MAX_TOOL_CALLS_def
      MAX_PROVIDER_PAYLOAD_BYTES_def)

lemma usize_sat_add_small: "\<not> MAX_AGENT_OUTPUT_BYTES < usize_sat_add a b \<Longrightarrow> usize_sat_add a b = a + b"
  by (auto simp: usize_sat_add_def MAX_AGENT_OUTPUT_BYTES_def min_def split: if_splits)

text \<open>How one event changes what is retained.\<close>

lemma agent_event_retains:
  assumes "agent_event ev p = Ok (b, q)" and "retained_ok (ap_chunks p) (ap_calls p)"
    and "ap_retained p = length (concat (ap_chunks p))"
  shows "retained_ok (ap_chunks q) (ap_calls q) \<and> ap_retained q = length (concat (ap_chunks q)) \<and>
    length (ap_chunks q) + length (ap_calls q) \<le> length (ap_chunks p) + length (ap_calls p) + (if b then 1 else 0)"
proof (cases ev)
  case (TextDelta v)
  show ?thesis
  proof (cases "v = []")
    case False
    with assms(1) TextDelta have room: "length (ap_chunks p) < MAX_OUTPUT_CHUNKS"
      and size: "\<not> MAX_AGENT_OUTPUT_BYTES < usize_sat_add (ap_retained p) (length v)"
      and q: "b" "q = p\<lparr>ap_retained := usize_sat_add (ap_retained p) (length v), ap_chunks := ap_chunks p @ [v]\<rparr>"
      by (auto simp: Let_def split: if_splits)
    from usize_sat_add_small [OF size] size room False q assms(2,3) show ?thesis
      by (auto simp: retained_ok_iff)
  qed (use assms TextDelta in simp)
next
  case (ToolCallCompleted c)
  with assms show ?thesis by (auto simp: malformed_def retained_ok_iff split: if_splits)
qed (use assms in \<open>auto simp: malformed_def split: if_splits\<close>)

lemma record_chunk_next: "ap_next_chunk (record_chunk H a r q) = saturating_add (ap_next_chunk q) 1"
  by (simp add: record_chunk_def)

lemma item_keeps_retains:
  assumes "retains p" and "agent_item H a r item p = Ok p'"
  shows "retains p'"
proof -
  from assms(2) obtain ev b q where ev: "agent_event ev p = Ok (b, q)"
    and p': "p' = (if b then record_chunk H a r q else q)" by (rule agent_item_Ok)
  note same = agent_event_trace [OF ev]
  from assms(1) obtain k where k: "List.map_filter chunk_number (trace_events (ap_trace p)) = numbered k"
    "ap_next_chunk p = of_nat (min k (2 ^ 32 - 1))" "length (ap_chunks p) + length (ap_calls p) \<le> k"
    and ok: "retained_ok (ap_chunks p) (ap_calls p)" "ap_retained p = length (concat (ap_chunks p))"
    unfolding retains_def by blast
  note new = agent_event_retains [OF ev ok]
  have chunk: "List.map_filter chunk_number (trace_events (ap_trace (record_chunk H a r q))) = numbered (Suc k)"
    using same k by (simp add: record_chunk_def map_filter_def numbered_Suc)
  show ?thesis
  proof (cases b)
    case True
    have "length (ap_chunks q) + length (ap_calls q) \<le> Suc k" using new k(3) True by simp
    moreover have "ap_next_chunk (record_chunk H a r q) = of_nat (min (Suc k) (2 ^ 32 - 1))"
      using same k(2) next_number [of k] by (simp only: record_chunk_next)
    ultimately show ?thesis
      unfolding retains_def p' using True new chunk by (auto simp: record_chunk_def)
  next
    case False
    with new k same p' show ?thesis by (auto simp: retains_def)
  qed
qed

section \<open>Streams that end\<close>

text \<open>Pulled again and again, the stream ends, if nobody stops it before.\<close>

inductive stream_ends :: "'s pull \<Rightarrow> 's \<Rightarrow> nat \<Rightarrow> bool" for pull where
  no_item: "pull s n = (None, s', n') \<Longrightarrow> stream_ends pull s n"
| item: "pull s n = (Some x, s', n') \<Longrightarrow> stream_ends pull s' (Suc n') \<Longrightarrow> stream_ends pull s n"

lemma loop_returns: "stream_ends pull s n \<Longrightarrow> agent_loop H a r pull s n p \<noteq> None"
proof (induction s n arbitrary: p rule: stream_ends.induct)
  case (no_item s n s' n')
  then show ?case by (subst agent_loop.simps) simp
next
  case (item s n x s' n')
  then show ?case by (subst agent_loop.simps) (auto split: result.split)
qed

section \<open>Forks\<close>

lemma run_at_refuses:
  assumes "trace_state r t = Ok s" and "bm_get (rs_agents s) a = Some g" and "agent_ended (ag_status g)"
  shows "\<not> is_ok (trace_state r (record_kind H r (ModelRequested a m) t))"
  using assms
  by (auto simp: trace_state_def try_fold_append apply_event_def refuse_event_def with_agent_def request_model_def
      is_ok_iff)

text \<open>Every trace an execution returns begins with the one it has been started with.\<close>

definition grows :: "event_trace \<Rightarrow> event_trace \<Rightarrow> bool" where
  "grows t t' \<longleftrightarrow> (\<exists>more. trace_events t' = trace_events t @ more)"

lemma grows_record: "grows t t' \<Longrightarrow> grows t (record_kind H r k t')"
  by (auto simp: grows_def)

lemma grows_refl [simp]: "grows t t"
  by (simp add: grows_def)

lemma grows_stop: "grows t t' \<Longrightarrow> grows t (agent_error_trace (stop_agent H a r t' e))"
  by (cases e) (simp_all add: stop_agent_def agent_failed_def agent_cancelled_def grows_record)

lemma grows_failed: "grows t (agent_error_trace (agent_failed H a r t e))"
  using grows_stop [OF grows_refl, of t H a r "Some e"] by (simp add: stop_agent_def)

lemma grows_item: "grows t (ap_trace p) \<Longrightarrow> agent_item H a r item p = Ok p' \<Longrightarrow> grows t (ap_trace p')"
  by (erule agent_item_Ok) (auto simp: record_chunk_def grows_record dest!: agent_event_trace)

definition result_trace :: "(agent_execution, agent_error) result \<Rightarrow> event_trace" where
  "result_trace res = (case res of Ok x \<Rightarrow> ax_trace x | Err e \<Rightarrow> agent_error_trace e)"

lemma grows_finish: "grows t (ap_trace p) \<Longrightarrow> grows t (result_trace (agent_finish H i r k n p))"
  by (simp add: agent_finish_def result_trace_def agent_failed_def agent_cancelled_def grows_record)

lemma execute_grows:
  assumes "agent_execute H i mp r t prompt trace = Some res"
  shows "grows (requested H i r trace) (result_trace res)"
  using assms
proof (cases rule: agent_execute_Some)
  case (refused e)
  then show ?thesis by (simp add: result_trace_def grows_failed)
next
  case (looped s y)
  have "case fst y of Ok p \<Rightarrow> grows (requested H i r trace) (ap_trace p)
    | Err e \<Rightarrow> grows (requested H i r trace) (agent_error_trace e)"
    by (rule agent_loop_rule [OF looped(2)]) (simp_all add: agent_start_def grows_item grows_stop)
  with looped(3) grows_finish show ?thesis by (cases "fst y") (simp_all add: result_trace_def)
qed

lemma grows_refused:
  assumes "grows t t'" and "\<not> is_ok (trace_state r t)"
  shows "\<not> is_ok (trace_state r t')"
  using assms by (auto simp: grows_def trace_state_def try_fold_append is_ok_iff)

text \<open>A prefix without the end of its run leaves the run active.\<close>

lemma accepted_active:
  assumes "try_fold apply_event s evs = Ok s'" and "\<forall>ev \<in> set evs. \<not> is_run_end (event_knd ev)" and "rs_status s = RsActive"
  shows "rs_status s' = RsActive \<and> rs_run s' = rs_run s \<and> (evs = [] \<or> rs_applied s' \<noteq> 0)"
  using assms
proof (induction evs arbitrary: s)
  case (Cons ev evs)
  then obtain s1 where ev: "apply_event s ev = Ok s1" and rest: "try_fold apply_event s1 evs = Ok s'" by auto
  from ev obtain s2 where s2: "apply_kind (event_knd ev) s = Ok s2"
    and s1: "s1 = s2\<lparr>rs_applied := saturating_add (rs_applied s) 1\<rparr>" by (rule apply_event_Ok) blast
  have "\<not> run_ended (rs_status s1)" using apply_kind_status [OF s2] Cons.prems s1 by (simp add: run_ended_def)
  then have "rs_status s1 = RsActive" by (cases "rs_status s1") (simp_all add: run_ended_def)
  with Cons.IH [OF rest] Cons.prems apply_kind_frame(1) [OF s2] s1 rest show ?case
    by (cases evs) (auto simp: applied_not_0)
qed simp

lemma fork_prefix_at:
  assumes "validate_fork_prefix prefix r t a = Ok u" and "trace_state r prefix = Ok s" and "bm_get (rs_agents s) a = Some g"
  shows "run_at r a prefix RsActive g"
proof -
  have evs: "trace_events prefix \<noteq> []" and "\<forall>ev \<in> set (trace_events prefix). \<not> is_run_end (event_knd ev)"
    using assms(1) by (auto simp: validate_fork_prefix_def Let_def list_ex_iff split: if_splits)
  from accepted_active [OF assms(2) [unfolded trace_state_def] this(2)] evs assms show ?thesis
    by (simp add: run_at_def runtime_state_new_def)
qed

lemma run_at_is_ok: "run_at r a t st g \<Longrightarrow> is_ok (trace_state r t)"
  by (auto simp: run_at_def)

lemma recorded_is_ok:
  "usage_recorded x \<Longrightarrow> is_ok (trace_state (ax_run x) (ax_trace x))"
  "error_recorded r a e \<Longrightarrow> is_ok (trace_state r (agent_error_trace e))"
  by (auto simp: usage_recorded_def run_at_is_ok) (cases e; auto simp: run_at_is_ok)

section \<open>Properties\<close>

text \<open>The first three events of a run.\<close>

lemma run_start:
  "\<exists>g. run_at r (agent_ident i) (record_kind H r (AgentCreated i) (record_kind H r (TaskCreated t r prompt)
    (record_kind H r (RunCreated r) \<lparr>trace_events = []\<rparr>))) RsActive g \<and> ag_status g = AgCreated"
  by (simp add: run_at_def trace_state_def apply_event_def create_run_def create_task_def create_agent_def
      runtime_state_new_def run_ended_def applied_not_0 bm_contains_key_def bm_get_insert)

text \<open>
  C14: an execution accounts for itself. Whatever the provider's stream does and whenever the run is
  cancelled, the trace a session returns replays: after a success to a completed run whose agent is
  completed with the reported usage, after a cancellation to a cancelled run and agent, and after a
  failure to a failed run and agent, with the provider's error as the last event.
\<close>

theorem agent_run_recorded:
  assumes "agent_run H i mp r t prompt = Some res"
  shows "case res of
      Ok x \<Rightarrow> ax_run x = r \<and> ax_task x = \<lparr>task_ident = t, task_run = r, task_title = prompt\<rparr> \<and> ax_agent x = i \<and>
        usage_recorded x
    | Err e \<Rightarrow> error_recorded r (agent_ident i) e"
proof -
  from run_start [of r i H t prompt] obtain g where
    "run_at r (agent_ident i) (record_kind H r (AgentCreated i) (record_kind H r (TaskCreated t r prompt)
      (record_kind H r (RunCreated r) \<lparr>trace_events = []\<rparr>))) RsActive g" "ag_status g = AgCreated" by blast
  with assms show ?thesis
    unfolding agent_run_def by (intro execute_recorded) (auto simp: agent_ended_def)
qed

text \<open>
  What a session keeps is bounded and numbered. Whatever a provider streams, a successful result
  holds at most 65536 text chunks, none of them empty, of at most 4 MiB together, and at most 128 tool
  calls with arguments of at most 4 MiB each. The chunk events of the trace are numbered from zero
  without gaps, up to the largest number, and every chunk and every call has one.
\<close>

theorem agent_output_bounded:
  assumes "agent_run H i mp r t prompt = Some (Ok x)"
  shows "(\<forall>c \<in> set (ax_output_chunks x). c \<noteq> []) \<and> length (ax_output_chunks x) \<le> 65536 \<and>
    length (output_text x) \<le> 4194304 \<and> length (ax_tool_calls x) \<le> 128 \<and>
    (\<forall>c \<in> set (ax_tool_calls x). length (call_arguments c) \<le> 4194304) \<and>
    (\<exists>k. List.map_filter chunk_number (trace_events (ax_trace x)) = numbered k \<and>
      length (ax_output_chunks x) + length (ax_tool_calls x) \<le> k)"
proof -
  let ?t = "record_kind H r (AgentCreated i) (record_kind H r (TaskCreated t r prompt)
    (record_kind H r (RunCreated r) \<lparr>trace_events = []\<rparr>))"
  from assms obtain s y where loop: "agent_loop H (agent_ident i) r (mp_pull mp) s 0 (agent_start (requested H i r ?t)) = Some y"
    and fin: "Ok x = (case fst y of Err e \<Rightarrow> Err e | Ok p \<Rightarrow>
      agent_finish H i r \<lparr>task_ident = t, task_run = r, task_title = prompt\<rparr> (snd y) p)"
    unfolding agent_run_def by (elim agent_execute_Some) auto
  have "retains (agent_start (requested H i r ?t))"
    by (simp add: retains_def agent_start_def retained_ok_def count_chunks_def map_filter_def numbered_def)
  then have "case fst y of Ok p \<Rightarrow> retains p | Err e \<Rightarrow> True"
    by (intro agent_loop_rule [OF loop]) (simp_all add: item_keeps_retains)
  with fin show ?thesis
    by (auto split: result.splits if_splits
        simp: agent_finish_def retains_def retained_ok_def output_text_def map_filter_def)
qed

text \<open>
  A session returns whenever the stream does. If every stream the provider opens comes to an end
  when it is pulled, the execution has a result, success or error.
\<close>

theorem agent_run_returns:
  assumes "\<And>q s. mp_open mp q = Ok s \<Longrightarrow> stream_ends (mp_pull mp) s 0"
  shows "\<exists>res. agent_run H i mp r t prompt = Some res"
proof -
  have never: False if "agent_loop H a r (mp_pull mp) s 0 p = None" and "mp_open mp q = Ok s" for a s p q
    using loop_returns [OF assms [OF that(2)]] that(1) by blast
  show ?thesis
    by (auto simp: agent_run_def agent_execute_def Let_def dest: never split: result.splits option.splits prod.splits)
qed

text \<open>
  C15: only a fork before the end of its agent can be continued. If a prefix passes the check and
  replays, the trace of its continuation replays exactly if the session's agent had not ended in the
  prefix, and then it shows the result; otherwise the provider is asked all the same, but what is
  returned, success or error, cannot be replayed.
\<close>

theorem fork_continuation_needs_live_agent:
  assumes "validate_fork_prefix prefix r t (agent_ident i) = Ok ()" and "trace_state r prefix = Ok s"
    and "bm_get (rs_agents s) (agent_ident i) = Some g" and "agent_run_fork H i mp r t prompt prefix = Some res"
  shows "(is_ok (trace_state r (result_trace res)) \<longleftrightarrow> \<not> agent_ended (ag_status g)) \<and>
    (\<not> agent_ended (ag_status g) \<longrightarrow> (case res of Ok x \<Rightarrow> ax_run x = r \<and> ax_agent x = i \<and> usage_recorded x
      | Err e \<Rightarrow> error_recorded r (agent_ident i) e))"
proof -
  have run: "agent_execute H i mp r t prompt prefix = Some res"
    using assms(1,4) by (simp add: agent_run_fork_def)
  show ?thesis
  proof (cases "agent_ended (ag_status g)")
    case True
    from grows_refused [OF execute_grows [OF run] run_at_refuses [OF assms(2,3) True]] True show ?thesis by simp
  next
    case False
    from execute_recorded [OF run fork_prefix_at [OF assms(1-3)] False] False show ?thesis
      by (auto simp: result_trace_def dest: recorded_is_ok split: result.splits)
  qed
qed

section \<open>Finite streams and the mock provider\<close>

text \<open>The fold over text chunks, and over events that only count.\<close>

lemma text_item:
  assumes "\<not> ap_finished p" and "c \<noteq> []" and "length (ap_chunks p) < 65536"
    and "ap_retained p + length c \<le> 4194304"
  shows "agent_item H a r (Ok (TextDelta c)) p =
    Ok (record_chunk H a r (p\<lparr>ap_retained := ap_retained p + length c, ap_chunks := ap_chunks p @ [c]\<rparr>))"
  using assms
  by (simp add: agent_item_def check_item_def provider_event_validate_def MAX_PROVIDER_PAYLOAD_BYTES_def
      MAX_OUTPUT_CHUNKS_def MAX_AGENT_OUTPUT_BYTES_def usize_sat_add_def Let_def)

lemma text_fold:
  assumes "\<not> ap_finished p" and "\<forall>c \<in> set cs. c \<noteq> []" and "length (ap_chunks p) + length cs \<le> 65536"
    and "ap_retained p + length (concat cs) \<le> 4194304"
  shows "\<exists>q. try_fold (\<lambda>p item. agent_item H a r item p) p (map (\<lambda>t. Ok (TextDelta t)) cs) = Ok q \<and>
    ap_chunks q = ap_chunks p @ cs \<and> \<not> ap_finished q \<and> ap_calls q = ap_calls p \<and> ap_active q = ap_active p"
  using assms
proof (induction cs arbitrary: p)
  case (Cons c cs)
  let ?p = "record_chunk H a r (p\<lparr>ap_retained := ap_retained p + length c, ap_chunks := ap_chunks p @ [c]\<rparr>)"
  from Cons.prems have "agent_item H a r (Ok (TextDelta c)) p = Ok ?p" by (intro text_item) simp_all
  moreover from Cons.prems Cons.IH [of ?p] obtain q where
    "try_fold (\<lambda>p item. agent_item H a r item p) ?p (map (\<lambda>t. Ok (TextDelta t)) cs) = Ok q"
    "ap_chunks q = ap_chunks ?p @ cs" "\<not> ap_finished q" "ap_calls q = ap_calls ?p" "ap_active q = ap_active ?p"
    by (auto simp: record_chunk_def)
  ultimately show ?case by (auto simp: record_chunk_def)
qed simp

lemma count_chunks_record:
  "count_chunks (record_kind H r k t) = (if is_chunk k then Suc (count_chunks t) else count_chunks t)"
  by (simp add: count_chunks_def)

lemma reasoning_fold:
  assumes "\<not> ap_finished p" and "length z \<le> 4194304"
  shows "\<exists>q. try_fold (\<lambda>p item. agent_item H a r item p) p (replicate k (Ok (ReasoningDelta z))) = Ok q \<and>
    ap_chunks q = ap_chunks p \<and> \<not> ap_finished q \<and> ap_calls q = ap_calls p \<and> ap_active q = ap_active p \<and>
    count_chunks (ap_trace q) = count_chunks (ap_trace p) + k"
  using assms
proof (induction k arbitrary: p)
  case (Suc k)
  have "agent_item H a r (Ok (ReasoningDelta z)) p = Ok (record_chunk H a r p)"
    using Suc.prems by (simp add: agent_item_def check_item_def provider_event_validate_def MAX_PROVIDER_PAYLOAD_BYTES_def)
  moreover from Suc.prems Suc.IH [of "record_chunk H a r p"] obtain q where
    "try_fold (\<lambda>p item. agent_item H a r item p) (record_chunk H a r p) (replicate k (Ok (ReasoningDelta z))) = Ok q"
    "ap_chunks q = ap_chunks p" "\<not> ap_finished q" "ap_calls q = ap_calls p" "ap_active q = ap_active p"
    "count_chunks (ap_trace q) = Suc (count_chunks (ap_trace p)) + k"
    by (auto simp: record_chunk_def count_chunks_record)
  ultimately show ?case by auto
qed simp

text \<open>A request whose prompt and model names fit is accepted by a mock provider of the same model.\<close>

lemma prompt_accepted:
  assumes "length prompt + length (model_provider m) + length (model_name m) \<le> 4194304"
  shows "validate_request m mock_capabilities (model_request_new r t a m prompt) = Ok ()"
  using assms
  by (simp add: validate_request_def model_request_validate_def model_request_new_def metadata_bytes_def tool_bytes_def
      extension_bytes_def usize_add_def usize_sat_add_def MAX_REQUEST_PARTS_def MAX_TOOL_DEFINITIONS_def
      MAX_PROVIDER_PAYLOAD_BYTES_def)

lemma prompt_text: "text_input (model_request_new r t a m prompt) = prompt"
  by (simp add: text_input_def model_request_new_def map_filter_def)

lemma chunks_of_text: "concat (text_chunks k s) = s \<and> (\<forall>c \<in> set (text_chunks k s). c \<noteq> [])"
proof (induction k s rule: text_chunks.induct)
  case (1 k s)
  then show ?case
    by (cases "s = []") (auto simp: text_chunks.simps [of k s] text_chunks.simps [of k "[]"] Let_def)
qed

text \<open>A session over a mock provider whose stream answers.\<close>

abbreviation run_begin :: "agent_host \<Rightarrow> agent_identity \<Rightarrow> run_id \<Rightarrow> task_id \<Rightarrow> string \<Rightarrow> agent_progress" where
  "run_begin H i r t prompt \<equiv> agent_start (requested H i r (record_kind H r (AgentCreated i)
     (record_kind H r (TaskCreated t r prompt) (record_kind H r (RunCreated r) \<lparr>trace_events = []\<rparr>))))"

lemma answered_run:
  assumes "\<And>k. \<not> ah_cancelled H k" and "mock_open mp (model_request_new r t (agent_ident i) (agent_model i) prompt) = Ok s"
    and "boxed_answers s" and "try_fold (\<lambda>p item. agent_item H (agent_ident i) r item p) (run_begin H i r t prompt) (boxed_items s) = Ok p"
    and "ap_finished p"
  shows "agent_run H i (mock_as_provider (ah_cancelled H) mp) r t prompt = Some (Ok \<lparr>ax_run = r,
    ax_task = \<lparr>task_ident = t, task_run = r, task_title = prompt\<rparr>, ax_agent = i, ax_output_chunks = ap_chunks p,
    ax_tool_calls = ap_calls p, ax_usage = ap_usage p, ax_trace = record_kind H r (RunCompleted r)
      (record_kind H r (ModelCompleted (agent_ident i) (ap_usage p)) (ap_trace p))\<rparr>)"
proof -
  have flag: "ah_cancelled H = (\<lambda>_. False)" using assms(1) by auto
  from boxed.loop_is_fold [OF assms(3) assms(1), of "agent_ident i" r 0 "run_begin H i r t prompt"] assms(4) obtain n where
    "agent_loop H (agent_ident i) r (cancellable (\<lambda>_. False) boxed_next) s 0 (run_begin H i r t prompt) = Some (Ok p, n)"
    by auto
  moreover have "mr_model (model_request_new r t (agent_ident i) (agent_model i) prompt) = agent_model i"
    by (simp add: model_request_new_def)
  ultimately show ?thesis
    using assms(2,5) flag by (simp add: agent_run_def agent_execute_def mock_as_provider_def Let_def agent_finish_def)
qed

lemma finish_item:
  assumes "\<not> ap_finished p" and "ap_active p = bm_empty"
  shows "agent_item H a r (Ok (Finish FinishStop)) p = Ok (p\<lparr>ap_finished := True\<rparr>)"
  using assms by (simp add: agent_item_def check_item_def provider_event_validate_def)

text \<open>
  A session over the mock provider answers. Without a cancellation, with a prompt that is not
  blank and fits, and a response of at most 4 MiB in at most 65536 chunks, the session returns a result
  whose text is the response, in chunks of the configured number of characters, without tool calls,
  and whose usage counts the words of prompt and response.
\<close>

theorem mock_session_answers:
  assumes "\<And>k. \<not> ah_cancelled H k" and "mock_model mp = agent_model i" and "mock_script mp = None"
    and "mock_failure_after mp = None" and "\<not> trim_is_empty prompt"
    and "length prompt + length (model_provider (agent_model i)) + length (model_name (agent_model i)) \<le> 4194304"
    and "length (mock_response mp) \<le> 4194304"
    and "length (text_chunks (mock_chunk_size mp) (mock_response mp)) \<le> 65536"
  shows "\<exists>x. agent_run H i (mock_as_provider (ah_cancelled H) mp) r t prompt = Some (Ok x) \<and>
    output_text x = mock_response mp \<and>
    ax_output_chunks x = text_chunks (mock_chunk_size mp) (mock_response mp) \<and> ax_tool_calls x = [] \<and>
    ax_usage x = usage_new (of_nat (length (split_whitespace prompt))) (of_nat (length (split_whitespace (mock_response mp))))"
proof -
  let ?t = "run_begin H i r t prompt" and ?cs = "text_chunks (mock_chunk_size mp) (mock_response mp)"
  let ?u = "usage_new (of_nat (length (split_whitespace prompt))) (of_nat (length (split_whitespace (mock_response mp))))"
  let ?s = "\<lparr>ms_response = mock_response mp, ms_offset = 0, ms_chunk_size = mock_chunk_size mp, ms_usage = ?u,
    ms_failure_after = None, ms_emitted = 0, ms_sent_usage = False, ms_sent_finish = False\<rparr>"
  let ?item = "\<lambda>p item. agent_item H (agent_ident i) r item p"
  have start: "mock_open mp (model_request_new r t (agent_ident i) (agent_model i) prompt) = Ok (PlainStream ?s)"
    using assms by (simp add: mock_open_def prompt_accepted prompt_text MAX_PROVIDER_PAYLOAD_BYTES_def)
  note whole = chunks_of_text [of "mock_chunk_size mp" "mock_response mp"]
  with text_fold [of ?t ?cs H "agent_ident i" r] assms(7,8)
  obtain q where q: "try_fold ?item ?t (map (\<lambda>t. Ok (TextDelta t)) ?cs) = Ok q"
    "ap_chunks q = ?cs" "\<not> ap_finished q" "ap_calls q = []" "ap_active q = bm_empty"
    by (auto simp: agent_start_def)
  have "try_fold ?item q (mock_closing ?s) = Ok (q\<lparr>ap_usage := ?u, ap_finished := True\<rparr>)"
    using q(3,5) by (simp add: mock_closing_def agent_item_def check_item_def provider_event_validate_def)
  with q(1) have "try_fold ?item ?t (boxed_items (PlainStream ?s)) = Ok (q\<lparr>ap_usage := ?u, ap_finished := True\<rparr>)"
    by (simp add: try_fold_append del: try_fold.simps)
  from answered_run [OF assms(1) start _ this] q(2,4) whole show ?thesis by (simp add: output_text_def)
qed

text \<open>
  The limit on chunks does not hold for reasoning. However often a provider streams a reasoning
  delta before it finishes, the session accepts it: the result is a success without any text, and its
  trace has one chunk event for every delta.
\<close>

theorem reasoning_is_not_bounded:
  assumes "\<And>k. \<not> ah_cancelled H k" and "mock_model mp = agent_model i"
    and "mock_script mp = Some (replicate k (Ok (ReasoningDelta z)) @ [Ok (Finish FinishStop)])"
    and "length z \<le> 4194304" and "\<not> trim_is_empty prompt"
    and "length prompt + length (model_provider (agent_model i)) + length (model_name (agent_model i)) \<le> 4194304"
    and "length (mock_response mp) \<le> 4194304"
  shows "\<exists>x. agent_run H i (mock_as_provider (ah_cancelled H) mp) r t prompt = Some (Ok x) \<and>
    ax_output_chunks x = [] \<and> count_chunks (ax_trace x) = k"
proof -
  let ?t = "run_begin H i r t prompt" and ?xs = "replicate k (Ok (ReasoningDelta z)) @ [Ok (Finish FinishStop)]"
  let ?item = "\<lambda>p item. agent_item H (agent_ident i) r item p"
  have start: "mock_open mp (model_request_new r t (agent_ident i) (agent_model i) prompt) = Ok (ScriptedStream ?xs)"
    using assms by (simp add: mock_open_def prompt_accepted prompt_text MAX_PROVIDER_PAYLOAD_BYTES_def)
  have "count_chunks (ap_trace ?t) = 0"
    by (simp add: agent_start_def count_chunks_record) (simp add: count_chunks_def)
  with reasoning_fold [of ?t z H "agent_ident i" r k] assms(4)
  obtain q where q: "try_fold ?item ?t (replicate k (Ok (ReasoningDelta z))) = Ok q"
    "ap_chunks q = []" "\<not> ap_finished q" "ap_active q = bm_empty" "count_chunks (ap_trace q) = k"
    by (auto simp: agent_start_def)
  then have "try_fold ?item ?t (boxed_items (ScriptedStream ?xs)) = Ok (q\<lparr>ap_finished := True\<rparr>)"
    by (simp add: try_fold_append finish_item)
  from answered_run [OF assms(1) start _ this] q(2,5) show ?thesis by (simp add: count_chunks_record)
qed

section \<open>Examples\<close>

definition demo_host :: agent_host where
  "demo_host = \<lparr>ah_stamp = (\<lambda>n. (of_nat n, 0)), ah_cancelled = (\<lambda>_. False)\<rparr>"

definition demo_mock :: mock_provider where
  "demo_mock = with_script [Ok (TextDelta ''ok''), Ok (Finish FinishStop)]
     (mock_provider_new (agent_model (demo_agent 7)) ''ok'')"

lemmas demo_mock_defs = with_script_def mock_provider_new_def demo_agent_def model_ref_new_def

lemma demo_prompt: "\<not> trim_is_empty ''hi''"
  by (simp add: trim_is_empty_def)

lemma demo_run:
  "\<exists>x. agent_run demo_host (demo_agent 7) (mock_as_provider (ah_cancelled demo_host) demo_mock) 1 2 ''hi'' = Some (Ok x) \<and>
    output_text x = ''ok''"
proof -
  let ?t = "run_begin demo_host (demo_agent 7) 1 2 ''hi''" and ?xs = "[Ok (TextDelta ''ok''), Ok (Finish FinishStop)]"
  let ?item = "\<lambda>p item. agent_item demo_host (agent_ident (demo_agent 7)) 1 item p"
  have "mock_open demo_mock (model_request_new 1 2 (agent_ident (demo_agent 7)) (agent_model (demo_agent 7)) ''hi'') =
      Ok (ScriptedStream ?xs)"
    by (simp add: mock_open_def prompt_accepted prompt_text demo_mock_def demo_mock_defs MAX_PROVIDER_PAYLOAD_BYTES_def
        demo_prompt)
  moreover have "\<exists>p. try_fold ?item ?t (boxed_items (ScriptedStream ?xs)) = Ok p \<and> ap_chunks p = [''ok''] \<and> ap_finished p"
    by (simp add: text_item finish_item agent_start_def record_chunk_def)
  ultimately show ?thesis
    using answered_run [of demo_host demo_mock 1 2 "demo_agent 7" "''hi''"]
    by (fastforce simp: demo_host_def output_text_def)
qed

theorem agent_run_recorded_witness:
  "\<exists>x. agent_run demo_host (demo_agent 7) (mock_as_provider (ah_cancelled demo_host) demo_mock) 1 2 ''hi'' = Some (Ok x) \<and>
    usage_recorded x"
proof -
  obtain x where x: "agent_run demo_host (demo_agent 7) (mock_as_provider (ah_cancelled demo_host) demo_mock) 1 2 ''hi'' =
    Some (Ok x)" using demo_run by blast
  from agent_run_recorded [OF x] x show ?thesis by simp
qed

theorem agent_output_bounded_witness:
  "\<exists>x. agent_run demo_host (demo_agent 7) (mock_as_provider (ah_cancelled demo_host) demo_mock) 1 2 ''hi'' = Some (Ok x) \<and>
    output_text x = ''ok'' \<and>
    (\<exists>k. List.map_filter chunk_number (trace_events (ax_trace x)) = numbered k \<and> length (ax_output_chunks x) \<le> k)"
proof -
  obtain x where x: "agent_run demo_host (demo_agent 7) (mock_as_provider (ah_cancelled demo_host) demo_mock) 1 2 ''hi'' =
    Some (Ok x)" and out: "output_text x = ''ok''" using demo_run by blast
  from agent_output_bounded [OF x] obtain k where
    "List.map_filter chunk_number (trace_events (ax_trace x)) = numbered k" "length (ax_output_chunks x) \<le> k" by auto
  with x out show ?thesis by blast
qed

lemma scripted_ends: "stream_ends (cancellable (\<lambda>_. False) boxed_next) (ScriptedStream xs) n"
  by (induction xs arbitrary: n) (auto intro: no_item item simp: cancellable_def)

theorem agent_run_returns_witness:
  "\<exists>res. agent_run demo_host (demo_agent 7) (mock_as_provider (\<lambda>_. False) demo_mock) 1 2 ''hi'' = Some res"
proof (rule agent_run_returns)
  fix q s
  assume "mp_open (mock_as_provider (\<lambda>_. False) demo_mock) q = Ok s"
  then obtain xs where "s = ScriptedStream xs"
    by (auto simp: mock_as_provider_def mock_open_def demo_mock_def with_script_def split: if_splits)
  then show "stream_ends (mp_pull (mock_as_provider (\<lambda>_. False) demo_mock)) s 0"
    by (simp add: mock_as_provider_def scripted_ends)
qed

text \<open>A prefix in which the model has answered, and a provider that refuses.\<close>

definition demo_prefix :: event_trace where
  "demo_prefix = record_kind demo_host 1 (ModelCompleted 7 (usage_new 0 0)) (requested demo_host (demo_agent 7) 1
     (record_kind demo_host 1 (AgentCreated (demo_agent 7)) (record_kind demo_host 1 (TaskCreated 2 1 ''hi'')
       (record_kind demo_host 1 (RunCreated 1) \<lparr>trace_events = []\<rparr>))))"

definition demo_refusal :: "unit model_provider" where
  "demo_refusal = \<lparr>mp_open = (\<lambda>_. Err ProviderTimeout), mp_pull = (\<lambda>s n. (None, s, n))\<rparr>"

lemma demo_prefix_state:
  "\<exists>s g. trace_state 1 demo_prefix = Ok s \<and> bm_get (rs_agents s) (agent_ident (demo_agent 7)) = Some g \<and>
    agent_ended (ag_status g)"
  by (simp add: trace_state_def demo_prefix_def demo_agent_def apply_event_def create_run_def create_task_def create_agent_def
      runtime_state_new_def run_ended_def applied_not_0 bm_contains_key_def bm_get_insert with_agent_def
      request_model_def agent_ended_def)

theorem fork_continuation_needs_live_agent_witness:
  "\<exists>res. agent_run_fork demo_host (demo_agent 7) demo_refusal 1 \<lparr>task_ident = 2, task_run = 1, task_title = ''hi''\<rparr> ''hi''
      demo_prefix = Some res \<and> \<not> is_ok (trace_state 1 (result_trace res))"
proof -
  let ?t = "\<lparr>task_ident = 2, task_run = 1, task_title = ''hi''\<rparr>"
  have valid: "validate_fork_prefix demo_prefix 1 ?t (agent_ident (demo_agent 7)) = Ok ()"
    by (simp add: validate_fork_prefix_def demo_prefix_def is_run_end_def Let_def)
  obtain s g where state: "trace_state 1 demo_prefix = Ok s" "bm_get (rs_agents s) (agent_ident (demo_agent 7)) = Some g"
    and ended: "agent_ended (ag_status g)" using demo_prefix_state by blast
  obtain res where res: "agent_run_fork demo_host (demo_agent 7) demo_refusal 1 ?t ''hi'' demo_prefix = Some res"
    using valid by (simp add: agent_run_fork_def agent_execute_def demo_refusal_def Let_def)
  from fork_continuation_needs_live_agent [OF valid state res] ended res show ?thesis by blast
qed

theorem mock_session_answers_witness:
  "\<exists>x. agent_run demo_host (demo_agent 7) (mock_as_provider (ah_cancelled demo_host)
      (with_chunk_size 2 (mock_provider_new (agent_model (demo_agent 7)) ''abcd''))) 1 2 ''hi'' = Some (Ok x) \<and>
    output_text x = ''abcd'' \<and> ax_output_chunks x = [''ab'', ''cd'']"
proof -
  let ?m = "with_chunk_size 2 (mock_provider_new (agent_model (demo_agent 7)) ''abcd'')"
  have "text_chunks (mock_chunk_size ?m) (mock_response ?m) = [''ab'', ''cd'']"
    by (simp add: with_chunk_size_def mock_provider_new_def text_chunks.simps len_utf8_def Let_def numeral_2_eq_2)
  then show ?thesis
    using mock_session_answers [of demo_host ?m "demo_agent 7" "''hi''" 1 2]
    by (fastforce simp: demo_host_def with_chunk_size_def demo_mock_defs demo_prompt)
qed

theorem reasoning_is_not_bounded_witness:
  "\<exists>x. agent_run demo_host (demo_agent 7) (mock_as_provider (ah_cancelled demo_host)
      (with_script (replicate 70000 (Ok (ReasoningDelta ''r'')) @ [Ok (Finish FinishStop)])
        (mock_provider_new (agent_model (demo_agent 7)) ''''))) 1 2 ''hi'' = Some (Ok x) \<and>
    count_chunks (ax_trace x) = 70000"
  using reasoning_is_not_bounded [of demo_host "with_script (replicate 70000 (Ok (ReasoningDelta ''r'')) @ [Ok (Finish FinishStop)])
        (mock_provider_new (agent_model (demo_agent 7)) '''')" "demo_agent 7" 70000 "''r''" "''hi''" 1 2]
  by (auto simp: demo_host_def demo_mock_defs demo_prompt)

end
