(* ===== verification/Terminal_Plan.thy ===== *)
theory Terminal_Plan
  imports Tool_Runtime
begin

text \<open>
  Terminal plans, process policies and file patterns (\<^verbatim>\<open>crates/terminal-tools/src/lib.rs\<close>): which
  operations a plan may hold and who must confirm it, which processes may be started with which
  arguments, and the matcher of file names. Paths are those of a POSIX platform.
\<close>

section \<open>Numbers\<close>

text \<open>\<open>str::parse::<usize>\<close>: digits after an optional plus, below 2 to the 64.\<close>

definition digit_value :: "char \<Rightarrow> nat option" where
  "digit_value c = (let b = of_char c :: nat in if 48 \<le> b \<and> b \<le> 57 then Some (b - 48) else None)"

fun parse_digits :: "nat \<Rightarrow> string \<Rightarrow> nat option" where
  "parse_digits n [] = Some n"
| "parse_digits n (c # s) = (case digit_value c of
      None \<Rightarrow> None
    | Some d \<Rightarrow> if 2 ^ 64 \<le> 10 * n + d then None else parse_digits (10 * n + d) s)"

definition parse_usize :: "string \<Rightarrow> usize option" where
  "parse_usize s = (let digits = (case s of c # r \<Rightarrow> if c = CHR ''+'' then r else s | [] \<Rightarrow> s)
     in if digits = [] then None else parse_digits 0 digits)"

section \<open>Plans\<close>

definition MAX_TERMINAL_OPERATIONS :: usize where "MAX_TERMINAL_OPERATIONS = 64"
definition MAX_TERMINAL_TEXT_BYTES :: usize where "MAX_TERMINAL_TEXT_BYTES = 4096"
definition MAX_TERMINAL_ARGUMENTS :: usize where "MAX_TERMINAL_ARGUMENTS = 64"
definition MAX_DISCOVERED_COMMANDS :: usize where "MAX_DISCOVERED_COMMANDS = 128"

datatype terminal_operation =
    FindFiles string string u16
  | MoveFile string string
  | CopyFile string string
  | RemoveFile string
  | ListProcesses
  | GitOperation string "string list"
  | RawShellCommand string

datatype terminal_disposition = DisposeSafe | DisposeConfirm | DisposeBlocked

record terminal_plan =
  tpl_operations :: "terminal_operation list"
  tpl_risk :: risk_level
  tpl_disposition :: terminal_disposition
  tpl_compensable :: bool

datatype terminal_plan_error =
    PlanEmpty
  | PlanTooLarge usize
  | PlanInvalid string
  | PlanConfirmationRequired
  | PlanBlocked string

definition validate_terminal_text :: "string \<Rightarrow> string \<Rightarrow> (unit, terminal_plan_error) result" where
  "validate_terminal_text v field =
     (if trim_is_empty v \<or> MAX_TERMINAL_TEXT_BYTES < length v \<or> char_of (0 :: nat) \<in> set v
      then Err (PlanInvalid field) else Ok ())"

definition path_is_absolute :: "string \<Rightarrow> bool" where
  "path_is_absolute p \<longleftrightarrow> starts_with p ''/''"

definition has_parent_dir :: "string \<Rightarrow> bool" where
  "has_parent_dir p \<longleftrightarrow> ''..'' \<in> set (split_on {CHR ''/''} p)"

definition validate_relative_text :: "string \<Rightarrow> string \<Rightarrow> (unit, terminal_plan_error) result" where
  "validate_relative_text v field = and_then (validate_terminal_text v field) (\<lambda>_.
     if path_is_absolute v \<or> has_parent_dir v then Err (PlanInvalid field) else Ok ())"

definition validate_two_paths :: "string \<Rightarrow> string \<Rightarrow> (unit, terminal_plan_error) result" where
  "validate_two_paths from to = and_then (validate_relative_text from ''source path'') (\<lambda>_.
     validate_relative_text to ''destination path'')"

fun operation_validate :: "terminal_operation \<Rightarrow> (unit, terminal_plan_error) result" where
  "operation_validate (FindFiles root pattern n) =
     and_then (validate_relative_text root ''find root'') (\<lambda>_.
     and_then (validate_terminal_text pattern ''find pattern'') (\<lambda>_.
     if n = 0 then Err (PlanInvalid ''find max_results'') else Ok ()))"
| "operation_validate (MoveFile from to) = validate_two_paths from to"
| "operation_validate (CopyFile from to) = validate_two_paths from to"
| "operation_validate (RemoveFile path) = validate_relative_text path ''remove path''"
| "operation_validate ListProcesses = Ok ()"
| "operation_validate (GitOperation action args) =
     and_then (validate_terminal_text action ''git action'') (\<lambda>_.
     if MAX_TERMINAL_ARGUMENTS < length args then Err (PlanTooLarge (length args))
     else try_all (\<lambda>arg. validate_terminal_text arg ''git argument'') args)"
| "operation_validate (RawShellCommand command) = validate_terminal_text command ''shell command''"

definition git_risk :: "string \<Rightarrow> risk_level" where
  "git_risk action = (let a = to_ascii_lowercase (trim action) in
     if a \<in> {''status'', ''diff'', ''log''} then RiskSafe
     else if a \<in> {''add'', ''branch'', ''checkout'', ''restore''} then RiskConfirm
     else if a \<in> {''commit'', ''merge'', ''rebase'', ''reset'', ''clean'', ''push''} then RiskHigh
     else RiskBlock)"

fun operation_risk :: "terminal_operation \<Rightarrow> risk_level" where
  "operation_risk (FindFiles _ _ _) = RiskSafe"
| "operation_risk ListProcesses = RiskSafe"
| "operation_risk (MoveFile _ _) = RiskConfirm"
| "operation_risk (CopyFile _ _) = RiskConfirm"
| "operation_risk (RemoveFile _) = RiskHigh"
| "operation_risk (GitOperation action _) = git_risk action"
| "operation_risk (RawShellCommand _) = RiskBlock"

fun is_compensatable :: "terminal_operation \<Rightarrow> bool" where
  "is_compensatable (MoveFile _ _) = True"
| "is_compensatable (CopyFile _ _) = True"
| "is_compensatable (RemoveFile _) = True"
| "is_compensatable _ = False"

fun risk_rank :: "risk_level \<Rightarrow> nat" where
  "risk_rank RiskSafe = 0"
| "risk_rank RiskConfirm = 1"
| "risk_rank RiskHigh = 2"
| "risk_rank RiskBlock = 3"

text \<open>\<open>max_by_key\<close>: of equal keys the last.\<close>

fun max_risk :: "risk_level list \<Rightarrow> risk_level option" where
  "max_risk [] = None"
| "max_risk (r # rs) = Some (fold (\<lambda>x best. if risk_rank best \<le> risk_rank x then x else best) rs r)"

fun disposition_of :: "risk_level \<Rightarrow> terminal_disposition" where
  "disposition_of RiskSafe = DisposeSafe"
| "disposition_of RiskConfirm = DisposeConfirm"
| "disposition_of RiskHigh = DisposeConfirm"
| "disposition_of RiskBlock = DisposeBlocked"

definition plan_build :: "terminal_operation list \<Rightarrow> (terminal_plan, terminal_plan_error) result" where
  "plan_build ops =
     (if ops = [] then Err PlanEmpty
      else if MAX_TERMINAL_OPERATIONS < length ops then Err (PlanTooLarge (length ops))
      else and_then (try_all operation_validate ops) (\<lambda>_.
        and_then (ok_or (max_risk (map operation_risk ops)) PlanEmpty) (\<lambda>risk.
        Ok \<lparr>tpl_operations = ops, tpl_risk = risk, tpl_disposition = disposition_of risk,
          tpl_compensable = list_all is_compensatable ops\<rparr>)))"

fun plan_authorize :: "terminal_plan \<Rightarrow> bool \<Rightarrow> (unit, terminal_plan_error) result" where
  "plan_authorize p confirmed = (case tpl_disposition p of
      DisposeSafe \<Rightarrow> Ok ()
    | DisposeConfirm \<Rightarrow> if confirmed then Ok () else Err PlanConfirmationRequired
    | DisposeBlocked \<Rightarrow> Err (PlanBlocked ''policy''))"

section \<open>Processes\<close>

datatype process_error =
    ProcInvalidInput string
  | ProcUnsupportedTool string
  | ProcNotAllowed string
  | ProcShellInterpreter
  | ProcShellMetacharacter
  | ProcArgumentIndex
  | ProcArgumentGap
  | ProcInvocation string

text \<open>\<open>Display\<close>; the \<open>Debug\<close> form of a string is an argument.\<close>

fun process_error_message :: "(string \<Rightarrow> string) \<Rightarrow> process_error \<Rightarrow> string" where
  "process_error_message dbg (ProcInvalidInput field) = ''invalid process input '' @ field"
| "process_error_message dbg (ProcUnsupportedTool name) = ''unsupported process tool '' @ dbg name"
| "process_error_message dbg (ProcNotAllowed program) = ''process executable is not allowlisted: '' @ dbg program"
| "process_error_message dbg ProcShellInterpreter = ''shell interpreters are not allowed''"
| "process_error_message dbg ProcShellMetacharacter = ''process input contains shell metacharacters''"
| "process_error_message dbg ProcArgumentIndex = ''process arguments must use arg0, arg1, ...''"
| "process_error_message dbg ProcArgumentGap = ''process argument indexes must be contiguous''"
| "process_error_message dbg (ProcInvocation m) = ''process invocation failed: '' @ m"

type_synonym process_policy = "(string, unit) bmap"

definition process_identity :: "bool \<Rightarrow> string \<Rightarrow> string" where
  "process_identity win program = (if win then to_ascii_lowercase program else program)"

definition allow_executable :: "bool \<Rightarrow> string \<Rightarrow> process_policy \<Rightarrow> process_policy" where
  "allow_executable win program policy = bm_insert (process_identity win program) () policy"

definition policy_allows :: "bool \<Rightarrow> process_policy \<Rightarrow> string \<Rightarrow> bool" where
  "policy_allows win policy program = bm_contains_key policy (process_identity win program)"

definition shell_metacharacter :: "char \<Rightarrow> bool" where
  "shell_metacharacter c \<longleftrightarrow> c \<in> set '';&|<>$`'' \<or> c = char_of (10 :: nat) \<or> c = char_of (13 :: nat)"

text \<open>One entry of the input: an argument if its key begins with \<open>arg\<close>.\<close>

definition index_argument :: "(usize, string) bmap \<Rightarrow> string \<times> string
    \<Rightarrow> ((usize, string) bmap, process_error) result" where
  "index_argument indexed entry = (case entry of (key, v) \<Rightarrow>
     if \<not> starts_with key ''arg'' then Ok indexed
     else and_then (ok_or (parse_usize (drop 3 key)) ProcArgumentIndex) (\<lambda>i.
       if list_ex shell_metacharacter v then Err ProcShellMetacharacter
       else if bm_contains_key indexed i then Err ProcArgumentIndex
       else Ok (bm_insert i v indexed)))"

fun contiguous_arguments :: "usize \<Rightarrow> (usize \<times> string) list \<Rightarrow> (string list, process_error) result" where
  "contiguous_arguments expected [] = Ok []"
| "contiguous_arguments expected ((i, v) # rest) =
     (if expected \<noteq> i then Err ProcArgumentGap
      else and_then (contiguous_arguments (Suc expected) rest) (\<lambda>vs. Ok (v # vs)))"

definition process_request :: "tool_input \<Rightarrow> (string \<times> string list, process_error) result" where
  "process_request input =
     and_then (ok_or (bm_get input ''program'') (ProcInvalidInput ''program'')) (\<lambda>program.
     if program = [] then Err (ProcInvalidInput ''program'')
     else if CHR ''/'' \<in> set program \<or> char_of (92 :: nat) \<in> set program \<or> list_ex shell_metacharacter program
     then Err ProcShellMetacharacter
     else and_then (try_fold index_argument bm_empty (bm_entries input)) (\<lambda>indexed.
       and_then (contiguous_arguments 0 (bm_entries indexed)) (\<lambda>args. Ok (program, args))))"

definition PROCESS_RUN_TOOL :: string where "PROCESS_RUN_TOOL = ''process.run''"

definition process_authorize :: "bool \<Rightarrow> process_policy \<Rightarrow> string \<Rightarrow> (unit, process_error) result" where
  "process_authorize win policy program =
     (if policy_allows win policy program then Ok () else Err (ProcNotAllowed program))"

definition process_checked :: "bool \<Rightarrow> process_policy \<Rightarrow> tool_definition \<Rightarrow> tool_input
    \<Rightarrow> (string \<times> string list, process_error) result" where
  "process_checked win policy d input =
     (if td_name d \<noteq> PROCESS_RUN_TOOL then Err (ProcUnsupportedTool (td_name d))
      else and_then (process_request input) (\<lambda>(program, args).
        and_then (process_authorize win policy program) (\<lambda>_. Ok (program, args))))"

text \<open>The invoker is called on \<open>&mut self\<close>; it may answer anything and change its state.\<close>

type_synonym 'p process_invoker = "string \<Rightarrow> string list \<Rightarrow> 'p \<Rightarrow> (string, string) result \<times> 'p"

definition process_preview :: "(string \<Rightarrow> string) \<Rightarrow> bool \<Rightarrow> process_policy \<Rightarrow> tool_planner" where
  "process_preview dbg win policy d input =
     and_then (map_err (process_error_message dbg) (process_checked win policy d input)) (\<lambda>(program, args).
     Ok \<lparr>pv_summary = ''run '' @ program @ '' with '' @ show_nat (length args) @ '' argument(s)'',
       pv_resources = [''process:'' @ program], pv_operations = 1, pv_effect = EffIrreversible\<rparr>)"

definition process_execute :: "(string \<Rightarrow> string) \<Rightarrow> bool \<Rightarrow> process_policy \<Rightarrow> 'p process_invoker
    \<Rightarrow> tool_definition \<Rightarrow> tool_input \<Rightarrow> 'p \<Rightarrow> (tool_execution, string) result \<times> 'p" where
  "process_execute dbg win policy invoke d input p = (case process_checked win policy d input of
      Err e \<Rightarrow> (Err (process_error_message dbg e), p)
    | Ok (program, args) \<Rightarrow> (case invoke program args p of
        (Err m, p') \<Rightarrow> (Err (process_error_message dbg (ProcInvocation m)), p')
      | (Ok out, p') \<Rightarrow> (Ok \<lparr>ex_output = Some out, ex_compensable = False, ex_effect = EffectConfirmed\<rparr>, p')))"

definition process_executor :: "(string \<Rightarrow> string) \<Rightarrow> bool \<Rightarrow> process_policy \<Rightarrow> 'p process_invoker \<Rightarrow> 'p tool_executor" where
  "process_executor dbg win policy invoke = \<lparr>te_execute = process_execute dbg win policy invoke,
     te_compensate = (\<lambda>_ _ _ p. (Err ''process effects are irreversible and have no compensation'', p))\<rparr>"

definition process_verify :: "(string \<Rightarrow> string) \<Rightarrow> tool_verifier" where
  "process_verify dbg d input out =
     (if td_name d \<noteq> PROCESS_RUN_TOOL then Err (process_error_message dbg (ProcUnsupportedTool (td_name d)))
      else if out = [] then Err ''process fixture returned empty output'' else Ok ())"

section \<open>The definitions of the tools\<close>

definition FILESYSTEM_WRITE_TOOL :: string where "FILESYSTEM_WRITE_TOOL = ''filesystem.write_text''"
definition FILESYSTEM_MOVE_TOOL :: string where "FILESYSTEM_MOVE_TOOL = ''filesystem.move''"
definition FILESYSTEM_FIND_TOOL :: string where "FILESYSTEM_FIND_TOOL = ''filesystem.find_files''"
definition FILESYSTEM_COPY_TOOL :: string where "FILESYSTEM_COPY_TOOL = ''filesystem.copy''"
definition FILESYSTEM_REMOVE_TOOL :: string where "FILESYSTEM_REMOVE_TOOL = ''filesystem.remove''"

text \<open>What the definitions of the tools share: the paths are the resources of capability and ownership.\<close>

definition path_tool :: "string \<Rightarrow> string list \<Rightarrow> string list \<Rightarrow> string option \<Rightarrow> string list \<Rightarrow> capability_domain
    \<Rightarrow> ownership_access \<Rightarrow> string list \<Rightarrow> risk_level \<Rightarrow> bool \<Rightarrow> tool_definition" where
  "path_tool name required syntax field more_fields domain access owned risk reversible =
     \<lparr>td_name = name, td_version = ''1'', td_required_fields = required, td_syntax_fields = syntax,
      td_capability = Some \<lparr>req_domain = domain, req_resource = [], req_input_field = field,
        req_input_fields = more_fields\<rparr>,
      td_ownership = Some \<lparr>orq_access = access, orq_resource = [], orq_input_fields = owned\<rparr>,
      td_risk = risk, td_reversible = reversible\<rparr>"

definition write_text_definition :: tool_definition where
  "write_text_definition = path_tool FILESYSTEM_WRITE_TOOL [''path'', ''content''] [''path''] (Some ''path'') []
     Filesystem WriteAccess [''path''] RiskConfirm True"

definition move_definition :: tool_definition where
  "move_definition = path_tool FILESYSTEM_MOVE_TOOL [''from'', ''to''] [''from'', ''to''] None [''from'', ''to'']
     Filesystem WriteAccess [''from'', ''to''] RiskConfirm True"

definition find_files_definition :: tool_definition where
  "find_files_definition = path_tool FILESYSTEM_FIND_TOOL [''root'', ''pattern'', ''max_results''] [''root'', ''pattern'']
     (Some ''root'') [] Filesystem ReadAccess [''root''] RiskSafe False"

definition copy_definition :: tool_definition where
  "copy_definition = path_tool FILESYSTEM_COPY_TOOL [''from'', ''to''] [''from'', ''to''] None [''from'', ''to'']
     Filesystem WriteAccess [''from'', ''to''] RiskConfirm True"

definition remove_definition :: tool_definition where
  "remove_definition = path_tool FILESYSTEM_REMOVE_TOOL [''path''] [''path''] (Some ''path'') []
     Filesystem WriteAccess [''path''] RiskHigh True"

definition process_definition :: tool_definition where
  "process_definition = path_tool PROCESS_RUN_TOOL [''program''] [''program''] (Some ''program'') []
     Process WriteAccess [''program''] RiskHigh False"

section \<open>Patterns\<close>

text \<open>
  \<open>glob_matches\<close> runs over the pattern and keeps for every prefix of the value whether the pattern read
  so far matches it. The states after the first are computed from left to right.
\<close>

fun star_states :: "bool \<Rightarrow> bool list \<Rightarrow> bool list" where
  "star_states b [] = []"
| "star_states b (s # ss) = (s \<or> b) # star_states (s \<or> b) ss"

definition glob_step :: "string list \<Rightarrow> bool list \<Rightarrow> string \<Rightarrow> bool list" where
  "glob_step v states p =
     (if p = ''*'' then hd states # star_states (hd states) (tl states)
      else if p = ''?'' then False # take (length v) states
      else False # map (\<lambda>(s, c). s \<and> c = p) (zip (take (length v) states) v))"

definition glob_matches :: "string \<Rightarrow> string \<Rightarrow> bool" where
  "glob_matches pattern val = (let v = str_chars val in
     foldl (glob_step v) (True # replicate (length v) False) (str_chars pattern) ! length v)"

end
