(* ===== verification/Workspace_Files.thy ===== *)
theory Workspace_Files
  imports Terminal_Plan
begin

text \<open>
  The files of a workspace and the tools that change them (\<open>FilesystemFixture\<close> of
  \<^verbatim>\<open>crates/terminal-tools/src/lib.rs\<close>): every path is checked below the root, every effect leaves a
  record with which it can be undone. The file system is that of a POSIX platform; between the calls
  of one operation no other process changes it. Names of files are UTF-8.
\<close>

section \<open>The file system\<close>

text \<open>A path is the list of its names below the root, which is the empty list.\<close>

type_synonym fs_path = "string list"

datatype fs_node = FsDir | FsFile "u8 list" | FsSymlink | FsSpecial

type_synonym fs_tree = "fs_path \<Rightarrow> fs_node option"

text \<open>
  What the platform adds: the failures of its calls, in their order, with what a failed write leaves of
  the file; the text of the error of a call that the tree does not permit; the order of the entries
  of a directory; the identifiers of the process, and the \<open>Debug\<close> form of a string.
\<close>

record fs_host =
  fsh_fault :: "nat \<Rightarrow> string option"
  fsh_partial :: "nat \<Rightarrow> u8 list option"
  fsh_refused :: "nat \<Rightarrow> string"
  fsh_read_dir :: "fs_tree \<Rightarrow> fs_path \<Rightarrow> string list"
  fsh_id :: "nat \<Rightarrow> u64"
  fsh_debug :: "string \<Rightarrow> string"

definition path_exists :: "fs_tree \<Rightarrow> fs_path \<Rightarrow> bool" where
  "path_exists t p \<longleftrightarrow> t p \<noteq> None"

definition is_dir :: "fs_tree \<Rightarrow> fs_path \<Rightarrow> bool" where
  "is_dir t p \<longleftrightarrow> t p = Some FsDir"

fun is_file_node :: "fs_node option \<Rightarrow> bool" where
  "is_file_node (Some (FsFile _)) = True"
| "is_file_node _ = False"

definition in_dir :: "fs_path \<Rightarrow> fs_path \<Rightarrow> bool" where
  "in_dir d p \<longleftrightarrow> take (length d) p = d"

text \<open>The calls that change the tree; \<open>None\<close> if it does not permit them. A rename replaces nothing here: its
  callers have just seen that nothing is at the target.\<close>

definition write_file :: "fs_path \<Rightarrow> u8 list \<Rightarrow> fs_tree \<Rightarrow> fs_tree option" where
  "write_file p bs t =
     (if p \<noteq> [] \<and> is_dir t (butlast p) \<and> (t p = None \<or> is_file_node (t p)) then Some (t(p \<mapsto> FsFile bs)) else None)"

definition remove_file :: "fs_path \<Rightarrow> fs_tree \<Rightarrow> fs_tree option" where
  "remove_file p t = (if t p = None \<or> is_dir t p then None else Some (t(p := None)))"

definition link_file :: "fs_path \<Rightarrow> fs_path \<Rightarrow> fs_tree \<Rightarrow> fs_tree option" where
  "link_file from to t =
     (if t from = None \<or> is_dir t from \<or> t to \<noteq> None \<or> to = [] \<or> \<not> is_dir t (butlast to) then None
      else Some (t(to := t from)))"

definition make_dir :: "fs_path \<Rightarrow> fs_tree \<Rightarrow> fs_tree option" where
  "make_dir p t = (if p = [] \<or> t p \<noteq> None \<or> \<not> is_dir t (butlast p) then None else Some (t(p \<mapsto> FsDir)))"

definition moved_tree :: "fs_path \<Rightarrow> fs_path \<Rightarrow> fs_tree \<Rightarrow> fs_tree" where
  "moved_tree from to t p =
     (if in_dir to p then t (from @ drop (length to) p) else if in_dir from p then None else t p)"

definition rename_path :: "fs_path \<Rightarrow> fs_path \<Rightarrow> fs_tree \<Rightarrow> fs_tree option" where
  "rename_path from to t =
     (if t from = None \<or> t to \<noteq> None \<or> from = [] \<or> to = [] \<or> in_dir from to \<or> \<not> is_dir t (butlast to) then None
      else Some (moved_tree from to t))"

section \<open>The fixture\<close>

datatype undo_record =
    UndoWrite fs_path "u8 list option" "u8 list"
  | UndoMove fs_path fs_path
  | UndoCopy fs_path "u8 list"
  | UndoQuarantine fs_path fs_path

datatype undo_export =
    ExportMove string string
  | ExportCopy string u64 u64
  | ExportQuarantine string string

record fixture =
  fx_tree :: fs_tree
  fx_undo :: "(string, undo_record) bmap"
  fx_calls :: nat
  fx_ids :: nat

type_synonym 'a fx = "fixture \<Rightarrow> ('a, string) result \<times> fixture"

definition fx_return :: "('a, string) result \<Rightarrow> 'a fx" where
  "fx_return r s = (r, s)"

definition fx_bind :: "'a fx \<Rightarrow> ('a \<Rightarrow> 'b fx) \<Rightarrow> 'b fx" where
  "fx_bind m f s = (case m s of (Err e, s') \<Rightarrow> (Err e, s') | (Ok x, s') \<Rightarrow> f x s')"

definition fx_tree_of :: "fs_tree fx" where
  "fx_tree_of s = (Ok (fx_tree s), s)"

text \<open>A call that changes the tree, one that writes bytes, and one that reads.\<close>

definition os_call :: "fs_host \<Rightarrow> (fs_tree \<Rightarrow> fs_tree option) \<Rightarrow> unit fx" where
  "os_call h change s = (let n = fx_calls s; s1 = s\<lparr>fx_calls := Suc n\<rparr> in
     case fsh_fault h n of
       Some m \<Rightarrow> (Err m, s1)
     | None \<Rightarrow> (case change (fx_tree s) of
         None \<Rightarrow> (Err (fsh_refused h n), s1)
       | Some t \<Rightarrow> (Ok (), s1\<lparr>fx_tree := t\<rparr>)))"

definition os_write :: "fs_host \<Rightarrow> fs_path \<Rightarrow> u8 list \<Rightarrow> unit fx" where
  "os_write h p bs s = (let n = fx_calls s; s1 = s\<lparr>fx_calls := Suc n\<rparr> in
     case write_file p bs (fx_tree s) of
       None \<Rightarrow> (Err (case fsh_fault h n of Some m \<Rightarrow> m | None \<Rightarrow> fsh_refused h n), s1)
     | Some t \<Rightarrow> (case fsh_fault h n of
         None \<Rightarrow> (Ok (), s1\<lparr>fx_tree := t\<rparr>)
       | Some m \<Rightarrow> (Err m, (case fsh_partial h n of
           None \<Rightarrow> s1
         | Some left \<Rightarrow> s1\<lparr>fx_tree := (fx_tree s)(p \<mapsto> FsFile left)\<rparr>))))"

definition os_read :: "fs_host \<Rightarrow> fs_path \<Rightarrow> u8 list fx" where
  "os_read h p s = (let n = fx_calls s; s1 = s\<lparr>fx_calls := Suc n\<rparr> in
     case fsh_fault h n of
       Some m \<Rightarrow> (Err m, s1)
     | None \<Rightarrow> (case fx_tree s p of Some (FsFile bs) \<Rightarrow> (Ok bs, s1) | _ \<Rightarrow> (Err (fsh_refused h n), s1)))"

section \<open>Errors\<close>

datatype fs_error =
    FsInvalidPath string
  | FsMissingPath string
  | FsUnsupportedTool string
  | FsInvalidInput string
  | FsIo string
  | FsConflict string
  | FsUnknownUndo string

fun fs_error_message :: "(string \<Rightarrow> string) \<Rightarrow> fs_error \<Rightarrow> string" where
  "fs_error_message dbg (FsInvalidPath p) = ''invalid filesystem path '' @ dbg p"
| "fs_error_message dbg (FsMissingPath p) = ''filesystem path does not exist: '' @ dbg p"
| "fs_error_message dbg (FsUnsupportedTool n) = ''unsupported filesystem tool '' @ dbg n"
| "fs_error_message dbg (FsInvalidInput f) = ''invalid filesystem input '' @ f"
| "fs_error_message dbg (FsIo m) = ''filesystem I/O failed: '' @ m"
| "fs_error_message dbg (FsConflict p) = ''filesystem compensation conflict at '' @ dbg p"
| "fs_error_message dbg (FsUnknownUndo k) = ''unknown filesystem undo token '' @ dbg k"

definition fs_fail :: "fs_host \<Rightarrow> fs_error \<Rightarrow> ('a, string) result" where
  "fs_fail h e = Err (fs_error_message (fsh_debug h) e)"

section \<open>Paths\<close>

text \<open>The components of a relative path: its names, without empty ones and dots.\<close>

definition path_components :: "string \<Rightarrow> string list" where
  "path_components p = filter (\<lambda>c. c \<noteq> [] \<and> c \<noteq> ''.'') (split_on {CHR ''/''} p)"

definition nul_in_name :: string where
  "nul_in_name = ''file name contained an unexpected NUL byte''"

fun reject_components :: "fs_host \<Rightarrow> string \<Rightarrow> fs_tree \<Rightarrow> fs_path \<Rightarrow> string list \<Rightarrow> (unit, string) result" where
  "reject_components h original t current [] = Ok ()"
| "reject_components h original t current (c # rest) =
     (if char_of (0 :: nat) \<in> set c then Err nul_in_name
      else (case t (current @ [c]) of
          Some FsSymlink \<Rightarrow> fs_fail h (FsInvalidPath original)
        | Some node \<Rightarrow>
            if rest \<noteq> [] \<and> node \<noteq> FsDir then fs_fail h (FsMissingPath original)
            else reject_components h original t (current @ [c]) rest
        | None \<Rightarrow> if rest \<noteq> [] then fs_fail h (FsMissingPath original) else Ok ()))"

text \<open>Without a name, as for a dot, the parent of the path is outside the root.\<close>

definition checked_path :: "fs_host \<Rightarrow> string \<Rightarrow> fs_tree \<Rightarrow> (fs_path, string) result" where
  "checked_path h rel t =
     (if trim_is_empty rel \<or> path_is_absolute rel \<or> has_parent_dir rel then fs_fail h (FsInvalidPath rel)
      else and_then (reject_components h rel t [] (path_components rel)) (\<lambda>_.
        if path_components rel = [] then fs_fail h (FsInvalidPath rel) else Ok (path_components rel)))"

definition relative :: "fs_path \<Rightarrow> string" where
  "relative p = map (\<lambda>c. if c = char_of (92 :: nat) then CHR ''/'' else c) (join_with ''/'' p)"

definition internal_root :: fs_path where "internal_root = [''.orynth'']"
definition quarantine_root :: fs_path where "quarantine_root = [''.orynth-quarantine'']"

definition internal_path :: "fs_path \<Rightarrow> bool" where
  "internal_path p \<longleftrightarrow> in_dir quarantine_root p \<or> in_dir internal_root p"

definition fs_input :: "fs_host \<Rightarrow> tool_input \<Rightarrow> string \<Rightarrow> (string, string) result" where
  "fs_input h input field = (case bm_get input field of
      Some v \<Rightarrow> if v = [] then fs_fail h (FsInvalidInput field) else Ok v
    | None \<Rightarrow> fs_fail h (FsInvalidInput field))"

definition input_path :: "fs_host \<Rightarrow> tool_input \<Rightarrow> string \<Rightarrow> fs_tree \<Rightarrow> (fs_path, string) result" where
  "input_path h input field t = and_then (fs_input h input field) (\<lambda>v. checked_path h v t)"

section \<open>Effects\<close>

definition undo_token :: "fs_host \<Rightarrow> nat \<Rightarrow> string" where
  "undo_token h n = ''fs-undo-'' @ hex_digits 16 (unat (fsh_id h n))"

definition take_token :: "fs_host \<Rightarrow> string fx" where
  "take_token h s = (Ok (undo_token h (fx_ids s)), s\<lparr>fx_ids := Suc (fx_ids s)\<rparr>)"

text \<open>The record of an effect, and its result.\<close>

definition remember :: "string \<Rightarrow> undo_record \<Rightarrow> tool_execution fx" where
  "remember token u s = (Ok \<lparr>ex_output = Some token, ex_compensable = True, ex_effect = EffectConfirmed\<rparr>,
     s\<lparr>fx_undo := bm_insert token u (fx_undo s)\<rparr>)"

definition fx_require :: "bool \<Rightarrow> fs_host \<Rightarrow> fs_error \<Rightarrow> unit fx" where
  "fx_require b h e = fx_return (if b then Ok () else fs_fail h e)"

definition read_if_exists :: "fs_host \<Rightarrow> fs_path \<Rightarrow> u8 list option fx" where
  "read_if_exists h p s = (if path_exists (fx_tree s) p then fx_bind (os_read h p) (\<lambda>bs. fx_return (Ok (Some bs))) s
     else (Ok None, s))"

definition execute_write :: "fs_host \<Rightarrow> tool_input \<Rightarrow> tool_execution fx" where
  "execute_write h input = fx_bind fx_tree_of (\<lambda>t.
     fx_bind (fx_return (input_path h input ''path'' t)) (\<lambda>p.
     fx_bind (fx_return (fs_input h input ''content'')) (\<lambda>content.
     fx_bind (fx_require (\<not> is_dir t p) h (FsInvalidInput ''path is a directory'')) (\<lambda>_.
     fx_bind (read_if_exists h p) (\<lambda>before.
     fx_bind (os_write h p (as_bytes content)) (\<lambda>_.
     fx_bind (take_token h) (\<lambda>token. remember token (UndoWrite p before (as_bytes content)))))))))"

definition execute_move :: "fs_host \<Rightarrow> tool_input \<Rightarrow> tool_execution fx" where
  "execute_move h input = fx_bind fx_tree_of (\<lambda>t.
     fx_bind (fx_return (input_path h input ''from'' t)) (\<lambda>from.
     fx_bind (fx_return (input_path h input ''to'' t)) (\<lambda>to.
     fx_bind (fx_require (path_exists t from) h (FsMissingPath (relative from))) (\<lambda>_.
     fx_bind (fx_require (\<not> path_exists t to) h (FsInvalidInput ''destination already exists'')) (\<lambda>_.
     fx_bind (os_call h (rename_path from to)) (\<lambda>_.
     fx_bind (take_token h) (\<lambda>token. remember token (UndoMove from to))))))))"

definition copy_file :: "fs_host \<Rightarrow> fs_path \<Rightarrow> fs_path \<Rightarrow> unit fx" where
  "copy_file h from to s = (case fx_tree s from of
      Some (FsFile bs) \<Rightarrow> os_write h to bs s
    | _ \<Rightarrow> os_call h (\<lambda>_. None) s)"

definition execute_copy :: "fs_host \<Rightarrow> tool_input \<Rightarrow> tool_execution fx" where
  "execute_copy h input = fx_bind fx_tree_of (\<lambda>t.
     fx_bind (fx_return (input_path h input ''from'' t)) (\<lambda>from.
     fx_bind (fx_return (input_path h input ''to'' t)) (\<lambda>to.
     fx_bind (fx_require (path_exists t from) h (FsMissingPath (relative from))) (\<lambda>_.
     fx_bind (fx_require (\<not> is_dir t from) h (FsInvalidInput ''source is a directory'')) (\<lambda>_.
     fx_bind (fx_require (\<not> path_exists t to) h (FsInvalidInput ''destination already exists'')) (\<lambda>_.
     fx_bind (copy_file h from to) (\<lambda>_.
     fx_bind (os_read h to) (\<lambda>after.
     fx_bind (take_token h) (\<lambda>token. remember token (UndoCopy to after))))))))))"

definition ensure_quarantine_root :: "fs_host \<Rightarrow> fs_path fx" where
  "ensure_quarantine_root h = fx_bind fx_tree_of (\<lambda>t.
     fx_bind (fx_return (checked_path h ''.orynth-quarantine'' t)) (\<lambda>p.
     if path_exists t p
     then fx_bind (fx_require (is_dir t p) h (FsInvalidInput ''quarantine path is not a directory'')) (\<lambda>_. fx_return (Ok p))
     else fx_bind (os_call h (make_dir p)) (\<lambda>_.
       fx_bind fx_tree_of (\<lambda>t'. fx_return (checked_path h ''.orynth-quarantine'' t')))))"

definition execute_remove :: "fs_host \<Rightarrow> tool_input \<Rightarrow> tool_execution fx" where
  "execute_remove h input = fx_bind fx_tree_of (\<lambda>t.
     fx_bind (fx_return (input_path h input ''path'' t)) (\<lambda>original.
     fx_bind (fx_require (path_exists t original) h (FsMissingPath (relative original))) (\<lambda>_.
     fx_bind (fx_require (\<not> is_dir t original) h (FsInvalidInput ''path is a directory'')) (\<lambda>_.
     fx_bind (fx_require (\<not> internal_path original) h (FsInvalidInput ''path is already quarantined'')) (\<lambda>_.
     fx_bind (ensure_quarantine_root h) (\<lambda>quarantine.
     fx_bind (take_token h) (\<lambda>token.
     let quarantined = quarantine @ [token @ ''-'' @ last original] in
     fx_bind (os_call h (link_file original quarantined)) (\<lambda>_.
     fx_bind (os_call h (remove_file original)) (\<lambda>_.
     remember token (UndoQuarantine original quarantined))))))))))"

section \<open>Search\<close>

definition MAX_FIND_ENTRIES :: usize where "MAX_FIND_ENTRIES = 8192"
definition MAX_FIND_DEPTH :: nat where "MAX_FIND_DEPTH = 32"

record walker =
  wk_visited :: usize
  wk_matches :: "string list"
  wk_calls :: nat

definition walk_full :: "usize \<Rightarrow> walker \<Rightarrow> bool" where
  "walk_full max_results w \<longleftrightarrow> max_results \<le> length (wk_matches w) \<or> MAX_FIND_ENTRIES \<le> wk_visited w"

definition walk_call :: "fs_host \<Rightarrow> walker \<Rightarrow> (walker, string) result" where
  "walk_call h w = (case fsh_fault h (wk_calls w) of
      Some m \<Rightarrow> Err m | None \<Rightarrow> Ok (w\<lparr>wk_calls := Suc (wk_calls w)\<rparr>))"

definition match_file :: "string \<Rightarrow> fs_path \<Rightarrow> walker \<Rightarrow> walker" where
  "match_file pattern p w =
     (if glob_matches pattern (relative p) \<or> glob_matches pattern (last p)
      then w\<lparr>wk_matches := wk_matches w @ [relative p]\<rparr> else w)"

definition walk_enter :: "walker \<Rightarrow> walker" where
  "walk_enter w = w\<lparr>wk_visited := min (Suc (wk_visited w)) (2 ^ 64 - 1)\<rparr>"

text \<open>One entry, and the entries of one directory; the first argument visits a directory below.\<close>

definition walk_node :: "(fs_path \<Rightarrow> walker \<Rightarrow> (walker, string) result) \<Rightarrow> string \<Rightarrow> fs_tree \<Rightarrow> fs_path \<Rightarrow> walker
    \<Rightarrow> (walker, string) result" where
  "walk_node visit pattern t p w =
     (if internal_path p then Ok w
      else (case t p of
          Some FsDir \<Rightarrow> visit p w
        | Some (FsFile _) \<Rightarrow> Ok (match_file pattern p w)
        | _ \<Rightarrow> Ok w))"

fun walk_entries :: "(fs_path \<Rightarrow> walker \<Rightarrow> (walker, string) result) \<Rightarrow> fs_host \<Rightarrow> string \<Rightarrow> usize \<Rightarrow> fs_tree
    \<Rightarrow> fs_path \<Rightarrow> string list \<Rightarrow> walker \<Rightarrow> (walker, string) result" where
  "walk_entries visit h pattern m t d [] w = Ok w"
| "walk_entries visit h pattern m t d (e # es) w =
     (if walk_full m w then Ok w
      else and_then (walk_call h w) (\<lambda>w1.
        and_then (walk_node visit pattern t (d @ [e]) (walk_enter w1)) (\<lambda>w2.
        walk_entries visit h pattern m t d es w2)))"

text \<open>The number is that of the levels left: a directory deeper than the limit is passed over.\<close>

fun visit :: "nat \<Rightarrow> fs_host \<Rightarrow> string \<Rightarrow> usize \<Rightarrow> fs_tree \<Rightarrow> fs_path \<Rightarrow> walker \<Rightarrow> (walker, string) result" where
  "visit 0 h pattern m t d w = Ok w"
| "visit (Suc n) h pattern m t d w =
     (if walk_full m w then Ok w
      else and_then (walk_call h w) (\<lambda>w1.
        walk_entries (visit n h pattern m t) h pattern m t d (fsh_read_dir h t d) w1))"

definition find_files :: "fs_host \<Rightarrow> nat \<Rightarrow> fs_tree \<Rightarrow> fs_path \<Rightarrow> string \<Rightarrow> usize \<Rightarrow> (string list, string) result" where
  "find_files h calls t root pattern m =
     (if internal_path root then fs_fail h (FsInvalidPath (relative root))
      else and_then (visit (Suc MAX_FIND_DEPTH) h pattern m t root \<lparr>wk_visited = 0, wk_matches = [], wk_calls = calls\<rparr>)
        (\<lambda>w. Ok (sort (wk_matches w))))"

definition find_input :: "fs_host \<Rightarrow> tool_input \<Rightarrow> fs_tree \<Rightarrow> (fs_path \<times> string \<times> usize, string) result" where
  "find_input h input t =
     and_then (input_path h input ''root'' t) (\<lambda>root.
     if \<not> is_dir t root then fs_fail h (FsInvalidInput ''find root is not a directory'')
     else and_then (fs_input h input ''pattern'') (\<lambda>pattern.
       if MAX_TERMINAL_TEXT_BYTES < length pattern \<or> char_of (0 :: nat) \<in> set pattern
       then fs_fail h (FsInvalidInput ''pattern'')
       else and_then (fs_input h input ''max_results'') (\<lambda>text_results.
         case parse_usize text_results of
           None \<Rightarrow> fs_fail h (FsInvalidInput ''max_results'')
         | Some m \<Rightarrow>
             if m = 0 \<or> MAX_DISCOVERED_COMMANDS < m then fs_fail h (FsInvalidInput ''max_results'')
             else Ok (root, pattern, m))))"

definition execute_find :: "fs_host \<Rightarrow> tool_input \<Rightarrow> tool_execution fx" where
  "execute_find h input s =
     (and_then (find_input h input (fx_tree s)) (\<lambda>(root, pattern, m).
      and_then (find_files h (fx_calls s) (fx_tree s) root pattern m) (\<lambda>found.
      Ok \<lparr>ex_output = Some (join_with [char_of (10 :: nat)] found), ex_compensable = False,
        ex_effect = EffectConfirmed\<rparr>)), s)"

section \<open>Execution and compensation\<close>

definition fixture_execute :: "fs_host \<Rightarrow> tool_definition \<Rightarrow> tool_input \<Rightarrow> tool_execution fx" where
  "fixture_execute h d input =
     (if td_name d = FILESYSTEM_WRITE_TOOL then execute_write h input
      else if td_name d = FILESYSTEM_MOVE_TOOL then execute_move h input
      else if td_name d = FILESYSTEM_COPY_TOOL then execute_copy h input
      else if td_name d = FILESYSTEM_REMOVE_TOOL then execute_remove h input
      else if td_name d = FILESYSTEM_FIND_TOOL then execute_find h input
      else fx_return (fs_fail h (FsUnsupportedTool (td_name d))))"

text \<open>The undoing of one record, and \<open>compensate\<close>, which forgets the record when it is done.\<close>

definition unless_changed :: "fs_host \<Rightarrow> fs_path \<Rightarrow> u8 list \<Rightarrow> unit fx \<Rightarrow> unit fx" where
  "unless_changed h p after undo = fx_bind fx_tree_of (\<lambda>t.
     if \<not> path_exists t p then fx_return (fs_fail h (FsConflict (relative p)))
     else fx_bind (os_read h p) (\<lambda>bs.
       if bs \<noteq> after then fx_return (fs_fail h (FsConflict (relative p))) else undo))"

fun undo_effect :: "fs_host \<Rightarrow> undo_record \<Rightarrow> unit fx" where
  "undo_effect h (UndoWrite p before after) = unless_changed h p after
     (case before of Some bs \<Rightarrow> os_write h p bs | None \<Rightarrow> os_call h (remove_file p))"
| "undo_effect h (UndoMove from to) = fx_bind fx_tree_of (\<lambda>t.
     if \<not> path_exists t to \<or> path_exists t from then fx_return (fs_fail h (FsConflict (relative to)))
     else os_call h (rename_path to from))"
| "undo_effect h (UndoCopy to after) = unless_changed h to after (os_call h (remove_file to))"
| "undo_effect h (UndoQuarantine original quarantined) = fx_bind fx_tree_of (\<lambda>t.
     if path_exists t original \<or> \<not> path_exists t quarantined
     then fx_return (fs_fail h (FsConflict (relative quarantined)))
     else os_call h (rename_path quarantined original))"

definition forget :: "string \<Rightarrow> unit fx" where
  "forget token s = (Ok (), s\<lparr>fx_undo := bm_remove token (fx_undo s)\<rparr>)"

definition fixture_compensate :: "fs_host \<Rightarrow> string \<Rightarrow> unit fx" where
  "fixture_compensate h token s = (case bm_get (fx_undo s) token of
      None \<Rightarrow> (fs_fail h (FsUnknownUndo token), s)
    | Some u \<Rightarrow> fx_bind (undo_effect h u) (\<lambda>_. forget token) s)"

definition fixture_executor :: "fs_host \<Rightarrow> fixture tool_executor" where
  "fixture_executor h = \<lparr>te_execute = fixture_execute h, te_compensate = (\<lambda>_ _ out. fixture_compensate h out)\<rparr>"

section \<open>Undo records that survive the process\<close>

definition content_digest :: "u8 list \<Rightarrow> u64" where
  "content_digest bs = foldl (\<lambda>digest b. (xor digest (ucast b)) * 1099511628211) 14695981039346656037 bs"

fun export_record :: "fs_host \<Rightarrow> string \<Rightarrow> undo_record \<Rightarrow> (undo_export, string) result" where
  "export_record h token (UndoMove from to) = Ok (ExportMove (relative from) (relative to))"
| "export_record h token (UndoCopy to after) =
     Ok (ExportCopy (relative to) (content_digest after) (of_nat (length after)))"
| "export_record h token (UndoQuarantine original quarantined) =
     Ok (ExportQuarantine (relative original) (relative quarantined))"
| "export_record h token (UndoWrite _ _ _) = fs_fail h (FsUnknownUndo token)"

definition export_undo :: "fs_host \<Rightarrow> string \<Rightarrow> fixture \<Rightarrow> (undo_export, string) result" where
  "export_undo h token s = (case bm_get (fx_undo s) token of
      None \<Rightarrow> fs_fail h (FsUnknownUndo token)
    | Some u \<Rightarrow> export_record h token u)"

definition link_then_remove :: "fs_host \<Rightarrow> fs_path \<Rightarrow> fs_path \<Rightarrow> unit fx" where
  "link_then_remove h source target = fx_bind (os_call h (link_file source target)) (\<lambda>_. os_call h (remove_file source))"

fun compensate_persisted :: "fs_host \<Rightarrow> undo_export \<Rightarrow> unit fx" where
  "compensate_persisted h (ExportMove from to) = fx_bind fx_tree_of (\<lambda>t.
     fx_bind (fx_return (checked_path h from t)) (\<lambda>from.
     fx_bind (fx_return (checked_path h to t)) (\<lambda>to.
     if \<not> path_exists t to \<or> path_exists t from then fx_return (fs_fail h (FsConflict (relative to)))
     else os_call h (rename_path to from))))"
| "compensate_persisted h (ExportCopy to expected_digest expected_len) = fx_bind fx_tree_of (\<lambda>t.
     fx_bind (fx_return (checked_path h to t)) (\<lambda>to.
     fx_bind (os_read h to) (\<lambda>actual.
     if of_nat (length actual) \<noteq> expected_len \<or> content_digest actual \<noteq> expected_digest
     then fx_return (fs_fail h (FsConflict (relative to)))
     else os_call h (remove_file to))))"
| "compensate_persisted h (ExportQuarantine original quarantined) = fx_bind fx_tree_of (\<lambda>t.
     fx_bind (fx_return (checked_path h original t)) (\<lambda>original.
     fx_bind (fx_return (checked_path h quarantined t)) (\<lambda>quarantined.
     if path_exists t original \<or> \<not> path_exists t quarantined
     then fx_return (fs_fail h (FsConflict (relative quarantined)))
     else link_then_remove h quarantined original)))"

section \<open>Previews and verification\<close>

text \<open>
  Both read the fixture only, as the search does. Their calls meet the failures that come next; the
  counter is not moved on.
\<close>

definition path_preview :: "string \<Rightarrow> fs_path list \<Rightarrow> effect_class \<Rightarrow> tool_preview" where
  "path_preview summary ps effect = \<lparr>pv_summary = summary, pv_resources = map relative ps, pv_operations = 1,
     pv_effect = effect\<rparr>"

definition two_paths :: "fs_host \<Rightarrow> tool_input \<Rightarrow> fs_tree \<Rightarrow> (fs_path \<times> fs_path, string) result" where
  "two_paths h input t = and_then (input_path h input ''from'' t) (\<lambda>from.
     and_then (input_path h input ''to'' t) (\<lambda>to. Ok (from, to)))"

definition fixture_preview :: "fs_host \<Rightarrow> fixture \<Rightarrow> tool_planner" where
  "fixture_preview h s d input = (let t = fx_tree s in
     if td_name d = FILESYSTEM_WRITE_TOOL then
       and_then (input_path h input ''path'' t) (\<lambda>p. and_then (fs_input h input ''content'') (\<lambda>_.
         Ok (path_preview (''write '' @ relative p) [p] EffReversible)))
     else if td_name d = FILESYSTEM_MOVE_TOOL then
       and_then (two_paths h input t) (\<lambda>(from, to).
         Ok (path_preview (''move '' @ relative from @ '' to '' @ relative to) [from, to] EffReversible))
     else if td_name d = FILESYSTEM_FIND_TOOL then
       and_then (find_input h input t) (\<lambda>(root, pattern, m).
         Ok (path_preview (''find at most '' @ show_nat m @ '' file(s) matching '' @ fsh_debug h pattern @
           '' under '' @ relative root) [root] EffIrreversible))
     else if td_name d = FILESYSTEM_COPY_TOOL then
       and_then (two_paths h input t) (\<lambda>(from, to).
         Ok (path_preview (''copy '' @ relative from @ '' to '' @ relative to) [from, to] EffReversible))
     else if td_name d = FILESYSTEM_REMOVE_TOOL then
       and_then (input_path h input ''path'' t) (\<lambda>p.
         Ok (path_preview (''quarantine '' @ relative p) [p] EffReversible))
     else fs_fail h (FsUnsupportedTool (td_name d)))"

definition expect :: "bool \<Rightarrow> string \<Rightarrow> (unit, string) result" where
  "expect b what = (if b then Ok () else Err (''filesystem verification found unexpected '' @ what))"

definition read_now :: "fs_host \<Rightarrow> fs_path \<Rightarrow> fixture \<Rightarrow> nat \<Rightarrow> (u8 list, string) result" where
  "read_now h p s n = fst (os_read h p (s\<lparr>fx_calls := fx_calls s + n\<rparr>))"

definition fixture_verify :: "fs_host \<Rightarrow> fixture \<Rightarrow> tool_verifier" where
  "fixture_verify h s d input out = (let t = fx_tree s in
     if td_name d = FILESYSTEM_WRITE_TOOL then
       and_then (input_path h input ''path'' t) (\<lambda>p. and_then (fs_input h input ''content'') (\<lambda>content.
       and_then (read_now h p s 0) (\<lambda>actual. expect (actual = as_bytes content) ''file contents'')))
     else if td_name d = FILESYSTEM_MOVE_TOOL then
       and_then (two_paths h input t) (\<lambda>(from, to).
         expect (\<not> path_exists t from \<and> path_exists t to) ''move state'')
     else if td_name d = FILESYSTEM_FIND_TOOL then
       and_then (find_input h input t) (\<lambda>(root, pattern, m).
       and_then (find_files h (fx_calls s) t root pattern m) (\<lambda>found.
         expect (join_with [char_of (10 :: nat)] found = out) ''search results''))
     else if td_name d = FILESYSTEM_COPY_TOOL then
       and_then (two_paths h input t) (\<lambda>(from, to).
         if is_file_node (t from) \<and> is_file_node (t to)
         then and_then (read_now h from s 0) (\<lambda>a. and_then (read_now h to s 1) (\<lambda>b. expect (a = b) ''copy state''))
         else expect False ''copy state'')
     else if td_name d = FILESYSTEM_REMOVE_TOOL then
       (case bm_get (fx_undo s) out of
          None \<Rightarrow> fs_fail h (FsUnknownUndo out)
        | Some (UndoQuarantine original quarantined) \<Rightarrow>
            expect (\<not> path_exists t original \<and> path_exists t quarantined) ''quarantine state''
        | Some _ \<Rightarrow> expect False ''quarantine state'')
     else fs_fail h (FsUnsupportedTool (td_name d)))"

section \<open>Reads\<close>

definition read_text_bounded :: "fs_host \<Rightarrow> string \<Rightarrow> usize \<Rightarrow> fixture \<Rightarrow> (string, string) result" where
  "read_text_bounded h rel max_bytes s = and_then (checked_path h rel (fx_tree s)) (\<lambda>p.
     let bounded = (case fx_tree s p of Some (FsFile bs) \<Rightarrow> length bs \<le> max_bytes | _ \<Rightarrow> False) in
     if fx_tree s p = None then Err (fsh_refused h (fx_calls s))
     else if \<not> bounded then fs_fail h (FsInvalidInput ''review file is not a bounded regular file'')
     else and_then (read_now h p s 0) (\<lambda>bs.
       if max_bytes < length bs then fs_fail h (FsInvalidInput ''review file exceeded its size bound'')
       else (case from_utf8 bs of
           Some text_read \<Rightarrow> Ok text_read
         | None \<Rightarrow> fs_fail h (FsInvalidInput ''review file is not UTF-8''))))"

definition list_root_files_bounded :: "fs_host \<Rightarrow> usize \<Rightarrow> fixture \<Rightarrow> (string list, string) result" where
  "list_root_files_bounded h max_files s = (case fsh_fault h (fx_calls s) of
      Some m \<Rightarrow> Err m
    | None \<Rightarrow> Ok (take max_files (sort (filter
        (\<lambda>n. is_ok (checked_path h n (fx_tree s)) \<and> is_file_node (fx_tree s [n])) (fsh_read_dir h (fx_tree s) [])))))"

end
