(* ===== verification/Terminal_Properties.thy ===== *)
theory Terminal_Properties
  imports Terminal_Plan Tool_Transactions
begin

text \<open>
  The matcher of file names is the usual meaning of a pattern; a plan is authorized by its most
  dangerous operation; a process is started only if it is allowed, with exactly the arguments given.
\<close>

section \<open>Patterns\<close>

text \<open>A pattern matches a text that can be cut into one piece for each of its characters.\<close>

definition piece :: "string \<Rightarrow> string list \<Rightarrow> bool" where
  "piece p w \<longleftrightarrow> p = ''*'' \<or> p = ''?'' \<and> length w = 1 \<or> p \<noteq> ''*'' \<and> p \<noteq> ''?'' \<and> w = [p]"

definition pattern_matches :: "string list \<Rightarrow> string list \<Rightarrow> bool" where
  "pattern_matches ps v \<longleftrightarrow> (\<exists>ws. v = concat ws \<and> list_all2 piece ps ws)"

lemma pattern_matches_Nil: "pattern_matches [] v \<longleftrightarrow> v = []"
  by (auto simp: pattern_matches_def)

lemma pattern_matches_snoc:
  "pattern_matches (ps @ [p]) v \<longleftrightarrow> (\<exists>u w. v = u @ w \<and> pattern_matches ps u \<and> piece p w)"
proof
  assume "pattern_matches (ps @ [p]) v"
  then obtain ws where v: "v = concat ws" and all: "list_all2 piece (ps @ [p]) ws" by (auto simp: pattern_matches_def)
  from all obtain us w where "ws = us @ [w]" "list_all2 piece ps us" "piece p w"
    by (auto simp: list_all2_append1 list_all2_Cons1)
  with v show "\<exists>u w. v = u @ w \<and> pattern_matches ps u \<and> piece p w"
    unfolding pattern_matches_def by (intro exI [of _ "concat us"] exI [of _ w]) auto
next
  assume "\<exists>u w. v = u @ w \<and> pattern_matches ps u \<and> piece p w"
  then obtain us w where "v = concat us @ w" "list_all2 piece ps us" "piece p w" by (auto simp: pattern_matches_def)
  then show "pattern_matches (ps @ [p]) v"
    unfolding pattern_matches_def by (intro exI [of _ "us @ [w]"]) (auto intro: list_all2_appendI)
qed

text \<open>The states of the matcher: for each prefix of the value whether the pattern matches it.\<close>

definition pattern_states :: "string list \<Rightarrow> string list \<Rightarrow> bool list" where
  "pattern_states ps v = map (\<lambda>i. pattern_matches ps (take i v)) [0..<Suc (length v)]"

lemma length_star_states [simp]: "length (star_states b ss) = length ss"
  by (induction b ss rule: star_states.induct) auto

lemma ex_le_Suc: "(\<exists>j \<le> Suc k. P j) \<longleftrightarrow> P 0 \<or> (\<exists>j \<le> k. P (Suc j))"
  by (simp only: less_Suc_eq_le [symmetric] Ex_less_Suc2)

lemma star_states_nth: "i < length ss \<Longrightarrow> star_states b ss ! i \<longleftrightarrow> b \<or> (\<exists>j \<le> i. ss ! j)"
proof (induction b ss arbitrary: i rule: star_states.induct)
  case (2 b s ss)
  show ?case
  proof (cases i)
    case (Suc k)
    with 2 have "star_states b (s # ss) ! i \<longleftrightarrow> (s \<or> b) \<or> (\<exists>j \<le> k. ss ! j)" by simp
    also have "\<dots> \<longleftrightarrow> b \<or> (\<exists>j \<le> i. (s # ss) ! j)"
      unfolding Suc ex_le_Suc by auto
    finally show ?thesis .
  qed auto
qed simp

lemma step_star:
  assumes "i \<le> length v"
  shows "pattern_matches (ps @ [''*'']) (take i v) \<longleftrightarrow> (\<exists>j \<le> i. pattern_matches ps (take j v))"
proof
  assume "pattern_matches (ps @ [''*'']) (take i v)"
  then obtain u w where uw: "take i v = u @ w" and u: "pattern_matches ps u" by (auto simp: pattern_matches_snoc)
  from uw assms have "length u \<le> i" by (metis length_append length_take le_add1 min.absorb2)
  moreover from uw this have "take (length u) v = u"
    by (metis append_eq_conv_conj take_take min.absorb1)
  ultimately show "\<exists>j \<le> i. pattern_matches ps (take j v)" using u by metis
next
  assume "\<exists>j \<le> i. pattern_matches ps (take j v)"
  then obtain j where j: "j \<le> i" "pattern_matches ps (take j v)" by blast
  have "take i v = take j v @ drop j (take i v)" using j(1) by (metis append_take_drop_id min.absorb1 take_take)
  with j(2) show "pattern_matches (ps @ [''*'']) (take i v)"
    unfolding pattern_matches_snoc piece_def by blast
qed

lemma step_one:
  assumes "p \<noteq> ''*''" and "i \<le> length v"
  shows "pattern_matches (ps @ [p]) (take i v) \<longleftrightarrow>
    (\<exists>j. i = Suc j \<and> pattern_matches ps (take j v) \<and> (p = ''?'' \<or> v ! j = p))"
proof
  assume "pattern_matches (ps @ [p]) (take i v)"
  then obtain u c where uc: "take i v = u @ [c]" and u: "pattern_matches ps u" and c: "p = ''?'' \<or> c = p"
    using assms(1) by (auto simp: pattern_matches_snoc piece_def length_Suc_conv)
  then have i: "i = Suc (length u)" using assms(2) by (metis length_append_singleton length_take min.absorb2)
  with uc assms(2) have "take (length u) v @ [v ! length u] = u @ [c]" by (simp add: take_Suc_conv_app_nth)
  with u c i show "\<exists>j. i = Suc j \<and> pattern_matches ps (take j v) \<and> (p = ''?'' \<or> v ! j = p)" by auto
next
  assume "\<exists>j. i = Suc j \<and> pattern_matches ps (take j v) \<and> (p = ''?'' \<or> v ! j = p)"
  then obtain j where j: "i = Suc j" "pattern_matches ps (take j v)" "p = ''?'' \<or> v ! j = p" by blast
  have "take i v = take j v @ [v ! j]" using j(1) assms(2) by (simp add: take_Suc_conv_app_nth)
  moreover have "piece p [v ! j]" using j(3) by (auto simp: piece_def)
  ultimately show "pattern_matches (ps @ [p]) (take i v)"
    using j(2) unfolding pattern_matches_snoc by blast
qed

lemma glob_step_states: "glob_step v (pattern_states ps v) p = pattern_states (ps @ [p]) v"
proof (rule nth_equalityI)
  show len: "length (glob_step v (pattern_states ps v) p) = length (pattern_states (ps @ [p]) v)"
    by (simp add: glob_step_def pattern_states_def del: upt_Suc)
  fix i
  assume "i < length (glob_step v (pattern_states ps v) p)"
  with len have i: "i \<le> length v" by (simp add: pattern_states_def)
  let ?s = "pattern_states ps v"
  have nth: "?s ! j \<longleftrightarrow> pattern_matches ps (take j v)" if "j \<le> length v" for j
    using that by (simp add: pattern_states_def del: upt_Suc)
  have s: "?s = hd ?s # tl ?s" "hd ?s = ?s ! 0" by (simp_all add: pattern_states_def upt_conv_Cons del: upt_Suc)
  have tl_len: "length (tl ?s) = length v" by (simp add: pattern_states_def)
  have goal: "pattern_states (ps @ [p]) v ! i \<longleftrightarrow> pattern_matches (ps @ [p]) (take i v)"
    using i by (simp add: pattern_states_def del: upt_Suc)
  show "glob_step v ?s p ! i = pattern_states (ps @ [p]) v ! i"
  proof (cases "p = ''*''")
    case True
    have "(hd ?s # star_states (hd ?s) (tl ?s)) ! i \<longleftrightarrow> (\<exists>j \<le> i. ?s ! j)"
    proof (cases i)
      case (Suc k)
      have "star_states (hd ?s) (tl ?s) ! k \<longleftrightarrow> hd ?s \<or> (\<exists>j \<le> k. tl ?s ! j)"
        by (rule star_states_nth) (use Suc i tl_len in simp)
      also have "\<dots> \<longleftrightarrow> (\<exists>j \<le> i. (hd ?s # tl ?s) ! j)"
        unfolding Suc ex_le_Suc by simp
      finally show ?thesis using s(1) Suc by simp
    qed (use s in simp)
    also have "\<dots> \<longleftrightarrow> (\<exists>j \<le> i. pattern_matches ps (take j v))" using nth i by (meson order_trans)
    finally show ?thesis using True goal step_star [OF i, of ps] by (simp add: glob_step_def)
  next
    case False
    have len_s: "length ?s = Suc (length v)" by (simp add: pattern_states_def)
    have "glob_step v ?s p ! i \<longleftrightarrow> (\<exists>j. i = Suc j \<and> ?s ! j \<and> (p = ''?'' \<or> v ! j = p))"
      using False i len_s by (cases i) (auto simp: glob_step_def)
    also have "\<dots> \<longleftrightarrow> (\<exists>j. i = Suc j \<and> pattern_matches ps (take j v) \<and> (p = ''?'' \<or> v ! j = p))"
      using nth i by auto
    finally show ?thesis using goal step_one [OF False i, of ps] by simp
  qed
qed

lemma glob_fold: "foldl (glob_step v) (pattern_states qs v) ps = pattern_states (qs @ ps) v"
  by (induction ps arbitrary: qs) (simp_all add: glob_step_states)

text \<open>
  C19: the file matcher implements patterns. For every pattern and every name the loop of
  \<open>glob_matches\<close> over one row of states decides exactly whether the characters of the name can be cut
  into one piece for each character of the pattern: any piece for a star, one character for a
  question mark, the character itself otherwise.
\<close>

theorem glob_matches_iff:
  "glob_matches pattern name \<longleftrightarrow> pattern_matches (str_chars pattern) (str_chars name)"
proof -
  let ?v = "str_chars name"
  have "True # replicate (length ?v) False = pattern_states [] ?v"
    by (rule nth_equalityI)
      (auto simp: pattern_states_def pattern_matches_Nil nth_Cons simp del: upt_Suc split: nat.split)
  with glob_fold [of ?v "[]" "str_chars pattern"]
  have "foldl (glob_step ?v) (True # replicate (length ?v) False) (str_chars pattern) = pattern_states (str_chars pattern) ?v"
    by simp
  moreover have "pattern_states (str_chars pattern) ?v ! length ?v \<longleftrightarrow> pattern_matches (str_chars pattern) ?v"
    by (simp add: pattern_states_def del: upt_Suc)
  ultimately show ?thesis by (simp add: glob_matches_def Let_def)
qed

section \<open>Plans\<close>

lemma fold_max_risk:
  "risk_rank (fold (\<lambda>x best. if risk_rank best \<le> risk_rank x then x else best) rs r) =
    fold (\<lambda>x n. max n (risk_rank x)) rs (risk_rank r)"
  by (induction rs arbitrary: r) (auto simp: max_def)

lemma risk_of_rank:
  "risk_rank r = 0 \<longleftrightarrow> r = RiskSafe" "risk_rank r \<ge> 3 \<longleftrightarrow> r = RiskBlock" "risk_rank r \<le> 3"
  by (cases r; simp)+

lemma fold_max_bounds:
  "fold (\<lambda>x n. max n (f x)) xs (m :: nat) = 0 \<longleftrightarrow> m = 0 \<and> (\<forall>x \<in> set xs. f x = 0)"
  "k \<le> fold (\<lambda>x n. max n (f x)) xs m \<longleftrightarrow> k \<le> m \<or> (\<exists>x \<in> set xs. k \<le> f x)"
  by (induction xs arbitrary: m) auto

lemma max_risk_Some:
  assumes "max_risk rs = Some r"
  shows "(r = RiskSafe \<longleftrightarrow> (\<forall>x \<in> set rs. x = RiskSafe)) \<and> (r = RiskBlock \<longleftrightarrow> RiskBlock \<in> set rs)"
proof (cases rs)
  case (Cons x xs)
  let ?r = "fold (\<lambda>x best. if risk_rank best \<le> risk_rank x then x else best) xs x"
  have r: "r = ?r" using assms Cons by simp
  have "risk_rank ?r = fold (\<lambda>x n. max n (risk_rank x)) xs (risk_rank x)" by (rule fold_max_risk)
  then have "(risk_rank r = 0 \<longleftrightarrow> risk_rank x = 0 \<and> (\<forall>y \<in> set xs. risk_rank y = 0)) \<and>
      (3 \<le> risk_rank r \<longleftrightarrow> 3 \<le> risk_rank x \<or> (\<exists>y \<in> set xs. 3 \<le> risk_rank y))"
    unfolding r by (simp only: fold_max_bounds)
  then show ?thesis using Cons by (auto simp: risk_of_rank)
qed (use assms in simp)

text \<open>
  A plan is built exactly from one to 64 valid operations. Without a confirmation it is
  authorized exactly if all of them are safe, with one exactly if none of them is blocked; a plan with
  a shell command or an unknown Git action is never authorized.
\<close>

theorem plan_authorization:
  assumes "plan_build ops = Ok p"
  shows "tpl_operations p = ops \<and> ops \<noteq> [] \<and> length ops \<le> 64 \<and> (\<forall>x \<in> set ops. operation_validate x = Ok ()) \<and>
    (plan_authorize p False = Ok () \<longleftrightarrow> (\<forall>x \<in> set ops. operation_risk x = RiskSafe)) \<and>
    (plan_authorize p True = Ok () \<longleftrightarrow> (\<forall>x \<in> set ops. operation_risk x \<noteq> RiskBlock)) \<and>
    (tpl_compensable p \<longleftrightarrow> (\<forall>x \<in> set ops. is_compensatable x))"
proof -
  from assms obtain r where r: "max_risk (map operation_risk ops) = Some r"
    and p: "p = \<lparr>tpl_operations = ops, tpl_risk = r, tpl_disposition = disposition_of r,
      tpl_compensable = list_all is_compensatable ops\<rparr>"
    and ops: "ops \<noteq> []" "length ops \<le> 64" "try_all operation_validate ops = Ok ()"
    by (auto simp: plan_build_def MAX_TERMINAL_OPERATIONS_def split: if_splits)
  have "(plan_authorize p False = Ok () \<longleftrightarrow> r = RiskSafe) \<and> (plan_authorize p True = Ok () \<longleftrightarrow> r \<noteq> RiskBlock)"
    unfolding p by (cases r) simp_all
  moreover have "r = RiskSafe \<longleftrightarrow> (\<forall>x \<in> set ops. operation_risk x = RiskSafe)"
    and "r \<noteq> RiskBlock \<longleftrightarrow> (\<forall>x \<in> set ops. operation_risk x \<noteq> RiskBlock)"
    using max_risk_Some [OF r] by (simp, force)
  ultimately show ?thesis using ops by (simp add: p try_all_Ok_iff list_all_iff del: plan_authorize.simps)
qed

theorem plan_authorization_witness:
  "\<exists>p. plan_build [FindFiles ''src'' ''*'' 5, RemoveFile ''a''] = Ok p \<and> plan_authorize p False \<noteq> Ok () \<and>
    plan_authorize p True = Ok ()"
proof -
  have "\<exists>p. plan_build [FindFiles ''src'' ''*'' 5, RemoveFile ''a''] = Ok p"
    by (simp add: plan_build_def MAX_TERMINAL_OPERATIONS_def validate_relative_text_def validate_terminal_text_def
        MAX_TERMINAL_TEXT_BYTES_def path_is_absolute_def has_parent_dir_def not_blank_ascii
        char_of_def)
  then obtain p where p: "plan_build [FindFiles ''src'' ''*'' 5, RemoveFile ''a''] = Ok p" by blast
  from plan_authorization [OF p] have "plan_authorize p False \<noteq> Ok ()" "plan_authorize p True = Ok ()"
    by (simp_all del: plan_authorize.simps)
  with p show ?thesis by blast
qed

section \<open>Processes\<close>

text \<open>Arguments are numbered without gaps: the entries are those of the list, in its order.\<close>

lemma contiguous_entries:
  "contiguous_arguments n es = Ok vs \<longleftrightarrow> es = zip [n..<n + length es] vs \<and> length vs = length es"
proof (induction n es arbitrary: vs rule: contiguous_arguments.induct)
  case (2 n i v rest)
  show ?case
  proof (cases "n = i")
    case True
    with 2 have "contiguous_arguments (Suc n) rest = Ok ws \<longleftrightarrow>
        rest = zip [Suc n..<Suc n + length rest] ws \<and> length ws = length rest" for ws by blast
    with True show ?thesis by (cases vs) (auto simp: upt_conv_Cons simp del: upt_Suc)
  next
    case False
    then show ?thesis by (cases vs) (auto simp: upt_conv_Cons simp del: upt_Suc)
  qed
qed auto

definition argument_key :: "usize \<Rightarrow> string \<Rightarrow> bool" where
  "argument_key i key \<longleftrightarrow> starts_with key ''arg'' \<and> parse_usize (drop 3 key) = Some i"

text \<open>What the map of arguments holds after some entries of the input.\<close>

definition indexes :: "(string \<times> string) list \<Rightarrow> (usize, string) bmap \<Rightarrow> bool" where
  "indexes es m \<longleftrightarrow> (\<forall>(key, v) \<in> set es. starts_with key ''arg'' \<longrightarrow>
       (\<exists>i. argument_key i key \<and> bm_get m i = Some v \<and> \<not> list_ex shell_metacharacter v)) \<and>
     (\<forall>i v. bm_get m i = Some v \<longrightarrow> (\<exists>key. (key, v) \<in> set es \<and> argument_key i key))"

lemma indexes_step:
  assumes "indexes es m" and "index_argument m e = Ok m'"
  shows "indexes (es @ [e]) m'"
proof -
  obtain key v where e: "e = (key, v)" by (cases e)
  show ?thesis
  proof (cases "starts_with key ''arg''")
    case False
    with assms(2) e have m': "m' = m" by (simp add: index_argument_def)
    from assms(1) False show ?thesis unfolding indexes_def e m' by fastforce
  next
    case True
    with assms(2) e obtain i where i: "parse_usize (drop 3 key) = Some i" "\<not> list_ex shell_metacharacter v"
      "bm_get m i = None" "m' = bm_insert i v m"
      by (auto simp: index_argument_def bm_contains_key_def split: if_splits)
    have old: "bm_get m' j = Some w" if "bm_get m j = Some w" for j w
      using that i by (auto simp: bm_get_insert)
    have key: "argument_key i key" using True i(1) by (simp add: argument_key_def)
    show ?thesis
      unfolding indexes_def e
      using assms(1) old i key by (fastforce simp: indexes_def bm_get_insert split: if_splits)
  qed
qed

lemma indexes_fold: "try_fold index_argument bm_empty es = Ok m \<Longrightarrow> indexes es m"
proof (induction es arbitrary: m rule: rev_induct)
  case (snoc e es)
  then show ?case by (auto simp: try_fold_append intro: indexes_step)
qed (simp add: indexes_def)

lemma process_request_Ok:
  assumes "process_request input = Ok (program, args)"
  shows "bm_get input ''program'' = Some program \<and> program \<noteq> [] \<and> CHR ''/'' \<notin> set program \<and>
    \<not> list_ex shell_metacharacter program \<and> (\<forall>v \<in> set args. \<not> list_ex shell_metacharacter v) \<and>
    (\<forall>i < length args. \<exists>key. bm_get input key = Some (args ! i) \<and> argument_key i key) \<and>
    (\<forall>key v. bm_get input key = Some v \<and> starts_with key ''arg'' \<longrightarrow>
      (\<exists>i < length args. argument_key i key \<and> args ! i = v))"
proof -
  from assms obtain m where program: "bm_get input ''program'' = Some program" "program \<noteq> []" "CHR ''/'' \<notin> set program"
    "\<not> list_ex shell_metacharacter program"
    and m: "try_fold index_argument bm_empty (bm_entries input) = Ok m" "contiguous_arguments 0 (bm_entries m) = Ok args"
    by (auto simp: process_request_def split: if_splits)
  from m(2) have entries: "bm_entries m = zip [0..<length args] args" by (auto simp: contiguous_entries)
  have get: "bm_get m i = Some v \<longleftrightarrow> i < length args \<and> args ! i = v" for i v
    unfolding bm_entries_get [symmetric] entries by (auto simp: in_set_zip intro!: exI [of _ i])
  note ix = indexes_fold [OF m(1), unfolded indexes_def]
  have keyed: "\<exists>i. argument_key i key \<and> bm_get m i = Some v \<and> \<not> list_ex shell_metacharacter v"
    if "bm_get input key = Some v" and "starts_with key ''arg''" for key v
    using ix that unfolding bm_entries_get [symmetric] by blast
  have source: "\<exists>key. bm_get input key = Some v \<and> argument_key i key" if "bm_get m i = Some v" for i v
    using ix that by (auto simp: bm_entries_get)
  have "\<not> list_ex shell_metacharacter v" if "v \<in> set args" for v
  proof -
    from that obtain i where "bm_get m i = Some v" by (auto simp: in_set_conv_nth get)
    from source [OF this] obtain key where key: "bm_get input key = Some v" "starts_with key ''arg''"
      by (auto simp: argument_key_def)
    from keyed [OF this] show ?thesis by blast
  qed
  moreover have "\<exists>key. bm_get input key = Some (args ! i) \<and> argument_key i key" if "i < length args" for i
    using source [of i "args ! i"] that by (simp add: get)
  moreover have "\<exists>i < length args. argument_key i key \<and> args ! i = v"
    if "bm_get input key = Some v" "starts_with key ''arg''" for key v
    using keyed [OF that] by (auto simp: get)
  ultimately show ?thesis using program by blast
qed

text \<open>
  A process is started only as it was authorized. Whatever the invoker does, executing the process
  tool changes nothing unless the program is on the list of the policy and has no separator and no
  shell metacharacter; then the invoker has been called once, with exactly the values of the
  numbered arguments, in the order of their numbers, and none with a metacharacter.
\<close>

theorem process_runs_only_allowed:
  assumes "process_execute dbg win policy invoke d input p = (res, p')"
  shows "(p' = p \<and> \<not> is_ok res) \<or>
    (\<exists>program args. td_name d = PROCESS_RUN_TOOL \<and> policy_allows win policy program \<and>
      bm_get input ''program'' = Some program \<and> CHR ''/'' \<notin> set program \<and>
      (\<forall>v \<in> set (program # args). \<not> list_ex shell_metacharacter v) \<and>
      (\<forall>i < length args. \<exists>key. bm_get input key = Some (args ! i) \<and> argument_key i key) \<and>
      (\<forall>key v. bm_get input key = Some v \<and> starts_with key ''arg'' \<longrightarrow>
        (\<exists>i < length args. argument_key i key \<and> args ! i = v)) \<and>
      p' = snd (invoke program args p) \<and> is_ok res = is_ok (fst (invoke program args p)))"
proof (cases "process_checked win policy d input")
  case (Err e)
  with assms show ?thesis by (auto simp: process_execute_def)
next
  case (Ok c)
  obtain program args where c: "c = (program, args)" by (cases c)
  with Ok have name: "td_name d = PROCESS_RUN_TOOL" and req: "process_request input = Ok (program, args)"
    and allowed: "policy_allows win policy program"
    by (auto simp: process_checked_def process_authorize_def split: if_splits)
  have "p' = snd (invoke program args p)" "is_ok res = is_ok (fst (invoke program args p))"
    using assms Ok c by (auto simp: process_execute_def split: prod.splits result.splits)
  with process_request_Ok [OF req] name allowed show ?thesis by auto
qed

definition demo_invoker :: "nat process_invoker" where
  "demo_invoker program args n = (Ok ''done'', n + length args)"

definition demo_process_input :: tool_input where
  "demo_process_input = bm_insert ''arg0'' ''status'' (bm_insert ''program'' ''git'' bm_empty)"

lemma demo_request: "process_request demo_process_input = Ok (''git'', [''status''])"
  by (simp add: process_request_def demo_process_input_def bm_get_insert index_argument_def parse_usize_def
      digit_value_def shell_metacharacter_def char_of_def Let_def)

lemma demo_process:
  "process_execute id False (allow_executable False ''git'' bm_empty) demo_invoker process_definition demo_process_input 0 =
    (Ok \<lparr>ex_output = Some ''done'', ex_compensable = False, ex_effect = EffectConfirmed\<rparr>, 1)"
  by (simp add: process_execute_def process_checked_def process_definition_def path_tool_def demo_request
      process_authorize_def policy_allows_def allow_executable_def process_identity_def demo_invoker_def)

theorem process_runs_only_allowed_witness:
  "\<exists>program args. policy_allows False (allow_executable False ''git'' bm_empty) program \<and>
    bm_get demo_process_input ''program'' = Some program \<and> (1 :: nat) = snd (demo_invoker program args 0)"
  using process_runs_only_allowed [OF demo_process] by auto

end
