(* ===== verification/Workspace_Properties.thy ===== *)
theory Workspace_Properties
  imports Workspace_Files Terminal_Properties
begin

text \<open>
  What the file tools do to a workspace: they stay below the root, every effect can be undone exactly,
  undoing never overwrites a later change, and the search lists files that match.
\<close>

section \<open>Trees\<close>

text \<open>Everything but the root lies in a directory.\<close>

definition tree_ok :: "fs_tree \<Rightarrow> bool" where
  "tree_ok t \<longleftrightarrow> t [] = Some FsDir \<and> (\<forall>p. p \<noteq> [] \<longrightarrow> t p \<noteq> None \<longrightarrow> t (butlast p) = Some FsDir)"

lemma in_dir_iff: "in_dir d p \<longleftrightarrow> (\<exists>q. p = d @ q)"
  by (auto simp: in_dir_def) (metis append_take_drop_id)

lemma in_dir_append [simp]: "in_dir d (d @ q)"
  by (simp add: in_dir_def)

lemma in_dir_refl [simp]: "in_dir d d"
  by (simp add: in_dir_def)

lemma below_dir:
  assumes "tree_ok t" and "t (p @ q) \<noteq> None" and "q \<noteq> []"
  shows "t p = Some FsDir"
  using assms(2,3)
proof (induction q rule: rev_induct)
  case (snoc x q)
  with assms(1) have "t (p @ q) = Some FsDir"
    unfolding tree_ok_def by (metis append_assoc butlast_snoc snoc_eq_iff_butlast)
  with snoc.IH show ?case by (cases "q = []") auto
qed simp

lemma nothing_below:
  assumes "tree_ok t" and "t p \<noteq> Some FsDir" and "q \<noteq> []"
  shows "t (p @ q) = None"
  using below_dir [OF assms(1) _ assms(3), of p] assms(2) by blast

lemma moved_back:
  assumes ok: "tree_ok t" and here: "t from \<noteq> None" and there: "t to = None" and not_in: "\<not> in_dir from to"
  shows "moved_tree to from (moved_tree from to t) = t"
proof
  fix p
  have not_back: "\<not> in_dir to from"
  proof
    assume "in_dir to from"
    then obtain q where q: "from = to @ q" by (auto simp: in_dir_iff)
    with here there have "q \<noteq> []" by auto
    with below_dir [OF ok, of to q] here q there show False by simp
  qed
  show "moved_tree to from (moved_tree from to t) p = t p"
  proof (cases "in_dir from p")
    case True
    then obtain q where "p = from @ q" by (auto simp: in_dir_iff)
    then show ?thesis by (simp add: moved_tree_def)
  next
    case False
    show ?thesis
    proof (cases "in_dir to p")
      case True
      then obtain q where p: "p = to @ q" by (auto simp: in_dir_iff)
      have "t p = None" using nothing_below [OF ok, of to q] there p by (cases "q = []") auto
      with False True show ?thesis by (simp add: moved_tree_def)
    qed (simp add: moved_tree_def False)
  qed
qed

lemma not_in_parent:
  assumes "p \<noteq> []"
  shows "\<not> in_dir p (butlast p)"
proof
  assume "in_dir p (butlast p)"
  then obtain q where "butlast p = p @ q" by (auto simp: in_dir_iff)
  then have "length p - 1 = length p + length q" by (metis length_append length_butlast)
  moreover have "0 < length p" using assms by simp
  ultimately show False by linarith
qed

lemma in_dir_up: "in_dir d p \<Longrightarrow> p = d \<or> in_dir d (butlast p)"
  by (auto simp: in_dir_iff butlast_append)

lemma in_dir_parent:
  assumes "p \<noteq> []" and "in_dir p r"
  shows "in_dir (butlast p) r"
proof -
  from assms(2) obtain q where "r = p @ q" by (auto simp: in_dir_iff)
  with assms(1) have "r = butlast p @ (last p # q)" by (simp flip: append_butlast_last_id)
  then show ?thesis by simp
qed

lemma rename_back:
  assumes ok: "tree_ok t" and ren: "rename_path from to t = Some t'"
  shows "rename_path to from t' = Some t"
proof -
  from ren have pre: "t from \<noteq> None" "t to = None" "from \<noteq> []" "to \<noteq> []" "\<not> in_dir from to"
    and t': "t' = moved_tree from to t" by (auto simp: rename_path_def split: if_splits)
  have parent: "t (butlast from) = Some FsDir" using ok pre(1,3) by (auto simp: tree_ok_def)
  have not_back: "\<not> in_dir to (butlast from)"
  proof
    assume "in_dir to (butlast from)"
    then obtain q where q: "butlast from = to @ q" by (auto simp: in_dir_iff)
    with below_dir [OF ok, of to q] parent pre(2) show False by (cases "q = []") auto
  qed
  then have "\<not> in_dir to from"
    using pre(1,2) in_dir_up [of to "from"] by auto
  moreover have "\<not> in_dir from (butlast from)"
    by (rule not_in_parent [OF pre(3)])
  ultimately have "t' to \<noteq> None" "t' from = None" "\<not> in_dir to from" "is_dir t' (butlast from)"
    using pre(1) parent not_back by (simp_all add: t' moved_tree_def is_dir_def)
  with pre(3,4) show ?thesis
    by (simp add: rename_path_def) (simp add: t' moved_back [OF ok pre(1,2,5)])
qed

lemma write_back:
  assumes "write_file p bs t = Some t'"
  shows "t' = t(p \<mapsto> FsFile bs)" "t p = Some (FsFile old) \<Longrightarrow> write_file p old t' = Some t"
    "t p = None \<Longrightarrow> remove_file p t' = Some t"
proof -
  from assms show t': "t' = t(p \<mapsto> FsFile bs)" by (auto simp: write_file_def split: if_splits)
  from assms have p: "p \<noteq> []" "is_dir t (butlast p)" by (auto simp: write_file_def split: if_splits)
  have "butlast p \<noteq> p" using p(1) by (metis append_butlast_last_id append_self_conv list.distinct(1))
  with p t' show "t p = Some (FsFile old) \<Longrightarrow> write_file p old t' = Some t"
    by (auto simp: write_file_def is_dir_def)
  show "t p = None \<Longrightarrow> remove_file p t' = Some t"
    using t' by (auto simp: remove_file_def is_dir_def)
qed

text \<open>A file linked into another directory and then removed is back after a rename.\<close>

lemma quarantine_back:
  assumes ok: "tree_ok t" and link: "link_file original quarantined t = Some t1"
    and remove: "remove_file original t1 = Some t2" and apart: "\<not> in_dir (butlast quarantined) original"
  shows "t2 original = None \<and> t2 quarantined \<noteq> None \<and> rename_path quarantined original t2 = Some t"
proof -
  let ?o = original and ?q = quarantined
  from link have pre: "t ?o \<noteq> None" "t ?o \<noteq> Some FsDir" "t ?q = None" "?q \<noteq> []" "t (butlast ?q) = Some FsDir"
    and t1: "t1 = t(?q := t ?o)" by (auto simp: link_file_def is_dir_def split: if_splits)
  from remove have t2: "t2 = t1(?o := None)" by (auto simp: remove_file_def split: if_splits)
  have "?o \<noteq> []" using pre(2) ok by (auto simp: tree_ok_def)
  then have parent: "t (butlast ?o) = Some FsDir" using ok pre(1) by (auto simp: tree_ok_def)
  have diff: "?o \<noteq> ?q" using pre by auto
  have up: "butlast ?o \<noteq> ?q" "butlast ?o \<noteq> ?o" using parent pre by auto
  have not_in: "\<not> in_dir ?q ?o"
    using apart in_dir_parent [OF pre(4)] by blast
  have same: "moved_tree ?q ?o t2 p = t p" for p
  proof (cases "in_dir ?o p")
    case True
    then obtain r where p: "p = ?o @ r" by (auto simp: in_dir_iff)
    show ?thesis
    proof (cases "r = []")
      case True
      with p diff show ?thesis by (simp add: moved_tree_def t2 t1)
    next
      case False
      have "?q @ r \<noteq> ?o" using not_in by (metis in_dir_append)
      moreover have "?q @ r \<noteq> ?q" using False by simp
      ultimately have "moved_tree ?q ?o t2 p = t (?q @ r)" using p by (simp add: moved_tree_def t2 t1)
      also have "\<dots> = None" by (rule nothing_below [OF ok _ False]) (simp add: pre(3))
      also have "\<dots> = t p" using nothing_below [OF ok pre(2) False] p by simp
      finally show ?thesis .
    qed
  next
    case False
    show ?thesis
    proof (cases "in_dir ?q p")
      case True
      then obtain r where p: "p = ?q @ r" by (auto simp: in_dir_iff)
      have "t p = None" using nothing_below [OF ok, of ?q r] pre(3) p by (cases "r = []") auto
      with False True show ?thesis by (simp add: moved_tree_def)
    next
      case out: False
      with False have "p \<noteq> ?o" "p \<noteq> ?q" by auto
      with False out show ?thesis by (simp add: moved_tree_def t2 t1)
    qed
  qed
  show ?thesis
    using pre parent not_in up diff \<open>?o \<noteq> []\<close> same
    by (auto simp: rename_path_def t2 t1 is_dir_def)
qed

section \<open>Successful calls\<close>

named_theorems fx_Ok

lemma fx_bind_Ok [fx_Ok]:
  "fx_bind m f s = (Ok y, s') \<longleftrightarrow> (\<exists>x s1. m s = (Ok x, s1) \<and> f x s1 = (Ok y, s'))"
  by (auto simp: fx_bind_def split: prod.splits result.splits)

lemma fx_return_Ok [fx_Ok]: "fx_return r s = (Ok x, s') \<longleftrightarrow> r = Ok x \<and> s' = s"
  by (auto simp: fx_return_def)

lemma fs_fail_Ok [fx_Ok]: "fs_fail h e = Ok x \<longleftrightarrow> False"
  by (simp add: fs_fail_def)

lemma fx_require_Ok [fx_Ok]: "fx_require b h e s = (Ok u, s') \<longleftrightarrow> b \<and> s' = s"
  by (auto simp: fx_require_def fx_return_Ok fs_fail_Ok)

lemma fx_tree_of_Ok [fx_Ok]: "fx_tree_of s = (Ok t, s') \<longleftrightarrow> t = fx_tree s \<and> s' = s"
  by (auto simp: fx_tree_of_def)

lemma os_call_Ok [fx_Ok]: "os_call h change s = (Ok u, s') \<longleftrightarrow>
    fsh_fault h (fx_calls s) = None \<and> (\<exists>t. change (fx_tree s) = Some t \<and> s' = s\<lparr>fx_calls := Suc (fx_calls s), fx_tree := t\<rparr>)"
  by (auto simp: os_call_def Let_def split: option.splits)

lemma os_write_Ok [fx_Ok]: "os_write h p bs s = (Ok u, s') \<longleftrightarrow>
    fsh_fault h (fx_calls s) = None \<and> (\<exists>t. write_file p bs (fx_tree s) = Some t \<and> s' = s\<lparr>fx_calls := Suc (fx_calls s), fx_tree := t\<rparr>)"
  by (auto simp: os_write_def Let_def split: option.splits)

lemma os_read_Ok [fx_Ok]: "os_read h p s = (Ok bs, s') \<longleftrightarrow>
    fsh_fault h (fx_calls s) = None \<and> fx_tree s p = Some (FsFile bs) \<and> s' = s\<lparr>fx_calls := Suc (fx_calls s)\<rparr>"
  by (auto simp: os_read_def Let_def split: option.splits fs_node.splits)

lemma read_if_exists_Ok [fx_Ok]: "read_if_exists h p s = (Ok before, s') \<longleftrightarrow>
    (case before of None \<Rightarrow> fx_tree s p = None \<and> s' = s
      | Some bs \<Rightarrow> fsh_fault h (fx_calls s) = None \<and> fx_tree s p = Some (FsFile bs) \<and> s' = s\<lparr>fx_calls := Suc (fx_calls s)\<rparr>)"
  by (auto simp: read_if_exists_def path_exists_def fx_bind_Ok fx_return_Ok os_read_Ok split: option.splits)

lemma take_token_Ok [fx_Ok]: "take_token h s = (Ok token, s') \<longleftrightarrow>
    token = undo_token h (fx_ids s) \<and> s' = s\<lparr>fx_ids := Suc (fx_ids s)\<rparr>"
  by (auto simp: take_token_def)

lemma remember_Ok [fx_Ok]: "remember token u s = (Ok ex, s') \<longleftrightarrow>
    ex = \<lparr>ex_output = Some token, ex_compensable = True, ex_effect = EffectConfirmed\<rparr> \<and>
    s' = s\<lparr>fx_undo := bm_insert token u (fx_undo s)\<rparr>"
  by (auto simp: remember_def)

text \<open>What undoing a record does to a tree, when it is possible.\<close>

fun undone :: "undo_record \<Rightarrow> fs_tree \<Rightarrow> fs_tree option" where
  "undone (UndoWrite p before after) t =
     (if t p \<noteq> Some (FsFile after) then None
      else (case before of Some bs \<Rightarrow> write_file p bs t | None \<Rightarrow> remove_file p t))"
| "undone (UndoMove from to) t = (if t to = None \<or> t from \<noteq> None then None else rename_path to from t)"
| "undone (UndoCopy to after) t = (if t to \<noteq> Some (FsFile after) then None else remove_file to t)"
| "undone (UndoQuarantine original quarantined) t =
     (if t original \<noteq> None \<or> t quarantined = None then None else rename_path quarantined original t)"

definition no_more_faults :: "fs_host \<Rightarrow> nat \<Rightarrow> bool" where
  "no_more_faults h n \<longleftrightarrow> (\<forall>k \<ge> n. fsh_fault h k = None)"

lemma no_more_faults_at: "no_more_faults h n \<Longrightarrow> fsh_fault h n = None" "no_more_faults h n \<Longrightarrow> fsh_fault h (Suc n) = None"
  by (simp_all add: no_more_faults_def)

lemma undo_effect_calm:
  assumes "no_more_faults h (fx_calls s)"
  shows "case undone u (fx_tree s) of
      Some t \<Rightarrow> \<exists>n. undo_effect h u s = (Ok (), s\<lparr>fx_calls := n, fx_tree := t\<rparr>)
    | None \<Rightarrow> \<exists>e n. undo_effect h u s = (Err e, s\<lparr>fx_calls := n\<rparr>)"
proof -
  note calm = no_more_faults_at [OF assms]
  have same: "\<exists>n. s = s\<lparr>fx_calls := n\<rparr>" by (rule exI [of _ "fx_calls s"]) simp
  show ?thesis
  proof (cases u)
    case (UndoWrite p before after)
    then show ?thesis
      using calm same
      by (cases "fx_tree s p"; cases before)
        (auto simp: unless_changed_def fx_bind_def fx_tree_of_def fx_return_def fs_fail_def path_exists_def os_read_def
          os_write_def os_call_def Let_def split: option.splits fs_node.splits)
  next
    case (UndoMove src dst)
    then show ?thesis
      using calm same
      by (auto simp: fx_bind_def fx_tree_of_def fx_return_def fs_fail_def path_exists_def os_call_def Let_def
          split: option.splits)
  next
    case (UndoCopy dst after)
    then show ?thesis
      using calm same
      by (cases "fx_tree s dst")
        (auto simp: unless_changed_def fx_bind_def fx_tree_of_def fx_return_def fs_fail_def path_exists_def os_read_def
          os_call_def Let_def split: option.splits fs_node.splits)
  next
    case (UndoQuarantine original quarantined)
    then show ?thesis
      using calm same
      by (auto simp: fx_bind_def fx_tree_of_def fx_return_def fs_fail_def path_exists_def os_call_def Let_def
          split: option.splits)
  qed
qed

section \<open>Effects and their records\<close>

lemma checked_path_Ok:
  assumes "checked_path h rel t = Ok p"
  shows "p = path_components rel" "p \<noteq> []"
  using assms by (auto simp: checked_path_def fs_fail_def split: if_splits)

text \<open>A successful effect: its record is stored under its token and undoes it.\<close>

definition undoable :: "fs_host \<Rightarrow> fixture \<Rightarrow> tool_execution \<Rightarrow> fixture \<Rightarrow> fs_tree \<Rightarrow> bool" where
  "undoable h s ex s1 back \<longleftrightarrow> (\<exists>u. ex_output ex = Some (undo_token h (fx_ids s)) \<and> ex_compensable ex \<and>
     fx_undo s1 = bm_insert (undo_token h (fx_ids s)) u (fx_undo s) \<and> fx_ids s1 = Suc (fx_ids s) \<and>
     undone u (fx_tree s1) = Some back)"

lemma write_undoable:
  assumes "execute_write h input s = (Ok ex, s1)"
  shows "undoable h s ex s1 (fx_tree s)"
proof -
  from assms obtain p before content s2 s3 where rd: "read_if_exists h p s = (Ok before, s2)"
    and wr: "os_write h p (as_bytes content) s2 = (Ok (), s3)"
    and s1: "fx_tree s1 = fx_tree s3" "fx_ids s1 = Suc (fx_ids s3)" "ex_output ex = Some (undo_token h (fx_ids s3))"
      "ex_compensable ex" "fx_undo s1 = bm_insert (undo_token h (fx_ids s3)) (UndoWrite p before (as_bytes content)) (fx_undo s3)"
    by (auto simp: execute_write_def fx_bind_Ok fx_require_Ok fx_tree_of_Ok fx_return_Ok take_token_Ok remember_Ok)
  from rd have s2: "fx_tree s2 = fx_tree s" "fx_ids s2 = fx_ids s" "fx_undo s2 = fx_undo s"
    and old: "fx_tree s p = map_option FsFile before"
    by (auto simp: read_if_exists_Ok split: option.splits)
  from wr s2 have w: "write_file p (as_bytes content) (fx_tree s) = Some (fx_tree s3)"
    and s3: "fx_ids s3 = fx_ids s" "fx_undo s3 = fx_undo s" by (auto simp: os_write_Ok)
  have "undone (UndoWrite p before (as_bytes content)) (fx_tree s3) = Some (fx_tree s)"
    using old write_back [OF w] by (cases before) auto
  with s1 s3 show ?thesis by (auto simp: undoable_def simp del: undone.simps)
qed

lemma move_undoable:
  assumes "execute_move h input s = (Ok ex, s1)" and ok: "tree_ok (fx_tree s)"
  shows "undoable h s ex s1 (fx_tree s)"
proof -
  from assms(1) obtain src dst t where ren: "rename_path src dst (fx_tree s) = Some t"
    and s1: "fx_tree s1 = t" "fx_undo s1 = bm_insert (undo_token h (fx_ids s)) (UndoMove src dst) (fx_undo s)"
      "fx_ids s1 = Suc (fx_ids s)" "ex_output ex = Some (undo_token h (fx_ids s))" "ex_compensable ex"
    by (auto simp: execute_move_def fx_Ok)
  from rename_back [OF ok ren] have "rename_path dst src t = Some (fx_tree s)" .
  moreover from this have "t dst \<noteq> None" "t src = None" by (auto simp: rename_path_def split: if_splits)
  ultimately show ?thesis using s1 by (auto simp: undoable_def)
qed

lemma copy_undoable:
  assumes "execute_copy h input s = (Ok ex, s1)"
  shows "undoable h s ex s1 (fx_tree s)"
proof -
  from assms obtain src dst after s2 s3 where free: "\<not> path_exists (fx_tree s) dst"
    and cp: "copy_file h src dst s = (Ok (), s2)" and rd: "os_read h dst s2 = (Ok after, s3)"
    and s1: "fx_tree s1 = fx_tree s3" "fx_ids s1 = Suc (fx_ids s3)" "ex_output ex = Some (undo_token h (fx_ids s3))"
      "ex_compensable ex" "fx_undo s1 = bm_insert (undo_token h (fx_ids s3)) (UndoCopy dst after) (fx_undo s3)"
    by (auto simp: execute_copy_def fx_bind_Ok fx_require_Ok fx_tree_of_Ok fx_return_Ok take_token_Ok remember_Ok)
  from cp obtain bs where wr: "write_file dst bs (fx_tree s) = Some (fx_tree s2)"
    and s2: "fx_ids s2 = fx_ids s" "fx_undo s2 = fx_undo s"
    by (auto simp: copy_file_def fx_Ok split: option.splits fs_node.splits)
  have s3: "fx_tree s3 = fx_tree s2" "fx_ids s3 = fx_ids s2" "fx_undo s3 = fx_undo s2" "fx_tree s2 dst = Some (FsFile after)"
    using rd by (auto simp: os_read_Ok)
  have "undone (UndoCopy dst after) (fx_tree s2) = Some (fx_tree s)"
    using write_back(3) [OF wr] free s3(4) by (auto simp: path_exists_def)
  with s1 s2 s3 show ?thesis by (auto simp: undoable_def simp del: undone.simps)
qed

lemma quarantine_components: "path_components ''.orynth-quarantine'' = quarantine_root"
  by (simp add: path_components_def quarantine_root_def)

lemma ensure_quarantine_Ok:
  assumes "ensure_quarantine_root h s = (Ok p, s1)"
  shows "p = quarantine_root \<and> fx_undo s1 = fx_undo s \<and> fx_ids s1 = fx_ids s \<and>
    fx_tree s1 = (if fx_tree s quarantine_root = None then (fx_tree s)(quarantine_root \<mapsto> FsDir) else fx_tree s)"
  using assms
  by (auto simp: ensure_quarantine_root_def fx_Ok path_exists_def make_dir_def quarantine_components
      dest!: checked_path_Ok(1) split: if_splits)

lemma tree_ok_make_dir:
  assumes "tree_ok t" and "t [n] = None"
  shows "tree_ok (t([n] \<mapsto> FsDir))"
  using assms by (auto simp: tree_ok_def)

lemma remove_undoable:
  assumes "execute_remove h input s = (Ok ex, s1)" and ok: "tree_ok (fx_tree s)"
  shows "undoable h s ex s1 (if fx_tree s quarantine_root = None then (fx_tree s)(quarantine_root \<mapsto> FsDir) else fx_tree s)"
proof -
  let ?t = "if fx_tree s quarantine_root = None then (fx_tree s)(quarantine_root \<mapsto> FsDir) else fx_tree s"
  let ?token = "undo_token h (fx_ids s)"
  from assms(1) obtain original q s2 t1 t2 where outside: "\<not> internal_path original"
    and q: "ensure_quarantine_root h s = (Ok q, s2)"
    and link: "link_file original (q @ [undo_token h (fx_ids s2) @ ''-'' @ last original]) (fx_tree s2) = Some t1"
    and remove: "remove_file original t1 = Some t2"
    and s1: "fx_tree s1 = t2" "fx_ids s1 = Suc (fx_ids s2)" "ex_output ex = Some (undo_token h (fx_ids s2))" "ex_compensable ex"
      "fx_undo s1 = bm_insert (undo_token h (fx_ids s2))
        (UndoQuarantine original (q @ [undo_token h (fx_ids s2) @ ''-'' @ last original])) (fx_undo s2)"
    by (auto simp: execute_remove_def fx_Ok Let_def)
  note q' = ensure_quarantine_Ok [OF q]
  have "tree_ok ?t" using ok tree_ok_make_dir by (simp add: quarantine_root_def)
  moreover have "\<not> in_dir (butlast (q @ [?token @ ''-'' @ last original])) original"
    using outside q' by (simp add: internal_path_def)
  ultimately have "t2 original = None \<and> t2 (q @ [?token @ ''-'' @ last original]) \<noteq> None \<and>
      rename_path (q @ [?token @ ''-'' @ last original]) original t2 = Some ?t"
    using quarantine_back [OF _ _ remove] link q' by simp
  with s1 q' show ?thesis by (auto simp: undoable_def)
qed

section \<open>Search\<close>

definition name_matches :: "string \<Rightarrow> fs_path \<Rightarrow> bool" where
  "name_matches pattern p \<longleftrightarrow> pattern_matches (str_chars pattern) (str_chars (relative p)) \<or>
     pattern_matches (str_chars pattern) (str_chars (last p))"

text \<open>A file the search may list, found below a directory.\<close>

definition searched :: "string \<Rightarrow> fs_tree \<Rightarrow> fs_path \<Rightarrow> fs_path \<Rightarrow> bool" where
  "searched pattern t d p \<longleftrightarrow> in_dir d p \<and> p \<noteq> d \<and> \<not> internal_path p \<and> is_file_node (t p) \<and> name_matches pattern p"

text \<open>What a walk adds: only files it may list, within the limit.\<close>

definition walk_grows :: "string \<Rightarrow> usize \<Rightarrow> fs_tree \<Rightarrow> fs_path \<Rightarrow> walker \<Rightarrow> walker \<Rightarrow> bool" where
  "walk_grows pattern m t d w w' \<longleftrightarrow> (\<exists>ps. wk_matches w' = wk_matches w @ map relative ps \<and> (\<forall>p \<in> set ps. searched pattern t d p)) \<and>
     (wk_visited w \<le> 2 ^ 64 - 1 \<longrightarrow> wk_visited w \<le> wk_visited w' \<and> wk_visited w' \<le> 2 ^ 64 - 1) \<and>
     (length (wk_matches w) \<le> m \<longrightarrow> length (wk_matches w') \<le> m)"

lemma walk_grows_refl [simp]: "walk_grows pattern m t d w w"
  by (auto simp: walk_grows_def intro: exI [of _ "[]"])

lemma walk_grows_trans:
  assumes "walk_grows pattern m t d u v" and "walk_grows pattern m t d v w"
  shows "walk_grows pattern m t d u w"
proof -
  from assms(1) obtain ps where ps: "wk_matches v = wk_matches u @ map relative ps" "\<forall>p \<in> set ps. searched pattern t d p"
    unfolding walk_grows_def by blast
  from assms(2) obtain qs where qs: "wk_matches w = wk_matches v @ map relative qs" "\<forall>p \<in> set qs. searched pattern t d p"
    unfolding walk_grows_def by blast
  from ps qs have "wk_matches w = wk_matches u @ map relative (ps @ qs)" "\<forall>p \<in> set (ps @ qs). searched pattern t d p" by auto
  with assms show ?thesis unfolding walk_grows_def by (meson order_trans)
qed

lemma walk_grows_up:
  assumes "walk_grows pattern m t (d @ [e]) v w"
  shows "walk_grows pattern m t d v w"
proof -
  have "searched pattern t d p" if "searched pattern t (d @ [e]) p" for p
    using that by (auto simp: searched_def in_dir_iff)
  with assms show ?thesis unfolding walk_grows_def by blast
qed

lemma walk_call_Ok: "walk_call h w = Ok w' \<longleftrightarrow> fsh_fault h (wk_calls w) = None \<and> w' = w\<lparr>wk_calls := Suc (wk_calls w)\<rparr>"
  by (auto simp: walk_call_def split: option.splits)

lemma match_file_grows:
  assumes "is_file_node (t (d @ [e]))" and "\<not> internal_path (d @ [e])" and "length (wk_matches w) < m"
  shows "walk_grows pattern m t d w (match_file pattern (d @ [e]) w)"
proof (cases "glob_matches pattern (relative (d @ [e])) \<or> glob_matches pattern (last (d @ [e]))")
  case True
  then have "searched pattern t d (d @ [e])"
    using assms(1,2) by (auto simp: searched_def name_matches_def simp flip: glob_matches_iff)
  with True assms(3) show ?thesis
    by (auto simp: match_file_def walk_grows_def intro!: exI [of _ "[d @ [e]]"])
next
  case False
  then show ?thesis by (simp add: match_file_def)
qed

lemma walk_enter_grows: "fsh_fault h (wk_calls w) = None \<Longrightarrow> walk_call h w = Ok w1 \<Longrightarrow> walk_grows pattern m t d w (walk_enter w1)"
  by (auto simp: walk_call_Ok walk_enter_def walk_grows_def intro: exI [of _ "[]"])

lemma walk_node_grows:
  assumes "\<And>v v'. visitf (d @ [e]) v = Ok v' \<Longrightarrow> walk_grows pattern m t (d @ [e]) v v'"
    and "walk_node visitf pattern t (d @ [e]) w = Ok w'" and "length (wk_matches w) < m"
  shows "walk_grows pattern m t d w w'"
  using assms(2) assms(1) [THEN walk_grows_up] match_file_grows [OF _ _ assms(3), of t d e pattern]
  by (auto simp: walk_node_def split: if_splits option.splits fs_node.splits)

lemma walk_entries_Cons:
  assumes "walk_entries visitf h pattern m t d (e # es) w = Ok w'" and "\<not> walk_full m w"
  obtains w1 w2 where "walk_call h w = Ok w1" and "fsh_fault h (wk_calls w) = None"
    and "walk_node visitf pattern t (d @ [e]) (walk_enter w1) = Ok w2"
    and "walk_entries visitf h pattern m t d es w2 = Ok w'" and "length (wk_matches (walk_enter w1)) < m"
  using assms that by (auto simp: walk_call_Ok walk_full_def walk_enter_def)

lemma walk_entries_grows:
  assumes "\<And>e v v'. visitf (d @ [e]) v = Ok v' \<Longrightarrow> walk_grows pattern m t (d @ [e]) v v'"
    and "walk_entries visitf h pattern m t d es w = Ok w'"
  shows "walk_grows pattern m t d w w'"
  using assms(2)
proof (induction es arbitrary: w)
  case (Cons e es)
  show ?case
  proof (cases "walk_full m w")
    case True
    with Cons.prems show ?thesis by simp
  next
    case False
    with Cons.prems obtain w1 w2 where call: "walk_call h w = Ok w1" "fsh_fault h (wk_calls w) = None"
      and node: "walk_node visitf pattern t (d @ [e]) (walk_enter w1) = Ok w2"
      and rest: "walk_entries visitf h pattern m t d es w2 = Ok w'" and room: "length (wk_matches (walk_enter w1)) < m"
      by (rule walk_entries_Cons)
    from walk_grows_trans [OF walk_enter_grows [OF call(2,1)]
        walk_grows_trans [OF walk_node_grows [OF assms(1) node room] Cons.IH [OF rest]]] show ?thesis .
  qed
qed simp

lemma visit_grows: "visit n h pattern m t d w = Ok w' \<Longrightarrow> walk_grows pattern m t d w w'"
proof (induction n arbitrary: d w w')
  case (Suc n)
  show ?case
  proof (cases "walk_full m w")
    case True
    with Suc.prems show ?thesis by simp
  next
    case False
    with Suc.prems obtain w1 where w1: "w1 = w\<lparr>wk_calls := Suc (wk_calls w)\<rparr>"
      and es: "walk_entries (visit n h pattern m t) h pattern m t d (fsh_read_dir h t d) w1 = Ok w'"
      by (auto simp: walk_call_Ok)
    have "walk_grows pattern m t d w w1" by (auto simp: w1 walk_grows_def intro: exI [of _ "[]"])
    from walk_grows_trans [OF this walk_entries_grows [OF Suc.IH es]] show ?thesis .
  qed
qed simp

text \<open>A walk that has not hit a limit has listed every file in the levels it may visit.\<close>

definition listing :: "fs_host \<Rightarrow> fs_tree \<Rightarrow> bool" where
  "listing h t \<longleftrightarrow> (\<forall>d n. n \<in> set (fsh_read_dir h t d) \<longleftrightarrow> t (d @ [n]) \<noteq> None)"

lemma not_full_before:
  assumes "walk_grows pattern m t d w w'" and "\<not> walk_full m w'" and "wk_visited w \<le> 2 ^ 64 - 1"
  shows "\<not> walk_full m w"
  using assms by (auto simp: walk_grows_def walk_full_def)

lemma matches_kept: "walk_grows pattern m t d w w' \<Longrightarrow> set (wk_matches w) \<subseteq> set (wk_matches w')"
  by (auto simp: walk_grows_def)

lemma in_dir_further: "in_dir a b \<Longrightarrow> in_dir a (b @ c)"
  by (auto simp: in_dir_iff)

lemma internal_below: "internal_path (d @ [e]) \<Longrightarrow> internal_path (d @ e # r)"
  using in_dir_further [of _ "d @ [e]" r] by (auto simp: internal_path_def)

lemma is_file_nodeE: "is_file_node x \<Longrightarrow> (\<And>bs. x = Some (FsFile bs) \<Longrightarrow> P) \<Longrightarrow> P"
  by (auto elim: is_file_node.elims)

text \<open>The files a directory still needs to list when it is visited with some levels left.\<close>

definition all_listed :: "string \<Rightarrow> fs_tree \<Rightarrow> nat \<Rightarrow> fs_path \<Rightarrow> walker \<Rightarrow> bool" where
  "all_listed pattern t n d w \<longleftrightarrow> (\<forall>p. searched pattern t d p \<and> length p \<le> length d + n \<longrightarrow> relative p \<in> set (wk_matches w))"

definition within :: "walker \<Rightarrow> bool" where
  "within w \<longleftrightarrow> wk_visited w \<le> 2 ^ 64 - 1"

lemma within_grows: "walk_grows pattern m t d w w' \<Longrightarrow> within w \<Longrightarrow> within w'"
  by (simp add: walk_grows_def within_def)

lemma walk_entries_lists:
  assumes ok: "tree_ok t"
    and grow: "\<And>e v v'. visitf (d @ [e]) v = Ok v' \<Longrightarrow> walk_grows pattern m t (d @ [e]) v v'"
    and deep: "\<And>e v v'. visitf (d @ [e]) v = Ok v' \<Longrightarrow> within v \<Longrightarrow> \<not> walk_full m v' \<Longrightarrow> all_listed pattern t n (d @ [e]) v'"
    and "walk_entries visitf h pattern m t d es w = Ok w'" and "within w" and "\<not> walk_full m w'"
    and "searched pattern t d (d @ e # r)" and "length r \<le> n" and "e \<in> set es"
  shows "relative (d @ e # r) \<in> set (wk_matches w')"
  using assms(4-)
proof (induction es arbitrary: w)
  case (Cons x es)
  have grown: "walk_grows pattern m t d w w'" by (rule walk_entries_grows [OF grow Cons.prems(1)])
  have room: "\<not> walk_full m w" using not_full_before [OF grown] Cons.prems(2,3) by (simp add: within_def)
  with Cons.prems(1) obtain w1 w2 where call: "walk_call h w = Ok w1" "fsh_fault h (wk_calls w) = None"
    and node: "walk_node visitf pattern t (d @ [x]) (walk_enter w1) = Ok w2"
    and rest: "walk_entries visitf h pattern m t d es w2 = Ok w'" and less: "length (wk_matches (walk_enter w1)) < m"
    by (rule walk_entries_Cons)
  have in1: "within (walk_enter w1)" using walk_enter_grows [OF call(2,1)] Cons.prems(2) by (rule within_grows)
  have in2: "within w2" using walk_node_grows [OF grow node less] in1 by (rule within_grows)
  have later: "walk_grows pattern m t d w2 w'" by (rule walk_entries_grows [OF grow rest])
  then have room2: "\<not> walk_full m w2" using not_full_before Cons.prems(3) in2 by (auto simp: within_def)
  show ?case
  proof (cases "e \<in> set es")
    case True
    show ?thesis by (rule Cons.IH [OF rest in2 Cons.prems(3-5) True])
  next
    case False
    with Cons.prems(6) have x: "x = e" by simp
    have not_internal: "\<not> internal_path (d @ [e])" using Cons.prems(4) internal_below by (auto simp: searched_def)
    have "relative (d @ e # r) \<in> set (wk_matches w2)"
    proof (cases "r = []")
      case True
      with Cons.prems(4) obtain bs where "t (d @ [e]) = Some (FsFile bs)" and "name_matches pattern (d @ [e])"
        by (auto simp: searched_def elim: is_file_nodeE)
      with node not_internal x True show ?thesis
        by (auto simp: walk_node_def match_file_def name_matches_def simp flip: glob_matches_iff)
    next
      case False
      from Cons.prems(4) have "t ((d @ [e]) @ r) \<noteq> None" by (auto simp: searched_def elim: is_file_nodeE)
      then have "t (d @ [e]) = Some FsDir" using below_dir [OF ok _ False] by blast
      with node not_internal x have v: "visitf (d @ [e]) (walk_enter w1) = Ok w2" by (simp add: walk_node_def)
      have "searched pattern t (d @ [e]) (d @ e # r)"
        using Cons.prems(4) False by (auto simp: searched_def in_dir_iff)
      with deep [OF v in1 room2] Cons.prems(5) show ?thesis by (simp add: all_listed_def)
    qed
    with matches_kept [OF later] show ?thesis by blast
  qed
qed simp

lemma visit_lists:
  assumes "tree_ok t" and "listing h t"
  shows "visit n h pattern m t d w = Ok w' \<Longrightarrow> within w \<Longrightarrow> \<not> walk_full m w' \<Longrightarrow> all_listed pattern t n d w'"
proof (induction n arbitrary: d w w')
  case 0
  then show ?case by (auto simp: all_listed_def searched_def in_dir_iff)
next
  case (Suc n)
  have "walk_grows pattern m t d w w'" by (rule visit_grows [OF Suc.prems(1)])
  then have "\<not> walk_full m w" using not_full_before Suc.prems(2,3) by (auto simp: within_def)
  with Suc.prems(1) obtain w1 where w1: "w1 = w\<lparr>wk_calls := Suc (wk_calls w)\<rparr>"
    and es: "walk_entries (visit n h pattern m t) h pattern m t d (fsh_read_dir h t d) w1 = Ok w'"
    by (auto simp: walk_call_Ok)
  have in1: "within w1" using Suc.prems(2) by (simp add: w1 within_def)
  show ?case
    unfolding all_listed_def
  proof (intro allI impI)
    fix p
    assume p: "searched pattern t d p \<and> length p \<le> length d + Suc n"
    then obtain q where "p = d @ q" "q \<noteq> []" by (auto simp: searched_def in_dir_iff)
    then obtain e r where er: "p = d @ e # r" by (cases q) auto
    have "t ((d @ [e]) @ r) \<noteq> None" using p er by (auto simp: searched_def elim: is_file_nodeE)
    then have "t (d @ [e]) \<noteq> None" using below_dir [OF assms(1), of "d @ [e]" r] by (cases "r = []") auto
    then have "e \<in> set (fsh_read_dir h t d)" using assms(2) by (simp add: listing_def)
    with walk_entries_lists [OF assms(1) visit_grows Suc.IH es in1 Suc.prems(3), where e = e and r = r] p er
    show "relative p \<in> set (wk_matches w')" by simp
  qed
qed

section \<open>Properties\<close>

definition quarantine_kept :: "tool_definition \<Rightarrow> fs_tree \<Rightarrow> fs_tree" where
  "quarantine_kept d t =
     (if td_name d = FILESYSTEM_REMOVE_TOOL \<and> t quarantine_root = None then t(quarantine_root \<mapsto> FsDir) else t)"

lemma fixture_undoable:
  assumes "fixture_execute h d input s = (Ok ex, s1)" and "tree_ok (fx_tree s)" and "td_name d \<noteq> FILESYSTEM_FIND_TOOL"
  shows "undoable h s ex s1 (quarantine_kept d (fx_tree s))"
proof -
  have names: "FILESYSTEM_WRITE_TOOL \<noteq> FILESYSTEM_REMOVE_TOOL" "FILESYSTEM_MOVE_TOOL \<noteq> FILESYSTEM_REMOVE_TOOL"
    "FILESYSTEM_COPY_TOOL \<noteq> FILESYSTEM_REMOVE_TOOL"
    by (simp_all add: FILESYSTEM_WRITE_TOOL_def FILESYSTEM_REMOVE_TOOL_def FILESYSTEM_MOVE_TOOL_def FILESYSTEM_COPY_TOOL_def)
  show ?thesis
  proof (cases "td_name d = FILESYSTEM_REMOVE_TOOL")
    case True
    with assms names have "execute_remove h input s = (Ok ex, s1)"
      by (simp add: fixture_execute_def split: if_splits)
    from remove_undoable [OF this assms(2)] True show ?thesis by (simp add: quarantine_kept_def)
  next
    case False
    with assms have "execute_write h input s = (Ok ex, s1) \<or> execute_move h input s = (Ok ex, s1) \<or>
        execute_copy h input s = (Ok ex, s1)"
      by (auto simp: fixture_execute_def fx_return_def fs_fail_def split: if_splits)
    with assms(2) False write_undoable move_undoable copy_undoable show ?thesis
      by (auto simp: quarantine_kept_def)
  qed
qed

lemma compensate_undone:
  assumes "bm_get (fx_undo s) token = Some u" and "undone u (fx_tree s) = Some t" and "no_more_faults h (fx_calls s)"
  shows "\<exists>n. fixture_compensate h token s =
    (Ok (), s\<lparr>fx_calls := n, fx_tree := t, fx_undo := bm_remove token (fx_undo s)\<rparr>)"
  using undo_effect_calm [OF assms(3), of u] assms(1,2)
  by (auto simp: fixture_compensate_def fx_bind_def forget_def)



text \<open>
  C18: the search is exact within its limits. Its result is sorted, has at most the requested number of
  names, and every name belongs to a file below the root of the search, outside the internal
  directories, whose path or name matches the pattern. When the walk ends before one of its limits,
  every such file in the 33 levels below the root is in the result.
\<close>

theorem workspace_search_exact:
  assumes "tree_ok t" and "listing h t" and "find_files h calls t root pattern m = Ok found"
  shows "sorted found \<and> length found \<le> m \<and> (\<forall>r \<in> set found. \<exists>p. r = relative p \<and> searched pattern t root p) \<and>
    (\<exists>w. visit 33 h pattern m t root \<lparr>wk_visited = 0, wk_matches = [], wk_calls = calls\<rparr> = Ok w \<and>
      found = sort (wk_matches w) \<and>
      (\<not> walk_full m w \<longrightarrow> (\<forall>p. searched pattern t root p \<and> length p \<le> length root + 33 \<longrightarrow> relative p \<in> set found)))"
proof -
  let ?w = "\<lparr>wk_visited = 0, wk_matches = [], wk_calls = calls\<rparr>"
  from assms(3) obtain w where w: "visit 33 h pattern m t root ?w = Ok w" and found: "found = sort (wk_matches w)"
    by (auto simp: find_files_def MAX_FIND_DEPTH_def fs_fail_def split: if_splits)
  note grown = visit_grows [OF w]
  have "\<forall>r \<in> set found. \<exists>p. r = relative p \<and> searched pattern t root p" "length found \<le> m"
    using grown by (fastforce simp: walk_grows_def found)+
  moreover have "\<not> walk_full m w \<Longrightarrow> all_listed pattern t 33 root w"
    by (rule visit_lists [OF assms(1,2) w]) (simp_all add: within_def)
  ultimately show ?thesis using w found by (auto simp: all_listed_def)
qed

text \<open>
  The tools protect their own files only from removal. With a file of the directory in which the
  program keeps its database and logs as the path, the write tool succeeds, whatever was in the file, while
  the remove tool refuses the same path and changes nothing.
\<close>

theorem write_reaches_internal_files:
  assumes "fx_tree s [''.orynth''] = Some FsDir" and "fx_tree s [''.orynth'', name] = Some (FsFile old)"
    and "name \<notin> {[], ''.'', ''..''}" and "CHR ''/'' \<notin> set name" and "char_of (0 :: nat) \<notin> set name"
    and "bm_get input ''path'' = Some (''.orynth/'' @ name)" and "bm_get input ''content'' = Some content" and "content \<noteq> []"
    and "no_more_faults h (fx_calls s)"
  shows "(\<exists>ex s1. fixture_execute h write_text_definition input s = (Ok ex, s1) \<and>
      fx_tree s1 = (fx_tree s)([''.orynth'', name] \<mapsto> FsFile (as_bytes content))) \<and>
    (\<exists>e. fixture_execute h remove_definition input s = (Err e, s))"
proof -
  let ?rel = "''.orynth/'' @ name" and ?p = "[''.orynth'', name]"
  have pieces: "split_on {CHR ''/''} ?rel = [''.orynth'', name]"
    using split_on_append_sep [of "''.orynth''" "{CHR ''/''}" "CHR ''/''" name] assms(4) by (simp add: split_on_clean)
  have comps: "path_components ?rel = ?p" using assms(3) pieces by (simp add: path_components_def)
  have "\<not> trim_is_empty ?rel" by (simp add: not_blank_ascii)
  moreover have "\<not> has_parent_dir ?rel" using pieces assms(3) by (auto simp: has_parent_dir_def)
  moreover have "reject_components h ?rel (fx_tree s) [] ?p = Ok ()"
    using assms(1,2,5) by (simp add: char_of_def)
  ultimately have path: "input_path h input ''path'' (fx_tree s) = Ok ?p"
    using comps assms(6) by (simp add: input_path_def fs_input_def checked_path_def path_is_absolute_def)
  note calm = no_more_faults_at [OF assms(9)]
  have "\<exists>ex s1. execute_write h input s = (Ok ex, s1) \<and> fx_tree s1 = (fx_tree s)(?p \<mapsto> FsFile (as_bytes content))"
    using path calm assms(1,2,7,8)
    by (simp add: execute_write_def fx_bind_def fx_tree_of_def fx_return_def fs_input_def fx_require_def is_dir_def
        read_if_exists_def path_exists_def os_read_def os_write_def write_file_def take_token_def remember_def Let_def)
  moreover have "internal_path ?p" by (simp add: internal_path_def internal_root_def in_dir_def)
  then have "\<exists>e. execute_remove h input s = (Err e, s)"
    using path assms(2)
    by (simp add: execute_remove_def fx_bind_def fx_tree_of_def fx_return_def fx_require_def is_dir_def path_exists_def fs_fail_def)
  ultimately show ?thesis
    by (simp add: fixture_execute_def write_text_definition_def remove_definition_def path_tool_def FILESYSTEM_WRITE_TOOL_def
        FILESYSTEM_REMOVE_TOOL_def FILESYSTEM_MOVE_TOOL_def FILESYSTEM_COPY_TOOL_def)
qed

text \<open>
  A write that fails on the way keeps no record: what is left of the file stays, and its old content is
  lost, since the record is only made after the write.
\<close>

lemma failed_write_unrecorded:
  assumes "input_path h input ''path'' (fx_tree s) = Ok p" and "fs_input h input ''content'' = Ok content"
    and "fx_tree s p = Some (FsFile old)" and "p \<noteq> []" and "is_dir (fx_tree s) (butlast p)"
    and "fsh_fault h (fx_calls s) = None" and "fsh_fault h (Suc (fx_calls s)) = Some m"
    and "fsh_partial h (Suc (fx_calls s)) = Some left"
  shows "\<exists>s1. execute_write h input s = (Err m, s1) \<and> fx_tree s1 p = Some (FsFile left) \<and> fx_undo s1 = fx_undo s"
  using assms
  by (simp add: execute_write_def fx_bind_def fx_tree_of_def fx_return_def fx_require_def is_dir_def read_if_exists_def
      path_exists_def os_read_def os_write_def write_file_def Let_def)

section \<open>Examples\<close>

definition demo_tree :: fs_tree where
  "demo_tree p = (if p \<in> {[], [''src''], [''.orynth'']} then Some FsDir
     else if p \<in> {[''src'', ''a''], [''.orynth'', ''runtime.db'']} then Some (FsFile [1]) else None)"

definition demo_fs :: fs_host where
  "demo_fs = \<lparr>fsh_fault = (\<lambda>_. None), fsh_partial = (\<lambda>_. None), fsh_refused = (\<lambda>_. ''refused''),
     fsh_read_dir = (\<lambda>t d. if d = [] then [''src'', ''.orynth''] else if d = [''src''] then [''a'']
       else if d = [''.orynth''] then [''runtime.db''] else []),
     fsh_id = of_nat, fsh_debug = id\<rparr>"

definition demo_fixture :: fixture where
  "demo_fixture = \<lparr>fx_tree = demo_tree, fx_undo = bm_insert ''old'' (UndoMove [''src''] [''src'', ''a'']) bm_empty,
     fx_calls = 0, fx_ids = 0\<rparr>"

definition demo_write_input :: tool_input where
  "demo_write_input = bm_insert ''content'' ''new'' (bm_insert ''path'' ''src/a'' bm_empty)"

definition demo_write :: tool_transaction where
  "demo_write = (let q = \<lparr>pp_run = 1, pp_task = None, pp_agent = 2, pp_tool = FILESYSTEM_WRITE_TOOL,
       pp_input = demo_write_input, pp_provenance = PvAgent, pp_origins = []\<rparr> in
     \<lparr>tx_id = 9, tx_proposal = q, tx_repair = \<lparr>rr_proposal = q, rr_tier = SyntaxSafe, rr_changes = []\<rparr>,
      tx_definition = write_text_definition\<lparr>td_capability := None\<rparr>, tx_state = ToolApproved, tx_output = None,
      tx_failure = None, tx_compensable = False, tx_effect = NotAttempted\<rparr>)"

lemma demo_tree_ok: "tree_ok demo_tree"
  by (auto simp: tree_ok_def demo_tree_def split: if_splits)

lemma demo_calm: "no_more_faults demo_fs n"
  by (simp add: no_more_faults_def demo_fs_def)

lemma demo_path: "input_path demo_fs demo_write_input ''path'' demo_tree = Ok [''src'', ''a'']"
  by (simp add: input_path_def fs_input_def demo_write_input_def bm_get_insert checked_path_def path_is_absolute_def
      has_parent_dir_def path_components_def not_blank_ascii demo_tree_def char_of_def)

lemma hex_digit_visible:
  assumes "n < 16"
  shows "hex_digit n \<noteq> CHR 0x00"
proof
  assume "hex_digit n = CHR 0x00"
  then have "of_char (hex_digit n) = (0 :: nat)" by simp
  with assms show False by (auto simp: hex_digit_def split: if_splits)
qed

lemma hex_digits_text: "length (hex_digits k n) = k \<and> CHR 0x00 \<notin> set (hex_digits k n)"
  by (induction k n rule: hex_digits.induct) (auto simp: hex_digit_visible [symmetric])

lemma undo_token_opaque: "validate_opaque_text field (undo_token h n) = Ok ()"
  using hex_digits_text [of 16] by (simp add: validate_opaque_text_def undo_token_def TOOL_MAX_TEXT_BYTES_def)

lemma demo_executes:
  "\<exists>t1 s1. execute_with_ownership False tool_runtime_new (\<lambda>_ _ _. Ok ()) 7 (fixture_executor demo_fs) demo_write demo_fixture =
    (Ok (), t1, s1) \<and> fx_tree s1 [''src'', ''a''] = Some (FsFile (as_bytes ''new''))"
proof -
  have "\<exists>s1. execute_write demo_fs demo_write_input demo_fixture =
      (Ok \<lparr>ex_output = Some (undo_token demo_fs 0), ex_compensable = True, ex_effect = EffectConfirmed\<rparr>, s1) \<and>
      fx_tree s1 [''src'', ''a''] = Some (FsFile (as_bytes ''new''))"
    using demo_path
    by (simp add: execute_write_def fx_bind_def fx_tree_of_def fx_return_def fx_require_def is_dir_def fs_input_def
        read_if_exists_def path_exists_def os_read_def os_write_def write_file_def take_token_def remember_def Let_def
        demo_fixture_def demo_tree_def [of "[''src'', ''a'']"] demo_tree_def [of "[''src'']"] demo_write_input_def bm_get_insert demo_fs_def)
  moreover have "validate_opaque_text ''tool output'' (undo_token demo_fs 0) = Ok ()"
    by (rule undo_token_opaque)
  ultimately show ?thesis
    by (auto simp: execute_with_ownership_def execute_checks_def transaction_authorized_def authorize_requirements_def
        tool_requirements_def tool_runtime_new_def demo_write_def write_text_definition_def path_tool_def fixture_executor_def
        fixture_execute_def record_execution_def Let_def required_resources_def)
qed



lemma demo_listing: "listing demo_fs demo_tree"
  by (auto simp: listing_def demo_fs_def demo_tree_def append_eq_Cons_conv split: if_splits)

lemma demo_found: "\<exists>found. find_files demo_fs 0 demo_tree [''src''] ''*'' 5 = Ok found \<and> ''src/a'' \<in> set found"
proof -
  have "glob_matches ''*'' ''src/a''"
    unfolding glob_matches_iff pattern_matches_def
    by (rule exI [of _ "[str_chars ''src/a'']"]) (simp add: piece_def len_utf8_def)
  then show ?thesis
    by (simp add: find_files_def internal_path_def in_dir_def quarantine_root_def internal_root_def
        walk_full_def MAX_FIND_ENTRIES_def walk_call_def demo_fs_def walk_enter_def walk_node_def demo_tree_def match_file_def
        relative_def char_of_def)
qed

theorem workspace_search_exact_witness:
  "\<exists>found. find_files demo_fs 0 demo_tree [''src''] ''*'' 5 = Ok found \<and> ''src/a'' \<in> set found \<and> length found \<le> 5"
proof -
  obtain found where found: "find_files demo_fs 0 demo_tree [''src''] ''*'' 5 = Ok found" "''src/a'' \<in> set found"
    using demo_found by blast
  from workspace_search_exact [OF demo_tree_ok demo_listing found(1)] found show ?thesis by blast
qed

theorem write_reaches_internal_files_witness:
  "\<exists>ex s1. fixture_execute demo_fs write_text_definition
      (bm_insert ''content'' ''x'' (bm_insert ''path'' ''.orynth/runtime.db'' bm_empty)) demo_fixture = (Ok ex, s1) \<and>
    fx_tree s1 [''.orynth'', ''runtime.db''] = Some (FsFile (as_bytes ''x''))"
  using write_reaches_internal_files [of demo_fixture "''runtime.db''" "[1]"
      "bm_insert ''content'' ''x'' (bm_insert ''path'' ''.orynth/runtime.db'' bm_empty)" "''x''" demo_fs]
    demo_calm [of 0]
  by (auto simp: demo_fixture_def demo_tree_def bm_get_insert char_of_def)

end
