(* ===== verification/Plugin_Contracts.thy ===== *)
theory Plugin_Contracts
  imports Security Run_State
begin

text \<open>
  The crate \<^verbatim>\<open>crates/plugin-api\<close>: manifests with their capabilities and limits, the registry,
  requests and responses, and the authorization of a manifest. A transport is behind the contract
  \<open>plugin_transport\<close> at the end, which every adapter of a plugin satisfies.
\<close>

section \<open>Manifests\<close>

definition PLUGIN_PROTOCOL_VERSION :: u16 where "PLUGIN_PROTOCOL_VERSION = 1"
definition MAX_NAME_BYTES :: nat where "MAX_NAME_BYTES = 256"
definition MAX_CAPABILITIES :: nat where "MAX_CAPABILITIES = 64"
definition MAX_PLUGINS :: nat where "MAX_PLUGINS = 256"
definition MAX_MESSAGE_BYTES :: nat where "MAX_MESSAGE_BYTES = 1024 * 1024"

datatype plugin_kind = KindBuiltin | KindNative | KindProcess | KindMcp | KindWasm

datatype plugin_error =
    PlugInvalid string
  | PlugUnsupportedVersion u16
  | PlugTooLarge usize
  | PlugMessageTooLarge usize
  | PlugProtocol string
  | PlugCrashed string
  | PlugTimedOut
  | PlugCapabilityDenied string
  | PlugResourceExhausted string
  | PlugDuplicate plugin_id

record plugin_capability =
  pc_domain :: capability_domain
  pc_resource :: string

record resource_limits =
  rl_message_bytes :: u32
  rl_memory_bytes :: u64
  rl_fuel :: u64
  rl_wall_time_ms :: u64

record plugin_manifest =
  pm_id :: plugin_id
  pm_protocol_version :: u16
  pm_name :: string
  pm_version :: string
  pm_kind :: plugin_kind
  pm_capabilities :: "plugin_capability list"
  pm_limits :: resource_limits

definition plugin_capability_validate :: "plugin_capability \<Rightarrow> (unit, plugin_error) result" where
  "plugin_capability_validate c =
     (if trim_is_empty (pc_resource c) then Err (PlugInvalid ''plugin capability resource is empty'')
      else if MAX_NAME_BYTES * 256 < length (pc_resource c) then Err (PlugTooLarge (length (pc_resource c)))
      else Ok ())"

definition default_limits :: resource_limits where
  "default_limits = \<lparr>rl_message_bytes = of_nat MAX_MESSAGE_BYTES, rl_memory_bytes = 64 * 1024 * 1024,
     rl_fuel = 1000000, rl_wall_time_ms = 30000\<rparr>"

definition limits_validate :: "resource_limits \<Rightarrow> (unit, plugin_error) result" where
  "limits_validate l =
     (if rl_message_bytes l = 0 \<or> MAX_MESSAGE_BYTES < unat (rl_message_bytes l) \<or> rl_memory_bytes l = 0
         \<or> rl_fuel l = 0 \<or> rl_wall_time_ms l = 0
      then Err (PlugInvalid ''plugin resource limits must be non-zero and bounded'') else Ok ())"

definition validate_name :: "string \<Rightarrow> string \<Rightarrow> (unit, plugin_error) result" where
  "validate_name field v =
     (if trim_is_empty v then Err (PlugInvalid field)
      else if MAX_NAME_BYTES < length v then Err (PlugTooLarge (length v)) else Ok ())"

definition manifest_validate :: "plugin_manifest \<Rightarrow> (unit, plugin_error) result" where
  "manifest_validate m =
     (if pm_id m = 0 then Err (PlugInvalid ''plugin ID must be non-zero'')
      else if pm_protocol_version m \<noteq> PLUGIN_PROTOCOL_VERSION
      then Err (PlugUnsupportedVersion (pm_protocol_version m))
      else and_then (validate_name ''plugin name'' (pm_name m)) (\<lambda>_.
        and_then (validate_name ''plugin version'' (pm_version m)) (\<lambda>_.
        if MAX_CAPABILITIES < length (pm_capabilities m)
        then Err (PlugTooLarge (length (pm_capabilities m)))
        else and_then (try_all plugin_capability_validate (pm_capabilities m)) (\<lambda>_.
          limits_validate (pm_limits m)))))"

section \<open>The registry\<close>

type_synonym plugin_registry = "(plugin_id, plugin_manifest) bmap"

definition registry_register :: "plugin_manifest \<Rightarrow> plugin_registry
    \<Rightarrow> (unit, plugin_error) result \<times> plugin_registry" where
  "registry_register m reg =
     (case manifest_validate m of
        Err e \<Rightarrow> (Err e, reg)
      | Ok _ \<Rightarrow>
          if bm_contains_key reg (pm_id m) then (Err (PlugDuplicate (pm_id m)), reg)
          else if MAX_PLUGINS \<le> bm_len reg then (Err (PlugTooLarge (bm_len reg + 1)), reg)
          else (Ok (), bm_insert (pm_id m) m reg))"

definition registry_discover :: "plugin_registry \<Rightarrow> plugin_kind option \<Rightarrow> string
    \<Rightarrow> (plugin_manifest list, plugin_error) result" where
  "registry_discover reg kind prefix =
     (if MAX_NAME_BYTES < length prefix then Err (PlugTooLarge (length prefix))
      else Ok (filter (\<lambda>m. (case kind of None \<Rightarrow> True | Some k \<Rightarrow> pm_kind m = k)
             \<and> starts_with (pm_name m) prefix) (bm_values reg)))"

section \<open>Requests and responses\<close>

record plugin_request =
  rq_id :: u64
  rq_method :: string
  rq_payload :: "u8 list"

record plugin_response =
  rs_id :: u64
  rs_payload :: "u8 list"
  rs_origin :: trust_origin

definition plugin_request_validate :: "resource_limits \<Rightarrow> plugin_request \<Rightarrow> (unit, plugin_error) result" where
  "plugin_request_validate l r =
     and_then (limits_validate l) (\<lambda>_.
     if rq_id r = 0 then Err (PlugInvalid ''plugin request ID must be non-zero'')
     else and_then (validate_name ''plugin method'' (rq_method r)) (\<lambda>_.
       if unat (rl_message_bytes l) < length (rq_payload r)
       then Err (PlugMessageTooLarge (length (rq_payload r))) else Ok ()))"

definition plugin_response_validate :: "resource_limits \<Rightarrow> plugin_response \<Rightarrow> (unit, plugin_error) result" where
  "plugin_response_validate l r =
     and_then (limits_validate l) (\<lambda>_.
     if rs_id r = 0 then Err (PlugInvalid ''plugin response ID must be non-zero'')
     else if unat (rl_message_bytes l) < length (rs_payload r)
     then Err (PlugMessageTooLarge (length (rs_payload r))) else Ok ())"

section \<open>Authorization\<close>

text \<open>\<open>Display\<close> of the two errors that end up in a denial; the \<open>Debug\<close> form of a string is an argument.\<close>

fun debug_domain :: "capability_domain \<Rightarrow> string" where
  "debug_domain Filesystem = ''Filesystem''"
| "debug_domain Process = ''Process''"
| "debug_domain Network = ''Network''"
| "debug_domain Secrets = ''Secrets''"
| "debug_domain Plugins = ''Plugins''"
| "debug_domain ExternalServices = ''ExternalServices''"

fun show_capability_error :: "(string \<Rightarrow> string) \<Rightarrow> capability_error \<Rightarrow> string" where
  "show_capability_error dbg (CapInvalid m) = ''invalid capability: '' @ m"
| "show_capability_error dbg (CapInvalidEncoding m) = ''invalid capability encoding: '' @ m"
| "show_capability_error dbg (CapUnsupportedVersion v) =
     ''unsupported capability schema version '' @ show_nat (unat v)"
| "show_capability_error dbg (CapTooLarge n) = ''capability resource is too large: '' @ show_nat n"
| "show_capability_error dbg CapDuplicate = ''capability lease already exists''"
| "show_capability_error dbg CapNotFound = ''capability lease was not found''"
| "show_capability_error dbg SecretHandleNotFound = ''secret handle was not found''"
| "show_capability_error dbg SecretHandleScope = ''secret handle scope is invalid''"
| "show_capability_error dbg (CapMissing a d r) =
     ''agent '' @ show_agent a @ '' lacks '' @ debug_domain d @ '' capability for '' @ dbg r"
| "show_capability_error dbg (CapExpired a d r) =
     ''agent '' @ show_agent a @ '' has an expired '' @ debug_domain d @ '' capability for '' @ dbg r"

fun show_ownership_error :: "(string \<Rightarrow> string) \<Rightarrow> ownership_error \<Rightarrow> string" where
  "show_ownership_error dbg (OwnershipInvalid m) = ''invalid ownership request: '' @ m"
| "show_ownership_error dbg (OwnershipUnowned a r) =
     ''agent '' @ show_agent a @ '' does not own writable resource '' @ dbg r"
| "show_ownership_error dbg (OwnershipConflicts a r owner) =
     ''agent '' @ show_agent a @ '' cannot write resource '' @ dbg r @ ''; overlapping owner is '' @ show_agent owner"

text \<open>
  Who invokes a plugin, and under which policies: the arguments \<open>policy\<close>, \<open>ownership\<close>, \<open>agent_id\<close>,
  \<open>task_id\<close> and \<open>now_ms\<close> that every transport passes on, with the platform and the \<open>Debug\<close> form.
\<close>

record caller =
  cl_windows :: bool
  cl_debug :: "string \<Rightarrow> string"
  cl_policy :: capability_policy
  cl_ownership :: "agent_id \<Rightarrow> string \<Rightarrow> ownership_access \<Rightarrow> (unit, ownership_error) result"
  cl_agent :: agent_id
  cl_task :: "task_id option"
  cl_now_ms :: u128

definition authorize_capability :: "caller \<Rightarrow> plugin_capability \<Rightarrow> (unit, plugin_error) result" where
  "authorize_capability cl c =
     map_err (\<lambda>e. PlugCapabilityDenied (show_capability_error (cl_debug cl) e))
       (authorize (cl_windows cl) (cl_policy cl) (cl_agent cl) (cl_task cl) (pc_domain c) (pc_resource c)
         (cl_now_ms cl))"

definition authorize_owner :: "caller \<Rightarrow> plugin_capability \<Rightarrow> (unit, plugin_error) result" where
  "authorize_owner cl c =
     map_err (\<lambda>e. PlugCapabilityDenied (show_ownership_error (cl_debug cl) e))
       (cl_ownership cl (cl_agent cl) (pc_resource c) WriteAccess)"

definition authorize_manifest :: "caller \<Rightarrow> plugin_manifest \<Rightarrow> (unit, plugin_error) result" where
  "authorize_manifest cl m = try_all (authorize_capability cl) (pm_capabilities m)"

definition authorize_manifest_with_ownership :: "caller \<Rightarrow> plugin_manifest \<Rightarrow> (unit, plugin_error) result"
  where
  "authorize_manifest_with_ownership cl m =
     and_then (authorize_manifest cl m) (\<lambda>_. try_all (authorize_owner cl) (pm_capabilities m))"

text \<open>What the policies allow the caller to do with a capability.\<close>

definition permitted :: "caller \<Rightarrow> plugin_capability \<Rightarrow> bool" where
  "permitted cl c \<longleftrightarrow>
     authorize (cl_windows cl) (cl_policy cl) (cl_agent cl) (cl_task cl) (pc_domain c) (pc_resource c)
       (cl_now_ms cl) = Ok ()
     \<and> cl_ownership cl (cl_agent cl) (pc_resource c) WriteAccess = Ok ()"

lemma authorize_manifest_Ok:
  "authorize_manifest_with_ownership cl m = Ok u \<longleftrightarrow> (\<forall>c \<in> set (pm_capabilities m). permitted cl c)"
  by (auto simp: authorize_manifest_with_ownership_def authorize_manifest_def try_all_Ok_iff
      authorize_capability_def authorize_owner_def permitted_def)

lemma manifest_validate_limits: "manifest_validate m = Ok u \<Longrightarrow> limits_validate (pm_limits m) = Ok ()"
  by (auto simp: manifest_validate_def split: if_splits)

lemma response_Ok:
  "plugin_response_validate l r = Ok u \<longleftrightarrow>
     limits_validate l = Ok () \<and> rs_id r \<noteq> 0 \<and> length (rs_payload r) \<le> unat (rl_message_bytes l)"
  by (auto simp: plugin_response_validate_def)

section \<open>The contract of a transport\<close>

text \<open>
  The trait \<open>PluginTransport\<close>: \<open>invoke\<close> takes the caller, the manifest the caller means and a
  request, and leaves the adapter with the world its plugin has changed. Whatever the plugin is,
  the world changes only if the manifest is the bound one, the policies permit every capability
  it declares, and the request is within its limits; a response answers the request, is within
  the limits, and its origin is not trusted.
\<close>

fun plugin_calls :: "(caller \<Rightarrow> plugin_manifest \<Rightarrow> plugin_request \<Rightarrow> 'p \<Rightarrow> (plugin_response, plugin_error) result \<times> 'p)
    \<Rightarrow> (caller \<times> plugin_manifest \<times> plugin_request) list \<Rightarrow> 'p
    \<Rightarrow> (plugin_response, plugin_error) result list \<times> 'p" where
  "plugin_calls invoke [] p = ([], p)"
| "plugin_calls invoke ((cl, m, r) # calls) p =
     (let (out, p1) = invoke cl m r p; (outs, p2) = plugin_calls invoke calls p1 in (out # outs, p2))"

locale plugin_transport =
  fixes bound :: "'p \<Rightarrow> plugin_manifest"
    and invoke :: "caller \<Rightarrow> plugin_manifest \<Rightarrow> plugin_request \<Rightarrow> 'p \<Rightarrow> (plugin_response, plugin_error) result \<times> 'p"
  assumes keeps_manifest: "bound (snd (invoke cl m r p)) = bound p"
    and effect_permitted: "snd (invoke cl m r p) \<noteq> p \<or> is_ok (fst (invoke cl m r p)) \<Longrightarrow>
      m = bound p \<and> (\<forall>c \<in> set (pm_capabilities m). permitted cl c)
      \<and> plugin_request_validate (pm_limits m) r = Ok ()"
    and response_sound: "fst (invoke cl m r p) = Ok s \<Longrightarrow>
      rs_id s = rq_id r \<and> length (rs_payload s) \<le> unat (rl_message_bytes (pm_limits (bound p)))
      \<and> \<not> is_trusted (rs_origin s)"
begin

text \<open>In any sequence of calls by any callers the manifest stays, and a change has a permitted cause.\<close>

lemma calls_manifest: "bound (snd (plugin_calls invoke calls p)) = bound p"
  by (induction calls arbitrary: p) (auto simp: split_beta keeps_manifest)

lemma calls_permitted:
  "snd (plugin_calls invoke calls p) \<noteq> p \<Longrightarrow> \<exists>(cl, m, r) \<in> set calls.
     m = bound p \<and> (\<forall>c \<in> set (pm_capabilities m). permitted cl c) \<and> plugin_request_validate (pm_limits m) r = Ok ()"
proof (induction calls arbitrary: p)
  case (Cons call calls)
  obtain cl m r where call: "call = (cl, m, r)" by (cases call)
  show ?case
  proof (cases "snd (invoke cl m r p) = p")
    case True
    with Cons.prems call have "snd (plugin_calls invoke calls p) \<noteq> p" by (simp add: split_beta)
    from Cons.IH [OF this] show ?thesis by auto
  next
    case False
    then show ?thesis using effect_permitted [of cl m r p] call by auto
  qed
qed simp

end

end
