(* ===== verification/Plugin_Adapters.thy ===== *)
theory Plugin_Adapters
  imports Plugin_Contracts
begin

text \<open>
  The adapters that stand between the host and a plugin: a process
  (\<^verbatim>\<open>crates/plugin-process\<close>) with its supervisor, a WebAssembly module with its two host imports
  (\<^verbatim>\<open>crates/plugin-wasm\<close>), and an MCP server with its session and discovery
  (\<^verbatim>\<open>crates/plugin-mcp\<close>). What runs behind an adapter is the trait the code injects: a function of
  the adapter's world \<open>'i\<close>. Each adapter is an interpretation of \<open>plugin_transport\<close>.
\<close>

section \<open>Process plugins\<close>

text \<open>The trait \<open>ProcessInvoker\<close>: \<open>effects\<close> is \<open>effect_capabilities\<close>, \<open>run\<close> is \<open>invoke\<close>.\<close>

record 'i process_plugin =
  pp_manifest :: plugin_manifest
  pp_invoker :: 'i

definition capability_declared :: "bool \<Rightarrow> plugin_manifest \<Rightarrow> capability_domain \<Rightarrow> string \<Rightarrow> bool" where
  "capability_declared win m d r \<longleftrightarrow>
     list_ex (\<lambda>c. pc_domain c = d \<and> resource_matches win (pc_resource c) r) (pm_capabilities m)"

definition process_plugin_new :: "bool \<Rightarrow> ('i \<Rightarrow> plugin_capability list) \<Rightarrow> plugin_manifest \<Rightarrow> 'i
    \<Rightarrow> ('i process_plugin, plugin_error) result" where
  "process_plugin_new win effects m i =
     and_then (manifest_validate m) (\<lambda>_.
     if pm_kind m \<noteq> KindProcess then Err (PlugInvalid ''process adapter requires a process manifest'')
     else and_then (try_all (\<lambda>c. if capability_declared win m (pc_domain c) (pc_resource c) then Ok ()
            else Err (PlugInvalid ''process effect capability is missing from the manifest'')) (effects i))
       (\<lambda>_. Ok \<lparr>pp_manifest = m, pp_invoker = i\<rparr>))"

definition process_invoke_unchecked :: "(plugin_manifest \<Rightarrow> plugin_request \<Rightarrow> 'i \<Rightarrow> (u8 list, plugin_error) result \<times> 'i)
    \<Rightarrow> plugin_request \<Rightarrow> 'i process_plugin \<Rightarrow> (plugin_response, plugin_error) result \<times> 'i process_plugin" where
  "process_invoke_unchecked run r p =
     (let (out, i) = run (pp_manifest p) r (pp_invoker p)
      in (and_then out (\<lambda>payload.
            let s = \<lparr>rs_id = rq_id r, rs_payload = payload, rs_origin = External\<rparr>
            in and_then (plugin_response_validate (pm_limits (pp_manifest p)) s) (\<lambda>_. Ok s)),
          p\<lparr>pp_invoker := i\<rparr>))"

definition authorize_effect :: "caller \<Rightarrow> plugin_capability \<Rightarrow> (unit, plugin_error) result" where
  "authorize_effect cl c = and_then (authorize_capability cl c) (\<lambda>_. authorize_owner cl c)"

definition process_invoke :: "('i \<Rightarrow> plugin_capability list)
    \<Rightarrow> (plugin_manifest \<Rightarrow> plugin_request \<Rightarrow> 'i \<Rightarrow> (u8 list, plugin_error) result \<times> 'i)
    \<Rightarrow> caller \<Rightarrow> plugin_manifest \<Rightarrow> plugin_request \<Rightarrow> 'i process_plugin
    \<Rightarrow> (plugin_response, plugin_error) result \<times> 'i process_plugin" where
  "process_invoke effects run cl m r p =
     (if m \<noteq> pp_manifest p
      then (Err (PlugProtocol ''invocation manifest does not match the bound process plugin''), p)
      else case and_then (authorize_manifest_with_ownership cl (pp_manifest p)) (\<lambda>_.
             and_then (try_all (authorize_effect cl) (effects (pp_invoker p))) (\<lambda>_.
             plugin_request_validate (pm_limits (pp_manifest p)) r)) of
          Err e \<Rightarrow> (Err e, p)
        | Ok _ \<Rightarrow> process_invoke_unchecked run r p)"

interpretation process: plugin_transport pp_manifest "process_invoke effects run" for effects run
proof unfold_locales
  fix cl m r p
  show "pp_manifest (snd (process_invoke effects run cl m r p)) = pp_manifest p"
    by (simp add: process_invoke_def process_invoke_unchecked_def split: result.splits prod.splits)
next
  fix cl m r p
  show "snd (process_invoke effects run cl m r p) \<noteq> p \<or> is_ok (fst (process_invoke effects run cl m r p)) \<Longrightarrow>
      m = pp_manifest p \<and> (\<forall>c \<in> set (pm_capabilities m). permitted cl c)
      \<and> plugin_request_validate (pm_limits m) r = Ok ()"
    by (auto simp: process_invoke_def authorize_manifest_Ok split: if_splits result.splits)
next
  fix cl m r p s
  show "fst (process_invoke effects run cl m r p) = Ok s \<Longrightarrow>
      rs_id s = rq_id r \<and> length (rs_payload s) \<le> unat (rl_message_bytes (pm_limits (pp_manifest p)))
      \<and> \<not> is_trusted (rs_origin s)"
    by (auto simp: process_invoke_def process_invoke_unchecked_def Let_def response_Ok
        split: if_splits result.splits prod.splits)
qed

text \<open>The effects of the concrete process are permitted as well.\<close>

lemma process_effects_permitted:
  "snd (process_invoke effects run cl m r p) \<noteq> p \<Longrightarrow> \<forall>c \<in> set (effects (pp_invoker p)). permitted cl c"
  by (auto simp: process_invoke_def try_all_Ok_iff authorize_effect_def authorize_capability_def
      authorize_owner_def permitted_def split: if_splits result.splits)

section \<open>The supervisor of a process\<close>

datatype process_state = PsReady | PsRunning | PsCrashed | PsTimedOut | PsStopped

record 'i process_supervisor =
  sv_plugin :: "'i process_plugin"
  sv_state :: process_state
  sv_restarts :: u32

definition supervisor_new :: "'i process_plugin \<Rightarrow> 'i process_supervisor" where
  "supervisor_new p = \<lparr>sv_plugin = p, sv_state = PsReady, sv_restarts = 0\<rparr>"

definition supervisor_start :: "'i process_supervisor \<Rightarrow> (unit, plugin_error) result \<times> 'i process_supervisor" where
  "supervisor_start v =
     (if sv_state v \<noteq> PsReady then (Err (PlugProtocol ''process supervisor can only start from Ready''), v)
      else (Ok (), v\<lparr>sv_state := PsRunning\<rparr>))"

definition supervisor_stop :: "'i process_supervisor \<Rightarrow> (unit, plugin_error) result \<times> 'i process_supervisor" where
  "supervisor_stop v =
     (if sv_state v \<noteq> PsRunning
      then (Err (PlugProtocol ''process supervisor can only stop a running process''), v)
      else (Ok (), v\<lparr>sv_state := PsStopped\<rparr>))"

definition supervisor_restart :: "'i process_plugin \<Rightarrow> 'i process_supervisor
    \<Rightarrow> (unit, plugin_error) result \<times> 'i process_supervisor" where
  "supervisor_restart p v =
     (if sv_state v \<notin> {PsCrashed, PsTimedOut, PsStopped}
      then (Err (PlugProtocol ''process supervisor can only restart after failure or stop''), v)
      else if pp_manifest p \<noteq> pp_manifest (sv_plugin v)
      then (Err (PlugProtocol ''replacement process manifest does not match the supervised plugin''), v)
      else (Ok (), v\<lparr>sv_plugin := p, sv_restarts := saturating_add (sv_restarts v) 1, sv_state := PsRunning\<rparr>))"

text \<open>The arguments of \<open>invoke\<close> after the caller are those of the adapter's \<open>invoke\<close>.\<close>

definition supervisor_invoke :: "('i \<Rightarrow> plugin_capability list)
    \<Rightarrow> (plugin_manifest \<Rightarrow> plugin_request \<Rightarrow> 'i \<Rightarrow> (u8 list, plugin_error) result \<times> 'i)
    \<Rightarrow> caller \<Rightarrow> plugin_request \<Rightarrow> 'i process_supervisor
    \<Rightarrow> (plugin_response, plugin_error) result \<times> 'i process_supervisor" where
  "supervisor_invoke effects run cl r v =
     (if sv_state v \<noteq> PsRunning then (Err (PlugProtocol ''process supervisor is not running''), v)
      else let (out, p) = process_invoke effects run cl (pp_manifest (sv_plugin v)) r (sv_plugin v)
        in (out, v\<lparr>sv_plugin := p, sv_state := (case out of
              Err (PlugCrashed _) \<Rightarrow> PsCrashed
            | Err PlugTimedOut \<Rightarrow> PsTimedOut
            | _ \<Rightarrow> sv_state v)\<rparr>))"

text \<open>A step of a supervised process: the call, the state it leaves.\<close>

datatype 'i supervisor_call =
    SvStart
  | SvStop
  | SvRestart "'i process_plugin"
  | SvInvoke caller plugin_request

inductive supervisor_step :: "('i \<Rightarrow> plugin_capability list)
    \<Rightarrow> (plugin_manifest \<Rightarrow> plugin_request \<Rightarrow> 'i \<Rightarrow> (u8 list, plugin_error) result \<times> 'i)
    \<Rightarrow> 'i process_supervisor \<Rightarrow> 'i supervisor_call \<Rightarrow> bool \<Rightarrow> 'i process_supervisor \<Rightarrow> bool"
  for effects run where
  start: "supervisor_start v = (out, v') \<Longrightarrow> supervisor_step effects run v SvStart (is_ok out) v'"
| stop: "supervisor_stop v = (out, v') \<Longrightarrow> supervisor_step effects run v SvStop (is_ok out) v'"
| restart: "supervisor_restart p v = (out, v') \<Longrightarrow> supervisor_step effects run v (SvRestart p) (is_ok out) v'"
| invoke: "supervisor_invoke effects run cl r v = (s, v') \<Longrightarrow>
    supervisor_step effects run v (SvInvoke cl r) (is_ok s) v'"

inductive_cases supervisor_stepE: "supervisor_step effects run v c ok v'"

text \<open>Any number of calls, with whether each succeeded.\<close>

inductive supervisor_calls :: "('i \<Rightarrow> plugin_capability list)
    \<Rightarrow> (plugin_manifest \<Rightarrow> plugin_request \<Rightarrow> 'i \<Rightarrow> (u8 list, plugin_error) result \<times> 'i)
    \<Rightarrow> 'i process_supervisor \<Rightarrow> ('i supervisor_call \<times> bool) list \<Rightarrow> 'i process_supervisor \<Rightarrow> bool"
  for effects run v where
  none: "supervisor_calls effects run v [] v"
| more: "supervisor_calls effects run v h v1 \<Longrightarrow> supervisor_step effects run v1 c ok v2 \<Longrightarrow>
    supervisor_calls effects run v (h @ [(c, ok)]) v2"

fun is_restart :: "'i supervisor_call \<times> bool \<Rightarrow> bool" where
  "is_restart (SvRestart p, ok) = ok"
| "is_restart _ = False"

lemma process_invoke_manifest [simp]:
  "pp_manifest (snd (process_invoke effects run cl m r p)) = pp_manifest p"
  by (rule process.keeps_manifest)

lemma supervisor_invoke_keeps:
  assumes "supervisor_invoke effects run cl r v = (s, v')"
  shows "pp_manifest (sv_plugin v') = pp_manifest (sv_plugin v)" "sv_restarts v' = sv_restarts v"
    "sv_state v \<noteq> PsRunning \<Longrightarrow> v' = v \<and> \<not> is_ok s"
  using assms by (auto simp: supervisor_invoke_def Let_def split_beta split: if_splits)

lemma supervisor_step_manifest:
  "supervisor_step effects run v c ok v' \<Longrightarrow> pp_manifest (sv_plugin v') = pp_manifest (sv_plugin v)"
  by (erule supervisor_stepE)
    (auto simp: supervisor_start_def supervisor_stop_def supervisor_restart_def supervisor_invoke_keeps(1)
      split: if_splits)

lemma supervisor_step_restarts:
  "supervisor_step effects run v c ok v' \<Longrightarrow>
     sv_restarts v' = (if is_restart (c, ok) then saturating_add (sv_restarts v) 1 else sv_restarts v)"
  by (erule supervisor_stepE)
    (auto simp: supervisor_start_def supervisor_stop_def supervisor_restart_def supervisor_invoke_keeps(2)
      split: if_splits)

text \<open>A step leaves a process that has ended alone, unless it restarts it.\<close>

lemma supervisor_step_halted:
  assumes "supervisor_step effects run v c ok v'" and "sv_state v \<in> {PsCrashed, PsTimedOut, PsStopped}"
    and "\<not> is_restart (c, ok)"
  shows "v' = v \<and> \<not> ok"
  using assms
  by (cases rule: supervisor_step.cases)
    (auto simp: supervisor_start_def supervisor_stop_def supervisor_restart_def supervisor_invoke_def
      split: if_splits)

lemma supervisor_calls_halted:
  "supervisor_calls effects run v h v' \<Longrightarrow> sv_state v \<in> {PsCrashed, PsTimedOut, PsStopped} \<Longrightarrow>
     \<forall>x \<in> set h. \<not> is_restart x \<Longrightarrow> v' = v \<and> (\<forall>(c, ok) \<in> set h. \<not> ok)"
  by (induction rule: supervisor_calls.induct) (auto dest: supervisor_step_halted)

lemma supervisor_calls_restarts:
  "supervisor_calls effects run (supervisor_new p) h v \<Longrightarrow>
     unat (sv_restarts v) = min (length (filter is_restart h)) (2 ^ 32 - 1)"
proof (induction rule: supervisor_calls.induct)
  case (more h v1 c ok v2)
  then show ?case by (auto simp: supervisor_step_restarts [OF more.hyps(2)] unat_saturating_add min_def)
qed (simp add: supervisor_new_def)

lemma supervisor_calls_manifest:
  "supervisor_calls effects run v h v' \<Longrightarrow> pp_manifest (sv_plugin v') = pp_manifest (sv_plugin v)"
  by (induction rule: supervisor_calls.induct) (auto dest: supervisor_step_manifest)

lemma supervisor_step_effect:
  assumes "supervisor_step effects run v (SvInvoke cl r) ok v'" and "ok \<or> sv_plugin v' \<noteq> sv_plugin v"
  shows "sv_state v = PsRunning" and "\<forall>c \<in> set (pm_capabilities (pp_manifest (sv_plugin v))). permitted cl c"
proof -
  from assms(1) obtain s where step: "supervisor_invoke effects run cl r v = (s, v')" "ok = is_ok s"
    by (cases rule: supervisor_step.cases)
  from step assms(2) show "sv_state v = PsRunning" by (auto simp: supervisor_invoke_def split: if_splits)
  then have "is_ok (fst (process_invoke effects run cl (pp_manifest (sv_plugin v)) r (sv_plugin v)))
      \<or> snd (process_invoke effects run cl (pp_manifest (sv_plugin v)) r (sv_plugin v)) \<noteq> sv_plugin v"
    using step assms(2) by (auto simp: supervisor_invoke_def Let_def split_beta)
  then show "\<forall>c \<in> set (pm_capabilities (pp_manifest (sv_plugin v))). permitted cl c"
    using process.effect_permitted by blast
qed

section \<open>WebAssembly plugins\<close>

record wasm_execution =
  we_payload :: "u8 list"
  we_memory_used_bytes :: u64
  we_fuel_used :: u64
  we_elapsed_ms :: u64

record 'i wasm_plugin =
  wp_manifest :: plugin_manifest
  wp_invoker :: 'i

definition wasm_plugin_new :: "plugin_manifest \<Rightarrow> 'i \<Rightarrow> ('i wasm_plugin, plugin_error) result" where
  "wasm_plugin_new m i =
     and_then (manifest_validate m) (\<lambda>_.
     if pm_kind m \<noteq> KindWasm then Err (PlugInvalid ''WASM adapter requires a WASM manifest'')
     else Ok \<lparr>wp_manifest = m, wp_invoker = i\<rparr>)"

definition wasm_response :: "resource_limits \<Rightarrow> plugin_request \<Rightarrow> wasm_execution
    \<Rightarrow> (plugin_response, plugin_error) result" where
  "wasm_response l r e =
     (if rl_memory_bytes l < we_memory_used_bytes e then Err (PlugResourceExhausted ''memory limit'')
      else if rl_fuel l < we_fuel_used e then Err (PlugResourceExhausted ''fuel limit'')
      else if rl_wall_time_ms l < we_elapsed_ms e then Err PlugTimedOut
      else let s = \<lparr>rs_id = rq_id r, rs_payload = we_payload e, rs_origin = External\<rparr>
        in and_then (plugin_response_validate l s) (\<lambda>_. Ok s))"

text \<open>
  The trait \<open>WasmInvoker\<close> is the argument \<open>execute\<close> (\<open>execute_with_context\<close>); its context holds the
  manifest and what the caller brings.
\<close>

definition wasm_invoke :: "(caller \<Rightarrow> plugin_manifest \<Rightarrow> plugin_request \<Rightarrow> 'i \<Rightarrow> (wasm_execution, plugin_error) result \<times> 'i)
    \<Rightarrow> caller \<Rightarrow> plugin_manifest \<Rightarrow> plugin_request \<Rightarrow> 'i wasm_plugin
    \<Rightarrow> (plugin_response, plugin_error) result \<times> 'i wasm_plugin" where
  "wasm_invoke execute cl m r p =
     (if m \<noteq> wp_manifest p
      then (Err (PlugProtocol ''invocation manifest does not match the bound WASM plugin''), p)
      else case and_then (authorize_manifest_with_ownership cl (wp_manifest p)) (\<lambda>_.
             plugin_request_validate (pm_limits (wp_manifest p)) r) of
          Err e \<Rightarrow> (Err e, p)
        | Ok _ \<Rightarrow> let (out, i) = execute cl (wp_manifest p) r (wp_invoker p)
            in (and_then out (wasm_response (pm_limits (wp_manifest p)) r), p\<lparr>wp_invoker := i\<rparr>))"

interpretation wasm: plugin_transport wp_manifest "wasm_invoke execute" for execute
proof unfold_locales
  fix cl m r p
  show "wp_manifest (snd (wasm_invoke execute cl m r p)) = wp_manifest p"
    by (simp add: wasm_invoke_def split: result.splits prod.splits)
next
  fix cl m r p
  show "snd (wasm_invoke execute cl m r p) \<noteq> p \<or> is_ok (fst (wasm_invoke execute cl m r p)) \<Longrightarrow>
      m = wp_manifest p \<and> (\<forall>c \<in> set (pm_capabilities m). permitted cl c)
      \<and> plugin_request_validate (pm_limits m) r = Ok ()"
    by (auto simp: wasm_invoke_def authorize_manifest_Ok split: if_splits result.splits)
next
  fix cl m r p s
  show "fst (wasm_invoke execute cl m r p) = Ok s \<Longrightarrow>
      rs_id s = rq_id r \<and> length (rs_payload s) \<le> unat (rl_message_bytes (pm_limits (wp_manifest p)))
      \<and> \<not> is_trusted (rs_origin s)"
    by (auto simp: wasm_invoke_def wasm_response_def Let_def response_Ok
        split: if_splits result.splits prod.splits)
qed

subsection \<open>The imports a module can call\<close>

text \<open>
  \<open>capability_check\<close> and \<open>resource_read\<close>. The linear memory belongs to the engine: \<open>mem\<close> is the
  exported memory if there is one, \<open>rd\<close> and \<open>wr\<close> its bounded accesses. The context is the caller
  with the manifest, and \<open>provider\<close> the resource provider a host may install, which is \<open>None\<close> when
  none is installed or its lock is poisoned.
\<close>

definition MAX_HOST_RESOURCE_BYTES :: nat where "MAX_HOST_RESOURCE_BYTES = 64 * 1024"

definition usize_of_i32 :: "32 word \<Rightarrow> usize option" where
  "usize_of_i32 w = (if sint w < 0 then None else Some (nat (sint w)))"

definition wasm_capability_domain :: "32 word \<Rightarrow> capability_domain option" where
  "wasm_capability_domain tag =
     (if tag = 0 then Some Filesystem
      else if tag = 1 then Some Process
      else if tag = 2 then Some Network
      else if tag = 3 then Some Secrets
      else if tag = 4 then Some Plugins
      else if tag = 5 then Some ExternalServices
      else None)"

definition read_resource_name :: "('m \<Rightarrow> nat \<Rightarrow> nat \<Rightarrow> u8 list option) \<Rightarrow> 'm option \<Rightarrow> nat \<Rightarrow> nat \<Rightarrow> string option"
  where
  "read_resource_name rd mem ptr len =
     (case mem of None \<Rightarrow> None
      | Some m \<Rightarrow> (case rd m ptr len of None \<Rightarrow> None | Some bs \<Rightarrow> from_utf8 bs))"

definition lease_allows :: "caller \<Rightarrow> capability_domain \<Rightarrow> string \<Rightarrow> bool" where
  "lease_allows cl d r = is_ok (authorize (cl_windows cl) (cl_policy cl) (cl_agent cl) (cl_task cl) d r (cl_now_ms cl))"

definition capability_check :: "('m \<Rightarrow> nat \<Rightarrow> nat \<Rightarrow> u8 list option) \<Rightarrow> (caller \<times> plugin_manifest) option
    \<Rightarrow> 'm option \<Rightarrow> 32 word \<Rightarrow> 32 word \<Rightarrow> 32 word \<Rightarrow> int" where
  "capability_check rd ctx mem tag ptr len =
     (case (usize_of_i32 ptr, usize_of_i32 len) of
        (Some p, Some n) \<Rightarrow>
          if MAX_HOST_RESOURCE_BYTES < n then -2
          else (case (read_resource_name rd mem p n, wasm_capability_domain tag) of
              (Some r, Some d) \<Rightarrow>
                (case ctx of
                   None \<Rightarrow> 0
                 | Some (cl, m) \<Rightarrow>
                     if \<not> capability_declared (cl_windows cl) m d r then 0
                     else if lease_allows cl d r then 1 else 0)
            | _ \<Rightarrow> -2)
      | _ \<Rightarrow> -2)"

definition resource_read :: "('m \<Rightarrow> nat \<Rightarrow> nat \<Rightarrow> u8 list option) \<Rightarrow> ('m \<Rightarrow> nat \<Rightarrow> u8 list \<Rightarrow> 'm option)
    \<Rightarrow> (caller \<times> plugin_manifest) option
    \<Rightarrow> (capability_domain \<Rightarrow> string \<Rightarrow> nat \<Rightarrow> 'p \<Rightarrow> (u8 list, plugin_error) result \<times> 'p) option
    \<Rightarrow> 'm option \<Rightarrow> 'p \<Rightarrow> 32 word \<Rightarrow> 32 word \<Rightarrow> 32 word \<Rightarrow> 32 word \<Rightarrow> 32 word \<Rightarrow> int \<times> 'm option \<times> 'p" where
  "resource_read rd wr ctx provider mem w tag ptr len out_ptr out_len =
     (case (usize_of_i32 ptr, usize_of_i32 len, usize_of_i32 out_ptr, usize_of_i32 out_len) of
        (Some p, Some n, Some q, Some capacity) \<Rightarrow>
          if MAX_HOST_RESOURCE_BYTES < n \<or> MAX_HOST_RESOURCE_BYTES < capacity then (-2, mem, w)
          else (case (mem, read_resource_name rd mem p n) of
              (Some memory, Some r) \<Rightarrow>
                (case (wasm_capability_domain tag, ctx) of
                   (Some d, Some (cl, m)) \<Rightarrow>
                     if \<not> capability_declared (cl_windows cl) m d r then (-3, mem, w)
                     else if \<not> lease_allows cl d r then (-3, mem, w)
                     else (case provider of
                        None \<Rightarrow> (-4, mem, w)
                      | Some read \<Rightarrow> (case read d r capacity w of
                            (Err _, w') \<Rightarrow> (-4, mem, w')
                          | (Ok bs, w') \<Rightarrow>
                              if capacity < length bs then (-5, mem, w')
                              else (case wr memory q bs of
                                  None \<Rightarrow> (-2, mem, w')
                                | Some memory' \<Rightarrow> (int (length bs), Some memory', w'))))
                 | _ \<Rightarrow> (-3, mem, w))
            | _ \<Rightarrow> (-2, mem, w))
      | _ \<Rightarrow> (-2, mem, w))"

text \<open>
  A module reaches the provider, and changes its own memory, only for a resource that the manifest
  declares and a lease of the caller allows, and it receives no more bytes than it asked for.
\<close>

lemma resource_read_gated:
  assumes "resource_read rd wr ctx provider mem w tag ptr len out_ptr out_len = (code, mem', w')"
    and "w' \<noteq> w \<or> mem' \<noteq> mem \<or> 0 \<le> code"
  obtains cl m d r memory bs where "ctx = Some (cl, m)" "mem = Some memory"
    "rd memory (nat (sint ptr)) (nat (sint len)) = Some bs" "from_utf8 bs = Some r"
    "wasm_capability_domain tag = Some d" "capability_declared (cl_windows cl) m d r" "lease_allows cl d r"
    "code \<le> sint out_len"
  using assms
  by (auto simp: resource_read_def usize_of_i32_def read_resource_name_def
      split: option.splits if_splits prod.splits result.splits)

end
