(* ===== verification/Plugin_Mcp.thy ===== *)
theory Plugin_Mcp
  imports Plugin_Contracts Terminal_Plan
begin

text \<open>
  MCP servers (\<^verbatim>\<open>crates/plugin-mcp\<close>): what a server says of itself and of its tools, discovery
  page by page, the binding of a tool under the host's policy, the session with its handshake, the
  adapter, and the parser of server-sent events. A transport (\<open>McpSessionTransport\<close>) is three
  functions on its own state \<open>'t\<close>; JSON is the argument \<open>json\<close> of the event parser.
\<close>

section \<open>Metadata\<close>

definition MCP_PROTOCOL_VERSION :: u16 where "MCP_PROTOCOL_VERSION = 1"
definition MCP_LEGACY_PROTOCOL_VERSION :: string where "MCP_LEGACY_PROTOCOL_VERSION = ''2025-11-25''"
definition MCP_MODERN_PROTOCOL_VERSION :: string where "MCP_MODERN_PROTOCOL_VERSION = ''2026-07-28''"
definition MAX_DISCOVERY_PAGE_ITEMS :: nat where "MAX_DISCOVERY_PAGE_ITEMS = 128"
definition MAX_DISCOVERY_CURSOR_BYTES :: nat where "MAX_DISCOVERY_CURSOR_BYTES = 512"
definition MAX_RESOURCE_URI_BYTES :: nat where "MAX_RESOURCE_URI_BYTES = 4096"
definition MAX_DESCRIPTION_BYTES :: nat where "MAX_DESCRIPTION_BYTES = 64 * 1024"
definition MAX_SSE_RETRY_DELAY_MS :: nat where "MAX_SSE_RETRY_DELAY_MS = 5000"

datatype mcp_error =
    McpInvalid string
  | McpUnsupportedVersion u16
  | McpUnsupportedWireVersion string
  | McpTooLarge usize
  | McpPlugin plugin_error
  | McpTool tool_error

record mcp_server_info =
  sv_name :: string
  sv_version :: string
  sv_protocol_version :: u16
  sv_wire_version :: "string option"
  sv_metadata :: "(string, string) bmap"

definition validate_wire_version :: "string \<Rightarrow> (unit, mcp_error) result" where
  "validate_wire_version v =
     (if v = MCP_LEGACY_PROTOCOL_VERSION \<or> v = MCP_MODERN_PROTOCOL_VERSION then Ok ()
      else Err (McpUnsupportedWireVersion v))"

definition server_validate :: "mcp_server_info \<Rightarrow> (unit, mcp_error) result" where
  "server_validate s =
     (if trim_is_empty (sv_name s) \<or> trim_is_empty (sv_version s)
      then Err (McpInvalid ''server name and version are required'')
      else if sv_protocol_version s \<noteq> MCP_PROTOCOL_VERSION
      then Err (McpUnsupportedVersion (sv_protocol_version s))
      else and_then (case sv_wire_version s of None \<Rightarrow> Ok () | Some v \<Rightarrow> validate_wire_version v) (\<lambda>_.
        if 64 < bm_len (sv_metadata s) then Err (McpTooLarge (bm_len (sv_metadata s)))
        else try_all (\<lambda>(key, v). if trim_is_empty key \<or> trim_is_empty v
               then Err (McpInvalid ''server metadata must not be blank'') else Ok ())
             (bm_entries (sv_metadata s))))"

record mcp_tool_description =
  mt_name :: string
  mt_description :: string
  mt_input_schema :: "u8 list"

definition mcp_tool_validate :: "mcp_tool_description \<Rightarrow> (unit, mcp_error) result" where
  "mcp_tool_validate t =
     (if trim_is_empty (mt_name t) \<or> trim_is_empty (mt_description t)
      then Err (McpInvalid ''tool name and description are required'')
      else if 256 < length (mt_name t) \<or> MAX_DESCRIPTION_BYTES < length (mt_description t)
      then Err (McpTooLarge (max (length (mt_name t)) (length (mt_description t))))
      else if 1024 * 1024 < length (mt_input_schema t) then Err (McpTooLarge (length (mt_input_schema t)))
      else Ok ())"

record mcp_resource_description =
  mr_uri :: string
  mr_name :: string
  mr_description :: string

definition mcp_resource_validate :: "mcp_resource_description \<Rightarrow> (unit, mcp_error) result" where
  "mcp_resource_validate r =
     (if trim_is_empty (mr_uri r) \<or> trim_is_empty (mr_name r) \<or> trim_is_empty (mr_description r)
      then Err (McpInvalid ''resource URI, name, and description are required'')
      else if MAX_RESOURCE_URI_BYTES < length (mr_uri r) \<or> 256 < length (mr_name r)
        \<or> MAX_DESCRIPTION_BYTES < length (mr_description r)
      then Err (McpTooLarge (max (max (length (mr_uri r)) (length (mr_name r))) (length (mr_description r))))
      else Ok ())"

section \<open>Discovery\<close>

definition validate_page_len :: "nat \<Rightarrow> (unit, mcp_error) result" where
  "validate_page_len n = (if MAX_DISCOVERY_PAGE_ITEMS < n then Err (McpTooLarge n) else Ok ())"

definition validate_cursor :: "string option \<Rightarrow> (unit, mcp_error) result" where
  "validate_cursor cursor =
     (case cursor of
        None \<Rightarrow> Ok ()
      | Some v \<Rightarrow> if trim_is_empty v \<or> MAX_DISCOVERY_CURSOR_BYTES < length v
          then Err (McpInvalid ''MCP discovery cursor is invalid'') else Ok ())"

text \<open>A page of tools or of resources, with the check of its items.\<close>

record 'd mcp_page =
  pg_items :: "'d list"
  pg_next_cursor :: "string option"

definition page_validate :: "('d \<Rightarrow> (unit, mcp_error) result) \<Rightarrow> 'd mcp_page \<Rightarrow> (unit, mcp_error) result" where
  "page_validate item_validate p =
     and_then (validate_page_len (length (pg_items p))) (\<lambda>_.
     and_then (validate_cursor (pg_next_cursor p)) (\<lambda>_. try_all item_validate (pg_items p)))"

record 'i mcp_discovery =
  dc_server :: mcp_server_info
  dc_invoker :: 'i
  dc_page_size :: u16

definition discovery_new :: "mcp_server_info \<Rightarrow> 'i \<Rightarrow> u16 \<Rightarrow> ('i mcp_discovery, mcp_error) result" where
  "discovery_new server i page_size =
     and_then (server_validate server) (\<lambda>_.
     if page_size = 0 \<or> MAX_DISCOVERY_PAGE_ITEMS < unat page_size then Err (McpTooLarge (unat page_size))
     else Ok \<lparr>dc_server = server, dc_invoker = i, dc_page_size = page_size\<rparr>)"

text \<open>The trait \<open>McpDiscoveryInvoker\<close> is the argument \<open>listing\<close>, one for tools and one for resources.\<close>

definition list_page :: "('d \<Rightarrow> (unit, mcp_error) result)
    \<Rightarrow> (string option \<Rightarrow> u16 \<Rightarrow> 'i \<Rightarrow> ('d mcp_page, mcp_error) result \<times> 'i) \<Rightarrow> string option \<Rightarrow> 'i mcp_discovery
    \<Rightarrow> ('d mcp_page, mcp_error) result \<times> 'i mcp_discovery" where
  "list_page item_validate listing cursor d =
     (case validate_cursor cursor of
        Err e \<Rightarrow> (Err e, d)
      | Ok _ \<Rightarrow> let (out, i) = listing cursor (dc_page_size d) (dc_invoker d)
          in (and_then out (\<lambda>p. and_then (page_validate item_validate p) (\<lambda>_. Ok p)), d\<lparr>dc_invoker := i\<rparr>))"

definition mcp_list_tools where "mcp_list_tools = list_page mcp_tool_validate"
definition mcp_list_resources where "mcp_list_resources = list_page mcp_resource_validate"

section \<open>Binding a tool\<close>

record mcp_tool_policy =
  tp_required_fields :: "string list"
  tp_capability :: "capability_requirement option"
  tp_risk :: risk_level
  tp_reversible :: bool
  tp_trust_policy :: tool_trust_policy

definition bind_tool :: "mcp_server_info \<Rightarrow> mcp_tool_description \<Rightarrow> mcp_tool_policy
    \<Rightarrow> (tool_definition \<times> tool_trust_policy, mcp_error) result" where
  "bind_tool server d p =
     and_then (server_validate server) (\<lambda>_.
     and_then (mcp_tool_validate d) (\<lambda>_.
     let t = \<lparr>td_name = ''mcp.'' @ sv_name server @ ''.'' @ mt_name d, td_version = sv_version server,
       td_required_fields = tp_required_fields p, td_syntax_fields = [], td_capability = tp_capability p,
       td_ownership = None, td_risk = tp_risk p, td_reversible = tp_reversible p\<rparr>
     in and_then (map_err McpTool (tool_definition_validate t)) (\<lambda>_. Ok (t, tp_trust_policy p))))"

section \<open>Sessions\<close>

datatype mcp_mode = Legacy2025 | Modern2026

fun mode_version :: "mcp_mode \<Rightarrow> string" where
  "mode_version Legacy2025 = MCP_LEGACY_PROTOCOL_VERSION"
| "mode_version Modern2026 = MCP_MODERN_PROTOCOL_VERSION"

definition validate_negotiated :: "mcp_mode \<Rightarrow> string \<Rightarrow> (unit, mcp_error) result" where
  "validate_negotiated mode v =
     and_then (validate_wire_version v) (\<lambda>_.
     if v \<noteq> mode_version mode then Err (McpUnsupportedWireVersion v) else Ok ())"

record mcp_client_info =
  mc_name :: string
  mc_version :: string

definition client_validate :: "mcp_client_info \<Rightarrow> (unit, mcp_error) result" where
  "client_validate c =
     (if trim_is_empty (mc_name c) \<or> trim_is_empty (mc_version c)
      then Err (McpInvalid ''client name and version are required'')
      else if 256 < length (mc_name c) \<or> 256 < length (mc_version c)
      then Err (McpTooLarge (max (length (mc_name c)) (length (mc_version c))))
      else Ok ())"

record 't mcp_session =
  ss_mode :: mcp_mode
  ss_client :: mcp_client_info
  ss_server :: mcp_server_info
  ss_transport :: 't
  ss_connected :: bool
  ss_negotiated :: "string option"

definition session_new :: "mcp_mode \<Rightarrow> mcp_client_info \<Rightarrow> mcp_server_info \<Rightarrow> 't \<Rightarrow> ('t mcp_session, mcp_error) result"
  where
  "session_new mode client server t =
     and_then (client_validate client) (\<lambda>_.
     and_then (server_validate server) (\<lambda>_.
     Ok \<lparr>ss_mode = mode, ss_client = client, ss_server = server, ss_transport = t, ss_connected = False,
       ss_negotiated = None\<rparr>))"

text \<open>What the server answered to \<open>initialize\<close>, checked: the version it speaks.\<close>

definition negotiate :: "mcp_mode \<Rightarrow> mcp_server_info \<Rightarrow> (string, mcp_error) result" where
  "negotiate mode server =
     and_then (server_validate server) (\<lambda>_.
     and_then (ok_or (sv_wire_version server) (McpInvalid ''MCP initialize result omitted protocolVersion'')) (\<lambda>v.
     and_then (validate_negotiated mode v) (\<lambda>_. Ok v)))"

definition session_connect :: "(mcp_mode \<Rightarrow> mcp_client_info \<Rightarrow> 't \<Rightarrow> (mcp_server_info, mcp_error) result \<times> 't)
    \<Rightarrow> (mcp_mode \<Rightarrow> 't \<Rightarrow> (unit, mcp_error) result \<times> 't) \<Rightarrow> 't mcp_session
    \<Rightarrow> (unit, mcp_error) result \<times> 't mcp_session" where
  "session_connect init inited s =
     (if ss_connected s then (Err (McpInvalid ''MCP session is already connected''), s)
      else if ss_mode s = Legacy2025 then
        (let (answer, t) = init (ss_mode s) (ss_client s) (ss_transport s); s1 = s\<lparr>ss_transport := t\<rparr>
         in case and_then answer (\<lambda>server. and_then (negotiate (ss_mode s) server) (\<lambda>v. Ok (server, v))) of
              Err e \<Rightarrow> (Err e, s1)
            | Ok (server, v) \<Rightarrow>
                (let (out, t2) = inited (ss_mode s) t;
                     s2 = s1\<lparr>ss_negotiated := Some v, ss_server := server, ss_transport := t2\<rparr>
                 in case out of Err e \<Rightarrow> (Err e, s2) | Ok _ \<Rightarrow> (Ok (), s2\<lparr>ss_connected := True\<rparr>)))
      else (Ok (), s\<lparr>ss_negotiated := Some (mode_version (ss_mode s)), ss_connected := True\<rparr>))"

text \<open>\<open>Display\<close> of the errors a request turns into text; that of a tool error is an argument.\<close>

fun show_plugin_error :: "plugin_error \<Rightarrow> string" where
  "show_plugin_error (PlugInvalid m) = ''invalid plugin contract: '' @ m"
| "show_plugin_error (PlugUnsupportedVersion v) = ''unsupported plugin protocol version '' @ show_nat (unat v)"
| "show_plugin_error (PlugTooLarge n) = ''plugin value is too large: '' @ show_nat n"
| "show_plugin_error (PlugMessageTooLarge n) = ''plugin message is too large: '' @ show_nat n"
| "show_plugin_error (PlugProtocol m) = ''plugin protocol error: '' @ m"
| "show_plugin_error (PlugCrashed m) = ''plugin crashed: '' @ m"
| "show_plugin_error PlugTimedOut = ''plugin invocation timed out''"
| "show_plugin_error (PlugCapabilityDenied m) = ''plugin capability denied: '' @ m"
| "show_plugin_error (PlugResourceExhausted m) = ''plugin resource limit exceeded: '' @ m"
| "show_plugin_error (PlugDuplicate i) = ''plugin '' @ show_id ''plugin'' i @ '' is already registered''"

fun show_mcp_error :: "(tool_error \<Rightarrow> string) \<Rightarrow> mcp_error \<Rightarrow> string" where
  "show_mcp_error tool (McpInvalid m) = ''invalid MCP contract: '' @ m"
| "show_mcp_error tool (McpUnsupportedVersion v) = ''unsupported MCP protocol version '' @ show_nat (unat v)"
| "show_mcp_error tool (McpUnsupportedWireVersion v) = ''unsupported MCP wire protocol version '' @ v"
| "show_mcp_error tool (McpTooLarge n) = ''MCP value is too large: '' @ show_nat n"
| "show_mcp_error tool (McpPlugin e) = ''MCP plugin error: '' @ show_plugin_error e"
| "show_mcp_error tool (McpTool e) = ''MCP tool policy error: '' @ tool e"

definition session_request :: "(tool_error \<Rightarrow> string)
    \<Rightarrow> (mcp_mode \<Rightarrow> plugin_request \<Rightarrow> 't \<Rightarrow> (u8 list, mcp_error) result \<times> 't) \<Rightarrow> plugin_request
    \<Rightarrow> 't mcp_session \<Rightarrow> (u8 list, plugin_error) result \<times> 't mcp_session" where
  "session_request tool send r s =
     (if \<not> ss_connected s then (Err (PlugProtocol ''MCP session is not connected''), s)
      else case plugin_request_validate default_limits r of
          Err e \<Rightarrow> (Err (PlugProtocol (show_plugin_error e)), s)
        | Ok _ \<Rightarrow> let (out, t) = send (ss_mode s) r (ss_transport s)
            in (map_err (\<lambda>e. PlugProtocol (show_mcp_error tool e)) out, s\<lparr>ss_transport := t\<rparr>))"

section \<open>The adapter\<close>

record 'i mcp_adapter =
  ma_manifest :: plugin_manifest
  ma_server :: mcp_server_info
  ma_invoker :: 'i

definition mcp_adapter_new :: "plugin_manifest \<Rightarrow> mcp_server_info \<Rightarrow> 'i \<Rightarrow> ('i mcp_adapter, mcp_error) result" where
  "mcp_adapter_new m server i =
     and_then (map_err McpPlugin (manifest_validate m)) (\<lambda>_.
     if pm_kind m \<noteq> KindMcp then Err (McpInvalid ''MCP adapter requires an MCP manifest'')
     else and_then (server_validate server) (\<lambda>_.
       Ok \<lparr>ma_manifest = m, ma_server = server, ma_invoker = i\<rparr>))"

definition mcp_invoke :: "(plugin_request \<Rightarrow> 'i \<Rightarrow> (u8 list, plugin_error) result \<times> 'i)
    \<Rightarrow> caller \<Rightarrow> plugin_manifest \<Rightarrow> plugin_request \<Rightarrow> 'i mcp_adapter
    \<Rightarrow> (plugin_response, plugin_error) result \<times> 'i mcp_adapter" where
  "mcp_invoke run cl m r p =
     (if m \<noteq> ma_manifest p
      then (Err (PlugProtocol ''invocation manifest does not match the bound MCP server''), p)
      else case and_then (authorize_manifest_with_ownership cl (ma_manifest p)) (\<lambda>_.
             plugin_request_validate (pm_limits (ma_manifest p)) r) of
          Err e \<Rightarrow> (Err e, p)
        | Ok _ \<Rightarrow> let (out, i) = run r (ma_invoker p)
            in (and_then out (\<lambda>payload.
                  let s = \<lparr>rs_id = rq_id r, rs_payload = payload, rs_origin = McpResult\<rparr>
                  in and_then (plugin_response_validate (pm_limits (ma_manifest p)) s) (\<lambda>_. Ok s)),
                p\<lparr>ma_invoker := i\<rparr>))"

interpretation mcp: plugin_transport ma_manifest "mcp_invoke run" for run
proof unfold_locales
  fix cl m r p
  show "ma_manifest (snd (mcp_invoke run cl m r p)) = ma_manifest p"
    by (simp add: mcp_invoke_def split: result.splits prod.splits)
next
  fix cl m r p
  show "snd (mcp_invoke run cl m r p) \<noteq> p \<or> is_ok (fst (mcp_invoke run cl m r p)) \<Longrightarrow>
      m = ma_manifest p \<and> (\<forall>c \<in> set (pm_capabilities m). permitted cl c)
      \<and> plugin_request_validate (pm_limits m) r = Ok ()"
    by (auto simp: mcp_invoke_def authorize_manifest_Ok split: if_splits result.splits)
next
  fix cl m r p s
  show "fst (mcp_invoke run cl m r p) = Ok s \<Longrightarrow>
      rs_id s = rq_id r \<and> length (rs_payload s) \<le> unat (rl_message_bytes (pm_limits (ma_manifest p)))
      \<and> \<not> is_trusted (rs_origin s)"
    by (auto simp: mcp_invoke_def Let_def response_Ok split: if_splits result.splits prod.splits)
qed

section \<open>Server-sent events\<close>

text \<open>\<open>buffer.windows(n).position\<close>: where a byte sequence first occurs.\<close>

fun window_position :: "u8 list \<Rightarrow> u8 list \<Rightarrow> nat option" where
  "window_position w [] = None"
| "window_position w (b # bs) =
     (if take (length w) (b # bs) = w then Some 0 else map_option Suc (window_position w bs))"

definition find_sse_event_end :: "u8 list \<Rightarrow> (nat \<times> nat) option" where
  "find_sse_event_end buffer =
     (case window_position [10, 10] buffer of
        Some i \<Rightarrow> Some (i, 2)
      | None \<Rightarrow> map_option (\<lambda>i. (i, 4)) (window_position [13, 10, 13, 10] buffer))"

definition strip_prefix :: "string \<Rightarrow> string \<Rightarrow> string option" where
  "strip_prefix prefix s = (if starts_with s prefix then Some (drop (length prefix) s) else None)"

definition strip_space :: "string \<Rightarrow> string" where
  "strip_space s = (case strip_prefix '' '' s of Some r \<Rightarrow> r | None \<Rightarrow> s)"

definition strip_return :: "string \<Rightarrow> string" where
  "strip_return s = (if s \<noteq> [] \<and> List.last s = char_of (13 :: nat) then butlast s else s)"

definition validate_sse_event_id :: "string \<Rightarrow> (unit, mcp_error) result" where
  "validate_sse_event_id s =
     (if MAX_DISCOVERY_CURSOR_BYTES < length s \<or> \<not> list_all (\<lambda>c. 33 \<le> (of_char c :: nat) \<and> (of_char c :: nat) \<le> 126) s
      then Err (McpInvalid ''MCP SSE event ID is not valid visible ASCII'') else Ok ())"

record 'v sse_event =
  ev_id :: "string option"
  ev_message :: "'v option"
  ev_retry_after_ms :: "nat option"

text \<open>The local variables of the loop over the lines: the data, the identifier and the delay so far.\<close>

definition sse_line :: "string \<times> string option \<times> nat option \<Rightarrow> string
    \<Rightarrow> (string \<times> string option \<times> nat option, mcp_error) result" where
  "sse_line = (\<lambda>(data, i, retry) line0. let line = strip_return line0 in
     case strip_prefix ''data:'' line of
       Some v \<Rightarrow> Ok ((if data = [] then data else data @ [char_of (10 :: nat)]) @ strip_space v, i, retry)
     | None \<Rightarrow> (case strip_prefix ''id:'' line of
           Some v \<Rightarrow> and_then (validate_sse_event_id (strip_space v)) (\<lambda>_. Ok (data, Some (strip_space v), retry))
         | None \<Rightarrow> (case strip_prefix ''retry:'' line of
               Some v \<Rightarrow> (case parse_usize (trim (strip_space v)) of
                   Some n \<Rightarrow> Ok (data, i, Some (min n MAX_SSE_RETRY_DELAY_MS))
                 | None \<Rightarrow> Ok (data, i, retry))
             | None \<Rightarrow> Ok (data, i, retry))))"

definition parse_sse_event :: "(string \<Rightarrow> 'v option) \<Rightarrow> u8 list \<Rightarrow> ('v sse_event, mcp_error) result" where
  "parse_sse_event json event =
     and_then (ok_or (from_utf8 event) (McpInvalid ''MCP HTTP SSE event is not UTF-8'')) (\<lambda>s.
     and_then (try_fold sse_line ([], None, None) (split_on {char_of (10 :: nat)} s)) (\<lambda>(data, i, retry).
     if trim_is_empty data then Ok \<lparr>ev_id = i, ev_message = None, ev_retry_after_ms = retry\<rparr>
     else and_then (ok_or (json data) (McpInvalid ''MCP HTTP SSE event data is not valid JSON'')) (\<lambda>v.
       Ok \<lparr>ev_id = i, ev_message = Some v, ev_retry_after_ms = retry\<rparr>)))"

definition update_sse_cursor :: "'v sse_event \<Rightarrow> string option \<times> nat option \<Rightarrow> string option \<times> nat option" where
  "update_sse_cursor e = (\<lambda>(last_id, retry).
     (case ev_id e of Some i \<Rightarrow> if i = [] then None else Some i | None \<Rightarrow> last_id,
      if ev_retry_after_ms e \<noteq> None then ev_retry_after_ms e else retry))"

section \<open>Properties of discovery and sessions\<close>

lemma list_page_bounded:
  "list_page item_validate listing cursor d = (Ok p, d') \<Longrightarrow>
     length (pg_items p) \<le> MAX_DISCOVERY_PAGE_ITEMS \<and> (\<forall>x \<in> set (pg_items p). item_validate x = Ok ())
     \<and> dc_page_size d' = dc_page_size d \<and> dc_server d' = dc_server d"
  by (auto simp: list_page_def page_validate_def validate_page_len_def try_all_Ok_iff split_beta Let_def
      split: result.splits if_splits)

text \<open>Whatever a server says of a tool, the capabilities, risk and trust come from the host's policy.\<close>

lemma bind_tool_policy:
  "bind_tool server d p = Ok (t, trust) \<Longrightarrow>
     td_capability t = tp_capability p \<and> td_risk t = tp_risk p \<and> td_required_fields t = tp_required_fields p
     \<and> trust = tp_trust_policy p \<and> tool_definition_validate t = Ok ()"
  by (auto simp: bind_tool_def Let_def)

inductive mcp_session_history :: "(mcp_mode \<Rightarrow> mcp_client_info \<Rightarrow> 't \<Rightarrow> (mcp_server_info, mcp_error) result \<times> 't)
    \<Rightarrow> (mcp_mode \<Rightarrow> 't \<Rightarrow> (unit, mcp_error) result \<times> 't)
    \<Rightarrow> (tool_error \<Rightarrow> string) \<Rightarrow> (mcp_mode \<Rightarrow> plugin_request \<Rightarrow> 't \<Rightarrow> (u8 list, mcp_error) result \<times> 't)
    \<Rightarrow> 't mcp_session \<Rightarrow> bool" for init inited tool send where
  created: "session_new mode client server t = Ok s \<Longrightarrow> mcp_session_history init inited tool send s"
| connected: "mcp_session_history init inited tool send s \<Longrightarrow> session_connect init inited s = (out, s') \<Longrightarrow>
    mcp_session_history init inited tool send s'"
| requested: "mcp_session_history init inited tool send s \<Longrightarrow> session_request tool send r s = (reply, s') \<Longrightarrow>
    mcp_session_history init inited tool send s'"

text \<open>A connected session speaks the version of its mode, with a server that passed the checks.\<close>

lemma mcp_session_negotiated:
  "mcp_session_history init inited tool send s \<Longrightarrow>
     server_validate (ss_server s) = Ok () \<and> client_validate (ss_client s) = Ok ()
     \<and> (ss_connected s \<longrightarrow> ss_negotiated s = Some (mode_version (ss_mode s)))"
proof (induction rule: mcp_session_history.induct)
  case (connected s out s')
  then show ?case
    by (cases "ss_mode s")
      (auto simp: session_connect_def negotiate_def validate_negotiated_def Let_def split_beta
        split: if_splits result.splits)
next
  case (requested s r reply s')
  then show ?case
    by (auto simp: session_request_def Let_def split_beta split: if_splits result.splits)
qed (auto simp: session_new_def)

text \<open>An event that ends with returns is not seen before a later one that does not: they merge.\<close>

lemma mixed_line_ends_merge:
  "find_sse_event_end (as_bytes ''data:1'' @ [13, 10, 13, 10] @ as_bytes ''data:2'' @ [10, 10]) = Some (16, 2)"
  by (simp add: find_sse_event_end_def as_bytes_def)

end
