(* ===== verification/Plugin_Discovery.thy ===== *)
theory Plugin_Discovery
  imports Plugin_Contracts Terminal_Plan
begin

text \<open>
  Discovery of plugins (\<^verbatim>\<open>crates/plugin-discovery\<close>): the line-oriented manifest format, the walk
  over the configured directories, and the check before activation that the manifest is still the
  one that was found. What the file system answers is a set of functions: the entries of a
  directory, the kind and size of a file, its bytes.
\<close>

section \<open>Policies and candidates\<close>

definition MANIFEST_FILE_NAME :: string where "MANIFEST_FILE_NAME = ''orynth-plugin.manifest''"
definition MAX_DISCOVERY_FILES :: nat where "MAX_DISCOVERY_FILES = 256"
definition MAX_MANIFEST_BYTES :: nat where "MAX_MANIFEST_BYTES = 64 * 1024"
definition MAX_MANIFEST_LINES :: nat where "MAX_MANIFEST_LINES = 256"
definition MAX_LINE_BYTES :: nat where "MAX_LINE_BYTES = 4096"

datatype discovery_error =
    DiscInvalid string
  | DiscTooLarge usize
  | DiscTooMany usize
  | DiscDuplicate plugin_id
  | DiscIo string string
  | DiscPlugin plugin_error

record discovery_policy =
  dp_max_files :: nat
  dp_max_manifest_bytes :: nat
  dp_allowed_kinds :: "plugin_kind list option"

definition default_discovery_policy :: discovery_policy where
  "default_discovery_policy = \<lparr>dp_max_files = MAX_DISCOVERY_FILES,
     dp_max_manifest_bytes = MAX_MANIFEST_BYTES, dp_allowed_kinds = None\<rparr>"

definition discovery_policy_validate :: "discovery_policy \<Rightarrow> (unit, discovery_error) result" where
  "discovery_policy_validate p =
     (if dp_max_files p = 0 \<or> MAX_DISCOVERY_FILES < dp_max_files p
      then Err (DiscInvalid ''discovery file limit is invalid'')
      else if dp_max_manifest_bytes p = 0 \<or> MAX_MANIFEST_BYTES < dp_max_manifest_bytes p
      then Err (DiscInvalid ''discovery manifest byte limit is invalid'')
      else if dp_allowed_kinds p = Some [] then Err (DiscInvalid ''allowed plugin kinds must not be empty'')
      else Ok ())"

definition discovery_permits :: "discovery_policy \<Rightarrow> plugin_kind \<Rightarrow> bool" where
  "discovery_permits p k = (case dp_allowed_kinds p of None \<Rightarrow> True | Some ks \<Rightarrow> k \<in> set ks)"

record discovered_plugin =
  dv_manifest :: plugin_manifest
  dv_source :: string
  dv_manifest_limit :: nat
  dv_entrypoint :: "string option"

section \<open>The manifest format\<close>

text \<open>\<open>str::lines\<close>, \<open>str::split_once\<close> and \<open>parse\<close> of an unsigned number below a power of two.\<close>

definition str_lines :: "string \<Rightarrow> string list" where
  "str_lines s =
     (let ps = split_on {char_of (10 :: nat)} s;
          chop = (\<lambda>l. if l \<noteq> [] \<and> List.last l = char_of (13 :: nat) then butlast l else l)
      in map chop (butlast ps) @ (if List.last ps = [] then [] else [List.last ps]))"

fun split_once :: "char \<Rightarrow> string \<Rightarrow> (string \<times> string) option" where
  "split_once c [] = None"
| "split_once c (d # s) = (if d = c then Some ([], s) else map_option (\<lambda>(a, b). (d # a, b)) (split_once c s))"

fun parse_digits_below :: "nat \<Rightarrow> nat \<Rightarrow> string \<Rightarrow> nat option" where
  "parse_digits_below limit n [] = Some n"
| "parse_digits_below limit n (c # s) = (case digit_value c of
      None \<Rightarrow> None
    | Some d \<Rightarrow> if limit \<le> 10 * n + d then None else parse_digits_below limit (10 * n + d) s)"

definition parse_unsigned :: "nat \<Rightarrow> string \<Rightarrow> nat option" where
  "parse_unsigned limit s = (let digits = (case s of c # r \<Rightarrow> if c = CHR ''+'' then r else s | [] \<Rightarrow> s)
     in if digits = [] then None else parse_digits_below limit 0 digits)"

definition parse_domain :: "string \<Rightarrow> (capability_domain, discovery_error) result" where
  "parse_domain v =
     (if v = ''filesystem'' then Ok Filesystem
      else if v = ''process'' then Ok Process
      else if v = ''network'' then Ok Network
      else if v = ''secrets'' then Ok Secrets
      else if v = ''plugins'' then Ok Plugins
      else if v = ''external_services'' then Ok ExternalServices
      else Err (DiscInvalid ''unknown capability domain''))"

definition parse_kind :: "string \<Rightarrow> (plugin_kind, discovery_error) result" where
  "parse_kind v =
     (if v = ''builtin'' then Ok KindBuiltin
      else if v = ''native'' then Ok KindNative
      else if v = ''process'' then Ok KindProcess
      else if v = ''mcp'' then Ok KindMcp
      else if v = ''wasm'' then Ok KindWasm
      else Err (DiscInvalid ''unknown plugin kind''))"

definition parse_capability :: "string \<Rightarrow> (plugin_capability, discovery_error) result" where
  "parse_capability v =
     and_then (ok_or (split_once (CHR '':'') v) (DiscInvalid ''capability must be domain:resource'')) (\<lambda>(domain, resource).
     if trim resource = [] then Err (DiscInvalid ''capability resource is empty'')
     else and_then (parse_domain (trim domain)) (\<lambda>d. Ok \<lparr>pc_domain = d, pc_resource = trim resource\<rparr>))"

definition manifest_keys :: "string list" where
  "manifest_keys = [''protocol_version'', ''id'', ''name'', ''version'', ''kind'', ''entrypoint'',
     ''max_message_bytes'', ''max_memory_bytes'', ''max_fuel'', ''max_wall_time_ms'']"

text \<open>The body of the loop over the lines, on the fields and the capabilities found so far.\<close>

type_synonym manifest_fields = "(string, string) bmap \<times> plugin_capability list"

definition manifest_line :: "manifest_fields \<Rightarrow> string \<Rightarrow> (manifest_fields, discovery_error) result" where
  "manifest_line = (\<lambda>(found, capabilities) line0. let line = trim line0 in
     if line = [] \<or> starts_with line ''#'' then Ok (found, capabilities)
     else and_then (ok_or (split_once (CHR ''='') line) (DiscInvalid (''manifest line must contain '' @ [char_of (39 :: nat), CHR ''='', char_of (39 :: nat)]))) (\<lambda>(key0, v0).
       let key = trim key0; v = trim v0 in
       if key = [] \<or> v = [] then Err (DiscInvalid ''manifest key and value are required'')
       else if key = ''capability'' then
         and_then (parse_capability v) (\<lambda>c. Ok (found, capabilities @ [c]))
       else if key \<notin> set manifest_keys then Err (DiscInvalid ''unknown manifest field'')
       else if bm_contains_key found key then Err (DiscInvalid ''manifest field is duplicated'')
       else Ok (bm_insert key v found, capabilities)))"

fun manifest_loop :: "nat \<Rightarrow> manifest_fields \<Rightarrow> string list \<Rightarrow> (manifest_fields, discovery_error) result" where
  "manifest_loop index st [] = Ok st"
| "manifest_loop index st (line # rest) =
     (if MAX_MANIFEST_LINES \<le> index then Err (DiscTooLarge (index + 1))
      else if MAX_LINE_BYTES < length line then Err (DiscTooLarge (length line))
      else and_then (manifest_line st line) (\<lambda>st'. manifest_loop (index + 1) st' rest))"

definition required_string :: "(string, string) bmap \<Rightarrow> string \<Rightarrow> (string, discovery_error) result" where
  "required_string found key = ok_or (bm_get found key) (DiscInvalid ''required manifest field is missing'')"

definition parse_required :: "nat \<Rightarrow> (string, string) bmap \<Rightarrow> string \<Rightarrow> (nat, discovery_error) result" where
  "parse_required limit found key =
     and_then (required_string found key) (\<lambda>v.
       ok_or (parse_unsigned limit v) (DiscInvalid ''manifest number is invalid''))"

definition manifest_of_fields :: "manifest_fields \<Rightarrow> (plugin_manifest, discovery_error) result" where
  "manifest_of_fields = (\<lambda>(found, capabilities).
     and_then (parse_required (2 ^ 16) found ''protocol_version'') (\<lambda>protocol.
     and_then (parse_required (2 ^ 64) found ''id'') (\<lambda>i.
     and_then (required_string found ''name'') (\<lambda>name.
     and_then (required_string found ''version'') (\<lambda>version.
     and_then (required_string found ''kind'') (\<lambda>kind_name.
     and_then (parse_kind kind_name) (\<lambda>kind.
     and_then (parse_required (2 ^ 32) found ''max_message_bytes'') (\<lambda>message_bytes.
     and_then (parse_required (2 ^ 64) found ''max_memory_bytes'') (\<lambda>memory_bytes.
     and_then (parse_required (2 ^ 64) found ''max_fuel'') (\<lambda>fuel.
     and_then (parse_required (2 ^ 64) found ''max_wall_time_ms'') (\<lambda>wall_time.
     Ok \<lparr>pm_id = of_nat i, pm_protocol_version = of_nat protocol, pm_name = name, pm_version = version,
       pm_kind = kind, pm_capabilities = capabilities,
       pm_limits = \<lparr>rl_message_bytes = of_nat message_bytes, rl_memory_bytes = of_nat memory_bytes,
         rl_fuel = of_nat fuel, rl_wall_time_ms = of_nat wall_time\<rparr>\<rparr>)))))))))))"

definition parse_manifest_with_entrypoint :: "u8 list
    \<Rightarrow> (plugin_manifest \<times> string option, discovery_error) result" where
  "parse_manifest_with_entrypoint bytes =
     (if MAX_MANIFEST_BYTES < length bytes then Err (DiscTooLarge (length bytes))
      else and_then (ok_or (from_utf8 bytes) (DiscInvalid ''manifest is not UTF-8'')) (\<lambda>s.
        and_then (manifest_loop 0 (bm_empty, []) (str_lines s)) (\<lambda>(found, capabilities).
        and_then (manifest_of_fields (found, capabilities)) (\<lambda>m.
        and_then (map_err DiscPlugin (manifest_validate m)) (\<lambda>_.
        if pm_protocol_version m \<noteq> PLUGIN_PROTOCOL_VERSION
        then Err (DiscPlugin (PlugUnsupportedVersion (pm_protocol_version m)))
        else let entrypoint = bm_get found ''entrypoint''
          in if entrypoint = Some [] then Err (DiscInvalid ''plugin entrypoint is empty'')
             else Ok (m, entrypoint))))))"

definition parse_manifest :: "u8 list \<Rightarrow> (plugin_manifest, discovery_error) result" where
  "parse_manifest bytes = and_then (parse_manifest_with_entrypoint bytes) (\<lambda>(m, _). Ok m)"

section \<open>Directories\<close>

datatype file_kind = RegularFile | SymbolicLink | OtherFile

record dir_entry =
  de_name :: string
  de_path :: string
  de_kind :: "(file_kind, string) result"

record file_system =
  fsy_read_dir :: "string \<Rightarrow> ((dir_entry, string) result list, string) result"
  fsy_size :: "string \<Rightarrow> (nat, string) result"
  fsy_kind :: "string \<Rightarrow> (file_kind, string) result"
  fsy_read :: "string \<Rightarrow> (u8 list, string) result"

definition read_bounded_file :: "file_system \<Rightarrow> string \<Rightarrow> nat \<Rightarrow> (u8 list, discovery_error) result" where
  "read_bounded_file fsy path max_bytes =
     (if 2 ^ 64 \<le> max_bytes + 1 then Err (DiscTooLarge max_bytes)
      else and_then (map_err (DiscIo path) (fsy_read fsy path)) (\<lambda>content.
        let bytes = take (max_bytes + 1) content
        in if max_bytes < length bytes then Err (DiscTooLarge (length bytes)) else Ok bytes))"

text \<open>The entries of one directory that are manifests; \<open>seen\<close> counts the candidates so far.\<close>

definition manifest_entry :: "discovery_policy \<Rightarrow> string \<Rightarrow> nat \<Rightarrow> string list \<Rightarrow> (dir_entry, string) result
    \<Rightarrow> (string list, discovery_error) result" where
  "manifest_entry p root seen paths e =
     and_then (map_err (DiscIo root) e) (\<lambda>entry.
     if de_name entry \<noteq> MANIFEST_FILE_NAME then Ok paths
     else and_then (map_err (DiscIo (de_path entry)) (de_kind entry)) (\<lambda>kind.
       if kind \<noteq> RegularFile then Ok paths
       else if dp_max_files p \<le> seen + length paths then Err (DiscTooMany (seen + length paths + 1))
       else Ok (paths @ [de_path entry])))"

definition read_candidate :: "file_system \<Rightarrow> discovery_policy \<Rightarrow> discovered_plugin list \<Rightarrow> string
    \<Rightarrow> (discovered_plugin list, discovery_error) result" where
  "read_candidate fsy p found path =
     and_then (map_err (DiscIo path) (fsy_size fsy path)) (\<lambda>size.
     if dp_max_manifest_bytes p < size then Err (DiscTooLarge size)
     else and_then (read_bounded_file fsy path (dp_max_manifest_bytes p)) (\<lambda>bytes.
       and_then (parse_manifest_with_entrypoint bytes) (\<lambda>(m, entrypoint).
       if \<not> discovery_permits p (pm_kind m) then Ok found
       else if pm_id m \<in> set (map (\<lambda>c. pm_id (dv_manifest c)) found) then Err (DiscDuplicate (pm_id m))
       else Ok (found @ [\<lparr>dv_manifest = m, dv_source = path, dv_manifest_limit = dp_max_manifest_bytes p,
              dv_entrypoint = entrypoint\<rparr>]))))"

definition discover_root :: "file_system \<Rightarrow> discovery_policy \<Rightarrow> discovered_plugin list \<Rightarrow> string
    \<Rightarrow> (discovered_plugin list, discovery_error) result" where
  "discover_root fsy p found root =
     and_then (map_err (DiscIo root) (fsy_read_dir fsy root)) (\<lambda>entries.
     and_then (try_fold (manifest_entry p root (length found)) [] entries) (\<lambda>paths.
       try_fold (read_candidate fsy p) found (sort paths)))"

definition discover_directories :: "file_system \<Rightarrow> string list \<Rightarrow> discovery_policy
    \<Rightarrow> (discovered_plugin list, discovery_error) result" where
  "discover_directories fsy roots p =
     and_then (discovery_policy_validate p) (\<lambda>_. try_fold (discover_root fsy p) [] roots)"

definition revalidate_discovered_plugin :: "file_system \<Rightarrow> discovered_plugin
    \<Rightarrow> (plugin_manifest \<times> string option, discovery_error) result" where
  "revalidate_discovered_plugin fsy c =
     (if dv_manifest_limit c = 0 \<or> MAX_MANIFEST_BYTES < dv_manifest_limit c
      then Err (DiscInvalid ''discovered manifest limit is invalid'')
      else and_then (map_err (DiscIo (dv_source c)) (fsy_kind fsy (dv_source c))) (\<lambda>kind.
        if kind \<noteq> RegularFile then Err (DiscInvalid ''discovered plugin manifest is not a regular file'')
        else and_then (read_bounded_file fsy (dv_source c) (dv_manifest_limit c)) (\<lambda>bytes.
          and_then (parse_manifest_with_entrypoint bytes) (\<lambda>(m, entrypoint).
          if m \<noteq> dv_manifest c \<or> entrypoint \<noteq> dv_entrypoint c
          then Err (DiscInvalid ''discovered plugin metadata changed before activation'')
          else Ok (m, entrypoint)))))"

section \<open>What is discovered\<close>

lemma parse_manifest_valid:
  "parse_manifest_with_entrypoint bytes = Ok (m, entrypoint) \<Longrightarrow>
     manifest_validate m = Ok () \<and> length bytes \<le> MAX_MANIFEST_BYTES"
  by (auto simp: parse_manifest_with_entrypoint_def Let_def split: if_splits)

definition candidates_ok :: "file_system \<Rightarrow> discovery_policy \<Rightarrow> discovered_plugin list \<Rightarrow> bool" where
  "candidates_ok fsy p cs \<longleftrightarrow> distinct (map (\<lambda>c. pm_id (dv_manifest c)) cs)
     \<and> (\<forall>c \<in> set cs. manifest_validate (dv_manifest c) = Ok () \<and> discovery_permits p (pm_kind (dv_manifest c))
        \<and> dv_manifest_limit c = dp_max_manifest_bytes p
        \<and> (\<exists>bytes. fsy_read fsy (dv_source c) = Ok bytes \<and> length bytes \<le> dp_max_manifest_bytes p
             \<and> parse_manifest_with_entrypoint bytes = Ok (dv_manifest c, dv_entrypoint c)))"

lemma read_bounded_Ok:
  "read_bounded_file fsy path n = Ok bytes \<longleftrightarrow> fsy_read fsy path = Ok bytes \<and> length bytes \<le> n \<and> n + 1 < 2 ^ 64"
  by (cases "fsy_read fsy path") (auto simp: read_bounded_file_def Let_def min_def)

lemma read_candidate_ok:
  "read_candidate fsy p cs path = Ok cs' \<Longrightarrow> candidates_ok fsy p cs \<Longrightarrow> candidates_ok fsy p cs'"
  by (auto simp: read_candidate_def candidates_ok_def read_bounded_Ok split: if_splits)
    (frule parse_manifest_valid, simp)

lemma read_candidate_length: "read_candidate fsy p cs path = Ok cs' \<Longrightarrow> length cs' \<le> Suc (length cs)"
  by (auto simp: read_candidate_def split: if_splits)

lemma discover_root_ok:
  assumes "discover_root fsy p cs root = Ok cs'" and "candidates_ok fsy p cs"
  shows "candidates_ok fsy p cs'"
proof -
  from assms(1) obtain paths where "try_fold (read_candidate fsy p) cs (sort paths) = Ok cs'"
    by (auto simp: discover_root_def)
  then show ?thesis
    by (rule try_fold_invariant [where I = "candidates_ok fsy p"]) (auto simp: assms(2) intro: read_candidate_ok)
qed

lemma manifest_entries_length:
  assumes "try_fold (manifest_entry p root n) [] entries = Ok paths" and "n \<le> dp_max_files p"
  shows "n + length paths \<le> dp_max_files p"
  using assms(1)
  by (rule try_fold_invariant [where I = "\<lambda>paths. n + length paths \<le> dp_max_files p"])
    (auto simp: assms(2) manifest_entry_def split: if_splits)

lemma read_candidates_length:
  "try_fold (read_candidate fsy p) cs paths = Ok cs' \<Longrightarrow> length cs' \<le> length cs + length paths"
proof (induction paths arbitrary: cs)
  case (Cons path paths)
  then obtain cs1 where "read_candidate fsy p cs path = Ok cs1" "try_fold (read_candidate fsy p) cs1 paths = Ok cs'"
    by auto
  with Cons.IH [of cs1] read_candidate_length [of fsy p cs path cs1] show ?case by simp
qed simp

lemma discover_root_length:
  assumes "discover_root fsy p cs root = Ok cs'" and "length cs \<le> dp_max_files p"
  shows "length cs' \<le> dp_max_files p"
proof -
  from assms(1) obtain entries paths where
    "try_fold (manifest_entry p root (length cs)) [] entries = Ok paths"
    and "try_fold (read_candidate fsy p) cs (sort paths) = Ok cs'"
    by (auto simp: discover_root_def)
  with manifest_entries_length [of p root "length cs" entries paths] read_candidates_length [of fsy p cs "sort paths" cs']
    assms(2) show ?thesis by simp
qed

lemma discovered_sound:
  assumes "discover_directories fsy roots p = Ok cs"
  shows "candidates_ok fsy p cs" and "length cs \<le> dp_max_files p" and "dp_max_files p \<le> MAX_DISCOVERY_FILES"
proof -
  from assms have fold: "try_fold (discover_root fsy p) [] roots = Ok cs"
    and policy: "discovery_policy_validate p = Ok ()" by (auto simp: discover_directories_def)
  show "candidates_ok fsy p cs"
    using fold by (rule try_fold_invariant [where I = "candidates_ok fsy p"])
      (auto simp: candidates_ok_def [of fsy p "[]"] intro: discover_root_ok)
  show "length cs \<le> dp_max_files p"
    using fold by (rule try_fold_invariant [where I = "\<lambda>cs. length cs \<le> dp_max_files p"])
      (auto intro: discover_root_length)
  show "dp_max_files p \<le> MAX_DISCOVERY_FILES"
    using policy by (auto simp: discovery_policy_validate_def split: if_splits)
qed

text \<open>A candidate whose file has not changed is accepted again, one that has changed is not.\<close>

lemma revalidate_Ok:
  "revalidate_discovered_plugin fsy c = Ok r \<Longrightarrow> r = (dv_manifest c, dv_entrypoint c)
     \<and> manifest_validate (dv_manifest c) = Ok ()"
  by (auto simp: revalidate_discovered_plugin_def intro: parse_manifest_valid [THEN conjunct1] split: if_splits)

end
