(* ===== verification/Plugin_Host.thy ===== *)
theory Plugin_Host
  imports Plugin_Adapters Plugin_Mcp Plugin_Discovery
begin

text \<open>
  The host of plugins (\<^verbatim>\<open>crates/plugin-host\<close>): which discovered candidates are activated, how each
  kind is bound to its adapter, and the routing of calls. The outside of an adapter is an argument:
  the state a command process and a module carry, the compiler of modules, the connection to an
  MCP endpoint, \<open>is_absolute\<close> of a path and what the file system answers.
\<close>

section \<open>Policies\<close>

record activation_policy =
  ap_max_plugins :: nat
  ap_allowed_ids :: "plugin_id list option"
  ap_allowed_kinds :: "plugin_kind list option"

datatype host_error =
    HostInvalid string
  | HostTooMany usize
  | HostNotActivated plugin_id
  | HostDiscovery discovery_error
  | HostPlugin plugin_error
  | HostMcp mcp_error

definition default_activation_policy :: activation_policy where
  "default_activation_policy = \<lparr>ap_max_plugins = MAX_PLUGINS, ap_allowed_ids = None,
     ap_allowed_kinds = Some [KindProcess, KindWasm]\<rparr>"

definition activation_policy_validate :: "activation_policy \<Rightarrow> (unit, host_error) result" where
  "activation_policy_validate p =
     (if ap_max_plugins p = 0 \<or> MAX_PLUGINS < ap_max_plugins p
      then Err (HostInvalid ''activation plugin limit is invalid'')
      else if (case ap_allowed_ids p of None \<Rightarrow> False | Some ids \<Rightarrow> ids = [] \<or> MAX_PLUGINS < length ids)
      then Err (HostInvalid ''activation ID allowlist is invalid'')
      else if ap_allowed_kinds p = Some [] then Err (HostInvalid ''activation kind allowlist is invalid'')
      else Ok ())"

definition activation_permits :: "activation_policy \<Rightarrow> discovered_plugin \<Rightarrow> bool" where
  "activation_permits p c \<longleftrightarrow>
     (case ap_allowed_ids p of None \<Rightarrow> True | Some ids \<Rightarrow> pm_id (dv_manifest c) \<in> set ids)
     \<and> (case ap_allowed_kinds p of None \<Rightarrow> True | Some ks \<Rightarrow> pm_kind (dv_manifest c) \<in> set ks)"

record mcp_spec =
  sp_endpoint :: string
  sp_mode :: mcp_mode
  sp_client :: mcp_client_info
  sp_server :: mcp_server_info
  sp_timeout_nanos :: nat

definition mcp_spec_validate :: "mcp_spec \<Rightarrow> (unit, host_error) result" where
  "mcp_spec_validate s =
     (if trim_is_empty (sp_endpoint s) then Err (HostInvalid ''MCP activation endpoint is empty'')
      else if sp_timeout_nanos s = 0 then Err (HostInvalid ''MCP activation timeout is zero'')
      else map_err HostMcp (server_validate (sp_server s)))"

section \<open>Adapters of the three kinds\<close>

text \<open>
  \<open>CommandProcessInvoker\<close> requires the capability to run its program; what running it does is an
  argument. The world of a command is its program with the state \<open>'o\<close> outside.
\<close>

definition command_effects :: "string \<times> 'o \<Rightarrow> plugin_capability list" where
  "command_effects = (\<lambda>(program, _). [\<lparr>pc_domain = Process, pc_resource = program\<rparr>])"

datatype ('o, 'w, 't) activated_plugin =
    ActProcess "(string \<times> 'o) process_plugin"
  | ActMcp "'t mcp_session mcp_adapter"
  | ActWasm "'w wasm_plugin"

fun activated_manifest :: "('o, 'w, 't) activated_plugin \<Rightarrow> plugin_manifest" where
  "activated_manifest (ActProcess p) = pp_manifest p"
| "activated_manifest (ActMcp p) = ma_manifest p"
| "activated_manifest (ActWasm p) = wp_manifest p"

text \<open>The traits the adapters inject, and what activation asks of the outside.\<close>

record ('o, 'w, 't) outside =
  out_run :: "plugin_manifest \<Rightarrow> plugin_request \<Rightarrow> string \<times> 'o \<Rightarrow> (u8 list, plugin_error) result \<times> (string \<times> 'o)"
  out_execute :: "caller \<Rightarrow> plugin_manifest \<Rightarrow> plugin_request \<Rightarrow> 'w \<Rightarrow> (wasm_execution, plugin_error) result \<times> 'w"
  out_send :: "mcp_mode \<Rightarrow> plugin_request \<Rightarrow> 't \<Rightarrow> (u8 list, mcp_error) result \<times> 't"
  out_show_tool :: "tool_error \<Rightarrow> string"
  out_files :: file_system
  out_absolute :: "string \<Rightarrow> bool"
  out_show_io :: "discovery_error \<Rightarrow> string"
  out_process :: 'o
  out_compile :: "u8 list \<Rightarrow> ('w, plugin_error) result"
  out_connect :: "mcp_spec \<Rightarrow> plugin_manifest \<Rightarrow> caller \<Rightarrow> ('t mcp_session, mcp_error) result"

fun activated_invoke :: "('o, 'w, 't) outside \<Rightarrow> caller \<Rightarrow> plugin_manifest \<Rightarrow> plugin_request
    \<Rightarrow> ('o, 'w, 't) activated_plugin \<Rightarrow> (plugin_response, plugin_error) result \<times> ('o, 'w, 't) activated_plugin" where
  "activated_invoke ou cl m r (ActProcess p) =
     (let (s, q) = process_invoke command_effects (out_run ou) cl m r p in (s, ActProcess q))"
| "activated_invoke ou cl m r (ActMcp p) =
     (let (s, q) = mcp_invoke (session_request (out_show_tool ou) (out_send ou)) cl m r p in (s, ActMcp q))"
| "activated_invoke ou cl m r (ActWasm p) =
     (let (s, q) = wasm_invoke (out_execute ou) cl m r p in (s, ActWasm q))"

interpretation activated: plugin_transport activated_manifest "activated_invoke ou" for ou
proof unfold_locales
  fix cl m r p
  show "activated_manifest (snd (activated_invoke ou cl m r p)) = activated_manifest p"
    by (cases p) (simp_all add: split_beta Let_def process.keeps_manifest mcp.keeps_manifest wasm.keeps_manifest)
next
  fix cl m r p
  show "snd (activated_invoke ou cl m r p) \<noteq> p \<or> is_ok (fst (activated_invoke ou cl m r p)) \<Longrightarrow>
      m = activated_manifest p \<and> (\<forall>c \<in> set (pm_capabilities m). permitted cl c)
      \<and> plugin_request_validate (pm_limits m) r = Ok ()"
    using process.effect_permitted mcp.effect_permitted wasm.effect_permitted
    by (cases p) (simp_all add: split_beta Let_def, blast+)
next
  fix cl m r p s
  show "fst (activated_invoke ou cl m r p) = Ok s \<Longrightarrow>
      rs_id s = rq_id r \<and> length (rs_payload s) \<le> unat (rl_message_bytes (pm_limits (activated_manifest p)))
      \<and> \<not> is_trusted (rs_origin s)"
    using process.response_sound mcp.response_sound wasm.response_sound
    by (cases p) (simp_all add: split_beta Let_def, blast+)
qed

section \<open>Activation\<close>

definition validate_program_path :: "('o, 'w, 't) outside \<Rightarrow> string \<Rightarrow> (unit, plugin_error) result" where
  "validate_program_path ou path =
     (case fsy_kind (out_files ou) path of
        Err e \<Rightarrow> Err (PlugCrashed (''could not inspect process executable: '' @ e))
      | Ok k \<Rightarrow>
          if k = SymbolicLink then Err (PlugInvalid ''process executable may not be a symlink'')
          else if k \<noteq> RegularFile then Err (PlugInvalid ''process executable must be a regular file'')
          else Ok ())"

definition activate_discovered_process :: "bool \<Rightarrow> ('o, 'w, 't) outside \<Rightarrow> discovered_plugin
    \<Rightarrow> ((string \<times> 'o) process_plugin, plugin_error) result" where
  "activate_discovered_process win ou c =
     (if pm_kind (dv_manifest c) \<noteq> KindProcess
      then Err (PlugInvalid ''only process manifests can use the command process host'')
      else and_then (map_err (\<lambda>e. PlugProtocol (out_show_io ou e)) (revalidate_discovered_plugin (out_files ou) c))
        (\<lambda>(m, entrypoint).
        and_then (ok_or entrypoint (PlugInvalid ''discovered process has no entrypoint'')) (\<lambda>path.
        if \<not> out_absolute ou path then Err (PlugInvalid ''discovered process entrypoint must be absolute'')
        else and_then (validate_program_path ou path) (\<lambda>_.
          if path = [] then Err (PlugInvalid ''process command is empty'')
          else process_plugin_new win command_effects m (path, out_process ou)))))"

definition MAX_WASM_MODULE_BYTES :: nat where "MAX_WASM_MODULE_BYTES = 16 * 1024 * 1024"

definition wasmi_invoker_new :: "('o, 'w, 't) outside \<Rightarrow> u8 list \<Rightarrow> ('w, plugin_error) result" where
  "wasmi_invoker_new ou bytes =
     (if MAX_WASM_MODULE_BYTES < length bytes then Err (PlugTooLarge (length bytes)) else out_compile ou bytes)"

definition activate_discovered_wasm :: "('o, 'w, 't) outside \<Rightarrow> discovered_plugin
    \<Rightarrow> ('w wasm_plugin, plugin_error) result" where
  "activate_discovered_wasm ou c =
     (if pm_kind (dv_manifest c) \<noteq> KindWasm then Err (PlugInvalid ''only WASM manifests can use the Wasmi host'')
      else and_then (map_err (\<lambda>e. PlugProtocol (out_show_io ou e)) (revalidate_discovered_plugin (out_files ou) c))
        (\<lambda>(m, entrypoint).
        and_then (ok_or entrypoint (PlugInvalid ''discovered WASM plugin has no module entrypoint'')) (\<lambda>path.
        if \<not> out_absolute ou path
        then Err (PlugInvalid ''discovered WASM module entrypoint must be absolute'')
        else and_then (map_err (\<lambda>e. PlugProtocol (''could not inspect WASM module: '' @ e)) (fsy_kind (out_files ou) path))
          (\<lambda>k. if k \<noteq> RegularFile then Err (PlugInvalid ''WASM module entrypoint must be a regular file'')
            else and_then (map_err (\<lambda>e. PlugProtocol (''could not read WASM module: '' @ out_show_io ou e))
                (read_bounded_file (out_files ou) path MAX_WASM_MODULE_BYTES)) (\<lambda>bytes.
              and_then (wasmi_invoker_new ou bytes) (wasm_plugin_new m))))))"

definition activate_mcp_candidate :: "('o, 'w, 't) outside \<Rightarrow> discovered_plugin \<Rightarrow> mcp_spec option \<Rightarrow> caller option
    \<Rightarrow> (('o, 'w, 't) activated_plugin, host_error) result" where
  "activate_mcp_candidate ou c spec ctx =
     and_then (ok_or spec (HostInvalid ''MCP activation requires an explicit endpoint configuration'')) (\<lambda>spec.
     and_then (ok_or ctx (HostInvalid ''MCP activation requires an agent capability context'')) (\<lambda>cl.
     and_then (map_err HostDiscovery (revalidate_discovered_plugin (out_files ou) c)) (\<lambda>(m, _).
     and_then (map_err HostMcp (out_connect ou spec m cl)) (\<lambda>session.
     and_then (map_err HostMcp (mcp_adapter_new m (ss_server session) session)) (\<lambda>adapter.
     Ok (ActMcp adapter))))))"

definition activate_candidate :: "bool \<Rightarrow> ('o, 'w, 't) outside \<Rightarrow> discovered_plugin \<Rightarrow> mcp_spec option \<Rightarrow> caller option
    \<Rightarrow> (('o, 'w, 't) activated_plugin, host_error) result" where
  "activate_candidate win ou c spec ctx =
     (case pm_kind (dv_manifest c) of
        KindProcess \<Rightarrow> and_then (map_err HostPlugin (activate_discovered_process win ou c)) (\<lambda>p. Ok (ActProcess p))
      | KindWasm \<Rightarrow> and_then (map_err HostPlugin (activate_discovered_wasm ou c)) (\<lambda>p. Ok (ActWasm p))
      | KindMcp \<Rightarrow> activate_mcp_candidate ou c spec ctx
      | _ \<Rightarrow> Err (HostInvalid ''plugin kind has no host activation transport''))"

section \<open>The host\<close>

record ('o, 'w, 't) plugin_host =
  ph_plugins :: "(plugin_id, ('o, 'w, 't) activated_plugin) bmap"
  ph_max_plugins :: nat

definition host_new :: "('o, 'w, 't) plugin_host" where
  "host_new = \<lparr>ph_plugins = bm_empty, ph_max_plugins = MAX_PLUGINS\<rparr>"

definition host_with_max_plugins :: "nat \<Rightarrow> (('o, 'w, 't) plugin_host, host_error) result" where
  "host_with_max_plugins n =
     (if n = 0 \<or> MAX_PLUGINS < n then Err (HostInvalid ''host plugin limit is invalid'')
      else Ok \<lparr>ph_plugins = bm_empty, ph_max_plugins = n\<rparr>)"

definition check_mcp_spec :: "discovered_plugin list \<Rightarrow> plugin_id \<times> mcp_spec \<Rightarrow> (unit, host_error) result" where
  "check_mcp_spec selected = (\<lambda>(i, spec).
     and_then (mcp_spec_validate spec) (\<lambda>_.
     if list_ex (\<lambda>c. pm_id (dv_manifest c) = i \<and> pm_kind (dv_manifest c) = KindMcp) selected then Ok ()
     else Err (HostInvalid ''MCP activation spec targets a non-selected MCP plugin'')))"

definition check_mcp_specs :: "discovered_plugin list \<Rightarrow> (plugin_id, mcp_spec) bmap option
    \<Rightarrow> (unit, host_error) result" where
  "check_mcp_specs selected specs =
     (case specs of
        None \<Rightarrow> Ok ()
      | Some m \<Rightarrow> if MAX_PLUGINS < bm_len m then Err (HostTooMany (bm_len m))
          else try_all (check_mcp_spec selected) (bm_entries m))"

definition stage_candidate :: "bool \<Rightarrow> ('o, 'w, 't) outside \<Rightarrow> ('o, 'w, 't) plugin_host
    \<Rightarrow> (plugin_id, mcp_spec) bmap option \<Rightarrow> caller option \<Rightarrow> (plugin_id, ('o, 'w, 't) activated_plugin) bmap
    \<Rightarrow> discovered_plugin \<Rightarrow> ((plugin_id, ('o, 'w, 't) activated_plugin) bmap, host_error) result" where
  "stage_candidate win ou h specs ctx staged c =
     (let i = pm_id (dv_manifest c) in
      if bm_contains_key (ph_plugins h) i then Err (HostPlugin (PlugDuplicate i))
      else and_then (activate_candidate win ou c (case specs of None \<Rightarrow> None | Some m \<Rightarrow> bm_get m i) ctx)
        (\<lambda>p. Ok (bm_insert i p staged)))"

text \<open>The map extended by another one (\<open>BTreeMap::extend\<close>).\<close>

definition bm_extend :: "('k::linorder, 'v) bmap \<Rightarrow> ('k, 'v) bmap \<Rightarrow> ('k, 'v) bmap" where
  "bm_extend m n = foldl (\<lambda>m (k, v). bm_insert k v m) m (bm_entries n)"

definition activate_directories :: "bool \<Rightarrow> ('o, 'w, 't) outside \<Rightarrow> string list \<Rightarrow> discovery_policy \<Rightarrow> activation_policy
    \<Rightarrow> (plugin_id, mcp_spec) bmap option \<Rightarrow> caller option \<Rightarrow> ('o, 'w, 't) plugin_host
    \<Rightarrow> (nat, host_error) result \<times> ('o, 'w, 't) plugin_host" where
  "activate_directories win ou roots dp ap specs ctx h =
     (case and_then (activation_policy_validate ap) (\<lambda>_.
           and_then (map_err HostDiscovery (discover_directories (out_files ou) roots dp)) (\<lambda>candidates.
           let selected = filter (activation_permits ap) candidates;
               cumulative = bm_len (ph_plugins h) + length selected
           in and_then (check_mcp_specs selected specs) (\<lambda>_.
              if 2 ^ 64 \<le> cumulative then Err (HostTooMany (2 ^ 64 - 1))
              else if min (ap_max_plugins ap) (ph_max_plugins h) < cumulative then Err (HostTooMany cumulative)
              else try_fold (stage_candidate win ou h specs ctx) bm_empty selected))) of
        Err e \<Rightarrow> (Err e, h)
      | Ok staged \<Rightarrow> (Ok (bm_len staged), h\<lparr>ph_plugins := bm_extend (ph_plugins h) staged\<rparr>))"

definition host_deactivate :: "plugin_id \<Rightarrow> ('o, 'w, 't) plugin_host \<Rightarrow> bool \<times> ('o, 'w, 't) plugin_host" where
  "host_deactivate i h = (bm_contains_key (ph_plugins h) i, h\<lparr>ph_plugins := bm_remove i (ph_plugins h)\<rparr>)"

definition host_invoke :: "('o, 'w, 't) outside \<Rightarrow> plugin_id \<Rightarrow> caller \<Rightarrow> plugin_request \<Rightarrow> ('o, 'w, 't) plugin_host
    \<Rightarrow> (plugin_response, host_error) result \<times> ('o, 'w, 't) plugin_host" where
  "host_invoke ou i cl r h =
     (case bm_get (ph_plugins h) i of
        None \<Rightarrow> (Err (HostNotActivated i), h)
      | Some p \<Rightarrow> let (s, q) = activated_invoke ou cl (activated_manifest p) r p
          in (map_err HostPlugin s, h\<lparr>ph_plugins := bm_insert i q (ph_plugins h)\<rparr>))"

end
