(* ===== verification/Plugin_Manifest_Text.thy ===== *)
theory Plugin_Manifest_Text
  imports Plugin_Discovery
begin

text \<open>
  The manifest format as text. \<open>manifest_text\<close> writes a manifest the way the documentation of
  \<open>parse_manifest\<close> shows it; the parser reads every such text back, so nothing a valid manifest
  can say is out of its reach.
\<close>

section \<open>Texts without white space\<close>

definition printable :: "char \<Rightarrow> bool" where
  "printable c \<longleftrightarrow> 32 < (of_char c :: nat) \<and> (of_char c :: nat) < 128"

definition word_text :: "string \<Rightarrow> bool" where
  "word_text s \<longleftrightarrow> s \<noteq> [] \<and> list_all printable s"

lemma printable_no_space: "printable c \<Longrightarrow> white_space_at (map of_char (c # s)) = 0"
  by (auto simp: printable_def white_space_at_def split: list.splits)

lemma trim_printable: "list_all printable s \<Longrightarrow> trim s = s"
proof -
  have ends: "trim_end s = s" if "list_all printable s" for s
    using that by (induction s) (simp_all add: printable_no_space del: white_space_at_simps list.map)
  show "list_all printable s \<Longrightarrow> trim s = s"
    by (cases s) (simp_all add: trim_def ends printable_no_space del: white_space_at_simps list.map trim_end.simps)
qed

lemma word_text_utf8: "list_all printable s \<Longrightarrow> is_utf8 s"
  by (rule is_utf8_ascii) (auto simp: list_all_iff printable_def)

section \<open>Numbers\<close>

lemma parse_digits_append:
  "parse_digits_below limit n (s @ t) =
     (case parse_digits_below limit n s of None \<Rightarrow> None | Some m \<Rightarrow> parse_digits_below limit m t)"
  by (induction s arbitrary: n) (auto split: option.splits)

lemma digit_value_digit: "n < 10 \<Longrightarrow> digit_value (char_of (48 + n)) = Some n"
  by (simp add: digit_value_def)

lemma parse_digits_show: "n < limit \<Longrightarrow> parse_digits_below limit 0 (show_nat n) = Some n"
proof (induction n rule: show_nat.induct)
  case (1 n)
  show ?case
  proof (cases "n < 10")
    case True
    with 1 show ?thesis by (simp add: show_nat.simps [of n] digit_value_digit)
  next
    case False
    have "n div 10 < limit" using 1(2) by linarith
    with 1 False have "parse_digits_below limit 0 (show_nat (n div 10)) = Some (n div 10)" by blast
    with 1(2) False show ?thesis
      by (simp add: show_nat.simps [of n] parse_digits_append digit_value_digit)
  qed
qed

lemma show_nat_digits: "show_nat n \<noteq> [] \<and> (\<forall>c \<in> set (show_nat n). 48 \<le> (of_char c :: nat) \<and> (of_char c :: nat) \<le> 57)"
proof (induction n rule: show_nat.induct)
  case (1 n)
  then show ?case by (cases "n < 10") (auto simp: show_nat.simps [of n])
qed

lemma show_nat_word: "word_text (show_nat n)"
  using show_nat_digits [of n] by (force simp: word_text_def printable_def list_all_iff)

lemma parse_unsigned_show: "n < limit \<Longrightarrow> parse_unsigned limit (show_nat n) = Some n"
proof -
  assume n: "n < limit"
  obtain c s where cs: "show_nat n = c # s" using show_nat_digits [of n] by (cases "show_nat n") auto
  then have "48 \<le> (of_char c :: nat)" using show_nat_digits [of n] by simp
  then have "c \<noteq> CHR ''+''" by auto
  with parse_digits_show [OF n] cs show ?thesis by (simp add: parse_unsigned_def Let_def)
qed

section \<open>Lines\<close>

lemma str_lines_concat:
  assumes "\<forall>l \<in> set ls. list_all printable l"
  shows "str_lines (concat (map (\<lambda>l. l @ [char_of (10 :: nat)]) ls)) = ls"
proof -
  have clean: "set l \<inter> {char_of (10 :: nat)} = {}" if "list_all printable l" for l
    using that by (auto simp: list_all_iff printable_def)
  have "split_on {char_of (10 :: nat)} (concat (map (\<lambda>l. l @ [char_of (10 :: nat)]) ls)) = ls @ [[]]"
    using assms
  proof (induction ls)
    case (Cons l ls)
    then show ?case
      using split_on_append_sep [of l "{char_of (10 :: nat)}" "char_of (10 :: nat)" "concat (map (\<lambda>l. l @ [char_of (10 :: nat)]) ls)"] clean [of l]
      by simp
  qed simp
  moreover have "(if l \<noteq> [] \<and> List.last l = char_of (13 :: nat) then butlast l else l) = l"
    if "l \<in> set ls" for l
  proof (cases "l = []")
    case False
    then have "printable (List.last l)" using assms that last_in_set [of l] by (auto simp: list_all_iff)
    then show ?thesis by (auto simp: printable_def)
  qed simp
  ultimately show ?thesis by (simp add: str_lines_def map_idI)
qed

lemma split_once_at: "c \<notin> set a \<Longrightarrow> split_once c (a @ c # b) = Some (a, b)"
  by (induction a) auto

lemma manifest_loop_fold:
  "index + length ls \<le> MAX_MANIFEST_LINES \<Longrightarrow> \<forall>l \<in> set ls. length l \<le> MAX_LINE_BYTES \<Longrightarrow>
     manifest_loop index st ls = try_fold manifest_line st ls"
proof (induction ls arbitrary: index st)
  case (Cons l ls)
  then show ?case by (cases "manifest_line st l") (auto simp: not_less)
qed simp

lemma manifest_field:
  assumes "key \<in> set manifest_keys" and "word_text v" and "bm_get found key = None"
  shows "manifest_line (found, caps) (key @ ''='' @ v) = Ok (bm_insert key v found, caps)"
proof -
  have key: "list_all printable key" "key \<noteq> []" "CHR ''='' \<notin> set key" "hd key \<noteq> CHR ''#''" "key \<noteq> ''capability''"
    using assms(1) by (auto simp: manifest_keys_def printable_def)
  have line: "list_all printable (key @ ''='' @ v)"
    using key(1) assms(2) by (simp add: word_text_def printable_def)
  have "\<not> starts_with (key @ ''='' @ v) ''#''" using key(2,4) by (cases key) auto
  moreover have "split_once (CHR ''='') (key @ ''='' @ v) = Some (key, v)"
    using split_once_at [OF key(3)] by simp
  ultimately show ?thesis
    using assms key(2,5) trim_printable [OF line] trim_printable [OF key(1)] trim_printable [of v]
    by (simp add: manifest_line_def Let_def word_text_def bm_contains_key_def)
qed

fun domain_name :: "capability_domain \<Rightarrow> string" where
  "domain_name Filesystem = ''filesystem''"
| "domain_name Process = ''process''"
| "domain_name Network = ''network''"
| "domain_name Secrets = ''secrets''"
| "domain_name Plugins = ''plugins''"
| "domain_name ExternalServices = ''external_services''"

fun kind_name :: "plugin_kind \<Rightarrow> string" where
  "kind_name KindBuiltin = ''builtin''"
| "kind_name KindNative = ''native''"
| "kind_name KindProcess = ''process''"
| "kind_name KindMcp = ''mcp''"
| "kind_name KindWasm = ''wasm''"

lemma parse_domain_name: "parse_domain (domain_name d) = Ok d" by (cases d) (simp_all add: parse_domain_def)
lemma parse_kind_name: "parse_kind (kind_name k) = Ok k" by (cases k) (simp_all add: parse_kind_def)

lemma domain_name_word: "word_text (domain_name d)" "CHR '':'' \<notin> set (domain_name d)" "length (domain_name d) \<le> 17"
  by (cases d; simp add: word_text_def printable_def)+

lemma kind_name_word: "word_text (kind_name k)" "length (kind_name k) \<le> 7"
  by (cases k; simp add: word_text_def printable_def)+

definition capability_text :: "plugin_capability \<Rightarrow> string" where
  "capability_text c = ''capability='' @ domain_name (pc_domain c) @ '':'' @ pc_resource c"

lemma capability_text_printable: "word_text (pc_resource c) \<Longrightarrow> list_all printable (capability_text c)"
  using domain_name_word(1) [of "pc_domain c"] by (simp add: capability_text_def word_text_def printable_def)

lemma manifest_capability:
  assumes "word_text (pc_resource c)"
  shows "manifest_line (found, caps) (capability_text c) = Ok (found, caps @ [c])"
proof -
  let ?v = "domain_name (pc_domain c) @ '':'' @ pc_resource c"
  have v: "list_all printable ?v" "?v \<noteq> []"
    using domain_name_word(1) [of "pc_domain c"] assms by (simp_all add: word_text_def printable_def)
  have "split_once (CHR ''='') (''capability='' @ ?v) = Some (''capability'', ?v)"
    using split_once_at [of "CHR ''=''" "''capability''" ?v] by simp
  moreover have "split_once (CHR '':'') ?v = Some (domain_name (pc_domain c), pc_resource c)"
    using split_once_at [OF domain_name_word(2), of "pc_domain c" "pc_resource c"] by simp
  moreover have "trim (domain_name (pc_domain c)) = domain_name (pc_domain c)" "trim (pc_resource c) = pc_resource c"
    using domain_name_word(1) [of "pc_domain c"] assms by (simp_all add: word_text_def trim_printable)
  moreover have "trim ''capability'' = ''capability''" by (rule trim_printable) (simp add: printable_def)
  ultimately show ?thesis
    using trim_printable [OF capability_text_printable [OF assms]] trim_printable [OF v(1)] v(2) assms
    by (simp add: manifest_line_def Let_def capability_text_def parse_capability_def parse_domain_name word_text_def)
qed

lemma manifest_capabilities:
  "\<forall>c \<in> set cs. word_text (pc_resource c) \<Longrightarrow>
     try_fold manifest_line (found, caps) (map capability_text cs) = Ok (found, caps @ cs)"
  by (induction cs arbitrary: caps) (simp_all add: manifest_capability)

section \<open>The manifest as text\<close>

definition manifest_field_list :: "plugin_manifest \<Rightarrow> string option \<Rightarrow> (string \<times> string) list" where
  "manifest_field_list m entrypoint =
     [(''protocol_version'', show_nat (unat (pm_protocol_version m))),
      (''id'', show_nat (unat (pm_id m))),
      (''name'', pm_name m),
      (''version'', pm_version m),
      (''kind'', kind_name (pm_kind m)),
      (''max_message_bytes'', show_nat (unat (rl_message_bytes (pm_limits m)))),
      (''max_memory_bytes'', show_nat (unat (rl_memory_bytes (pm_limits m)))),
      (''max_fuel'', show_nat (unat (rl_fuel (pm_limits m)))),
      (''max_wall_time_ms'', show_nat (unat (rl_wall_time_ms (pm_limits m))))]
     @ (case entrypoint of None \<Rightarrow> [] | Some p \<Rightarrow> [(''entrypoint'', p)])"

definition manifest_lines :: "plugin_manifest \<Rightarrow> string option \<Rightarrow> string list" where
  "manifest_lines m entrypoint =
     map (\<lambda>(key, v). key @ ''='' @ v) (manifest_field_list m entrypoint) @ map capability_text (pm_capabilities m)"

definition manifest_text :: "plugin_manifest \<Rightarrow> string option \<Rightarrow> string" where
  "manifest_text m entrypoint = concat (map (\<lambda>l. l @ [char_of (10 :: nat)]) (manifest_lines m entrypoint))"

text \<open>A manifest whose texts are words, and fit a line and a file.\<close>

definition writable :: "plugin_manifest \<Rightarrow> string option \<Rightarrow> bool" where
  "writable m entrypoint \<longleftrightarrow> word_text (pm_name m) \<and> word_text (pm_version m)
     \<and> (\<forall>c \<in> set (pm_capabilities m). word_text (pc_resource c))
     \<and> (\<forall>p. entrypoint = Some p \<longrightarrow> word_text p)
     \<and> (\<forall>l \<in> set (manifest_lines m entrypoint). length l \<le> MAX_LINE_BYTES)
     \<and> length (manifest_text m entrypoint) \<le> MAX_MANIFEST_BYTES"

lemma field_list_words:
  assumes "writable m entrypoint" and "(key, v) \<in> set (manifest_field_list m entrypoint)"
  shows "key \<in> set manifest_keys" and "word_text v"
  using assms
  by (auto simp: manifest_field_list_def manifest_keys_def writable_def show_nat_word kind_name_word split: option.splits)

lemma fold_fields:
  "\<forall>(key, v) \<in> set fs. key \<in> set manifest_keys \<and> word_text v \<Longrightarrow> distinct (map fst fs) \<Longrightarrow>
   \<forall>(key, v) \<in> set fs. bm_get found key = None \<Longrightarrow>
     \<exists>found'. try_fold manifest_line (found, caps) (map (\<lambda>(key, v). key @ ''='' @ v) fs) = Ok (found', caps)
       \<and> (\<forall>key. bm_get found' key = (case map_of fs key of Some v \<Rightarrow> Some v | None \<Rightarrow> bm_get found key))"
proof (induction fs arbitrary: found)
  case (Cons f fs)
  obtain key v where f: "f = (key, v)" by (cases f)
  have line: "manifest_line (found, caps) (key @ ''='' @ v) = Ok (bm_insert key v found, caps)"
    using Cons.prems by (intro manifest_field) (auto simp: f)
  have fresh: "key \<notin> fst ` set fs" using Cons.prems(2) by (simp add: f)
  have "\<forall>(key', v') \<in> set fs. bm_get (bm_insert key v found) key' = None"
    using Cons.prems(3) fresh by (force simp: bm_get_insert)
  with Cons.IH [of "bm_insert key v found"] Cons.prems obtain found' where
    "try_fold manifest_line (bm_insert key v found, caps) (map (\<lambda>(key, v). key @ ''='' @ v) fs) = Ok (found', caps)"
    and get: "\<forall>k. bm_get found' k = (case map_of fs k of Some v \<Rightarrow> Some v | None \<Rightarrow> bm_get (bm_insert key v found) k)"
    by auto
  moreover have "map_of fs key = None" using fresh by (simp add: map_of_eq_None_iff)
  ultimately show ?case
    by (intro exI [of _ found']) (auto simp: f line [simplified] bm_get_insert split: option.splits)
qed simp

lemma manifest_lines_fold:
  assumes "writable m entrypoint" and "length (pm_capabilities m) \<le> MAX_CAPABILITIES"
  obtains found where "manifest_loop 0 (bm_empty, []) (manifest_lines m entrypoint) = Ok (found, pm_capabilities m)"
    and "\<And>key. bm_get found key = map_of (manifest_field_list m entrypoint) key"
proof -
  let ?fs = "manifest_field_list m entrypoint"
  have words: "\<forall>(key, v) \<in> set ?fs. key \<in> set manifest_keys \<and> word_text v"
    using field_list_words [OF assms(1)] by blast
  have distinct: "distinct (map fst ?fs)" by (simp add: manifest_field_list_def split: option.splits)
  from fold_fields [OF words distinct, of bm_empty "[]"] obtain found where
    fold: "try_fold manifest_line (bm_empty, []) (map (\<lambda>(key, v). key @ ''='' @ v) ?fs) = Ok (found, [])"
    and get: "\<forall>key. bm_get found key = (case map_of ?fs key of Some v \<Rightarrow> Some v | None \<Rightarrow> bm_get bm_empty key)"
    by (auto simp: bm_get_empty)
  have "length (manifest_lines m entrypoint) \<le> MAX_MANIFEST_LINES"
    using assms(2) by (simp add: manifest_lines_def manifest_field_list_def MAX_MANIFEST_LINES_def MAX_CAPABILITIES_def
        split: option.splits)
  then have "manifest_loop 0 (bm_empty, []) (manifest_lines m entrypoint)
      = try_fold manifest_line (bm_empty, []) (manifest_lines m entrypoint)"
    using assms(1) by (intro manifest_loop_fold) (simp_all add: writable_def)
  also have "\<dots> = Ok (found, pm_capabilities m)"
    using assms(1) fold manifest_capabilities [of "pm_capabilities m" found "[]"]
    by (simp add: manifest_lines_def try_fold_append writable_def)
  finally show ?thesis
    by (rule that) (simp add: get bm_get_empty split: option.splits)
qed

lemma manifest_lines_printable:
  assumes "writable m entrypoint" shows "\<forall>l \<in> set (manifest_lines m entrypoint). list_all printable l"
proof -
  have "list_all printable (key @ ''='' @ v)" if "(key, v) \<in> set (manifest_field_list m entrypoint)" for key v
    using field_list_words [OF assms that] by (auto simp: manifest_keys_def word_text_def printable_def)
  moreover have "list_all printable (capability_text c)" if "c \<in> set (pm_capabilities m)" for c
    using assms that by (intro capability_text_printable) (simp add: writable_def)
  ultimately show ?thesis by (auto simp: manifest_lines_def)
qed

lemma required_number:
  "map_of fs key = Some (show_nat (unat (w :: 'w::len word))) \<Longrightarrow> (\<And>k. bm_get found k = map_of fs k) \<Longrightarrow>
     parse_required (2 ^ LENGTH('w)) found key = Ok (unat w)"
  using unsigned_less [of w, where 'a = nat]
  by (simp add: parse_required_def required_string_def parse_unsigned_show)

text \<open>
  Every valid manifest whose names, versions and resources are words, and that fits the limits of
  a line and of a file, can be written down, with or without an entry point, and the parser reads
  the text back as exactly that manifest and entry point.
\<close>

theorem manifest_text_parses:
  assumes "writable m entrypoint" and "manifest_validate m = Ok ()"
  shows "parse_manifest_with_entrypoint (as_bytes (manifest_text m entrypoint)) = Ok (m, entrypoint)"
proof -
  have caps: "length (pm_capabilities m) \<le> MAX_CAPABILITIES" and version: "pm_protocol_version m = PLUGIN_PROTOCOL_VERSION"
    using assms(2) by (auto simp: manifest_validate_def split: if_splits)
  obtain found where
    loop: "manifest_loop 0 (bm_empty, []) (manifest_lines m entrypoint) = Ok (found, pm_capabilities m)"
    and get: "\<And>key. bm_get found key = map_of (manifest_field_list m entrypoint) key"
    using manifest_lines_fold [OF assms(1) caps] by blast
  have lines: "str_lines (manifest_text m entrypoint) = manifest_lines m entrypoint"
    unfolding manifest_text_def by (rule str_lines_concat [OF manifest_lines_printable [OF assms(1)]])
  have "\<forall>c \<in> set (manifest_text m entrypoint). (of_char c :: nat) < 128"
    using manifest_lines_printable [OF assms(1)] by (auto simp: manifest_text_def list_all_iff printable_def)
  then have utf8: "is_utf8 (manifest_text m entrypoint)" by (rule is_utf8_ascii)
  have numbers: "parse_required (2 ^ 16) found ''protocol_version'' = Ok (unat (pm_protocol_version m))"
    "parse_required (2 ^ 64) found ''id'' = Ok (unat (pm_id m))"
    "parse_required (2 ^ 32) found ''max_message_bytes'' = Ok (unat (rl_message_bytes (pm_limits m)))"
    "parse_required (2 ^ 64) found ''max_memory_bytes'' = Ok (unat (rl_memory_bytes (pm_limits m)))"
    "parse_required (2 ^ 64) found ''max_fuel'' = Ok (unat (rl_fuel (pm_limits m)))"
    "parse_required (2 ^ 64) found ''max_wall_time_ms'' = Ok (unat (rl_wall_time_ms (pm_limits m)))"
    using required_number [OF _ get, of "''protocol_version''" "pm_protocol_version m"]
      required_number [OF _ get, of "''id''" "pm_id m"]
      required_number [OF _ get, of "''max_message_bytes''" "rl_message_bytes (pm_limits m)"]
      required_number [OF _ get, of "''max_memory_bytes''" "rl_memory_bytes (pm_limits m)"]
      required_number [OF _ get, of "''max_fuel''" "rl_fuel (pm_limits m)"]
      required_number [OF _ get, of "''max_wall_time_ms''" "rl_wall_time_ms (pm_limits m)"]
    by (simp_all add: manifest_field_list_def)
  have strings: "required_string found ''name'' = Ok (pm_name m)" "required_string found ''version'' = Ok (pm_version m)"
    "required_string found ''kind'' = Ok (kind_name (pm_kind m))"
    by (simp_all add: required_string_def get manifest_field_list_def)
  have "manifest_of_fields (found, pm_capabilities m) = Ok m"
    unfolding manifest_of_fields_def by (simp add: numbers strings parse_kind_name del: power_numeral)
  moreover have "bm_get found ''entrypoint'' = entrypoint"
    by (simp add: get manifest_field_list_def split: option.splits)
  moreover have "entrypoint \<noteq> Some []" using assms(1) by (auto simp: writable_def word_text_def)
  ultimately show ?thesis
    using assms version utf8 loop lines
    by (simp add: parse_manifest_with_entrypoint_def writable_def length_as_bytes Let_def)
qed

end
