(* ===== verification/Plugin_Wire.thy ===== *)
theory Plugin_Wire
  imports Plugin_Contracts Wire
begin

text \<open>
  The protocol between the host and a plugin process (module \<open>wire\<close> of
  \<^verbatim>\<open>crates/plugin-process\<close>): framed requests and responses, and the bounded queue that holds
  the lines a process has sent until they are read. What a writer puts into the pipe is a list of
  bytes, a reader consumes the front of one.
\<close>

section \<open>Frames\<close>

definition WIRE_MAGIC :: "u8 list" where "WIRE_MAGIC = as_bytes ''ORYNTHP1''"
definition WIRE_VERSION :: u16 where "WIRE_VERSION = 1"
definition REQUEST_KIND :: u8 where "REQUEST_KIND = 0"
definition RESPONSE_KIND :: u8 where "RESPONSE_KIND = 1"
definition HEADER_BYTES :: nat where "HEADER_BYTES = 8 + 2 + 1 + 4"
definition REQUEST_FIXED_BYTES :: nat where "REQUEST_FIXED_BYTES = 2 + 8 + 8 + 4 + 4"
definition RESPONSE_FIXED_BYTES :: nat where "RESPONSE_FIXED_BYTES = 8 + 1 + 4"

record wire_request =
  wq_protocol_version :: u16
  wq_plugin :: plugin_id
  wq_request :: plugin_request

datatype wire_response =
    WireSuccess "u8 list"
  | WireCrashed string
  | WireTimedOut
  | WireProtocol string
  | WireResourceExhausted string

definition validate_frame_size :: "nat \<Rightarrow> nat \<Rightarrow> (unit, plugin_error) result" where
  "validate_frame_size body_len max_bytes =
     (if max_bytes + MAX_NAME_BYTES + max REQUEST_FIXED_BYTES RESPONSE_FIXED_BYTES < body_len
      then Err (PlugMessageTooLarge body_len) else Ok ())"

definition wire_header :: "u8 \<Rightarrow> nat \<Rightarrow> u8 list" where
  "wire_header kind body_len =
     WIRE_MAGIC @ to_le_bytes WIRE_VERSION @ [kind] @ to_le_bytes (of_nat body_len :: u32)"

text \<open>\<open>write_bytes\<close>, whose error is the message of an \<open>io::Error\<close>.\<close>

definition wire_write_bytes :: "u8 list \<Rightarrow> plugin_error writer" where
  "wire_write_bytes bs =
     (if 2 ^ 32 \<le> length bs then Err (PlugProtocol ''wire I/O failed: wire field too large'')
      else write_seq [write_u32 (of_nat (length bs)), Ok bs])"

definition wire_frame :: "u8 \<Rightarrow> nat \<Rightarrow> nat \<Rightarrow> plugin_error writer list \<Rightarrow> plugin_error writer" where
  "wire_frame kind body_len max_bytes parts =
     and_then (validate_frame_size body_len max_bytes) (\<lambda>_.
     if 2 ^ 32 \<le> body_len then Err (PlugTooLarge body_len)
     else write_seq (Ok (wire_header kind body_len) # parts))"

definition write_request :: "plugin_manifest \<Rightarrow> plugin_request \<Rightarrow> plugin_error writer" where
  "write_request m r =
     and_then (plugin_request_validate (pm_limits m) r) (\<lambda>_.
       wire_frame REQUEST_KIND (REQUEST_FIXED_BYTES + length (rq_method r) + length (rq_payload r))
         (unat (rl_message_bytes (pm_limits m)))
         [write_u16 (pm_protocol_version m), write_u64 (pm_id m), write_u64 (rq_id r),
          wire_write_bytes (as_bytes (rq_method r)), wire_write_bytes (rq_payload r)])"

fun response_status :: "wire_response \<Rightarrow> u8" where
  "response_status (WireSuccess _) = 0"
| "response_status (WireCrashed _) = 1"
| "response_status WireTimedOut = 2"
| "response_status (WireProtocol _) = 3"
| "response_status (WireResourceExhausted _) = 4"

fun response_payload :: "wire_response \<Rightarrow> u8 list" where
  "response_payload (WireSuccess p) = p"
| "response_payload (WireCrashed m) = as_bytes m"
| "response_payload WireTimedOut = []"
| "response_payload (WireProtocol m) = as_bytes m"
| "response_payload (WireResourceExhausted m) = as_bytes m"

definition write_response :: "u64 \<Rightarrow> wire_response \<Rightarrow> resource_limits \<Rightarrow> plugin_error writer" where
  "write_response request_id response l =
     (let payload = response_payload response in
      if unat (rl_message_bytes l) < length payload then Err (PlugMessageTooLarge (length payload))
      else wire_frame RESPONSE_KIND (RESPONSE_FIXED_BYTES + length payload) (unat (rl_message_bytes l))
        [write_u64 request_id, write_u8 (response_status response), wire_write_bytes payload])"

section \<open>Reading\<close>

text \<open>\<open>read_exact\<close> on what the peer has written: the bytes and what remains.\<close>

definition read_exact :: "nat \<Rightarrow> u8 list \<Rightarrow> (u8 list \<times> u8 list, plugin_error) result" where
  "read_exact n input =
     (if length input < n then Err (PlugProtocol ''wire I/O failed: failed to fill whole buffer'')
      else Ok (take n input, drop n input))"

definition read_wire_frame :: "u8 \<Rightarrow> nat \<Rightarrow> u8 list \<Rightarrow> (u8 list \<times> u8 list, plugin_error) result" where
  "read_wire_frame expected_kind max_bytes input =
     and_then (read_exact HEADER_BYTES input) (\<lambda>(header, rest).
       let version = from_le_bytes (take 2 (drop 8 header)) :: u16;
           body_len = unat (from_le_bytes (drop 11 header) :: u32)
       in if take 8 header \<noteq> WIRE_MAGIC then Err (PlugProtocol ''wire magic mismatch'')
          else if version \<noteq> WIRE_VERSION then Err (PlugUnsupportedVersion version)
          else if header ! 10 \<noteq> expected_kind then Err (PlugProtocol ''wire frame kind mismatch'')
          else and_then (validate_frame_size body_len max_bytes) (\<lambda>_. read_exact body_len rest))"

definition plug_take :: "nat \<Rightarrow> (u8 list, plugin_error) reader" where
  "plug_take = cursor_take (PlugProtocol ''wire offset overflow'') (PlugProtocol ''wire frame is truncated'')"

interpretation plug: byte_taker plug_take
  unfolding plug_take_def by (rule byte_taker_cursor_take)

definition plug_bytes :: "nat \<Rightarrow> (u8 list, plugin_error) reader" where
  "plug_bytes maximum = rd_bind (read_u32 plug_take) (\<lambda>n.
     if maximum < unat n then rd_fail (PlugMessageTooLarge (unat n)) else plug_take (unat n))"

definition plug_string :: "nat \<Rightarrow> (string, plugin_error) reader" where
  "plug_string maximum = rd_bind (plug_bytes maximum) (\<lambda>bs.
     rd_lift (ok_or (from_utf8 bs) (PlugProtocol ''wire string is not UTF-8'')))"

definition plug_finish :: "cursor \<Rightarrow> (unit, plugin_error) result" where
  "plug_finish = cursor_finish (PlugProtocol ''wire frame has trailing bytes'')"

definition request_body :: "resource_limits \<Rightarrow> (wire_request, plugin_error) reader" where
  "request_body l =
     rd_bind (read_u16 plug_take) (\<lambda>version.
     rd_bind (read_u64 plug_take) (\<lambda>plugin.
     if plugin = 0 then rd_fail (PlugProtocol ''wire plugin ID is zero'')
     else rd_bind (read_u64 plug_take) (\<lambda>request_id.
       rd_bind (plug_string MAX_NAME_BYTES) (\<lambda>method.
       rd_bind (plug_bytes (unat (rl_message_bytes l))) (\<lambda>payload.
       rd_return \<lparr>wq_protocol_version = version, wq_plugin = plugin,
         wq_request = \<lparr>rq_id = request_id, rq_method = method, rq_payload = payload\<rparr>\<rparr>)))))"

definition read_request :: "resource_limits \<Rightarrow> u8 list \<Rightarrow> (wire_request \<times> u8 list, plugin_error) result" where
  "read_request l input =
     and_then (read_wire_frame REQUEST_KIND (unat (rl_message_bytes l)) input) (\<lambda>(body, rest).
     and_then (request_body l (new_cursor body)) (\<lambda>(q, c).
     and_then (plug_finish c) (\<lambda>_.
     and_then (plugin_request_validate l (wq_request q)) (\<lambda>_. Ok (q, rest)))))"

definition wire_text :: "u8 list \<Rightarrow> (string, plugin_error) result" where
  "wire_text bs = ok_or (from_utf8 bs) (PlugProtocol ''wire error message is not UTF-8'')"

definition response_of :: "u8 \<Rightarrow> u8 list \<Rightarrow> (u8 list, plugin_error) result" where
  "response_of status payload =
     (if status = 0 then Ok payload
      else if status = 1 then and_then (wire_text payload) (\<lambda>m. Err (PlugCrashed m))
      else if status = 2 then Err PlugTimedOut
      else if status = 3 then and_then (wire_text payload) (\<lambda>m. Err (PlugProtocol m))
      else if status = 4 then and_then (wire_text payload) (\<lambda>m. Err (PlugResourceExhausted m))
      else Err (PlugProtocol ''unknown wire response status''))"

definition response_body :: "u64 \<Rightarrow> resource_limits \<Rightarrow> (u8 \<times> u8 list, plugin_error) reader" where
  "response_body expected l =
     rd_bind (read_u64 plug_take) (\<lambda>request_id.
     if request_id \<noteq> expected then rd_fail (PlugProtocol ''wire response request ID does not match'')
     else rd_bind (read_u8 plug_take) (\<lambda>status.
       rd_bind (plug_bytes (unat (rl_message_bytes l))) (\<lambda>payload. rd_return (status, payload))))"

definition read_response :: "u64 \<Rightarrow> resource_limits \<Rightarrow> u8 list \<Rightarrow> (u8 list, plugin_error) result" where
  "read_response expected l input =
     and_then (read_wire_frame RESPONSE_KIND (unat (rl_message_bytes l)) input) (\<lambda>(body, rest).
     and_then (response_body expected l (new_cursor body)) (\<lambda>((status, payload), c).
     and_then (plug_finish c) (\<lambda>_. response_of status payload)))"

section \<open>Reading back what was written\<close>

lemma wire_plug_bytes:
  assumes "length bs \<le> maximum" and "maximum < 2 ^ 32"
  shows "wire (wire_write_bytes bs) (plug_bytes maximum) bs"
proof -
  have len: "unat (of_nat (length bs) :: u32) = length bs"
    using assms by (simp add: unsigned_of_nat take_bit_nat_eq_self)
  have "wire (write_seq [write_u32 (of_nat (length bs)), Ok bs]) (plug_bytes maximum) bs"
    unfolding plug_bytes_def
    by (rule wire_field [OF plug.wire_u32])
      (simp add: len linorder_not_less [THEN iffD2, OF assms(1)], intro wire_single wireI, simp add: plug.take_reads)
  with assms show ?thesis by (simp add: wire_write_bytes_def)
qed

lemma wire_plug_string:
  assumes "length s \<le> maximum" and "maximum < 2 ^ 32" and "is_utf8 s"
  shows "wire (wire_write_bytes (as_bytes s)) (plug_string maximum) s"
  unfolding plug_string_def
  using assms by (intro wire_decoded [OF wire_plug_bytes]) (auto simp: from_utf8_as_bytes)

lemma header_parts:
  "take 8 (wire_header k n) = WIRE_MAGIC" "take 2 (drop 8 (wire_header k n)) = to_le_bytes WIRE_VERSION"
  "wire_header k n ! 10 = k" "drop 11 (wire_header k n) = to_le_bytes (of_nat n :: u32)"
  "length (wire_header k n) = HEADER_BYTES"
  by (simp_all add: wire_header_def WIRE_MAGIC_def HEADER_BYTES_def nth_append length_to_le_bytes)

text \<open>A frame whose parts have the announced length is read back, whatever follows it.\<close>

lemma wire_frame_read:
  assumes "wire_frame kind n max_bytes parts = Ok bs" and "\<And>body. write_seq parts = Ok body \<Longrightarrow> length body = n"
  obtains body where "write_seq parts = Ok body"
    and "read_wire_frame kind max_bytes (bs @ rest) = Ok (body, rest)"
proof -
  from assms(1) obtain body where body: "write_seq parts = Ok body" and bs: "bs = wire_header kind n @ body"
    and size: "validate_frame_size n max_bytes = Ok ()" "n < 2 ^ 32"
    by (auto simp: wire_frame_def write_seq.simps split: if_splits)
  have n: "length body = n" using assms(2) body by blast
  have len: "unat (of_nat n :: u32) = n" using size(2) by (simp add: unsigned_of_nat take_bit_nat_eq_self)
  have "read_wire_frame kind max_bytes (bs @ rest) = Ok (body, rest)"
    using n size by (simp add: read_wire_frame_def read_exact_def bs header_parts from_to_le_bytes len Let_def)
  with body show ?thesis by (rule that)
qed

lemma wire_write_bytes_length:
  "wire_write_bytes bs = Ok out \<Longrightarrow> length out = 4 + length bs"
  by (auto simp: wire_write_bytes_def write_seq.simps write_u32_def length_to_le_bytes split: if_splits)

lemma message_bytes_bound: "limits_validate l = Ok u \<Longrightarrow> unat (rl_message_bytes l) \<le> MAX_MESSAGE_BYTES"
  by (auto simp: limits_validate_def split: if_splits)

lemma plugin_request_OkD:
  assumes "plugin_request_validate l r = Ok u"
  shows "length (rq_method r) \<le> MAX_NAME_BYTES" "length (rq_payload r) \<le> unat (rl_message_bytes l)"
    "limits_validate l = Ok ()"
  using assms by (auto simp: plugin_request_validate_def validate_name_def split: if_splits)

section \<open>Round trips\<close>

lemma read_wire_frame_small:
  assumes "read_wire_frame k n input = Ok (body, rest)"
  shows "length body < 2 ^ 64"
proof -
  let ?w = "from_le_bytes (drop 11 (take HEADER_BYTES input)) :: u32"
  from assms have "length body \<le> unat ?w"
    by (auto simp: read_wire_frame_def read_exact_def Let_def split: if_splits)
  also have "unat ?w < 2 ^ 32" using unsigned_less [of ?w, where 'a = nat] by simp
  finally show ?thesis by simp
qed

lemma wire_request_body:
  assumes "plugin_request_validate (pm_limits m) r = Ok ()" and "pm_id m \<noteq> 0" and "is_utf8 (rq_method r)"
  shows "wire (write_seq [write_u16 (pm_protocol_version m), write_u64 (pm_id m), write_u64 (rq_id r),
      wire_write_bytes (as_bytes (rq_method r)), wire_write_bytes (rq_payload r)]) (request_body (pm_limits m))
    \<lparr>wq_protocol_version = pm_protocol_version m, wq_plugin = pm_id m, wq_request = r\<rparr>"
proof -
  note r = plugin_request_OkD [OF assms(1)]
  have max_bytes: "unat (rl_message_bytes (pm_limits m)) < 2 ^ 32"
    using message_bytes_bound [OF r(3)] by (simp add: MAX_MESSAGE_BYTES_def)
  show ?thesis
    unfolding request_body_def
    by (rule wire_field [OF plug.wire_u16], rule wire_field [OF plug.wire_u64], simp only: assms(2) if_False,
        rule wire_field [OF plug.wire_u64], rule wire_field [OF wire_plug_string [OF r(1) _ assms(3)]],
        simp add: MAX_NAME_BYTES_def, rule wire_field [OF wire_plug_bytes [OF r(2) max_bytes]], rule wire_end) simp
qed

text \<open>
  Requests on the wire. What the host writes for a request, with whatever follows it in the
  pipe, the process reads back as the same request of the same plugin, and nothing after it is
  consumed.
\<close>

theorem process_request_roundtrip:
  assumes "write_request m r = Ok bs" and "pm_id m \<noteq> 0" and "is_utf8 (rq_method r)"
  shows "read_request (pm_limits m) (bs @ rest) =
    Ok (\<lparr>wq_protocol_version = pm_protocol_version m, wq_plugin = pm_id m, wq_request = r\<rparr>, rest)"
proof -
  let ?fields = "[write_u16 (pm_protocol_version m), write_u64 (pm_id m), write_u64 (rq_id r),
      wire_write_bytes (as_bytes (rq_method r)), wire_write_bytes (rq_payload r)]"
  from assms(1) have valid: "plugin_request_validate (pm_limits m) r = Ok ()"
    and frame: "wire_frame REQUEST_KIND (REQUEST_FIXED_BYTES + length (rq_method r) + length (rq_payload r))
      (unat (rl_message_bytes (pm_limits m))) ?fields = Ok bs"
    by (auto simp: write_request_def)
  have "length body = REQUEST_FIXED_BYTES + length (rq_method r) + length (rq_payload r)"
    if "write_seq ?fields = Ok body" for body
    using that by (auto simp: write_seq.simps write_u16_def write_u64_def REQUEST_FIXED_BYTES_def
        length_to_le_bytes length_as_bytes dest!: wire_write_bytes_length)
  from wire_frame_read [OF frame this] obtain body where body: "write_seq ?fields = Ok body"
    and read: "read_wire_frame REQUEST_KIND (unat (rl_message_bytes (pm_limits m))) (bs @ rest) = Ok (body, rest)"
    by blast
  have small: "length body < 2 ^ 64" by (rule read_wire_frame_small [OF read])
  have "reads (request_body (pm_limits m)) body
      \<lparr>wq_protocol_version = pm_protocol_version m, wq_plugin = pm_id m, wq_request = r\<rparr>"
    by (rule wireD [OF wire_request_body [OF valid assms(2,3)] body])
  then obtain c where "request_body (pm_limits m) (new_cursor body) =
      Ok (\<lparr>wq_protocol_version = pm_protocol_version m, wq_plugin = pm_id m, wq_request = r\<rparr>, c)" "at c []"
    using at_new_cursor [OF small] unfolding reads_def by (metis append_Nil2)
  with read valid show ?thesis by (simp add: read_request_def plug_finish_def at_Nil_finish)
qed

text \<open>What a response means to the host.\<close>

fun response_result :: "wire_response \<Rightarrow> (u8 list, plugin_error) result" where
  "response_result (WireSuccess p) = Ok p"
| "response_result (WireCrashed m) = Err (PlugCrashed m)"
| "response_result WireTimedOut = Err PlugTimedOut"
| "response_result (WireProtocol m) = Err (PlugProtocol m)"
| "response_result (WireResourceExhausted m) = Err (PlugResourceExhausted m)"

fun response_utf8 :: "wire_response \<Rightarrow> bool" where
  "response_utf8 (WireCrashed m) = is_utf8 m"
| "response_utf8 (WireProtocol m) = is_utf8 m"
| "response_utf8 (WireResourceExhausted m) = is_utf8 m"
| "response_utf8 _ = True"

lemma response_of_written: "response_utf8 s \<Longrightarrow> response_of (response_status s) (response_payload s) = response_result s"
  by (cases s) (simp_all add: response_of_def wire_text_def from_utf8_as_bytes)

text \<open>
  Responses on the wire. The response a process writes to a request reaches the host as it was
  meant, a payload or the error it reports; a response to another request is refused.
\<close>

theorem process_response_roundtrip:
  assumes "write_response request_id s l = Ok bs" and "limits_validate l = Ok ()" and "response_utf8 s"
  shows "read_response expected l (bs @ rest) =
    (if expected = request_id then response_result s
     else Err (PlugProtocol ''wire response request ID does not match''))"
proof -
  let ?fields = "[write_u64 request_id, write_u8 (response_status s), wire_write_bytes (response_payload s)]"
  from assms(1) have size: "length (response_payload s) \<le> unat (rl_message_bytes l)"
    and frame: "wire_frame RESPONSE_KIND (RESPONSE_FIXED_BYTES + length (response_payload s))
      (unat (rl_message_bytes l)) ?fields = Ok bs"
    by (auto simp: write_response_def Let_def split: if_splits)
  have "length body = RESPONSE_FIXED_BYTES + length (response_payload s)" if "write_seq ?fields = Ok body" for body
    using that by (auto simp: write_seq.simps write_u8_def write_u64_def RESPONSE_FIXED_BYTES_def
        length_to_le_bytes dest!: wire_write_bytes_length)
  from wire_frame_read [OF frame this] obtain body where body: "write_seq ?fields = Ok body"
    and read: "read_wire_frame RESPONSE_KIND (unat (rl_message_bytes l)) (bs @ rest) = Ok (body, rest)"
    by blast
  have small: "length body < 2 ^ 64" by (rule read_wire_frame_small [OF read])
  have max_bytes: "unat (rl_message_bytes l) < 2 ^ 32"
    using message_bytes_bound [OF assms(2)] by (simp add: MAX_MESSAGE_BYTES_def)
  show ?thesis
  proof (cases "expected = request_id")
    case True
    have "wire (write_seq ?fields) (response_body expected l) (response_status s, response_payload s)"
      unfolding response_body_def
      by (rule wire_field [OF plug.wire_u64], simp only: True simp_thms if_False, rule wire_field [OF plug.wire_u8],
          rule wire_field [OF wire_plug_bytes [OF size max_bytes]], rule wire_end) simp
    from wireD [OF this body] obtain c where
      "response_body expected l (new_cursor body) = Ok ((response_status s, response_payload s), c)" "at c []"
      using at_new_cursor [OF small] unfolding reads_def by (metis append_Nil2)
    with read True show ?thesis
      by (simp add: read_response_def plug_finish_def at_Nil_finish response_of_written [OF assms(3)])
  next
    case False
    from body obtain tail where tail: "body = to_le_bytes request_id @ tail"
      by (auto simp: write_seq.simps write_u64_def)
    then obtain c where "read_u64 plug_take (new_cursor body) = Ok (request_id, c)"
      using at_new_cursor [OF small] plug.u64_reads [of request_id] unfolding reads_def by metis
    with read False show ?thesis
      by (simp add: read_response_def response_body_def rd_bind_def rd_fail_def)
  qed
qed

section \<open>The queue of responses\<close>

text \<open>
  \<open>BoundedResponseQueue\<close>: one thread pushes what it reads from the process, another pops. A push
  into a full queue waits (\<open>None\<close>); both hold the lock for a whole step, so a history of the queue
  is a sequence of steps. A pop that finds nothing gives up at its deadline.
\<close>

definition MAX_RESPONSE_QUEUE_FRAMES :: nat where "MAX_RESPONSE_QUEUE_FRAMES = 8"
definition MAX_RESPONSE_QUEUE_BYTES :: nat where "MAX_RESPONSE_QUEUE_BYTES = 8 * 1024 * 1024"

type_synonym queue_item = "(u8 list, string) result"

record response_queue =
  qu_items :: "queue_item list"
  qu_bytes :: nat
  qu_closed :: bool
  qu_max_frames :: nat
  qu_max_bytes :: nat

datatype queue_pop_error = QueueClosed | QueueTimeout

definition usize_saturate :: "nat \<Rightarrow> nat" where "usize_saturate n = min n (2 ^ 64 - 1)"

fun item_bytes :: "queue_item \<Rightarrow> nat" where
  "item_bytes (Ok bs) = length bs"
| "item_bytes (Err _) = 0"

definition queue_new :: "nat \<Rightarrow> response_queue" where
  "queue_new max_frame_bytes =
     \<lparr>qu_items = [], qu_bytes = 0, qu_closed = False, qu_max_frames = MAX_RESPONSE_QUEUE_FRAMES,
      qu_max_bytes = max (min (usize_saturate (max_frame_bytes * MAX_RESPONSE_QUEUE_FRAMES)) MAX_RESPONSE_QUEUE_BYTES)
        max_frame_bytes\<rparr>"

definition queue_full :: "queue_item \<Rightarrow> response_queue \<Rightarrow> bool" where
  "queue_full item q \<longleftrightarrow> qu_max_frames q \<le> length (qu_items q)
     \<or> qu_max_bytes q < usize_saturate (qu_bytes q + item_bytes item)"

definition queue_push :: "queue_item \<Rightarrow> response_queue \<Rightarrow> (bool \<times> response_queue) option" where
  "queue_push item q =
     (if \<not> qu_closed q \<and> queue_full item q then None
      else if qu_closed q then Some (False, q)
      else Some (True, q\<lparr>qu_bytes := usize_saturate (qu_bytes q + item_bytes item), qu_items := qu_items q @ [item]\<rparr>))"

definition queue_pop :: "response_queue \<Rightarrow> (queue_item, queue_pop_error) result \<times> response_queue" where
  "queue_pop q =
     (case qu_items q of
        item # items \<Rightarrow> (Ok item, q\<lparr>qu_items := items, qu_bytes := qu_bytes q - item_bytes item\<rparr>)
      | [] \<Rightarrow> (Err (if qu_closed q then QueueClosed else QueueTimeout), q))"

definition queue_close :: "response_queue \<Rightarrow> response_queue" where
  "queue_close q = q\<lparr>qu_closed := True\<rparr>"

text \<open>Histories, with what went in and what came out.\<close>

inductive queue_history :: "nat \<Rightarrow> queue_item list \<Rightarrow> queue_item list \<Rightarrow> response_queue \<Rightarrow> bool" for n where
  created: "queue_history n [] [] (queue_new n)"
| pushed: "queue_history n ins outs q \<Longrightarrow> queue_push item q = Some (ok, q') \<Longrightarrow>
    queue_history n (if ok then ins @ [item] else ins) outs q'"
| popped: "queue_history n ins outs q \<Longrightarrow> queue_pop q = (out, q') \<Longrightarrow>
    queue_history n ins (case out of Ok item \<Rightarrow> outs @ [item] | Err _ \<Rightarrow> outs) q'"
| closed: "queue_history n ins outs q \<Longrightarrow> queue_history n ins outs (queue_close q)"

lemma queue_history_inv:
  assumes "queue_history n ins outs q" and "n < 2 ^ 63"
  shows "ins = outs @ qu_items q" "qu_bytes q = sum_list (map item_bytes (qu_items q))"
    "length (qu_items q) \<le> MAX_RESPONSE_QUEUE_FRAMES" "qu_bytes q \<le> qu_max_bytes q"
    "qu_max_frames q = MAX_RESPONSE_QUEUE_FRAMES" "qu_max_bytes q = qu_max_bytes (queue_new n)"
proof -
  have "ins = outs @ qu_items q \<and> qu_bytes q = sum_list (map item_bytes (qu_items q))
      \<and> length (qu_items q) \<le> MAX_RESPONSE_QUEUE_FRAMES \<and> qu_bytes q \<le> qu_max_bytes q
      \<and> qu_max_frames q = MAX_RESPONSE_QUEUE_FRAMES \<and> qu_max_bytes q = qu_max_bytes (queue_new n)"
    using assms(1)
  proof (induction rule: queue_history.induct)
    case created
    then show ?case by (simp add: queue_new_def MAX_RESPONSE_QUEUE_FRAMES_def)
  next
    case (pushed ins outs q item ok q')
    have "qu_max_bytes q < 2 ^ 64 - 1"
      using pushed.IH assms(2) by (simp add: queue_new_def MAX_RESPONSE_QUEUE_BYTES_def)
    with pushed show ?case
      by (auto simp: queue_push_def queue_full_def usize_saturate_def split: if_splits)
  next
    case (popped ins outs q out q')
    then show ?case by (cases "qu_items q") (auto simp: queue_pop_def)
  next
    case (closed ins outs q)
    then show ?case by (simp add: queue_close_def)
  qed
  then show "ins = outs @ qu_items q" "qu_bytes q = sum_list (map item_bytes (qu_items q))"
    "length (qu_items q) \<le> MAX_RESPONSE_QUEUE_FRAMES" "qu_bytes q \<le> qu_max_bytes q"
    "qu_max_frames q = MAX_RESPONSE_QUEUE_FRAMES" "qu_max_bytes q = qu_max_bytes (queue_new n)"
    by simp_all
qed

text \<open>
  The queue between a process and the host. It hands out what was accepted in order, holds at
  most eight frames and its byte limit, and never blocks for good: when a push of a frame of legal
  size has to wait, there is something to pop, and once the queue is closed or drained it goes on.
\<close>

theorem response_queue_bounded:
  assumes "queue_history n ins outs q" and "n < 2 ^ 63"
  shows "ins = outs @ qu_items q \<and> length (qu_items q) \<le> MAX_RESPONSE_QUEUE_FRAMES
      \<and> sum_list (map item_bytes (qu_items q)) \<le> max MAX_RESPONSE_QUEUE_BYTES n
      \<and> (item_bytes item \<le> n \<longrightarrow> queue_push item q = None \<longrightarrow>
          (\<exists>out q'. queue_pop q = (Ok out, q') \<and> length (qu_items q') < length (qu_items q)))
      \<and> queue_push item (queue_close q) = Some (False, queue_close q)"
proof -
  note inv = queue_history_inv [OF assms]
  have bytes: "qu_max_bytes (queue_new n) \<le> max MAX_RESPONSE_QUEUE_BYTES n" "n \<le> qu_max_bytes (queue_new n)"
    by (auto simp: queue_new_def)
  have "\<exists>out q'. queue_pop q = (Ok out, q') \<and> length (qu_items q') < length (qu_items q)"
    if "item_bytes item \<le> n" "queue_push item q = None"
  proof -
    have "qu_items q \<noteq> []"
      using that inv bytes(2) by (auto simp: queue_push_def queue_full_def usize_saturate_def
          MAX_RESPONSE_QUEUE_FRAMES_def split: if_splits)
    then show ?thesis by (cases "qu_items q") (auto simp: queue_pop_def)
  qed
  with inv bytes(1) show ?thesis by (simp add: queue_push_def queue_close_def)
qed

end
