(* ===== verification/A2a.thy ===== *)
theory A2a
  imports Ipc
begin

text \<open>
  The crate \<^verbatim>\<open>crates/protocol-a2a\<close>: agent cards and messages of agents outside the runtime, and
  their translation into the envelopes of \<open>Ipc\<close>.
\<close>

section \<open>Cards and messages\<close>

definition A2A_PROTOCOL_VERSION :: u16 where "A2A_PROTOCOL_VERSION = 1"
definition A2A_MAX_TEXT_BYTES :: nat where "A2A_MAX_TEXT_BYTES = 64 * 1024"
definition MAX_PART_BYTES :: nat where "MAX_PART_BYTES = 1024 * 1024"

datatype a2a_error =
    A2aInvalid string
  | A2aUnsupportedVersion u16
  | A2aTooLarge usize
  | A2aIpc ipc_error

definition a2a_validate_text :: "string \<Rightarrow> string \<Rightarrow> (unit, a2a_error) result" where
  "a2a_validate_text field v =
     (if trim_is_empty v then Err (A2aInvalid field)
      else if A2A_MAX_TEXT_BYTES < length v then Err (A2aTooLarge (length v))
      else Ok ())"

record a2a_agent_card =
  ac_agent_id :: string
  ac_name :: string
  ac_endpoint :: string
  ac_skills :: "string list"

definition card_validate :: "a2a_agent_card \<Rightarrow> (unit, a2a_error) result" where
  "card_validate c =
     and_then (a2a_validate_text ''agent_id'' (ac_agent_id c)) (\<lambda>_.
     and_then (a2a_validate_text ''agent name'' (ac_name c)) (\<lambda>_.
     and_then (a2a_validate_text ''agent endpoint'' (ac_endpoint c)) (\<lambda>_.
     if 64 < length (ac_skills c) then Err (A2aTooLarge (length (ac_skills c)))
     else try_all (a2a_validate_text ''agent skill'') (ac_skills c))))"

definition card_origin :: "a2a_agent_card \<Rightarrow> trust_origin" where
  "card_origin c = RemoteAgent"

datatype a2a_message =
    A2aQuestion string string
  | A2aAnswer string string
  | A2aHandoff string
  | A2aWarning string string

fun a2a_message_validate :: "a2a_message \<Rightarrow> (unit, a2a_error) result" where
  "a2a_message_validate (A2aQuestion subject why) =
     and_then (a2a_validate_text ''question subject'' subject) (\<lambda>_. a2a_validate_text ''question why'' why)"
| "a2a_message_validate (A2aAnswer subject v) =
     and_then (a2a_validate_text ''answer subject'' subject) (\<lambda>_. a2a_validate_text ''answer value'' v)"
| "a2a_message_validate (A2aHandoff summary) = a2a_validate_text ''handoff summary'' summary"
| "a2a_message_validate (A2aWarning subject message) =
     and_then (a2a_validate_text ''warning subject'' subject)
       (\<lambda>_. a2a_validate_text ''warning message'' message)"

fun into_ipc :: "a2a_message \<Rightarrow> ipc_message" where
  "into_ipc (A2aQuestion subject why) = Question subject why"
| "into_ipc (A2aAnswer subject v) = Answer subject v None []"
| "into_ipc (A2aHandoff summary) = Handoff summary"
| "into_ipc (A2aWarning subject message) = Warning subject message"

section \<open>Envelopes\<close>

record a2a_envelope =
  ae_protocol_version :: u16
  ae_message_id :: string
  ae_external_agent :: string
  ae_task_id :: string
  ae_parts :: "u8 list"
  ae_message :: a2a_message

definition a2a_validate :: "a2a_envelope \<Rightarrow> (unit, a2a_error) result" where
  "a2a_validate e =
     (if ae_protocol_version e \<noteq> A2A_PROTOCOL_VERSION
      then Err (A2aUnsupportedVersion (ae_protocol_version e))
      else and_then (a2a_validate_text ''message ID'' (ae_message_id e)) (\<lambda>_.
        and_then (a2a_validate_text ''external agent'' (ae_external_agent e)) (\<lambda>_.
        and_then (a2a_validate_text ''task ID'' (ae_task_id e)) (\<lambda>_.
        if MAX_PART_BYTES < length (ae_parts e) then Err (A2aTooLarge (length (ae_parts e)))
        else a2a_message_validate (ae_message e)))))"

text \<open>\<open>to_ipc\<close>; the fresh identifier of the envelope is an argument.\<close>

definition to_ipc :: "message_id \<Rightarrow> a2a_envelope \<Rightarrow> run_id \<Rightarrow> task_id option \<Rightarrow> agent_id \<Rightarrow> agent_id
    \<Rightarrow> (ipc_envelope, a2a_error) result" where
  "to_ipc i e run t sender recipient =
     and_then (a2a_validate e) (\<lambda>_.
       let envelope = with_input_origin RemoteAgent
         ((envelope_new i run t sender recipient (into_ipc (ae_message e)))
            \<lparr>env_provenance := FromRemoteAgent (ae_external_agent e)\<rparr>)
       in case envelope_validate envelope of Err x \<Rightarrow> Err (A2aIpc x) | Ok _ \<Rightarrow> Ok envelope)"

section \<open>Translation\<close>

lemma a2a_text_ipc: "a2a_validate_text f v = Ok u \<Longrightarrow> ipc_validate_text g v = Ok ()"
  by (auto simp: a2a_validate_text_def ipc_validate_text_def A2A_MAX_TEXT_BYTES_def IPC_MAX_STRING_BYTES_def
      split: if_splits)

lemma into_ipc_valid: "a2a_message_validate m = Ok u \<Longrightarrow> message_validate (into_ipc m) = Ok ()"
  by (cases m) (auto dest: a2a_text_ipc simp: ipc_validate_optional_text_def ipc_validate_text_list_def)

text \<open>
  Messages of other agents. A valid message is never refused by the internal checks: it becomes a
  valid envelope that names its external sender, carries the same message, and whose effective
  trust is that of a remote agent, which is not trusted. An invalid message has no envelope.
\<close>

theorem remote_messages_translated:
  "is_ok (to_ipc i e run t sender recipient) = is_ok (a2a_validate e)"
  "to_ipc i e run t sender recipient = Ok v \<Longrightarrow>
     envelope_validate v = Ok () \<and> env_payload v = into_ipc (ae_message e)
     \<and> env_provenance v = FromRemoteAgent (ae_external_agent e)
     \<and> ipc_effective_trust v = RemoteAgent \<and> \<not> is_trusted (ipc_effective_trust v)"
proof -
  define v0 where "v0 = with_input_origin RemoteAgent
    ((envelope_new i run t sender recipient (into_ipc (ae_message e)))
       \<lparr>env_provenance := FromRemoteAgent (ae_external_agent e)\<rparr>)"
  have v0: "env_payload v0 = into_ipc (ae_message e)" "env_causal v0 = []" "env_origins v0 = [RemoteAgent]"
    "env_provenance v0 = FromRemoteAgent (ae_external_agent e)"
    by (simp_all add: v0_def with_input_origin_def envelope_new_def)
  have valid: "envelope_validate v0 = Ok ()" if "a2a_validate e = Ok u" for u
    using that by (auto simp: a2a_validate_def envelope_validate_def v0 into_ipc_valid MAX_CAUSAL_EVENTS_def
        IPC_MAX_INPUT_ORIGINS_def dest: a2a_text_ipc split: if_splits)
  show "is_ok (to_ipc i e run t sender recipient) = is_ok (a2a_validate e)"
    using valid by (cases "a2a_validate e") (simp_all add: to_ipc_def v0_def Let_def)
  show "to_ipc i e run t sender recipient = Ok v \<Longrightarrow>
     envelope_validate v = Ok () \<and> env_payload v = into_ipc (ae_message e)
     \<and> env_provenance v = FromRemoteAgent (ae_external_agent e)
     \<and> ipc_effective_trust v = RemoteAgent \<and> \<not> is_trusted (ipc_effective_trust v)"
    using v0 by (auto simp: to_ipc_def v0_def [symmetric] Let_def ipc_effective_trust_def combine_trust_def
        split: result.splits)
qed

end
