(* ===== verification/Plugin_Properties.thy ===== *)
theory Plugin_Properties
  imports Plugin_Host Plugin_Manifest_Text Plugin_Wire A2a
begin

text \<open>
  What the plugin crates guarantee together: the calls of the host, activation, supervised
  processes, the protocol of a process, messages from other agents.
\<close>

section \<open>Calls\<close>

lemma process_effects_checked:
  assumes "snd (process_invoke effects run cl m r p) \<noteq> p \<or> is_ok (fst (process_invoke effects run cl m r p))"
  shows "\<forall>c \<in> set (effects (pp_invoker p)). permitted cl c"
  using assms
  by (auto simp: process_invoke_def try_all_Ok_iff authorize_effect_def authorize_capability_def
      authorize_owner_def permitted_def split: if_splits result.splits)

lemma bm_insert_same: "bm_get m k = Some v \<Longrightarrow> bm_insert k v m = m"
  by (rule bm_ext) (simp add: bm_get_insert)

lemma activated_permitted:
  assumes "snd (activated_invoke ou cl (activated_manifest p) r p) \<noteq> p
    \<or> is_ok (fst (activated_invoke ou cl (activated_manifest p) r p))"
  shows "(\<forall>c \<in> set (pm_capabilities (activated_manifest p)). permitted cl c)
    \<and> (\<forall>q. p = ActProcess q \<longrightarrow> permitted cl \<lparr>pc_domain = Process, pc_resource = fst (pp_invoker q)\<rparr>)
    \<and> plugin_request_validate (pm_limits (activated_manifest p)) r = Ok ()"
proof -
  have "permitted cl \<lparr>pc_domain = Process, pc_resource = fst (pp_invoker q)\<rparr>" if p: "p = ActProcess q" for q
  proof -
    from assms have "snd (process_invoke command_effects (out_run ou) cl (pp_manifest q) r q) \<noteq> q
        \<or> is_ok (fst (process_invoke command_effects (out_run ou) cl (pp_manifest q) r q))"
      by (simp add: p split_beta Let_def)
    from process_effects_checked [OF this] show ?thesis by (simp add: command_effects_def split_beta)
  qed
  with activated.effect_permitted [OF assms] show ?thesis by blast
qed

text \<open>
  C20: calls of plugins. A call of the host answers, or changes anything, only if the plugin is
  activated, the policies permit the caller every capability the manifest declares and, for a
  process, to run its program, and the request is within the limits. An answer belongs to the
  request and its origin is never trusted. No call changes a manifest or another plugin.
\<close>

theorem host_calls_permitted:
  assumes "host_invoke ou i cl r h = (s, h')"
  shows "(is_ok s \<or> h' \<noteq> h \<longrightarrow> (\<exists>p. bm_get (ph_plugins h) i = Some p
        \<and> (\<forall>c \<in> set (pm_capabilities (activated_manifest p)). permitted cl c)
        \<and> (\<forall>q. p = ActProcess q \<longrightarrow> permitted cl \<lparr>pc_domain = Process, pc_resource = fst (pp_invoker q)\<rparr>)
        \<and> plugin_request_validate (pm_limits (activated_manifest p)) r = Ok ()))
    \<and> (\<forall>v. s = Ok v \<longrightarrow> rs_id v = rq_id r \<and> \<not> is_trusted (rs_origin v))
    \<and> (\<forall>j. map_option activated_manifest (bm_get (ph_plugins h') j) = map_option activated_manifest (bm_get (ph_plugins h) j))
    \<and> (\<forall>j. j \<noteq> i \<longrightarrow> bm_get (ph_plugins h') j = bm_get (ph_plugins h) j)"
proof (cases "bm_get (ph_plugins h) i")
  case None
  with assms show ?thesis by (auto simp: host_invoke_def)
next
  case (Some p)
  obtain t q where call: "activated_invoke ou cl (activated_manifest p) r p = (t, q)" by fastforce
  with assms Some have s: "s = map_err HostPlugin t" and h': "h' = h\<lparr>ph_plugins := bm_insert i q (ph_plugins h)\<rparr>"
    by (simp_all add: host_invoke_def)
  have manifest: "activated_manifest q = activated_manifest p"
    using activated.keeps_manifest [of ou cl "activated_manifest p" r p] by (simp add: call)
  have sound: "rs_id v = rq_id r \<and> \<not> is_trusted (rs_origin v)" if "s = Ok v" for v
    using activated.response_sound [of ou cl "activated_manifest p" r p v] that by (simp add: s call)
  have "q \<noteq> p \<or> is_ok t" if "is_ok s \<or> h' \<noteq> h"
    using that Some by (cases t) (auto simp: s h' bm_insert_same)
  with activated_permitted [of ou cl p r] have "is_ok s \<or> h' \<noteq> h \<Longrightarrow>
      (\<forall>c \<in> set (pm_capabilities (activated_manifest p)). permitted cl c)
      \<and> (\<forall>q. p = ActProcess q \<longrightarrow> permitted cl \<lparr>pc_domain = Process, pc_resource = fst (pp_invoker q)\<rparr>)
      \<and> plugin_request_validate (pm_limits (activated_manifest p)) r = Ok ()"
    by (simp add: call)
  with sound manifest Some show ?thesis by (auto simp: h' bm_get_insert)
qed

section \<open>Activation\<close>

lemma bm_entries_keys_distinct: "distinct (map fst (bm_entries m))"
  using bm_entries_ascending [of m] by (simp add: strict_sorted_iff)

lemma bm_len_card: "bm_len m = card {k. bm_get m k \<noteq> None}"
proof -
  have "{k. bm_get m k \<noteq> None} = set (map fst (bm_entries m))"
    by (auto simp: bm_entries_get [symmetric] image_iff) (metis fst_conv)
  then show ?thesis
    using distinct_card [OF bm_entries_keys_distinct [of m]] by (simp add: bm_len_def)
qed

lemma bm_keys_finite: "finite {k. bm_get m k \<noteq> None}"
proof -
  have "{k. bm_get m k \<noteq> None} \<subseteq> fst ` set (bm_entries m)"
    by (force simp: bm_entries_get [symmetric])
  then show ?thesis by (rule finite_subset) simp
qed

lemma bm_get_foldl:
  "distinct (map fst es) \<Longrightarrow> bm_get (foldl (\<lambda>m (k, v). bm_insert k v m) m es) j =
     (case map_of es j of Some v \<Rightarrow> Some v | None \<Rightarrow> bm_get m j)"
proof (induction es arbitrary: m)
  case (Cons e es)
  obtain k v where e: "e = (k, v)" by (cases e)
  have "map_of es k = None" using Cons.prems by (simp add: e map_of_eq_None_iff)
  then show ?case
    using Cons.IH [of "bm_insert k v m"] Cons.prems by (auto simp: e bm_get_insert split: option.splits)
qed simp

lemma bm_get_extend: "bm_get (bm_extend m n) j = (case bm_get n j of Some v \<Rightarrow> Some v | None \<Rightarrow> bm_get m j)"
  using bm_get_foldl [OF bm_entries_keys_distinct [of n], of m j] by (simp add: bm_extend_def bm_get_map_of [of n])

lemma activate_candidate_manifest:
  "activate_candidate win ou c spec ctx = Ok p \<Longrightarrow> activated_manifest p = dv_manifest c"
  by (auto simp: activate_candidate_def activate_discovered_process_def process_plugin_new_def
      activate_discovered_wasm_def wasm_plugin_new_def activate_mcp_candidate_def mcp_adapter_new_def
      dest!: revalidate_Ok split: plugin_kind.splits if_splits)

abbreviation "candidate_id c \<equiv> pm_id (dv_manifest c)"

text \<open>What staging has achieved: the keys, and that each plugin sits under its own identifier.\<close>

definition own_keys :: "(plugin_id, ('o, 'w, 't) activated_plugin) bmap \<Rightarrow> bool" where
  "own_keys m \<longleftrightarrow> (\<forall>i p. bm_get m i = Some p \<longrightarrow> pm_id (activated_manifest p) = i)"

lemma stage_candidate_Ok:
  assumes "stage_candidate win ou h specs ctx staged c = Ok staged'"
  obtains p where "bm_get (ph_plugins h) (candidate_id c) = None" "staged' = bm_insert (candidate_id c) p staged"
    "activated_manifest p = dv_manifest c"
  using assms
  by (auto simp: stage_candidate_def Let_def bm_contains_key_def dest: activate_candidate_manifest split: if_splits)

lemma staged_candidates:
  assumes "try_fold (stage_candidate win ou h specs ctx) staged cs = Ok staged'" and "own_keys staged"
  shows "own_keys staged'" "\<forall>c \<in> set cs. bm_get (ph_plugins h) (candidate_id c) = None"
    "{i. bm_get staged' i \<noteq> None} = {i. bm_get staged i \<noteq> None} \<union> candidate_id ` set cs"
proof -
  have "own_keys staged' \<and> (\<forall>c \<in> set cs. bm_get (ph_plugins h) (candidate_id c) = None)
      \<and> {i. bm_get staged' i \<noteq> None} = {i. bm_get staged i \<noteq> None} \<union> candidate_id ` set cs"
    using assms
  proof (induction cs arbitrary: staged)
    case (Cons c cs)
    then obtain staged1 where stage: "stage_candidate win ou h specs ctx staged c = Ok staged1"
      and fold: "try_fold (stage_candidate win ou h specs ctx) staged1 cs = Ok staged'"
      by auto
    from stage obtain p where new: "bm_get (ph_plugins h) (candidate_id c) = None"
      and staged1: "staged1 = bm_insert (candidate_id c) p staged" and p: "activated_manifest p = dv_manifest c"
      by (rule stage_candidate_Ok)
    have "own_keys staged1" using Cons.prems(2) p by (simp add: own_keys_def staged1 bm_get_insert)
    note IH = Cons.IH [OF fold this]
    have "{i. bm_get staged1 i \<noteq> None} = insert (candidate_id c) {i. bm_get staged i \<noteq> None}"
      by (auto simp: staged1 bm_get_insert)
    with IH new show ?case by auto
  qed simp
  then show "own_keys staged'" "\<forall>c \<in> set cs. bm_get (ph_plugins h) (candidate_id c) = None"
    "{i. bm_get staged' i \<noteq> None} = {i. bm_get staged i \<noteq> None} \<union> candidate_id ` set cs"
    by simp_all
qed

text \<open>
  C21: activation. It is all or nothing: an error leaves the host as it was. On success exactly the
  discovered candidates that the policy permits have been added, each bound under the identifier
  and the manifest that was discovered, none of them replaces a plugin, and the host holds no more
  than both limits allow.
\<close>

theorem activation_all_or_nothing:
  fixes h h' :: "('o, 'w, 't) plugin_host"
  assumes "activate_directories win ou roots dp ap specs ctx h = (out, h')"
  shows "case out of
      Err e \<Rightarrow> h' = h
    | Ok n \<Rightarrow> \<exists>cs. discover_directories (out_files ou) roots dp = Ok cs
        \<and> n = length (filter (activation_permits ap) cs)
        \<and> bm_len (ph_plugins h') = bm_len (ph_plugins h) + n
        \<and> bm_len (ph_plugins h') \<le> min (ap_max_plugins ap) (ph_max_plugins h)
        \<and> (\<forall>c \<in> set (filter (activation_permits ap) cs). bm_get (ph_plugins h) (candidate_id c) = None
            \<and> (\<exists>p. bm_get (ph_plugins h') (candidate_id c) = Some p \<and> pm_id (activated_manifest p) = candidate_id c))
        \<and> (\<forall>i. i \<notin> candidate_id ` set (filter (activation_permits ap) cs) \<longrightarrow>
            bm_get (ph_plugins h') i = bm_get (ph_plugins h) i)"
proof (cases out)
  case (Err e)
  with assms show ?thesis by (auto simp: activate_directories_def split: result.splits)
next
  case (Ok n)
  from assms Ok obtain cs staged where found: "discover_directories (out_files ou) roots dp = Ok cs"
    and fold: "try_fold (stage_candidate win ou h specs ctx) bm_empty (filter (activation_permits ap) cs) = Ok staged"
    and limit: "\<not> min (ap_max_plugins ap) (ph_max_plugins h)
      < bm_len (ph_plugins h) + length (filter (activation_permits ap) cs)"
    and n: "n = bm_len staged" and h': "h' = h\<lparr>ph_plugins := bm_extend (ph_plugins h) staged\<rparr>"
    by (auto simp: activate_directories_def Let_def split: result.splits if_splits)
  let ?sel = "filter (activation_permits ap) cs"
  have none: "own_keys (bm_empty :: (plugin_id, ('o, 'w, 't) activated_plugin) bmap)"
    by (simp add: own_keys_def bm_get_empty)
  note staged = staged_candidates [OF fold none]
  have "distinct (map candidate_id cs)"
    using discovered_sound(1) [OF found] by (simp add: candidates_ok_def)
  then have distinct: "distinct (map candidate_id ?sel)" by (rule distinct_map_filter)
  have keys: "{i. bm_get staged i \<noteq> None} = candidate_id ` set ?sel"
    using staged(3) by (simp add: bm_get_empty)
  have size: "bm_len staged = length ?sel"
    using distinct_card [OF distinct] unfolding bm_len_card keys by (simp only: set_map length_map)
  have get: "bm_get (ph_plugins h') i = (case bm_get staged i of Some v \<Rightarrow> Some v | None \<Rightarrow> bm_get (ph_plugins h) i)" for i
    by (simp add: h' bm_get_extend)
  have "{i. bm_get (ph_plugins h') i \<noteq> None} = {i. bm_get (ph_plugins h) i \<noteq> None} \<union> {i. bm_get staged i \<noteq> None}"
    by (auto simp: get split: option.splits)
  moreover have "{i. bm_get (ph_plugins h) i \<noteq> None} \<inter> {i. bm_get staged i \<noteq> None} = {}"
    using staged(2) unfolding keys by auto
  ultimately have len: "bm_len (ph_plugins h') = bm_len (ph_plugins h) + bm_len staged"
    by (simp add: bm_len_card card_Un_disjoint bm_keys_finite)
  have added: "bm_get (ph_plugins h) (candidate_id c) = None
      \<and> (\<exists>p. bm_get (ph_plugins h') (candidate_id c) = Some p \<and> pm_id (activated_manifest p) = candidate_id c)"
    if c: "c \<in> set ?sel" for c
  proof -
    from keys c obtain p where "bm_get staged (candidate_id c) = Some p" by blast
    with staged(1,2) c show ?thesis by (auto simp: get own_keys_def)
  qed
  have kept: "bm_get (ph_plugins h') i = bm_get (ph_plugins h) i" if "i \<notin> candidate_id ` set ?sel" for i
  proof -
    from that keys have "bm_get staged i = None" by blast
    then show ?thesis by (simp add: get)
  qed
  show ?thesis
    unfolding Ok result.case
    by (intro exI [of _ cs] conjI ballI allI impI) (use found n size len limit added kept in auto)
qed

section \<open>Supervision\<close>


section \<open>Witnesses\<close>

definition demo_manifest :: plugin_manifest where
  "demo_manifest = \<lparr>pm_id = 9, pm_protocol_version = 1, pm_name = ''demo'', pm_version = ''1'', pm_kind = KindWasm,
     pm_capabilities = [\<lparr>pc_domain = Secrets, pc_resource = ''service/api''\<rparr>], pm_limits = default_limits\<rparr>"

definition demo_caller :: caller where
  "demo_caller = \<lparr>cl_windows = False, cl_debug = (\<lambda>s. s), cl_policy = example_policy,
     cl_ownership = allow_all_authorize, cl_agent = 7, cl_task = None, cl_now_ms = 2\<rparr>"

definition demo_plugin_request :: plugin_request where
  "demo_plugin_request = \<lparr>rq_id = 1, rq_method = ''run'', rq_payload = [5]\<rparr>"

text \<open>A directory with the manifest of a module, and a module that counts its calls.\<close>

definition demo_files :: file_system where
  "demo_files = \<lparr>fsy_read_dir = (\<lambda>root. Ok [Ok \<lparr>de_name = MANIFEST_FILE_NAME, de_path = ''/m'', de_kind = Ok RegularFile\<rparr>]),
     fsy_size = (\<lambda>path. Ok 250), fsy_kind = (\<lambda>path. Ok RegularFile),
     fsy_read = (\<lambda>path. Ok (if path = ''/m'' then as_bytes (manifest_text demo_manifest (Some ''/w'')) else [1]))\<rparr>"

definition demo_outside :: "(unit, nat, unit) outside" where
  "demo_outside = \<lparr>out_run = (\<lambda>m r i. (Err PlugTimedOut, i)),
     out_execute = (\<lambda>cl m r n. (Ok \<lparr>we_payload = rq_payload r, we_memory_used_bytes = 1, we_fuel_used = 1,
       we_elapsed_ms = 1\<rparr>, n + 1)),
     out_send = (\<lambda>mode r t. (Err (McpInvalid ''none''), t)), out_show_tool = (\<lambda>e. ''tool''), out_files = demo_files,
     out_absolute = (\<lambda>path. starts_with path ''/''), out_show_io = (\<lambda>e. ''io''), out_process = (),
     out_compile = (\<lambda>bytes. Ok 0), out_connect = (\<lambda>spec m cl. Err (McpInvalid ''none''))\<rparr>"

definition demo_host :: "(unit, nat, unit) plugin_host" where
  "demo_host = \<lparr>ph_plugins = bm_insert 9 (ActWasm \<lparr>wp_manifest = demo_manifest, wp_invoker = 0\<rparr>) bm_empty, ph_max_plugins = 256\<rparr>"

lemma demo_permitted: "permitted demo_caller \<lparr>pc_domain = Secrets, pc_resource = ''service/api''\<rparr>"
  by (simp add: permitted_def demo_caller_def allow_all_authorize_def security_eval)

lemma demo_request_valid: "plugin_request_validate default_limits demo_plugin_request = Ok ()"
  by (simp add: plugin_request_validate_def limits_validate_def default_limits_def demo_plugin_request_def validate_name_def
      MAX_MESSAGE_BYTES_def MAX_NAME_BYTES_def trim_is_empty_def)

lemma demo_call:
  "host_invoke demo_outside 9 demo_caller demo_plugin_request demo_host =
     (Ok \<lparr>rs_id = 1, rs_payload = [5], rs_origin = External\<rparr>,
      demo_host\<lparr>ph_plugins := bm_insert 9 (ActWasm \<lparr>wp_manifest = demo_manifest, wp_invoker = 1\<rparr>) (ph_plugins demo_host)\<rparr>)"
proof -
  have "authorize_manifest_with_ownership demo_caller demo_manifest = Ok ()"
    by (simp add: authorize_manifest_Ok demo_manifest_def demo_permitted)
  moreover have "pm_limits demo_manifest = default_limits" by (simp add: demo_manifest_def)
  moreover have "wasm_response default_limits demo_plugin_request
      \<lparr>we_payload = [5], we_memory_used_bytes = 1, we_fuel_used = 1, we_elapsed_ms = 1\<rparr>
      = Ok \<lparr>rs_id = 1, rs_payload = [5], rs_origin = External\<rparr>"
    by (simp add: wasm_response_def plugin_response_validate_def limits_validate_def default_limits_def
        demo_plugin_request_def MAX_MESSAGE_BYTES_def Let_def)
  ultimately show ?thesis
    using demo_request_valid
    by (simp add: host_invoke_def demo_host_def bm_get_insert wasm_invoke_def demo_outside_def Let_def)
      (simp add: demo_plugin_request_def)
qed

theorem host_calls_permitted_witness:
  "\<exists>s h'. host_invoke demo_outside 9 demo_caller demo_plugin_request demo_host = (Ok s, h') \<and> rs_id s = 1
     \<and> \<not> is_trusted (rs_origin s) \<and> (\<exists>p. bm_get (ph_plugins demo_host) 9 = Some p \<and> activated_manifest p = demo_manifest
       \<and> (\<forall>c \<in> set (pm_capabilities (activated_manifest p)). permitted demo_caller c))"
  using host_calls_permitted [OF demo_call] demo_call
  by (auto simp: demo_plugin_request_def demo_host_def bm_get_insert)

lemma demo_manifest_valid: "manifest_validate demo_manifest = Ok ()"
  by (simp add: manifest_validate_def demo_manifest_def PLUGIN_PROTOCOL_VERSION_def validate_name_def MAX_NAME_BYTES_def
      MAX_CAPABILITIES_def plugin_capability_validate_def limits_validate_def default_limits_def MAX_MESSAGE_BYTES_def
      trim_is_empty_def)

lemma demo_writable: "writable demo_manifest (Some ''/w'')"
  by (simp add: writable_def demo_manifest_def default_limits_def manifest_text_def manifest_lines_def
      manifest_field_list_def capability_text_def word_text_def printable_def show_nat.simps MAX_LINE_BYTES_def
      MAX_MANIFEST_BYTES_def MAX_MESSAGE_BYTES_def)

definition crashing :: "plugin_manifest \<Rightarrow> plugin_request \<Rightarrow> nat \<Rightarrow> (u8 list, plugin_error) result \<times> nat" where
  "crashing m r n = (Err (PlugCrashed ''gone''), n + 1)"

definition demo_process :: "nat process_plugin" where
  "demo_process = \<lparr>pp_manifest = demo_manifest, pp_invoker = 0\<rparr>"

lemma demo_crash:
  "supervisor_calls (\<lambda>_. []) crashing (supervisor_new demo_process)
     [(SvStart, True), (SvInvoke demo_caller demo_plugin_request, False)]
     \<lparr>sv_plugin = demo_process\<lparr>pp_invoker := 1\<rparr>, sv_state = PsCrashed, sv_restarts = 0\<rparr>"
proof -
  let ?running = "\<lparr>sv_plugin = demo_process, sv_state = PsRunning, sv_restarts = 0\<rparr>"
  have "supervisor_start (supervisor_new demo_process) = (Ok (), ?running)"
    by (simp add: supervisor_start_def supervisor_new_def)
  from supervisor_calls.more [OF supervisor_calls.none supervisor_step.start [OF this], of "\<lambda>_. []" crashing]
  have started: "supervisor_calls (\<lambda>_. []) crashing (supervisor_new demo_process) [(SvStart, True)] ?running"
    by simp
  have "authorize_manifest_with_ownership demo_caller demo_manifest = Ok ()"
    by (simp add: authorize_manifest_Ok demo_manifest_def demo_permitted)
  moreover have "pm_limits demo_manifest = default_limits" by (simp add: demo_manifest_def)
  ultimately have "supervisor_invoke (\<lambda>_. []) crashing demo_caller demo_plugin_request ?running =
      (Err (PlugCrashed ''gone''), \<lparr>sv_plugin = demo_process\<lparr>pp_invoker := 1\<rparr>, sv_state = PsCrashed, sv_restarts = 0\<rparr>)"
    using demo_request_valid
    by (simp add: supervisor_invoke_def process_invoke_def process_invoke_unchecked_def demo_process_def crashing_def)
  from supervisor_calls.more [OF started supervisor_step.invoke [OF this]] show ?thesis by simp
qed


text \<open>Activating the module in the directory.\<close>

definition demo_policy :: activation_policy where "demo_policy = default_activation_policy"

abbreviation "demo_candidate \<equiv> \<lparr>dv_manifest = demo_manifest, dv_source = ''/m'',
  dv_manifest_limit = MAX_MANIFEST_BYTES, dv_entrypoint = Some ''/w''\<rparr>"

lemma demo_read:
  "read_bounded_file demo_files ''/m'' MAX_MANIFEST_BYTES = Ok (as_bytes (manifest_text demo_manifest (Some ''/w'')))"
  using demo_writable
  by (simp add: read_bounded_Ok writable_def length_as_bytes demo_files_def) (simp add: MAX_MANIFEST_BYTES_def)

lemmas demo_parses = manifest_text_parses [OF demo_writable demo_manifest_valid]

lemma demo_discovered: "discover_directories demo_files [''/p''] default_discovery_policy = Ok [demo_candidate]"
proof -
  have "fsy_read_dir demo_files ''/p'' = Ok [Ok \<lparr>de_name = MANIFEST_FILE_NAME, de_path = ''/m'', de_kind = Ok RegularFile\<rparr>]"
    "fsy_size demo_files ''/m'' = Ok 250"
    by (simp_all add: demo_files_def)
  moreover have "discovery_policy_validate default_discovery_policy = Ok ()" "250 \<le> MAX_MANIFEST_BYTES"
    "MAX_DISCOVERY_FILES \<noteq> 0"
    by (simp_all add: discovery_policy_validate_def default_discovery_policy_def MAX_DISCOVERY_FILES_def
        MAX_MANIFEST_BYTES_def)
  ultimately show ?thesis
    by (simp add: discover_directories_def discover_root_def manifest_entry_def read_candidate_def demo_read demo_parses
        default_discovery_policy_def discovery_permits_def)
qed

lemma demo_revalidates: "revalidate_discovered_plugin demo_files demo_candidate = Ok (demo_manifest, Some ''/w'')"
proof -
  have "fsy_kind demo_files ''/m'' = Ok RegularFile" by (simp add: demo_files_def)
  moreover have "MAX_MANIFEST_BYTES \<noteq> 0" by (simp add: MAX_MANIFEST_BYTES_def)
  ultimately show ?thesis by (simp add: revalidate_discovered_plugin_def demo_read demo_parses)
qed

lemma demo_activates:
  "activate_directories False demo_outside [''/p''] default_discovery_policy default_activation_policy None None host_new =
     (Ok 1, host_new\<lparr>ph_plugins := bm_extend bm_empty
        (bm_insert 9 (ActWasm \<lparr>wp_manifest = demo_manifest, wp_invoker = 0\<rparr>) bm_empty)\<rparr>)"
proof -
  have files: "out_files demo_outside = demo_files" by (simp add: demo_outside_def)
  have "activate_discovered_wasm demo_outside demo_candidate = Ok \<lparr>wp_manifest = demo_manifest, wp_invoker = 0\<rparr>"
  proof -
    have "read_bounded_file demo_files ''/w'' MAX_WASM_MODULE_BYTES = Ok [1]"
      by (simp add: read_bounded_Ok demo_files_def MAX_WASM_MODULE_BYTES_def)
    moreover have "fsy_kind demo_files ''/w'' = Ok RegularFile" by (simp add: demo_files_def)
    moreover have "pm_kind demo_manifest = KindWasm" by (simp add: demo_manifest_def)
    moreover have "out_absolute demo_outside ''/w''" "wasmi_invoker_new demo_outside [1] = Ok 0"
      by (simp_all add: demo_outside_def wasmi_invoker_new_def MAX_WASM_MODULE_BYTES_def)
    ultimately show ?thesis
      by (simp add: activate_discovered_wasm_def files demo_revalidates wasm_plugin_new_def demo_manifest_valid)
  qed
  moreover have "pm_kind demo_manifest = KindWasm" "pm_id demo_manifest = 9" by (simp_all add: demo_manifest_def)
  moreover have "activation_policy_validate default_activation_policy = Ok ()"
    "activation_permits default_activation_policy demo_candidate"
    by (simp_all add: activation_policy_validate_def activation_permits_def default_activation_policy_def MAX_PLUGINS_def
        demo_manifest_def)
  moreover have "ap_max_plugins default_activation_policy = 256"
    by (simp add: default_activation_policy_def MAX_PLUGINS_def)
  ultimately show ?thesis
    by (simp add: activate_directories_def files demo_discovered host_new_def bm_len_def check_mcp_specs_def
        stage_candidate_def bm_contains_key_def bm_get_empty activate_candidate_def MAX_PLUGINS_def Let_def)
qed

theorem activation_all_or_nothing_witness:
  "\<exists>h'. activate_directories False demo_outside [''/p''] default_discovery_policy default_activation_policy None None host_new
       = (Ok 1, h') \<and> bm_len (ph_plugins h') = 1
     \<and> (\<exists>p. bm_get (ph_plugins h') 9 = Some p \<and> pm_id (activated_manifest p) = 9)"
proof -
  have id: "pm_id demo_manifest = 9" by (simp add: demo_manifest_def)
  have permits: "activation_permits default_activation_policy demo_candidate"
    by (simp add: activation_permits_def default_activation_policy_def demo_manifest_def)
  have files: "out_files demo_outside = demo_files" by (simp add: demo_outside_def)
  show ?thesis
    using activation_all_or_nothing [OF demo_activates] demo_activates
    by (auto simp: files demo_discovered permits id host_new_def bm_len_def)
qed

end
